(* ===== verification/Py_Prelude.thy ===== *)
theory Py_Prelude
  imports Main "HOL-Library.Word"
begin

text \<open>
  Shared vocabulary of the development: the part of the Python object model that the Guardian
  node's modules rely on, and the generic lemmas the component theories share.

  \<^item> A Python \<open>str\<close> is a list of code points (\<open>pystr\<close>), lone surrogates
    included; \<open>bytes\<close> is a list of 8-bit words.
  \<^item> A dynamically typed field is a \<open>pyval\<close>. Dataclass fields whose type the code tests at run
    time (\<open>isinstance\<close>, \<open>type(x) is\<close>) have this type in the records of the model, so every such
    test is a branch of the model. A float is identified with its \<open>repr\<close>. A dict is the list of its
    items in insertion order.
  \<^item> A call that may raise returns \<open>pyexc + 'a\<close>; the left side is the class of the exception. The
    message texts of exceptions are not modelled.
\<close>

named_theorems res_simps \<open>rewriting of exception-monad terms\<close>
named_theorems text_simps \<open>rewriting of code-point and byte lists\<close>

subsection \<open>Strings and bytes\<close>

type_synonym pystr = "nat list"
type_synonym byte = "8 word"
type_synonym bytes = "byte list"

definition u :: "string \<Rightarrow> pystr" where
  "u s = map of_char s"

definition ascii_bytes :: "pystr \<Rightarrow> bytes" where
  "ascii_bytes s = map of_nat s"

definition is_ascii :: "pystr \<Rightarrow> bool" where
  "is_ascii s \<longleftrightarrow> list_all (\<lambda>c. c < 128) s"

fun has_prefix :: "'a list \<Rightarrow> 'a list \<Rightarrow> bool" where
  "has_prefix [] ys = True"
| "has_prefix (x # xs) [] = False"
| "has_prefix (x # xs) (y # ys) = (x = y \<and> has_prefix xs ys)"

fun contains :: "'a list \<Rightarrow> 'a list \<Rightarrow> bool" where
  "contains pat [] = has_prefix pat []"
| "contains pat (x # xs) = (has_prefix pat (x # xs) \<or> contains pat xs)"

subsection \<open>Lower-case hexadecimal text\<close>

definition is_hex_char :: "nat \<Rightarrow> bool" where
  "is_hex_char c \<longleftrightarrow> (48 \<le> c \<and> c \<le> 57) \<or> (97 \<le> c \<and> c \<le> 102)"

definition hex_digit :: "nat \<Rightarrow> nat" where
  "hex_digit n = (if n < 10 then 48 + n else 87 + n)"

definition hex_value :: "nat \<Rightarrow> nat" where
  "hex_value c = (if c \<le> 57 then c - 48 else c - 87)"

definition is_lower_hex :: "nat \<Rightarrow> pystr \<Rightarrow> bool" where
  "is_lower_hex n s \<longleftrightarrow> length s = n \<and> list_all is_hex_char s"

definition hex_of_byte :: "byte \<Rightarrow> pystr" where
  "hex_of_byte b = [hex_digit (unat b div 16), hex_digit (unat b mod 16)]"

definition hex_of_bytes :: "bytes \<Rightarrow> pystr" where
  "hex_of_bytes bs = concat (map hex_of_byte bs)"

text \<open>\<open>bytes.fromhex\<close> on text that has already passed a lower-case hexadecimal test.\<close>

fun bytes_fromhex :: "pystr \<Rightarrow> bytes" where
  "bytes_fromhex (a # b # s) = of_nat (16 * hex_value a + hex_value b) # bytes_fromhex s"
| "bytes_fromhex _ = []"

text \<open>\<open>int.to_bytes(k, "big")\<close> and \<open>int.from_bytes(bs, "big")\<close>.\<close>

fun be_bytes :: "nat \<Rightarrow> nat \<Rightarrow> bytes" where
  "be_bytes 0 n = []"
| "be_bytes (Suc k) n = be_bytes k (n div 256) @ [of_nat (n mod 256)]"

definition be_value :: "bytes \<Rightarrow> nat" where
  "be_value bs = foldl (\<lambda>acc b. 256 * acc + unat b) 0 bs"

subsection \<open>Dynamic values\<close>

datatype pyval =
    PNone
  | PBool bool
  | PInt int
  | PFloat pystr
  | PStr pystr
  | PList "pyval list"
  | PDict "(pystr \<times> pyval) list"

abbreviation plit :: "string \<Rightarrow> pyval" where
  "plit s \<equiv> PStr (u s)"

text \<open>Dictionary and set operations hash their keys; lists and dicts are unhashable.\<close>

fun py_hashable :: "pyval \<Rightarrow> bool" where
  "py_hashable (PList _) = False"
| "py_hashable (PDict _) = False"
| "py_hashable _ = True"

text \<open>
  \<open>value == n\<close> for a Python integer constant below \<open>10^16\<close>: a bool is an int, and a float of the
  same value has the \<open>repr\<close> of the integer followed by \<open>.0\<close>. It is only used with the constant 1.
\<close>

fun py_eq_one :: "pyval \<Rightarrow> bool" where
  "py_eq_one (PInt n) = (n = 1)"
| "py_eq_one (PBool b) = b"
| "py_eq_one (PFloat r) = (r = u ''1.0'')"
| "py_eq_one _ = False"

fun is_str :: "pyval \<Rightarrow> bool" where
  "is_str (PStr _) = True"
| "is_str _ = False"

text \<open>\<open>isinstance(value, int) and not isinstance(value, bool)\<close>\<close>

fun is_int :: "pyval \<Rightarrow> bool" where
  "is_int (PInt _) = True"
| "is_int _ = False"

fun int_in :: "int \<Rightarrow> int \<Rightarrow> pyval \<Rightarrow> bool" where
  "int_in lo hi (PInt n) = (lo \<le> n \<and> n \<le> hi)"
| "int_in lo hi _ = False"

fun is_hex_val :: "nat \<Rightarrow> pyval \<Rightarrow> bool" where
  "is_hex_val n (PStr s) = is_lower_hex n s"
| "is_hex_val n _ = False"

text \<open>Text and integer of a value that is known to be one; never used on another value.\<close>

fun the_str :: "pyval \<Rightarrow> pystr" where
  "the_str (PStr s) = s"
| "the_str _ = []"

fun the_int :: "pyval \<Rightarrow> int" where
  "the_int (PInt n) = n"
| "the_int _ = 0"

subsection \<open>Exceptions\<close>

datatype pyexc =
    ValueError
  | TypeError
  | OverflowError
  | AttributeError
  | UnicodeDecodeError
  | UnicodeEncodeError
  | JSONDecodeError
  | RecursionError
  | SqliteError
  | BallotFormatError
  | BallotVerificationError
  | BallotReplayError
  | BallotIngressError
  | ObservableBundleError
  | ObservableApprovalError
  | ThreatHintV2StatementError
  | ThreatHintV2ProofEnvelopeError
  | ThreatHintV2TransportError
  | RelationManifestV2Error
  | ThreatHintV2ProofBindingError
  | ThreatHintV2PreflightError
  | ThreatHintV2VerifiedPreflightError
  | ThreatHintV2VerifiedPreflightUnavailableError
  | ThreatHintV2VerifiedPreflightBusyError
  | ThreatHintV2GovernancePolicyError
  | OutboxRetentionPolicyError
  | ObservableApprovalConsumptionError
  | ObservableApprovalReplayError
  | ObservableApprovalBusyError
  | ObservableApprovalGovernanceCandidateError
  | ObservableApprovalGovernanceUnavailableError
  | ObservableApprovalOutboxError
  | ThreatHintV2AcceptanceError
  | ThreatHintV2AcceptanceUnavailableError
  | ThreatHintV2AcceptanceReplayError
  | ThreatHintV2AcceptanceBusyError
  | ThreatHintV2PromotionError
  | ThreatHintV2PromotionUnavailableError
  | ThreatHintV2PromotionReplayError
  | ThreatHintV2PromotionBusyError
  | ThreatHintV2IngressError
  | GuardianMembershipSourceError
  | GuardianMembershipTransitionError
  | GuardianMembershipTransitionReplayError
  | GuardianAuthorityRotationError
  | GuardianAuthorityRotationReplayError
  | ObservableAnalysisWorkerError
  | ObservableAnalysisWorkerTimeoutError
  | ObservableSemanticDraftError
  | EndpointObservationError
  | ThreatHintIngressError
  | ThreatHintReplayError
  | ThreatProofVerifierUnavailable
  | ThreatHintAdapterError
  | ConfidenceEvaluationError
  | YaraSemanticQualityError
  | OSError
  | OtherError

text \<open>
  The class hierarchy the \<open>except\<close> clauses of the modules test. Every class named here but
  \<open>TypeError\<close>, \<open>OverflowError\<close>, \<open>AttributeError\<close>, \<open>RecursionError\<close>, \<open>SqliteError\<close>, \<open>OSError\<close> and
  \<open>OtherError\<close> (an exception raised by injected code) derives from \<open>ValueError\<close>.
\<close>

fun is_value_error :: "pyexc \<Rightarrow> bool" where
  "is_value_error TypeError = False"
| "is_value_error OverflowError = False"
| "is_value_error AttributeError = False"
| "is_value_error RecursionError = False"
| "is_value_error SqliteError = False"
| "is_value_error OSError = False"
| "is_value_error OtherError = False"
| "is_value_error _ = True"

type_synonym 'a res = "pyexc + 'a"

definition rbind :: "'e + 'a \<Rightarrow> ('a \<Rightarrow> 'e + 'b) \<Rightarrow> 'e + 'b" where
  "rbind m f = (case m of Inl e \<Rightarrow> Inl e | Inr x \<Rightarrow> f x)"

definition raise_if :: "bool \<Rightarrow> 'e \<Rightarrow> 'e + unit" where
  "raise_if c e = (if c then Inl e else Inr ())"

text \<open>\<open>try: m; except Classes: handler\<close>, where \<open>p\<close> tells which classes are caught.\<close>

definition catch :: "'e + 'a \<Rightarrow> ('e \<Rightarrow> bool) \<Rightarrow> ('e \<Rightarrow> 'e + 'a) \<Rightarrow> 'e + 'a" where
  "catch m p h = (case m of Inl e \<Rightarrow> (if p e then h e else Inl e) | Inr x \<Rightarrow> Inr x)"

text \<open>\<open>tuple(f(x) for x in xs)\<close> where \<open>f\<close> may raise: the first exception wins.\<close>

fun rmap :: "('a \<Rightarrow> 'e + 'b) \<Rightarrow> 'a list \<Rightarrow> 'e + 'b list" where
  "rmap f [] = Inr []"
| "rmap f (x # xs) = rbind (f x) (\<lambda>y. rbind (rmap f xs) (\<lambda>ys. Inr (y # ys)))"

subsection \<open>Dictionaries as association lists\<close>

fun dict_get :: "(pystr \<times> 'v) list \<Rightarrow> pystr \<Rightarrow> 'v option" where
  "dict_get [] k = None"
| "dict_get ((k', v) # kvs) k = (if k' = k then Some v else dict_get kvs k)"

text \<open>\<open>d[k]\<close> where the key is known to be present (\<open>set(d)\<close> was compared with the schema).\<close>

definition dict_at :: "(pystr \<times> pyval) list \<Rightarrow> string \<Rightarrow> pyval" where
  "dict_at kvs k = (case dict_get kvs (u k) of Some v \<Rightarrow> v | None \<Rightarrow> PNone)"

definition dict_keys :: "(pystr \<times> 'v) list \<Rightarrow> pystr list" where
  "dict_keys kvs = map fst kvs"

definition keys_are :: "string list \<Rightarrow> (pystr \<times> 'v) list \<Rightarrow> bool" where
  "keys_are ks kvs \<longleftrightarrow> set (dict_keys kvs) = set (map u ks)"

subsection \<open>The exception monad\<close>

lemma rbind_Inl [simp]: "rbind (Inl e) f = Inl e"
  and rbind_Inr [simp]: "rbind (Inr x) f = f x"
  by (simp_all add: rbind_def)

lemma rbind_eq_Inr [simp]: "rbind m f = Inr y \<longleftrightarrow> (\<exists>x. m = Inr x \<and> f x = Inr y)"
  by (cases m) simp_all

lemma rbind_eq_Inl: "rbind m f = Inl e \<longleftrightarrow> m = Inl e \<or> (\<exists>x. m = Inr x \<and> f x = Inl e)"
  by (cases m) simp_all

lemma raise_if_Inr [simp]: "raise_if c e = Inr x \<longleftrightarrow> \<not> c"
  by (simp add: raise_if_def)

lemma raise_if_Inl [simp]: "raise_if c e = Inl e' \<longleftrightarrow> c \<and> e = e'"
  by (auto simp: raise_if_def)

lemma raise_if_True [simp]: "raise_if True e = Inl e"
  and raise_if_False [simp]: "raise_if False e = Inr ()"
  by (simp_all add: raise_if_def)

lemma rbind_raise_if: "rbind (raise_if c e) f = (if c then Inl e else f ())"
  by simp

lemma rbind_assoc: "rbind (rbind m f) g = rbind m (\<lambda>x. rbind (f x) g)"
  by (cases m) simp_all

lemma catch_Inr [simp]: "catch (Inr x) p h = Inr x"
  and catch_Inl: "catch (Inl e) p h = (if p e then h e else Inl e)"
  by (simp_all add: catch_def)

lemma catch_eq_Inr_raise:
  "catch m p (\<lambda>e. Inl (g e)) = Inr y \<longleftrightarrow> m = Inr y"
  by (auto simp: catch_def split: sum.splits)

lemma rmap_eq_Inr_iff: "rmap f xs = Inr ys \<longleftrightarrow> list_all2 (\<lambda>x y. f x = Inr y) xs ys"
proof (induction xs arbitrary: ys)
  case (Cons x xs)
  then show ?case by (cases ys) auto
qed auto

lemma rmap_total: "(\<And>x. x \<in> set xs \<Longrightarrow> f x = Inr (g x)) \<Longrightarrow> rmap f xs = Inr (map g xs)"
  by (induction xs) auto

lemmas res_split = rbind_raise_if

subsection \<open>Lemmas on text\<close>

lemma u_append [text_simps]: "u (s @ t) = u s @ u t"
  by (simp add: u_def)

lemma u_Nil [simp]: "u [] = []"
  by (simp add: u_def)

lemma u_Cons: "u (c # s) = of_char c # u s"
  by (simp add: u_def)

lemma length_u [simp]: "length (u s) = length s"
  by (simp add: u_def)

lemma of_char_nat_inj: "(of_char c :: nat) = of_char d \<longleftrightarrow> c = d"
  by (rule of_char_eq_iff)

lemma u_eq_iff [simp]: "u s = u t \<longleftrightarrow> s = t"
  by (simp add: u_def inj_map_eq_map inj_on_def of_char_nat_inj)

lemma u_in_image [simp]: "u k \<in> u ` S \<longleftrightarrow> k \<in> S"
  by auto

lemma has_prefix_iff: "has_prefix p s \<longleftrightarrow> (\<exists>t. s = p @ t)"
  by (induction p s rule: has_prefix.induct) auto

lemma contains_iff: "contains p s \<longleftrightarrow> (\<exists>a b. s = a @ p @ b)"
proof (induction s)
  case Nil
  then show ?case by (auto simp: has_prefix_iff)
next
  case (Cons x s)
  note IH = Cons.IH
  show ?case
  proof
    assume "contains p (x # s)"
    then show "\<exists>a b. x # s = a @ p @ b"
      using Cons.IH by (metis append_Cons append_Nil contains.simps(2) has_prefix_iff)
  next
    assume "\<exists>a b. x # s = a @ p @ b"
    then obtain a b where ab: "x # s = a @ p @ b" by blast
    show "contains p (x # s)"
    proof (cases a)
      case Nil
      with ab have "has_prefix p (x # s)" by (auto simp: has_prefix_iff)
      then show ?thesis by simp
    next
      case (Cons y a')
      with ab have "contains p s" using IH by auto
      then show ?thesis by simp
    qed
  qed
qed

lemma length_ascii_bytes [simp]: "length (ascii_bytes s) = length s"
  by (simp add: ascii_bytes_def)

lemma ascii_bytes_append [text_simps]: "ascii_bytes (s @ t) = ascii_bytes s @ ascii_bytes t"
  by (simp add: ascii_bytes_def)

lemma is_ascii_append [simp]: "is_ascii (s @ t) \<longleftrightarrow> is_ascii s \<and> is_ascii t"
  and is_ascii_Nil [simp]: "is_ascii []"
  and is_ascii_Cons [simp]: "is_ascii (c # s) \<longleftrightarrow> c < 128 \<and> is_ascii s"
  by (simp_all add: is_ascii_def)

lemma unat_of_nat_byte: "n < 256 \<Longrightarrow> unat (of_nat n :: byte) = n"
  by (simp add: unat_of_nat)

lemma ascii_bytes_inj:
  assumes "is_ascii s" and "is_ascii t" and "ascii_bytes s = ascii_bytes t"
  shows "s = t"
proof -
  have "map unat (ascii_bytes r) = r" if "is_ascii r" for r
    using that by (induction r) (auto simp: ascii_bytes_def is_ascii_def unat_of_nat_byte)
  with assms show ?thesis by metis
qed

subsection \<open>Lemmas on hexadecimal text\<close>

lemma is_hex_char_digit [simp]: "n < 16 \<Longrightarrow> is_hex_char (hex_digit n)"
  by (auto simp: is_hex_char_def hex_digit_def)

lemma hex_value_digit [simp]: "n < 16 \<Longrightarrow> hex_value (hex_digit n) = n"
  by (auto simp: hex_value_def hex_digit_def)

lemma hex_digit_value: "is_hex_char c \<Longrightarrow> hex_digit (hex_value c) = c"
  by (auto simp: hex_value_def hex_digit_def is_hex_char_def)

lemma hex_value_bound: "is_hex_char c \<Longrightarrow> hex_value c < 16"
  by (auto simp: hex_value_def is_hex_char_def)

lemma is_hex_char_ascii: "is_hex_char c \<Longrightarrow> c < 128"
  by (auto simp: is_hex_char_def)

lemma byte_bound: "unat (b :: byte) < 256"
  using unsigned_less [of b] by simp

lemma length_hex_of_bytes [simp]: "length (hex_of_bytes bs) = 2 * length bs"
  by (induction bs) (simp_all add: hex_of_bytes_def hex_of_byte_def)

lemma hex_of_bytes_chars: "list_all is_hex_char (hex_of_bytes bs)"
proof (induction bs)
  case (Cons b bs)
  have "unat b div 16 < 16" using byte_bound [of b] by simp
  with Cons show ?case by (simp add: hex_of_bytes_def hex_of_byte_def)
qed (simp add: hex_of_bytes_def)

lemma is_lower_hex_of_bytes: "is_lower_hex (2 * length bs) (hex_of_bytes bs)"
  by (simp add: is_lower_hex_def hex_of_bytes_chars)

lemma bytes_fromhex_of_bytes [simp]: "bytes_fromhex (hex_of_bytes bs) = bs"
proof (induction bs)
  case (Cons b bs)
  have "unat b div 16 < 16" using byte_bound [of b] by simp
  with Cons show ?case
    by (simp add: hex_of_bytes_def hex_of_byte_def)
qed (simp add: hex_of_bytes_def)

lemma hex_of_bytes_inj [simp]: "hex_of_bytes a = hex_of_bytes b \<longleftrightarrow> a = b"
  by (metis bytes_fromhex_of_bytes)

lemma hex_of_bytes_fromhex:
  "list_all is_hex_char s \<Longrightarrow> even (length s) \<Longrightarrow> hex_of_bytes (bytes_fromhex s) = s"
proof (induction s rule: bytes_fromhex.induct)
  case (1 a b s)
  let ?x = "hex_value a" and ?y = "hex_value b"
  have b: "?x < 16" "?y < 16" using 1 by (auto intro: hex_value_bound)
  then have "unat (of_nat (16 * ?x + ?y) :: byte) = 16 * ?x + ?y"
    by (intro unat_of_nat_byte) simp
  with 1 b show ?case
    by (simp add: hex_of_bytes_def hex_of_byte_def hex_digit_value)
qed (auto simp: hex_of_bytes_def)

lemma length_bytes_fromhex: "length (bytes_fromhex s) = length s div 2"
  by (induction s rule: bytes_fromhex.induct) auto

lemma is_hex_val_iff: "is_hex_val n v \<longleftrightarrow> (\<exists>s. v = PStr s \<and> is_lower_hex n s)"
  by (cases v) auto

lemma is_int_iff: "is_int v \<longleftrightarrow> (\<exists>n. v = PInt n)"
  by (cases v) auto

lemma is_str_iff: "is_str v \<longleftrightarrow> (\<exists>s. v = PStr s)"
  by (cases v) auto

lemma int_in_iff: "int_in lo hi v \<longleftrightarrow> (\<exists>n. v = PInt n \<and> lo \<le> n \<and> n \<le> hi)"
  by (cases v) auto

lemma case_PDict_Inr [simp]:
  "(case v of PDict d \<Rightarrow> f d | _ \<Rightarrow> Inl e) = Inr y \<longleftrightarrow> (\<exists>d. v = PDict d \<and> f d = Inr y)"
  by (cases v) auto

subsection \<open>Lemmas on big-endian integers\<close>

lemma length_be_bytes [simp]: "length (be_bytes k n) = k"
  by (induction k arbitrary: n) auto

lemma be_value_snoc: "be_value (bs @ [b]) = 256 * be_value bs + unat b"
  by (simp add: be_value_def)

lemma be_value_be_bytes: "n < 256 ^ k \<Longrightarrow> be_value (be_bytes k n) = n"
proof (induction k arbitrary: n)
  case 0
  then show ?case by (simp add: be_value_def)
next
  case (Suc k)
  then have "n div 256 < 256 ^ k" by (simp add: less_mult_imp_div_less mult.commute)
  with Suc.IH show ?case by (simp add: be_value_snoc unat_of_nat_byte)
qed

lemma be_bytes_be_value: "be_bytes (length bs) (be_value bs) = bs"
proof (induction bs rule: rev_induct)
  case Nil
  then show ?case by simp
next
  case (snoc b bs)
  then show ?case using byte_bound [of b]
    by (simp add: be_value_snoc)
qed

subsection \<open>Lemmas on dictionaries\<close>

lemma dict_get_map_of: "dict_get kvs k = map_of kvs k"
  by (induction kvs) auto

lemma dict_at_Cons [simp]:
  "dict_at ((u k', v) # kvs) k = (if k' = k then v else dict_at kvs k)"
  by (simp add: dict_at_def)

lemma dict_keys_simps [simp]:
  "dict_keys [] = []" "dict_keys ((k, v) # kvs) = k # dict_keys kvs"
  by (simp_all add: dict_keys_def)

end
