(* ===== verification/Yara_Validation.thy ===== *)
theory Yara_Validation
  imports Py_Prelude
begin

text \<open>
  Model of \<open>jaeger/yara_validation.py\<close>: the conservative top-level scanner for generated YARA
  sources and the compile-only validation boundary around it. The pinned YARA-X compiler is not part
  of the repository; it is the parameter \<open>compiles_clean\<close> of the validation.

  The scanner state is a record with the fields of \<open>_TopLevelScanner\<close> (the source, which no step
  writes, is an argument). The main results: the scan ends after at most one step per character, the
  scanner is equivalent to a reference lexer on lists that skips whole regions, and the gate accepts
  exactly the sources the module documents.
\<close>

definition MAX_YARA_SOURCE_BYTES :: nat where
  "MAX_YARA_SOURCE_BYTES = 65536"

definition MAX_YARA_RULE_NAME_LENGTH :: nat where
  "MAX_YARA_RULE_NAME_LENGTH = 128"

definition directive_tokens :: "pystr set" where
  "directive_tokens = {u ''import'', u ''include''}"

definition rule_token :: pystr where
  "rule_token = u ''rule''"

definition is_identifier_start :: "nat \<Rightarrow> bool" where
  "is_identifier_start c \<longleftrightarrow> (97 \<le> c \<and> c \<le> 122) \<or> (65 \<le> c \<and> c \<le> 90) \<or> c = 95"

definition is_identifier_char :: "nat \<Rightarrow> bool" where
  "is_identifier_char c \<longleftrightarrow> is_identifier_start c \<or> (48 \<le> c \<and> c \<le> 57)"

datatype lex_mode = NORMAL | LINE_COMMENT | BLOCK_COMMENT | QUOTED | REGEX | HEX

record lex_result =
  lr_rule_count :: nat
  lr_rule_name :: "pystr option"
  lr_directive_found :: bool
  lr_terminated :: bool

record scanner =
  sc_index :: nat
  sc_mode :: lex_mode
  sc_in_regex_class :: bool
  sc_depth :: nat
  sc_expecting_rule_name :: bool
  sc_result :: lex_result

definition new_scanner :: scanner where
  "new_scanner =
     \<lparr>sc_index = 0, sc_mode = NORMAL, sc_in_regex_class = False, sc_depth = 0,
      sc_expecting_rule_name = False,
      sc_result = \<lparr>lr_rule_count = 0, lr_rule_name = None, lr_directive_found = False, lr_terminated = False\<rparr>\<rparr>"

text \<open>The following character, or none at the end of the source.\<close>

definition following :: "pystr \<Rightarrow> scanner \<Rightarrow> nat option" where
  "following src st = (if Suc (sc_index st) < length src then Some (src ! Suc (sc_index st)) else None)"

definition advance :: "scanner \<Rightarrow> scanner" where
  "advance st = st\<lparr>sc_index := Suc (sc_index st)\<rparr>"

definition step_regex :: "nat \<Rightarrow> scanner \<Rightarrow> scanner" where
  "step_regex char st =
     (if char = 92 then advance st
      else if char = 91 then st\<lparr>sc_in_regex_class := True\<rparr>
      else if char = 93 then st\<lparr>sc_in_regex_class := False\<rparr>
      else if char = 47 \<and> \<not> sc_in_regex_class st then st\<lparr>sc_mode := NORMAL\<rparr>
      else st)"

definition step_region :: "pystr \<Rightarrow> scanner \<Rightarrow> scanner" where
  "step_region src st =
     (let char = src ! sc_index st in
      case sc_mode st of
        LINE_COMMENT \<Rightarrow> (if char = 10 then st\<lparr>sc_mode := NORMAL\<rparr> else st)
      | BLOCK_COMMENT \<Rightarrow>
          (if char = 42 \<and> following src st = Some 47
           then advance (st\<lparr>sc_mode := NORMAL\<rparr>) else st)
      | QUOTED \<Rightarrow>
          (if char = 92 then advance st
           else if char = 34 then st\<lparr>sc_mode := NORMAL\<rparr> else st)
      | REGEX \<Rightarrow> step_regex char st
      | _ \<Rightarrow> (if char = 125 then st\<lparr>sc_mode := NORMAL\<rparr> else st))"

text \<open>The loop of \<open>_read_identifier\<close> that finds the end of the token.\<close>

function identifier_end :: "pystr \<Rightarrow> nat \<Rightarrow> nat" where
  "identifier_end src e =
     (if e < length src \<and> is_identifier_char (src ! e) then identifier_end src (Suc e) else e)"
  by pat_completeness auto
termination
  by (relation "measure (\<lambda>(src, e). length src - e)") auto

declare identifier_end.simps [simp del]

definition note_token :: "pystr \<Rightarrow> scanner \<Rightarrow> scanner" where
  "note_token token st =
     (if sc_depth st \<noteq> 0 then st
      else if token \<in> directive_tokens then
        st\<lparr>sc_result := (sc_result st)\<lparr>lr_directive_found := True\<rparr>\<rparr>
      else if token = rule_token then
        st\<lparr>sc_result := (sc_result st)\<lparr>lr_rule_count := Suc (lr_rule_count (sc_result st))\<rparr>,
           sc_expecting_rule_name := True\<rparr>
      else if sc_expecting_rule_name st then
        st\<lparr>sc_result := (sc_result st)\<lparr>lr_rule_name := Some token\<rparr>,
           sc_expecting_rule_name := False\<rparr>
      else st)"

definition read_identifier :: "pystr \<Rightarrow> scanner \<Rightarrow> scanner" where
  "read_identifier src st =
     (let e = identifier_end src (Suc (sc_index st));
          token = take (e - sc_index st) (drop (sc_index st) src)
      in note_token token (st\<lparr>sc_index := e - 1\<rparr>))"

definition step_normal :: "pystr \<Rightarrow> scanner \<Rightarrow> scanner" where
  "step_normal src st =
     (let char = src ! sc_index st; nxt = following src st in
      if char = 47 \<and> nxt = Some 47 then advance (st\<lparr>sc_mode := LINE_COMMENT\<rparr>)
      else if char = 47 \<and> nxt = Some 42 then advance (st\<lparr>sc_mode := BLOCK_COMMENT\<rparr>)
      else if char = 34 then st\<lparr>sc_mode := QUOTED\<rparr>
      else if char = 47 then st\<lparr>sc_mode := REGEX, sc_in_regex_class := False\<rparr>
      else if sc_depth st = 0 \<and> char = 123 then st\<lparr>sc_depth := 1\<rparr>
      else if sc_depth st = 1 \<and> char = 123 then st\<lparr>sc_mode := HEX\<rparr>
      else if sc_depth st = 1 \<and> char = 125 then st\<lparr>sc_depth := 0\<rparr>
      else if is_identifier_start char then read_identifier src st
      else st)"

definition scan_step :: "pystr \<Rightarrow> scanner \<Rightarrow> scanner" where
  "scan_step src st =
     advance (if sc_mode st = NORMAL then step_normal src st else step_region src st)"

lemma identifier_end_ge: "e \<le> identifier_end src e"
proof (induction src e rule: identifier_end.induct)
  case (1 src e)
  then show ?case by (subst identifier_end.simps) (auto dest: Suc_leD)
qed

lemma advance_index [simp]: "sc_index (advance st) = Suc (sc_index st)"
  by (simp add: advance_def)

lemma note_token_index [simp]: "sc_index (note_token t st) = sc_index st"
  by (simp add: note_token_def)

lemma step_normal_index: "sc_index st \<le> sc_index (step_normal src st)"
  using identifier_end_ge [of "Suc (sc_index st)" src]
  by (auto simp: step_normal_def read_identifier_def Let_def)

lemma step_region_index: "sc_index st \<le> sc_index (step_region src st)"
  by (auto simp: step_region_def step_regex_def Let_def split: lex_mode.splits)

lemma scan_step_index: "sc_index st < sc_index (scan_step src st)"
  using step_normal_index [of st src] step_region_index [of st src] by (simp add: scan_step_def)

text \<open>The \<open>while\<close> loop of \<open>scan\<close>.\<close>

function scan_loop :: "pystr \<Rightarrow> scanner \<Rightarrow> scanner" where
  "scan_loop src st = (if sc_index st < length src then scan_loop src (scan_step src st) else st)"
  by pat_completeness auto
termination
  by (relation "measure (\<lambda>(src, st). length src - sc_index st)")
     (auto intro: diff_less_mono2 scan_step_index)

declare scan_loop.simps [simp del]

definition scan :: "pystr \<Rightarrow> lex_result" where
  "scan src =
     (let st = scan_loop src new_scanner
      in (sc_result st)\<lparr>lr_terminated :=
            (sc_mode st = NORMAL \<or> sc_mode st = LINE_COMMENT) \<and> sc_depth st = 0\<rparr>)"

text \<open>
  \<open>validate_candidate_rule_source\<close>. \<open>compiles_clean\<close> stands for \<open>_compiles_clean\<close>, which runs the
  YARA-X compiler and returns whether it accepts the source without errors and warnings.
\<close>

definition validate_candidate_rule_source :: "(pystr \<Rightarrow> bool) \<Rightarrow> pyval \<Rightarrow> bool" where
  "validate_candidate_rule_source compiles_clean source =
     (case source of
        PStr src \<Rightarrow>
          (if src = [] then False
           else if \<not> is_ascii src \<or> 0 \<in> set src then False
           else if MAX_YARA_SOURCE_BYTES < length src then False
           else (let sc = scan src in
             if \<not> lr_terminated sc \<or> lr_directive_found sc \<or> lr_rule_count sc \<noteq> 1 then False
             else case lr_rule_name sc of
               None \<Rightarrow> False
             | Some name \<Rightarrow>
                 (if MAX_YARA_RULE_NAME_LENGTH < length name then False
                  else if \<not> list_all is_identifier_char name then False
                  else compiles_clean src)))
      | _ \<Rightarrow> False)"

subsection \<open>Invariant of the scanner\<close>

text \<open>
  The body depth never exceeds one, and a recorded rule name is an identifier that is neither the
  keyword \<open>rule\<close> nor a directive.
\<close>

definition identifier_text :: "pystr \<Rightarrow> bool" where
  "identifier_text t \<longleftrightarrow> t \<noteq> [] \<and> is_identifier_start (hd t) \<and> list_all is_identifier_char t"

definition scanner_inv :: "scanner \<Rightarrow> bool" where
  "scanner_inv st \<longleftrightarrow> sc_depth st \<le> 1 \<and>
     (\<forall>t. lr_rule_name (sc_result st) = Some t \<longrightarrow>
        identifier_text t \<and> t \<notin> directive_tokens \<and> t \<noteq> rule_token)"

lemma identifier_end_chars:
  "e \<le> k \<Longrightarrow> k < identifier_end src e \<Longrightarrow> k < length src \<and> is_identifier_char (src ! k)"
proof (induction src e rule: identifier_end.induct)
  case (1 src e)
  show ?case
  proof (cases "e < length src \<and> is_identifier_char (src ! e)")
    case True
    with 1 show ?thesis by (cases "k = e") (auto simp: identifier_end.simps [of src e])
  next
    case False
    with 1 show ?thesis by (subst (asm) (2) identifier_end.simps) auto
  qed
qed

lemma token_identifier:
  assumes "i < length src" and "is_identifier_start (src ! i)"
  defines "e \<equiv> identifier_end src (Suc i)"
  shows "identifier_text (take (e - i) (drop i src))"
proof -
  let ?t = "take (e - i) (drop i src)"
  have e: "Suc i \<le> e" by (simp add: e_def identifier_end_ge)
  have "is_identifier_char (?t ! k)" if "k < length ?t" for k
  proof (cases k)
    case 0
    with assms(1,2) e show ?thesis by (simp add: is_identifier_char_def)
  next
    case (Suc m)
    then show ?thesis
      using that assms(1) identifier_end_chars [of "Suc i" "i + k" src]
      by (auto simp: e_def add.commute less_diff_conv)
  qed
  then have "list_all is_identifier_char ?t" by (simp add: list_all_length)
  moreover have "?t \<noteq> []" "hd ?t = src ! i"
    using assms(1) e by (simp_all add: hd_drop_conv_nth)
  ultimately show ?thesis using assms(2) by (simp add: identifier_text_def)
qed

lemma note_token_inv:
  "identifier_text t \<Longrightarrow> scanner_inv st \<Longrightarrow> scanner_inv (note_token t st)"
  by (auto simp: scanner_inv_def note_token_def)

lemma scanner_inv_frame [simp]:
  "scanner_inv (st\<lparr>sc_index := n\<rparr>) = scanner_inv st"
  "scanner_inv (st\<lparr>sc_mode := m\<rparr>) = scanner_inv st"
  "scanner_inv (st\<lparr>sc_in_regex_class := b\<rparr>) = scanner_inv st"
  "scanner_inv (advance st) = scanner_inv st"
  by (simp_all add: scanner_inv_def advance_def)

lemma step_normal_inv:
  assumes "scanner_inv st" and "sc_index st < length src"
  shows "scanner_inv (step_normal src st)"
proof -
  have "scanner_inv (read_identifier src st)" if "is_identifier_start (src ! sc_index st)"
    using that assms by (simp add: read_identifier_def Let_def note_token_inv token_identifier)
  then show ?thesis using assms
    by (auto simp: step_normal_def Let_def) (auto simp: scanner_inv_def)
qed

lemma step_region_inv: "scanner_inv st \<Longrightarrow> scanner_inv (step_region src st)"
  by (auto simp: step_region_def step_regex_def Let_def split: lex_mode.splits)

lemma scan_loop_inv: "scanner_inv st \<Longrightarrow> scanner_inv (scan_loop src st)"
proof (induction src st rule: scan_loop.induct)
  case (1 src st)
  show ?case
  proof (cases "sc_index st < length src")
    case True
    with 1 show ?thesis
      by (simp add: scan_loop.simps [of src st] scan_step_def step_normal_inv step_region_inv)
  next
    case False
    with 1 show ?thesis by (simp add: scan_loop.simps [of src st])
  qed
qed

lemma scan_loop_done: "length src \<le> sc_index (scan_loop src st)"
proof (induction src st rule: scan_loop.induct)
  case (1 src st)
  then show ?case by (subst scan_loop.simps) simp
qed

lemma new_scanner_inv: "scanner_inv new_scanner"
  by (simp add: scanner_inv_def new_scanner_def)

subsection \<open>A reference lexer\<close>

text \<open>
  The reference reads the source as a list, drops every comment, quoted text, regular expression and hex
  string whole, and returns the braces of rule bodies and the words, and whether the source ended outside
  of a region and of a rule body.
\<close>

datatype lexeme = Open | Close | Word pystr

definition skip_line :: "pystr \<Rightarrow> pystr" where
  "skip_line s = tl (dropWhile (\<lambda>c. c \<noteq> 10) s)"

fun skip_block :: "pystr \<Rightarrow> pystr option" where
  "skip_block [] = None"
| "skip_block (c # s) = (if c = 42 \<and> has_prefix [47] s then Some (tl s) else skip_block s)"

fun skip_quoted :: "pystr \<Rightarrow> pystr option" where
  "skip_quoted [] = None"
| "skip_quoted (c # s) =
     (if c = 92 then skip_quoted (tl s) else if c = 34 then Some s else skip_quoted s)"

fun skip_regex :: "bool \<Rightarrow> pystr \<Rightarrow> pystr option" where
  "skip_regex in_class [] = None"
| "skip_regex in_class (c # s) =
     (if c = 92 then skip_regex in_class (tl s)
      else if c = 91 then skip_regex True s
      else if c = 93 then skip_regex False s
      else if c = 47 \<and> \<not> in_class then Some s
      else skip_regex in_class s)"

fun skip_hex :: "pystr \<Rightarrow> pystr option" where
  "skip_hex [] = None"
| "skip_hex (c # s) = (if c = 125 then Some s else skip_hex s)"

lemma skip_line_length: "length (skip_line s) \<le> length s"
  using length_dropWhile_le [of "\<lambda>c. c \<noteq> 10" s] by (simp add: skip_line_def)

lemma skip_block_length: "skip_block s = Some r \<Longrightarrow> length r \<le> length s"
  by (induction s rule: skip_block.induct) (auto split: if_splits)

lemma skip_quoted_length: "skip_quoted s = Some r \<Longrightarrow> length r \<le> length s"
  by (induction s rule: skip_quoted.induct) (auto split: if_splits)

lemma skip_regex_length: "skip_regex b s = Some r \<Longrightarrow> length r \<le> length s"
  by (induction b s rule: skip_regex.induct) (auto split: if_splits)

lemma skip_hex_length: "skip_hex s = Some r \<Longrightarrow> length r \<le> length s"
  by (induction s rule: skip_hex.induct) (auto split: if_splits)

text \<open>What follows a skipped region, or an incomplete source.\<close>

definition after_region :: "(pystr \<Rightarrow> lexeme list \<times> bool) \<Rightarrow> pystr option \<Rightarrow> lexeme list \<times> bool" where
  "after_region k rest = (case rest of None \<Rightarrow> ([], False) | Some r \<Rightarrow> k r)"

lemma after_region_cong [fundef_cong]:
  "rest = rest' \<Longrightarrow> (\<And>r. rest' = Some r \<Longrightarrow> k r = k' r) \<Longrightarrow> after_region k rest = after_region k' rest'"
  by (cases rest') (simp_all add: after_region_def)

function lexemes :: "bool \<Rightarrow> pystr \<Rightarrow> lexeme list \<times> bool" where
  "lexemes inside [] = ([], \<not> inside)"
| "lexemes inside (c # s) =
     (if c = 47 \<and> has_prefix [47] s then lexemes inside (skip_line (tl s))
      else if c = 47 \<and> has_prefix [42] s then after_region (lexemes inside) (skip_block (tl s))
      else if c = 34 then after_region (lexemes inside) (skip_quoted s)
      else if c = 47 then after_region (lexemes inside) (skip_regex False s)
      else if \<not> inside \<and> c = 123 then apfst (Cons Open) (lexemes True s)
      else if inside \<and> c = 123 then after_region (lexemes inside) (skip_hex s)
      else if inside \<and> c = 125 then apfst (Cons Close) (lexemes False s)
      else if is_identifier_start c
      then apfst (Cons (Word (c # takeWhile is_identifier_char s))) (lexemes inside (dropWhile is_identifier_char s))
      else lexemes inside s)"
  by pat_completeness auto
termination
  by (relation "measure (\<lambda>(inside, s). length s)")
     (auto simp: less_Suc_eq_le length_dropWhile_le dest: skip_block_length skip_quoted_length skip_regex_length skip_hex_length
       intro: le_trans [OF skip_line_length] le_trans)

text \<open>The words outside rule bodies, and the names that follow the keyword \<open>rule\<close> among them.\<close>

fun top_words :: "bool \<Rightarrow> lexeme list \<Rightarrow> pystr list" where
  "top_words inside [] = []"
| "top_words inside (Open # ls) = top_words True ls"
| "top_words inside (Close # ls) = top_words False ls"
| "top_words inside (Word w # ls) = (if inside then top_words inside ls else w # top_words inside ls)"

fun rule_names :: "bool \<Rightarrow> pystr list \<Rightarrow> pystr list" where
  "rule_names expecting [] = []"
| "rule_names expecting (w # ws) =
     (if w \<in> directive_tokens then rule_names expecting ws
      else if w = rule_token then rule_names True ws
      else if expecting then w # rule_names False ws
      else rule_names False ws)"

subsection \<open>The scanner implements the reference\<close>

text \<open>The result of a finished scan, and what a scan started in the middle of the source yields.\<close>

definition finish :: "scanner \<Rightarrow> lex_result" where
  "finish st =
     (sc_result st)\<lparr>lr_terminated := (sc_mode st = NORMAL \<or> sc_mode st = LINE_COMMENT) \<and> sc_depth st = 0\<rparr>"

definition outcome :: "pystr \<Rightarrow> scanner \<Rightarrow> lex_result" where
  "outcome src st = finish (scan_loop src st)"

definition same_top :: "scanner \<Rightarrow> scanner \<Rightarrow> bool" where
  "same_top st st' \<longleftrightarrow> sc_depth st = sc_depth st' \<and> sc_result st = sc_result st' \<and>
     sc_expecting_rule_name st = sc_expecting_rule_name st'"

lemma outcome_end: "drop (sc_index st) src = [] \<Longrightarrow> outcome src st = finish st"
  unfolding outcome_def by (subst scan_loop.simps) simp

lemma outcome_step: "drop (sc_index st) src = c # s \<Longrightarrow> outcome src st = outcome src (scan_step src st)"
  unfolding outcome_def by (subst scan_loop.simps) (metis drop_eq_Nil leI list.distinct(1))

lemma drop_nth: "drop i src = c # s \<Longrightarrow> src ! i = c \<and> drop (Suc i) src = s"
  by (metis drop_Suc hd_drop_conv_nth drop_eq_Nil linorder_not_le list.distinct(1) list.sel(1,3) tl_drop)

lemma drop_tl: "drop i src = s \<Longrightarrow> drop (Suc i) src = tl s"
  by (metis drop_Suc tl_drop)

lemma following_prefix: "drop (sc_index st) src = c # s \<Longrightarrow> following src st = Some d \<longleftrightarrow> has_prefix [d] s"
proof (cases s)
  case (Cons d' r)
  assume "drop (sc_index st) src = c # s"
  then have "drop (Suc (sc_index st)) src = d' # r" using Cons drop_nth by metis
  then have "src ! Suc (sc_index st) = d'" "Suc (sc_index st) < length src"
    using drop_nth by (metis, metis drop_eq_Nil leI list.distinct(1))
  then show ?thesis by (auto simp: following_def Cons)
qed (auto simp: following_def dest: drop_nth)

text \<open>Each region: the scan goes on after it, or the source is incomplete.\<close>

definition region_spec :: "pystr \<Rightarrow> scanner \<Rightarrow> pystr option \<Rightarrow> (pystr \<Rightarrow> lex_result) \<Rightarrow> bool" where
  "region_spec src st rest k \<longleftrightarrow>
     outcome src st = (case rest of None \<Rightarrow> (sc_result st)\<lparr>lr_terminated := False\<rparr> | Some r \<Rightarrow> k r)"

definition continues :: "pystr \<Rightarrow> scanner \<Rightarrow> pystr option \<Rightarrow> (pystr \<Rightarrow> lex_result) \<Rightarrow> bool" where
  "continues src st rest k \<longleftrightarrow>
     (\<forall>r st'. rest = Some r \<longrightarrow> sc_mode st' = NORMAL \<longrightarrow> drop (sc_index st') src = r \<longrightarrow>
        same_top st' st \<longrightarrow> outcome src st' = k r)"

lemma continues_same:
  "continues src st rest k \<Longrightarrow> same_top st' st \<Longrightarrow> continues src st' rest k"
  by (auto simp: continues_def same_top_def)

lemma region_spec_same:
  "region_spec src st' rest k \<Longrightarrow> outcome src st = outcome src st' \<Longrightarrow> same_top st' st \<Longrightarrow> region_spec src st rest k"
  by (auto simp: region_spec_def same_top_def split: option.splits)

lemma region_end:
  assumes "drop (sc_index st) src = []" and "sc_mode st \<noteq> NORMAL" and "sc_mode st \<noteq> LINE_COMMENT"
  shows "region_spec src st None k"
  using assms by (simp add: region_spec_def outcome_end finish_def)

lemma advance_simps [simp]:
  "sc_mode (advance st) = sc_mode st" "sc_depth (advance st) = sc_depth st" "sc_result (advance st) = sc_result st"
  "sc_expecting_rule_name (advance st) = sc_expecting_rule_name st"
  "sc_in_regex_class (advance st) = sc_in_regex_class st"
  by (simp_all add: advance_def)

lemma region_step_top: "sc_mode st \<noteq> NORMAL \<Longrightarrow> same_top (scan_step src st) st"
  by (auto simp: same_top_def scan_step_def step_region_def step_regex_def Let_def split: lex_mode.splits)

lemma region_next:
  assumes "drop (sc_index st) src = c # s" and "sc_mode st \<noteq> NORMAL" and "continues src st rest k"
    and "continues src (scan_step src st) rest k \<Longrightarrow> region_spec src (scan_step src st) rest k"
  shows "region_spec src st rest k"
  using assms(4) [OF continues_same [OF assms(3)]] region_step_top [OF assms(2)] outcome_step [OF assms(1)]
    region_spec_same by blast

lemma region_done:
  assumes "drop (sc_index st) src = c # s" and "sc_mode st \<noteq> NORMAL" and "continues src st (Some r) k"
    and "sc_mode (scan_step src st) = NORMAL" and "drop (sc_index (scan_step src st)) src = r"
  shows "region_spec src st (Some r) k"
  using assms(3-5) region_step_top [OF assms(2), of src] outcome_step [OF assms(1)]
  by (auto simp: region_spec_def continues_def)

lemmas region_step_simps = scan_step_def step_region_def step_regex_def

lemma quoted_region:
  "drop (sc_index st) src = s \<Longrightarrow> sc_mode st = QUOTED \<Longrightarrow> continues src st (skip_quoted s) k \<Longrightarrow>
   region_spec src st (skip_quoted s) k"
proof (induction s arbitrary: st rule: skip_quoted.induct)
  case (2 c s)
  have c: "src ! sc_index st = c" "drop (Suc (sc_index st)) src = s" using 2(3) drop_nth by metis+
  have m: "sc_mode st \<noteq> NORMAL" using 2(4) by simp
  show ?case
  proof (cases "c = 34")
    case True
    then show ?thesis
      using 2(4,5) c by (auto intro!: region_done [OF 2(3) m] simp: region_step_simps)
  next
    case False
    have st: "sc_mode (scan_step src st) = QUOTED"
      "drop (sc_index (scan_step src st)) src = (if c = 92 then tl s else s)"
      using False 2(4) c drop_tl [OF c(2)] by (simp_all add: region_step_simps)
    show ?thesis
      using False st 2(1,2) [of "scan_step src st"] by (intro region_next [OF 2(3) m 2(5)]) (simp split: if_splits)
  qed
qed (simp add: region_end)

lemma regex_region:
  "drop (sc_index st) src = s \<Longrightarrow> sc_mode st = REGEX \<Longrightarrow> sc_in_regex_class st = b \<Longrightarrow>
   continues src st (skip_regex b s) k \<Longrightarrow> region_spec src st (skip_regex b s) k"
proof (induction b s arbitrary: st rule: skip_regex.induct)
  case (2 b c s)
  note ih = "2.IH" and pr = "2.prems"
  have c: "src ! sc_index st = c" "drop (Suc (sc_index st)) src = s" using pr(1) drop_nth by metis+
  have m: "sc_mode st \<noteq> NORMAL" using pr(2) by simp
  let ?st = "scan_step src st"
  note nxt = region_next [OF pr(1) m pr(4)]
  consider "c = 92" | "c = 91" | "c = 93" | "c = 47" "\<not> b" | "c \<notin> {92, 91, 93}" "\<not> (c = 47 \<and> \<not> b)" by blast
  then show ?case
  proof cases
    case 1
    then have "sc_mode ?st = REGEX" "sc_in_regex_class ?st = b" "drop (sc_index ?st) src = tl s"
      using pr(2,3) c drop_tl [OF c(2)] by (simp_all add: region_step_simps)
    then show ?thesis using 1 ih(1) [of ?st] by (intro nxt) simp
  next
    case 2
    then have "sc_mode ?st = REGEX" "sc_in_regex_class ?st = True" "drop (sc_index ?st) src = s"
      using pr(2) c by (simp_all add: region_step_simps)
    then show ?thesis using 2 ih(2) [of ?st] by (intro nxt) simp
  next
    case 3
    then have "sc_mode ?st = REGEX" "sc_in_regex_class ?st = False" "drop (sc_index ?st) src = s"
      using pr(2) c by (simp_all add: region_step_simps)
    then show ?thesis using 3 ih(3) [of ?st] by (intro nxt) simp
  next
    case 4
    then have "sc_mode ?st = NORMAL" "drop (sc_index ?st) src = s"
      using pr(2,3) c by (simp_all add: region_step_simps)
    then show ?thesis using 4 pr(4) region_done [OF pr(1) m] by simp
  next
    case 5
    then have "sc_mode ?st = REGEX" "sc_in_regex_class ?st = b" "drop (sc_index ?st) src = s"
      using pr(2,3) c by (auto simp add: region_step_simps)
    then show ?thesis using 5 ih(4) [of ?st] by (intro nxt) auto
  qed
qed (simp add: region_end)

lemma hex_region:
  "drop (sc_index st) src = s \<Longrightarrow> sc_mode st = HEX \<Longrightarrow> continues src st (skip_hex s) k \<Longrightarrow>
   region_spec src st (skip_hex s) k"
proof (induction s arbitrary: st rule: skip_hex.induct)
  case (2 c s)
  have c: "src ! sc_index st = c" "drop (Suc (sc_index st)) src = s" using 2(2) drop_nth by metis+
  have m: "sc_mode st \<noteq> NORMAL" using 2(3) by simp
  show ?case
  proof (cases "c = 125")
    case True
    then show ?thesis
      using 2(3,4) c by (auto intro!: region_done [OF 2(2) m] simp: region_step_simps)
  next
    case False
    have st: "sc_mode (scan_step src st) = HEX" "drop (sc_index (scan_step src st)) src = s"
      using False 2(3) c by (simp_all add: region_step_simps)
    show ?thesis
      using False st 2(1) [of "scan_step src st"] by (intro region_next [OF 2(2) m 2(4)]) simp
  qed
qed (simp add: region_end)

lemma block_region:
  "drop (sc_index st) src = s \<Longrightarrow> sc_mode st = BLOCK_COMMENT \<Longrightarrow> continues src st (skip_block s) k \<Longrightarrow>
   region_spec src st (skip_block s) k"
proof (induction s arbitrary: st rule: skip_block.induct)
  case (2 c s)
  have c: "src ! sc_index st = c" "drop (Suc (sc_index st)) src = s" using 2(2) drop_nth by metis+
  have m: "sc_mode st \<noteq> NORMAL" using 2(3) by simp
  note f = following_prefix [OF 2(2)]
  show ?case
  proof (cases "c = 42 \<and> has_prefix [47] s")
    case True
    have st: "sc_mode (scan_step src st) = NORMAL" "drop (sc_index (scan_step src st)) src = tl s"
      using True 2(3) c f [of 47] drop_tl [OF c(2)] by (simp_all add: region_step_simps)
    show ?thesis using region_done [OF 2(2) m _ st] 2(4) True by simp
  next
    case False
    have st: "sc_mode (scan_step src st) = BLOCK_COMMENT" "drop (sc_index (scan_step src st)) src = s"
      using False 2(3) c f [of 47] by (auto simp add: region_step_simps)
    show ?thesis
      using False st 2(1) [of "scan_step src st"] by (intro region_next [OF 2(2) m 2(4)]) auto
  qed
qed (simp add: region_end)

text \<open>A line comment may also end with the source.\<close>

lemma line_region:
  "drop (sc_index st) src = s \<Longrightarrow> sc_mode st = LINE_COMMENT \<Longrightarrow> continues src st (Some (skip_line s)) k \<Longrightarrow>
   (10 \<notin> set s \<Longrightarrow> k [] = finish st) \<Longrightarrow> outcome src st = k (skip_line s)"
proof (induction s arbitrary: st)
  case Nil
  then show ?case by (simp add: outcome_end skip_line_def)
next
  case (Cons c s)
  have c: "src ! sc_index st = c" "drop (Suc (sc_index st)) src = s" using Cons(2) drop_nth by metis+
  have m: "sc_mode st \<noteq> NORMAL" using Cons(3) by simp
  show ?case
  proof (cases "c = 10")
    case True
    then have "region_spec src st (Some s) k"
      using Cons(3,4) c by (auto intro!: region_done [OF Cons(2) m] simp: region_step_simps skip_line_def)
    with True show ?thesis by (simp add: region_spec_def skip_line_def)
  next
    case False
    have top: "same_top (scan_step src st) st" by (rule region_step_top [OF m])
    have "outcome src (scan_step src st) = k (skip_line s)"
      using False Cons(3,5) c continues_same [OF Cons(4) top] top
      by (intro Cons(1)) (auto simp: region_step_simps skip_line_def finish_def)
    then show ?thesis using False outcome_step [OF Cons(2)] by (simp add: skip_line_def)
  qed
qed

text \<open>The result the reference gives: the words outside bodies decide it.\<close>

definition summary :: "bool \<Rightarrow> bool \<Rightarrow> lex_result \<Rightarrow> lexeme list \<times> bool \<Rightarrow> lex_result" where
  "summary inside expecting r lx =
     (let ws = top_words inside (fst lx); names = rule_names expecting ws
      in r\<lparr>lr_rule_count := lr_rule_count r + count_list ws rule_token,
           lr_rule_name := (if names = [] then lr_rule_name r else Some (last names)),
           lr_directive_found := lr_directive_found r \<or> (\<exists>w \<in> set ws. w \<in> directive_tokens),
           lr_terminated := snd lx\<rparr>)"

lemma summary_brace [simp]:
  "summary inside e r (apfst (Cons Open) lx) = summary True e r lx"
  "summary inside e r (apfst (Cons Close) lx) = summary False e r lx"
  by (simp_all add: summary_def)

lemma summary_word:
  "summary (sc_depth st = 1) (sc_expecting_rule_name st) (sc_result st) (apfst (Cons (Word w)) lx) =
     (let st' = note_token w st in summary (sc_depth st' = 1) (sc_expecting_rule_name st') (sc_result st') lx)"
  if "sc_depth st \<le> 1"
  using that by (auto simp: summary_def note_token_def Let_def rule_token_def directive_tokens_def)

lemma identifier_end_takeWhile:
  "drop e src = s \<Longrightarrow> identifier_end src e = e + length (takeWhile is_identifier_char s)"
proof (induction s arbitrary: e)
  case Nil
  then show ?case by (subst identifier_end.simps) simp
next
  case (Cons c s)
  then have "e < length src" "src ! e = c" "drop (Suc e) src = s"
    using drop_nth [of e src c s] by (auto intro: leI [THEN drop_all] simp flip: not_le)
  then show ?case using Cons.IH [of "Suc e"] by (subst identifier_end.simps) simp
qed

lemma read_identifier_eq:
  assumes "drop (sc_index st) src = c # s"
  shows "read_identifier src st =
    note_token (c # takeWhile is_identifier_char s)
      (st\<lparr>sc_index := sc_index st + length (takeWhile is_identifier_char s)\<rparr>)"
proof -
  have "take (length (takeWhile is_identifier_char s)) s = takeWhile is_identifier_char s"
    by (metis append_eq_conv_conj takeWhile_dropWhile_id)
  then show ?thesis
    using identifier_end_takeWhile [of "Suc (sc_index st)" src s] drop_nth [OF assms]
    by (simp add: read_identifier_def assms)
qed

lemma outcome_after:
  assumes "region_spec src st' rest (\<lambda>r. summary i e res (k r))" and "sc_result st' = res"
  shows "outcome src st' = summary i e res (after_region k rest)"
  using assms by (cases rest) (auto simp: region_spec_def after_region_def summary_def Let_def)

abbreviation lexed :: "pystr \<Rightarrow> scanner \<Rightarrow> lex_result" where
  "lexed s st \<equiv> summary (sc_depth st = 1) (sc_expecting_rule_name st) (sc_result st) (lexemes (sc_depth st = 1) s)"

text \<open>The claim of the induction: the scanner agrees with the reference on shorter rests of the source.\<close>

definition agrees_below :: "pystr \<Rightarrow> nat \<Rightarrow> bool" where
  "agrees_below src n \<longleftrightarrow>
     (\<forall>s st. drop (sc_index st) src = s \<longrightarrow> sc_mode st = NORMAL \<longrightarrow> sc_depth st \<le> 1 \<longrightarrow> length s < n \<longrightarrow>
        outcome src st = lexed s st)"

lemma agrees_belowD:
  "agrees_below src n \<Longrightarrow> drop (sc_index st) src = s \<Longrightarrow> sc_mode st = NORMAL \<Longrightarrow> sc_depth st \<le> 1 \<Longrightarrow>
   length s < n \<Longrightarrow> outcome src st = lexed s st"
  unfolding agrees_below_def by blast

lemma finish_normal:
  "sc_mode st = NORMAL \<or> sc_mode st = LINE_COMMENT \<Longrightarrow> sc_depth st \<le> 1 \<Longrightarrow> finish st = lexed [] st"
  by (cases "sc_depth st") (auto simp: finish_def summary_def Let_def)

lemma note_token_simps [simp]:
  "sc_mode (note_token w st) = sc_mode st" "sc_depth (note_token w st) = sc_depth st"
  by (simp_all add: note_token_def)

lemma agrees_continues:
  assumes "agrees_below src n" and "same_top st' st" and "sc_depth st \<le> 1"
    and "\<And>r. rest = Some r \<Longrightarrow> length r < n"
  shows "continues src st' rest (\<lambda>r. lexed r st)"
  using assms by (auto simp: continues_def same_top_def agrees_below_def)

lemma agrees_region:
  assumes "agrees_below src n" and "same_top st' st" and "sc_depth st \<le> 1"
    and "\<And>r. rest = Some r \<Longrightarrow> length r < n"
    and "\<And>k. continues src st' rest k \<Longrightarrow> region_spec src st' rest k"
  shows "outcome src st' =
    summary (sc_depth st = 1) (sc_expecting_rule_name st) (sc_result st) (after_region (lexemes (sc_depth st = 1)) rest)"
  using outcome_after [OF assms(5) [OF agrees_continues [OF assms(1-4)]]] assms(2) by (simp add: same_top_def)

lemma lexed_comment:
  assumes ag: "agrees_below src (Suc (length r))" and d: "drop (sc_index st) src = 47 # r"
    and st: "sc_mode st = NORMAL" "sc_depth st \<le> 1" and r: "r = 47 # t \<or> r = 42 # t"
  shows "outcome src st = lexed (47 # r) st"
proof -
  have t: "drop (Suc (Suc (sc_index st))) src = t" and c: "src ! sc_index st = 47"
    using drop_nth [OF d] drop_tl [of "Suc (sc_index st)" src r] r by auto
  note f = following_prefix [OF d] and step = outcome_step [OF d]
  let ?st = "scan_step src st"
  show ?thesis
  proof (cases "hd r = 47")
    case True
    then have r: "r = 47 # t" using r by auto
    have st': "sc_mode ?st = LINE_COMMENT" "same_top ?st st" "drop (sc_index ?st) src = t"
      using f [of 47] st(1) t c r by (simp_all add: scan_step_def step_normal_def same_top_def)
    have "outcome src ?st = lexed (skip_line t) st"
      using st' st(2) agrees_continues [OF ag st'(2) st(2), of "Some (skip_line t)"] skip_line_length [of t]
        finish_normal [of ?st]
      by (intro line_region) (auto simp: r same_top_def)
    then show ?thesis using step by (simp add: r)
  next
    case False
    then have r: "r = 42 # t" using r by auto
    have st': "sc_mode ?st = BLOCK_COMMENT" "same_top ?st st" "drop (sc_index ?st) src = t"
      using f [of 47] f [of 42] st(1) t c r by (simp_all add: scan_step_def step_normal_def same_top_def)
    show ?thesis
      using agrees_region [OF ag st'(2) st(2) _ block_region [OF st'(3,1)]] skip_block_length [of t] step
      by (fastforce simp: r)
  qed
qed

lemma lexed_literal:
  assumes ag: "agrees_below src (Suc (length r))" and d: "drop (sc_index st) src = c # r"
    and st: "sc_mode st = NORMAL" "sc_depth st \<le> 1"
    and c: "c = 34 \<or> c = 123 \<and> sc_depth st = 1 \<or> c = 47 \<and> \<not> has_prefix [47] r \<and> \<not> has_prefix [42] r"
  shows "outcome src st = lexed (c # r) st"
proof -
  note f = following_prefix [OF d] and step = outcome_step [OF d]
  let ?st = "scan_step src st"
  have top: "same_top ?st st" and rest: "drop (sc_index ?st) src = r"
    using c drop_nth [OF d] st(1) f [of 47] f [of 42]
    by (auto simp: scan_step_def step_normal_def same_top_def simp del: has_prefix.simps)
  note region = agrees_region [OF ag top st(2)]
  consider "c = 34" | "c = 123" "sc_depth st = 1" | "c = 47" "\<not> has_prefix [47] r" "\<not> has_prefix [42] r"
    using c by blast
  then show ?thesis
  proof cases
    case 1
    then have "sc_mode ?st = QUOTED" using drop_nth [OF d] st(1) by (simp add: scan_step_def step_normal_def)
    then show ?thesis
      using region [OF _ quoted_region [OF rest]] skip_quoted_length [of r] step 1 by fastforce
  next
    case 2
    then have "sc_mode ?st = HEX" using drop_nth [OF d] st(1) by (simp add: scan_step_def step_normal_def)
    then show ?thesis
      using region [OF _ hex_region [OF rest]] skip_hex_length [of r] step 2 by fastforce
  next
    case 3
    then have "sc_mode ?st = REGEX" "\<not> sc_in_regex_class ?st"
      using drop_nth [OF d] st(1) f [of 47] f [of 42] by (simp_all add: scan_step_def step_normal_def)
    then show ?thesis
      using region [OF _ regex_region [OF rest, of False]] skip_regex_length [of False r] step 3 by fastforce
  qed
qed

lemma lexed_word:
  assumes ag: "agrees_below src (Suc (length r))" and d: "drop (sc_index st) src = c # r"
    and st: "sc_mode st = NORMAL" "sc_depth st \<le> 1" and word: "is_identifier_start c"
  shows "outcome src st = lexed (c # r) st"
proof -
  let ?w = "c # takeWhile is_identifier_char r" and ?r = "dropWhile is_identifier_char r"
  let ?n = "length (takeWhile is_identifier_char r)" and ?st = "scan_step src st"
  have nc: "c \<noteq> 47" "c \<noteq> 34" "c \<noteq> 123" "c \<noteq> 125" using word by (auto simp: is_identifier_start_def)
  have st': "?st = advance (note_token ?w (st\<lparr>sc_index := sc_index st + ?n\<rparr>))"
    using nc word st(1) drop_nth [OF d] by (simp add: scan_step_def step_normal_def read_identifier_eq [OF d])
  have "drop ?n r = ?r" by (metis append_eq_conv_conj takeWhile_dropWhile_id)
  then have "drop (sc_index ?st) src = ?r"
    using drop_nth [OF d] drop_drop [of ?n "Suc (sc_index st)" src] by (simp add: st' add.commute)
  then have "outcome src ?st = lexed ?r ?st"
    using st by (intro agrees_belowD [OF ag]) (simp_all add: st' length_dropWhile_le less_Suc_eq_le)
  also have "\<dots> = lexed (c # r) st"
    using nc word summary_word [of "st\<lparr>sc_index := sc_index st + ?n\<rparr>" ?w "lexemes (sc_depth st = 1) ?r"] st(2)
    by (simp add: st' Let_def)
  finally show ?thesis using outcome_step [OF d] by simp
qed

lemma lexed_other:
  assumes ag: "agrees_below src (Suc (length r))" and d: "drop (sc_index st) src = c # r"
    and st: "sc_mode st = NORMAL" "sc_depth st \<le> 1" and c: "c \<noteq> 47" "c \<noteq> 34" "\<not> is_identifier_start c"
    "\<not> (c = 123 \<and> sc_depth st = 1)"
  shows "outcome src st = lexed (c # r) st"
proof -
  let ?st = "scan_step src st"
  have "outcome src ?st = lexed r ?st"
    using c st drop_nth [OF d] by (intro agrees_belowD [OF ag]) (auto simp: scan_step_def step_normal_def)
  also have "\<dots> = lexed (c # r) st"
    using c st drop_nth [OF d] by (cases "sc_depth st") (auto simp: scan_step_def step_normal_def)
  finally show ?thesis using outcome_step [OF d] by simp
qed

lemma scanner_lexed:
  "drop (sc_index st) src = s \<Longrightarrow> sc_mode st = NORMAL \<Longrightarrow> sc_depth st \<le> 1 \<Longrightarrow> outcome src st = lexed s st"
proof (induction "length s" arbitrary: s st rule: less_induct)
  case less
  then have ag: "agrees_below src (length s)" by (simp add: agrees_below_def)
  show ?case
  proof (cases s)
    case Nil
    then show ?thesis using less.prems outcome_end finish_normal by simp
  next
    case (Cons c r)
    have ag: "agrees_below src (Suc (length r))" and d: "drop (sc_index st) src = c # r"
      using ag less.prems(1) Cons by simp_all
    note rules = ag d less.prems(2,3)
    consider (comment) t where "c = 47" "r = 47 # t \<or> r = 42 # t"
      | (literal) "c = 34 \<or> c = 123 \<and> sc_depth st = 1 \<or> c = 47 \<and> \<not> has_prefix [47] r \<and> \<not> has_prefix [42] r"
      | (word) "is_identifier_start c"
      | (other) "c \<noteq> 47" "c \<noteq> 34" "\<not> is_identifier_start c" "\<not> (c = 123 \<and> sc_depth st = 1)"
      by (cases r) auto
    then show ?thesis
      using lexed_literal [OF rules] lexed_word [OF rules] lexed_other [OF rules] lexed_comment ag d less.prems(2,3)
      unfolding Cons by cases blast+
  qed
qed

lemma scan_step_inv: "scanner_inv st \<Longrightarrow> sc_index st < length src \<Longrightarrow> scanner_inv (scan_step src st)"
  by (simp add: scan_step_def step_normal_inv step_region_inv)

lemma scan_loop_iterates:
  obtains k where "k \<le> length src - sc_index st" and "length src \<le> sc_index ((scan_step src ^^ k) st)"
    and "scan_loop src st = (scan_step src ^^ k) st"
    and "\<forall>j < k. sc_index ((scan_step src ^^ j) st) < length src"
proof (induction src st arbitrary: thesis rule: scan_loop.induct)
  case (1 src st)
  show ?case
  proof (cases "sc_index st < length src")
    case True
    obtain k where k: "k \<le> length src - sc_index (scan_step src st)"
      "length src \<le> sc_index ((scan_step src ^^ k) (scan_step src st))"
      "scan_loop src (scan_step src st) = (scan_step src ^^ k) (scan_step src st)"
      "\<forall>j < k. sc_index ((scan_step src ^^ j) (scan_step src st)) < length src"
      using 1(1) [OF True] by blast
    have "Suc k \<le> length src - sc_index st" using k(1) scan_step_index [of st src] True by simp
    moreover have "sc_index ((scan_step src ^^ j) st) < length src" if "j < Suc k" for j
      using that True k(4) by (cases j) (simp_all add: funpow_swap1)
    ultimately show ?thesis
      using k(2,3) True by (intro 1(2) [of "Suc k"]) (simp_all add: funpow_swap1 scan_loop.simps [of src st])
  next
    case False
    then show ?thesis by (intro 1(2) [of 0]) (simp_all add: scan_loop.simps [of src st])
  qed
qed

lemma rule_names_count: "length (rule_names e ws) \<le> count_list ws rule_token + (if e then 1 else 0)"
  by (induction e ws rule: rule_names.induct) (auto simp: rule_token_def directive_tokens_def split: if_splits)

subsection \<open>Properties\<close>

text \<open>C16. The index-driven scanner is equivalent to the reference lexer: it counts the words \<open>rule\<close> that
  stand outside rule bodies, comments, quoted texts, regular expressions and hex strings, reports the last
  name declared by one, finds a directive exactly if \<open>import\<close> or \<open>include\<close> is among these words, and reports
  termination exactly if the source ends outside of every region and body.\<close>

theorem scan_equals_reference:
  "scan src =
     (let (ls, complete) = lexemes False src; ws = top_words False ls; names = rule_names False ws
      in \<lparr>lr_rule_count = count_list ws rule_token,
          lr_rule_name = (if names = [] then None else Some (last names)),
          lr_directive_found = (\<exists>w \<in> set ws. w \<in> directive_tokens),
          lr_terminated = complete\<rparr>)"
proof -
  have "scan src = outcome src new_scanner" by (simp add: scan_def outcome_def finish_def Let_def)
  also have "\<dots> = lexed src new_scanner" by (rule scanner_lexed) (simp_all add: new_scanner_def)
  finally show ?thesis by (simp add: new_scanner_def summary_def Let_def case_prod_beta)
qed

text \<open>C32. The scan terminates within one step per character: after at most \<open>len(source)\<close> iterations of the
  loop the index is past the source, and the loop's result is the state reached then; the body depth never
  exceeds one in any of the states on the way.\<close>

theorem scan_terminates:
  "\<exists>k \<le> length src. length src \<le> sc_index ((scan_step src ^^ k) new_scanner) \<and>
     scan_loop src new_scanner = (scan_step src ^^ k) new_scanner \<and>
     (\<forall>j \<le> k. sc_depth ((scan_step src ^^ j) new_scanner) \<le> 1)"
proof -
  obtain k where k: "k \<le> length src - sc_index new_scanner" "length src \<le> sc_index ((scan_step src ^^ k) new_scanner)"
    "scan_loop src new_scanner = (scan_step src ^^ k) new_scanner"
    "\<forall>j < k. sc_index ((scan_step src ^^ j) new_scanner) < length src"
    by (rule scan_loop_iterates)
  have "scanner_inv ((scan_step src ^^ j) new_scanner)" if "j \<le> k" for j
    using that k(4) by (induction j) (auto simp: new_scanner_inv scan_step_inv)
  then have "\<forall>j \<le> k. sc_depth ((scan_step src ^^ j) new_scanner) \<le> 1" by (simp add: scanner_inv_def)
  then show ?thesis using k(1-3) by (intro exI [of _ k]) simp
qed

theorem scan_terminates_witness:
  "\<exists>k \<le> length (u ''rule a{}''). scan_loop (u ''rule a{}'') new_scanner = (scan_step (u ''rule a{}'') ^^ k) new_scanner"
  using scan_terminates [of "u ''rule a{}''"] by blast

text \<open>The gate accepts exactly the sources it documents: a non-empty ASCII text without NUL of at most
  65536 characters, complete, with one top-level \<open>rule\<close> keyword and no top-level directive, whose declared
  name is an identifier of at most 128 characters, and which the compiler accepts; every other value,
  text or not, is refused.\<close>

lemma candidate_source_accepted_iff:
  "validate_candidate_rule_source compiles_clean source \<longleftrightarrow>
     (\<exists>src name ls.
        source = PStr src \<and> src \<noteq> [] \<and> is_ascii src \<and> 0 \<notin> set src \<and> length src \<le> 65536 \<and>
        lexemes False src = (ls, True) \<and> count_list (top_words False ls) rule_token = 1 \<and>
        set (top_words False ls) \<inter> directive_tokens = {} \<and>
        rule_names False (top_words False ls) = [name] \<and> identifier_text name \<and> length name \<le> 128 \<and>
        compiles_clean src)"
proof (cases source)
  case (PStr src)
  obtain ls complete where ls: "lexemes False src = (ls, complete)" by fastforce
  let ?ws = "top_words False ls"
  have ref: "scan src = (let names = rule_names False ?ws in
      \<lparr>lr_rule_count = count_list ?ws rule_token, lr_rule_name = (if names = [] then None else Some (last names)),
       lr_directive_found = (\<exists>w \<in> set ?ws. w \<in> directive_tokens), lr_terminated = complete\<rparr>)"
    using scanner_lexed [of new_scanner src src]
    by (simp add: scan_def outcome_def finish_def new_scanner_def summary_def Let_def ls)
  have ident: "identifier_text t" if "lr_rule_name (scan src) = Some t" for t
    using scan_loop_inv [OF new_scanner_inv, of src] that by (simp add: scan_def scanner_inv_def Let_def)
  have one: "rule_names False ?ws = [last (rule_names False ?ws)]"
    if "count_list ?ws rule_token = 1" "rule_names False ?ws \<noteq> []"
    using rule_names_count [of False ?ws] that by (cases "rule_names False ?ws") auto
  show ?thesis
    using ident one
    by (auto simp: validate_candidate_rule_source_def PStr ref Let_def ls MAX_YARA_SOURCE_BYTES_def
        MAX_YARA_RULE_NAME_LENGTH_def identifier_text_def split: if_splits)
qed (simp_all add: validate_candidate_rule_source_def)

end
