(* ===== verification/Py_Float.thy ===== *)
theory Py_Float
  imports Complex_Main Py_Json
begin

text \<open>
  Python floats as far as the confidence arithmetic of the node uses them: IEEE 754 doubles as exact
  rationals, with correct rounding (to nearest, ties to even) of quotients, differences and integer
  conversions. The sign of zero is not represented; no operation used here observes it.

  The facts at the end say what the confidence thresholds need: rounding keeps the unit interval and
  is monotone on the upper half of it.
\<close>

datatype pyfloat = Fin rat | PosInf | NegInf | NaN

definition round_half_even :: "rat \<Rightarrow> int" where
  "round_half_even q =
     (let f = \<lfloor>q\<rfloor>; d = q - of_int f
      in if d < 1 / 2 then f else if 1 / 2 < d then f + 1 else if even f then f else f + 1)"

definition pow2 :: "int \<Rightarrow> rat" where
  "pow2 k = (if 0 \<le> k then 2 ^ nat k else 1 / 2 ^ nat (- k))"

fun bit_length :: "nat \<Rightarrow> nat" where
  "bit_length n = (if n = 0 then 0 else Suc (bit_length (n div 2)))"

declare bit_length.simps [simp del]

text \<open>The exponent \<open>e\<close> with \<open>2^e \<le> q < 2^(e+1)\<close> of a positive rational.\<close>

definition binary_exponent :: "rat \<Rightarrow> int" where
  "binary_exponent q =
     (let (n, d) = quotient_of q;
          k = int (bit_length (nat n)) - int (bit_length (nat d))
      in if q < pow2 k then k - 1 else k)"

definition round_double :: "rat \<Rightarrow> rat" where
  "round_double q =
     (if q = 0 then 0
      else let ulp = pow2 (max (binary_exponent \<bar>q\<bar>) (- 1022) - 52)
           in of_int (round_half_even (q / ulp)) * ulp)"

text \<open>A real result as a float; a magnitude beyond the double range raises \<open>OverflowError\<close>.\<close>

definition float_of_rat :: "rat \<Rightarrow> pyexc + pyfloat" where
  "float_of_rat q =
     (let r = round_double q in if pow2 1024 \<le> \<bar>r\<bar> then Inl OverflowError else Inr (Fin r))"

text \<open>A numeric attribute as the code meets it before any test.\<close>

datatype pynum = NumBool bool | NumInt int | NumFloat pyfloat | NumOther

text \<open>\<open>value / 10_000\<close>\<close>

fun div_10000 :: "pynum \<Rightarrow> pyexc + pyfloat" where
  "div_10000 (NumInt n) = float_of_rat (of_int n / 10000)"
| "div_10000 (NumBool b) = float_of_rat (of_bool b / 10000)"
| "div_10000 (NumFloat (Fin q)) = Inr (Fin (round_double (q / 10000)))"
| "div_10000 (NumFloat f) = Inr f"
| "div_10000 NumOther = Inl TypeError"

text \<open>\<open>float(value)\<close> for a value that is an int or a float.\<close>

fun to_float :: "pynum \<Rightarrow> pyexc + pyfloat" where
  "to_float (NumInt n) = float_of_rat (of_int n)"
| "to_float (NumBool b) = float_of_rat (of_bool b)"
| "to_float (NumFloat f) = Inr f"
| "to_float NumOther = Inl TypeError"

text \<open>Comparison of floats; every comparison with NaN is false.\<close>

fun float_le :: "pyfloat \<Rightarrow> pyfloat \<Rightarrow> bool" where
  "float_le NaN _ = False"
| "float_le _ NaN = False"
| "float_le NegInf _ = True"
| "float_le _ PosInf = True"
| "float_le (Fin a) (Fin b) = (a \<le> b)"
| "float_le _ _ = False"

fun float_finite :: "pyfloat \<Rightarrow> bool" where
  "float_finite (Fin _) = True"
| "float_finite _ = False"

text \<open>\<open>math.isclose(a, b, rel_tol=0.0, abs_tol=1e-9)\<close> for finite arguments.\<close>

fun isclose_1e9 :: "pyfloat \<Rightarrow> pyfloat \<Rightarrow> bool" where
  "isclose_1e9 (Fin a) (Fin b) =
     (a = b \<or> \<bar>round_double (b - a)\<bar> \<le> round_double (1 / 1000000000))"
| "isclose_1e9 _ _ = False"

text \<open>\<open>f"{x:.2f}"\<close> for a finite non-negative float.\<close>

definition format_2f :: "rat \<Rightarrow> pystr" where
  "format_2f q =
     (let n = nat (round_half_even (q * 100))
      in nat_digits (n div 100) @ [46, 48 + n div 10 mod 10, 48 + n mod 10])"

text \<open>\<open>f"{n:04d}"\<close> for a non-negative integer.\<close>

definition format_04d :: "nat \<Rightarrow> pystr" where
  "format_04d n = (let s = nat_digits n in replicate (4 - length s) 48 @ s)"

subsection \<open>Rounding\<close>

lemma round_half_even_mono: "a \<le> b \<Longrightarrow> round_half_even a \<le> round_half_even b"
proof -
  assume ab: "a \<le> b"
  have fl: "\<lfloor>a\<rfloor> \<le> \<lfloor>b\<rfloor>" using ab by (rule floor_mono)
  have up: "round_half_even x \<le> \<lfloor>x\<rfloor> + 1" "\<lfloor>x\<rfloor> \<le> round_half_even x" for x
    by (auto simp: round_half_even_def Let_def)
  show ?thesis
  proof (cases "\<lfloor>a\<rfloor> = \<lfloor>b\<rfloor>")
    case True
    with ab show ?thesis by (auto simp: round_half_even_def Let_def)
  next
    case False
    with fl have "\<lfloor>a\<rfloor> + 1 \<le> \<lfloor>b\<rfloor>" by linarith
    with up show ?thesis by (meson order_trans)
  qed
qed

lemma round_half_even_of_int [simp]: "round_half_even (of_int n) = n"
  by (simp add: round_half_even_def)

lemma bit_length_bounds: "0 < n \<Longrightarrow> 2 ^ (bit_length n - 1) \<le> n \<and> n < 2 ^ bit_length n"
proof (induction n rule: bit_length.induct)
  case (1 n)
  show ?case
  proof (cases "n div 2 = 0")
    case True
    with 1(2) have "n = 1" by linarith
    then show ?thesis by (simp add: bit_length.simps)
  next
    case False
    with 1 have IH: "2 ^ (bit_length (n div 2) - 1) \<le> n div 2" "n div 2 < 2 ^ bit_length (n div 2)"
      by auto
    have pos: "0 < bit_length (n div 2)" using False by (subst bit_length.simps) simp
    have b: "bit_length n = Suc (bit_length (n div 2))"
      using 1(2) by (subst bit_length.simps) simp
    have "(2::nat) ^ bit_length (n div 2) = 2 * 2 ^ (bit_length (n div 2) - 1)"
      using pos by (cases "bit_length (n div 2)") simp_all
    with IH have "(2::nat) ^ bit_length (n div 2) \<le> n" "n < 2 * 2 ^ bit_length (n div 2)"
      by linarith+
    with b show ?thesis by simp
  qed
qed

lemma pow2_pos [simp]: "0 < pow2 k"
  by (simp add: pow2_def)

lemma pow2_powi: "pow2 k = 2 powi k"
  by (simp add: pow2_def power_int_def field_simps)

lemma pow2_add: "pow2 (a + b) = pow2 a * pow2 b"
  by (simp add: pow2_powi power_int_add)

lemma pow2_le_mono: "a \<le> b \<Longrightarrow> pow2 a \<le> pow2 b"
  by (simp add: pow2_powi power_int_increasing)

lemma pow2_of_nat: "pow2 (int n) = 2 ^ n"
  by (simp add: pow2_def)

lemma pow2_diff: "pow2 (a - b) = pow2 a / pow2 b"
  by (simp add: pow2_powi power_int_diff)

lemma pow2_less_imp: "pow2 a < pow2 b \<Longrightarrow> a < b"
  using pow2_le_mono by (meson linorder_not_le)

lemma binary_exponent_bounds:
  assumes "0 < q"
  shows "pow2 (binary_exponent q) \<le> q" and "q < pow2 (binary_exponent q + 1)"
proof -
  obtain n d where nd: "quotient_of q = (n, d)" by fastforce
  have d: "0 < d" using quotient_of_denom_pos [OF nd] .
  have q: "q = of_int n / of_int d" using quotient_of_div [OF nd] .
  have n: "0 < n" using assms d by (simp add: q zero_less_divide_iff)
  let ?bn = "bit_length (nat n)" and ?bd = "bit_length (nat d)"
  have bound: "2 ^ (bit_length (nat m) - 1) \<le> (of_int m :: rat) \<and> (of_int m :: rat) < 2 ^ bit_length (nat m)"
    if "0 < m" for m :: int
  proof -
    have b: "2 ^ (bit_length (nat m) - 1) \<le> nat m" "nat m < 2 ^ bit_length (nat m)"
      using bit_length_bounds [of "nat m"] that by simp_all
    have "(2 ^ (bit_length (nat m) - 1) :: rat) \<le> of_nat (nat m)"
      using b(1) by (metis of_nat_le_iff of_nat_numeral of_nat_power)
    moreover have "(of_nat (nat m) :: rat) < 2 ^ bit_length (nat m)"
      using b(2) by (metis of_nat_less_iff of_nat_numeral of_nat_power)
    ultimately show ?thesis using that by simp
  qed
  have pos: "0 < bit_length (nat m)" if "0 < m" for m :: int
    using that by (subst bit_length.simps) simp
  define k where "k = int ?bn - int ?bd"
  have lo: "pow2 (k - 1) < q"
  proof -
    have "k - 1 = int (?bn - 1) - int ?bd" using pos [OF n] by (simp add: k_def of_nat_diff)
    then have "pow2 (k - 1) = 2 ^ (?bn - 1) / 2 ^ ?bd"
      using pow2_diff [of "int (?bn - 1)" "int ?bd"] by (simp only: pow2_of_nat)
    also have "\<dots> < of_int n / of_int d"
      using bound [OF n] bound [OF d] d by (intro frac_less2) simp_all
    finally show ?thesis by (simp add: q)
  qed
  have hi: "q < pow2 (k + 1)"
  proof -
    have "of_int n / of_int d < (2 ^ ?bn / 2 ^ (?bd - 1) :: rat)"
      using bound [OF n] bound [OF d] n by (intro frac_less) simp_all
    also have "\<dots> = pow2 (k + 1)"
    proof -
      have "k + 1 = int ?bn - int (?bd - 1)" using pos [OF d] by (simp add: k_def of_nat_diff)
      then show ?thesis
        using pow2_diff [of "int ?bn" "int (?bd - 1)"] by (simp only: pow2_of_nat)
    qed
    finally show ?thesis by (simp add: q)
  qed
  show "pow2 (binary_exponent q) \<le> q" and "q < pow2 (binary_exponent q + 1)"
    using lo hi by (simp_all add: binary_exponent_def nd Let_def k_def [symmetric])
qed

lemma binary_exponent_unique:
  assumes "pow2 e \<le> q" and "q < pow2 (e + 1)"
  shows "binary_exponent q = e"
proof -
  have "0 < q" using assms(1) pow2_pos [of e] by (rule order_less_le_trans [rotated])
  then have "pow2 e < pow2 (binary_exponent q + 1)" "pow2 (binary_exponent q) < pow2 (e + 1)"
    using assms binary_exponent_bounds [of q] by (meson order_le_less_trans)+
  then have "e < binary_exponent q + 1" "binary_exponent q < e + 1"
    by (auto dest: pow2_less_imp)
  then show ?thesis by linarith
qed

lemma round_double_0 [simp]: "round_double 0 = 0"
  by (simp add: round_double_def)

lemma round_double_upper_half:
  assumes "1 / 2 \<le> q" and "q \<le> 1"
  shows "round_double q = of_int (round_half_even (q * 2 ^ 53)) / 2 ^ 53"
proof (cases "q = 1")
  case True
  have "binary_exponent (1 :: rat) = 0" by (rule binary_exponent_unique) (simp_all add: pow2_def)
  then show ?thesis
    using round_half_even_of_int [of "2 ^ 52"] round_half_even_of_int [of "2 ^ 53"]
    by (simp add: True round_double_def pow2_def)
next
  case False
  have "binary_exponent q = - 1"
    using assms False by (intro binary_exponent_unique) (simp_all add: pow2_def)
  then show ?thesis using assms by (simp add: round_double_def pow2_def)
qed

lemma round_double_mono_upper_half:
  assumes "1 / 2 \<le> a" and "a \<le> b" and "b \<le> 1"
  shows "round_double a \<le> round_double b"
proof -
  have "round_half_even (a * 2 ^ 53) \<le> round_half_even (b * 2 ^ 53)"
    using assms(2) by (intro round_half_even_mono) simp
  then show ?thesis
    using assms by (simp add: round_double_upper_half divide_right_mono)
qed

lemma round_double_unit:
  assumes "0 \<le> q" and "q \<le> 1"
  shows "0 \<le> round_double q" and "round_double q \<le> 1"
proof -
  have "0 \<le> round_double q \<and> round_double q \<le> 1"
  proof (cases "q = 0 \<or> 1 / 2 \<le> q")
    case True
    have "round_half_even (0::rat) \<le> round_half_even (q * 2 ^ 53)"
      "round_half_even (q * 2 ^ 53) \<le> round_half_even (of_int (2 ^ 53))"
      using assms by (intro round_half_even_mono; simp)+
    then have "0 \<le> round_half_even (q * 2 ^ 53)" "round_half_even (q * 2 ^ 53) \<le> 2 ^ 53"
      using round_half_even_of_int [of 0] round_half_even_of_int [of "2 ^ 53"] by simp_all
    then have "(0 :: rat) \<le> of_int (round_half_even (q * 2 ^ 53))"
      "(of_int (round_half_even (q * 2 ^ 53)) :: rat) \<le> 2 ^ 53"
      by (simp, metis of_int_le_iff of_int_numeral of_int_power)
    with True assms show ?thesis by (auto simp: round_double_upper_half)
  next
    case False
    define E where "E = max (binary_exponent q) (- 1022)"
    have q: "0 < q" "q < 1 / 2" using False assms by auto
    then have "pow2 (binary_exponent q) < pow2 (- 1)"
      using binary_exponent_bounds(1) [of q] by (simp add: pow2_def)
    then have E: "E + 1 \<le> 0" using pow2_less_imp by (fastforce simp: E_def)
    have "q \<le> pow2 (E + 1)"
      using binary_exponent_bounds(2) [OF q(1)] pow2_le_mono [of "binary_exponent q + 1" "E + 1"]
      by (simp add: E_def)
    also have "\<dots> = of_int (2 ^ 53) * pow2 (E - 52)"
      using pow2_add [of 53 "E - 52"] by (simp add: pow2_def [of 53] add.commute)
    finally have "q / pow2 (E - 52) \<le> of_int (2 ^ 53)" by (simp add: field_simps)
    then have "round_half_even (q / pow2 (E - 52)) \<le> 2 ^ 53"
      using round_half_even_mono round_half_even_of_int [of "2 ^ 53"] by metis
    then have "(of_int (round_half_even (q / pow2 (E - 52))) :: rat) \<le> of_int (2 ^ 53)"
      by (simp only: of_int_le_iff)
    then have "of_int (round_half_even (q / pow2 (E - 52))) * pow2 (E - 52) \<le> of_int (2 ^ 53) * pow2 (E - 52)"
      by (intro mult_right_mono) (simp_all add: less_imp_le)
    also have "\<dots> = pow2 (E + 1)"
      using pow2_add [of 53 "E - 52"] by (simp add: pow2_def [of 53] add.commute)
    also have "\<dots> \<le> 1" using pow2_le_mono [OF E] by (simp add: pow2_def [of 0])
    finally have "round_double q \<le> 1" using q by (simp add: round_double_def E_def Let_def)
    moreover have "0 \<le> round_half_even (q / pow2 (E - 52))"
      using q round_half_even_mono [of 0 "q / pow2 (E - 52)"] round_half_even_of_int [of 0]
      by (simp add: less_imp_le)
    then have "0 \<le> round_double q" using q by (simp add: round_double_def E_def Let_def less_imp_le)
    ultimately show ?thesis by simp
  qed
  then show "0 \<le> round_double q" and "round_double q \<le> 1" by simp_all
qed

lemma float_of_rat_unit: "0 \<le> q \<Longrightarrow> q \<le> 1 \<Longrightarrow> float_of_rat q = Inr (Fin (round_double q))"
proof -
  assume q: "0 \<le> q" "q \<le> 1"
  have "\<bar>round_double q\<bar> < pow2 1024"
    using round_double_unit [OF q] pow2_le_mono [of 1 1024] by (simp add: pow2_def [of 1])
  then show ?thesis by (simp add: float_of_rat_def)
qed

end
