(* ===== verification/Py_Json_Facts.thy ===== *)
theory Py_Json_Facts
  imports Py_Json "HOL-Library.Multiset"
begin

text \<open>
  The facts about the text codecs that the component theories rest on: both round trips, that the
  serialiser with \<open>ensure_ascii\<close> emits ASCII only, and that the parser's fuel is enough.
\<close>

subsection \<open>UTF-8 round trip\<close>

lemma utf8_split2: "(c div 64) * 64 + c mod 64 = (c::nat)"
  by simp

lemma utf8_split3: "(c div 4096) * 4096 + (c div 64 mod 64) * 64 + c mod 64 = (c::nat)"
proof -
  have "(c div 64 div 64) * 64 + c div 64 mod 64 = c div 64" by (rule utf8_split2)
  moreover have "c div 64 div 64 = c div 4096" by (simp add: div_mult2_eq [symmetric])
  moreover have "(c div 64) * 64 + c mod 64 = c" by (rule utf8_split2)
  ultimately show ?thesis by linarith
qed

lemma utf8_split4:
  "(c div 262144) * 262144 + (c div 4096 mod 64) * 4096 + (c div 64 mod 64) * 64 + c mod 64 = (c::nat)"
proof -
  have "(c div 4096 div 64) * 64 + c div 4096 mod 64 = c div 4096" by (rule utf8_split2)
  moreover have "c div 4096 div 64 = c div 262144" by (simp add: div_mult2_eq [symmetric])
  moreover note utf8_split3 [of c]
  ultimately show ?thesis by linarith
qed

lemma is_cont_low6 [simp]: "is_cont (128 + n mod 64)"
  by (simp add: is_cont_def)

lemma utf8_decode_char:
  assumes "is_scalar c"
  shows "utf8_decode_nats (utf8_char c @ r) = map_option (Cons c) (utf8_decode_nats r)"
proof -
  consider "c < 128" | "128 \<le> c" "c < 2048" | "2048 \<le> c" "c < 65536" | "65536 \<le> c" by linarith
  then show ?thesis
  proof cases
    case 2
    define a b where "a = c div 64" and "b = c mod 64"
    have "2 \<le> a" "a < 32" and c: "c = a * 64 + b" using 2 by (simp_all add: a_def b_def)
    moreover have "is_cont (128 + b)" by (simp add: b_def)
    moreover have "utf8_char c = [192 + a, 128 + b]" using 2 by (simp add: utf8_char_def a_def b_def)
    ultimately show ?thesis by simp
  next
    case 3
    define a b d where "a = c div 4096" and "b = c div 64 mod 64" and "d = c mod 64"
    have "a < 16" using 3 by (simp add: a_def)
    moreover have "is_cont (128 + b)" "is_cont (128 + d)" by (simp_all add: b_def d_def)
    moreover have "utf8_char c = [224 + a, 128 + b, 128 + d]"
      using 3 by (simp add: utf8_char_def a_def b_def d_def)
    moreover have "a * 4096 + b * 64 + d = c" unfolding a_def b_def d_def by (rule utf8_split3)
    ultimately show ?thesis using 3 assms by (simp add: Let_def)
  next
    case 4
    have "c < 1114112" using assms by (simp add: is_scalar_def)
    define a b d e where "a = c div 262144" and "b = c div 4096 mod 64"
      and "d = c div 64 mod 64" and "e = c mod 64"
    have "a < 5" using \<open>c < 1114112\<close> by (simp add: a_def)
    moreover have "is_cont (128 + b)" "is_cont (128 + d)" "is_cont (128 + e)"
      by (simp_all add: b_def d_def e_def)
    moreover have "utf8_char c = [240 + a, 128 + b, 128 + d, 128 + e]"
      using 4 by (simp add: utf8_char_def a_def b_def d_def e_def)
    moreover have "a * 262144 + b * 4096 + d * 64 + e = c"
      unfolding a_def b_def d_def e_def by (rule utf8_split4)
    ultimately show ?thesis using 4 assms by (simp add: Let_def)
  qed (simp add: utf8_char_def)
qed

lemma utf8_char_byte: "is_scalar c \<Longrightarrow> b \<in> set (utf8_char c) \<Longrightarrow> b < 256"
  by (auto simp: utf8_char_def is_scalar_def split: if_splits)

lemma map_unat_of_nat: "\<forall>n \<in> set ns. n < 256 \<Longrightarrow> map unat (map of_nat ns :: bytes) = ns"
  by (auto intro!: map_idI unat_of_nat_byte)

lemma utf8_decode_encode: "utf8_encode s = Some bs \<Longrightarrow> utf8_decode bs = Some s"
proof -
  assume e: "utf8_encode s = Some bs"
  then have sc: "list_all is_scalar s" and bs: "bs = map of_nat (concat (map utf8_char s))"
    by (auto simp: utf8_encode_def split: if_splits)
  have "\<forall>n \<in> set (concat (map utf8_char s)). n < 256"
    using sc by (auto simp: list_all_iff dest: utf8_char_byte [rotated])
  then have "map unat bs = concat (map utf8_char s)"
    unfolding bs by (rule map_unat_of_nat)
  moreover have "utf8_decode_nats (concat (map utf8_char s)) = Some s"
    using sc by (induction s) (simp_all add: utf8_decode_char)
  ultimately show ?thesis by (simp add: utf8_decode_def)
qed

lemma ascii_is_scalar: "c < 128 \<Longrightarrow> is_scalar c"
  by (simp add: is_scalar_def is_surrogate_def)

lemma utf8_encode_ascii: "is_ascii s \<Longrightarrow> utf8_encode s = Some (ascii_bytes s)"
proof -
  assume a: "is_ascii s"
  then have "concat (map utf8_char s) = s" by (induction s) (simp_all add: utf8_char_def)
  moreover have "list_all is_scalar s"
    using a by (auto simp: is_ascii_def list_all_iff intro: ascii_is_scalar)
  ultimately show ?thesis by (simp add: utf8_encode_def ascii_bytes_def)
qed

lemma utf8_decode_ascii: "is_ascii s \<Longrightarrow> utf8_decode (ascii_bytes s) = Some s"
  by (intro utf8_decode_encode utf8_encode_ascii)

subsection \<open>Decimal integers\<close>

lemma nat_digits_digits: "list_all is_digit (nat_digits n)"
proof (induction n rule: nat_digits.induct)
  case (1 n)
  show ?case
    by (subst nat_digits.simps) (use 1 in \<open>simp add: is_digit_def [of "48 + _"] less_Suc_eq_le [symmetric]\<close>)
qed

lemma nat_digits_nonempty [simp]: "nat_digits n \<noteq> []"
  by (subst nat_digits.simps) simp

lemma digits_value_snoc: "digits_value (ds @ [c]) = 10 * digits_value ds + (c - 48)"
  by (simp add: digits_value_def)

lemma digits_value_nat_digits [simp]: "digits_value (nat_digits n) = n"
proof (induction n rule: nat_digits.induct)
  case (1 n)
  show ?case
  proof (cases "n < 10")
    case True
    then show ?thesis by (subst nat_digits.simps) (simp add: digits_value_def)
  next
    case False
    with 1 show ?thesis by (subst nat_digits.simps) (simp add: digits_value_snoc)
  qed
qed

lemma nat_digits_lead: "nat_digits n = 48 # r \<Longrightarrow> n = 0 \<and> r = []"
proof (induction n arbitrary: r rule: nat_digits.induct)
  case (1 n)
  show ?case
  proof (cases "n < 10")
    case True
    with 1 show ?thesis by (subst (asm) (2) nat_digits.simps) simp
  next
    case False
    then have *: "nat_digits n = nat_digits (n div 10) @ [48 + n mod 10]"
      by (subst nat_digits.simps) simp
    then obtain r' where "nat_digits (n div 10) = 48 # r'"
      using "1.prems" by (cases "nat_digits (n div 10)") auto
    then have "n div 10 = 0" using "1.IH" [OF False] by blast
    with False show ?thesis by simp
  qed
qed

definition ends_number :: "pystr \<Rightarrow> bool" where
  "ends_number r \<longleftrightarrow> (case r of [] \<Rightarrow> True | c # _ \<Rightarrow> \<not> is_digit c \<and> c \<noteq> 46 \<and> c \<noteq> 101 \<and> c \<noteq> 69)"

lemma take_drop_digits:
  assumes "list_all is_digit ds" and "ends_number r"
  shows "takeWhile is_digit (ds @ r) = ds" and "dropWhile is_digit (ds @ r) = r"
proof -
  have "takeWhile is_digit r = []" and "dropWhile is_digit r = r"
    using assms(2) by (auto simp: ends_number_def split: list.splits)
  with assms(1) show "takeWhile is_digit (ds @ r) = ds" and "dropWhile is_digit (ds @ r) = r"
    by (simp_all add: list_all_iff)
qed

lemma scan_int_part_digits:
  assumes "ends_number r"
  shows "scan_int_part (nat_digits n @ r) = Some (nat_digits n, r)"
proof (cases "nat_digits n")
  case (Cons c ds)
  have dig: "list_all is_digit (c # ds)" using nat_digits_digits [of n] Cons by simp
  show ?thesis
  proof (cases "c = 48")
    case True
    with Cons nat_digits_lead [of n ds] show ?thesis by (simp add: scan_int_part_def)
  next
    case False
    with dig assms Cons show ?thesis
      using take_drop_digits [OF dig assms] by (simp add: scan_int_part_def)
  qed
qed simp

lemma scan_frac_end: "ends_number r \<Longrightarrow> scan_frac r = ([], r)"
  and scan_exp_end: "ends_number r \<Longrightarrow> scan_exp r = ([], r)"
  by (auto simp: ends_number_def scan_frac_def scan_exp_def split: list.splits)

lemma nat_digits_not_minus: "has_prefix [45] (nat_digits n @ r) = False"
  using nat_digits_digits [of n] by (cases "nat_digits n") (auto simp: is_digit_def)

lemma scan_number_int:
  assumes "ends_number r" and "length (nat_digits (nat \<bar>n\<bar>)) \<le> int_max_str_digits"
  shows "scan_number E (int_str n @ r) = Inr (PInt n, r)"
proof (cases "n < 0")
  case True
  with assms show ?thesis
    by (simp add: scan_number_def int_str_def scan_int_part_digits scan_frac_end scan_exp_end)
next
  case False
  with assms show ?thesis using nat_digits_not_minus [of "nat n" r]
    by (simp add: scan_number_def int_str_def scan_int_part_digits scan_frac_end scan_exp_end)
qed

subsection \<open>String literals\<close>

lemma hex_any_digit: "n < 16 \<Longrightarrow> hex_any (hex_digit n) = Some n"
  by (auto simp: hex_any_def hex_digit_def)

lemma length_hex4 [simp]: "length (hex4 n) = 4"
  by (simp add: hex4_def)

lemma hex4_split:
  assumes "(n::nat) < 65536"
  shows "4096 * (n div 4096 mod 16) + 256 * (n div 256 mod 16) + 16 * (n div 16 mod 16) + n mod 16 = n"
proof -
  have *: "16 * (m div 16) + m mod 16 = m" for m :: nat by simp
  have "n div 256 = n div 16 div 16" "n div 4096 = n div 256 div 16"
    by (simp_all add: div_mult2_eq [symmetric])
  moreover have "n div 4096 mod 16 = n div 4096" using assms by simp
  ultimately show ?thesis using * [of n] * [of "n div 16"] * [of "n div 256"] by linarith
qed

lemma scan_hex4_hex4: "n < 65536 \<Longrightarrow> scan_hex4 (hex4 n @ r) = Some n"
  using hex4_split [of n] by (simp add: hex4_def hex_any_digit)

lemma drop_hex4 [simp]: "drop 4 (hex4 n @ r) = r"
  by (simp add: hex4_def)

lemma cons_fst_Some [simp]: "cons_fst c (Some (s, r)) = Some (c # s, r)"
  by (simp add: cons_fst_def)

lemma scan_string_u_escape:
  assumes "c < 65536" and "\<not> is_surrogate c"
  shows "scan_string (u_escape c @ r) = cons_fst c (scan_string r)"
proof -
  have "c < 55296 \<or> 57343 < c" using assms(2) by (auto simp: is_surrogate_def)
  then have no: "(55296 \<le> c \<and> c \<le> 56319) = False" by auto
  show ?thesis using assms(1)
    by (simp add: u_escape_def scan_string.simps(2) [of 92] scan_hex4_hex4 no)
qed

lemma low_surrogate_escape_u:
  "56320 \<le> w \<Longrightarrow> w \<le> 57343 \<Longrightarrow> low_surrogate_escape (u_escape w @ r) = Some w"
  by (simp add: low_surrogate_escape_def u_escape_def scan_hex4_hex4)

lemma scan_string_pair:
  assumes "65536 \<le> c" and "c < 1114112"
  shows "scan_string (u_escape (55296 + (c - 65536) div 1024) @
           u_escape (56320 + (c - 65536) mod 1024) @ r) = cons_fst c (scan_string r)"
proof -
  let ?hi = "55296 + (c - 65536) div 1024" and ?lo = "56320 + (c - 65536) mod 1024"
  have hi: "?hi \<le> 56319" using assms by simp
  have lo: "?lo \<le> 57343" using mod_less_divisor [of 1024 "c - 65536"] by linarith
  have low: "low_surrogate_escape (u_escape ?lo @ r) = Some ?lo"
    using lo by (intro low_surrogate_escape_u) simp_all
  have "65536 + (?hi - 55296) * 1024 + (?lo - 56320) = c"
    using assms by simp
  moreover have "drop 10 (hex4 ?hi @ u_escape ?lo @ r) = r"
    by (simp add: hex4_def u_escape_def)
  ultimately show ?thesis using hi low
    by (simp add: u_escape_def [of ?hi] scan_string.simps(2) [of 92] scan_hex4_hex4)
qed

lemma scan_string_escape_char:
  assumes "is_scalar c"
  shows "scan_string (escape_char asc c @ r) = cons_fst c (scan_string r)"
proof -
  consider "c \<in> {34, 92, 10, 13, 9, 12, 8}"
    | "c \<notin> {34, 92, 10, 13, 9, 12, 8}" "c < 32"
    | "c \<notin> {34, 92}" "32 \<le> c" "\<not> (asc \<and> 126 < c)"
    | "126 < c" "asc" "c < 65536" | "126 < c" "asc" "65536 \<le> c" by fastforce
  then show ?thesis
  proof cases
    case 1
    then show ?thesis by (auto simp: escape_char_def scan_string.simps simple_escape_def)
  next
    case 2
    then show ?thesis
      by (simp add: escape_char_def scan_string_u_escape is_surrogate_def)
  next
    case 3
    then have "escape_char asc c = [c]" by (auto simp: escape_char_def)
    with 3 show ?thesis by (simp add: scan_string.simps(2) [of c])
  next
    case 4
    then show ?thesis using assms
      by (simp add: escape_char_def scan_string_u_escape is_scalar_def)
  next
    case 5
    then show ?thesis using assms scan_string_pair [of c r]
      by (simp add: escape_char_def is_scalar_def)
  qed
qed

lemma scan_string_quote:
  "list_all is_scalar s \<Longrightarrow>
   scan_string (concat (map (escape_char asc) s) @ 34 # r) = Some (s, r)"
proof (induction s)
  case Nil
  then show ?case by (simp add: scan_string.simps)
next
  case (Cons c s)
  then show ?case by (simp add: scan_string_escape_char)
qed

subsection \<open>Values\<close>

lemma starts_with_simps [simp]:
  "starts_with c [] = False" "starts_with c (x # xs) = (x = c)"
  by (simp_all add: starts_with_def)

lemma skip_ws_Cons [simp]: "\<not> is_ws c \<Longrightarrow> skip_ws (c # s) = c # s"
  and skip_ws_Nil [simp]: "skip_ws [] = []"
  by (simp_all add: skip_ws_def)

lemma length_skip_ws: "length (skip_ws s) \<le> length s"
  by (simp add: skip_ws_def length_dropWhile_le)

lemma is_ws_delims [simp]: "\<not> is_ws 34" "\<not> is_ws 44" "\<not> is_ws 58" "\<not> is_ws 91" "\<not> is_ws 93"
    "\<not> is_ws 123" "\<not> is_ws 125"
  by (simp_all add: is_ws_def)

lemma u_lits:
  "u ''null'' = [110, 117, 108, 108]" "u ''true'' = [116, 114, 117, 101]"
  "u ''false'' = [102, 97, 108, 115, 101]" "u ''NaN'' = [78, 97, 78]"
  "u ''Infinity'' = [73, 110, 102, 105, 110, 105, 116, 121]"
  "u ''-Infinity'' = [45, 73, 110, 102, 105, 110, 105, 116, 121]"
  by (simp_all add: u_def)

lemma int_str_head:
  obtains c t where "int_str n = c # t" and "is_digit c \<or> (c = 45 \<and> (\<exists>x t'. t = x # t' \<and> is_digit x))"
proof -
  obtain x t' where d: "nat_digits m = x # t'" "is_digit x" if "m = nat \<bar>n\<bar>" for m
    using nat_digits_digits [of "nat \<bar>n\<bar>"] by (cases "nat_digits (nat \<bar>n\<bar>)") auto
  show thesis
  proof (cases "n < 0")
    case True
    with d [of "nat (- n)"] that show thesis by (simp add: int_str_def)
  next
    case False
    with d [of "nat n"] that show thesis by (simp add: int_str_def)
  qed
qed

lemma scan_value_int:
  assumes "ends_number r" and "length (nat_digits (nat \<bar>n\<bar>)) \<le> int_max_str_digits"
  shows "scan_value E (Suc f) d (int_str n @ r) = Inr (PInt n, r)"
proof -
  obtain c t where ct: "int_str n = c # t"
    and cc: "is_digit c \<or> (c = 45 \<and> (\<exists>x t'. t = x # t' \<and> is_digit x))"
    by (rule int_str_head)
  have "scan_value E (Suc f) d (int_str n @ r) = scan_number E (int_str n @ r)"
    using cc by (auto simp: ct u_lits is_digit_def)
  then show ?thesis using scan_number_int [OF assms] by simp
qed

lemma json_dumps_head: "json_plain v \<Longrightarrow> \<exists>c t. json_dumps srt asc v = c # t \<and> \<not> is_ws c \<and> c \<noteq> 93"
proof (cases v)
  case (PInt n)
  obtain c t where "int_str n = c # t" and "is_digit c \<or> c = 45"
    using int_str_head [of n] by blast
  with PInt show ?thesis by (auto simp: is_digit_def is_ws_def)
qed (auto simp: u_lits is_ws_def json_quote_def Let_def)

lemma skip_ws_dumps:
  assumes "json_plain v"
  shows "skip_ws (json_dumps srt asc v @ r) = json_dumps srt asc v @ r"
    and "starts_with 93 (json_dumps srt asc v @ r) = False"
    and "json_dumps srt asc v \<noteq> []"
  using json_dumps_head [OF assms, of srt asc] by auto

definition member_text :: "bool \<Rightarrow> pystr \<times> pystr \<Rightarrow> pystr" where
  "member_text asc it = json_quote asc (fst it) @ 58 # snd it"

lemma json_dumps_dict:
  "json_dumps False asc (PDict kvs) =
     123 # join_comma (map (member_text asc) (json_dumps_items False asc kvs)) @ [125]"
  by (simp add: Let_def member_text_def [abs_def])

lemma scan_string_member:
  "list_all is_scalar k \<Longrightarrow>
   scan_string (tl (member_text asc (k, t) @ r)) = Some (k, 58 # t @ r)"
  using scan_string_quote [of k asc "58 # t @ r"] by (simp add: member_text_def json_quote_def)

lemma starts_with_member [simp]:
  "starts_with 34 (member_text asc it @ r)" "skip_ws (member_text asc it @ r) = member_text asc it @ r"
  "starts_with 125 (member_text asc it @ r) = False"
  by (simp_all add: member_text_def json_quote_def)

lemma length_member_text: "length (snd it) + 3 \<le> length (member_text asc it)"
  by (simp add: member_text_def json_quote_def)

lemma ends_number_delim [simp]: "ends_number (44 # r)" "ends_number (93 # r)" "ends_number (125 # r)"
    "ends_number []"
  by (simp_all add: ends_number_def is_digit_def)

lemma join_comma_Cons: "ts \<noteq> [] \<Longrightarrow> join_comma (t # ts) = t @ 44 # join_comma ts"
  by (cases ts) simp_all

lemma json_dumps_list_nonempty [simp]: "json_dumps_list srt asc vs = [] \<longleftrightarrow> vs = []"
  and json_dumps_items_nonempty [simp]: "json_dumps_items srt asc kvs = [] \<longleftrightarrow> kvs = []"
  by (cases vs, simp_all) (cases kvs, simp_all)

lemma join_list_head:
  assumes "json_plain_list vs" and "vs \<noteq> []"
  shows "skip_ws (join_comma (json_dumps_list srt asc vs) @ r) = join_comma (json_dumps_list srt asc vs) @ r"
    and "starts_with 93 (join_comma (json_dumps_list srt asc vs) @ r) = False"
proof -
  obtain v vs' where vs: "vs = v # vs'" using assms(2) by (cases vs) auto
  obtain r' where "join_comma (json_dumps_list srt asc vs) @ r = json_dumps srt asc v @ r'"
    by (cases "vs'") (simp_all add: vs join_comma_Cons)
  with assms(1) vs show
    "skip_ws (join_comma (json_dumps_list srt asc vs) @ r) = join_comma (json_dumps_list srt asc vs) @ r"
    "starts_with 93 (join_comma (json_dumps_list srt asc vs) @ r) = False"
    by (simp_all add: skip_ws_dumps)
qed

lemma join_items_head:
  assumes "kvs \<noteq> []"
  shows "skip_ws (join_comma (map (member_text asc) (json_dumps_items srt asc kvs)) @ r) =
           join_comma (map (member_text asc) (json_dumps_items srt asc kvs)) @ r"
    and "starts_with 125 (join_comma (map (member_text asc) (json_dumps_items srt asc kvs)) @ r) = False"
proof -
  obtain kv kvs' where kvs: "kvs = kv # kvs'" using assms by (cases kvs) auto
  obtain r' where "join_comma (map (member_text asc) (json_dumps_items srt asc kvs)) @ r =
      member_text asc (fst kv, json_dumps srt asc (snd kv)) @ r'"
    by (cases "kvs'") (simp_all add: kvs join_comma_Cons)
  then show
    "skip_ws (join_comma (map (member_text asc) (json_dumps_items srt asc kvs)) @ r) =
       join_comma (map (member_text asc) (json_dumps_items srt asc kvs)) @ r"
    "starts_with 125 (join_comma (map (member_text asc) (json_dumps_items srt asc kvs)) @ r) = False"
    by simp_all
qed

declare scan_value.simps(2) [simp del] scan_elements.simps(2) [simp del] scan_members.simps(2) [simp del]

lemma scan_elements_step:
  assumes "scan_value E f d (t @ 44 # join_comma ts @ 93 # r) = Inr (v, 44 # join_comma ts @ 93 # r)"
    and "skip_ws (join_comma ts @ 93 # r) = join_comma ts @ 93 # r" and "ts \<noteq> []"
    and "scan_elements E f d (join_comma ts @ 93 # r) = Inr (vs, r)"
  shows "scan_elements E (Suc f) d (join_comma (t # ts) @ 93 # r) = Inr (v # vs, r)"
  using assms by (simp add: scan_elements.simps(2) join_comma_Cons Let_def)

lemma scan_members_last:
  assumes "list_all is_scalar k" and "skip_ws (t @ 125 # r) = t @ 125 # r"
    and "scan_value E f d (t @ 125 # r) = Inr (v, 125 # r)"
  shows "scan_members E (Suc f) d (member_text asc (k, t) @ 125 # r) = Inr ([(k, v)], r)"
  using assms
  by (simp add: scan_members.simps(2) scan_string_member Let_def)

lemma scan_members_step:
  assumes "list_all is_scalar k" and "skip_ws (t @ 44 # js @ r) = t @ 44 # js @ r"
    and "scan_value E f d (t @ 44 # js @ r) = Inr (v, 44 # js @ r)"
    and "skip_ws (js @ r) = js @ r"
    and "scan_members E f d (js @ r) = Inr (kvs, r')"
  shows "scan_members E (Suc f) d (member_text asc (k, t) @ 44 # js @ r) = Inr ((k, v) # kvs, r')"
  using assms
  by (simp add: scan_members.simps(2) scan_string_member Let_def)

lemma scan_dumps:
  "\<not> srt \<Longrightarrow> json_plain v \<Longrightarrow> json_depth_of v \<le> d \<Longrightarrow> ends_number r \<Longrightarrow>
     2 * length (json_dumps srt asc v) \<le> f \<Longrightarrow>
     scan_value E f d (json_dumps srt asc v @ r) = Inr (v, r)"
  "\<not> srt \<Longrightarrow> json_plain_list vs \<Longrightarrow> json_depth_list vs \<le> d \<Longrightarrow> vs \<noteq> [] \<Longrightarrow>
     2 * length (join_comma (json_dumps_list srt asc vs)) + 1 \<le> f \<Longrightarrow>
     scan_elements E f d (join_comma (json_dumps_list srt asc vs) @ 93 # r) = Inr (vs, r)"
  "\<not> srt \<Longrightarrow> json_plain_items kvs \<Longrightarrow> json_depth_items kvs \<le> d \<Longrightarrow> kvs \<noteq> [] \<Longrightarrow>
     2 * length (join_comma (map (member_text asc) (json_dumps_items srt asc kvs))) + 1 \<le> f \<Longrightarrow>
     scan_members E f d (join_comma (map (member_text asc) (json_dumps_items srt asc kvs)) @ 125 # r)
       = Inr (kvs, r)"
proof (induction srt asc v and srt asc vs and srt asc kvs arbitrary: f d r and f d r and f d r
    rule: json_dumps_json_dumps_list_json_dumps_items.induct)
  case (1 srt asc)
  then obtain f' where "f = Suc f'" by (cases f) (auto simp: u_lits)
  then show ?case by (simp add: u_lits scan_value.simps(2))
next
  case (2 srt asc b)
  then obtain f' where "f = Suc f'" by (cases f) (auto simp: u_lits split: if_splits)
  then show ?case by (simp add: u_lits scan_value.simps(2))
next
  case (3 srt asc n)
  have "int_str n \<noteq> []" by (metis int_str_head list.distinct(1))
  with 3 obtain f' where "f = Suc f'" by (cases f) auto
  with 3 show ?case by (simp add: scan_value_int)
next
  case (4 srt asc r)
  then show ?case by simp
next
  case (5 srt asc s)
  then obtain f' where f: "f = Suc f'" by (cases f) (auto simp: json_quote_def)
  show ?case using 5 scan_string_quote [of s asc r]
    by (simp add: f scan_value.simps(2) json_quote_def)
next
  case (6 srt asc vs)
  then obtain f' d' where f: "f = Suc f'" and d: "d = Suc d'" by (cases f; cases d) auto
  show ?case
  proof (cases "vs = []")
    case True
    then show ?thesis by (simp add: f d scan_value.simps(2))
  next
    case False
    have "scan_elements E f' d' (join_comma (json_dumps_list srt asc vs) @ 93 # r) = Inr (vs, r)"
      using 6 False by (simp add: f d)
    then show ?thesis using 6 False
      by (simp add: f d scan_value.simps(2) join_list_head Let_def)
  qed
next
  case (7 srt asc kvs)
  then obtain f' d' where f: "f = Suc f'" and d: "d = Suc d'" by (cases f; cases d) auto
  show ?case
  proof (cases "kvs = []")
    case True
    then show ?thesis by (simp add: f d scan_value.simps(2))
  next
    case False
    let ?t = "join_comma (map (member_text asc) (json_dumps_items srt asc kvs))"
    have t: "json_dumps srt asc (PDict kvs) = 123 # ?t @ [125]"
      using 7 by (simp add: json_dumps_dict del: json_dumps.simps)
    have "scan_members E f' d' (?t @ 125 # r) = Inr (kvs, r)"
      using 7 False unfolding t by (simp add: f d)
    then show ?thesis using 7(3) False unfolding t
      by (simp add: f d scan_value.simps(2) join_items_head Let_def)
  qed
next
  case (9 srt asc v vs)
  obtain f' where f: "f = Suc f'" using 9 by (cases f) auto
  show ?case
  proof (cases "vs = []")
    case True
    with 9 show ?thesis by (simp add: f scan_elements.simps(2) Let_def)
  next
    case False
    let ?ts = "json_dumps_list srt asc vs"
    have j: "join_comma (json_dumps srt asc v # ?ts) = json_dumps srt asc v @ 44 # join_comma ?ts"
      using False by (simp add: join_comma_Cons)
    have len: "2 * (length (json_dumps srt asc v) + 1 + length (join_comma ?ts)) \<le> f'"
      using 9(7) by (simp add: f j)
    have "scan_value E f' d (json_dumps srt asc v @ 44 # join_comma ?ts @ 93 # r) =
          Inr (v, 44 # join_comma ?ts @ 93 # r)"
      using 9 len by simp
    moreover have "scan_elements E f' d (join_comma ?ts @ 93 # r) = Inr (vs, r)"
      using 9 False len by simp
    ultimately show ?thesis using 9(4) False
      by (simp add: f scan_elements_step join_list_head)
  qed
next
  case (11 srt asc kv kvs)
  obtain f' where f: "f = Suc f'" using 11 by (cases f) auto
  let ?v = "json_dumps srt asc (snd kv)"
  have ws: "skip_ws (?v @ r') = ?v @ r'" for r' using 11 by (simp add: skip_ws_dumps)
  show ?case
  proof (cases "kvs = []")
    case True
    have "2 * length ?v \<le> f'"
      using 11(7) length_member_text [of "(fst kv, ?v)" asc] by (simp add: f True)
    then have "scan_value E f' d (?v @ 125 # r) = Inr (snd kv, 125 # r)" using 11 by simp
    with 11 ws show ?thesis by (simp add: f True scan_members_last)
  next
    case False
    let ?js = "join_comma (map (member_text asc) (json_dumps_items srt asc kvs))"
    have j: "join_comma (map (member_text asc) (json_dumps_items srt asc (kv # kvs))) =
        member_text asc (fst kv, ?v) @ 44 # ?js"
      using False by (simp add: join_comma_Cons)
    have len: "2 * (length ?v + 3 + 1 + length ?js) \<le> f'"
      using 11(7) length_member_text [of "(fst kv, ?v)" asc] unfolding j by (simp add: f)
    have "scan_value E f' d (?v @ 44 # ?js @ 125 # r) = Inr (snd kv, 44 # ?js @ 125 # r)"
      using 11 len by simp
    moreover have "scan_members E f' d (?js @ 125 # r) = Inr (kvs, r)"
      using 11 False len by simp
    ultimately show ?thesis using 11(4) False ws
      unfolding j by (simp add: f scan_members_step join_items_head)
  qed
qed simp_all

lemma json_loads_dumps:
  assumes "json_plain v" and "json_depth_of v \<le> json_depth E"
  shows "json_loads E (json_dumps False asc v) = Inr v"
  using assms scan_dumps(1) [of False v "json_depth E" "[]" asc "2 * length (json_dumps False asc v) + 2" E]
    skip_ws_dumps(1) [OF assms(1), of False asc "[]"]
  by (simp add: json_loads_def)

lemma insort_key_map:
  "insort_key fst (fst x, g (snd x)) (map (\<lambda>it. (fst it, g (snd it))) xs) =
     map (\<lambda>it. (fst it, g (snd it))) (insort_key fst x xs)"
  by (induction xs) auto

lemma sort_key_map_snd:
  "sort_key fst (map (\<lambda>it. (fst it, g (snd it))) xs) = map (\<lambda>it. (fst it, g (snd it))) (sort_key fst xs)"
proof (induction xs)
  case (Cons x xs)
  then show ?case using insort_key_map [of x g "sort_key fst xs"] by (simp add: sort_key_simps)
qed simp

lemma json_dumps_items_map:
  "json_dumps_items srt asc kvs = map (\<lambda>it. (fst it, json_dumps srt asc (snd it))) kvs"
  by (induction kvs) auto

lemma sort_keys_items_map: "sort_keys_items kvs = map (\<lambda>it. (fst it, sort_keys (snd it))) kvs"
  by (induction kvs) auto

lemma json_plain_items_iff:
  "json_plain_items kvs \<longleftrightarrow> (\<forall>kv \<in> set kvs. list_all is_scalar (fst kv) \<and> json_plain (snd kv))"
  by (induction kvs) auto

lemma json_depth_items_le:
  "json_depth_items kvs \<le> n \<longleftrightarrow> (\<forall>kv \<in> set kvs. json_depth_of (snd kv) \<le> n)"
  by (induction kvs) auto

lemma json_depth_items_cong: "set xs = set ys \<Longrightarrow> json_depth_items xs = json_depth_items ys"
proof -
  assume "set xs = set ys"
  then have "json_depth_items xs \<le> n \<longleftrightarrow> json_depth_items ys \<le> n" for n
    by (simp add: json_depth_items_le)
  then show ?thesis by (meson order_antisym order_refl)
qed

lemma json_dumps_sorted:
  "json_dumps True asc v = json_dumps False asc (sort_keys v)"
  "json_dumps_list True asc vs = json_dumps_list False asc (sort_keys_list vs)"
  "\<forall>kv \<in> set (kvs :: (pystr \<times> pyval) list).
     json_dumps True asc (snd kv) = json_dumps False asc (sort_keys (snd kv))"
proof (induction v and vs and kvs rule: sort_keys_sort_keys_list_sort_keys_items.induct)
  case (2 kvs)
  have "json_dumps_items True asc kvs = map (\<lambda>it. (fst it, json_dumps False asc (snd it))) (sort_keys_items kvs)"
    using 2 by (auto simp: json_dumps_items_map sort_keys_items_map)
  then show ?case
    by (simp add: Let_def json_dumps_items_map [of False] sort_key_map_snd)
qed simp_all

lemma sort_keys_plain:
  "json_plain v \<Longrightarrow> json_plain (sort_keys v)"
  "json_plain_list vs \<Longrightarrow> json_plain_list (sort_keys_list vs)"
  "json_plain_items kvs \<Longrightarrow> json_plain_items (sort_keys_items kvs)"
proof (induction v and vs and kvs rule: sort_keys_sort_keys_list_sort_keys_items.induct)
  case (2 kvs)
  have "map fst (sort_keys_items kvs) = map fst kvs" by (simp add: sort_keys_items_map)
  then have "distinct (map fst (sort_keys_items kvs))" using 2 by simp
  then have "distinct (map fst (sort_key fst (sort_keys_items kvs)))"
    by (simp add: distinct_map)
  with 2 show ?case by (simp add: json_plain_items_iff)
qed simp_all

lemma sort_keys_depth:
  "json_depth_of (sort_keys v) = json_depth_of v"
  "json_depth_list (sort_keys_list vs) = json_depth_list vs"
  "json_depth_items (sort_keys_items kvs) = json_depth_items kvs"
proof (induction v and vs and kvs rule: sort_keys_sort_keys_list_sort_keys_items.induct)
  case (2 kvs)
  have "json_depth_items (sort_key fst (sort_keys_items kvs)) = json_depth_items (sort_keys_items kvs)"
    by (rule json_depth_items_cong) simp
  with 2 show ?case by simp
qed simp_all

lemma json_loads_dumps_sorted:
  assumes "json_plain v" and "json_depth_of v \<le> json_depth E"
  shows "json_loads E (json_dumps True asc v) = Inr (sort_keys v)"
  using assms by (simp add: json_dumps_sorted json_loads_dumps sort_keys_plain sort_keys_depth)

subsection \<open>ASCII output\<close>

lemma hex_digit_ascii: "n < 16 \<Longrightarrow> hex_digit n < 128"
  by (simp add: hex_digit_def)

lemma u_escape_ascii [simp]: "is_ascii (u_escape c)"
  by (simp add: u_escape_def hex4_def hex_digit_ascii)

lemma escape_char_ascii [simp]: "is_ascii (escape_char True c)"
  by (simp add: escape_char_def)

lemma is_ascii_concat: "is_ascii (concat xss) \<longleftrightarrow> (\<forall>xs \<in> set xss. is_ascii xs)"
  by (induction xss) auto

lemma json_quote_ascii [simp]: "is_ascii (json_quote True s)"
  by (simp add: json_quote_def is_ascii_concat)

lemma join_comma_ascii: "(\<forall>t \<in> set ts. is_ascii t) \<Longrightarrow> is_ascii (join_comma ts)"
  by (induction ts rule: join_comma.induct) auto

lemma int_str_ascii [simp]: "is_ascii (int_str n)"
proof -
  have "is_ascii (nat_digits m)" for m
    using nat_digits_digits [of m] by (auto simp: is_ascii_def list_all_iff is_digit_def)
  then show ?thesis by (simp add: int_str_def)
qed

lemma json_dumps_ascii:
  "json_plain v \<Longrightarrow> is_ascii (json_dumps False True v)"
  "json_plain_list vs \<Longrightarrow> \<forall>t \<in> set (json_dumps_list False True vs). is_ascii t"
  "json_plain_items kvs \<Longrightarrow> \<forall>t \<in> set (json_dumps_items False True kvs). is_ascii (snd t)"
proof (induction v and vs and kvs rule: json_plain_json_plain_list_json_plain_items.induct)
  case (5 kvs)
  then show ?case by (force simp: Let_def intro!: join_comma_ascii)
qed (auto simp: u_lits intro!: join_comma_ascii)

lemma canonical_json_decode:
  "json_plain v \<Longrightarrow> utf8_decode (canonical_json v) = Some (json_dumps True True v)"
  using json_dumps_ascii(1) [OF sort_keys_plain(1)]
  by (simp add: canonical_json_def json_dumps_sorted utf8_decode_ascii)

lemma canonical_json_inj:
  assumes "json_plain v" and "json_plain w" and "canonical_json v = canonical_json w"
  shows "sort_keys v = sort_keys w"
proof -
  define E where "E = \<lparr>float_repr = id, json_depth = max (json_depth_of v) (json_depth_of w), json_constants = True\<rparr>"
  have "json_dumps True True v = json_dumps True True w"
    using canonical_json_decode [OF assms(1)] canonical_json_decode [OF assms(2)] assms(3) by simp
  moreover have "json_loads E (json_dumps True True v) = Inr (sort_keys v)"
    "json_loads E (json_dumps True True w) = Inr (sort_keys w)"
    using assms(1,2) by (simp_all add: json_loads_dumps_sorted E_def)
  ultimately show ?thesis by simp
qed

subsection \<open>Fuel\<close>

lemma cons_fst_SomeD: "cons_fst c m = Some (t, r) \<Longrightarrow> \<exists>t'. m = Some (t', r)"
  by (cases m) (auto simp: cons_fst_def)

lemma scan_string_shorter: "scan_string s = Some (t, r) \<Longrightarrow> length r < length s"
proof (induction s arbitrary: t rule: length_induct)
  case (1 s)
  have IH: "length r < length s" if "cons_fst c (scan_string s') = Some (t, r)" "length s' < length s"
    for c s'
    using 1 that cons_fst_SomeD by (metis less_trans)
  show ?case
  proof (cases s)
    case (Cons c s')
    show ?thesis using "1.prems" unfolding Cons
      by (subst (asm) scan_string.simps)
         (auto split: if_splits list.splits option.splits dest!: IH simp: Cons)
  qed (use "1.prems" in \<open>simp add: scan_string.simps\<close>)
qed

lemma scan_number_shorter:
  "scan_number E s \<noteq> Inl JFuel" "scan_number E s = Inr (v, r) \<Longrightarrow> length r < length s"
proof -
  have frac: "length (snd (scan_frac t)) \<le> length t" for t
    by (auto simp: scan_frac_def length_dropWhile_le le_SucI split: list.splits)
  have exp: "length (snd (scan_exp t)) \<le> length t" for t
    by (auto simp: scan_exp_def Let_def split: list.splits
        intro!: le_SucI order_trans [OF length_dropWhile_le])
  have int: "length r < length t" if "scan_int_part t = Some (ip, r)" for t ip r
    using that by (auto simp: scan_int_part_def length_dropWhile_le less_Suc_eq_le split: list.splits if_splits)
  show "scan_number E s \<noteq> Inl JFuel"
    by (auto simp: scan_number_def Let_def split: option.splits prod.splits)
  assume a: "scan_number E s = Inr (v, r)"
  define sg where "sg = (if has_prefix [45] s then [45::nat] else [])"
  obtain ip r0 where ip: "scan_int_part (drop (length sg) s) = Some (ip, r0)"
    using a by (auto simp: scan_number_def sg_def [symmetric] Let_def split: option.splits)
  obtain fr r1 where fr: "scan_frac r0 = (fr, r1)" by fastforce
  obtain ex r2 where ex: "scan_exp r1 = (ex, r2)" by fastforce
  have "r = r2"
    using a by (simp add: scan_number_def sg_def [symmetric] Let_def ip fr ex split: if_splits)
  then show "length r < length s"
    using int [OF ip] frac [of r0] exp [of r1] by (simp add: fr ex)
qed

lemma starts_with_length: "starts_with c s \<Longrightarrow> length (tl s) < length s"
  by (cases s) auto

lemma has_prefix_length: "has_prefix p s \<Longrightarrow> length p \<le> length s"
  by (auto simp: has_prefix_iff)

abbreviation consumes :: "jerr + ('a \<times> pystr) \<Rightarrow> pystr \<Rightarrow> bool" where
  "consumes m s \<equiv> m \<noteq> Inl JFuel \<and> (\<forall>v r. m = Inr (v, r) \<longrightarrow> length r < length s)"

lemma scan_value_consumes:
  assumes el: "\<And>d r. length r < length s \<Longrightarrow> consumes (scan_elements E f d r) r"
    and me: "\<And>d r. length r < length s \<Longrightarrow> consumes (scan_members E f d r) r"
  shows "consumes (scan_value E (Suc f) d s) s"
proof -
  let ?r = "skip_ws (tl s)"
  have sk: "length ?r < length s" if "starts_with c s" for c
    using that starts_with_length length_skip_ws by (meson le_less_trans)
  have tl: "length (tl ?r) \<le> length ?r" by simp
  have lits: "length (drop n s) < length s" if "has_prefix (u t) s" "t \<noteq> []" "0 < n" for n t
    using that by (cases t) (auto simp: has_prefix_iff u_def)
  consider "starts_with 34 s" | "starts_with 123 s" | "starts_with 91 s"
    | "\<not> starts_with 34 s" "\<not> starts_with 123 s" "\<not> starts_with 91 s" by blast
  then show ?thesis
  proof cases
    case 1
    then show ?thesis using starts_with_length [OF 1]
      by (auto simp: scan_value.simps(2) [of E f] split: option.splits dest!: scan_string_shorter)
  next
    case 2
    then have "\<not> starts_with 34 s" by (cases s) auto
    with 2 show ?thesis using me [OF sk [OF 2]] sk [OF 2] tl
      by (auto simp: scan_value.simps(2) [of E f] Let_def rbind_eq_Inl split: nat.splits if_splits
          intro: less_trans)
  next
    case 3
    then have "\<not> starts_with 34 s" "\<not> starts_with 123 s" by (cases s; auto)+
    with 3 show ?thesis using el [OF sk [OF 3]] sk [OF 3] tl
      by (auto simp: scan_value.simps(2) [of E f] Let_def rbind_eq_Inl split: nat.splits if_splits
          intro: less_trans)
  next
    case 4
    then show ?thesis using scan_number_shorter [of E s]
      by (auto simp del: drop_eq_Nil length_drop simp: scan_value.simps(2) [of E f] scan_constant_def split: if_splits
          intro: lits)
  qed
qed

lemma scan_elements_consumes:
  assumes "consumes (scan_value E f d s) s"
    and el: "\<And>r. length r < length s \<Longrightarrow> consumes (scan_elements E f d r) r"
  shows "consumes (scan_elements E (Suc f) d s) s"
proof (cases "scan_value E f d s")
  case (Inr p)
  obtain v r where p: "p = (v, r)" by (cases p)
  have r: "length r < length s" using assms(1) Inr p by simp
  let ?r1 = "skip_ws r" and ?r2 = "skip_ws (tl (skip_ws r))"
  have r1: "length ?r1 < length s" using r length_skip_ws [of r] by linarith
  have r2: "length ?r2 < length s" using r1 length_skip_ws [of "tl ?r1"] by simp
  show ?thesis using el [OF r2] r1 r2
    by (auto simp: scan_elements.simps(2) [of E f] Inr p Let_def rbind_eq_Inl split: if_splits)
qed (use assms in \<open>simp add: scan_elements.simps(2)\<close>)

lemma scan_members_consumes:
  assumes va: "\<And>r. length r < length s \<Longrightarrow> consumes (scan_value E f d r) r"
    and me: "\<And>r. length r < length s \<Longrightarrow> consumes (scan_members E f d r) r"
  shows "consumes (scan_members E (Suc f) d s) s"
proof (cases "starts_with 34 s \<and> scan_string (tl s) \<noteq> None")
  case True
  then obtain k r where k: "scan_string (tl s) = Some (k, r)" by auto
  have r: "length (skip_ws (tl (skip_ws r))) < length s"
    using scan_string_shorter [OF k] starts_with_length [of 34 s] True
      length_skip_ws [of r] length_skip_ws [of "tl (skip_ws r)"] by simp
  have *: "length (skip_ws (tl (skip_ws r'))) < length s \<and> length (tl (skip_ws r')) < length s"
    if "length r' < length (skip_ws (tl (skip_ws r)))" for r'
    using that r length_skip_ws [of r'] length_skip_ws [of "tl (skip_ws r')"] length_tl [of "skip_ws r'"]
    by linarith
  show ?thesis using True va [OF r] me * r
    by (auto simp: scan_members.simps(2) [of E f] k Let_def rbind_eq_Inl split: if_splits) (meson less_trans)+
qed (auto simp: scan_members.simps(2) split: option.splits)

lemma scan_fuel_all:
  "(2 * length s < f \<longrightarrow> consumes (scan_value E f d s) s) \<and>
   (2 * length s + 1 < f \<longrightarrow> consumes (scan_elements E f d s) s) \<and>
   (2 * length s + 1 < f \<longrightarrow> consumes (scan_members E f d s) s)"
proof (induction f arbitrary: d s)
  case (Suc f)
  have "consumes (scan_value E (Suc f) d s) s" if "2 * length s < Suc f"
    using that Suc.IH by (intro scan_value_consumes) auto
  moreover have "consumes (scan_elements E (Suc f) d s) s" if "2 * length s + 1 < Suc f"
    using that Suc.IH by (intro scan_elements_consumes) auto
  moreover have "consumes (scan_members E (Suc f) d s) s" if "2 * length s + 1 < Suc f"
    using that Suc.IH by (intro scan_members_consumes) auto
  ultimately show ?case by blast
qed simp

lemma scan_fuel: "json_loads E s \<noteq> Inl JFuel"
  using scan_fuel_all [of "skip_ws s" "2 * length s + 2" E "json_depth E"] length_skip_ws [of s]
  by (auto simp: json_loads_def rbind_eq_Inl split: if_splits)

subsection \<open>What a sorted value determines\<close>

lemma map_of_insort:
  "fst x \<notin> fst ` set xs \<Longrightarrow> map_of (insort_key fst x xs) = (map_of xs)(fst x \<mapsto> snd x)"
  by (induction xs) (auto simp: fun_eq_iff)

lemma map_of_sort_key: "distinct (map fst xs) \<Longrightarrow> map_of (sort_key fst xs) = map_of xs"
proof (induction xs)
  case (Cons x xs)
  then show ?case by (cases x) (auto simp: sort_key_simps map_of_insort)
qed simp

lemma sort_keys_dict_get:
  assumes "sort_keys (PDict kvs) = sort_keys (PDict kvs')"
    and "distinct (map fst kvs)" and "distinct (map fst kvs')"
  shows "map_option sort_keys (dict_get kvs k) = map_option sort_keys (dict_get kvs' k)"
proof -
  have "map_of (sort_key fst (sort_keys_items xs)) k = map_option sort_keys (dict_get xs k)"
    if "distinct (map fst xs)" for xs
  proof -
    have "map fst (sort_keys_items xs) = map fst xs" by (simp add: sort_keys_items_map)
    with that have "map_of (sort_key fst (sort_keys_items xs)) = map_of (sort_keys_items xs)"
      by (intro map_of_sort_key) simp
    moreover have "map_of (sort_keys_items xs) k = map_option sort_keys (map_of xs k)"
      by (induction xs) auto
    ultimately show ?thesis by (simp add: dict_get_map_of)
  qed
  with assms show ?thesis by (metis pyval.inject(6) sort_keys.simps(2))
qed

lemma sort_keys_list_map: "sort_keys_list vs = map sort_keys vs"
  by (induction vs) auto

lemma hex_plain: "is_hex_val n v \<Longrightarrow> json_plain v \<and> sort_keys v = v"
  by (auto simp: is_hex_val_iff is_lower_hex_def list_all_iff
      intro!: ascii_is_scalar is_hex_char_ascii)

lemma plit_plain [simp]: "list_all is_scalar (u s)"
proof -
  have "is_scalar (of_char c)" for c
    using nat_of_char_less_256 [of c] unfolding is_scalar_def is_surrogate_def by linarith
  then show ?thesis by (simp add: u_def list_all_iff)
qed

lemma scalar_sort_keys [simp]: "sort_keys (PStr t) = PStr t" "sort_keys (PInt n) = PInt n"
  by simp_all

text \<open>Integers that fit 64 bits are far below the conversion limit.\<close>

lemma length_nat_digits_le: "n < 10 ^ k \<Longrightarrow> 0 < k \<Longrightarrow> length (nat_digits n) \<le> k"
proof (induction n arbitrary: k rule: nat_digits.induct)
  case (1 n)
  show ?case
  proof (cases "n < 10")
    case True
    with 1 show ?thesis by (subst nat_digits.simps) simp
  next
    case False
    then obtain k' where k: "k = Suc k'" "0 < k'"
      using 1(2,3) by (cases k; cases "k - 1") auto
    have "n div 10 < 10 ^ k'" using 1(2) k by (simp add: less_mult_imp_div_less mult.commute)
    with 1(1) [OF False _ k(2)] False show ?thesis by (subst nat_digits.simps) (simp add: k)
  qed
qed

lemma int_plain: "\<bar>n\<bar> < 2 ^ 64 \<Longrightarrow> json_plain (PInt n)"
proof -
  assume "\<bar>n\<bar> < 2 ^ 64"
  then have "nat \<bar>n\<bar> < 10 ^ 20" by simp
  then have "length (nat_digits (nat \<bar>n\<bar>)) \<le> 20" by (rule length_nat_digits_le) simp
  then show ?thesis by (simp add: int_max_str_digits_def)
qed

lemma loads_canonical:
  assumes "json_plain v" and "json_depth_of v \<le> json_depth E"
  shows "loads_utf8 E dup (canonical_json v) = Inr (sort_keys v)"
  using canonical_json_decode [OF assms(1)] json_loads_dumps_sorted [OF assms]
  by (simp add: loads_utf8_def)

lemma dict_at_sorted:
  "distinct (map fst kvs) \<Longrightarrow>
   dict_at (sort_key fst (sort_keys_items kvs)) k = sort_keys (dict_at kvs k)"
proof -
  assume d: "distinct (map fst kvs)"
  then have "map_of (sort_key fst (sort_keys_items kvs)) = map_of (sort_keys_items kvs)"
    by (intro map_of_sort_key) (simp add: sort_keys_items_map comp_def)
  moreover have "map_of (sort_keys_items kvs) (u k) = map_option sort_keys (map_of kvs (u k))"
    by (induction kvs) auto
  ultimately show ?thesis
    by (simp add: dict_at_def dict_get_map_of split: option.splits)
qed

lemma keys_are_sorted [simp]:
  "keys_are ks (sort_key fst (sort_keys_items kvs)) = keys_are ks kvs"
  by (simp add: keys_are_def dict_keys_def sort_keys_items_map image_image)

subsection \<open>Length of canonical objects\<close>

lemma length_join_comma_le: "length (join_comma ts) \<le> (\<Sum>t \<leftarrow> ts. length t + 1)"
  by (induction ts rule: join_comma.induct) auto

lemma length_dumps_dict:
  "length (json_dumps True asc (PDict kvs)) \<le>
     2 + (\<Sum>(k, v) \<leftarrow> kvs. length (json_quote asc k) + length (json_dumps True asc v) + 2)"
proof -
  have dump: "json_dumps True asc (PDict kvs) =
      123 # join_comma (map (member_text asc) (sort_key fst (json_dumps_items True asc kvs))) @ [125]"
    by (simp add: member_text_def [abs_def])
  let ?it = "\<lambda>(k, v). (k, json_dumps True asc v)"
  have "(\<Sum>t \<leftarrow> map (member_text asc) (sort_key fst (map ?it kvs)). length t + 1) =
        (\<Sum>t \<leftarrow> map (member_text asc) (map ?it kvs). length t + 1)"
    by (metis (no_types, lifting) mset_map mset_sort sum_mset_sum_list)
  also have "\<dots> = (\<Sum>(k, v) \<leftarrow> kvs. length (json_quote asc k) + length (json_dumps True asc v) + 2)"
    by (induction kvs) (auto simp: member_text_def)
  finally show ?thesis
    using length_join_comma_le [of "map (member_text asc) (sort_key fst (map ?it kvs))"]
    by (simp add: dump json_dumps_items_map case_prod_unfold del: json_dumps.simps)
qed

definition unescaped :: "nat \<Rightarrow> bool" where
  "unescaped c \<longleftrightarrow> 32 \<le> c \<and> c < 127 \<and> c \<noteq> 34 \<and> c \<noteq> 92"

lemma length_quote_unescaped: "list_all unescaped s \<Longrightarrow> length (json_quote asc s) = length s + 2"
proof -
  assume "list_all unescaped s"
  then have "concat (map (escape_char asc) s) = s"
    by (induction s) (auto simp: unescaped_def escape_char_def)
  then show ?thesis by (simp add: json_quote_def)
qed

lemma unescaped_hex: "is_hex_char c \<Longrightarrow> unescaped c"
  by (auto simp: is_hex_char_def unescaped_def)

lemma unescaped_digit: "is_digit c \<Longrightarrow> unescaped c"
  by (auto simp: is_digit_def unescaped_def)

lemma length_dumps_hex: "is_hex_val n v \<Longrightarrow> length (json_dumps srt asc v) = n + 2"
  by (auto simp: is_hex_val_iff is_lower_hex_def length_quote_unescaped list_all_iff unescaped_hex)

lemma length_dumps_nat: "0 \<le> n \<Longrightarrow> n < 2 ^ 64 \<Longrightarrow> length (json_dumps srt asc (PInt n)) \<le> 20"
  using length_nat_digits_le [of "nat n" 20] by (simp add: int_str_def)

lemma canonical_json_length:
  "json_plain v \<Longrightarrow> length (canonical_json v) = length (json_dumps True True v)"
  using json_dumps_ascii(1) [OF sort_keys_plain(1)] by (simp add: canonical_json_def)

text \<open>A field is flat when it is scalar, decodes to itself and has a short text.\<close>

definition flat :: "nat \<Rightarrow> pyval \<Rightarrow> bool" where
  "flat n v \<longleftrightarrow> json_plain v \<and> sort_keys v = v \<and> json_depth_of v = 0 \<and>
     length (json_dumps True True v) \<le> n"

lemma flat_mono: "flat m v \<Longrightarrow> m \<le> n \<Longrightarrow> flat n v"
  by (auto simp: flat_def)

lemma flat_hex: "is_hex_val k v \<Longrightarrow> flat (k + 2) v"
  using length_dumps_hex [of k v True True] hex_plain [of k v]
  by (auto simp: flat_def is_hex_val_iff)

lemma flat_int: "int_in lo hi v \<Longrightarrow> 0 \<le> lo \<Longrightarrow> hi < 2 ^ 64 \<Longrightarrow> flat 20 v"
  using length_dumps_nat int_plain by (auto simp: flat_def int_in_iff simp del: json_plain.simps json_dumps.simps)

lemma flat_text: "list_all unescaped s \<Longrightarrow> flat (length s + 2) (PStr s)"
  by (auto simp: flat_def length_quote_unescaped list_all_iff unescaped_def intro!: ascii_is_scalar)

text \<open>Objects with short unescaped keys and flat fields, the shape of most wire formats.\<close>

definition flat_items :: "nat \<Rightarrow> nat \<Rightarrow> (pystr \<times> pyval) list \<Rightarrow> bool" where
  "flat_items K N kvs \<longleftrightarrow> distinct (map fst kvs) \<and>
     list_all (\<lambda>(k, v). list_all unescaped k \<and> length k \<le> K \<and> flat N v) kvs"

lemma flat_items_sort:
  "flat_items K N kvs \<Longrightarrow> sort_keys_items kvs = kvs"
  unfolding flat_items_def by (induction kvs) (auto simp: flat_def)

lemma unescaped_scalar: "unescaped c \<Longrightarrow> is_scalar c"
  by (rule ascii_is_scalar) (simp add: unescaped_def)

lemma flat_items_plain: "flat_items K N kvs \<Longrightarrow> json_plain (PDict kvs)"
  by (fastforce simp: flat_items_def json_plain_items_iff list_all_iff flat_def intro: unescaped_scalar)

lemma flat_items_depth: "flat_items K N kvs \<Longrightarrow> json_depth_of (PDict kvs) = 1"
  unfolding flat_items_def by (induction kvs) (auto simp: flat_def)

lemma flat_items_loads:
  "flat_items K N kvs \<Longrightarrow> 1 \<le> json_depth E \<Longrightarrow>
   loads_utf8 E dup (canonical_json (PDict kvs)) = Inr (PDict (sort_key fst kvs))"
  using loads_canonical [OF flat_items_plain, of K N kvs E dup] flat_items_depth [of K N kvs]
  by (simp add: flat_items_sort)

lemma flat_items_dict_at:
  "flat_items K N kvs \<Longrightarrow> dict_at (sort_key fst kvs) k = dict_at kvs k"
  by (simp add: dict_at_def dict_get_map_of map_of_sort_key flat_items_def)

lemma flat_items_keys: "keys_are ks (sort_key fst kvs) = keys_are ks kvs"
  by (simp add: keys_are_def dict_keys_def)

lemma flat_items_length:
  assumes "flat_items K N kvs"
  shows "length (canonical_json (PDict kvs)) \<le> 2 + length kvs * (K + N + 4)"
proof -
  have "(\<Sum>(k, v) \<leftarrow> kvs. length (json_quote True k) + length (json_dumps True True v) + 2) \<le>
        length kvs * (K + N + 4)"
    using assms unfolding flat_items_def
    by (induction kvs) (auto simp: flat_def length_quote_unescaped)
  with length_dumps_dict [of True kvs] show ?thesis
    by (simp add: canonical_json_length [OF flat_items_plain [OF assms]] del: json_dumps.simps)
qed

lemma canonical_json_dict_nonempty: "json_plain (PDict kvs) \<Longrightarrow> canonical_json (PDict kvs) \<noteq> []"
  using canonical_json_length [of "PDict kvs"] by (auto simp: Let_def simp del: json_plain.simps)

text \<open>Values whose texts need no escape are written the same with and without \<open>ensure_ascii\<close>.\<close>

fun json_simple :: "pyval \<Rightarrow> bool"
  and json_simple_list :: "pyval list \<Rightarrow> bool"
  and json_simple_items :: "(pystr \<times> pyval) list \<Rightarrow> bool"
where
  "json_simple (PStr s) = list_all unescaped s"
| "json_simple (PFloat r) = False"
| "json_simple (PList vs) = json_simple_list vs"
| "json_simple (PDict kvs) = json_simple_items kvs"
| "json_simple _ = True"
| "json_simple_list [] = True"
| "json_simple_list (v # vs) = (json_simple v \<and> json_simple_list vs)"
| "json_simple_items [] = True"
| "json_simple_items (kv # kvs) =
     (list_all unescaped (fst kv) \<and> json_simple (snd kv) \<and> json_simple_items kvs)"

lemma json_quote_unescaped: "list_all unescaped s \<Longrightarrow> json_quote asc s = 34 # s @ [34]"
proof -
  assume "list_all unescaped s"
  then have "concat (map (escape_char asc) s) = s"
    by (induction s) (auto simp: unescaped_def escape_char_def)
  then show ?thesis by (simp add: json_quote_def)
qed

lemma json_dumps_simple:
  "json_simple v \<Longrightarrow> json_dumps False False v = json_dumps False True v"
  "json_simple_list vs \<Longrightarrow> json_dumps_list False False vs = json_dumps_list False True vs"
  "json_simple_items kvs \<Longrightarrow> map (member_text False) (json_dumps_items False False kvs) =
     map (member_text True) (json_dumps_items False True kvs)"
  by (induction v and vs and kvs rule: json_simple_json_simple_list_json_simple_items.induct)
     (auto simp: json_quote_unescaped member_text_def json_dumps_dict simp del: json_dumps.simps(7))

lemma length_dumps_dict_plain:
  "length (json_dumps False asc (PDict kvs)) \<le>
     2 + (\<Sum>(k, v) \<leftarrow> kvs. length (json_quote asc k) + length (json_dumps False asc v) + 2)"
proof -
  have "(\<Sum>t \<leftarrow> map (member_text asc) (json_dumps_items False asc kvs). length t + 1) =
      (\<Sum>(k, v) \<leftarrow> kvs. length (json_quote asc k) + length (json_dumps False asc v) + 2)"
    by (induction kvs) (auto simp: member_text_def)
  with length_join_comma_le [of "map (member_text asc) (json_dumps_items False asc kvs)"]
  show ?thesis by (simp add: json_dumps_dict del: json_dumps.simps)
qed

lemma length_dumps_list_le:
  "length (json_dumps srt asc (PList vs)) \<le> 2 + (\<Sum>v \<leftarrow> vs. length (json_dumps srt asc v) + 1)"
proof -
  have "(\<Sum>t \<leftarrow> json_dumps_list srt asc vs. length t + 1) = (\<Sum>v \<leftarrow> vs. length (json_dumps srt asc v) + 1)"
    by (induction vs) auto
  with length_join_comma_le [of "json_dumps_list srt asc vs"] show ?thesis by simp
qed

text \<open>The compact encoding of a simple value, and what it decodes to.\<close>

lemma compact_json_simple:
  assumes "json_simple v" and "json_plain v"
  shows "compact_json v = Some (ascii_bytes (json_dumps False True v))"
  using json_dumps_ascii(1) [OF assms(2)]
  by (simp add: compact_json_def json_dumps_simple(1) [OF assms(1)] utf8_encode_ascii)

lemma compact_json_loads:
  assumes "compact_json v = Some w" and "json_plain v" and "json_depth_of v \<le> json_depth E"
  shows "loads_utf8 E dup w = Inr v"
  using utf8_decode_encode [of "json_dumps False False v" w] assms json_loads_dumps [OF assms(2,3), of False]
  by (simp add: loads_utf8_def compact_json_def)

lemma ascii_json_loads:
  assumes "json_plain v" and "json_depth_of v \<le> json_depth E"
  shows "loads_utf8 E dup (ascii_json v) = Inr v"
  using json_dumps_ascii(1) [OF assms(1)] json_loads_dumps [OF assms, of True]
  by (simp add: loads_utf8_def ascii_json_def utf8_decode_ascii)

lemma ascii_json_inj:
  assumes "json_plain v" and "json_plain w" and "ascii_json v = ascii_json w"
  shows "v = w"
proof -
  define E where "E = \<lparr>float_repr = id, json_depth = max (json_depth_of v) (json_depth_of w), json_constants = True\<rparr>"
  have "loads_utf8 E ValueError (ascii_json v) = Inr v" "loads_utf8 E ValueError (ascii_json w) = Inr w"
    using assms(1,2) by (simp_all add: ascii_json_loads E_def)
  with assms(3) show ?thesis by (metis sum.inject(2))
qed

subsection \<open>Canonical codecs\<close>

text \<open>
  Every wire format of the node is a canonical encoding: the decoder accepts only bytes that the
  encoder reproduces, and decodes what the encoder writes for a well-formed value. From these two
  laws follow uniqueness of encodings and injectivity, once for all formats.
\<close>

locale canonical_codec =
  fixes enc :: "'a \<Rightarrow> bytes" and dec :: "bytes \<Rightarrow> 'e + 'a" and wf :: "'a \<Rightarrow> bool"
  assumes enc_dec: "dec w = Inr x \<Longrightarrow> enc x = w"
    and dec_enc: "wf x \<Longrightarrow> dec (enc x) = Inr x"
begin

lemma unique_wire: "dec w = Inr x \<Longrightarrow> dec w' = Inr x \<Longrightarrow> w = w'"
  using enc_dec by metis

lemma dec_iff: "wf x \<Longrightarrow> dec w = Inr x \<longleftrightarrow> w = enc x"
  using enc_dec dec_enc by metis

lemma enc_inj: "wf x \<Longrightarrow> wf y \<Longrightarrow> enc x = enc y \<Longrightarrow> x = y"
  by (metis dec_enc sum.inject(2))

lemma no_malleability: "dec w = Inr x \<Longrightarrow> w' \<noteq> w \<Longrightarrow> dec w' \<noteq> Inr x"
  using unique_wire by blast

end

end
