(* ===== verification/Guardian_Analysis.thy ===== *)
theory Guardian_Analysis
  imports Py_Float Py_Json_Facts Yara_Validation
begin

text \<open>
  Model of \<open>jaeger/yara_generator.py\<close>, \<open>jaeger/analyzer.py\<close> and \<open>jaeger/hybrid_router.py\<close>: rule
  generation, the analysis pipeline and the fail-closed 8B/70B routing.

  The language-model server, the clock and the YARA-X compiler are parameters: \<open>llm_server\<close> holds the
  three calls the pipeline makes, each of which may raise. The generator's rule counter is explicit
  state. The router is stated over two arbitrary analyzers, and a locale states the contract under
  which a routed result is safe; \<open>Analyzer\<close> is shown to satisfy it.
\<close>

subsection \<open>yara_generator.py\<close>

definition MIN_CONFIDENCE_BPS :: int where
  "MIN_CONFIDENCE_BPS = 8500"

definition MIN_CONFIDENCE :: pyfloat where
  "MIN_CONFIDENCE = Fin (round_double (of_int MIN_CONFIDENCE_BPS / 10000))"

record YaraRule =
  yr_name :: pyval
  yr_rule_content :: pyval
  yr_confidence_bps :: pynum
  yr_threat_hash :: pyval
  yr_generated_at :: pyval

text \<open>The \<open>confidence\<close> property.\<close>

definition yr_confidence :: "YaraRule \<Rightarrow> pyexc + pyfloat" where
  "yr_confidence r = div_10000 (yr_confidence_bps r)"

record llm_server =
  llm_analyze_threat :: "pyval \<Rightarrow> pyexc + pyval"
  llm_generate_yara_rule :: "pystr \<Rightarrow> pyexc + pyval"
  llm_assess_yara_rule :: "pystr \<Rightarrow> pyval \<Rightarrow> pyexc + pynum"

text \<open>\<open>time.strftime("%Y")\<close> and \<open>int(time.time())\<close>.\<close>

record wall_clock =
  clock_year :: pystr
  clock_unix :: int

text \<open>\<open>generate_rule\<close>; the second component of the result is the new \<open>_rule_counter\<close>.\<close>

definition generate_rule ::
  "llm_server \<Rightarrow> wall_clock \<Rightarrow> nat \<Rightarrow> pyval \<Rightarrow> pyval \<Rightarrow> (pyexc + YaraRule) \<times> nat" where
  "generate_rule llm clk counter threat_hash indicators =
     (let description =
            json_dumps True True
              (PDict [(u ''indicators'', indicators), (u ''threat_hash'', threat_hash)])
      in case llm_generate_yara_rule llm description of
           Inl e \<Rightarrow> (Inl e, counter)
         | Inr rule_content \<Rightarrow>
             (case llm_assess_yara_rule llm description rule_content of
                Inl e \<Rightarrow> (Inl e, counter)
              | Inr confidence_bps \<Rightarrow>
                  (let counter' = Suc counter;
                       name = u ''PROM_'' @ clock_year clk @ u ''_'' @ format_04d counter'
                   in (Inr \<lparr>yr_name = PStr name, yr_rule_content = rule_content,
                            yr_confidence_bps = confidence_bps, yr_threat_hash = threat_hash,
                            yr_generated_at = PInt (clock_unix clk)\<rparr>, counter'))))"

definition validate_rule :: "(pystr \<Rightarrow> bool) \<Rightarrow> YaraRule \<Rightarrow> bool" where
  "validate_rule cc rule =
     (case yr_confidence_bps rule of
        NumInt n \<Rightarrow>
          (if \<not> (0 \<le> n \<and> n \<le> 10000) then False
           else validate_candidate_rule_source cc (yr_rule_content rule))
      | _ \<Rightarrow> False)"

fun num_int :: "pynum \<Rightarrow> int" where
  "num_int (NumInt n) = n"
| "num_int _ = 0"

definition is_submittable :: "(pystr \<Rightarrow> bool) \<Rightarrow> YaraRule \<Rightarrow> bool" where
  "is_submittable cc rule \<longleftrightarrow>
     validate_rule cc rule \<and> MIN_CONFIDENCE_BPS \<le> num_int (yr_confidence_bps rule)"

subsection \<open>analyzer.py\<close>

record ThreatHint =
  th_threat_hash :: pyval
  th_reporter_zk_proof :: bytes
  th_indicators :: pyval
  th_timestamp :: pyval

record VerifiedThreatHint =
  vh_payload_digest :: pyval
  vh_schema_version :: pyval
  vh_threat_hash :: pyval
  vh_confidence_bps :: pyval
  vh_indicator_type :: pyval
  vh_proof_system :: pyval
  vh_reporter_zk_proof :: "bytes option"
  vh_report_nonce :: pyval
  vh_observed_at :: pyval
  vh_network_id :: pyval
  vh_admitted_at :: pyval

definition verified_indicator_types :: "pyval set" where
  "verified_indicator_types = {plit ''file_hash'', plit ''behavior'', plit ''network'', plit ''api_call''}"

fun is_positive_int :: "pyval \<Rightarrow> bool" where
  "is_positive_int (PInt n) = (0 < n)"
| "is_positive_int _ = False"

definition is_lower_alnum :: "nat \<Rightarrow> bool" where
  "is_lower_alnum c \<longleftrightarrow> (97 \<le> c \<and> c \<le> 122) \<or> (48 \<le> c \<and> c \<le> 57)"

fun valid_hint_network :: "pyval \<Rightarrow> bool" where
  "valid_hint_network (PStr s) =
     (1 < length s \<and> length s \<le> 64 \<and> is_lower_alnum (hd s) \<and> is_lower_alnum (last s) \<and>
      list_all (\<lambda>c. is_lower_alnum c \<or> c = 45) s)"
| "valid_hint_network _ = False"

text \<open>\<open>__post_init__\<close>: the object itself, or the exception its construction raises.\<close>

definition verified_threat_hint_init :: "VerifiedThreatHint \<Rightarrow> pyexc + VerifiedThreatHint" where
  "verified_threat_hint_init h =
     rbind (raise_if (\<not> is_positive_int (vh_schema_version h) \<or> vh_schema_version h \<noteq> PInt 1) ValueError) (\<lambda>_.
     rbind (raise_if (\<not> is_hex_val 64 (vh_payload_digest h)) ValueError) (\<lambda>_.
     rbind (raise_if (\<not> is_hex_val 64 (vh_threat_hash h)) ValueError) (\<lambda>_.
     rbind (raise_if (\<not> int_in 1 10000 (vh_confidence_bps h)) ValueError) (\<lambda>_.
     rbind (raise_if (\<not> py_hashable (vh_indicator_type h)) TypeError) (\<lambda>_.
     rbind (raise_if (vh_indicator_type h \<notin> verified_indicator_types) ValueError) (\<lambda>_.
     rbind (raise_if (vh_proof_system h \<noteq> plit ''groth16_kip16_v1'') ValueError) (\<lambda>_.
     rbind (raise_if (case vh_reporter_zk_proof h of None \<Rightarrow> True
                      | Some p \<Rightarrow> \<not> (0 < length p \<and> length p \<le> 1024)) ValueError) (\<lambda>_.
     rbind (raise_if (\<not> is_hex_val 64 (vh_report_nonce h)) ValueError) (\<lambda>_.
     rbind (raise_if (\<not> is_positive_int (vh_observed_at h) \<or> \<not> is_positive_int (vh_admitted_at h)) ValueError) (\<lambda>_.
     rbind (raise_if (\<not> valid_hint_network (vh_network_id h)) ValueError) (\<lambda>_.
       Inr h)))))))))))"

text \<open>The \<open>yara_rule\<close> attribute: \<open>None\<close>, a \<open>YaraRule\<close>, or an object of another class.\<close>

datatype rule_attr = NoRule | Rule YaraRule | OtherRule

record AnalysisResult =
  ar_threat_hash :: pyval
  ar_yara_rule :: rule_attr
  ar_confidence :: pynum
  ar_should_submit :: pyval
  ar_analysis_notes :: pystr

definition failed_analysis :: "pyval \<Rightarrow> string \<Rightarrow> AnalysisResult" where
  "failed_analysis threat_hash notes =
     \<lparr>ar_threat_hash = threat_hash, ar_yara_rule = NoRule, ar_confidence = NumFloat (Fin 0),
      ar_should_submit = PBool False, ar_analysis_notes = u notes\<rparr>"

definition analysis_notes :: "bool \<Rightarrow> rat \<Rightarrow> bool \<Rightarrow> pystr" where
  "analysis_notes is_valid confidence should_submit =
     u ''LLM analysis complete. YARA rule '' @ u (if is_valid then ''valid'' else ''invalid'') @
     u ''. Confidence: '' @ format_2f confidence @ u ''. '' @
     u (if should_submit then ''Will submit to network.'' else ''Below threshold.'')"

text \<open>
  \<open>Analyzer.process_threat_hint\<close>. Every exception of the model server is caught; the state is the
  rule counter. A valid rule has an integer confidence in range, so its quotient does not raise.
\<close>

definition process_threat_hint ::
  "(pystr \<Rightarrow> bool) \<Rightarrow> llm_server \<Rightarrow> wall_clock \<Rightarrow> nat \<Rightarrow> ThreatHint \<Rightarrow> AnalysisResult \<times> nat" where
  "process_threat_hint cc llm clk counter hint =
     (let threat_data =
            PDict [(u ''threat_hash'', th_threat_hash hint), (u ''indicators'', th_indicators hint),
                   (u ''timestamp'', th_timestamp hint)]
      in case llm_analyze_threat llm threat_data of
           Inl _ \<Rightarrow> (failed_analysis (th_threat_hash hint) ''LLM analysis failed closed.'', counter)
         | Inr _ \<Rightarrow>
             (case generate_rule llm clk counter (th_threat_hash hint) (th_indicators hint) of
                (Inl _, counter') \<Rightarrow>
                  (failed_analysis (th_threat_hash hint) ''YARA generation failed closed.'', counter')
              | (Inr rule, counter') \<Rightarrow>
                  (let is_valid = validate_rule cc rule;
                       confidence = (if is_valid
                                     then round_double (of_int (num_int (yr_confidence_bps rule)) / 10000)
                                     else 0);
                       should_submit = is_submittable cc rule
                   in (\<lparr>ar_threat_hash = th_threat_hash hint,
                        ar_yara_rule = (if is_valid then Rule rule else NoRule),
                        ar_confidence = NumFloat (Fin confidence),
                        ar_should_submit = PBool should_submit,
                        ar_analysis_notes = analysis_notes is_valid confidence should_submit\<rparr>,
                       counter'))))"

definition process_verified_threat_hint :: "VerifiedThreatHint \<Rightarrow> AnalysisResult" where
  "process_verified_threat_hint hint =
     failed_analysis (vh_threat_hash hint)
       ''Verified ThreatHint v1 contains no concrete analyzer indicators; LLM and YARA generation were not invoked.''"

subsection \<open>hybrid_router.py\<close>

definition ESCALATION_CONFIDENCE :: pyfloat where
  "ESCALATION_CONFIDENCE = Fin (round_double (7 / 10))"

datatype model_tier = Tier8b | Tier70b | TierNone

record HybridAnalysisResult =
  hr_analysis :: AnalysisResult
  hr_selected_tier :: model_tier
  hr_escalated :: bool
  hr_primary_confidence :: "pyfloat option"
  hr_routing_reason :: pystr

text \<open>What an analyzer returns: an exception, an \<open>AnalysisResult\<close>, or (\<open>None\<close>) another object.\<close>

type_synonym analyzer_outcome = "pyexc + AnalysisResult option"

fun is_valid_confidence :: "pynum \<Rightarrow> pyexc + bool" where
  "is_valid_confidence (NumBool _) = Inr False"
| "is_valid_confidence NumOther = Inr False"
| "is_valid_confidence n =
     rbind (to_float n) (\<lambda>x. Inr (float_finite x \<and> float_le (Fin 0) x \<and> float_le x (Fin 1)))"

text \<open>The checks of \<open>_is_safe_analysis\<close> on the attached rule.\<close>

definition is_safe_rule_attr :: "AnalysisResult \<Rightarrow> pyval \<Rightarrow> pyexc + bool" where
  "is_safe_rule_attr result threat_hash =
     (case ar_yara_rule result of
        NoRule \<Rightarrow> Inr True
      | OtherRule \<Rightarrow> Inr False
      | Rule rule \<Rightarrow>
          (if yr_threat_hash rule \<noteq> threat_hash then Inr False
           else rbind (yr_confidence rule) (\<lambda>rc.
                rbind (is_valid_confidence (NumFloat rc)) (\<lambda>ok.
                  if \<not> ok then Inr False
                  else rbind (to_float (ar_confidence result)) (\<lambda>c. Inr (isclose_1e9 rc c))))))"

definition is_safe_analysis :: "AnalysisResult option \<Rightarrow> pyval \<Rightarrow> pyexc + bool" where
  "is_safe_analysis res threat_hash =
     (case res of
        None \<Rightarrow> Inr False
      | Some result \<Rightarrow>
          rbind (is_valid_confidence (ar_confidence result)) (\<lambda>ok.
          if \<not> ok then Inr False
          else if ar_threat_hash result \<noteq> threat_hash then Inr False
          else case ar_should_submit result of
            PBool submit \<Rightarrow>
              rbind (is_safe_rule_attr result threat_hash) (\<lambda>rule_ok.
              if \<not> rule_ok then Inr False
              else if submit then
                rbind (to_float (ar_confidence result)) (\<lambda>c.
                  Inr (\<not> (\<not> float_le MIN_CONFIDENCE c \<or> ar_yara_rule result = NoRule)))
              else Inr True)
          | _ \<Rightarrow> Inr False))"

definition failed_route :: "ThreatHint \<Rightarrow> pyfloat option \<Rightarrow> pystr \<Rightarrow> HybridAnalysisResult" where
  "failed_route hint primary_confidence reason =
     \<lparr>hr_analysis = failed_analysis (th_threat_hash hint) ''Hybrid Guardian analysis failed closed.'',
      hr_selected_tier = TierNone, hr_escalated = True,
      hr_primary_confidence = primary_confidence, hr_routing_reason = reason\<rparr>"

text \<open>The confidence reported for a primary result that was not selected.\<close>

definition reported_confidence :: "AnalysisResult option \<Rightarrow> pyexc + pyfloat option" where
  "reported_confidence primary =
     (case primary of
        None \<Rightarrow> Inr None
      | Some result \<Rightarrow>
          rbind (is_valid_confidence (ar_confidence result)) (\<lambda>ok.
            if ok then rbind (to_float (ar_confidence result)) (\<lambda>c. Inr (Some c)) else Inr None))"

text \<open>The second half of the router: the 70B analysis, after the primary was not selected.\<close>

definition escalate ::
  "(ThreatHint \<Rightarrow> analyzer_outcome) \<Rightarrow> ThreatHint \<Rightarrow> pyfloat option \<Rightarrow> pystr \<Rightarrow>
     pyexc + HybridAnalysisResult" where
  "escalate escalation_70b hint primary_confidence primary_reason =
     (case escalation_70b hint of
        Inl _ \<Rightarrow> Inr (failed_route hint primary_confidence (primary_reason @ u ''; 70B analysis failed''))
      | Inr escalation \<Rightarrow>
          rbind (is_safe_analysis escalation (th_threat_hash hint)) (\<lambda>safe.
            case escalation of
              Some result \<Rightarrow>
                (if safe then
                   Inr \<lparr>hr_analysis = result, hr_selected_tier = Tier70b, hr_escalated = True,
                        hr_primary_confidence = primary_confidence,
                        hr_routing_reason = primary_reason @ u ''; 70B analysis selected''\<rparr>
                 else Inr (failed_route hint primary_confidence
                        (primary_reason @ u ''; 70B returned an invalid safety decision'')))
            | None \<Rightarrow> Inr (failed_route hint primary_confidence
                        (primary_reason @ u ''; 70B returned an invalid safety decision''))))"

definition hybrid_process_threat_hint ::
  "(ThreatHint \<Rightarrow> analyzer_outcome) \<Rightarrow> (ThreatHint \<Rightarrow> analyzer_outcome) \<Rightarrow> ThreatHint \<Rightarrow>
     pyexc + HybridAnalysisResult" where
  "hybrid_process_threat_hint primary_8b escalation_70b hint =
     (case primary_8b hint of
        Inl _ \<Rightarrow> escalate escalation_70b hint None (u ''8B analysis failed'')
      | Inr primary \<Rightarrow>
          rbind (is_safe_analysis primary (th_threat_hash hint)) (\<lambda>safe.
          rbind (reported_confidence primary) (\<lambda>conf.
            case (safe, primary, conf) of
              (True, Some result, Some c) \<Rightarrow>
                (if float_le ESCALATION_CONFIDENCE c then
                   Inr \<lparr>hr_analysis = result, hr_selected_tier = Tier8b, hr_escalated = False,
                        hr_primary_confidence = Some c,
                        hr_routing_reason = u ''8B confidence met escalation threshold''\<rparr>
                 else escalate escalation_70b hint conf (u ''8B confidence below escalation threshold''))
            | _ \<Rightarrow> escalate escalation_70b hint conf
                     (u ''8B analysis returned an invalid safety decision''))))"

subsection \<open>Safe analyses\<close>

lemma is_valid_confidence_unit:
  "is_valid_confidence n = Inr True \<Longrightarrow> \<exists>c. to_float n = Inr (Fin c) \<and> 0 \<le> c \<and> c \<le> 1"
proof (cases n)
  case (NumInt i)
  assume "is_valid_confidence n = Inr True"
  then obtain x where "to_float n = Inr x" "float_finite x" "float_le (Fin 0) x" "float_le x (Fin 1)"
    by (auto simp: NumInt)
  then show ?thesis by (cases x) auto
next
  case (NumFloat f)
  assume "is_valid_confidence n = Inr True"
  then show ?thesis by (cases f) (auto simp: NumFloat)
qed auto

lemma is_safe_analysis_SomeD:
  assumes "is_safe_analysis (Some r) th = Inr True"
  shows "is_valid_confidence (ar_confidence r) = Inr True" and "ar_threat_hash r = th"
    and "\<exists>b. ar_should_submit r = PBool b" and "is_safe_rule_attr r th = Inr True"
  using assms by (auto simp: is_safe_analysis_def split: if_splits pyval.splits)

lemma is_safe_analysis_submit:
  assumes "is_safe_analysis (Some r) th = Inr True" and "ar_should_submit r = PBool True"
  shows "ar_threat_hash r = th \<and>
    (\<exists>rule c. ar_yara_rule r = Rule rule \<and> yr_threat_hash rule = th \<and>
       to_float (ar_confidence r) = Inr (Fin c) \<and> float_le MIN_CONFIDENCE (Fin c) \<and> c \<le> 1)"
proof -
  note d = is_safe_analysis_SomeD [OF assms(1)]
  obtain c where c: "to_float (ar_confidence r) = Inr (Fin c)" "c \<le> 1"
    using is_valid_confidence_unit [OF d(1)] by blast
  have *: "float_le MIN_CONFIDENCE (Fin c)" "ar_yara_rule r \<noteq> NoRule"
    using assms d c by (simp_all add: is_safe_analysis_def)
  then obtain rule where "ar_yara_rule r = Rule rule" "yr_threat_hash rule = th"
    using d(4) by (cases "ar_yara_rule r") (auto simp: is_safe_rule_attr_def split: if_splits)
  with * c d show ?thesis by blast
qed

lemma failed_analysis_not_submitted [simp]:
  "ar_should_submit (failed_analysis th n) = PBool False"
  "ar_yara_rule (failed_analysis th n) = NoRule"
  "ar_threat_hash (failed_analysis th n) = th"
  "ar_confidence (failed_analysis th n) = NumFloat (Fin 0)"
  by (simp_all add: failed_analysis_def)

lemma failed_route_simps [simp]:
  "hr_analysis (failed_route hint c r) =
     failed_analysis (th_threat_hash hint) ''Hybrid Guardian analysis failed closed.''"
  "hr_selected_tier (failed_route hint c r) = TierNone"
  "hr_escalated (failed_route hint c r)"
  by (simp_all add: failed_route_def)

lemma failed_analysis_safe: "is_safe_analysis (Some (failed_analysis th n)) th = Inr True"
  by (simp add: is_safe_analysis_def is_safe_rule_attr_def)

text \<open>
  Whatever the two analyzers do, a routed result is one that passed the safety check, or the
  fail-closed placeholder.
\<close>

lemma escalate_safe:
  assumes "escalate esc hint conf reason = Inr h"
  shows "is_safe_analysis (Some (hr_analysis h)) (th_threat_hash hint) = Inr True"
  using assms failed_analysis_safe
  by (auto simp: escalate_def split: sum.splits option.splits if_splits)

lemma hybrid_safe:
  assumes "hybrid_process_threat_hint p8 p70 hint = Inr h"
  shows "is_safe_analysis (Some (hr_analysis h)) (th_threat_hash hint) = Inr True"
  using assms
  by (auto simp: hybrid_process_threat_hint_def split: sum.splits option.splits if_splits bool.splits
      dest: escalate_safe)

subsection \<open>The analyzer contract\<close>

text \<open>What the router relies on from an analyzer: it returns, and what it returns is safe.\<close>

locale threat_analyzer =
  fixes run :: "ThreatHint \<Rightarrow> analyzer_outcome"
  assumes run_safe: "\<exists>r. run hint = Inr (Some r) \<and> is_safe_analysis (Some r) (th_threat_hash hint) = Inr True"
begin

lemma routed_without_escalation:
  assumes "run hint = Inr (Some r)" and "to_float (ar_confidence r) = Inr c"
    and "float_le ESCALATION_CONFIDENCE c"
  shows "hybrid_process_threat_hint run esc hint =
    Inr \<lparr>hr_analysis = r, hr_selected_tier = Tier8b, hr_escalated = False,
         hr_primary_confidence = Some c,
         hr_routing_reason = u ''8B confidence met escalation threshold''\<rparr>"
proof -
  have safe: "is_safe_analysis (Some r) (th_threat_hash hint) = Inr True"
    using run_safe [of hint] assms(1) by auto
  then have "is_valid_confidence (ar_confidence r) = Inr True"
    by (rule is_safe_analysis_SomeD)
  with safe assms show ?thesis
    by (simp add: hybrid_process_threat_hint_def reported_confidence_def)
qed

lemma routed_with_escalation:
  assumes "run hint = Inr (Some r)" and "to_float (ar_confidence r) = Inr c"
    and "\<not> float_le ESCALATION_CONFIDENCE c"
  shows "hybrid_process_threat_hint run esc hint =
    escalate esc hint (Some c) (u ''8B confidence below escalation threshold'')"
proof -
  have safe: "is_safe_analysis (Some r) (th_threat_hash hint) = Inr True"
    using run_safe [of hint] assms(1) by auto
  then have "is_valid_confidence (ar_confidence r) = Inr True"
    by (rule is_safe_analysis_SomeD)
  with safe assms show ?thesis
    by (simp add: hybrid_process_threat_hint_def reported_confidence_def)
qed

lemma escalation_total:
  "\<exists>h. escalate run hint conf reason = Inr h \<and> hr_selected_tier h = Tier70b"
  using run_safe [of hint] by (auto simp: escalate_def)

end

definition analyzer_run ::
  "(pystr \<Rightarrow> bool) \<Rightarrow> llm_server \<Rightarrow> wall_clock \<Rightarrow> nat \<Rightarrow> ThreatHint \<Rightarrow> analyzer_outcome" where
  "analyzer_run cc llm clk counter hint = Inr (Some (fst (process_threat_hint cc llm clk counter hint)))"

lemma generate_rule_binds_hash:
  "generate_rule llm clk k th ind = (Inr rule, k') \<Longrightarrow> yr_threat_hash rule = th \<and> k' = Suc k"
  by (auto simp: generate_rule_def Let_def split: sum.splits)

lemma confidence_quotient_unit:
  "0 \<le> n \<Longrightarrow> n \<le> 10000 \<Longrightarrow> 0 \<le> (of_int n / 10000 :: rat) \<and> (of_int n / 10000 :: rat) \<le> 1"
  by (simp add: divide_le_eq)

lemma min_confidence_reached:
  assumes "MIN_CONFIDENCE_BPS \<le> n" and "n \<le> 10000"
  shows "float_le MIN_CONFIDENCE (Fin (round_double (of_int n / 10000)))"
proof -
  have "(8500 :: rat) \<le> of_int n" using assms(1) by (simp add: MIN_CONFIDENCE_BPS_def)
  then have "round_double (8500 / 10000) \<le> round_double (of_int n / 10000)"
    using assms(2) by (intro round_double_mono_upper_half) (simp_all add: divide_le_eq)
  then show ?thesis by (simp add: MIN_CONFIDENCE_def MIN_CONFIDENCE_BPS_def)
qed

lemma validate_rule_int:
  "validate_rule cc rule \<Longrightarrow> \<exists>n. yr_confidence_bps rule = NumInt n \<and> 0 \<le> n \<and> n \<le> 10000"
  by (auto simp: validate_rule_def split: pynum.splits if_splits)

lemma process_threat_hint_cases:
  obtains n where "fst (process_threat_hint cc llm clk k hint) = failed_analysis (th_threat_hash hint) n"
  | rule k' where "generate_rule llm clk k (th_threat_hash hint) (th_indicators hint) = (Inr rule, k')"
      and "process_threat_hint cc llm clk k hint =
        (\<lparr>ar_threat_hash = th_threat_hash hint,
          ar_yara_rule = (if validate_rule cc rule then Rule rule else NoRule),
          ar_confidence = NumFloat (Fin (if validate_rule cc rule
            then round_double (of_int (num_int (yr_confidence_bps rule)) / 10000) else 0)),
          ar_should_submit = PBool (is_submittable cc rule),
          ar_analysis_notes = analysis_notes (validate_rule cc rule)
            (if validate_rule cc rule
             then round_double (of_int (num_int (yr_confidence_bps rule)) / 10000) else 0)
            (is_submittable cc rule)\<rparr>, k')"
proof -
  let ?data = "PDict [(u ''threat_hash'', th_threat_hash hint), (u ''indicators'', th_indicators hint),
                      (u ''timestamp'', th_timestamp hint)]"
  obtain g k' where g: "generate_rule llm clk k (th_threat_hash hint) (th_indicators hint) = (g, k')"
    by fastforce
  show thesis
  proof (cases "llm_analyze_threat llm ?data")
    case (Inl e)
    then show thesis by (intro that(1)) (simp add: process_threat_hint_def)
  next
    case (Inr x)
    show thesis
    proof (cases g)
      case (Inl e)
      with Inr g show thesis by (intro that(1)) (simp add: process_threat_hint_def)
    next
      case (Inr rule)
      with \<open>llm_analyze_threat llm ?data = Inr x\<close> g show thesis
        by (intro that(2) [of rule k']) (simp_all add: process_threat_hint_def Let_def)
    qed
  qed
qed

lemma analyzer_result_safe:
  "is_safe_analysis (Some (fst (process_threat_hint cc llm clk k hint))) (th_threat_hash hint) = Inr True"
proof (cases rule: process_threat_hint_cases [of cc llm clk k hint])
  case (1 n)
  then show ?thesis by (simp add: failed_analysis_safe)
next
  case (2 rule k')
  have th: "yr_threat_hash rule = th_threat_hash hint"
    using generate_rule_binds_hash [OF 2(1)] by simp
  show ?thesis
  proof (cases "validate_rule cc rule")
    case True
    then obtain n where n: "yr_confidence_bps rule = NumInt n" "0 \<le> n" "n \<le> 10000"
      using validate_rule_int by blast
    note unit = confidence_quotient_unit [OF n(2,3)]
    have "float_le MIN_CONFIDENCE (Fin (round_double (of_int n / 10000)))" if "is_submittable cc rule"
      using that n by (intro min_confidence_reached) (simp_all add: is_submittable_def)
    with True th n unit show ?thesis
      by (simp add: 2 is_safe_analysis_def is_safe_rule_attr_def yr_confidence_def
          float_of_rat_unit round_double_unit)
  next
    case False
    then show ?thesis
      by (simp add: 2 is_safe_analysis_def is_safe_rule_attr_def is_submittable_def)
  qed
qed

interpretation an: threat_analyzer "analyzer_run cc llm clk k" for cc llm clk k
  by unfold_locales (simp add: analyzer_run_def analyzer_result_safe)

subsection \<open>Properties\<close>

lemma hybrid_tier_8b:
  assumes "hybrid_process_threat_hint p8 p70 hint = Inr h" and "hr_selected_tier h = Tier8b"
  shows "p8 hint = Inr (Some (hr_analysis h)) \<and> \<not> hr_escalated h \<and>
    (\<exists>c. hr_primary_confidence h = Some c \<and> to_float (ar_confidence (hr_analysis h)) = Inr c \<and>
       float_le ESCALATION_CONFIDENCE c)"
proof -
  have "escalate p70 hint c r \<noteq> Inr h" for c r
    using assms(2) by (auto simp: escalate_def failed_route_def split: sum.splits option.splits)
  then show ?thesis
    using assms(1)
    by (auto simp: hybrid_process_threat_hint_def reported_confidence_def split: sum.splits option.splits if_splits bool.splits)
qed

text \<open>C33. Routing is fail-closed for arbitrary analyzers, whether they raise, return other objects or return
  unsafe results: a routed result that asks for submission names the hint's threat hash, carries a rule bound
  to this hash and has a confidence between the submission threshold and one; a result selected from no tier
  submits nothing; and a result of the 8B tier is the primary analyzer's own result, with a confidence of at
  least the escalation threshold and no escalation.\<close>

theorem hybrid_routing_safe:
  assumes "hybrid_process_threat_hint primary escalation hint = Inr h"
  shows "(ar_should_submit (hr_analysis h) = PBool True \<longrightarrow>
      ar_threat_hash (hr_analysis h) = th_threat_hash hint \<and>
      (\<exists>rule c. ar_yara_rule (hr_analysis h) = Rule rule \<and> yr_threat_hash rule = th_threat_hash hint \<and>
         to_float (ar_confidence (hr_analysis h)) = Inr (Fin c) \<and> float_le MIN_CONFIDENCE (Fin c) \<and> c \<le> 1)) \<and>
    (hr_selected_tier h = TierNone \<longrightarrow> ar_should_submit (hr_analysis h) = PBool False) \<and>
    (hr_selected_tier h = Tier8b \<longrightarrow> primary hint = Inr (Some (hr_analysis h)) \<and> \<not> hr_escalated h \<and>
       (\<exists>c. to_float (ar_confidence (hr_analysis h)) = Inr c \<and> float_le ESCALATION_CONFIDENCE c))"
proof -
  have "ar_should_submit (hr_analysis h) = PBool False" if "hr_selected_tier h = TierNone"
    using assms that
    by (auto simp: hybrid_process_threat_hint_def escalate_def failed_route_def failed_analysis_def
        split: sum.splits option.splits if_splits bool.splits)
  then show ?thesis
    using is_safe_analysis_submit [OF hybrid_safe [OF assms]] hybrid_tier_8b [OF assms] by blast
qed

theorem hybrid_routing_safe_witness:
  "\<exists>h. hybrid_process_threat_hint (\<lambda>_. Inl OtherError) (\<lambda>_. Inr None)
        \<lparr>th_threat_hash = PNone, th_reporter_zk_proof = [], th_indicators = PNone, th_timestamp = PInt 0\<rparr> = Inr h \<and>
     hr_selected_tier h = TierNone \<and> ar_should_submit (hr_analysis h) = PBool False"
proof -
  let ?hint = "\<lparr>th_threat_hash = PNone, th_reporter_zk_proof = [], th_indicators = PNone, th_timestamp = PInt 0\<rparr>"
  let ?h = "failed_route ?hint None (u ''8B analysis failed'' @ u ''; 70B returned an invalid safety decision'')"
  have r: "hybrid_process_threat_hint (\<lambda>_. Inl OtherError) (\<lambda>_. Inr None) ?hint = Inr ?h"
    by (simp add: hybrid_process_threat_hint_def escalate_def is_safe_analysis_def)
  have "hr_selected_tier ?h = TierNone" by (rule failed_route_simps)
  with r hybrid_routing_safe [OF r] show ?thesis by blast
qed

text \<open>C34. The submission rule of the analyzer: the result is marked for submission exactly if the model server
  answered all three calls, the generated source passes the candidate gate, and the assessed confidence is an
  integer of 8500 to 10000 basis points; in every other case, exceptions of the model server included, the
  result asks for no submission, and without a valid rule it carries no rule and confidence zero.\<close>

theorem analyzer_submits_iff:
  "(let threat_data = PDict [(u ''threat_hash'', th_threat_hash hint), (u ''indicators'', th_indicators hint),
                             (u ''timestamp'', th_timestamp hint)];
        description = json_dumps True True
          (PDict [(u ''indicators'', th_indicators hint), (u ''threat_hash'', th_threat_hash hint)]);
        result = fst (process_threat_hint cc llm clk k hint)
    in (ar_should_submit result = PBool True \<longleftrightarrow>
          (\<exists>analysis source bps. llm_analyze_threat llm threat_data = Inr analysis \<and>
             llm_generate_yara_rule llm description = Inr source \<and>
             llm_assess_yara_rule llm description source = Inr (NumInt bps) \<and>
             validate_candidate_rule_source cc source \<and> 8500 \<le> bps \<and> bps \<le> 10000)) \<and>
       ar_should_submit result \<in> {PBool True, PBool False} \<and>
       (ar_yara_rule result = NoRule \<longrightarrow>
          ar_should_submit result = PBool False \<and> ar_confidence result = NumFloat (Fin 0)))"
proof -
  have sub: "is_submittable cc r \<longleftrightarrow> (\<exists>bps. yr_confidence_bps r = NumInt bps \<and> 8500 \<le> bps \<and> bps \<le> 10000 \<and>
      validate_candidate_rule_source cc (yr_rule_content r))" for r
    by (auto simp: is_submittable_def validate_rule_def MIN_CONFIDENCE_BPS_def split: pynum.splits if_splits)
  have val: "is_submittable cc r \<Longrightarrow> validate_rule cc r" for r by (simp add: is_submittable_def)
  show ?thesis
    using val
    by (auto simp: process_threat_hint_def generate_rule_def failed_analysis_def Let_def sub split: sum.splits)
qed

theorem analyzer_submits_iff_witness:
  "ar_should_submit (fst (process_threat_hint (\<lambda>_. True)
     \<lparr>llm_analyze_threat = \<lambda>_. Inl OtherError, llm_generate_yara_rule = \<lambda>_. Inl OtherError,
      llm_assess_yara_rule = \<lambda>_ _. Inl OtherError\<rparr> \<lparr>clock_year = u ''2026'', clock_unix = 0\<rparr> 0
     \<lparr>th_threat_hash = PNone, th_reporter_zk_proof = [], th_indicators = PNone, th_timestamp = PInt 0\<rparr>)) = PBool False"
  using analyzer_submits_iff [of "\<lparr>th_threat_hash = PNone, th_reporter_zk_proof = [], th_indicators = PNone, th_timestamp = PInt 0\<rparr>"
      "\<lambda>_. True" "\<lparr>llm_analyze_threat = \<lambda>_. Inl OtherError, llm_generate_yara_rule = \<lambda>_. Inl OtherError,
      llm_assess_yara_rule = \<lambda>_ _. Inl OtherError\<rparr>" "\<lparr>clock_year = u ''2026'', clock_unix = 0\<rparr>" 0]
  by (auto simp: Let_def)

text \<open>A router over two analyzers of this module always returns a result: from the 8B tier if its confidence
  reaches the escalation threshold, and otherwise, escalated, the result of the 70B tier; no exception
  escapes, whatever the two model servers do.\<close>

lemma routing_total:
  "\<exists>h. hybrid_process_threat_hint (analyzer_run cc llm8 clk k8) (analyzer_run cc llm70 clk k70) hint = Inr h \<and>
     (let primary = fst (process_threat_hint cc llm8 clk k8 hint);
          escalation = fst (process_threat_hint cc llm70 clk k70 hint)
      in \<exists>c. to_float (ar_confidence primary) = Inr c \<and>
           (if float_le ESCALATION_CONFIDENCE c
            then hr_analysis h = primary \<and> hr_selected_tier h = Tier8b \<and> \<not> hr_escalated h
            else hr_analysis h = escalation \<and> hr_selected_tier h = Tier70b \<and> hr_escalated h))"
proof -
  let ?p = "fst (process_threat_hint cc llm8 clk k8 hint)" and ?e = "fst (process_threat_hint cc llm70 clk k70 hint)"
  have run: "analyzer_run cc llm8 clk k8 hint = Inr (Some ?p)" by (simp add: analyzer_run_def)
  obtain c where c: "to_float (ar_confidence ?p) = Inr (Fin c)"
    using is_valid_confidence_unit is_safe_analysis_SomeD(1) [OF analyzer_result_safe] by blast
  have esc: "escalate (analyzer_run cc llm70 clk k70) hint conf reason =
      Inr \<lparr>hr_analysis = ?e, hr_selected_tier = Tier70b, hr_escalated = True,
           hr_primary_confidence = conf, hr_routing_reason = reason @ u ''; 70B analysis selected''\<rparr>" for conf reason
    by (simp add: escalate_def analyzer_run_def analyzer_result_safe)
  show ?thesis
    using an.routed_without_escalation [OF run c] an.routed_with_escalation [OF run c] esc c
    by (cases "float_le ESCALATION_CONFIDENCE (Fin c)") (simp_all add: Let_def)
qed

text \<open>A verified hint is constructed exactly from well-formed fields, and is unchanged; a malformed field
  raises \<open>ValueError\<close>, except that an unhashable indicator type raises \<open>TypeError\<close>; and processing a verified
  hint never submits.\<close>

lemma verified_hint_fields:
  "(verified_threat_hint_init h = Inr h' \<longleftrightarrow> h' = h \<and>
      vh_schema_version h = PInt 1 \<and> is_hex_val 64 (vh_payload_digest h) \<and> is_hex_val 64 (vh_threat_hash h) \<and>
      int_in 1 10000 (vh_confidence_bps h) \<and>
      vh_indicator_type h \<in> {plit ''file_hash'', plit ''behavior'', plit ''network'', plit ''api_call''} \<and>
      vh_proof_system h = plit ''groth16_kip16_v1'' \<and>
      (\<exists>p. vh_reporter_zk_proof h = Some p \<and> 0 < length p \<and> length p \<le> 1024) \<and>
      is_hex_val 64 (vh_report_nonce h) \<and> (\<exists>t a. vh_observed_at h = PInt t \<and> 0 < t \<and> vh_admitted_at h = PInt a \<and> 0 < a) \<and>
      valid_hint_network (vh_network_id h)) \<and>
   (verified_threat_hint_init h = Inl e \<longrightarrow> e = ValueError \<or> e = TypeError \<and> \<not> py_hashable (vh_indicator_type h)) \<and>
   ar_should_submit (process_verified_threat_hint h) = PBool False"
proof -
  have pos: "is_positive_int v \<longleftrightarrow> (\<exists>n. v = PInt n \<and> 0 < n)" for v by (cases v) auto
  have "py_hashable v" if "v \<in> verified_indicator_types" for v using that by (auto simp: verified_indicator_types_def)
  then show ?thesis
    by (auto simp: verified_threat_hint_init_def rbind_eq_Inl pos verified_indicator_types_def
        process_verified_threat_hint_def split: option.splits)
qed

end
