(* ===== verification/Py_Sha256.thy ===== *)
theory Py_Sha256
  imports Py_Prelude
begin

text \<open>
  \<open>hashlib.sha256\<close> (FIPS 180-4) on byte strings, executable. The component theories only use that a
  digest has 32 bytes, so its hexadecimal form has 64 lower-case digits; everything else about the
  function enters the theorems through equality of digests.
\<close>

unbundle bit_operations_syntax

type_synonym w32 = "32 word"

definition sha256_k :: "w32 list" where
  "sha256_k =
    [1116352408, 1899447441, 3049323471, 3921009573, 961987163, 1508970993, 2453635748, 2870763221,
     3624381080, 310598401, 607225278, 1426881987, 1925078388, 2162078206, 2614888103, 3248222580,
     3835390401, 4022224774, 264347078, 604807628, 770255983, 1249150122, 1555081692, 1996064986,
     2554220882, 2821834349, 2952996808, 3210313671, 3336571891, 3584528711, 113926993, 338241895,
     666307205, 773529912, 1294757372, 1396182291, 1695183700, 1986661051, 2177026350, 2456956037,
     2730485921, 2820302411, 3259730800, 3345764771, 3516065817, 3600352804, 4094571909, 275423344,
     430227734, 506948616, 659060556, 883997877, 958139571, 1322822218, 1537002063, 1747873779,
     1955562222, 2024104815, 2227730452, 2361852424, 2428436474, 2756734187, 3204031479, 3329325298]"

definition sha256_init :: "w32 list" where
  "sha256_init =
    [1779033703, 3144134277, 1013904242, 2773480762, 1359893119, 2600822924, 528734635, 1541459225]"

definition rotr :: "nat \<Rightarrow> w32 \<Rightarrow> w32" where
  "rotr n x = drop_bit n x OR push_bit (32 - n) x"

definition small_sigma0 :: "w32 \<Rightarrow> w32" where
  "small_sigma0 x = rotr 7 x XOR rotr 18 x XOR drop_bit 3 x"

definition small_sigma1 :: "w32 \<Rightarrow> w32" where
  "small_sigma1 x = rotr 17 x XOR rotr 19 x XOR drop_bit 10 x"

definition big_sigma0 :: "w32 \<Rightarrow> w32" where
  "big_sigma0 x = rotr 2 x XOR rotr 13 x XOR rotr 22 x"

definition big_sigma1 :: "w32 \<Rightarrow> w32" where
  "big_sigma1 x = rotr 6 x XOR rotr 11 x XOR rotr 25 x"

fun words_of_bytes :: "bytes \<Rightarrow> w32 list" where
  "words_of_bytes (a # b # c # d # r) = of_nat (be_value [a, b, c, d]) # words_of_bytes r"
| "words_of_bytes _ = []"

text \<open>The message schedule, kept in reverse: the most recent word first.\<close>

fun extend_schedule :: "nat \<Rightarrow> w32 list \<Rightarrow> w32 list" where
  "extend_schedule 0 rw = rw"
| "extend_schedule (Suc n) rw =
     extend_schedule n
       ((small_sigma1 (rw ! 1) + rw ! 6 + small_sigma0 (rw ! 14) + rw ! 15) # rw)"

definition schedule :: "bytes \<Rightarrow> w32 list" where
  "schedule block = rev (extend_schedule 48 (rev (words_of_bytes block)))"

fun sha256_round :: "w32 list \<Rightarrow> w32 \<times> w32 \<Rightarrow> w32 list" where
  "sha256_round [a, b, c, d, e, f, g, h] (k, w) =
     (let t1 = h + big_sigma1 e + ((e AND f) XOR (NOT e AND g)) + k + w;
          t2 = big_sigma0 a + ((a AND b) XOR (a AND c) XOR (b AND c))
      in [t1 + t2, a, b, c, d + t1, e, f, g])"
| "sha256_round st _ = st"

definition compress :: "w32 list \<Rightarrow> bytes \<Rightarrow> w32 list" where
  "compress st block = map2 (+) st (foldl sha256_round st (zip sha256_k (schedule block)))"

definition sha256_pad :: "bytes \<Rightarrow> bytes" where
  "sha256_pad m =
     m @ 0x80 # replicate ((119 - length m mod 64) mod 64) 0 @ be_bytes 8 (8 * length m)"

function blocks :: "bytes \<Rightarrow> bytes list" where
  "blocks m = (if length m < 64 then [] else take 64 m # blocks (drop 64 m))"
  by pat_completeness auto
termination
  by (relation "measure length") auto

declare blocks.simps [simp del]

definition sha256 :: "bytes \<Rightarrow> bytes" where
  "sha256 m =
     concat (map (\<lambda>w. be_bytes 4 (unat w)) (foldl compress sha256_init (blocks (sha256_pad m))))"

definition sha256_hex :: "bytes \<Rightarrow> pystr" where
  "sha256_hex m = hex_of_bytes (sha256 m)"

lemma length_sha256_round [simp]: "length (sha256_round st kw) = length st"
  by (induction st kw rule: sha256_round.induct) (simp_all add: Let_def)

lemma length_compress [simp]: "length (compress st block) = length st"
proof -
  have "length (foldl sha256_round s kws) = length s" for s kws
    by (induction kws arbitrary: s) simp_all
  then show ?thesis by (simp add: compress_def)
qed

lemma length_sha256 [simp]: "length (sha256 m) = 32"
proof -
  have 1: "length (foldl compress st bs) = length st" for st bs
    by (induction bs arbitrary: st) simp_all
  have 2: "length (concat (map (\<lambda>w. be_bytes 4 (unat w)) ws)) = 4 * length ws" for ws :: "w32 list"
    by (induction ws) simp_all
  show ?thesis by (simp add: sha256_def 1 2 sha256_init_def)
qed

lemma sha256_hex_lower [simp]: "is_lower_hex 64 (sha256_hex m)"
  using is_lower_hex_of_bytes [of "sha256 m"] by (simp add: sha256_hex_def)

lemma length_sha256_hex [simp]: "length (sha256_hex m) = 64"
  by (simp add: sha256_hex_def)

lemma sha256_hex_eq [simp]: "sha256_hex a = sha256_hex b \<longleftrightarrow> sha256 a = sha256 b"
  by (simp add: sha256_hex_def)

end
