(* ===== verification/Py_Commitment.thy ===== *)
theory Py_Commitment
  imports Py_Json_Facts Py_Sha256
begin

text \<open>
  Digests of canonical JSON. The modules commit to a value by the SHA-256 of a domain tag, a zero
  byte and the canonical JSON of its payload (\<open>_canonical_digest\<close>). The locale \<open>json_commitment\<close>
  states what a payload must satisfy for the digest to bind the value; each committed record
  interprets it.
\<close>

definition canonical_digest :: "bytes \<Rightarrow> pyval \<Rightarrow> pyval" where
  "canonical_digest domain payload = PStr (sha256_hex (domain @ 0 # canonical_json payload))"

lemma json_plain_list_iff: "json_plain_list vs \<longleftrightarrow> (\<forall>v \<in> set vs. json_plain v)"
  by (induction vs) auto

lemma flat_lit: "list_all unescaped (u s) \<Longrightarrow> length s + 2 \<le> n \<Longrightarrow> flat n (plit s)"
  using flat_text [of "u s"] by (auto intro: flat_mono)

lemma flat_items_Cons:
  "flat_items K N ((u k, v) # kvs) \<longleftrightarrow>
     u k \<notin> fst ` set kvs \<and> list_all unescaped (u k) \<and> length k \<le> K \<and> flat N v \<and> flat_items K N kvs"
  by (auto simp: flat_items_def)

lemma unescaped_numeral [simp]:
  "unescaped (numeral w) \<longleftrightarrow>
     (32 :: nat) \<le> numeral w \<and> numeral w < (127 :: nat) \<and> numeral w \<noteq> (34 :: nat) \<and> numeral w \<noteq> (92 :: nat)"
  by (simp add: unescaped_def)

lemma unescaped_u_simps [simp]:
  "list_all unescaped (u (c # s)) \<longleftrightarrow> unescaped (of_char c) \<and> list_all unescaped (u s)"
  by (simp add: u_Cons)

lemma hex_unescaped: "is_lower_hex n s \<Longrightarrow> list_all unescaped s \<and> length s = n"
  by (auto simp: is_lower_hex_def list_all_iff intro: unescaped_hex)

lemma flat_sort: "flat n v \<Longrightarrow> sort_keys v = v"
  and flat_plain: "flat n v \<Longrightarrow> json_plain v"
  by (simp_all add: flat_def)

text \<open>The sorted payload of an object of flat fields gives back each field.\<close>

lemma flat_payload_at:
  assumes "sort_keys (PDict kvs) = sort_keys (PDict kvs')"
    and "flat_items K N kvs" and "flat_items K N kvs'"
  shows "dict_at kvs k = dict_at kvs' k"
proof -
  have "sort_key fst kvs = sort_key fst kvs'"
    using assms by (simp add: flat_items_sort)
  then show ?thesis using flat_items_dict_at [OF assms(2), of k] flat_items_dict_at [OF assms(3), of k]
    by simp
qed

subsection \<open>Commitments bind\<close>

text \<open>
  A digest commits to a value when its canonical payload determines the value. Two values with the
  same digest are then equal, unless their own preimages are a SHA-256 collision.
\<close>

definition sha256_collision :: "bytes \<Rightarrow> bytes \<Rightarrow> bool" where
  "sha256_collision a b \<longleftrightarrow> a \<noteq> b \<and> sha256 a = sha256 b"

definition digest_preimage :: "bytes \<Rightarrow> pyval \<Rightarrow> bytes" where
  "digest_preimage domain payload = domain @ 0 # canonical_json payload"

locale json_commitment =
  fixes payload :: "'a \<Rightarrow> pyval" and ok :: "'a \<Rightarrow> bool"
  assumes plain: "ok x \<Longrightarrow> json_plain (payload x)"
    and inj: "ok x \<Longrightarrow> ok y \<Longrightarrow> sort_keys (payload x) = sort_keys (payload y) \<Longrightarrow> x = y"
begin

lemma binding:
  assumes "ok x" and "ok y"
    and "canonical_digest d (payload x) = canonical_digest d (payload y)"
  shows "x = y \<or> sha256_collision (digest_preimage d (payload x)) (digest_preimage d (payload y))"
proof (cases "canonical_json (payload x) = canonical_json (payload y)")
  case True
  then have "sort_keys (payload x) = sort_keys (payload y)"
    using assms(1,2) plain by (intro canonical_json_inj) auto
  with assms inj show ?thesis by blast
next
  case False
  with assms(3) show ?thesis
    by (simp add: sha256_collision_def digest_preimage_def canonical_digest_def)
qed

end

lemma distinct_u: "distinct (map u ks) \<longleftrightarrow> distinct ks"
  by (simp add: distinct_map inj_on_def)

lemma sort_keys_dict_at:
  assumes "sort_keys (PDict kvs) = sort_keys (PDict kvs')"
    and "distinct (map fst kvs)" and "distinct (map fst kvs')"
    and "dict_get kvs (u k) = Some v" and "dict_get kvs' (u k) = Some v'"
  shows "sort_keys v = sort_keys v'"
  using sort_keys_dict_get [OF assms(1-3), of "u k"] assms(4,5) by simp

end
