(* ===== verification/Ensemble.thy ===== *)
theory Ensemble
  imports Guardian_Analysis Py_Commitment
begin

text \<open>
  Model of \<open>jaeger/ensemble.py\<close>: membership snapshots, candidate commitments, and the fail-closed
  evaluation of a complete committee ballot.

  Containers of dataclass instances are lists of records, so \<open>isinstance\<close> tests against those
  dataclasses hold by typing; the scalar fields are \<open>pyval\<close>s and keep their run-time tests. Equality
  of fields is equality of \<open>pyval\<close>s: in every comparison of the module one side is text that has
  already been validated, where it agrees with Python's \<open>==\<close>.

  The committee rule is stated abstractly as \<open>committee_approves\<close>, and \<open>evaluate_iff\<close> shows that the
  ballot loop implements it.
\<close>

definition ENSEMBLE_PROTOCOL_VERSION :: int where
  "ENSEMBLE_PROTOCOL_VERSION = 1"

definition MIN_ENSEMBLE_MEMBERS :: nat where
  "MIN_ENSEMBLE_MEMBERS = 5"

definition CANDIDATE_DOMAIN :: bytes where
  "CANDIDATE_DOMAIN = ascii_bytes (u ''PROMETHEUS_GUARDIAN_ENSEMBLE_CANDIDATE_V1'')"

definition SNAPSHOT_DOMAIN :: bytes where
  "SNAPSHOT_DOMAIN = ascii_bytes (u ''PROMETHEUS_GUARDIAN_MEMBERSHIP_SNAPSHOT_V1'')"

subsection \<open>Data\<close>

record GuardianMember =
  gm_guardian_id :: pyval
  gm_model_tier :: pyval
  gm_model_artifact_sha256 :: pyval

record MembershipSnapshot =
  ms_protocol_version :: pyval
  ms_membership_source_sha256 :: pyval
  ms_members :: "GuardianMember list"
  ms_snapshot_id :: pyval

record EnsembleCandidate =
  ec_protocol_version :: pyval
  ec_rule_type :: pyval
  ec_threat_hash :: pyval
  ec_rule_name :: pyval
  ec_rule_content :: pyval
  ec_rule_generated_at :: pyval
  ec_rule_confidence_bps :: pyval
  ec_rule_sha256 :: pyval
  ec_policy_sha256 :: pyval
  ec_model_artifact_sha256 :: pyval
  ec_candidate_digest :: pyval

record GuardianVote =
  gv_guardian_id :: pyval
  gv_membership_snapshot_id :: pyval
  gv_candidate_digest :: pyval
  gv_decision :: pyval
  gv_confidence_bps :: pyval
  gv_model_tier :: pyval
  gv_model_artifact_sha256 :: pyval
  gv_protocol_version :: pyval

record EnsembleDecision =
  ed_analysis :: AnalysisResult
  ed_membership_snapshot_id :: "pyval option"
  ed_candidate_digest :: "pyval option"
  ed_committee_size :: nat
  ed_approvals :: nat
  ed_rejections :: nat
  ed_aggregate_confidence_bps :: "int option"
  ed_approved :: bool
  ed_reason :: pystr

record BallotTally =
  bt_approval_confidences_bps :: "int list"
  bt_rejections :: nat

subsection \<open>Field validation\<close>

definition is_sha256 :: "pyval \<Rightarrow> bool" where
  "is_sha256 v = is_hex_val 64 v"

fun is_rule_name :: "pyval \<Rightarrow> bool" where
  "is_rule_name (PStr s) =
     (s \<noteq> [] \<and> length s \<le> 128 \<and> is_identifier_start (hd s) \<and> list_all is_identifier_char (tl s))"
| "is_rule_name _ = False"

fun is_rule_content :: "pyval \<Rightarrow> pyval \<Rightarrow> bool" where
  "is_rule_content (PStr rule_name) (PStr value) =
     (case utf8_encode value of
        None \<Rightarrow> False
      | Some bs \<Rightarrow>
          0 < length bs \<and> length bs \<le> 1000000 \<and> contains (u ''rule '' @ rule_name) value \<and>
          contains (u ''strings:'') value \<and> contains (u ''condition:'') value)"
| "is_rule_content _ _ = False"

definition is_valid_member :: "GuardianMember \<Rightarrow> bool" where
  "is_valid_member m \<longleftrightarrow>
     is_sha256 (gm_guardian_id m) \<and> gm_model_tier m = plit ''8b'' \<and>
     is_sha256 (gm_model_artifact_sha256 m)"

definition is_safe_rule :: "YaraRule \<Rightarrow> bool" where
  "is_safe_rule rule \<longleftrightarrow>
     is_sha256 (yr_threat_hash rule) \<and> is_rule_name (yr_name rule) \<and>
     is_rule_content (yr_name rule) (yr_rule_content rule) \<and>
     (case yr_confidence_bps rule of NumInt n \<Rightarrow> 0 \<le> n \<and> n \<le> 10000 | _ \<Rightarrow> False) \<and>
     (case yr_generated_at rule of PInt t \<Rightarrow> 0 \<le> t | _ \<Rightarrow> False)"

subsection \<open>Commitments\<close>

definition member_payload :: "GuardianMember \<Rightarrow> pyval" where
  "member_payload m =
     PDict [(u ''guardian_id'', gm_guardian_id m),
            (u ''model_artifact_sha256'', gm_model_artifact_sha256 m),
            (u ''model_tier'', gm_model_tier m)]"

definition snapshot_payload :: "pyval \<Rightarrow> pyval \<Rightarrow> GuardianMember list \<Rightarrow> pyval" where
  "snapshot_payload protocol_version source members =
     PDict [(u ''members'', PList (map member_payload members)),
            (u ''membership_source_sha256'', source),
            (u ''protocol_version'', protocol_version)]"

definition candidate_payload ::
  "pyval \<Rightarrow> pyval \<Rightarrow> pyval \<Rightarrow> pyval \<Rightarrow> pyval \<Rightarrow> pyval \<Rightarrow> pyval \<Rightarrow> pyval \<Rightarrow> pyval \<Rightarrow> pyval" where
  "candidate_payload protocol_version threat_hash rule_name rule_content rule_generated_at
     rule_confidence_bps rule_sha256 policy_sha256 model_artifact_sha256 =
     PDict [(u ''model_artifact_sha256'', model_artifact_sha256),
            (u ''policy_sha256'', policy_sha256),
            (u ''protocol_version'', protocol_version),
            (u ''rule_content'', rule_content),
            (u ''rule_confidence_bps'', rule_confidence_bps),
            (u ''rule_generated_at'', rule_generated_at),
            (u ''rule_name'', rule_name),
            (u ''rule_sha256'', rule_sha256),
            (u ''rule_type'', plit ''yara''),
            (u ''threat_hash'', threat_hash)]"

text \<open>\<open>hashlib.sha256(rule_content.encode("utf-8")).hexdigest()\<close> for encodable text.\<close>

definition content_sha256 :: "pyval \<Rightarrow> pyval" where
  "content_sha256 v =
     PStr (sha256_hex (case utf8_encode (the_str v) of Some bs \<Rightarrow> bs | None \<Rightarrow> []))"

text \<open>
  \<open>_validated_members\<close>. Members whose ids are not all text either cannot be sorted or fail the field
  check that follows; both raise \<open>ValueError\<close>.
\<close>

definition member_key :: "GuardianMember \<Rightarrow> pystr" where
  "member_key m = the_str (gm_guardian_id m)"

definition validated_members :: "GuardianMember list \<Rightarrow> pyexc + GuardianMember list" where
  "validated_members members =
     (if \<not> list_all (\<lambda>m. is_str (gm_guardian_id m)) members then Inl ValueError
      else let canonical = sort_key member_key members in
        if length canonical < MIN_ENSEMBLE_MEMBERS then Inl ValueError
        else if \<not> list_all is_valid_member canonical then Inl ValueError
        else if \<not> distinct (map gm_guardian_id canonical) then Inl ValueError
        else Inr canonical)"

definition MembershipSnapshot_create ::
  "GuardianMember list \<Rightarrow> pyval \<Rightarrow> pyexc + MembershipSnapshot" where
  "MembershipSnapshot_create members source =
     rbind (validated_members members) (\<lambda>canonical.
       if \<not> is_sha256 source then Inl ValueError
       else Inr \<lparr>ms_protocol_version = PInt ENSEMBLE_PROTOCOL_VERSION,
                 ms_membership_source_sha256 = source,
                 ms_members = canonical,
                 ms_snapshot_id = canonical_digest SNAPSHOT_DOMAIN
                   (snapshot_payload (PInt ENSEMBLE_PROTOCOL_VERSION) source canonical)\<rparr>)"

definition candidate_digest_of :: "EnsembleCandidate \<Rightarrow> pyval" where
  "candidate_digest_of c =
     canonical_digest CANDIDATE_DOMAIN
       (candidate_payload (ec_protocol_version c) (ec_threat_hash c) (ec_rule_name c)
          (ec_rule_content c) (ec_rule_generated_at c) (ec_rule_confidence_bps c)
          (ec_rule_sha256 c) (ec_policy_sha256 c) (ec_model_artifact_sha256 c))"

definition EnsembleCandidate_create ::
  "YaraRule \<Rightarrow> pyval \<Rightarrow> pyval \<Rightarrow> pyexc + EnsembleCandidate" where
  "EnsembleCandidate_create rule policy artifact =
     (if \<not> is_safe_rule rule then Inl ValueError
      else if \<not> is_sha256 policy then Inl ValueError
      else if \<not> is_sha256 artifact then Inl ValueError
      else if num_int (yr_confidence_bps rule) < MIN_CONFIDENCE_BPS then Inl ValueError
      else let c = \<lparr>ec_protocol_version = PInt ENSEMBLE_PROTOCOL_VERSION,
                    ec_rule_type = plit ''yara'',
                    ec_threat_hash = yr_threat_hash rule,
                    ec_rule_name = yr_name rule,
                    ec_rule_content = yr_rule_content rule,
                    ec_rule_generated_at = yr_generated_at rule,
                    ec_rule_confidence_bps = PInt (num_int (yr_confidence_bps rule)),
                    ec_rule_sha256 = content_sha256 (yr_rule_content rule),
                    ec_policy_sha256 = policy,
                    ec_model_artifact_sha256 = artifact,
                    ec_candidate_digest = PNone\<rparr>
           in Inr (c\<lparr>ec_candidate_digest := candidate_digest_of c\<rparr>))"

definition is_valid_snapshot :: "MembershipSnapshot \<Rightarrow> bool" where
  "is_valid_snapshot s \<longleftrightarrow>
     ms_protocol_version s = PInt ENSEMBLE_PROTOCOL_VERSION \<and>
     is_sha256 (ms_membership_source_sha256 s) \<and> is_sha256 (ms_snapshot_id s) \<and>
     (case validated_members (ms_members s) of
        Inl _ \<Rightarrow> False
      | Inr canonical \<Rightarrow>
          ms_members s = canonical \<and>
          ms_snapshot_id s = canonical_digest SNAPSHOT_DOMAIN
            (snapshot_payload (ms_protocol_version s) (ms_membership_source_sha256 s) canonical))"

definition is_valid_candidate :: "EnsembleCandidate \<Rightarrow> bool" where
  "is_valid_candidate c \<longleftrightarrow>
     ec_protocol_version c = PInt ENSEMBLE_PROTOCOL_VERSION \<and> ec_rule_type c = plit ''yara'' \<and>
     is_sha256 (ec_threat_hash c) \<and> is_rule_name (ec_rule_name c) \<and>
     is_rule_content (ec_rule_name c) (ec_rule_content c) \<and>
     (case ec_rule_generated_at c of PInt t \<Rightarrow> 0 \<le> t | _ \<Rightarrow> False) \<and>
     int_in MIN_CONFIDENCE_BPS 10000 (ec_rule_confidence_bps c) \<and>
     is_sha256 (ec_rule_sha256 c) \<and> is_sha256 (ec_policy_sha256 c) \<and>
     is_sha256 (ec_model_artifact_sha256 c) \<and> is_sha256 (ec_candidate_digest c) \<and>
     ec_rule_sha256 c = content_sha256 (ec_rule_content c) \<and>
     ec_candidate_digest c = candidate_digest_of c"

subsection \<open>Votes and ballots\<close>

text \<open>
  \<open>members_by_id.get(vote.guardian_id)\<close>: looking up an unhashable id raises \<open>TypeError\<close>. The ids of
  a valid snapshot are distinct, so the dictionary has one entry per member.
\<close>

definition members_by_id_get :: "GuardianMember list \<Rightarrow> pyval \<Rightarrow> pyexc + GuardianMember option" where
  "members_by_id_get members gid =
     (if py_hashable gid then Inr (find (\<lambda>m. gm_guardian_id m = gid) members) else Inl TypeError)"

definition vote_bound ::
  "GuardianVote \<Rightarrow> EnsembleCandidate \<Rightarrow> MembershipSnapshot \<Rightarrow> GuardianMember \<Rightarrow> bool" where
  "vote_bound v c s m \<longleftrightarrow>
     gv_protocol_version v = PInt ENSEMBLE_PROTOCOL_VERSION \<and>
     is_sha256 (gv_guardian_id v) \<and>
     gv_membership_snapshot_id v = ms_snapshot_id s \<and>
     gv_candidate_digest v = ec_candidate_digest c \<and>
     (gv_decision v = plit ''approve'' \<or> gv_decision v = plit ''reject'') \<and>
     int_in 0 10000 (gv_confidence_bps v) \<and>
     gv_model_tier v = plit ''8b'' \<and> gv_model_tier v = gm_model_tier m \<and>
     gv_model_artifact_sha256 v = gm_model_artifact_sha256 m \<and>
     gv_model_artifact_sha256 v = ec_model_artifact_sha256 c"

definition is_valid_vote ::
  "GuardianVote \<Rightarrow> EnsembleCandidate \<Rightarrow> MembershipSnapshot \<Rightarrow> pyexc + bool" where
  "is_valid_vote v c s =
     rbind (members_by_id_get (ms_members s) (gv_guardian_id v)) (\<lambda>member.
       Inr (case member of None \<Rightarrow> False | Some m \<Rightarrow> vote_bound v c s m))"

definition is_valid_guardian_vote ::
  "GuardianVote \<Rightarrow> EnsembleCandidate \<Rightarrow> MembershipSnapshot \<Rightarrow> pyexc + bool" where
  "is_valid_guardian_vote v c s =
     (if \<not> is_valid_candidate c \<or> \<not> is_valid_snapshot s then Inr False else is_valid_vote v c s)"

text \<open>The loop of \<open>_validate_ballot\<close>; a returned text is the reason of the rejection.\<close>

fun validate_ballot_loop ::
  "EnsembleCandidate \<Rightarrow> MembershipSnapshot \<Rightarrow> GuardianVote list \<Rightarrow> pyval list \<Rightarrow> int list \<Rightarrow> nat \<Rightarrow>
     pyexc + (pystr + (pyval list \<times> BallotTally))" where
  "validate_ballot_loop c s [] seen confs rej =
     Inr (Inr (seen, \<lparr>bt_approval_confidences_bps = confs, bt_rejections = rej\<rparr>))"
| "validate_ballot_loop c s (v # vs) seen confs rej =
     rbind (is_valid_vote v c s) (\<lambda>valid.
       if \<not> valid then Inr (Inl (u ''invalid committee vote''))
       else if gv_guardian_id v \<in> set seen then Inr (Inl (u ''duplicate committee vote''))
       else if gv_decision v = plit ''approve'' then
         (if the_int (gv_confidence_bps v) < MIN_CONFIDENCE_BPS
          then Inr (Inl (u ''approval below confidence policy''))
          else validate_ballot_loop c s vs (gv_guardian_id v # seen)
                 (confs @ [the_int (gv_confidence_bps v)]) rej)
       else validate_ballot_loop c s vs (gv_guardian_id v # seen) confs (Suc rej))"

definition validate_ballot ::
  "GuardianVote list \<Rightarrow> EnsembleCandidate \<Rightarrow> MembershipSnapshot \<Rightarrow> pyexc + (pystr + BallotTally)" where
  "validate_ballot votes c s =
     (if length votes \<noteq> length (ms_members s) then Inr (Inl (u ''incomplete committee ballot''))
      else rbind (validate_ballot_loop c s votes [] [] 0) (\<lambda>r.
        case r of
          Inl reason \<Rightarrow> Inr (Inl reason)
        | Inr (seen, tally) \<Rightarrow>
            (if set seen \<noteq> set (map gm_guardian_id (ms_members s))
             then Inr (Inl (u ''incomplete committee ballot''))
             else Inr (Inr tally))))"

definition failed_decision ::
  "pystr \<Rightarrow> pyval \<Rightarrow> pyval option \<Rightarrow> pyval option \<Rightarrow> nat \<Rightarrow> nat \<Rightarrow> nat \<Rightarrow> EnsembleDecision" where
  "failed_decision reason threat_hash candidate_digest snapshot_id committee_size approvals rejections =
     \<lparr>ed_analysis = failed_analysis threat_hash ''Guardian ensemble validation failed closed.'',
      ed_membership_snapshot_id = snapshot_id, ed_candidate_digest = candidate_digest,
      ed_committee_size = committee_size, ed_approvals = approvals, ed_rejections = rejections,
      ed_aggregate_confidence_bps = None, ed_approved = False, ed_reason = reason\<rparr>"

definition failed_ballot ::
  "EnsembleCandidate \<Rightarrow> MembershipSnapshot \<Rightarrow> pystr \<Rightarrow> EnsembleDecision" where
  "failed_ballot c s reason =
     failed_decision reason (ec_threat_hash c) (Some (ec_candidate_digest c))
       (Some (ms_snapshot_id s)) (length (ms_members s)) 0 0"

definition approved_decision ::
  "EnsembleCandidate \<Rightarrow> MembershipSnapshot \<Rightarrow> BallotTally \<Rightarrow> EnsembleDecision" where
  "approved_decision c s tally =
     (let aggregate = foldl min (the_int (ec_rule_confidence_bps c)) (bt_approval_confidences_bps tally);
          rule = \<lparr>yr_name = ec_rule_name c, yr_rule_content = ec_rule_content c,
                  yr_confidence_bps = NumInt aggregate, yr_threat_hash = ec_threat_hash c,
                  yr_generated_at = ec_rule_generated_at c\<rparr>
      in \<lparr>ed_analysis =
            \<lparr>ar_threat_hash = ec_threat_hash c, ar_yara_rule = Rule rule,
             ar_confidence = NumFloat (Fin (round_double (of_int aggregate / 10000))),
             ar_should_submit = PBool True,
             ar_analysis_notes = u ''Guardian ensemble reached a strict complete-ballot majority.''\<rparr>,
          ed_membership_snapshot_id = Some (ms_snapshot_id s),
          ed_candidate_digest = Some (ec_candidate_digest c),
          ed_committee_size = length (ms_members s),
          ed_approvals = length (bt_approval_confidences_bps tally),
          ed_rejections = bt_rejections tally,
          ed_aggregate_confidence_bps = Some aggregate, ed_approved = True,
          ed_reason = u ''strict committee majority approved''\<rparr>)"

definition evaluate ::
  "EnsembleCandidate \<Rightarrow> MembershipSnapshot \<Rightarrow> GuardianVote list \<Rightarrow> pyexc + EnsembleDecision" where
  "evaluate c s votes =
     (if \<not> is_valid_candidate c then
        Inr (failed_decision (u ''invalid candidate'') (plit '''') None None 0 0 0)
      else if \<not> is_valid_snapshot s then
        Inr (failed_decision (u ''invalid membership snapshot'') (ec_threat_hash c)
               (Some (ec_candidate_digest c)) None 0 0 0)
      else let size = length (ms_members s) in
        if list_ex (\<lambda>m. gm_model_artifact_sha256 m \<noteq> ec_model_artifact_sha256 c) (ms_members s) then
          Inr (failed_decision (u ''committee model binding mismatch'') (ec_threat_hash c)
                 (Some (ec_candidate_digest c)) (Some (ms_snapshot_id s)) size 0 0)
        else rbind (validate_ballot votes c s) (\<lambda>r.
          case r of
            Inl reason \<Rightarrow> Inr (failed_ballot c s reason)
          | Inr tally \<Rightarrow>
              (let approvals = length (bt_approval_confidences_bps tally) in
               if approvals \<le> size div 2 then
                 Inr (failed_decision (u ''strict committee majority not reached'') (ec_threat_hash c)
                        (Some (ec_candidate_digest c)) (Some (ms_snapshot_id s)) size approvals
                        (bt_rejections tally))
               else Inr (approved_decision c s tally))))"

subsection \<open>The committee rule\<close>

text \<open>The votes of a ballot that approve, and their confidences.\<close>

definition approves :: "GuardianVote \<Rightarrow> bool" where
  "approves v \<longleftrightarrow> gv_decision v = plit ''approve''"

definition approval_confidences :: "GuardianVote list \<Rightarrow> int list" where
  "approval_confidences votes = map (\<lambda>v. the_int (gv_confidence_bps v)) (filter approves votes)"

text \<open>
  What the committee promises: a candidate is approved exactly when the candidate, the snapshot and
  every vote are valid, each member votes exactly once, every approval reaches the policy
  confidence, and more than half of the committee approves.
\<close>

definition complete_ballot :: "EnsembleCandidate \<Rightarrow> MembershipSnapshot \<Rightarrow> GuardianVote list \<Rightarrow> bool" where
  "complete_ballot c s votes \<longleftrightarrow>
     list_all (\<lambda>v. is_valid_vote v c s = Inr True) votes \<and>
     mset (map gv_guardian_id votes) = mset (map gm_guardian_id (ms_members s)) \<and>
     list_all (\<lambda>n. MIN_CONFIDENCE_BPS \<le> n) (approval_confidences votes)"

definition committee_approves :: "EnsembleCandidate \<Rightarrow> MembershipSnapshot \<Rightarrow> GuardianVote list \<Rightarrow> bool" where
  "committee_approves c s votes \<longleftrightarrow>
     is_valid_candidate c \<and> is_valid_snapshot s \<and>
     list_all (\<lambda>m. gm_model_artifact_sha256 m = ec_model_artifact_sha256 c) (ms_members s) \<and>
     complete_ballot c s votes \<and>
     length (ms_members s) < 2 * length (filter approves votes)"

definition tally_of :: "GuardianVote list \<Rightarrow> BallotTally" where
  "tally_of votes =
     \<lparr>bt_approval_confidences_bps = approval_confidences votes,
      bt_rejections = length (filter (\<lambda>v. \<not> approves v) votes)\<rparr>"

subsection \<open>The ballot loop\<close>

lemma approval_confidences_simps [simp]:
  "approval_confidences [] = []"
  "approval_confidences (v # vs) =
     (if approves v then [the_int (gv_confidence_bps v)] else []) @ approval_confidences vs"
  by (simp_all add: approval_confidences_def)

lemma validate_ballot_loop_iff:
  "validate_ballot_loop c s vs seen confs rej = Inr (Inr (seen', t)) \<longleftrightarrow>
     list_all (\<lambda>v. is_valid_vote v c s = Inr True) vs \<and>
     distinct (map gv_guardian_id vs) \<and> set (map gv_guardian_id vs) \<inter> set seen = {} \<and>
     list_all (\<lambda>n. MIN_CONFIDENCE_BPS \<le> n) (approval_confidences vs) \<and>
     seen' = rev (map gv_guardian_id vs) @ seen \<and>
     t = \<lparr>bt_approval_confidences_bps = confs @ approval_confidences vs,
          bt_rejections = rej + length (filter (\<lambda>v. \<not> approves v) vs)\<rparr>"
proof (induction vs arbitrary: seen confs rej)
  case (Cons v vs)
  show ?case
  proof (cases "is_valid_vote v c s = Inr True \<and> gv_guardian_id v \<notin> set seen")
    case True
    then show ?thesis
      by (auto simp: Cons.IH approves_def list_all_iff)
  next
    case False
    then show ?thesis by (cases "is_valid_vote v c s") (auto split: if_splits)
  qed
qed auto

lemma is_valid_snapshot_members:
  assumes "is_valid_snapshot s"
  shows "distinct (map gm_guardian_id (ms_members s))"
    and "MIN_ENSEMBLE_MEMBERS \<le> length (ms_members s)"
    and "list_all is_valid_member (ms_members s)"
    and "sorted (map member_key (ms_members s))"
  using assms
  by (auto simp: is_valid_snapshot_def validated_members_def Let_def split: if_splits sum.splits)
     (metis sorted_sort_key)

lemma validate_ballot_loop_result:
  "validate_ballot votes c s = Inr (Inr t) \<longleftrightarrow>
     length votes = length (ms_members s) \<and>
     (\<exists>seen. validate_ballot_loop c s votes [] [] 0 = Inr (Inr (seen, t)) \<and>
             set seen = set (map gm_guardian_id (ms_members s)))"
proof (cases "validate_ballot_loop c s votes [] [] 0")
  case (Inr r)
  then show ?thesis by (cases r) (auto simp: validate_ballot_def split: if_splits)
qed (simp add: validate_ballot_def)

lemma validate_ballot_iff:
  assumes "is_valid_snapshot s"
  shows "validate_ballot votes c s = Inr (Inr t) \<longleftrightarrow> complete_ballot c s votes \<and> t = tally_of votes"
proof -
  note d = is_valid_snapshot_members(1) [OF assms]
  have ids: "distinct (map gv_guardian_id votes) \<and>
      set (map gv_guardian_id votes) = set (map gm_guardian_id (ms_members s)) \<longleftrightarrow>
      mset (map gv_guardian_id votes) = mset (map gm_guardian_id (ms_members s))"
    using d by (metis mset_eq_setD mset_eq_imp_distinct_iff set_eq_iff_mset_eq_distinct)
  have len: "length votes = length (ms_members s)"
    if "mset (map gv_guardian_id votes) = mset (map gm_guardian_id (ms_members s))"
    using that by (metis length_map size_mset)
  show ?thesis
    unfolding validate_ballot_loop_result validate_ballot_loop_iff complete_ballot_def tally_of_def
    using len ids by auto
qed

lemma evaluate_iff:
  "evaluate c s votes = Inr d \<and> ed_approved d \<longleftrightarrow>
     committee_approves c s votes \<and> d = approved_decision c s (tally_of votes)"
proof (cases "is_valid_candidate c \<and> is_valid_snapshot s \<and>
    list_all (\<lambda>m. gm_model_artifact_sha256 m = ec_model_artifact_sha256 c) (ms_members s)")
  case True
  then have no: "\<not> list_ex (\<lambda>m. gm_model_artifact_sha256 m \<noteq> ec_model_artifact_sha256 c) (ms_members s)"
    by (auto simp: list_ex_iff list_all_iff)
  have ap: "ed_approved (approved_decision c s t)" for t
    by (simp add: approved_decision_def Let_def)
  have "evaluate c s votes = Inr d \<and> ed_approved d \<longleftrightarrow>
      (\<exists>t. validate_ballot votes c s = Inr (Inr t) \<and>
           \<not> length (bt_approval_confidences_bps t) \<le> length (ms_members s) div 2 \<and>
           d = approved_decision c s t)"
  proof (cases "validate_ballot votes c s")
    case (Inr r)
    then show ?thesis using True no ap
      by (cases r) (auto simp: evaluate_def Let_def failed_ballot_def failed_decision_def)
  qed (use True no in \<open>simp add: evaluate_def Let_def\<close>)
  also have "\<dots> \<longleftrightarrow> committee_approves c s votes \<and> d = approved_decision c s (tally_of votes)"
  proof -
    have len: "length (bt_approval_confidences_bps (tally_of votes)) = length (filter approves votes)"
      by (simp add: tally_of_def approval_confidences_def)
    have half: "(\<not> n \<le> m div 2) = (m < 2 * n)" for n m :: nat by linarith
    show ?thesis using True
      by (auto simp: validate_ballot_iff committee_approves_def len half)
  qed
  finally show ?thesis .
next
  case False
  then have "\<not> committee_approves c s votes" by (auto simp: committee_approves_def)
  moreover have "\<not> ed_approved d" if "evaluate c s votes = Inr d"
    using that False
    by (auto simp: evaluate_def Let_def failed_decision_def list_ex_iff list_all_iff split: if_splits)
  ultimately show ?thesis by blast
qed

lemma evaluate_cases:
  assumes "evaluate c s votes = Inr d"
  shows "(ed_approved d \<and> d = approved_decision c s (tally_of votes) \<and> committee_approves c s votes) \<or>
    (\<not> ed_approved d \<and> ar_should_submit (ed_analysis d) = PBool False \<and>
     ar_yara_rule (ed_analysis d) = NoRule \<and> ed_aggregate_confidence_bps d = None)"
proof (cases "ed_approved d")
  case True
  with assms evaluate_iff [of c s votes d] show ?thesis by blast
next
  case False
  show ?thesis
  proof (cases "is_valid_candidate c \<and> is_valid_snapshot s \<and>
      \<not> list_ex (\<lambda>m. gm_model_artifact_sha256 m \<noteq> ec_model_artifact_sha256 c) (ms_members s)")
    case True
    then obtain r where r: "validate_ballot votes c s = Inr r"
      using assms by (cases "validate_ballot votes c s") (auto simp: evaluate_def Let_def)
    show ?thesis using True False assms r
      by (cases r) (auto simp: evaluate_def Let_def failed_ballot_def failed_decision_def
          approved_decision_def split: if_splits)
  next
    case inv: False
    then show ?thesis using False assms
      by (auto simp: evaluate_def Let_def failed_decision_def split: if_splits)
  qed
qed

lemma foldl_min_Min: "foldl min a xs = Min (insert (a::int) (set xs))"
proof (induction xs arbitrary: a)
  case (Cons x xs)
  then show ?case by (cases "xs = []") (simp_all add: Min_insert min.assoc insert_commute)
qed simp

lemma approved_decision_simps:
  "ed_approved (approved_decision c s t)"
  "ed_committee_size (approved_decision c s t) = length (ms_members s)"
  "ed_approvals (approved_decision c s t) = length (bt_approval_confidences_bps t)"
  "ed_rejections (approved_decision c s t) = bt_rejections t"
  "ed_aggregate_confidence_bps (approved_decision c s t) =
     Some (Min (insert (the_int (ec_rule_confidence_bps c)) (set (bt_approval_confidences_bps t))))"
  by (simp_all add: approved_decision_def Let_def foldl_min_Min)

lemma tally_of_simps [simp]:
  "bt_approval_confidences_bps (tally_of votes) = approval_confidences votes"
  "bt_rejections (tally_of votes) = length (filter (\<lambda>v. \<not> approves v) votes)"
  by (simp_all add: tally_of_def)

lemma length_approval_confidences [simp]:
  "length (approval_confidences votes) = length (filter approves votes)"
  by (simp add: approval_confidences_def)

subsection \<open>Order independence\<close>

lemma approval_confidences_mset:
  "mset vs = mset vs' \<Longrightarrow> mset (approval_confidences vs) = mset (approval_confidences vs')"
  by (simp add: approval_confidences_def mset_filter)

lemma committee_approves_mset:
  assumes "mset vs = mset vs'"
  shows "committee_approves c s vs = committee_approves c s vs'"
proof -
  have "set vs = set vs'" using assms by (rule mset_eq_setD)
  moreover have "mset (map gv_guardian_id vs) = mset (map gv_guardian_id vs')"
    using assms by simp
  moreover have "set (approval_confidences vs) = set (approval_confidences vs')"
    using approval_confidences_mset [OF assms] by (rule mset_eq_setD)
  moreover have "length (filter approves vs) = length (filter approves vs')"
    using assms by (metis mset_filter size_mset)
  ultimately show ?thesis
    by (simp add: committee_approves_def complete_ballot_def list_all_iff)
qed

lemma approved_decision_mset:
  assumes "mset vs = mset vs'"
  shows "approved_decision c s (tally_of vs) = approved_decision c s (tally_of vs')"
proof -
  have "set (approval_confidences vs) = set (approval_confidences vs')"
    using approval_confidences_mset [OF assms] by (rule mset_eq_setD)
  moreover have "length (approval_confidences vs) = length (approval_confidences vs')"
    using approval_confidences_mset [OF assms] by (metis size_mset)
  moreover have "length (filter (\<lambda>v. \<not> approves v) vs) = length (filter (\<lambda>v. \<not> approves v) vs')"
    using assms by (metis mset_filter size_mset)
  ultimately show ?thesis
    by (simp add: approved_decision_def tally_of_def foldl_min_Min)
qed

subsection \<open>Created objects are valid\<close>

lemma is_sha256_digest [simp]: "is_sha256 (canonical_digest d p)"
  and is_sha256_content [simp]: "is_sha256 (content_sha256 v)"
  by (simp_all add: is_sha256_def canonical_digest_def content_sha256_def)

lemma sort_key_sorted: "sorted (map f xs) \<Longrightarrow> sort_key f xs = xs"
  by (induction xs) (auto simp: sort_key_simps insort_is_Cons)

lemma sort_key_idem [simp]: "sort_key f (sort_key f xs) = sort_key f xs"
  by (rule sort_key_sorted) simp

lemma validated_members_canonical:
  "validated_members ms = Inr cs \<Longrightarrow> validated_members cs = Inr cs"
  by (auto simp: validated_members_def Let_def list_all_iff split: if_splits)

lemma MembershipSnapshot_create_valid:
  "MembershipSnapshot_create ms src = Inr s \<Longrightarrow> is_valid_snapshot s"
  by (auto simp: MembershipSnapshot_create_def is_valid_snapshot_def validated_members_canonical
      split: if_splits)

lemma validated_members_mset:
  assumes "mset ms = mset ms'"
  shows "validated_members ms = validated_members ms'"
proof -
  have st: "set ms = set ms'" using assms by (rule mset_eq_setD)
  have ln: "length ms = length ms'" using assms by (metis size_mset)
  have ds: "distinct (map gm_guardian_id ms) = distinct (map gm_guardian_id ms')"
    using assms by (metis mset_eq_imp_distinct_iff mset_map)
  have ds_sort: "distinct (map gm_guardian_id (sort_key member_key xs)) = distinct (map gm_guardian_id xs)" for xs
    by (simp add: distinct_map)
  have "sort_key member_key ms = sort_key member_key ms'"
    if "list_all (\<lambda>m. is_str (gm_guardian_id m)) ms" and "distinct (map gm_guardian_id ms)"
  proof (rule sort_key_inj_key_eq)
    show "mset ms = mset (sort_key member_key ms')" using assms by simp
    show "inj_on member_key (set ms)"
      using that by (auto simp: inj_on_def distinct_map member_key_def list_all_iff is_str_iff)
         (metis the_str.simps(1))
  qed simp
  then show ?thesis
    using st ln ds ds_sort by (auto simp: validated_members_def Let_def list_all_iff)
qed

lemma EnsembleCandidate_create_valid:
  "EnsembleCandidate_create rule policy artifact = Inr c \<Longrightarrow> is_valid_candidate c"
  by (auto simp: EnsembleCandidate_create_def is_valid_candidate_def is_safe_rule_def Let_def
      candidate_digest_of_def split: if_splits pynum.splits)

subsection \<open>The snapshot id binds the committee\<close>

lemma member_payload_sort_inj:
  assumes "is_valid_member m" and "is_valid_member m'"
    and "sort_keys (member_payload m) = sort_keys (member_payload m')"
  shows "m = m'"
proof -
  let ?kvs = "\<lambda>m. [(u ''guardian_id'', gm_guardian_id m),
    (u ''model_artifact_sha256'', gm_model_artifact_sha256 m), (u ''model_tier'', gm_model_tier m)]"
  have eq: "sort_keys (PDict (?kvs m)) = sort_keys (PDict (?kvs m'))"
    using assms(3) by (simp only: member_payload_def)
  have "sort_keys (gm_guardian_id m) = sort_keys (gm_guardian_id m')"
    by (rule sort_keys_dict_at [OF eq, where k = "''guardian_id''"]) simp_all
  moreover have "sort_keys (gm_model_artifact_sha256 m) = sort_keys (gm_model_artifact_sha256 m')"
    by (rule sort_keys_dict_at [OF eq, where k = "''model_artifact_sha256''"]) simp_all
  ultimately show ?thesis using assms(1,2)
    by (cases m; cases m') (auto simp: is_valid_member_def is_sha256_def dest!: hex_plain)
qed

definition snapshot_payload_of :: "MembershipSnapshot \<Rightarrow> pyval" where
  "snapshot_payload_of s =
     snapshot_payload (ms_protocol_version s) (ms_membership_source_sha256 s) (ms_members s)"

lemma valid_snapshot_id:
  "is_valid_snapshot s \<Longrightarrow> ms_snapshot_id s = canonical_digest SNAPSHOT_DOMAIN (snapshot_payload_of s)"
  by (auto simp: is_valid_snapshot_def snapshot_payload_of_def split: sum.splits)

lemma member_payload_plain: "is_valid_member m \<Longrightarrow> json_plain (member_payload m)"
  by (auto simp: is_valid_member_def is_sha256_def member_payload_def dest!: hex_plain)

lemma one_plain [simp]: "json_plain (PInt ENSEMBLE_PROTOCOL_VERSION)"
  by (rule int_plain) (simp add: ENSEMBLE_PROTOCOL_VERSION_def)

lemma snapshot_payload_plain:
  assumes "is_valid_snapshot s"
  shows "json_plain (snapshot_payload_of s)"
proof -
  have "\<forall>m \<in> set (ms_members s). json_plain (member_payload m)"
    using is_valid_snapshot_members(3) [OF assms] by (auto simp: list_all_iff intro: member_payload_plain)
  moreover have "json_plain (ms_membership_source_sha256 s)"
    using assms hex_plain by (auto simp: is_valid_snapshot_def is_sha256_def)
  moreover have "json_plain (ms_protocol_version s)"
    using assms one_plain by (simp add: is_valid_snapshot_def del: json_plain.simps)
  ultimately show ?thesis
    by (simp add: snapshot_payload_of_def snapshot_payload_def json_plain_list_iff)
qed

lemma map_sort_inj:
  assumes "map (\<lambda>m. sort_keys (member_payload m)) xs = map (\<lambda>m. sort_keys (member_payload m)) ys"
    and "list_all is_valid_member xs" and "list_all is_valid_member ys"
  shows "xs = ys"
  using assms
proof (induction xs arbitrary: ys)
  case (Cons x xs)
  then show ?case by (cases ys) (auto intro: member_payload_sort_inj)
qed simp

lemma snapshot_payload_inj:
  assumes "is_valid_snapshot s" and "is_valid_snapshot t"
    and "sort_keys (snapshot_payload_of s) = sort_keys (snapshot_payload_of t)"
  shows "s = t"
proof -
  let ?kvs = "\<lambda>s. [(u ''members'', PList (map member_payload (ms_members s))),
    (u ''membership_source_sha256'', ms_membership_source_sha256 s),
    (u ''protocol_version'', ms_protocol_version s)]"
  have eq: "sort_keys (PDict (?kvs s)) = sort_keys (PDict (?kvs t))"
    using assms(3) by (simp only: snapshot_payload_of_def snapshot_payload_def)
  have "sort_keys (PList (map member_payload (ms_members s))) =
        sort_keys (PList (map member_payload (ms_members t)))"
    by (rule sort_keys_dict_at [OF eq, where k = "''members''"]) simp_all
  then have "ms_members s = ms_members t"
    using is_valid_snapshot_members(3) assms(1,2)
    by (intro map_sort_inj) (simp_all add: sort_keys_list_map comp_def)
  moreover have "sort_keys (ms_membership_source_sha256 s) = sort_keys (ms_membership_source_sha256 t)"
    by (rule sort_keys_dict_at [OF eq, where k = "''membership_source_sha256''"]) simp_all
  then have "ms_membership_source_sha256 s = ms_membership_source_sha256 t"
    using assms(1,2) by (auto simp: is_valid_snapshot_def is_sha256_def dest!: hex_plain)
  moreover have "ms_protocol_version s = ms_protocol_version t"
    using assms(1,2) by (simp add: is_valid_snapshot_def)
  moreover have "ms_snapshot_id s = ms_snapshot_id t"
    using calculation valid_snapshot_id [OF assms(1)] valid_snapshot_id [OF assms(2)]
    by (simp add: snapshot_payload_of_def)
  ultimately show ?thesis by (cases s; cases t) simp
qed

interpretation snap: json_commitment snapshot_payload_of is_valid_snapshot
  by unfold_locales (simp_all add: snapshot_payload_plain snapshot_payload_inj)

subsection \<open>A concrete committee\<close>

text \<open>Five members, one candidate and the votes used by the witnesses.\<close>

definition hexid :: "nat \<Rightarrow> pyval" where
  "hexid n = PStr (replicate 64 (97 + n mod 6))"

definition ex_member :: "nat \<Rightarrow> GuardianMember" where
  "ex_member n = \<lparr>gm_guardian_id = hexid n, gm_model_tier = plit ''8b'', gm_model_artifact_sha256 = hexid 0\<rparr>"

definition ex_members :: "GuardianMember list" where
  "ex_members = map ex_member [0, 1, 2, 3, 4]"

definition ex_snapshot :: MembershipSnapshot where
  "ex_snapshot =
     \<lparr>ms_protocol_version = PInt ENSEMBLE_PROTOCOL_VERSION, ms_membership_source_sha256 = hexid 5,
      ms_members = ex_members,
      ms_snapshot_id = canonical_digest SNAPSHOT_DOMAIN
        (snapshot_payload (PInt ENSEMBLE_PROTOCOL_VERSION) (hexid 5) ex_members)\<rparr>"

definition ex_rule :: YaraRule where
  "ex_rule =
     \<lparr>yr_name = plit ''R'', yr_rule_content = plit ''rule R { strings: condition: }'',
      yr_confidence_bps = NumInt 9000, yr_threat_hash = hexid 1, yr_generated_at = PInt 7\<rparr>"

definition ex_candidate :: EnsembleCandidate where
  "ex_candidate = projr (EnsembleCandidate_create ex_rule (hexid 2) (hexid 0))"

definition ex_vote :: "nat \<Rightarrow> bool \<Rightarrow> GuardianVote" where
  "ex_vote n ok =
     \<lparr>gv_guardian_id = hexid n, gv_membership_snapshot_id = ms_snapshot_id ex_snapshot,
      gv_candidate_digest = ec_candidate_digest ex_candidate,
      gv_decision = plit (if ok then ''approve'' else ''reject''), gv_confidence_bps = PInt 8600,
      gv_model_tier = plit ''8b'', gv_model_artifact_sha256 = hexid 0, gv_protocol_version = PInt 1\<rparr>"

definition ex_votes :: "GuardianVote list" where
  "ex_votes = [ex_vote 0 True, ex_vote 1 True, ex_vote 2 True, ex_vote 3 False, ex_vote 4 False]"

lemma hexid_sha [simp]: "is_sha256 (hexid n)"
  by (simp add: is_sha256_def hexid_def is_lower_hex_def list_all_iff is_hex_char_def)

lemma hexid_eq [simp]: "m < 6 \<Longrightarrow> n < 6 \<Longrightarrow> hexid m = hexid n \<longleftrightarrow> m = n"
  by (simp add: hexid_def replicate_eq_replicate)

lemma replicate_le: "a \<le> b \<Longrightarrow> replicate n a \<le> replicate n (b::nat)"
  by (induction n) auto

lemma ex_members_validated: "validated_members ex_members = Inr ex_members"
proof -
  have "sorted (map member_key ex_members)"
    by (simp add: ex_members_def ex_member_def member_key_def hexid_def replicate_le)
  then have "sort_key member_key ex_members = ex_members" by (rule sort_key_sorted)
  then show ?thesis
    by (simp add: validated_members_def ex_members_def ex_member_def is_valid_member_def
        MIN_ENSEMBLE_MEMBERS_def, simp add: hexid_def)
qed

lemma ex_snapshot_created: "MembershipSnapshot_create ex_members (hexid 5) = Inr ex_snapshot"
  by (simp add: MembershipSnapshot_create_def ex_members_validated ex_snapshot_def)

lemma ex_rule_safe: "is_safe_rule ex_rule"
proof -
  let ?c = "u ''rule R { strings: condition: }''"
  have "is_ascii ?c" by (simp add: u_def)
  then have "utf8_encode ?c = Some (ascii_bytes ?c)" by (rule utf8_encode_ascii)
  moreover have "contains (u ''rule '' @ u ''R'') ?c" "contains (u ''strings:'') ?c" "contains (u ''condition:'') ?c"
    by (simp_all add: u_def)
  ultimately show ?thesis
    by (simp add: is_safe_rule_def ex_rule_def is_rule_name.simps)
       (simp add: u_def is_identifier_start_def)
qed

lemma ex_candidate_created: "EnsembleCandidate_create ex_rule (hexid 2) (hexid 0) = Inr ex_candidate"
  using ex_rule_safe
  by (simp add: ex_candidate_def EnsembleCandidate_create_def Let_def)
     (simp add: ex_rule_def MIN_CONFIDENCE_BPS_def)

lemmas ex_valid =
  MembershipSnapshot_create_valid [OF ex_snapshot_created]
  EnsembleCandidate_create_valid [OF ex_candidate_created]

lemma EnsembleCandidate_create_artifact:
  "EnsembleCandidate_create rule policy artifact = Inr c \<Longrightarrow> ec_model_artifact_sha256 c = artifact"
  by (auto simp: EnsembleCandidate_create_def Let_def split: if_splits)

lemmas ex_candidate_artifact = EnsembleCandidate_create_artifact [OF ex_candidate_created]

lemma ex_vote_valid: "n < 5 \<Longrightarrow> is_valid_vote (ex_vote n ok) ex_candidate ex_snapshot = Inr True"
proof -
  assume n: "n < 5"
  have "find (\<lambda>m. gm_guardian_id m = hexid n) ex_members = Some (ex_member n)"
    using n by (auto simp: ex_members_def ex_member_def numeral_eq_Suc less_Suc_eq)
  moreover have "py_hashable (hexid n)" by (simp add: hexid_def)
  ultimately show ?thesis
    by (simp add: is_valid_vote_def members_by_id_get_def ex_vote_def ex_snapshot_def vote_bound_def
        ex_member_def ex_candidate_artifact ENSEMBLE_PROTOCOL_VERSION_def)
qed

lemma ex_committee_approves: "committee_approves ex_candidate ex_snapshot ex_votes"
proof -
  have ap: "approves (ex_vote n ok) = ok" for n ok
    by (simp add: approves_def ex_vote_def)
  have "mset (map gv_guardian_id ex_votes) = mset (map gm_guardian_id (ms_members ex_snapshot))"
    by (simp add: ex_votes_def ex_vote_def ex_snapshot_def ex_members_def ex_member_def)
  moreover have "list_all (\<lambda>v. is_valid_vote v ex_candidate ex_snapshot = Inr True) ex_votes"
    by (simp add: ex_votes_def ex_vote_valid)
  moreover have "list_all (\<lambda>n. MIN_CONFIDENCE_BPS \<le> n) (approval_confidences ex_votes)"
    by (simp add: ex_votes_def ap, simp add: ex_vote_def MIN_CONFIDENCE_BPS_def)
  moreover have "list_all (\<lambda>m. gm_model_artifact_sha256 m = ec_model_artifact_sha256 ex_candidate) ex_members"
    by (simp add: ex_candidate_artifact ex_members_def ex_member_def)
  ultimately show ?thesis using ex_valid
    by (simp add: committee_approves_def complete_ballot_def ex_snapshot_def)
       (simp add: ex_votes_def ap ex_members_def)
qed

lemma ex_evaluate:
  "evaluate ex_candidate ex_snapshot ex_votes =
     Inr (approved_decision ex_candidate ex_snapshot (tally_of ex_votes))"
  using ex_committee_approves
    evaluate_iff [of ex_candidate ex_snapshot ex_votes "approved_decision ex_candidate ex_snapshot (tally_of ex_votes)"]
  by simp

subsection \<open>Properties\<close>

text \<open>C3. The ballot evaluation of \<open>EnsembleVoter.evaluate\<close> implements the committee rule: it approves
  exactly when the candidate, the snapshot and all votes are valid and bound to each other, every
  member votes once, every approval reaches the policy confidence and more than half approve; the
  decision it then returns is the tally of the ballot.\<close>

theorem evaluate_implements_committee_rule:
  "(evaluate c s votes = Inr d \<and> ed_approved d) \<longleftrightarrow>
   (committee_approves c s votes \<and> d = approved_decision c s (tally_of votes))"
  by (rule evaluate_iff)

text \<open>C17. An approved decision rests on a complete ballot of a committee of at least five: approvals
  and rejections add up to the committee, approvals are a strict majority, and the aggregate
  confidence is the least of the rule's and the approvers' confidences and within 8500..10000.\<close>

theorem approved_decision_quorum:
  assumes "evaluate c s votes = Inr d" and "ed_approved d"
  shows "5 \<le> ed_committee_size d \<and> ed_committee_size d = length votes \<and>
    distinct (map gv_guardian_id votes) \<and>
    ed_approvals d + ed_rejections d = ed_committee_size d \<and>
    ed_committee_size d < 2 * ed_approvals d \<and>
    (\<exists>a. ed_aggregate_confidence_bps d = Some a \<and> 8500 \<le> a \<and> a \<le> 10000 \<and>
         a = Min (insert (the_int (ec_rule_confidence_bps c)) (set (approval_confidences votes))))"
proof -
  have ca: "committee_approves c s votes" and d: "d = approved_decision c s (tally_of votes)"
    using assms evaluate_iff [of c s votes d] by auto
  note m = is_valid_snapshot_members
  have s: "is_valid_snapshot s" and c: "is_valid_candidate c" and b: "complete_ballot c s votes"
    using ca by (auto simp: committee_approves_def)
  have ids: "mset (map gv_guardian_id votes) = mset (map gm_guardian_id (ms_members s))"
    and confs: "\<forall>n \<in> set (approval_confidences votes). MIN_CONFIDENCE_BPS \<le> n"
    using b by (auto simp: complete_ballot_def list_all_iff)
  have len: "length votes = length (ms_members s)" using ids by (metis length_map size_mset)
  have dist: "distinct (map gv_guardian_id votes)"
    using ids m(1) [OF s] by (metis mset_eq_imp_distinct_iff)
  have rc: "int_in MIN_CONFIDENCE_BPS 10000 (ec_rule_confidence_bps c)"
    using c by (simp add: is_valid_candidate_def)
  let ?a = "Min (insert (the_int (ec_rule_confidence_bps c)) (set (approval_confidences votes)))"
  have "MIN_CONFIDENCE_BPS \<le> ?a" using confs rc by (auto simp: int_in_iff)
  moreover have "?a \<le> 10000"
  proof -
    have "?a \<le> the_int (ec_rule_confidence_bps c)" by simp
    also have "\<dots> \<le> 10000" using rc by (auto simp: int_in_iff)
    finally show ?thesis .
  qed
  moreover have "length (filter approves votes) + length (filter (\<lambda>v. \<not> approves v) votes) = length votes"
    by (rule sum_length_filter_compl)
  ultimately show ?thesis
    using ca len dist m(2) [OF s]
    by (simp add: d approved_decision_simps committee_approves_def MIN_CONFIDENCE_BPS_def
        MIN_ENSEMBLE_MEMBERS_def del: Min_le_iff Min_ge_iff)
qed

theorem approved_decision_quorum_witness:
  "\<exists>d. evaluate ex_candidate ex_snapshot ex_votes = Inr d \<and> ed_approved d \<and>
     ed_committee_size d < 2 * ed_approvals d"
proof -
  have "ed_approved (approved_decision ex_candidate ex_snapshot (tally_of ex_votes))"
    by (simp add: approved_decision_def Let_def)
  with ex_evaluate approved_decision_quorum [OF ex_evaluate this] show ?thesis by blast
qed

text \<open>The decision does not depend on the order in which the votes arrive: if a ballot is approved,
  every permutation of it is approved with the same decision.\<close>

lemma evaluate_order_independent:
  assumes "evaluate c s votes = Inr d" and "ed_approved d" and "mset votes' = mset votes"
  shows "evaluate c s votes' = Inr d"
  using assms evaluate_iff [of c s votes d] evaluate_iff [of c s votes' d]
    committee_approves_mset [OF assms(3)] approved_decision_mset [OF assms(3)] by simp

text \<open>The evaluation fails closed: a decision is submittable exactly when it is approved, a
  decision that is not approved carries no rule and no aggregate confidence, and an approved one
  carries the candidate's own rule and passes the router's safety check.\<close>

lemma evaluate_fails_closed:
  assumes "evaluate c s votes = Inr d"
  shows "ar_should_submit (ed_analysis d) = PBool (ed_approved d) \<and>
    (\<not> ed_approved d \<longrightarrow> ar_yara_rule (ed_analysis d) = NoRule \<and> ed_aggregate_confidence_bps d = None) \<and>
    (ed_approved d \<longrightarrow>
       (\<exists>rule. ar_yara_rule (ed_analysis d) = Rule rule \<and> yr_rule_content rule = ec_rule_content c \<and>
               yr_threat_hash rule = ec_threat_hash c) \<and>
       is_safe_analysis (Some (ed_analysis d)) (ec_threat_hash c) = Inr True)"
proof (cases "ed_approved d")
  case True
  then have ca: "committee_approves c s votes" and d: "d = approved_decision c s (tally_of votes)"
    using assms evaluate_iff [of c s votes d] by auto
  let ?a = "foldl min (the_int (ec_rule_confidence_bps c)) (approval_confidences votes)"
  have rc: "int_in MIN_CONFIDENCE_BPS 10000 (ec_rule_confidence_bps c)"
    and confs: "\<forall>n \<in> set (approval_confidences votes). MIN_CONFIDENCE_BPS \<le> n"
    using ca by (auto simp: committee_approves_def is_valid_candidate_def complete_ballot_def list_all_iff)
  have lo: "MIN_CONFIDENCE_BPS \<le> ?a" and hi: "?a \<le> the_int (ec_rule_confidence_bps c)"
    using rc confs by (auto simp: foldl_min_Min int_in_iff)
  have hi': "?a \<le> 10000" using hi rc by (auto simp: int_in_iff)
  have "0 \<le> ?a" using lo by (simp add: MIN_CONFIDENCE_BPS_def)
  note unit = confidence_quotient_unit [OF this hi']
  have "is_safe_analysis (Some (ed_analysis d)) (ec_threat_hash c) = Inr True"
    using min_confidence_reached [OF lo hi'] unit
    by (simp add: d approved_decision_def tally_of_def Let_def is_safe_analysis_def
        is_safe_rule_attr_def yr_confidence_def float_of_rat_unit round_double_unit)
  with True show ?thesis
    by (simp add: d approved_decision_def Let_def)
next
  case False
  with evaluate_cases [OF assms] show ?thesis by auto
qed

text \<open>\<open>MembershipSnapshot.create\<close> yields a snapshot the verifier accepts, and the same snapshot,
  id included, for every order in which the members are supplied.\<close>

lemma snapshot_create_canonical:
  assumes "MembershipSnapshot_create members source = Inr s"
  shows "is_valid_snapshot s \<and>
    (mset members' = mset members \<longrightarrow> MembershipSnapshot_create members' source = Inr s)"
  using assms MembershipSnapshot_create_valid [OF assms] validated_members_mset [of members' members]
  by (simp add: MembershipSnapshot_create_def)

text \<open>The snapshot id binds the committee: two valid snapshots with the same id are the same
  snapshot, or their canonical preimages are a SHA-256 collision.\<close>

lemma snapshot_id_binding:
  assumes "is_valid_snapshot s" and "is_valid_snapshot t" and "ms_snapshot_id s = ms_snapshot_id t"
  shows "s = t \<or> sha256_collision (digest_preimage SNAPSHOT_DOMAIN (snapshot_payload_of s))
                                  (digest_preimage SNAPSHOT_DOMAIN (snapshot_payload_of t))"
  using snap.binding [OF assms(1,2)] assms(3)
  by (simp add: valid_snapshot_id [OF assms(1)] valid_snapshot_id [OF assms(2)])

end
