(* ===== verification/Signed_Ballots.thy ===== *)
theory Signed_Ballots
  imports Ensemble
begin

text \<open>
  Model of \<open>jaeger/signed_ballots.py\<close>: committed ballot sessions, signing requests, the canonical
  ballot wire format, the public verifier, the replay ledger and the authenticated collector.

  BIP340 verification is done by the third-party package \<open>coincurve\<close>; it is the parameter \<open>bip340\<close>.
  The SQLite ledger is a record of its two tables: the rows of \<open>accepted_ballots\<close> and the
  \<open>high_water_ms\<close> of \<open>ledger_state\<close>. Each operation runs in one \<open>BEGIN IMMEDIATE\<close> transaction that
  rolls back when an exception leaves the block, so an operation that raises leaves the record as it
  was; it returns only the exception. File-system checks on the ledger path are not modelled.
\<close>

definition SIGNED_BALLOT_PROTOCOL_VERSION :: int where
  "SIGNED_BALLOT_PROTOCOL_VERSION = 1"

definition MAX_BALLOT_WIRE_BYTES :: nat where
  "MAX_BALLOT_WIRE_BYTES = 8192"

definition MAX_BALLOT_LIFETIME_MS :: int where
  "MAX_BALLOT_LIFETIME_MS = 120000"

definition MAX_SESSION_LIFETIME_MS :: int where
  "MAX_SESSION_LIFETIME_MS = 900000"

definition MAX_CLOCK_SKEW_MS :: int where
  "MAX_CLOCK_SKEW_MS = 30000"

definition MAX_SQLITE_INT :: int where
  "MAX_SQLITE_INT = 2 ^ 63 - 1"

definition SESSION_DOMAIN :: bytes where
  "SESSION_DOMAIN = ascii_bytes (u ''PROMETHEUS_GUARDIAN_BALLOT_SESSION_V1'')"

definition BALLOT_DOMAIN :: bytes where
  "BALLOT_DOMAIN = ascii_bytes (u ''PROMETHEUS_GUARDIAN_SIGNED_BALLOT_V1'')"

text \<open>
  \<open>BallotTransportError\<close> is the base class of the three ballot errors.
\<close>

definition is_transport_error :: "pyexc \<Rightarrow> bool" where
  "is_transport_error e \<longleftrightarrow> e \<in> {BallotFormatError, BallotVerificationError, BallotReplayError}"

text \<open>
  \<open>PublicKeyXOnly(data)\<close> succeeds or raises \<open>ValueError\<close>; \<open>.verify(signature, message)\<close> returns a
  bool or raises \<open>ValueError\<close> (\<open>None\<close>).
\<close>

record bip340 =
  xonly_parses :: "bytes \<Rightarrow> bool"
  xonly_verify :: "bytes \<Rightarrow> bytes \<Rightarrow> bytes \<Rightarrow> bool option"

text \<open>\<open>PublicKeyXOnly(key).verify(signature, digest)\<close>, where \<open>None\<close> is \<open>ValueError\<close>.\<close>

definition schnorr_verify :: "bip340 \<Rightarrow> bytes \<Rightarrow> bytes \<Rightarrow> bytes \<Rightarrow> bool option" where
  "schnorr_verify B key signature digest =
     (if xonly_parses B key then xonly_verify B key signature digest else None)"

subsection \<open>Data\<close>

record BallotSigner =
  sg_guardian_id :: pyval
  sg_xonly_public_key :: pyval

record BallotSession =
  se_protocol_version :: pyval
  se_network_id :: pyval
  se_membership_snapshot_id :: pyval
  se_candidate_digest :: pyval
  se_session_nonce :: pyval
  se_valid_from_ms :: pyval
  se_valid_until_ms :: pyval
  se_signers :: "BallotSigner list"
  se_session_id :: pyval

text \<open>A signed ballot has the fields of its signing request and the signature.\<close>

record BallotSigningRequest =
  sb_protocol_version :: pyval
  sb_vote_protocol_version :: pyval
  sb_session_id :: pyval
  sb_network_id :: pyval
  sb_guardian_id :: pyval
  sb_membership_snapshot_id :: pyval
  sb_candidate_digest :: pyval
  sb_decision :: pyval
  sb_confidence_bps :: pyval
  sb_model_tier :: pyval
  sb_model_artifact_sha256 :: pyval
  sb_nonce :: pyval
  sb_issued_at_ms :: pyval
  sb_expires_at_ms :: pyval
  sb_payload_digest :: pyval

record SignedGuardianBallot = BallotSigningRequest +
  sb_signature :: pyval

subsection \<open>Field predicates\<close>

definition is_timestamp :: "pyval \<Rightarrow> bool" where
  "is_timestamp v = int_in 0 MAX_SQLITE_INT v"

definition is_hex_32 :: "pyval \<Rightarrow> bool" where
  "is_hex_32 v = is_hex_val 64 v"

definition is_hex_64 :: "pyval \<Rightarrow> bool" where
  "is_hex_64 v = is_hex_val 128 v"

text \<open>\<open>(?:mainnet|testnet-[0-9]{1,3})\<close>\<close>

fun is_network_id :: "pyval \<Rightarrow> bool" where
  "is_network_id (PStr s) =
     (s = u ''mainnet'' \<or>
      (has_prefix (u ''testnet-'') s \<and> 9 \<le> length s \<and> length s \<le> 11 \<and> list_all is_digit (drop 8 s)))"
| "is_network_id _ = False"

definition is_valid_signer :: "bip340 \<Rightarrow> BallotSigner \<Rightarrow> bool" where
  "is_valid_signer B sg \<longleftrightarrow>
     is_hex_32 (sg_guardian_id sg) \<and> is_hex_32 (sg_xonly_public_key sg) \<and>
     xonly_parses B (bytes_fromhex (the_str (sg_xonly_public_key sg)))"

definition validate_session_window :: "pyval \<Rightarrow> pyval \<Rightarrow> pyexc + unit" where
  "validate_session_window valid_from valid_until =
     (if \<not> is_timestamp valid_from \<or> \<not> is_timestamp valid_until then Inl BallotFormatError
      else let lifetime = the_int valid_until - the_int valid_from
           in raise_if (\<not> (0 < lifetime \<and> lifetime \<le> MAX_SESSION_LIFETIME_MS)) BallotFormatError)"

definition validate_ballot_window :: "BallotSession \<Rightarrow> pyval \<Rightarrow> pyval \<Rightarrow> pyexc + unit" where
  "validate_ballot_window ses issued expires =
     (if \<not> is_timestamp issued \<or> \<not> is_timestamp expires then Inl BallotFormatError
      else let lifetime = the_int expires - the_int issued
           in raise_if (the_int issued < the_int (se_valid_from_ms ses) \<or>
                        the_int (se_valid_until_ms ses) < the_int expires \<or>
                        \<not> (0 < lifetime \<and> lifetime \<le> MAX_BALLOT_LIFETIME_MS)) BallotFormatError)"

definition signer_key :: "BallotSigner \<Rightarrow> pystr" where
  "signer_key sg = the_str (sg_guardian_id sg)"

text \<open>
  \<open>_validated_signers\<close>. As for members, ids that are not all text fail to sort or fail the field
  check, both with \<open>BallotFormatError\<close>.
\<close>

definition validated_signers ::
  "bip340 \<Rightarrow> BallotSigner list \<Rightarrow> MembershipSnapshot \<Rightarrow> pyexc + BallotSigner list" where
  "validated_signers B signers s =
     (if \<not> list_all (\<lambda>sg. is_str (sg_guardian_id sg)) signers then Inl BallotFormatError
      else let canonical = sort_key signer_key signers in
        if canonical = [] \<or> \<not> list_all (is_valid_signer B) canonical then Inl BallotFormatError
        else if \<not> distinct (map sg_guardian_id canonical) \<or>
                \<not> distinct (map sg_xonly_public_key canonical) then Inl BallotFormatError
        else if set (map sg_guardian_id canonical) \<noteq> set (map gm_guardian_id (ms_members s))
        then Inl BallotFormatError
        else Inr canonical)"

subsection \<open>Payloads\<close>

definition signer_payload :: "BallotSigner \<Rightarrow> pyval" where
  "signer_payload sg =
     PDict [(u ''guardian_id'', sg_guardian_id sg), (u ''xonly_public_key'', sg_xonly_public_key sg)]"

definition session_payload :: "BallotSession \<Rightarrow> pyval" where
  "session_payload ses =
     PDict [(u ''candidate_digest'', se_candidate_digest ses),
            (u ''membership_snapshot_id'', se_membership_snapshot_id ses),
            (u ''network_id'', se_network_id ses),
            (u ''protocol_version'', se_protocol_version ses),
            (u ''session_nonce'', se_session_nonce ses),
            (u ''signers'', PList (map signer_payload (se_signers ses))),
            (u ''valid_from_ms'', se_valid_from_ms ses),
            (u ''valid_until_ms'', se_valid_until_ms ses)]"

definition ballot_payload :: "'a BallotSigningRequest_scheme \<Rightarrow> pyval" where
  "ballot_payload b =
     PDict [(u ''candidate_digest'', sb_candidate_digest b),
            (u ''confidence_bps'', sb_confidence_bps b),
            (u ''decision'', sb_decision b),
            (u ''expires_at_ms'', sb_expires_at_ms b),
            (u ''guardian_id'', sb_guardian_id b),
            (u ''issued_at_ms'', sb_issued_at_ms b),
            (u ''membership_snapshot_id'', sb_membership_snapshot_id b),
            (u ''model_artifact_sha256'', sb_model_artifact_sha256 b),
            (u ''model_tier'', sb_model_tier b),
            (u ''network_id'', sb_network_id b),
            (u ''nonce'', sb_nonce b),
            (u ''protocol_version'', sb_protocol_version b),
            (u ''session_id'', sb_session_id b),
            (u ''vote_protocol_version'', sb_vote_protocol_version b)]"

subsection \<open>Sessions\<close>

definition is_valid_session_shape :: "bip340 \<Rightarrow> BallotSession \<Rightarrow> bool" where
  "is_valid_session_shape B ses \<longleftrightarrow>
     se_protocol_version ses = PInt SIGNED_BALLOT_PROTOCOL_VERSION \<and>
     is_network_id (se_network_id ses) \<and>
     is_hex_32 (se_membership_snapshot_id ses) \<and> is_hex_32 (se_candidate_digest ses) \<and>
     is_hex_32 (se_session_nonce ses) \<and>
     is_timestamp (se_valid_from_ms ses) \<and> is_timestamp (se_valid_until_ms ses) \<and>
     se_signers ses \<noteq> [] \<and> list_all (is_valid_signer B) (se_signers ses) \<and>
     is_hex_32 (se_session_id ses) \<and>
     validate_session_window (se_valid_from_ms ses) (se_valid_until_ms ses) = Inr () \<and>
     se_session_id ses = canonical_digest SESSION_DOMAIN (session_payload ses)"

definition is_valid_session ::
  "bip340 \<Rightarrow> BallotSession \<Rightarrow> EnsembleCandidate \<Rightarrow> MembershipSnapshot \<Rightarrow> bool" where
  "is_valid_session B ses c s \<longleftrightarrow>
     is_valid_session_shape B ses \<and>
     se_membership_snapshot_id ses = ms_snapshot_id s \<and>
     se_candidate_digest ses = ec_candidate_digest c \<and>
     is_valid_candidate c \<and> is_valid_snapshot s \<and>
     validated_signers B (se_signers ses) s = Inr (se_signers ses)"

definition BallotSession_create ::
  "bip340 \<Rightarrow> EnsembleCandidate \<Rightarrow> MembershipSnapshot \<Rightarrow> BallotSigner list \<Rightarrow> pyval \<Rightarrow> pyval \<Rightarrow>
     pyval \<Rightarrow> pyval \<Rightarrow> pyexc + BallotSession" where
  "BallotSession_create B c s signers network_id session_nonce valid_from valid_until =
     (if \<not> is_valid_candidate c then Inl BallotFormatError
      else if \<not> is_valid_snapshot s then Inl BallotFormatError
      else rbind (validated_signers B signers s) (\<lambda>canonical.
        rbind (validate_session_window valid_from valid_until) (\<lambda>_.
        if \<not> is_network_id network_id then Inl BallotFormatError
        else if \<not> is_hex_32 session_nonce then Inl BallotFormatError
        else let ses = \<lparr>se_protocol_version = PInt SIGNED_BALLOT_PROTOCOL_VERSION,
                        se_network_id = network_id,
                        se_membership_snapshot_id = ms_snapshot_id s,
                        se_candidate_digest = ec_candidate_digest c,
                        se_session_nonce = session_nonce,
                        se_valid_from_ms = valid_from, se_valid_until_ms = valid_until,
                        se_signers = canonical, se_session_id = PNone\<rparr>
             in Inr (ses\<lparr>se_session_id := canonical_digest SESSION_DOMAIN (session_payload ses)\<rparr>))))"

subsection \<open>Ballots\<close>

definition BallotSigningRequest_create ::
  "bip340 \<Rightarrow> GuardianVote \<Rightarrow> EnsembleCandidate \<Rightarrow> MembershipSnapshot \<Rightarrow> BallotSession \<Rightarrow> pyval \<Rightarrow>
     pyval \<Rightarrow> pyval \<Rightarrow> pyexc + BallotSigningRequest" where
  "BallotSigningRequest_create B v c s ses nonce issued expires =
     (if \<not> is_valid_session B ses c s then Inl BallotFormatError
      else rbind (is_valid_guardian_vote v c s) (\<lambda>ok.
        if \<not> ok then Inl BallotFormatError
        else if \<not> is_hex_32 nonce then Inl BallotFormatError
        else rbind (validate_ballot_window ses issued expires) (\<lambda>_.
          let r = \<lparr>sb_protocol_version = PInt SIGNED_BALLOT_PROTOCOL_VERSION,
                   sb_vote_protocol_version = gv_protocol_version v,
                   sb_session_id = se_session_id ses, sb_network_id = se_network_id ses,
                   sb_guardian_id = gv_guardian_id v,
                   sb_membership_snapshot_id = gv_membership_snapshot_id v,
                   sb_candidate_digest = gv_candidate_digest v,
                   sb_decision = gv_decision v, sb_confidence_bps = gv_confidence_bps v,
                   sb_model_tier = gv_model_tier v,
                   sb_model_artifact_sha256 = gv_model_artifact_sha256 v,
                   sb_nonce = nonce, sb_issued_at_ms = issued, sb_expires_at_ms = expires,
                   sb_payload_digest = PNone\<rparr>
          in Inr (r\<lparr>sb_payload_digest := canonical_digest BALLOT_DOMAIN (ballot_payload r)\<rparr>))))"

definition attach_signature :: "BallotSigningRequest \<Rightarrow> pyval \<Rightarrow> pyexc + SignedGuardianBallot" where
  "attach_signature r signature =
     (if \<not> is_hex_64 signature then Inl BallotFormatError
      else Inr (BallotSigningRequest.extend r (SignedGuardianBallot.fields signature)))"

text \<open>\<open>asdict(self)\<close>, in the order of the dataclass fields.\<close>

definition ballot_dict :: "SignedGuardianBallot \<Rightarrow> pyval" where
  "ballot_dict b =
     PDict [(u ''protocol_version'', sb_protocol_version b),
            (u ''vote_protocol_version'', sb_vote_protocol_version b),
            (u ''session_id'', sb_session_id b),
            (u ''network_id'', sb_network_id b),
            (u ''guardian_id'', sb_guardian_id b),
            (u ''membership_snapshot_id'', sb_membership_snapshot_id b),
            (u ''candidate_digest'', sb_candidate_digest b),
            (u ''decision'', sb_decision b),
            (u ''confidence_bps'', sb_confidence_bps b),
            (u ''model_tier'', sb_model_tier b),
            (u ''model_artifact_sha256'', sb_model_artifact_sha256 b),
            (u ''nonce'', sb_nonce b),
            (u ''issued_at_ms'', sb_issued_at_ms b),
            (u ''expires_at_ms'', sb_expires_at_ms b),
            (u ''payload_digest'', sb_payload_digest b),
            (u ''signature'', sb_signature b)]"

definition ballot_fields :: "string list" where
  "ballot_fields =
     [''protocol_version'', ''vote_protocol_version'', ''session_id'', ''network_id'',
      ''guardian_id'', ''membership_snapshot_id'', ''candidate_digest'', ''decision'',
      ''confidence_bps'', ''model_tier'', ''model_artifact_sha256'', ''nonce'',
      ''issued_at_ms'', ''expires_at_ms'', ''payload_digest'', ''signature'']"

definition to_wire :: "SignedGuardianBallot \<Rightarrow> bytes" where
  "to_wire b = canonical_json (ballot_dict b)"

text \<open>\<open>cls(**decoded)\<close>\<close>

definition ballot_of_dict :: "(pystr \<times> pyval) list \<Rightarrow> SignedGuardianBallot" where
  "ballot_of_dict d =
     \<lparr>sb_protocol_version = dict_at d ''protocol_version'',
      sb_vote_protocol_version = dict_at d ''vote_protocol_version'',
      sb_session_id = dict_at d ''session_id'', sb_network_id = dict_at d ''network_id'',
      sb_guardian_id = dict_at d ''guardian_id'',
      sb_membership_snapshot_id = dict_at d ''membership_snapshot_id'',
      sb_candidate_digest = dict_at d ''candidate_digest'', sb_decision = dict_at d ''decision'',
      sb_confidence_bps = dict_at d ''confidence_bps'', sb_model_tier = dict_at d ''model_tier'',
      sb_model_artifact_sha256 = dict_at d ''model_artifact_sha256'', sb_nonce = dict_at d ''nonce'',
      sb_issued_at_ms = dict_at d ''issued_at_ms'', sb_expires_at_ms = dict_at d ''expires_at_ms'',
      sb_payload_digest = dict_at d ''payload_digest'', sb_signature = dict_at d ''signature''\<rparr>"

definition from_wire :: "py_env \<Rightarrow> bytes \<Rightarrow> pyexc + SignedGuardianBallot" where
  "from_wire E wire =
     (if wire = [] \<or> MAX_BALLOT_WIRE_BYTES < length wire then Inl BallotFormatError
      else rbind (catch (loads_utf8 E BallotFormatError wire)
                    (\<lambda>e. e \<in> {UnicodeDecodeError, JSONDecodeError, BallotFormatError})
                    (\<lambda>_. Inl BallotFormatError)) (\<lambda>decoded.
        case decoded of
          PDict d \<Rightarrow>
            (if \<not> keys_are ballot_fields d then Inl BallotFormatError
             else let envelope = ballot_of_dict d
                  in if to_wire envelope \<noteq> wire then Inl BallotFormatError else Inr envelope)
        | _ \<Rightarrow> Inl BallotFormatError))"

definition to_vote :: "SignedGuardianBallot \<Rightarrow> GuardianVote" where
  "to_vote b =
     \<lparr>gv_guardian_id = sb_guardian_id b, gv_membership_snapshot_id = sb_membership_snapshot_id b,
      gv_candidate_digest = sb_candidate_digest b, gv_decision = sb_decision b,
      gv_confidence_bps = sb_confidence_bps b, gv_model_tier = sb_model_tier b,
      gv_model_artifact_sha256 = sb_model_artifact_sha256 b,
      gv_protocol_version = sb_vote_protocol_version b\<rparr>"

definition is_valid_envelope_shape :: "SignedGuardianBallot \<Rightarrow> bool" where
  "is_valid_envelope_shape b \<longleftrightarrow>
     sb_protocol_version b = PInt SIGNED_BALLOT_PROTOCOL_VERSION \<and>
     is_int (sb_vote_protocol_version b) \<and>
     is_hex_32 (sb_session_id b) \<and> is_network_id (sb_network_id b) \<and>
     is_hex_32 (sb_guardian_id b) \<and> is_hex_32 (sb_membership_snapshot_id b) \<and>
     is_hex_32 (sb_candidate_digest b) \<and>
     (sb_decision b = plit ''approve'' \<or> sb_decision b = plit ''reject'') \<and>
     int_in 0 10000 (sb_confidence_bps b) \<and> sb_model_tier b = plit ''8b'' \<and>
     is_hex_32 (sb_model_artifact_sha256 b) \<and> is_hex_32 (sb_nonce b) \<and>
     is_timestamp (sb_issued_at_ms b) \<and> is_timestamp (sb_expires_at_ms b) \<and>
     is_hex_32 (sb_payload_digest b) \<and> is_hex_64 (sb_signature b) \<and>
     sb_payload_digest b = canonical_digest BALLOT_DOMAIN (ballot_payload b)"

definition is_fresh_envelope :: "SignedGuardianBallot \<Rightarrow> BallotSession \<Rightarrow> int \<Rightarrow> bool" where
  "is_fresh_envelope b ses now_ms \<longleftrightarrow>
     the_int (se_valid_from_ms ses) \<le> the_int (sb_issued_at_ms b) \<and>
     the_int (sb_expires_at_ms b) \<le> the_int (se_valid_until_ms ses) \<and>
     the_int (sb_issued_at_ms b) \<le> now_ms + MAX_CLOCK_SKEW_MS \<and>
     now_ms < the_int (sb_expires_at_ms b) \<and>
     0 < the_int (sb_expires_at_ms b) - the_int (sb_issued_at_ms b) \<and>
     the_int (sb_expires_at_ms b) - the_int (sb_issued_at_ms b) \<le> MAX_BALLOT_LIFETIME_MS"

definition verify_signature :: "bip340 \<Rightarrow> BallotSigner \<Rightarrow> SignedGuardianBallot \<Rightarrow> bool" where
  "verify_signature B sg b =
     (let pk = bytes_fromhex (the_str (sg_xonly_public_key sg))
      in if \<not> xonly_parses B pk then False
         else case xonly_verify B pk (bytes_fromhex (the_str (sb_signature b)))
                     (bytes_fromhex (the_str (sb_payload_digest b))) of
                None \<Rightarrow> False | Some ok \<Rightarrow> ok)"

definition verify ::
  "bip340 \<Rightarrow> SignedGuardianBallot \<Rightarrow> EnsembleCandidate \<Rightarrow> MembershipSnapshot \<Rightarrow> BallotSession \<Rightarrow>
     int \<Rightarrow> pyexc + GuardianVote" where
  "verify B b c s ses now_ms =
     rbind (raise_if (\<not> is_timestamp (PInt now_ms)) BallotVerificationError) (\<lambda>_.
     rbind (raise_if (\<not> is_valid_session B ses c s) BallotVerificationError) (\<lambda>_.
     rbind (raise_if (\<not> is_valid_envelope_shape b) BallotVerificationError) (\<lambda>_.
     rbind (raise_if (sb_session_id b \<noteq> se_session_id ses \<or> sb_network_id b \<noteq> se_network_id ses \<or>
                      sb_membership_snapshot_id b \<noteq> ms_snapshot_id s \<or>
                      sb_candidate_digest b \<noteq> ec_candidate_digest c) BallotVerificationError) (\<lambda>_.
     rbind (raise_if (\<not> is_fresh_envelope b ses now_ms) BallotVerificationError) (\<lambda>_.
     rbind (is_valid_guardian_vote (to_vote b) c s) (\<lambda>vote_ok.
     if \<not> vote_ok then Inl BallotVerificationError
     else case find (\<lambda>sg. sg_guardian_id sg = sb_guardian_id b) (se_signers ses) of
            None \<Rightarrow> Inl BallotVerificationError
          | Some sg \<Rightarrow>
              (if \<not> verify_signature B sg b then Inl BallotVerificationError
               else Inr (to_vote b))))))))"

subsection \<open>Replay ledger\<close>

record accepted_ballot =
  ab_session_id :: pyval
  ab_guardian_id :: pyval
  ab_nonce :: pyval
  ab_expires_at_ms :: int
  ab_session_valid_until_ms :: int
  ab_accepted_at_ms :: int
  ab_wire :: bytes

record ledger =
  lg_accepted_ballots :: "accepted_ballot list"
  lg_high_water_ms :: int

text \<open>A new ledger: no ballots, high-water mark zero.\<close>

definition new_ledger :: ledger where
  "new_ledger = \<lparr>lg_accepted_ballots = [], lg_high_water_ms = 0\<rparr>"

definition advance_time :: "ledger \<Rightarrow> int \<Rightarrow> pyexc + ledger" where
  "advance_time L now_ms =
     (if now_ms < lg_high_water_ms L then Inl BallotReplayError
      else Inr (L\<lparr>lg_high_water_ms := now_ms\<rparr>))"

text \<open>\<open>PRIMARY KEY (session_id, guardian_id)\<close> and \<open>UNIQUE (session_id, nonce)\<close>.\<close>

definition violates_constraint :: "ledger \<Rightarrow> accepted_ballot \<Rightarrow> bool" where
  "violates_constraint L r \<longleftrightarrow>
     list_ex (\<lambda>q. ab_session_id q = ab_session_id r \<and>
                  (ab_guardian_id q = ab_guardian_id r \<or> ab_nonce q = ab_nonce r))
       (lg_accepted_ballots L)"

text \<open>
  \<open>consume\<close>. A column value that is not text, or an expiry that is not a 64-bit integer, is refused
  by the database binding; the collector never passes one.
\<close>

definition consume ::
  "bip340 \<Rightarrow> ledger \<Rightarrow> SignedGuardianBallot \<Rightarrow> BallotSession \<Rightarrow> bytes \<Rightarrow> int \<Rightarrow> pyexc + ledger" where
  "consume B L b ses wire accepted_at_ms =
     (if \<not> is_timestamp (PInt accepted_at_ms) \<or> \<not> is_valid_session_shape B ses \<or>
         sb_session_id b \<noteq> se_session_id ses \<or> to_wire b \<noteq> wire
      then Inl BallotFormatError
      else rbind (advance_time L accepted_at_ms) (\<lambda>L1.
        if \<not> is_str (sb_guardian_id b) \<or> \<not> is_str (sb_nonce b) \<or> \<not> is_timestamp (sb_expires_at_ms b)
        then Inl SqliteError
        else let row = \<lparr>ab_session_id = sb_session_id b, ab_guardian_id = sb_guardian_id b,
                        ab_nonce = sb_nonce b, ab_expires_at_ms = the_int (sb_expires_at_ms b),
                        ab_session_valid_until_ms = the_int (se_valid_until_ms ses),
                        ab_accepted_at_ms = accepted_at_ms, ab_wire = wire\<rparr>
             in if violates_constraint L1 row then Inl BallotReplayError
                else Inr (L1\<lparr>lg_accepted_ballots := lg_accepted_ballots L1 @ [row]\<rparr>)))"

definition session_wires :: "ledger \<Rightarrow> pyval \<Rightarrow> pyexc + bytes list" where
  "session_wires L session_id =
     (if \<not> is_hex_32 session_id then Inl BallotFormatError
      else Inr (map ab_wire
             (sort_key (\<lambda>r. the_str (ab_guardian_id r))
                (filter (\<lambda>r. ab_session_id r = session_id) (lg_accepted_ballots L)))))"

text \<open>\<open>prune_expired\<close>: the number of deleted rows and the new ledger.\<close>

definition prune_expired :: "ledger \<Rightarrow> int \<Rightarrow> pyexc + (nat \<times> ledger)" where
  "prune_expired L now_ms =
     (if \<not> is_timestamp (PInt now_ms) then Inl BallotFormatError
      else rbind (advance_time L now_ms) (\<lambda>L1.
        let keep = filter (\<lambda>r. \<not> ab_session_valid_until_ms r \<le> now_ms) (lg_accepted_ballots L1)
        in Inr (length (lg_accepted_ballots L1) - length keep,
                L1\<lparr>lg_accepted_ballots := keep\<rparr>)))"

subsection \<open>Collector\<close>

definition accept_wire ::
  "py_env \<Rightarrow> bip340 \<Rightarrow> ledger \<Rightarrow> bytes \<Rightarrow> EnsembleCandidate \<Rightarrow> MembershipSnapshot \<Rightarrow>
     BallotSession \<Rightarrow> int \<Rightarrow> pyexc + (GuardianVote \<times> ledger)" where
  "accept_wire E B L wire c s ses now_ms =
     rbind (from_wire E wire) (\<lambda>b.
     rbind (verify B b c s ses now_ms) (\<lambda>vote.
     rbind (consume B L b ses wire now_ms) (\<lambda>L'. Inr (vote, L'))))"

definition contains_wire :: "ledger \<Rightarrow> pyval \<Rightarrow> bytes \<Rightarrow> pyexc + bool" where
  "contains_wire L session_id wire =
     rbind (session_wires L session_id) (\<lambda>ws. Inr (wire \<in> set ws))"

definition reverify ::
  "py_env \<Rightarrow> bip340 \<Rightarrow> EnsembleCandidate \<Rightarrow> MembershipSnapshot \<Rightarrow> BallotSession \<Rightarrow> int \<Rightarrow>
     bytes \<Rightarrow> pyexc + GuardianVote" where
  "reverify E B c s ses now_ms wire =
     rbind (from_wire E wire) (\<lambda>b. verify B b c s ses now_ms)"

definition collector_evaluate ::
  "py_env \<Rightarrow> bip340 \<Rightarrow> ledger \<Rightarrow> EnsembleCandidate \<Rightarrow> MembershipSnapshot \<Rightarrow> BallotSession \<Rightarrow>
     int \<Rightarrow> pyexc + EnsembleDecision" where
  "collector_evaluate E B L c s ses now_ms =
     (if \<not> is_valid_session B ses c s then evaluate c s []
      else rbind (catch (rbind (session_wires L (se_session_id ses)) (\<lambda>ws.
                           rmap (reverify E B c s ses now_ms) ws))
                    is_transport_error (\<lambda>_. Inr []))
             (\<lambda>votes. evaluate c s votes))"

subsection \<open>The ballot wire format\<close>

text \<open>The ballots the verifier can accept: the shape test and the vote protocol version it requires.\<close>

definition wf_ballot :: "'a BallotSigningRequest_scheme \<Rightarrow> bool" where
  "wf_ballot b \<longleftrightarrow>
     sb_protocol_version b = PInt SIGNED_BALLOT_PROTOCOL_VERSION \<and>
     sb_vote_protocol_version b = PInt ENSEMBLE_PROTOCOL_VERSION \<and>
     is_hex_32 (sb_session_id b) \<and> is_network_id (sb_network_id b) \<and>
     is_hex_32 (sb_guardian_id b) \<and> is_hex_32 (sb_membership_snapshot_id b) \<and>
     is_hex_32 (sb_candidate_digest b) \<and>
     (sb_decision b = plit ''approve'' \<or> sb_decision b = plit ''reject'') \<and>
     int_in 0 10000 (sb_confidence_bps b) \<and> sb_model_tier b = plit ''8b'' \<and>
     is_hex_32 (sb_model_artifact_sha256 b) \<and> is_hex_32 (sb_nonce b) \<and>
     is_timestamp (sb_issued_at_ms b) \<and> is_timestamp (sb_expires_at_ms b) \<and>
     sb_payload_digest b = canonical_digest BALLOT_DOMAIN (ballot_payload b)"

lemma wf_ballot_digest:
  "wf_ballot b \<Longrightarrow> sb_payload_digest b = canonical_digest BALLOT_DOMAIN (ballot_payload b)"
  by (simp add: wf_ballot_def)

definition wf_signed :: "SignedGuardianBallot \<Rightarrow> bool" where
  "wf_signed b \<longleftrightarrow> wf_ballot b \<and> is_hex_64 (sb_signature b)"

lemma wf_signed_iff:
  "wf_signed b \<longleftrightarrow> is_valid_envelope_shape b \<and> sb_vote_protocol_version b = PInt ENSEMBLE_PROTOCOL_VERSION"
  by (auto simp: wf_signed_def wf_ballot_def is_valid_envelope_shape_def is_hex_32_def
      canonical_digest_def)

lemma flat_network: "is_network_id v \<Longrightarrow> flat 13 v"
proof -
  assume "is_network_id v"
  then obtain s where v: "v = PStr s" and n: "is_network_id (PStr s)" by (cases v) auto
  have "list_all unescaped s \<and> length s \<le> 11"
  proof (cases "s = u ''mainnet''")
    case True
    then show ?thesis by (simp add: u_def unescaped_def)
  next
    case False
    with n obtain t where "s = u ''testnet-'' @ t" "length s \<le> 11" "list_all is_digit t"
      by (auto simp: has_prefix_iff)
    moreover have "list_all unescaped (u ''testnet-'')" by (simp add: u_def unescaped_def)
    ultimately show ?thesis by (auto simp: list_all_iff intro: unescaped_digit)
  qed
  with flat_text [of s] show ?thesis by (auto simp: v intro: flat_mono)
qed

lemmas flat_fields = flat_network flat_hex [of 64, simplified] flat_hex [of 128, simplified] flat_int

lemma flat_timestamp: "is_timestamp v \<Longrightarrow> flat 20 v"
  by (auto simp: is_timestamp_def MAX_SQLITE_INT_def intro: flat_int)

lemma flat_one: "flat 20 (PInt SIGNED_BALLOT_PROTOCOL_VERSION)" "flat 20 (PInt ENSEMBLE_PROTOCOL_VERSION)"
  by (rule flat_int [of 0 1]; simp add: SIGNED_BALLOT_PROTOCOL_VERSION_def ENSEMBLE_PROTOCOL_VERSION_def)+

lemma wf_ballot_flat:
  assumes "wf_ballot b"
  shows "flat 130 (sb_protocol_version b)" "flat 130 (sb_vote_protocol_version b)"
    "flat 130 (sb_session_id b)" "flat 130 (sb_network_id b)" "flat 130 (sb_guardian_id b)"
    "flat 130 (sb_membership_snapshot_id b)" "flat 130 (sb_candidate_digest b)"
    "flat 130 (sb_decision b)" "flat 130 (sb_confidence_bps b)" "flat 130 (sb_model_tier b)"
    "flat 130 (sb_model_artifact_sha256 b)" "flat 130 (sb_nonce b)" "flat 130 (sb_issued_at_ms b)"
    "flat 130 (sb_expires_at_ms b)" "flat 130 (sb_payload_digest b)"
proof -
  have hex: "flat 130 v" if "is_hex_32 v" for v
    using that flat_hex [of 64 v] by (auto simp: is_hex_32_def intro: flat_mono)
  have lit: "flat 130 (plit s)" if "list_all unescaped (u s)" "length s \<le> 100" for s
    using that by (intro flat_lit) simp_all
  have "is_hex_32 (canonical_digest d p)" for d p
    by (simp add: is_hex_32_def canonical_digest_def)
  note facts = this hex assms [unfolded wf_ballot_def]
  show "flat 130 (sb_protocol_version b)" "flat 130 (sb_vote_protocol_version b)"
    using facts flat_one by (auto intro: flat_mono)
  show "flat 130 (sb_session_id b)" "flat 130 (sb_guardian_id b)"
    "flat 130 (sb_membership_snapshot_id b)" "flat 130 (sb_candidate_digest b)"
    "flat 130 (sb_model_artifact_sha256 b)" "flat 130 (sb_nonce b)" "flat 130 (sb_payload_digest b)"
    using facts by simp_all
  show "flat 130 (sb_network_id b)" "flat 130 (sb_issued_at_ms b)" "flat 130 (sb_expires_at_ms b)"
    "flat 130 (sb_confidence_bps b)"
    using facts by (auto intro: flat_mono [OF flat_network] flat_mono [OF flat_timestamp]
        flat_mono [OF flat_int])
  show "flat 130 (sb_decision b)"
    using facts lit [of "''approve''"] lit [of "''reject''"] by (auto simp: u_def unescaped_def)
  show "flat 130 (sb_model_tier b)"
    using facts lit [of "''8b''"] by (auto simp: u_def unescaped_def)
qed

lemma ballot_dict_flat:
  assumes "wf_signed b"
  obtains d where "ballot_dict b = PDict d" and "flat_items 23 130 d" and "length d = 16"
    and "keys_are ballot_fields d" and "ballot_of_dict d = b"
proof -
  obtain d where d: "ballot_dict b = PDict d" by (simp add: ballot_dict_def)
  have w: "wf_ballot b" "is_hex_64 (sb_signature b)" using assms by (simp_all add: wf_signed_def)
  have "flat 130 (sb_signature b)" using w(2) flat_hex [of 128] by (simp add: is_hex_64_def)
  then have "flat_items 23 130 d"
    using d wf_ballot_flat [OF w(1)]
    by (simp add: ballot_dict_def flat_items_Cons)
       (auto simp: flat_items_def unescaped_def)
  moreover have "length d = 16" "keys_are ballot_fields d"
    using d by (auto simp: ballot_dict_def keys_are_def ballot_fields_def)
  moreover have "ballot_of_dict d = b"
    using d by (auto simp: ballot_dict_def ballot_of_dict_def)
  ultimately show thesis using d that by blast
qed

lemma from_wire_enc: "from_wire E w = Inr b \<Longrightarrow> to_wire b = w"
  by (auto simp: from_wire_def Let_def split: if_splits)

lemma ballot_of_dict_cong:
  "(\<And>k. dict_at d k = dict_at d' k) \<Longrightarrow> ballot_of_dict d = ballot_of_dict d'"
  by (simp add: ballot_of_dict_def)

lemma from_wire_to_wire:
  assumes "wf_signed b" and "1 \<le> json_depth E"
  shows "from_wire E (to_wire b) = Inr b"
proof -
  obtain d where d: "ballot_dict b = PDict d" "flat_items 23 130 d" "length d = 16"
    "keys_are ballot_fields d" "ballot_of_dict d = b"
    using ballot_dict_flat [OF assms(1)] by blast
  have w: "to_wire b = canonical_json (PDict d)" by (simp add: to_wire_def d(1))
  have len: "length (canonical_json (PDict d)) \<le> MAX_BALLOT_WIRE_BYTES"
    using flat_items_length [OF d(2)] by (simp add: d(3) MAX_BALLOT_WIRE_BYTES_def)
  have ne: "canonical_json (PDict d) \<noteq> []"
    using canonical_json_dict_nonempty [OF flat_items_plain [OF d(2)]] .
  have "ballot_of_dict (sort_key fst d) = b"
    using ballot_of_dict_cong [of "sort_key fst d" d] flat_items_dict_at [OF d(2)] d(5) by simp
  then show ?thesis using len ne w
    by (simp add: from_wire_def flat_items_loads [OF d(2) assms(2)] flat_items_keys d(4))
qed

interpretation bc: canonical_codec to_wire "from_wire E" "\<lambda>b. wf_signed b \<and> 1 \<le> json_depth E" for E
  by unfold_locales (auto simp: from_wire_enc from_wire_to_wire)

subsection \<open>Sessions and ballots as commitments\<close>

lemma is_hex_32_digest [simp]: "is_hex_32 (canonical_digest d p)"
  by (simp add: is_hex_32_def canonical_digest_def)

lemma hex_32_flat: "is_hex_32 v \<Longrightarrow> flat 66 v"
  using flat_hex [of 64 v] by (simp add: is_hex_32_def)

lemma field_plain:
  "is_hex_32 v \<Longrightarrow> json_plain v" "is_timestamp v \<Longrightarrow> json_plain v" "is_network_id v \<Longrightarrow> json_plain v"
  "json_plain (PInt SIGNED_BALLOT_PROTOCOL_VERSION)"
  using hex_32_flat flat_timestamp flat_network flat_one(1) flat_plain by blast+

lemma field_sort:
  "is_hex_32 v \<Longrightarrow> sort_keys v = v" "is_timestamp v \<Longrightarrow> sort_keys v = v"
  "is_network_id v \<Longrightarrow> sort_keys v = v"
  using hex_32_flat flat_timestamp flat_network flat_sort by blast+

definition ballot_items :: "'a BallotSigningRequest_scheme \<Rightarrow> (pystr \<times> pyval) list" where
  "ballot_items b = (case ballot_payload b of PDict kvs \<Rightarrow> kvs | _ \<Rightarrow> [])"

lemma ballot_payload_items: "ballot_payload b = PDict (ballot_items b)"
  by (simp add: ballot_items_def ballot_payload_def)

lemma ballot_items_flat: "wf_ballot b \<Longrightarrow> flat_items 23 130 (ballot_items b)"
  using wf_ballot_flat [of b]
  by (simp add: ballot_items_def ballot_payload_def flat_items_Cons)
     (auto simp: flat_items_def unescaped_def)

lemma ballot_items_at:
  "dict_at (ballot_items b) ''candidate_digest'' = sb_candidate_digest b"
  "dict_at (ballot_items b) ''confidence_bps'' = sb_confidence_bps b"
  "dict_at (ballot_items b) ''decision'' = sb_decision b"
  "dict_at (ballot_items b) ''expires_at_ms'' = sb_expires_at_ms b"
  "dict_at (ballot_items b) ''guardian_id'' = sb_guardian_id b"
  "dict_at (ballot_items b) ''issued_at_ms'' = sb_issued_at_ms b"
  "dict_at (ballot_items b) ''membership_snapshot_id'' = sb_membership_snapshot_id b"
  "dict_at (ballot_items b) ''model_artifact_sha256'' = sb_model_artifact_sha256 b"
  "dict_at (ballot_items b) ''model_tier'' = sb_model_tier b"
  "dict_at (ballot_items b) ''network_id'' = sb_network_id b"
  "dict_at (ballot_items b) ''nonce'' = sb_nonce b"
  "dict_at (ballot_items b) ''protocol_version'' = sb_protocol_version b"
  "dict_at (ballot_items b) ''session_id'' = sb_session_id b"
  "dict_at (ballot_items b) ''vote_protocol_version'' = sb_vote_protocol_version b"
  by (simp_all add: ballot_items_def ballot_payload_def)

lemma ballot_payload_inj:
  fixes a b :: BallotSigningRequest
  assumes "wf_ballot a" and "wf_ballot b" and "sort_keys (ballot_payload a) = sort_keys (ballot_payload b)"
  shows "a = b"
proof -
  have at: "dict_at (ballot_items a) k = dict_at (ballot_items b) k" for k
    using flat_payload_at assms ballot_items_flat by (metis ballot_payload_items)
  note eqs = at [of "''candidate_digest''"] at [of "''confidence_bps''"] at [of "''decision''"]
    at [of "''expires_at_ms''"] at [of "''guardian_id''"] at [of "''issued_at_ms''"]
    at [of "''membership_snapshot_id''"] at [of "''model_artifact_sha256''"] at [of "''model_tier''"]
    at [of "''network_id''"] at [of "''nonce''"] at [of "''protocol_version''"] at [of "''session_id''"]
    at [of "''vote_protocol_version''"]
  then have "ballot_payload a = ballot_payload b"
    unfolding ballot_items_at by (simp add: ballot_payload_def)
  then have "sb_payload_digest a = sb_payload_digest b"
    using assms(1,2) by (simp add: wf_ballot_def)
  with eqs show ?thesis unfolding ballot_items_at by (cases a; cases b) simp
qed

interpretation bal: json_commitment "ballot_payload :: BallotSigningRequest \<Rightarrow> pyval" wf_ballot
  by unfold_locales
     (simp_all add: ballot_payload_inj ballot_payload_items flat_items_plain [OF ballot_items_flat]
       del: json_plain.simps)

text \<open>The signed part of a ballot.\<close>

definition signed_part :: "SignedGuardianBallot \<Rightarrow> BallotSigningRequest" where
  "signed_part b = BallotSigningRequest.truncate b"

lemma signed_part_simps [simp]:
  "ballot_payload (signed_part b) = ballot_payload b" "wf_ballot (signed_part b) = wf_ballot b"
  by (simp_all add: signed_part_def BallotSigningRequest.truncate_def ballot_payload_def wf_ballot_def)

lemma signer_payload_sort_inj:
  assumes "is_valid_signer B x" and "is_valid_signer B y"
    and "sort_keys (signer_payload x) = sort_keys (signer_payload y)"
  shows "x = y"
proof -
  have f: "flat_items 16 66 [(u ''guardian_id'', sg_guardian_id z), (u ''xonly_public_key'', sg_xonly_public_key z)]"
    if "is_valid_signer B z" for z
    using that hex_32_flat
    by (simp add: flat_items_Cons is_valid_signer_def) (auto simp: flat_items_def unescaped_def)
  note at = flat_payload_at [OF assms(3) [unfolded signer_payload_def] f [OF assms(1)] f [OF assms(2)]]
  show ?thesis using at [of "''guardian_id''"] at [of "''xonly_public_key''"] by (cases x; cases y) simp
qed

lemma signers_sort_inj:
  assumes "map (\<lambda>m. sort_keys (signer_payload m)) xs = map (\<lambda>m. sort_keys (signer_payload m)) ys"
    and "list_all (is_valid_signer B) xs" and "list_all (is_valid_signer B) ys"
  shows "xs = ys"
  using assms
proof (induction xs arbitrary: ys)
  case (Cons x xs)
  then show ?case by (cases ys) (auto intro: signer_payload_sort_inj)
qed simp

lemma session_payload_plain:
  assumes "is_valid_session_shape B ses"
  shows "json_plain (session_payload ses)"
proof -
  have "json_plain (signer_payload sg)" if "is_valid_signer B sg" for sg
    using that by (simp add: is_valid_signer_def signer_payload_def field_plain)
  then have "json_plain_list (map signer_payload (se_signers ses))"
    using assms by (simp add: is_valid_session_shape_def json_plain_list_iff list_all_iff)
  with assms field_plain show ?thesis
    by (simp add: session_payload_def is_valid_session_shape_def del: json_plain.simps(2))
qed

lemma session_payload_inj:
  assumes "is_valid_session_shape B a" and "is_valid_session_shape B b"
    and "sort_keys (session_payload a) = sort_keys (session_payload b)"
  shows "a = b"
proof -
  note eq = assms(3) [unfolded session_payload_def]
  have flat: "sort_keys (f x) = f x"
    if "is_valid_session_shape B x" "f \<in> {se_candidate_digest, se_membership_snapshot_id, se_network_id,
       se_protocol_version, se_session_nonce, se_valid_from_ms, se_valid_until_ms}" for f x
    using that by (auto simp: is_valid_session_shape_def field_sort)
  have "sort_keys (PList (map signer_payload (se_signers a))) =
        sort_keys (PList (map signer_payload (se_signers b)))"
    by (rule sort_keys_dict_at [OF eq, where k = "''signers''"]) simp_all
  then have sg: "se_signers a = se_signers b"
    using assms(1,2) by (intro signers_sort_inj [of _ _ B])
      (simp_all add: sort_keys_list_map comp_def is_valid_session_shape_def)
  have "sort_keys (se_candidate_digest a) = sort_keys (se_candidate_digest b)"
    by (rule sort_keys_dict_at [OF eq, where k = "''candidate_digest''"]) simp_all
  moreover have "sort_keys (se_membership_snapshot_id a) = sort_keys (se_membership_snapshot_id b)"
    by (rule sort_keys_dict_at [OF eq, where k = "''membership_snapshot_id''"]) simp_all
  moreover have "sort_keys (se_network_id a) = sort_keys (se_network_id b)"
    by (rule sort_keys_dict_at [OF eq, where k = "''network_id''"]) simp_all
  moreover have "sort_keys (se_protocol_version a) = sort_keys (se_protocol_version b)"
    by (rule sort_keys_dict_at [OF eq, where k = "''protocol_version''"]) simp_all
  moreover have "sort_keys (se_session_nonce a) = sort_keys (se_session_nonce b)"
    by (rule sort_keys_dict_at [OF eq, where k = "''session_nonce''"]) simp_all
  moreover have "sort_keys (se_valid_from_ms a) = sort_keys (se_valid_from_ms b)"
    by (rule sort_keys_dict_at [OF eq, where k = "''valid_from_ms''"]) simp_all
  moreover have "sort_keys (se_valid_until_ms a) = sort_keys (se_valid_until_ms b)"
    by (rule sort_keys_dict_at [OF eq, where k = "''valid_until_ms''"]) simp_all
  ultimately have fields: "se_candidate_digest a = se_candidate_digest b"
    "se_membership_snapshot_id a = se_membership_snapshot_id b" "se_network_id a = se_network_id b"
    "se_protocol_version a = se_protocol_version b" "se_session_nonce a = se_session_nonce b"
    "se_valid_from_ms a = se_valid_from_ms b" "se_valid_until_ms a = se_valid_until_ms b"
    using flat assms(1,2) by simp_all
  then have "session_payload a = session_payload b" using sg by (simp add: session_payload_def)
  then have "se_session_id a = se_session_id b"
    using assms(1,2) by (simp add: is_valid_session_shape_def)
  with fields sg show ?thesis by (cases a; cases b) simp
qed

interpretation sess: json_commitment session_payload "is_valid_session_shape B" for B
  by unfold_locales (simp_all add: session_payload_plain session_payload_inj)

subsection \<open>Creation and verification\<close>

lemma validated_signers_canonical:
  "validated_signers B sgs s = Inr cs \<Longrightarrow> validated_signers B cs s = Inr cs"
  by (auto simp: validated_signers_def Let_def list_all_iff split: if_splits)

lemma validated_signers_facts:
  assumes "validated_signers B sgs s = Inr cs"
  shows "cs \<noteq> []" "list_all (is_valid_signer B) cs" "distinct (map sg_guardian_id cs)"
    "set (map sg_guardian_id cs) = set (map gm_guardian_id (ms_members s))"
  using assms by (auto simp: validated_signers_def Let_def split: if_splits)

lemma valid_snapshot_id_hex: "is_valid_snapshot s \<Longrightarrow> is_hex_32 (ms_snapshot_id s)"
  and valid_candidate_digest_hex: "is_valid_candidate c \<Longrightarrow> is_hex_32 (ec_candidate_digest c)"
  by (auto simp: is_valid_snapshot_def is_valid_candidate_def is_sha256_def is_hex_32_def)

lemma validate_session_window_iff:
  "validate_session_window f t = Inr () \<longleftrightarrow>
     is_timestamp f \<and> is_timestamp t \<and> the_int f < the_int t \<and>
     the_int t \<le> the_int f + MAX_SESSION_LIFETIME_MS"
  by (auto simp: validate_session_window_def Let_def)

lemma validate_ballot_window_iff:
  "validate_ballot_window ses i e = Inr () \<longleftrightarrow>
     is_timestamp i \<and> is_timestamp e \<and> the_int (se_valid_from_ms ses) \<le> the_int i \<and>
     the_int e \<le> the_int (se_valid_until_ms ses) \<and> the_int i < the_int e \<and>
     the_int e \<le> the_int i + MAX_BALLOT_LIFETIME_MS"
  by (auto simp: validate_ballot_window_def Let_def)

lemma BallotSession_create_valid:
  assumes "BallotSession_create B c s sgs net nonce f t = Inr ses"
  shows "is_valid_session B ses c s"
proof -
  obtain cs where cs: "validated_signers B sgs s = Inr cs"
    using assms by (auto simp: BallotSession_create_def split: if_splits)
  define x where "x = \<lparr>se_protocol_version = PInt SIGNED_BALLOT_PROTOCOL_VERSION,
    se_network_id = net, se_membership_snapshot_id = ms_snapshot_id s,
    se_candidate_digest = ec_candidate_digest c, se_session_nonce = nonce,
    se_valid_from_ms = f, se_valid_until_ms = t, se_signers = cs, se_session_id = PNone\<rparr>"
  have ses: "ses = x\<lparr>se_session_id := canonical_digest SESSION_DOMAIN (session_payload x)\<rparr>"
    and ok: "is_valid_candidate c" "is_valid_snapshot s" "validate_session_window f t = Inr ()"
      "is_network_id net" "is_hex_32 nonce"
    using assms by (auto simp: BallotSession_create_def cs x_def split: if_splits)
  have "session_payload ses = session_payload x" by (simp add: ses session_payload_def)
  then show ?thesis
    using ok validated_signers_canonical [OF cs] validated_signers_facts [OF cs]
      valid_snapshot_id_hex [OF ok(2)] valid_candidate_digest_hex [OF ok(1)]
    by (simp add: is_valid_session_def is_valid_session_shape_def validate_session_window_iff)
       (simp add: ses x_def)
qed

lemma BallotSession_create_fields:
  assumes "BallotSession_create B c s sgs net nonce f t = Inr ses"
  shows "se_valid_from_ms ses = f" "se_valid_until_ms ses = t" "se_network_id ses = net"
    "validated_signers B sgs s = Inr (se_signers ses)"
  using assms by (auto simp: BallotSession_create_def Let_def split: if_splits)

lemma verify_iff:
  "verify B b c s ses now_ms = Inr v \<longleftrightarrow>
     is_timestamp (PInt now_ms) \<and> is_valid_session B ses c s \<and> is_valid_envelope_shape b \<and>
     sb_session_id b = se_session_id ses \<and> sb_network_id b = se_network_id ses \<and>
     sb_membership_snapshot_id b = ms_snapshot_id s \<and> sb_candidate_digest b = ec_candidate_digest c \<and>
     is_fresh_envelope b ses now_ms \<and> is_valid_guardian_vote (to_vote b) c s = Inr True \<and>
     (\<exists>sg. find (\<lambda>sg. sg_guardian_id sg = sb_guardian_id b) (se_signers ses) = Some sg \<and>
           verify_signature B sg b) \<and>
     v = to_vote b"
  by (auto simp: verify_def split: option.splits if_splits)

lemma verify_signature_iff:
  "verify_signature B sg b \<longleftrightarrow>
     (let pk = bytes_fromhex (the_str (sg_xonly_public_key sg))
      in xonly_parses B pk \<and>
         xonly_verify B pk (bytes_fromhex (the_str (sb_signature b)))
           (bytes_fromhex (the_str (sb_payload_digest b))) = Some True)"
  by (auto simp: verify_signature_def Let_def split: option.splits)

lemma verify_wf: "verify B b c s ses now_ms = Inr v \<Longrightarrow> wf_signed b"
  by (auto simp: verify_iff wf_signed_iff is_valid_guardian_vote_def is_valid_vote_def vote_bound_def
      to_vote_def split: if_splits option.splits)

lemma digest_bytes: "bytes_fromhex (the_str (canonical_digest d p)) = sha256 (digest_preimage d p)"
  by (simp add: canonical_digest_def digest_preimage_def sha256_hex_def)

lemma find_SomeD: "find P xs = Some x \<Longrightarrow> x \<in> set xs \<and> P x"
  by (induction xs) (auto split: if_splits)

lemma find_distinct:
  "distinct (map f xs) \<Longrightarrow> x \<in> set xs \<Longrightarrow> find (\<lambda>y. f y = f x) xs = Some x"
  by (induction xs) (auto simp: image_iff)

lemma attach_signature_simps:
  assumes "attach_signature r sig = Inr b"
  shows "signed_part b = r" "sb_signature b = sig" "is_hex_64 sig"
  using assms
  by (cases r; auto simp: attach_signature_def signed_part_def BallotSigningRequest.truncate_def
      BallotSigningRequest.extend_def SignedGuardianBallot.fields_def split: if_splits)+

lemma BallotSigningRequest_create_iff:
  "BallotSigningRequest_create B v c s ses nonce i e = Inr r \<longleftrightarrow>
     is_valid_session B ses c s \<and> is_valid_guardian_vote v c s = Inr True \<and> is_hex_32 nonce \<and>
     validate_ballot_window ses i e = Inr () \<and>
     r = (let r = \<lparr>sb_protocol_version = PInt SIGNED_BALLOT_PROTOCOL_VERSION,
                   sb_vote_protocol_version = gv_protocol_version v,
                   sb_session_id = se_session_id ses, sb_network_id = se_network_id ses,
                   sb_guardian_id = gv_guardian_id v,
                   sb_membership_snapshot_id = gv_membership_snapshot_id v,
                   sb_candidate_digest = gv_candidate_digest v,
                   sb_decision = gv_decision v, sb_confidence_bps = gv_confidence_bps v,
                   sb_model_tier = gv_model_tier v,
                   sb_model_artifact_sha256 = gv_model_artifact_sha256 v,
                   sb_nonce = nonce, sb_issued_at_ms = i, sb_expires_at_ms = e,
                   sb_payload_digest = PNone\<rparr>
          in r\<lparr>sb_payload_digest := canonical_digest BALLOT_DOMAIN (ballot_payload r)\<rparr>)"
  by (auto simp: BallotSigningRequest_create_def Let_def split: if_splits)

lemma valid_guardian_vote_fields:
  assumes "is_valid_guardian_vote v c s = Inr True"
  shows "gv_protocol_version v = PInt ENSEMBLE_PROTOCOL_VERSION" "is_hex_32 (gv_guardian_id v)"
    "gv_membership_snapshot_id v = ms_snapshot_id s" "gv_candidate_digest v = ec_candidate_digest c"
    "gv_decision v = plit ''approve'' \<or> gv_decision v = plit ''reject''"
    "int_in 0 10000 (gv_confidence_bps v)" "gv_model_tier v = plit ''8b''"
    "is_hex_32 (gv_model_artifact_sha256 v)"
proof -
  have c: "is_valid_candidate c" and v: "is_valid_vote v c s = Inr True"
    using assms by (auto simp: is_valid_guardian_vote_def split: if_splits)
  obtain m where "vote_bound v c s m"
    using v by (auto simp: is_valid_vote_def split: option.splits)
  then show "gv_protocol_version v = PInt ENSEMBLE_PROTOCOL_VERSION" "is_hex_32 (gv_guardian_id v)"
    "gv_membership_snapshot_id v = ms_snapshot_id s" "gv_candidate_digest v = ec_candidate_digest c"
    "gv_decision v = plit ''approve'' \<or> gv_decision v = plit ''reject''"
    "int_in 0 10000 (gv_confidence_bps v)" "gv_model_tier v = plit ''8b''"
    "is_hex_32 (gv_model_artifact_sha256 v)"
    using c by (auto simp: vote_bound_def is_sha256_def is_hex_32_def is_valid_candidate_def)
qed

lemma signed_part_fields [simp]:
  "sb_session_id (signed_part b) = sb_session_id b" "sb_network_id (signed_part b) = sb_network_id b"
  "sb_membership_snapshot_id (signed_part b) = sb_membership_snapshot_id b"
  "sb_candidate_digest (signed_part b) = sb_candidate_digest b"
  "sb_guardian_id (signed_part b) = sb_guardian_id b" "sb_decision (signed_part b) = sb_decision b"
  "sb_confidence_bps (signed_part b) = sb_confidence_bps b" "sb_nonce (signed_part b) = sb_nonce b"
  "sb_model_tier (signed_part b) = sb_model_tier b"
  "sb_model_artifact_sha256 (signed_part b) = sb_model_artifact_sha256 b"
  "sb_vote_protocol_version (signed_part b) = sb_vote_protocol_version b"
  "sb_issued_at_ms (signed_part b) = sb_issued_at_ms b"
  "sb_expires_at_ms (signed_part b) = sb_expires_at_ms b"
  "sb_payload_digest (signed_part b) = sb_payload_digest b"
  by (simp_all add: signed_part_def BallotSigningRequest.truncate_def)

lemma request_wf:
  assumes "BallotSigningRequest_create B v c s ses nonce i e = Inr r"
  shows "wf_ballot r"
proof -
  note r = assms [unfolded BallotSigningRequest_create_iff validate_ballot_window_iff]
  have ses: "is_valid_session B ses c s" and vote: "is_valid_guardian_vote v c s = Inr True"
    using r by blast+
  have "ballot_payload (x\<lparr>sb_payload_digest := d\<rparr>) = ballot_payload x" for x :: BallotSigningRequest and d
    by (simp add: ballot_payload_def)
  moreover have "is_hex_32 (ms_snapshot_id s)" "is_hex_32 (ec_candidate_digest c)"
    "is_hex_32 (se_session_id ses)" "is_network_id (se_network_id ses)"
    using ses by (auto simp: is_valid_session_def is_valid_session_shape_def)
  ultimately show ?thesis
    using r valid_guardian_vote_fields [OF vote] unfolding wf_ballot_def Let_def
    by (metis (no_types, lifting) BallotSigningRequest.select_convs BallotSigningRequest.update_convs(15))
qed

lemma request_fields:
  assumes "BallotSigningRequest_create B v c s ses nonce i e = Inr r"
  shows "sb_session_id r = se_session_id ses" "sb_network_id r = se_network_id ses"
    "sb_membership_snapshot_id r = gv_membership_snapshot_id v" "sb_candidate_digest r = gv_candidate_digest v"
    "sb_issued_at_ms r = i" "sb_expires_at_ms r = e" "sb_guardian_id r = gv_guardian_id v"
    "sb_decision r = gv_decision v" "sb_confidence_bps r = gv_confidence_bps v"
    "sb_model_tier r = gv_model_tier v" "sb_model_artifact_sha256 r = gv_model_artifact_sha256 v"
    "sb_vote_protocol_version r = gv_protocol_version v" "sb_nonce r = nonce"
  using assms by (auto simp: BallotSigningRequest_create_def Let_def split: if_splits)

text \<open>A ballot requested for a valid vote and signed by the guardian's key passes the verifier.\<close>

lemma honest_ballot_verifies:
  assumes req: "BallotSigningRequest_create B v c s ses nonce i e = Inr r"
    and att: "attach_signature r sig = Inr b"
    and sg: "sg \<in> set (se_signers ses)" "sg_guardian_id sg = gv_guardian_id v" "verify_signature B sg b"
    and now: "is_timestamp (PInt now_ms)" "the_int i \<le> now_ms + MAX_CLOCK_SKEW_MS" "now_ms < the_int e"
  shows "verify B b c s ses now_ms = Inr v"
proof -
  note r = req [unfolded BallotSigningRequest_create_iff validate_ballot_window_iff]
  have part: "signed_part b = r" and sig: "sb_signature b = sig" "is_hex_64 sig"
    using attach_signature_simps [OF att] by auto
  have ses: "is_valid_session B ses c s" and vote: "is_valid_guardian_vote v c s = Inr True"
    using r by blast+
  have d: "distinct (map sg_guardian_id (se_signers ses))"
    using ses validated_signers_facts(3) by (auto simp: is_valid_session_def)
  have "wf_ballot b" using request_wf [OF req] part by (metis signed_part_simps(2))
  then have shape: "is_valid_envelope_shape b"
    using sig wf_signed_iff [of b] by (simp add: wf_signed_def)
  note fields = request_fields [OF req]
  have b: "sb_session_id b = se_session_id ses" "sb_network_id b = se_network_id ses"
    "sb_membership_snapshot_id b = ms_snapshot_id s" "sb_candidate_digest b = ec_candidate_digest c"
    "sb_issued_at_ms b = i" "sb_expires_at_ms b = e" "to_vote b = v"
    using fields valid_guardian_vote_fields(3,4) [OF vote] unfolding part [symmetric]
    by (simp_all add: to_vote_def)
  have "find (\<lambda>x. sg_guardian_id x = sb_guardian_id b) (se_signers ses) = Some sg"
    using find_distinct [OF d sg(1)] sg(2) b(7) by (auto simp: to_vote_def)
  then show ?thesis
    using ses shape b vote sg(3) now r by (simp add: verify_iff is_fresh_envelope_def)
qed

subsection \<open>The ledger as a state machine\<close>

text \<open>
  A step of the ledger is an accepted ballot or a pruning; an operation that raises is rolled back.
  The second component records every acceptance, newest first: the session it was accepted for
  and the ballot.
\<close>

type_synonym acceptance = "BallotSession \<times> SignedGuardianBallot"

inductive ledger_step ::
  "py_env \<Rightarrow> bip340 \<Rightarrow> ledger \<times> acceptance list \<Rightarrow> ledger \<times> acceptance list \<Rightarrow> bool" for E B where
  step_accept: "accept_wire E B L (to_wire b) c s ses now_ms = Inr (v, L') \<Longrightarrow>
     from_wire E (to_wire b) = Inr b \<Longrightarrow> ledger_step E B (L, hs) (L', (ses, b) # hs)"
| step_prune: "prune_expired L now_ms = Inr (n, L') \<Longrightarrow> ledger_step E B (L, hs) (L', hs)"

definition ledger_reachable :: "py_env \<Rightarrow> bip340 \<Rightarrow> ledger \<times> acceptance list \<Rightarrow> bool" where
  "ledger_reachable E B = (ledger_step E B)\<^sup>*\<^sup>* (new_ledger, [])"

definition same_slot :: "acceptance \<Rightarrow> acceptance \<Rightarrow> bool" where
  "same_slot x y \<longleftrightarrow> sb_session_id (snd x) = sb_session_id (snd y) \<and>
     (sb_guardian_id (snd x) = sb_guardian_id (snd y) \<or> sb_nonce (snd x) = sb_nonce (snd y))"

definition session_collision :: "BallotSession \<Rightarrow> BallotSession \<Rightarrow> bool" where
  "session_collision x y = sha256_collision (digest_preimage SESSION_DOMAIN (session_payload x))
                                            (digest_preimage SESSION_DOMAIN (session_payload y))"

text \<open>An acceptance is still recorded in the table, or its session is over.\<close>

definition recorded :: "bip340 \<Rightarrow> ledger \<Rightarrow> acceptance \<Rightarrow> bool" where
  "recorded B L h \<longleftrightarrow>
     is_valid_session_shape B (fst h) \<and> sb_session_id (snd h) = se_session_id (fst h) \<and>
     ((\<exists>r \<in> set (lg_accepted_ballots L). ab_session_id r = sb_session_id (snd h) \<and>
         ab_guardian_id r = sb_guardian_id (snd h) \<and> ab_nonce r = sb_nonce (snd h) \<and>
         ab_session_valid_until_ms r = the_int (se_valid_until_ms (fst h))) \<or>
      the_int (se_valid_until_ms (fst h)) \<le> lg_high_water_ms L)"

definition ledger_inv :: "bip340 \<Rightarrow> ledger \<times> acceptance list \<Rightarrow> bool" where
  "ledger_inv B st \<longleftrightarrow>
     (\<forall>h \<in> set (snd st). recorded B (fst st) h) \<and>
     sorted_wrt (\<lambda>x y. same_slot x y \<longrightarrow> session_collision (fst x) (fst y)) (snd st)"

lemma recorded_grow:
  assumes "recorded B L h" and "set (lg_accepted_ballots L) \<subseteq> set (lg_accepted_ballots L')"
    and "lg_high_water_ms L \<le> lg_high_water_ms L'"
  shows "recorded B L' h"
  using assms unfolding recorded_def by (meson order_trans subsetD)

inductive_cases ledger_stepE: "ledger_step E B (L, hs) st"

lemma consume_Inr:
  assumes "consume B L b ses wire t = Inr L'"
  obtains row where "lg_high_water_ms L \<le> t" and "lg_high_water_ms L' = t" and "to_wire b = wire"
    and "is_valid_session_shape B ses" and "sb_session_id b = se_session_id ses"
    and "\<not> violates_constraint L row"
    and "lg_accepted_ballots L' = lg_accepted_ballots L @ [row]"
    and "row = \<lparr>ab_session_id = sb_session_id b, ab_guardian_id = sb_guardian_id b,
                ab_nonce = sb_nonce b, ab_expires_at_ms = the_int (sb_expires_at_ms b),
                ab_session_valid_until_ms = the_int (se_valid_until_ms ses),
                ab_accepted_at_ms = t, ab_wire = wire\<rparr>"
  using assms
  by (auto simp: consume_def advance_time_def Let_def violates_constraint_def split: if_splits)

lemma accept_wire_iff:
  "accept_wire E B L wire c s ses t = Inr (v, L') \<longleftrightarrow>
     (\<exists>b. from_wire E wire = Inr b \<and> verify B b c s ses t = Inr v \<and> consume B L b ses wire t = Inr L')"
  by (auto simp: accept_wire_def)

lemma ledger_inv_accept:
  assumes inv: "ledger_inv B (L, hs)" and acc: "accept_wire E B L (to_wire b) c s ses t = Inr (v, L')"
    and b: "from_wire E (to_wire b) = Inr b"
  shows "ledger_inv B (L', (ses, b) # hs)"
proof -
  have ver: "verify B b c s ses t = Inr v" and con: "consume B L b ses (to_wire b) t = Inr L'"
    using acc b by (auto simp: accept_wire_iff)
  obtain row where row: "lg_high_water_ms L \<le> t" "lg_high_water_ms L' = t"
    "is_valid_session_shape B ses" "sb_session_id b = se_session_id ses" "\<not> violates_constraint L row"
    "lg_accepted_ballots L' = lg_accepted_ballots L @ [row]"
    "ab_session_id row = sb_session_id b" "ab_guardian_id row = sb_guardian_id b"
    "ab_nonce row = sb_nonce b" "ab_session_valid_until_ms row = the_int (se_valid_until_ms ses)"
    using consume_Inr [OF con] by (metis accepted_ballot.select_convs(1-5))
  have fresh: "t < the_int (se_valid_until_ms ses)"
    using ver by (auto simp: verify_iff is_fresh_envelope_def)
  have old: "session_collision ses (fst h)" if h: "h \<in> set hs" and slot: "same_slot (ses, b) h" for h
  proof -
    have rec: "recorded B L h" using inv h by (simp add: ledger_inv_def)
    then have "the_int (se_valid_until_ms (fst h)) \<le> lg_high_water_ms L"
      using row(5,7-9) slot
      by (auto simp: recorded_def violates_constraint_def list_ex_iff same_slot_def)
    then have "ses \<noteq> fst h" using fresh row(1) by auto
    moreover have "canonical_digest SESSION_DOMAIN (session_payload ses) =
        canonical_digest SESSION_DOMAIN (session_payload (fst h))"
      using row(3,4) rec slot by (simp add: is_valid_session_shape_def same_slot_def recorded_def)
    ultimately show ?thesis
      using sess.binding [of B ses "fst h"] row(3) rec by (auto simp: session_collision_def recorded_def)
  qed
  have "recorded B L' (ses, b)" using row by (simp add: recorded_def)
  moreover have "recorded B L' h" if "h \<in> set hs" for h
  proof (rule recorded_grow)
    show "recorded B L h" using that inv by (simp add: ledger_inv_def)
    show "set (lg_accepted_ballots L) \<subseteq> set (lg_accepted_ballots L')" by (auto simp: row(6))
    show "lg_high_water_ms L \<le> lg_high_water_ms L'" using row(1) by (simp add: row(2))
  qed
  ultimately show ?thesis using inv old by (simp add: ledger_inv_def)
qed

lemma ledger_inv_prune:
  assumes inv: "ledger_inv B (L, hs)" and pr: "prune_expired L t = Inr (n, L')"
  shows "ledger_inv B (L', hs)"
proof -
  have "lg_high_water_ms L \<le> t" "lg_high_water_ms L' = t"
    "lg_accepted_ballots L' = filter (\<lambda>r. \<not> ab_session_valid_until_ms r \<le> t) (lg_accepted_ballots L)"
    using pr by (auto simp: prune_expired_def advance_time_def Let_def split: if_splits)
  then show ?thesis using inv by (fastforce simp: ledger_inv_def recorded_def)
qed

lemma ledger_inv_reachable: "ledger_reachable E B st \<Longrightarrow> ledger_inv B st"
  unfolding ledger_reachable_def
proof (induction rule: rtranclp_induct)
  case base
  show ?case by (simp add: ledger_inv_def new_ledger_def)
next
  case (step y z)
  then show ?case
    by (cases y) (auto elim!: ledger_stepE intro: ledger_inv_accept ledger_inv_prune)
qed

subsection \<open>The collector\<close>

lemma session_wires_Inr:
  "session_wires L i = Inr ws \<Longrightarrow>
     \<forall>w \<in> set ws. \<exists>r \<in> set (lg_accepted_ballots L). ab_session_id r = i \<and> ab_wire r = w"
  by (auto simp: session_wires_def split: if_splits)

lemma evaluate_approved_votes:
  "evaluate c s votes = Inr d \<Longrightarrow> ed_approved d \<Longrightarrow> votes \<noteq> []"
  using evaluate_iff [of c s votes d] is_valid_snapshot_members(2) [of s]
  by (auto simp: committee_approves_def complete_ballot_def MIN_ENSEMBLE_MEMBERS_def)

lemma collector_votes:
  assumes "collector_evaluate E B L c s ses t = Inr d" and "ed_approved d"
  obtains bs where "is_valid_session B ses c s"
    and "session_wires L (se_session_id ses) = Inr (map to_wire bs)"
    and "\<forall>b \<in> set bs. verify B b c s ses t = Inr (to_vote b)"
    and "evaluate c s (map to_vote bs) = Inr d"
proof -
  have ses: "is_valid_session B ses c s"
  proof (rule ccontr)
    assume "\<not> is_valid_session B ses c s"
    then have "evaluate c s [] = Inr d" using assms(1) by (simp add: collector_evaluate_def)
    with assms(2) evaluate_approved_votes show False by blast
  qed
  let ?m = "rbind (session_wires L (se_session_id ses)) (rmap (reverify E B c s ses t))"
  obtain votes where votes: "catch ?m is_transport_error (\<lambda>_. Inr []) = Inr votes" "evaluate c s votes = Inr d"
    using assms(1) ses by (auto simp: collector_evaluate_def)
  have "votes \<noteq> []" using votes(2) assms(2) evaluate_approved_votes by blast
  then have "?m = Inr votes" using votes(1) by (cases ?m) (auto simp: catch_Inl split: if_splits)
  then obtain ws where ws: "session_wires L (se_session_id ses) = Inr ws"
    and all: "list_all2 (\<lambda>w v. reverify E B c s ses t w = Inr v) ws votes"
    by (auto simp: rmap_eq_Inr_iff)
  have "\<exists>bs. ws = map to_wire bs \<and> votes = map to_vote bs \<and> (\<forall>b \<in> set bs. verify B b c s ses t = Inr (to_vote b))"
    using all
  proof (induction rule: list_all2_induct)
    case (Cons w ws v votes)
    then obtain bs b where "ws = map to_wire bs" "votes = map to_vote bs"
      "\<forall>b \<in> set bs. verify B b c s ses t = Inr (to_vote b)"
      "from_wire E w = Inr b" "verify B b c s ses t = Inr v"
      by (auto simp: reverify_def)
    then have "w # ws = map to_wire (b # bs) \<and> v # votes = map to_vote (b # bs) \<and>
        (\<forall>b \<in> set (b # bs). verify B b c s ses t = Inr (to_vote b))"
      using from_wire_enc by (auto simp: verify_iff)
    then show ?case by (rule exI)
  qed simp
  then show thesis using ses ws votes(2) that by blast
qed

subsection \<open>A concrete session\<close>

text \<open>A key check and a signature scheme that accept everything, a session of the example committee
  and one ballot per member.\<close>

definition B0 :: bip340 where
  "B0 = \<lparr>xonly_parses = \<lambda>_. True, xonly_verify = \<lambda>_ _ _. Some True\<rparr>"

definition E0 :: py_env where
  "E0 = \<lparr>float_repr = id, json_depth = 10, json_constants = True\<rparr>"

definition ex_signer :: "nat \<Rightarrow> BallotSigner" where
  "ex_signer n = \<lparr>sg_guardian_id = hexid n, sg_xonly_public_key = hexid n\<rparr>"

definition ex_session :: BallotSession where
  "ex_session = projr (BallotSession_create B0 ex_candidate ex_snapshot (map ex_signer [0, 1, 2, 3, 4])
     (plit ''mainnet'') (hexid 1) (PInt 1000) (PInt 100000))"

definition ex_request :: "nat \<Rightarrow> bool \<Rightarrow> BallotSigningRequest" where
  "ex_request n ok = projr (BallotSigningRequest_create B0 (ex_vote n ok) ex_candidate ex_snapshot
     ex_session (hexid n) (PInt 1000) (PInt 50000))"

definition ex_ballot :: "nat \<Rightarrow> bool \<Rightarrow> SignedGuardianBallot" where
  "ex_ballot n ok = projr (attach_signature (ex_request n ok) (PStr (replicate 128 97)))"

lemma ex_signers_validated:
  "validated_signers B0 (map ex_signer [0, 1, 2, 3, 4]) ex_snapshot = Inr (map ex_signer [0, 1, 2, 3, 4])"
proof -
  let ?sgs = "map ex_signer [0, 1, 2, 3, 4]"
  have "sorted (map signer_key ?sgs)"
    by (simp add: ex_signer_def signer_key_def hexid_def replicate_le)
  then have "sort_key signer_key ?sgs = ?sgs" by (rule sort_key_sorted)
  moreover have "is_valid_signer B0 (ex_signer n)" for n
    using hexid_sha [of n] by (simp add: is_valid_signer_def ex_signer_def B0_def is_hex_32_def is_sha256_def)
  moreover have "is_str (sg_guardian_id (ex_signer n))" for n by (simp add: ex_signer_def hexid_def)
  moreover have "map sg_guardian_id ?sgs = map gm_guardian_id (ms_members ex_snapshot)"
    by (simp add: ex_signer_def ex_snapshot_def ex_members_def ex_member_def)
  moreover have "distinct (map sg_guardian_id ?sgs)" "distinct (map sg_xonly_public_key ?sgs)"
    by (simp_all add: ex_signer_def)
  ultimately show ?thesis by (simp add: validated_signers_def Let_def)
qed

lemma ex_session_created:
  "BallotSession_create B0 ex_candidate ex_snapshot (map ex_signer [0, 1, 2, 3, 4])
     (plit ''mainnet'') (hexid 1) (PInt 1000) (PInt 100000) = Inr ex_session"
  using ex_valid ex_signers_validated hexid_sha [of 1]
  by (simp add: ex_session_def BallotSession_create_def validate_session_window_def is_timestamp_def
      MAX_SQLITE_INT_def MAX_SESSION_LIFETIME_MS_def is_hex_32_def is_sha256_def Let_def)

lemmas ex_session_valid = BallotSession_create_valid [OF ex_session_created]

lemma ex_session_fields:
  "se_valid_from_ms ex_session = PInt 1000" "se_valid_until_ms ex_session = PInt 100000"
  "se_signers ex_session = map ex_signer [0, 1, 2, 3, 4]"
  using BallotSession_create_fields [OF ex_session_created] ex_signers_validated by simp_all

lemma ex_request_created:
  assumes "n < 5"
  shows "BallotSigningRequest_create B0 (ex_vote n ok) ex_candidate ex_snapshot ex_session (hexid n)
     (PInt 1000) (PInt 50000) = Inr (ex_request n ok)"
proof -
  have "is_valid_guardian_vote (ex_vote n ok) ex_candidate ex_snapshot = Inr True"
    using ex_valid ex_vote_valid [OF assms] by (simp add: is_valid_guardian_vote_def)
  moreover have "validate_ballot_window ex_session (PInt 1000) (PInt 50000) = Inr ()"
    by (simp add: validate_ballot_window_iff is_timestamp_def MAX_SQLITE_INT_def ex_session_fields
        MAX_BALLOT_LIFETIME_MS_def)
  ultimately show ?thesis
    using ex_session_valid hexid_sha [of n]
    by (simp add: ex_request_def BallotSigningRequest_create_def is_hex_32_def is_sha256_def Let_def)
qed

lemma ex_ballot_signed: "attach_signature (ex_request n ok) (PStr (replicate 128 97)) = Inr (ex_ballot n ok)"
  by (simp add: ex_ballot_def attach_signature_def is_hex_64_def is_lower_hex_def list_all_iff is_hex_char_def)

lemma ex_ballot_verifies:
  assumes "n < 5"
  shows "verify B0 (ex_ballot n ok) ex_candidate ex_snapshot ex_session 2000 = Inr (ex_vote n ok)"
proof (rule honest_ballot_verifies [OF ex_request_created [OF assms] ex_ballot_signed])
  show "ex_signer n \<in> set (se_signers ex_session)"
    using assms by (auto simp: ex_session_fields numeral_eq_Suc less_Suc_eq)
  show "verify_signature B0 (ex_signer n) (ex_ballot n ok)" by (simp add: verify_signature_iff B0_def)
qed (simp_all add: ex_signer_def ex_vote_def is_timestamp_def MAX_SQLITE_INT_def MAX_CLOCK_SKEW_MS_def)

lemma ex_ballot_fields:
  assumes "n < 5"
  shows "sb_guardian_id (ex_ballot n ok) = hexid n" "sb_nonce (ex_ballot n ok) = hexid n"
    "sb_session_id (ex_ballot n ok) = se_session_id ex_session"
    "sb_expires_at_ms (ex_ballot n ok) = PInt 50000"
proof -
  have "signed_part (ex_ballot n ok) = ex_request n ok" by (rule attach_signature_simps [OF ex_ballot_signed])
  moreover have "sb_guardian_id (ex_request n ok) = hexid n" "sb_nonce (ex_request n ok) = hexid n"
    "sb_session_id (ex_request n ok) = se_session_id ex_session"
    "sb_expires_at_ms (ex_request n ok) = PInt 50000"
    using request_fields [OF ex_request_created [OF assms, of ok]] by (simp_all add: ex_vote_def)
  ultimately show "sb_guardian_id (ex_ballot n ok) = hexid n" "sb_nonce (ex_ballot n ok) = hexid n"
    "sb_session_id (ex_ballot n ok) = se_session_id ex_session"
    "sb_expires_at_ms (ex_ballot n ok) = PInt 50000"
    by (metis signed_part_fields)+
qed

lemma ex_ballot_decodes: "n < 5 \<Longrightarrow> from_wire E0 (to_wire (ex_ballot n ok)) = Inr (ex_ballot n ok)"
  by (rule from_wire_to_wire [OF verify_wf [OF ex_ballot_verifies]]) (simp_all add: E0_def)

definition ex_row :: "nat \<Rightarrow> bool \<Rightarrow> accepted_ballot" where
  "ex_row n ok =
     \<lparr>ab_session_id = se_session_id ex_session, ab_guardian_id = hexid n, ab_nonce = hexid n,
      ab_expires_at_ms = 50000, ab_session_valid_until_ms = 100000, ab_accepted_at_ms = 2000,
      ab_wire = to_wire (ex_ballot n ok)\<rparr>"

lemma ex_accept:
  assumes "n < 5" and "lg_high_water_ms L \<le> 2000"
    and "\<forall>r \<in> set (lg_accepted_ballots L). ab_guardian_id r \<noteq> hexid n \<and> ab_nonce r \<noteq> hexid n"
  shows "accept_wire E0 B0 L (to_wire (ex_ballot n ok)) ex_candidate ex_snapshot ex_session 2000 =
    Inr (ex_vote n ok, \<lparr>lg_accepted_ballots = lg_accepted_ballots L @ [ex_row n ok], lg_high_water_ms = 2000\<rparr>)"
proof -
  have "is_str (hexid n)" by (simp add: hexid_def)
  then have "consume B0 L (ex_ballot n ok) ex_session (to_wire (ex_ballot n ok)) 2000 =
      Inr \<lparr>lg_accepted_ballots = lg_accepted_ballots L @ [ex_row n ok], lg_high_water_ms = 2000\<rparr>"
    using assms ex_session_valid ex_ballot_fields [OF assms(1), of ok]
    by (auto simp: consume_def is_timestamp_def MAX_SQLITE_INT_def is_valid_session_def advance_time_def
        Let_def violates_constraint_def list_ex_iff ex_row_def ex_session_fields)
  with assms(1) show ?thesis
    by (simp add: accept_wire_def ex_ballot_decodes ex_ballot_verifies)
qed

definition ex_ledger :: ledger where
  "ex_ledger = \<lparr>lg_accepted_ballots = map2 ex_row [0, 1, 2, 3, 4] [True, True, True, False, False],
                lg_high_water_ms = 2000\<rparr>"

lemma ex_evaluated:
  "collector_evaluate E0 B0 ex_ledger ex_candidate ex_snapshot ex_session 2000 =
     Inr (approved_decision ex_candidate ex_snapshot (tally_of ex_votes))"
proof -
  let ?rows = "lg_accepted_ballots ex_ledger"
  have rows: "?rows = [ex_row 0 True, ex_row 1 True, ex_row 2 True, ex_row 3 False, ex_row 4 False]"
    by (simp add: ex_ledger_def)
  have "filter (\<lambda>r. ab_session_id r = se_session_id ex_session) ?rows = ?rows"
    by (simp add: rows ex_row_def)
  moreover have "sort_key (\<lambda>r. the_str (ab_guardian_id r)) ?rows = ?rows"
    by (rule sort_key_sorted) (simp add: rows ex_row_def hexid_def replicate_le)
  moreover have "is_hex_32 (se_session_id ex_session)"
    using ex_session_valid by (simp add: is_valid_session_def is_valid_session_shape_def)
  ultimately have "session_wires ex_ledger (se_session_id ex_session) = Inr (map ab_wire ?rows)"
    by (simp add: session_wires_def)
  moreover have "reverify E0 B0 ex_candidate ex_snapshot ex_session 2000 (to_wire (ex_ballot n ok)) =
      Inr (ex_vote n ok)" if "n < 5" for n ok
    using that by (simp add: reverify_def ex_ballot_decodes ex_ballot_verifies)
  then have "rmap (reverify E0 B0 ex_candidate ex_snapshot ex_session 2000) (map ab_wire ?rows) = Inr ex_votes"
    by (simp add: rows ex_row_def ex_votes_def)
  ultimately show ?thesis
    by (simp add: collector_evaluate_def ex_session_valid ex_evaluate)
qed

subsection \<open>Properties\<close>

text \<open>A ballot of the shape the verifier accepts is decoded back from its canonical wire, which is
  within the size limit, and no other byte string decodes to it: the wire format is not malleable.\<close>

lemma ballot_wire_roundtrip:
  assumes "is_valid_envelope_shape b" and "sb_vote_protocol_version b = PInt ENSEMBLE_PROTOCOL_VERSION"
    and "1 \<le> json_depth E"
  shows "length (to_wire b) \<le> MAX_BALLOT_WIRE_BYTES \<and> (from_wire E w = Inr b \<longleftrightarrow> w = to_wire b)"
proof -
  have wf: "wf_signed b" using assms(1,2) by (simp add: wf_signed_iff)
  have "from_wire E (to_wire b) = Inr b" using wf assms(3) by (rule from_wire_to_wire)
  then have "length (to_wire b) \<le> MAX_BALLOT_WIRE_BYTES"
    by (auto simp: from_wire_def split: if_splits)
  then show ?thesis using bc.dec_iff [of b E w] wf assms(3) by simp
qed

text \<open>\<open>BallotSession.create\<close> yields a session that the verifier accepts for its candidate and
  committee: one valid key per committee member, a bounded window, and an id that commits to all of it,
  so that another valid session with the same id is the same session or a SHA-256 collision.\<close>

lemma session_create_binding:
  assumes "BallotSession_create B c s signers net nonce valid_from valid_until = Inr ses"
  shows "is_valid_session B ses c s \<and>
    set (map sg_guardian_id (se_signers ses)) = set (map gm_guardian_id (ms_members s)) \<and>
    0 < the_int valid_until - the_int valid_from \<and> the_int valid_until - the_int valid_from \<le> 900000 \<and>
    (is_valid_session_shape B ses' \<and> se_session_id ses' = se_session_id ses \<longrightarrow>
       ses' = ses \<or> sha256_collision (digest_preimage SESSION_DOMAIN (session_payload ses'))
                                     (digest_preimage SESSION_DOMAIN (session_payload ses)))"
proof -
  have v: "is_valid_session B ses c s" using assms by (rule BallotSession_create_valid)
  then have shape: "is_valid_session_shape B ses" by (simp add: is_valid_session_def)
  note f = BallotSession_create_fields [OF assms]
  have "the_int valid_from < the_int valid_until"
    "the_int valid_until \<le> the_int valid_from + MAX_SESSION_LIFETIME_MS"
    using shape f by (auto simp: is_valid_session_shape_def validate_session_window_iff)
  moreover have "ses' = ses \<or> sha256_collision (digest_preimage SESSION_DOMAIN (session_payload ses'))
                                     (digest_preimage SESSION_DOMAIN (session_payload ses))"
    if "is_valid_session_shape B ses'" "se_session_id ses' = se_session_id ses"
    using sess.binding [OF that(1) shape] that shape by (simp add: is_valid_session_shape_def)
  ultimately show ?thesis
    using v validated_signers_facts(4) [OF f(4)] by (simp add: MAX_SESSION_LIFETIME_MS_def)
qed

text \<open>C22. The verifier is sound: a vote it returns is the vote of the ballot, cast within the ballot's
  and the session's window by a committee member whose session key signs the digest of the ballot's
  canonical payload; and any well-formed ballot with the same signed digest has the same signed fields,
  unless SHA-256 collides.\<close>

theorem verified_ballot_sound:
  assumes "verify B b c s ses now_ms = Inr v"
  shows "v = to_vote b \<and> is_valid_guardian_vote v c s = Inr True \<and>
    (\<exists>sg \<in> set (se_signers ses). sg_guardian_id sg = gv_guardian_id v \<and>
       xonly_verify B (bytes_fromhex (the_str (sg_xonly_public_key sg)))
         (bytes_fromhex (the_str (sb_signature b)))
         (sha256 (digest_preimage BALLOT_DOMAIN (ballot_payload b))) = Some True) \<and>
    sb_session_id b = se_session_id ses \<and> sb_network_id b = se_network_id ses \<and>
    the_int (se_valid_from_ms ses) \<le> the_int (sb_issued_at_ms b) \<and>
    the_int (sb_issued_at_ms b) \<le> now_ms + 30000 \<and> now_ms < the_int (sb_expires_at_ms b) \<and>
    the_int (sb_expires_at_ms b) \<le> the_int (se_valid_until_ms ses) \<and>
    the_int (sb_expires_at_ms b) \<le> the_int (sb_issued_at_ms b) + 120000 \<and>
    (wf_ballot r \<and> sb_payload_digest r = sb_payload_digest b \<longrightarrow>
       r = signed_part b \<or> sha256_collision (digest_preimage BALLOT_DOMAIN (ballot_payload r))
                                            (digest_preimage BALLOT_DOMAIN (ballot_payload b)))"
proof -
  note v = assms [unfolded verify_iff]
  have wf: "wf_ballot b" using verify_wf [OF assms] by (simp add: wf_signed_def)
  have dig: "sb_payload_digest b = canonical_digest BALLOT_DOMAIN (ballot_payload b)"
    using wf by (rule wf_ballot_digest)
  obtain sg where "find (\<lambda>sg. sg_guardian_id sg = sb_guardian_id b) (se_signers ses) = Some sg"
    and sig: "verify_signature B sg b" using v by blast
  then have sg: "sg \<in> set (se_signers ses)" "sg_guardian_id sg = gv_guardian_id v"
    using v by (auto dest: find_SomeD simp: to_vote_def)
  have "xonly_verify B (bytes_fromhex (the_str (sg_xonly_public_key sg)))
         (bytes_fromhex (the_str (sb_signature b)))
         (sha256 (digest_preimage BALLOT_DOMAIN (ballot_payload b))) = Some True"
    using sig by (simp add: verify_signature_iff dig digest_bytes Let_def)
  moreover have "r = signed_part b \<or> sha256_collision (digest_preimage BALLOT_DOMAIN (ballot_payload r))
                                            (digest_preimage BALLOT_DOMAIN (ballot_payload b))"
    if "wf_ballot r" "sb_payload_digest r = sb_payload_digest b"
    using bal.binding [of r "signed_part b" BALLOT_DOMAIN] that wf dig wf_ballot_digest [OF that(1)] by simp
  ultimately show ?thesis
    using v sg by (auto simp: is_fresh_envelope_def MAX_CLOCK_SKEW_MS_def MAX_BALLOT_LIFETIME_MS_def)
qed

theorem verified_ballot_sound_witness:
  "verify B0 (ex_ballot 0 True) ex_candidate ex_snapshot ex_session 2000 = Inr (ex_vote 0 True) \<and>
   is_valid_guardian_vote (ex_vote 0 True) ex_candidate ex_snapshot = Inr True"
proof -
  have v: "verify B0 (ex_ballot 0 True) ex_candidate ex_snapshot ex_session 2000 = Inr (ex_vote 0 True)"
    by (rule ex_ballot_verifies) simp
  with verified_ballot_sound [OF v, of "ex_request 0 True"] show ?thesis by blast
qed

text \<open>C27. An honest ballot is accepted: if a guardian requests a ballot for a valid vote, its key's
  signature verifies, the ballot arrives within its window, the clock has not gone back, and the session
  has no ballot of that guardian and no ballot with that nonce, then the collector accepts the wire,
  returns the vote, and stores the wire.\<close>

theorem honest_ballot_accepted:
  assumes "BallotSigningRequest_create B v c s ses nonce issued expires = Inr r"
    and "attach_signature r sig = Inr b"
    and "sg \<in> set (se_signers ses)" and "sg_guardian_id sg = gv_guardian_id v"
    and "verify_signature B sg b"
    and "is_timestamp (PInt now_ms)" and "the_int issued \<le> now_ms + MAX_CLOCK_SKEW_MS"
    and "now_ms < the_int expires" and "lg_high_water_ms L \<le> now_ms"
    and "\<forall>q \<in> set (lg_accepted_ballots L). ab_session_id q = se_session_id ses \<longrightarrow>
           ab_guardian_id q \<noteq> gv_guardian_id v \<and> ab_nonce q \<noteq> nonce"
    and "1 \<le> json_depth E"
  shows "\<exists>L'. accept_wire E B L (to_wire b) c s ses now_ms = Inr (v, L') \<and>
    contains_wire L' (se_session_id ses) (to_wire b) = Inr True"
proof -
  have ver: "verify B b c s ses now_ms = Inr v" using assms(1-8) by (rule honest_ballot_verifies)
  have dec: "from_wire E (to_wire b) = Inr b" using verify_wf [OF ver] assms(11) by (rule from_wire_to_wire)
  have part: "signed_part b = r" by (rule attach_signature_simps [OF assms(2)])
  have f: "sb_guardian_id b = gv_guardian_id v" "sb_nonce b = nonce" "sb_session_id b = se_session_id ses"
    using request_fields [OF assms(1)] unfolding part [symmetric] by simp_all
  have wf: "wf_ballot b" using verify_wf [OF ver] by (simp add: wf_signed_def)
  then have strs: "is_str (sb_guardian_id b)" "is_str (sb_nonce b)" "is_timestamp (sb_expires_at_ms b)"
    by (auto simp: wf_ballot_def is_hex_32_def is_hex_val_iff)
  have ses: "is_valid_session_shape B ses" using ver by (simp add: verify_iff is_valid_session_def)
  have "\<exists>L' row. consume B L b ses (to_wire b) now_ms = Inr L' \<and>
      lg_accepted_ballots L' = lg_accepted_ballots L @ [row] \<and> ab_wire row = to_wire b \<and>
      ab_session_id row = se_session_id ses"
    using assms(6,9,10) strs ses f
    by (auto simp: consume_def advance_time_def Let_def violates_constraint_def list_ex_iff)
  moreover have "is_hex_32 (se_session_id ses)" using ses by (simp add: is_valid_session_shape_def)
  ultimately show ?thesis
    by (auto simp: accept_wire_def dec ver contains_wire_def session_wires_def intro!: rev_image_eqI)
qed

theorem honest_ballot_accepted_witness:
  "\<exists>L'. accept_wire E0 B0 new_ledger (to_wire (ex_ballot 0 True)) ex_candidate ex_snapshot ex_session 2000 =
     Inr (ex_vote 0 True, L')"
proof -
  have "\<exists>L'. accept_wire E0 B0 new_ledger (to_wire (ex_ballot 0 True)) ex_candidate ex_snapshot ex_session 2000 =
     Inr (ex_vote 0 True, L') \<and> contains_wire L' (se_session_id ex_session) (to_wire (ex_ballot 0 True)) = Inr True"
  proof (rule honest_ballot_accepted [OF ex_request_created ex_ballot_signed])
    show "ex_signer 0 \<in> set (se_signers ex_session)" by (simp add: ex_session_fields)
    show "verify_signature B0 (ex_signer 0) (ex_ballot 0 True)" by (simp add: verify_signature_iff B0_def)
  qed (simp_all add: ex_signer_def ex_vote_def is_timestamp_def MAX_SQLITE_INT_def MAX_CLOCK_SKEW_MS_def
      new_ledger_def E0_def)
  then show ?thesis by blast
qed

text \<open>C6. No guardian is counted twice: over the whole life of a ledger, in any order of acceptances
  and prunings, two accepted ballots of the same session have different guardians and different nonces,
  unless the two sessions they were accepted for are a SHA-256 collision. Pruning does not weaken this:
  rows are deleted only after the session's end, and the clock high-water mark keeps an expired session
  from being accepted again.\<close>

theorem ledger_single_acceptance:
  assumes "ledger_reachable E B (L, hs)" and "i < j" and "j < length hs"
  shows "sb_session_id (snd (hs ! i)) \<noteq> sb_session_id (snd (hs ! j)) \<or>
    (sb_guardian_id (snd (hs ! i)) \<noteq> sb_guardian_id (snd (hs ! j)) \<and>
     sb_nonce (snd (hs ! i)) \<noteq> sb_nonce (snd (hs ! j))) \<or>
    sha256_collision (digest_preimage SESSION_DOMAIN (session_payload (fst (hs ! i))))
                     (digest_preimage SESSION_DOMAIN (session_payload (fst (hs ! j))))"
  using ledger_inv_reachable [OF assms(1)] assms(2,3)
  by (auto simp: ledger_inv_def sorted_wrt_iff_nth_less same_slot_def session_collision_def)

theorem ledger_single_acceptance_witness:
  "\<exists>L hs. length hs = 2 \<and> ledger_reachable E0 B0 (L, hs) \<and>
     (hexid 1 \<noteq> hexid 0 \<or> sb_session_id (snd (hs ! 0)) \<noteq> sb_session_id (snd (hs ! 1)) \<or>
      sha256_collision (digest_preimage SESSION_DOMAIN (session_payload (fst (hs ! 0))))
                       (digest_preimage SESSION_DOMAIN (session_payload (fst (hs ! 1)))))"
proof -
  let ?L1 = "\<lparr>lg_accepted_ballots = [ex_row 0 True], lg_high_water_ms = 2000\<rparr>"
  let ?L2 = "\<lparr>lg_accepted_ballots = [ex_row 0 True, ex_row 1 True], lg_high_water_ms = 2000\<rparr>"
  let ?hs = "[(ex_session, ex_ballot 1 True), (ex_session, ex_ballot 0 True)]"
  have "ledger_step E0 B0 (new_ledger, []) (?L1, [(ex_session, ex_ballot 0 True)])"
    using ex_accept [of 0 new_ledger True] by (intro step_accept) (auto simp: new_ledger_def ex_ballot_decodes)
  moreover have "ledger_step E0 B0 (?L1, [(ex_session, ex_ballot 0 True)]) (?L2, ?hs)"
    using ex_accept [of 1 ?L1 True] by (intro step_accept) (auto simp: ex_row_def ex_ballot_decodes)
  ultimately have "ledger_reachable E0 B0 (?L2, ?hs)"
    unfolding ledger_reachable_def by (meson converse_rtranclp_into_rtranclp rtranclp.rtrancl_refl)
  with ledger_single_acceptance [OF this, of 0 1] show ?thesis
    by (intro exI [of _ ?L2] exI [of _ ?hs]) (auto simp: ex_ballot_fields)
qed

text \<open>C2. If the collector approves a candidate, then the ledger holds, for this session, one ballot per
  committee member, all valid and unexpired at that time, each carrying a signature that verifies under
  the key the session assigns to its guardian; and the members whose ballots approve are more than half
  of the committee.\<close>

theorem collector_majority_signed:
  assumes "collector_evaluate E B L c s ses now_ms = Inr d" and "ed_approved d"
  shows "\<exists>bs. session_wires L (se_session_id ses) = Inr (map to_wire bs) \<and>
    mset (map sb_guardian_id bs) = mset (map gm_guardian_id (ms_members s)) \<and>
    length (ms_members s) < 2 * card {sb_guardian_id b | b. b \<in> set bs \<and> sb_decision b = plit ''approve''} \<and>
    (\<forall>b \<in> set bs. sb_candidate_digest b = ec_candidate_digest c \<and> now_ms < the_int (sb_expires_at_ms b) \<and>
       (\<exists>sg \<in> set (se_signers ses). sg_guardian_id sg = sb_guardian_id b \<and> verify_signature B sg b))"
proof -
  obtain bs where ws: "session_wires L (se_session_id ses) = Inr (map to_wire bs)"
    and ver: "\<forall>b \<in> set bs. verify B b c s ses now_ms = Inr (to_vote b)"
    and ev: "evaluate c s (map to_vote bs) = Inr d"
    by (rule collector_votes [OF assms])
  have ca: "committee_approves c s (map to_vote bs)"
    using ev assms(2) evaluate_iff by blast
  then have s: "is_valid_snapshot s" by (simp add: committee_approves_def)
  have gv: "gv_guardian_id \<circ> to_vote = sb_guardian_id"
    by (simp add: fun_eq_iff to_vote_def)
  have ids: "mset (map sb_guardian_id bs) = mset (map gm_guardian_id (ms_members s))"
    using ca by (simp add: committee_approves_def complete_ballot_def gv)
  then have dist: "distinct (map sb_guardian_id bs)"
    using is_valid_snapshot_members(1) [OF s] by (metis mset_eq_imp_distinct_iff)
  have ap: "approves (to_vote b) = (sb_decision b = plit ''approve'')" for b
    by (simp add: approves_def to_vote_def)
  let ?yes = "filter (\<lambda>b. sb_decision b = plit ''approve'') bs"
  have "length (ms_members s) < 2 * length ?yes"
    using ca by (simp add: committee_approves_def filter_map comp_def ap)
  moreover have "length ?yes = card {sb_guardian_id b | b. b \<in> set bs \<and> sb_decision b = plit ''approve''}"
  proof -
    have "distinct (map sb_guardian_id ?yes)" using dist by (rule distinct_map_filter)
    then have "length ?yes = card (set (map sb_guardian_id ?yes))"
      using distinct_card [of "map sb_guardian_id ?yes"] by (simp only: length_map)
    also have "set (map sb_guardian_id ?yes) = {sb_guardian_id b | b. b \<in> set bs \<and> sb_decision b = plit ''approve''}"
      by auto
    finally show ?thesis .
  qed
  moreover have "sb_candidate_digest b = ec_candidate_digest c \<and> now_ms < the_int (sb_expires_at_ms b) \<and>
       (\<exists>sg \<in> set (se_signers ses). sg_guardian_id sg = sb_guardian_id b \<and> verify_signature B sg b)"
    if "b \<in> set bs" for b
  proof -
    have v: "verify B b c s ses now_ms = Inr (to_vote b)" using ver that by blast
    then obtain sg where sg: "find (\<lambda>sg. sg_guardian_id sg = sb_guardian_id b) (se_signers ses) = Some sg"
      and ok: "verify_signature B sg b" by (auto simp: verify_iff)
    have "sb_candidate_digest b = ec_candidate_digest c" "now_ms < the_int (sb_expires_at_ms b)"
      using v by (auto simp: verify_iff is_fresh_envelope_def)
    with find_SomeD [OF sg] ok show ?thesis by blast
  qed
  ultimately show ?thesis using ws ids by auto
qed

theorem collector_majority_signed_witness:
  "\<exists>bs. session_wires ex_ledger (se_session_id ex_session) = Inr (map to_wire bs) \<and>
     5 < 2 * card {sb_guardian_id b | b. b \<in> set bs \<and> sb_decision b = plit ''approve''}"
proof -
  have "ed_approved (approved_decision ex_candidate ex_snapshot (tally_of ex_votes))"
    by (simp add: approved_decision_def Let_def)
  moreover have "length (ms_members ex_snapshot) = 5" by (simp add: ex_snapshot_def ex_members_def)
  ultimately show ?thesis using collector_majority_signed [OF ex_evaluated] by auto
qed

end
