(* ===== verification/Threat_Observable.thy ===== *)
theory Threat_Observable
  imports Py_Commitment
begin

text \<open>
  Model of \<open>jaeger/threat_observable.py\<close>: the canonical Threat Observable Bundle, its parser, its
  canonical bytes and its commitment. The enumerations of the source are datatypes, each with the
  function that gives the value of a member. An exception is an error code of the module or a
  class raised by the standard library (\<open>Raised\<close>).

  The objects of the module cannot be constructed except by the parser, so the \<open>isinstance\<close> tests
  of \<open>_validate_state\<close> on fields are decided by the types of the records; its other checks are kept.
\<close>

definition MAX_CANONICAL_BYTES :: nat where "MAX_CANONICAL_BYTES = 4096"
definition MIN_OBSERVABLES :: nat where "MIN_OBSERVABLES = 1"
definition MAX_OBSERVABLES :: nat where "MAX_OBSERVABLES = 16"
definition SCHEMA_VERSION :: int where "SCHEMA_VERSION = 1"
definition MIN_NETWORK_LEN :: nat where "MIN_NETWORK_LEN = 2"
definition MAX_NETWORK_LEN :: nat where "MAX_NETWORK_LEN = 64"
definition NONCE_BYTES :: nat where "NONCE_BYTES = 32"
definition MIN_BYTE_PATTERN_TOKENS :: nat where "MIN_BYTE_PATTERN_TOKENS = 8"
definition MAX_BYTE_PATTERN_TOKENS :: nat where "MAX_BYTE_PATTERN_TOKENS = 64"
definition MAX_API_IMPORT_LEN :: nat where "MAX_API_IMPORT_LEN = 96"

definition COMMITMENT_DOMAIN :: bytes where
  "COMMITMENT_DOMAIN = ascii_bytes (u ''prometheus-threat-observable-bundle-v1'') @ [0]"

datatype ObservableBundleErrorCode =
    INVALID_PAYLOAD
  | INVALID_SCHEMA_VERSION
  | INVALID_DISCLOSURE_POLICY
  | INVALID_OBSERVABLE
  | INVALID_OBSERVABLES
  | BUNDLE_TOO_LARGE
  | UNSORTED_OBSERVABLES
  | DUPLICATE_OBSERVABLE
  | NOT_CANONICAL
  | INVALID_COMMITMENT
  | INVALID_NETWORK_ID
  | INVALID_REPORT_NONCE

datatype oerr = Code ObservableBundleErrorCode | Raised pyexc

datatype DisclosurePolicy = PUBLIC_AUTO_V1 | REVIEW_REQUIRED_V1
datatype ScopePlatform = WINDOWS | LINUX | MACOS | ANY
datatype ScopeFormat = PE | ELF | MACHO | SCRIPT | DOCUMENT | UNKNOWN
datatype ObservableKind = FILE_SHA256 | API_IMPORT | BYTE_PATTERN

fun policy_value :: "DisclosurePolicy \<Rightarrow> pystr" where
  "policy_value PUBLIC_AUTO_V1 = u ''public_auto_v1''"
| "policy_value REVIEW_REQUIRED_V1 = u ''review_required_v1''"

fun platform_value :: "ScopePlatform \<Rightarrow> pystr" where
  "platform_value WINDOWS = u ''windows''"
| "platform_value LINUX = u ''linux''"
| "platform_value MACOS = u ''macos''"
| "platform_value ANY = u ''any''"

fun format_value :: "ScopeFormat \<Rightarrow> pystr" where
  "format_value PE = u ''pe''"
| "format_value ELF = u ''elf''"
| "format_value MACHO = u ''macho''"
| "format_value SCRIPT = u ''script''"
| "format_value DOCUMENT = u ''document''"
| "format_value UNKNOWN = u ''unknown''"

fun kind_value :: "ObservableKind \<Rightarrow> pystr" where
  "kind_value FILE_SHA256 = u ''file_sha256''"
| "kind_value API_IMPORT = u ''api_import''"
| "kind_value BYTE_PATTERN = u ''byte_pattern''"

text \<open>\<open>EnumClass(value)\<close>: the member with that value, or \<open>ValueError\<close> (\<open>None\<close>).\<close>

definition enum_of :: "('a \<Rightarrow> pystr) \<Rightarrow> 'a list \<Rightarrow> pystr \<Rightarrow> 'a option" where
  "enum_of value members s = find (\<lambda>m. value m = s) members"

definition policy_of :: "pystr \<Rightarrow> DisclosurePolicy option" where
  "policy_of = enum_of policy_value [PUBLIC_AUTO_V1, REVIEW_REQUIRED_V1]"

definition platform_of :: "pystr \<Rightarrow> ScopePlatform option" where
  "platform_of = enum_of platform_value [WINDOWS, LINUX, MACOS, ANY]"

definition format_of :: "pystr \<Rightarrow> ScopeFormat option" where
  "format_of = enum_of format_value [PE, ELF, MACHO, SCRIPT, DOCUMENT, UNKNOWN]"

definition kind_of :: "pystr \<Rightarrow> ObservableKind option" where
  "kind_of = enum_of kind_value [FILE_SHA256, API_IMPORT, BYTE_PATTERN]"

record ObservableScope =
  os_platform :: ScopePlatform
  os_format :: ScopeFormat

record Observable =
  ob_kind :: ObservableKind
  ob_value :: pystr

record ObservableBundle =
  obu_schema_version :: int
  obu_disclosure_policy :: DisclosurePolicy
  obu_scope :: ObservableScope
  obu_observables :: "Observable list"

subsection \<open>Field validation\<close>

definition validate_file_sha256 :: "pystr \<Rightarrow> oerr + unit" where
  "validate_file_sha256 value =
     (if length value \<noteq> 64 then Inl (Code INVALID_OBSERVABLE)
      else raise_if (\<not> list_all is_hex_char value) (Code INVALID_OBSERVABLE))"

definition is_api_start :: "nat \<Rightarrow> bool" where
  "is_api_start c \<longleftrightarrow> (65 \<le> c \<and> c \<le> 90) \<or> (97 \<le> c \<and> c \<le> 122) \<or> c = 95"

text \<open>\<open>[A-Za-z0-9_.@-]\<close>\<close>

definition is_api_char :: "nat \<Rightarrow> bool" where
  "is_api_char c \<longleftrightarrow> is_api_start c \<or> (48 \<le> c \<and> c \<le> 57) \<or> c = 46 \<or> c = 64 \<or> c = 45"

definition validate_api_import :: "pystr \<Rightarrow> oerr + unit" where
  "validate_api_import value =
     (if MAX_API_IMPORT_LEN < length value then Inl (Code INVALID_OBSERVABLE)
      else raise_if (\<not> (case value of
                           [] \<Rightarrow> False
                         | c # cs \<Rightarrow> is_api_start c \<and> length cs \<le> 95 \<and> list_all is_api_char cs))
             (Code INVALID_OBSERVABLE))"

text \<open>\<open>value.split(" ")\<close>\<close>

fun split_space :: "pystr \<Rightarrow> pystr list" where
  "split_space [] = [[]]"
| "split_space (c # cs) =
     (if c = 32 then [] # split_space cs
      else case split_space cs of [] \<Rightarrow> [[c]] | t # ts \<Rightarrow> (c # t) # ts)"

definition is_byte_token :: "pystr \<Rightarrow> bool" where
  "is_byte_token t \<longleftrightarrow> length t = 2 \<and> list_all is_hex_char t"

text \<open>The token loop; it returns the number of fixed tokens.\<close>

fun count_fixed :: "pystr list \<Rightarrow> nat \<Rightarrow> oerr + nat" where
  "count_fixed [] fixed = Inr fixed"
| "count_fixed (t # ts) fixed =
     (if t = [] then Inl (Code INVALID_OBSERVABLE)
      else if t = u ''??'' then count_fixed ts fixed
      else if \<not> is_byte_token t then Inl (Code INVALID_OBSERVABLE)
      else count_fixed ts (Suc fixed))"

definition validate_byte_pattern :: "pystr \<Rightarrow> oerr + unit" where
  "validate_byte_pattern value =
     (if \<not> is_ascii value then Inl (Code INVALID_OBSERVABLE)
      else if value = [] \<or> hd value = 32 \<or> last value = 32 then Inl (Code INVALID_OBSERVABLE)
      else let tokens = split_space value
           in if length tokens < MIN_BYTE_PATTERN_TOKENS \<or> MAX_BYTE_PATTERN_TOKENS < length tokens
              then Inl (Code INVALID_OBSERVABLE)
              else rbind (count_fixed tokens 0) (\<lambda>fixed.
                raise_if (fixed < MIN_BYTE_PATTERN_TOKENS) (Code INVALID_OBSERVABLE)))"

fun validate_observable :: "ObservableKind \<Rightarrow> pystr \<Rightarrow> oerr + unit" where
  "validate_observable FILE_SHA256 value = validate_file_sha256 value"
| "validate_observable API_IMPORT value = validate_api_import value"
| "validate_observable BYTE_PATTERN value = validate_byte_pattern value"

definition is_network_byte :: "nat \<Rightarrow> bool" where
  "is_network_byte b \<longleftrightarrow> b = 45 \<or> (48 \<le> b \<and> b \<le> 57) \<or> (97 \<le> b \<and> b \<le> 122)"

definition validate_network_id :: "pystr \<Rightarrow> oerr + unit" where
  "validate_network_id network_id =
     (if length network_id < MIN_NETWORK_LEN \<or> MAX_NETWORK_LEN < length network_id
      then Inl (Code INVALID_NETWORK_ID)
      else if hd network_id = 45 \<or> last network_id = 45 then Inl (Code INVALID_NETWORK_ID)
      else case utf8_encode network_id of
             None \<Rightarrow> Inl (Raised UnicodeEncodeError)
           | Some bs \<Rightarrow> raise_if (\<not> list_all (\<lambda>b. is_network_byte (unat b)) bs) (Code INVALID_NETWORK_ID))"

text \<open>\<open>_decode_hex\<close>\<close>

definition decode_nonce :: "pystr \<Rightarrow> oerr + bytes" where
  "decode_nonce value =
     (if length value \<noteq> NONCE_BYTES * 2 then Inl (Code INVALID_REPORT_NONCE)
      else if \<not> list_all is_hex_char value then Inl (Code INVALID_REPORT_NONCE)
      else Inr (bytes_fromhex value))"

subsection \<open>Parsing\<close>

fun parse_disclosure_policy :: "pyval \<Rightarrow> oerr + DisclosurePolicy" where
  "parse_disclosure_policy (PStr s) =
     (case policy_of s of Some p \<Rightarrow> Inr p | None \<Rightarrow> Inl (Code INVALID_DISCLOSURE_POLICY))"
| "parse_disclosure_policy _ = Inl (Code INVALID_DISCLOSURE_POLICY)"

fun parse_scope :: "pyval \<Rightarrow> oerr + ObservableScope" where
  "parse_scope (PDict d) =
     (if \<not> keys_are [''platform'', ''format''] d then Inl (Code INVALID_PAYLOAD)
      else let platform_raw = dict_at d ''platform''; format_raw = dict_at d ''format''
           in if \<not> is_str platform_raw \<or> \<not> is_str format_raw then Inl (Code INVALID_PAYLOAD)
              else case platform_of (the_str platform_raw) of
                     None \<Rightarrow> Inl (Code INVALID_PAYLOAD)
                   | Some platform \<Rightarrow>
                       (case format_of (the_str format_raw) of
                          None \<Rightarrow> Inl (Code INVALID_PAYLOAD)
                        | Some format \<Rightarrow> Inr \<lparr>os_platform = platform, os_format = format\<rparr>))"
| "parse_scope _ = Inl (Code INVALID_PAYLOAD)"

text \<open>
  The part of the two loops over observables that follows the type checks: field validation,
  disclosure policy, duplicates and order. Kinds and validated values are ASCII, so comparing their
  UTF-8 bytes is comparing their code points.
\<close>

type_synonym obs_key = "pystr \<times> pystr"

definition key_less :: "obs_key \<Rightarrow> obs_key \<Rightarrow> bool" where
  "key_less a b \<longleftrightarrow> fst a < fst b \<or> (fst a = fst b \<and> snd a < snd b)"

definition admit_observable ::
  "DisclosurePolicy \<Rightarrow> ObservableKind \<Rightarrow> pystr \<Rightarrow> obs_key option \<Rightarrow> obs_key list \<Rightarrow> oerr + obs_key" where
  "admit_observable policy kind value previous seen =
     rbind (validate_observable kind value) (\<lambda>_.
       if policy = PUBLIC_AUTO_V1 \<and> kind = BYTE_PATTERN then Inl (Code INVALID_DISCLOSURE_POLICY)
       else let current = (kind_value kind, value)
            in if current \<in> set seen then Inl (Code DUPLICATE_OBSERVABLE)
               else if (case previous of None \<Rightarrow> False | Some p \<Rightarrow> key_less current p)
                    then Inl (Code UNSORTED_OBSERVABLES)
                    else Inr current)"

fun parse_observable :: "pyval \<Rightarrow> oerr + Observable" where
  "parse_observable (PDict d) =
     (if \<not> keys_are [''kind'', ''value''] d then Inl (Code INVALID_OBSERVABLE)
      else let kind_raw = dict_at d ''kind''; value_raw = dict_at d ''value''
           in if \<not> is_str kind_raw \<or> \<not> is_str value_raw then Inl (Code INVALID_OBSERVABLE)
              else case kind_of (the_str kind_raw) of
                     None \<Rightarrow> Inl (Code INVALID_OBSERVABLE)
                   | Some kind \<Rightarrow> Inr \<lparr>ob_kind = kind, ob_value = the_str value_raw\<rparr>)"
| "parse_observable _ = Inl (Code INVALID_OBSERVABLE)"

fun parse_observables_loop ::
  "DisclosurePolicy \<Rightarrow> pyval list \<Rightarrow> obs_key option \<Rightarrow> obs_key list \<Rightarrow> oerr + Observable list" where
  "parse_observables_loop policy [] previous seen = Inr []"
| "parse_observables_loop policy (raw # raws) previous seen =
     rbind (parse_observable raw) (\<lambda>ob.
     rbind (admit_observable policy (ob_kind ob) (ob_value ob) previous seen) (\<lambda>current.
     rbind (parse_observables_loop policy raws (Some current) (current # seen)) (\<lambda>obs.
       Inr (ob # obs))))"

fun parse_observables :: "DisclosurePolicy \<Rightarrow> pyval \<Rightarrow> oerr + Observable list" where
  "parse_observables policy (PList value) =
     (if length value < MIN_OBSERVABLES \<or> MAX_OBSERVABLES < length value
      then Inl (Code INVALID_OBSERVABLES)
      else parse_observables_loop policy value None [])"
| "parse_observables policy _ = Inl (Code INVALID_PAYLOAD)"

fun validate_observable_state ::
  "DisclosurePolicy \<Rightarrow> Observable list \<Rightarrow> obs_key option \<Rightarrow> obs_key list \<Rightarrow> oerr + unit" where
  "validate_observable_state policy [] previous seen = Inr ()"
| "validate_observable_state policy (ob # obs) previous seen =
     rbind (admit_observable policy (ob_kind ob) (ob_value ob) previous seen) (\<lambda>current.
       validate_observable_state policy obs (Some current) (current # seen))"

definition validate_state :: "ObservableBundle \<Rightarrow> oerr + unit" where
  "validate_state b =
     (if obu_schema_version b \<noteq> SCHEMA_VERSION then Inl (Code INVALID_SCHEMA_VERSION)
      else if length (obu_observables b) < MIN_OBSERVABLES \<or> MAX_OBSERVABLES < length (obu_observables b)
      then Inl (Code INVALID_OBSERVABLES)
      else validate_observable_state (obu_disclosure_policy b) (obu_observables b) None [])"

definition observable_payload :: "Observable \<Rightarrow> pyval" where
  "observable_payload ob =
     PDict [(u ''kind'', PStr (kind_value (ob_kind ob))), (u ''value'', PStr (ob_value ob))]"

definition bundle_payload :: "ObservableBundle \<Rightarrow> pyval" where
  "bundle_payload b =
     PDict [(u ''schema_version'', PInt (obu_schema_version b)),
            (u ''disclosure_policy'', PStr (policy_value (obu_disclosure_policy b))),
            (u ''scope'',
             PDict [(u ''platform'', PStr (platform_value (os_platform (obu_scope b)))),
                    (u ''format'', PStr (format_value (os_format (obu_scope b))))]),
            (u ''observables'', PList (map observable_payload (obu_observables b)))]"

text \<open>\<open>_to_canonical_bytes_for_validation\<close> and the property \<open>canonical_bytes\<close>.\<close>

definition canonical_bytes :: "ObservableBundle \<Rightarrow> oerr + bytes" where
  "canonical_bytes b =
     rbind (validate_state b) (\<lambda>_.
       case compact_json (bundle_payload b) of
         None \<Rightarrow> Inl (Raised UnicodeEncodeError)
       | Some w \<Rightarrow> (if length w < 1 \<or> MAX_CANONICAL_BYTES < length w
                    then Inl (Code BUNDLE_TOO_LARGE) else Inr w))"

fun parse_bundle_object :: "pyval \<Rightarrow> oerr + ObservableBundle" where
  "parse_bundle_object (PDict d) =
     (if \<not> keys_are [''schema_version'', ''disclosure_policy'', ''scope'', ''observables''] d
      then Inl (Code INVALID_PAYLOAD)
      else let version = dict_at d ''schema_version''
           in if \<not> is_int version then Inl (Code INVALID_PAYLOAD)
              else if the_int version \<noteq> SCHEMA_VERSION then Inl (Code INVALID_SCHEMA_VERSION)
              else rbind (parse_disclosure_policy (dict_at d ''disclosure_policy'')) (\<lambda>policy.
                   rbind (parse_scope (dict_at d ''scope'')) (\<lambda>scope.
                   rbind (parse_observables policy (dict_at d ''observables'')) (\<lambda>obs.
                     Inr \<lparr>obu_schema_version = the_int version, obu_disclosure_policy = policy,
                          obu_scope = scope, obu_observables = obs\<rparr>))))"
| "parse_bundle_object _ = Inl (Code INVALID_PAYLOAD)"

text \<open>\<open>except ValueError\<close> around \<open>json.loads\<close> does not catch \<open>RecursionError\<close>.\<close>

definition parse_canonical :: "py_env \<Rightarrow> bytes \<Rightarrow> oerr + ObservableBundle" where
  "parse_canonical E wire =
     (if wire = [] then Inl (Code INVALID_PAYLOAD)
      else if MAX_CANONICAL_BYTES < length wire then Inl (Code BUNDLE_TOO_LARGE)
      else case loads_utf8 E ObservableBundleError wire of
             Inl e \<Rightarrow> Inl (if is_value_error e then Code INVALID_PAYLOAD else Raised e)
           | Inr decoded \<Rightarrow>
               rbind (parse_bundle_object decoded) (\<lambda>b.
               rbind (canonical_bytes b) (\<lambda>canonical.
                 if canonical \<noteq> wire then Inl (Code NOT_CANONICAL) else Inr b)))"

subsection \<open>Commitments\<close>

definition commitment_preimage :: "pystr \<Rightarrow> bytes \<Rightarrow> bytes \<Rightarrow> bytes" where
  "commitment_preimage network_id nonce canonical =
     COMMITMENT_DOMAIN @ [of_nat (length network_id)] @ ascii_bytes network_id @ nonce @
     be_bytes 4 (length canonical) @ canonical"

definition commitment :: "ObservableBundle \<Rightarrow> pyval \<Rightarrow> pyval \<Rightarrow> oerr + bytes" where
  "commitment b network_id report_nonce_hex =
     (if \<not> is_str network_id then Inl (Code INVALID_NETWORK_ID)
      else if \<not> is_str report_nonce_hex then Inl (Code INVALID_REPORT_NONCE)
      else rbind (validate_network_id (the_str network_id)) (\<lambda>_.
           rbind (decode_nonce (the_str report_nonce_hex)) (\<lambda>nonce.
           if length nonce \<noteq> NONCE_BYTES then Inl (Code INVALID_REPORT_NONCE)
           else rbind (canonical_bytes b) (\<lambda>canonical.
             Inr (sha256 (commitment_preimage (the_str network_id) nonce canonical))))))"

definition commitment_matches ::
  "py_env \<Rightarrow> bytes \<Rightarrow> pyval \<Rightarrow> pyval \<Rightarrow> bytes \<Rightarrow> oerr + bool" where
  "commitment_matches E expected network_id report_nonce_hex wire =
     (if length expected \<noteq> 32 then Inl (Code INVALID_COMMITMENT)
      else rbind (parse_canonical E wire) (\<lambda>b.
           rbind (commitment b network_id report_nonce_hex) (\<lambda>observed.
             Inr (expected = observed))))"

subsection \<open>Strict order\<close>

lemma key_less_irrefl [simp]: "\<not> key_less a a"
  and key_less_trans: "key_less a b \<Longrightarrow> key_less b c \<Longrightarrow> key_less a c"
  and key_less_linear: "a = b \<or> key_less a b \<or> key_less b a"
  by (auto simp: key_less_def intro: less_trans) (metis linorder_cases prod.collapse)

definition obs_key_of :: "Observable \<Rightarrow> obs_key" where
  "obs_key_of ob = (kind_value (ob_kind ob), ob_value ob)"

definition admissible :: "DisclosurePolicy \<Rightarrow> Observable \<Rightarrow> bool" where
  "admissible policy ob \<longleftrightarrow> validate_observable (ob_kind ob) (ob_value ob) = Inr () \<and>
     \<not> (policy = PUBLIC_AUTO_V1 \<and> ob_kind ob = BYTE_PATTERN)"

text \<open>The \<open>previous\<close> key is the greatest one seen.\<close>

definition loop_inv :: "obs_key option \<Rightarrow> obs_key list \<Rightarrow> bool" where
  "loop_inv previous seen \<longleftrightarrow>
     (case previous of None \<Rightarrow> seen = []
      | Some p \<Rightarrow> p \<in> set seen \<and> (\<forall>q \<in> set seen. q = p \<or> key_less q p))"

lemma admit_iff:
  assumes "loop_inv previous seen"
  shows "admit_observable policy (ob_kind ob) (ob_value ob) previous seen = Inr k \<longleftrightarrow>
    admissible policy ob \<and> k = obs_key_of ob \<and> (\<forall>p. previous = Some p \<longrightarrow> key_less p k)"
proof (cases previous)
  case None
  then show ?thesis using assms
    by (auto simp: admit_observable_def admissible_def obs_key_of_def loop_inv_def split: if_splits)
next
  case (Some p)
  let ?k = "(kind_value (ob_kind ob), ob_value ob)"
  have "?k \<notin> set seen \<and> \<not> key_less ?k p \<longleftrightarrow> key_less p ?k"
    using assms Some key_less_linear [of p ?k] key_less_trans key_less_irrefl
    by (auto simp: loop_inv_def) (metis key_less_irrefl key_less_trans)+
  then show ?thesis using Some
    by (auto simp: admit_observable_def admissible_def obs_key_of_def Let_def split: if_splits)
qed

lemma loop_inv_step:
  "loop_inv previous seen \<Longrightarrow> (\<forall>p. previous = Some p \<longrightarrow> key_less p k) \<Longrightarrow> loop_inv (Some k) (k # seen)"
  unfolding loop_inv_def by (cases previous) (force intro: key_less_trans)+

lemma validate_observable_state_iff:
  assumes "loop_inv previous seen"
  shows "validate_observable_state policy obs previous seen = Inr () \<longleftrightarrow>
    list_all (admissible policy) obs \<and>
    sorted_wrt key_less ((case previous of None \<Rightarrow> [] | Some p \<Rightarrow> [p]) @ map obs_key_of obs)"
  using assms
proof (induction obs arbitrary: previous seen)
  case Nil
  then show ?case by (simp split: option.splits)
next
  case (Cons ob obs)
  let ?k = "obs_key_of ob"
  have "validate_observable_state policy (ob # obs) previous seen = Inr () \<longleftrightarrow>
      admissible policy ob \<and> (\<forall>p. previous = Some p \<longrightarrow> key_less p ?k) \<and>
      validate_observable_state policy obs (Some ?k) (?k # seen) = Inr ()"
    using admit_iff [OF Cons.prems, of policy ob] by auto
  also have "\<dots> \<longleftrightarrow> admissible policy ob \<and> (\<forall>p. previous = Some p \<longrightarrow> key_less p ?k) \<and>
      list_all (admissible policy) obs \<and> sorted_wrt key_less (?k # map obs_key_of obs)"
  proof (cases "\<forall>p. previous = Some p \<longrightarrow> key_less p ?k")
    case True
    then show ?thesis using Cons.IH [OF loop_inv_step [OF Cons.prems True]] by simp
  qed blast
  also have "\<dots> \<longleftrightarrow> list_all (admissible policy) (ob # obs) \<and>
    sorted_wrt key_less ((case previous of None \<Rightarrow> [] | Some p \<Rightarrow> [p]) @ map obs_key_of (ob # obs))"
    by (cases previous) (auto simp del: split_paired_All intro: key_less_trans)
  finally show ?case .
qed

definition canonical_bundle :: "ObservableBundle \<Rightarrow> bool" where
  "canonical_bundle b \<longleftrightarrow> obu_schema_version b = 1 \<and>
     1 \<le> length (obu_observables b) \<and> length (obu_observables b) \<le> 16 \<and>
     list_all (admissible (obu_disclosure_policy b)) (obu_observables b) \<and>
     sorted_wrt key_less (map obs_key_of (obu_observables b))"

lemma validate_state_iff: "validate_state b = Inr () \<longleftrightarrow> canonical_bundle b"
  using validate_observable_state_iff [of None "[]" "obu_disclosure_policy b" "obu_observables b"]
  by (auto simp: validate_state_def canonical_bundle_def SCHEMA_VERSION_def MIN_OBSERVABLES_def
      MAX_OBSERVABLES_def loop_inv_def Suc_le_eq)

subsection \<open>The canonical payload\<close>

lemma enum_ofD: "enum_of value ms s = Some m \<Longrightarrow> value m = s"
  by (induction ms) (auto simp: enum_of_def split: if_splits)

lemma enum_values [simp]:
  "policy_of (policy_value p) = Some p" "platform_of (platform_value pl) = Some pl"
  "format_of (format_value f) = Some f" "kind_of (kind_value k) = Some k"
  by (cases p; cases pl; cases f; cases k; simp add: policy_of_def platform_of_def format_of_def
      kind_of_def enum_of_def)+

lemma enum_scalar [simp]:
  "list_all is_scalar (policy_value p)" "list_all is_scalar (platform_value pl)"
  "list_all is_scalar (format_value f)" "list_all is_scalar (kind_value k)"
  by (cases p; cases pl; cases f; cases k; simp)+

lemma admissible_ascii:
  assumes "admissible policy ob"
  shows "is_ascii (ob_value ob)"
proof (cases "ob_kind ob")
  case FILE_SHA256
  with assms show ?thesis
    by (auto simp: admissible_def validate_file_sha256_def is_ascii_def list_all_iff is_hex_char_ascii
        split: if_splits)
next
  case API_IMPORT
  have "c < 128" if "is_api_char c" for c using that by (auto simp: is_api_char_def is_api_start_def)
  moreover have "c < 128" if "is_api_start c" for c using that by (auto simp: is_api_start_def)
  ultimately show ?thesis using assms API_IMPORT
    by (auto simp: admissible_def validate_api_import_def is_ascii_def list_all_iff
        split: if_splits list.splits)
next
  case BYTE_PATTERN
  with assms show ?thesis
    by (auto simp: admissible_def validate_byte_pattern_def split: if_splits)
qed

lemma ascii_scalar: "is_ascii s \<Longrightarrow> list_all is_scalar s"
  by (auto simp: is_ascii_def list_all_iff intro: ascii_is_scalar)

lemma bundle_payload_plain:
  assumes "canonical_bundle b"
  shows "json_plain (bundle_payload b)"
proof -
  have "json_plain (observable_payload ob)" if "ob \<in> set (obu_observables b)" for ob
  proof -
    have "admissible (obu_disclosure_policy b) ob"
      using that assms by (simp add: canonical_bundle_def list_all_iff)
    then have "list_all is_scalar (ob_value ob)" by (intro ascii_scalar admissible_ascii)
    then show ?thesis by (simp add: observable_payload_def)
  qed
  moreover have "json_plain (PInt 1)" by (rule int_plain) simp
  ultimately show ?thesis using assms
    by (simp add: bundle_payload_def json_plain_list_iff canonical_bundle_def)
qed

lemma bundle_payload_depth: "json_depth_of (bundle_payload b) \<le> 3"
proof -
  have "json_depth_list (map observable_payload obs) \<le> 1" for obs
    by (induction obs) (auto simp: observable_payload_def)
  then show ?thesis by (simp add: bundle_payload_def)
qed

lemma parse_observable_payload [simp]: "parse_observable (observable_payload ob) = Inr ob"
  by (cases ob) (simp add: observable_payload_def keys_are_def)

lemma parse_observables_payload:
  "parse_observables_loop policy (map observable_payload obs) previous seen =
     rbind (validate_observable_state policy obs previous seen) (\<lambda>_. Inr obs)"
  by (induction obs arbitrary: previous seen) (simp_all add: rbind_assoc)

lemma parse_bundle_payload:
  "validate_state b = Inr () \<Longrightarrow> parse_bundle_object (bundle_payload b) = Inr b"
  by (cases b; cases "obu_scope b")
     (auto simp: bundle_payload_def keys_are_def parse_observables_payload validate_state_def
       split: if_splits)

subsection \<open>Every valid bundle fits the size limit\<close>

lemma split_space_length: "(\<Sum>t \<leftarrow> split_space s. length t + 1) = length s + 1"
proof (induction s)
  case (Cons c s)
  then show ?case by (cases "split_space s") auto
qed simp

lemma split_space_chars: "c \<in> set s \<Longrightarrow> c = 32 \<or> (\<exists>t \<in> set (split_space s). c \<in> set t)"
proof (induction s)
  case (Cons d s)
  then show ?case by (cases "split_space s") auto
qed simp

lemma count_fixed_tokens:
  "count_fixed ts n = Inr k \<Longrightarrow> \<forall>t \<in> set ts. length t = 2 \<and> list_all unescaped t"
proof (induction ts arbitrary: n)
  case (Cons t ts)
  have "list_all unescaped (u ''??'')" by (simp add: unescaped_def)
  with Cons show ?case
    by (auto simp: is_byte_token_def list_all_iff intro: unescaped_hex split: if_splits)
qed simp

lemma byte_pattern_bounds:
  assumes "validate_byte_pattern v = Inr ()"
  shows "length v \<le> 191 \<and> list_all unescaped v"
proof -
  let ?ts = "split_space v"
  obtain k where k: "count_fixed ?ts 0 = Inr k" and n: "length ?ts \<le> 64"
    using assms by (auto simp: validate_byte_pattern_def MAX_BYTE_PATTERN_TOKENS_def Let_def split: if_splits)
  note tok = count_fixed_tokens [OF k]
  have "(\<Sum>t \<leftarrow> ?ts. length t + 1) = (\<Sum>t \<leftarrow> ?ts. 3)"
    using tok by (intro arg_cong [where f = sum_list] map_cong) auto
  then have "length v + 1 = 3 * length ?ts"
    using split_space_length [of v] by (simp add: sum_list_triv)
  then have "length v \<le> 191" using n by linarith
  moreover have "unescaped c" if "c \<in> set v" for c
    using split_space_chars [OF that] tok by (auto simp: list_all_iff unescaped_def)
  ultimately show ?thesis by (simp add: list_all_iff)
qed

lemma admissible_bounds:
  assumes "admissible policy ob"
  shows "length (ob_value ob) \<le> 191 \<and> list_all unescaped (ob_value ob)"
proof (cases "ob_kind ob")
  case FILE_SHA256
  with assms show ?thesis
    by (auto simp: admissible_def validate_file_sha256_def list_all_iff unescaped_hex split: if_splits)
next
  case API_IMPORT
  have "unescaped c" if "is_api_char c \<or> is_api_start c" for c
    using that by (auto simp: is_api_char_def is_api_start_def unescaped_def)
  then show ?thesis using assms API_IMPORT
    by (auto simp: admissible_def validate_api_import_def list_all_iff MAX_API_IMPORT_LEN_def
        split: if_splits list.splits)
next
  case BYTE_PATTERN
  with assms byte_pattern_bounds show ?thesis by (simp add: admissible_def)
qed

lemma enum_unescaped [simp]:
  "list_all unescaped (policy_value p)" "list_all unescaped (platform_value pl)"
  "list_all unescaped (format_value f)" "list_all unescaped (kind_value k)"
  by (cases p; cases pl; cases f; cases k; simp add: unescaped_def)+

lemma enum_length:
  "length (policy_value p) \<le> 18" "length (platform_value pl) \<le> 7"
  "length (format_value f) \<le> 8" "length (kind_value k) \<le> 12"
  by (cases p; cases pl; cases f; cases k; simp)+

lemma bundle_payload_simple:
  assumes "canonical_bundle b"
  shows "json_simple (bundle_payload b)"
proof -
  have "json_simple_list (map observable_payload obs)" if "list_all (admissible p) obs" for p obs
    using that by (induction obs) (auto simp: observable_payload_def dest: admissible_bounds)
  with assms show ?thesis
    by (auto simp: canonical_bundle_def bundle_payload_def)
qed

lemma observable_text_length:
  assumes "admissible p ob"
  shows "length (json_dumps False True (observable_payload ob)) \<le> 229"
  using length_dumps_dict_plain [of True "[(u ''kind'', PStr (kind_value (ob_kind ob))), (u ''value'', PStr (ob_value ob))]"]
    admissible_bounds [OF assms] enum_length(4) [of "ob_kind ob"]
  by (simp add: observable_payload_def length_quote_unescaped)

lemma bundle_text_length:
  assumes "canonical_bundle b"
  shows "length (json_dumps False True (bundle_payload b)) \<le> 4096"
proof -
  let ?obs = "obu_observables b"
  let ?scope = "[(u ''platform'', PStr (platform_value (os_platform (obu_scope b)))),
                 (u ''format'', PStr (format_value (os_format (obu_scope b))))]"
  let ?vs = "map observable_payload ?obs"
  have "(\<Sum>v \<leftarrow> map observable_payload obs. length (json_dumps False True v) + 1) \<le> 230 * length obs"
    if "list_all (admissible p) obs" for p obs
    using that
  proof (induction obs)
    case (Cons ob obs)
    then show ?case using observable_text_length [of p ob] by simp
  qed simp
  from this [of "obu_disclosure_policy b" ?obs]
  have "length (json_dumps False True (PList ?vs)) \<le> 2 + 230 * 16"
    using length_dumps_list_le [of False True ?vs] assms
    by (simp add: canonical_bundle_def del: json_dumps.simps)
  moreover have "length (json_dumps False True (PDict ?scope)) \<le> 60"
    using length_dumps_dict_plain [of True ?scope] enum_length(2) [of "os_platform (obu_scope b)"]
      enum_length(3) [of "os_format (obu_scope b)"]
    by (simp add: length_quote_unescaped)
  moreover have "length (json_quote True (policy_value (obu_disclosure_policy b))) \<le> 20"
    using enum_length(1) [of "obu_disclosure_policy b"] by (simp add: length_quote_unescaped)
  moreover have "length (json_dumps False True (PInt 1)) \<le> 20" using length_dumps_nat [of 1] by simp
  ultimately show ?thesis
    using length_dumps_dict_plain [of True "[(u ''schema_version'', PInt 1),
      (u ''disclosure_policy'', PStr (policy_value (obu_disclosure_policy b))),
      (u ''scope'', PDict ?scope), (u ''observables'', PList ?vs)]"] assms
    by (simp add: bundle_payload_def canonical_bundle_def length_quote_unescaped
        del: json_dumps.simps(4,6,7))
qed

text \<open>The canonical bytes of a valid bundle.\<close>

definition bundle_wire :: "ObservableBundle \<Rightarrow> bytes" where
  "bundle_wire b = ascii_json (bundle_payload b)"

lemma canonical_bytes_iff: "canonical_bytes b = Inr w \<longleftrightarrow> canonical_bundle b \<and> w = bundle_wire b"
proof (cases "canonical_bundle b")
  case True
  then have "compact_json (bundle_payload b) = Some (bundle_wire b)"
    unfolding bundle_wire_def ascii_json_def by (intro compact_json_simple bundle_payload_simple bundle_payload_plain)
  moreover have "1 \<le> length (bundle_wire b)" by (simp add: bundle_wire_def ascii_json_def bundle_payload_def)
  moreover have "length (bundle_wire b) \<le> MAX_CANONICAL_BYTES"
    using bundle_text_length [OF True] by (simp add: bundle_wire_def ascii_json_def MAX_CANONICAL_BYTES_def)
  moreover have "validate_state b = Inr ()" using True by (simp add: validate_state_iff)
  ultimately show ?thesis using True by (auto simp: canonical_bytes_def)
next
  case False
  then show ?thesis by (auto simp: canonical_bytes_def validate_state_iff)
qed

lemma parse_canonical_enc: "parse_canonical E w = Inr b \<Longrightarrow> canonical_bundle b \<and> w = bundle_wire b"
  by (auto simp: parse_canonical_def canonical_bytes_iff split: if_splits sum.splits)

lemma parse_canonical_dec:
  assumes "canonical_bundle b" and "3 \<le> json_depth E"
  shows "parse_canonical E (bundle_wire b) = Inr b"
proof -
  have c: "compact_json (bundle_payload b) = Some (bundle_wire b)"
    unfolding bundle_wire_def ascii_json_def using assms(1) by (intro compact_json_simple bundle_payload_simple bundle_payload_plain)
  have "json_depth_of (bundle_payload b) \<le> json_depth E" using bundle_payload_depth [of b] assms(2) by linarith
  from compact_json_loads [OF c bundle_payload_plain [OF assms(1)] this]
  have "loads_utf8 E ObservableBundleError (bundle_wire b) = Inr (bundle_payload b)" .
  moreover have "bundle_wire b \<noteq> []" by (simp add: bundle_wire_def ascii_json_def bundle_payload_def ascii_bytes_def)
  moreover have "length (bundle_wire b) \<le> MAX_CANONICAL_BYTES"
    using bundle_text_length [OF assms(1)] by (simp add: bundle_wire_def ascii_json_def MAX_CANONICAL_BYTES_def)
  moreover have "canonical_bytes b = Inr (bundle_wire b)" using assms(1) by (simp add: canonical_bytes_iff)
  moreover have "parse_bundle_object (bundle_payload b) = Inr b"
    using assms(1) by (simp add: parse_bundle_payload validate_state_iff)
  ultimately show ?thesis by (simp add: parse_canonical_def)
qed

interpretation oc: canonical_codec bundle_wire "parse_canonical E"
  "\<lambda>b. canonical_bundle b \<and> 3 \<le> json_depth E" for E
  by unfold_locales (auto simp: parse_canonical_dec dest: parse_canonical_enc)

subsection \<open>Commitments bind\<close>

lemma network_id_ascii:
  assumes "validate_network_id n = Inr ()"
  shows "is_ascii n \<and> 2 \<le> length n \<and> length n \<le> 64 \<and> list_all is_network_byte n"
proof -
  obtain bs where bs: "utf8_encode n = Some bs" and ok: "list_all (\<lambda>b. is_network_byte (unat b)) bs"
    using assms by (auto simp: validate_network_id_def split: if_splits option.splits)
  have asc: "c < 128" if c: "c \<in> set n" for c
  proof (rule ccontr)
    assume "\<not> c < 128"
    moreover have sc: "is_scalar c" and b: "bs = map of_nat (concat (map utf8_char n))"
      using bs c by (auto simp: utf8_encode_def list_all_iff split: if_splits)
    moreover have "hd (utf8_char c) \<in> set (utf8_char c) \<and> 192 \<le> hd (utf8_char c)" if "\<not> c < 128"
      using that by (simp add: utf8_char_def)
    ultimately obtain x where x: "x \<in> set (utf8_char c)" "192 \<le> x" by blast
    then have "x < 256" using utf8_char_byte [OF sc] by blast
    moreover have "(of_nat x :: byte) \<in> set bs" using x c by (auto simp: b)
    ultimately have "is_network_byte x" using ok by (auto simp: list_all_iff unat_of_nat_byte)
    with x show False by (auto simp: is_network_byte_def)
  qed
  then have a: "is_ascii n" by (simp add: is_ascii_def list_all_iff)
  then have "bs = ascii_bytes n" using bs utf8_encode_ascii by simp
  moreover have "unat (of_nat c :: byte) = c" if "c \<in> set n" for c
    using asc [OF that] by (intro unat_of_nat_byte) simp
  ultimately have "list_all is_network_byte n"
    using ok by (simp add: ascii_bytes_def list_all_iff)
  then show ?thesis using assms a
    by (auto simp: validate_network_id_def MIN_NETWORK_LEN_def MAX_NETWORK_LEN_def split: if_splits)
qed

lemma network_unescaped: "validate_network_id s = Inr () \<Longrightarrow> list_all unescaped s \<and> length s \<le> 64"
  using network_id_ascii [of s]
  by (auto simp: list_all_iff is_network_byte_def unescaped_def)

lemma decode_nonce_Inr:
  "decode_nonce h = Inr n \<Longrightarrow> length n = 32 \<and> is_lower_hex 64 h \<and> n = bytes_fromhex h"
  by (auto simp: decode_nonce_def NONCE_BYTES_def length_bytes_fromhex is_lower_hex_def split: if_splits)

lemma of_nat_byte_inj: "m < 256 \<Longrightarrow> n < 256 \<Longrightarrow> (of_nat m :: byte) = of_nat n \<longleftrightarrow> m = n"
  by (metis unat_of_nat_byte)

lemma commitment_preimage_inj:
  assumes "commitment_preimage n k w = commitment_preimage n' k' w'"
    and "is_ascii n" and "is_ascii n'" and "length n < 256" and "length n' < 256"
    and "length k = 32" and "length k' = 32"
  shows "n = n' \<and> k = k' \<and> w = w'"
proof -
  have eq: "(of_nat (length n) :: byte) = of_nat (length n')"
    "ascii_bytes n @ k @ be_bytes 4 (length w) @ w = ascii_bytes n' @ k' @ be_bytes 4 (length w') @ w'"
    using assms(1) by (simp_all add: commitment_preimage_def)
  have len: "length n = length n'" using eq(1) assms(4,5) by (simp add: of_nat_byte_inj)
  then have "ascii_bytes n = ascii_bytes n'" "k @ be_bytes 4 (length w) @ w = k' @ be_bytes 4 (length w') @ w'"
    using eq(2) by simp_all
  then show ?thesis using ascii_bytes_inj [OF assms(2,3)] assms(6,7) by simp
qed

lemma commitment_Inr:
  assumes "commitment b net nonce = Inr d"
  obtains n k where "net = PStr n" and "nonce = PStr k" and "validate_network_id n = Inr ()"
    and "is_lower_hex 64 k" and "canonical_bundle b"
    and "d = sha256 (commitment_preimage n (bytes_fromhex k) (bundle_wire b))"
  using assms
  by (auto simp: commitment_def is_str_iff canonical_bytes_iff dest!: decode_nonce_Inr split: if_splits)

subsection \<open>A concrete bundle\<close>

definition ex_bundle :: ObservableBundle where
  "ex_bundle =
     \<lparr>obu_schema_version = 1, obu_disclosure_policy = PUBLIC_AUTO_V1,
      obu_scope = \<lparr>os_platform = WINDOWS, os_format = PE\<rparr>,
      obu_observables =
        [\<lparr>ob_kind = API_IMPORT, ob_value = u ''CreateRemoteThread''\<rparr>,
         \<lparr>ob_kind = FILE_SHA256, ob_value = replicate 64 97\<rparr>]\<rparr>"

definition ex_env :: py_env where
  "ex_env = \<lparr>float_repr = id, json_depth = 10, json_constants = True\<rparr>"

lemma mainnet_valid: "validate_network_id (u ''mainnet'') = Inr ()"
proof -
  have "is_ascii (u ''mainnet'')" by (simp add: u_def)
  then have "utf8_encode (u ''mainnet'') = Some (ascii_bytes (u ''mainnet''))" by (rule utf8_encode_ascii)
  then show ?thesis
    by (simp add: validate_network_id_def MIN_NETWORK_LEN_def MAX_NETWORK_LEN_def)
       (simp add: u_def ascii_bytes_def is_network_byte_def)
qed

lemma ex_bundle_canonical: "canonical_bundle ex_bundle"
proof -
  have "validate_observable API_IMPORT (u ''CreateRemoteThread'') = Inr ()"
    by (simp add: validate_api_import_def MAX_API_IMPORT_LEN_def u_def is_api_start_def is_api_char_def)
  moreover have "validate_observable FILE_SHA256 (replicate 64 97) = Inr ()"
    by (simp add: validate_file_sha256_def list_all_iff is_hex_char_def)
  moreover have "u ''api_import'' < u ''file_sha256''" by (simp add: u_def)
  ultimately show ?thesis
    by (simp add: ex_bundle_def canonical_bundle_def admissible_def obs_key_of_def key_less_def)
qed

subsection \<open>Properties\<close>

text \<open>C26. The parser accepts exactly the canonical bytes of a valid bundle and returns that bundle;
  every valid bundle has canonical bytes, at most 4096 of them. So parsing and printing are inverse
  and no two byte strings denote the same bundle.\<close>

theorem bundle_roundtrip:
  assumes "3 \<le> json_depth E"
  shows "(parse_canonical E w = Inr b \<longleftrightarrow> canonical_bytes b = Inr w) \<and>
    (validate_state b = Inr () \<longrightarrow> (\<exists>w. canonical_bytes b = Inr w \<and> length w \<le> 4096))"
proof -
  have "length (bundle_wire b) \<le> 4096" if "canonical_bundle b"
    using bundle_text_length [OF that] by (simp add: bundle_wire_def ascii_json_def)
  moreover have "parse_canonical E w = Inr b \<longleftrightarrow> canonical_bytes b = Inr w"
    using assms parse_canonical_enc [of E w b] parse_canonical_dec [of b E]
    by (auto simp: canonical_bytes_iff)
  ultimately show ?thesis by (auto simp: canonical_bytes_iff validate_state_iff)
qed

theorem bundle_roundtrip_witness:
  "\<exists>w. canonical_bytes ex_bundle = Inr w \<and> length w \<le> 4096 \<and> parse_canonical ex_env w = Inr ex_bundle"
proof -
  have d: "3 \<le> json_depth ex_env" by (simp add: ex_env_def)
  have "validate_state ex_bundle = Inr ()" using ex_bundle_canonical by (simp add: validate_state_iff)
  then show ?thesis using bundle_roundtrip [OF d] by blast
qed

text \<open>C28. A parsed bundle has schema version 1 and 1 to 16 observables in strictly increasing order of
  kind and value, each valid for its kind, and none of them is a byte pattern when the bundle is
  disclosed automatically.\<close>

theorem parsed_bundle_canonical:
  assumes "parse_canonical E w = Inr b"
  shows "obu_schema_version b = 1 \<and> 1 \<le> length (obu_observables b) \<and> length (obu_observables b) \<le> 16 \<and>
    sorted_wrt (\<lambda>x y. key_less (kind_value (ob_kind x), ob_value x) (kind_value (ob_kind y), ob_value y))
      (obu_observables b) \<and>
    (\<forall>ob \<in> set (obu_observables b). validate_observable (ob_kind ob) (ob_value ob) = Inr () \<and>
       length (ob_value ob) \<le> 191 \<and>
       \<not> (obu_disclosure_policy b = PUBLIC_AUTO_V1 \<and> ob_kind ob = BYTE_PATTERN))"
  using parse_canonical_enc [OF assms] admissible_bounds
  by (auto simp: canonical_bundle_def sorted_wrt_map obs_key_of_def list_all_iff admissible_def)

theorem parsed_bundle_canonical_witness:
  "\<exists>w. parse_canonical ex_env w = Inr ex_bundle \<and> length (obu_observables ex_bundle) \<le> 16"
proof -
  have p: "parse_canonical ex_env (bundle_wire ex_bundle) = Inr ex_bundle"
    using ex_bundle_canonical by (intro parse_canonical_dec) (simp_all add: ex_env_def)
  from p parsed_bundle_canonical [OF p] show ?thesis by blast
qed

text \<open>A commitment binds the network, the report nonce and the bundle: if two commitments agree,
  their arguments agree, or the two framed preimages are a SHA-256 collision. A commitment is 32 bytes.\<close>

lemma commitment_binding:
  assumes "commitment b net nonce = Inr d" and "commitment b' net' nonce' = Inr d"
  shows "length d = 32 \<and>
    (\<exists>w w'. canonical_bytes b = Inr w \<and> canonical_bytes b' = Inr w' \<and>
       ((b = b' \<and> net = net' \<and> nonce = nonce') \<or>
        sha256_collision (commitment_preimage (the_str net) (bytes_fromhex (the_str nonce)) w)
                         (commitment_preimage (the_str net') (bytes_fromhex (the_str nonce')) w')))"
proof -
  obtain n k where 1: "net = PStr n" "nonce = PStr k" "validate_network_id n = Inr ()" "is_lower_hex 64 k"
    "canonical_bundle b" "d = sha256 (commitment_preimage n (bytes_fromhex k) (bundle_wire b))"
    using commitment_Inr [OF assms(1)] by blast
  obtain n' k' where 2: "net' = PStr n'" "nonce' = PStr k'" "validate_network_id n' = Inr ()" "is_lower_hex 64 k'"
    "canonical_bundle b'" "d = sha256 (commitment_preimage n' (bytes_fromhex k') (bundle_wire b'))"
    using commitment_Inr [OF assms(2)] by blast
  let ?p = "commitment_preimage n (bytes_fromhex k) (bundle_wire b)"
  let ?q = "commitment_preimage n' (bytes_fromhex k') (bundle_wire b')"
  have "b = b' \<and> net = net' \<and> nonce = nonce'" if eq: "?p = ?q"
  proof -
    have e: "n = n' \<and> bytes_fromhex k = bytes_fromhex k' \<and> bundle_wire b = bundle_wire b'"
      using network_id_ascii [OF 1(3)] network_id_ascii [OF 2(3)] 1(4) 2(4)
      by (intro commitment_preimage_inj [OF eq]) (auto simp: length_bytes_fromhex is_lower_hex_def)
    have "hex_of_bytes (bytes_fromhex h) = h" if "is_lower_hex 64 h" for h
      using that hex_of_bytes_fromhex [of h] by (simp add: is_lower_hex_def)
    from this [OF 1(4)] this [OF 2(4)] have "hex_of_bytes (bytes_fromhex k) = k" "hex_of_bytes (bytes_fromhex k') = k'" .
    then have "k = k'" using e by metis
    moreover have "b = b'"
      using oc.enc_inj [of b ex_env b'] 1(5) 2(5) e by (simp add: ex_env_def)
    ultimately show ?thesis using 1(1,2) 2(1,2) e by simp
  qed
  moreover have "sha256 ?p = sha256 ?q" using 1(6) 2(6) by simp
  ultimately have "(b = b' \<and> net = net' \<and> nonce = nonce') \<or> sha256_collision ?p ?q"
    unfolding sha256_collision_def by blast
  moreover have "canonical_bytes b = Inr (bundle_wire b)" "canonical_bytes b' = Inr (bundle_wire b')"
    using 1(5) 2(5) by (simp_all add: canonical_bytes_iff)
  ultimately show ?thesis using 1(1,2,6) 2(1,2) by auto
qed

end
