(* ===== verification/Membership_Source.thy ===== *)
theory Membership_Source
  imports Signed_Ballots Threat_Observable
begin

text \<open>
  Model of \<open>jaeger/guardian_membership_source.py\<close>: the canonical committee document, its parser and
  the two views derived from it, the membership snapshot of the ensemble and the signers of a ballot
  session. The objects of the module are built by the parser only; their fields have the types the
  parser establishes. Reading the owner-only source file is file-system code: what it returns or
  raises is an argument of \<open>load_guardian_membership_source\<close>. The structural check of public keys is
  the parameter \<open>bip340\<close>.
\<close>

definition MEMBERSHIP_SOURCE_SCHEMA_VERSION :: int where "MEMBERSHIP_SOURCE_SCHEMA_VERSION = 1"

definition MEMBERSHIP_SOURCE_PROTOCOL_ID :: pystr where
  "MEMBERSHIP_SOURCE_PROTOCOL_ID = u ''/prometheus/guardian-membership/1.0.0''"

definition MIN_MEMBERSHIP_MEMBERS :: nat where "MIN_MEMBERSHIP_MEMBERS = 5"
definition MAX_MEMBERSHIP_MEMBERS :: nat where "MAX_MEMBERSHIP_MEMBERS = 1024"
definition MAX_MEMBERSHIP_EPOCH :: int where "MAX_MEMBERSHIP_EPOCH = 2 ^ 63 - 1"
definition MAX_MEMBERSHIP_SOURCE_BYTES :: nat where "MAX_MEMBERSHIP_SOURCE_BYTES = 300000"
definition MEMBERSHIP_MODEL_TIER :: pystr where "MEMBERSHIP_MODEL_TIER = u ''8b''"

record GuardianSourceMember =
  sm_guardian_id :: pystr
  sm_xonly_public_key :: pystr
  sm_model_tier :: pystr
  sm_model_artifact_sha256 :: pystr

record GuardianMembershipSource =
  src_network_id :: pystr
  src_epoch :: int
  src_members :: "GuardianSourceMember list"
  src_canonical_bytes :: bytes
  src_membership_source_sha256 :: pystr

subsection \<open>Parsing\<close>

text \<open>\<open>_validate_expected_network_id\<close> and \<open>_parse_network_id\<close>; both errors of \<open>validate_network_id\<close>
  are \<open>ValueError\<close>s and are replaced by the module's error.\<close>

fun parse_network_id :: "pyval \<Rightarrow> pyexc + pystr" where
  "parse_network_id (PStr s) =
     (case validate_network_id s of Inl _ \<Rightarrow> Inl GuardianMembershipSourceError | Inr _ \<Rightarrow> Inr s)"
| "parse_network_id _ = Inl GuardianMembershipSourceError"

fun parse_epoch :: "pyval \<Rightarrow> pyexc + int" where
  "parse_epoch (PInt n) =
     (if n < 0 \<or> MAX_MEMBERSHIP_EPOCH < n then Inl GuardianMembershipSourceError else Inr n)"
| "parse_epoch _ = Inl GuardianMembershipSourceError"

fun parse_fixed_hex_32 :: "pyval \<Rightarrow> pyexc + pystr" where
  "parse_fixed_hex_32 (PStr s) =
     (if is_lower_hex 64 s then Inr s else Inl GuardianMembershipSourceError)"
| "parse_fixed_hex_32 _ = Inl GuardianMembershipSourceError"

definition member_fields :: "string list" where
  "member_fields = [''guardian_id'', ''xonly_public_key'', ''model_tier'', ''model_artifact_sha256'']"

fun parse_member :: "bip340 \<Rightarrow> pyval \<Rightarrow> pyexc + GuardianSourceMember" where
  "parse_member B (PDict d) =
     (if \<not> keys_are member_fields d then Inl GuardianMembershipSourceError
      else rbind (parse_fixed_hex_32 (dict_at d ''guardian_id'')) (\<lambda>guardian_id.
           rbind (parse_fixed_hex_32 (dict_at d ''xonly_public_key'')) (\<lambda>xonly_public_key.
           rbind (parse_fixed_hex_32 (dict_at d ''model_artifact_sha256'')) (\<lambda>model_artifact.
           if dict_at d ''model_tier'' \<noteq> PStr MEMBERSHIP_MODEL_TIER
           then Inl GuardianMembershipSourceError
           else if \<not> xonly_parses B (bytes_fromhex xonly_public_key)
           then Inl GuardianMembershipSourceError
           else Inr \<lparr>sm_guardian_id = guardian_id, sm_xonly_public_key = xonly_public_key,
                     sm_model_tier = MEMBERSHIP_MODEL_TIER,
                     sm_model_artifact_sha256 = model_artifact\<rparr>))))"
| "parse_member B _ = Inl GuardianMembershipSourceError"

fun parse_members :: "bip340 \<Rightarrow> pyval \<Rightarrow> pyexc + GuardianSourceMember list" where
  "parse_members B (PList value) =
     (if length value < MIN_MEMBERSHIP_MEMBERS \<or> MAX_MEMBERSHIP_MEMBERS < length value
      then Inl GuardianMembershipSourceError
      else rbind (rmap (parse_member B) value) (\<lambda>members.
        let guardian_ids = map sm_guardian_id members; public_keys = map sm_xonly_public_key members
        in if guardian_ids \<noteq> sort guardian_ids \<or> \<not> distinct guardian_ids \<or> \<not> distinct public_keys
           then Inl GuardianMembershipSourceError
           else Inr members))"
| "parse_members B _ = Inl GuardianMembershipSourceError"

definition source_fields :: "string list" where
  "source_fields = [''schema_version'', ''protocol_id'', ''network_id'', ''epoch'', ''members'']"

text \<open>
  The \<open>except\<close> clause names the Unicode and JSON errors, \<open>RecursionError\<close> and the module's error; the
  plain \<open>ValueError\<close> of an integer literal beyond the conversion limit passes through.
\<close>

definition parse_source_document :: "py_env \<Rightarrow> bytes \<Rightarrow> pyexc + (pystr \<times> pyval) list" where
  "parse_source_document E contents =
     rbind (catch (loads_utf8 E GuardianMembershipSourceError contents)
              (\<lambda>e. e \<in> {UnicodeDecodeError, UnicodeEncodeError, JSONDecodeError, RecursionError,
                         GuardianMembershipSourceError})
              (\<lambda>_. Inl GuardianMembershipSourceError)) (\<lambda>data.
       case data of
         PDict d \<Rightarrow>
           (if \<not> keys_are source_fields d then Inl GuardianMembershipSourceError
            else if dict_at d ''schema_version'' \<noteq> PInt MEMBERSHIP_SOURCE_SCHEMA_VERSION
            then Inl GuardianMembershipSourceError
            else if dict_at d ''protocol_id'' \<noteq> PStr MEMBERSHIP_SOURCE_PROTOCOL_ID
            then Inl GuardianMembershipSourceError
            else Inr d)
       | _ \<Rightarrow> Inl GuardianMembershipSourceError)"

definition source_member_payload :: "GuardianSourceMember \<Rightarrow> pyval" where
  "source_member_payload m =
     PDict [(u ''guardian_id'', PStr (sm_guardian_id m)),
            (u ''xonly_public_key'', PStr (sm_xonly_public_key m)),
            (u ''model_tier'', PStr (sm_model_tier m)),
            (u ''model_artifact_sha256'', PStr (sm_model_artifact_sha256 m))]"

definition source_document :: "pystr \<Rightarrow> int \<Rightarrow> GuardianSourceMember list \<Rightarrow> pyval" where
  "source_document network_id epoch members =
     PDict [(u ''schema_version'', PInt MEMBERSHIP_SOURCE_SCHEMA_VERSION),
            (u ''protocol_id'', PStr MEMBERSHIP_SOURCE_PROTOCOL_ID),
            (u ''network_id'', PStr network_id),
            (u ''epoch'', PInt epoch),
            (u ''members'', PList (map source_member_payload members))]"

text \<open>\<open>_canonical_bytes\<close>\<close>

definition source_canonical_bytes :: "pystr \<Rightarrow> int \<Rightarrow> GuardianSourceMember list \<Rightarrow> bytes" where
  "source_canonical_bytes network_id epoch members = ascii_json (source_document network_id epoch members)"

definition parse_guardian_membership_source ::
  "py_env \<Rightarrow> bip340 \<Rightarrow> bytes \<Rightarrow> pyval \<Rightarrow> pyexc + GuardianMembershipSource" where
  "parse_guardian_membership_source E B contents expected_network_id =
     rbind (parse_network_id expected_network_id) (\<lambda>expected.
     rbind (raise_if (contents = [] \<or> MAX_MEMBERSHIP_SOURCE_BYTES < length contents)
              GuardianMembershipSourceError) (\<lambda>_.
     rbind (parse_source_document E contents) (\<lambda>data.
     rbind (parse_network_id (dict_at data ''network_id'')) (\<lambda>network_id.
     rbind (raise_if (network_id \<noteq> expected) GuardianMembershipSourceError) (\<lambda>_.
     rbind (parse_epoch (dict_at data ''epoch'')) (\<lambda>epoch.
     rbind (parse_members B (dict_at data ''members'')) (\<lambda>members.
     let canonical = source_canonical_bytes network_id epoch members
     in if canonical \<noteq> contents then Inl GuardianMembershipSourceError
        else Inr \<lparr>src_network_id = network_id, src_epoch = epoch, src_members = members,
                  src_canonical_bytes = canonical,
                  src_membership_source_sha256 = sha256_hex canonical\<rparr>)))))))"

text \<open>\<open>contents\<close> is the result of reading the owner-only file.\<close>

definition load_guardian_membership_source ::
  "py_env \<Rightarrow> bip340 \<Rightarrow> pyexc + bytes \<Rightarrow> pyval \<Rightarrow> pyexc + GuardianMembershipSource" where
  "load_guardian_membership_source E B contents expected_network_id =
     rbind (parse_network_id expected_network_id) (\<lambda>_.
     rbind contents (\<lambda>bytes. parse_guardian_membership_source E B bytes expected_network_id))"

subsection \<open>Derived views\<close>

definition to_membership_snapshot :: "GuardianMembershipSource \<Rightarrow> pyexc + MembershipSnapshot" where
  "to_membership_snapshot s =
     MembershipSnapshot_create
       (map (\<lambda>m. \<lparr>gm_guardian_id = PStr (sm_guardian_id m), gm_model_tier = PStr (sm_model_tier m),
                  gm_model_artifact_sha256 = PStr (sm_model_artifact_sha256 m)\<rparr>) (src_members s))
       (PStr (src_membership_source_sha256 s))"

definition to_ballot_signers :: "GuardianMembershipSource \<Rightarrow> BallotSigner list" where
  "to_ballot_signers s =
     map (\<lambda>m. \<lparr>sg_guardian_id = PStr (sm_guardian_id m), sg_xonly_public_key = PStr (sm_xonly_public_key m)\<rparr>)
       (src_members s)"

subsection \<open>Valid sources\<close>

definition valid_member :: "bip340 \<Rightarrow> GuardianSourceMember \<Rightarrow> bool" where
  "valid_member B m \<longleftrightarrow>
     is_lower_hex 64 (sm_guardian_id m) \<and> is_lower_hex 64 (sm_xonly_public_key m) \<and>
     sm_model_tier m = MEMBERSHIP_MODEL_TIER \<and> is_lower_hex 64 (sm_model_artifact_sha256 m) \<and>
     xonly_parses B (bytes_fromhex (sm_xonly_public_key m))"

definition valid_committee :: "bip340 \<Rightarrow> GuardianSourceMember list \<Rightarrow> bool" where
  "valid_committee B ms \<longleftrightarrow>
     MIN_MEMBERSHIP_MEMBERS \<le> length ms \<and> length ms \<le> MAX_MEMBERSHIP_MEMBERS \<and>
     list_all (valid_member B) ms \<and> sorted (map sm_guardian_id ms) \<and>
     distinct (map sm_guardian_id ms) \<and> distinct (map sm_xonly_public_key ms)"

definition valid_source :: "bip340 \<Rightarrow> GuardianMembershipSource \<Rightarrow> bool" where
  "valid_source B s \<longleftrightarrow>
     validate_network_id (src_network_id s) = Inr () \<and>
     0 \<le> src_epoch s \<and> src_epoch s \<le> MAX_MEMBERSHIP_EPOCH \<and> valid_committee B (src_members s) \<and>
     src_canonical_bytes s = source_canonical_bytes (src_network_id s) (src_epoch s) (src_members s) \<and>
     src_membership_source_sha256 s = sha256_hex (src_canonical_bytes s)"

subsection \<open>The canonical document\<close>

lemma parse_fixed_hex_32_iff [simp]: "parse_fixed_hex_32 v = Inr s \<longleftrightarrow> v = PStr s \<and> is_lower_hex 64 s"
  by (cases v) auto

lemma parse_network_id_iff [simp]:
  "parse_network_id v = Inr s \<longleftrightarrow> v = PStr s \<and> validate_network_id s = Inr ()"
  by (cases v) (auto split: sum.splits)

lemma parse_epoch_iff [simp]:
  "parse_epoch v = Inr n \<longleftrightarrow> v = PInt n \<and> 0 \<le> n \<and> n \<le> MAX_MEMBERSHIP_EPOCH"
  by (cases v) auto

lemma parse_member_valid: "parse_member B v = Inr m \<Longrightarrow> valid_member B m"
  by (cases v) (auto simp: valid_member_def split: if_splits)

lemma parse_member_payload: "valid_member B m \<Longrightarrow> parse_member B (source_member_payload m) = Inr m"
  by (cases m) (simp add: source_member_payload_def keys_are_def member_fields_def valid_member_def)

lemma sort_eq_sorted: "xs = sort xs \<longleftrightarrow> sorted xs"
  by (metis sorted_sort sorted_sort_id)

lemma parse_members_valid:
  assumes "parse_members B v = Inr ms"
  shows "valid_committee B ms"
proof -
  obtain vs where v: "v = PList vs" using assms by (cases v) auto
  have all: "list_all2 (\<lambda>x y. parse_member B x = Inr y) vs ms"
    and rest: "length vs \<le> MAX_MEMBERSHIP_MEMBERS" "MIN_MEMBERSHIP_MEMBERS \<le> length vs"
      "map sm_guardian_id ms = sort (map sm_guardian_id ms)" "distinct (map sm_guardian_id ms)"
      "distinct (map sm_xonly_public_key ms)"
    using assms by (auto simp: v rmap_eq_Inr_iff Let_def split: if_splits)
  have "list_all (valid_member B) ms"
    using all parse_member_valid by (induction rule: list_all2_induct) auto
  moreover have "sorted (map sm_guardian_id ms)" using rest(3) by (metis sorted_sort)
  ultimately show ?thesis
    using rest list_all2_lengthD [OF all] by (simp add: valid_committee_def)
qed

lemma parse_members_payload:
  assumes "valid_committee B ms"
  shows "parse_members B (PList (map source_member_payload ms)) = Inr ms"
proof -
  have "rmap (parse_member B) (map source_member_payload ms) = Inr ms"
    using assms by (auto simp: rmap_eq_Inr_iff list_all2_conv_all_nth valid_committee_def list_all_length
        parse_member_payload)
  then show ?thesis using assms
    by (simp add: valid_committee_def Let_def sort_eq_sorted not_less)
qed

lemma hex_text_scalar: "is_lower_hex n s \<Longrightarrow> list_all is_scalar s"
  using hex_plain [of n "PStr s"] by simp

lemma network_scalar: "validate_network_id s = Inr () \<Longrightarrow> list_all is_scalar s"
  using network_id_ascii [of s] by (auto intro: ascii_scalar)

lemma source_document_plain:
  assumes "validate_network_id net = Inr ()" and "0 \<le> ep" and "ep \<le> MAX_MEMBERSHIP_EPOCH"
    and "valid_committee B ms"
  shows "json_plain (source_document net ep ms)"
proof -
  have "json_plain (source_member_payload m)" if "m \<in> set ms" for m
  proof -
    have "valid_member B m" using that assms(4) by (simp add: valid_committee_def list_all_iff)
    then show ?thesis
      by (simp add: valid_member_def source_member_payload_def hex_text_scalar [of 64] MEMBERSHIP_MODEL_TIER_def)
  qed
  moreover have "json_plain (PInt ep)" "json_plain (PInt MEMBERSHIP_SOURCE_SCHEMA_VERSION)"
    using assms(2,3) by (auto intro!: int_plain simp: MAX_MEMBERSHIP_EPOCH_def
        MEMBERSHIP_SOURCE_SCHEMA_VERSION_def simp del: json_plain.simps)
  ultimately show ?thesis
    using network_scalar [OF assms(1)]
    by (simp add: source_document_def json_plain_list_iff MEMBERSHIP_SOURCE_PROTOCOL_ID_def
        del: json_plain.simps(2))
qed

lemma source_document_depth: "json_depth_of (source_document net ep ms) \<le> 3"
proof -
  have "json_depth_list (map source_member_payload ms) \<le> 1"
    by (induction ms) (auto simp: source_member_payload_def)
  then show ?thesis by (simp add: source_document_def)
qed

lemma member_text_length:
  assumes "valid_member B m"
  shows "length (json_dumps False True (source_member_payload m)) \<le> 278"
  using length_dumps_dict_plain [of True "[(u ''guardian_id'', PStr (sm_guardian_id m)),
            (u ''xonly_public_key'', PStr (sm_xonly_public_key m)),
            (u ''model_tier'', PStr (sm_model_tier m)),
            (u ''model_artifact_sha256'', PStr (sm_model_artifact_sha256 m))]"]
    hex_unescaped [of 64 "sm_guardian_id m"] hex_unescaped [of 64 "sm_xonly_public_key m"]
    hex_unescaped [of 64 "sm_model_artifact_sha256 m"] assms
  by (simp add: source_member_payload_def length_quote_unescaped valid_member_def MEMBERSHIP_MODEL_TIER_def)

text \<open>The largest committee fits the size limit of the source.\<close>

lemma source_canonical_length:
  assumes "validate_network_id net = Inr ()" and "0 \<le> ep" and "ep \<le> MAX_MEMBERSHIP_EPOCH"
    and "valid_committee B ms"
  shows "length (source_canonical_bytes net ep ms) \<le> MAX_MEMBERSHIP_SOURCE_BYTES"
proof -
  let ?vs = "map source_member_payload ms"
  have "(\<Sum>v \<leftarrow> map source_member_payload xs. length (json_dumps False True v) + 1) \<le> 279 * length xs"
    if "list_all (valid_member B) xs" for xs
    using that
  proof (induction xs)
    case (Cons m xs)
    then show ?case using member_text_length [of B m] by simp
  qed simp
  from this [of ms] have members: "length (json_dumps False True (PList ?vs)) \<le> 2 + 279 * 1024"
    using length_dumps_list_le [of False True ?vs] assms(4)
    by (simp add: valid_committee_def MAX_MEMBERSHIP_MEMBERS_def del: json_dumps.simps)
  have "length (json_dumps False True (PInt ep)) \<le> 20"
    using assms(2,3) by (intro length_dumps_nat) (simp_all add: MAX_MEMBERSHIP_EPOCH_def)
  moreover have "length (json_dumps False True (PInt MEMBERSHIP_SOURCE_SCHEMA_VERSION)) \<le> 20"
    by (intro length_dumps_nat) (simp_all add: MEMBERSHIP_SOURCE_SCHEMA_VERSION_def)
  moreover have "length (json_dumps False True (PStr net)) \<le> 66"
    using network_unescaped [OF assms(1)] by (simp add: length_quote_unescaped)
  moreover have "length (json_dumps False True (PStr MEMBERSHIP_SOURCE_PROTOCOL_ID)) \<le> 50"
    by (simp add: length_quote_unescaped MEMBERSHIP_SOURCE_PROTOCOL_ID_def)
  moreover have "length (source_canonical_bytes net ep ms) = length (json_dumps False True (source_document net ep ms))"
    by (simp add: source_canonical_bytes_def ascii_json_def)
  ultimately show ?thesis using members
      length_dumps_dict_plain [of True "[(u ''schema_version'', PInt MEMBERSHIP_SOURCE_SCHEMA_VERSION),
            (u ''protocol_id'', PStr MEMBERSHIP_SOURCE_PROTOCOL_ID), (u ''network_id'', PStr net),
            (u ''epoch'', PInt ep), (u ''members'', PList ?vs)]"]
    by (simp add: source_document_def length_quote_unescaped MAX_MEMBERSHIP_SOURCE_BYTES_def
        del: json_dumps.simps)
qed

lemma parse_source_document_payload:
  assumes "validate_network_id net = Inr ()" and "0 \<le> ep" and "ep \<le> MAX_MEMBERSHIP_EPOCH"
    and "valid_committee B ms" and "3 \<le> json_depth E"
  shows "\<exists>d. parse_source_document E (source_canonical_bytes net ep ms) = Inr d \<and>
    PDict d = source_document net ep ms"
proof -
  have "json_depth_of (source_document net ep ms) \<le> json_depth E"
    using source_document_depth [of net ep ms] assms(5) by linarith
  then have "loads_utf8 E GuardianMembershipSourceError (source_canonical_bytes net ep ms) =
      Inr (source_document net ep ms)"
    unfolding source_canonical_bytes_def
    using source_document_plain [OF assms(1-4)] by (rule ascii_json_loads [rotated])
  then show ?thesis
    by (simp add: parse_source_document_def source_document_def keys_are_def source_fields_def)
qed

lemma parse_source_valid:
  assumes "parse_guardian_membership_source E B w (PStr net) = Inr s"
  shows "valid_source B s \<and> src_network_id s = net \<and> w = src_canonical_bytes s"
  using assms parse_members_valid
  by (auto simp: parse_guardian_membership_source_def valid_source_def Let_def
      simp del: parse_network_id.simps split: if_splits)

lemma parse_source_canonical:
  assumes "valid_source B s" and "3 \<le> json_depth E"
  shows "parse_guardian_membership_source E B (src_canonical_bytes s) (PStr (src_network_id s)) = Inr s"
proof -
  note v = assms(1) [unfolded valid_source_def]
  obtain d where d: "parse_source_document E (src_canonical_bytes s) = Inr d"
    "PDict d = source_document (src_network_id s) (src_epoch s) (src_members s)"
    using parse_source_document_payload [of "src_network_id s" "src_epoch s" B "src_members s" E] v assms(2)
    by auto
  have "length (src_canonical_bytes s) \<le> MAX_MEMBERSHIP_SOURCE_BYTES"
    using v source_canonical_length by auto
  moreover have "src_canonical_bytes s \<noteq> []"
    using v by (simp add: source_canonical_bytes_def ascii_json_def source_document_def ascii_bytes_def)
  ultimately show ?thesis
    using v d parse_members_payload [of B "src_members s"]
    by (cases s) (auto simp: parse_guardian_membership_source_def source_document_def Let_def)
qed

subsection \<open>Derived views\<close>

lemma source_snapshot:
  assumes "valid_source B s"
  obtains snap where "to_membership_snapshot s = Inr snap" and "is_valid_snapshot snap"
    and "map gm_guardian_id (ms_members snap) = map (\<lambda>m. PStr (sm_guardian_id m)) (src_members s)"
    and "ms_membership_source_sha256 snap = PStr (src_membership_source_sha256 s)"
proof -
  let ?f = "\<lambda>m. \<lparr>gm_guardian_id = PStr (sm_guardian_id m), gm_model_tier = PStr (sm_model_tier m),
                  gm_model_artifact_sha256 = PStr (sm_model_artifact_sha256 m)\<rparr>"
  let ?ms = "map ?f (src_members s)"
  have c: "valid_committee B (src_members s)" using assms by (simp add: valid_source_def)
  have "map member_key ?ms = map sm_guardian_id (src_members s)" by (simp add: member_key_def)
  then have "sort_key member_key ?ms = ?ms"
    using c by (intro sort_key_sorted) (simp only: valid_committee_def)
  moreover have "list_all is_valid_member ?ms"
    using c by (auto simp: valid_committee_def list_all_iff valid_member_def is_valid_member_def
        is_sha256_def MEMBERSHIP_MODEL_TIER_def)
  moreover have "distinct (map gm_guardian_id ?ms)"
    using c by (simp add: valid_committee_def comp_def distinct_map inj_on_def)
  ultimately have "validated_members ?ms = Inr ?ms"
    using c by (simp add: validated_members_def list_all_iff valid_committee_def MIN_ENSEMBLE_MEMBERS_def
        MIN_MEMBERSHIP_MEMBERS_def)
  moreover have "is_sha256 (PStr (src_membership_source_sha256 s))"
    using assms by (simp add: is_sha256_def valid_source_def)
  ultimately obtain snap where snap: "to_membership_snapshot s = Inr snap"
    "ms_members snap = ?ms" "ms_membership_source_sha256 snap = PStr (src_membership_source_sha256 s)"
    by (simp add: to_membership_snapshot_def MembershipSnapshot_create_def)
  moreover have "is_valid_snapshot snap"
    using snap(1) MembershipSnapshot_create_valid by (auto simp: to_membership_snapshot_def)
  ultimately show thesis using that by simp
qed

lemma source_signers:
  assumes "valid_source B s" and "to_membership_snapshot s = Inr snap"
  shows "validated_signers B (to_ballot_signers s) snap = Inr (to_ballot_signers s)"
proof -
  let ?f = "\<lambda>m. \<lparr>sg_guardian_id = PStr (sm_guardian_id m), sg_xonly_public_key = PStr (sm_xonly_public_key m)\<rparr>"
  let ?sgs = "map ?f (src_members s)"
  have c: "valid_committee B (src_members s)" using assms by (simp add: valid_source_def)
  have ids: "map gm_guardian_id (ms_members snap) = map (\<lambda>m. PStr (sm_guardian_id m)) (src_members s)"
    using source_snapshot [OF assms(1)] assms(2) by auto
  have "map signer_key ?sgs = map sm_guardian_id (src_members s)" by (simp add: signer_key_def)
  then have "sort_key signer_key ?sgs = ?sgs"
    using c by (intro sort_key_sorted) (simp only: valid_committee_def)
  moreover have "list_all (is_valid_signer B) ?sgs"
    using c by (auto simp: valid_committee_def list_all_iff valid_member_def is_valid_signer_def is_hex_32_def)
  moreover have "distinct (map sg_guardian_id ?sgs)" "distinct (map sg_xonly_public_key ?sgs)"
    using c by (simp_all add: valid_committee_def comp_def distinct_map inj_on_def)
  moreover have "?sgs \<noteq> []" using c by (auto simp: valid_committee_def MIN_MEMBERSHIP_MEMBERS_def)
  moreover have "set (map sg_guardian_id ?sgs) = set (map gm_guardian_id (ms_members snap))"
    unfolding ids by auto
  ultimately show ?thesis
    unfolding to_ballot_signers_def by (simp add: validated_signers_def list_all_iff)
qed

lemma source_document_inj:
  assumes "source_document n e ms = source_document n' e' ms'"
  shows "n = n' \<and> e = e' \<and> ms = ms'"
proof -
  have "map source_member_payload ms = map source_member_payload ms'"
    using assms by (simp add: source_document_def)
  moreover have "inj source_member_payload"
    by (rule injI) (auto simp: source_member_payload_def intro: GuardianSourceMember.equality)
  ultimately show ?thesis using assms by (simp add: source_document_def inj_map_eq_map)
qed

lemma source_bytes_inj:
  assumes "valid_source B s" and "valid_source B t" and "src_canonical_bytes s = src_canonical_bytes t"
  shows "s = t"
proof -
  note v = assms(1,2) [unfolded valid_source_def]
  have "source_document (src_network_id s) (src_epoch s) (src_members s) =
      source_document (src_network_id t) (src_epoch t) (src_members t)"
    using v assms(3) source_document_plain
    by (intro ascii_json_inj) (auto simp: source_canonical_bytes_def)
  then show ?thesis using v assms(3) source_document_inj by (cases s; cases t) auto
qed

subsection \<open>A concrete source\<close>

definition ex_source_members :: "GuardianSourceMember list" where
  "ex_source_members =
     map (\<lambda>n. \<lparr>sm_guardian_id = replicate 64 (97 + n), sm_xonly_public_key = replicate 64 (97 + n),
               sm_model_tier = u ''8b'', sm_model_artifact_sha256 = replicate 64 97\<rparr>) [0, 1, 2, 3, 4]"

definition ex_source :: GuardianMembershipSource where
  "ex_source =
     (let w = source_canonical_bytes (u ''mainnet'') 7 ex_source_members
      in \<lparr>src_network_id = u ''mainnet'', src_epoch = 7, src_members = ex_source_members,
          src_canonical_bytes = w, src_membership_source_sha256 = sha256_hex w\<rparr>)"

lemma ex_source_valid: "valid_source B0 ex_source"
proof -
  have hex: "is_lower_hex 64 (replicate 64 n)" if "97 \<le> n" "n \<le> 102" for n
    using that by (auto simp: is_lower_hex_def list_all_iff is_hex_char_def)
  have "list_all (valid_member B0) ex_source_members"
    by (simp add: ex_source_members_def valid_member_def MEMBERSHIP_MODEL_TIER_def B0_def hex)
  moreover have "sorted (map sm_guardian_id ex_source_members)"
    by (simp add: ex_source_members_def replicate_le)
  moreover have "distinct (map sm_guardian_id ex_source_members)"
    "distinct (map sm_xonly_public_key ex_source_members)"
    by (simp_all add: ex_source_members_def replicate_eq_replicate)
  ultimately show ?thesis
    by (simp add: valid_source_def ex_source_def Let_def mainnet_valid MAX_MEMBERSHIP_EPOCH_def
        valid_committee_def MIN_MEMBERSHIP_MEMBERS_def MAX_MEMBERSHIP_MEMBERS_def)
       (simp add: ex_source_members_def)
qed

subsection \<open>Properties\<close>

text \<open>The source parser accepts exactly the canonical bytes of a valid committee document for the
  expected network: a source it returns has 5 to 1024 members with distinct ids and keys in ascending
  id order and reproduces the bytes, every valid source is accepted from its own bytes, and these never
  exceed the 300000-byte limit.\<close>

lemma source_roundtrip:
  assumes "3 \<le> json_depth E"
  shows "(parse_guardian_membership_source E B w (PStr net) = Inr s \<longleftrightarrow>
      valid_source B s \<and> src_network_id s = net \<and> w = src_canonical_bytes s) \<and>
    (valid_source B s \<longrightarrow> length (src_canonical_bytes s) \<le> 300000 \<and>
       5 \<le> length (src_members s) \<and> length (src_members s) \<le> 1024)"
proof -
  have "length (src_canonical_bytes s) \<le> 300000" if "valid_source B s"
    using that source_canonical_length [of "src_network_id s" "src_epoch s" B "src_members s"]
    by (simp add: valid_source_def MAX_MEMBERSHIP_SOURCE_BYTES_def)
  moreover have "parse_guardian_membership_source E B w (PStr net) = Inr s \<longleftrightarrow>
      valid_source B s \<and> src_network_id s = net \<and> w = src_canonical_bytes s"
    using parse_source_valid [of E B w net s] parse_source_canonical [of B s E] assms by blast
  ultimately show ?thesis
    by (auto simp: valid_source_def valid_committee_def MIN_MEMBERSHIP_MEMBERS_def MAX_MEMBERSHIP_MEMBERS_def)
qed

text \<open>The two views of a source agree: the snapshot can always be created, is valid, pins the digest
  of the source bytes, and has exactly the guardians for which the source gives a signer, so the signers
  pass the session's committee check; and two sources with the same digest are the same source, or their
  bytes are a SHA-256 collision.\<close>

lemma source_views_agree:
  assumes "valid_source B s"
  shows "(\<exists>snap. to_membership_snapshot s = Inr snap \<and> is_valid_snapshot snap \<and>
       ms_membership_source_sha256 snap = PStr (sha256_hex (src_canonical_bytes s)) \<and>
       map gm_guardian_id (ms_members snap) = map sg_guardian_id (to_ballot_signers s) \<and>
       validated_signers B (to_ballot_signers s) snap = Inr (to_ballot_signers s)) \<and>
    (valid_source B t \<and> src_membership_source_sha256 t = src_membership_source_sha256 s \<longrightarrow>
       t = s \<or> sha256_collision (src_canonical_bytes t) (src_canonical_bytes s))"
proof -
  obtain snap where snap: "to_membership_snapshot s = Inr snap" "is_valid_snapshot snap"
    "map gm_guardian_id (ms_members snap) = map (\<lambda>m. PStr (sm_guardian_id m)) (src_members s)"
    "ms_membership_source_sha256 snap = PStr (src_membership_source_sha256 s)"
    using source_snapshot [OF assms] by blast
  have "map sg_guardian_id (to_ballot_signers s) = map (\<lambda>m. PStr (sm_guardian_id m)) (src_members s)"
    by (simp add: to_ballot_signers_def)
  moreover have "src_membership_source_sha256 x = sha256_hex (src_canonical_bytes x)" if "valid_source B x" for x
    using that by (simp add: valid_source_def)
  moreover have "t = s \<or> sha256_collision (src_canonical_bytes t) (src_canonical_bytes s)"
    if "valid_source B t" "src_membership_source_sha256 t = src_membership_source_sha256 s"
    using source_bytes_inj [OF that(1) assms] that calculation(2) assms by (auto simp: sha256_collision_def)
  ultimately show ?thesis using snap source_signers [OF assms snap(1)] assms by auto
qed

end
