(* ===== verification/Py_Frame.thy ===== *)
theory Py_Frame
  imports Py_Json "HOL-Library.AList"
begin

text \<open>
  What the local ingress modules share: truth values, decoding of ASCII JSON, and frames of a length prefix
  of four bytes followed by the payload, with the lemmas on association lists that their connection tables need.
\<close>

text \<open>\<open>bool(value)\<close>\<close>

fun py_truthy :: "pyval \<Rightarrow> bool" where
  "py_truthy PNone = False"
| "py_truthy (PBool b) = b"
| "py_truthy (PInt n) = (n \<noteq> 0)"
| "py_truthy (PFloat r) = (r \<noteq> u ''0.0'' \<and> r \<noteq> u ''-0.0'')"
| "py_truthy (PStr s) = (s \<noteq> [])"
| "py_truthy (PList vs) = (vs \<noteq> [])"
| "py_truthy (PDict kvs) = (kvs \<noteq> [])"

text \<open>\<open>wire.decode("ascii")\<close> followed by \<open>json.loads\<close>.\<close>

definition loads_ascii :: "py_env \<Rightarrow> pyexc \<Rightarrow> bytes \<Rightarrow> pyexc + pyval" where
  "loads_ascii E dup wire =
     (if list_all (\<lambda>b. unat b < 128) wire then loads_utf8 E dup wire else Inl UnicodeDecodeError)"

subsection \<open>Frames\<close>

definition FRAME_PREFIX_BYTES :: nat where
  "FRAME_PREFIX_BYTES = 4"

definition write_frame :: "bytes \<Rightarrow> bytes" where
  "write_frame payload = be_bytes FRAME_PREFIX_BYTES (length payload) @ payload"

text \<open>What a peer's byte stream, cut where it ends, holds: one frame of an admissible size, a prefix with
  another size, or too few bytes.\<close>

datatype frame = Incomplete | BadSize | Frame bytes

definition read_frame :: "nat \<Rightarrow> bytes \<Rightarrow> frame" where
  "read_frame limit input =
     (if length input < FRAME_PREFIX_BYTES then Incomplete
      else let frame_size = be_value (take FRAME_PREFIX_BYTES input);
               rest = drop FRAME_PREFIX_BYTES input
           in if \<not> (0 < frame_size \<and> frame_size \<le> limit) then BadSize
              else if length rest < frame_size then Incomplete
              else Frame (take frame_size rest))"

lemma read_write_frame:
  assumes "payload \<noteq> []" and "length payload \<le> limit" and "limit < 2 ^ 32"
  shows "read_frame limit (write_frame payload) = Frame payload"
  using assms be_value_be_bytes [of "length payload" 4]
  by (simp add: read_frame_def write_frame_def FRAME_PREFIX_BYTES_def Let_def)

subsection \<open>Tables of connections\<close>

lemma length_delete:
  assumes "distinct (map fst xs)" and "i \<in> fst ` set xs"
  shows "length (AList.delete i xs) = length xs - 1"
proof -
  have "map fst (AList.delete i xs) = remove1 i (map fst xs)"
    using assms(1) by (simp add: delete_keys distinct_remove1_removeAll)
  then have "length (map fst (AList.delete i xs)) = length (map fst xs) - 1"
    using assms(2) by (simp only: length_remove1) simp
  then show ?thesis by simp
qed

lemma map_of_key: "map_of xs i = Some c \<Longrightarrow> i \<in> fst ` set xs"
  by (metis domI dom_map_of_conv_image_fst)

lemma length_update: "i \<in> fst ` set xs \<Longrightarrow> length (AList.update i c xs) = length xs"
  using arg_cong [OF update_keys [of i c xs], of length] by simp

lemma set_update_subset: "set (AList.update i c xs) \<subseteq> insert (i, c) (set xs)"
  by (induction xs) auto

end
