(* ===== verification/Py_Document.thy ===== *)
theory Py_Document
  imports Py_Commitment
begin

text \<open>
  JSON documents whose fields are unsigned 64-bit integers and printable ASCII texts, written in the
  order of their fields with \<open>json.dumps(..., separators=(",", ":"))\<close>: the two settings of \<open>ensure_ascii\<close>
  give the same bytes, the bytes decode to the document, and their number is bounded field by field.
\<close>

definition printable :: "pystr \<Rightarrow> bool" where
  "printable s \<longleftrightarrow> list_all (\<lambda>c. 32 \<le> c \<and> c \<le> 126) s"

fun doc_value :: "pyval \<Rightarrow> bool" where
  "doc_value (PInt n) = (0 \<le> n \<and> n < 2 ^ 64)"
| "doc_value (PStr s) = printable s"
| "doc_value _ = False"

definition doc :: "(pystr \<times> pyval) list \<Rightarrow> bool" where
  "doc kvs \<longleftrightarrow> distinct (map fst kvs) \<and> list_all (\<lambda>(k, v). printable k \<and> doc_value v) kvs"

lemma doc_Nil [simp]: "doc []"
  by (simp add: doc_def)

lemma doc_Cons: "doc ((k, v) # kvs) \<longleftrightarrow> k \<notin> fst ` set kvs \<and> printable k \<and> doc_value v \<and> doc kvs"
  by (auto simp: doc_def)

lemma printable_scalar: "printable s \<Longrightarrow> list_all is_scalar s"
  by (fastforce simp: printable_def list_all_iff intro: ascii_is_scalar)

lemma printable_unescaped: "list_all unescaped s \<Longrightarrow> printable s"
  by (auto simp: printable_def list_all_iff unescaped_def)

lemma printable_lower_hex: "is_lower_hex n s \<Longrightarrow> printable s"
  by (auto simp: is_lower_hex_def list_all_iff intro!: printable_unescaped unescaped_hex)

lemma printable_quote: "printable s \<Longrightarrow> json_quote False s = json_quote True s"
proof -
  assume "printable s"
  then have "map (escape_char False) s = map (escape_char True) s"
    by (auto simp: printable_def list_all_iff escape_char_def)
  then show ?thesis unfolding json_quote_def by (simp only:)
qed

lemma printable_quote_length: "printable s \<Longrightarrow> length (json_quote asc s) \<le> 2 + 2 * length s"
proof -
  assume "printable s"
  then have "length (concat (map (escape_char asc) s)) \<le> 2 * length s"
    by (induction s) (auto simp: printable_def escape_char_def)
  then show ?thesis by (simp add: json_quote_def)
qed

lemma doc_value_simps:
  assumes "doc_value v"
  shows "json_plain v" "json_depth_of v = 0" "json_dumps False False v = json_dumps False True v"
proof -
  have "flat 30 (PInt n)" if "0 \<le> n" "n < 2 ^ 64" for n
    using that flat_int [of 0 "2 ^ 64 - 1" "PInt n"] by (auto intro: flat_mono)
  then show "json_plain v" "json_depth_of v = 0" "json_dumps False False v = json_dumps False True v"
    using assms by (cases v; auto simp: flat_def printable_scalar printable_quote)+
qed

lemma doc_plain: "doc kvs \<Longrightarrow> json_plain (PDict kvs)"
  by (auto simp: doc_def json_plain_items_iff list_all_iff doc_value_simps
      dest!: printable_scalar [unfolded list_all_iff])

lemma doc_depth: "doc kvs \<Longrightarrow> json_depth_of (PDict kvs) = 1"
  unfolding doc_def by (induction kvs) (auto simp: doc_value_simps)

lemma doc_dumps: "doc kvs \<Longrightarrow> json_dumps False False (PDict kvs) = json_dumps False True (PDict kvs)"
proof -
  assume "doc kvs"
  then have "map (member_text False) (json_dumps_items False False kvs) =
      map (member_text True) (json_dumps_items False True kvs)"
    unfolding doc_def by (induction kvs) (auto simp: member_text_def doc_value_simps printable_quote)
  then show ?thesis by (simp add: json_dumps_dict del: json_dumps.simps)
qed

lemma doc_compact: "doc kvs \<Longrightarrow> compact_json (PDict kvs) = Some (ascii_json (PDict kvs))"
  using json_dumps_ascii(1) [OF doc_plain [of kvs]]
  by (simp add: compact_json_def ascii_json_def doc_dumps utf8_encode_ascii del: json_dumps.simps json_plain.simps)

lemma doc_loads: "doc kvs \<Longrightarrow> 1 \<le> json_depth E \<Longrightarrow> loads_utf8 E dup (ascii_json (PDict kvs)) = Inr (PDict kvs)"
  using doc_depth [of kvs] by (intro ascii_json_loads doc_plain) simp_all

lemma doc_nonempty: "ascii_json (PDict kvs) \<noteq> []"
  by (simp add: ascii_json_def ascii_bytes_def)

lemma doc_inj: "doc kvs \<Longrightarrow> doc kvs' \<Longrightarrow> ascii_json (PDict kvs) = ascii_json (PDict kvs') \<Longrightarrow> kvs = kvs'"
  using ascii_json_inj [OF doc_plain doc_plain] by blast

lemma printable_append [simp]: "printable (s @ t) \<longleftrightarrow> printable s \<and> printable t"
  and printable_Cons [simp]: "printable (c # s) \<longleftrightarrow> 32 \<le> c \<and> c \<le> 126 \<and> printable s"
  and printable_Nil [simp]: "printable []"
  by (auto simp: printable_def)

lemma printable_quoted: "printable s \<Longrightarrow> printable (json_quote True s)"
proof -
  assume "printable s"
  then have "printable (concat (map (escape_char True) s))"
    by (induction s) (auto simp: escape_char_def)
  then show ?thesis by (simp add: json_quote_def)
qed

lemma printable_int: "0 \<le> n \<Longrightarrow> printable (int_str n)"
  using nat_digits_digits [of "nat n"]
  by (auto simp: int_str_def printable_def list_all_iff is_digit_def)

lemma printable_join: "list_all printable ts \<Longrightarrow> printable (join_comma ts)"
  by (induction ts rule: join_comma.induct) auto

lemma doc_printable: "doc kvs \<Longrightarrow> printable (json_dumps False True (PDict kvs))"
proof -
  assume d: "doc kvs"
  have "printable (json_dumps False True v)" if "doc_value v" for v
    using that by (cases v) (auto simp: printable_quoted printable_int)
  then have "list_all printable (map (member_text True) (json_dumps_items False True kvs))"
    using d unfolding doc_def by (induction kvs) (auto simp: member_text_def printable_quoted)
  then show ?thesis by (simp add: json_dumps_dict printable_join del: json_dumps.simps)
qed

text \<open>A bound on the size of a document, by bounds on the texts of its fields.\<close>

fun field_size :: "pyval \<Rightarrow> nat" where
  "field_size (PInt n) = 20"
| "field_size (PStr s) = length (json_quote True s)"
| "field_size _ = 0"

lemma field_size: "doc_value v \<Longrightarrow> length (json_dumps False True v) \<le> field_size v"
proof (cases v)
  case (PInt n)
  moreover assume "doc_value v"
  ultimately show ?thesis using flat_int [of 0 "2 ^ 64 - 1" "PInt n"] by (auto simp: flat_def)
qed auto

lemma doc_length:
  assumes "doc kvs"
  shows "length (ascii_json (PDict kvs)) \<le> 2 + (\<Sum>(k, v) \<leftarrow> kvs. length (json_quote True k) + field_size v + 2)"
proof -
  have "(\<Sum>(k, v) \<leftarrow> kvs. length (json_quote True k) + length (json_dumps False True v) + 2) \<le>
      (\<Sum>(k, v) \<leftarrow> kvs. length (json_quote True k) + field_size v + 2)"
    using assms field_size unfolding doc_def by (induction kvs) (auto intro!: add_mono)
  with length_dumps_dict_plain [of True kvs] show ?thesis
    by (simp add: ascii_json_def del: json_dumps.simps)
qed

end
