(* ===== verification/Membership_Transition.thy ===== *)
theory Membership_Transition
  imports Membership_Source Py_Frame Py_Document
begin

text \<open>
  Model of \<open>jaeger/guardian_membership_transition.py\<close>: the owner policy, signed membership
  transitions, dual-signed authority rotations and the durable ledger of
  \<open>GuardianMembershipAuthority\<close>.

  The SQLite ledger is a record of its tables. Tables constrained to one row are fields; the others
  are lists of rows in insertion order. Every operation runs in one \<open>BEGIN IMMEDIATE\<close> transaction
  that is rolled back when an exception leaves it, so an operation returns an exception or the new
  record. The comparison of the table layout with the expected schema is about SQLite's catalogue
  and has no counterpart in the record; the checks of \<open>_validate_ledger\<close> and
  \<open>_validate_immutable_anchor\<close> on the rows are modelled. Lock contention (the two \<open>Busy\<close> errors) and
  the file-system checks of the policy and ledger paths are not modelled. The parsed TOML document
  and the contents of source files are arguments.
\<close>

definition MEMBERSHIP_AUTHORITY_POLICY_SCHEMA_VERSION :: int where
  "MEMBERSHIP_AUTHORITY_POLICY_SCHEMA_VERSION = 1"
definition MEMBERSHIP_TRANSITION_SCHEMA_VERSION :: int where
  "MEMBERSHIP_TRANSITION_SCHEMA_VERSION = 1"
definition MEMBERSHIP_TRANSITION_PROTOCOL_ID :: pystr where
  "MEMBERSHIP_TRANSITION_PROTOCOL_ID = u ''/prometheus/guardian-membership-transition/1.0.0''"
definition MAX_MEMBERSHIP_TRANSITION_BYTES :: nat where
  "MAX_MEMBERSHIP_TRANSITION_BYTES = 2048"
definition MAX_MEMBERSHIP_TRANSITION_WINDOW_MS :: int where
  "MAX_MEMBERSHIP_TRANSITION_WINDOW_MS = 86400000"
definition MAX_MEMBERSHIP_TRANSITION_TIME_MS :: int where
  "MAX_MEMBERSHIP_TRANSITION_TIME_MS = 2 ^ 63 - 1"
definition MEMBERSHIP_TRANSITION_DIGEST_DOMAIN :: bytes where
  "MEMBERSHIP_TRANSITION_DIGEST_DOMAIN =
     ascii_bytes (u ''PROMETHEUS_GUARDIAN_MEMBERSHIP_TRANSITION_V1'') @ [0]"
definition TRANSITION_ID_DOMAIN :: bytes where
  "TRANSITION_ID_DOMAIN = ascii_bytes (u ''PROMETHEUS_GUARDIAN_MEMBERSHIP_TRANSITION_ID_V1'') @ [0]"
definition AUTHORITY_ROTATION_SCHEMA_VERSION :: int where
  "AUTHORITY_ROTATION_SCHEMA_VERSION = 1"
definition AUTHORITY_ROTATION_PROTOCOL_ID :: pystr where
  "AUTHORITY_ROTATION_PROTOCOL_ID = u ''/prometheus/guardian-membership-authority-rotation/1.0.0''"
definition MAX_AUTHORITY_ROTATION_BYTES :: nat where
  "MAX_AUTHORITY_ROTATION_BYTES = 2048"
definition MAX_AUTHORITY_ROTATION_WINDOW_MS :: int where
  "MAX_AUTHORITY_ROTATION_WINDOW_MS = 86400000"
definition AUTHORITY_ROTATION_AUTH_DIGEST_DOMAIN :: bytes where
  "AUTHORITY_ROTATION_AUTH_DIGEST_DOMAIN =
     ascii_bytes (u ''PROMETHEUS_GUARDIAN_AUTHORITY_ROTATION_AUTH_V1'') @ [0]"
definition AUTHORITY_ROTATION_POSSESSION_DIGEST_DOMAIN :: bytes where
  "AUTHORITY_ROTATION_POSSESSION_DIGEST_DOMAIN =
     ascii_bytes (u ''PROMETHEUS_GUARDIAN_AUTHORITY_ROTATION_POSSESSION_V1'') @ [0]"
definition AUTHORITY_ROTATION_ID_DOMAIN :: bytes where
  "AUTHORITY_ROTATION_ID_DOMAIN =
     ascii_bytes (u ''PROMETHEUS_GUARDIAN_AUTHORITY_ROTATION_ID_V1'') @ [0]"

definition policy_fields :: "string list" where
  "policy_fields =
     [''schema_version'', ''network_id'', ''authority_xonly_public_key'', ''bootstrap_epoch'',
      ''bootstrap_membership_source_sha256'', ''bootstrap_membership_source_path'', ''ledger_path'']"

definition transition_fields :: "string list" where
  "transition_fields =
     [''schema_version'', ''protocol_id'', ''network_id'', ''previous_epoch'',
      ''previous_membership_source_sha256'', ''next_epoch'', ''next_membership_source_sha256'',
      ''not_before_ms'', ''not_after_ms'', ''nonce'', ''payload_digest'', ''signature'']"

definition unsigned_transition_fields :: "string list" where
  "unsigned_transition_fields = take 10 transition_fields"

definition authority_rotation_fields :: "string list" where
  "authority_rotation_fields =
     [''schema_version'', ''protocol_id'', ''network_id'', ''previous_authority_epoch'',
      ''previous_authority_xonly_public_key'', ''next_authority_epoch'',
      ''next_authority_xonly_public_key'', ''membership_epoch'', ''membership_source_sha256'',
      ''not_before_ms'', ''not_after_ms'', ''nonce'', ''authorization_payload_digest'',
      ''possession_payload_digest'', ''authorization_signature'', ''possession_signature'']"

definition authority_rotation_auth_fields :: "string list" where
  "authority_rotation_auth_fields = take 12 authority_rotation_fields"

definition authority_rotation_possession_fields :: "string list" where
  "authority_rotation_possession_fields =
     [''schema_version'', ''protocol_id'', ''network_id'', ''previous_authority_epoch'',
      ''next_authority_epoch'', ''next_authority_xonly_public_key'', ''membership_epoch'',
      ''membership_source_sha256'', ''not_before_ms'', ''not_after_ms'', ''nonce'']"

subsection \<open>Data\<close>

record AuthorityPolicy =
  ap_network_id :: pystr
  ap_authority_xonly_public_key :: bytes
  ap_bootstrap_epoch :: int
  ap_bootstrap_membership_source_sha256 :: bytes
  ap_bootstrap_membership_source_path :: "pystr list"
  ap_ledger_path :: "pystr list"

record GuardianMembershipTransitionReceipt =
  tr_transition_id :: bytes
  tr_next_epoch :: int
  tr_next_membership_source_sha256 :: bytes
  tr_applied_at_ms :: int

record GuardianAuthorityRotationReceipt =
  rr_rotation_id :: bytes
  rr_next_authority_epoch :: int
  rr_next_authority_xonly_public_key :: bytes
  rr_applied_at_ms :: int

record ParsedTransition =
  pt_wire :: bytes
  pt_transition_id :: bytes
  pt_network_id :: pystr
  pt_previous_epoch :: int
  pt_previous_source_digest :: bytes
  pt_next_epoch :: int
  pt_next_source_digest :: bytes
  pt_not_before_ms :: int
  pt_not_after_ms :: int
  pt_nonce :: bytes
  pt_payload_digest :: bytes
  pt_signature :: bytes

record ParsedAuthorityRotation =
  pr_wire :: bytes
  pr_rotation_id :: bytes
  pr_network_id :: pystr
  pr_previous_authority_epoch :: int
  pr_previous_authority_key :: bytes
  pr_next_authority_epoch :: int
  pr_next_authority_key :: bytes
  pr_membership_epoch :: int
  pr_membership_source_digest :: bytes
  pr_not_before_ms :: int
  pr_not_after_ms :: int
  pr_nonce :: bytes
  pr_authorization_payload_digest :: bytes
  pr_possession_payload_digest :: bytes
  pr_authorization_signature :: bytes
  pr_possession_signature :: bytes

text \<open>A row stores the fields of the parsed document, the time and, for a transition, the authority
  epoch whose key verified it.\<close>

record transition_row =
  tw_transition :: ParsedTransition
  tw_applied_at_ms :: int
  tw_authority_epoch :: int

record rotation_row =
  rw_rotation :: ParsedAuthorityRotation
  rw_applied_at_ms :: int

record anchor =
  an_network_id :: pystr
  an_authority_xonly_public_key :: bytes
  an_bootstrap_epoch :: int
  an_bootstrap_membership_source_sha256 :: bytes

record membership_ledger =
  ml_anchor :: anchor
  ml_authority_epoch :: int
  ml_authority_key :: bytes
  ml_key_history :: "(int \<times> bytes) list"
  ml_rotations :: "rotation_row list"
  ml_epoch :: int
  ml_source_sha256 :: bytes
  ml_source_wire :: bytes
  ml_high_water_ms :: int
  ml_transitions :: "transition_row list"

subsection \<open>Field checks\<close>

definition is_epoch :: "pyval \<Rightarrow> bool" where
  "is_epoch v = int_in 0 MAX_MEMBERSHIP_EPOCH v"

definition is_time :: "pyval \<Rightarrow> bool" where
  "is_time v = int_in 1 MAX_MEMBERSHIP_TRANSITION_TIME_MS v"

definition decode_fixed_hex_32 :: "pyval \<Rightarrow> pyexc + bytes" where
  "decode_fixed_hex_32 v =
     (if is_hex_val 64 v then Inr (bytes_fromhex (the_str v)) else Inl GuardianMembershipTransitionError)"

definition decode_fixed_hex_64 :: "pyval \<Rightarrow> pyexc + bytes" where
  "decode_fixed_hex_64 v =
     (if is_hex_val 128 v then Inr (bytes_fromhex (the_str v)) else Inl GuardianMembershipTransitionError)"

text \<open>\<open>{name: data[name] for name in names}\<close>\<close>

definition field_subset :: "(pystr \<times> pyval) list \<Rightarrow> string list \<Rightarrow> pyval" where
  "field_subset d names = PDict (map (\<lambda>n. (u n, dict_at d n)) names)"

definition canonical_field_subset :: "(pystr \<times> pyval) list \<Rightarrow> string list \<Rightarrow> bytes" where
  "canonical_field_subset d names = ascii_json (field_subset d names)"

definition framed :: "bytes \<Rightarrow> bytes \<Rightarrow> bytes" where
  "framed domain wire = domain @ be_bytes 4 (length wire) @ wire"

definition domain_digest :: "bytes \<Rightarrow> bytes \<Rightarrow> bytes" where
  "domain_digest domain wire = sha256 (framed domain wire)"

text \<open>\<open>0 < not_after - not_before <= limit\<close>\<close>

definition window_ok :: "int \<Rightarrow> pyval \<Rightarrow> pyval \<Rightarrow> bool" where
  "window_ok limit before after \<longleftrightarrow>
     0 < the_int after - the_int before \<and> the_int after - the_int before \<le> limit"

text \<open>A POSIX path as its parts: empty and \<open>.\<close> components vanish, \<open>..\<close> is kept.\<close>

fun split_slash :: "pystr \<Rightarrow> pystr list" where
  "split_slash [] = [[]]"
| "split_slash (c # cs) =
     (if c = 47 then [] # split_slash cs
      else case split_slash cs of [] \<Rightarrow> [[c]] | t # ts \<Rightarrow> (c # t) # ts)"

definition path_parts :: "pystr \<Rightarrow> pystr list" where
  "path_parts s = filter (\<lambda>p. p \<noteq> [] \<and> p \<noteq> u ''.'') (split_slash s)"

fun canonical_absolute_path :: "pyval \<Rightarrow> pyexc + pystr list" where
  "canonical_absolute_path (PStr s) =
     (let parts = path_parts s
      in if s = [] \<or> hd s \<noteq> 47 \<or> parts = [] \<or> u ''..'' \<in> set parts
         then Inl GuardianMembershipTransitionError else Inr parts)"
| "canonical_absolute_path _ = Inl GuardianMembershipTransitionError"

subsection \<open>The owner policy\<close>

text \<open>\<open>data\<close> is the parsed TOML document.\<close>

definition load_authority_policy :: "bip340 \<Rightarrow> (pystr \<times> pyval) list \<Rightarrow> pyexc + AuthorityPolicy" where
  "load_authority_policy B data =
     (if \<not> keys_are policy_fields data then Inl GuardianMembershipTransitionError
      else if dict_at data ''schema_version'' \<noteq> PInt MEMBERSHIP_AUTHORITY_POLICY_SCHEMA_VERSION \<or>
              \<not> is_str (dict_at data ''network_id'') \<or> \<not> is_epoch (dict_at data ''bootstrap_epoch'')
      then Inl GuardianMembershipTransitionError
      else if validate_network_id (the_str (dict_at data ''network_id'')) \<noteq> Inr ()
      then Inl GuardianMembershipTransitionError
      else rbind (decode_fixed_hex_32 (dict_at data ''authority_xonly_public_key'')) (\<lambda>key.
           if \<not> xonly_parses B key then Inl GuardianMembershipTransitionError
           else rbind (decode_fixed_hex_32 (dict_at data ''bootstrap_membership_source_sha256'')) (\<lambda>digest.
                rbind (canonical_absolute_path (dict_at data ''bootstrap_membership_source_path'')) (\<lambda>path.
                rbind (canonical_absolute_path (dict_at data ''ledger_path'')) (\<lambda>ledger_path.
                Inr \<lparr>ap_network_id = the_str (dict_at data ''network_id''),
                     ap_authority_xonly_public_key = key,
                     ap_bootstrap_epoch = the_int (dict_at data ''bootstrap_epoch''),
                     ap_bootstrap_membership_source_sha256 = digest,
                     ap_bootstrap_membership_source_path = path, ap_ledger_path = ledger_path\<rparr>)))))"

subsection \<open>Transitions\<close>

definition is_json_failure :: "pyexc \<Rightarrow> bool" where
  "is_json_failure e \<longleftrightarrow>
     e \<in> {UnicodeDecodeError, UnicodeEncodeError, JSONDecodeError, RecursionError,
          GuardianMembershipTransitionError}"

definition transition_header_ok :: "(pystr \<times> pyval) list \<Rightarrow> bool" where
  "transition_header_ok d \<longleftrightarrow>
     dict_at d ''schema_version'' = PInt MEMBERSHIP_TRANSITION_SCHEMA_VERSION \<and>
     dict_at d ''protocol_id'' = PStr MEMBERSHIP_TRANSITION_PROTOCOL_ID \<and>
     is_str (dict_at d ''network_id'') \<and>
     is_epoch (dict_at d ''previous_epoch'') \<and> is_epoch (dict_at d ''next_epoch'') \<and>
     the_int (dict_at d ''previous_epoch'') < the_int (dict_at d ''next_epoch'') \<and>
     is_time (dict_at d ''not_before_ms'') \<and> is_time (dict_at d ''not_after_ms'') \<and>
     window_ok MAX_MEMBERSHIP_TRANSITION_WINDOW_MS (dict_at d ''not_before_ms'') (dict_at d ''not_after_ms'')"

definition parse_transition_object :: "bytes \<Rightarrow> (pystr \<times> pyval) list \<Rightarrow> pyexc + ParsedTransition" where
  "parse_transition_object wire d =
     (if dict_keys d \<noteq> map u transition_fields then Inl GuardianMembershipTransitionError
      else if \<not> transition_header_ok d then Inl GuardianMembershipTransitionError
      else if validate_network_id (the_str (dict_at d ''network_id'')) \<noteq> Inr ()
      then Inl GuardianMembershipTransitionError
      else rbind (decode_fixed_hex_32 (dict_at d ''previous_membership_source_sha256'')) (\<lambda>previous_digest.
           rbind (decode_fixed_hex_32 (dict_at d ''next_membership_source_sha256'')) (\<lambda>next_digest.
           rbind (decode_fixed_hex_32 (dict_at d ''nonce'')) (\<lambda>nonce.
           rbind (decode_fixed_hex_32 (dict_at d ''payload_digest'')) (\<lambda>payload_digest.
           rbind (decode_fixed_hex_64 (dict_at d ''signature'')) (\<lambda>signature.
           if ascii_json (PDict d) \<noteq> wire then Inl GuardianMembershipTransitionError
           else if payload_digest \<noteq> domain_digest MEMBERSHIP_TRANSITION_DIGEST_DOMAIN
                     (canonical_field_subset d unsigned_transition_fields)
           then Inl GuardianMembershipTransitionError
           else Inr \<lparr>pt_wire = wire, pt_transition_id = domain_digest TRANSITION_ID_DOMAIN wire,
                     pt_network_id = the_str (dict_at d ''network_id''),
                     pt_previous_epoch = the_int (dict_at d ''previous_epoch''),
                     pt_previous_source_digest = previous_digest,
                     pt_next_epoch = the_int (dict_at d ''next_epoch''),
                     pt_next_source_digest = next_digest,
                     pt_not_before_ms = the_int (dict_at d ''not_before_ms''),
                     pt_not_after_ms = the_int (dict_at d ''not_after_ms''),
                     pt_nonce = nonce, pt_payload_digest = payload_digest, pt_signature = signature\<rparr>))))))"

definition parse_transition :: "py_env \<Rightarrow> bytes \<Rightarrow> pyexc + ParsedTransition" where
  "parse_transition E wire =
     (if wire = [] \<or> MAX_MEMBERSHIP_TRANSITION_BYTES < length wire
      then Inl GuardianMembershipTransitionError
      else rbind (catch (loads_ascii E GuardianMembershipTransitionError wire) is_json_failure
                    (\<lambda>_. Inl GuardianMembershipTransitionError)) (\<lambda>data.
        case data of PDict d \<Rightarrow> parse_transition_object wire d
        | _ \<Rightarrow> Inl GuardianMembershipTransitionError))"

subsection \<open>Authority rotations\<close>

definition rotation_header_ok :: "(pystr \<times> pyval) list \<Rightarrow> bool" where
  "rotation_header_ok d \<longleftrightarrow>
     dict_at d ''schema_version'' = PInt AUTHORITY_ROTATION_SCHEMA_VERSION \<and>
     dict_at d ''protocol_id'' = PStr AUTHORITY_ROTATION_PROTOCOL_ID \<and>
     is_str (dict_at d ''network_id'') \<and>
     is_epoch (dict_at d ''previous_authority_epoch'') \<and> is_epoch (dict_at d ''next_authority_epoch'') \<and>
     the_int (dict_at d ''next_authority_epoch'') = the_int (dict_at d ''previous_authority_epoch'') + 1 \<and>
     is_epoch (dict_at d ''membership_epoch'') \<and>
     is_time (dict_at d ''not_before_ms'') \<and> is_time (dict_at d ''not_after_ms'') \<and>
     window_ok MAX_AUTHORITY_ROTATION_WINDOW_MS (dict_at d ''not_before_ms'') (dict_at d ''not_after_ms'')"

text \<open>Decoding the fields raises \<open>GuardianMembershipTransitionError\<close>, which is replaced by the rotation
  error; so are the errors of the network id and of the two keys.\<close>

definition rotation_hex :: "nat \<Rightarrow> pyval \<Rightarrow> pyexc + bytes" where
  "rotation_hex n v =
     (if is_hex_val n v then Inr (bytes_fromhex (the_str v)) else Inl GuardianAuthorityRotationError)"

definition parse_rotation_object ::
  "bip340 \<Rightarrow> bytes \<Rightarrow> (pystr \<times> pyval) list \<Rightarrow> pyexc + ParsedAuthorityRotation" where
  "parse_rotation_object B wire d =
     (if dict_keys d \<noteq> map u authority_rotation_fields then Inl GuardianAuthorityRotationError
      else if \<not> rotation_header_ok d then Inl GuardianAuthorityRotationError
      else if validate_network_id (the_str (dict_at d ''network_id'')) \<noteq> Inr ()
      then Inl GuardianAuthorityRotationError
      else rbind (rotation_hex 64 (dict_at d ''previous_authority_xonly_public_key'')) (\<lambda>previous_key.
           rbind (rotation_hex 64 (dict_at d ''next_authority_xonly_public_key'')) (\<lambda>next_key.
           rbind (rotation_hex 64 (dict_at d ''membership_source_sha256'')) (\<lambda>source_digest.
           rbind (rotation_hex 64 (dict_at d ''nonce'')) (\<lambda>nonce.
           rbind (rotation_hex 64 (dict_at d ''authorization_payload_digest'')) (\<lambda>auth_digest.
           rbind (rotation_hex 64 (dict_at d ''possession_payload_digest'')) (\<lambda>poss_digest.
           rbind (rotation_hex 128 (dict_at d ''authorization_signature'')) (\<lambda>auth_signature.
           rbind (rotation_hex 128 (dict_at d ''possession_signature'')) (\<lambda>poss_signature.
           if \<not> xonly_parses B previous_key \<or> \<not> xonly_parses B next_key
           then Inl GuardianAuthorityRotationError
           else if previous_key = next_key then Inl GuardianAuthorityRotationError
           else if ascii_json (PDict d) \<noteq> wire then Inl GuardianAuthorityRotationError
           else if auth_digest \<noteq> domain_digest AUTHORITY_ROTATION_AUTH_DIGEST_DOMAIN
                     (canonical_field_subset d authority_rotation_auth_fields) \<or>
                   poss_digest \<noteq> domain_digest AUTHORITY_ROTATION_POSSESSION_DIGEST_DOMAIN
                     (canonical_field_subset d authority_rotation_possession_fields)
           then Inl GuardianAuthorityRotationError
           else Inr \<lparr>pr_wire = wire, pr_rotation_id = domain_digest AUTHORITY_ROTATION_ID_DOMAIN wire,
                     pr_network_id = the_str (dict_at d ''network_id''),
                     pr_previous_authority_epoch = the_int (dict_at d ''previous_authority_epoch''),
                     pr_previous_authority_key = previous_key,
                     pr_next_authority_epoch = the_int (dict_at d ''next_authority_epoch''),
                     pr_next_authority_key = next_key,
                     pr_membership_epoch = the_int (dict_at d ''membership_epoch''),
                     pr_membership_source_digest = source_digest,
                     pr_not_before_ms = the_int (dict_at d ''not_before_ms''),
                     pr_not_after_ms = the_int (dict_at d ''not_after_ms''),
                     pr_nonce = nonce, pr_authorization_payload_digest = auth_digest,
                     pr_possession_payload_digest = poss_digest,
                     pr_authorization_signature = auth_signature,
                     pr_possession_signature = poss_signature\<rparr>)))))))))"

definition parse_authority_rotation :: "py_env \<Rightarrow> bip340 \<Rightarrow> bytes \<Rightarrow> pyexc + ParsedAuthorityRotation" where
  "parse_authority_rotation E B wire =
     (if wire = [] \<or> MAX_AUTHORITY_ROTATION_BYTES < length wire
      then Inl GuardianAuthorityRotationError
      else rbind (catch (loads_ascii E GuardianMembershipTransitionError wire) is_json_failure
                    (\<lambda>_. Inl GuardianAuthorityRotationError)) (\<lambda>data.
        case data of PDict d \<Rightarrow> parse_rotation_object B wire d
        | _ \<Rightarrow> Inl GuardianAuthorityRotationError))"

subsection \<open>The ledger\<close>

definition policy_anchor :: "AuthorityPolicy \<Rightarrow> anchor" where
  "policy_anchor P =
     \<lparr>an_network_id = ap_network_id P, an_authority_xonly_public_key = ap_authority_xonly_public_key P,
      an_bootstrap_epoch = ap_bootstrap_epoch P,
      an_bootstrap_membership_source_sha256 = ap_bootstrap_membership_source_sha256 P\<rparr>"

definition validate_ledger :: "AuthorityPolicy \<Rightarrow> membership_ledger \<Rightarrow> pyexc + unit" where
  "validate_ledger P L =
     rbind (raise_if (ml_anchor L \<noteq> policy_anchor P) GuardianMembershipTransitionError) (\<lambda>_.
     raise_if (\<not> is_epoch (PInt (ml_authority_epoch L)) \<or> length (ml_authority_key L) \<noteq> 32 \<or>
               int (length (ml_rotations L)) \<noteq> ml_authority_epoch L \<or>
               int (length (ml_key_history L)) \<noteq> ml_authority_epoch L + 1 \<or>
               (ml_authority_epoch L, ml_authority_key L) \<notin> set (ml_key_history L) \<or>
               (0, ap_authority_xonly_public_key P) \<notin> set (ml_key_history L))
       GuardianMembershipTransitionError)"

text \<open>\<open>_create_schema\<close>\<close>

definition create_schema :: "AuthorityPolicy \<Rightarrow> GuardianMembershipSource \<Rightarrow> membership_ledger" where
  "create_schema P bootstrap =
     \<lparr>ml_anchor = policy_anchor P, ml_authority_epoch = 0,
      ml_authority_key = ap_authority_xonly_public_key P,
      ml_key_history = [(0, ap_authority_xonly_public_key P)], ml_rotations = [],
      ml_epoch = src_epoch bootstrap,
      ml_source_sha256 = ap_bootstrap_membership_source_sha256 P,
      ml_source_wire = src_canonical_bytes bootstrap, ml_high_water_ms = 0, ml_transitions = []\<rparr>"

text \<open>A ledger of schema version 1 has no authority tables and no authority epoch on transitions.\<close>

record v1_ledger =
  v1_anchor :: anchor
  v1_epoch :: int
  v1_source_sha256 :: bytes
  v1_source_wire :: bytes
  v1_high_water_ms :: int
  v1_transitions :: "(ParsedTransition \<times> int) list"

definition migrate_v1_ledger :: "AuthorityPolicy \<Rightarrow> v1_ledger \<Rightarrow> pyexc + membership_ledger" where
  "migrate_v1_ledger P V =
     rbind (raise_if (v1_anchor V \<noteq> policy_anchor P) GuardianMembershipTransitionError) (\<lambda>_.
     Inr \<lparr>ml_anchor = v1_anchor V, ml_authority_epoch = 0,
          ml_authority_key = ap_authority_xonly_public_key P,
          ml_key_history = [(0, ap_authority_xonly_public_key P)], ml_rotations = [],
          ml_epoch = v1_epoch V, ml_source_sha256 = v1_source_sha256 V,
          ml_source_wire = v1_source_wire V, ml_high_water_ms = v1_high_water_ms V,
          ml_transitions = map (\<lambda>(t, applied). \<lparr>tw_transition = t, tw_applied_at_ms = applied, tw_authority_epoch = 0\<rparr>)
            (v1_transitions V)\<rparr>)"

text \<open>The database found at the ledger path, by its \<open>user_version\<close>. A new file has version 0 and no
  tables; the flag tells whether a version-0 file has tables.\<close>

datatype ledger_db =
    DbVersion0 bool
  | DbVersion1 v1_ledger
  | DbVersion2 membership_ledger
  | DbOther

definition initialize_ledger ::
  "AuthorityPolicy \<Rightarrow> GuardianMembershipSource \<Rightarrow> ledger_db \<Rightarrow> pyexc + membership_ledger" where
  "initialize_ledger P bootstrap db =
     rbind (case db of
              DbVersion0 has_tables \<Rightarrow>
                (if has_tables then Inl GuardianMembershipTransitionError
                 else Inr (create_schema P bootstrap))
            | DbVersion1 V \<Rightarrow> migrate_v1_ledger P V
            | DbVersion2 L \<Rightarrow> Inr L
            | DbOther \<Rightarrow> Inl GuardianMembershipTransitionError) (\<lambda>L.
     rbind (validate_ledger P L) (\<lambda>_. Inr L))"

text \<open>\<open>GuardianMembershipAuthority.__init__\<close> after the policy is loaded. The handler around loading the
  bootstrap source catches every \<open>ValueError\<close>.\<close>

definition membership_authority_init ::
  "py_env \<Rightarrow> bip340 \<Rightarrow> AuthorityPolicy \<Rightarrow> pyexc + bytes \<Rightarrow> ledger_db \<Rightarrow> pyexc + membership_ledger" where
  "membership_authority_init E B P contents db =
     rbind (catch (load_guardian_membership_source E B contents (PStr (ap_network_id P))) is_value_error
              (\<lambda>_. Inl GuardianMembershipTransitionError)) (\<lambda>bootstrap.
     if src_epoch bootstrap \<noteq> ap_bootstrap_epoch P \<or>
        sha256 (src_canonical_bytes bootstrap) \<noteq> ap_bootstrap_membership_source_sha256 P
     then Inl GuardianMembershipTransitionError
     else initialize_ledger P bootstrap db)"

definition apply_transition ::
  "py_env \<Rightarrow> bip340 \<Rightarrow> AuthorityPolicy \<Rightarrow> membership_ledger \<Rightarrow> bytes \<Rightarrow> pyexc + bytes \<Rightarrow> int \<Rightarrow>
     pyexc + (GuardianMembershipTransitionReceipt \<times> membership_ledger)" where
  "apply_transition E B P L wire next_contents now_ms =
     rbind (parse_transition E wire) (\<lambda>t.
     rbind (raise_if (pt_network_id t \<noteq> ap_network_id P) GuardianMembershipTransitionError) (\<lambda>_.
     rbind (catch (load_guardian_membership_source E B next_contents (PStr (ap_network_id P)))
              is_value_error (\<lambda>_. Inl GuardianMembershipTransitionError)) (\<lambda>next_source.
     rbind (raise_if (src_epoch next_source \<noteq> pt_next_epoch t \<or>
                      sha256 (src_canonical_bytes next_source) \<noteq> pt_next_source_digest t \<or>
                      \<not> is_time (PInt now_ms) \<or>
                      \<not> (pt_not_before_ms t \<le> now_ms \<and> now_ms < pt_not_after_ms t))
              GuardianMembershipTransitionError) (\<lambda>_.
     rbind (validate_ledger P L) (\<lambda>_.
     if list_ex (\<lambda>r. pt_transition_id (tw_transition r) = pt_transition_id t \<or>
                     pt_nonce (tw_transition r) = pt_nonce t \<or>
                     pt_next_epoch (tw_transition r) = pt_next_epoch t) (ml_transitions L)
     then Inl GuardianMembershipTransitionReplayError
     else if ml_epoch L \<noteq> pt_previous_epoch t \<or> ml_source_sha256 L \<noteq> pt_previous_source_digest t \<or>
             now_ms < ml_high_water_ms L
     then Inl GuardianMembershipTransitionError
     else if schnorr_verify B (ml_authority_key L) (pt_signature t) (pt_payload_digest t) \<noteq> Some True
     then Inl GuardianMembershipTransitionError
     else Inr (\<lparr>tr_transition_id = pt_transition_id t, tr_next_epoch = pt_next_epoch t,
                tr_next_membership_source_sha256 = pt_next_source_digest t, tr_applied_at_ms = now_ms\<rparr>,
               L\<lparr>ml_transitions := ml_transitions L @
                   [\<lparr>tw_transition = t, tw_applied_at_ms = now_ms,
                     tw_authority_epoch = ml_authority_epoch L\<rparr>],
                 ml_epoch := pt_next_epoch t, ml_source_sha256 := pt_next_source_digest t,
                 ml_source_wire := src_canonical_bytes next_source,
                 ml_high_water_ms := now_ms\<rparr>))))))"

text \<open>The last check before the update is the primary key of \<open>authority_key_history\<close>; the uniqueness of
  its key column and of the columns of \<open>authority_rotations\<close> was tested before.\<close>

definition rotate_authority ::
  "py_env \<Rightarrow> bip340 \<Rightarrow> AuthorityPolicy \<Rightarrow> membership_ledger \<Rightarrow> bytes \<Rightarrow> int \<Rightarrow>
     pyexc + (GuardianAuthorityRotationReceipt \<times> membership_ledger)" where
  "rotate_authority E B P L wire now_ms =
     rbind (parse_authority_rotation E B wire) (\<lambda>r.
     rbind (raise_if (pr_network_id r \<noteq> ap_network_id P \<or> \<not> is_time (PInt now_ms) \<or>
                      \<not> (pr_not_before_ms r \<le> now_ms \<and> now_ms < pr_not_after_ms r))
              GuardianAuthorityRotationError) (\<lambda>_.
     rbind (catch (validate_ledger P L) (\<lambda>e. e = GuardianMembershipTransitionError)
              (\<lambda>_. Inl GuardianAuthorityRotationError)) (\<lambda>_.
     if list_ex (\<lambda>q. pr_rotation_id (rw_rotation q) = pr_rotation_id r \<or>
                     pr_nonce (rw_rotation q) = pr_nonce r \<or>
                     pr_previous_authority_epoch (rw_rotation q) = pr_previous_authority_epoch r \<or>
                     pr_next_authority_epoch (rw_rotation q) = pr_next_authority_epoch r) (ml_rotations L) \<or>
        pr_next_authority_key r \<in> snd ` set (ml_key_history L)
     then Inl GuardianAuthorityRotationReplayError
     else if ml_authority_epoch L \<noteq> pr_previous_authority_epoch r \<or>
             ml_authority_key L \<noteq> pr_previous_authority_key r \<or>
             ml_epoch L \<noteq> pr_membership_epoch r \<or> ml_source_sha256 L \<noteq> pr_membership_source_digest r \<or>
             now_ms < ml_high_water_ms L
     then Inl GuardianAuthorityRotationError
     else if schnorr_verify B (ml_authority_key L) (pr_authorization_signature r)
               (pr_authorization_payload_digest r) \<noteq> Some True \<or>
             schnorr_verify B (pr_next_authority_key r) (pr_possession_signature r)
               (pr_possession_payload_digest r) \<noteq> Some True
     then Inl GuardianAuthorityRotationError
     else if pr_next_authority_epoch r \<in> fst ` set (ml_key_history L)
     then Inl GuardianAuthorityRotationReplayError
     else Inr (\<lparr>rr_rotation_id = pr_rotation_id r, rr_next_authority_epoch = pr_next_authority_epoch r,
                rr_next_authority_xonly_public_key = pr_next_authority_key r, rr_applied_at_ms = now_ms\<rparr>,
               L\<lparr>ml_rotations := ml_rotations L @ [\<lparr>rw_rotation = r, rw_applied_at_ms = now_ms\<rparr>],
                 ml_key_history := ml_key_history L @ [(pr_next_authority_epoch r, pr_next_authority_key r)],
                 ml_authority_epoch := pr_next_authority_epoch r,
                 ml_authority_key := pr_next_authority_key r, ml_high_water_ms := now_ms\<rparr>))))"

text \<open>\<open>current_source\<close> up to the \<open>yield\<close>; a plain \<open>ValueError\<close> of the parser is not caught.\<close>

definition current_source ::
  "py_env \<Rightarrow> bip340 \<Rightarrow> AuthorityPolicy \<Rightarrow> membership_ledger \<Rightarrow> pyval \<Rightarrow> pyval \<Rightarrow>
     pyexc + GuardianMembershipSource" where
  "current_source E B P L expected_network_id expected_epoch =
     (if expected_network_id \<noteq> PStr (ap_network_id P) \<or> \<not> is_epoch expected_epoch
      then Inl GuardianMembershipTransitionError
      else rbind (validate_ledger P L) (\<lambda>_.
           if PInt (ml_epoch L) \<noteq> expected_epoch \<or> ml_source_wire L = [] \<or>
              MAX_MEMBERSHIP_SOURCE_BYTES < length (ml_source_wire L)
           then Inl GuardianMembershipTransitionError
           else rbind (catch (parse_guardian_membership_source E B (ml_source_wire L) expected_network_id)
                         (\<lambda>e. e = GuardianMembershipSourceError)
                         (\<lambda>_. Inl GuardianMembershipTransitionError)) (\<lambda>source.
                if src_epoch source \<noteq> ml_epoch L \<or>
                   sha256 (src_canonical_bytes source) \<noteq> ml_source_sha256 L
                then Inl GuardianMembershipTransitionError
                else Inr source)))"

subsection \<open>The authority as a state machine\<close>

text \<open>A step is an accepted transition or an accepted rotation; an operation that raises is rolled back.
  The reachable ledgers are those of an authority created on a new file.\<close>

inductive authority_step ::
  "py_env \<Rightarrow> bip340 \<Rightarrow> AuthorityPolicy \<Rightarrow> membership_ledger \<Rightarrow> membership_ledger \<Rightarrow> bool" for E B P where
  step_transition: "apply_transition E B P L wire contents now_ms = Inr (receipt, L') \<Longrightarrow>
     authority_step E B P L L'"
| step_rotation: "rotate_authority E B P L wire now_ms = Inr (receipt, L') \<Longrightarrow> authority_step E B P L L'"

inductive authority_reachable ::
  "py_env \<Rightarrow> bip340 \<Rightarrow> AuthorityPolicy \<Rightarrow> membership_ledger \<Rightarrow> bool" for E B P where
  reach_init: "membership_authority_init E B P contents (DbVersion0 False) = Inr L \<Longrightarrow>
     authority_reachable E B P L"
| reach_step: "authority_reachable E B P L \<Longrightarrow> authority_step E B P L L' \<Longrightarrow> authority_reachable E B P L'"

inductive_cases authority_stepE: "authority_step E B P L L'"

lemma validate_ledger_iff:
  "validate_ledger P L = Inr () \<longleftrightarrow>
     ml_anchor L = policy_anchor P \<and> is_epoch (PInt (ml_authority_epoch L)) \<and>
     length (ml_authority_key L) = 32 \<and> int (length (ml_rotations L)) = ml_authority_epoch L \<and>
     int (length (ml_key_history L)) = ml_authority_epoch L + 1 \<and>
     (ml_authority_epoch L, ml_authority_key L) \<in> set (ml_key_history L) \<and>
     (0, ap_authority_xonly_public_key P) \<in> set (ml_key_history L)"
  by (auto simp: validate_ledger_def)

lemma parse_transition_Inr:
  assumes "parse_transition E wire = Inr t"
  shows "pt_wire t = wire" "pt_transition_id t = domain_digest TRANSITION_ID_DOMAIN wire"
    "0 \<le> pt_previous_epoch t" "pt_previous_epoch t < pt_next_epoch t"
    "1 \<le> pt_not_before_ms t" "pt_not_before_ms t < pt_not_after_ms t"
  using assms
  by (auto simp: parse_transition_def parse_transition_object_def transition_header_ok_def is_epoch_def
      is_time_def int_in_iff window_ok_def split: if_splits)

lemma rotation_hex_length: "rotation_hex 64 v = Inr k \<Longrightarrow> length k = 32"
  by (auto simp: rotation_hex_def is_hex_val_iff is_lower_hex_def length_bytes_fromhex split: if_splits)

lemma parse_rotation_Inr:
  assumes "parse_authority_rotation E B wire = Inr r"
  shows "pr_wire r = wire" "pr_rotation_id r = domain_digest AUTHORITY_ROTATION_ID_DOMAIN wire"
    "pr_next_authority_epoch r = pr_previous_authority_epoch r + 1"
    "is_epoch (PInt (pr_next_authority_epoch r))" "length (pr_next_authority_key r) = 32"
proof -
  obtain d where d: "parse_rotation_object B wire d = Inr r"
    using assms by (auto simp: parse_authority_rotation_def split: if_splits)
  show "pr_wire r = wire" "pr_rotation_id r = domain_digest AUTHORITY_ROTATION_ID_DOMAIN wire"
    "length (pr_next_authority_key r) = 32"
    using d by (auto simp: parse_rotation_object_def dest: rotation_hex_length split: if_splits)
  have "rotation_header_ok d" "pr_next_authority_epoch r = the_int (dict_at d ''next_authority_epoch'')"
    "pr_previous_authority_epoch r = the_int (dict_at d ''previous_authority_epoch'')"
    using d by (auto simp: parse_rotation_object_def split: if_splits)
  then show "pr_next_authority_epoch r = pr_previous_authority_epoch r + 1"
    "is_epoch (PInt (pr_next_authority_epoch r))"
    by (auto simp: rotation_header_ok_def is_epoch_def int_in_iff)
qed

lemma load_source_valid:
  "catch (load_guardian_membership_source E B contents (PStr net)) p (\<lambda>_. Inl e) = Inr s \<Longrightarrow>
   valid_source B s \<and> src_network_id s = net"
  by (auto simp: catch_eq_Inr_raise load_guardian_membership_source_def dest: parse_source_valid)

lemma apply_transition_Inr:
  assumes "apply_transition E B P L wire contents now_ms = Inr (receipt, L')"
  obtains t s where "parse_transition E wire = Inr t" and "valid_source B s"
    and "src_network_id s = ap_network_id P" and "src_epoch s = pt_next_epoch t"
    and "sha256 (src_canonical_bytes s) = pt_next_source_digest t"
    and "pt_not_before_ms t \<le> now_ms" and "now_ms < pt_not_after_ms t"
    and "validate_ledger P L = Inr ()"
    and "\<forall>r \<in> set (ml_transitions L). pt_transition_id (tw_transition r) \<noteq> pt_transition_id t \<and>
           pt_nonce (tw_transition r) \<noteq> pt_nonce t \<and> pt_next_epoch (tw_transition r) \<noteq> pt_next_epoch t"
    and "ml_epoch L = pt_previous_epoch t" and "ml_source_sha256 L = pt_previous_source_digest t"
    and "ml_high_water_ms L \<le> now_ms"
    and "schnorr_verify B (ml_authority_key L) (pt_signature t) (pt_payload_digest t) = Some True"
    and "L' = L\<lparr>ml_transitions := ml_transitions L @
                 [\<lparr>tw_transition = t, tw_applied_at_ms = now_ms, tw_authority_epoch = ml_authority_epoch L\<rparr>],
               ml_epoch := pt_next_epoch t, ml_source_sha256 := pt_next_source_digest t,
               ml_source_wire := src_canonical_bytes s, ml_high_water_ms := now_ms\<rparr>"
proof -
  obtain t where t: "parse_transition E wire = Inr t" "pt_network_id t = ap_network_id P"
    using assms by (auto simp: apply_transition_def)
  then obtain s where s: "catch (load_guardian_membership_source E B contents (PStr (ap_network_id P)))
      is_value_error (\<lambda>_. Inl GuardianMembershipTransitionError) = Inr s"
    using assms by (auto simp: apply_transition_def)
  note v = load_source_valid [OF s]
  show thesis
    using assms v by (intro that [of t s])
      (auto simp: apply_transition_def t s list_ex_iff split: if_splits)
qed

lemma rotate_authority_Inr:
  assumes "rotate_authority E B P L wire now_ms = Inr (receipt, L')"
  obtains r where "parse_authority_rotation E B wire = Inr r"
    and "pr_not_before_ms r \<le> now_ms" and "now_ms < pr_not_after_ms r"
    and "validate_ledger P L = Inr ()"
    and "pr_next_authority_key r \<notin> snd ` set (ml_key_history L)"
    and "pr_next_authority_epoch r \<notin> fst ` set (ml_key_history L)"
    and "ml_authority_epoch L = pr_previous_authority_epoch r"
    and "ml_authority_key L = pr_previous_authority_key r"
    and "ml_epoch L = pr_membership_epoch r" and "ml_source_sha256 L = pr_membership_source_digest r"
    and "ml_high_water_ms L \<le> now_ms"
    and "schnorr_verify B (ml_authority_key L) (pr_authorization_signature r)
           (pr_authorization_payload_digest r) = Some True"
    and "schnorr_verify B (pr_next_authority_key r) (pr_possession_signature r)
           (pr_possession_payload_digest r) = Some True"
    and "L' = L\<lparr>ml_rotations := ml_rotations L @ [\<lparr>rw_rotation = r, rw_applied_at_ms = now_ms\<rparr>],
               ml_key_history := ml_key_history L @ [(pr_next_authority_epoch r, pr_next_authority_key r)],
               ml_authority_epoch := pr_next_authority_epoch r,
               ml_authority_key := pr_next_authority_key r, ml_high_water_ms := now_ms\<rparr>"
proof -
  obtain r where r: "parse_authority_rotation E B wire = Inr r"
    using assms by (auto simp: rotate_authority_def)
  have v: "validate_ledger P L = Inr ()"
    using assms by (auto simp: rotate_authority_def r catch_eq_Inr_raise)
  show thesis
    using assms by (intro that [of r]) (auto simp: rotate_authority_def r v split: if_splits)
qed

subsection \<open>The invariant\<close>

text \<open>The keys of an authority: the genesis key of the policy, then the key of each rotation.\<close>

definition authority_keys :: "AuthorityPolicy \<Rightarrow> membership_ledger \<Rightarrow> bytes list" where
  "authority_keys P L =
     ap_authority_xonly_public_key P # map (pr_next_authority_key \<circ> rw_rotation) (ml_rotations L)"

definition keys_inv :: "bip340 \<Rightarrow> AuthorityPolicy \<Rightarrow> membership_ledger \<Rightarrow> bool" where
  "keys_inv B P L \<longleftrightarrow>
     ml_key_history L = zip (map int [0..<length (authority_keys P L)]) (authority_keys P L) \<and>
     distinct (authority_keys P L) \<and> ml_authority_key L = last (authority_keys P L) \<and>
     ml_authority_epoch L = int (length (ml_rotations L)) \<and>
     (\<forall>i < length (ml_rotations L). let r = rw_rotation (ml_rotations L ! i) in
        schnorr_verify B (authority_keys P L ! i) (pr_authorization_signature r)
          (pr_authorization_payload_digest r) = Some True \<and>
        schnorr_verify B (authority_keys P L ! Suc i) (pr_possession_signature r)
          (pr_possession_payload_digest r) = Some True)"

text \<open>Transitions lead from one epoch and source digest to the next.\<close>

fun chain :: "int \<times> bytes \<Rightarrow> transition_row list \<Rightarrow> int \<times> bytes \<Rightarrow> bool" where
  "chain from [] to = (from = to)"
| "chain from (r # rs) to =
     ((pt_previous_epoch (tw_transition r), pt_previous_source_digest (tw_transition r)) = from \<and>
      pt_previous_epoch (tw_transition r) < pt_next_epoch (tw_transition r) \<and>
      chain (pt_next_epoch (tw_transition r), pt_next_source_digest (tw_transition r)) rs to)"

definition transition_signed :: "py_env \<Rightarrow> bip340 \<Rightarrow> (int \<times> bytes) list \<Rightarrow> transition_row \<Rightarrow> bool" where
  "transition_signed E B history r \<longleftrightarrow>
     parse_transition E (pt_wire (tw_transition r)) = Inr (tw_transition r) \<and>
     (\<exists>key. (tw_authority_epoch r, key) \<in> set history \<and>
        schnorr_verify B key (pt_signature (tw_transition r)) (pt_payload_digest (tw_transition r)) = Some True)"

definition authority_inv :: "py_env \<Rightarrow> bip340 \<Rightarrow> AuthorityPolicy \<Rightarrow> membership_ledger \<Rightarrow> bool" where
  "authority_inv E B P L \<longleftrightarrow>
     validate_ledger P L = Inr () \<and> keys_inv B P L \<and>
     chain (ap_bootstrap_epoch P, ap_bootstrap_membership_source_sha256 P) (ml_transitions L)
       (ml_epoch L, ml_source_sha256 L) \<and>
     (\<forall>r \<in> set (ml_transitions L). transition_signed E B (ml_key_history L) r \<and>
        tw_applied_at_ms r \<le> ml_high_water_ms L) \<and>
     (\<forall>q \<in> set (ml_rotations L). rw_applied_at_ms q \<le> ml_high_water_ms L) \<and>
     (\<exists>s. valid_source B s \<and> src_network_id s = ap_network_id P \<and> src_epoch s = ml_epoch L \<and>
          src_canonical_bytes s = ml_source_wire L \<and> sha256 (ml_source_wire L) = ml_source_sha256 L)"

lemma chain_snoc:
  "chain from (rs @ [r]) to \<longleftrightarrow>
     (\<exists>mid. chain from rs mid \<and>
        (pt_previous_epoch (tw_transition r), pt_previous_source_digest (tw_transition r)) = mid \<and>
        pt_previous_epoch (tw_transition r) < pt_next_epoch (tw_transition r) \<and>
        (pt_next_epoch (tw_transition r), pt_next_source_digest (tw_transition r)) = to)"
  by (induction rs arbitrary: "from") auto

lemma authority_inv_init:
  assumes "membership_authority_init E B P contents (DbVersion0 False) = Inr L"
  shows "authority_inv E B P L"
proof -
  obtain s where s: "catch (load_guardian_membership_source E B contents (PStr (ap_network_id P)))
      is_value_error (\<lambda>_. Inl GuardianMembershipTransitionError) = Inr s"
    and e: "src_epoch s = ap_bootstrap_epoch P"
    and d: "sha256 (src_canonical_bytes s) = ap_bootstrap_membership_source_sha256 P"
    and i: "initialize_ledger P s (DbVersion0 False) = Inr L"
    using assms by (auto simp: membership_authority_init_def split: if_splits)
  have L: "L = create_schema P s" and v: "validate_ledger P L = Inr ()"
    using i by (auto simp: initialize_ledger_def)
  have "\<exists>s. valid_source B s \<and> src_network_id s = ap_network_id P \<and> src_epoch s = ml_epoch L \<and>
          src_canonical_bytes s = ml_source_wire L \<and> sha256 (ml_source_wire L) = ml_source_sha256 L"
    using load_source_valid [OF s] e d by (auto simp: L create_schema_def)
  then show ?thesis using v e
    by (simp add: authority_inv_def keys_inv_def authority_keys_def) (simp add: L create_schema_def)
qed

lemma transition_signed_mono:
  "transition_signed E B H r \<Longrightarrow> set H \<subseteq> set H' \<Longrightarrow> transition_signed E B H' r"
  by (auto simp: transition_signed_def)

lemma authority_inv_transition:
  assumes inv: "authority_inv E B P L"
    and ap: "apply_transition E B P L wire contents now_ms = Inr (receipt, L')"
  shows "authority_inv E B P L'"
proof (rule apply_transition_Inr [OF ap])
  fix t s
  let ?row = "\<lparr>tw_transition = t, tw_applied_at_ms = now_ms, tw_authority_epoch = ml_authority_epoch L\<rparr>"
  assume t: "parse_transition E wire = Inr t" and s: "valid_source B s" "src_network_id s = ap_network_id P"
      "src_epoch s = pt_next_epoch t" "sha256 (src_canonical_bytes s) = pt_next_source_digest t"
    and ep: "ml_epoch L = pt_previous_epoch t" "ml_source_sha256 L = pt_previous_source_digest t"
      "ml_high_water_ms L \<le> now_ms"
    and sig: "schnorr_verify B (ml_authority_key L) (pt_signature t) (pt_payload_digest t) = Some True"
    and L': "L' = L\<lparr>ml_transitions := ml_transitions L @ [?row], ml_epoch := pt_next_epoch t,
        ml_source_sha256 := pt_next_source_digest t, ml_source_wire := src_canonical_bytes s,
        ml_high_water_ms := now_ms\<rparr>"
  note i = inv [unfolded authority_inv_def]
  note p = parse_transition_Inr [OF t]
  have "transition_signed E B (ml_key_history L) ?row"
    using t p(1) sig i by (auto simp: transition_signed_def validate_ledger_iff)
  moreover have "keys_inv B P L'" using i by (simp add: L' keys_inv_def authority_keys_def)
  moreover have "validate_ledger P L' = Inr ()" using i by (simp add: L' validate_ledger_iff)
  moreover have "chain (ap_bootstrap_epoch P, ap_bootstrap_membership_source_sha256 P)
      (ml_transitions L') (ml_epoch L', ml_source_sha256 L')"
    using i ep p(4) by (simp add: L' chain_snoc)
  ultimately show ?thesis using i s ep(3) by (auto simp: authority_inv_def L')
qed

lemma authority_inv_rotation:
  assumes inv: "authority_inv E B P L"
    and ro: "rotate_authority E B P L wire now_ms = Inr (receipt, L')"
  shows "authority_inv E B P L'"
proof (rule rotate_authority_Inr [OF ro])
  fix r
  assume r: "parse_authority_rotation E B wire = Inr r"
    and new: "pr_next_authority_key r \<notin> snd ` set (ml_key_history L)"
    and prev: "ml_authority_epoch L = pr_previous_authority_epoch r" "ml_high_water_ms L \<le> now_ms"
    and sig: "schnorr_verify B (ml_authority_key L) (pr_authorization_signature r)
           (pr_authorization_payload_digest r) = Some True"
      "schnorr_verify B (pr_next_authority_key r) (pr_possession_signature r)
           (pr_possession_payload_digest r) = Some True"
    and L': "L' = L\<lparr>ml_rotations := ml_rotations L @ [\<lparr>rw_rotation = r, rw_applied_at_ms = now_ms\<rparr>],
        ml_key_history := ml_key_history L @ [(pr_next_authority_epoch r, pr_next_authority_key r)],
        ml_authority_epoch := pr_next_authority_epoch r,
        ml_authority_key := pr_next_authority_key r, ml_high_water_ms := now_ms\<rparr>"
  note i = inv [unfolded authority_inv_def] and p = parse_rotation_Inr [OF r]
  let ?ks = "authority_keys P L" and ?n = "length (ml_rotations L)"
  have k: "ml_key_history L = zip (map int [0..<length ?ks]) ?ks" "distinct ?ks"
    "ml_authority_key L = last ?ks" "ml_authority_epoch L = int ?n"
    using i by (simp_all add: keys_inv_def)
  have len: "length ?ks = Suc ?n" by (simp add: authority_keys_def)
  have rot': "ml_rotations L' = ml_rotations L @ [\<lparr>rw_rotation = r, rw_applied_at_ms = now_ms\<rparr>]"
    by (simp add: L')
  have ks': "authority_keys P L' = ?ks @ [pr_next_authority_key r]" by (simp add: authority_keys_def L')
  have epoch: "pr_next_authority_epoch r = int (length ?ks)" using prev(1) p(3) k(4) len by simp
  have "snd ` set (ml_key_history L) = set ?ks"
    using map_snd_zip [of "map int [0..<length ?ks]" ?ks] k(1) by (metis length_map length_upt minus_nat.diff_0 set_map)
  then have "distinct (authority_keys P L')" using new k(2) by (simp add: ks')
  moreover have "ml_key_history L' = zip (map int [0..<length (authority_keys P L')]) (authority_keys P L')"
    unfolding ks' by (simp add: L' k(1) epoch)
  moreover have "let q = rw_rotation (ml_rotations L' ! j) in
        schnorr_verify B (authority_keys P L' ! j) (pr_authorization_signature q)
          (pr_authorization_payload_digest q) = Some True \<and>
        schnorr_verify B (authority_keys P L' ! Suc j) (pr_possession_signature q)
          (pr_possession_payload_digest q) = Some True" if "j < length (ml_rotations L')" for j
  proof (cases "j < ?n")
    case True
    moreover have "let q = rw_rotation (ml_rotations L ! j) in
        schnorr_verify B (?ks ! j) (pr_authorization_signature q) (pr_authorization_payload_digest q) = Some True \<and>
        schnorr_verify B (?ks ! Suc j) (pr_possession_signature q) (pr_possession_payload_digest q) = Some True"
      using i True by (simp add: keys_inv_def)
    ultimately show ?thesis unfolding ks' rot' using len by (simp add: nth_append)
  next
    case False
    with that have "j = ?n" by (simp add: rot')
    moreover have "?ks ! ?n = ml_authority_key L" using k(3) len by (simp add: last_conv_nth authority_keys_def)
    ultimately show ?thesis unfolding ks' rot' using sig len by (simp add: nth_append)
  qed
  ultimately have keys: "keys_inv B P L'"
    using epoch len unfolding keys_inv_def ks' by (simp add: L')
  have "validate_ledger P L' = Inr ()"
    using i p epoch len k(4) by (simp add: L' validate_ledger_iff)
  moreover have "\<forall>q \<in> set (ml_transitions L'). transition_signed E B (ml_key_history L') q \<and>
      tw_applied_at_ms q \<le> ml_high_water_ms L'"
    using i prev(2) by (auto simp: L' intro: transition_signed_mono)
  ultimately show ?thesis using i keys prev(2) by (auto simp: authority_inv_def L')
qed

lemma authority_inv_reachable: "authority_reachable E B P L \<Longrightarrow> authority_inv E B P L"
  by (induction rule: authority_reachable.induct)
     (auto elim!: authority_stepE intro: authority_inv_init authority_inv_transition authority_inv_rotation)

subsection \<open>What a signature covers\<close>

text \<open>The signed digest of a transition determines its unsigned fields.\<close>

definition transition_unsigned :: "ParsedTransition \<Rightarrow> pyval" where
  "transition_unsigned t =
     PDict [(u ''schema_version'', PInt MEMBERSHIP_TRANSITION_SCHEMA_VERSION),
            (u ''protocol_id'', PStr MEMBERSHIP_TRANSITION_PROTOCOL_ID),
            (u ''network_id'', PStr (pt_network_id t)),
            (u ''previous_epoch'', PInt (pt_previous_epoch t)),
            (u ''previous_membership_source_sha256'', PStr (hex_of_bytes (pt_previous_source_digest t))),
            (u ''next_epoch'', PInt (pt_next_epoch t)),
            (u ''next_membership_source_sha256'', PStr (hex_of_bytes (pt_next_source_digest t))),
            (u ''not_before_ms'', PInt (pt_not_before_ms t)),
            (u ''not_after_ms'', PInt (pt_not_after_ms t)),
            (u ''nonce'', PStr (hex_of_bytes (pt_nonce t)))]"

lemma hex_decoded: "is_hex_val 64 v \<Longrightarrow> PStr (hex_of_bytes (bytes_fromhex (the_str v))) = v"
  by (auto simp: is_hex_val_iff is_lower_hex_def hex_of_bytes_fromhex)

lemma decode_fixed_hex_32_iff:
  "decode_fixed_hex_32 v = Inr k \<longleftrightarrow> is_hex_val 64 v \<and> k = bytes_fromhex (the_str v)"
  by (auto simp: decode_fixed_hex_32_def)

lemma int_field: "is_epoch v \<Longrightarrow> PInt (the_int v) = v" "is_time v \<Longrightarrow> PInt (the_int v) = v"
  by (auto simp: is_epoch_def is_time_def int_in_iff)

lemma is_str_the_str: "is_str v \<Longrightarrow> PStr (the_str v) = v"
  by (auto simp: is_str_iff)

lemma parse_transition_digest:
  assumes "parse_transition E wire = Inr t"
  shows "pt_payload_digest t =
      sha256 (framed MEMBERSHIP_TRANSITION_DIGEST_DOMAIN (ascii_json (transition_unsigned t)))"
    and "json_plain (transition_unsigned t)"
proof -
  obtain d where d: "parse_transition_object wire d = Inr t"
    using assms by (auto simp: parse_transition_def split: if_splits)
  have h: "transition_header_ok d" and net: "validate_network_id (the_str (dict_at d ''network_id'')) = Inr ()"
    and hex: "is_hex_val 64 (dict_at d ''previous_membership_source_sha256'')"
      "is_hex_val 64 (dict_at d ''next_membership_source_sha256'')" "is_hex_val 64 (dict_at d ''nonce'')"
    and dig: "pt_payload_digest t = domain_digest MEMBERSHIP_TRANSITION_DIGEST_DOMAIN
                     (canonical_field_subset d unsigned_transition_fields)"
    and f: "pt_network_id t = the_str (dict_at d ''network_id'')"
      "pt_previous_epoch t = the_int (dict_at d ''previous_epoch'')"
      "pt_previous_source_digest t = bytes_fromhex (the_str (dict_at d ''previous_membership_source_sha256''))"
      "pt_next_epoch t = the_int (dict_at d ''next_epoch'')"
      "pt_next_source_digest t = bytes_fromhex (the_str (dict_at d ''next_membership_source_sha256''))"
      "pt_not_before_ms t = the_int (dict_at d ''not_before_ms'')"
      "pt_not_after_ms t = the_int (dict_at d ''not_after_ms'')"
      "pt_nonce t = bytes_fromhex (the_str (dict_at d ''nonce''))"
    using d by (auto simp: parse_transition_object_def decode_fixed_hex_32_iff split: if_splits)
  note ints = h [unfolded transition_header_ok_def is_epoch_def is_time_def]
  have eq: "field_subset d unsigned_transition_fields = transition_unsigned t"
    using h hex
    by (simp add: field_subset_def unsigned_transition_fields_def transition_fields_def transition_unsigned_def
        f hex_decoded int_field is_str_the_str transition_header_ok_def)
  then show "pt_payload_digest t =
      sha256 (framed MEMBERSHIP_TRANSITION_DIGEST_DOMAIN (ascii_json (transition_unsigned t)))"
    by (simp add: dig domain_digest_def canonical_field_subset_def)
  have "flat 100 (PInt n)" if "0 \<le> n" "n < 2 ^ 64" for n
    using that flat_int [of 0 "2 ^ 64 - 1" "PInt n"] by (auto intro: flat_mono)
  moreover have "flat 100 (PStr (hex_of_bytes (bytes_fromhex (the_str v))))" if "is_hex_val 64 v" for v
    using flat_hex [OF that] hex_decoded [OF that] by (auto intro: flat_mono)
  moreover have "flat 100 (PStr (pt_network_id t))"
    using network_unescaped [OF net] flat_text [of "pt_network_id t"] by (auto simp: f intro: flat_mono)
  moreover have "flat 100 (PStr MEMBERSHIP_TRANSITION_PROTOCOL_ID)"
    using flat_text [of MEMBERSHIP_TRANSITION_PROTOCOL_ID]
    by (auto simp: MEMBERSHIP_TRANSITION_PROTOCOL_ID_def intro: flat_mono)
  moreover have "0 \<le> the_int v \<and> the_int v < 2 ^ 64"
    if "int_in 0 MAX_MEMBERSHIP_EPOCH v \<or> int_in 1 MAX_MEMBERSHIP_TRANSITION_TIME_MS v" for v
    using that by (auto simp: int_in_iff MAX_MEMBERSHIP_EPOCH_def MAX_MEMBERSHIP_TRANSITION_TIME_MS_def)
  moreover have "0 \<le> MEMBERSHIP_TRANSITION_SCHEMA_VERSION \<and> MEMBERSHIP_TRANSITION_SCHEMA_VERSION < 2 ^ 64"
    by (simp add: MEMBERSHIP_TRANSITION_SCHEMA_VERSION_def)
  ultimately obtain kvs where kvs: "transition_unsigned t = PDict kvs" "flat_items 40 100 kvs"
    using ints hex by (simp add: transition_unsigned_def flat_items_Cons f) (simp add: flat_items_def)
  show "json_plain (transition_unsigned t)" using flat_items_plain [OF kvs(2)] kvs(1) by simp
qed

lemma framed_inj: "framed d w = framed d w' \<Longrightarrow> w = w'"
  by (simp add: framed_def)

lemma transition_unsigned_inj:
  "transition_unsigned t = transition_unsigned t' \<Longrightarrow>
   pt_network_id t = pt_network_id t' \<and> pt_previous_epoch t = pt_previous_epoch t' \<and>
   pt_previous_source_digest t = pt_previous_source_digest t' \<and> pt_next_epoch t = pt_next_epoch t' \<and>
   pt_next_source_digest t = pt_next_source_digest t' \<and> pt_not_before_ms t = pt_not_before_ms t' \<and>
   pt_not_after_ms t = pt_not_after_ms t' \<and> pt_nonce t = pt_nonce t'"
  by (simp add: transition_unsigned_def)

subsection \<open>Consequences\<close>

lemma chain_epochs:
  "chain (e, d) rs (e', d') \<Longrightarrow>
   sorted_wrt (<) (e # map (pt_next_epoch \<circ> tw_transition) rs) \<and>
   e' = last (e # map (pt_next_epoch \<circ> tw_transition) rs)"
proof (induction rs arbitrary: e d)
  case (Cons r rs)
  let ?t = "tw_transition r"
  have "chain (pt_next_epoch ?t, pt_next_source_digest ?t) rs (e', d')" "e < pt_next_epoch ?t"
    using Cons.prems by auto
  with Cons.IH [of "pt_next_epoch ?t" "pt_next_source_digest ?t"] show ?case by (auto simp: comp_def)
qed simp

lemma authority_step_transitions:
  "authority_step E B P L L' \<Longrightarrow> set (ml_transitions L) \<subseteq> set (ml_transitions L')"
  by (erule authority_stepE; erule apply_transition_Inr rotate_authority_Inr; auto)

lemma authority_steps_transitions:
  "(authority_step E B P)\<^sup>*\<^sup>* L L' \<Longrightarrow> set (ml_transitions L) \<subseteq> set (ml_transitions L')"
  by (induction rule: rtranclp_induct) (auto dest: authority_step_transitions)

lemma current_source_reachable:
  assumes "authority_inv E B P L" and "3 \<le> json_depth E"
  obtains s where "current_source E B P L (PStr (ap_network_id P)) (PInt (ml_epoch L)) = Inr s"
    and "valid_source B s" and "src_epoch s = ml_epoch L"
    and "sha256 (src_canonical_bytes s) = ml_source_sha256 L"
proof -
  obtain s where s: "valid_source B s" "src_network_id s = ap_network_id P" "src_epoch s = ml_epoch L"
    "src_canonical_bytes s = ml_source_wire L" "sha256 (ml_source_wire L) = ml_source_sha256 L"
    using assms(1) by (auto simp: authority_inv_def)
  have v: "validate_ledger P L = Inr ()" using assms(1) by (simp add: authority_inv_def)
  have p: "parse_guardian_membership_source E B (ml_source_wire L) (PStr (ap_network_id P)) = Inr s"
    using parse_source_canonical [OF s(1) assms(2)] s by simp
  have "length (ml_source_wire L) \<le> MAX_MEMBERSHIP_SOURCE_BYTES" "ml_source_wire L \<noteq> []"
    using p by (auto simp: parse_guardian_membership_source_def)
  moreover have "is_epoch (PInt (ml_epoch L))" using s(1,3) by (simp add: is_epoch_def valid_source_def)
  ultimately have "current_source E B P L (PStr (ap_network_id P)) (PInt (ml_epoch L)) = Inr s"
    using s v by (simp add: current_source_def p)
  with s that show thesis by simp
qed

subsection \<open>A concrete authority\<close>

definition ex_policy :: AuthorityPolicy where
  "ex_policy =
     \<lparr>ap_network_id = u ''mainnet'', ap_authority_xonly_public_key = replicate 32 1,
      ap_bootstrap_epoch = 7,
      ap_bootstrap_membership_source_sha256 = sha256 (src_canonical_bytes ex_source),
      ap_bootstrap_membership_source_path = [u ''source''], ap_ledger_path = [u ''ledger'']\<rparr>"

definition ex_authority :: membership_ledger where
  "ex_authority = create_schema ex_policy ex_source"

lemma ex_source_parsed:
  "parse_guardian_membership_source E0 B0 (src_canonical_bytes ex_source) (plit ''mainnet'') = Inr ex_source"
  using parse_source_canonical [OF ex_source_valid, of E0] by (simp add: E0_def ex_source_def Let_def)

lemma ex_policy_simps [simp]:
  "ap_network_id ex_policy = u ''mainnet''" "ap_bootstrap_epoch ex_policy = 7"
  "ap_bootstrap_membership_source_sha256 ex_policy = sha256 (src_canonical_bytes ex_source)"
  "ap_authority_xonly_public_key ex_policy = replicate 32 1"
  by (simp_all add: ex_policy_def)

lemma ex_authority_created:
  "membership_authority_init E0 B0 ex_policy (Inr (src_canonical_bytes ex_source)) (DbVersion0 False) =
     Inr ex_authority"
proof -
  have "load_guardian_membership_source E0 B0 (Inr (src_canonical_bytes ex_source)) (plit ''mainnet'') = Inr ex_source"
    by (simp add: load_guardian_membership_source_def ex_source_parsed mainnet_valid)
  moreover have "validate_ledger ex_policy ex_authority = Inr ()"
    by (simp add: validate_ledger_iff ex_authority_def create_schema_def is_epoch_def MAX_MEMBERSHIP_EPOCH_def)
  moreover have "src_epoch ex_source = 7" by (simp add: ex_source_def Let_def)
  ultimately show ?thesis
    by (simp add: membership_authority_init_def initialize_ledger_def ex_authority_def)
qed

lemmas ex_authority_reachable = reach_init [OF ex_authority_created]

text \<open>The next source, its transition document and the ledger after it.\<close>

definition ex_source2 :: GuardianMembershipSource where
  "ex_source2 =
     (let w = source_canonical_bytes (u ''mainnet'') 8 ex_source_members
      in \<lparr>src_network_id = u ''mainnet'', src_epoch = 8, src_members = ex_source_members,
          src_canonical_bytes = w, src_membership_source_sha256 = sha256_hex w\<rparr>)"

definition ex_unsigned :: "(pystr \<times> pyval) list" where
  "ex_unsigned =
     [(u ''schema_version'', PInt 1), (u ''protocol_id'', PStr MEMBERSHIP_TRANSITION_PROTOCOL_ID),
      (u ''network_id'', plit ''mainnet''), (u ''previous_epoch'', PInt 7),
      (u ''previous_membership_source_sha256'', PStr (sha256_hex (src_canonical_bytes ex_source))),
      (u ''next_epoch'', PInt 8),
      (u ''next_membership_source_sha256'', PStr (sha256_hex (src_canonical_bytes ex_source2))),
      (u ''not_before_ms'', PInt 1000), (u ''not_after_ms'', PInt 2000),
      (u ''nonce'', PStr (replicate 64 97))]"

definition ex_transition_dict :: "(pystr \<times> pyval) list" where
  "ex_transition_dict = ex_unsigned @
     [(u ''payload_digest'', PStr (hex_of_bytes (domain_digest MEMBERSHIP_TRANSITION_DIGEST_DOMAIN
         (ascii_json (PDict ex_unsigned))))),
      (u ''signature'', PStr (replicate 128 97))]"

definition ex_transition_wire :: bytes where
  "ex_transition_wire = ascii_json (PDict ex_transition_dict)"

lemma ex_source2_valid: "valid_source B0 ex_source2"
  using ex_source_valid
  by (simp add: valid_source_def ex_source_def ex_source2_def Let_def MAX_MEMBERSHIP_EPOCH_def)

lemma ex_source2_simps [simp]: "src_epoch ex_source2 = 8"
  by (simp add: ex_source2_def Let_def)

lemma ex_source2_loaded:
  "load_guardian_membership_source E0 B0 (Inr (src_canonical_bytes ex_source2)) (plit ''mainnet'') = Inr ex_source2"
  using parse_source_canonical [OF ex_source2_valid, of E0]
  by (simp add: load_guardian_membership_source_def mainnet_valid E0_def ex_source2_def Let_def)

lemma ex_transition_flat_init: "flat_items 34 66 (butlast ex_transition_dict)" 
proof -
  have i: "flat 66 (PInt n)" if "0 \<le> n" "n < 2 ^ 64" for n
    using that flat_int [of 0 "2 ^ 64 - 1" "PInt n"] by (auto intro: flat_mono)
  have s: "flat 66 (PStr s)" if "list_all unescaped s" "length s \<le> 64" for s
    using that flat_text [of s] by (auto intro: flat_mono)
  have h: "list_all unescaped (hex_of_bytes x)" for x
    using hex_of_bytes_chars [of x] by (auto simp: list_all_iff intro: unescaped_hex)
  have "list_all unescaped (sha256_hex x)" for x using h by (simp add: sha256_hex_def)
  then show ?thesis
    using i s h
    by (simp add: ex_transition_dict_def ex_unsigned_def flat_items_Cons MEMBERSHIP_TRANSITION_PROTOCOL_ID_def
        domain_digest_def) (simp add: flat_items_def list_all_iff unescaped_def)
qed

lemma ex_transition_flat: "flat_items 40 140 ex_transition_dict"
proof -
  have "flat 140 (PStr (replicate 128 97))"
    using flat_text [of "replicate 128 97"] by (auto simp: list_all_iff intro: flat_mono)
  moreover have "flat 140 v" if "flat 66 v" for v using that by (rule flat_mono) simp
  ultimately show ?thesis
    using ex_transition_flat_init
    by (simp add: ex_transition_dict_def ex_unsigned_def flat_items_Cons) (simp add: flat_items_def)
qed

lemma flat_items_sum:
  assumes "flat_items K N kvs" and "\<forall>(k, v) \<in> set kvs. json_dumps False True v = json_dumps True True v"
  shows "(\<Sum>(k, v) \<leftarrow> kvs. length (json_quote True k) + length (json_dumps False True v) + 2) \<le>
        length kvs * (K + N + 4)"
  using assms unfolding flat_items_def
  by (induction kvs) (auto simp: flat_def length_quote_unescaped)

lemma ex_transition_plain: "json_plain (PDict ex_transition_dict)"
  by (rule flat_items_plain [OF ex_transition_flat])

lemma ex_transition_scalar:
  "\<forall>(k, v) \<in> set ex_transition_dict. json_dumps False True v = json_dumps True True v"
  by (simp add: ex_transition_dict_def ex_unsigned_def)

lemma ex_transition_length: "length ex_transition_wire \<le> MAX_MEMBERSHIP_TRANSITION_BYTES"
proof -
  define f where "f = (\<lambda>(k, v). length (json_quote True k) + length (json_dumps False True v) + 2)"
  have split: "ex_transition_dict = butlast ex_transition_dict @ [last ex_transition_dict]"
    by (simp add: ex_transition_dict_def butlast_append)
  have "sum_list (map f (butlast ex_transition_dict)) \<le> length (butlast ex_transition_dict) * (34 + 66 + 4)"
    using flat_items_sum [OF ex_transition_flat_init] ex_transition_scalar in_set_butlastD
    by (fastforce simp: f_def)
  moreover have "sum_list (map f [last ex_transition_dict]) \<le> 1 * (40 + 140 + 4)"
    using flat_items_sum [of 40 140 "[last ex_transition_dict]"] ex_transition_flat ex_transition_scalar
    by (simp add: f_def flat_items_def ex_transition_dict_def)
  ultimately have "sum_list (map f ex_transition_dict) \<le> 11 * 104 + 184"
    by (subst split) (simp add: ex_transition_dict_def ex_unsigned_def)
  with length_dumps_dict_plain [of True ex_transition_dict] show ?thesis
    by (simp add: ex_transition_wire_def ascii_json_def f_def MAX_MEMBERSHIP_TRANSITION_BYTES_def
        del: json_dumps.simps)
qed

lemma ex_transition_loads: "loads_ascii E0 e ex_transition_wire = Inr (PDict ex_transition_dict)"
proof -
  have "list_all (\<lambda>b. unat b < 128) ex_transition_wire"
    using json_dumps_ascii(1) [OF ex_transition_plain]
    by (auto simp: ex_transition_wire_def ascii_json_def list_all_iff is_ascii_def ascii_bytes_def unat_of_nat)
  then show ?thesis
    using ascii_json_loads [OF ex_transition_plain, of E0 e] flat_items_depth [OF ex_transition_flat]
    by (simp add: loads_ascii_def ex_transition_wire_def E0_def del: json_depth_of.simps)
qed

definition ex_parsed :: ParsedTransition where
  "ex_parsed =
     \<lparr>pt_wire = ex_transition_wire, pt_transition_id = domain_digest TRANSITION_ID_DOMAIN ex_transition_wire,
      pt_network_id = u ''mainnet'', pt_previous_epoch = 7,
      pt_previous_source_digest = sha256 (src_canonical_bytes ex_source), pt_next_epoch = 8,
      pt_next_source_digest = sha256 (src_canonical_bytes ex_source2),
      pt_not_before_ms = 1000, pt_not_after_ms = 2000, pt_nonce = bytes_fromhex (replicate 64 97),
      pt_payload_digest = domain_digest MEMBERSHIP_TRANSITION_DIGEST_DOMAIN (ascii_json (PDict ex_unsigned)),
      pt_signature = bytes_fromhex (replicate 128 97)\<rparr>"

lemma ex_dict_at:
  "dict_at ex_transition_dict ''schema_version'' = PInt 1"
  "dict_at ex_transition_dict ''protocol_id'' = PStr MEMBERSHIP_TRANSITION_PROTOCOL_ID"
  "dict_at ex_transition_dict ''network_id'' = plit ''mainnet''"
  "dict_at ex_transition_dict ''previous_epoch'' = PInt 7"
  "dict_at ex_transition_dict ''previous_membership_source_sha256'' = PStr (sha256_hex (src_canonical_bytes ex_source))"
  "dict_at ex_transition_dict ''next_epoch'' = PInt 8"
  "dict_at ex_transition_dict ''next_membership_source_sha256'' = PStr (sha256_hex (src_canonical_bytes ex_source2))"
  "dict_at ex_transition_dict ''not_before_ms'' = PInt 1000"
  "dict_at ex_transition_dict ''not_after_ms'' = PInt 2000"
  "dict_at ex_transition_dict ''nonce'' = PStr (replicate 64 97)"
  "dict_at ex_transition_dict ''payload_digest'' =
     PStr (hex_of_bytes (domain_digest MEMBERSHIP_TRANSITION_DIGEST_DOMAIN (ascii_json (PDict ex_unsigned))))"
  "dict_at ex_transition_dict ''signature'' = PStr (replicate 128 97)"
  by (simp_all add: ex_transition_dict_def ex_unsigned_def dict_at_def u_def)

lemma ex_field_subset: "field_subset ex_transition_dict unsigned_transition_fields = PDict ex_unsigned"
  by (simp add: field_subset_def unsigned_transition_fields_def transition_fields_def ex_dict_at ex_unsigned_def)

lemma ex_hex [simp]: "is_lower_hex 64 (sha256_hex w)" "is_lower_hex 64 (hex_of_bytes (sha256 w))"
  "is_lower_hex 64 (replicate 64 97)" "is_lower_hex 128 (replicate 128 97)"
  using hex_of_bytes_chars [of "sha256 w"]
  by (auto simp: is_lower_hex_def list_all_iff sha256_hex_def) (simp_all add: is_hex_char_def)

lemma ex_parsed_eq: "parse_transition E0 ex_transition_wire = Inr ex_parsed"
proof -
  have "ex_transition_wire \<noteq> []" by (simp add: ex_transition_wire_def ascii_json_def ascii_bytes_def)
  moreover have "dict_keys ex_transition_dict = map u transition_fields"
    by (simp add: dict_keys_def ex_transition_dict_def ex_unsigned_def transition_fields_def)
  moreover have "transition_header_ok ex_transition_dict"
    by (simp add: transition_header_ok_def ex_dict_at MEMBERSHIP_TRANSITION_SCHEMA_VERSION_def is_epoch_def
        is_time_def window_ok_def MAX_MEMBERSHIP_EPOCH_def MAX_MEMBERSHIP_TRANSITION_TIME_MS_def
        MAX_MEMBERSHIP_TRANSITION_WINDOW_MS_def)
  ultimately show ?thesis
    using ex_transition_length
    by (simp add: parse_transition_def ex_transition_loads parse_transition_object_def ex_dict_at mainnet_valid
        decode_fixed_hex_32_def decode_fixed_hex_64_def canonical_field_subset_def ex_field_subset
        domain_digest_def ex_parsed_def ex_transition_wire_def [symmetric]) (simp add: sha256_hex_def)
qed

definition ex_authority2 :: membership_ledger where
  "ex_authority2 = ex_authority\<lparr>ml_transitions :=
       [\<lparr>tw_transition = ex_parsed, tw_applied_at_ms = 1500, tw_authority_epoch = 0\<rparr>],
     ml_epoch := 8, ml_source_sha256 := sha256 (src_canonical_bytes ex_source2),
     ml_source_wire := src_canonical_bytes ex_source2, ml_high_water_ms := 1500\<rparr>"

lemma ex_applied:
  "apply_transition E0 B0 ex_policy ex_authority ex_transition_wire (Inr (src_canonical_bytes ex_source2)) 1500 =
     Inr (\<lparr>tr_transition_id = pt_transition_id ex_parsed, tr_next_epoch = 8,
           tr_next_membership_source_sha256 = sha256 (src_canonical_bytes ex_source2),
           tr_applied_at_ms = 1500\<rparr>, ex_authority2)"
proof -
  have "validate_ledger ex_policy ex_authority = Inr ()"
    using authority_inv_reachable [OF ex_authority_reachable] by (simp add: authority_inv_def)
  moreover have "ml_epoch ex_authority = 7" "ml_source_sha256 ex_authority = sha256 (src_canonical_bytes ex_source)"
    "ml_high_water_ms ex_authority \<le> 1500" "ml_transitions ex_authority = []" "ml_authority_epoch ex_authority = 0"
    by (simp_all add: ex_authority_def create_schema_def ex_source_def Let_def)
  moreover have "schnorr_verify B0 k x d = Some True" for k x d by (simp add: schnorr_verify_def B0_def)
  ultimately show ?thesis
    by (simp add: apply_transition_def ex_parsed_eq ex_source2_loaded ex_authority2_def is_time_def
        MAX_MEMBERSHIP_TRANSITION_TIME_MS_def ex_parsed_def)
qed

lemmas ex_authority2_reachable = reach_step [OF ex_authority_reachable step_transition [OF ex_applied]]

text \<open>A rotation of the authority key after the transition.\<close>

definition ex_rotation_auth :: "(pystr \<times> pyval) list" where
  "ex_rotation_auth =
     [(u ''schema_version'', PInt AUTHORITY_ROTATION_SCHEMA_VERSION), (u ''protocol_id'', PStr AUTHORITY_ROTATION_PROTOCOL_ID),
      (u ''network_id'', plit ''mainnet''), (u ''previous_authority_epoch'', PInt 0),
      (u ''previous_authority_xonly_public_key'', PStr (hex_of_bytes (replicate 32 1))),
      (u ''next_authority_epoch'', PInt 1),
      (u ''next_authority_xonly_public_key'', PStr (hex_of_bytes (replicate 32 2))), (u ''membership_epoch'', PInt 8),
      (u ''membership_source_sha256'', PStr (sha256_hex (src_canonical_bytes ex_source2))),
      (u ''not_before_ms'', PInt 1000), (u ''not_after_ms'', PInt 2000), (u ''nonce'', PStr (replicate 64 98))]"

definition ex_rotation_digest :: "bytes \<Rightarrow> string list \<Rightarrow> bytes" where
  "ex_rotation_digest domain names = domain_digest domain (canonical_field_subset ex_rotation_auth names)"

definition ex_rotation_dict :: "(pystr \<times> pyval) list" where
  "ex_rotation_dict = ex_rotation_auth @
     [(u ''authorization_payload_digest'',
         PStr (hex_of_bytes (ex_rotation_digest AUTHORITY_ROTATION_AUTH_DIGEST_DOMAIN authority_rotation_auth_fields))),
      (u ''possession_payload_digest'',
         PStr (hex_of_bytes (ex_rotation_digest AUTHORITY_ROTATION_POSSESSION_DIGEST_DOMAIN authority_rotation_possession_fields))),
      (u ''authorization_signature'', PStr (replicate 128 97)), (u ''possession_signature'', PStr (replicate 128 98))]"

definition ex_rotation_wire :: bytes where
  "ex_rotation_wire = ascii_json (PDict ex_rotation_dict)"

lemma hex_text:
  assumes "list_all is_hex_char s"
  shows "printable s" and "length (json_quote True s) = length s + 2"
proof -
  show "printable s" using assms by (auto simp: printable_def is_hex_char_def list_all_iff)
  have "list_all unescaped s" using assms unescaped_hex by (auto simp: list_all_iff)
  then show "length (json_quote True s) = length s + 2" by (rule length_quote_unescaped)
qed

lemma ex_rotation_hex [simp]:
  "list_all is_hex_char (hex_of_bytes x)" "list_all is_hex_char (sha256_hex x)" "list_all is_hex_char (replicate n 97)"
  "list_all is_hex_char (replicate n 98)"
  by (simp_all add: sha256_hex_def hex_of_bytes_chars) (simp_all add: list_all_iff is_hex_char_def)

lemma ex_rotation_digest_length [simp]: "length (ex_rotation_digest x y) = 32"
  by (simp add: ex_rotation_digest_def domain_digest_def)

lemma ex_rotation_doc: "doc ex_rotation_dict"
  by (simp add: ex_rotation_dict_def ex_rotation_auth_def doc_Cons hex_text AUTHORITY_ROTATION_SCHEMA_VERSION_def
      AUTHORITY_ROTATION_PROTOCOL_ID_def u_def)

lemma ex_rotation_length: "length ex_rotation_wire \<le> MAX_AUTHORITY_ROTATION_BYTES"
proof -
  have q: "list_all unescaped s \<Longrightarrow> length (json_quote True s) = length s + 2" for s by (rule length_quote_unescaped)
  have "(\<Sum>(k, v) \<leftarrow> ex_rotation_dict. length (json_quote True k) + field_size v + 2) \<le> 2000"
    by (simp add: ex_rotation_dict_def ex_rotation_auth_def hex_text length_hex_of_bytes q AUTHORITY_ROTATION_PROTOCOL_ID_def
        u_def unescaped_def)
  then show ?thesis
    using doc_length [OF ex_rotation_doc] by (simp add: ex_rotation_wire_def MAX_AUTHORITY_ROTATION_BYTES_def)
qed

lemma ex_rotation_loads: "loads_ascii E0 e ex_rotation_wire = Inr (PDict ex_rotation_dict)"
proof -
  have "list_all (\<lambda>b. unat b < 128) ex_rotation_wire"
    using doc_printable [OF ex_rotation_doc]
    by (auto simp: ex_rotation_wire_def ascii_json_def printable_def list_all_iff ascii_bytes_def unat_of_nat
        simp del: json_dumps.simps)
  then show ?thesis using doc_loads [OF ex_rotation_doc, of E0 e] by (simp add: loads_ascii_def ex_rotation_wire_def E0_def)
qed

lemma ex_rotation_at:
  "dict_at ex_rotation_dict ''schema_version'' = PInt AUTHORITY_ROTATION_SCHEMA_VERSION"
  "dict_at ex_rotation_dict ''protocol_id'' = PStr AUTHORITY_ROTATION_PROTOCOL_ID"
  "dict_at ex_rotation_dict ''network_id'' = plit ''mainnet''"
  "dict_at ex_rotation_dict ''previous_authority_epoch'' = PInt 0"
  "dict_at ex_rotation_dict ''previous_authority_xonly_public_key'' = PStr (hex_of_bytes (replicate 32 1))"
  "dict_at ex_rotation_dict ''next_authority_epoch'' = PInt 1"
  "dict_at ex_rotation_dict ''next_authority_xonly_public_key'' = PStr (hex_of_bytes (replicate 32 2))"
  "dict_at ex_rotation_dict ''membership_epoch'' = PInt 8"
  "dict_at ex_rotation_dict ''membership_source_sha256'' = PStr (sha256_hex (src_canonical_bytes ex_source2))"
  "dict_at ex_rotation_dict ''not_before_ms'' = PInt 1000"
  "dict_at ex_rotation_dict ''not_after_ms'' = PInt 2000"
  "dict_at ex_rotation_dict ''nonce'' = PStr (replicate 64 98)"
  "dict_at ex_rotation_dict ''authorization_payload_digest'' =
     PStr (hex_of_bytes (ex_rotation_digest AUTHORITY_ROTATION_AUTH_DIGEST_DOMAIN authority_rotation_auth_fields))"
  "dict_at ex_rotation_dict ''possession_payload_digest'' =
     PStr (hex_of_bytes (ex_rotation_digest AUTHORITY_ROTATION_POSSESSION_DIGEST_DOMAIN authority_rotation_possession_fields))"
  "dict_at ex_rotation_dict ''authorization_signature'' = PStr (replicate 128 97)"
  "dict_at ex_rotation_dict ''possession_signature'' = PStr (replicate 128 98)"
  by (simp_all add: ex_rotation_dict_def ex_rotation_auth_def dict_at_def u_def)

lemma ex_rotation_subset:
  assumes "set names \<subseteq> set authority_rotation_auth_fields"
  shows "canonical_field_subset ex_rotation_dict names = canonical_field_subset ex_rotation_auth names"
proof -
  have "dict_at ex_rotation_dict n = dict_at ex_rotation_auth n" if "n \<in> set authority_rotation_auth_fields" for n
    using that
    by (auto simp: authority_rotation_auth_fields_def authority_rotation_fields_def ex_rotation_dict_def
        ex_rotation_auth_def dict_at_def)
  then have "map (\<lambda>n. (u n, dict_at ex_rotation_dict n)) names = map (\<lambda>n. (u n, dict_at ex_rotation_auth n)) names"
    using assms by auto
  then show ?thesis unfolding canonical_field_subset_def field_subset_def by (rule arg_cong)
qed

definition ex_rotation :: ParsedAuthorityRotation where
  "ex_rotation =
     \<lparr>pr_wire = ex_rotation_wire, pr_rotation_id = domain_digest AUTHORITY_ROTATION_ID_DOMAIN ex_rotation_wire,
      pr_network_id = u ''mainnet'', pr_previous_authority_epoch = 0, pr_previous_authority_key = replicate 32 1,
      pr_next_authority_epoch = 1, pr_next_authority_key = replicate 32 2, pr_membership_epoch = 8,
      pr_membership_source_digest = sha256 (src_canonical_bytes ex_source2), pr_not_before_ms = 1000,
      pr_not_after_ms = 2000, pr_nonce = bytes_fromhex (replicate 64 98),
      pr_authorization_payload_digest =
        ex_rotation_digest AUTHORITY_ROTATION_AUTH_DIGEST_DOMAIN authority_rotation_auth_fields,
      pr_possession_payload_digest =
        ex_rotation_digest AUTHORITY_ROTATION_POSSESSION_DIGEST_DOMAIN authority_rotation_possession_fields,
      pr_authorization_signature = bytes_fromhex (replicate 128 97),
      pr_possession_signature = bytes_fromhex (replicate 128 98)\<rparr>"

lemma ex_rotation_parsed: "parse_authority_rotation E0 B0 ex_rotation_wire = Inr ex_rotation"
proof -
  have hex: "rotation_hex 64 (PStr (hex_of_bytes b)) = Inr b" if "length b = 32" for b
    using that by (simp add: rotation_hex_def is_lower_hex_def length_hex_of_bytes)
  have "rotation_hex 64 (PStr (sha256_hex w)) = Inr (sha256 w)" for w by (simp add: rotation_hex_def) (simp add: sha256_hex_def)
  moreover have "rotation_hex 64 (PStr (replicate 64 98)) = Inr (bytes_fromhex (replicate 64 98))"
    "rotation_hex 128 (PStr (replicate 128 97)) = Inr (bytes_fromhex (replicate 128 97))"
    "rotation_hex 128 (PStr (replicate 128 98)) = Inr (bytes_fromhex (replicate 128 98))"
    unfolding rotation_hex_def is_hex_val.simps is_lower_hex_def by simp_all
  moreover have "dict_keys ex_rotation_dict = map u authority_rotation_fields"
    by (simp add: dict_keys_def ex_rotation_dict_def ex_rotation_auth_def authority_rotation_fields_def)
  moreover have "rotation_header_ok ex_rotation_dict"
    by (simp add: rotation_header_ok_def ex_rotation_at is_epoch_def is_time_def window_ok_def MAX_MEMBERSHIP_EPOCH_def
        MAX_MEMBERSHIP_TRANSITION_TIME_MS_def MAX_AUTHORITY_ROTATION_WINDOW_MS_def)
  moreover have "canonical_field_subset ex_rotation_dict authority_rotation_possession_fields =
      canonical_field_subset ex_rotation_auth authority_rotation_possession_fields"
    by (rule ex_rotation_subset)
       (simp add: authority_rotation_possession_fields_def authority_rotation_auth_fields_def authority_rotation_fields_def)
  moreover have "ex_rotation_wire \<noteq> []" by (simp add: ex_rotation_wire_def doc_nonempty)
  moreover have "replicate 32 1 \<noteq> (replicate 32 2 :: bytes)" by (simp add: replicate_eq_replicate)
  ultimately show ?thesis
    using ex_rotation_length
    by (simp add: parse_authority_rotation_def ex_rotation_loads parse_rotation_object_def ex_rotation_at mainnet_valid hex
        ex_rotation_subset ex_rotation_digest_def [symmetric] ex_rotation_def ex_rotation_wire_def [symmetric] B0_def)
qed

definition ex_authority3 :: membership_ledger where
  "ex_authority3 = ex_authority2\<lparr>ml_rotations := [\<lparr>rw_rotation = ex_rotation, rw_applied_at_ms = 1600\<rparr>],
     ml_key_history := [(0, replicate 32 1), (1, replicate 32 2)], ml_authority_epoch := 1,
     ml_authority_key := replicate 32 2, ml_high_water_ms := 1600\<rparr>"

lemma ex_rotated:
  "rotate_authority E0 B0 ex_policy ex_authority2 ex_rotation_wire 1600 =
     Inr (\<lparr>rr_rotation_id = pr_rotation_id ex_rotation, rr_next_authority_epoch = 1,
           rr_next_authority_xonly_public_key = replicate 32 2, rr_applied_at_ms = 1600\<rparr>, ex_authority3)"
proof -
  have "validate_ledger ex_policy ex_authority2 = Inr ()"
    using authority_inv_reachable [OF ex_authority2_reachable] by (simp add: authority_inv_def)
  moreover have "ml_rotations ex_authority2 = []" "ml_key_history ex_authority2 = [(0, replicate 32 1)]"
    "ml_authority_epoch ex_authority2 = 0" "ml_authority_key ex_authority2 = replicate 32 1" "ml_epoch ex_authority2 = 8"
    "ml_source_sha256 ex_authority2 = sha256 (src_canonical_bytes ex_source2)" "ml_high_water_ms ex_authority2 = 1500"
    by (simp_all add: ex_authority2_def ex_authority_def create_schema_def)
  moreover have "schnorr_verify B0 k x d = Some True" for k x d by (simp add: schnorr_verify_def B0_def)
  moreover have "replicate 32 2 \<noteq> (replicate 32 1 :: bytes)" by (simp add: replicate_eq_replicate)
  ultimately show ?thesis
    by (simp add: rotate_authority_def ex_rotation_parsed catch_def is_time_def MAX_MEMBERSHIP_TRANSITION_TIME_MS_def
        ex_rotation_def ex_authority3_def)
qed

lemmas ex_authority3_reachable = reach_step [OF ex_authority2_reachable step_rotation [OF ex_rotated]]

subsection \<open>Properties\<close>

text \<open>C15. The authority keys of a reachable ledger: the key history lists the genesis key of the policy
  under epoch 0 and then, under consecutive epochs, the key of every rotation; no key occurs twice; the
  current key is the last; and every rotation was authorised by the key before it and signed by the key it
  installs.\<close>

theorem authority_keys_rotation:
  assumes "authority_reachable E B P L"
  defines "keys \<equiv> ap_authority_xonly_public_key P # map (pr_next_authority_key \<circ> rw_rotation) (ml_rotations L)"
  shows "ml_key_history L = zip (map int [0..<length keys]) keys \<and> distinct keys \<and>
     ml_authority_key L = last keys \<and> ml_authority_epoch L = int (length (ml_rotations L)) \<and>
     (\<forall>i < length (ml_rotations L). let r = rw_rotation (ml_rotations L ! i) in
        schnorr_verify B (keys ! i) (pr_authorization_signature r) (pr_authorization_payload_digest r) = Some True \<and>
        schnorr_verify B (pr_next_authority_key r) (pr_possession_signature r)
          (pr_possession_payload_digest r) = Some True)"
  using authority_inv_reachable [OF assms(1)]
  by (simp add: authority_inv_def keys_inv_def keys_def authority_keys_def Let_def)

theorem authority_keys_rotation_witness:
  "ml_rotations ex_authority3 = [\<lparr>rw_rotation = ex_rotation, rw_applied_at_ms = 1600\<rparr>] \<and>
   distinct [ap_authority_xonly_public_key ex_policy, pr_next_authority_key ex_rotation] \<and>
   ml_authority_key ex_authority3 = pr_next_authority_key ex_rotation \<and> ml_authority_epoch ex_authority3 = 1 \<and>
   schnorr_verify B0 (ap_authority_xonly_public_key ex_policy) (pr_authorization_signature ex_rotation)
     (pr_authorization_payload_digest ex_rotation) = Some True"
proof -
  have r: "ml_rotations ex_authority3 = [\<lparr>rw_rotation = ex_rotation, rw_applied_at_ms = 1600\<rparr>]" by (simp add: ex_authority3_def)
  show ?thesis using authority_keys_rotation [OF ex_authority3_reachable] unfolding r by (simp add: Let_def)
qed

text \<open>C4. The membership of a reachable ledger is reached from the bootstrap source by the recorded
  transitions: each starts at the epoch and source digest the one before it ended with, epochs grow
  strictly, and each was signed by the authority key of the epoch recorded with it.\<close>

theorem membership_chain:
  assumes "authority_reachable E B P L"
  shows "chain (ap_bootstrap_epoch P, ap_bootstrap_membership_source_sha256 P) (ml_transitions L)
           (ml_epoch L, ml_source_sha256 L) \<and>
     sorted_wrt (<) (ap_bootstrap_epoch P # map (pt_next_epoch \<circ> tw_transition) (ml_transitions L)) \<and>
     (\<forall>r \<in> set (ml_transitions L). \<exists>key. (tw_authority_epoch r, key) \<in> set (ml_key_history L) \<and>
           schnorr_verify B key (pt_signature (tw_transition r)) (pt_payload_digest (tw_transition r)) = Some True)"
  using authority_inv_reachable [OF assms] chain_epochs
  unfolding authority_inv_def transition_signed_def by blast

theorem membership_chain_witness:
  "chain (7, sha256 (src_canonical_bytes ex_source)) (ml_transitions ex_authority2)
     (8, sha256 (src_canonical_bytes ex_source2))"
  using membership_chain [OF ex_authority2_reachable] by (simp add: ex_authority2_def)

text \<open>In every reachable state the current source can be read for the policy's network and the
  ledger's epoch: the read never fails, and gives a well-formed source of that epoch whose digest is the
  recorded one; with any other network or epoch it raises.\<close>

lemma current_source_total:
  assumes "authority_reachable E B P L" and "3 \<le> json_depth E"
  shows "(\<exists>s. current_source E B P L (PStr (ap_network_id P)) (PInt (ml_epoch L)) = Inr s \<and>
       valid_source B s \<and> src_epoch s = ml_epoch L \<and> sha256 (src_canonical_bytes s) = ml_source_sha256 L) \<and>
     (\<forall>net epoch. net \<noteq> PStr (ap_network_id P) \<or> epoch \<noteq> PInt (ml_epoch L) \<longrightarrow>
        current_source E B P L net epoch = Inl GuardianMembershipTransitionError)"
proof -
  note inv = authority_inv_reachable [OF assms(1)]
  have "validate_ledger P L = Inr ()" using inv by (simp add: authority_inv_def)
  then have "current_source E B P L net epoch = Inl GuardianMembershipTransitionError"
    if "net \<noteq> PStr (ap_network_id P) \<or> epoch \<noteq> PInt (ml_epoch L)" for net epoch
    using that by (auto simp: current_source_def)
  then show ?thesis using current_source_reachable [OF inv assms(2)] by metis
qed

text \<open>C29. A transition is applied at most once: after it was accepted, applying the same wire in any later
  state of the ledger raises, with any source file and at any time, and the ledger's epoch has grown.\<close>

theorem transition_no_replay:
  assumes "apply_transition E B P L wire contents now_ms = Inr (receipt, L')"
    and "(authority_step E B P)\<^sup>*\<^sup>* L' L''"
  shows "ml_epoch L < ml_epoch L' \<and> (\<exists>e. apply_transition E B P L'' wire contents' now_ms' = Inl e)"
proof -
  obtain t where t: "parse_transition E wire = Inr t" and e: "ml_epoch L = pt_previous_epoch t"
      "ml_epoch L' = pt_next_epoch t"
    and r: "\<exists>r \<in> set (ml_transitions L'). tw_transition r = t"
    using assms(1) by (rule apply_transition_Inr) auto
  have "ml_epoch L < ml_epoch L'" using parse_transition_Inr(4) [OF t] e by simp
  have "\<exists>r \<in> set (ml_transitions L''). tw_transition r = t"
    using r authority_steps_transitions [OF assms(2)] by blast
  then have "apply_transition E B P L'' wire contents' now_ms' \<noteq> Inr (rc, M)" for rc M
    using t by (auto elim!: apply_transition_Inr)
  then have "\<exists>e. apply_transition E B P L'' wire contents' now_ms' = Inl e"
    by (metis obj_sumE surj_pair)
  with \<open>ml_epoch L < ml_epoch L'\<close> show ?thesis by blast
qed

theorem transition_no_replay_witness:
  "\<exists>e. apply_transition E0 B0 ex_policy ex_authority2 ex_transition_wire (Inr []) 1600 = Inl e"
  using transition_no_replay [OF ex_applied] by blast

text \<open>What an authority signs: two parsed transitions with the same payload digest name the same
  network, epochs, source digests, window and nonce, or the framed encodings of their fields are a SHA-256
  collision.\<close>

lemma transition_signature_binding:
  assumes "parse_transition E wire = Inr t" and "parse_transition E wire' = Inr t'"
    and "pt_payload_digest t = pt_payload_digest t'"
  defines "preimage \<equiv> \<lambda>t. framed MEMBERSHIP_TRANSITION_DIGEST_DOMAIN (ascii_json (transition_unsigned t))"
  shows "(pt_network_id t = pt_network_id t' \<and> pt_previous_epoch t = pt_previous_epoch t' \<and>
      pt_previous_source_digest t = pt_previous_source_digest t' \<and> pt_next_epoch t = pt_next_epoch t' \<and>
      pt_next_source_digest t = pt_next_source_digest t' \<and> pt_not_before_ms t = pt_not_before_ms t' \<and>
      pt_not_after_ms t = pt_not_after_ms t' \<and> pt_nonce t = pt_nonce t') \<or>
     sha256_collision (preimage t) (preimage t')"
proof (cases "preimage t = preimage t'")
  case True
  then have "transition_unsigned t = transition_unsigned t'"
    using parse_transition_digest(2) [OF assms(1)] parse_transition_digest(2) [OF assms(2)] ascii_json_inj framed_inj
    unfolding preimage_def by blast
  then show ?thesis using transition_unsigned_inj by blast
next
  case False
  then show ?thesis
    using parse_transition_digest(1) [OF assms(1)] parse_transition_digest(1) [OF assms(2)] assms(3)
    by (simp add: sha256_collision_def preimage_def)
qed

end
