(* ===== verification/Ballot_Ingress.thy ===== *)
theory Ballot_Ingress
  imports Membership_Transition
begin

text \<open>
  The local ingress for signed ballots (\<open>ballot_ingress.py\<close>): acknowledgements and their wire format,
  the sessions a Guardian establishes from the current membership source, the processing of one ballot
  frame, the single-frame server with its connection permits, and the client.

  The state of a \<open>BallotIngress\<close> is the collector's replay ledger, the ledger of the membership
  authority and the registered contexts. A raised exception leaves the state as it was. The socket
  itself, the deadlines and the checks of the socket path are I/O: a connection delivers the bytes
  received before it ends, and a deadline is a step that drops the connection.
\<close>

subsection \<open>\<open>json.loads\<close> on bytes\<close>

text \<open>\<open>json.detect_encoding\<close> and decoding with the \<open>surrogatepass\<close> handler, which lets lone surrogates
  through in every encoding.\<close>

datatype json_encoding = Utf8 | Utf8Sig | Utf16 | Utf16Be | Utf16Le | Utf32 | Utf32Be | Utf32Le

definition detect_encoding :: "nat list \<Rightarrow> json_encoding" where
  "detect_encoding b =
     (if has_prefix [0, 0, 254, 255] b \<or> has_prefix [255, 254, 0, 0] b then Utf32
      else if has_prefix [254, 255] b \<or> has_prefix [255, 254] b then Utf16
      else if has_prefix [239, 187, 191] b then Utf8Sig
      else if 4 \<le> length b then
        (if b ! 0 = 0 then (if b ! 1 \<noteq> 0 then Utf16Be else Utf32Be)
         else if b ! 1 = 0 then (if b ! 2 \<noteq> 0 \<or> b ! 3 \<noteq> 0 then Utf16Le else Utf32Le)
         else Utf8)
      else if length b = 2 then
        (if b ! 0 = 0 then Utf16Be else if b ! 1 = 0 then Utf16Le else Utf8)
      else Utf8)"

fun utf8_decode_pass :: "nat list \<Rightarrow> pystr option" where
  "utf8_decode_pass [] = Some []"
| "utf8_decode_pass (b # bs) =
     (if b < 128 then map_option (Cons b) (utf8_decode_pass bs)
      else if b < 194 then None
      else if b < 224 then
        (case bs of
           c1 # r \<Rightarrow>
             (if is_cont c1 then map_option (Cons ((b - 192) * 64 + (c1 - 128))) (utf8_decode_pass r) else None)
         | _ \<Rightarrow> None)
      else if b < 240 then
        (case bs of
           c1 # c2 # r \<Rightarrow>
             (let v = (b - 224) * 4096 + (c1 - 128) * 64 + (c2 - 128)
              in if is_cont c1 \<and> is_cont c2 \<and> 2048 \<le> v then map_option (Cons v) (utf8_decode_pass r) else None)
         | _ \<Rightarrow> None)
      else if b < 245 then
        (case bs of
           c1 # c2 # c3 # r \<Rightarrow>
             (let v = (b - 240) * 262144 + (c1 - 128) * 4096 + (c2 - 128) * 64 + (c3 - 128)
              in if is_cont c1 \<and> is_cont c2 \<and> is_cont c3 \<and> 65536 \<le> v \<and> v < 1114112
                 then map_option (Cons v) (utf8_decode_pass r) else None)
         | _ \<Rightarrow> None)
      else None)"

text \<open>The 16-bit and 32-bit units of a byte string; \<open>None\<close> for a truncated unit.\<close>

fun units16 :: "bool \<Rightarrow> nat list \<Rightarrow> nat list option" where
  "units16 big [] = Some []"
| "units16 big [a] = None"
| "units16 big (a # b # r) = map_option (Cons (if big then 256 * a + b else 256 * b + a)) (units16 big r)"

fun units32 :: "bool \<Rightarrow> nat list \<Rightarrow> nat list option" where
  "units32 big [] = Some []"
| "units32 big (a # b # c # d # r) =
     map_option (Cons (if big then ((256 * a + b) * 256 + c) * 256 + d
                       else ((256 * d + c) * 256 + b) * 256 + a)) (units32 big r)"
| "units32 big _ = None"

fun join_surrogates :: "nat list \<Rightarrow> pystr" where
  "join_surrogates (hi # lo # r) =
     (if 55296 \<le> hi \<and> hi < 56320 \<and> 56320 \<le> lo \<and> lo < 57344
      then (65536 + (hi - 55296) * 1024 + (lo - 56320)) # join_surrogates r
      else hi # join_surrogates (lo # r))"
| "join_surrogates r = r"

definition utf16_decode :: "bool \<Rightarrow> nat list \<Rightarrow> pystr option" where
  "utf16_decode big b = map_option join_surrogates (units16 big b)"

definition utf32_decode :: "bool \<Rightarrow> nat list \<Rightarrow> pystr option" where
  "utf32_decode big b =
     (case units32 big b of None \<Rightarrow> None
      | Some us \<Rightarrow> if list_all (\<lambda>c. c < 1114112) us then Some us else None)"

definition json_text :: "bytes \<Rightarrow> pystr option" where
  "json_text bs =
     (let b = map unat bs
      in case detect_encoding b of
           Utf8 \<Rightarrow> utf8_decode_pass b
         | Utf8Sig \<Rightarrow> utf8_decode_pass (drop 3 b)
         | Utf16 \<Rightarrow> utf16_decode (b ! 0 = 254) (drop 2 b)
         | Utf16Be \<Rightarrow> utf16_decode True b
         | Utf16Le \<Rightarrow> utf16_decode False b
         | Utf32 \<Rightarrow> utf32_decode (b ! 0 = 0) (drop 4 b)
         | Utf32Be \<Rightarrow> utf32_decode True b
         | Utf32Le \<Rightarrow> utf32_decode False b)"

definition loads_bytes :: "py_env \<Rightarrow> pyexc \<Rightarrow> bytes \<Rightarrow> pyexc + pyval" where
  "loads_bytes E dup wire =
     (case json_text wire of
        None \<Rightarrow> Inl UnicodeDecodeError
      | Some t \<Rightarrow> (case json_loads E t of Inl e \<Rightarrow> Inl (json_exc dup e) | Inr v \<Rightarrow> Inr v))"

subsection \<open>Constants and data\<close>

definition INGRESS_PROTOCOL_VERSION :: int where
  "INGRESS_PROTOCOL_VERSION = 1"
definition MAX_INGRESS_ACK_BYTES :: nat where
  "MAX_INGRESS_ACK_BYTES = 512"

datatype IngressStatus = Accepted | Duplicate | Rejected | Busy

fun status_text :: "IngressStatus \<Rightarrow> pystr" where
  "status_text Accepted = u ''accepted''"
| "status_text Duplicate = u ''duplicate''"
| "status_text Rejected = u ''rejected''"
| "status_text Busy = u ''busy''"

record IngressAck =
  ack_status :: IngressStatus
  ack_session_id :: pyval
  ack_payload_digest :: pyval

record BallotContext =
  ctx_candidate :: EnsembleCandidate
  ctx_snapshot :: MembershipSnapshot
  ctx_session :: BallotSession

record ingress =
  ing_ledger :: ledger
  ing_authority :: membership_ledger
  ing_contexts :: "(pyval \<times> BallotContext) list"

subsection \<open>Acknowledgements\<close>

text \<open>\<open>not value or bool(_LOWER_HEX_32.fullmatch(value))\<close>; matching a value that is not text raises.\<close>

definition identifier_ok :: "pyval \<Rightarrow> pyexc + bool" where
  "identifier_ok v =
     (if \<not> py_truthy v then Inr True
      else case v of PStr s \<Rightarrow> Inr (is_lower_hex 64 s) | _ \<Rightarrow> Inl TypeError)"

definition has_valid_identifiers :: "IngressAck \<Rightarrow> pyexc + bool" where
  "has_valid_identifiers a =
     rbind (identifier_ok (ack_session_id a)) (\<lambda>session_valid.
     rbind (identifier_ok (ack_payload_digest a)) (\<lambda>digest_valid.
     Inr (if \<not> session_valid \<or> \<not> digest_valid then False
          else case ack_status a of
                 Accepted \<Rightarrow> py_truthy (ack_session_id a) \<and> py_truthy (ack_payload_digest a)
               | Duplicate \<Rightarrow> py_truthy (ack_session_id a) \<and> py_truthy (ack_payload_digest a)
               | Busy \<Rightarrow> \<not> py_truthy (ack_session_id a) \<and> \<not> py_truthy (ack_payload_digest a)
               | Rejected \<Rightarrow> True)))"

definition ack_items :: "IngressAck \<Rightarrow> (pystr \<times> pyval) list" where
  "ack_items a =
     [(u ''payload_digest'', ack_payload_digest a),
      (u ''protocol_version'', PInt INGRESS_PROTOCOL_VERSION),
      (u ''session_id'', ack_session_id a),
      (u ''status'', PStr (status_text (ack_status a)))]"

definition ack_to_wire :: "IngressAck \<Rightarrow> pyexc + bytes" where
  "ack_to_wire a =
     rbind (has_valid_identifiers a) (\<lambda>ok.
     if \<not> ok then Inl BallotIngressError
     else let wire = canonical_json (PDict (ack_items a))
          in if MAX_INGRESS_ACK_BYTES < length wire then Inl BallotIngressError else Inr wire)"

text \<open>\<open>status not in {...}\<close> hashes the status.\<close>

definition parse_status :: "pyval \<Rightarrow> pyexc + IngressStatus" where
  "parse_status v =
     (if \<not> py_hashable v then Inl TypeError
      else if v = plit ''accepted'' then Inr Accepted
      else if v = plit ''duplicate'' then Inr Duplicate
      else if v = plit ''rejected'' then Inr Rejected
      else if v = plit ''busy'' then Inr Busy
      else Inl BallotIngressError)"

definition ack_from_wire :: "py_env \<Rightarrow> bytes \<Rightarrow> pyexc + IngressAck" where
  "ack_from_wire E wire =
     (if wire = [] \<or> MAX_INGRESS_ACK_BYTES < length wire then Inl BallotIngressError
      else rbind (catch (loads_bytes E BallotIngressError wire)
                    (\<lambda>e. e \<in> {UnicodeDecodeError, JSONDecodeError}) (\<lambda>_. Inl BallotIngressError)) (\<lambda>payload.
        case payload of
          PDict d \<Rightarrow>
            (if \<not> keys_are [''payload_digest'', ''protocol_version'', ''session_id'', ''status''] d
             then Inl BallotIngressError
             else if \<not> py_eq_one (dict_at d ''protocol_version'') then Inl BallotIngressError
             else rbind (parse_status (dict_at d ''status'')) (\<lambda>status.
               if \<not> is_str (dict_at d ''session_id'') \<or> \<not> is_str (dict_at d ''payload_digest'')
               then Inl BallotIngressError
               else let ack = \<lparr>ack_status = status, ack_session_id = dict_at d ''session_id'',
                               ack_payload_digest = dict_at d ''payload_digest''\<rparr>
                    in rbind (ack_to_wire ack) (\<lambda>w.
                       if w \<noteq> wire then Inl BallotIngressError else Inr ack)))
        | _ \<Rightarrow> Inl BallotIngressError))"

subsection \<open>Sessions\<close>

definition derive_context :: "EnsembleCandidate \<Rightarrow> MembershipSnapshot \<Rightarrow> BallotSession \<Rightarrow> BallotContext" where
  "derive_context c s ses = \<lparr>ctx_candidate = c, ctx_snapshot = s, ctx_session = ses\<rparr>"

text \<open>A session id that was created is text, so looking it up does not raise.\<close>

definition register_context :: "ingress \<Rightarrow> BallotContext \<Rightarrow> pyexc + ingress" where
  "register_context I ctx =
     (let session_id = se_session_id (ctx_session ctx);
          current = map_of (ing_contexts I) session_id
      in if current \<noteq> None \<and> current \<noteq> Some ctx then Inl BallotIngressError
         else Inr (I\<lparr>ing_contexts := AList.update session_id ctx (ing_contexts I)\<rparr>))"

text \<open>Every exception of the body is replaced by \<open>BallotIngressError\<close>.\<close>

definition establish_session ::
  "py_env \<Rightarrow> bip340 \<Rightarrow> AuthorityPolicy \<Rightarrow> ingress \<Rightarrow> pyval \<Rightarrow> pyval \<Rightarrow> EnsembleCandidate \<Rightarrow> pyval \<Rightarrow> pyval \<Rightarrow>
     pyval \<Rightarrow> pyexc + (BallotContext \<times> ingress)" where
  "establish_session E B P I expected_network_id expected_epoch c session_nonce valid_from_ms valid_until_ms =
     (if \<not> int_in 0 MAX_MEMBERSHIP_EPOCH expected_epoch then Inl BallotIngressError
      else catch
        (rbind (current_source E B P (ing_authority I) expected_network_id expected_epoch) (\<lambda>source.
         rbind (to_membership_snapshot source) (\<lambda>snapshot.
         rbind (BallotSession_create B c snapshot (to_ballot_signers source) (PStr (src_network_id source))
                  session_nonce valid_from_ms valid_until_ms) (\<lambda>session.
         let context = derive_context c snapshot session
         in rbind (register_context I context) (\<lambda>I'. Inr (context, I'))))))
        (\<lambda>_. True) (\<lambda>_. Inl BallotIngressError))"

subsection \<open>Processing a frame\<close>

definition reject_ack :: "pyval \<Rightarrow> bytes \<Rightarrow> IngressAck" where
  "reject_ack session_id wire =
     \<lparr>ack_status = Rejected, ack_session_id = session_id, ack_payload_digest = PStr (sha256_hex wire)\<rparr>"

definition ack :: "IngressStatus \<Rightarrow> SignedGuardianBallot \<Rightarrow> bytes \<Rightarrow> IngressAck" where
  "ack status b wire =
     \<lparr>ack_status = status, ack_session_id = sb_session_id b, ack_payload_digest = PStr (sha256_hex wire)\<rparr>"

text \<open>Looking up a session id that is a list or dict raises \<open>TypeError\<close>. A replay error is answered from
  the ledger; any other transport error is a rejection without session id; the rest is not caught.\<close>

definition process :: "py_env \<Rightarrow> bip340 \<Rightarrow> ingress \<Rightarrow> bytes \<Rightarrow> int \<Rightarrow> pyexc + (IngressAck \<times> ingress)" where
  "process E B I wire now_ms =
     (if wire = [] \<or> MAX_BALLOT_WIRE_BYTES < length wire then Inr (reject_ack (PStr []) wire, I)
      else case from_wire E wire of
        Inl e \<Rightarrow> if is_transport_error e then Inr (reject_ack (PStr []) wire, I) else Inl e
      | Inr envelope \<Rightarrow>
          if \<not> py_hashable (sb_session_id envelope) then Inl TypeError
          else (case map_of (ing_contexts I) (sb_session_id envelope) of
            None \<Rightarrow> Inr (reject_ack (sb_session_id envelope) wire, I)
          | Some ctx \<Rightarrow>
              (case accept_wire E B (ing_ledger I) wire (ctx_candidate ctx) (ctx_snapshot ctx) (ctx_session ctx) now_ms of
                 Inr (vote, L') \<Rightarrow> Inr (ack Accepted envelope wire, I\<lparr>ing_ledger := L'\<rparr>)
               | Inl e \<Rightarrow>
                   if e = BallotReplayError then
                     rbind (contains_wire (ing_ledger I) (sb_session_id envelope) wire) (\<lambda>present.
                     Inr (if present then (ack Duplicate envelope wire, I)
                          else (reject_ack (sb_session_id envelope) wire, I)))
                   else if is_transport_error e then Inr (reject_ack (PStr []) wire, I)
                   else Inl e)))"

subsection \<open>Frames, the server and the client\<close>

text \<open>A connection holds a permit while it reads its frame and while its worker runs.\<close>

datatype connection = Reading | Working bytes

record server =
  sv_max_connections :: nat
  sv_active :: nat
  sv_connections :: "(nat \<times> connection) list"
  sv_ingress :: ingress

definition busy_ack :: IngressAck where
  "busy_ack = \<lparr>ack_status = Busy, ack_session_id = PStr [], ack_payload_digest = PStr []\<rparr>"

definition bad_frame_ack :: IngressAck where
  "bad_frame_ack = \<lparr>ack_status = Rejected, ack_session_id = PStr [], ack_payload_digest = PStr []\<rparr>"

text \<open>\<open>BallotIngressServer.__init__\<close>: a server has at least one permit.\<close>

definition new_server :: "nat \<Rightarrow> ingress \<Rightarrow> pyexc + server" where
  "new_server max_connections I =
     (if max_connections < 1 then Inl BallotIngressError
      else Inr \<lparr>sv_max_connections = max_connections, sv_active = 0, sv_connections = [], sv_ingress = I\<rparr>)"

text \<open>The start of \<open>_handle_connection\<close>: admit the connection, or answer \<open>busy\<close>.\<close>

definition open_connection :: "server \<Rightarrow> nat \<Rightarrow> pyexc + (server \<times> bytes)" where
  "open_connection S i =
     (if sv_active S < sv_max_connections S
      then Inr (S\<lparr>sv_active := sv_active S + 1, sv_connections := (i, Reading) # sv_connections S\<rparr>, [])
      else rbind (ack_to_wire busy_ack) (\<lambda>w. Inr (S, write_frame w)))"

text \<open>\<open>self._active -= 1\<close> and the end of the connection.\<close>

definition release :: "server \<Rightarrow> nat \<Rightarrow> server" where
  "release S i = S\<lparr>sv_active := sv_active S - 1, sv_connections := AList.delete i (sv_connections S)\<rparr>"

text \<open>Reading the frame: too few bytes end the connection, a bad size is answered, a frame is handed to
  the worker, which takes over the permit.\<close>

definition receive :: "server \<Rightarrow> nat \<Rightarrow> bytes \<Rightarrow> pyexc + (server \<times> bytes)" where
  "receive S i input =
     (case read_frame MAX_BALLOT_WIRE_BYTES input of
        Incomplete \<Rightarrow> Inr (release S i, [])
      | BadSize \<Rightarrow> rbind (ack_to_wire bad_frame_ack) (\<lambda>w. Inr (release S i, write_frame w))
      | Frame wire \<Rightarrow> Inr (S\<lparr>sv_connections := AList.update i (Working wire) (sv_connections S)\<rparr>, []))"

text \<open>\<open>_process_with_permit\<close> releases the permit on every path; the reply is written when \<open>process\<close> returned
  an acknowledgement that can be encoded.\<close>

definition work :: "py_env \<Rightarrow> bip340 \<Rightarrow> server \<Rightarrow> nat \<Rightarrow> bytes \<Rightarrow> int \<Rightarrow> server \<times> (pyexc + bytes)" where
  "work E B S i wire now_ms =
     (case process E B (sv_ingress S) wire now_ms of
        Inl e \<Rightarrow> (release S i, Inl e)
      | Inr (a, I') \<Rightarrow> (release (S\<lparr>sv_ingress := I'\<rparr>) i, rbind (ack_to_wire a) (\<lambda>w. Inr (write_frame w))))"

text \<open>\<open>submit_to_ingress\<close>, given the bytes the server sends back.\<close>

definition submit_to_ingress :: "py_env \<Rightarrow> bytes \<Rightarrow> bytes \<Rightarrow> pyexc + IngressAck" where
  "submit_to_ingress E wire reply =
     (if wire = [] \<or> MAX_BALLOT_WIRE_BYTES < length wire then Inl BallotIngressError
      else case read_frame MAX_INGRESS_ACK_BYTES reply of
        Incomplete \<Rightarrow> Inl OtherError
      | BadSize \<Rightarrow> Inl BallotIngressError
      | Frame ack_wire \<Rightarrow>
          rbind (ack_from_wire E ack_wire) (\<lambda>a.
          if ack_status a \<noteq> Busy \<and> ack_payload_digest a \<noteq> PStr (sha256_hex wire)
          then Inl BallotIngressError else Inr a))"

subsection \<open>The acknowledgement format\<close>

lemma utf8_decode_pass_ascii: "list_all (\<lambda>c. c < 128) b \<Longrightarrow> utf8_decode_pass b = Some b"
  by (induction b) auto

lemma json_text_ascii:
  assumes "is_ascii t" and "2 \<le> length t" and "t ! 0 \<noteq> 0" and "t ! 1 \<noteq> 0"
  shows "json_text (ascii_bytes t) = Some t"
proof -
  have m: "map unat (ascii_bytes t) = t"
    using assms(1) by (induction t) (auto simp: ascii_bytes_def unat_of_nat_byte)
  obtain a b r where t: "t = a # b # r" using assms(2) by (cases t rule: list.exhaust) (auto simp: neq_Nil_conv Suc_le_length_iff numeral_2_eq_2)
  have "detect_encoding t = Utf8"
    using assms by (auto simp: t detect_encoding_def)
  then show ?thesis
    using assms(1) by (simp add: json_text_def m utf8_decode_pass_ascii is_ascii_def)
qed

lemma loads_bytes_canonical:
  assumes "json_plain (PDict kvs)" and "kvs \<noteq> []" and "json_depth_of (PDict kvs) \<le> json_depth E"
  shows "loads_bytes E dup (canonical_json (PDict kvs)) = Inr (sort_keys (PDict kvs))"
proof -
  let ?t = "json_dumps True True (PDict kvs)"
  obtain it its where its: "sort_key fst (json_dumps_items True True kvs) = it # its"
  proof (cases "sort_key fst (json_dumps_items True True kvs)")
    case Nil
    then have "set (json_dumps_items True True kvs) = {}" by (metis set_empty set_sort)
    with assms(2) show thesis by (cases kvs) simp_all
  qed (rule that)
  have "\<exists>r. ?t = 123 # 34 # r" by (cases its) (simp_all add: its json_quote_def)
  then have "json_text (canonical_json (PDict kvs)) = Some ?t"
    using json_dumps_ascii(1) [OF sort_keys_plain(1) [OF assms(1)]]
    by (auto simp: canonical_json_def json_dumps_sorted intro!: json_text_ascii simp del: json_dumps.simps)
  then show ?thesis
    using json_loads_dumps_sorted [OF assms(1,3)] by (simp add: loads_bytes_def)
qed

definition wf_ack :: "IngressAck \<Rightarrow> bool" where
  "wf_ack a \<longleftrightarrow> is_str (ack_session_id a) \<and> is_str (ack_payload_digest a) \<and> has_valid_identifiers a = Inr True"

lemma wf_ack_fields:
  assumes "wf_ack a"
  shows "flat 66 (ack_session_id a)" and "flat 66 (ack_payload_digest a)"
proof -
  have "flat 66 v" if "is_str v" "identifier_ok v = Inr True" for v
  proof (cases "py_truthy v")
    case True
    then have "is_hex_val 64 v" using that by (cases v) (auto simp: identifier_ok_def)
    then show ?thesis using flat_hex [of 64 v] by simp
  next
    case False
    then have "v = PStr []" using that(1) by (cases v) auto
    then show ?thesis using flat_text [of "[]"] by (auto intro: flat_mono)
  qed
  moreover have "identifier_ok (ack_session_id a) = Inr True" "identifier_ok (ack_payload_digest a) = Inr True"
    using assms by (auto simp: wf_ack_def has_valid_identifiers_def split: if_splits)
  ultimately show "flat 66 (ack_session_id a)" "flat 66 (ack_payload_digest a)"
    using assms by (auto simp: wf_ack_def)
qed

lemma ack_items_flat: "wf_ack a \<Longrightarrow> flat_items 16 66 (ack_items a)"
  using wf_ack_fields [of a] flat_int [of 1 1 "PInt 1"] flat_text [of "status_text (ack_status a)"]
  by (cases "ack_status a")
     (auto simp: ack_items_def flat_items_Cons INGRESS_PROTOCOL_VERSION_def flat_items_def intro: flat_mono)

lemma ack_to_wire_iff:
  assumes "wf_ack a"
  shows "ack_to_wire a = Inr (canonical_json (PDict (ack_items a)))"
  using assms flat_items_length [OF ack_items_flat [OF assms]]
  by (simp add: ack_to_wire_def wf_ack_def MAX_INGRESS_ACK_BYTES_def ack_items_def Let_def)

lemma ack_from_wire_enc:
  assumes "ack_from_wire E w = Inr a"
  shows "wf_ack a" and "canonical_json (PDict (ack_items a)) = w"
  using assms
  by (auto simp: ack_from_wire_def ack_to_wire_def wf_ack_def Let_def split: if_splits)

lemma parse_status_text [simp]: "parse_status (PStr (status_text x)) = Inr x"
  by (cases x) (simp_all add: parse_status_def)

lemma ack_from_wire_to_wire:
  assumes "wf_ack a" and "1 \<le> json_depth E"
  shows "ack_from_wire E (canonical_json (PDict (ack_items a))) = Inr a"
proof -
  let ?d = "sort_key fst (ack_items a)"
  note fl = ack_items_flat [OF assms(1)]
  have ne: "ack_items a \<noteq> []" by (simp add: ack_items_def)
  have "loads_bytes E BallotIngressError (canonical_json (PDict (ack_items a))) = Inr (PDict ?d)"
    using loads_bytes_canonical [OF flat_items_plain [OF fl], of E] flat_items_depth [OF fl] assms(2) ne
    by (simp add: flat_items_sort [OF fl] del: json_depth_of.simps)
  moreover have "dict_at ?d k = dict_at (ack_items a) k" for k by (rule flat_items_dict_at [OF fl])
  moreover have "length (canonical_json (PDict (ack_items a))) \<le> MAX_INGRESS_ACK_BYTES"
    using flat_items_length [OF fl] by (simp add: ack_items_def MAX_INGRESS_ACK_BYTES_def)
  moreover have "keys_are [''payload_digest'', ''protocol_version'', ''session_id'', ''status''] (ack_items a)"
    by (simp add: keys_are_def dict_keys_def ack_items_def)
  moreover have "is_str (ack_session_id a)" "is_str (ack_payload_digest a)" using assms(1) by (simp_all add: wf_ack_def)
  moreover have "dict_at (ack_items a) ''protocol_version'' = PInt 1"
    "dict_at (ack_items a) ''status'' = PStr (status_text (ack_status a))"
    "dict_at (ack_items a) ''session_id'' = ack_session_id a"
    "dict_at (ack_items a) ''payload_digest'' = ack_payload_digest a"
    by (simp_all add: ack_items_def INGRESS_PROTOCOL_VERSION_def)
  moreover have "ack_to_wire \<lparr>ack_status = ack_status a, ack_session_id = ack_session_id a,
      ack_payload_digest = ack_payload_digest a\<rparr> = Inr (canonical_json (PDict (ack_items a)))"
    using ack_to_wire_iff [OF assms(1)] by (cases a) simp
  ultimately show ?thesis
    using canonical_json_dict_nonempty [OF flat_items_plain [OF fl]]
    by (simp add: ack_from_wire_def flat_items_keys Let_def)
qed

interpretation ac: canonical_codec
  "\<lambda>a. canonical_json (PDict (ack_items a))" "ack_from_wire E" "\<lambda>a. wf_ack a \<and> 1 \<le> json_depth E" for E
  by unfold_locales (auto simp: ack_from_wire_enc ack_from_wire_to_wire)

subsection \<open>Ingress as a state machine\<close>

text \<open>The trace lists the sessions and ballots of the \<open>accepted\<close> acknowledgements, newest first. The
  membership ledger may advance between any two frames.\<close>

definition acceptances :: "ingress \<Rightarrow> IngressAck \<Rightarrow> SignedGuardianBallot \<Rightarrow> acceptance list" where
  "acceptances I a b =
     (if ack_status a = Accepted
      then [(ctx_session (the (map_of (ing_contexts I) (sb_session_id b))), b)] else [])"

inductive ingress_step ::
  "py_env \<Rightarrow> bip340 \<Rightarrow> AuthorityPolicy \<Rightarrow> ingress \<times> acceptance list \<Rightarrow> ingress \<times> acceptance list \<Rightarrow> bool"
  for E B P where
  step_establish: "establish_session E B P I net epoch c nonce valid_from valid_until = Inr (ctx, I') \<Longrightarrow>
     ingress_step E B P (I, hs) (I', hs)"
| step_membership: "authority_step E B P (ing_authority I) A \<Longrightarrow>
     ingress_step E B P (I, hs) (I\<lparr>ing_authority := A\<rparr>, hs)"
| step_process: "process E B I wire now_ms = Inr (a, I') \<Longrightarrow> from_wire E wire = Inr b \<Longrightarrow>
     ingress_step E B P (I, hs) (I', acceptances I a b @ hs)"
| step_prune_ledger: "prune_expired (ing_ledger I) now_ms = Inr (n, L') \<Longrightarrow>
     ingress_step E B P (I, hs) (I\<lparr>ing_ledger := L'\<rparr>, hs)"

inductive_cases ingress_stepE: "ingress_step E B P st st'"

definition new_ingress :: "membership_ledger \<Rightarrow> ingress" where
  "new_ingress A = \<lparr>ing_ledger = new_ledger, ing_authority = A, ing_contexts = []\<rparr>"

inductive ingress_reachable ::
  "py_env \<Rightarrow> bip340 \<Rightarrow> AuthorityPolicy \<Rightarrow> ingress \<times> acceptance list \<Rightarrow> bool" for E B P where
  ingress_init: "authority_reachable E B P A \<Longrightarrow> ingress_reachable E B P (new_ingress A, [])"
| ingress_more: "ingress_reachable E B P st \<Longrightarrow> ingress_step E B P st st' \<Longrightarrow> ingress_reachable E B P st'"

lemma process_cases:
  assumes "process E B I wire t = Inr (a, I')"
  obtains (accepted) b ctx v L' where "from_wire E wire = Inr b" and "a = ack Accepted b wire"
      and "map_of (ing_contexts I) (sb_session_id b) = Some ctx"
      and "accept_wire E B (ing_ledger I) wire (ctx_candidate ctx) (ctx_snapshot ctx) (ctx_session ctx) t = Inr (v, L')"
      and "I' = I\<lparr>ing_ledger := L'\<rparr>"
  | (refused) session_id status where "status \<noteq> Accepted" and "status \<noteq> Busy" and "I' = I"
      and "a = \<lparr>ack_status = status, ack_session_id = session_id, ack_payload_digest = PStr (sha256_hex wire)\<rparr>"
      and "status = Duplicate \<longrightarrow> is_hex_32 session_id"
proof -
  note defs = process_def reject_ack_def ack_def
  show thesis
  proof (cases "wire = [] \<or> MAX_BALLOT_WIRE_BYTES < length wire")
    case True
    then show thesis using assms refused [of Rejected "PStr []"] by (simp add: defs)
  next
    case size: False
    show thesis
    proof (cases "from_wire E wire")
      case (Inl e)
      then show thesis using assms size refused [of Rejected "PStr []"] by (auto simp: defs split: if_splits)
    next
      case b: (Inr b)
      show thesis
      proof (cases "map_of (ing_contexts I) (sb_session_id b)")
        case None
        then show thesis using assms size b refused [of Rejected "sb_session_id b"] by (auto simp: defs split: if_splits)
      next
        case ctx: (Some ctx)
        let ?r = "accept_wire E B (ing_ledger I) wire (ctx_candidate ctx) (ctx_snapshot ctx) (ctx_session ctx) t"
        show thesis
        proof (cases ?r)
          case (Inl e)
          then show thesis using assms size b ctx refused [of Rejected "sb_session_id b"]
              refused [of Duplicate "sb_session_id b"] refused [of Rejected "PStr []"]
            by (auto simp: defs contains_wire_def session_wires_def split: if_splits)
        next
          case (Inr r)
          obtain v L' where r: "r = (v, L')" by (cases r)
          then show thesis using assms size b ctx Inr accepted [of b ctx v L'] by (auto simp: defs split: if_splits)
        qed
      qed
    qed
  qed
qed

lemma process_ack_fields:
  assumes "process E B I wire t = Inr (a, I')"
  shows "ack_payload_digest a = PStr (sha256_hex wire)" and "ack_status a \<noteq> Busy"
  using assms by (auto elim!: process_cases simp: ack_def)

lemma establish_session_Inr:
  assumes "establish_session E B P I net epoch c nonce t0 t1 = Inr (ctx, I')"
  obtains src snap ses where "current_source E B P (ing_authority I) net epoch = Inr src"
    and "to_membership_snapshot src = Inr snap"
    and "BallotSession_create B c snap (to_ballot_signers src) (PStr (src_network_id src)) nonce t0 t1 = Inr ses"
    and "ctx = derive_context c snap ses"
    and "map_of (ing_contexts I) (se_session_id ses) \<in> {None, Some ctx}"
    and "I' = I\<lparr>ing_contexts := AList.update (se_session_id ses) ctx (ing_contexts I)\<rparr>"
  using assms
  by (auto simp: establish_session_def catch_eq_Inr_raise Let_def register_context_def derive_context_def
      split: if_splits)

text \<open>The invariant: contexts are valid sessions under their own id, every acceptance belongs to the
  registered context of its session, and the ledger invariant holds for the trace.\<close>

definition contexts_inv :: "bip340 \<Rightarrow> (pyval \<times> BallotContext) list \<Rightarrow> bool" where
  "contexts_inv B cs \<longleftrightarrow>
     (\<forall>i ctx. map_of cs i = Some ctx \<longrightarrow> i = se_session_id (ctx_session ctx) \<and>
        is_valid_session B (ctx_session ctx) (ctx_candidate ctx) (ctx_snapshot ctx))"

definition ingress_inv :: "bip340 \<Rightarrow> ingress \<times> acceptance list \<Rightarrow> bool" where
  "ingress_inv B st \<longleftrightarrow>
     contexts_inv B (ing_contexts (fst st)) \<and> ledger_inv B (ing_ledger (fst st), snd st) \<and>
     (\<forall>h \<in> set (snd st). \<exists>ctx. map_of (ing_contexts (fst st)) (sb_session_id (snd h)) = Some ctx \<and>
        fst h = ctx_session ctx \<and>
        (\<exists>sg \<in> set (se_signers (fst h)). sg_guardian_id sg = sb_guardian_id (snd h) \<and>
           verify_signature B sg (snd h)))"
lemma contexts_inv_update:
  assumes "contexts_inv B cs" and "is_valid_session B (ctx_session ctx) (ctx_candidate ctx) (ctx_snapshot ctx)"
  shows "contexts_inv B (AList.update (se_session_id (ctx_session ctx)) ctx cs)"
  using assms by (auto simp: contexts_inv_def update_conv')

lemma ingress_inv_establish:
  assumes inv: "ingress_inv B (I, hs)"
    and est: "establish_session E B P I net epoch c nonce t0 t1 = Inr (ctx, I')"
  shows "ingress_inv B (I', hs)"
  using est
proof (rule establish_session_Inr)
  fix src snap ses
  assume cr: "BallotSession_create B c snap (to_ballot_signers src) (PStr (src_network_id src)) nonce t0 t1 = Inr ses"
    and ctx: "ctx = derive_context c snap ses" and old: "map_of (ing_contexts I) (se_session_id ses) \<in> {None, Some ctx}"
    and I': "I' = I\<lparr>ing_contexts := AList.update (se_session_id ses) ctx (ing_contexts I)\<rparr>"
  have f: "ctx_session ctx = ses" "ctx_candidate ctx = c" "ctx_snapshot ctx = snap"
    by (simp_all add: ctx derive_context_def)
  have "contexts_inv B (ing_contexts I')"
    using contexts_inv_update [of B "ing_contexts I" ctx] BallotSession_create_valid [OF cr] inv
    by (simp add: I' f ingress_inv_def)
  moreover have "map_of (ing_contexts I') i = Some x" if "map_of (ing_contexts I) i = Some x" for i x
    using that old by (auto simp: I' update_conv')
  ultimately show ?thesis using inv by (force simp: ingress_inv_def I')
qed

lemma accept_wire_signed:
  assumes "accept_wire E B L wire c s ses t = Inr (v, L')" and "from_wire E wire = Inr b"
  shows "sb_session_id b = se_session_id ses" and "to_wire b = wire"
    and "\<exists>sg \<in> set (se_signers ses). sg_guardian_id sg = sb_guardian_id b \<and> verify_signature B sg b"
  using assms from_wire_enc by (auto simp: accept_wire_iff verify_iff dest!: find_SomeD)

lemma ingress_inv_process:
  assumes inv: "ingress_inv B (I, hs)" and pr: "process E B I wire t = Inr (a, I')"
    and b: "from_wire E wire = Inr b"
  shows "ingress_inv B (I', acceptances I a b @ hs)"
  using pr
proof (cases rule: process_cases)
  case (accepted b' ctx v L')
  have b': "b' = b" using accepted(1) b by simp
  note acc = accepted(4) and sg = accept_wire_signed [OF accepted(4) b]
  have "ledger_inv B (L', (ctx_session ctx, b) # hs)"
    using inv acc b sg(2) ledger_inv_accept [of B "ing_ledger I" hs E b] by (auto simp: ingress_inv_def)
  then show ?thesis
    using inv accepted(3) sg by (auto simp: ingress_inv_def accepted(2,5) b' acceptances_def ack_def)
next
  case refused
  then show ?thesis using inv by (simp add: acceptances_def)
qed

lemma ingress_inv_reachable: "ingress_reachable E B P st \<Longrightarrow> ingress_inv B st"
proof (induction rule: ingress_reachable.induct)
  case (ingress_init A)
  then show ?case by (simp add: ingress_inv_def new_ingress_def contexts_inv_def ledger_inv_def new_ledger_def)
next
  case (ingress_more st st')
  from ingress_more(2,3) show ?case
    by (auto elim!: ingress_stepE intro: ingress_inv_establish ingress_inv_process)
       (auto simp: ingress_inv_def dest: ledger_inv_prune)
qed

lemma ingress_authority_reachable:
  "ingress_reachable E B P st \<Longrightarrow> authority_reachable E B P (ing_authority (fst st))"
proof (induction rule: ingress_reachable.induct)
  case (ingress_more st st')
  have "ing_authority I' = ing_authority I" if "process E B I wire t = Inr (a, I')" for I I' wire t a
    using that by (auto elim: process_cases)
  with ingress_more(2,3) show ?case
    by (auto elim!: ingress_stepE establish_session_Inr intro: reach_step)
qed (simp add: new_ingress_def)

subsection \<open>Frames and permits\<close>

lemma process_ack_wf:
  assumes "process E B I wire t = Inr (a, I')" and "ack_status a \<in> {Accepted, Duplicate}"
  shows "wf_ack a"
proof -
  have wf: "wf_ack \<lparr>ack_status = status, ack_session_id = session_id, ack_payload_digest = PStr (sha256_hex wire)\<rparr>"
    if h: "is_hex_32 session_id" "status \<in> {Accepted, Duplicate}" for status session_id
  proof -
    have ne: "s \<noteq> []" if "is_lower_hex 64 s" for s using that by (auto simp: is_lower_hex_def)
    obtain s where s: "session_id = PStr s" "is_lower_hex 64 s" using h(1) by (auto simp: is_hex_32_def is_hex_val_iff)
    then show ?thesis
      using h(2) ne [OF s(2)] ne [OF sha256_hex_lower [of wire]]
      by (auto simp: wf_ack_def has_valid_identifiers_def identifier_ok_def)
  qed
  show ?thesis
    using assms(1)
  proof (cases rule: process_cases)
    case (accepted b ctx v L')
    then have "wf_signed b" by (auto simp: accept_wire_iff dest: verify_wf)
    then show ?thesis using wf accepted(2) by (simp add: ack_def wf_signed_def wf_ballot_def)
  next
    case (refused session_id status)
    then show ?thesis using assms(2) wf by auto
  qed
qed

inductive server_step :: "py_env \<Rightarrow> bip340 \<Rightarrow> server \<Rightarrow> server \<Rightarrow> bool" for E B where
  sv_open: "open_connection S i = Inr (S', reply) \<Longrightarrow> i \<notin> fst ` set (sv_connections S) \<Longrightarrow> server_step E B S S'"
| sv_receive: "map_of (sv_connections S) i = Some Reading \<Longrightarrow> receive S i input = Inr (S', reply) \<Longrightarrow> server_step E B S S'"
| sv_timeout: "map_of (sv_connections S) i = Some Reading \<Longrightarrow> server_step E B S (release S i)"
| sv_work: "map_of (sv_connections S) i = Some (Working wire) \<Longrightarrow> work E B S i wire now_ms = (S', r) \<Longrightarrow> server_step E B S S'"

inductive_cases server_stepE: "server_step E B S S'"

inductive server_reachable :: "py_env \<Rightarrow> bip340 \<Rightarrow> nat \<Rightarrow> server \<Rightarrow> bool" for E B where
  server_init: "new_server n I = Inr S \<Longrightarrow> server_reachable E B n S"
| server_more: "server_reachable E B n S \<Longrightarrow> server_step E B S S' \<Longrightarrow> server_reachable E B n S'"

definition server_inv :: "nat \<Rightarrow> server \<Rightarrow> bool" where
  "server_inv n S \<longleftrightarrow>
     sv_max_connections S = n \<and> sv_active S = length (sv_connections S) \<and> length (sv_connections S) \<le> n \<and>
     distinct (map fst (sv_connections S)) \<and>
     (\<forall>i wire. (i, Working wire) \<in> set (sv_connections S) \<longrightarrow>
        0 < length wire \<and> length wire \<le> MAX_BALLOT_WIRE_BYTES)"

lemma server_inv_release:
  assumes "server_inv n S" and "map_of (sv_connections S) i = Some c"
  shows "server_inv n (release S i)"
  using assms(1) length_delete [OF _ map_of_key [OF assms(2)]]
    distinct_delete [of "sv_connections S" i]
  by (auto simp: server_inv_def release_def) (auto simp: AList.delete_eq)

lemma server_inv_step:
  assumes inv: "server_inv n S" and step: "server_step E B S S'"
  shows "server_inv n S'"
  using step
proof (cases rule: server_step.cases)
  case (sv_open i reply)
  show ?thesis
  proof (cases "sv_active S < sv_max_connections S")
    case True
    then have "S' = S\<lparr>sv_active := sv_active S + 1, sv_connections := (i, Reading) # sv_connections S\<rparr>"
      using sv_open(1) by (simp add: open_connection_def)
    then show ?thesis using inv True sv_open(2) by (simp add: server_inv_def)
  next
    case False
    then have "S' = S" using sv_open(1) by (simp add: open_connection_def) blast
    then show ?thesis using inv by simp
  qed
next
  case (sv_receive i input reply)
  show ?thesis
  proof (cases "read_frame MAX_BALLOT_WIRE_BYTES input")
    case (Frame wire)
    let ?cs = "AList.update i (Working wire) (sv_connections S)"
    have len: "length ?cs = length (sv_connections S)"
      by (rule length_update [OF map_of_key [OF sv_receive(1)]])
    have "0 < length wire \<and> length wire \<le> MAX_BALLOT_WIRE_BYTES"
      using Frame by (auto simp: read_frame_def Let_def split: if_splits)
    then have "0 < length w \<and> length w \<le> MAX_BALLOT_WIRE_BYTES" if "(j, Working w) \<in> set ?cs" for j w
      using that inv subsetD [OF set_update_subset that] unfolding server_inv_def by blast
    moreover have "S' = S\<lparr>sv_connections := ?cs\<rparr>" using sv_receive(2) Frame by (simp add: receive_def)
    ultimately show ?thesis using inv len by (simp add: server_inv_def distinct_update)
  qed (use sv_receive inv server_inv_release in \<open>auto simp: receive_def\<close>)
next
  case (sv_timeout i)
  then show ?thesis using inv server_inv_release by blast
next
  case (sv_work i wire now_ms r)
  have "server_inv n (S\<lparr>sv_ingress := I'\<rparr>)" for I' using inv by (simp add: server_inv_def)
  with sv_work inv show ?thesis
    by (auto simp: work_def intro!: server_inv_release split: sum.splits)
qed

lemma server_inv_reachable: "server_reachable E B n S \<Longrightarrow> server_inv n S"
  by (induction rule: server_reachable.induct)
     (auto simp: new_server_def split: if_splits intro: server_inv_step, simp add: server_inv_def)

subsection \<open>A concrete ingress\<close>

text \<open>An ingress on the example authority, a session established from its current source and a ballot of
  the first guardian.\<close>

definition ex_ingress0 :: ingress where
  "ex_ingress0 = new_ingress ex_authority2"

definition ex_snapshot2 :: MembershipSnapshot where
  "ex_snapshot2 = projr (to_membership_snapshot ex_source2)"

definition ex_session2 :: BallotSession where
  "ex_session2 = projr (BallotSession_create B0 ex_candidate ex_snapshot2 (to_ballot_signers ex_source2)
     (plit ''mainnet'') (hexid 2) (PInt 1000) (PInt 100000))"

definition ex_context :: BallotContext where
  "ex_context = derive_context ex_candidate ex_snapshot2 ex_session2"

definition ex_ingress1 :: ingress where
  "ex_ingress1 = ex_ingress0\<lparr>ing_contexts := [(se_session_id ex_session2, ex_context)]\<rparr>"

definition ex_vote2 :: GuardianVote where
  "ex_vote2 = (ex_vote 0 True)\<lparr>gv_membership_snapshot_id := ms_snapshot_id ex_snapshot2\<rparr>"

definition ex_request2 :: BallotSigningRequest where
  "ex_request2 = projr (BallotSigningRequest_create B0 ex_vote2 ex_candidate ex_snapshot2 ex_session2
     (hexid 2) (PInt 1000) (PInt 50000))"

definition ex_ballot2 :: SignedGuardianBallot where
  "ex_ballot2 = projr (attach_signature ex_request2 (PStr (replicate 128 97)))"

lemma ex_current_source:
  "current_source E0 B0 ex_policy ex_authority2 (plit ''mainnet'') (PInt 8) = Inr ex_source2"
proof -
  have v: "validate_ledger ex_policy ex_authority2 = Inr ()"
    using authority_inv_reachable [OF ex_authority2_reachable] by (simp add: authority_inv_def)
  have p: "parse_guardian_membership_source E0 B0 (src_canonical_bytes ex_source2) (plit ''mainnet'') = Inr ex_source2"
    using ex_source2_loaded by (simp add: load_guardian_membership_source_def mainnet_valid)
  then have "src_canonical_bytes ex_source2 \<noteq> []"
    "length (src_canonical_bytes ex_source2) \<le> MAX_MEMBERSHIP_SOURCE_BYTES"
    by (auto simp: parse_guardian_membership_source_def)
  moreover have "ml_epoch ex_authority2 = 8" "ml_source_wire ex_authority2 = src_canonical_bytes ex_source2"
    "ml_source_sha256 ex_authority2 = sha256 (src_canonical_bytes ex_source2)"
    by (simp_all add: ex_authority2_def)
  ultimately show ?thesis
    by (simp add: current_source_def v p is_epoch_def MAX_MEMBERSHIP_EPOCH_def)
qed

lemma ex_snapshot2_created:
  "to_membership_snapshot ex_source2 = Inr ex_snapshot2" "is_valid_snapshot ex_snapshot2"
  using source_snapshot [OF ex_source2_valid] by (metis ex_snapshot2_def sum.sel(2))+

lemma ex_snapshot2_members: "ms_members ex_snapshot2 = ex_members"
proof -
  have "map (\<lambda>m. \<lparr>gm_guardian_id = PStr (sm_guardian_id m), gm_model_tier = PStr (sm_model_tier m),
                  gm_model_artifact_sha256 = PStr (sm_model_artifact_sha256 m)\<rparr>) (src_members ex_source2) = ex_members"
    by (simp add: ex_source2_def Let_def ex_source_members_def ex_members_def ex_member_def hexid_def)
  then show ?thesis
    using ex_snapshot2_created(1) ex_members_validated
    by (auto simp: to_membership_snapshot_def MembershipSnapshot_create_def split: if_splits
        dest!: arg_cong [where f = ms_members])
qed

lemma ex_session2_created:
  "BallotSession_create B0 ex_candidate ex_snapshot2 (to_ballot_signers ex_source2) (plit ''mainnet'') (hexid 2)
     (PInt 1000) (PInt 100000) = Inr ex_session2"
  using ex_valid ex_snapshot2_created source_signers [OF ex_source2_valid ex_snapshot2_created(1)] hexid_sha [of 2]
  by (simp add: ex_session2_def BallotSession_create_def validate_session_window_def is_timestamp_def
      MAX_SQLITE_INT_def MAX_SESSION_LIFETIME_MS_def is_hex_32_def is_sha256_def Let_def)

lemma ex_session2_fields:
  "se_valid_from_ms ex_session2 = PInt 1000" "se_valid_until_ms ex_session2 = PInt 100000"
  "se_signers ex_session2 = to_ballot_signers ex_source2"
  using BallotSession_create_fields [OF ex_session2_created]
    source_signers [OF ex_source2_valid ex_snapshot2_created(1)] by simp_all

lemma ex_session2_context: "ctx_session ex_context = ex_session2" "ctx_candidate ex_context = ex_candidate"
  "ctx_snapshot ex_context = ex_snapshot2"
  by (simp_all add: ex_context_def derive_context_def)

lemma ex_established:
  "establish_session E0 B0 ex_policy ex_ingress0 (plit ''mainnet'') (PInt 8) ex_candidate (hexid 2)
     (PInt 1000) (PInt 100000) = Inr (ex_context, ex_ingress1)"
proof -
  have "ing_authority ex_ingress0 = ex_authority2" "ing_contexts ex_ingress0 = []"
    by (simp_all add: ex_ingress0_def new_ingress_def)
  moreover have "src_network_id ex_source2 = u ''mainnet''" by (simp add: ex_source2_def Let_def)
  ultimately show ?thesis
    using ex_session2_context
    by (simp add: establish_session_def ex_current_source ex_snapshot2_created ex_session2_created Let_def
        register_context_def ex_context_def [symmetric] ex_ingress1_def MAX_MEMBERSHIP_EPOCH_def)
qed

lemma ex_request2_created:
  "BallotSigningRequest_create B0 ex_vote2 ex_candidate ex_snapshot2 ex_session2 (hexid 2) (PInt 1000) (PInt 50000) =
     Inr ex_request2"
proof -
  have "find (\<lambda>m. gm_guardian_id m = hexid 0) ex_members = Some (ex_member 0)"
    by (simp add: ex_members_def ex_member_def)
  moreover have "py_hashable (hexid 0)" by (simp add: hexid_def)
  ultimately have "is_valid_vote ex_vote2 ex_candidate ex_snapshot2 = Inr True"
    by (simp add: is_valid_vote_def members_by_id_get_def ex_vote2_def ex_vote_def ex_snapshot2_members
        vote_bound_def ex_member_def ex_candidate_artifact ENSEMBLE_PROTOCOL_VERSION_def)
  then have "is_valid_guardian_vote ex_vote2 ex_candidate ex_snapshot2 = Inr True"
    using ex_valid ex_snapshot2_created(2) by (simp add: is_valid_guardian_vote_def)
  moreover have "validate_ballot_window ex_session2 (PInt 1000) (PInt 50000) = Inr ()"
    by (simp add: validate_ballot_window_iff is_timestamp_def MAX_SQLITE_INT_def ex_session2_fields
        MAX_BALLOT_LIFETIME_MS_def)
  ultimately show ?thesis
    using BallotSession_create_valid [OF ex_session2_created] hexid_sha [of 2]
    by (simp add: ex_request2_def BallotSigningRequest_create_def is_hex_32_def is_sha256_def Let_def)
qed

lemma ex_ballot2_signed: "attach_signature ex_request2 (PStr (replicate 128 97)) = Inr ex_ballot2"
  by (simp add: ex_ballot2_def attach_signature_def is_hex_64_def)

lemma ex_ballot2_verifies:
  "verify B0 ex_ballot2 ex_candidate ex_snapshot2 ex_session2 2000 = Inr ex_vote2"
proof (rule honest_ballot_verifies [OF ex_request2_created ex_ballot2_signed])
  show "ex_signer 0 \<in> set (se_signers ex_session2)"
    by (simp add: ex_session2_fields to_ballot_signers_def ex_source2_def Let_def ex_source_members_def
        ex_signer_def hexid_def)
  show "verify_signature B0 (ex_signer 0) ex_ballot2" by (simp add: verify_signature_iff B0_def)
qed (simp_all add: ex_signer_def ex_vote2_def ex_vote_def is_timestamp_def MAX_SQLITE_INT_def MAX_CLOCK_SKEW_MS_def)

lemma ex_ballot2_decodes: "from_wire E0 (to_wire ex_ballot2) = Inr ex_ballot2"
  by (rule from_wire_to_wire [OF verify_wf [OF ex_ballot2_verifies]]) (simp add: E0_def)

lemma ex_processed:
  obtains I2 where "process E0 B0 ex_ingress1 (to_wire ex_ballot2) 2000 = Inr (ack Accepted ex_ballot2 (to_wire ex_ballot2), I2)"
proof -
  note ver = ex_ballot2_verifies [unfolded verify_iff]
  have wf: "wf_ballot ex_ballot2" using verify_wf [OF ex_ballot2_verifies] by (simp add: wf_signed_def)
  then have "is_str (sb_guardian_id ex_ballot2)" "is_str (sb_nonce ex_ballot2)"
    "is_timestamp (sb_expires_at_ms ex_ballot2)" "py_hashable (sb_session_id ex_ballot2)"
    by (auto simp: wf_ballot_def is_hex_32_def is_hex_val_iff)
  moreover have "is_valid_session_shape B0 ex_session2" using ver by (simp add: is_valid_session_def)
  ultimately have "\<exists>L'. accept_wire E0 B0 new_ledger (to_wire ex_ballot2) ex_candidate ex_snapshot2 ex_session2 2000 =
      Inr (ex_vote2, L')"
    using ver by (simp add: accept_wire_def ex_ballot2_decodes ex_ballot2_verifies consume_def advance_time_def
        new_ledger_def Let_def violates_constraint_def is_timestamp_def MAX_SQLITE_INT_def)
  moreover have "to_wire ex_ballot2 \<noteq> []" "\<not> MAX_BALLOT_WIRE_BYTES < length (to_wire ex_ballot2)"
    using ex_ballot2_decodes by (auto simp: from_wire_def split: if_splits)
  ultimately show thesis
    using ver that \<open>py_hashable (sb_session_id ex_ballot2)\<close>
    by (auto simp: process_def ex_ballot2_decodes ex_ingress1_def ex_ingress0_def new_ingress_def ex_context_def
        derive_context_def)
qed

lemma ex_ingress1_reachable: "ingress_reachable E0 B0 ex_policy (ex_ingress1, [])"
  using ingress_more [OF ingress_init [OF ex_authority2_reachable] step_establish [OF ex_established [unfolded ex_ingress0_def]]] .

subsection \<open>Repeated frames\<close>

lemma consume_again:
  assumes "consume B L b ses wire t = Inr L'" and "is_timestamp (PInt t')"
    and "is_str (sb_guardian_id b)" and "is_str (sb_nonce b)" and "is_timestamp (sb_expires_at_ms b)"
    and "row \<in> set (lg_accepted_ballots L')" and "ab_session_id row = sb_session_id b"
    and "ab_guardian_id row = sb_guardian_id b"
  shows "consume B L' b ses wire t' = Inl BallotReplayError"
proof -
  have "is_valid_session_shape B ses" "sb_session_id b = se_session_id ses" "to_wire b = wire"
    using assms(1) by (simp_all add: consume_def split: if_splits)
  moreover have "violates_constraint (L'\<lparr>lg_high_water_ms := t'\<rparr>) r"
    if "ab_session_id r = sb_session_id b" "ab_guardian_id r = sb_guardian_id b" for r
    using assms(6-8) that by (auto simp: violates_constraint_def list_ex_iff)
  ultimately show ?thesis
    using assms(2-5) by (simp add: consume_def advance_time_def Let_def)
qed

lemma consume_row:
  assumes "consume B L b ses wire t = Inr L'"
  shows "\<exists>row \<in> set (lg_accepted_ballots L'). ab_session_id row = sb_session_id b \<and>
    ab_guardian_id row = sb_guardian_id b \<and> ab_wire row = wire"
  using assms by (rule consume_Inr) simp

subsection \<open>Properties\<close>

text \<open>C1. One acceptance per guardian: over the life of an ingress, with sessions established, frames
  processed, memberships advanced and the ledger pruned in any order, two \<open>accepted\<close> ballots never share
  session and guardian, nor session and nonce. Each was accepted for the registered context of its session
  id, a valid session of that context's candidate and snapshot, and is signed by the key this session
  assigns to its guardian.\<close>

theorem ingress_single_acceptance:
  assumes "ingress_reachable E B P (I, hs)"
  shows "distinct (map (\<lambda>(_, b). (sb_session_id b, sb_guardian_id b)) hs) \<and>
    distinct (map (\<lambda>(_, b). (sb_session_id b, sb_nonce b)) hs) \<and>
    (\<forall>(ses, b) \<in> set hs. \<exists>ctx. map_of (ing_contexts I) (sb_session_id b) = Some ctx \<and> ses = ctx_session ctx \<and>
       is_valid_session B ses (ctx_candidate ctx) (ctx_snapshot ctx) \<and>
       (\<exists>sg \<in> set (se_signers ses). sg_guardian_id sg = sb_guardian_id b \<and> verify_signature B sg b))"
proof -
  note inv = ingress_inv_reachable [OF assms, unfolded ingress_inv_def fst_conv snd_conv]
  have eq: "fst h = fst h'" if "h \<in> set hs" "h' \<in> set hs" "sb_session_id (snd h) = sb_session_id (snd h')" for h h'
    using inv that by (metis (no_types, lifting) option.inject)
  have ns: "\<not> same_slot h h'"
    if h: "h \<in> set hs" "h' \<in> set hs" and imp: "same_slot h h' \<longrightarrow> session_collision (fst h) (fst h')" for h h'
  proof
    assume s: "same_slot h h'"
    then have "fst h = fst h'" using eq [OF h] by (simp add: same_slot_def)
    with imp s show False by (simp add: session_collision_def sha256_collision_def)
  qed
  have "sorted_wrt (\<lambda>h h'. same_slot h h' \<longrightarrow> session_collision (fst h) (fst h')) hs"
    using inv unfolding ledger_inv_def by (simp only: snd_conv)
  then have "sorted_wrt (\<lambda>h h'. \<not> same_slot h h') hs"
    by (rule sorted_wrt_mono_rel [rotated]) (rule ns)
  then have "distinct (map (\<lambda>(_, b). (sb_session_id b, sb_guardian_id b)) hs)"
    "distinct (map (\<lambda>(_, b). (sb_session_id b, sb_nonce b)) hs)"
    by (induction hs) (auto simp: same_slot_def split: prod.splits)
  moreover have "\<exists>ctx. map_of (ing_contexts I) (sb_session_id (snd h)) = Some ctx \<and> fst h = ctx_session ctx \<and>
      is_valid_session B (fst h) (ctx_candidate ctx) (ctx_snapshot ctx) \<and>
      (\<exists>sg \<in> set (se_signers (fst h)). sg_guardian_id sg = sb_guardian_id (snd h) \<and> verify_signature B sg (snd h))"
    if "h \<in> set hs" for h
    using inv that unfolding contexts_inv_def by metis
  ultimately show ?thesis by (simp add: case_prod_beta)
qed

theorem ingress_single_acceptance_witness:
  "\<exists>I hs. ingress_reachable E0 B0 ex_policy (I, hs) \<and> hs = [(ex_session2, ex_ballot2)] \<and>
     (\<exists>sg \<in> set (se_signers ex_session2). sg_guardian_id sg = hexid 0 \<and> verify_signature B0 sg ex_ballot2)"
proof -
  obtain I2 where p: "process E0 B0 ex_ingress1 (to_wire ex_ballot2) 2000 =
      Inr (ack Accepted ex_ballot2 (to_wire ex_ballot2), I2)" by (rule ex_processed)
  have ver: "sb_session_id ex_ballot2 = se_session_id ex_session2"
    using ex_ballot2_verifies by (simp add: verify_iff)
  have "sb_guardian_id (signed_part ex_ballot2) = gv_guardian_id ex_vote2"
    using request_fields [OF ex_request2_created] attach_signature_simps [OF ex_ballot2_signed] by simp
  then have g: "sb_guardian_id ex_ballot2 = hexid 0" by (simp add: ex_vote2_def ex_vote_def)
  have "ingress_reachable E0 B0 ex_policy (I2, [(ex_session2, ex_ballot2)])"
    using ingress_more [OF ex_ingress1_reachable step_process [OF p ex_ballot2_decodes]]
    by (simp add: acceptances_def ack_def ver ex_ingress1_def ex_session2_context)
  with ingress_single_acceptance [OF this] g show ?thesis by fastforce
qed

text \<open>Retransmission is idempotent: after a frame was accepted, processing the same bytes again changes
  nothing and is answered \<open>duplicate\<close> as long as the ballot is fresh, at any time the clock shows, and
  \<open>rejected\<close> afterwards.\<close>

lemma retransmission_idempotent:
  assumes "process E B I wire t = Inr (a, I')" and "ack_status a = Accepted"
  shows "\<exists>b ctx. from_wire E wire = Inr b \<and> map_of (ing_contexts I) (sb_session_id b) = Some ctx \<and>
    process E B I' wire t' =
      Inr (if is_timestamp (PInt t') \<and> is_fresh_envelope b (ctx_session ctx) t'
           then ack Duplicate b wire else reject_ack (PStr []) wire, I')"
  using assms(1)
proof (cases rule: process_cases)
  case (accepted b ctx v L')
  let ?acc = "\<lambda>L t. accept_wire E B L wire (ctx_candidate ctx) (ctx_snapshot ctx) (ctx_session ctx) t"
  have dec: "from_wire E wire = Inr b" by (rule accepted(1))
  have ver: "verify B b (ctx_candidate ctx) (ctx_snapshot ctx) (ctx_session ctx) t = Inr v"
    and con: "consume B (ing_ledger I) b (ctx_session ctx) wire t = Inr L'"
    using accepted(4) dec by (auto simp: accept_wire_iff)
  obtain row where row: "row \<in> set (lg_accepted_ballots L')" "ab_session_id row = sb_session_id b"
    "ab_guardian_id row = sb_guardian_id b" "ab_wire row = wire"
    using consume_row [OF con] by blast
  have hex: "is_hex_32 (sb_session_id b)" "is_str (sb_guardian_id b)" "is_str (sb_nonce b)"
    "is_timestamp (sb_expires_at_ms b)" "py_hashable (sb_session_id b)"
    using verify_wf [OF ver] by (auto simp: wf_signed_def wf_ballot_def is_hex_32_def is_hex_val_iff)
  have "contains_wire L' (sb_session_id b) wire = Inr True"
    using row hex(1) by (auto simp: contains_wire_def session_wires_def intro!: rev_image_eqI)
  moreover have "?acc L' t' = Inl BallotReplayError"
    if "is_timestamp (PInt t')" "is_fresh_envelope b (ctx_session ctx) t'"
  proof -
    have "verify B b (ctx_candidate ctx) (ctx_snapshot ctx) (ctx_session ctx) t' = Inr v"
      using ver that by (auto simp: verify_iff)
    moreover have "consume B L' b (ctx_session ctx) wire t' = Inl BallotReplayError"
      by (rule consume_again [OF con that(1) hex(2-4) row(1-3)])
    ultimately show ?thesis by (simp add: accept_wire_def dec)
  qed
  moreover have "?acc L' t' = Inl BallotVerificationError"
    if "\<not> (is_timestamp (PInt t') \<and> is_fresh_envelope b (ctx_session ctx) t')"
    using ver that by (auto simp: accept_wire_def dec verify_iff verify_def raise_if_def)
  moreover have "wire \<noteq> []" "\<not> MAX_BALLOT_WIRE_BYTES < length wire"
    using dec by (auto simp: from_wire_def split: if_splits)
  ultimately have "process E B I' wire t' =
      Inr (if is_timestamp (PInt t') \<and> is_fresh_envelope b (ctx_session ctx) t'
           then ack Duplicate b wire else reject_ack (PStr []) wire, I')"
    using accepted(3) hex(5) by (simp add: process_def dec accepted(5) is_transport_error_def)
  then show ?thesis using dec accepted(3) by blast
next
  case refused
  then show ?thesis using assms(2) by simp
qed

text \<open>Acknowledgements: an acknowledgement with text identifiers that passes the identifier check is
  encoded within the size limit and decoded back, no other byte string decodes to it, and every decoded
  acknowledgement passes the check.\<close>

lemma ack_wire_roundtrip:
  assumes "1 \<le> json_depth E"
  shows "(wf_ack a \<longrightarrow> (\<exists>w. ack_to_wire a = Inr w \<and> length w \<le> 512 \<and> (\<forall>w'. ack_from_wire E w' = Inr a \<longleftrightarrow> w' = w))) \<and>
    (ack_from_wire E w = Inr a \<longrightarrow> wf_ack a \<and> ack_to_wire a = Inr w)"
proof -
  have "length w \<le> 512" if "ack_to_wire a = Inr w" for w
    using that by (auto simp: ack_to_wire_def Let_def MAX_INGRESS_ACK_BYTES_def split: if_splits)
  then show ?thesis
    using ac.dec_iff [of a E] ack_to_wire_iff [of a] ack_from_wire_enc [of E w a] assms by auto
qed

text \<open>C30. A session is established only from the current membership source: for a reachable ingress a
  returned context has the given candidate, the snapshot pins the digest of the authority's current source
  and the requested epoch is the current one, the session is valid for both and belongs to the policy's
  network; the context is registered, the other contexts, the ledger and the authority are untouched, and
  establishing it again with the same arguments returns the same context and state.\<close>

theorem establish_session_sound:
  assumes "ingress_reachable E B P (I, hs)" and "3 \<le> json_depth E"
    and "establish_session E B P I net epoch c nonce valid_from valid_until = Inr (ctx, I')"
  shows "ctx_candidate ctx = c \<and> epoch = PInt (ml_epoch (ing_authority I)) \<and> net = PStr (ap_network_id P) \<and>
    ms_membership_source_sha256 (ctx_snapshot ctx) = PStr (hex_of_bytes (ml_source_sha256 (ing_authority I))) \<and>
    is_valid_session B (ctx_session ctx) c (ctx_snapshot ctx) \<and> se_network_id (ctx_session ctx) = net \<and>
    map_of (ing_contexts I') = (map_of (ing_contexts I))(se_session_id (ctx_session ctx) \<mapsto> ctx) \<and>
    ing_ledger I' = ing_ledger I \<and> ing_authority I' = ing_authority I \<and>
    establish_session E B P I' net epoch c nonce valid_from valid_until = Inr (ctx, I')"
  using assms(3)
proof (rule establish_session_Inr)
  fix src snap ses
  let ?A = "ing_authority I"
  assume cur: "current_source E B P ?A net epoch = Inr src" and snap: "to_membership_snapshot src = Inr snap"
    and cr: "BallotSession_create B c snap (to_ballot_signers src) (PStr (src_network_id src)) nonce valid_from valid_until = Inr ses"
    and ctx: "ctx = derive_context c snap ses"
    and I': "I' = I\<lparr>ing_contexts := AList.update (se_session_id ses) ctx (ing_contexts I)\<rparr>"
  have inv: "authority_inv E B P ?A"
    using authority_inv_reachable ingress_authority_reachable [OF assms(1)] by simp
  have net: "net = PStr (ap_network_id P)" and ep: "epoch = PInt (ml_epoch ?A)"
    using cur by (auto simp: current_source_def split: if_splits)
  obtain s where s: "current_source E B P ?A net epoch = Inr s" "valid_source B s"
      "sha256 (src_canonical_bytes s) = ml_source_sha256 ?A"
    unfolding net ep using current_source_reachable [OF inv assms(2)] by metis
  then have src: "src = s" using cur by simp
  have nid: "src_network_id src = ap_network_id P"
    using cur net by (auto simp: current_source_def catch_eq_Inr_raise dest: parse_source_valid split: if_splits)
  have "ms_membership_source_sha256 snap = PStr (hex_of_bytes (ml_source_sha256 ?A))"
    using source_snapshot [OF s(2)] snap s(2,3) by (metis src sum.inject(2) valid_source_def sha256_hex_def)
  moreover have f: "ctx_session ctx = ses" "ctx_candidate ctx = c" "ctx_snapshot ctx = snap"
    by (simp_all add: ctx derive_context_def)
  moreover have upd: "map_of (ing_contexts I') = (map_of (ing_contexts I))(se_session_id ses \<mapsto> ctx)"
    by (simp add: I' update_conv')
  moreover have "establish_session E B P I' net epoch c nonce valid_from valid_until = Inr (ctx, I')"
  proof -
    have "int_in 0 MAX_MEMBERSHIP_EPOCH epoch" using cur by (auto simp: current_source_def is_epoch_def split: if_splits)
    moreover have "register_context I' ctx = Inr I'"
      using upd by (simp add: register_context_def f) (simp add: I')
    moreover have "ing_authority I' = ?A" by (simp add: I')
    ultimately show ?thesis by (simp add: establish_session_def cur snap cr Let_def ctx [symmetric])
  qed
  ultimately show ?thesis
    using net ep nid BallotSession_create_valid [OF cr] BallotSession_create_fields(3) [OF cr] by (simp add: I')
qed

theorem establish_session_sound_witness:
  "ms_membership_source_sha256 (ctx_snapshot ex_context) = PStr (sha256_hex (src_canonical_bytes ex_source2)) \<and>
   establish_session E0 B0 ex_policy ex_ingress1 (plit ''mainnet'') (PInt 8) ex_candidate (hexid 2)
     (PInt 1000) (PInt 100000) = Inr (ex_context, ex_ingress1)"
proof -
  have "ingress_reachable E0 B0 ex_policy (ex_ingress0, [])"
    unfolding ex_ingress0_def by (rule ingress_init [OF ex_authority2_reachable])
  moreover have "3 \<le> json_depth E0" by (simp add: E0_def)
  moreover have "ml_source_sha256 (ing_authority ex_ingress0) = sha256 (src_canonical_bytes ex_source2)"
    by (simp add: ex_ingress0_def new_ingress_def ex_authority2_def)
  ultimately show ?thesis
    using establish_session_sound [OF _ _ ex_established, of "[]"] by (simp add: sha256_hex_def)
qed

text \<open>The client and the server agree: the acknowledgement of an accepted or duplicate ballot, and any
  other that passes the identifier check with a text session id, is framed by the server's worker, and the
  client that submitted the ballot decodes exactly this acknowledgement from the frame. A reply of any other
  origin is taken only if it names the digest of the submitted bytes, or says \<open>busy\<close>.\<close>

lemma client_receives_ack:
  assumes "process E B (sv_ingress S) wire t = Inr (a, I')" and "1 \<le> json_depth E"
    and "ack_status a \<in> {Accepted, Duplicate} \<or> wf_ack a"
    and "wire \<noteq> []" and "length wire \<le> MAX_BALLOT_WIRE_BYTES"
  shows "\<exists>reply. work E B S i wire t = (release (S\<lparr>sv_ingress := I'\<rparr>) i, Inr reply) \<and>
      submit_to_ingress E wire reply = Inr a \<and>
      (\<forall>reply' a'. submit_to_ingress E wire reply' = Inr a' \<longrightarrow>
         ack_status a' = Busy \<or> ack_payload_digest a' = PStr (sha256_hex wire))"
proof -
  have wf: "wf_ack a" using process_ack_wf [OF assms(1)] assms(3) by blast
  let ?w = "canonical_json (PDict (ack_items a))"
  have "read_frame MAX_INGRESS_ACK_BYTES (write_frame ?w) = Frame ?w"
    using ack_from_wire_to_wire [OF wf assms(2)]
    by (intro read_write_frame) (auto simp: ack_from_wire_def MAX_INGRESS_ACK_BYTES_def split: if_splits)
  then have "submit_to_ingress E wire (write_frame ?w) = Inr a"
    using assms(4,5) ack_from_wire_to_wire [OF wf assms(2)] process_ack_fields [OF assms(1)]
    by (simp add: submit_to_ingress_def)
  moreover have "ack_status a' = Busy \<or> ack_payload_digest a' = PStr (sha256_hex wire)"
    if "submit_to_ingress E wire reply' = Inr a'" for reply' a'
    using that by (auto simp: submit_to_ingress_def split: if_splits frame.splits)
  ultimately show ?thesis using ack_to_wire_iff [OF wf] by (simp add: work_def assms(1))
qed

text \<open>C31. Connection permits: a server that starts with \<open>n\<close> permits never has more than \<open>n\<close> connections
  that read or work; the counter of active permits is always their number, whatever the order in which
  connections open, time out, deliver frames and finish, and also when processing raises; every wire a
  worker gets has an admissible size; and a connection is refused, with a \<open>busy\<close> frame that the client
  decodes, exactly when all permits are taken.\<close>

theorem server_permits:
  assumes "server_reachable E B n S" and "1 \<le> json_depth E"
  shows "sv_active S = length (sv_connections S) \<and> length (sv_connections S) \<le> n \<and>
    (\<forall>j wire. (j, Working wire) \<in> set (sv_connections S) \<longrightarrow> 0 < length wire \<and> length wire \<le> 8192) \<and>
    (case open_connection S i of
       Inl e \<Rightarrow> False
     | Inr (S', reply) \<Rightarrow>
         if length (sv_connections S) < n
         then reply = [] \<and> sv_connections S' = (i, Reading) # sv_connections S
         else S' = S \<and> (\<forall>wire. wire \<noteq> [] \<and> length wire \<le> 8192 \<longrightarrow> submit_to_ingress E wire reply = Inr busy_ack))"
proof -
  note inv = server_inv_reachable [OF assms(1), unfolded server_inv_def]
  have wf: "wf_ack busy_ack" by (simp add: wf_ack_def busy_ack_def has_valid_identifiers_def identifier_ok_def)
  let ?w = "canonical_json (PDict (ack_items busy_ack))"
  have "read_frame MAX_INGRESS_ACK_BYTES (write_frame ?w) = Frame ?w"
    using ack_from_wire_to_wire [OF wf assms(2)]
    by (intro read_write_frame) (auto simp: ack_from_wire_def MAX_INGRESS_ACK_BYTES_def split: if_splits)
  then have "submit_to_ingress E wire (write_frame ?w) = Inr busy_ack" if "wire \<noteq> [] \<and> length wire \<le> 8192" for wire
    using that ack_from_wire_to_wire [OF wf assms(2)]
    by (simp add: submit_to_ingress_def MAX_BALLOT_WIRE_BYTES_def) (simp add: busy_ack_def)
  then show ?thesis
    using inv ack_to_wire_iff [OF wf] by (auto simp: open_connection_def MAX_BALLOT_WIRE_BYTES_def)
qed

theorem server_permits_witness:
  "\<exists>S. server_reachable E0 B0 1 S \<and> sv_connections S = [(7, Reading)] \<and> sv_active S = 1 \<and>
     (\<exists>reply. open_connection S 8 = Inr (S, reply))"
proof -
  let ?T = "\<lparr>sv_max_connections = 1, sv_active = 0, sv_connections = [], sv_ingress = ex_ingress1\<rparr>"
  let ?S = "?T\<lparr>sv_active := 1, sv_connections := [(7, Reading)]\<rparr>"
  have "open_connection ?T 7 = Inr (?S, [])" by (simp add: open_connection_def)
  moreover have "server_reachable E0 B0 1 ?T" by (rule server_init [of _ ex_ingress1]) (simp add: new_server_def)
  ultimately have r: "server_reachable E0 B0 1 ?S" by (metis empty_iff image_empty list.set(1) server.select_convs(3) server_more sv_open)
  moreover have "\<exists>reply. open_connection ?S 8 = Inr (?S, reply)"
    using server_permits [OF r, of 8] by (auto simp: E0_def split: sum.splits if_splits)
  ultimately show ?thesis by auto
qed

end
