(* ===== verification/Py_Raises.thy ===== *)
theory Py_Raises
  imports Py_Json_Facts
begin

text \<open>
  Which exceptions a computation may raise. \<open>raises P m\<close> says that an exception of \<open>m\<close> satisfies \<open>P\<close>; the
  rules of \<open>raises_intros\<close> follow the structure of a computation, so that a bound on the exceptions of an
  operation is proved from bounds on those it calls.
\<close>

named_theorems raises_intros

definition raises :: "('e \<Rightarrow> bool) \<Rightarrow> 'e + 'a \<Rightarrow> bool" where
  "raises P m \<longleftrightarrow> (\<forall>e. m = Inl e \<longrightarrow> P e)"

lemma raisesD: "raises P m \<Longrightarrow> m = Inl e \<Longrightarrow> P e"
  by (simp add: raises_def)

lemma raises_mono: "raises P m \<Longrightarrow> (\<And>e. P e \<Longrightarrow> Q e) \<Longrightarrow> raises Q m"
  by (auto simp: raises_def)

lemma raises_Inr [raises_intros]: "raises P (Inr x)"
  and raises_Inl [raises_intros]: "P e \<Longrightarrow> raises P (Inl e)"
  and raises_rbind [raises_intros]: "raises P m \<Longrightarrow> (\<And>x. m = Inr x \<Longrightarrow> raises P (f x)) \<Longrightarrow> raises P (rbind m f)"
  and raises_raise_if [raises_intros]: "P e \<Longrightarrow> raises P (raise_if c e)"
  and raises_if [raises_intros]:
    "(c \<Longrightarrow> raises P m) \<Longrightarrow> (\<not> c \<Longrightarrow> raises P m') \<Longrightarrow> raises P (if c then m else m')"
  by (auto simp: raises_def rbind_eq_Inl)

lemma raises_option [raises_intros]:
  "(v = None \<Longrightarrow> raises P m) \<Longrightarrow> (\<And>x. v = Some x \<Longrightarrow> raises P (f x)) \<Longrightarrow>
    raises P (case v of None \<Rightarrow> m | Some x \<Rightarrow> f x)"
  by (cases v) simp_all

lemma raises_prod [raises_intros]: "(\<And>a b. v = (a, b) \<Longrightarrow> raises P (f a b)) \<Longrightarrow> raises P (case v of (a, b) \<Rightarrow> f a b)"
  by (cases v) simp

lemma raises_let [raises_intros]: "(\<And>x. x = t \<Longrightarrow> raises P (f x)) \<Longrightarrow> raises P (let x = t in f x)"
  by simp

lemma raises_catch:
  "raises (\<lambda>e. p e \<or> P e) m \<Longrightarrow> P x \<Longrightarrow> raises P (catch m p (\<lambda>_. Inl x))"
  by (auto simp: raises_def catch_def split: sum.splits)

text \<open>The exceptions that the redacting handlers of the modules catch.\<close>

definition redactable :: "pyexc \<Rightarrow> bool" where
  "redactable e \<longleftrightarrow> is_value_error e \<or> e = TypeError \<or> e = OverflowError \<or> e = RecursionError"

lemma value_error_redactable [simp]: "is_value_error e \<Longrightarrow> redactable e"
  by (simp add: redactable_def)

lemma redactable_simps [simp]:
  "redactable TypeError" "redactable OverflowError" "redactable RecursionError" "\<not> redactable SqliteError"
  by (simp_all add: redactable_def)

lemma raises_loads [raises_intros]:
  "is_value_error dup \<Longrightarrow> raises redactable (loads_utf8 E dup w)"
proof -
  assume d: "is_value_error dup"
  have "redactable (json_exc dup j)" if "j \<noteq> JFuel" for j
    using that d by (cases j) simp_all
  moreover have "j \<noteq> JFuel" if "json_loads E s = Inl j" for s j
    using that scan_fuel [of E s] by auto
  ultimately show ?thesis
    by (auto simp: raises_def loads_utf8_def split: option.splits sum.splits)
qed

lemma raises_catch_redactable [raises_intros]:
  "raises redactable m \<Longrightarrow> redactable x \<Longrightarrow> raises redactable (catch m p (\<lambda>_. Inl x))"
  by (auto simp: raises_def catch_def split: sum.splits)

text \<open>A handler that turns the redactable exceptions into one class leaves no other.\<close>

definition redact :: "pyexc \<Rightarrow> pyexc + 'a \<Rightarrow> pyexc + 'a" where
  "redact x m = catch m redactable (\<lambda>_. Inl x)"

lemma redact_Inr [simp]: "redact x m = Inr y \<longleftrightarrow> m = Inr y"
  by (simp add: redact_def catch_eq_Inr_raise)

lemma redact_Inl: "raises redactable m \<Longrightarrow> redact x m = Inl e \<Longrightarrow> e = x"
  by (auto simp: redact_def catch_def raises_def split: sum.splits if_splits)

end
