(* ===== verification/Owner_File.thy ===== *)
theory Owner_File
  imports Py_Raises Py_Sha256
begin

text \<open>
  The checked reads of owner files in \<open>jaeger/threat_hint_v2_preflight.py\<close> and
  \<open>jaeger/threat_hint_v2_verified_preflight.py\<close>. A file is what the operating system answers for its path:
  the status records of its parent, of the path and of the opened descriptor, and the bytes behind the
  descriptor with the sizes of the successive partial reads; \<open>None\<close> stands for an \<open>OSError\<close>. Paths are absolute
  by their type, and \<open>O_NOFOLLOW\<close> exists on the platforms modelled.
\<close>

unbundle bit_operations_syntax

record stat_result =
  st_mode :: nat
  st_uid :: nat
  st_dev :: nat
  st_ino :: nat
  st_size :: nat

record file_view =
  fv_resolved_same :: bool
  fv_ancestors :: "stat_result option list"
  fv_before :: "stat_result option"
  fv_opened :: "stat_result option"
  fv_content :: "bytes option"
  fv_sizes :: "nat list"
  fv_after :: "stat_result option"

definition S_ISDIR :: "nat \<Rightarrow> bool" where
  "S_ISDIR mode \<longleftrightarrow> mode AND 0xF000 = 0x4000"

definition S_ISREG :: "nat \<Rightarrow> bool" where
  "S_ISREG mode \<longleftrightarrow> mode AND 0xF000 = 0x8000"

text \<open>The masks \<open>0o077\<close>, \<open>0o7000\<close>, \<open>0o022\<close>, \<open>S_IXUSR\<close> and \<open>S_ISVTX\<close>.\<close>

definition group_world :: "nat \<Rightarrow> bool" where
  "group_world mode \<longleftrightarrow> mode AND 63 \<noteq> 0"
definition special_bits :: "nat \<Rightarrow> bool" where
  "special_bits mode \<longleftrightarrow> mode AND 3584 \<noteq> 0"
definition group_world_write :: "nat \<Rightarrow> bool" where
  "group_world_write mode \<longleftrightarrow> mode AND 18 \<noteq> 0"
definition owner_exec :: "nat \<Rightarrow> bool" where
  "owner_exec mode \<longleftrightarrow> mode AND 64 \<noteq> 0"
definition sticky :: "nat \<Rightarrow> bool" where
  "sticky mode \<longleftrightarrow> mode AND 512 \<noteq> 0"

subsection \<open>Paths\<close>

fun split_slash :: "pystr \<Rightarrow> pystr list" where
  "split_slash [] = [[]]"
| "split_slash (c # s) =
     (if c = 47 then [] # split_slash s
      else case split_slash s of p # ps \<Rightarrow> (c # p) # ps | [] \<Rightarrow> [[c]])"

text \<open>An absolute \<open>Path\<close> is the list of its parts below the root; empty and single-dot parts are dropped.\<close>

definition path_parts :: "pystr \<Rightarrow> pystr list" where
  "path_parts s = filter (\<lambda>p. p \<noteq> [] \<and> p \<noteq> u ''.'') (split_slash s)"

definition plain_path :: "pystr list \<Rightarrow> bool" where
  "plain_path ps \<longleftrightarrow> ps \<noteq> [] \<and> u ''..'' \<notin> set ps"

definition decode_absolute_path :: "pyval \<Rightarrow> pyexc + pystr list" where
  "decode_absolute_path v =
     (case v of
        PStr s \<Rightarrow>
          (if s = [] \<or> 0 \<in> set s \<or> hd s \<noteq> 47 \<or> \<not> plain_path (path_parts s)
           then Inl ThreatHintV2VerifiedPreflightUnavailableError
           else Inr (path_parts s))
      | _ \<Rightarrow> Inl ThreatHintV2VerifiedPreflightUnavailableError)"

subsection \<open>Descriptor reads\<close>

text \<open>
  The loop over \<open>os.read(descriptor, min(remaining, cap))\<close>: a call returns at least one byte before the end of
  the file, and as many as the next entry of \<open>sizes\<close> allows; no entry is left for reads that are not cut short.
\<close>

function read_loop :: "nat \<Rightarrow> nat \<Rightarrow> nat list \<Rightarrow> bytes \<Rightarrow> bytes" where
  "read_loop cap remaining sizes content =
     (if remaining = 0 \<or> cap = 0 then []
      else let want = min remaining cap;
               chunk = take (case sizes of [] \<Rightarrow> want | n # _ \<Rightarrow> min (Suc n) want) content
           in if chunk = [] then []
              else chunk @ read_loop cap (remaining - length chunk) (tl sizes) (drop (length chunk) content))"
  by pat_completeness auto
termination
  by (relation "measure (\<lambda>(cap, remaining, _, _). remaining)") (auto split: list.splits)

declare read_loop.simps [simp del]

definition MAX_PREFLIGHT_POLICY_BYTES :: nat where
  "MAX_PREFLIGHT_POLICY_BYTES = 4096"

definition read_policy_descriptor :: "nat list \<Rightarrow> bytes \<Rightarrow> pyexc + bytes" where
  "read_policy_descriptor sizes content =
     (let limit = MAX_PREFLIGHT_POLICY_BYTES;
          contents = read_loop (limit + 1) (limit + 1) sizes content
      in if limit < length contents then Inl ThreatHintV2PreflightError else Inr contents)"

definition read_descriptor :: "nat list \<Rightarrow> bytes \<Rightarrow> nat \<Rightarrow> pyexc + bytes" where
  "read_descriptor sizes content limit =
     (let contents = read_loop (64 * 1024) (limit + 1) sizes content
      in if limit < length contents then Inl ThreatHintV2VerifiedPreflightUnavailableError else Inr contents)"

subsection \<open>The policy file of the preflight\<close>

definition is_safe_policy_parent :: "nat \<Rightarrow> stat_result \<Rightarrow> bool" where
  "is_safe_policy_parent uid st \<longleftrightarrow> S_ISDIR (st_mode st) \<and> st_uid st = uid \<and> \<not> group_world (st_mode st)"

definition is_safe_policy_file :: "nat \<Rightarrow> stat_result \<Rightarrow> bool" where
  "is_safe_policy_file uid st \<longleftrightarrow> S_ISREG (st_mode st) \<and> st_uid st = uid \<and> \<not> group_world (st_mode st) \<and>
     \<not> special_bits (st_mode st) \<and> 0 < st_size st \<and> st_size st \<le> MAX_PREFLIGHT_POLICY_BYTES"

definition is_same_policy_file :: "nat \<Rightarrow> stat_result \<Rightarrow> stat_result \<Rightarrow> bool" where
  "is_same_policy_file uid before current \<longleftrightarrow> st_dev before = st_dev current \<and> st_ino before = st_ino current \<and>
     st_size before = st_size current \<and> is_safe_policy_file uid current"

text \<open>An answer of the operating system, where \<open>OSError\<close> is raised as the error \<open>e\<close>.\<close>

definition os_ok :: "pyexc \<Rightarrow> 'a option \<Rightarrow> pyexc + 'a" where
  "os_ok e v = (case v of None \<Rightarrow> Inl e | Some x \<Rightarrow> Inr x)"

definition os_parent :: "pyexc \<Rightarrow> file_view \<Rightarrow> pyexc + stat_result" where
  "os_parent e f = (case fv_ancestors f of [] \<Rightarrow> Inl e | st # _ \<Rightarrow> os_ok e st)"

definition read_owner_policy_file :: "nat \<Rightarrow> file_view \<Rightarrow> pyexc + bytes" where
  "read_owner_policy_file uid f =
     rbind (os_parent ThreatHintV2PreflightError f) (\<lambda>parent_stat.
     rbind (os_ok ThreatHintV2PreflightError (fv_before f)) (\<lambda>before.
     rbind (raise_if (\<not> fv_resolved_same f \<or> \<not> is_safe_policy_parent uid parent_stat \<or>
                      \<not> is_safe_policy_file uid before) ThreatHintV2PreflightError) (\<lambda>_.
     rbind (os_ok ThreatHintV2PreflightError (fv_opened f)) (\<lambda>opened.
     rbind (raise_if (\<not> is_same_policy_file uid before opened) ThreatHintV2PreflightError) (\<lambda>_.
     rbind (os_ok ThreatHintV2PreflightError (fv_content f)) (\<lambda>content.
     rbind (read_policy_descriptor (fv_sizes f) content) (\<lambda>contents.
     rbind (os_ok ThreatHintV2PreflightError (fv_after f)) (\<lambda>after_stat.
     if length contents \<noteq> st_size before \<or> \<not> is_same_policy_file uid before after_stat
     then Inl ThreatHintV2PreflightError else Inr contents))))))))"

subsection \<open>The files of the verified preflight\<close>

definition read_owner_file :: "nat \<Rightarrow> pystr list \<Rightarrow> file_view \<Rightarrow> nat \<Rightarrow> bool \<Rightarrow> bool \<Rightarrow> pyexc + bytes" where
  "read_owner_file uid path f limit require_owner_only_parent unavailable =
     (let e = (if unavailable then ThreatHintV2VerifiedPreflightUnavailableError
               else ThreatHintV2VerifiedPreflightError)
      in if \<not> plain_path path then Inl e
         else rbind (catch (
              rbind (os_parent e f) (\<lambda>parent_stat.
              rbind (os_ok e (fv_before f)) (\<lambda>before.
              rbind (raise_if (\<not> fv_resolved_same f \<or> \<not> S_ISDIR (st_mode parent_stat) \<or> st_uid parent_stat \<noteq> uid \<or>
                               (require_owner_only_parent \<and> group_world (st_mode parent_stat)) \<or>
                               \<not> S_ISREG (st_mode before) \<or> st_uid before \<noteq> uid \<or> group_world (st_mode before) \<or>
                               special_bits (st_mode before) \<or> \<not> (0 < st_size before \<and> st_size before \<le> limit)) e) (\<lambda>_.
              rbind (os_ok e (fv_opened f)) (\<lambda>opened.
              rbind (raise_if (st_dev before \<noteq> st_dev opened \<or> st_ino before \<noteq> st_ino opened \<or>
                               st_size before \<noteq> st_size opened \<or> \<not> S_ISREG (st_mode opened)) e) (\<lambda>_.
              rbind (os_ok e (fv_content f)) (\<lambda>content.
              rbind (read_descriptor (fv_sizes f) content limit) (\<lambda>contents.
              Inr (before, contents)))))))))
              is_value_error (\<lambda>_. Inl e)) (\<lambda>(before, contents).
              if length contents \<noteq> st_size before then Inl e else Inr contents))"

definition MAX_VERIFIER_EXECUTABLE_BYTES :: nat where
  "MAX_VERIFIER_EXECUTABLE_BYTES = 64 * 1024 * 1024"

definition is_safe_executable_ancestor :: "nat \<Rightarrow> stat_result \<Rightarrow> bool" where
  "is_safe_executable_ancestor uid st \<longleftrightarrow>
     (if \<not> S_ISDIR (st_mode st) \<or> \<not> (st_uid st = 0 \<or> st_uid st = uid) then False
      else if \<not> group_world_write (st_mode st) then True
      else st_uid st = 0 \<and> sticky (st_mode st))"

fun check_ancestors :: "nat \<Rightarrow> stat_result option list \<Rightarrow> pyexc + unit" where
  "check_ancestors uid [] = Inr ()"
| "check_ancestors uid (st # sts) =
     rbind (os_ok ThreatHintV2VerifiedPreflightUnavailableError st) (\<lambda>parent_stat.
     if \<not> is_safe_executable_ancestor uid parent_stat then Inl ThreatHintV2VerifiedPreflightUnavailableError
     else check_ancestors uid sts)"

text \<open>The bytes that were hashed are returned in place of the path, which the caller knows.\<close>

definition validate_and_hash_executable :: "nat \<Rightarrow> file_view \<Rightarrow> pystr \<Rightarrow> pyexc + bytes" where
  "validate_and_hash_executable uid f expected_sha256 =
     (let e = ThreatHintV2VerifiedPreflightUnavailableError
      in rbind (raise_if (\<not> fv_resolved_same f) e) (\<lambda>_.
         rbind (check_ancestors uid (fv_ancestors f)) (\<lambda>_.
         rbind (os_ok e (fv_before f)) (\<lambda>before.
         rbind (raise_if (\<not> S_ISREG (st_mode before) \<or> \<not> (st_uid before = 0 \<or> st_uid before = uid) \<or>
                          group_world_write (st_mode before) \<or> special_bits (st_mode before) \<or>
                          \<not> owner_exec (st_mode before) \<or>
                          \<not> (0 < st_size before \<and> st_size before \<le> MAX_VERIFIER_EXECUTABLE_BYTES)) e) (\<lambda>_.
         rbind (os_ok e (fv_opened f)) (\<lambda>opened.
         rbind (raise_if (st_dev before \<noteq> st_dev opened \<or> st_ino before \<noteq> st_ino opened \<or>
                          st_size before \<noteq> st_size opened \<or> \<not> S_ISREG (st_mode opened)) e) (\<lambda>_.
         rbind (os_ok e (fv_content f)) (\<lambda>content.
         rbind (read_descriptor (fv_sizes f) content MAX_VERIFIER_EXECUTABLE_BYTES) (\<lambda>contents.
         if length contents \<noteq> st_size before \<or> sha256_hex contents \<noteq> expected_sha256 then Inl e
         else Inr contents)))))))))"

subsection \<open>Reads are exact\<close>

lemma read_loop_eq: "0 < cap \<Longrightarrow> read_loop cap remaining sizes content = take remaining content"
proof (induction cap remaining sizes content rule: read_loop.induct)
  case (1 cap remaining sizes content)
  let ?n = "case sizes of [] \<Rightarrow> min remaining cap | n # _ \<Rightarrow> min (Suc n) (min remaining cap)"
  have n: "?n \<le> remaining" "remaining \<noteq> 0 \<Longrightarrow> 0 < ?n" using 1(2) by (auto split: list.splits)
  show ?case
  proof (cases "remaining = 0 \<or> take ?n content = []")
    case True
    then show ?thesis using n 1(2) by (auto simp: read_loop.simps [of cap remaining])
  next
    case False
    let ?k = "length (take ?n content)"
    have "read_loop cap remaining sizes content =
        take ?n content @ read_loop cap (remaining - ?k) (tl sizes) (drop ?k content)"
      using False 1(2) by (subst read_loop.simps) (simp add: Let_def)
    also have "\<dots> = take ?n content @ take (remaining - ?k) (drop ?k content)"
      using 1(1) [OF _ refl refl] 1(2) False by simp
    also have "\<dots> = take remaining content"
      using n(1) by (cases "?n \<le> length content") (simp_all add: take_add [symmetric])
    finally show ?thesis .
  qed
qed

lemma read_policy_descriptor_iff:
  "read_policy_descriptor sizes content = Inr c \<longleftrightarrow> c = content \<and> length content \<le> 4096"
  by (auto simp: read_policy_descriptor_def read_loop_eq MAX_PREFLIGHT_POLICY_BYTES_def Let_def)

lemma read_descriptor_iff:
  "read_descriptor sizes content limit = Inr c \<longleftrightarrow> c = content \<and> length content \<le> limit"
  by (auto simp: read_descriptor_def read_loop_eq Let_def)

lemma os_ok_iff [simp]: "os_ok e v = Inr x \<longleftrightarrow> v = Some x"
  by (simp add: os_ok_def split: option.splits)

lemma os_parent_iff: "os_parent e f = Inr st \<longleftrightarrow> (\<exists>sts. fv_ancestors f = Some st # sts)"
  by (auto simp: os_parent_def split: list.splits)

lemma os_ok_raises [raises_intros]: "P e \<Longrightarrow> raises P (os_ok e v)"
  and os_parent_raises [raises_intros]: "P e \<Longrightarrow> raises P (os_parent e f)"
  by (auto simp: os_ok_def os_parent_def raises_def split: option.splits list.splits)

lemma read_descriptor_raises [raises_intros]:
  "P ThreatHintV2VerifiedPreflightUnavailableError \<Longrightarrow> raises P (read_descriptor sizes content limit)"
  "P ThreatHintV2PreflightError \<Longrightarrow> raises P (read_policy_descriptor sizes content)"
  unfolding read_descriptor_def read_policy_descriptor_def by (intro raises_intros; simp)+

text \<open>What a file must be for its bytes to be used.\<close>

definition owner_policy_file :: "nat \<Rightarrow> file_view \<Rightarrow> bytes \<Rightarrow> bool" where
  "owner_policy_file uid f c \<longleftrightarrow> fv_resolved_same f \<and> fv_content f = Some c \<and> 0 < length c \<and> length c \<le> 4096 \<and>
     (\<exists>parent sts before opened after_stat. fv_ancestors f = Some parent # sts \<and> is_safe_policy_parent uid parent \<and>
        fv_before f = Some before \<and> is_safe_policy_file uid before \<and> st_size before = length c \<and>
        fv_opened f = Some opened \<and> is_same_policy_file uid before opened \<and>
        fv_after f = Some after_stat \<and> is_same_policy_file uid before after_stat)"

lemma read_owner_policy_file_iff: "read_owner_policy_file uid f = Inr c \<longleftrightarrow> owner_policy_file uid f c"
proof -
  have "0 < st_size b \<and> st_size b \<le> 4096" if "is_safe_policy_file uid b" for b
    using that by (simp add: is_safe_policy_file_def MAX_PREFLIGHT_POLICY_BYTES_def)
  then show ?thesis
    unfolding read_owner_policy_file_def owner_policy_file_def
    by (fastforce simp: os_parent_iff read_policy_descriptor_iff split: if_split_asm)
qed

lemma read_owner_policy_file_error: "raises (\<lambda>e. e = ThreatHintV2PreflightError) (read_owner_policy_file uid f)"
  unfolding read_owner_policy_file_def by (intro raises_intros; simp)

lemma read_owner_file_error:
  "raises (\<lambda>e. e = (if un then ThreatHintV2VerifiedPreflightUnavailableError else ThreatHintV2VerifiedPreflightError))
     (read_owner_file uid path f limit oo un)"
  unfolding read_owner_file_def Let_def by (intro raises_intros raises_catch; simp)

lemma read_owner_file_content:
  assumes "read_owner_file uid path f limit oo un = Inr c"
  shows "fv_content f = Some c \<and> 0 < length c \<and> length c \<le> limit \<and> plain_path path \<and> fv_resolved_same f"
  using assms
  by (auto simp: read_owner_file_def Let_def catch_eq_Inr_raise read_descriptor_iff split: if_split_asm)

lemma check_ancestors_iff:
  "check_ancestors uid sts = Inr () \<longleftrightarrow> (\<forall>st \<in> set sts. \<exists>s. st = Some s \<and> is_safe_executable_ancestor uid s)"
  by (induction sts) auto

lemma check_ancestors_error:
  "raises (\<lambda>e. e = ThreatHintV2VerifiedPreflightUnavailableError) (check_ancestors uid sts)"
  by (induction sts) (auto intro!: raises_intros)

lemma executable_pinned:
  assumes "validate_and_hash_executable uid f expected = Inr c"
  shows "fv_content f = Some c \<and> sha256_hex c = expected \<and> 0 < length c \<and> fv_resolved_same f \<and>
    (\<forall>st \<in> set (fv_ancestors f). \<exists>s. st = Some s \<and> is_safe_executable_ancestor uid s)"
  using assms
  by (auto simp: validate_and_hash_executable_def Let_def read_descriptor_iff check_ancestors_iff split: if_split_asm)

lemma executable_error:
  "raises (\<lambda>e. e = ThreatHintV2VerifiedPreflightUnavailableError) (validate_and_hash_executable uid f expected)"
  unfolding validate_and_hash_executable_def Let_def
  by (intro raises_intros check_ancestors_error; simp)

end
