(* ===== verification/Threat_Hint_V2.thy ===== *)
theory Threat_Hint_V2
  imports Py_Document Threat_Observable
begin

text \<open>
  The canonical objects of a version 2 threat hint: the statement (\<open>threat_hint_v2_statement.py\<close>) and
  the proof envelope that carries a statement, its digest and opaque proof bytes
  (\<open>threat_hint_v2_proof_envelope.py\<close>).

  Each class keeps the bytes an object was parsed from in a weak dictionary; the entry of an object,
  if any, is the argument \<open>at_parse\<close> of the operations that read it. Objects are built by their parser
  only, so the tests of \<open>_validate_state\<close> on the class of an object or field hold by the record types.
\<close>

subsection \<open>Statements\<close>

definition MAX_CANONICAL_V2_STATEMENT_BYTES :: nat where
  "MAX_CANONICAL_V2_STATEMENT_BYTES = 1024"
definition V2_SCHEMA_VERSION :: int where
  "V2_SCHEMA_VERSION = 2"
definition CONFIDENCE_BPS_MAX :: int where
  "CONFIDENCE_BPS_MAX = 10000"
definition U64_MAX :: int where
  "U64_MAX = 2 ^ 64 - 1"
definition STATEMENT_DIGEST_DOMAIN :: bytes where
  "STATEMENT_DIGEST_DOMAIN = ascii_bytes (u ''prometheus-threat-hint-statement-v2'') @ [0]"

datatype ThreatHintV2DisclosureClass = DC_PUBLIC_AUTO_V1 | DC_REVIEW_REQUIRED_V1

fun disclosure_value :: "ThreatHintV2DisclosureClass \<Rightarrow> pystr" where
  "disclosure_value DC_PUBLIC_AUTO_V1 = u ''public_auto_v1''"
| "disclosure_value DC_REVIEW_REQUIRED_V1 = u ''review_required_v1''"

record ThreatHintV2Statement =
  vs_schema_version :: int
  vs_artifact_hash :: pystr
  vs_observable_commitment :: pystr
  vs_confidence_bps :: int
  vs_disclosure_class :: ThreatHintV2DisclosureClass
  vs_report_nonce :: pystr
  vs_observed_at :: int
  vs_network_id :: pystr

definition exact_int :: "pyval \<Rightarrow> pyexc + int" where
  "exact_int v = (if int_in 0 U64_MAX v then Inr (the_int v) else Inl ThreatHintV2StatementError)"

definition fixed_lower_hex :: "pyexc \<Rightarrow> pyval \<Rightarrow> pyexc + pystr" where
  "fixed_lower_hex e v = (if is_hex_val 64 v then Inr (the_str v) else Inl e)"

text \<open>\<open>[a-z0-9][a-z0-9-]{0,62}[a-z0-9]\<close>\<close>

definition is_network_text :: "pystr \<Rightarrow> bool" where
  "is_network_text s \<longleftrightarrow>
     2 \<le> length s \<and> length s \<le> 64 \<and> hd s \<noteq> 45 \<and> last s \<noteq> 45 \<and> list_all is_network_byte s"

definition v2_validate_network_id :: "pyval \<Rightarrow> pyexc + pystr" where
  "v2_validate_network_id v =
     (if is_str v \<and> is_network_text (the_str v) then Inr (the_str v) else Inl ThreatHintV2StatementError)"

text \<open>\<open>ThreatHintV2DisclosureClass(value)\<close> raises \<open>ValueError\<close> for any other value, \<open>TypeError\<close> for some
  unhashable ones; both are caught.\<close>

definition parse_disclosure_class :: "pyval \<Rightarrow> pyexc + ThreatHintV2DisclosureClass" where
  "parse_disclosure_class v =
     (if v = plit ''public_auto_v1'' then Inr DC_PUBLIC_AUTO_V1
      else if v = plit ''review_required_v1'' then Inr DC_REVIEW_REQUIRED_V1
      else Inl ThreatHintV2StatementError)"

definition statement_fields :: "string list" where
  "statement_fields =
     [''schema_version'', ''artifact_hash'', ''observable_commitment'', ''confidence_bps'',
      ''disclosure_class'', ''report_nonce'', ''observed_at'', ''network_id'']"

fun parse_statement_object :: "pyval \<Rightarrow> pyexc + ThreatHintV2Statement" where
  "parse_statement_object (PDict d) =
     (if dict_keys d \<noteq> map u statement_fields then Inl ThreatHintV2StatementError
      else rbind (exact_int (dict_at d ''schema_version'')) (\<lambda>schema_version.
           rbind (exact_int (dict_at d ''confidence_bps'')) (\<lambda>confidence_bps.
           rbind (exact_int (dict_at d ''observed_at'')) (\<lambda>observed_at.
           rbind (raise_if (schema_version \<noteq> V2_SCHEMA_VERSION \<or> confidence_bps < 1 \<or>
                            CONFIDENCE_BPS_MAX < confidence_bps \<or> observed_at < 1 \<or> U64_MAX < observed_at)
                    ThreatHintV2StatementError) (\<lambda>_.
           rbind (fixed_lower_hex ThreatHintV2StatementError (dict_at d ''artifact_hash'')) (\<lambda>artifact_hash.
           rbind (fixed_lower_hex ThreatHintV2StatementError (dict_at d ''observable_commitment'')) (\<lambda>commitment.
           rbind (fixed_lower_hex ThreatHintV2StatementError (dict_at d ''report_nonce'')) (\<lambda>report_nonce.
           rbind (parse_disclosure_class (dict_at d ''disclosure_class'')) (\<lambda>disclosure_class.
           rbind (v2_validate_network_id (dict_at d ''network_id'')) (\<lambda>network_id.
           Inr \<lparr>vs_schema_version = schema_version, vs_artifact_hash = artifact_hash,
                vs_observable_commitment = commitment, vs_confidence_bps = confidence_bps,
                vs_disclosure_class = disclosure_class, vs_report_nonce = report_nonce,
                vs_observed_at = observed_at, vs_network_id = network_id\<rparr>))))))))))"
| "parse_statement_object _ = Inl ThreatHintV2StatementError"

definition statement_validate_state :: "ThreatHintV2Statement \<Rightarrow> pyexc + unit" where
  "statement_validate_state s =
     raise_if (vs_schema_version s \<noteq> V2_SCHEMA_VERSION \<or>
               \<not> (1 \<le> vs_confidence_bps s \<and> vs_confidence_bps s \<le> CONFIDENCE_BPS_MAX) \<or>
               \<not> (1 \<le> vs_observed_at s \<and> vs_observed_at s \<le> U64_MAX) \<or>
               \<not> is_lower_hex 64 (vs_artifact_hash s) \<or> \<not> is_lower_hex 64 (vs_observable_commitment s) \<or>
               \<not> is_lower_hex 64 (vs_report_nonce s) \<or> \<not> is_network_text (vs_network_id s))
       ThreatHintV2StatementError"

definition statement_items :: "ThreatHintV2Statement \<Rightarrow> (pystr \<times> pyval) list" where
  "statement_items s =
     [(u ''schema_version'', PInt (vs_schema_version s)),
      (u ''artifact_hash'', PStr (vs_artifact_hash s)),
      (u ''observable_commitment'', PStr (vs_observable_commitment s)),
      (u ''confidence_bps'', PInt (vs_confidence_bps s)),
      (u ''disclosure_class'', PStr (disclosure_value (vs_disclosure_class s))),
      (u ''report_nonce'', PStr (vs_report_nonce s)),
      (u ''observed_at'', PInt (vs_observed_at s)),
      (u ''network_id'', PStr (vs_network_id s))]"

definition statement_canonical_bytes :: "bytes option \<Rightarrow> ThreatHintV2Statement \<Rightarrow> pyexc + bytes" where
  "statement_canonical_bytes at_parse s =
     (case at_parse of
        None \<Rightarrow> Inl ThreatHintV2StatementError
      | Some parsed \<Rightarrow>
          rbind (statement_validate_state s) (\<lambda>_.
          case compact_json (PDict (statement_items s)) of
            None \<Rightarrow> Inl UnicodeEncodeError
          | Some canonical \<Rightarrow>
              (if length canonical = 0 \<or> MAX_CANONICAL_V2_STATEMENT_BYTES < length canonical
               then Inl ThreatHintV2StatementError
               else if canonical \<noteq> parsed then Inl ThreatHintV2StatementError
               else Inr canonical)))"

definition parse_statement :: "py_env \<Rightarrow> bytes \<Rightarrow> pyval \<Rightarrow> pyexc + ThreatHintV2Statement" where
  "parse_statement E wire trusted_network_id =
     (if length wire = 0 \<or> MAX_CANONICAL_V2_STATEMENT_BYTES < length wire
      then Inl ThreatHintV2StatementError
      else rbind (v2_validate_network_id trusted_network_id) (\<lambda>_.
           rbind (catch (loads_utf8 E ThreatHintV2StatementError wire) is_value_error
                    (\<lambda>_. Inl ThreatHintV2StatementError)) (\<lambda>decoded.
           rbind (parse_statement_object decoded) (\<lambda>statement.
           if PStr (vs_network_id statement) \<noteq> trusted_network_id then Inl ThreatHintV2StatementError
           else rbind (statement_canonical_bytes (Some wire) statement) (\<lambda>canonical.
             if canonical \<noteq> wire then Inl ThreatHintV2StatementError else Inr statement)))))"

text \<open>The bytes hashed by \<open>statement_digest\<close>.\<close>

definition statement_preimage :: "bytes \<Rightarrow> bytes" where
  "statement_preimage canonical = STATEMENT_DIGEST_DOMAIN @ be_bytes 4 (length canonical) @ canonical"

definition statement_digest :: "bytes option \<Rightarrow> ThreatHintV2Statement \<Rightarrow> pyexc + bytes" where
  "statement_digest at_parse s =
     rbind (statement_canonical_bytes at_parse s) (\<lambda>canonical. Inr (sha256 (statement_preimage canonical)))"

subsection \<open>Proof envelopes\<close>

definition MAX_CANONICAL_V2_PROOF_ENVELOPE_BYTES :: nat where
  "MAX_CANONICAL_V2_PROOF_ENVELOPE_BYTES = 4096"
definition PROTOCOL_ID :: pystr where
  "PROTOCOL_ID = u ''/prometheus/threat-hint/2.0.0''"
definition RELATION_ID :: pystr where
  "RELATION_ID = u ''prometheus-threat-hint-v2''"
definition MIN_PROOF_BYTES :: nat where
  "MIN_PROOF_BYTES = 1"
definition MAX_PROOF_BYTES :: nat where
  "MAX_PROOF_BYTES = 1024"

text \<open>The statement object of an envelope stays registered with the bytes of its text.\<close>

record ThreatHintV2ProofEnvelope =
  pe_schema_version :: int
  pe_protocol_id :: pystr
  pe_relation_id :: pystr
  pe_statement :: pystr
  pe_statement_digest :: pystr
  pe_proof :: pystr
  pe_parsed_statement :: ThreatHintV2Statement

definition exact_schema_version :: "pyval \<Rightarrow> pyexc + int" where
  "exact_schema_version v =
     (if v = PInt V2_SCHEMA_VERSION then Inr V2_SCHEMA_VERSION else Inl ThreatHintV2ProofEnvelopeError)"

definition exact_identifier :: "pyval \<Rightarrow> pystr \<Rightarrow> pyexc + pystr" where
  "exact_identifier v expected =
     (if v = PStr expected then Inr expected else Inl ThreatHintV2ProofEnvelopeError)"

definition proof_hex :: "pyval \<Rightarrow> pyexc + pystr" where
  "proof_hex v =
     (case v of
        PStr s \<Rightarrow>
          (if length s mod 2 \<noteq> 0 \<or> \<not> list_all is_hex_char s then Inl ThreatHintV2ProofEnvelopeError
           else if \<not> (MIN_PROOF_BYTES \<le> length s div 2 \<and> length s div 2 \<le> MAX_PROOF_BYTES)
           then Inl ThreatHintV2ProofEnvelopeError
           else Inr s)
      | _ \<Rightarrow> Inl ThreatHintV2ProofEnvelopeError)"

definition envelope_fields :: "string list" where
  "envelope_fields =
     [''schema_version'', ''protocol_id'', ''relation_id'', ''statement'', ''statement_digest'', ''proof'']"

text \<open>\<open>statement.encode("utf-8")\<close> raises \<open>UnicodeEncodeError\<close> for a lone surrogate, which is not caught.\<close>

definition parse_envelope_statement :: "py_env \<Rightarrow> pystr \<Rightarrow> pyval \<Rightarrow> pyexc + ThreatHintV2Statement" where
  "parse_envelope_statement E statement trusted_network_id =
     (case utf8_encode statement of
        None \<Rightarrow> Inl UnicodeEncodeError
      | Some w \<Rightarrow> catch (parse_statement E w trusted_network_id) (\<lambda>e. e = ThreatHintV2StatementError)
                    (\<lambda>_. Inl ThreatHintV2ProofEnvelopeError))"

fun parse_envelope_object :: "py_env \<Rightarrow> pyval \<Rightarrow> pyval \<Rightarrow> pyexc + ThreatHintV2ProofEnvelope" where
  "parse_envelope_object E (PDict d) trusted_network_id =
     (if dict_keys d \<noteq> map u envelope_fields then Inl ThreatHintV2ProofEnvelopeError
      else rbind (exact_schema_version (dict_at d ''schema_version'')) (\<lambda>schema_version.
           rbind (exact_identifier (dict_at d ''protocol_id'') PROTOCOL_ID) (\<lambda>protocol_id.
           rbind (exact_identifier (dict_at d ''relation_id'') RELATION_ID) (\<lambda>relation_id.
           rbind (fixed_lower_hex ThreatHintV2ProofEnvelopeError (dict_at d ''statement_digest'')) (\<lambda>digest.
           rbind (proof_hex (dict_at d ''proof'')) (\<lambda>prf.
           if \<not> is_str (dict_at d ''statement'') then Inl ThreatHintV2ProofEnvelopeError
           else let statement = the_str (dict_at d ''statement'')
                in rbind (parse_envelope_statement E statement trusted_network_id) (\<lambda>parsed.
                   rbind (statement_digest (utf8_encode statement) parsed) (\<lambda>computed.
                   if hex_of_bytes computed \<noteq> digest then Inl ThreatHintV2ProofEnvelopeError
                   else Inr \<lparr>pe_schema_version = schema_version, pe_protocol_id = protocol_id,
                             pe_relation_id = relation_id, pe_statement = statement,
                             pe_statement_digest = digest, pe_proof = prf,
                             pe_parsed_statement = parsed\<rparr>))))))))"
| "parse_envelope_object E _ trusted_network_id = Inl ThreatHintV2ProofEnvelopeError"

definition envelope_validate_state :: "ThreatHintV2ProofEnvelope \<Rightarrow> pyexc + unit" where
  "envelope_validate_state e =
     rbind (exact_schema_version (PInt (pe_schema_version e))) (\<lambda>_.
     rbind (exact_identifier (PStr (pe_protocol_id e)) PROTOCOL_ID) (\<lambda>_.
     rbind (exact_identifier (PStr (pe_relation_id e)) RELATION_ID) (\<lambda>_.
     rbind (fixed_lower_hex ThreatHintV2ProofEnvelopeError (PStr (pe_statement_digest e))) (\<lambda>_.
     rbind (proof_hex (PStr (pe_proof e))) (\<lambda>_.
     rbind (statement_canonical_bytes (utf8_encode (pe_statement e)) (pe_parsed_statement e)) (\<lambda>canonical.
     rbind (raise_if (utf8_encode (pe_statement e) \<noteq> Some canonical) ThreatHintV2ProofEnvelopeError) (\<lambda>_.
     rbind (statement_digest (utf8_encode (pe_statement e)) (pe_parsed_statement e)) (\<lambda>digest.
     raise_if (hex_of_bytes digest \<noteq> pe_statement_digest e) ThreatHintV2ProofEnvelopeError))))))))"

definition envelope_items :: "ThreatHintV2ProofEnvelope \<Rightarrow> (pystr \<times> pyval) list" where
  "envelope_items e =
     [(u ''schema_version'', PInt (pe_schema_version e)),
      (u ''protocol_id'', PStr (pe_protocol_id e)),
      (u ''relation_id'', PStr (pe_relation_id e)),
      (u ''statement'', PStr (pe_statement e)),
      (u ''statement_digest'', PStr (pe_statement_digest e)),
      (u ''proof'', PStr (pe_proof e))]"

definition envelope_canonical_bytes :: "bytes option \<Rightarrow> ThreatHintV2ProofEnvelope \<Rightarrow> pyexc + bytes" where
  "envelope_canonical_bytes at_parse e =
     (case at_parse of
        None \<Rightarrow> Inl ThreatHintV2ProofEnvelopeError
      | Some parsed \<Rightarrow>
          rbind (envelope_validate_state e) (\<lambda>_.
          case compact_json (PDict (envelope_items e)) of
            None \<Rightarrow> Inl UnicodeEncodeError
          | Some canonical \<Rightarrow>
              (if length canonical = 0 \<or> MAX_CANONICAL_V2_PROOF_ENVELOPE_BYTES < length canonical
               then Inl ThreatHintV2ProofEnvelopeError
               else if canonical \<noteq> parsed then Inl ThreatHintV2ProofEnvelopeError
               else Inr canonical)))"

definition parse_envelope :: "py_env \<Rightarrow> bytes \<Rightarrow> pyval \<Rightarrow> pyexc + ThreatHintV2ProofEnvelope" where
  "parse_envelope E wire trusted_network_id =
     (if length wire = 0 \<or> MAX_CANONICAL_V2_PROOF_ENVELOPE_BYTES < length wire
      then Inl ThreatHintV2ProofEnvelopeError
      else if \<not> is_str trusted_network_id then Inl ThreatHintV2ProofEnvelopeError
      else rbind (catch (loads_utf8 E ThreatHintV2ProofEnvelopeError wire) is_value_error
                    (\<lambda>_. Inl ThreatHintV2ProofEnvelopeError)) (\<lambda>decoded.
           rbind (parse_envelope_object E decoded trusted_network_id) (\<lambda>envelope.
           rbind (envelope_canonical_bytes (Some wire) envelope) (\<lambda>canonical.
           if canonical \<noteq> wire then Inl ThreatHintV2ProofEnvelopeError else Inr envelope))))"

definition proof_bytes :: "bytes option \<Rightarrow> ThreatHintV2ProofEnvelope \<Rightarrow> pyexc + bytes" where
  "proof_bytes at_parse e =
     (if at_parse = None then Inl ThreatHintV2ProofEnvelopeError
      else rbind (envelope_validate_state e) (\<lambda>_. Inr (bytes_fromhex (pe_proof e))))"

subsection \<open>Canonical statements\<close>

definition valid_statement :: "ThreatHintV2Statement \<Rightarrow> bool" where
  "valid_statement s \<longleftrightarrow> vs_schema_version s = 2 \<and> 1 \<le> vs_confidence_bps s \<and> vs_confidence_bps s \<le> 10000 \<and>
     1 \<le> vs_observed_at s \<and> vs_observed_at s < 2 ^ 64 \<and> is_lower_hex 64 (vs_artifact_hash s) \<and>
     is_lower_hex 64 (vs_observable_commitment s) \<and> is_lower_hex 64 (vs_report_nonce s) \<and>
     is_network_text (vs_network_id s)"

lemma statement_validate_state_iff: "statement_validate_state s = Inr () \<longleftrightarrow> valid_statement s"
  by (auto simp: statement_validate_state_def valid_statement_def V2_SCHEMA_VERSION_def CONFIDENCE_BPS_MAX_def
      U64_MAX_def)

definition statement_wire :: "ThreatHintV2Statement \<Rightarrow> bytes" where
  "statement_wire s = ascii_json (PDict (statement_items s))"

definition statement_text :: "ThreatHintV2Statement \<Rightarrow> pystr" where
  "statement_text s = json_dumps False True (PDict (statement_items s))"

lemma is_network_text_printable: "is_network_text n \<Longrightarrow> list_all unescaped n \<and> length n \<le> 64"
  by (auto simp: is_network_text_def list_all_iff is_network_byte_def unescaped_def)

lemma disclosure_unescaped: "list_all unescaped (disclosure_value c) \<and> length (disclosure_value c) \<le> 18"
  by (cases c) simp_all

lemma statement_doc:
  assumes "valid_statement s"
  shows "doc (statement_items s)"
  using assms disclosure_unescaped [of "vs_disclosure_class s"]
  by (auto simp: statement_items_def doc_Cons valid_statement_def
      intro!: printable_unescaped dest!: hex_unescaped is_network_text_printable)

lemma statement_length:
  assumes "valid_statement s"
  shows "length (statement_wire s) \<le> 489"
  using doc_length [OF statement_doc [OF assms]] assms disclosure_unescaped [of "vs_disclosure_class s"]
  by (auto simp: statement_wire_def statement_items_def valid_statement_def length_quote_unescaped
      dest!: hex_unescaped is_network_text_printable)

lemma statement_canonical_bytes_iff:
  "statement_canonical_bytes reg s = Inr w \<longleftrightarrow> valid_statement s \<and> w = statement_wire s \<and> reg = Some w"
proof (cases "valid_statement s")
  case True
  have "compact_json (PDict (statement_items s)) = Some (statement_wire s)"
    using doc_compact [OF statement_doc [OF True]] by (simp add: statement_wire_def)
  moreover have "statement_wire s \<noteq> []" by (simp add: statement_wire_def doc_nonempty)
  moreover have "statement_validate_state s = Inr ()" using True by (simp add: statement_validate_state_iff)
  ultimately show ?thesis using True statement_length [OF True]
    by (auto simp: statement_canonical_bytes_def MAX_CANONICAL_V2_STATEMENT_BYTES_def split: option.splits)
next
  case False
  then have "statement_validate_state s \<noteq> Inr ()" by (simp add: statement_validate_state_iff)
  with False show ?thesis by (auto simp: statement_canonical_bytes_def split: option.splits)
qed

lemma disclosure_class_value: "parse_disclosure_class (PStr (disclosure_value c)) = Inr c"
  by (cases c) (simp_all add: parse_disclosure_class_def)

lemma parse_statement_items:
  assumes "valid_statement s"
  shows "parse_statement_object (PDict (statement_items s)) = Inr s"
  using assms
  by (simp add: statement_items_def statement_fields_def exact_int_def fixed_lower_hex_def v2_validate_network_id_def
      valid_statement_def V2_SCHEMA_VERSION_def CONFIDENCE_BPS_MAX_def U64_MAX_def disclosure_class_value)

lemma parse_statement_enc:
  "parse_statement E w tn = Inr s \<Longrightarrow> valid_statement s \<and> w = statement_wire s \<and> tn = PStr (vs_network_id s)"
  by (auto simp: parse_statement_def statement_canonical_bytes_iff split: if_splits)

lemma parse_statement_dec:
  assumes "valid_statement s" and "1 \<le> json_depth E"
  shows "parse_statement E (statement_wire s) (PStr (vs_network_id s)) = Inr s"
proof -
  have "loads_utf8 E ThreatHintV2StatementError (statement_wire s) = Inr (PDict (statement_items s))"
    unfolding statement_wire_def by (intro doc_loads statement_doc assms)
  moreover have "statement_canonical_bytes (Some (statement_wire s)) s = Inr (statement_wire s)"
    using assms by (simp add: statement_canonical_bytes_iff)
  moreover have "v2_validate_network_id (PStr (vs_network_id s)) = Inr (vs_network_id s)"
    using assms(1) by (simp add: v2_validate_network_id_def valid_statement_def)
  moreover have "statement_wire s \<noteq> []" by (simp add: statement_wire_def doc_nonempty)
  ultimately show ?thesis using statement_length [OF assms(1)] parse_statement_items [OF assms(1)]
    by (simp add: parse_statement_def MAX_CANONICAL_V2_STATEMENT_BYTES_def)
qed

lemma parse_statement_iff:
  assumes "1 \<le> json_depth E"
  shows "parse_statement E w tn = Inr s \<longleftrightarrow>
    valid_statement s \<and> w = statement_wire s \<and> tn = PStr (vs_network_id s)"
  using parse_statement_enc parse_statement_dec [OF _ assms] by blast

interpretation sc: canonical_codec statement_wire "\<lambda>w. parse_statement E w (PStr n)"
  "\<lambda>s. valid_statement s \<and> vs_network_id s = n \<and> 1 \<le> json_depth E" for E n
  by unfold_locales (auto dest: parse_statement_enc simp: parse_statement_iff)

lemma statement_text_printable: "valid_statement s \<Longrightarrow> printable (statement_text s)"
  unfolding statement_text_def by (intro doc_printable statement_doc)

lemma statement_text_utf8: "valid_statement s \<Longrightarrow> utf8_encode (statement_text s) = Some (statement_wire s)"
  using json_dumps_ascii(1) [OF doc_plain [OF statement_doc [of s]]]
  by (simp add: statement_text_def statement_wire_def ascii_json_def utf8_encode_ascii)

lemma statement_text_length: "valid_statement s \<Longrightarrow> length (statement_text s) \<le> 489"
  using statement_length [of s] by (simp add: statement_text_def statement_wire_def ascii_json_def)

lemma statement_digest_iff:
  "statement_digest reg s = Inr d \<longleftrightarrow>
     valid_statement s \<and> reg = Some (statement_wire s) \<and> d = sha256 (statement_preimage (statement_wire s))"
  by (auto simp: statement_digest_def statement_canonical_bytes_iff)

lemma statement_preimage_inj: "statement_preimage a = statement_preimage b \<Longrightarrow> a = b"
  by (simp add: statement_preimage_def)

subsection \<open>Canonical envelopes\<close>

definition valid_proof_hex :: "pystr \<Rightarrow> bool" where
  "valid_proof_hex p \<longleftrightarrow> list_all is_hex_char p \<and> even (length p) \<and> 2 \<le> length p \<and> length p \<le> 2048"

lemma proof_hex_iff: "proof_hex v = Inr p \<longleftrightarrow> v = PStr p \<and> valid_proof_hex p"
  by (cases v)
     (auto simp: proof_hex_def valid_proof_hex_def MIN_PROOF_BYTES_def MAX_PROOF_BYTES_def even_iff_mod_2_eq_zero
       elim!: evenE split: if_splits)

definition valid_envelope :: "ThreatHintV2ProofEnvelope \<Rightarrow> bool" where
  "valid_envelope e \<longleftrightarrow> pe_schema_version e = 2 \<and> pe_protocol_id e = PROTOCOL_ID \<and> pe_relation_id e = RELATION_ID \<and>
     valid_statement (pe_parsed_statement e) \<and> pe_statement e = statement_text (pe_parsed_statement e) \<and>
     pe_statement_digest e = sha256_hex (statement_preimage (statement_wire (pe_parsed_statement e))) \<and>
     valid_proof_hex (pe_proof e)"

lemma utf8_encode_inj: "utf8_encode s = Some w \<Longrightarrow> utf8_encode t = Some w \<Longrightarrow> s = t"
  by (metis option.inject utf8_decode_encode)

lemma statement_text_unique:
  "valid_statement s \<Longrightarrow> utf8_encode t = Some (statement_wire s) \<longleftrightarrow> t = statement_text s"
  using statement_text_utf8 utf8_encode_inj by blast

lemmas envelope_field_defs =
  exact_schema_version_def exact_identifier_def fixed_lower_hex_def V2_SCHEMA_VERSION_def

lemma envelope_validate_state_iff: "envelope_validate_state e = Inr () \<longleftrightarrow> valid_envelope e"
  by (auto simp: envelope_validate_state_def valid_envelope_def envelope_field_defs proof_hex_iff
      statement_canonical_bytes_iff statement_digest_iff statement_text_unique sha256_hex_def [symmetric]
      split: if_splits)

definition envelope_wire :: "ThreatHintV2ProofEnvelope \<Rightarrow> bytes" where
  "envelope_wire e = ascii_json (PDict (envelope_items e))"

lemma protocol_ids_unescaped: "list_all unescaped PROTOCOL_ID" "list_all unescaped RELATION_ID"
  by (simp_all add: PROTOCOL_ID_def RELATION_ID_def)

lemma valid_proof_hex_unescaped: "valid_proof_hex p \<Longrightarrow> list_all unescaped p \<and> length p \<le> 2048"
  by (auto simp: valid_proof_hex_def list_all_iff intro: unescaped_hex)

lemma envelope_doc:
  assumes "valid_envelope e"
  shows "doc (envelope_items e)"
  using assms protocol_ids_unescaped hex_unescaped [OF sha256_hex_lower]
  by (auto simp: envelope_items_def doc_Cons valid_envelope_def statement_text_printable
      intro!: printable_unescaped dest: valid_proof_hex_unescaped)

lemma envelope_length:
  assumes "valid_envelope e"
  shows "length (envelope_wire e) \<le> 3266"
proof -
  let ?s = "statement_text (pe_parsed_statement e)"
  have "length (json_quote True ?s) \<le> 980"
    using printable_quote_length [OF statement_text_printable, of "pe_parsed_statement e" True]
      statement_text_length [of "pe_parsed_statement e"] assms by (simp add: valid_envelope_def)
  moreover have "length (json_quote True (pe_proof e)) \<le> 2050"
    using assms by (auto simp: valid_envelope_def length_quote_unescaped dest!: valid_proof_hex_unescaped)
  moreover have "length (json_quote True PROTOCOL_ID) = 31" "length (json_quote True RELATION_ID) = 27"
    by (simp_all add: length_quote_unescaped protocol_ids_unescaped) (simp_all add: PROTOCOL_ID_def RELATION_ID_def)
  moreover have "length (json_quote True (sha256_hex m)) = 66" for m
    using hex_unescaped [OF sha256_hex_lower [of m]] by (simp add: length_quote_unescaped)
  ultimately show ?thesis using doc_length [OF envelope_doc [OF assms]] assms
    by (simp add: envelope_wire_def envelope_items_def valid_envelope_def length_quote_unescaped)
qed

lemma envelope_canonical_bytes_iff:
  "envelope_canonical_bytes reg e = Inr w \<longleftrightarrow> valid_envelope e \<and> w = envelope_wire e \<and> reg = Some w"
proof (cases "valid_envelope e")
  case True
  have "compact_json (PDict (envelope_items e)) = Some (envelope_wire e)"
    using doc_compact [OF envelope_doc [OF True]] by (simp add: envelope_wire_def)
  moreover have "envelope_wire e \<noteq> []" by (simp add: envelope_wire_def doc_nonempty)
  moreover have "envelope_validate_state e = Inr ()" using True by (simp add: envelope_validate_state_iff)
  ultimately show ?thesis using True envelope_length [OF True]
    by (auto simp: envelope_canonical_bytes_def MAX_CANONICAL_V2_PROOF_ENVELOPE_BYTES_def split: option.splits)
next
  case False
  then have "envelope_validate_state e \<noteq> Inr ()" by (simp add: envelope_validate_state_iff)
  with False show ?thesis by (auto simp: envelope_canonical_bytes_def split: option.splits)
qed

lemma parse_envelope_items:
  assumes "valid_envelope e" and "1 \<le> json_depth E"
  shows "parse_envelope_object E (PDict (envelope_items e)) (PStr (vs_network_id (pe_parsed_statement e))) = Inr e"
proof -
  let ?s = "pe_parsed_statement e"
  have v: "valid_statement ?s" using assms(1) by (simp add: valid_envelope_def)
  have "parse_envelope_statement E (statement_text ?s) (PStr (vs_network_id ?s)) = Inr ?s"
    using v assms(2) by (simp add: parse_envelope_statement_def statement_text_utf8 parse_statement_dec)
  moreover have "statement_digest (utf8_encode (statement_text ?s)) ?s = Inr (sha256 (statement_preimage (statement_wire ?s)))"
    using v by (simp add: statement_digest_iff statement_text_utf8)
  moreover have "proof_hex (PStr (pe_proof e)) = Inr (pe_proof e)"
    using assms(1) by (simp add: proof_hex_iff valid_envelope_def)
  ultimately show ?thesis using assms(1)
    by (simp add: envelope_items_def envelope_fields_def envelope_field_defs valid_envelope_def Let_def
        sha256_hex_def [symmetric])
qed

lemma parse_envelope_enc:
  assumes "parse_envelope E w tn = Inr e"
  shows "valid_envelope e \<and> w = envelope_wire e \<and> tn = PStr (vs_network_id (pe_parsed_statement e))"
proof -
  obtain d where d: "parse_envelope_object E d tn = Inr e" and c: "envelope_canonical_bytes (Some w) e = Inr w"
    using assms by (auto simp: parse_envelope_def split: if_splits)
  obtain t where t: "parse_envelope_statement E t tn = Inr (pe_parsed_statement e)"
    using d by (cases d) (auto simp: Let_def split: if_splits)
  then obtain v where "parse_statement E v tn = Inr (pe_parsed_statement e)"
    by (auto simp: parse_envelope_statement_def catch_eq_Inr_raise split: option.splits)
  then show ?thesis using c by (auto simp: envelope_canonical_bytes_iff dest: parse_statement_enc)
qed

lemma parse_envelope_dec:
  assumes "valid_envelope e" and "1 \<le> json_depth E"
  shows "parse_envelope E (envelope_wire e) (PStr (vs_network_id (pe_parsed_statement e))) = Inr e"
proof -
  have "loads_utf8 E ThreatHintV2ProofEnvelopeError (envelope_wire e) = Inr (PDict (envelope_items e))"
    unfolding envelope_wire_def by (intro doc_loads envelope_doc assms)
  moreover have "envelope_canonical_bytes (Some (envelope_wire e)) e = Inr (envelope_wire e)"
    using assms by (simp add: envelope_canonical_bytes_iff)
  moreover have "envelope_wire e \<noteq> []" by (simp add: envelope_wire_def doc_nonempty)
  ultimately show ?thesis using envelope_length [OF assms(1)] parse_envelope_items [OF assms]
    by (simp add: parse_envelope_def MAX_CANONICAL_V2_PROOF_ENVELOPE_BYTES_def)
qed

interpretation ec: canonical_codec envelope_wire "\<lambda>w. parse_envelope E w (PStr n)"
  "\<lambda>e. valid_envelope e \<and> vs_network_id (pe_parsed_statement e) = n \<and> 1 \<le> json_depth E" for E n
  by unfold_locales (auto simp: parse_envelope_dec dest: parse_envelope_enc)

text \<open>Every statement and proof has one envelope.\<close>

definition envelope_of :: "ThreatHintV2Statement \<Rightarrow> pystr \<Rightarrow> ThreatHintV2ProofEnvelope" where
  "envelope_of s p =
     \<lparr>pe_schema_version = 2, pe_protocol_id = PROTOCOL_ID, pe_relation_id = RELATION_ID,
      pe_statement = statement_text s, pe_statement_digest = sha256_hex (statement_preimage (statement_wire s)),
      pe_proof = p, pe_parsed_statement = s\<rparr>"

lemma valid_envelope_of: "valid_envelope (envelope_of s p) \<longleftrightarrow> valid_statement s \<and> valid_proof_hex p"
  by (auto simp: valid_envelope_def envelope_of_def)

lemma valid_envelope_iff:
  "valid_envelope e \<longleftrightarrow> valid_statement (pe_parsed_statement e) \<and> valid_proof_hex (pe_proof e) \<and>
     e = envelope_of (pe_parsed_statement e) (pe_proof e)"
  by (cases e) (auto simp: valid_envelope_def envelope_of_def)

subsection \<open>A concrete statement\<close>

definition ex_statement :: ThreatHintV2Statement where
  "ex_statement =
     \<lparr>vs_schema_version = 2, vs_artifact_hash = replicate 64 97, vs_observable_commitment = replicate 64 98,
      vs_confidence_bps = 9100, vs_disclosure_class = DC_PUBLIC_AUTO_V1, vs_report_nonce = replicate 64 99,
      vs_observed_at = 1700000000000, vs_network_id = u ''mainnet''\<rparr>"

lemma ex_statement_valid: "valid_statement ex_statement"
  by (simp add: ex_statement_def valid_statement_def is_lower_hex_def list_all_iff is_hex_char_def)
     (simp add: is_network_text_def u_def is_network_byte_def)

lemma ex_proof_valid: "valid_proof_hex (replicate 64 97)"
  by (simp add: valid_proof_hex_def list_all_iff is_hex_char_def)

subsection \<open>Properties\<close>

text \<open>The statement parser accepts a byte string exactly when it is the canonical bytes of the
  statement it returns and the statement names the trusted network; every statement whose fields pass
  validation has canonical bytes, at most 489 of the 1024 allowed.\<close>

lemma statement_roundtrip:
  assumes "1 \<le> json_depth E"
  shows "(parse_statement E w tn = Inr s \<longleftrightarrow>
      statement_canonical_bytes (Some w) s = Inr w \<and> tn = PStr (vs_network_id s)) \<and>
    (statement_validate_state s = Inr () \<longrightarrow>
      (\<exists>w. statement_canonical_bytes (Some w) s = Inr w \<and> length w \<le> 489))"
  using parse_statement_iff [OF assms] statement_length
  by (auto simp: statement_canonical_bytes_iff statement_validate_state_iff)

text \<open>The envelope parser accepts a byte string exactly when it is the canonical bytes of the
  envelope it returns and the embedded statement names the trusted network. The embedded statement is
  itself canonical, and the digest is that of the statement. Every valid statement with a proof of 1 to 1024
  bytes is carried by an accepted envelope of fewer than 4096 bytes, which gives the proof bytes back.\<close>

lemma envelope_roundtrip:
  assumes "1 \<le> json_depth E"
  shows "(parse_envelope E w tn = Inr e \<longleftrightarrow>
      envelope_canonical_bytes (Some w) e = Inr w \<and> tn = PStr (vs_network_id (pe_parsed_statement e))) \<and>
    (parse_envelope E w tn = Inr e \<longrightarrow>
      (\<exists>ws d. utf8_encode (pe_statement e) = Some ws \<and> parse_statement E ws tn = Inr (pe_parsed_statement e) \<and>
        statement_digest (Some ws) (pe_parsed_statement e) = Inr d \<and> pe_statement_digest e = hex_of_bytes d)) \<and>
    (statement_validate_state s = Inr () \<and> 1 \<le> length pf \<and> length pf \<le> 1024 \<longrightarrow>
      (\<exists>w e. parse_envelope E w (PStr (vs_network_id s)) = Inr e \<and> pe_parsed_statement e = s \<and>
        proof_bytes (Some w) e = Inr pf \<and> length w < 4096))"
proof (intro conjI impI)
  show "parse_envelope E w tn = Inr e \<longleftrightarrow>
      envelope_canonical_bytes (Some w) e = Inr w \<and> tn = PStr (vs_network_id (pe_parsed_statement e))"
    using parse_envelope_enc [of E w tn e] parse_envelope_dec [OF _ assms, of e]
    by (auto simp: envelope_canonical_bytes_iff)
next
  assume "parse_envelope E w tn = Inr e"
  then show "\<exists>ws d. utf8_encode (pe_statement e) = Some ws \<and> parse_statement E ws tn = Inr (pe_parsed_statement e) \<and>
        statement_digest (Some ws) (pe_parsed_statement e) = Inr d \<and> pe_statement_digest e = hex_of_bytes d"
    using parse_envelope_enc [of E w tn e]
    by (auto simp: valid_envelope_def statement_text_utf8 parse_statement_iff [OF assms] statement_digest_iff sha256_hex_def)
next
  assume a: "statement_validate_state s = Inr () \<and> 1 \<le> length pf \<and> length pf \<le> 1024"
  let ?e = "envelope_of s (hex_of_bytes pf)"
  have v: "valid_envelope ?e"
    using a hex_of_bytes_chars [of pf]
    by (simp add: valid_envelope_of valid_proof_hex_def statement_validate_state_iff)
  then have "proof_bytes (Some (envelope_wire ?e)) ?e = Inr pf"
    by (simp add: proof_bytes_def envelope_validate_state_iff) (simp add: envelope_of_def)
  moreover have "pe_parsed_statement ?e = s" by (simp add: envelope_of_def)
  ultimately show "\<exists>w e. parse_envelope E w (PStr (vs_network_id s)) = Inr e \<and> pe_parsed_statement e = s \<and>
        proof_bytes (Some w) e = Inr pf \<and> length w < 4096"
    using parse_envelope_dec [OF v assms] envelope_length [OF v]
    by (intro exI [of _ "envelope_wire ?e"] exI [of _ ?e]) auto
qed

text \<open>The digest in an envelope binds the statement: two accepted envelopes with the same digest
  carry the same statement, or the framed bytes of their statements are a SHA-256 collision.\<close>

lemma envelope_digest_binding:
  assumes "parse_envelope E w tn = Inr e" and "parse_envelope E' w' tn' = Inr e'"
    and "pe_statement_digest e = pe_statement_digest e'"
  shows "(pe_parsed_statement e = pe_parsed_statement e' \<and> tn = tn') \<or>
    (\<exists>ws ws'. utf8_encode (pe_statement e) = Some ws \<and> utf8_encode (pe_statement e') = Some ws' \<and>
       sha256_collision (statement_preimage ws) (statement_preimage ws'))"
proof -
  let ?s = "pe_parsed_statement e" and ?t = "pe_parsed_statement e'"
  have v: "valid_statement ?s" "valid_statement ?t" "tn = PStr (vs_network_id ?s)" "tn' = PStr (vs_network_id ?t)"
    "pe_statement e = statement_text ?s" "pe_statement e' = statement_text ?t"
    and eq: "sha256 (statement_preimage (statement_wire ?s)) = sha256 (statement_preimage (statement_wire ?t))"
    using assms parse_envelope_enc [OF assms(1)] parse_envelope_enc [OF assms(2)] by (auto simp: valid_envelope_def)
  show ?thesis
  proof (cases "statement_wire ?s = statement_wire ?t")
    case True
    then have "statement_items ?s = statement_items ?t"
      using v(1,2) by (intro doc_inj statement_doc) (simp_all add: statement_wire_def)
    then have "?s = ?t"
      using parse_statement_items [OF v(1)] parse_statement_items [OF v(2)] by simp
    then show ?thesis using v(3,4) by simp
  next
    case False
    then have "sha256_collision (statement_preimage (statement_wire ?s)) (statement_preimage (statement_wire ?t))"
      using eq statement_preimage_inj by (auto simp: sha256_collision_def)
    then show ?thesis using v by (simp add: statement_text_utf8)
  qed
qed

end
