(* ===== verification/Relation_Manifest.thy ===== *)
theory Relation_Manifest
  imports Threat_Hint_V2
begin

text \<open>
  Model of \<open>jaeger/relation_manifest_v2.py\<close>, the canonical manifest that pins relation, proof system and key
  hashes, and of \<open>jaeger/threat_hint_v2_proof_binding.py\<close>, which binds a manifest to a proof envelope.
  As for statements and envelopes, the bytes an object was parsed from are the argument \<open>at_parse\<close>.
\<close>

subsection \<open>Manifests\<close>

definition MAX_CANONICAL_V2_MANIFEST_BYTES :: nat where
  "MAX_CANONICAL_V2_MANIFEST_BYTES = 4096"
definition STATEMENT_DIGEST_DOMAIN_HEX :: pystr where
  "STATEMENT_DIGEST_DOMAIN_HEX = u ''70726f6d6574686575732d7468726561742d68696e742d73746174656d656e742d763200''"
definition PROOF_SYSTEM :: pystr where
  "PROOF_SYSTEM = u ''groth16_bn254_kip16''"
definition KIP16_TAG :: int where
  "KIP16_TAG = 32"
definition PUBLIC_INPUT_ENCODING :: pystr where
  "PUBLIC_INPUT_ENCODING = u ''sha256_split_u128_bn254_v2''"
definition PUBLIC_INPUT_COUNT :: int where
  "PUBLIC_INPUT_COUNT = 2"
definition MAX_RELATION_SOURCE_BYTES :: int where
  "MAX_RELATION_SOURCE_BYTES = 1048576"
definition MAX_PROVING_KEY_BYTES :: int where
  "MAX_PROVING_KEY_BYTES = 1073741824"
definition MAX_VERIFYING_KEY_BYTES :: int where
  "MAX_VERIFYING_KEY_BYTES = 65536"
definition KIP16_STATUS_COMMIT :: pystr where
  "KIP16_STATUS_COMMIT = u ''e4ae2332117b5cb68bd6188e065ef885b6d17939''"
definition RUSTY_KASPA_TAG :: pystr where
  "RUSTY_KASPA_TAG = u ''v2.0.1''"
definition RUSTY_KASPA_COMMIT :: pystr where
  "RUSTY_KASPA_COMMIT = u ''cfafeb4c093fa37a303f1b9f19c58f986b870ce3''"
definition ARKWORKS_VERSION :: pystr where
  "ARKWORKS_VERSION = u ''0.6.0''"

record RelationManifestV2 =
  rm_schema_version :: int
  rm_protocol_id :: pystr
  rm_relation_id :: pystr
  rm_statement_digest_domain_hex :: pystr
  rm_proof_system :: pystr
  rm_kip16_tag :: int
  rm_public_input_encoding :: pystr
  rm_public_input_count :: int
  rm_network_id :: pystr
  rm_relation_source_bytes :: int
  rm_relation_source_sha256 :: pystr
  rm_proving_key_bytes :: int
  rm_proving_key_sha256 :: pystr
  rm_verifying_key_bytes :: int
  rm_verifying_key_sha256 :: pystr
  rm_kip16_status_commit :: pystr
  rm_rusty_kaspa_tag :: pystr
  rm_rusty_kaspa_commit :: pystr
  rm_arkworks_version :: pystr

definition manifest_exact_int :: "pyval \<Rightarrow> pyexc + int" where
  "manifest_exact_int v = (if int_in 0 U64_MAX v then Inr (the_int v) else Inl RelationManifestV2Error)"

definition bounded_int :: "pyval \<Rightarrow> int \<Rightarrow> pyexc + int" where
  "bounded_int v minimum =
     rbind (manifest_exact_int v) (\<lambda>result. if result < minimum then Inl RelationManifestV2Error else Inr result)"

definition exact_string :: "pyval \<Rightarrow> pystr \<Rightarrow> pyexc + pystr" where
  "exact_string v expected = (if v = PStr expected then Inr expected else Inl RelationManifestV2Error)"

text \<open>A non-zero digest in lower-case hexadecimal.\<close>

definition is_anchor :: "pystr \<Rightarrow> bool" where
  "is_anchor s \<longleftrightarrow> is_lower_hex 64 s \<and> list_ex (\<lambda>c. c \<noteq> 48) s"

definition lower_hex_anchor :: "pyval \<Rightarrow> pyexc + pystr" where
  "lower_hex_anchor v =
     (if is_str v \<and> is_anchor (the_str v) then Inr (the_str v) else Inl RelationManifestV2Error)"

definition manifest_validate_network_id :: "pyval \<Rightarrow> pyexc + pystr" where
  "manifest_validate_network_id v =
     (if is_str v \<and> is_network_text (the_str v) then Inr (the_str v) else Inl RelationManifestV2Error)"

definition manifest_fields :: "string list" where
  "manifest_fields =
     [''schema_version'', ''protocol_id'', ''relation_id'', ''statement_digest_domain_hex'', ''proof_system'',
      ''kip16_tag'', ''public_input_encoding'', ''public_input_count'', ''network_id'',
      ''relation_source_bytes'', ''relation_source_sha256'', ''proving_key_bytes'', ''proving_key_sha256'',
      ''verifying_key_bytes'', ''verifying_key_sha256'', ''kip16_status_commit'', ''rusty_kaspa_tag'',
      ''rusty_kaspa_commit'', ''arkworks_version'']"

fun parse_manifest_object :: "pyval \<Rightarrow> pyexc + RelationManifestV2" where
  "parse_manifest_object (PDict d) =
     (if dict_keys d \<noteq> map u manifest_fields then Inl RelationManifestV2Error
      else rbind (manifest_exact_int (dict_at d ''schema_version'')) (\<lambda>schema_version.
           rbind (manifest_exact_int (dict_at d ''kip16_tag'')) (\<lambda>kip16_tag.
           rbind (manifest_exact_int (dict_at d ''public_input_count'')) (\<lambda>public_input_count.
           rbind (bounded_int (dict_at d ''relation_source_bytes'') 1) (\<lambda>relation_source_bytes.
           rbind (bounded_int (dict_at d ''proving_key_bytes'') 1) (\<lambda>proving_key_bytes.
           rbind (bounded_int (dict_at d ''verifying_key_bytes'') 1) (\<lambda>verifying_key_bytes.
           rbind (raise_if (schema_version \<noteq> V2_SCHEMA_VERSION \<or> kip16_tag \<noteq> KIP16_TAG \<or>
                            public_input_count \<noteq> PUBLIC_INPUT_COUNT) RelationManifestV2Error) (\<lambda>_.
           rbind (raise_if (MAX_RELATION_SOURCE_BYTES < relation_source_bytes \<or>
                            MAX_PROVING_KEY_BYTES < proving_key_bytes \<or>
                            MAX_VERIFYING_KEY_BYTES < verifying_key_bytes) RelationManifestV2Error) (\<lambda>_.
           rbind (exact_string (dict_at d ''protocol_id'') PROTOCOL_ID) (\<lambda>protocol_id.
           rbind (exact_string (dict_at d ''relation_id'') RELATION_ID) (\<lambda>relation_id.
           rbind (exact_string (dict_at d ''statement_digest_domain_hex'') STATEMENT_DIGEST_DOMAIN_HEX) (\<lambda>domain_hex.
           rbind (exact_string (dict_at d ''proof_system'') PROOF_SYSTEM) (\<lambda>proof_system.
           rbind (exact_string (dict_at d ''public_input_encoding'') PUBLIC_INPUT_ENCODING) (\<lambda>public_input_encoding.
           rbind (lower_hex_anchor (dict_at d ''relation_source_sha256'')) (\<lambda>relation_source_sha256.
           rbind (lower_hex_anchor (dict_at d ''proving_key_sha256'')) (\<lambda>proving_key_sha256.
           rbind (lower_hex_anchor (dict_at d ''verifying_key_sha256'')) (\<lambda>verifying_key_sha256.
           rbind (exact_string (dict_at d ''kip16_status_commit'') KIP16_STATUS_COMMIT) (\<lambda>kip16_status_commit.
           rbind (exact_string (dict_at d ''rusty_kaspa_tag'') RUSTY_KASPA_TAG) (\<lambda>rusty_kaspa_tag.
           rbind (exact_string (dict_at d ''rusty_kaspa_commit'') RUSTY_KASPA_COMMIT) (\<lambda>rusty_kaspa_commit.
           rbind (exact_string (dict_at d ''arkworks_version'') ARKWORKS_VERSION) (\<lambda>arkworks_version.
           rbind (manifest_validate_network_id (dict_at d ''network_id'')) (\<lambda>network_id.
           Inr \<lparr>rm_schema_version = schema_version, rm_protocol_id = protocol_id, rm_relation_id = relation_id,
                rm_statement_digest_domain_hex = domain_hex, rm_proof_system = proof_system,
                rm_kip16_tag = kip16_tag, rm_public_input_encoding = public_input_encoding,
                rm_public_input_count = public_input_count, rm_network_id = network_id,
                rm_relation_source_bytes = relation_source_bytes, rm_relation_source_sha256 = relation_source_sha256,
                rm_proving_key_bytes = proving_key_bytes, rm_proving_key_sha256 = proving_key_sha256,
                rm_verifying_key_bytes = verifying_key_bytes, rm_verifying_key_sha256 = verifying_key_sha256,
                rm_kip16_status_commit = kip16_status_commit, rm_rusty_kaspa_tag = rusty_kaspa_tag,
                rm_rusty_kaspa_commit = rusty_kaspa_commit,
                rm_arkworks_version = arkworks_version\<rparr>))))))))))))))))))))))"
| "parse_manifest_object _ = Inl RelationManifestV2Error"

definition manifest_validate_state :: "RelationManifestV2 \<Rightarrow> pyexc + unit" where
  "manifest_validate_state m =
     rbind (raise_if (rm_schema_version m \<noteq> V2_SCHEMA_VERSION) RelationManifestV2Error) (\<lambda>_.
     rbind (raise_if (rm_kip16_tag m \<noteq> KIP16_TAG) RelationManifestV2Error) (\<lambda>_.
     rbind (raise_if (rm_public_input_count m \<noteq> PUBLIC_INPUT_COUNT) RelationManifestV2Error) (\<lambda>_.
     rbind (bounded_int (PInt (rm_relation_source_bytes m)) 1) (\<lambda>_.
     rbind (bounded_int (PInt (rm_proving_key_bytes m)) 1) (\<lambda>_.
     rbind (bounded_int (PInt (rm_verifying_key_bytes m)) 1) (\<lambda>_.
     rbind (raise_if (MAX_RELATION_SOURCE_BYTES < rm_relation_source_bytes m \<or>
                      MAX_PROVING_KEY_BYTES < rm_proving_key_bytes m \<or>
                      MAX_VERIFYING_KEY_BYTES < rm_verifying_key_bytes m) RelationManifestV2Error) (\<lambda>_.
     rbind (exact_string (PStr (rm_protocol_id m)) PROTOCOL_ID) (\<lambda>_.
     rbind (exact_string (PStr (rm_relation_id m)) RELATION_ID) (\<lambda>_.
     rbind (exact_string (PStr (rm_statement_digest_domain_hex m)) STATEMENT_DIGEST_DOMAIN_HEX) (\<lambda>_.
     rbind (exact_string (PStr (rm_proof_system m)) PROOF_SYSTEM) (\<lambda>_.
     rbind (exact_string (PStr (rm_public_input_encoding m)) PUBLIC_INPUT_ENCODING) (\<lambda>_.
     rbind (lower_hex_anchor (PStr (rm_relation_source_sha256 m))) (\<lambda>_.
     rbind (lower_hex_anchor (PStr (rm_proving_key_sha256 m))) (\<lambda>_.
     rbind (lower_hex_anchor (PStr (rm_verifying_key_sha256 m))) (\<lambda>_.
     rbind (exact_string (PStr (rm_kip16_status_commit m)) KIP16_STATUS_COMMIT) (\<lambda>_.
     rbind (exact_string (PStr (rm_rusty_kaspa_tag m)) RUSTY_KASPA_TAG) (\<lambda>_.
     rbind (exact_string (PStr (rm_rusty_kaspa_commit m)) RUSTY_KASPA_COMMIT) (\<lambda>_.
     rbind (exact_string (PStr (rm_arkworks_version m)) ARKWORKS_VERSION) (\<lambda>_.
     rbind (manifest_validate_network_id (PStr (rm_network_id m))) (\<lambda>_. Inr ()))))))))))))))))))))"

definition manifest_items :: "RelationManifestV2 \<Rightarrow> (pystr \<times> pyval) list" where
  "manifest_items m =
     [(u ''schema_version'', PInt (rm_schema_version m)),
      (u ''protocol_id'', PStr (rm_protocol_id m)),
      (u ''relation_id'', PStr (rm_relation_id m)),
      (u ''statement_digest_domain_hex'', PStr (rm_statement_digest_domain_hex m)),
      (u ''proof_system'', PStr (rm_proof_system m)),
      (u ''kip16_tag'', PInt (rm_kip16_tag m)),
      (u ''public_input_encoding'', PStr (rm_public_input_encoding m)),
      (u ''public_input_count'', PInt (rm_public_input_count m)),
      (u ''network_id'', PStr (rm_network_id m)),
      (u ''relation_source_bytes'', PInt (rm_relation_source_bytes m)),
      (u ''relation_source_sha256'', PStr (rm_relation_source_sha256 m)),
      (u ''proving_key_bytes'', PInt (rm_proving_key_bytes m)),
      (u ''proving_key_sha256'', PStr (rm_proving_key_sha256 m)),
      (u ''verifying_key_bytes'', PInt (rm_verifying_key_bytes m)),
      (u ''verifying_key_sha256'', PStr (rm_verifying_key_sha256 m)),
      (u ''kip16_status_commit'', PStr (rm_kip16_status_commit m)),
      (u ''rusty_kaspa_tag'', PStr (rm_rusty_kaspa_tag m)),
      (u ''rusty_kaspa_commit'', PStr (rm_rusty_kaspa_commit m)),
      (u ''arkworks_version'', PStr (rm_arkworks_version m))]"

definition manifest_canonical_bytes :: "bytes option \<Rightarrow> RelationManifestV2 \<Rightarrow> pyexc + bytes" where
  "manifest_canonical_bytes at_parse m =
     (case at_parse of
        None \<Rightarrow> Inl RelationManifestV2Error
      | Some parsed \<Rightarrow>
          rbind (manifest_validate_state m) (\<lambda>_.
          case compact_json (PDict (manifest_items m)) of
            None \<Rightarrow> Inl UnicodeEncodeError
          | Some canonical \<Rightarrow>
              (if length canonical = 0 \<or> MAX_CANONICAL_V2_MANIFEST_BYTES < length canonical
               then Inl RelationManifestV2Error
               else if canonical \<noteq> parsed then Inl RelationManifestV2Error
               else Inr canonical)))"

definition parse_manifest :: "py_env \<Rightarrow> bytes \<Rightarrow> pyval \<Rightarrow> pyexc + RelationManifestV2" where
  "parse_manifest E wire trusted_network_id =
     (if length wire = 0 \<or> MAX_CANONICAL_V2_MANIFEST_BYTES < length wire
      then Inl RelationManifestV2Error
      else rbind (manifest_validate_network_id trusted_network_id) (\<lambda>_.
           rbind (catch (loads_utf8 E RelationManifestV2Error wire) is_value_error
                    (\<lambda>_. Inl RelationManifestV2Error)) (\<lambda>decoded.
           rbind (parse_manifest_object decoded) (\<lambda>manifest.
           if PStr (rm_network_id manifest) \<noteq> trusted_network_id then Inl RelationManifestV2Error
           else rbind (manifest_canonical_bytes (Some wire) manifest) (\<lambda>canonical.
             if canonical \<noteq> wire then Inl RelationManifestV2Error else Inr manifest)))))"

subsection \<open>Binding a manifest to an envelope\<close>

record ThreatHintV2ProofBinding =
  pb_envelope :: ThreatHintV2ProofEnvelope
  pb_manifest :: RelationManifestV2

text \<open>The entry of a binding in the module's weak dictionary.\<close>

record BindingSnapshot =
  bs_envelope_wire :: bytes
  bs_manifest_wire :: bytes
  bs_trusted_network_id :: pystr
  bs_raw_manifest_sha256_hex :: pystr
  bs_statement_digest_hex :: pystr
  bs_public_input_first_half :: bytes
  bs_public_input_second_half :: bytes

definition binding_validate_network_id :: "pyval \<Rightarrow> pyexc + pystr" where
  "binding_validate_network_id v =
     (if is_str v \<and> is_network_text (the_str v) then Inr (the_str v) else Inl ThreatHintV2ProofBindingError)"

definition validate_anchor :: "pyval \<Rightarrow> pyexc + pystr" where
  "validate_anchor v =
     (if is_str v \<and> is_anchor (the_str v) then Inr (the_str v) else Inl ThreatHintV2ProofBindingError)"

definition statement_digest_hex :: "RelationManifestV2 \<Rightarrow> ThreatHintV2ProofEnvelope \<Rightarrow> pyexc + pystr" where
  "statement_digest_hex m e =
     rbind (statement_canonical_bytes (utf8_encode (pe_statement e)) (pe_parsed_statement e)) (\<lambda>canonical.
     Inr (sha256_hex (bytes_fromhex (rm_statement_digest_domain_hex m) @
                      be_bytes 4 (length canonical) @ canonical)))"

text \<open>The identity checks of a binding.\<close>

definition identities_differ :: "RelationManifestV2 \<Rightarrow> ThreatHintV2ProofEnvelope \<Rightarrow> pystr \<Rightarrow> bool" where
  "identities_differ m e network \<longleftrightarrow>
     pe_protocol_id e \<noteq> rm_protocol_id m \<or> pe_relation_id e \<noteq> rm_relation_id m \<or>
     rm_network_id m \<noteq> network \<or> vs_network_id (pe_parsed_statement e) \<noteq> network"

definition binding_validate_state :: "BindingSnapshot option \<Rightarrow> ThreatHintV2ProofBinding \<Rightarrow> pyexc + unit" where
  "binding_validate_state snapshot b =
     (case snapshot of
        None \<Rightarrow> Inl ThreatHintV2ProofBindingError
      | Some s \<Rightarrow>
          rbind (catch (rbind (manifest_canonical_bytes (Some (bs_manifest_wire s)) (pb_manifest b)) (\<lambda>manifest_wire.
                        rbind (envelope_canonical_bytes (Some (bs_envelope_wire s)) (pb_envelope b)) (\<lambda>env_wire.
                        rbind (statement_digest_hex (pb_manifest b) (pb_envelope b)) (\<lambda>recomputed.
                        Inr (manifest_wire, env_wire, recomputed)))))
                   (\<lambda>e. e \<in> {TypeError, OverflowError} \<or> is_value_error e)
                   (\<lambda>_. Inl ThreatHintV2ProofBindingError)) (\<lambda>(manifest_wire, env_wire, recomputed).
          rbind (raise_if (manifest_wire \<noteq> bs_manifest_wire s \<or> env_wire \<noteq> bs_envelope_wire s)
                   ThreatHintV2ProofBindingError) (\<lambda>_.
          rbind (raise_if (sha256_hex manifest_wire \<noteq> bs_raw_manifest_sha256_hex s)
                   ThreatHintV2ProofBindingError) (\<lambda>_.
          rbind (raise_if (identities_differ (pb_manifest b) (pb_envelope b) (bs_trusted_network_id s))
                   ThreatHintV2ProofBindingError) (\<lambda>_.
          rbind (raise_if (recomputed \<noteq> bs_statement_digest_hex s \<or>
                           recomputed \<noteq> pe_statement_digest (pb_envelope b)) ThreatHintV2ProofBindingError) (\<lambda>_.
          let digest = bytes_fromhex recomputed
          in rbind (raise_if (take 16 digest \<noteq> bs_public_input_first_half s \<or>
                              drop 16 digest \<noteq> bs_public_input_second_half s) ThreatHintV2ProofBindingError) (\<lambda>_.
             raise_if (rm_public_input_encoding (pb_manifest b) \<noteq> PUBLIC_INPUT_ENCODING \<or>
                       rm_public_input_count (pb_manifest b) \<noteq> PUBLIC_INPUT_COUNT)
               ThreatHintV2ProofBindingError)))))))"

definition bind_canonical ::
  "py_env \<Rightarrow> bytes \<Rightarrow> bytes \<Rightarrow> pyval \<Rightarrow> pyval \<Rightarrow> pyexc + ThreatHintV2ProofBinding \<times> BindingSnapshot" where
  "bind_canonical E env_wire manifest_wire trusted_network_id trusted_manifest_sha256_hex =
     rbind (binding_validate_network_id trusted_network_id) (\<lambda>network.
     rbind (validate_anchor trusted_manifest_sha256_hex) (\<lambda>anchor.
     let raw = sha256_hex manifest_wire
     in if raw \<noteq> anchor then Inl ThreatHintV2ProofBindingError
        else rbind (catch (parse_manifest E manifest_wire trusted_network_id) (\<lambda>e. e = RelationManifestV2Error)
                      (\<lambda>_. Inl ThreatHintV2ProofBindingError)) (\<lambda>manifest.
             rbind (catch (parse_envelope E env_wire trusted_network_id) (\<lambda>e. e = ThreatHintV2ProofEnvelopeError)
                      (\<lambda>_. Inl ThreatHintV2ProofBindingError)) (\<lambda>envelope.
             if identities_differ manifest envelope network then Inl ThreatHintV2ProofBindingError
             else rbind (statement_digest_hex manifest envelope) (\<lambda>digest_hex.
                  if digest_hex \<noteq> pe_statement_digest envelope then Inl ThreatHintV2ProofBindingError
                  else if rm_public_input_encoding manifest \<noteq> PUBLIC_INPUT_ENCODING \<or>
                          rm_public_input_count manifest \<noteq> PUBLIC_INPUT_COUNT
                  then Inl ThreatHintV2ProofBindingError
                  else let digest = bytes_fromhex digest_hex;
                           binding = \<lparr>pb_envelope = envelope, pb_manifest = manifest\<rparr>;
                           snapshot = \<lparr>bs_envelope_wire = env_wire, bs_manifest_wire = manifest_wire,
                                       bs_trusted_network_id = network, bs_raw_manifest_sha256_hex = raw,
                                       bs_statement_digest_hex = digest_hex,
                                       bs_public_input_first_half = take 16 digest,
                                       bs_public_input_second_half = drop 16 digest\<rparr>
                       in rbind (binding_validate_state (Some snapshot) binding) (\<lambda>_.
                          Inr (binding, snapshot)))))))"

subsection \<open>Canonical manifests\<close>

text \<open>Only the network and the three pinned files vary among valid manifests.\<close>

definition manifest_of :: "pystr \<Rightarrow> int \<times> pystr \<Rightarrow> int \<times> pystr \<Rightarrow> int \<times> pystr \<Rightarrow> RelationManifestV2" where
  "manifest_of network source pk vk =
     \<lparr>rm_schema_version = 2, rm_protocol_id = PROTOCOL_ID, rm_relation_id = RELATION_ID,
      rm_statement_digest_domain_hex = STATEMENT_DIGEST_DOMAIN_HEX, rm_proof_system = PROOF_SYSTEM,
      rm_kip16_tag = 32, rm_public_input_encoding = PUBLIC_INPUT_ENCODING, rm_public_input_count = 2,
      rm_network_id = network, rm_relation_source_bytes = fst source, rm_relation_source_sha256 = snd source,
      rm_proving_key_bytes = fst pk, rm_proving_key_sha256 = snd pk,
      rm_verifying_key_bytes = fst vk, rm_verifying_key_sha256 = snd vk,
      rm_kip16_status_commit = KIP16_STATUS_COMMIT, rm_rusty_kaspa_tag = RUSTY_KASPA_TAG,
      rm_rusty_kaspa_commit = RUSTY_KASPA_COMMIT, rm_arkworks_version = ARKWORKS_VERSION\<rparr>"

definition pinned_file :: "int \<Rightarrow> int \<times> pystr \<Rightarrow> bool" where
  "pinned_file limit f \<longleftrightarrow> 1 \<le> fst f \<and> fst f \<le> limit \<and> is_anchor (snd f)"

definition valid_manifest :: "RelationManifestV2 \<Rightarrow> bool" where
  "valid_manifest m \<longleftrightarrow> is_network_text (rm_network_id m) \<and>
     pinned_file 1048576 (rm_relation_source_bytes m, rm_relation_source_sha256 m) \<and>
     pinned_file 1073741824 (rm_proving_key_bytes m, rm_proving_key_sha256 m) \<and>
     pinned_file 65536 (rm_verifying_key_bytes m, rm_verifying_key_sha256 m) \<and>
     m = manifest_of (rm_network_id m) (rm_relation_source_bytes m, rm_relation_source_sha256 m)
           (rm_proving_key_bytes m, rm_proving_key_sha256 m) (rm_verifying_key_bytes m, rm_verifying_key_sha256 m)"

lemmas manifest_limits =
  MAX_RELATION_SOURCE_BYTES_def MAX_PROVING_KEY_BYTES_def MAX_VERIFYING_KEY_BYTES_def KIP16_TAG_def
  PUBLIC_INPUT_COUNT_def V2_SCHEMA_VERSION_def U64_MAX_def

lemmas manifest_texts =
  PROTOCOL_ID_def RELATION_ID_def STATEMENT_DIGEST_DOMAIN_HEX_def PROOF_SYSTEM_def PUBLIC_INPUT_ENCODING_def
  KIP16_STATUS_COMMIT_def RUSTY_KASPA_TAG_def RUSTY_KASPA_COMMIT_def ARKWORKS_VERSION_def

lemmas manifest_checks =
  manifest_exact_int_def bounded_int_def exact_string_def lower_hex_anchor_def manifest_validate_network_id_def

lemma bounded_int_iff: "bounded_int (PInt n) 1 = Inr k \<longleftrightarrow> k = n \<and> 1 \<le> n \<and> n \<le> U64_MAX"
  by (auto simp: bounded_int_def manifest_exact_int_def split: if_splits)

lemma manifest_validate_state_iff: "manifest_validate_state m = Inr () \<longleftrightarrow> valid_manifest m"
  by (cases m)
     (auto simp: manifest_validate_state_def valid_manifest_def manifest_of_def pinned_file_def manifest_limits
       bounded_int_iff exact_string_def lower_hex_anchor_def manifest_validate_network_id_def split: if_splits)

definition manifest_wire :: "RelationManifestV2 \<Rightarrow> bytes" where
  "manifest_wire m = ascii_json (PDict (manifest_items m))"

lemma is_anchor_hex: "is_anchor s \<Longrightarrow> is_lower_hex 64 s"
  by (simp add: is_anchor_def)

lemma manifest_texts_unescaped:
  "list_all unescaped STATEMENT_DIGEST_DOMAIN_HEX" "list_all unescaped PROOF_SYSTEM"
  "list_all unescaped PUBLIC_INPUT_ENCODING" "list_all unescaped KIP16_STATUS_COMMIT"
  "list_all unescaped RUSTY_KASPA_TAG" "list_all unescaped RUSTY_KASPA_COMMIT" "list_all unescaped ARKWORKS_VERSION"
  by (simp_all add: manifest_texts)

text \<open>The fields of a valid manifest, without the equation for the record.\<close>

lemma valid_manifestD:
  assumes "valid_manifest m"
  shows "rm_schema_version m = 2" "rm_protocol_id m = PROTOCOL_ID" "rm_relation_id m = RELATION_ID"
    "rm_statement_digest_domain_hex m = STATEMENT_DIGEST_DOMAIN_HEX" "rm_proof_system m = PROOF_SYSTEM"
    "rm_kip16_tag m = 32" "rm_public_input_encoding m = PUBLIC_INPUT_ENCODING" "rm_public_input_count m = 2"
    "rm_kip16_status_commit m = KIP16_STATUS_COMMIT" "rm_rusty_kaspa_tag m = RUSTY_KASPA_TAG"
    "rm_rusty_kaspa_commit m = RUSTY_KASPA_COMMIT" "rm_arkworks_version m = ARKWORKS_VERSION"
  using assms by (cases m; simp add: valid_manifest_def manifest_of_def)+

lemma valid_manifest_fields:
  assumes "valid_manifest m"
  shows "is_network_text (rm_network_id m)"
    "pinned_file 1048576 (rm_relation_source_bytes m, rm_relation_source_sha256 m)"
    "pinned_file 1073741824 (rm_proving_key_bytes m, rm_proving_key_sha256 m)"
    "pinned_file 65536 (rm_verifying_key_bytes m, rm_verifying_key_sha256 m)"
  using assms by (simp_all add: valid_manifest_def)

lemma pinned_fileD:
  assumes "pinned_file limit (n, s)"
  shows "1 \<le> n" "n \<le> limit" "is_lower_hex 64 s" "list_all unescaped s" "length s = 64" "is_anchor s"
  using assms hex_unescaped [of 64 s] by (auto simp: pinned_file_def is_anchor_def)

lemma manifest_doc:
  assumes "valid_manifest m"
  shows "doc (manifest_items m)"
proof -
  have "0 \<le> rm_relation_source_bytes m \<and> rm_relation_source_bytes m < 2 ^ 64"
    "0 \<le> rm_proving_key_bytes m \<and> rm_proving_key_bytes m < 2 ^ 64"
    "0 \<le> rm_verifying_key_bytes m \<and> rm_verifying_key_bytes m < 2 ^ 64"
    using valid_manifest_fields(2-4) [OF assms] by (auto simp: pinned_file_def)
  then show ?thesis
    using valid_manifest_fields [OF assms] manifest_texts_unescaped protocol_ids_unescaped
    by (simp add: manifest_items_def doc_Cons valid_manifestD [OF assms] pinned_fileD
        is_network_text_printable printable_unescaped)
qed

lemma pinned_file_quote: "pinned_file limit (n, s) \<Longrightarrow> length (json_quote True s) = 66"
  using pinned_fileD(4,5) [of limit n s] by (simp add: length_quote_unescaped)

lemma manifest_length:
  assumes "valid_manifest m"
  shows "length (manifest_wire m) \<le> 1060"
proof -
  have "length (json_quote True (rm_network_id m)) \<le> 66"
    using is_network_text_printable [OF valid_manifest_fields(1) [OF assms]] by (simp add: length_quote_unescaped)
  with valid_manifest_fields(2-4) [OF assms, THEN pinned_file_quote] doc_length [OF manifest_doc [OF assms]]
  show ?thesis
    by (simp add: manifest_wire_def manifest_items_def valid_manifestD [OF assms] length_quote_unescaped
        manifest_texts_unescaped protocol_ids_unescaped) (simp add: manifest_texts)
qed

lemma manifest_canonical_bytes_iff:
  "manifest_canonical_bytes reg m = Inr w \<longleftrightarrow> valid_manifest m \<and> w = manifest_wire m \<and> reg = Some w"
proof (cases "valid_manifest m")
  case True
  have "compact_json (PDict (manifest_items m)) = Some (manifest_wire m)"
    using doc_compact [OF manifest_doc [OF True]] by (simp add: manifest_wire_def)
  moreover have "manifest_wire m \<noteq> []" by (simp add: manifest_wire_def doc_nonempty)
  moreover have "manifest_validate_state m = Inr ()" using True by (simp add: manifest_validate_state_iff)
  ultimately show ?thesis using True manifest_length [OF True]
    by (auto simp: manifest_canonical_bytes_def MAX_CANONICAL_V2_MANIFEST_BYTES_def split: option.splits)
next
  case False
  then have "manifest_validate_state m \<noteq> Inr ()" by (simp add: manifest_validate_state_iff)
  with False show ?thesis by (auto simp: manifest_canonical_bytes_def split: option.splits)
qed

lemma parse_manifest_items:
  assumes "valid_manifest m"
  shows "parse_manifest_object (PDict (manifest_items m)) = Inr m"
  using valid_manifest_fields [OF assms]
  by (simp add: manifest_items_def manifest_fields_def manifest_checks manifest_limits valid_manifestD [OF assms]
      pinned_file_def)

lemma parse_manifest_enc:
  "parse_manifest E w tn = Inr m \<Longrightarrow> valid_manifest m \<and> w = manifest_wire m \<and> tn = PStr (rm_network_id m)"
  by (auto simp: parse_manifest_def manifest_canonical_bytes_iff split: if_splits)

lemma parse_manifest_dec:
  assumes "valid_manifest m" and "1 \<le> json_depth E"
  shows "parse_manifest E (manifest_wire m) (PStr (rm_network_id m)) = Inr m"
proof -
  have "loads_utf8 E RelationManifestV2Error (manifest_wire m) = Inr (PDict (manifest_items m))"
    unfolding manifest_wire_def by (intro doc_loads manifest_doc assms)
  moreover have "manifest_canonical_bytes (Some (manifest_wire m)) m = Inr (manifest_wire m)"
    using assms by (simp add: manifest_canonical_bytes_iff)
  moreover have "manifest_validate_network_id (PStr (rm_network_id m)) = Inr (rm_network_id m)"
    using assms(1) by (simp add: manifest_validate_network_id_def valid_manifest_def)
  moreover have "manifest_wire m \<noteq> []" by (simp add: manifest_wire_def doc_nonempty)
  ultimately show ?thesis using manifest_length [OF assms(1)] parse_manifest_items [OF assms(1)]
    by (simp add: parse_manifest_def MAX_CANONICAL_V2_MANIFEST_BYTES_def)
qed

interpretation mc: canonical_codec manifest_wire "\<lambda>w. parse_manifest E w (PStr n)"
  "\<lambda>m. valid_manifest m \<and> rm_network_id m = n \<and> 1 \<le> json_depth E" for E n
  by unfold_locales (auto simp: parse_manifest_dec dest: parse_manifest_enc)

subsection \<open>Bindings\<close>

lemma domain_hex: "bytes_fromhex STATEMENT_DIGEST_DOMAIN_HEX = STATEMENT_DIGEST_DOMAIN"
  by (simp add: STATEMENT_DIGEST_DOMAIN_HEX_def STATEMENT_DIGEST_DOMAIN_def u_def hex_value_def ascii_bytes_def)

lemma statement_digest_hex_valid:
  assumes "valid_manifest m" and "valid_envelope e"
  shows "statement_digest_hex m e = Inr (pe_statement_digest e)"
proof -
  have "statement_canonical_bytes (utf8_encode (pe_statement e)) (pe_parsed_statement e) =
      Inr (statement_wire (pe_parsed_statement e))"
    using assms(2) by (simp add: statement_canonical_bytes_iff valid_envelope_def statement_text_utf8)
  then show ?thesis using assms
    by (simp add: statement_digest_hex_def valid_manifestD domain_hex valid_envelope_def
        statement_preimage_def [symmetric])
qed

lemma manifest_wire_inj:
  assumes "valid_manifest a" and "valid_manifest b" and "manifest_wire a = manifest_wire b"
  shows "a = b"
proof -
  have "manifest_items a = manifest_items b"
    using assms by (intro doc_inj manifest_doc) (simp_all add: manifest_wire_def)
  then show ?thesis using parse_manifest_items [OF assms(1)] parse_manifest_items [OF assms(2)] by simp
qed

lemma statement_wire_inj:
  assumes "valid_statement a" and "valid_statement b" and "statement_wire a = statement_wire b"
  shows "a = b"
proof -
  have "statement_items a = statement_items b"
    using assms by (intro doc_inj statement_doc) (simp_all add: statement_wire_def)
  then show ?thesis using parse_statement_items [OF assms(1)] parse_statement_items [OF assms(2)] by simp
qed

lemma envelope_wire_inj:
  assumes "valid_envelope a" and "valid_envelope b" and "envelope_wire a = envelope_wire b"
  shows "a = b"
proof -
  have "envelope_items a = envelope_items b"
    using assms by (intro doc_inj envelope_doc) (simp_all add: envelope_wire_def)
  then have t: "pe_statement a = pe_statement b" and p: "pe_proof a = pe_proof b"
    by (simp_all add: envelope_items_def)
  have v: "valid_statement (pe_parsed_statement a)" "valid_statement (pe_parsed_statement b)"
    using assms(1,2) by (simp_all add: valid_envelope_def)
  then have "pe_parsed_statement a = pe_parsed_statement b"
    using t assms(1,2) statement_text_utf8 [OF v(1)] statement_text_utf8 [OF v(2)]
    by (intro statement_wire_inj) (simp_all add: valid_envelope_def)
  with p show ?thesis using assms(1,2) unfolding valid_envelope_iff by metis
qed

text \<open>The snapshot a binding of two valid objects gets.\<close>

definition snapshot_of :: "ThreatHintV2ProofEnvelope \<Rightarrow> RelationManifestV2 \<Rightarrow> BindingSnapshot" where
  "snapshot_of e m =
     \<lparr>bs_envelope_wire = envelope_wire e, bs_manifest_wire = manifest_wire m,
      bs_trusted_network_id = rm_network_id m, bs_raw_manifest_sha256_hex = sha256_hex (manifest_wire m),
      bs_statement_digest_hex = pe_statement_digest e,
      bs_public_input_first_half = take 16 (bytes_fromhex (pe_statement_digest e)),
      bs_public_input_second_half = drop 16 (bytes_fromhex (pe_statement_digest e))\<rparr>"

definition bound_pair :: "ThreatHintV2ProofEnvelope \<Rightarrow> RelationManifestV2 \<Rightarrow> bool" where
  "bound_pair e m \<longleftrightarrow> valid_envelope e \<and> valid_manifest m \<and> vs_network_id (pe_parsed_statement e) = rm_network_id m"

lemma bound_pair_checks:
  assumes "bound_pair e m"
  shows "\<not> identities_differ m e (rm_network_id m)"
    "rm_public_input_encoding m = PUBLIC_INPUT_ENCODING" "rm_public_input_count m = PUBLIC_INPUT_COUNT"
  using assms
  by (auto simp: bound_pair_def identities_differ_def valid_manifestD valid_envelope_def PUBLIC_INPUT_COUNT_def)

text \<open>Every derived value of a binding is determined by the pair it binds, and only the bound pair passes.\<close>

lemma binding_validate_state_iff:
  assumes "bound_pair e m"
  shows "binding_validate_state (Some (snapshot_of e m)) b = Inr () \<longleftrightarrow> b = \<lparr>pb_envelope = e, pb_manifest = m\<rparr>"
proof
  assume v: "binding_validate_state (Some (snapshot_of e m)) b = Inr ()"
  then have "manifest_canonical_bytes (Some (manifest_wire m)) (pb_manifest b) = Inr (manifest_wire m)"
    "envelope_canonical_bytes (Some (envelope_wire e)) (pb_envelope b) = Inr (envelope_wire e)"
    by (auto simp: binding_validate_state_def snapshot_of_def catch_eq_Inr_raise)
  then have "pb_manifest b = m" "pb_envelope b = e"
    using assms
    by (auto simp: bound_pair_def manifest_canonical_bytes_iff envelope_canonical_bytes_iff
        intro: manifest_wire_inj envelope_wire_inj)
  then show "b = \<lparr>pb_envelope = e, pb_manifest = m\<rparr>" by (cases b) simp
next
  assume "b = \<lparr>pb_envelope = e, pb_manifest = m\<rparr>"
  moreover have "manifest_canonical_bytes (Some (manifest_wire m)) m = Inr (manifest_wire m)"
    "envelope_canonical_bytes (Some (envelope_wire e)) e = Inr (envelope_wire e)"
    using assms by (simp_all add: bound_pair_def manifest_canonical_bytes_iff envelope_canonical_bytes_iff)
  ultimately show "binding_validate_state (Some (snapshot_of e m)) b = Inr ()"
    using assms bound_pair_checks [OF assms] statement_digest_hex_valid [of m e]
    by (simp add: binding_validate_state_def snapshot_of_def bound_pair_def)
qed

lemma bind_canonical_iff:
  assumes "1 \<le> json_depth E"
  shows "bind_canonical E we wm tn anchor = Inr (b, s) \<longleftrightarrow>
    (\<exists>e m. bound_pair e m \<and> we = envelope_wire e \<and> wm = manifest_wire m \<and> tn = PStr (rm_network_id m) \<and>
       anchor = PStr (sha256_hex wm) \<and> is_anchor (sha256_hex wm) \<and>
       b = \<lparr>pb_envelope = e, pb_manifest = m\<rparr> \<and> s = snapshot_of e m)"
proof
  assume l: "bind_canonical E we wm tn anchor = Inr (b, s)"
  then obtain e m where r: "anchor = PStr (sha256_hex wm)" "is_anchor (sha256_hex wm)"
      "parse_manifest E wm tn = Inr m" "parse_envelope E we tn = Inr e"
    and d: "b = \<lparr>pb_envelope = e, pb_manifest = m\<rparr>" "bs_envelope_wire s = we" "bs_manifest_wire s = wm"
      "PStr (bs_trusted_network_id s) = tn" "bs_raw_manifest_sha256_hex s = sha256_hex wm"
      "bs_statement_digest_hex s = pe_statement_digest e"
      "bs_public_input_first_half s = take 16 (bytes_fromhex (pe_statement_digest e))"
      "bs_public_input_second_half s = drop 16 (bytes_fromhex (pe_statement_digest e))"
    by (cases tn; cases anchor)
       (auto simp: bind_canonical_def binding_validate_network_id_def validate_anchor_def Let_def catch_eq_Inr_raise
         split: if_splits)
  have m: "valid_manifest m" "wm = manifest_wire m" "tn = PStr (rm_network_id m)"
    and e: "valid_envelope e" "we = envelope_wire e" "tn = PStr (vs_network_id (pe_parsed_statement e))"
    using parse_manifest_enc [OF r(3)] parse_envelope_enc [OF r(4)] by blast+
  have "s = snapshot_of e m" using d(2-) m(2,3) e(2) by (cases s) (simp add: snapshot_of_def)
  then show "\<exists>e m. bound_pair e m \<and> we = envelope_wire e \<and> wm = manifest_wire m \<and> tn = PStr (rm_network_id m) \<and>
       anchor = PStr (sha256_hex wm) \<and> is_anchor (sha256_hex wm) \<and>
       b = \<lparr>pb_envelope = e, pb_manifest = m\<rparr> \<and> s = snapshot_of e m"
    using r(1,2) d(1) m e by (intro exI [of _ e] exI [of _ m]) (simp add: bound_pair_def)
next
  assume "\<exists>e m. bound_pair e m \<and> we = envelope_wire e \<and> wm = manifest_wire m \<and> tn = PStr (rm_network_id m) \<and>
       anchor = PStr (sha256_hex wm) \<and> is_anchor (sha256_hex wm) \<and>
       b = \<lparr>pb_envelope = e, pb_manifest = m\<rparr> \<and> s = snapshot_of e m"
  then obtain e m where p: "bound_pair e m" and w: "we = envelope_wire e" "wm = manifest_wire m"
      "tn = PStr (rm_network_id m)" "anchor = PStr (sha256_hex wm)" "is_anchor (sha256_hex wm)"
      "b = \<lparr>pb_envelope = e, pb_manifest = m\<rparr>" "s = snapshot_of e m"
    by blast
  have "parse_manifest E wm tn = Inr m" "parse_envelope E we tn = Inr e"
    using p w(1-3) parse_manifest_dec [OF _ assms, of m] parse_envelope_dec [OF _ assms, of e]
    by (simp_all add: bound_pair_def)
  moreover have "binding_validate_network_id tn = Inr (rm_network_id m)" "validate_anchor anchor = Inr (sha256_hex wm)"
    using p w by (simp_all add: binding_validate_network_id_def validate_anchor_def bound_pair_def valid_manifest_def)
  moreover have "statement_digest_hex m e = Inr (pe_statement_digest e)"
    using p by (simp add: bound_pair_def statement_digest_hex_valid)
  moreover have "binding_validate_state (Some s) b = Inr ()"
    using binding_validate_state_iff [OF p] w by simp
  ultimately show "bind_canonical E we wm tn anchor = Inr (b, s)"
    using bound_pair_checks [OF p] w(1,2,6,7) by (simp add: bind_canonical_def Let_def snapshot_of_def)
qed

lemma valid_envelope_digest: "valid_envelope e \<Longrightarrow> is_lower_hex 64 (pe_statement_digest e)"
  by (simp add: valid_envelope_def sha256_hex_lower)

lemma bound_pair_halves:
  assumes "bound_pair e m"
  shows "length (bs_public_input_first_half (snapshot_of e m)) = 16"
    "length (bs_public_input_second_half (snapshot_of e m)) = 16"
    "hex_of_bytes (bs_public_input_first_half (snapshot_of e m) @ bs_public_input_second_half (snapshot_of e m)) =
       pe_statement_digest e"
  using assms valid_envelope_digest [of e]
  by (simp_all add: snapshot_of_def bound_pair_def is_lower_hex_def length_bytes_fromhex hex_of_bytes_fromhex)

subsection \<open>A concrete manifest\<close>

definition ex_manifest :: RelationManifestV2 where
  "ex_manifest = manifest_of (u ''mainnet'') (4096, replicate 64 97) (1048576, replicate 64 98) (1024, replicate 64 99)"

lemma ex_anchors: "is_anchor (replicate 64 97)" "is_anchor (replicate 64 98)" "is_anchor (replicate 64 99)"
  by (simp_all add: is_anchor_def is_lower_hex_def is_hex_char_def list_all_iff list_ex_iff)

lemma mainnet_network: "is_network_text (u ''mainnet'')"
  by (simp add: is_network_text_def u_def is_network_byte_def)

lemma ex_manifest_valid: "valid_manifest ex_manifest"
  using ex_anchors mainnet_network
  by (simp add: ex_manifest_def valid_manifest_def pinned_file_def) (simp add: manifest_of_def)

lemma ex_bound_pair: "bound_pair (envelope_of ex_statement (replicate 64 97)) ex_manifest"
  using ex_manifest_valid ex_statement_valid ex_proof_valid
  by (simp add: bound_pair_def valid_envelope_of)
     (simp add: ex_manifest_def manifest_of_def envelope_of_def ex_statement_def)

subsection \<open>Properties\<close>

text \<open>C35. Binding succeeds exactly when both wires parse against the trusted network and the trusted anchor is the
  (non-zero) SHA-256 of the raw manifest bytes: none of the later identity, digest and encoding checks rejects a
  pair that both parsers accept. The two public-input halves of the binding are 16 bytes each and
  together are the statement digest of the envelope, and revalidation accepts no other pair of objects.\<close>

theorem proof_binding_iff:
  assumes "1 \<le> json_depth E"
  shows "(bind_canonical E we wm tn anchor = Inr (b, s) \<longleftrightarrow>
      parse_manifest E wm tn = Inr (pb_manifest b) \<and> parse_envelope E we tn = Inr (pb_envelope b) \<and>
      anchor = PStr (sha256_hex wm) \<and> is_anchor (sha256_hex wm) \<and> s = snapshot_of (pb_envelope b) (pb_manifest b)) \<and>
    (bind_canonical E we wm tn anchor = Inr (b, s) \<longrightarrow>
      length (bs_public_input_first_half s) = 16 \<and> length (bs_public_input_second_half s) = 16 \<and>
      hex_of_bytes (bs_public_input_first_half s @ bs_public_input_second_half s) =
        pe_statement_digest (pb_envelope b) \<and>
      (\<forall>b'. binding_validate_state (Some s) b' = Inr () \<longleftrightarrow> b' = b))"
proof -
  have "bind_canonical E we wm tn anchor = Inr (b, s) \<longleftrightarrow>
      parse_manifest E wm tn = Inr (pb_manifest b) \<and> parse_envelope E we tn = Inr (pb_envelope b) \<and>
      anchor = PStr (sha256_hex wm) \<and> is_anchor (sha256_hex wm) \<and> s = snapshot_of (pb_envelope b) (pb_manifest b)"
    (is "?l \<longleftrightarrow> ?r")
  proof
    assume ?l
    then show ?r
      unfolding bind_canonical_iff [OF assms]
      by (auto simp: bound_pair_def parse_manifest_dec [OF _ assms] dest: parse_envelope_dec [OF _ assms])
  next
    assume ?r
    then show ?l
      unfolding bind_canonical_iff [OF assms]
      by (intro exI [of _ "pb_envelope b"] exI [of _ "pb_manifest b"])
        (auto simp: bound_pair_def dest!: parse_manifest_enc parse_envelope_enc)
  qed
  moreover have "length (bs_public_input_first_half s) = 16 \<and> length (bs_public_input_second_half s) = 16 \<and>
      hex_of_bytes (bs_public_input_first_half s @ bs_public_input_second_half s) =
        pe_statement_digest (pb_envelope b) \<and> (\<forall>b'. binding_validate_state (Some s) b' = Inr () \<longleftrightarrow> b' = b)"
    if "bind_canonical E we wm tn anchor = Inr (b, s)"
    using that unfolding bind_canonical_iff [OF assms]
    by (auto simp: bound_pair_halves binding_validate_state_iff)
  ultimately show ?thesis by blast
qed

theorem proof_binding_iff_witness:
  "(\<exists>b s. bind_canonical ex_env (envelope_wire (envelope_of ex_statement (replicate 64 97)))
       (manifest_wire ex_manifest) (plit ''mainnet'') (PStr (sha256_hex (manifest_wire ex_manifest))) = Inr (b, s) \<and>
     pb_manifest b = ex_manifest) \<longleftrightarrow> is_anchor (sha256_hex (manifest_wire ex_manifest))"
proof -
  let ?e = "envelope_of ex_statement (replicate 64 97)" and ?m = ex_manifest
  have d: "1 \<le> json_depth ex_env" by (simp add: ex_env_def)
  have n: "rm_network_id ?m = u ''mainnet''" "vs_network_id (pe_parsed_statement ?e) = u ''mainnet''"
    by (simp_all add: ex_manifest_def manifest_of_def envelope_of_def ex_statement_def)
  have "parse_manifest ex_env (manifest_wire ?m) (plit ''mainnet'') = Inr ?m"
    "parse_envelope ex_env (envelope_wire ?e) (plit ''mainnet'') = Inr ?e"
    using parse_manifest_dec [OF _ d, of ?m] parse_envelope_dec [OF _ d, of ?e] ex_bound_pair n
    by (simp_all add: bound_pair_def)
  then show ?thesis
    using proof_binding_iff [OF d, of "envelope_wire ?e" "manifest_wire ?m" "plit ''mainnet''"
        "PStr (sha256_hex (manifest_wire ?m))"]
    by (metis Inr_inject ThreatHintV2ProofBinding.select_convs(1,2))
qed

end
