(* ===== verification/Observable_Approval.thy ===== *)
theory Observable_Approval
  imports Signed_Ballots Threat_Hint_V2
begin

text \<open>
  Model of \<open>jaeger/observable_approval.py\<close>: the verification of a signed, short-lived approval of one
  observable bundle in a locally trusted context. Signature verification is the parameter \<open>bip340\<close>.
  The classes of the fields of a context hold by the types of its record; the tests on their values are
  kept.
\<close>

definition APPROVAL_SCHEMA_VERSION :: int where
  "APPROVAL_SCHEMA_VERSION = 1"
definition APPROVAL_PURPOSE :: pystr where
  "APPROVAL_PURPOSE = u ''guardian_analysis_v1''"
definition APPROVAL_SIGNING_DOMAIN :: bytes where
  "APPROVAL_SIGNING_DOMAIN = ascii_bytes (u ''prometheus-observable-approval-v1'') @ [0]"
definition APPROVAL_ID_DOMAIN :: bytes where
  "APPROVAL_ID_DOMAIN = ascii_bytes (u ''prometheus-observable-approval-id-v1'') @ [0]"
definition MAX_CANONICAL_APPROVAL_BYTES :: nat where
  "MAX_CANONICAL_APPROVAL_BYTES = 1024"
definition MAX_APPROVAL_LIFETIME_SECONDS :: int where
  "MAX_APPROVAL_LIFETIME_SECONDS = 60 * 60"
definition FIXED_HASH_BYTES :: nat where
  "FIXED_HASH_BYTES = 32"
definition SCHNORR_SIGNATURE_BYTES :: nat where
  "SCHNORR_SIGNATURE_BYTES = 64"
definition UINT64_MAX :: int where
  "UINT64_MAX = 2 ^ 64 - 1"

record ObservableApprovalContext =
  oc_report_nonce :: bytes
  oc_approver_xonly_public_key :: bytes
  oc_recipient_scope :: bytes
  oc_network_id :: pystr
  oc_current_time :: int

record VerifiedObservableApproval =
  va_approval_id :: bytes
  va_observable_commitment :: bytes
  va_approver_xonly_public_key :: bytes
  va_recipient_scope :: bytes
  va_approval_nonce :: bytes
  va_network_id :: pystr
  va_not_before :: int
  va_expires_at :: int

text \<open>The errors of the bundle module as exceptions.\<close>

fun oerr_exc :: "oerr \<Rightarrow> pyexc" where
  "oerr_exc (Code c) = ObservableBundleError"
| "oerr_exc (Raised e) = e"

definition raise_oerr :: "oerr + 'a \<Rightarrow> pyexc + 'a" where
  "raise_oerr m = (case m of Inl e \<Rightarrow> Inl (oerr_exc e) | Inr x \<Rightarrow> Inr x)"

definition context_validate :: "ObservableApprovalContext \<Rightarrow> pyexc + unit" where
  "context_validate ctx =
     (if length (oc_report_nonce ctx) \<noteq> FIXED_HASH_BYTES \<or>
         length (oc_approver_xonly_public_key ctx) \<noteq> FIXED_HASH_BYTES \<or>
         length (oc_recipient_scope ctx) \<noteq> FIXED_HASH_BYTES \<or>
         oc_current_time ctx \<le> 0 \<or> UINT64_MAX < oc_current_time ctx
      then Inl ObservableApprovalError
      else catch (raise_oerr (validate_network_id (oc_network_id ctx))) is_value_error
             (\<lambda>_. Inl ObservableApprovalError))"

definition decode_fixed_hex :: "pyval \<Rightarrow> nat \<Rightarrow> pyexc + bytes" where
  "decode_fixed_hex v expected_bytes =
     (if is_hex_val (expected_bytes * 2) v then Inr (bytes_fromhex (the_str v)) else Inl ObservableApprovalError)"

text \<open>The bytes hashed by \<open>_domain_digest\<close>.\<close>

definition domain_preimage :: "bytes \<Rightarrow> bytes \<Rightarrow> bytes" where
  "domain_preimage domain value = domain @ be_bytes 4 (length value) @ value"

definition domain_digest :: "bytes \<Rightarrow> bytes \<Rightarrow> bytes" where
  "domain_digest domain value = sha256 (domain_preimage domain value)"

definition signing_fields :: "string list" where
  "signing_fields =
     [''schema_version'', ''observable_commitment'', ''approver_xonly_public_key'', ''purpose'',
      ''recipient_scope'', ''network_id'', ''not_before'', ''expires_at'', ''approval_nonce'']"

definition approval_fields :: "string list" where
  "approval_fields = signing_fields @ [''signature'']"

definition select_fields :: "(pystr \<times> pyval) list \<Rightarrow> string list \<Rightarrow> (pystr \<times> pyval) list" where
  "select_fields d ks = map (\<lambda>k. (u k, dict_at d k)) ks"

text \<open>\<open>_canonical_json_bytes\<close>\<close>

definition canonical_json_bytes :: "pyval \<Rightarrow> pyexc + bytes" where
  "canonical_json_bytes v = (case compact_json v of None \<Rightarrow> Inl UnicodeEncodeError | Some w \<Rightarrow> Inr w)"

text \<open>Decoding of the approval, up to the comparison with its canonical form.\<close>

fun approval_object :: "bytes \<Rightarrow> pyval \<Rightarrow> pyexc + (pystr \<times> pyval) list" where
  "approval_object wire (PDict d) =
     (if \<not> keys_are approval_fields d then Inl ObservableApprovalError
      else rbind (canonical_json_bytes (PDict (select_fields d approval_fields))) (\<lambda>canonical.
           if canonical \<noteq> wire then Inl ObservableApprovalError else Inr d))"
| "approval_object wire _ = Inl ObservableApprovalError"

text \<open>The fixed fields, the network and the validity window.\<close>

definition approval_terms :: "ObservableApprovalContext \<Rightarrow> (pystr \<times> pyval) list \<Rightarrow> pyexc + int \<times> int" where
  "approval_terms ctx d =
     (if dict_at d ''schema_version'' \<noteq> PInt APPROVAL_SCHEMA_VERSION \<or>
         dict_at d ''purpose'' \<noteq> PStr APPROVAL_PURPOSE \<or>
         dict_at d ''network_id'' \<noteq> PStr (oc_network_id ctx) \<or>
         \<not> is_int (dict_at d ''not_before'') \<or> \<not> is_int (dict_at d ''expires_at'') \<or>
         UINT64_MAX < the_int (dict_at d ''not_before'') \<or> UINT64_MAX < the_int (dict_at d ''expires_at'')
      then Inl ObservableApprovalError
      else let not_before = the_int (dict_at d ''not_before'');
               expires_at = the_int (dict_at d ''expires_at'');
               lifetime = expires_at - not_before
           in if not_before \<le> 0 \<or> lifetime \<le> 0 \<or> MAX_APPROVAL_LIFETIME_SECONDS < lifetime \<or>
                 oc_current_time ctx < not_before \<or> expires_at < oc_current_time ctx
              then Inl ObservableApprovalError
              else Inr (not_before, expires_at))"

text \<open>The commitment that the bundle has in this context.\<close>

definition expected_commitment :: "py_env \<Rightarrow> bytes \<Rightarrow> ObservableApprovalContext \<Rightarrow> pyexc + bytes" where
  "expected_commitment E bundle_bytes ctx =
     rbind (catch (raise_oerr (parse_canonical E bundle_bytes)) is_value_error (\<lambda>_. Inl ObservableApprovalError)) (\<lambda>bundle.
     if obu_disclosure_policy bundle \<noteq> REVIEW_REQUIRED_V1 then Inl ObservableApprovalError
     else raise_oerr (commitment bundle (PStr (oc_network_id ctx)) (PStr (hex_of_bytes (oc_report_nonce ctx)))))"

definition verify_observable_approval_inner ::
  "py_env \<Rightarrow> bip340 \<Rightarrow> bytes \<Rightarrow> bytes \<Rightarrow> ObservableApprovalContext \<Rightarrow> pyexc + VerifiedObservableApproval" where
  "verify_observable_approval_inner E B approval_wire bundle_bytes ctx =
     (if length approval_wire = 0 \<or> MAX_CANONICAL_APPROVAL_BYTES < length approval_wire
      then Inl ObservableApprovalError
      else rbind (context_validate ctx) (\<lambda>_.
           rbind (catch (loads_utf8 E ObservableApprovalError approval_wire) is_value_error
                    (\<lambda>_. Inl ObservableApprovalError)) (\<lambda>decoded.
           rbind (approval_object approval_wire decoded) (\<lambda>d.
           rbind (approval_terms ctx d) (\<lambda>(not_before, expires_at).
           rbind (decode_fixed_hex (dict_at d ''observable_commitment'') FIXED_HASH_BYTES) (\<lambda>observable_commitment.
           rbind (decode_fixed_hex (dict_at d ''approver_xonly_public_key'') FIXED_HASH_BYTES) (\<lambda>approver.
           rbind (decode_fixed_hex (dict_at d ''recipient_scope'') FIXED_HASH_BYTES) (\<lambda>recipient_scope.
           rbind (decode_fixed_hex (dict_at d ''approval_nonce'') FIXED_HASH_BYTES) (\<lambda>approval_nonce.
           rbind (decode_fixed_hex (dict_at d ''signature'') SCHNORR_SIGNATURE_BYTES) (\<lambda>signature.
           if approver \<noteq> oc_approver_xonly_public_key ctx \<or> recipient_scope \<noteq> oc_recipient_scope ctx
           then Inl ObservableApprovalError
           else rbind (expected_commitment E bundle_bytes ctx) (\<lambda>expected.
                if observable_commitment \<noteq> expected then Inl ObservableApprovalError
                else rbind (canonical_json_bytes (PDict (select_fields d signing_fields))) (\<lambda>body.
                     case schnorr_verify B approver signature (domain_digest APPROVAL_SIGNING_DOMAIN body) of
                       None \<Rightarrow> Inl ObservableApprovalError
                     | Some signature_valid \<Rightarrow>
                         if \<not> signature_valid then Inl ObservableApprovalError
                         else Inr \<lparr>va_approval_id = domain_digest APPROVAL_ID_DOMAIN approval_wire,
                              va_observable_commitment = observable_commitment,
                              va_approver_xonly_public_key = approver,
                              va_recipient_scope = recipient_scope,
                              va_approval_nonce = approval_nonce,
                              va_network_id = the_str (dict_at d ''network_id''),
                              va_not_before = not_before, va_expires_at = expires_at\<rparr>))))))))))))"

definition verify_observable_approval ::
  "py_env \<Rightarrow> bip340 \<Rightarrow> bytes \<Rightarrow> bytes \<Rightarrow> ObservableApprovalContext \<Rightarrow> pyexc + VerifiedObservableApproval" where
  "verify_observable_approval E B approval_wire bundle_bytes ctx =
     catch (verify_observable_approval_inner E B approval_wire bundle_bytes ctx)
       (\<lambda>e. e = TypeError \<or> is_value_error e) (\<lambda>_. Inl ObservableApprovalError)"

subsection \<open>Canonical approvals\<close>

definition signing_items :: "VerifiedObservableApproval \<Rightarrow> (pystr \<times> pyval) list" where
  "signing_items v =
     [(u ''schema_version'', PInt 1),
      (u ''observable_commitment'', PStr (hex_of_bytes (va_observable_commitment v))),
      (u ''approver_xonly_public_key'', PStr (hex_of_bytes (va_approver_xonly_public_key v))),
      (u ''purpose'', PStr APPROVAL_PURPOSE),
      (u ''recipient_scope'', PStr (hex_of_bytes (va_recipient_scope v))),
      (u ''network_id'', PStr (va_network_id v)),
      (u ''not_before'', PInt (va_not_before v)),
      (u ''expires_at'', PInt (va_expires_at v)),
      (u ''approval_nonce'', PStr (hex_of_bytes (va_approval_nonce v)))]"

definition approval_items :: "VerifiedObservableApproval \<Rightarrow> bytes \<Rightarrow> (pystr \<times> pyval) list" where
  "approval_items v signature = signing_items v @ [(u ''signature'', PStr (hex_of_bytes signature))]"

definition signing_body :: "VerifiedObservableApproval \<Rightarrow> bytes" where
  "signing_body v = ascii_json (PDict (signing_items v))"

definition approval_text :: "VerifiedObservableApproval \<Rightarrow> bytes \<Rightarrow> bytes" where
  "approval_text v signature = ascii_json (PDict (approval_items v signature))"

text \<open>What an approval must be by itself, and in a context.\<close>

definition approval_wf :: "VerifiedObservableApproval \<Rightarrow> bool" where
  "approval_wf v \<longleftrightarrow>
     length (va_observable_commitment v) = 32 \<and> length (va_approver_xonly_public_key v) = 32 \<and>
     length (va_recipient_scope v) = 32 \<and> length (va_approval_nonce v) = 32 \<and>
     validate_network_id (va_network_id v) = Inr () \<and>
     0 < va_not_before v \<and> va_not_before v < va_expires_at v \<and> va_expires_at v \<le> va_not_before v + 3600 \<and>
     va_expires_at v < 2 ^ 64"

definition approval_ok :: "ObservableApprovalContext \<Rightarrow> VerifiedObservableApproval \<Rightarrow> bool" where
  "approval_ok ctx v \<longleftrightarrow> approval_wf v \<and>
     va_approver_xonly_public_key v = oc_approver_xonly_public_key ctx \<and>
     va_recipient_scope v = oc_recipient_scope ctx \<and> va_network_id v = oc_network_id ctx \<and>
     va_not_before v \<le> oc_current_time ctx \<and> oc_current_time ctx \<le> va_expires_at v"

definition context_ok :: "ObservableApprovalContext \<Rightarrow> bool" where
  "context_ok ctx \<longleftrightarrow>
     length (oc_report_nonce ctx) = 32 \<and> length (oc_approver_xonly_public_key ctx) = 32 \<and>
     length (oc_recipient_scope ctx) = 32 \<and> 0 < oc_current_time ctx \<and> oc_current_time ctx < 2 ^ 64 \<and>
     validate_network_id (oc_network_id ctx) = Inr ()"

lemma raise_oerr_Inr [simp]: "raise_oerr m = Inr x \<longleftrightarrow> m = Inr x"
  by (auto simp: raise_oerr_def split: sum.splits)

lemma signature_case:
  "(case m of None \<Rightarrow> Inl e | Some ok \<Rightarrow> if \<not> ok then Inl e else Inr x) = Inr y \<longleftrightarrow> m = Some True \<and> x = y"
  by (auto split: option.splits)

lemma context_validate_iff: "context_validate ctx = Inr () \<longleftrightarrow> context_ok ctx"
  by (auto simp: context_validate_def context_ok_def FIXED_HASH_BYTES_def UINT64_MAX_def catch_eq_Inr_raise)

lemma decode_fixed_hex_iff:
  "decode_fixed_hex v n = Inr b \<longleftrightarrow> v = PStr (hex_of_bytes b) \<and> length b = n"
proof
  assume "decode_fixed_hex v n = Inr b"
  then obtain s where s: "v = PStr s" "is_lower_hex (n * 2) s" "b = bytes_fromhex s"
    by (auto simp: decode_fixed_hex_def is_hex_val_iff split: if_splits)
  then have "hex_of_bytes b = s" using hex_of_bytes_fromhex [of s] by (auto simp: is_lower_hex_def)
  with s show "v = PStr (hex_of_bytes b) \<and> length b = n"
    by (auto simp: length_bytes_fromhex is_lower_hex_def)
next
  assume "v = PStr (hex_of_bytes b) \<and> length b = n"
  then show "decode_fixed_hex v n = Inr b"
    using is_lower_hex_of_bytes [of b] by (auto simp: decode_fixed_hex_def mult.commute)
qed

lemma approval_terms_iff:
  "approval_terms ctx d = Inr (nb, ea) \<longleftrightarrow>
     dict_at d ''schema_version'' = PInt 1 \<and> dict_at d ''purpose'' = PStr APPROVAL_PURPOSE \<and>
     dict_at d ''network_id'' = PStr (oc_network_id ctx) \<and>
     dict_at d ''not_before'' = PInt nb \<and> dict_at d ''expires_at'' = PInt ea \<and>
     0 < nb \<and> nb < ea \<and> ea \<le> nb + 3600 \<and> ea < 2 ^ 64 \<and>
     nb \<le> oc_current_time ctx \<and> oc_current_time ctx \<le> ea"
  by (auto simp: approval_terms_def APPROVAL_SCHEMA_VERSION_def MAX_APPROVAL_LIFETIME_SECONDS_def UINT64_MAX_def
      is_int_iff Let_def split: if_splits)

lemma expected_commitment_iff:
  "expected_commitment E bw ctx = Inr c \<longleftrightarrow>
     (\<exists>b. parse_canonical E bw = Inr b \<and> obu_disclosure_policy b = REVIEW_REQUIRED_V1 \<and>
        commitment b (PStr (oc_network_id ctx)) (PStr (hex_of_bytes (oc_report_nonce ctx))) = Inr c)"
  by (auto simp: expected_commitment_def catch_eq_Inr_raise split: if_splits)

lemma signing_doc:
  assumes "approval_wf v"
  shows "doc (signing_items v)"
proof -
  have "printable (hex_of_bytes b)" for b
    using printable_lower_hex [OF is_lower_hex_of_bytes] .
  moreover have "printable APPROVAL_PURPOSE" by (simp add: APPROVAL_PURPOSE_def printable_unescaped)
  moreover have "printable (va_network_id v)"
    using assms by (auto simp: approval_wf_def dest!: network_unescaped intro: printable_unescaped)
  ultimately show ?thesis using assms
    by (auto simp: signing_items_def doc_Cons approval_wf_def intro!: printable_unescaped)
qed

lemma approval_doc:
  assumes "approval_wf v"
  shows "doc (approval_items v signature)"
  using signing_doc [OF assms] printable_lower_hex [OF is_lower_hex_of_bytes [of signature]]
  by (auto simp: approval_items_def doc_def signing_items_def intro!: printable_unescaped)

lemma hex_quote_length: "length (json_quote True (hex_of_bytes b)) = 2 * length b + 2"
  using hex_unescaped [OF is_lower_hex_of_bytes [of b]] by (simp add: length_quote_unescaped)

lemma approval_length:
  assumes "approval_wf v" and "length signature = 64"
  shows "length (approval_text v signature) \<le> 775"
proof -
  have "length (json_quote True (va_network_id v)) \<le> 66"
    using assms(1) by (auto simp: approval_wf_def length_quote_unescaped dest!: network_unescaped)
  moreover have "length (json_quote True APPROVAL_PURPOSE) = 22"
    by (simp add: APPROVAL_PURPOSE_def length_quote_unescaped)
  ultimately show ?thesis using doc_length [OF approval_doc [OF assms(1), of signature]] assms
    by (simp add: approval_text_def approval_items_def signing_items_def approval_wf_def
        hex_quote_length length_quote_unescaped)
qed

lemma approval_compact:
  assumes "approval_wf v"
  shows "compact_json (PDict (approval_items v signature)) = Some (approval_text v signature)"
    and "compact_json (PDict (signing_items v)) = Some (signing_body v)"
  using doc_compact [OF approval_doc [OF assms]] doc_compact [OF signing_doc [OF assms]]
  by (simp_all add: approval_text_def signing_body_def)

lemma approval_loads:
  "approval_wf v \<Longrightarrow> 1 \<le> json_depth E \<Longrightarrow>
     loads_utf8 E dup (approval_text v signature) = Inr (PDict (approval_items v signature))"
  unfolding approval_text_def by (intro doc_loads approval_doc)

lemma approval_text_nonempty [simp]: "approval_text v signature \<noteq> []"
  by (simp add: approval_text_def doc_nonempty)

lemma canonical_json_bytes_Inr: "canonical_json_bytes v = Inr w \<longleftrightarrow> compact_json v = Some w"
  by (simp add: canonical_json_bytes_def split: option.splits)

text \<open>The fields of a decoded approval that passes every test but those on bundle and signature are the
  fields of the verified record.\<close>

lemma approval_object_iff:
  "approval_object w v = Inr d \<longleftrightarrow>
     v = PDict d \<and> keys_are approval_fields d \<and> compact_json (PDict (select_fields d approval_fields)) = Some w"
  by (cases v) (auto simp: canonical_json_bytes_Inr split: if_splits)

lemma select_approval_items:
  "select_fields (approval_items v signature) approval_fields = approval_items v signature"
  "select_fields (approval_items v signature) signing_fields = signing_items v"
  "keys_are approval_fields (approval_items v signature)"
  by (simp_all add: select_fields_def approval_fields_def signing_fields_def approval_items_def signing_items_def
      keys_are_def)

lemma select_fields_decoded:
  assumes "dict_at d ''schema_version'' = PInt 1" and "dict_at d ''purpose'' = PStr APPROVAL_PURPOSE"
    and "dict_at d ''network_id'' = PStr (va_network_id v)"
    and "dict_at d ''not_before'' = PInt (va_not_before v)" and "dict_at d ''expires_at'' = PInt (va_expires_at v)"
    and "dict_at d ''observable_commitment'' = PStr (hex_of_bytes (va_observable_commitment v))"
    and "dict_at d ''approver_xonly_public_key'' = PStr (hex_of_bytes (va_approver_xonly_public_key v))"
    and "dict_at d ''recipient_scope'' = PStr (hex_of_bytes (va_recipient_scope v))"
    and "dict_at d ''approval_nonce'' = PStr (hex_of_bytes (va_approval_nonce v))"
    and "dict_at d ''signature'' = PStr (hex_of_bytes signature)"
  shows "select_fields d approval_fields = approval_items v signature"
    "select_fields d signing_fields = signing_items v"
  using assms
  by (simp_all add: select_fields_def approval_fields_def signing_fields_def approval_items_def signing_items_def)

text \<open>The specification of a verified approval.\<close>

definition approval_spec :: "py_env \<Rightarrow> bip340 \<Rightarrow> bytes \<Rightarrow> bytes \<Rightarrow> ObservableApprovalContext \<Rightarrow>
    VerifiedObservableApproval \<Rightarrow> bool" where
  "approval_spec E B aw bw ctx v \<longleftrightarrow> context_ok ctx \<and> approval_ok ctx v \<and>
     (\<exists>signature. length signature = 64 \<and> aw = approval_text v signature \<and>
        schnorr_verify B (va_approver_xonly_public_key v) signature
          (domain_digest APPROVAL_SIGNING_DOMAIN (signing_body v)) = Some True) \<and>
     expected_commitment E bw ctx = Inr (va_observable_commitment v) \<and>
     va_approval_id v = domain_digest APPROVAL_ID_DOMAIN aw"

lemma verify_inner_enc:
  assumes "verify_observable_approval_inner E B aw bw ctx = Inr v"
  shows "approval_spec E B aw bw ctx v"
proof -
  obtain d nb ea oc ap rs an sg body where
    ctx: "context_ok ctx" and obj: "compact_json (PDict (select_fields d approval_fields)) = Some aw"
    and terms: "approval_terms ctx d = Inr (nb, ea)"
    and hex: "dict_at d ''observable_commitment'' = PStr (hex_of_bytes oc)" "length oc = 32"
      "dict_at d ''approver_xonly_public_key'' = PStr (hex_of_bytes ap)"
      "dict_at d ''recipient_scope'' = PStr (hex_of_bytes rs)"
      "dict_at d ''approval_nonce'' = PStr (hex_of_bytes an)" "length an = 32"
      "dict_at d ''signature'' = PStr (hex_of_bytes sg)" "length sg = 64"
    and eq: "ap = oc_approver_xonly_public_key ctx" "rs = oc_recipient_scope ctx"
    and exp: "expected_commitment E bw ctx = Inr oc"
    and body: "compact_json (PDict (select_fields d signing_fields)) = Some body"
    and sig: "schnorr_verify B ap sg (domain_digest APPROVAL_SIGNING_DOMAIN body) = Some True"
    and v: "v = \<lparr>va_approval_id = domain_digest APPROVAL_ID_DOMAIN aw, va_observable_commitment = oc,
      va_approver_xonly_public_key = ap, va_recipient_scope = rs, va_approval_nonce = an,
      va_network_id = the_str (dict_at d ''network_id''), va_not_before = nb, va_expires_at = ea\<rparr>"
    using assms
    by (clarsimp simp: verify_observable_approval_inner_def context_validate_iff approval_object_iff
        decode_fixed_hex_iff canonical_json_bytes_Inr FIXED_HASH_BYTES_def SCHNORR_SIGNATURE_BYTES_def
        signature_case split: if_split_asm)
  note t = terms [unfolded approval_terms_iff]
  have sel: "select_fields d approval_fields = approval_items v sg" "select_fields d signing_fields = signing_items v"
    using t hex by (intro select_fields_decoded; simp add: v)+
  have ok: "approval_ok ctx v" using t hex(2,6) eq ctx by (auto simp: approval_ok_def approval_wf_def context_ok_def v)
  then have wf: "approval_wf v" by (simp add: approval_ok_def)
  have "aw = approval_text v sg" "body = signing_body v"
    using obj body approval_compact [OF wf] by (simp_all add: sel)
  then show ?thesis using ctx ok hex(8) sig exp unfolding approval_spec_def by (auto simp: v)
qed

lemma verify_inner_dec:
  assumes "approval_spec E B aw bw ctx v" and "1 \<le> json_depth E"
  shows "verify_observable_approval_inner E B aw bw ctx = Inr v"
proof -
  obtain sg where ok: "context_ok ctx" "approval_ok ctx v"
    and sg: "length sg = 64" "aw = approval_text v sg"
      "schnorr_verify B (va_approver_xonly_public_key v) sg (domain_digest APPROVAL_SIGNING_DOMAIN (signing_body v)) = Some True"
    and exp: "expected_commitment E bw ctx = Inr (va_observable_commitment v)"
    and id: "va_approval_id v = domain_digest APPROVAL_ID_DOMAIN aw"
    using assms(1) unfolding approval_spec_def by blast
  let ?d = "approval_items v sg"
  have wf: "approval_wf v" using ok(2) by (simp add: approval_ok_def)
  have "loads_utf8 E ObservableApprovalError aw = Inr (PDict ?d)"
    using approval_loads [OF wf assms(2)] by (simp add: sg(2))
  moreover have "approval_object aw (PDict ?d) = Inr ?d"
    using approval_compact(1) [OF wf]
    by (simp add: approval_object_iff select_approval_items sg(2) del: approval_object.simps)
  moreover have "approval_terms ctx ?d = Inr (va_not_before v, va_expires_at v)"
    using ok(2) unfolding approval_terms_iff
    by (simp add: approval_items_def signing_items_def approval_ok_def approval_wf_def)
  moreover have "decode_fixed_hex (dict_at ?d ''observable_commitment'') 32 = Inr (va_observable_commitment v)"
    "decode_fixed_hex (dict_at ?d ''approver_xonly_public_key'') 32 = Inr (va_approver_xonly_public_key v)"
    "decode_fixed_hex (dict_at ?d ''recipient_scope'') 32 = Inr (va_recipient_scope v)"
    "decode_fixed_hex (dict_at ?d ''approval_nonce'') 32 = Inr (va_approval_nonce v)"
    "decode_fixed_hex (dict_at ?d ''signature'') 64 = Inr sg"
    "dict_at ?d ''network_id'' = PStr (va_network_id v)"
    using wf sg(1) unfolding decode_fixed_hex_iff
    by (simp_all add: approval_items_def signing_items_def approval_wf_def)
  moreover have "canonical_json_bytes (PDict (select_fields ?d signing_fields)) = Inr (signing_body v)"
    using approval_compact(2) [OF wf] by (simp add: canonical_json_bytes_Inr select_approval_items)
  moreover have "context_validate ctx = Inr ()" using ok(1) by (simp add: context_validate_iff)
  moreover have "aw \<noteq> []" "length aw \<le> 775"
    using approval_length [OF wf sg(1)] by (simp_all add: sg(2))
  ultimately show ?thesis using ok(2) exp sg(3) id
    by (simp add: verify_observable_approval_inner_def MAX_CANONICAL_APPROVAL_BYTES_def FIXED_HASH_BYTES_def
        SCHNORR_SIGNATURE_BYTES_def approval_ok_def del: approval_object.simps)
qed

lemma approval_verify_iff:
  assumes "1 \<le> json_depth E"
  shows "verify_observable_approval E B aw bw ctx = Inr v \<longleftrightarrow> approval_spec E B aw bw ctx v"
proof -
  have "verify_observable_approval E B aw bw ctx = Inr v \<longleftrightarrow> verify_observable_approval_inner E B aw bw ctx = Inr v"
    by (simp add: verify_observable_approval_def catch_eq_Inr_raise)
  then show ?thesis using verify_inner_enc [of E B aw bw ctx v] verify_inner_dec [OF _ assms, of B aw bw ctx v] by blast
qed

subsection \<open>Commitments and signatures bind\<close>

lemma domain_preimage_inj: "domain_preimage d a = domain_preimage d b \<Longrightarrow> a = b"
  by (simp add: domain_preimage_def)

lemma signing_body_inj:
  assumes "approval_wf v" and "approval_wf v'" and "signing_body v = signing_body v'"
  shows "va_observable_commitment v = va_observable_commitment v' \<and>
    v = v'\<lparr>va_approval_id := va_approval_id v\<rparr>"
proof -
  have "signing_items v = signing_items v'"
    using assms by (intro doc_inj signing_doc) (simp_all add: signing_body_def)
  then show ?thesis by (cases v; cases v') (simp add: signing_items_def)
qed

text \<open>Two bundles with the same commitment are the same, in the same network and for the same report, or
  the commitment preimages collide.\<close>

definition bundle_commitment_collision ::
  "bytes \<Rightarrow> ObservableApprovalContext \<Rightarrow> bytes \<Rightarrow> ObservableApprovalContext \<Rightarrow> bool" where
  "bundle_commitment_collision bw ctx bw' ctx' \<longleftrightarrow>
     sha256_collision (commitment_preimage (oc_network_id ctx) (oc_report_nonce ctx) bw)
       (commitment_preimage (oc_network_id ctx') (oc_report_nonce ctx') bw')"

lemma expected_commitment_preimage:
  assumes "expected_commitment E bw ctx = Inr c"
  shows "c = sha256 (commitment_preimage (oc_network_id ctx) (oc_report_nonce ctx) bw)"
proof -
  obtain b where b: "parse_canonical E bw = Inr b"
    "commitment b (PStr (oc_network_id ctx)) (PStr (hex_of_bytes (oc_report_nonce ctx))) = Inr c"
    using assms by (auto simp: expected_commitment_iff)
  obtain n k where nk: "PStr (oc_network_id ctx) = PStr n" "PStr (hex_of_bytes (oc_report_nonce ctx)) = PStr k"
    "c = sha256 (commitment_preimage n (bytes_fromhex k) (bundle_wire b))"
    using commitment_Inr [OF b(2)] by metis
  have "k = hex_of_bytes (oc_report_nonce ctx)" using nk(2) by simp
  then have "bytes_fromhex k = oc_report_nonce ctx" by simp
  moreover have "bundle_wire b = bw" using parse_canonical_enc [OF b(1)] by simp
  ultimately show ?thesis using nk(1,3) by simp
qed

lemma expected_commitment_binding:
  assumes "expected_commitment E bw ctx = Inr c" and "expected_commitment E' bw' ctx' = Inr c"
    and "context_ok ctx" and "context_ok ctx'"
  shows "bw = bw' \<and> oc_network_id ctx = oc_network_id ctx' \<and> oc_report_nonce ctx = oc_report_nonce ctx' \<or>
    bundle_commitment_collision bw ctx bw' ctx'"
proof -
  let ?p = "commitment_preimage (oc_network_id ctx) (oc_report_nonce ctx) bw"
  let ?q = "commitment_preimage (oc_network_id ctx') (oc_report_nonce ctx') bw'"
  have "sha256 ?p = sha256 ?q"
    using expected_commitment_preimage [OF assms(1)] expected_commitment_preimage [OF assms(2)] by simp
  moreover have "oc_network_id ctx = oc_network_id ctx' \<and> oc_report_nonce ctx = oc_report_nonce ctx' \<and> bw = bw'"
    if "?p = ?q"
    using assms(3,4) network_id_ascii [of "oc_network_id ctx"] network_id_ascii [of "oc_network_id ctx'"]
    by (intro commitment_preimage_inj [OF that]) (auto simp: context_ok_def)
  ultimately show ?thesis unfolding bundle_commitment_collision_def sha256_collision_def by blast
qed

subsection \<open>A concrete approval\<close>

definition ex_review_bundle :: ObservableBundle where
  "ex_review_bundle = ex_bundle\<lparr>obu_disclosure_policy := REVIEW_REQUIRED_V1\<rparr>"

definition ex_context :: ObservableApprovalContext where
  "ex_context =
     \<lparr>oc_report_nonce = replicate 32 1, oc_approver_xonly_public_key = replicate 32 2,
      oc_recipient_scope = replicate 32 3, oc_network_id = u ''mainnet'', oc_current_time = 1700000000\<rparr>"

definition ex_terms :: VerifiedObservableApproval where
  "ex_terms =
     \<lparr>va_approval_id = [],
      va_observable_commitment =
        sha256 (commitment_preimage (u ''mainnet'') (replicate 32 1) (bundle_wire ex_review_bundle)),
      va_approver_xonly_public_key = replicate 32 2, va_recipient_scope = replicate 32 3,
      va_approval_nonce = replicate 32 4, va_network_id = u ''mainnet'',
      va_not_before = 1699999000, va_expires_at = 1700001000\<rparr>"

definition ex_approval_wire :: bytes where
  "ex_approval_wire = approval_text ex_terms (replicate 64 5)"

definition ex_approval :: VerifiedObservableApproval where
  "ex_approval = ex_terms\<lparr>va_approval_id := domain_digest APPROVAL_ID_DOMAIN ex_approval_wire\<rparr>"

lemma ex_review_bundle_canonical: "canonical_bundle ex_review_bundle"
  using ex_bundle_canonical
  by (auto simp: canonical_bundle_def ex_review_bundle_def admissible_def list_all_iff)

lemma ex_approval_spec: "approval_spec ex_env B0 ex_approval_wire (bundle_wire ex_review_bundle) ex_context ex_approval"
proof -
  have ctx: "context_ok ex_context" using mainnet_valid by (simp add: context_ok_def ex_context_def)
  have ok: "approval_ok ex_context ex_approval"
    using mainnet_valid by (simp add: approval_ok_def approval_wf_def ex_approval_def ex_terms_def ex_context_def)
  have p: "parse_canonical ex_env (bundle_wire ex_review_bundle) = Inr ex_review_bundle"
    using ex_review_bundle_canonical by (intro parse_canonical_dec) (simp_all add: ex_env_def)
  have "decode_nonce (hex_of_bytes (replicate 32 1)) = Inr (replicate 32 1)"
    using hex_of_bytes_chars by (simp add: decode_nonce_def NONCE_BYTES_def)
  then have "expected_commitment ex_env (bundle_wire ex_review_bundle) ex_context =
      Inr (va_observable_commitment ex_approval)"
    using p ex_review_bundle_canonical mainnet_valid unfolding expected_commitment_iff
    by (intro exI [of _ ex_review_bundle])
       (simp add: commitment_def NONCE_BYTES_def canonical_bytes_iff ex_context_def ex_approval_def ex_terms_def
         ex_review_bundle_def)
  moreover have "ex_approval_wire = approval_text ex_approval (replicate 64 5)"
    by (simp add: ex_approval_wire_def approval_text_def approval_items_def signing_items_def ex_approval_def)
  ultimately show ?thesis using ctx ok unfolding approval_spec_def
    by (auto simp: schnorr_verify_def B0_def ex_approval_def intro!: exI [of _ "replicate 64 5"])
qed

subsection \<open>Properties\<close>

text \<open>C7. Verification accepts an approval exactly when the context is valid; the wire is the canonical
  text of the returned terms with a 64-byte signature; the terms name the key, recipient and
  network of the context; the current time lies in a window of at most an hour; the bundle parses,
  requires review and has, for the report nonce of the context, the approved commitment; and the
  signature verifies over the domain-separated digest of the unsigned terms.\<close>

theorem approval_verified_iff:
  assumes "1 \<le> json_depth E"
  shows "verify_observable_approval E B aw bw ctx = Inr v \<longleftrightarrow>
    context_ok ctx \<and> approval_ok ctx v \<and>
    (\<exists>signature. length signature = 64 \<and> aw = approval_text v signature \<and>
       schnorr_verify B (va_approver_xonly_public_key v) signature
         (domain_digest APPROVAL_SIGNING_DOMAIN (signing_body v)) = Some True) \<and>
    (\<exists>b. parse_canonical E bw = Inr b \<and> obu_disclosure_policy b = REVIEW_REQUIRED_V1 \<and>
       commitment b (PStr (oc_network_id ctx)) (PStr (hex_of_bytes (oc_report_nonce ctx))) =
         Inr (va_observable_commitment v)) \<and>
    va_approval_id v = domain_digest APPROVAL_ID_DOMAIN aw"
  unfolding approval_verify_iff [OF assms] approval_spec_def expected_commitment_iff ..

theorem approval_verified_iff_witness:
  "verify_observable_approval ex_env B0 ex_approval_wire (bundle_wire ex_review_bundle) ex_context = Inr ex_approval"
proof -
  have d: "1 \<le> json_depth ex_env" by (simp add: ex_env_def)
  show ?thesis unfolding approval_verified_iff [OF d]
    using ex_approval_spec unfolding approval_spec_def expected_commitment_iff .
qed

text \<open>A signed digest approves one bundle for one report and one set of terms: two verified approvals
  whose signed digests agree have the same terms, bundle bytes, network and report nonce, or a
  SHA-256 collision is at hand, of the signed bodies or of the commitment preimages.\<close>

lemma approval_binding:
  assumes "verify_observable_approval E B aw bw ctx = Inr v"
    and "verify_observable_approval E' B' aw' bw' ctx' = Inr v'"
    and "1 \<le> json_depth E" and "1 \<le> json_depth E'"
    and "domain_digest APPROVAL_SIGNING_DOMAIN (signing_body v) = domain_digest APPROVAL_SIGNING_DOMAIN (signing_body v')"
  shows "(v = v'\<lparr>va_approval_id := va_approval_id v\<rparr> \<and> bw = bw' \<and> oc_network_id ctx = oc_network_id ctx' \<and>
      oc_report_nonce ctx = oc_report_nonce ctx') \<or>
    sha256_collision (domain_preimage APPROVAL_SIGNING_DOMAIN (signing_body v))
      (domain_preimage APPROVAL_SIGNING_DOMAIN (signing_body v')) \<or>
    bundle_commitment_collision bw ctx bw' ctx'"
proof (cases "signing_body v = signing_body v'")
  case True
  have a: "approval_spec E B aw bw ctx v" "approval_spec E' B' aw' bw' ctx' v'"
    using assms(1-4) by (simp_all add: approval_verify_iff)
  have "approval_wf v" "approval_wf v'" using a by (simp_all add: approval_spec_def approval_ok_def)
  from signing_body_inj [OF this True]
  have "va_observable_commitment v = va_observable_commitment v'" "v = v'\<lparr>va_approval_id := va_approval_id v\<rparr>" by blast+
  then show ?thesis
    using a expected_commitment_binding [of E bw ctx "va_observable_commitment v" E' bw' ctx'] unfolding approval_spec_def by metis
next
  case False
  then show ?thesis using assms(5) domain_preimage_inj
    by (auto simp: sha256_collision_def domain_digest_def)
qed

end
