(* ===== verification/Hint_Raises.thy ===== *)
theory Hint_Raises
  imports Py_Raises Relation_Manifest Observable_Approval
begin

text \<open>
  The parsers and verifiers of bundles, statements, envelopes, manifests, bindings and approvals raise only
  exceptions that the redacting handlers catch.
\<close>

definition oredactable :: "oerr \<Rightarrow> bool" where
  "oredactable e \<longleftrightarrow> redactable (oerr_exc e)"

lemma oredactable_simps [simp]: "oredactable (Code c)" "oredactable (Raised e) \<longleftrightarrow> redactable e"
  by (simp_all add: oredactable_def)

lemma raises_oerr [raises_intros]: "raises oredactable m \<Longrightarrow> raises redactable (raise_oerr m)"
  by (auto simp: raises_def raise_oerr_def oredactable_def split: sum.splits)

subsection \<open>Bundles\<close>

lemma count_fixed_raises [raises_intros]: "raises oredactable (count_fixed ts n)"
  by (induction ts arbitrary: n) (auto intro!: raises_intros)

lemma validate_observable_raises [raises_intros]: "raises oredactable (validate_observable k v)"
  by (cases k)
     (simp_all only: validate_observable.simps validate_file_sha256_def validate_api_import_def validate_byte_pattern_def,
      (intro raises_intros; simp)+)

lemma validate_network_id_raises [raises_intros]: "raises oredactable (validate_network_id n)"
  unfolding validate_network_id_def by (intro raises_intros; simp)

lemma admit_observable_raises [raises_intros]: "raises oredactable (admit_observable p k v prev seen)"
  unfolding admit_observable_def by (intro raises_intros; simp)

lemma validate_observable_state_raises [raises_intros]: "raises oredactable (validate_observable_state p obs prev seen)"
  by (induction p obs prev seen rule: validate_observable_state.induct) (auto intro!: raises_intros)

lemma parse_observable_raises [raises_intros]: "raises oredactable (parse_observable v)"
  by (cases v) (auto simp: Let_def intro!: raises_intros)

lemma parse_observables_loop_raises [raises_intros]: "raises oredactable (parse_observables_loop p vs prev seen)"
  by (induction p vs prev seen rule: parse_observables_loop.induct) (auto intro!: raises_intros)

lemma parse_observables_raises [raises_intros]: "raises oredactable (parse_observables p v)"
  by (cases v) (auto intro!: raises_intros)

lemma parse_scope_raises [raises_intros]: "raises oredactable (parse_scope v)"
  by (cases v) (auto simp: Let_def intro!: raises_intros)

lemma parse_disclosure_policy_raises [raises_intros]: "raises oredactable (parse_disclosure_policy v)"
  by (cases v) (auto simp: raises_def split: option.splits)

lemma canonical_bytes_raises [raises_intros]: "raises oredactable (canonical_bytes b)"
  unfolding canonical_bytes_def validate_state_def by (intro raises_intros; simp)

lemma parse_bundle_object_raises [raises_intros]: "raises oredactable (parse_bundle_object v)"
  by (cases v) (auto simp: Let_def intro!: raises_intros)

lemma parse_canonical_raises [raises_intros]: "raises oredactable (parse_canonical E w)"
proof -
  have "raises redactable (loads_utf8 E ObservableBundleError w)" by (intro raises_intros) simp
  then show ?thesis
    unfolding parse_canonical_def
    by (cases "loads_utf8 E ObservableBundleError w") (auto simp: raises_def [of redactable] intro!: raises_intros)
qed

lemma commitment_raises [raises_intros]: "raises oredactable (commitment b n k)"
  unfolding commitment_def decode_nonce_def by (intro raises_intros; simp)

subsection \<open>Statements, envelopes and manifests\<close>

lemma exact_int_raises [raises_intros]:
  "raises redactable (exact_int v)" "raises redactable (manifest_exact_int v)" "raises redactable (bounded_int v n)"
  "raises redactable (exact_string v s)" "raises redactable (lower_hex_anchor v)"
  "raises redactable (manifest_validate_network_id v)" "raises redactable (v2_validate_network_id v)"
  "raises redactable (binding_validate_network_id v)" "raises redactable (validate_anchor v)"
  "raises redactable (exact_schema_version v)" "raises redactable (exact_identifier v s)"
  "raises redactable (parse_disclosure_class v)" "is_value_error e \<Longrightarrow> raises redactable (fixed_lower_hex e v)"
  by (simp_all add: raises_def exact_int_def bounded_int_def manifest_exact_int_def exact_string_def lower_hex_anchor_def
      manifest_validate_network_id_def v2_validate_network_id_def binding_validate_network_id_def validate_anchor_def
      exact_schema_version_def exact_identifier_def parse_disclosure_class_def fixed_lower_hex_def)

lemma proof_hex_raises [raises_intros]: "raises redactable (proof_hex v)"
  by (cases v) (simp_all add: proof_hex_def raises_def)

lemma parse_statement_object_raises [raises_intros]: "raises redactable (parse_statement_object v)"
  by (cases v) (simp_all only: parse_statement_object.simps, (intro raises_intros; simp)+)

lemma statement_canonical_bytes_raises [raises_intros]: "raises redactable (statement_canonical_bytes reg s)"
  unfolding statement_canonical_bytes_def statement_validate_state_def by (intro raises_intros; simp)

lemma statement_digest_raises [raises_intros]: "raises redactable (statement_digest reg s)"
  unfolding statement_digest_def by (intro raises_intros)

lemma parse_statement_raises [raises_intros]: "raises redactable (parse_statement E w tn)"
  unfolding parse_statement_def by (intro raises_intros; simp)

lemma parse_envelope_statement_raises [raises_intros]: "raises redactable (parse_envelope_statement E s tn)"
  unfolding parse_envelope_statement_def
  by (intro raises_intros; simp)

lemma parse_envelope_object_raises [raises_intros]: "raises redactable (parse_envelope_object E v tn)"
  by (cases v) (simp_all only: parse_envelope_object.simps, (intro raises_intros; simp)+)

lemma envelope_validate_state_raises [raises_intros]: "raises redactable (envelope_validate_state e)"
  unfolding envelope_validate_state_def by (intro raises_intros; simp)

lemma envelope_canonical_bytes_raises [raises_intros]: "raises redactable (envelope_canonical_bytes reg e)"
  unfolding envelope_canonical_bytes_def by (intro raises_intros; simp)

lemma parse_envelope_raises [raises_intros]: "raises redactable (parse_envelope E w tn)"
  unfolding parse_envelope_def by (intro raises_intros; simp)

lemma parse_manifest_object_raises [raises_intros]: "raises redactable (parse_manifest_object v)"
  by (cases v) (simp_all only: parse_manifest_object.simps, (intro raises_intros; simp)+)

lemma manifest_validate_state_raises [raises_intros]: "raises redactable (manifest_validate_state m)"
  unfolding manifest_validate_state_def by (intro raises_intros; simp)

lemma manifest_canonical_bytes_raises [raises_intros]: "raises redactable (manifest_canonical_bytes reg m)"
  unfolding manifest_canonical_bytes_def by (intro raises_intros; simp)

lemma parse_manifest_raises [raises_intros]: "raises redactable (parse_manifest E w tn)"
  unfolding parse_manifest_def by (intro raises_intros; simp)

subsection \<open>Bindings and approvals\<close>

lemma statement_digest_hex_raises [raises_intros]: "raises redactable (statement_digest_hex m e)"
  unfolding statement_digest_hex_def by (intro raises_intros)

lemma binding_validate_state_raises [raises_intros]: "raises redactable (binding_validate_state s b)"
  unfolding binding_validate_state_def by (intro raises_intros; simp)

lemma bind_canonical_raises [raises_intros]: "raises redactable (bind_canonical E we wm tn a)"
  unfolding bind_canonical_def by (intro raises_intros; simp)

lemma context_validate_raises [raises_intros]: "raises redactable (context_validate ctx)"
  unfolding context_validate_def by (intro raises_intros; simp)

lemma decode_fixed_hex_raises [raises_intros]: "raises redactable (decode_fixed_hex v n)"
  by (simp add: decode_fixed_hex_def raises_def)

lemma canonical_json_bytes_raises [raises_intros]: "raises redactable (canonical_json_bytes v)"
  by (simp add: canonical_json_bytes_def raises_def split: option.splits)

lemma approval_object_raises [raises_intros]: "raises redactable (approval_object w v)"
  by (cases v) (simp_all only: approval_object.simps, (intro raises_intros; simp)+)

lemma approval_terms_raises [raises_intros]: "raises redactable (approval_terms ctx d)"
  by (simp add: approval_terms_def raises_def Let_def)

lemma expected_commitment_raises [raises_intros]: "raises redactable (expected_commitment E w ctx)"
  unfolding expected_commitment_def by (intro raises_intros; simp)

lemma verify_observable_approval_raises [raises_intros]: "raises redactable (verify_observable_approval E B aw bw ctx)"
  unfolding verify_observable_approval_def verify_observable_approval_inner_def by (intro raises_intros; simp)

end
