(* ===== verification/Threat_Hint_Preflight.thy ===== *)
theory Threat_Hint_Preflight
  imports Owner_File Hint_Raises
begin

text \<open>
  The two preflights of a version 2 threat hint: \<open>threat_hint_v2_preflight.py\<close> binds envelope, manifest, bundle and
  approval against one owner policy, and \<open>threat_hint_v2_verified_preflight.py\<close> also runs a hash-pinned verifier
  on the same envelope. Neither changes any state. Parameters: the decoder \<open>toml\<close> of policy and configuration
  files (\<open>None\<close> for text it rejects), signature verification, the file system and the return code of the verifier process.
\<close>

subsection \<open>The policy of the preflight\<close>

record ThreatHintV2PreflightPolicy =
  pp_network_id :: pystr
  pp_approver_xonly_public_key :: bytes
  pp_recipient_scope :: bytes
  pp_relation_manifest_sha256_hex :: pystr

record ThreatHintV2PreflightReceipt =
  pr_statement_digest :: bytes
  pr_approval_id :: bytes
  pr_observable_commitment :: bytes
  pr_raw_manifest_sha256_hex :: pystr
  pr_envelope_sha256_hex :: pystr

definition PREFLIGHT_POLICY_SCHEMA_VERSION :: int where
  "PREFLIGHT_POLICY_SCHEMA_VERSION = 1"

definition preflight_policy_fields :: "string list" where
  "preflight_policy_fields =
     [''schema_version'', ''network_id'', ''approver_xonly_public_key'', ''recipient_scope'', ''relation_manifest_sha256'']"

definition decode_fixed_lower_hex :: "pyval \<Rightarrow> pyexc + bytes" where
  "decode_fixed_lower_hex v =
     (if is_hex_val (FIXED_HASH_BYTES * 2) v then Inr (bytes_fromhex (the_str v)) else Inl ThreatHintV2PreflightError)"

definition decode_manifest_anchor :: "pyval \<Rightarrow> pyexc + pystr" where
  "decode_manifest_anchor v =
     (if is_str v \<and> is_anchor (the_str v) then Inr (the_str v) else Inl ThreatHintV2PreflightError)"

definition preflight_policy_of :: "pyval \<Rightarrow> pyexc + ThreatHintV2PreflightPolicy" where
  "preflight_policy_of data =
     (case data of
        PDict d \<Rightarrow>
          (if \<not> keys_are preflight_policy_fields d then Inl ThreatHintV2PreflightError
           else if dict_at d ''schema_version'' \<noteq> PInt PREFLIGHT_POLICY_SCHEMA_VERSION then Inl ThreatHintV2PreflightError
           else if \<not> is_str (dict_at d ''network_id'') then Inl ThreatHintV2PreflightError
           else let network_id = the_str (dict_at d ''network_id'')
                in rbind (catch (raise_oerr (validate_network_id network_id)) is_value_error
                            (\<lambda>_. Inl ThreatHintV2PreflightError)) (\<lambda>_.
                   rbind (decode_fixed_lower_hex (dict_at d ''approver_xonly_public_key'')) (\<lambda>approver.
                   rbind (decode_fixed_lower_hex (dict_at d ''recipient_scope'')) (\<lambda>scope.
                   rbind (decode_manifest_anchor (dict_at d ''relation_manifest_sha256'')) (\<lambda>anchor.
                   Inr \<lparr>pp_network_id = network_id, pp_approver_xonly_public_key = approver,
                        pp_recipient_scope = scope, pp_relation_manifest_sha256_hex = anchor\<rparr>)))))
      | _ \<Rightarrow> Inl ThreatHintV2PreflightError)"

text \<open>\<open>tomllib.loads(contents.decode("ascii"))\<close>: the decoder sees ASCII texts only.\<close>

definition toml_ascii :: "(pystr \<Rightarrow> pyval option) \<Rightarrow> bytes \<Rightarrow> pyval option" where
  "toml_ascii toml contents = (if list_all (\<lambda>b. b < 128) contents then toml (map unat contents) else None)"

definition load_preflight_policy ::
  "(pystr \<Rightarrow> pyval option) \<Rightarrow> nat \<Rightarrow> file_view \<Rightarrow> pyexc + ThreatHintV2PreflightPolicy" where
  "load_preflight_policy toml uid f =
     rbind (read_owner_policy_file uid f) (\<lambda>contents.
     case toml_ascii toml contents of
       None \<Rightarrow> Inl ThreatHintV2PreflightError
     | Some data \<Rightarrow> preflight_policy_of data)"

subsection \<open>The preflight\<close>

text \<open>The context in which the approval is verified.\<close>

definition policy_context :: "ThreatHintV2PreflightPolicy \<Rightarrow> bytes \<Rightarrow> int \<Rightarrow> ObservableApprovalContext" where
  "policy_context policy report_nonce current_time =
     \<lparr>oc_report_nonce = report_nonce, oc_approver_xonly_public_key = pp_approver_xonly_public_key policy,
      oc_recipient_scope = pp_recipient_scope policy, oc_network_id = pp_network_id policy,
      oc_current_time = current_time\<rparr>"

definition preflight_inner ::
  "py_env \<Rightarrow> bip340 \<Rightarrow> ThreatHintV2PreflightPolicy \<Rightarrow> bytes \<Rightarrow> bytes \<Rightarrow> bytes \<Rightarrow> bytes \<Rightarrow> bytes \<Rightarrow> int \<Rightarrow>
     pyexc + ThreatHintV2PreflightReceipt" where
  "preflight_inner E B policy env_bytes manifest_bytes bundle_bytes approval_bytes report_nonce current_time =
     (if length report_nonce \<noteq> FIXED_HASH_BYTES \<or> current_time < 1 \<or> U64_MAX < current_time
      then Inl ThreatHintV2PreflightError
      else rbind (bind_canonical E env_bytes manifest_bytes (PStr (pp_network_id policy))
                    (PStr (pp_relation_manifest_sha256_hex policy))) (\<lambda>(binding, snapshot).
           let statement = pe_parsed_statement (pb_envelope binding);
               registered = utf8_encode (pe_statement (pb_envelope binding))
           in rbind (raise_if (vs_disclosure_class statement \<noteq> DC_REVIEW_REQUIRED_V1) ThreatHintV2PreflightError) (\<lambda>_.
              rbind (raise_if (vs_report_nonce statement \<noteq> hex_of_bytes report_nonce) ThreatHintV2PreflightError) (\<lambda>_.
              rbind (raise_oerr (parse_canonical E bundle_bytes)) (\<lambda>bundle.
              rbind (raise_if (obu_disclosure_policy bundle \<noteq> REVIEW_REQUIRED_V1) ThreatHintV2PreflightError) (\<lambda>_.
              rbind (raise_oerr (commitment bundle (PStr (pp_network_id policy))
                                   (PStr (hex_of_bytes report_nonce)))) (\<lambda>observable_commitment.
              rbind (raise_if (observable_commitment \<noteq> bytes_fromhex (vs_observable_commitment statement))
                       ThreatHintV2PreflightError) (\<lambda>_.
              rbind (verify_observable_approval E B approval_bytes bundle_bytes
                       (policy_context policy report_nonce current_time)) (\<lambda>verified.
              rbind (raise_if (va_observable_commitment verified \<noteq> observable_commitment \<or>
                               va_network_id verified \<noteq> pp_network_id policy) ThreatHintV2PreflightError) (\<lambda>_.
              rbind (statement_digest registered statement) (\<lambda>digest.
              rbind (binding_validate_state (Some snapshot) binding) (\<lambda>_.
              rbind (raise_if (hex_of_bytes digest \<noteq> bs_statement_digest_hex snapshot) ThreatHintV2PreflightError) (\<lambda>_.
              Inr \<lparr>pr_statement_digest = digest, pr_approval_id = va_approval_id verified,
                   pr_observable_commitment = observable_commitment,
                   pr_raw_manifest_sha256_hex = bs_raw_manifest_sha256_hex snapshot,
                   pr_envelope_sha256_hex = sha256_hex env_bytes\<rparr>)))))))))))))"

definition preflight ::
  "py_env \<Rightarrow> bip340 \<Rightarrow> ThreatHintV2PreflightPolicy \<Rightarrow> bytes \<Rightarrow> bytes \<Rightarrow> bytes \<Rightarrow> bytes \<Rightarrow> bytes \<Rightarrow> int \<Rightarrow>
     pyexc + ThreatHintV2PreflightReceipt" where
  "preflight E B policy env_bytes manifest_bytes bundle_bytes approval_bytes report_nonce current_time =
     redact ThreatHintV2PreflightError
       (preflight_inner E B policy env_bytes manifest_bytes bundle_bytes approval_bytes report_nonce current_time)"

subsection \<open>The verified preflight\<close>

record VerifiedPreflightConfig =
  vc_verifier_executable_path :: "pystr list"
  vc_verifier_executable_sha256_hex :: pystr
  vc_relation_manifest_path :: "pystr list"
  vc_verifier_timeout_ms :: int

record ThreatHintV2VerifiedPreflightReceipt =
  vr_statement_digest :: bytes
  vr_approval_id :: bytes
  vr_observable_commitment :: bytes
  vr_raw_manifest_sha256_hex :: pystr
  vr_envelope_sha256_hex :: pystr
  vr_verifier_executable_sha256_hex :: pystr

definition VERIFIED_PREFLIGHT_CONFIG_SCHEMA_VERSION :: int where
  "VERIFIED_PREFLIGHT_CONFIG_SCHEMA_VERSION = 1"
definition MAX_VERIFIED_PREFLIGHT_CONFIG_BYTES :: nat where
  "MAX_VERIFIED_PREFLIGHT_CONFIG_BYTES = 4096"
definition MIN_VERIFIER_TIMEOUT_MS :: int where
  "MIN_VERIFIER_TIMEOUT_MS = 100"
definition MAX_VERIFIER_TIMEOUT_MS :: int where
  "MAX_VERIFIER_TIMEOUT_MS = 60000"

definition config_fields :: "string list" where
  "config_fields =
     [''schema_version'', ''verifier_executable_path'', ''verifier_executable_sha256'', ''relation_manifest_path'',
      ''verifier_timeout_ms'']"

definition decode_nonzero_lower_sha256 :: "pyval \<Rightarrow> pyexc + pystr" where
  "decode_nonzero_lower_sha256 v =
     (if is_str v \<and> is_anchor (the_str v) then Inr (the_str v) else Inl ThreatHintV2VerifiedPreflightUnavailableError)"

definition config_of :: "pyval \<Rightarrow> pyexc + VerifiedPreflightConfig" where
  "config_of data =
     (case data of
        PDict d \<Rightarrow>
          (if \<not> keys_are config_fields d then Inl ThreatHintV2VerifiedPreflightUnavailableError
           else if dict_at d ''schema_version'' \<noteq> PInt VERIFIED_PREFLIGHT_CONFIG_SCHEMA_VERSION \<or>
                   \<not> int_in MIN_VERIFIER_TIMEOUT_MS MAX_VERIFIER_TIMEOUT_MS (dict_at d ''verifier_timeout_ms'')
           then Inl ThreatHintV2VerifiedPreflightUnavailableError
           else rbind (decode_absolute_path (dict_at d ''verifier_executable_path'')) (\<lambda>executable_path.
                rbind (decode_absolute_path (dict_at d ''relation_manifest_path'')) (\<lambda>manifest_path.
                rbind (decode_nonzero_lower_sha256 (dict_at d ''verifier_executable_sha256'')) (\<lambda>executable_sha256.
                Inr \<lparr>vc_verifier_executable_path = executable_path,
                     vc_verifier_executable_sha256_hex = executable_sha256,
                     vc_relation_manifest_path = manifest_path,
                     vc_verifier_timeout_ms = the_int (dict_at d ''verifier_timeout_ms'')\<rparr>))))
      | _ \<Rightarrow> Inl ThreatHintV2VerifiedPreflightUnavailableError)"

definition load_config ::
  "(pystr \<Rightarrow> pyval option) \<Rightarrow> nat \<Rightarrow> pystr list \<Rightarrow> file_view \<Rightarrow> pyexc + VerifiedPreflightConfig" where
  "load_config toml uid path f =
     rbind (read_owner_file uid path f MAX_VERIFIED_PREFLIGHT_CONFIG_BYTES True True) (\<lambda>config_bytes.
     case toml_ascii toml config_bytes of
       None \<Rightarrow> Inl ThreatHintV2VerifiedPreflightUnavailableError
     | Some data \<Rightarrow> config_of data)"

definition validate_call_inputs :: "bytes \<Rightarrow> bytes \<Rightarrow> int \<Rightarrow> pyexc + unit" where
  "validate_call_inputs env_bytes report_nonce current_time =
     raise_if (\<not> (0 < length env_bytes \<and> length env_bytes \<le> MAX_CANONICAL_V2_PROOF_ENVELOPE_BYTES) \<or>
               length report_nonce \<noteq> FIXED_HASH_BYTES \<or> \<not> (1 \<le> current_time \<and> current_time \<le> U64_MAX))
       ThreatHintV2VerifiedPreflightError"

text \<open>
  The world of one call: the user id, the files by path, whether the verifier lock is free, and the verifier
  process. \<open>pw_run executable manifest anchor network envelope timeout_ms\<close> is its return code, \<open>None\<close> when it times out
  or cannot be run.
\<close>

record preflight_world =
  pw_uid :: nat
  pw_fs :: "pystr list \<Rightarrow> file_view"
  pw_lock_free :: bool
  pw_run :: "bytes \<Rightarrow> pystr list \<Rightarrow> pystr \<Rightarrow> pystr \<Rightarrow> bytes \<Rightarrow> int \<Rightarrow> int option"

definition constant_time_hex_digest_matches :: "bytes \<Rightarrow> pystr \<Rightarrow> bool" where
  "constant_time_hex_digest_matches contents expected_hex \<longleftrightarrow> sha256 contents = bytes_fromhex expected_hex"

definition invoke_verifier ::
  "preflight_world \<Rightarrow> VerifiedPreflightConfig \<Rightarrow> ThreatHintV2PreflightPolicy \<Rightarrow> bytes \<Rightarrow> bytes \<Rightarrow> pyexc + int" where
  "invoke_verifier W config policy executable env_bytes =
     os_ok ThreatHintV2VerifiedPreflightUnavailableError
       (pw_run W executable (vc_relation_manifest_path config) (pp_relation_manifest_sha256_hex policy)
          (pp_network_id policy) env_bytes (vc_verifier_timeout_ms config))"

definition build_receipt :: "ThreatHintV2PreflightReceipt \<Rightarrow> pystr \<Rightarrow> ThreatHintV2VerifiedPreflightReceipt" where
  "build_receipt r executable_sha256_hex =
     \<lparr>vr_statement_digest = pr_statement_digest r, vr_approval_id = pr_approval_id r,
      vr_observable_commitment = pr_observable_commitment r,
      vr_raw_manifest_sha256_hex = pr_raw_manifest_sha256_hex r,
      vr_envelope_sha256_hex = pr_envelope_sha256_hex r,
      vr_verifier_executable_sha256_hex = executable_sha256_hex\<rparr>"

record ThreatHintV2VerifiedPreflightService =
  vp_config :: VerifiedPreflightConfig
  vp_policy :: ThreatHintV2PreflightPolicy

text \<open>\<open>__init__\<close>: the configuration is loaded first.\<close>

definition verified_preflight_service ::
  "(pystr \<Rightarrow> pyval option) \<Rightarrow> preflight_world \<Rightarrow> pystr list \<Rightarrow> pystr list \<Rightarrow> pyexc + ThreatHintV2VerifiedPreflightService" where
  "verified_preflight_service toml W config_path policy_path =
     rbind (load_config toml (pw_uid W) config_path (pw_fs W config_path)) (\<lambda>config.
     rbind (load_preflight_policy toml (pw_uid W) (pw_fs W policy_path)) (\<lambda>policy.
     Inr \<lparr>vp_config = config, vp_policy = policy\<rparr>))"

definition verified_preflight ::
  "py_env \<Rightarrow> bip340 \<Rightarrow> preflight_world \<Rightarrow> ThreatHintV2VerifiedPreflightService \<Rightarrow> bytes \<Rightarrow> bytes \<Rightarrow> bytes \<Rightarrow> bytes \<Rightarrow> int \<Rightarrow>
     pyexc + ThreatHintV2VerifiedPreflightReceipt" where
  "verified_preflight E B W S env_bytes bundle_bytes approval_bytes report_nonce current_time =
     rbind (validate_call_inputs env_bytes report_nonce current_time) (\<lambda>_.
     rbind (read_owner_file (pw_uid W) (vc_relation_manifest_path (vp_config S))
              (pw_fs W (vc_relation_manifest_path (vp_config S))) MAX_CANONICAL_V2_MANIFEST_BYTES True True) (\<lambda>manifest_bytes.
     rbind (raise_if (\<not> constant_time_hex_digest_matches manifest_bytes (pp_relation_manifest_sha256_hex (vp_policy S)))
              ThreatHintV2VerifiedPreflightUnavailableError) (\<lambda>_.
     rbind (catch (preflight E B (vp_policy S) env_bytes manifest_bytes bundle_bytes approval_bytes report_nonce current_time)
              (\<lambda>e. e = ThreatHintV2PreflightError) (\<lambda>_. Inl ThreatHintV2VerifiedPreflightError)) (\<lambda>receipt.
     rbind (raise_if (sha256_hex env_bytes \<noteq> pr_envelope_sha256_hex receipt)
              ThreatHintV2VerifiedPreflightUnavailableError) (\<lambda>_.
     rbind (raise_if (\<not> pw_lock_free W) ThreatHintV2VerifiedPreflightBusyError) (\<lambda>_.
     rbind (validate_and_hash_executable (pw_uid W) (pw_fs W (vc_verifier_executable_path (vp_config S)))
              (vc_verifier_executable_sha256_hex (vp_config S))) (\<lambda>executable.
     rbind (invoke_verifier W (vp_config S) (vp_policy S) executable env_bytes) (\<lambda>return_code.
     if return_code = 1 then Inl ThreatHintV2VerifiedPreflightError
     else if return_code \<noteq> 0 then Inl ThreatHintV2VerifiedPreflightUnavailableError
     else Inr (build_receipt receipt (vc_verifier_executable_sha256_hex (vp_config S)))))))))))"

subsection \<open>What a preflight establishes\<close>

definition preflight_spec ::
  "py_env \<Rightarrow> bip340 \<Rightarrow> ThreatHintV2PreflightPolicy \<Rightarrow> bytes \<Rightarrow> bytes \<Rightarrow> bytes \<Rightarrow> bytes \<Rightarrow> bytes \<Rightarrow> int \<Rightarrow>
     ThreatHintV2ProofEnvelope \<Rightarrow> RelationManifestV2 \<Rightarrow> VerifiedObservableApproval \<Rightarrow> bool" where
  "preflight_spec E B policy we wm bw aw nonce t e m v \<longleftrightarrow>
     bound_pair e m \<and> we = envelope_wire e \<and> wm = manifest_wire m \<and> rm_network_id m = pp_network_id policy \<and>
     pp_relation_manifest_sha256_hex policy = sha256_hex wm \<and> is_anchor (sha256_hex wm) \<and>
     vs_disclosure_class (pe_parsed_statement e) = DC_REVIEW_REQUIRED_V1 \<and>
     vs_report_nonce (pe_parsed_statement e) = hex_of_bytes nonce \<and>
     vs_observable_commitment (pe_parsed_statement e) = hex_of_bytes (va_observable_commitment v) \<and>
     approval_spec E B aw bw (policy_context policy nonce t) v"

definition receipt_of :: "ThreatHintV2ProofEnvelope \<Rightarrow> bytes \<Rightarrow> VerifiedObservableApproval \<Rightarrow> ThreatHintV2PreflightReceipt" where
  "receipt_of e wm v =
     \<lparr>pr_statement_digest = sha256 (statement_preimage (statement_wire (pe_parsed_statement e))),
      pr_approval_id = va_approval_id v, pr_observable_commitment = va_observable_commitment v,
      pr_raw_manifest_sha256_hex = sha256_hex wm, pr_envelope_sha256_hex = sha256_hex (envelope_wire e)\<rparr>"

lemma fromhex_eq_iff:
  "is_lower_hex 64 h \<Longrightarrow> bytes_fromhex h = c \<longleftrightarrow> h = hex_of_bytes c"
  using hex_of_bytes_fromhex [of h] by (auto simp: is_lower_hex_def)

lemma valid_envelope_facts:
  assumes "valid_envelope e"
  shows "is_lower_hex 64 (vs_observable_commitment (pe_parsed_statement e))"
    "statement_digest (utf8_encode (pe_statement e)) (pe_parsed_statement e) = Inr d \<longleftrightarrow>
       d = sha256 (statement_preimage (statement_wire (pe_parsed_statement e)))"
    "pe_statement_digest e = hex_of_bytes (sha256 (statement_preimage (statement_wire (pe_parsed_statement e))))"
  using assms
  by (auto simp: valid_envelope_def valid_statement_def statement_digest_iff statement_text_utf8 sha256_hex_def)

lemma preflight_iff:
  assumes "1 \<le> json_depth E"
  shows "preflight E B policy we wm bw aw nonce t = Inr r \<longleftrightarrow>
    (\<exists>e m v. preflight_spec E B policy we wm bw aw nonce t e m v \<and> r = receipt_of e wm v)"
proof
  assume "preflight E B policy we wm bw aw nonce t = Inr r"
  then have p: "preflight_inner E B policy we wm bw aw nonce t = Inr r" by (simp add: preflight_def)
  then obtain b s where bs: "bind_canonical E we wm (PStr (pp_network_id policy))
      (PStr (pp_relation_manifest_sha256_hex policy)) = Inr (b, s)"
    by (auto simp: preflight_inner_def split: if_splits)
  then obtain e m where em: "bound_pair e m" "we = envelope_wire e" "wm = manifest_wire m"
      "pp_network_id policy = rm_network_id m" "pp_relation_manifest_sha256_hex policy = sha256_hex wm"
      "is_anchor (sha256_hex wm)" "b = \<lparr>pb_envelope = e, pb_manifest = m\<rparr>" "s = snapshot_of e m"
    by (auto simp: bind_canonical_iff [OF assms])
  have ve: "valid_envelope e" using em(1) by (simp add: bound_pair_def)
  obtain v where v: "vs_disclosure_class (pe_parsed_statement e) = DC_REVIEW_REQUIRED_V1"
      "vs_report_nonce (pe_parsed_statement e) = hex_of_bytes nonce"
      "va_observable_commitment v = bytes_fromhex (vs_observable_commitment (pe_parsed_statement e))"
      "verify_observable_approval E B aw bw (policy_context policy nonce t) = Inr v"
    using p bs by (auto simp: preflight_inner_def Let_def em(7) split: if_split_asm)
  have "r = receipt_of e wm v"
    using p
    by (clarsimp simp: preflight_inner_def Let_def bs em(7) v(1-4) valid_envelope_facts(2) [OF ve] receipt_of_def
        split: if_split_asm) (simp add: em(2,3,8) snapshot_of_def)
  moreover have "vs_observable_commitment (pe_parsed_statement e) = hex_of_bytes (va_observable_commitment v)"
    using v(3) fromhex_eq_iff [OF valid_envelope_facts(1) [OF ve]] by metis
  ultimately show "\<exists>e m v. preflight_spec E B policy we wm bw aw nonce t e m v \<and> r = receipt_of e wm v"
    using em v(1,2,4) by (auto simp: preflight_spec_def approval_verify_iff [OF assms] intro!: exI [of _ e] exI [of _ m] exI [of _ v])
next
  assume "\<exists>e m v. preflight_spec E B policy we wm bw aw nonce t e m v \<and> r = receipt_of e wm v"
  then obtain e m v where p: "preflight_spec E B policy we wm bw aw nonce t e m v" and r: "r = receipt_of e wm v" by blast
  have b: "bound_pair e m" and a: "approval_spec E B aw bw (policy_context policy nonce t) v"
    using p by (simp_all add: preflight_spec_def)
  have ve: "valid_envelope e" using b by (simp add: bound_pair_def)
  have "bind_canonical E we wm (PStr (pp_network_id policy)) (PStr (pp_relation_manifest_sha256_hex policy)) =
      Inr (\<lparr>pb_envelope = e, pb_manifest = m\<rparr>, snapshot_of e m)"
    using p unfolding bind_canonical_iff [OF assms] preflight_spec_def by metis
  moreover have "verify_observable_approval E B aw bw (policy_context policy nonce t) = Inr v"
    using a by (simp add: approval_verify_iff [OF assms])
  moreover obtain bd where "parse_canonical E bw = Inr bd" "obu_disclosure_policy bd = REVIEW_REQUIRED_V1"
      "commitment bd (PStr (pp_network_id policy)) (PStr (hex_of_bytes nonce)) = Inr (va_observable_commitment v)"
    using a by (auto simp: approval_spec_def expected_commitment_iff policy_context_def)
  moreover have "length nonce = 32" "1 \<le> t" "t \<le> U64_MAX" "va_network_id v = pp_network_id policy"
    using a by (auto simp: approval_spec_def context_ok_def approval_ok_def policy_context_def U64_MAX_def)
  moreover have "bytes_fromhex (vs_observable_commitment (pe_parsed_statement e)) = va_observable_commitment v"
    using p by (simp add: preflight_spec_def)
  moreover have "statement_digest (utf8_encode (pe_statement e)) (pe_parsed_statement e) =
      Inr (sha256 (statement_preimage (statement_wire (pe_parsed_statement e))))"
    "hex_of_bytes (sha256 (statement_preimage (statement_wire (pe_parsed_statement e)))) = bs_statement_digest_hex (snapshot_of e m)"
    using valid_envelope_facts(2,3) [OF ve] by (auto simp: snapshot_of_def)
  moreover have "binding_validate_state (Some (snapshot_of e m)) \<lparr>pb_envelope = e, pb_manifest = m\<rparr> = Inr ()"
    using binding_validate_state_iff [OF b] by blast
  ultimately have "preflight_inner E B policy we wm bw aw nonce t = Inr r"
    using p by (simp add: preflight_inner_def Let_def FIXED_HASH_BYTES_def preflight_spec_def r receipt_of_def)
      (simp add: snapshot_of_def)
  then show "preflight E B policy we wm bw aw nonce t = Inr r" by (simp add: preflight_def)
qed

lemma preflight_error: "raises (\<lambda>e. e = ThreatHintV2PreflightError) (preflight E B policy we wm bw aw nonce t)"
proof -
  have "raises redactable (preflight_inner E B policy we wm bw aw nonce t)"
    unfolding preflight_inner_def by (intro raises_intros; simp)
  then show ?thesis unfolding raises_def [of "\<lambda>e. e = ThreatHintV2PreflightError"] preflight_def
    using redact_Inl by blast
qed

lemma preflight_spec_inputs:
  assumes "preflight_spec E B policy we wm bw aw nonce t e m v"
  shows "validate_call_inputs we nonce t = Inr ()"
    "constant_time_hex_digest_matches wm (pp_relation_manifest_sha256_hex policy)"
    "pr_envelope_sha256_hex (receipt_of e wm v) = sha256_hex we"
proof -
  have "valid_envelope e" "we = envelope_wire e" using assms by (simp_all add: preflight_spec_def bound_pair_def)
  then have "0 < length we" "length we \<le> 4096"
    using envelope_length [of e] doc_nonempty [of "envelope_items e"] by (simp_all add: envelope_wire_def)
  then show "validate_call_inputs we nonce t = Inr ()"
    using assms by (simp add: validate_call_inputs_def preflight_spec_def approval_spec_def context_ok_def
        policy_context_def MAX_CANONICAL_V2_PROOF_ENVELOPE_BYTES_def FIXED_HASH_BYTES_def U64_MAX_def)
  show "constant_time_hex_digest_matches wm (pp_relation_manifest_sha256_hex policy)"
    "pr_envelope_sha256_hex (receipt_of e wm v) = sha256_hex we"
    using assms
    by (simp_all add: preflight_spec_def constant_time_hex_digest_matches_def receipt_of_def sha256_hex_def)
qed

text \<open>The proof was accepted by the pinned verifier, for these envelope bytes and the pinned manifest.\<close>

definition proof_verified :: "preflight_world \<Rightarrow> ThreatHintV2VerifiedPreflightService \<Rightarrow> bytes \<Rightarrow> bool" where
  "proof_verified W S we \<longleftrightarrow>
     (\<exists>x. validate_and_hash_executable (pw_uid W) (pw_fs W (vc_verifier_executable_path (vp_config S)))
            (vc_verifier_executable_sha256_hex (vp_config S)) = Inr x \<and>
          pw_run W x (vc_relation_manifest_path (vp_config S)) (pp_relation_manifest_sha256_hex (vp_policy S))
            (pp_network_id (vp_policy S)) we (vc_verifier_timeout_ms (vp_config S)) = Some 0)"

definition manifest_read :: "preflight_world \<Rightarrow> ThreatHintV2VerifiedPreflightService \<Rightarrow> pyexc + bytes" where
  "manifest_read W S =
     read_owner_file (pw_uid W) (vc_relation_manifest_path (vp_config S))
       (pw_fs W (vc_relation_manifest_path (vp_config S))) MAX_CANONICAL_V2_MANIFEST_BYTES True True"

definition verified_receipt_of ::
  "ThreatHintV2VerifiedPreflightService \<Rightarrow> ThreatHintV2ProofEnvelope \<Rightarrow> bytes \<Rightarrow> VerifiedObservableApproval \<Rightarrow>
     ThreatHintV2VerifiedPreflightReceipt" where
  "verified_receipt_of S e wm v = build_receipt (receipt_of e wm v) (vc_verifier_executable_sha256_hex (vp_config S))"

definition verified_spec ::
  "py_env \<Rightarrow> bip340 \<Rightarrow> preflight_world \<Rightarrow> ThreatHintV2VerifiedPreflightService \<Rightarrow> bytes \<Rightarrow> bytes \<Rightarrow> bytes \<Rightarrow> bytes \<Rightarrow>
     int \<Rightarrow> bytes \<Rightarrow> ThreatHintV2ProofEnvelope \<Rightarrow> RelationManifestV2 \<Rightarrow> VerifiedObservableApproval \<Rightarrow> bool" where
  "verified_spec E B W S we bw aw nonce t wm e m v \<longleftrightarrow>
     manifest_read W S = Inr wm \<and> preflight_spec E B (vp_policy S) we wm bw aw nonce t e m v \<and>
     pw_lock_free W \<and> proof_verified W S we"

lemma verified_preflight_enc:
  assumes "verified_preflight E B W S we bw aw nonce t = Inr r" and "1 \<le> json_depth E"
  shows "\<exists>wm e m v. verified_spec E B W S we bw aw nonce t wm e m v \<and> r = verified_receipt_of S e wm v"
proof -
  obtain wm rc where r: "manifest_read W S = Inr wm" "preflight E B (vp_policy S) we wm bw aw nonce t = Inr rc"
      "pw_lock_free W" "proof_verified W S we" "r = build_receipt rc (vc_verifier_executable_sha256_hex (vp_config S))"
    using assms(1)
    by (clarsimp simp: verified_preflight_def manifest_read_def [symmetric] catch_eq_Inr_raise proof_verified_def
        invoke_verifier_def split: if_split_asm)
  obtain e m v where "preflight_spec E B (vp_policy S) we wm bw aw nonce t e m v" "rc = receipt_of e wm v"
    using r(2) by (auto simp: preflight_iff [OF assms(2)])
  with r show ?thesis unfolding verified_spec_def verified_receipt_of_def by blast
qed

lemma verified_preflight_dec:
  assumes "verified_spec E B W S we bw aw nonce t wm e m v" and "1 \<le> json_depth E"
  shows "verified_preflight E B W S we bw aw nonce t = Inr (verified_receipt_of S e wm v)"
proof -
  have p: "preflight_spec E B (vp_policy S) we wm bw aw nonce t e m v" and f: "manifest_read W S = Inr wm" "pw_lock_free W"
    using assms(1) by (simp_all add: verified_spec_def)
  obtain x where x: "validate_and_hash_executable (pw_uid W) (pw_fs W (vc_verifier_executable_path (vp_config S)))
        (vc_verifier_executable_sha256_hex (vp_config S)) = Inr x"
      "pw_run W x (vc_relation_manifest_path (vp_config S)) (pp_relation_manifest_sha256_hex (vp_policy S))
        (pp_network_id (vp_policy S)) we (vc_verifier_timeout_ms (vp_config S)) = Some 0"
    using assms(1) by (auto simp: verified_spec_def proof_verified_def)
  have "preflight E B (vp_policy S) we wm bw aw nonce t = Inr (receipt_of e wm v)"
    using p by (auto simp: preflight_iff [OF assms(2)])
  with f x preflight_spec_inputs [OF p] show ?thesis
    by (simp add: verified_preflight_def manifest_read_def [symmetric] invoke_verifier_def os_ok_def
        verified_receipt_of_def)
qed

lemma verified_preflight_iff:
  assumes "1 \<le> json_depth E"
  shows "verified_preflight E B W S we bw aw nonce t = Inr r \<longleftrightarrow>
    (\<exists>wm e m v. verified_spec E B W S we bw aw nonce t wm e m v \<and> r = verified_receipt_of S e wm v)"
  by (metis verified_preflight_enc [OF _ assms] verified_preflight_dec [OF _ assms])

text \<open>The three errors of the verified preflight.\<close>

definition verified_error :: "pyexc \<Rightarrow> bool" where
  "verified_error e \<longleftrightarrow> e \<in> {ThreatHintV2VerifiedPreflightError, ThreatHintV2VerifiedPreflightUnavailableError,
     ThreatHintV2VerifiedPreflightBusyError}"

lemma verified_preflight_error: "raises verified_error (verified_preflight E B W S we bw aw nonce t)"
proof -
  have "raises verified_error (manifest_read W S)"
    unfolding manifest_read_def by (rule raises_mono [OF read_owner_file_error]) (simp add: verified_error_def)
  moreover have "raises verified_error (validate_and_hash_executable u f x)" for u f x
    by (rule raises_mono [OF executable_error]) (simp add: verified_error_def)
  moreover have "raises verified_error (catch (preflight E B (vp_policy S) we wm bw aw nonce t)
      (\<lambda>e. e = ThreatHintV2PreflightError) (\<lambda>_. Inl ThreatHintV2VerifiedPreflightError))" for wm
    by (rule raises_catch, rule raises_mono [OF preflight_error]) (simp_all add: verified_error_def)
  moreover have "raises verified_error (invoke_verifier W c p x w)" for c p x w
    unfolding invoke_verifier_def by (intro raises_intros) (simp add: verified_error_def)
  ultimately show ?thesis
    unfolding verified_preflight_def manifest_read_def [symmetric] validate_call_inputs_def
    by (intro raises_intros; simp add: verified_error_def)
qed

text \<open>A busy verifier is reported only for a candidate that passed every other check.\<close>

lemma verified_preflight_busy:
  assumes "verified_preflight E B W S we bw aw nonce t = Inl ThreatHintV2VerifiedPreflightBusyError"
    and "1 \<le> json_depth E"
  shows "\<not> pw_lock_free W \<and>
    (\<exists>wm e m v. manifest_read W S = Inr wm \<and> preflight_spec E B (vp_policy S) we wm bw aw nonce t e m v)"
proof -
  have n: "manifest_read W S \<noteq> Inl ThreatHintV2VerifiedPreflightBusyError"
    unfolding manifest_read_def using raisesD [OF read_owner_file_error] by fastforce
  have x: "validate_and_hash_executable u f h \<noteq> Inl ThreatHintV2VerifiedPreflightBusyError" for u f h
    using executable_error [of u f h] by (auto dest!: raisesD)
  have p: "catch (preflight E B (vp_policy S) we wm bw aw nonce t) (\<lambda>e. e = ThreatHintV2PreflightError)
      (\<lambda>_. Inl ThreatHintV2VerifiedPreflightError) \<noteq> Inl ThreatHintV2VerifiedPreflightBusyError" for wm
    using preflight_error [of E B "vp_policy S" we wm bw aw nonce t]
    by (auto simp: catch_def dest!: raisesD split: sum.splits)
  have i: "invoke_verifier W c q y w \<noteq> Inl ThreatHintV2VerifiedPreflightBusyError" for c q y w
    by (simp add: invoke_verifier_def os_ok_def split: option.splits)
  obtain wm rc where "manifest_read W S = Inr wm" "preflight E B (vp_policy S) we wm bw aw nonce t = Inr rc" "\<not> pw_lock_free W"
    using assms(1) n x p i
    by (clarsimp simp: verified_preflight_def manifest_read_def [symmetric] validate_call_inputs_def rbind_eq_Inl
        catch_eq_Inr_raise split: if_split_asm)
  then show ?thesis by (auto simp: preflight_iff [OF assms(2)])
qed

lemma verified_preflight_invalid:
  assumes "verified_preflight E B W S we bw aw nonce t = Inl ThreatHintV2VerifiedPreflightError"
  shows "validate_call_inputs we nonce t = Inl ThreatHintV2VerifiedPreflightError \<or>
    (\<exists>wm. manifest_read W S = Inr wm \<and>
       preflight E B (vp_policy S) we wm bw aw nonce t = Inl ThreatHintV2PreflightError) \<or>
    (\<exists>y. pw_run W y (vc_relation_manifest_path (vp_config S)) (pp_relation_manifest_sha256_hex (vp_policy S))
       (pp_network_id (vp_policy S)) we (vc_verifier_timeout_ms (vp_config S)) = Some 1)"
proof -
  have n: "manifest_read W S \<noteq> Inl ThreatHintV2VerifiedPreflightError"
    unfolding manifest_read_def using raisesD [OF read_owner_file_error] by fastforce
  have x: "validate_and_hash_executable u f h \<noteq> Inl ThreatHintV2VerifiedPreflightError" for u f h
    using executable_error [of u f h] by (auto dest!: raisesD)
  have p: "preflight E B (vp_policy S) we wm bw aw nonce t = Inl ThreatHintV2PreflightError"
    if "catch (preflight E B (vp_policy S) we wm bw aw nonce t) (\<lambda>e. e = ThreatHintV2PreflightError)
      (\<lambda>_. Inl ThreatHintV2VerifiedPreflightError) = Inl ThreatHintV2VerifiedPreflightError" for wm
    using that preflight_error [of E B "vp_policy S" we wm bw aw nonce t]
    by (auto simp: catch_def dest!: raisesD split: sum.splits if_splits)
  have i: "invoke_verifier W c q y w \<noteq> Inl ThreatHintV2VerifiedPreflightError" for c q y w
    by (simp add: invoke_verifier_def os_ok_def split: option.splits)
  from assms n x i show ?thesis
    by (auto simp: verified_preflight_def manifest_read_def [symmetric] rbind_eq_Inl invoke_verifier_def
        dest: p split: if_split_asm)
qed

subsection \<open>A concrete hint\<close>

definition ex_hint_statement :: ThreatHintV2Statement where
  "ex_hint_statement = ex_statement\<lparr>vs_disclosure_class := DC_REVIEW_REQUIRED_V1,
     vs_report_nonce := hex_of_bytes (oc_report_nonce ex_context),
     vs_observable_commitment := hex_of_bytes (va_observable_commitment ex_approval)\<rparr>"

definition ex_hint_envelope :: ThreatHintV2ProofEnvelope where
  "ex_hint_envelope = envelope_of ex_hint_statement (replicate 64 97)"

definition ex_preflight_policy :: ThreatHintV2PreflightPolicy where
  "ex_preflight_policy =
     \<lparr>pp_network_id = u ''mainnet'', pp_approver_xonly_public_key = replicate 32 2,
      pp_recipient_scope = replicate 32 3, pp_relation_manifest_sha256_hex = sha256_hex (manifest_wire ex_manifest)\<rparr>"

definition ex_service :: ThreatHintV2VerifiedPreflightService where
  "ex_service =
     \<lparr>vp_config = \<lparr>vc_verifier_executable_path = [u ''verify''], vc_verifier_executable_sha256_hex = sha256_hex [1],
                   vc_relation_manifest_path = [u ''manifest''], vc_verifier_timeout_ms = 1000\<rparr>,
      vp_policy = ex_preflight_policy\<rparr>"

definition ex_file :: "nat \<Rightarrow> bytes \<Rightarrow> file_view" where
  "ex_file mode c =
     (let st = \<lparr>st_mode = mode, st_uid = 1000, st_dev = 1, st_ino = 2, st_size = length c\<rparr>
      in \<lparr>fv_resolved_same = True,
          fv_ancestors = [Some \<lparr>st_mode = 16832, st_uid = 1000, st_dev = 1, st_ino = 1, st_size = 4096\<rparr>],
          fv_before = Some st, fv_opened = Some st, fv_content = Some c, fv_sizes = [0], fv_after = Some st\<rparr>)"

text \<open>The manifest is a private regular file, the verifier an executable that accepts.\<close>

definition ex_world :: preflight_world where
  "ex_world =
     \<lparr>pw_uid = 1000,
      pw_fs = (\<lambda>path. if path = [u ''verify''] then ex_file 33216 [1] else ex_file 33152 (manifest_wire ex_manifest)),
      pw_lock_free = True, pw_run = (\<lambda>x mp anchor net w timeout. Some 0)\<rparr>"

lemma ex_hint_statement_valid: "valid_statement ex_hint_statement"
proof -
  have "length (va_observable_commitment ex_approval) = 32" "length (oc_report_nonce ex_context) = 32"
    using ex_approval_spec by (simp_all add: approval_spec_def approval_ok_def approval_wf_def context_ok_def)
  then show ?thesis
    using ex_statement_valid is_lower_hex_of_bytes [of "va_observable_commitment ex_approval"]
      is_lower_hex_of_bytes [of "oc_report_nonce ex_context"]
    by (simp add: ex_hint_statement_def valid_statement_def)
qed

lemma ex_hint_spec:
  assumes "is_anchor (sha256_hex (manifest_wire ex_manifest))"
  shows "preflight_spec ex_env B0 ex_preflight_policy (envelope_wire ex_hint_envelope) (manifest_wire ex_manifest)
    (bundle_wire ex_review_bundle) ex_approval_wire (oc_report_nonce ex_context) (oc_current_time ex_context)
    ex_hint_envelope ex_manifest ex_approval"
proof -
  have "policy_context ex_preflight_policy (oc_report_nonce ex_context) (oc_current_time ex_context) = ex_context"
    by (simp add: policy_context_def ex_preflight_policy_def ex_context_def)
  moreover have "valid_envelope ex_hint_envelope"
    using ex_hint_statement_valid ex_proof_valid by (simp add: ex_hint_envelope_def valid_envelope_of)
  ultimately show ?thesis
    using assms ex_approval_spec ex_manifest_valid
    by (simp add: preflight_spec_def bound_pair_def)
       (simp add: ex_hint_envelope_def envelope_of_def ex_hint_statement_def ex_manifest_def manifest_of_def
         ex_preflight_policy_def ex_statement_def)
qed

lemma ex_manifest_read: "manifest_read ex_world ex_service = Inr (manifest_wire ex_manifest)"
proof -
  have "manifest_wire ex_manifest \<noteq> []" by (simp add: manifest_wire_def doc_nonempty)
  then show ?thesis
    using manifest_length [OF ex_manifest_valid]
    by (simp add: manifest_read_def ex_world_def ex_service_def read_owner_file_def ex_file_def Let_def os_parent_def
        os_ok_def S_ISDIR_def S_ISREG_def group_world_def special_bits_def plain_path_def read_descriptor_def read_loop_eq
        MAX_CANONICAL_V2_MANIFEST_BYTES_def u_def)
qed

lemma ex_proof_verified: "proof_verified ex_world ex_service w"
  by (simp add: proof_verified_def ex_world_def ex_service_def validate_and_hash_executable_def ex_file_def Let_def
      os_ok_def S_ISDIR_def S_ISREG_def group_world_write_def special_bits_def owner_exec_def sticky_def
      is_safe_executable_ancestor_def read_descriptor_def read_loop_eq MAX_VERIFIER_EXECUTABLE_BYTES_def u_def)

subsection \<open>Properties\<close>

text \<open>C36. The verified preflight returns a receipt exactly when the owner's manifest file can be read
  and has the pinned digest; the envelope and the manifest are canonical, bound to each other and to the network
  of the policy; the statement of the envelope requires review and carries the trusted report nonce; the approval
  is valid for the bundle under the key, scope and network of the policy at the given time; the approved commitment is the
  one the proof's statement claims; and the pinned verifier executable returns 0 on the same envelope bytes.
  The receipt holds the digests of exactly these objects.\<close>

theorem verified_preflight_sound:
  assumes "1 \<le> json_depth E"
  shows "verified_preflight E B W S we bw aw nonce t = Inr r \<longleftrightarrow>
    (\<exists>wm e m v x.
       read_owner_file (pw_uid W) (vc_relation_manifest_path (vp_config S))
         (pw_fs W (vc_relation_manifest_path (vp_config S))) MAX_CANONICAL_V2_MANIFEST_BYTES True True = Inr wm \<and>
       pp_relation_manifest_sha256_hex (vp_policy S) = sha256_hex wm \<and> is_anchor (sha256_hex wm) \<and>
       parse_manifest E wm (PStr (pp_network_id (vp_policy S))) = Inr m \<and>
       parse_envelope E we (PStr (pp_network_id (vp_policy S))) = Inr e \<and>
       vs_disclosure_class (pe_parsed_statement e) = DC_REVIEW_REQUIRED_V1 \<and>
       vs_report_nonce (pe_parsed_statement e) = hex_of_bytes nonce \<and>
       verify_observable_approval E B aw bw (policy_context (vp_policy S) nonce t) = Inr v \<and>
       vs_observable_commitment (pe_parsed_statement e) = hex_of_bytes (va_observable_commitment v) \<and>
       pw_lock_free W \<and>
       validate_and_hash_executable (pw_uid W) (pw_fs W (vc_verifier_executable_path (vp_config S)))
         (vc_verifier_executable_sha256_hex (vp_config S)) = Inr x \<and>
       pw_run W x (vc_relation_manifest_path (vp_config S)) (sha256_hex wm) (pp_network_id (vp_policy S)) we
         (vc_verifier_timeout_ms (vp_config S)) = Some 0 \<and>
       r = verified_receipt_of S e wm v)" (is "?l \<longleftrightarrow> ?r")
proof
  assume ?l
  then obtain wm e m v where s: "verified_spec E B W S we bw aw nonce t wm e m v" "r = verified_receipt_of S e wm v"
    by (auto simp: verified_preflight_iff [OF assms])
  then have p: "bound_pair e m" "we = envelope_wire e" "wm = manifest_wire m" "pp_network_id (vp_policy S) = rm_network_id m"
    by (simp_all add: verified_spec_def preflight_spec_def)
  have "parse_manifest E wm (PStr (pp_network_id (vp_policy S))) = Inr m"
    "parse_envelope E we (PStr (pp_network_id (vp_policy S))) = Inr e"
    using p parse_manifest_dec [OF _ assms, of m] parse_envelope_dec [OF _ assms, of e] by (simp_all add: bound_pair_def)
  with s show ?r
    unfolding verified_spec_def preflight_spec_def proof_verified_def manifest_read_def approval_verify_iff [OF assms] by metis
next
  assume ?r
  then obtain wm e m v where s: "manifest_read W S = Inr wm" "pp_relation_manifest_sha256_hex (vp_policy S) = sha256_hex wm"
      "is_anchor (sha256_hex wm)" "parse_manifest E wm (PStr (pp_network_id (vp_policy S))) = Inr m"
      "parse_envelope E we (PStr (pp_network_id (vp_policy S))) = Inr e"
      "vs_disclosure_class (pe_parsed_statement e) = DC_REVIEW_REQUIRED_V1"
      "vs_report_nonce (pe_parsed_statement e) = hex_of_bytes nonce"
      "verify_observable_approval E B aw bw (policy_context (vp_policy S) nonce t) = Inr v"
      "vs_observable_commitment (pe_parsed_statement e) = hex_of_bytes (va_observable_commitment v)"
      "pw_lock_free W" "proof_verified W S we" "r = verified_receipt_of S e wm v"
    unfolding manifest_read_def proof_verified_def by metis
  have "bound_pair e m" "we = envelope_wire e" "wm = manifest_wire m" "rm_network_id m = pp_network_id (vp_policy S)"
    using parse_manifest_enc [OF s(4)] parse_envelope_enc [OF s(5)] by (auto simp: bound_pair_def)
  with s have "verified_spec E B W S we bw aw nonce t wm e m v"
    unfolding verified_spec_def preflight_spec_def approval_verify_iff [OF assms] by blast
  then show ?l using verified_preflight_dec [OF _ assms] s(12) by blast
qed

theorem verified_preflight_sound_witness:
  "(\<exists>r. verified_preflight ex_env B0 ex_world ex_service (envelope_wire ex_hint_envelope) (bundle_wire ex_review_bundle)
      ex_approval_wire (oc_report_nonce ex_context) (oc_current_time ex_context) = Inr r) \<longleftrightarrow>
     is_anchor (sha256_hex (manifest_wire ex_manifest))"
  (is "(\<exists>r. ?p = Inr r) \<longleftrightarrow> ?a")
proof
  have d: "1 \<le> json_depth ex_env" by (simp add: ex_env_def)
  assume "\<exists>r. ?p = Inr r"
  then obtain r where "?p = Inr r" by blast
  then have "\<exists>wm. is_anchor (sha256_hex wm) \<and> manifest_read ex_world ex_service = Inr wm"
    unfolding verified_preflight_sound [OF d] manifest_read_def by blast
  then show ?a by (simp add: ex_manifest_read)
next
  have d: "1 \<le> json_depth ex_env" by (simp add: ex_env_def)
  assume ?a
  then have "verified_spec ex_env B0 ex_world ex_service (envelope_wire ex_hint_envelope) (bundle_wire ex_review_bundle)
      ex_approval_wire (oc_report_nonce ex_context) (oc_current_time ex_context) (manifest_wire ex_manifest)
      ex_hint_envelope ex_manifest ex_approval"
    using ex_hint_spec by (simp add: verified_spec_def ex_manifest_read ex_proof_verified) (simp add: ex_service_def ex_world_def)
  then show "\<exists>r. ?p = Inr r" using verified_preflight_dec [OF _ d] by blast
qed

text \<open>Every failure of the verified preflight is one of its three redacted errors, and the error tells who is to
  blame. \<open>Busy\<close> is raised only for a candidate that passes the whole preflight while another call holds the verifier.
  The candidate's own error is raised only if the inputs are malformed, the preflight rejects
  them or the verifier returns 1.\<close>

lemma verified_preflight_errors:
  assumes "verified_preflight E B W S we bw aw nonce t = Inl x" and "1 \<le> json_depth E"
  shows "x \<in> {ThreatHintV2VerifiedPreflightError, ThreatHintV2VerifiedPreflightUnavailableError,
      ThreatHintV2VerifiedPreflightBusyError} \<and>
    (x = ThreatHintV2VerifiedPreflightBusyError \<longrightarrow> \<not> pw_lock_free W \<and>
      (\<exists>wm r. manifest_read W S = Inr wm \<and> preflight E B (vp_policy S) we wm bw aw nonce t = Inr r)) \<and>
    (x = ThreatHintV2VerifiedPreflightError \<longrightarrow>
      validate_call_inputs we nonce t = Inl ThreatHintV2VerifiedPreflightError \<or>
      (\<exists>wm. manifest_read W S = Inr wm \<and>
         preflight E B (vp_policy S) we wm bw aw nonce t = Inl ThreatHintV2PreflightError) \<or>
      (\<exists>y. pw_run W y (vc_relation_manifest_path (vp_config S)) (pp_relation_manifest_sha256_hex (vp_policy S))
         (pp_network_id (vp_policy S)) we (vc_verifier_timeout_ms (vp_config S)) = Some 1))"
proof (intro conjI impI)
  show "x \<in> {ThreatHintV2VerifiedPreflightError, ThreatHintV2VerifiedPreflightUnavailableError,
      ThreatHintV2VerifiedPreflightBusyError}"
    using raisesD [OF verified_preflight_error assms(1)] by (simp add: verified_error_def)
next
  assume "x = ThreatHintV2VerifiedPreflightBusyError"
  then show "\<not> pw_lock_free W"
    and "\<exists>wm r. manifest_read W S = Inr wm \<and> preflight E B (vp_policy S) we wm bw aw nonce t = Inr r"
    using verified_preflight_busy [of E B W S we bw aw nonce t] assms by (auto simp: preflight_iff [OF assms(2)])
next
  assume "x = ThreatHintV2VerifiedPreflightError"
  then show "validate_call_inputs we nonce t = Inl ThreatHintV2VerifiedPreflightError \<or>
      (\<exists>wm. manifest_read W S = Inr wm \<and>
         preflight E B (vp_policy S) we wm bw aw nonce t = Inl ThreatHintV2PreflightError) \<or>
      (\<exists>y. pw_run W y (vc_relation_manifest_path (vp_config S)) (pp_relation_manifest_sha256_hex (vp_policy S))
         (pp_network_id (vp_policy S)) we (vc_verifier_timeout_ms (vp_config S)) = Some 1)"
    using assms(1) by (intro verified_preflight_invalid) simp
qed

end
