(* ===== verification/Hint_Policies.thy ===== *)
theory Hint_Policies
  imports Threat_Hint_Preflight
begin

text \<open>
  The owner policies behind the consumption of approvals: governance (\<open>threat_hint_v2_governance.py\<close>), outbox
  retention (\<open>outbox_retention_policy.py\<close>) and the policy of the consumption service
  (\<open>observable_approval_consumption.py\<close>). Their files are read by the same checked read; the TOML decoder is the parameter
  \<open>toml\<close>, and decoded values are JSON-like values.
\<close>

subsection \<open>The shared checked read\<close>

definition MAX_POLICY_BYTES :: nat where
  "MAX_POLICY_BYTES = 4096"

text \<open>The test of a policy file that the three modules repeat with their own error \<open>e\<close>.\<close>

definition read_policy_file :: "pyexc \<Rightarrow> nat \<Rightarrow> pystr list \<Rightarrow> file_view \<Rightarrow> pyexc + bytes" where
  "read_policy_file e uid path f =
     (if \<not> plain_path path then Inl e
      else rbind (os_parent e f) (\<lambda>parent_stat.
           rbind (os_ok e (fv_before f)) (\<lambda>before.
           rbind (raise_if (\<not> fv_resolved_same f \<or> \<not> is_safe_policy_parent uid parent_stat \<or>
                            \<not> is_safe_policy_file uid before) e) (\<lambda>_.
           rbind (os_ok e (fv_opened f)) (\<lambda>opened.
           rbind (raise_if (\<not> is_same_policy_file uid before opened) e) (\<lambda>_.
           rbind (os_ok e (fv_content f)) (\<lambda>content.
           let contents = read_loop (64 * 1024) (MAX_POLICY_BYTES + 1) (fv_sizes f) content
           in if MAX_POLICY_BYTES < length contents then Inl e
              else if length contents \<noteq> st_size before then Inl e
              else Inr contents)))))))"

text \<open>\<open>_validate_expected_identity\<close> and the field parsers, again with the error of their module.\<close>

definition validate_expected_identity :: "pyexc \<Rightarrow> pystr \<Rightarrow> bytes \<Rightarrow> bytes \<Rightarrow> pyexc + unit" where
  "validate_expected_identity e network approver scope =
     (if length approver \<noteq> FIXED_HASH_BYTES \<or> length scope \<noteq> FIXED_HASH_BYTES then Inl e
      else catch (raise_oerr (validate_network_id network)) is_value_error (\<lambda>_. Inl e))"

definition policy_network :: "pyexc \<Rightarrow> pyval \<Rightarrow> pyexc + pystr" where
  "policy_network e v =
     (if \<not> is_str v then Inl e
      else rbind (catch (raise_oerr (validate_network_id (the_str v))) is_value_error (\<lambda>_. Inl e)) (\<lambda>_. Inr (the_str v)))"

definition policy_hex :: "pyexc \<Rightarrow> pyval \<Rightarrow> pyexc + bytes" where
  "policy_hex e v = (if is_hex_val (FIXED_HASH_BYTES * 2) v then Inr (bytes_fromhex (the_str v)) else Inl e)"

definition parse_bounded_int :: "pyexc \<Rightarrow> pyval \<Rightarrow> int \<Rightarrow> pyexc + int" where
  "parse_bounded_int e v maximum = (if int_in 1 maximum v then Inr (the_int v) else Inl e)"

definition parse_fixed_string :: "pyexc \<Rightarrow> pyval \<Rightarrow> pystr \<Rightarrow> pyexc + pystr" where
  "parse_fixed_string e v expected = (if v = PStr expected then Inr expected else Inl e)"

definition parse_policy_document ::
  "pyexc \<Rightarrow> (pystr \<Rightarrow> pyval option) \<Rightarrow> string list \<Rightarrow> bytes \<Rightarrow> pyexc + (pystr \<times> pyval) list" where
  "parse_policy_document e toml names contents =
     (case toml_ascii toml contents of
        Some (PDict d) \<Rightarrow>
          (if \<not> keys_are names d then Inl e
           else if dict_at d ''schema_version'' \<noteq> PInt 1 then Inl e
           else Inr d)
      | _ \<Rightarrow> Inl e)"

text \<open>Network, key and scope of a policy, compared with the expected ones.\<close>

definition policy_identity ::
  "pyexc \<Rightarrow> (pystr \<times> pyval) list \<Rightarrow> pystr \<Rightarrow> bytes \<Rightarrow> bytes \<Rightarrow> pyexc + unit" where
  "policy_identity e d network approver scope =
     rbind (policy_network e (dict_at d ''network_id'')) (\<lambda>network_id.
     rbind (policy_hex e (dict_at d ''approver_xonly_public_key'')) (\<lambda>key.
     rbind (policy_hex e (dict_at d ''recipient_scope'')) (\<lambda>recipient_scope.
     raise_if (network_id \<noteq> network \<or> key \<noteq> approver \<or> recipient_scope \<noteq> scope) e)))"

subsection \<open>Governance\<close>

definition MAX_AUTHORITY_EPOCH :: int where
  "MAX_AUTHORITY_EPOCH = 2 ^ 63 - 1"
definition MAX_AUTHORITY_INSTANT :: int where
  "MAX_AUTHORITY_INSTANT = 2 ^ 64 - 1"
definition RECIPIENT_PURPOSE_V1 :: pystr where
  "RECIPIENT_PURPOSE_V1 = u ''guardian_local_analysis_v1''"
definition RECIPIENT_BOUNDARY_V1 :: pystr where
  "RECIPIENT_BOUNDARY_V1 = u ''same_guardian_owner_v1''"
definition EXTERNAL_DISCLOSURE_DENY_V1 :: pystr where
  "EXTERNAL_DISCLOSURE_DENY_V1 = u ''deny_v1''"
definition DECISION_DENY_V1 :: pystr where
  "DECISION_DENY_V1 = u ''deny_v1''"

fun decision_allow_token :: "ObservableKind \<Rightarrow> pystr" where
  "decision_allow_token FILE_SHA256 = u ''allow_local_analysis_corpus_matchable_v1''"
| "decision_allow_token API_IMPORT = u ''allow_local_analysis_software_fingerprint_v1''"
| "decision_allow_token BYTE_PATTERN = u ''allow_local_analysis_content_derived_v1''"

record ThreatHintV2GovernancePolicy =
  gp_network_id :: pystr
  gp_approver_xonly_public_key :: bytes
  gp_recipient_scope :: bytes
  gp_authority_epoch :: int
  gp_authority_not_before :: int
  gp_authority_not_after :: int
  gp_recipient_purpose :: pystr
  gp_recipient_boundary :: pystr
  gp_external_disclosure :: pystr
  gp_observable_decisions :: "ObservableKind \<Rightarrow> pystr"
  gp_allowed_observable_kinds :: "ObservableKind set"
  gp_policy_sha256 :: bytes

definition governance_fields :: "string list" where
  "governance_fields =
     [''schema_version'', ''network_id'', ''approver_xonly_public_key'', ''recipient_scope'', ''authority_epoch'',
      ''authority_not_before'', ''authority_not_after'', ''recipient_purpose'', ''recipient_boundary'',
      ''external_disclosure'', ''observable_decisions'']"

definition observable_kinds :: "ObservableKind list" where
  "observable_kinds = [FILE_SHA256, API_IMPORT, BYTE_PATTERN]"

definition parse_authority_window :: "pyval \<Rightarrow> pyval \<Rightarrow> pyexc + int \<times> int" where
  "parse_authority_window not_before not_after =
     rbind (parse_bounded_int ThreatHintV2GovernancePolicyError not_before MAX_AUTHORITY_INSTANT) (\<lambda>b.
     rbind (parse_bounded_int ThreatHintV2GovernancePolicyError not_after MAX_AUTHORITY_INSTANT) (\<lambda>a.
     if a \<le> b then Inl ThreatHintV2GovernancePolicyError else Inr (b, a)))"

text \<open>The loop over the kinds: each decision is to deny or the token of its kind.\<close>

definition parse_decision :: "(pystr \<times> pyval) list \<Rightarrow> ObservableKind \<Rightarrow> pyexc + ObservableKind \<times> pystr" where
  "parse_decision d kind =
     (case dict_get d (kind_value kind) of
        Some (PStr decision) \<Rightarrow>
          (if decision = DECISION_DENY_V1 \<or> decision = decision_allow_token kind then Inr (kind, decision)
           else Inl ThreatHintV2GovernancePolicyError)
      | _ \<Rightarrow> Inl ThreatHintV2GovernancePolicyError)"

definition decision_of :: "(ObservableKind \<times> pystr) list \<Rightarrow> ObservableKind \<Rightarrow> pystr" where
  "decision_of ds kind = (case map_of ds kind of Some t \<Rightarrow> t | None \<Rightarrow> [])"

definition parse_observable_decisions :: "pyval \<Rightarrow> pyexc + (ObservableKind \<Rightarrow> pystr) \<times> ObservableKind set" where
  "parse_observable_decisions v =
     (case v of
        PDict d \<Rightarrow>
          (if set (dict_keys d) \<noteq> set (map kind_value observable_kinds) then Inl ThreatHintV2GovernancePolicyError
           else rbind (rmap (parse_decision d) observable_kinds) (\<lambda>ds.
                let allowed = map fst (filter (\<lambda>(kind, decision). decision \<noteq> DECISION_DENY_V1) ds)
                in if allowed = [] then Inl ThreatHintV2GovernancePolicyError
                   else Inr (decision_of ds, set allowed)))
      | _ \<Rightarrow> Inl ThreatHintV2GovernancePolicyError)"

definition load_threat_hint_v2_governance_policy ::
  "(pystr \<Rightarrow> pyval option) \<Rightarrow> nat \<Rightarrow> pystr list \<Rightarrow> file_view \<Rightarrow> pystr \<Rightarrow> bytes \<Rightarrow> bytes \<Rightarrow>
     pyexc + ThreatHintV2GovernancePolicy" where
  "load_threat_hint_v2_governance_policy toml uid path f network approver scope =
     (let e = ThreatHintV2GovernancePolicyError
      in rbind (validate_expected_identity e network approver scope) (\<lambda>_.
         rbind (read_policy_file e uid path f) (\<lambda>contents.
         rbind (parse_policy_document e toml governance_fields contents) (\<lambda>d.
         rbind (policy_identity e d network approver scope) (\<lambda>_.
         rbind (parse_bounded_int e (dict_at d ''authority_epoch'') MAX_AUTHORITY_EPOCH) (\<lambda>epoch.
         rbind (parse_authority_window (dict_at d ''authority_not_before'') (dict_at d ''authority_not_after'')) (\<lambda>(b, a).
         rbind (parse_fixed_string e (dict_at d ''recipient_purpose'') RECIPIENT_PURPOSE_V1) (\<lambda>purpose.
         rbind (parse_fixed_string e (dict_at d ''recipient_boundary'') RECIPIENT_BOUNDARY_V1) (\<lambda>boundary.
         rbind (parse_fixed_string e (dict_at d ''external_disclosure'') EXTERNAL_DISCLOSURE_DENY_V1) (\<lambda>disclosure.
         rbind (parse_observable_decisions (dict_at d ''observable_decisions'')) (\<lambda>(decisions, allowed).
         Inr \<lparr>gp_network_id = network, gp_approver_xonly_public_key = approver, gp_recipient_scope = scope,
              gp_authority_epoch = epoch, gp_authority_not_before = b, gp_authority_not_after = a,
              gp_recipient_purpose = purpose, gp_recipient_boundary = boundary, gp_external_disclosure = disclosure,
              gp_observable_decisions = decisions, gp_allowed_observable_kinds = allowed,
              gp_policy_sha256 = sha256 contents\<rparr>)))))))))))"

subsection \<open>Retention\<close>

definition RETENTION_PURPOSE_V1 :: pystr where
  "RETENTION_PURPOSE_V1 = u ''local_recoverable_analysis_queue_v1''"
definition PAYLOAD_FORM_V1 :: pystr where
  "PAYLOAD_FORM_V1 = u ''canonical_observable_bundle_v1''"
definition MAX_PENDING_RECORDS :: int where
  "MAX_PENDING_RECORDS = 100000"
definition MAX_RETENTION_SECONDS :: int where
  "MAX_RETENTION_SECONDS = 2592000"

record OutboxRetentionPolicy =
  rp_network_id :: pystr
  rp_approver_xonly_public_key :: bytes
  rp_recipient_scope :: bytes
  rp_retention_purpose :: pystr
  rp_payload_form :: pystr
  rp_durable_observable_kinds :: "ObservableKind set"
  rp_max_pending_records :: int
  rp_max_retention_seconds :: int
  rp_policy_sha256 :: bytes

definition retention_fields :: "string list" where
  "retention_fields =
     [''schema_version'', ''network_id'', ''approver_xonly_public_key'', ''recipient_scope'', ''retention_purpose'',
      ''payload_form'', ''durable_observable_kinds'', ''max_pending_records'', ''max_retention_seconds'']"

fun parse_kinds_loop :: "pyval list \<Rightarrow> ObservableKind list \<Rightarrow> pyexc + ObservableKind list" where
  "parse_kinds_loop [] kinds = Inr kinds"
| "parse_kinds_loop (item # items) kinds =
     (if \<not> is_str item then Inl OutboxRetentionPolicyError
      else case kind_of (the_str item) of
             None \<Rightarrow> Inl OutboxRetentionPolicyError
           | Some kind \<Rightarrow>
               (if kind \<in> set kinds then Inl OutboxRetentionPolicyError
                else parse_kinds_loop items (kinds @ [kind])))"

definition parse_durable_kinds :: "pyval \<Rightarrow> pyexc + ObservableKind set" where
  "parse_durable_kinds v =
     (case v of
        PList items \<Rightarrow>
          (if items = [] then Inl OutboxRetentionPolicyError
           else rbind (parse_kinds_loop items []) (\<lambda>kinds. Inr (set kinds)))
      | _ \<Rightarrow> Inl OutboxRetentionPolicyError)"

definition load_outbox_retention_policy ::
  "(pystr \<Rightarrow> pyval option) \<Rightarrow> nat \<Rightarrow> pystr list \<Rightarrow> file_view \<Rightarrow> pystr \<Rightarrow> bytes \<Rightarrow> bytes \<Rightarrow>
     pyexc + OutboxRetentionPolicy" where
  "load_outbox_retention_policy toml uid path f network approver scope =
     (let e = OutboxRetentionPolicyError
      in rbind (validate_expected_identity e network approver scope) (\<lambda>_.
         rbind (read_policy_file e uid path f) (\<lambda>contents.
         rbind (parse_policy_document e toml retention_fields contents) (\<lambda>d.
         rbind (policy_identity e d network approver scope) (\<lambda>_.
         rbind (parse_fixed_string e (dict_at d ''retention_purpose'') RETENTION_PURPOSE_V1) (\<lambda>purpose.
         rbind (parse_fixed_string e (dict_at d ''payload_form'') PAYLOAD_FORM_V1) (\<lambda>form.
         rbind (parse_durable_kinds (dict_at d ''durable_observable_kinds'')) (\<lambda>kinds.
         rbind (parse_bounded_int e (dict_at d ''max_pending_records'') MAX_PENDING_RECORDS) (\<lambda>pending.
         rbind (parse_bounded_int e (dict_at d ''max_retention_seconds'') MAX_RETENTION_SECONDS) (\<lambda>seconds.
         Inr \<lparr>rp_network_id = network, rp_approver_xonly_public_key = approver, rp_recipient_scope = scope,
              rp_retention_purpose = purpose, rp_payload_form = form, rp_durable_observable_kinds = kinds,
              rp_max_pending_records = pending, rp_max_retention_seconds = seconds,
              rp_policy_sha256 = sha256 contents\<rparr>))))))))))"

subsection \<open>The consumption policy\<close>

record ObservableApprovalPolicy =
  ap_network_id :: pystr
  ap_approver_xonly_public_key :: bytes
  ap_recipient_scope :: bytes
  ap_ledger_path :: "pystr list"

definition consumption_policy_fields :: "string list" where
  "consumption_policy_fields =
     [''schema_version'', ''network_id'', ''approver_xonly_public_key'', ''recipient_scope'', ''ledger_path'']"

definition canonical_absolute_path :: "pyval \<Rightarrow> pyexc + pystr list" where
  "canonical_absolute_path v =
     (case v of
        PStr s \<Rightarrow>
          (if s = [] \<or> hd s \<noteq> 47 \<or> \<not> plain_path (path_parts s) then Inl ObservableApprovalConsumptionError
           else Inr (path_parts s))
      | _ \<Rightarrow> Inl ObservableApprovalConsumptionError)"

definition load_observable_approval_policy ::
  "(pystr \<Rightarrow> pyval option) \<Rightarrow> nat \<Rightarrow> pystr list \<Rightarrow> file_view \<Rightarrow> pyexc + ObservableApprovalPolicy" where
  "load_observable_approval_policy toml uid path f =
     (let e = ObservableApprovalConsumptionError
      in rbind (read_policy_file e uid path f) (\<lambda>contents.
         rbind (parse_policy_document e toml consumption_policy_fields contents) (\<lambda>d.
         rbind (policy_network e (dict_at d ''network_id'')) (\<lambda>network_id.
         rbind (canonical_absolute_path (dict_at d ''ledger_path'')) (\<lambda>ledger_path.
         rbind (policy_hex e (dict_at d ''approver_xonly_public_key'')) (\<lambda>approver.
         rbind (policy_hex e (dict_at d ''recipient_scope'')) (\<lambda>scope.
         Inr \<lparr>ap_network_id = network_id, ap_approver_xonly_public_key = approver,
              ap_recipient_scope = scope, ap_ledger_path = ledger_path\<rparr>)))))))"

definition require_expected_policy_identity ::
  "ObservableApprovalPolicy \<Rightarrow> pystr \<Rightarrow> bytes \<Rightarrow> bytes \<Rightarrow> pyexc + unit" where
  "require_expected_policy_identity policy network approver scope =
     rbind (validate_expected_identity ObservableApprovalConsumptionError network approver scope) (\<lambda>_.
     raise_if (network \<noteq> ap_network_id policy \<or> approver \<noteq> ap_approver_xonly_public_key policy \<or>
               scope \<noteq> ap_recipient_scope policy) ObservableApprovalConsumptionError)"

text \<open>One cross-policy checked governance snapshot.\<close>

record GovernanceBinding =
  gb_policy :: ThreatHintV2GovernancePolicy
  gb_retention :: OutboxRetentionPolicy
  gb_promotion_policy_sha256 :: bytes

end
