(* ===== verification/Approval_Ledger.thy ===== *)
theory Approval_Ledger
  imports Hint_Policies
begin

text \<open>
  Model of the durable ledger of \<open>jaeger/observable_approval_consumption.py\<close> and of the service that consumes verified
  approvals. The tables of the SQLite file are lists of records in insertion order; a transaction is a function on the
  tables, and rolling back is returning the old ones. What SQLite itself answers to a connection (success, busy or locked,
  another operational error, another error) is an argument. Integers bound to a statement must fit 64 signed bits,
  otherwise \<open>sqlite3\<close> raises \<open>OverflowError\<close>.
\<close>

subsection \<open>Tables\<close>

record consumption_row =
  cr_approval_id :: bytes
  cr_approver_xonly_public_key :: bytes
  cr_approval_nonce :: bytes
  cr_observable_commitment :: bytes
  cr_recipient_scope :: bytes
  cr_network_id :: pystr
  cr_not_before :: int
  cr_expires_at :: int
  cr_consumed_at :: int

record authority_row =
  ar_authority_epoch :: int
  ar_governance_policy_sha256 :: bytes
  ar_retention_policy_sha256 :: bytes
  ar_promotion_policy_sha256 :: bytes
  ar_network_id :: pystr
  ar_approver_xonly_public_key :: bytes
  ar_recipient_scope :: bytes
  ar_authority_not_before :: int
  ar_authority_not_after :: int

text \<open>The columns \<open>lease_token\<close> and \<open>lease_expires_at\<close> are null together (a table constraint).\<close>

record outbox_row =
  ox_approval_id :: bytes
  ox_observable_commitment :: bytes
  ox_bundle_wire :: bytes
  ox_statement_wire :: bytes
  ox_statement_digest :: bytes
  ox_report_nonce :: bytes
  ox_enqueued_at :: int
  ox_retention_deadline :: int
  ox_lease :: "(bytes \<times> int) option"

record result_row =
  rr_approval_id :: bytes
  rr_result_wire :: bytes
  rr_result_digest :: bytes
  rr_input_identity :: bytes
  rr_completion_token_digest :: bytes
  rr_completed_at :: int
  rr_retention_deadline :: int

record pairing_row =
  pg_statement_digest :: bytes
  pg_approval_id :: bytes
  pg_observable_commitment :: bytes
  pg_network_id :: pystr
  pg_consumed_at :: int

record ledger =
  lg_version :: int
  lg_consumptions :: "consumption_row list"
  lg_high_water :: "int option"
  lg_authority :: "authority_row option"
  lg_outbox :: "outbox_row list"
  lg_results :: "result_row list"
  lg_pairings :: "pairing_row list"

definition SQLITE_SCHEMA_VERSION_GOVERNED :: int where
  "SQLITE_SCHEMA_VERSION_GOVERNED = 5"
definition SQLITE_SCHEMA_VERSION_LEGACY :: int where
  "SQLITE_SCHEMA_VERSION_LEGACY = 1"

subsection \<open>Transactions\<close>

datatype db_status = DbOk | DbBusy | DbOperational | DbError

datatype txerr = Raise pyexc | Integrity | Overflow

definition raise_tx :: "pyexc + 'a \<Rightarrow> txerr + 'a" where
  "raise_tx m = (case m of Inl e \<Rightarrow> Inl (Raise e) | Inr x \<Rightarrow> Inr x)"

definition bind_int :: "int \<Rightarrow> txerr + unit" where
  "bind_int n = raise_if (n < - (2 ^ 63) \<or> 2 ^ 63 \<le> n) Overflow"

definition check :: "bool \<Rightarrow> txerr + unit" where
  "check c = raise_if (\<not> c) Integrity"

text \<open>\<open>_raise_operational_error\<close>, and the class of other errors of SQLite.\<close>

fun status_error :: "pyexc \<Rightarrow> db_status \<Rightarrow> pyexc" where
  "status_error other DbBusy = ObservableApprovalBusyError"
| "status_error other DbOperational = ObservableApprovalConsumptionError"
| "status_error other _ = other"

definition is_timestamp :: "int \<Rightarrow> bool" where
  "is_timestamp t \<longleftrightarrow> 0 < t \<and> t \<le> UINT64_MAX"

subsection \<open>Authority\<close>

definition authority_of :: "GovernanceBinding \<Rightarrow> authority_row" where
  "authority_of g =
     \<lparr>ar_authority_epoch = gp_authority_epoch (gb_policy g),
      ar_governance_policy_sha256 = gp_policy_sha256 (gb_policy g),
      ar_retention_policy_sha256 = rp_policy_sha256 (gb_retention g),
      ar_promotion_policy_sha256 = gb_promotion_policy_sha256 g,
      ar_network_id = gp_network_id (gb_policy g),
      ar_approver_xonly_public_key = gp_approver_xonly_public_key (gb_policy g),
      ar_recipient_scope = gp_recipient_scope (gb_policy g),
      ar_authority_not_before = gp_authority_not_before (gb_policy g),
      ar_authority_not_after = gp_authority_not_after (gb_policy g)\<rparr>"

definition authority_row_wf :: "authority_row \<Rightarrow> bool" where
  "authority_row_wf a \<longleftrightarrow>
     length (ar_governance_policy_sha256 a) = FIXED_HASH_BYTES \<and> length (ar_retention_policy_sha256 a) = FIXED_HASH_BYTES \<and>
     length (ar_promotion_policy_sha256 a) = FIXED_HASH_BYTES \<and>
     length (ar_approver_xonly_public_key a) = FIXED_HASH_BYTES \<and> length (ar_recipient_scope a) = FIXED_HASH_BYTES"

definition validate_authority_snapshot :: "authority_row option \<Rightarrow> GovernanceBinding \<Rightarrow> pyexc + unit" where
  "validate_authority_snapshot row g =
     (case row of
        None \<Rightarrow> Inr ()
      | Some a \<Rightarrow>
          (if \<not> authority_row_wf a then Inl ObservableApprovalGovernanceUnavailableError
           else let policy = gb_policy g
                in if gp_authority_epoch policy < ar_authority_epoch a \<or> gp_network_id policy \<noteq> ar_network_id a
                   then Inl ObservableApprovalGovernanceUnavailableError
                   else if gp_authority_epoch policy = ar_authority_epoch a \<and>
                           (gp_policy_sha256 policy \<noteq> ar_governance_policy_sha256 a \<or>
                            rp_policy_sha256 (gb_retention g) \<noteq> ar_retention_policy_sha256 a \<or>
                            gb_promotion_policy_sha256 g \<noteq> ar_promotion_policy_sha256 a \<or>
                            gp_approver_xonly_public_key policy \<noteq> ar_approver_xonly_public_key a \<or>
                            gp_recipient_scope policy \<noteq> ar_recipient_scope a \<or>
                            gp_authority_not_before policy \<noteq> ar_authority_not_before a \<or>
                            gp_authority_not_after policy \<noteq> ar_authority_not_after a)
                   then Inl ObservableApprovalGovernanceUnavailableError
                   else if ar_authority_epoch a < gp_authority_epoch policy \<and>
                           gp_approver_xonly_public_key policy = ar_approver_xonly_public_key a \<and>
                           gp_recipient_scope policy = ar_recipient_scope a \<and>
                           gp_authority_not_before policy \<le> ar_authority_not_after a
                   then Inl ObservableApprovalGovernanceUnavailableError
                   else Inr ()))"

text \<open>Inserting and updating the row bind the same values and test the same constraints.\<close>

definition write_authority :: "GovernanceBinding \<Rightarrow> ledger \<Rightarrow> txerr + ledger" where
  "write_authority g L =
     (let a = authority_of g
      in rbind (bind_int (ar_authority_epoch a)) (\<lambda>_.
         rbind (bind_int (ar_authority_not_before a)) (\<lambda>_.
         rbind (bind_int (ar_authority_not_after a)) (\<lambda>_.
         rbind (check (1 \<le> ar_authority_epoch a \<and> authority_row_wf a)) (\<lambda>_.
         Inr (L\<lparr>lg_authority := Some a\<rparr>))))))"

definition apply_authority_snapshot :: "GovernanceBinding \<Rightarrow> ledger \<Rightarrow> txerr + ledger" where
  "apply_authority_snapshot g L =
     (if lg_version L \<noteq> SQLITE_SCHEMA_VERSION_GOVERNED then Inl (Raise ObservableApprovalGovernanceUnavailableError)
      else rbind (raise_tx (validate_authority_snapshot (lg_authority L) g)) (\<lambda>_.
           case lg_authority L of
             None \<Rightarrow> write_authority g L
           | Some a \<Rightarrow> (if ar_authority_epoch a < gp_authority_epoch (gb_policy g) then write_authority g L else Inr L)))"

definition assert_authority_snapshot :: "db_status \<Rightarrow> GovernanceBinding \<Rightarrow> ledger \<Rightarrow> pyexc + unit" where
  "assert_authority_snapshot st g L =
     (if st \<noteq> DbOk then Inl (status_error ObservableApprovalGovernanceUnavailableError st)
      else if lg_version L \<noteq> SQLITE_SCHEMA_VERSION_GOVERNED then Inl ObservableApprovalGovernanceUnavailableError
      else validate_authority_snapshot (lg_authority L) g)"

subsection \<open>Consumption\<close>

record ObservableApprovalConsumptionReceipt =
  ac_approval_id :: bytes
  ac_observable_commitment :: bytes
  ac_consumed_at :: int

definition advance_time :: "int \<Rightarrow> ledger \<Rightarrow> txerr + ledger" where
  "advance_time consumed_at L =
     (case lg_high_water L of
        None \<Rightarrow> Inl (Raise ObservableApprovalConsumptionError)
      | Some h \<Rightarrow>
          (if consumed_at < h then Inl (Raise ObservableApprovalReplayError)
           else rbind (bind_int consumed_at) (\<lambda>_. Inr (L\<lparr>lg_high_water := Some consumed_at\<rparr>))))"

definition consumption_of :: "VerifiedObservableApproval \<Rightarrow> int \<Rightarrow> consumption_row" where
  "consumption_of v consumed_at =
     \<lparr>cr_approval_id = va_approval_id v, cr_approver_xonly_public_key = va_approver_xonly_public_key v,
      cr_approval_nonce = va_approval_nonce v, cr_observable_commitment = va_observable_commitment v,
      cr_recipient_scope = va_recipient_scope v, cr_network_id = va_network_id v,
      cr_not_before = va_not_before v, cr_expires_at = va_expires_at v, cr_consumed_at = consumed_at\<rparr>"

definition cr_key :: "consumption_row \<Rightarrow> bytes \<times> bytes" where
  "cr_key c = (cr_approver_xonly_public_key c, cr_approval_nonce c)"

definition insert_consumption :: "consumption_row \<Rightarrow> ledger \<Rightarrow> txerr + ledger" where
  "insert_consumption c L =
     rbind (bind_int (cr_not_before c)) (\<lambda>_.
     rbind (bind_int (cr_expires_at c)) (\<lambda>_.
     rbind (bind_int (cr_consumed_at c)) (\<lambda>_.
     rbind (check (length (cr_approval_id c) = 32 \<and> length (cr_approver_xonly_public_key c) = 32 \<and>
                   length (cr_approval_nonce c) = 32 \<and> length (cr_observable_commitment c) = 32 \<and>
                   length (cr_recipient_scope c) = 32)) (\<lambda>_.
     rbind (check (cr_approval_id c \<notin> set (map cr_approval_id (lg_consumptions L)) \<and>
                   cr_key c \<notin> set (map cr_key (lg_consumptions L)))) (\<lambda>_.
     Inr (L\<lparr>lg_consumptions := lg_consumptions L @ [c]\<rparr>))))))"

text \<open>\<open>_validate_outbox_statement\<close>: the digest of a statement that names the commitment and the nonce.\<close>

definition validate_outbox_statement :: "py_env \<Rightarrow> bytes \<Rightarrow> pystr \<Rightarrow> bytes \<Rightarrow> bytes \<Rightarrow> pyexc + bytes" where
  "validate_outbox_statement E statement_bytes network_id observable_commitment report_nonce =
     (if \<not> (1 \<le> length statement_bytes \<and> length statement_bytes \<le> MAX_CANONICAL_V2_STATEMENT_BYTES) \<or>
         length observable_commitment \<noteq> FIXED_HASH_BYTES \<or> length report_nonce \<noteq> FIXED_HASH_BYTES
      then Inl ObservableApprovalOutboxError
      else rbind (catch (rbind (parse_statement E statement_bytes (PStr network_id)) (\<lambda>statement.
                         rbind (statement_digest (Some statement_bytes) statement) (\<lambda>digest. Inr (statement, digest))))
                    is_value_error (\<lambda>_. Inl ObservableApprovalOutboxError)) (\<lambda>(statement, digest).
           if vs_observable_commitment statement \<noteq> hex_of_bytes observable_commitment \<or>
              vs_report_nonce statement \<noteq> hex_of_bytes report_nonce
           then Inl ObservableApprovalOutboxError else Inr digest))"

definition recompute_commitment :: "py_env \<Rightarrow> bytes \<Rightarrow> pystr \<Rightarrow> bytes \<Rightarrow> pyexc + bytes" where
  "recompute_commitment E bundle_bytes network_id report_nonce =
     catch (rbind (raise_oerr (parse_canonical E bundle_bytes)) (\<lambda>bundle.
            raise_oerr (commitment bundle (PStr network_id) (PStr (hex_of_bytes report_nonce)))))
       is_value_error (\<lambda>_. Inl ObservableApprovalOutboxError)"

text \<open>The two deletions by retention deadline.\<close>

definition purge_outbox :: "int \<Rightarrow> ledger \<Rightarrow> ledger" where
  "purge_outbox t L = L\<lparr>lg_outbox := filter (\<lambda>r. t < ox_retention_deadline r) (lg_outbox L)\<rparr>"

definition purge_results :: "int \<Rightarrow> ledger \<Rightarrow> ledger" where
  "purge_results t L = L\<lparr>lg_results := filter (\<lambda>r. t < rr_retention_deadline r) (lg_results L)\<rparr>"

definition insert_outbox :: "outbox_row \<Rightarrow> ledger \<Rightarrow> txerr + ledger" where
  "insert_outbox r L =
     rbind (bind_int (ox_enqueued_at r)) (\<lambda>_.
     rbind (bind_int (ox_retention_deadline r)) (\<lambda>_.
     rbind (check (length (ox_approval_id r) = 32 \<and> length (ox_observable_commitment r) = 32 \<and>
                   1 \<le> length (ox_bundle_wire r) \<and> 1 \<le> length (ox_statement_wire r) \<and>
                   length (ox_statement_digest r) = 32 \<and> length (ox_report_nonce r) = 32 \<and>
                   1 \<le> ox_enqueued_at r \<and> ox_enqueued_at r \<le> ox_retention_deadline r)) (\<lambda>_.
     rbind (check (ox_approval_id r \<notin> set (map ox_approval_id (lg_outbox L)))) (\<lambda>_.
     Inr (L\<lparr>lg_outbox := lg_outbox L @ [r]\<rparr>)))))"

definition insert_pairing :: "pairing_row \<Rightarrow> ledger \<Rightarrow> txerr + ledger" where
  "insert_pairing p L =
     rbind (bind_int (pg_consumed_at p)) (\<lambda>_.
     rbind (check (length (pg_statement_digest p) = 32 \<and> length (pg_approval_id p) = 32 \<and>
                   length (pg_observable_commitment p) = 32 \<and> 1 \<le> pg_consumed_at p)) (\<lambda>_.
     rbind (check (pg_statement_digest p \<notin> set (map pg_statement_digest (lg_pairings L)) \<and>
                   pg_approval_id p \<notin> set (map pg_approval_id (lg_pairings L)) \<and>
                   pg_observable_commitment p \<notin> set (map pg_observable_commitment (lg_pairings L)))) (\<lambda>_.
     rbind (check (pg_approval_id p \<in> set (map cr_approval_id (lg_consumptions L)))) (\<lambda>_.
     Inr (L\<lparr>lg_pairings := lg_pairings L @ [p]\<rparr>)))))"

definition enqueue_outbox ::
  "py_env \<Rightarrow> VerifiedObservableApproval \<Rightarrow> bytes \<Rightarrow> bytes \<Rightarrow> bytes \<Rightarrow> int \<Rightarrow> OutboxRetentionPolicy \<Rightarrow> ledger \<Rightarrow>
     txerr + ledger" where
  "enqueue_outbox E v bundle_bytes statement_bytes report_nonce consumed_at retention L =
     (if rp_max_pending_records retention < 1 \<or> rp_max_retention_seconds retention < 1
      then Inl (Raise ObservableApprovalOutboxError)
      else let retention_deadline = consumed_at + rp_max_retention_seconds retention
           in if \<not> (1 \<le> length bundle_bytes \<and> length bundle_bytes \<le> MAX_CANONICAL_BYTES) \<or>
                 length report_nonce \<noteq> FIXED_HASH_BYTES \<or> UINT64_MAX < retention_deadline
              then Inl (Raise ObservableApprovalOutboxError)
              else rbind (raise_tx (validate_outbox_statement E statement_bytes (va_network_id v)
                                      (va_observable_commitment v) report_nonce)) (\<lambda>digest.
                   rbind (raise_tx (recompute_commitment E bundle_bytes (va_network_id v) report_nonce)) (\<lambda>recomputed.
                   if recomputed \<noteq> va_observable_commitment v then Inl (Raise ObservableApprovalOutboxError)
                   else rbind (bind_int consumed_at) (\<lambda>_.
                        let L' = purge_results consumed_at (purge_outbox consumed_at L)
                        in if rp_max_pending_records retention \<le> int (length (lg_outbox L'))
                           then Inl (Raise ObservableApprovalOutboxError)
                           else rbind (insert_outbox
                                  \<lparr>ox_approval_id = va_approval_id v,
                                   ox_observable_commitment = va_observable_commitment v,
                                   ox_bundle_wire = bundle_bytes, ox_statement_wire = statement_bytes,
                                   ox_statement_digest = digest, ox_report_nonce = report_nonce,
                                   ox_enqueued_at = consumed_at, ox_retention_deadline = retention_deadline,
                                   ox_lease = None\<rparr> L') (\<lambda>L''.
                                insert_pairing
                                  \<lparr>pg_statement_digest = digest, pg_approval_id = va_approval_id v,
                                   pg_observable_commitment = va_observable_commitment v,
                                   pg_network_id = va_network_id v, pg_consumed_at = consumed_at\<rparr> L'')))))"

text \<open>The body of the consuming transaction.\<close>

definition consume_tx ::
  "py_env \<Rightarrow> bool \<Rightarrow> VerifiedObservableApproval \<Rightarrow> int \<Rightarrow> GovernanceBinding option \<Rightarrow> bytes \<Rightarrow> bytes \<Rightarrow> bytes \<Rightarrow> ledger \<Rightarrow>
     txerr + ledger" where
  "consume_tx E outbox_enabled v consumed_at governance bundle_bytes statement_bytes report_nonce L =
     rbind (case governance of None \<Rightarrow> Inr L | Some g \<Rightarrow> apply_authority_snapshot g L) (\<lambda>L1.
     rbind (advance_time consumed_at L1) (\<lambda>L2.
     rbind (insert_consumption (consumption_of v consumed_at) L2) (\<lambda>L3.
     case governance of
       None \<Rightarrow> Inr L3
     | Some g \<Rightarrow>
         (if outbox_enabled
          then enqueue_outbox E v bundle_bytes statement_bytes report_nonce consumed_at (gb_retention g) L3
          else Inr L3))))"

text \<open>After an integrity error the ledger is asked whether the approval, its nonce or its pairing is already there.\<close>

definition replay_probe ::
  "py_env \<Rightarrow> db_status \<Rightarrow> bool \<Rightarrow> VerifiedObservableApproval \<Rightarrow> bytes option \<Rightarrow> bytes \<Rightarrow> ledger \<Rightarrow> pyexc" where
  "replay_probe E st pairing v statement_bytes report_nonce L =
     (case (if pairing
            then case statement_bytes of
                   None \<Rightarrow> Inr None
                 | Some w \<Rightarrow> catch (rbind (validate_outbox_statement E w (va_network_id v) (va_observable_commitment v)
                                           report_nonce) (\<lambda>d. Inr (Some d)))
                             (\<lambda>e. e = ObservableApprovalOutboxError) (\<lambda>_. Inr None)
            else Inr None) of
        Inl e \<Rightarrow> e
      | Inr digest \<Rightarrow>
          (if st \<noteq> DbOk then status_error ObservableApprovalConsumptionError st
           else if (\<exists>c \<in> set (lg_consumptions L). cr_approval_id c = va_approval_id v \<or>
                      cr_key c = (va_approver_xonly_public_key v, va_approval_nonce v)) \<or>
                   (digest \<noteq> None \<and>
                    (\<exists>p \<in> set (lg_pairings L). pg_statement_digest p = the digest \<or> pg_approval_id p = va_approval_id v \<or>
                       pg_observable_commitment p = va_observable_commitment v))
           then ObservableApprovalReplayError
           else ObservableApprovalConsumptionError))"

text \<open>
  \<open>_consume\<close>. A call with the outbox enabled always carries a statement (\<open>consume_governed\<close> checks it), so the empty
  bytes that stand for a missing one reach no operation.
\<close>

definition ledger_consume_core ::
  "py_env \<Rightarrow> db_status \<Rightarrow> db_status \<Rightarrow> bool \<Rightarrow> VerifiedObservableApproval \<Rightarrow> int \<Rightarrow> GovernanceBinding option \<Rightarrow> bytes \<Rightarrow>
     bytes option \<Rightarrow> bytes \<Rightarrow> ledger \<Rightarrow> (pyexc + ObservableApprovalConsumptionReceipt) \<times> ledger" where
  "ledger_consume_core E st st2 outbox_enabled v consumed_at governance bundle_bytes statement_bytes report_nonce L =
     (if \<not> is_timestamp consumed_at \<or> consumed_at < va_not_before v \<or> va_expires_at v < consumed_at
      then (Inl ObservableApprovalConsumptionError, L)
      else if st \<noteq> DbOk then (Inl (status_error ObservableApprovalConsumptionError st), L)
      else case consume_tx E outbox_enabled v consumed_at governance bundle_bytes
                  (case statement_bytes of None \<Rightarrow> [] | Some w \<Rightarrow> w) report_nonce L of
             Inr L' \<Rightarrow> (Inr \<lparr>ac_approval_id = va_approval_id v, ac_observable_commitment = va_observable_commitment v,
                            ac_consumed_at = consumed_at\<rparr>, L')
           | Inl (Raise e) \<Rightarrow> (Inl e, L)
           | Inl Overflow \<Rightarrow> (Inl ObservableApprovalConsumptionError, L)
           | Inl Integrity \<Rightarrow>
               (Inl (replay_probe E st2 (governance \<noteq> None \<and> outbox_enabled) v statement_bytes report_nonce L), L))"

subsection \<open>The service\<close>

record consumption_service =
  cs_policy :: ObservableApprovalPolicy
  cs_governance :: "GovernanceBinding option"
  cs_outbox :: bool

definition service_context :: "consumption_service \<Rightarrow> bytes \<Rightarrow> int \<Rightarrow> ObservableApprovalContext" where
  "service_context S report_nonce current_time =
     \<lparr>oc_report_nonce = report_nonce, oc_approver_xonly_public_key = ap_approver_xonly_public_key (cs_policy S),
      oc_recipient_scope = ap_recipient_scope (cs_policy S), oc_network_id = ap_network_id (cs_policy S),
      oc_current_time = current_time\<rparr>"

definition service_verify ::
  "py_env \<Rightarrow> bip340 \<Rightarrow> consumption_service \<Rightarrow> bytes \<Rightarrow> bytes \<Rightarrow> bytes \<Rightarrow> int \<Rightarrow> pyexc + VerifiedObservableApproval" where
  "service_verify E B S approval_bytes bundle_bytes report_nonce current_time =
     (if length report_nonce \<noteq> FIXED_HASH_BYTES \<or> \<not> is_timestamp current_time
      then Inl ObservableApprovalConsumptionError
      else catch (verify_observable_approval E B approval_bytes bundle_bytes (service_context S report_nonce current_time))
             (\<lambda>e. e = ObservableApprovalError) (\<lambda>_. Inl ObservableApprovalConsumptionError))"

definition validate_governance ::
  "py_env \<Rightarrow> VerifiedObservableApproval \<Rightarrow> bytes \<Rightarrow> int \<Rightarrow> GovernanceBinding \<Rightarrow> pyexc + unit" where
  "validate_governance E v bundle_bytes current_time g =
     (if current_time < gp_authority_not_before (gb_policy g) \<or> gp_authority_not_after (gb_policy g) < current_time \<or>
         va_not_before v < gp_authority_not_before (gb_policy g) \<or> gp_authority_not_after (gb_policy g) < va_expires_at v
      then Inl ObservableApprovalGovernanceCandidateError
      else rbind (catch (raise_oerr (parse_canonical E bundle_bytes)) is_value_error
                    (\<lambda>_. Inl ObservableApprovalGovernanceCandidateError)) (\<lambda>bundle.
           raise_if (\<exists>ob \<in> set (obu_observables bundle). ob_kind ob \<notin> gp_allowed_observable_kinds (gb_policy g))
             ObservableApprovalGovernanceCandidateError))"

definition consume_governed ::
  "py_env \<Rightarrow> db_status \<Rightarrow> db_status \<Rightarrow> bool \<Rightarrow> VerifiedObservableApproval \<Rightarrow> int \<Rightarrow> GovernanceBinding \<Rightarrow> bytes \<Rightarrow>
     bytes option \<Rightarrow> bytes \<Rightarrow> ledger \<Rightarrow> (pyexc + ObservableApprovalConsumptionReceipt) \<times> ledger" where
  "consume_governed E st st2 outbox_enabled v consumed_at g bundle_bytes statement_bytes report_nonce L =
     (if outbox_enabled = (statement_bytes = None) then (Inl ObservableApprovalOutboxError, L)
      else ledger_consume_core E st st2 outbox_enabled v consumed_at (Some g) bundle_bytes statement_bytes report_nonce L)"

text \<open>The common end of \<open>consume\<close> and \<open>_consume_expected\<close>.\<close>

definition consume_verified ::
  "py_env \<Rightarrow> db_status \<Rightarrow> db_status \<Rightarrow> consumption_service \<Rightarrow> VerifiedObservableApproval \<Rightarrow> bytes \<Rightarrow> bytes option \<Rightarrow> bytes \<Rightarrow>
     int \<Rightarrow> ledger \<Rightarrow> (pyexc + ObservableApprovalConsumptionReceipt) \<times> ledger" where
  "consume_verified E st st2 S v bundle_bytes statement_bytes report_nonce current_time L =
     (case cs_governance S of
        None \<Rightarrow> ledger_consume_core E st st2 (cs_outbox S) v current_time None [] None [] L
      | Some g \<Rightarrow>
          (case validate_governance E v bundle_bytes current_time g of
             Inl e \<Rightarrow> (Inl e, L)
           | Inr _ \<Rightarrow> consume_governed E st st2 (cs_outbox S) v current_time g bundle_bytes statement_bytes report_nonce L))"

definition service_consume ::
  "py_env \<Rightarrow> bip340 \<Rightarrow> db_status \<Rightarrow> db_status \<Rightarrow> consumption_service \<Rightarrow> bytes \<Rightarrow> bytes \<Rightarrow> bytes \<Rightarrow> int \<Rightarrow> ledger \<Rightarrow>
     (pyexc + ObservableApprovalConsumptionReceipt) \<times> ledger" where
  "service_consume E B st st2 S approval_bytes bundle_bytes report_nonce current_time L =
     (case service_verify E B S approval_bytes bundle_bytes report_nonce current_time of
        Inl e \<Rightarrow> (Inl e, L)
      | Inr v \<Rightarrow> consume_verified E st st2 S v bundle_bytes None report_nonce current_time L)"

definition consume_expected ::
  "py_env \<Rightarrow> bip340 \<Rightarrow> db_status \<Rightarrow> db_status \<Rightarrow> consumption_service \<Rightarrow> bytes \<Rightarrow> bytes \<Rightarrow> bytes \<Rightarrow> int \<Rightarrow> bytes \<Rightarrow> bytes \<Rightarrow>
     bytes option \<Rightarrow> ledger \<Rightarrow> (pyexc + ObservableApprovalConsumptionReceipt) \<times> ledger" where
  "consume_expected E B st st2 S approval_bytes bundle_bytes report_nonce current_time expected_approval_id
      expected_observable_commitment statement_bytes L =
     (if length expected_approval_id \<noteq> FIXED_HASH_BYTES \<or> length expected_observable_commitment \<noteq> FIXED_HASH_BYTES
      then (Inl ObservableApprovalConsumptionError, L)
      else case service_verify E B S approval_bytes bundle_bytes report_nonce current_time of
             Inl e \<Rightarrow> (Inl e, L)
           | Inr v \<Rightarrow>
               (if va_approval_id v \<noteq> expected_approval_id \<or> va_observable_commitment v \<noteq> expected_observable_commitment
                then (Inl ObservableApprovalConsumptionError, L)
                else consume_verified E st st2 S v bundle_bytes statement_bytes report_nonce current_time L))"

definition precheck_governance ::
  "py_env \<Rightarrow> bip340 \<Rightarrow> db_status \<Rightarrow> consumption_service \<Rightarrow> bytes \<Rightarrow> bytes \<Rightarrow> bytes \<Rightarrow> int \<Rightarrow> ledger \<Rightarrow> pyexc + unit" where
  "precheck_governance E B st S approval_bytes bundle_bytes report_nonce current_time L =
     (case cs_governance S of
        None \<Rightarrow> Inl ObservableApprovalGovernanceUnavailableError
      | Some g \<Rightarrow>
          rbind (service_verify E B S approval_bytes bundle_bytes report_nonce current_time) (\<lambda>v.
          rbind (validate_governance E v bundle_bytes current_time g) (\<lambda>_.
          assert_authority_snapshot st g L)))"

subsection \<open>What a transaction does\<close>

lemma raise_tx_Inr [simp]: "raise_tx m = Inr x \<longleftrightarrow> m = Inr x"
  by (simp add: raise_tx_def split: sum.splits)

lemma bind_int_Inr [simp]: "bind_int n = Inr x \<longleftrightarrow> - (2 ^ 63) \<le> n \<and> n < 2 ^ 63"
  by (auto simp: bind_int_def)

lemma check_Inr [simp]: "check c = Inr x \<longleftrightarrow> c"
  by (simp add: check_def)

lemma check_Inl [simp]: "check c = Inl e \<longleftrightarrow> \<not> c \<and> e = Integrity"
  by (auto simp: check_def)

lemma bind_int_Inl [simp]: "bind_int n = Inl e \<longleftrightarrow> \<not> (- (2 ^ 63) \<le> n \<and> n < 2 ^ 63) \<and> e = Overflow"
  by (auto simp: bind_int_def)

lemma apply_authority_tables:
  assumes "apply_authority_snapshot g L = Inr L'"
  shows "L' = L\<lparr>lg_authority := lg_authority L'\<rparr>" "lg_version L = 5"
    "lg_authority L' = Some a' \<Longrightarrow> ar_network_id a' = gp_network_id (gb_policy g)"
    "\<exists>a'. lg_authority L' = Some a' \<and> authority_row_wf a' \<and>
       (\<forall>a. lg_authority L = Some a \<longrightarrow> ar_authority_epoch a \<le> ar_authority_epoch a' \<and> ar_network_id a = ar_network_id a')"
  using assms
  by (auto simp: apply_authority_snapshot_def write_authority_def validate_authority_snapshot_def Let_def
      SQLITE_SCHEMA_VERSION_GOVERNED_def authority_of_def split: if_splits option.splits)

end
