(* ===== verification/Approval_Outbox.thy ===== *)
theory Approval_Outbox
  imports Approval_Ledger
begin

text \<open>
  The outbox of \<open>jaeger/observable_approval_consumption.py\<close>: leases on pending records (\<open>claim\<close>), the single durable
  completion of a leased record (\<open>complete\<close>), the recovery of its result (\<open>result\<close>), and the canonical wires of results.
  The random lease token is an argument of \<open>claim\<close>.
\<close>

subsection \<open>Result wires\<close>

definition MAX_OUTBOX_LEASE_SECONDS :: int where
  "MAX_OUTBOX_LEASE_SECONDS = 300"
definition ANALYSIS_RESULT_SCHEMA_VERSION :: int where
  "ANALYSIS_RESULT_SCHEMA_VERSION = 1"
definition ANALYSIS_RESULT_KIND :: pystr where
  "ANALYSIS_RESULT_KIND = u ''non_actionable_local_v1''"
definition SEMANTIC_DRAFT_RESULT_SCHEMA_VERSION :: int where
  "SEMANTIC_DRAFT_RESULT_SCHEMA_VERSION = 2"
definition SEMANTIC_DRAFT_RESULT_KIND :: pystr where
  "SEMANTIC_DRAFT_RESULT_KIND = u ''semantic_draft_non_actionable_local_v2''"
definition MAX_CANONICAL_ANALYSIS_RESULT_BYTES :: nat where
  "MAX_CANONICAL_ANALYSIS_RESULT_BYTES = 1024"
definition ANALYSIS_INPUT_IDENTITY_DOMAIN :: bytes where
  "ANALYSIS_INPUT_IDENTITY_DOMAIN = ascii_bytes (u ''prometheus-observable-analysis-input-v1'') @ [0]"
definition ANALYSIS_RESULT_DIGEST_DOMAIN :: bytes where
  "ANALYSIS_RESULT_DIGEST_DOMAIN = ascii_bytes (u ''prometheus-observable-analysis-result-v1'') @ [0]"
definition COMPLETION_TOKEN_DIGEST_DOMAIN :: bytes where
  "COMPLETION_TOKEN_DIGEST_DOMAIN = ascii_bytes (u ''prometheus-observable-analysis-completion-v1'') @ [0]"

definition analysis_result_v1_fields :: "string list" where
  "analysis_result_v1_fields =
     [''schema_version'', ''result_kind'', ''analyzer_id'', ''approval_id'', ''input_identity'', ''statement_digest'',
      ''observable_commitment'', ''observable_count'']"

definition analysis_result_v2_fields :: "string list" where
  "analysis_result_v2_fields =
     analysis_result_v1_fields @ [''observable_kind_counts'', ''candidate_binding_sha256'', ''rule_compile_ok'']"

definition observable_kind_count_fields :: "string list" where
  "observable_kind_count_fields = [''file_sha256'', ''api_import'', ''byte_pattern'']"

definition is_fixed_bytes :: "bytes \<Rightarrow> bool" where
  "is_fixed_bytes b \<longleftrightarrow> length b = FIXED_HASH_BYTES"

text \<open>\<open>[a-z0-9][a-z0-9_]{0,63}\<close>\<close>

definition is_analyzer_char :: "nat \<Rightarrow> bool" where
  "is_analyzer_char c \<longleftrightarrow> (48 \<le> c \<and> c \<le> 57) \<or> (97 \<le> c \<and> c \<le> 122)"

fun is_analyzer_text :: "pystr \<Rightarrow> bool" where
  "is_analyzer_text [] = False"
| "is_analyzer_text (c # s) =
     (is_analyzer_char c \<and> length s \<le> 63 \<and> list_all (\<lambda>c. is_analyzer_char c \<or> c = 95) s)"

fun is_analyzer_id :: "pyval \<Rightarrow> bool" where
  "is_analyzer_id (PStr s) = is_analyzer_text s"
| "is_analyzer_id _ = False"

definition is_fixed_lower_hex :: "pyval \<Rightarrow> bool" where
  "is_fixed_lower_hex v \<longleftrightarrow> is_hex_val (FIXED_HASH_BYTES * 2) v"

definition analysis_result_items ::
  "pystr \<Rightarrow> bytes \<Rightarrow> bytes \<Rightarrow> bytes \<Rightarrow> bytes \<Rightarrow> int \<Rightarrow> (pystr \<times> pyval) list" where
  "analysis_result_items analyzer_id approval_id input_identity digest observable_commitment observed =
     [(u ''schema_version'', PInt ANALYSIS_RESULT_SCHEMA_VERSION),
      (u ''result_kind'', PStr ANALYSIS_RESULT_KIND),
      (u ''analyzer_id'', PStr analyzer_id),
      (u ''approval_id'', PStr (hex_of_bytes approval_id)),
      (u ''input_identity'', PStr (hex_of_bytes input_identity)),
      (u ''statement_digest'', PStr (hex_of_bytes digest)),
      (u ''observable_commitment'', PStr (hex_of_bytes observable_commitment)),
      (u ''observable_count'', PInt observed)]"

definition sized_result :: "bytes \<Rightarrow> pyexc + bytes" where
  "sized_result wire =
     (if \<not> (1 \<le> length wire \<and> length wire \<le> MAX_CANONICAL_ANALYSIS_RESULT_BYTES)
      then Inl ObservableApprovalOutboxError else Inr wire)"

definition build_analysis_result_wire ::
  "pystr \<Rightarrow> bytes \<Rightarrow> bytes \<Rightarrow> bytes \<Rightarrow> bytes \<Rightarrow> int \<Rightarrow> pyexc + bytes" where
  "build_analysis_result_wire analyzer_id approval_id input_identity digest observable_commitment observed =
     (if \<not> is_analyzer_text analyzer_id \<or> \<not> is_fixed_bytes approval_id \<or> \<not> is_fixed_bytes input_identity \<or>
         \<not> is_fixed_bytes digest \<or> \<not> is_fixed_bytes observable_commitment \<or> \<not> (1 \<le> observed \<and> observed \<le> int MAX_OBSERVABLES)
      then Inl ObservableApprovalOutboxError
      else case compact_json (PDict (analysis_result_items analyzer_id approval_id input_identity digest
                                       observable_commitment observed)) of
             None \<Rightarrow> Inl UnicodeEncodeError
           | Some wire \<Rightarrow> sized_result wire)"

definition semantic_draft_items ::
  "pystr \<Rightarrow> bytes \<Rightarrow> bytes \<Rightarrow> bytes \<Rightarrow> bytes \<Rightarrow> int \<Rightarrow> int \<Rightarrow> int \<Rightarrow> bytes \<Rightarrow> bool \<Rightarrow> (pystr \<times> pyval) list" where
  "semantic_draft_items analyzer_id approval_id input_identity digest observable_commitment files imports patterns binding ok =
     [(u ''schema_version'', PInt SEMANTIC_DRAFT_RESULT_SCHEMA_VERSION),
      (u ''result_kind'', PStr SEMANTIC_DRAFT_RESULT_KIND),
      (u ''analyzer_id'', PStr analyzer_id),
      (u ''approval_id'', PStr (hex_of_bytes approval_id)),
      (u ''input_identity'', PStr (hex_of_bytes input_identity)),
      (u ''statement_digest'', PStr (hex_of_bytes digest)),
      (u ''observable_commitment'', PStr (hex_of_bytes observable_commitment)),
      (u ''observable_count'', PInt (files + imports + patterns)),
      (u ''observable_kind_counts'',
       PDict [(u ''file_sha256'', PInt files), (u ''api_import'', PInt imports), (u ''byte_pattern'', PInt patterns)]),
      (u ''candidate_binding_sha256'', PStr (hex_of_bytes binding)),
      (u ''rule_compile_ok'', PBool ok)]"

definition build_semantic_draft_result_wire ::
  "pystr \<Rightarrow> bytes \<Rightarrow> bytes \<Rightarrow> bytes \<Rightarrow> bytes \<Rightarrow> int \<Rightarrow> int \<Rightarrow> int \<Rightarrow> bytes \<Rightarrow> bool \<Rightarrow> pyexc + bytes" where
  "build_semantic_draft_result_wire analyzer_id approval_id input_identity digest observable_commitment files imports
      patterns binding ok =
     (if \<not> is_analyzer_text analyzer_id \<or> \<not> is_fixed_bytes approval_id \<or> \<not> is_fixed_bytes input_identity \<or>
         \<not> is_fixed_bytes digest \<or> \<not> is_fixed_bytes observable_commitment \<or>
         (\<exists>n \<in> set [files, imports, patterns]. \<not> (0 \<le> n \<and> n \<le> int MAX_OBSERVABLES)) \<or>
         \<not> (1 \<le> files + imports + patterns \<and> files + imports + patterns \<le> int MAX_OBSERVABLES) \<or>
         \<not> is_fixed_bytes binding \<or> list_all (\<lambda>b. b = 0) binding
      then Inl ObservableApprovalOutboxError
      else sized_result (ascii_json (PDict (semantic_draft_items analyzer_id approval_id input_identity digest
                           observable_commitment files imports patterns binding ok))))"

definition is_common_analysis_result :: "(pystr \<times> pyval) list \<Rightarrow> bool" where
  "is_common_analysis_result d \<longleftrightarrow>
     is_int (dict_at d ''schema_version'') \<and> is_str (dict_at d ''result_kind'') \<and> is_analyzer_id (dict_at d ''analyzer_id'') \<and>
     is_fixed_lower_hex (dict_at d ''approval_id'') \<and> is_fixed_lower_hex (dict_at d ''input_identity'') \<and>
     is_fixed_lower_hex (dict_at d ''statement_digest'') \<and> is_fixed_lower_hex (dict_at d ''observable_commitment'') \<and>
     int_in 1 (int MAX_OBSERVABLES) (dict_at d ''observable_count'')"

definition is_semantic_draft_fields :: "(pystr \<times> pyval) list \<Rightarrow> bool" where
  "is_semantic_draft_fields d \<longleftrightarrow>
     (case dict_at d ''observable_kind_counts'' of
        PDict counts \<Rightarrow>
          dict_keys counts = map u observable_kind_count_fields \<and>
          (\<forall>k \<in> set observable_kind_count_fields. int_in 0 (int MAX_OBSERVABLES) (dict_at counts k)) \<and>
          sum_list (map (\<lambda>(k, v). the_int v) counts) = the_int (dict_at d ''observable_count'') \<and>
          is_fixed_lower_hex (dict_at d ''candidate_binding_sha256'') \<and>
          dict_at d ''candidate_binding_sha256'' \<noteq> PStr (replicate 64 48) \<and>
          (case dict_at d ''rule_compile_ok'' of PBool _ \<Rightarrow> True | _ \<Rightarrow> False)
      | _ \<Rightarrow> False)"

definition analysis_result_version_ok :: "(pystr \<times> pyval) list \<Rightarrow> bool" where
  "analysis_result_version_ok d \<longleftrightarrow>
     (if dict_at d ''schema_version'' = PInt ANALYSIS_RESULT_SCHEMA_VERSION
      then dict_keys d = map u analysis_result_v1_fields \<and> dict_at d ''result_kind'' = PStr ANALYSIS_RESULT_KIND
      else if dict_at d ''schema_version'' = PInt SEMANTIC_DRAFT_RESULT_SCHEMA_VERSION
      then dict_keys d = map u analysis_result_v2_fields \<and>
           dict_at d ''result_kind'' = PStr SEMANTIC_DRAFT_RESULT_KIND \<and> is_semantic_draft_fields d
      else False)"

definition validate_analysis_result_wire ::
  "py_env \<Rightarrow> bytes \<Rightarrow> bytes \<Rightarrow> bytes \<Rightarrow> bytes option \<Rightarrow> bytes option \<Rightarrow> pyexc + unit" where
  "validate_analysis_result_wire E wire approval_id input_identity digest observable_commitment =
     (if \<not> (1 \<le> length wire \<and> length wire \<le> MAX_CANONICAL_ANALYSIS_RESULT_BYTES) \<or>
         \<not> is_fixed_bytes approval_id \<or> \<not> is_fixed_bytes input_identity \<or>
         (\<exists>d. digest = Some d \<and> \<not> is_fixed_bytes d) \<or>
         (\<exists>c. observable_commitment = Some c \<and> \<not> is_fixed_bytes c)
      then Inl ObservableApprovalOutboxError
      else rbind (catch (loads_utf8 E ObservableApprovalOutboxError wire)
                    (\<lambda>e. is_value_error e \<or> e = RecursionError) (\<lambda>_. Inl ObservableApprovalOutboxError)) (\<lambda>decoded.
           case decoded of
             PDict d \<Rightarrow>
               (if \<not> is_common_analysis_result d \<or> \<not> analysis_result_version_ok d then Inl ObservableApprovalOutboxError
                else case compact_json (PDict d) of
                       None \<Rightarrow> Inl UnicodeEncodeError
                     | Some canonical \<Rightarrow>
                         raise_if (canonical \<noteq> wire \<or> dict_at d ''approval_id'' \<noteq> PStr (hex_of_bytes approval_id) \<or>
                                   dict_at d ''input_identity'' \<noteq> PStr (hex_of_bytes input_identity) \<or>
                                   (\<exists>x. digest = Some x \<and> dict_at d ''statement_digest'' \<noteq> PStr (hex_of_bytes x)) \<or>
                                   (\<exists>c. observable_commitment = Some c \<and>
                                      dict_at d ''observable_commitment'' \<noteq> PStr (hex_of_bytes c)))
                           ObservableApprovalOutboxError)
           | _ \<Rightarrow> Inl ObservableApprovalOutboxError))"

subsection \<open>Digests\<close>

text \<open>The bytes hashed by \<open>_analysis_input_identity\<close>.\<close>

definition input_identity_preimage ::
  "pystr \<Rightarrow> bytes \<Rightarrow> bytes \<Rightarrow> bytes \<Rightarrow> bytes \<Rightarrow> bytes \<Rightarrow> int \<Rightarrow> int \<Rightarrow> bytes" where
  "input_identity_preimage network statement_bytes bundle_bytes approval_id observable_commitment token expires deadline =
     ANALYSIS_INPUT_IDENTITY_DOMAIN @ be_bytes 2 (length network) @ ascii_bytes network @
     be_bytes 4 (length statement_bytes) @ statement_bytes @ be_bytes 4 (length bundle_bytes) @ bundle_bytes @
     approval_id @ observable_commitment @ token @ be_bytes 8 (nat expires) @ be_bytes 8 (nat deadline)"

definition analysis_input_identity ::
  "pystr \<Rightarrow> bytes \<Rightarrow> bytes \<Rightarrow> bytes \<Rightarrow> bytes \<Rightarrow> bytes \<Rightarrow> int \<Rightarrow> int \<Rightarrow> pyexc + bytes" where
  "analysis_input_identity network statement_bytes bundle_bytes approval_id observable_commitment token expires deadline =
     rbind (catch (raise_oerr (validate_network_id network)) is_value_error (\<lambda>_. Inl ObservableApprovalOutboxError)) (\<lambda>_.
     if \<not> is_fixed_bytes approval_id \<or> \<not> is_fixed_bytes observable_commitment \<or> \<not> is_fixed_bytes token \<or>
        \<not> (1 \<le> length statement_bytes \<and> length statement_bytes \<le> MAX_CANONICAL_V2_STATEMENT_BYTES) \<or>
        \<not> (1 \<le> length bundle_bytes \<and> length bundle_bytes \<le> MAX_CANONICAL_BYTES) \<or>
        \<not> is_timestamp expires \<or> \<not> is_timestamp deadline \<or> deadline < expires
     then Inl ObservableApprovalOutboxError
     else Inr (sha256 (input_identity_preimage network statement_bytes bundle_bytes approval_id observable_commitment
                         token expires deadline)))"

definition analysis_result_record_digest :: "bytes \<Rightarrow> int \<Rightarrow> int \<Rightarrow> pyexc + bytes" where
  "analysis_result_record_digest wire completed_at deadline =
     (if \<not> (1 \<le> length wire \<and> length wire \<le> MAX_CANONICAL_ANALYSIS_RESULT_BYTES) \<or>
         \<not> is_timestamp completed_at \<or> \<not> is_timestamp deadline \<or> deadline < completed_at
      then Inl ObservableApprovalOutboxError
      else Inr (sha256 (ANALYSIS_RESULT_DIGEST_DOMAIN @ be_bytes 4 (length wire) @ wire @
                        be_bytes 8 (nat completed_at) @ be_bytes 8 (nat deadline))))"

definition completion_token_digest :: "bytes \<Rightarrow> bytes \<Rightarrow> pyexc + bytes" where
  "completion_token_digest completion_token lease_token =
     (if \<not> is_fixed_bytes completion_token \<or> \<not> is_fixed_bytes lease_token then Inl ObservableApprovalOutboxError
      else Inr (sha256 (COMPLETION_TOKEN_DIGEST_DOMAIN @ completion_token @ lease_token)))"

subsection \<open>Rows\<close>

definition validate_outbox_row :: "outbox_row \<Rightarrow> pyexc + unit" where
  "validate_outbox_row r =
     raise_if (length (ox_approval_id r) \<noteq> FIXED_HASH_BYTES \<or> length (ox_observable_commitment r) \<noteq> FIXED_HASH_BYTES \<or>
               \<not> (1 \<le> length (ox_bundle_wire r) \<and> length (ox_bundle_wire r) \<le> MAX_CANONICAL_BYTES) \<or>
               \<not> (1 \<le> length (ox_statement_wire r) \<and> length (ox_statement_wire r) \<le> MAX_CANONICAL_V2_STATEMENT_BYTES) \<or>
               length (ox_statement_digest r) \<noteq> FIXED_HASH_BYTES \<or> length (ox_report_nonce r) \<noteq> FIXED_HASH_BYTES \<or>
               ox_retention_deadline r < 1)
       ObservableApprovalOutboxError"

definition revalidate_outbox_row :: "py_env \<Rightarrow> outbox_row \<Rightarrow> pystr \<Rightarrow> pyexc + unit" where
  "revalidate_outbox_row E r network =
     rbind (validate_outbox_row r) (\<lambda>_.
     rbind (validate_outbox_statement E (ox_statement_wire r) network (ox_observable_commitment r) (ox_report_nonce r)) (\<lambda>digest.
     rbind (raise_if (digest \<noteq> ox_statement_digest r) ObservableApprovalOutboxError) (\<lambda>_.
     rbind (recompute_commitment E (ox_bundle_wire r) network (ox_report_nonce r)) (\<lambda>recomputed.
     raise_if (recomputed \<noteq> ox_observable_commitment r) ObservableApprovalOutboxError))))"

definition validate_stored_result_row :: "result_row \<Rightarrow> pyexc + unit" where
  "validate_stored_result_row r =
     raise_if (\<not> is_fixed_bytes (rr_approval_id r) \<or>
               \<not> (1 \<le> length (rr_result_wire r) \<and> length (rr_result_wire r) \<le> MAX_CANONICAL_ANALYSIS_RESULT_BYTES) \<or>
               \<not> is_fixed_bytes (rr_result_digest r) \<or> \<not> is_fixed_bytes (rr_input_identity r) \<or>
               \<not> is_timestamp (rr_completed_at r) \<or> \<not> is_timestamp (rr_retention_deadline r) \<or>
               rr_retention_deadline r < rr_completed_at r)
       ObservableApprovalOutboxError"

text \<open>A stored result is used only if its wire is valid and its digest is the one of its record.\<close>

definition revalidate_result :: "py_env \<Rightarrow> result_row \<Rightarrow> bytes \<Rightarrow> pyexc + unit" where
  "revalidate_result E r approval_id =
     rbind (validate_analysis_result_wire E (rr_result_wire r) approval_id (rr_input_identity r) None None) (\<lambda>_.
     rbind (analysis_result_record_digest (rr_result_wire r) (rr_completed_at r) (rr_retention_deadline r)) (\<lambda>recomputed.
     raise_if (recomputed \<noteq> rr_result_digest r) ObservableApprovalOutboxError))"

definition validate_completion_retry_row :: "py_env \<Rightarrow> result_row option \<Rightarrow> bytes \<Rightarrow> pyexc + result_row" where
  "validate_completion_retry_row E row approval_id =
     (case row of
        None \<Rightarrow> Inl ObservableApprovalOutboxError
      | Some r \<Rightarrow>
          (if \<not> (1 \<le> length (rr_result_wire r) \<and> length (rr_result_wire r) \<le> MAX_CANONICAL_ANALYSIS_RESULT_BYTES) \<or>
              \<not> is_fixed_bytes (rr_result_digest r) \<or> \<not> is_fixed_bytes (rr_input_identity r) \<or>
              \<not> is_fixed_bytes (rr_completion_token_digest r) \<or> \<not> is_timestamp (rr_completed_at r) \<or>
              \<not> is_timestamp (rr_retention_deadline r) \<or> rr_retention_deadline r < rr_completed_at r
           then Inl ObservableApprovalOutboxError
           else rbind (revalidate_result E r approval_id) (\<lambda>_. Inr r)))"

subsection \<open>Claiming\<close>

record ObservableApprovalOutboxClaim =
  cl_approval_id :: bytes
  cl_observable_commitment :: bytes
  cl_bundle_wire :: bytes
  cl_statement_wire :: bytes
  cl_statement_digest :: bytes
  cl_report_nonce :: bytes
  cl_lease_token :: bytes
  cl_lease_expires_at :: int
  cl_input_identity :: bytes

text \<open>\<open>ORDER BY enqueued_at ASC, approval_id ASC\<close>; blobs are compared byte by byte.\<close>

definition row_before :: "outbox_row \<Rightarrow> outbox_row \<Rightarrow> bool" where
  "row_before r r' \<longleftrightarrow> ox_enqueued_at r < ox_enqueued_at r' \<or>
     (ox_enqueued_at r = ox_enqueued_at r' \<and> map unat (ox_approval_id r) < map unat (ox_approval_id r'))"

fun oldest :: "outbox_row list \<Rightarrow> outbox_row option" where
  "oldest [] = None"
| "oldest (r # rs) = (case oldest rs of None \<Rightarrow> Some r | Some m \<Rightarrow> if row_before m r then Some m else Some r)"

definition lease_free :: "int \<Rightarrow> outbox_row \<Rightarrow> bool" where
  "lease_free t r \<longleftrightarrow> (case ox_lease r of None \<Rightarrow> True | Some (_, expires) \<Rightarrow> expires \<le> t)"

definition eligible :: "int \<Rightarrow> outbox_row \<Rightarrow> bool" where
  "eligible t r \<longleftrightarrow> t < ox_retention_deadline r \<and> lease_free t r"

definition set_lease :: "bytes \<Rightarrow> int \<Rightarrow> int \<Rightarrow> bytes \<Rightarrow> outbox_row \<Rightarrow> outbox_row" where
  "set_lease approval_id t expires token r =
     (if ox_approval_id r = approval_id \<and> lease_free t r then r\<lparr>ox_lease := Some (token, expires)\<rparr> else r)"

definition require_governed :: "ledger \<Rightarrow> txerr + unit" where
  "require_governed L = raise_if (lg_version L \<noteq> SQLITE_SCHEMA_VERSION_GOVERNED) (Raise ObservableApprovalOutboxError)"

definition claim_tx ::
  "py_env \<Rightarrow> pystr \<Rightarrow> int \<Rightarrow> int \<Rightarrow> bytes \<Rightarrow> ledger \<Rightarrow> txerr + (outbox_row \<times> int) option \<times> ledger" where
  "claim_tx E network t lease_end token L =
     rbind (require_governed L) (\<lambda>_.
     rbind (bind_int t) (\<lambda>_.
     let L1 = purge_results t (purge_outbox t L)
     in case oldest (filter (eligible t) (lg_outbox L1)) of
          None \<Rightarrow> Inr (None, L1)
        | Some row \<Rightarrow>
            rbind (raise_tx (validate_outbox_row row)) (\<lambda>_.
            rbind (raise_tx (revalidate_outbox_row E row network)) (\<lambda>_.
            let expires = min lease_end (ox_retention_deadline row);
                targets = filter (\<lambda>r. ox_approval_id r = ox_approval_id row \<and> lease_free t r) (lg_outbox L1)
            in rbind (bind_int expires) (\<lambda>_.
               rbind (check (\<forall>r \<in> set targets. length token = 32 \<and> 1 \<le> expires \<and> expires \<le> ox_retention_deadline r)) (\<lambda>_.
               if length targets \<noteq> 1 then Inl (Raise ObservableApprovalOutboxError)
               else Inr (Some (row, expires),
                      L1\<lparr>lg_outbox := map (set_lease (ox_approval_id row) t expires token) (lg_outbox L1)\<rparr>)))))))"

definition build_outbox_claim :: "outbox_row \<Rightarrow> bytes \<Rightarrow> int \<Rightarrow> pystr \<Rightarrow> pyexc + ObservableApprovalOutboxClaim" where
  "build_outbox_claim row token expires network =
     rbind (analysis_input_identity network (ox_statement_wire row) (ox_bundle_wire row) (ox_approval_id row)
              (ox_observable_commitment row) token expires (ox_retention_deadline row)) (\<lambda>identity.
     Inr \<lparr>cl_approval_id = ox_approval_id row, cl_observable_commitment = ox_observable_commitment row,
          cl_bundle_wire = ox_bundle_wire row, cl_statement_wire = ox_statement_wire row,
          cl_statement_digest = ox_statement_digest row, cl_report_nonce = ox_report_nonce row,
          cl_lease_token = token, cl_lease_expires_at = expires, cl_input_identity = identity\<rparr>)"

text \<open>The errors of an outbox transaction: every error of SQLite that is not operational is an outbox error.\<close>

fun outbox_txerr :: "txerr \<Rightarrow> pyexc" where
  "outbox_txerr (Raise e) = e"
| "outbox_txerr _ = ObservableApprovalOutboxError"

definition claim ::
  "py_env \<Rightarrow> db_status \<Rightarrow> pystr \<Rightarrow> int \<Rightarrow> int \<Rightarrow> bytes \<Rightarrow> ledger \<Rightarrow>
     (pyexc + ObservableApprovalOutboxClaim option) \<times> ledger" where
  "claim E st network current_time lease_seconds token L =
     (if \<not> is_timestamp current_time \<or> \<not> (1 \<le> lease_seconds \<and> lease_seconds \<le> MAX_OUTBOX_LEASE_SECONDS)
      then (Inl ObservableApprovalOutboxError, L)
      else let lease_end = current_time + lease_seconds
           in if UINT64_MAX < lease_end then (Inl ObservableApprovalOutboxError, L)
              else if st \<noteq> DbOk then (Inl (status_error ObservableApprovalOutboxError st), L)
              else case claim_tx E network current_time lease_end token L of
                     Inl e \<Rightarrow> (Inl (outbox_txerr e), L)
                   | Inr (None, L') \<Rightarrow> (Inr None, L')
                   | Inr (Some (row, expires), L') \<Rightarrow>
                       (rbind (build_outbox_claim row token expires network) (\<lambda>c. Inr (Some c)), L'))"

subsection \<open>Completing\<close>

record ObservableAnalysisCompletion =
  cm_approval_id :: bytes
  cm_result_digest :: bytes
  cm_input_identity :: bytes
  cm_completed_at :: int
  cm_retention_deadline :: int

definition find_outbox :: "bytes \<Rightarrow> ledger \<Rightarrow> outbox_row option" where
  "find_outbox approval_id L = find (\<lambda>r. ox_approval_id r = approval_id) (lg_outbox L)"

definition find_result :: "bytes \<Rightarrow> ledger \<Rightarrow> result_row option" where
  "find_result approval_id L = find (\<lambda>r. rr_approval_id r = approval_id) (lg_results L)"

definition insert_result :: "result_row \<Rightarrow> ledger \<Rightarrow> txerr + ledger" where
  "insert_result r L =
     rbind (bind_int (rr_completed_at r)) (\<lambda>_.
     rbind (bind_int (rr_retention_deadline r)) (\<lambda>_.
     rbind (check (length (rr_approval_id r) = 32 \<and> 1 \<le> length (rr_result_wire r) \<and>
                   length (rr_result_digest r) = 32 \<and> length (rr_input_identity r) = 32 \<and>
                   length (rr_completion_token_digest r) = 32 \<and> 1 \<le> rr_completed_at r \<and>
                   rr_completed_at r \<le> rr_retention_deadline r)) (\<lambda>_.
     rbind (check (rr_approval_id r \<notin> set (map rr_approval_id (lg_results L)))) (\<lambda>_.
     rbind (check (rr_approval_id r \<in> set (map cr_approval_id (lg_consumptions L)))) (\<lambda>_.
     Inr (L\<lparr>lg_results := lg_results L @ [r]\<rparr>))))))"

text \<open>\<open>DELETE ... WHERE approval_id = ? AND lease_token = ? AND lease_expires_at > ?\<close>, which must remove one row.\<close>

definition leased_by :: "bytes \<Rightarrow> bytes \<Rightarrow> int \<Rightarrow> outbox_row \<Rightarrow> bool" where
  "leased_by approval_id token t r \<longleftrightarrow> ox_approval_id r = approval_id \<and>
     (case ox_lease r of None \<Rightarrow> False | Some (tok, expires) \<Rightarrow> tok = token \<and> t < expires)"

definition delete_leased :: "bytes \<Rightarrow> bytes \<Rightarrow> int \<Rightarrow> ledger \<Rightarrow> txerr + ledger" where
  "delete_leased approval_id token t L =
     (if length (filter (leased_by approval_id token t) (lg_outbox L)) \<noteq> 1 then Inl (Raise ObservableApprovalOutboxError)
      else Inr (L\<lparr>lg_outbox := filter (\<lambda>r. \<not> leased_by approval_id token t r) (lg_outbox L)\<rparr>))"

text \<open>The retry of a completed call, and the first completion.\<close>

definition complete_retry ::
  "py_env \<Rightarrow> bytes \<Rightarrow> bytes \<Rightarrow> bytes \<Rightarrow> bytes \<Rightarrow> ledger \<Rightarrow> txerr + ObservableAnalysisCompletion \<times> ledger" where
  "complete_retry E approval_id token_digest input_identity wire L =
     rbind (raise_tx (validate_completion_retry_row E (find_result approval_id L) approval_id)) (\<lambda>stored.
     if rr_result_wire stored \<noteq> wire \<or> rr_input_identity stored \<noteq> input_identity \<or>
        rr_completion_token_digest stored \<noteq> token_digest
     then Inl (Raise ObservableApprovalOutboxError)
     else Inr (\<lparr>cm_approval_id = approval_id, cm_result_digest = rr_result_digest stored,
                cm_input_identity = input_identity, cm_completed_at = rr_completed_at stored,
                cm_retention_deadline = rr_retention_deadline stored\<rparr>, L))"

definition complete_first ::
  "py_env \<Rightarrow> pystr \<Rightarrow> bytes \<Rightarrow> bytes \<Rightarrow> bytes \<Rightarrow> bytes \<Rightarrow> bytes \<Rightarrow> int \<Rightarrow> outbox_row \<Rightarrow> ledger \<Rightarrow>
     txerr + ObservableAnalysisCompletion \<times> ledger" where
  "complete_first E network approval_id lease_token token_digest input_identity wire t row L =
     rbind (raise_tx (validate_outbox_row row)) (\<lambda>_.
     rbind (raise_tx (revalidate_outbox_row E row network)) (\<lambda>_.
     case ox_lease row of
       None \<Rightarrow> Inl (Raise ObservableApprovalOutboxError)
     | Some (stored_token, expires) \<Rightarrow>
         (if \<not> is_fixed_bytes stored_token \<or> expires \<le> t \<or> stored_token \<noteq> lease_token
          then Inl (Raise ObservableApprovalOutboxError)
          else rbind (raise_tx (analysis_input_identity network (ox_statement_wire row) (ox_bundle_wire row)
                        (ox_approval_id row) (ox_observable_commitment row) stored_token expires
                        (ox_retention_deadline row))) (\<lambda>expected.
               if expected \<noteq> input_identity then Inl (Raise ObservableApprovalOutboxError)
               else rbind (raise_tx (validate_analysis_result_wire E wire approval_id input_identity
                             (Some (ox_statement_digest row)) (Some (ox_observable_commitment row)))) (\<lambda>_.
                    rbind (raise_tx (analysis_result_record_digest wire t (ox_retention_deadline row))) (\<lambda>digest.
                    rbind (insert_result
                             \<lparr>rr_approval_id = approval_id, rr_result_wire = wire, rr_result_digest = digest,
                              rr_input_identity = input_identity, rr_completion_token_digest = token_digest,
                              rr_completed_at = t, rr_retention_deadline = ox_retention_deadline row\<rparr> L) (\<lambda>L1.
                    rbind (delete_leased approval_id lease_token t L1) (\<lambda>L2.
                    Inr (\<lparr>cm_approval_id = approval_id, cm_result_digest = digest, cm_input_identity = input_identity,
                          cm_completed_at = t, cm_retention_deadline = ox_retention_deadline row\<rparr>, L2)))))))))"

definition complete_tx ::
  "py_env \<Rightarrow> pystr \<Rightarrow> bytes \<Rightarrow> bytes \<Rightarrow> bytes \<Rightarrow> bytes \<Rightarrow> bytes \<Rightarrow> int \<Rightarrow> ledger \<Rightarrow>
     txerr + ObservableAnalysisCompletion \<times> ledger" where
  "complete_tx E network approval_id lease_token token_digest input_identity wire t L =
     rbind (require_governed L) (\<lambda>_.
     rbind (bind_int t) (\<lambda>_.
     let L1 = purge_results t (purge_outbox t L)
     in case find_outbox approval_id L1 of
          None \<Rightarrow> complete_retry E approval_id token_digest input_identity wire L1
        | Some row \<Rightarrow>
            complete_first E network approval_id lease_token token_digest input_identity wire t row L1))"

definition complete ::
  "py_env \<Rightarrow> db_status \<Rightarrow> pystr \<Rightarrow> bytes \<Rightarrow> bytes \<Rightarrow> bytes \<Rightarrow> bytes \<Rightarrow> bytes \<Rightarrow> int \<Rightarrow> ledger \<Rightarrow>
     (pyexc + ObservableAnalysisCompletion) \<times> ledger" where
  "complete E st network approval_id lease_token completion_token input_identity wire current_time L =
     (if \<not> is_fixed_bytes approval_id \<or> \<not> is_fixed_bytes lease_token \<or> \<not> is_fixed_bytes completion_token \<or>
         \<not> is_fixed_bytes input_identity \<or> \<not> is_timestamp current_time
      then (Inl ObservableApprovalOutboxError, L)
      else case rbind (validate_analysis_result_wire E wire approval_id input_identity None None) (\<lambda>_.
                completion_token_digest completion_token lease_token) of
             Inl e \<Rightarrow> (Inl e, L)
           | Inr token_digest \<Rightarrow>
               (if st \<noteq> DbOk then (Inl (status_error ObservableApprovalOutboxError st), L)
                else case complete_tx E network approval_id lease_token token_digest input_identity wire current_time L of
                       Inl e \<Rightarrow> (Inl (outbox_txerr e), L)
                     | Inr (c, L') \<Rightarrow> (Inr c, L')))"

subsection \<open>Recovering a result\<close>

record ObservableAnalysisStoredResult =
  sr_approval_id :: bytes
  sr_result_wire :: bytes
  sr_result_digest :: bytes
  sr_input_identity :: bytes
  sr_completed_at :: int
  sr_retention_deadline :: int

definition build_stored_result :: "result_row \<Rightarrow> ObservableAnalysisStoredResult" where
  "build_stored_result r =
     \<lparr>sr_approval_id = rr_approval_id r, sr_result_wire = rr_result_wire r, sr_result_digest = rr_result_digest r,
      sr_input_identity = rr_input_identity r, sr_completed_at = rr_completed_at r,
      sr_retention_deadline = rr_retention_deadline r\<rparr>"

definition result_tx ::
  "py_env \<Rightarrow> bytes \<Rightarrow> int \<Rightarrow> ledger \<Rightarrow> txerr + ObservableAnalysisStoredResult option \<times> ledger" where
  "result_tx E approval_id t L =
     rbind (require_governed L) (\<lambda>_.
     rbind (bind_int t) (\<lambda>_.
     let L1 = purge_results t L
     in case find_result approval_id L1 of
          None \<Rightarrow> Inr (None, L1)
        | Some r \<Rightarrow>
            rbind (raise_tx (validate_stored_result_row r)) (\<lambda>_.
            rbind (raise_tx (revalidate_result E r (rr_approval_id r))) (\<lambda>_.
            Inr (Some (build_stored_result r), L1)))))"

definition outbox_result ::
  "py_env \<Rightarrow> db_status \<Rightarrow> bytes \<Rightarrow> int \<Rightarrow> ledger \<Rightarrow> (pyexc + ObservableAnalysisStoredResult option) \<times> ledger" where
  "outbox_result E st approval_id current_time L =
     (if \<not> is_fixed_bytes approval_id \<or> \<not> is_timestamp current_time then (Inl ObservableApprovalOutboxError, L)
      else if st \<noteq> DbOk then (Inl (status_error ObservableApprovalOutboxError st), L)
      else case result_tx E approval_id current_time L of
             Inl e \<Rightarrow> (Inl (outbox_txerr e), L)
           | Inr (r, L') \<Rightarrow> (Inr r, L'))"

text \<open>\<open>acknowledge\<close> never deletes.\<close>

definition acknowledge :: "bytes \<Rightarrow> bytes \<Rightarrow> ledger \<Rightarrow> (pyexc + unit) \<times> ledger" where
  "acknowledge approval_id lease_token L = (Inl ObservableApprovalOutboxError, L)"

end
