(* ===== verification/Ledger_Invariant.thy ===== *)
theory Ledger_Invariant
  imports Approval_Outbox
begin

text \<open>
  The ledger as a state machine: its steps are the calls of the consumption services and of the outbox, with any
  arguments and any answers of SQLite. The invariant of the reachable ledgers, what no step ever undoes, and the
  single-winner properties of consumption, lease and completion.
\<close>

subsection \<open>What the transactions change\<close>

lemma advance_time_iff:
  "advance_time t L = Inr L' \<longleftrightarrow>
     (\<exists>h. lg_high_water L = Some h \<and> h \<le> t \<and> - (2 ^ 63) \<le> t \<and> t < 2 ^ 63 \<and> L' = L\<lparr>lg_high_water := Some t\<rparr>)"
  by (auto simp: advance_time_def split: option.splits if_splits)

definition consumption_fits :: "consumption_row \<Rightarrow> bool" where
  "consumption_fits c \<longleftrightarrow>
     - (2 ^ 63) \<le> cr_not_before c \<and> cr_not_before c < 2 ^ 63 \<and> - (2 ^ 63) \<le> cr_expires_at c \<and> cr_expires_at c < 2 ^ 63 \<and>
     - (2 ^ 63) \<le> cr_consumed_at c \<and> cr_consumed_at c < 2 ^ 63 \<and>
     length (cr_approval_id c) = 32 \<and> length (cr_approver_xonly_public_key c) = 32 \<and> length (cr_approval_nonce c) = 32 \<and>
     length (cr_observable_commitment c) = 32 \<and> length (cr_recipient_scope c) = 32"

lemma insert_consumption_iff:
  "insert_consumption c L = Inr L' \<longleftrightarrow>
     consumption_fits c \<and> cr_approval_id c \<notin> cr_approval_id ` set (lg_consumptions L) \<and>
     cr_key c \<notin> cr_key ` set (lg_consumptions L) \<and> L' = L\<lparr>lg_consumptions := lg_consumptions L @ [c]\<rparr>"
  by (auto simp: insert_consumption_def consumption_fits_def)

definition enqueued_row :: "VerifiedObservableApproval \<Rightarrow> bytes \<Rightarrow> bytes \<Rightarrow> bytes \<Rightarrow> bytes \<Rightarrow> int \<Rightarrow> int \<Rightarrow> outbox_row" where
  "enqueued_row v bw sw digest nonce t deadline =
     \<lparr>ox_approval_id = va_approval_id v, ox_observable_commitment = va_observable_commitment v,
      ox_bundle_wire = bw, ox_statement_wire = sw, ox_statement_digest = digest, ox_report_nonce = nonce,
      ox_enqueued_at = t, ox_retention_deadline = deadline, ox_lease = None\<rparr>"

definition pairing_of :: "VerifiedObservableApproval \<Rightarrow> bytes \<Rightarrow> int \<Rightarrow> pairing_row" where
  "pairing_of v digest t =
     \<lparr>pg_statement_digest = digest, pg_approval_id = va_approval_id v,
      pg_observable_commitment = va_observable_commitment v, pg_network_id = va_network_id v, pg_consumed_at = t\<rparr>"

text \<open>The tables after an enqueueing, and what it takes.\<close>

definition enqueued :: "VerifiedObservableApproval \<Rightarrow> bytes \<Rightarrow> bytes \<Rightarrow> bytes \<Rightarrow> bytes \<Rightarrow> int \<Rightarrow> int \<Rightarrow> ledger \<Rightarrow> ledger" where
  "enqueued v bw sw digest nonce t deadline L =
     L\<lparr>lg_outbox := filter (\<lambda>r. t < ox_retention_deadline r) (lg_outbox L) @ [enqueued_row v bw sw digest nonce t deadline],
       lg_results := filter (\<lambda>r. t < rr_retention_deadline r) (lg_results L),
       lg_pairings := lg_pairings L @ [pairing_of v digest t]\<rparr>"

definition enqueue_ok ::
  "py_env \<Rightarrow> VerifiedObservableApproval \<Rightarrow> bytes \<Rightarrow> bytes \<Rightarrow> bytes \<Rightarrow> int \<Rightarrow> OutboxRetentionPolicy \<Rightarrow> bytes \<Rightarrow> ledger \<Rightarrow> bool" where
  "enqueue_ok E v bw sw nonce t retention digest L \<longleftrightarrow>
     1 \<le> rp_max_pending_records retention \<and> 1 \<le> rp_max_retention_seconds retention \<and>
     1 \<le> length bw \<and> length bw \<le> MAX_CANONICAL_BYTES \<and> length nonce = 32 \<and> length (va_approval_id v) = 32 \<and>
     1 \<le> t \<and> t + rp_max_retention_seconds retention < 2 ^ 63 \<and>
     validate_outbox_statement E sw (va_network_id v) (va_observable_commitment v) nonce = Inr digest \<and>
     recompute_commitment E bw (va_network_id v) nonce = Inr (va_observable_commitment v) \<and>
     int (length (filter (\<lambda>r. t < ox_retention_deadline r) (lg_outbox L))) < rp_max_pending_records retention \<and>
     va_approval_id v \<notin> ox_approval_id ` {r \<in> set (lg_outbox L). t < ox_retention_deadline r} \<and>
     digest \<notin> pg_statement_digest ` set (lg_pairings L) \<and> va_approval_id v \<notin> pg_approval_id ` set (lg_pairings L) \<and>
     va_observable_commitment v \<notin> pg_observable_commitment ` set (lg_pairings L) \<and>
     va_approval_id v \<in> cr_approval_id ` set (lg_consumptions L)"

lemma validate_outbox_statement_lengths:
  assumes "validate_outbox_statement E sw n c k = Inr digest"
  shows "length digest = 32" "length c = 32" "length k = 32" "1 \<le> length sw" "length sw \<le> MAX_CANONICAL_V2_STATEMENT_BYTES"
  using assms
  by (auto simp: validate_outbox_statement_def catch_eq_Inr_raise statement_digest_def FIXED_HASH_BYTES_def
      split: if_splits)

lemma enqueue_outbox_iff:
  "enqueue_outbox E v bw sw nonce t retention L = Inr L' \<longleftrightarrow>
     (\<exists>digest. enqueue_ok E v bw sw nonce t retention digest L \<and>
        L' = enqueued v bw sw digest nonce t (t + rp_max_retention_seconds retention) L)"
proof
  assume "enqueue_outbox E v bw sw nonce t retention L = Inr L'"
  then show "\<exists>digest. enqueue_ok E v bw sw nonce t retention digest L \<and>
        L' = enqueued v bw sw digest nonce t (t + rp_max_retention_seconds retention) L"
    by (clarsimp simp: enqueue_outbox_def enqueue_ok_def enqueued_def Let_def purge_outbox_def purge_results_def
        insert_outbox_def insert_pairing_def enqueued_row_def pairing_of_def FIXED_HASH_BYTES_def image_iff
        split: if_split_asm)
next
  assume "\<exists>digest. enqueue_ok E v bw sw nonce t retention digest L \<and>
        L' = enqueued v bw sw digest nonce t (t + rp_max_retention_seconds retention) L"
  then obtain digest where k: "enqueue_ok E v bw sw nonce t retention digest L"
    and L': "L' = enqueued v bw sw digest nonce t (t + rp_max_retention_seconds retention) L" by blast
  have s: "validate_outbox_statement E sw (va_network_id v) (va_observable_commitment v) nonce = Inr digest"
    using k by (simp add: enqueue_ok_def)
  have "UINT64_MAX \<ge> t + rp_max_retention_seconds retention" using k by (simp add: enqueue_ok_def UINT64_MAX_def)
  with k validate_outbox_statement_lengths [OF s] show "enqueue_outbox E v bw sw nonce t retention L = Inr L'"
    by (auto simp: enqueue_outbox_def enqueue_ok_def enqueued_def Let_def purge_outbox_def purge_results_def
        insert_outbox_def insert_pairing_def enqueued_row_def pairing_of_def FIXED_HASH_BYTES_def L')
qed

text \<open>The three tables a consumption always changes.\<close>

definition consumed :: "authority_row option \<Rightarrow> VerifiedObservableApproval \<Rightarrow> int \<Rightarrow> ledger \<Rightarrow> ledger" where
  "consumed a v t L =
     L\<lparr>lg_authority := a, lg_high_water := Some t, lg_consumptions := lg_consumptions L @ [consumption_of v t]\<rparr>"

definition consume_ok :: "VerifiedObservableApproval \<Rightarrow> int \<Rightarrow> ledger \<Rightarrow> bool" where
  "consume_ok v t L \<longleftrightarrow>
     (\<exists>h. lg_high_water L = Some h \<and> h \<le> t) \<and> consumption_fits (consumption_of v t) \<and>
     va_approval_id v \<notin> cr_approval_id ` set (lg_consumptions L) \<and>
     (va_approver_xonly_public_key v, va_approval_nonce v) \<notin> cr_key ` set (lg_consumptions L)"

lemma consume_core_iff:
  "rbind (advance_time t L) (\<lambda>L2. insert_consumption (consumption_of v t) L2) = Inr L' \<longleftrightarrow>
     consume_ok v t L \<and> L' = consumed (lg_authority L) v t L"
  by (auto simp: advance_time_iff insert_consumption_iff consume_ok_def consumed_def consumption_of_def cr_key_def
      consumption_fits_def)

lemma apply_authority_consume_ok:
  assumes "apply_authority_snapshot g L = Inr L1"
  shows "consume_ok v t L1 = consume_ok v t L" "consumed a v t L1 = consumed a v t L"
proof -
  obtain a1 where a1: "L1 = L\<lparr>lg_authority := a1\<rparr>" using apply_authority_tables(1) [OF assms] by blast
  show "consume_ok v t L1 = consume_ok v t L" "consumed a v t L1 = consumed a v t L"
    by (simp_all add: a1 consume_ok_def consumed_def)
qed

lemma consume_tx_legacy:
  "consume_tx E ob v t None bw sw nonce L = Inr L' \<longleftrightarrow> consume_ok v t L \<and> L' = consumed (lg_authority L) v t L"
proof -
  have "consume_tx E ob v t None bw sw nonce L =
      rbind (advance_time t L) (\<lambda>L2. insert_consumption (consumption_of v t) L2)"
    by (simp add: consume_tx_def) (cases "advance_time t L"; simp; cases "insert_consumption (consumption_of v t) L"; simp add: rbind_def split: sum.splits)
  then show ?thesis by (simp only: consume_core_iff)
qed

lemma consume_tx_governed:
  "consume_tx E ob v t (Some g) bw sw nonce L = Inr L' \<longleftrightarrow>
     (\<exists>L1. apply_authority_snapshot g L = Inr L1 \<and> consume_ok v t L \<and>
        (if ob then enqueue_outbox E v bw sw nonce t (gb_retention g) (consumed (lg_authority L1) v t L) = Inr L'
         else L' = consumed (lg_authority L1) v t L))"
proof -
  have "consume_tx E ob v t (Some g) bw sw nonce L = Inr L' \<longleftrightarrow>
      (\<exists>L1 L3. apply_authority_snapshot g L = Inr L1 \<and>
         rbind (advance_time t L1) (\<lambda>L2. insert_consumption (consumption_of v t) L2) = Inr L3 \<and>
         (if ob then enqueue_outbox E v bw sw nonce t (gb_retention g) L3 = Inr L' else L' = L3))"
    by (auto simp: consume_tx_def)
  then show ?thesis unfolding consume_core_iff
    by (cases ob; simp; metis apply_authority_consume_ok)
qed

subsection \<open>The invariant\<close>

definition consumptions_inv :: "ledger \<Rightarrow> bool" where
  "consumptions_inv L \<longleftrightarrow>
     distinct (map cr_approval_id (lg_consumptions L)) \<and> distinct (map cr_key (lg_consumptions L)) \<and>
     (\<exists>h. lg_high_water L = Some h \<and> (\<forall>c \<in> set (lg_consumptions L). cr_consumed_at c \<le> h)) \<and>
     (\<forall>c \<in> set (lg_consumptions L). 0 < cr_consumed_at c \<and> cr_not_before c \<le> cr_consumed_at c \<and>
        cr_consumed_at c \<le> cr_expires_at c)"

definition pairings_inv :: "ledger \<Rightarrow> bool" where
  "pairings_inv L \<longleftrightarrow>
     distinct (map pg_statement_digest (lg_pairings L)) \<and> distinct (map pg_approval_id (lg_pairings L)) \<and>
     distinct (map pg_observable_commitment (lg_pairings L)) \<and>
     (\<forall>p \<in> set (lg_pairings L). \<exists>c \<in> set (lg_consumptions L). cr_approval_id c = pg_approval_id p \<and>
        cr_observable_commitment c = pg_observable_commitment p \<and> cr_consumed_at c = pg_consumed_at p)"

text \<open>A record of the outbox is valid for the network of the authority, and a lease ends by the deadline.\<close>

definition outbox_row_ok :: "py_env \<Rightarrow> pystr \<Rightarrow> outbox_row \<Rightarrow> bool" where
  "outbox_row_ok E n r \<longleftrightarrow>
     revalidate_outbox_row E r n = Inr () \<and> 1 \<le> ox_enqueued_at r \<and> ox_enqueued_at r < ox_retention_deadline r \<and>
     ox_retention_deadline r < 2 ^ 63 \<and>
     (\<forall>tok e. ox_lease r = Some (tok, e) \<longrightarrow> length tok = 32 \<and> 1 \<le> e \<and> e \<le> ox_retention_deadline r)"

definition result_row_ok :: "py_env \<Rightarrow> result_row \<Rightarrow> bool" where
  "result_row_ok E r \<longleftrightarrow> validate_stored_result_row r = Inr () \<and> revalidate_result E r (rr_approval_id r) = Inr () \<and>
     length (rr_completion_token_digest r) = 32"

definition outbox_inv :: "py_env \<Rightarrow> ledger \<Rightarrow> bool" where
  "outbox_inv E L \<longleftrightarrow>
     distinct (map ox_approval_id (lg_outbox L)) \<and> distinct (map rr_approval_id (lg_results L)) \<and>
     ox_approval_id ` set (lg_outbox L) \<inter> rr_approval_id ` set (lg_results L) = {} \<and>
     (\<forall>r \<in> set (lg_outbox L). \<exists>p \<in> set (lg_pairings L). pg_approval_id p = ox_approval_id r \<and>
        pg_statement_digest p = ox_statement_digest r \<and> pg_observable_commitment p = ox_observable_commitment r) \<and>
     rr_approval_id ` set (lg_results L) \<subseteq> pg_approval_id ` set (lg_pairings L) \<and>
     (\<forall>r \<in> set (lg_outbox L). \<exists>a. lg_authority L = Some a \<and> outbox_row_ok E (ar_network_id a) r) \<and>
     (\<forall>r \<in> set (lg_results L). result_row_ok E r)"

definition ledger_inv :: "py_env \<Rightarrow> ledger \<Rightarrow> bool" where
  "ledger_inv E L \<longleftrightarrow> consumptions_inv L \<and> pairings_inv L \<and> outbox_inv E L"

lemma consumed_inv:
  assumes "consumptions_inv L" and "consume_ok v t L" and "0 < t" and "va_not_before v \<le> t" and "t \<le> va_expires_at v"
  shows "consumptions_inv (consumed a v t L)"
  using assms by (auto simp: consumptions_inv_def consumed_def consume_ok_def consumption_of_def cr_key_def image_iff)

lemma consumed_pairings: "pairings_inv L \<Longrightarrow> pairings_inv (consumed a v t L)"
  by (fastforce simp: pairings_inv_def consumed_def)

lemma consumed_outbox:
  assumes "outbox_inv E L" and "\<And>b. lg_authority L = Some b \<Longrightarrow> \<exists>b'. a = Some b' \<and> ar_network_id b' = ar_network_id b"
  shows "outbox_inv E (consumed a v t L)"
  using assms by (fastforce simp: outbox_inv_def consumed_def)

lemma enqueued_row_ok:
  assumes "enqueue_ok E v bw sw nonce t retention digest L"
  shows "outbox_row_ok E (va_network_id v) (enqueued_row v bw sw digest nonce t (t + rp_max_retention_seconds retention))"
proof -
  have s: "validate_outbox_statement E sw (va_network_id v) (va_observable_commitment v) nonce = Inr digest"
    using assms by (simp add: enqueue_ok_def)
  from assms validate_outbox_statement_lengths [OF s] show ?thesis
    by (simp add: outbox_row_ok_def enqueued_row_def revalidate_outbox_row_def validate_outbox_row_def enqueue_ok_def
        FIXED_HASH_BYTES_def)
qed

lemma purge_inv:
  assumes "outbox_inv E L"
  shows "outbox_inv E (purge_results t L)" "outbox_inv E (purge_outbox t L)"
proof -
  have "distinct (map f (filter P xs))" if "distinct (map f xs)" for f :: "'x \<Rightarrow> bytes" and P xs
    using that by (simp add: distinct_map inj_on_def)
  then show "outbox_inv E (purge_results t L)" "outbox_inv E (purge_outbox t L)"
    using assms by (auto simp: outbox_inv_def purge_results_def purge_outbox_def distinct_map_filter)
qed

lemma add_row_inv:
  assumes "outbox_inv E L" and "ox_approval_id r \<notin> ox_approval_id ` set (lg_outbox L)"
    and "ox_approval_id r \<notin> rr_approval_id ` set (lg_results L)"
    and "lg_authority L = Some a" and "outbox_row_ok E (ar_network_id a) r"
    and "pg_approval_id p = ox_approval_id r" "pg_statement_digest p = ox_statement_digest r"
      "pg_observable_commitment p = ox_observable_commitment r"
  shows "outbox_inv E (L\<lparr>lg_outbox := lg_outbox L @ [r], lg_pairings := lg_pairings L @ [p]\<rparr>)"
  using assms unfolding outbox_inv_def
  by (intro conjI) (auto simp: ball_Un)

lemma enqueued_inv:
  assumes "enqueue_ok E v bw sw nonce t retention digest L" and "pairings_inv L" and "outbox_inv E L"
    and "lg_authority L = Some a" and "ar_network_id a = va_network_id v"
    and "consumption_of v t \<in> set (lg_consumptions L)"
  shows "pairings_inv (enqueued v bw sw digest nonce t (t + rp_max_retention_seconds retention) L)"
    "outbox_inv E (enqueued v bw sw digest nonce t (t + rp_max_retention_seconds retention) L)"
proof -
  let ?L = "purge_results t (purge_outbox t L)"
  let ?r = "enqueued_row v bw sw digest nonce t (t + rp_max_retention_seconds retention)"
  show "pairings_inv (enqueued v bw sw digest nonce t (t + rp_max_retention_seconds retention) L)"
    using assms(1,2,6)
    by (auto simp: pairings_inv_def enqueued_def enqueue_ok_def pairing_of_def consumption_of_def intro!: bexI [of _ "consumption_of v t"])
  have "rr_approval_id ` set (lg_results L) \<subseteq> pg_approval_id ` set (lg_pairings L)"
    using assms(3) by (simp add: outbox_inv_def)
  then have "va_approval_id v \<notin> rr_approval_id ` set (lg_results L)"
    using assms(1) by (auto simp: enqueue_ok_def)
  then have n: "ox_approval_id ?r \<notin> rr_approval_id ` set (lg_results ?L)"
    by (auto simp: purge_results_def purge_outbox_def enqueued_row_def)
  have m: "ox_approval_id ?r \<notin> ox_approval_id ` set (lg_outbox ?L)"
    using assms(1) by (auto simp: enqueue_ok_def purge_results_def purge_outbox_def enqueued_row_def)
  have eq: "enqueued v bw sw digest nonce t (t + rp_max_retention_seconds retention) L =
      ?L\<lparr>lg_outbox := lg_outbox ?L @ [?r], lg_pairings := lg_pairings ?L @ [pairing_of v digest t]\<rparr>"
    by (simp add: enqueued_def purge_results_def purge_outbox_def)
  have i: "outbox_inv E ?L" by (intro purge_inv assms(3))
  have au: "lg_authority ?L = Some a" using assms(4) by (simp add: purge_results_def purge_outbox_def)
  have ok: "outbox_row_ok E (ar_network_id a) ?r" using enqueued_row_ok [OF assms(1)] assms(5) by simp
  show "outbox_inv E (enqueued v bw sw digest nonce t (t + rp_max_retention_seconds retention) L)"
    unfolding eq by (rule add_row_inv [OF i m n au ok]) (simp_all add: pairing_of_def enqueued_row_def)
qed

subsection \<open>The outbox transactions\<close>

lemma oldest_mem: "oldest rs = Some r \<Longrightarrow> r \<in> set rs"
  by (induction rs arbitrary: r) (auto split: option.splits if_splits)

lemma oldest_None [simp]: "oldest rs = None \<longleftrightarrow> rs = []"
  by (induction rs) (auto split: option.splits)

definition purged :: "int \<Rightarrow> ledger \<Rightarrow> ledger" where
  "purged t L = purge_results t (purge_outbox t L)"

lemma purged_tables [simp]:
  "lg_outbox (purged t L) = filter (\<lambda>r. t < ox_retention_deadline r) (lg_outbox L)"
  "lg_results (purged t L) = filter (\<lambda>r. t < rr_retention_deadline r) (lg_results L)"
  "lg_version (purged t L) = lg_version L" "lg_consumptions (purged t L) = lg_consumptions L"
  "lg_high_water (purged t L) = lg_high_water L" "lg_authority (purged t L) = lg_authority L"
  "lg_pairings (purged t L) = lg_pairings L"
  by (simp_all add: purged_def purge_results_def purge_outbox_def)

lemma purged_inv: "outbox_inv E L \<Longrightarrow> outbox_inv E (purged t L)"
  unfolding purged_def by (intro purge_inv)

definition leased :: "bytes \<Rightarrow> int \<Rightarrow> int \<Rightarrow> bytes \<Rightarrow> ledger \<Rightarrow> ledger" where
  "leased approval_id t expires token L = L\<lparr>lg_outbox := map (set_lease approval_id t expires token) (lg_outbox L)\<rparr>"

lemma claim_tx_None:
  "claim_tx E n t le tok L = Inr (None, L') \<longleftrightarrow>
     lg_version L = 5 \<and> - (2 ^ 63) \<le> t \<and> t < 2 ^ 63 \<and> filter (eligible t) (lg_outbox (purged t L)) = [] \<and> L' = purged t L"
  by (auto simp: claim_tx_def require_governed_def SQLITE_SCHEMA_VERSION_GOVERNED_def Let_def purged_def [symmetric]
      split: option.splits if_splits)

lemma claim_tx_Some:
  assumes "claim_tx E n t le tok L = Inr (Some (row, expires), L')"
  shows "lg_version L = 5" "row \<in> set (lg_outbox L)" "eligible t row"
    "oldest (filter (eligible t) (lg_outbox (purged t L))) = Some row" "revalidate_outbox_row E row n = Inr ()"
    "expires = min le (ox_retention_deadline row)" "length tok = 32" "1 \<le> expires"
    "L' = leased (ox_approval_id row) t expires tok (purged t L)"
proof -
  have o: "oldest (filter (eligible t) (lg_outbox (purged t L))) = Some row"
    and r: "lg_version L = 5" "revalidate_outbox_row E row n = Inr ()" "expires = min le (ox_retention_deadline row)"
      "L' = leased (ox_approval_id row) t expires tok (purged t L)"
    and c: "\<forall>r \<in> set (filter (\<lambda>r. ox_approval_id r = ox_approval_id row \<and> lease_free t r) (lg_outbox (purged t L))).
        length tok = 32 \<and> 1 \<le> expires \<and> expires \<le> ox_retention_deadline r"
    using assms
    by (auto simp: claim_tx_def require_governed_def SQLITE_SCHEMA_VERSION_GOVERNED_def Let_def purged_def [symmetric]
        leased_def simp del: purged_tables split: option.splits if_splits)
  have e: "row \<in> set (lg_outbox (purged t L))" "eligible t row" using oldest_mem [OF o] by auto
  with c have "length tok = 32 \<and> 1 \<le> expires" by (auto simp: eligible_def)
  then show "lg_version L = 5" "row \<in> set (lg_outbox L)" "eligible t row"
    "oldest (filter (eligible t) (lg_outbox (purged t L))) = Some row" "revalidate_outbox_row E row n = Inr ()"
    "expires = min le (ox_retention_deadline row)" "length tok = 32" "1 \<le> expires"
    "L' = leased (ox_approval_id row) t expires tok (purged t L)"
    using e o r by auto
qed

lemma set_lease_fields [simp]:
  "ox_approval_id (set_lease i t e k r) = ox_approval_id r"
  "ox_observable_commitment (set_lease i t e k r) = ox_observable_commitment r"
  "ox_statement_digest (set_lease i t e k r) = ox_statement_digest r"
  "ox_statement_wire (set_lease i t e k r) = ox_statement_wire r"
  "ox_bundle_wire (set_lease i t e k r) = ox_bundle_wire r"
  "ox_report_nonce (set_lease i t e k r) = ox_report_nonce r"
  "ox_enqueued_at (set_lease i t e k r) = ox_enqueued_at r"
  "ox_retention_deadline (set_lease i t e k r) = ox_retention_deadline r"
  by (simp_all add: set_lease_def)

lemma set_lease_revalidate [simp]:
  "revalidate_outbox_row E (set_lease i t e k r) n = revalidate_outbox_row E r n"
  by (simp add: revalidate_outbox_row_def validate_outbox_row_def)

lemma set_lease_map [simp]: "map (ox_approval_id \<circ> set_lease i t e k) rs = map ox_approval_id rs"
  by simp

lemma leased_inv:
  assumes "outbox_inv E L" and "row \<in> set (lg_outbox L)" and "length tok = 32" and "1 \<le> expires"
    and "expires \<le> ox_retention_deadline row"
  shows "outbox_inv E (leased (ox_approval_id row) t expires tok L)"
proof -
  have "r = row" if "r \<in> set (lg_outbox L)" "ox_approval_id r = ox_approval_id row" for r
    using assms(1,2) that by (auto simp: outbox_inv_def distinct_map inj_on_def)
  then have "outbox_row_ok E n (set_lease (ox_approval_id row) t expires tok r)"
    if "r \<in> set (lg_outbox L)" "outbox_row_ok E n r" for r n
    using that assms(3-5) by (auto simp: outbox_row_ok_def) (auto simp: set_lease_def split: if_splits)
  then show ?thesis using assms(1)
    unfolding outbox_inv_def leased_def by (intro conjI) (auto simp: image_image)
qed

lemma claim_tx_inv:
  assumes "claim_tx E n t le tok L = Inr (x, L')" and "outbox_inv E L"
  shows "outbox_inv E L'"
proof (cases x)
  case None
  then show ?thesis using assms claim_tx_None purged_inv by metis
next
  case (Some y)
  then obtain row expires where y: "x = Some (row, expires)" by (cases y) auto
  note c = claim_tx_Some [OF assms(1) [unfolded y]]
  have "row \<in> set (lg_outbox (purged t L))" using c(2,3) by (simp add: eligible_def)
  then show ?thesis using leased_inv [OF purged_inv [OF assms(2)], of row t tok expires] c(6-9) by simp
qed

lemma validate_result_weaken:
  "validate_analysis_result_wire E w i x d c = Inr () \<Longrightarrow> validate_analysis_result_wire E w i x None None = Inr ()"
  unfolding validate_analysis_result_wire_def
  by (auto split: pyval.splits option.splits if_splits)

lemma insert_result_iff:
  "insert_result r L = Inr L' \<longleftrightarrow>
     rr_completed_at r < 2 ^ 63 \<and> rr_retention_deadline r < 2 ^ 63 \<and>
     length (rr_approval_id r) = 32 \<and> 1 \<le> length (rr_result_wire r) \<and> length (rr_result_digest r) = 32 \<and>
     length (rr_input_identity r) = 32 \<and> length (rr_completion_token_digest r) = 32 \<and> 1 \<le> rr_completed_at r \<and>
     rr_completed_at r \<le> rr_retention_deadline r \<and> rr_approval_id r \<notin> rr_approval_id ` set (lg_results L) \<and>
     rr_approval_id r \<in> cr_approval_id ` set (lg_consumptions L) \<and> L' = L\<lparr>lg_results := lg_results L @ [r]\<rparr>"
  by (auto simp: insert_result_def)

text \<open>The first completion: the record that is stored, and what it took.\<close>

definition completed_row :: "bytes \<Rightarrow> bytes \<Rightarrow> bytes \<Rightarrow> bytes \<Rightarrow> bytes \<Rightarrow> int \<Rightarrow> int \<Rightarrow> result_row" where
  "completed_row i wire digest identity token_digest t deadline =
     \<lparr>rr_approval_id = i, rr_result_wire = wire, rr_result_digest = digest, rr_input_identity = identity,
      rr_completion_token_digest = token_digest, rr_completed_at = t, rr_retention_deadline = deadline\<rparr>"

definition completion_of :: "result_row \<Rightarrow> ObservableAnalysisCompletion" where
  "completion_of r =
     \<lparr>cm_approval_id = rr_approval_id r, cm_result_digest = rr_result_digest r, cm_input_identity = rr_input_identity r,
      cm_completed_at = rr_completed_at r, cm_retention_deadline = rr_retention_deadline r\<rparr>"

lemma complete_first_Inr:
  assumes "complete_first E n i tok td x w t row L = Inr (c, L')"
  shows "\<exists>digest expires. ox_lease row = Some (tok, expires) \<and> t < expires \<and>
     analysis_input_identity n (ox_statement_wire row) (ox_bundle_wire row) (ox_approval_id row)
       (ox_observable_commitment row) tok expires (ox_retention_deadline row) = Inr x \<and>
     validate_analysis_result_wire E w i x (Some (ox_statement_digest row)) (Some (ox_observable_commitment row)) = Inr () \<and>
     analysis_result_record_digest w t (ox_retention_deadline row) = Inr digest \<and>
     c = completion_of (completed_row i w digest x td t (ox_retention_deadline row)) \<and>
     (\<exists>L1. insert_result (completed_row i w digest x td t (ox_retention_deadline row)) L = Inr L1 \<and>
        delete_leased i tok t L1 = Inr L')"
  using assms
  by (clarsimp simp: complete_first_def completed_row_def completion_of_def split: option.splits prod.splits if_split_asm)

lemma record_digest_facts:
  assumes "analysis_result_record_digest w t deadline = Inr digest"
  shows "length digest = 32" "1 \<le> length w" "length w \<le> 1024" "is_timestamp t" "is_timestamp deadline" "t \<le> deadline"
  using assms by (auto simp: analysis_result_record_digest_def MAX_CANONICAL_ANALYSIS_RESULT_BYTES_def split: if_splits)

lemma completed_row_ok:
  assumes "validate_analysis_result_wire E w i x d c = Inr ()" and "analysis_result_record_digest w t deadline = Inr digest"
    and "length i = 32" "length x = 32" "length td = 32"
  shows "result_row_ok E (completed_row i w digest x td t deadline)"
  using record_digest_facts [OF assms(2)] assms(2-) validate_result_weaken [OF assms(1)]
  by (simp add: result_row_ok_def completed_row_def validate_stored_result_row_def revalidate_result_def is_fixed_bytes_def
      FIXED_HASH_BYTES_def MAX_CANONICAL_ANALYSIS_RESULT_BYTES_def)

lemma complete_first_inv:
  assumes "complete_first E n i tok td x w t row L = Inr (c, L')" and "outbox_inv E L"
    and "row \<in> set (lg_outbox L)" and "ox_approval_id row = i"
  shows "outbox_inv E L'" "i \<notin> ox_approval_id ` set (lg_outbox L')" "set (lg_outbox L') \<subseteq> set (lg_outbox L)"
    "\<exists>r. lg_results L' = lg_results L @ [r] \<and> rr_approval_id r = i \<and> result_row_ok E r \<and> c = completion_of r \<and>
       rr_result_wire r = w \<and> rr_input_identity r = x \<and> rr_completion_token_digest r = td \<and>
       rr_retention_deadline r = ox_retention_deadline row \<and> rr_completed_at r = t"
    "lg_consumptions L' = lg_consumptions L" "lg_pairings L' = lg_pairings L"
    "lg_high_water L' = lg_high_water L" "lg_authority L' = lg_authority L" "lg_version L' = lg_version L"
proof -
  obtain digest L1 where v: "validate_analysis_result_wire E w i x (Some (ox_statement_digest row)) (Some (ox_observable_commitment row)) = Inr ()"
    "analysis_result_record_digest w t (ox_retention_deadline row) = Inr digest"
    "c = completion_of (completed_row i w digest x td t (ox_retention_deadline row))"
    and ins: "insert_result (completed_row i w digest x td t (ox_retention_deadline row)) L = Inr L1"
    and del: "delete_leased i tok t L1 = Inr L'"
    using complete_first_Inr [OF assms(1)] by blast
  let ?r = "completed_row i w digest x td t (ox_retention_deadline row)"
  have f: "length i = 32" "length x = 32" "length td = 32" "L1 = L\<lparr>lg_results := lg_results L @ [?r]\<rparr>"
      "i \<notin> rr_approval_id ` set (lg_results L)"
    using ins by (simp_all add: insert_result_iff completed_row_def)
  have ok: "result_row_ok E ?r" using completed_row_ok [OF v(1,2)] f(1-3) by blast
  have L': "L' = L\<lparr>lg_results := lg_results L @ [?r], lg_outbox := filter (\<lambda>r. \<not> leased_by i tok t r) (lg_outbox L)\<rparr>"
    and one: "length (filter (leased_by i tok t) (lg_outbox L)) = 1"
    using del by (auto simp: delete_leased_def f(4) split: if_splits)
  have d: "distinct (map ox_approval_id (lg_outbox L))" using assms(2) by (simp add: outbox_inv_def)
  obtain q where q: "q \<in> set (lg_outbox L)" "leased_by i tok t q"
    using one by (metis filter_empty_conv length_0_conv zero_neq_one)
  have n: "leased_by i tok t r" if "r \<in> set (lg_outbox L)" "ox_approval_id r = i" for r
  proof -
    have "r = q" using d that q by (auto simp: distinct_map inj_on_def leased_by_def)
    then show ?thesis using q by simp
  qed
  then show k: "i \<notin> ox_approval_id ` set (lg_outbox L')" by (auto simp: L')
  show "set (lg_outbox L') \<subseteq> set (lg_outbox L)" by (auto simp: L')
  show "\<exists>r. lg_results L' = lg_results L @ [r] \<and> rr_approval_id r = i \<and> result_row_ok E r \<and> c = completion_of r \<and>
       rr_result_wire r = w \<and> rr_input_identity r = x \<and> rr_completion_token_digest r = td \<and>
       rr_retention_deadline r = ox_retention_deadline row \<and> rr_completed_at r = t"
    using ok v(3) by (intro exI [of _ ?r]) (simp add: L' completed_row_def)
  obtain p where "p \<in> set (lg_pairings L)" "pg_approval_id p = i" using assms(2-4) by (auto simp: outbox_inv_def)
  then show "outbox_inv E L'"
    using assms(2) f(5) ok k unfolding outbox_inv_def
    by (auto simp: L' distinct_map_filter completed_row_def)
  show "lg_consumptions L' = lg_consumptions L" "lg_pairings L' = lg_pairings L"
    "lg_high_water L' = lg_high_water L" "lg_authority L' = lg_authority L" "lg_version L' = lg_version L"
    by (simp_all add: L')
qed

lemma find_outbox_Some: "find_outbox i L = Some r \<Longrightarrow> r \<in> set (lg_outbox L) \<and> ox_approval_id r = i"
  by (auto simp: find_outbox_def find_Some_iff)

lemma find_outbox_None: "find_outbox i L = None \<longleftrightarrow> i \<notin> ox_approval_id ` set (lg_outbox L)"
  by (auto simp: find_outbox_def find_None_iff)

lemma find_result_Some: "find_result i L = Some r \<Longrightarrow> r \<in> set (lg_results L) \<and> rr_approval_id r = i"
  by (auto simp: find_result_def find_Some_iff)

lemma find_unique: "distinct (map f xs) \<Longrightarrow> x \<in> set xs \<Longrightarrow> find (\<lambda>y. f y = f x) xs = Some x"
  by (induction xs) (auto simp: image_iff)

lemma find_result_unique:
  "distinct (map rr_approval_id (lg_results L)) \<Longrightarrow> r \<in> set (lg_results L) \<Longrightarrow> find_result (rr_approval_id r) L = Some r"
  unfolding find_result_def by (rule find_unique)

text \<open>The two ways a completion succeeds.\<close>

lemma complete_tx_cases:
  assumes "complete_tx E n i tok td x w t L = Inr (c, L')"
  obtains (retry) r where "i \<notin> ox_approval_id ` set (lg_outbox (purged t L))" "L' = purged t L"
      "find_result i (purged t L) = Some r" "rr_result_wire r = w" "rr_input_identity r = x"
      "rr_completion_token_digest r = td" "c = completion_of (r\<lparr>rr_approval_id := i\<rparr>)" "lg_version L = 5"
  | (first) row where "row \<in> set (lg_outbox (purged t L))" "ox_approval_id row = i"
      "complete_first E n i tok td x w t row (purged t L) = Inr (c, L')" "lg_version L = 5"
proof (cases "find_outbox i (purged t L)")
  case None
  then have "complete_retry E i td x w (purged t L) = Inr (c, L')" and v: "lg_version L = 5"
    using assms by (auto simp: complete_tx_def Let_def purged_def [symmetric] require_governed_def
        SQLITE_SCHEMA_VERSION_GOVERNED_def)
  moreover from this obtain r where "find_result i (purged t L) = Some r"
    by (auto simp: complete_retry_def validate_completion_retry_row_def split: option.splits)
  ultimately show ?thesis using None
    by (intro retry [of r])
       (auto simp: find_outbox_None complete_retry_def validate_completion_retry_row_def completion_of_def split: if_splits)
next
  case (Some row)
  then have "complete_first E n i tok td x w t row (purged t L) = Inr (c, L')" "lg_version L = 5"
    using assms by (auto simp: complete_tx_def Let_def purged_def [symmetric] require_governed_def
        SQLITE_SCHEMA_VERSION_GOVERNED_def)
  with find_outbox_Some [OF Some] show ?thesis by (intro first [of row]) auto
qed

subsection \<open>Steps\<close>

text \<open>What no step undoes: consumptions and pairings are only appended, time and epoch never go back.\<close>

definition extends :: "ledger \<Rightarrow> ledger \<Rightarrow> bool" where
  "extends L L' \<longleftrightarrow>
     (\<exists>cs. lg_consumptions L' = lg_consumptions L @ cs) \<and> (\<exists>ps. lg_pairings L' = lg_pairings L @ ps) \<and>
     (\<forall>h. lg_high_water L = Some h \<longrightarrow> (\<exists>h'. lg_high_water L' = Some h' \<and> h \<le> h')) \<and>
     (\<forall>a. lg_authority L = Some a \<longrightarrow> (\<exists>a'. lg_authority L' = Some a' \<and> ar_network_id a' = ar_network_id a \<and>
        ar_authority_epoch a \<le> ar_authority_epoch a')) \<and>
     lg_version L' = lg_version L"

lemma extends_refl [simp]: "extends L L"
  by (simp add: extends_def)

lemma extends_trans:
  assumes "extends L L'" and "extends L' L''"
  shows "extends L L''"
  unfolding extends_def
proof (intro conjI allI impI)
  show "\<exists>cs. lg_consumptions L'' = lg_consumptions L @ cs" "\<exists>ps. lg_pairings L'' = lg_pairings L @ ps"
    "lg_version L'' = lg_version L"
    using assms by (auto simp: extends_def)
next
  fix h assume "lg_high_water L = Some h"
  then show "\<exists>h'. lg_high_water L'' = Some h' \<and> h \<le> h'"
    using assms unfolding extends_def by (meson order_trans)
next
  fix a assume "lg_authority L = Some a"
  then obtain a' where "lg_authority L' = Some a'" "ar_network_id a' = ar_network_id a"
      "ar_authority_epoch a \<le> ar_authority_epoch a'"
    using assms(1) unfolding extends_def by blast
  moreover from this(1) obtain a'' where "lg_authority L'' = Some a''" "ar_network_id a'' = ar_network_id a'"
      "ar_authority_epoch a' \<le> ar_authority_epoch a''"
    using assms(2) unfolding extends_def by blast
  ultimately show "\<exists>a''. lg_authority L'' = Some a'' \<and> ar_network_id a'' = ar_network_id a \<and>
      ar_authority_epoch a \<le> ar_authority_epoch a''"
    by auto
qed

lemma extends_same:
  "lg_consumptions L' = lg_consumptions L \<Longrightarrow> lg_pairings L' = lg_pairings L \<Longrightarrow> lg_high_water L' = lg_high_water L \<Longrightarrow>
     lg_authority L' = lg_authority L \<Longrightarrow> lg_version L' = lg_version L \<Longrightarrow> extends L L'"
  by (simp add: extends_def)

lemma consumed_extends:
  assumes "consume_ok v t L"
    and "\<And>b. lg_authority L = Some b \<Longrightarrow> \<exists>b'. a = Some b' \<and> ar_network_id b' = ar_network_id b \<and> ar_authority_epoch b \<le> ar_authority_epoch b'"
  shows "extends L (consumed a v t L)"
  using assms by (auto simp: extends_def consumed_def consume_ok_def)

text \<open>A service whose policies agree on the network, as its constructor checks.\<close>

definition service_ok :: "consumption_service \<Rightarrow> bool" where
  "service_ok S \<longleftrightarrow> (\<forall>g. cs_governance S = Some g \<longrightarrow> gp_network_id (gb_policy g) = ap_network_id (cs_policy S))"

inductive lstep :: "py_env \<Rightarrow> ledger \<Rightarrow> ledger \<Rightarrow> bool" for E where
  consume: "service_ok S \<Longrightarrow> service_consume E B st st2 S aw bw nonce t L = (r, L') \<Longrightarrow> lstep E L L'"
| expected: "service_ok S \<Longrightarrow> consume_expected E B st st2 S aw bw nonce t i c sw L = (r, L') \<Longrightarrow> lstep E L L'"
| claim: "claim E st n t seconds token L = (cl, L') \<Longrightarrow> lstep E L L'"
| complete: "complete E st n i token ctoken x w t L = (cm, L') \<Longrightarrow> lstep E L L'"
| result: "outbox_result E st i t L = (sr, L') \<Longrightarrow> lstep E L L'"
| acknowledge: "acknowledge i token L = (u', L') \<Longrightarrow> lstep E L L'"

lemma consume_core_cases:
  assumes "ledger_consume_core E st st2 ob v t g bw sw nonce L = (r, L')"
  obtains (err) e where "r = Inl e" "L' = L"
  | (ok) "st = DbOk" "is_timestamp t" "va_not_before v \<le> t" "t \<le> va_expires_at v"
      "consume_tx E ob v t g bw (case sw of None \<Rightarrow> [] | Some w \<Rightarrow> w) nonce L = Inr L'"
      "r = Inr \<lparr>ac_approval_id = va_approval_id v, ac_observable_commitment = va_observable_commitment v, ac_consumed_at = t\<rparr>"
proof (cases "consume_tx E ob v t g bw (case sw of None \<Rightarrow> [] | Some w \<Rightarrow> w) nonce L")
  case (Inl x)
  then show ?thesis using assms by (intro err [of "projl r"]; cases x; auto simp: ledger_consume_core_def split: if_splits)
next
  case (Inr y)
  show ?thesis
  proof (cases "\<exists>e. r = Inl e")
    case True
    then show ?thesis using assms Inr by (auto intro!: err simp: ledger_consume_core_def split: if_splits)
  next
    case False
    then show ?thesis using assms Inr by (intro ok; auto simp: ledger_consume_core_def split: if_splits)
  qed
qed

text \<open>A successful consumption: the row is new, and with the outbox a record and a pairing go with it.\<close>

lemma governed_authority:
  assumes "apply_authority_snapshot g L = Inr L1"
  obtains a1 where "lg_authority L1 = Some a1" "ar_network_id a1 = gp_network_id (gb_policy g)"
    "\<And>b. lg_authority L = Some b \<Longrightarrow> ar_network_id a1 = ar_network_id b \<and> ar_authority_epoch b \<le> ar_authority_epoch a1"
proof -
  obtain a1 where a1: "lg_authority L1 = Some a1"
    "\<forall>a. lg_authority L = Some a \<longrightarrow> ar_authority_epoch a \<le> ar_authority_epoch a1 \<and> ar_network_id a = ar_network_id a1"
    using apply_authority_tables(4) [OF assms] by blast
  then show thesis using apply_authority_tables(3) [OF assms a1(1)] by (intro that [of a1]) auto
qed

lemma consume_tx_step:
  assumes "consume_tx E ob v t g bw sw nonce L = Inr L'" and "ledger_inv E L"
    and "0 < t" and "va_not_before v \<le> t" and "t \<le> va_expires_at v"
    and "\<And>g'. g = Some g' \<Longrightarrow> gp_network_id (gb_policy g') = va_network_id v"
  shows "ledger_inv E L' \<and> extends L L' \<and> lg_consumptions L' = lg_consumptions L @ [consumption_of v t]"
proof -
  have inv: "consumptions_inv L" "pairings_inv L" "outbox_inv E L" using assms(2) by (simp_all add: ledger_inv_def)
  show ?thesis
  proof (cases g)
    case None
    then have c: "consume_ok v t L" "L' = consumed (lg_authority L) v t L" using assms(1) by (simp_all add: consume_tx_legacy)
    have "ledger_inv E L'" unfolding ledger_inv_def c(2)
      using consumed_inv [OF inv(1) c(1) assms(3-5)] consumed_pairings [OF inv(2)] consumed_outbox [OF inv(3)] by blast
    moreover have "extends L L'" unfolding c(2) using consumed_extends [OF c(1)] by blast
    ultimately show ?thesis by (simp add: c(2) consumed_def)
  next
    case (Some g')
    then obtain L1 where a: "apply_authority_snapshot g' L = Inr L1" and c: "consume_ok v t L"
      and l: "if ob then enqueue_outbox E v bw sw nonce t (gb_retention g') (consumed (lg_authority L1) v t L) = Inr L'
        else L' = consumed (lg_authority L1) v t L"
      using assms(1) by (auto simp: consume_tx_governed)
    obtain a1 where a1: "lg_authority L1 = Some a1" "ar_network_id a1 = va_network_id v"
      "\<And>b. lg_authority L = Some b \<Longrightarrow> ar_network_id a1 = ar_network_id b \<and> ar_authority_epoch b \<le> ar_authority_epoch a1"
      using governed_authority [OF a] assms(6) [OF Some] by metis
    let ?M = "consumed (Some a1) v t L"
    have m: "consumptions_inv ?M" "pairings_inv ?M" "outbox_inv E ?M"
      using consumed_inv [OF inv(1) c assms(3-5)] consumed_pairings [OF inv(2)]
        consumed_outbox [OF inv(3), of "Some a1"] a1(3) by auto
    have x: "extends L ?M" using consumed_extends [OF c, of "Some a1"] a1(3) by auto
    show ?thesis
    proof (cases ob)
      case False
      then show ?thesis using l m x a1(1) by (simp add: ledger_inv_def) (simp add: consumed_def)
    next
      case True
      then obtain digest where q: "enqueue_ok E v bw sw nonce t (gb_retention g') digest ?M"
        and L': "L' = enqueued v bw sw digest nonce t (t + rp_max_retention_seconds (gb_retention g')) ?M"
        using l a1(1) by (auto simp: enqueue_outbox_iff)
      have "pairings_inv L'" "outbox_inv E L'"
        using enqueued_inv [OF q m(2,3), of a1] a1(2) unfolding L' by (simp_all add: consumed_def)
      moreover have "consumptions_inv L'" using m(1) by (simp add: L' enqueued_def consumptions_inv_def)
      moreover have "extends ?M L'" by (simp add: L' enqueued_def extends_def consumed_def)
      ultimately show ?thesis using extends_trans [OF x]
        by (simp add: ledger_inv_def) (simp add: L' enqueued_def consumed_def)
    qed
  qed
qed

lemma consume_verified_cases:
  assumes "consume_verified E st st2 S v bw sw nonce t L = (r, L')"
  obtains (err) e where "r = Inl e" "L' = L"
  | (ok) bw' sw' nonce' where "st = DbOk" "is_timestamp t" "va_not_before v \<le> t" "t \<le> va_expires_at v"
      "consume_tx E (cs_outbox S) v t (cs_governance S) bw' sw' nonce' L = Inr L'"
      "r = Inr \<lparr>ac_approval_id = va_approval_id v, ac_observable_commitment = va_observable_commitment v, ac_consumed_at = t\<rparr>"
      "\<And>g. cs_governance S = Some g \<Longrightarrow> validate_governance E v bw t g = Inr () \<and> bw' = bw \<and> nonce' = nonce \<and>
         (if cs_outbox S then sw = Some sw' else sw = None)"
proof (cases "cs_governance S")
  case None
  then have "ledger_consume_core E st st2 (cs_outbox S) v t None [] None [] L = (r, L')"
    using assms by (simp add: consume_verified_def)
  then show ?thesis by (cases rule: consume_core_cases) (auto intro: err ok simp: None)
next
  case (Some g)
  consider (e) e where "r = Inl e" "L' = L"
    | (c) "validate_governance E v bw t g = Inr ()" "cs_outbox S \<noteq> (sw = None)"
        "ledger_consume_core E st st2 (cs_outbox S) v t (Some g) bw sw nonce L = (r, L')"
    using assms Some by (auto simp: consume_verified_def consume_governed_def split: sum.splits if_splits)
  then show ?thesis
  proof cases
    case e
    then show ?thesis by (rule err)
  next
    case c
    from c(3) show ?thesis
    proof (cases rule: consume_core_cases)
      case (err e)
      then show ?thesis by (rule that(1))
    next
      case ok
      have "if cs_outbox S then sw = Some (case sw of None \<Rightarrow> [] | Some w \<Rightarrow> w) else sw = None"
        using c(2) by (cases sw) auto
      with ok c(1) Some show ?thesis by (intro that(2)) auto
    qed
  qed
qed

lemma service_verify_iff:
  assumes "1 \<le> json_depth E"
  shows "service_verify E B S aw bw nonce t = Inr v \<longleftrightarrow> approval_spec E B aw bw (service_context S nonce t) v"
proof -
  have "length nonce = 32 \<and> is_timestamp t" if "approval_spec E B aw bw (service_context S nonce t) v"
    using that by (auto simp: approval_spec_def context_ok_def service_context_def is_timestamp_def UINT64_MAX_def)
  then show ?thesis
    by (auto simp: service_verify_def catch_eq_Inr_raise approval_verify_iff [OF assms] FIXED_HASH_BYTES_def)
qed

text \<open>The network of a verified approval is that of the policy.\<close>

lemma service_verify_network:
  "service_verify E B S aw bw nonce t = Inr v \<Longrightarrow> va_network_id v = ap_network_id (cs_policy S)"
  by (auto simp: service_verify_def catch_eq_Inr_raise verify_observable_approval_def service_context_def
      approval_spec_def approval_ok_def dest!: verify_inner_enc split: if_splits)

lemma consume_verified_step:
  assumes "consume_verified E st st2 S v bw sw nonce t L = (r, L')" and "ledger_inv E L" and "service_ok S"
    and "va_network_id v = ap_network_id (cs_policy S)"
  shows "ledger_inv E L' \<and> extends L L'"
  using assms(1)
proof (cases rule: consume_verified_cases)
  case err
  then show ?thesis using assms(2) by simp
next
  case (ok bw' sw' nonce')
  then show ?thesis
    using consume_tx_step [OF ok(5) assms(2)] assms(3,4) by (auto simp: is_timestamp_def service_ok_def)
qed

lemma service_consume_cases:
  assumes "service_consume E B st st2 S aw bw nonce t L = (r, L')"
  obtains (err) e where "r = Inl e" "L' = L"
  | (ok) v where "service_verify E B S aw bw nonce t = Inr v" "consume_verified E st st2 S v bw None nonce t L = (r, L')"
  using assms by (cases "service_verify E B S aw bw nonce t") (auto simp: service_consume_def)

lemma consume_expected_cases:
  assumes "consume_expected E B st st2 S aw bw nonce t i c sw L = (r, L')"
  obtains (err) e where "r = Inl e" "L' = L"
  | (ok) v where "service_verify E B S aw bw nonce t = Inr v" "va_approval_id v = i" "va_observable_commitment v = c"
      "consume_verified E st st2 S v bw sw nonce t L = (r, L')"
  using assms by (cases "service_verify E B S aw bw nonce t") (auto simp: consume_expected_def split: if_splits)

lemma claim_cases:
  assumes "claim E st n t seconds token L = (r, L')"
  obtains (err) e where "r = Inl e" "L' = L"
  | (ok) x where "st = DbOk" "is_timestamp t" "1 \<le> seconds" "seconds \<le> 300" "t + seconds \<le> UINT64_MAX"
      "claim_tx E n t (t + seconds) token L = Inr (x, L')"
      "r = (case x of None \<Rightarrow> Inr None | Some (row, expires) \<Rightarrow>
         rbind (build_outbox_claim row token expires n) (\<lambda>c. Inr (Some c)))"
  using assms
  by (cases "claim_tx E n t (t + seconds) token L")
     (auto simp: claim_def Let_def MAX_OUTBOX_LEASE_SECONDS_def split: if_splits option.splits)

lemma complete_cases:
  assumes "complete E st n i token ctoken x w t L = (r, L')"
  obtains (err) e where "r = Inl e" "L' = L"
  | (ok) c td where "st = DbOk" "is_timestamp t" "completion_token_digest ctoken token = Inr td"
      "complete_tx E n i token td x w t L = Inr (c, L')" "r = Inr c" "length i = 32"
  using assms
  by (cases "completion_token_digest ctoken token";
      cases "complete_tx E n i token (projr (completion_token_digest ctoken token)) x w t L")
     (auto simp: complete_def is_fixed_bytes_def FIXED_HASH_BYTES_def split: if_splits sum.splits)

lemma result_tx_Inr:
  assumes "result_tx E i t L = Inr (x, L')"
  shows "L' = purge_results t L \<and> lg_version L = 5 \<and>
    (x = None \<and> find_result i (purge_results t L) = None \<or>
     (\<exists>row. find_result i (purge_results t L) = Some row \<and> x = Some (build_stored_result row)))"
  using assms
  by (auto simp: result_tx_def require_governed_def SQLITE_SCHEMA_VERSION_GOVERNED_def Let_def split: option.splits if_splits)

lemma outbox_result_cases:
  assumes "outbox_result E st i t L = (r, L')"
  obtains (err) e where "r = Inl e" "L' = L"
  | (ok) x where "L' = purge_results t L" "r = Inr x" "lg_version L = 5"
      "x = None \<and> find_result i (purge_results t L) = None \<or>
       (\<exists>row. find_result i (purge_results t L) = Some row \<and> x = Some (build_stored_result row))"
proof (cases "result_tx E i t L")
  case (Inl e)
  then show ?thesis using assms by (intro err [of "projl r"]; auto simp: outbox_result_def split: if_splits)
next
  case (Inr y)
  obtain x L1 where y: "y = (x, L1)" by (cases y)
  show ?thesis
  proof (cases "\<exists>e. r = Inl e")
    case True
    then show ?thesis using assms Inr y by (auto intro: err simp: outbox_result_def split: if_splits)
  next
    case False
    then have "r = Inr x" "L' = L1" using assms Inr y by (auto simp: outbox_result_def split: if_splits)
    then show ?thesis using result_tx_Inr [of E i t L x L1] Inr y by (intro ok [of x]; simp)
  qed
qed

lemma claim_tx_extends: "claim_tx E n t le tok L = Inr (x, L') \<Longrightarrow> extends L L'"
  using claim_tx_None [of E n t le tok L L'] claim_tx_Some(9) [of E n t le tok L _ _ L']
  by (cases x) (auto simp: leased_def intro!: extends_same)

lemma complete_tx_step:
  assumes "complete_tx E n i tok td x w t L = Inr (c, L')" and "outbox_inv E L"
  shows "outbox_inv E L' \<and> extends L L'"
  using assms(1)
proof (cases rule: complete_tx_cases)
  case retry
  then show ?thesis using purged_inv [OF assms(2)] by (auto intro: extends_same)
next
  case (first row)
  note f = complete_first_inv [OF first(3) purged_inv [OF assms(2)] first(1,2)]
  then show ?thesis by (auto intro: extends_same)
qed

text \<open>The invariant rests on the tables a step does not touch, and on the outbox.\<close>

lemma ledger_inv_outbox:
  assumes "ledger_inv E L" and "outbox_inv E L'" and "lg_consumptions L' = lg_consumptions L"
    and "lg_pairings L' = lg_pairings L" and "lg_high_water L' = lg_high_water L"
  shows "ledger_inv E L'"
  using assms by (simp add: ledger_inv_def consumptions_inv_def pairings_inv_def)

lemma claim_tx_same:
  assumes "claim_tx E n t le tok L = Inr (x, L')"
  shows "lg_consumptions L' = lg_consumptions L" "lg_pairings L' = lg_pairings L" "lg_high_water L' = lg_high_water L"
    "lg_results L' = filter (\<lambda>r. t < rr_retention_deadline r) (lg_results L)"
    "map ox_approval_id (lg_outbox L') = map ox_approval_id (filter (\<lambda>r. t < ox_retention_deadline r) (lg_outbox L))"
  using assms claim_tx_None [of E n t le tok L L'] claim_tx_Some(9) [of E n t le tok L _ _ L']
  by (cases x; auto simp: leased_def)+

lemma complete_tx_same:
  assumes "complete_tx E n i tok td x w t L = Inr (c, L')" and "outbox_inv E L"
  shows "lg_consumptions L' = lg_consumptions L" "lg_pairings L' = lg_pairings L" "lg_high_water L' = lg_high_water L"
    "set (lg_outbox L') \<subseteq> set (lg_outbox L)" "i \<notin> ox_approval_id ` set (lg_outbox L')"
proof -
  have "lg_consumptions L' = lg_consumptions L \<and> lg_pairings L' = lg_pairings L \<and> lg_high_water L' = lg_high_water L \<and>
    set (lg_outbox L') \<subseteq> set (lg_outbox L) \<and> i \<notin> ox_approval_id ` set (lg_outbox L')"
    using assms(1)
  proof (cases rule: complete_tx_cases)
    case retry
    then show ?thesis by auto
  next
    case (first row)
    note f = complete_first_inv [OF first(3) purged_inv [OF assms(2)] first(1,2)]
    have "set (lg_outbox L') \<subseteq> set (lg_outbox L)" using f(3) by auto
    then show ?thesis using f(2,5-7) by simp
  qed
  then show "lg_consumptions L' = lg_consumptions L" "lg_pairings L' = lg_pairings L" "lg_high_water L' = lg_high_water L"
    "set (lg_outbox L') \<subseteq> set (lg_outbox L)" "i \<notin> ox_approval_id ` set (lg_outbox L')"
    by blast+
qed

lemma lstep_inv:
  assumes "lstep E L L'" and "ledger_inv E L"
  shows "ledger_inv E L' \<and> extends L L'"
  using assms
proof (cases rule: lstep.cases)
  case (consume S B st st2 aw bw nonce t r)
  from consume(2) show ?thesis
  proof (cases rule: service_consume_cases)
    case (ok v)
    then show ?thesis using consume_verified_step [OF ok(2) assms(2) consume(1)] service_verify_network [OF ok(1)] by blast
  qed (use assms(2) in simp)
next
  case (expected S B st st2 aw bw nonce t i c sw r)
  from expected(2) show ?thesis
  proof (cases rule: consume_expected_cases)
    case (ok v)
    then show ?thesis using consume_verified_step [OF ok(4) assms(2) expected(1)] service_verify_network [OF ok(1)] by blast
  qed (use assms(2) in simp)
next
  case (claim st n t seconds token cl)
  from claim show ?thesis
  proof (cases rule: claim_cases)
    case (ok x)
    have "outbox_inv E L'" using claim_tx_inv [OF ok(6)] assms(2) by (simp add: ledger_inv_def)
    then show ?thesis using ledger_inv_outbox [OF assms(2)] claim_tx_same [OF ok(6)] claim_tx_extends [OF ok(6)] by blast
  qed (use assms(2) in simp)
next
  case (complete st n i token ctoken x w t cm)
  from complete show ?thesis
  proof (cases rule: complete_cases)
    case (ok c td)
    have o: "outbox_inv E L" using assms(2) by (simp add: ledger_inv_def)
    then show ?thesis using ledger_inv_outbox [OF assms(2)] complete_tx_step [OF ok(4) o] complete_tx_same [OF ok(4) o] by blast
  qed (use assms(2) in simp)
next
  case (result st i t sr)
  from result show ?thesis
  proof (cases rule: outbox_result_cases)
    case (ok x)
    have "outbox_inv E L'" using purge_inv(1) assms(2) by (simp add: ledger_inv_def ok(1))
    then show ?thesis using ledger_inv_outbox [OF assms(2)] by (auto simp: ok(1) purge_results_def extends_def)
  qed (use assms(2) in simp)
next
  case (acknowledge i token u')
  then show ?thesis using assms(2) by (simp add: acknowledge_def)
qed

lemma lsteps_inv: "(lstep E)\<^sup>*\<^sup>* L L' \<Longrightarrow> ledger_inv E L \<Longrightarrow> ledger_inv E L' \<and> extends L L'"
  by (induction rule: rtranclp_induct) (auto dest: lstep_inv intro: extends_trans)

text \<open>A new governed ledger.\<close>

definition new_ledger :: ledger where
  "new_ledger =
     \<lparr>lg_version = 5, lg_consumptions = [], lg_high_water = Some 0, lg_authority = None, lg_outbox = [], lg_results = [],
      lg_pairings = []\<rparr>"

definition reachable :: "py_env \<Rightarrow> ledger \<Rightarrow> bool" where
  "reachable E L \<longleftrightarrow> (lstep E)\<^sup>*\<^sup>* new_ledger L"

lemma new_ledger_inv: "ledger_inv E new_ledger"
  by (simp add: ledger_inv_def new_ledger_def consumptions_inv_def pairings_inv_def outbox_inv_def)

lemma reachable_inv: "reachable E L \<Longrightarrow> ledger_inv E L"
  using lsteps_inv new_ledger_inv unfolding reachable_def by blast

end
