(* ===== verification/Ledger_Properties.thy ===== *)
theory Ledger_Properties
  imports Ledger_Invariant
begin

text \<open>
  What the ledger guarantees across calls: an approval is consumed at most once, a lease excludes other claims until
  it expires, a record is completed at most once, and a valid eligible record can always be claimed and completed.
\<close>

subsection \<open>How rows change in a step\<close>

lemma consume_tx_rows:
  assumes "consume_tx E ob v t g bw sw nonce L = Inr L'"
  shows "\<forall>r' \<in> set (lg_outbox L'). r' \<in> set (lg_outbox L) \<or> ox_approval_id r' \<notin> cr_approval_id ` set (lg_consumptions L)"
    "set (lg_results L') \<subseteq> set (lg_results L)" "consume_ok v t L"
proof -
  have "(\<forall>r' \<in> set (lg_outbox L'). r' \<in> set (lg_outbox L) \<or> ox_approval_id r' \<notin> cr_approval_id ` set (lg_consumptions L)) \<and>
    set (lg_results L') \<subseteq> set (lg_results L) \<and> consume_ok v t L"
  proof (cases g)
    case None
    then show ?thesis using assms by (auto simp: consume_tx_legacy consumed_def)
  next
    case (Some g')
    then obtain L1 :: ledger where c: "consume_ok v t L"
      and l: "if ob then enqueue_outbox E v bw sw nonce t (gb_retention g') (consumed (lg_authority L1) v t L) = Inr L'
        else L' = consumed (lg_authority L1) v t L"
      using assms by (auto simp: consume_tx_governed)
    have "va_approval_id v \<notin> cr_approval_id ` set (lg_consumptions L)" using c by (simp add: consume_ok_def)
    then show ?thesis using c l
      by (cases ob) (auto simp: enqueue_outbox_iff enqueued_def enqueued_row_def consumed_def)
  qed
  then show "\<forall>r' \<in> set (lg_outbox L'). r' \<in> set (lg_outbox L) \<or> ox_approval_id r' \<notin> cr_approval_id ` set (lg_consumptions L)"
    "set (lg_results L') \<subseteq> set (lg_results L)" "consume_ok v t L"
    by blast+
qed

text \<open>A record after a step is the record before, released from a lease that had run out, or of a new approval.\<close>

definition row_after :: "outbox_row \<Rightarrow> outbox_row \<Rightarrow> bool" where
  "row_after r r' \<longleftrightarrow> ox_approval_id r' = ox_approval_id r \<and>
     (ox_lease r' = ox_lease r \<or> (\<exists>t tok e. lease_free t r \<and> ox_lease r' = Some (tok, e) \<and> t < e))"

definition rows_after :: "ledger \<Rightarrow> ledger \<Rightarrow> bool" where
  "rows_after L L' \<longleftrightarrow>
     (\<forall>r' \<in> set (lg_outbox L'). (\<exists>r \<in> set (lg_outbox L). row_after r r') \<or>
        ox_approval_id r' \<notin> cr_approval_id ` set (lg_consumptions L)) \<and>
     (\<forall>x \<in> set (lg_results L'). x \<in> set (lg_results L) \<or> rr_approval_id x \<in> ox_approval_id ` set (lg_outbox L))"

lemma row_after_refl [simp]: "row_after r r"
  by (simp add: row_after_def)

lemma rows_after_refl [simp]: "rows_after L L"
  unfolding rows_after_def using row_after_refl by blast

lemma rows_after_sub:
  "set (lg_outbox L') \<subseteq> set (lg_outbox L) \<Longrightarrow> set (lg_results L') \<subseteq> set (lg_results L) \<Longrightarrow> rows_after L L'"
  unfolding rows_after_def using row_after_refl by blast

lemma consume_verified_rows:
  assumes "consume_verified E st st2 S v bw sw nonce t L = (r, L')"
  shows "rows_after L L'"
  using assms
proof (cases rule: consume_verified_cases)
  case (ok bw' sw' nonce')
  then show ?thesis using consume_tx_rows(1,2) [OF ok(5)] row_after_refl unfolding rows_after_def by blast
qed simp

lemma claim_tx_rows:
  assumes "claim_tx E n t (t + seconds) tok L = Inr (x, L')" and "1 \<le> seconds"
  shows "rows_after L L'"
proof (cases x)
  case None
  then show ?thesis using assms(1) by (auto simp: claim_tx_None intro!: rows_after_sub)
next
  case (Some y)
  then obtain row expires where y: "x = Some (row, expires)" by (cases y) auto
  note c = claim_tx_Some [OF assms(1) [unfolded y]]
  have "t < expires" using c(3,6) assms(2) by (auto simp: eligible_def)
  then have "row_after r (set_lease (ox_approval_id row) t expires tok r)" for r
    by (auto simp: row_after_def set_lease_def)
  then show ?thesis unfolding c(9) rows_after_def by (auto simp: leased_def)
qed

lemma complete_tx_rows:
  assumes "complete_tx E n i tok td x w t L = Inr (c, L')" and "outbox_inv E L"
  shows "rows_after L L'"
  using assms(1)
proof (cases rule: complete_tx_cases)
  case retry
  then show ?thesis by (auto intro!: rows_after_sub)
next
  case (first row)
  note f = complete_first_inv [OF first(3) purged_inv [OF assms(2)] first(1,2)]
  have "set (lg_outbox L') \<subseteq> set (lg_outbox L)" using f(3) by auto
  moreover have "x' \<in> set (lg_results L) \<or> rr_approval_id x' \<in> ox_approval_id ` set (lg_outbox L)" if "x' \<in> set (lg_results L')" for x'
    using f(4) that first(1,2) by auto
  ultimately show ?thesis unfolding rows_after_def using row_after_refl by blast
qed

lemma lstep_rows:
  assumes "lstep E L L'" and "ledger_inv E L"
  shows "rows_after L L'"
  using assms
proof (cases rule: lstep.cases)
  case (consume S B st st2 aw bw nonce t r)
  from consume(2) show ?thesis by (cases rule: service_consume_cases) (auto dest: consume_verified_rows)
next
  case (expected S B st st2 aw bw nonce t i c sw r)
  from expected(2) show ?thesis by (cases rule: consume_expected_cases) (auto dest: consume_verified_rows)
next
  case (claim st n t seconds token cl)
  from claim show ?thesis by (cases rule: claim_cases) (auto dest: claim_tx_rows)
next
  case (complete st n i token ctoken x w t cm)
  from complete show ?thesis
    using assms(2) by (cases rule: complete_cases) (auto dest: complete_tx_rows simp: ledger_inv_def)
next
  case (result st i t sr)
  from result show ?thesis
    by (cases rule: outbox_result_cases) (auto simp: purge_results_def intro!: rows_after_sub)
next
  case acknowledge
  then show ?thesis by (simp add: acknowledge_def)
qed

subsection \<open>What persists\<close>

definition consumed_id :: "bytes \<Rightarrow> ledger \<Rightarrow> bool" where
  "consumed_id i L \<longleftrightarrow> i \<in> cr_approval_id ` set (lg_consumptions L)"

text \<open>Every record of an approval is leased at least until \<open>e\<close>; the approval has one result at most, \<open>x\<close>.\<close>

definition held :: "bytes \<Rightarrow> int \<Rightarrow> ledger \<Rightarrow> bool" where
  "held i e L \<longleftrightarrow> consumed_id i L \<and>
     (\<forall>r \<in> set (lg_outbox L). ox_approval_id r = i \<longrightarrow> (\<exists>tok e'. ox_lease r = Some (tok, e') \<and> e \<le> e'))"

definition settled :: "bytes \<Rightarrow> result_row \<Rightarrow> ledger \<Rightarrow> bool" where
  "settled i x L \<longleftrightarrow> consumed_id i L \<and> i \<notin> ox_approval_id ` set (lg_outbox L) \<and>
     (\<forall>r \<in> set (lg_results L). rr_approval_id r = i \<longrightarrow> r = x)"

lemma extends_consumed: "extends L L' \<Longrightarrow> consumed_id i L \<Longrightarrow> consumed_id i L'"
  by (auto simp: extends_def consumed_id_def)

lemma row_after_held:
  assumes "row_after r r'" and "ox_lease r = Some (tok, e')" and "e \<le> e'"
  shows "\<exists>tok e'. ox_lease r' = Some (tok, e') \<and> e \<le> e'"
proof (cases "ox_lease r' = ox_lease r")
  case False
  then obtain t tok' e'' where "lease_free t r" "ox_lease r' = Some (tok', e'')" "t < e''"
    using assms(1) by (auto simp: row_after_def)
  with assms(2,3) show ?thesis by (auto simp: lease_free_def)
qed (use assms in simp)

lemma rows_after_held: "rows_after L L' \<Longrightarrow> extends L L' \<Longrightarrow> held i e L \<Longrightarrow> held i e L'"
proof -
  assume a: "rows_after L L'" "extends L L'" "held i e L"
  have "\<exists>tok e'. ox_lease r' = Some (tok, e') \<and> e \<le> e'" if r': "r' \<in> set (lg_outbox L')" "ox_approval_id r' = i" for r'
  proof -
    have "ox_approval_id r' \<in> cr_approval_id ` set (lg_consumptions L)"
      using a(3) r'(2) by (simp add: held_def consumed_id_def)
    then obtain r where r: "r \<in> set (lg_outbox L)" "row_after r r'"
      using a(1) r'(1) unfolding rows_after_def by blast
    then obtain tok e' where "ox_lease r = Some (tok, e')" "e \<le> e'"
      using a(3) r'(2) by (auto simp: held_def row_after_def)
    with r(2) show ?thesis by (rule row_after_held)
  qed
  then show "held i e L'" using a(2,3) extends_consumed by (auto simp: held_def)
qed

lemma rows_after_settled: "rows_after L L' \<Longrightarrow> extends L L' \<Longrightarrow> settled i x L \<Longrightarrow> settled i x L'"
  unfolding settled_def rows_after_def consumed_id_def [symmetric]
  by (auto simp: row_after_def image_iff dest: extends_consumed)

lemma lsteps_persist:
  assumes "(lstep E)\<^sup>*\<^sup>* L L'" and "ledger_inv E L"
  shows "ledger_inv E L' \<and> extends L L' \<and> (held i e L \<longrightarrow> held i e L') \<and> (settled i x L \<longrightarrow> settled i x L')"
  using assms(1)
proof (induction rule: rtranclp_induct)
  case base
  then show ?case using assms(2) by simp
next
  case (step M N)
  have m: "ledger_inv E M" using step.IH by blast
  have "ledger_inv E N \<and> extends M N" "rows_after M N"
    using lstep_inv [OF step.hyps(2) m] lstep_rows [OF step.hyps(2) m] by blast+
  then show ?case using step.IH rows_after_held rows_after_settled extends_trans by blast
qed

lemma reachable_version: "reachable E L \<Longrightarrow> lg_version L = 5"
  using lsteps_inv [of E new_ledger L] new_ledger_inv by (auto simp: reachable_def extends_def new_ledger_def)

subsection \<open>Consumption\<close>

lemma consume_verified_consumed:
  assumes "consume_verified E st st2 S v bw sw nonce t L = (Inr r, L')" and "ledger_inv E L" and "service_ok S"
    and "va_network_id v = ap_network_id (cs_policy S)"
  shows "consumption_of v t \<in> set (lg_consumptions L')" "ledger_inv E L'"
proof -
  have "consumption_of v t \<in> set (lg_consumptions L') \<and> ledger_inv E L'"
    using assms(1)
  proof (cases rule: consume_verified_cases)
    case (ok bw' sw' nonce')
    then show ?thesis
      using consume_tx_step [OF ok(5) assms(2)] assms(3,4) by (auto simp: is_timestamp_def service_ok_def)
  qed simp
  then show "consumption_of v t \<in> set (lg_consumptions L')" "ledger_inv E L'" by blast+
qed

lemma consume_verified_replayed:
  assumes "consume_verified E st st2 S v bw sw nonce t L = (r, L')"
    and "va_approval_id v \<in> cr_approval_id ` set (lg_consumptions L) \<or>
      (va_approver_xonly_public_key v, va_approval_nonce v) \<in> cr_key ` set (lg_consumptions L)"
  shows "(\<exists>e. r = Inl e) \<and> L' = L"
  using assms(1)
proof (cases rule: consume_verified_cases)
  case (ok bw' sw' nonce')
  then show ?thesis using consume_tx_rows(3) [OF ok(5)] assms(2) by (auto simp: consume_ok_def)
qed simp

lemma extends_row: "extends L L' \<Longrightarrow> c \<in> set (lg_consumptions L) \<Longrightarrow> c \<in> set (lg_consumptions L')"
  by (auto simp: extends_def)

subsection \<open>Leases\<close>

lemma outbox_consumed:
  assumes "ledger_inv E L" and "r \<in> set (lg_outbox L)"
  shows "consumed_id (ox_approval_id r) L"
proof -
  obtain p where p: "p \<in> set (lg_pairings L)" "pg_approval_id p = ox_approval_id r"
    using assms by (auto simp: ledger_inv_def outbox_inv_def)
  then obtain c where "c \<in> set (lg_consumptions L)" "cr_approval_id c = pg_approval_id p"
    using assms(1) by (auto simp: ledger_inv_def pairings_inv_def)
  then show ?thesis using p(2) by (auto simp: consumed_id_def image_iff intro: bexI [of _ c])
qed

lemma build_claim_fields:
  assumes "build_outbox_claim row tok expires n = Inr c"
  shows "cl_approval_id c = ox_approval_id row" "cl_lease_expires_at c = expires" "cl_lease_token c = tok"
    "cl_statement_digest c = ox_statement_digest row" "cl_observable_commitment c = ox_observable_commitment row"
    "analysis_input_identity n (ox_statement_wire row) (ox_bundle_wire row) (ox_approval_id row)
       (ox_observable_commitment row) tok expires (ox_retention_deadline row) = Inr (cl_input_identity c)"
  using assms by (auto simp: build_outbox_claim_def)

lemma claim_SomeE:
  assumes "claim E st n t seconds tok L = (Inr (Some c), L')"
  obtains row where "row \<in> set (lg_outbox L)" "eligible t row" "cl_approval_id c = ox_approval_id row"
    "cl_lease_expires_at c = min (t + seconds) (ox_retention_deadline row)" "cl_lease_token c = tok"
    "L' = leased (ox_approval_id row) t (cl_lease_expires_at c) tok (purged t L)"
    "build_outbox_claim row tok (cl_lease_expires_at c) n = Inr c"
    "claim_tx E n t (t + seconds) tok L = Inr (Some (row, cl_lease_expires_at c), L')"
  using assms
proof (cases rule: claim_cases)
  case (ok x)
  have r: "(case x of None \<Rightarrow> Inr None | Some (row, expires) \<Rightarrow>
      rbind (build_outbox_claim row tok expires n) (\<lambda>c. Inr (Some c))) = Inr (Some c)"
    using ok(7) by simp
  then obtain row expires where x: "x = Some (row, expires)" by (cases x) auto
  with r have b: "build_outbox_claim row tok expires n = Inr c" by simp
  note f = claim_tx_Some [OF ok(6) [unfolded x]] build_claim_fields [OF b]
  then show ?thesis using that [of row] b ok(6) x by metis
qed simp

lemma claimed_held:
  assumes "claim E st n t seconds tok L = (Inr (Some c), L')" and "ledger_inv E L"
  shows "held (cl_approval_id c) (cl_lease_expires_at c) L'"
proof -
  obtain row where r: "row \<in> set (lg_outbox L)" "eligible t row" "cl_approval_id c = ox_approval_id row"
    "L' = leased (ox_approval_id row) t (cl_lease_expires_at c) tok (purged t L)"
    using claim_SomeE [OF assms(1)] by metis
  have u: "q = row" if "q \<in> set (lg_outbox L)" "ox_approval_id q = ox_approval_id row" for q
    using assms(2) r(1) that by (auto simp: ledger_inv_def outbox_inv_def distinct_map inj_on_def)
  have "consumed_id (ox_approval_id row) L'"
    using outbox_consumed [OF assms(2) r(1)] by (simp add: r(4) consumed_id_def leased_def)
  moreover have "\<exists>tk e'. ox_lease r' = Some (tk, e') \<and> cl_lease_expires_at c \<le> e'"
    if m: "r' \<in> set (lg_outbox L')" "ox_approval_id r' = ox_approval_id row" for r'
  proof -
    obtain q :: outbox_row where "q \<in> set (lg_outbox L)" "r' = set_lease (ox_approval_id row) t (cl_lease_expires_at c) tok q"
      using m(1) by (auto simp: r(4) leased_def)
    moreover from this m(2) have "q = row" using u [of q] by simp
    ultimately show ?thesis using r(2) by (simp add: set_lease_def eligible_def)
  qed
  ultimately show ?thesis by (auto simp: held_def r(3))
qed

lemma held_not_claimed:
  assumes "claim E st n t seconds tok L = (Inr (Some c), L')" and "held i e L" and "t < e"
  shows "cl_approval_id c \<noteq> i"
proof
  assume i: "cl_approval_id c = i"
  obtain row where "row \<in> set (lg_outbox L)" "eligible t row" "cl_approval_id c = ox_approval_id row"
    using claim_SomeE [OF assms(1)] by metis
  with assms(2,3) i show False by (fastforce simp: held_def eligible_def lease_free_def)
qed

subsection \<open>Completions\<close>

lemma complete_settled:
  assumes "complete E st n i tok ctok x w t L = (Inr c, L')" and "ledger_inv E L"
  obtains r where "settled i r L'" "c = completion_of r" "rr_result_wire r = w" "rr_input_identity r = x"
    "completion_token_digest ctok tok = Inr (rr_completion_token_digest r)" "rr_approval_id r = i" "result_row_ok E r"
    "r \<in> set (lg_results L')" "t < rr_retention_deadline r" "outbox_inv E L'" "lg_version L' = 5"
  using assms(1)
proof (cases rule: complete_cases)
  case (ok c' td)
  have o: "outbox_inv E L" using assms(2) by (simp add: ledger_inv_def)
  have c': "c' = c" using ok(5) by simp
  have o': "outbox_inv E L'" using complete_tx_step [OF ok(4) o] by blast
  have s: "settled i r L'" if "r \<in> set (lg_results L')" "rr_approval_id r = i" for r
  proof -
    have "consumed_id i L'"
    proof -
      have "i \<in> pg_approval_id ` set (lg_pairings L')" using o' that by (auto simp: outbox_inv_def)
      then show ?thesis using lstep_inv [OF lstep.complete [OF assms(1)] assms(2)]
        by (auto simp: ledger_inv_def pairings_inv_def consumed_id_def image_iff) metis
    qed
    moreover have "r' = r" if "r' \<in> set (lg_results L')" "rr_approval_id r' = i" for r'
      using o' that \<open>r \<in> set (lg_results L')\<close> \<open>rr_approval_id r = i\<close>
      by (auto simp: outbox_inv_def distinct_map inj_on_def)
    ultimately show ?thesis using complete_tx_same(5) [OF ok(4) o] by (auto simp: settled_def)
  qed
  from ok(4) show ?thesis
  proof (cases rule: complete_tx_cases)
    case (retry r)
    have r: "r \<in> set (lg_results L')" "rr_approval_id r = i" using find_result_Some [OF retry(3)] retry(2) by auto
    moreover have "result_row_ok E r" using r o' by (simp add: outbox_inv_def)
    moreover have "r\<lparr>rr_approval_id := i\<rparr> = r" using r(2) by auto
    moreover have "t < rr_retention_deadline r" "lg_version L' = 5" using r(1) retry(2,8) by auto
    ultimately show ?thesis using retry(4-7) ok(3) c' s o' by (intro that [of r]) auto
  next
    case (first row)
    obtain r :: result_row where r: "lg_results L' = lg_results (purged t L) @ [r]" "rr_approval_id r = i"
        "result_row_ok E r" "c' = completion_of r" "rr_result_wire r = w" "rr_input_identity r = x"
        "rr_completion_token_digest r = td" "rr_retention_deadline r = ox_retention_deadline row"
      using complete_first_inv(4) [OF first(3) purged_inv [OF o] first(1,2)] by blast
    then have "settled i r L'" by (intro s) simp_all
    moreover have "t < rr_retention_deadline r" using first(1) r(8) by simp
    moreover have "lg_version L' = 5"
      using first(4) complete_first_inv(9) [OF first(3) purged_inv [OF o] first(1,2)] by simp
    moreover have "r \<in> set (lg_results L')" by (simp add: r(1))
    ultimately show ?thesis using r(2-) ok(3) c' o' by (intro that [of r]) simp_all
  qed
qed simp

subsection \<open>Result wires\<close>

lemma analyzer_text_unescaped: "is_analyzer_text s \<Longrightarrow> list_all unescaped s \<and> length s \<le> 64"
  by (cases s) (auto simp: is_analyzer_char_def unescaped_def list_all_iff)

lemma analysis_result_doc:
  assumes "is_analyzer_text a" and "1 \<le> k" and "k \<le> 16"
  shows "doc (analysis_result_items a i x d c k)"
proof -
  have "printable (hex_of_bytes b)" for b
    using printable_lower_hex [OF is_lower_hex_of_bytes] .
  moreover have "printable ANALYSIS_RESULT_KIND" by (simp add: ANALYSIS_RESULT_KIND_def printable_unescaped)
  moreover have "printable a" using analyzer_text_unescaped [OF assms(1)] by (simp add: printable_unescaped)
  ultimately show ?thesis using assms(2,3)
    by (simp add: analysis_result_items_def doc_Cons ANALYSIS_RESULT_SCHEMA_VERSION_def printable_unescaped)
qed

lemma analysis_result_length:
  assumes "is_analyzer_text a" and "1 \<le> k" and "k \<le> 16" and "length i = 32" "length x = 32" "length d = 32" "length c = 32"
  shows "length (ascii_json (PDict (analysis_result_items a i x d c k))) \<le> 1024"
proof -
  have "length (json_quote True ANALYSIS_RESULT_KIND) = 25"
    by (simp add: ANALYSIS_RESULT_KIND_def length_quote_unescaped)
  moreover have "length (json_quote True a) \<le> 66"
    using analyzer_text_unescaped [OF assms(1)] by (simp add: length_quote_unescaped)
  ultimately show ?thesis
    using doc_length [OF analysis_result_doc [OF assms(1-3), of i x d c]] assms(4-)
    by (simp add: analysis_result_items_def length_quote_unescaped hex_quote_length)
qed

lemma hex_fixed: "length b = 32 \<Longrightarrow> is_fixed_lower_hex (PStr (hex_of_bytes b))"
  using is_lower_hex_of_bytes [of b] by (simp add: is_fixed_lower_hex_def FIXED_HASH_BYTES_def)

lemma built_result_valid:
  assumes "build_analysis_result_wire a i x d c k = Inr w" and "1 \<le> json_depth E"
  shows "validate_analysis_result_wire E w i x (Some d) (Some c) = Inr ()"
proof -
  have v: "is_analyzer_text a" "1 \<le> k" "k \<le> 16" "length i = 32" "length x = 32" "length d = 32" "length c = 32"
    using assms(1) by (auto simp: build_analysis_result_wire_def is_fixed_bytes_def FIXED_HASH_BYTES_def MAX_OBSERVABLES_def
        split: if_splits)
  let ?d = "analysis_result_items a i x d c k"
  have c: "compact_json (PDict ?d) = Some (ascii_json (PDict ?d))" by (intro doc_compact analysis_result_doc v)
  have w: "w = ascii_json (PDict ?d)"
    using assms(1) c by (auto simp: build_analysis_result_wire_def sized_result_def split: if_splits)
  have l: "loads_utf8 E ObservableApprovalOutboxError w = Inr (PDict ?d)"
    unfolding w by (intro doc_loads analysis_result_doc v assms(2))
  have n: "1 \<le> length w" "length w \<le> 1024"
    using analysis_result_length [OF v] doc_nonempty [of ?d] by (simp_all add: w Suc_leI)
  have "is_common_analysis_result ?d" "analysis_result_version_ok ?d"
    "dict_at ?d ''approval_id'' = PStr (hex_of_bytes i)" "dict_at ?d ''input_identity'' = PStr (hex_of_bytes x)"
    "dict_at ?d ''statement_digest'' = PStr (hex_of_bytes d)" "dict_at ?d ''observable_commitment'' = PStr (hex_of_bytes c)"
    using v hex_fixed
    by (simp_all add: is_common_analysis_result_def analysis_result_version_ok_def analysis_result_items_def
        analysis_result_v1_fields_def ANALYSIS_RESULT_SCHEMA_VERSION_def MAX_OBSERVABLES_def dict_keys_def)
  with l n c v show ?thesis
    by (simp add: validate_analysis_result_wire_def w is_fixed_bytes_def FIXED_HASH_BYTES_def
        MAX_CANONICAL_ANALYSIS_RESULT_BYTES_def)
qed

lemma build_result_total:
  assumes "is_analyzer_text a" "1 \<le> k" "k \<le> 16" "length i = 32" "length x = 32" "length d = 32" "length c = 32"
  shows "\<exists>w. build_analysis_result_wire a i x d c k = Inr w"
proof -
  let ?d = "analysis_result_items a i x d c k"
  have "compact_json (PDict ?d) = Some (ascii_json (PDict ?d))" by (intro doc_compact analysis_result_doc assms)
  moreover have "1 \<le> length (ascii_json (PDict ?d))" using doc_nonempty [of ?d] by (simp add: Suc_leI)
  ultimately show ?thesis using assms analysis_result_length [OF assms]
    by (simp add: build_analysis_result_wire_def is_fixed_bytes_def FIXED_HASH_BYTES_def MAX_OBSERVABLES_def
        sized_result_def MAX_CANONICAL_ANALYSIS_RESULT_BYTES_def)
qed

subsection \<open>Progress\<close>

lemma revalidate_fields:
  assumes "revalidate_outbox_row E r n = Inr ()"
  shows "length (ox_approval_id r) = 32" "length (ox_observable_commitment r) = 32" "length (ox_statement_digest r) = 32"
    "1 \<le> length (ox_bundle_wire r)" "length (ox_bundle_wire r) \<le> MAX_CANONICAL_BYTES"
    "1 \<le> length (ox_statement_wire r)" "length (ox_statement_wire r) \<le> MAX_CANONICAL_V2_STATEMENT_BYTES"
    "validate_outbox_row r = Inr ()"
  using assms by (auto simp: revalidate_outbox_row_def validate_outbox_row_def FIXED_HASH_BYTES_def)

lemma input_identity_total:
  assumes "outbox_row_ok E n r" and "validate_network_id n = Inr ()" and "length tok = 32"
    and "1 \<le> expires" and "expires \<le> ox_retention_deadline r"
  shows "\<exists>x. analysis_input_identity n (ox_statement_wire r) (ox_bundle_wire r) (ox_approval_id r)
    (ox_observable_commitment r) tok expires (ox_retention_deadline r) = Inr x \<and> length x = 32"
proof -
  have "catch (raise_oerr (validate_network_id n)) is_value_error (\<lambda>_. Inl ObservableApprovalOutboxError) = Inr ()"
    using assms(2) by (simp add: catch_eq_Inr_raise)
  moreover have "is_timestamp expires" "is_timestamp (ox_retention_deadline r)"
    using assms(1,4,5) by (auto simp: outbox_row_ok_def is_timestamp_def UINT64_MAX_def)
  moreover have "revalidate_outbox_row E r n = Inr ()" using assms(1) by (simp add: outbox_row_ok_def)
  ultimately show ?thesis using revalidate_fields [of E r n] assms(3,5)
    by (simp add: analysis_input_identity_def is_fixed_bytes_def FIXED_HASH_BYTES_def)
qed

lemma filter_one:
  assumes "distinct (map f xs)" and "x \<in> set xs" and "P x"
  shows "length (filter (\<lambda>y. f y = f x \<and> P y) xs) = 1"
  using assms
proof (induction xs)
  case (Cons y ys)
  have "filter (\<lambda>z. f z = f y \<and> P z) ys = []" using Cons.prems(1) by (auto simp: filter_empty_conv image_iff)
  then show ?case using Cons by (cases "x = y") auto
qed simp

lemma claim_progress:
  assumes "ledger_inv E L" and "lg_version L = 5" and "lg_authority L = Some a" and "validate_network_id (ar_network_id a) = Inr ()"
    and "q \<in> set (lg_outbox L)" and "eligible t q"
    and "is_timestamp t" and "1 \<le> seconds" and "seconds \<le> 300" and "length tok = 32"
  shows "\<exists>c L'. claim E DbOk (ar_network_id a) t seconds tok L = (Inr (Some c), L')"
proof -
  let ?n = "ar_network_id a"
  have o: "outbox_inv E (purged t L)" using assms(1) purged_inv by (simp add: ledger_inv_def)
  have "q \<in> set (filter (eligible t) (lg_outbox (purged t L)))" using assms(5,6) by (simp add: eligible_def)
  then have "oldest (filter (eligible t) (lg_outbox (purged t L))) \<noteq> None" by (metis oldest_None empty_iff empty_set)
  then obtain row where row: "oldest (filter (eligible t) (lg_outbox (purged t L))) = Some row" by blast
  then have r: "row \<in> set (lg_outbox (purged t L))" "eligible t row" using oldest_mem [OF row] by auto
  have k: "outbox_row_ok E ?n row" using o r(1) assms(3) by (auto simp: outbox_inv_def)
  let ?e = "min (t + seconds) (ox_retention_deadline row)"
  have e: "1 \<le> ?e" "?e < 2 ^ 63" "?e \<le> ox_retention_deadline row" "t < 2 ^ 63" "0 < t"
    using k r(2) assms(7,8) by (auto simp: outbox_row_ok_def eligible_def is_timestamp_def)
  have "t < ox_retention_deadline row" "ox_retention_deadline row < 2 ^ 63"
    using k r(2) by (auto simp: outbox_row_ok_def eligible_def)
  then have end_ok: "t + seconds \<le> UINT64_MAX" using assms(9) by (simp add: UINT64_MAX_def)
  have d: "distinct (map ox_approval_id (lg_outbox (purged t L)))" using o by (simp add: outbox_inv_def)
  have one: "length (filter (\<lambda>r. ox_approval_id r = ox_approval_id row \<and> lease_free t r) (lg_outbox (purged t L))) = 1"
    using r by (intro filter_one d) (auto simp: eligible_def)
  have same: "z = row" if "z \<in> set (lg_outbox (purged t L))" "ox_approval_id z = ox_approval_id row" for z
    using d r(1) that unfolding distinct_map inj_on_def by blast
  have v: "revalidate_outbox_row E row ?n = Inr ()" using k by (simp add: outbox_row_ok_def)
  have g: "require_governed L = Inr ()" "bind_int t = Inr ()" "bind_int ?e = Inr ()"
    using assms(2) e by (simp_all add: require_governed_def SQLITE_SCHEMA_VERSION_GOVERNED_def)
  have ch: "check (\<forall>z \<in> set (filter (\<lambda>r. ox_approval_id r = ox_approval_id row \<and> lease_free t r) (lg_outbox (purged t L))).
      length tok = 32 \<and> 1 \<le> ?e \<and> ?e \<le> ox_retention_deadline z) = Inr ()"
    unfolding check_Inr
  proof
    fix z assume "z \<in> set (filter (\<lambda>r. ox_approval_id r = ox_approval_id row \<and> lease_free t r) (lg_outbox (purged t L)))"
    then have "z = row" by (intro same) auto
    then show "length tok = 32 \<and> 1 \<le> ?e \<and> ?e \<le> ox_retention_deadline z" using e(1,3) assms(10) by simp
  qed
  have tx: "claim_tx E ?n t (t + seconds) tok L = Inr (Some (row, ?e), leased (ox_approval_id row) t ?e tok (purged t L))"
    unfolding claim_tx_def Let_def purged_def [symmetric] row
    using g ch one v revalidate_fields(8) [OF v] by (simp add: raise_tx_def leased_def del: purged_tables)
  obtain x where "analysis_input_identity ?n (ox_statement_wire row) (ox_bundle_wire row) (ox_approval_id row)
      (ox_observable_commitment row) tok ?e (ox_retention_deadline row) = Inr x"
    using input_identity_total [OF k assms(4,10) e(1,3)] by blast
  then obtain c where "build_outbox_claim row tok ?e ?n = Inr c" by (simp add: build_outbox_claim_def)
  with tx assms(7-9) end_ok show ?thesis by (simp add: claim_def Let_def MAX_OUTBOX_LEASE_SECONDS_def)
qed

lemma complete_progress:
  assumes "ledger_inv E L" and "claim E st n t seconds tok L = (Inr (Some c), L')" and "1 \<le> json_depth E"
    and "validate_analysis_result_wire E w (cl_approval_id c) (cl_input_identity c) (Some (cl_statement_digest c))
           (Some (cl_observable_commitment c)) = Inr ()"
    and "is_timestamp t'" and "t' < cl_lease_expires_at c" and "length ctok = 32"
  shows "\<exists>cm L''. complete E DbOk n (cl_approval_id c) tok ctok (cl_input_identity c) w t' L' = (Inr cm, L'')"
proof -
  obtain row where r: "row \<in> set (lg_outbox L)" "eligible t row"
    and L': "L' = leased (ox_approval_id row) t (cl_lease_expires_at c) tok (purged t L)"
    and b: "build_outbox_claim row tok (cl_lease_expires_at c) n = Inr c"
    and tx: "claim_tx E n t (t + seconds) tok L = Inr (Some (row, cl_lease_expires_at c), L')"
    using claim_SomeE [OF assms(2)] by metis
  note f = build_claim_fields [OF b] and g = claim_tx_Some [OF tx]
  let ?e = "cl_lease_expires_at c" and ?i = "cl_approval_id c" and ?x = "cl_input_identity c"
  let ?row = "row\<lparr>ox_lease := Some (tok, ?e)\<rparr>"
  have inv: "ledger_inv E L'" using lstep_inv [OF lstep.claim [OF assms(2)] assms(1)] by blast
  have m: "?row \<in> set (lg_outbox L')"
  proof -
    have "row \<in> set (lg_outbox (purged t L))" using r by (simp add: eligible_def)
    then have "set_lease (ox_approval_id row) t ?e tok row \<in> set (lg_outbox L')" by (simp add: L' leased_def)
    then show ?thesis using r(2) by (simp add: set_lease_def eligible_def)
  qed
  have e: "?e \<le> ox_retention_deadline row" using g(6) by simp
  obtain a where a: "outbox_row_ok E a ?row" using inv m by (auto simp: ledger_inv_def outbox_inv_def)
  have p: "?row \<in> set (lg_outbox (purged t' L'))" using m assms(6) e by simp
  have dp: "distinct (map ox_approval_id (lg_outbox (purged t' L')))"
    using purged_inv [of E L' t'] inv by (simp add: ledger_inv_def outbox_inv_def)
  have find: "find_outbox ?i (purged t' L') = Some ?row"
    unfolding find_outbox_def using find_unique [OF dp p] f(1) by simp
  have lx: "length ?i = 32" "length ?x = 32" "1 \<le> length w" "length w \<le> 1024"
    using assms(4) by (auto simp: validate_analysis_result_wire_def is_fixed_bytes_def FIXED_HASH_BYTES_def
        MAX_CANONICAL_ANALYSIS_RESULT_BYTES_def split: if_splits)
  have bounds: "t' \<le> ox_retention_deadline row" "ox_retention_deadline row < 2 ^ 63" "t' < 2 ^ 63" "0 < t'"
    using a assms(5,6) e by (auto simp: outbox_row_ok_def is_timestamp_def)
  obtain td where td: "completion_token_digest ctok tok = Inr td" "length td = 32"
    using assms(7) g(7) by (simp add: completion_token_digest_def is_fixed_bytes_def FIXED_HASH_BYTES_def)
  obtain dg where dg: "analysis_result_record_digest w t' (ox_retention_deadline row) = Inr dg" "length dg = 32"
    using lx(3,4) bounds assms(5)
    by (simp add: analysis_result_record_digest_def is_timestamp_def UINT64_MAX_def MAX_CANONICAL_ANALYSIS_RESULT_BYTES_def)
  let ?r = "completed_row ?i w dg ?x td t' (ox_retention_deadline row)"
  have ids: "?i \<notin> rr_approval_id ` set (lg_results (purged t' L'))" "?i \<in> cr_approval_id ` set (lg_consumptions (purged t' L'))"
  proof -
    have "?i \<in> ox_approval_id ` set (lg_outbox L')" using image_eqI [OF _ m, of ?i ox_approval_id] f(1) by simp
    moreover have "ox_approval_id ` set (lg_outbox L') \<inter> rr_approval_id ` set (lg_results L') = {}"
      using inv by (simp add: ledger_inv_def outbox_inv_def)
    ultimately show "?i \<notin> rr_approval_id ` set (lg_results (purged t' L'))" by auto
    show "?i \<in> cr_approval_id ` set (lg_consumptions (purged t' L'))"
      using outbox_consumed [OF inv m] f(1) by (simp add: consumed_id_def)
  qed
  have ins: "insert_result ?r (purged t' L') = Inr ((purged t' L')\<lparr>lg_results := lg_results (purged t' L') @ [?r]\<rparr>)"
    unfolding insert_result_iff using ids lx td(2) dg(2) bounds by (simp add: completed_row_def)
  have lb: "leased_by ?i tok t' ?row" using f(1) assms(6) by (simp add: leased_by_def)
  have one: "length (filter (leased_by ?i tok t') (lg_outbox (purged t' L'))) = 1"
    using filter_one [OF dp p, of "leased_by ?i tok t'"] lb f(1)
    by (simp add: leased_by_def conj_commute cong: filter_cong)
  have rv: "revalidate_outbox_row E ?row n = Inr ()" "validate_outbox_row ?row = Inr ()"
    using g(5) revalidate_fields(8) [OF g(5)] by (simp_all add: revalidate_outbox_row_def validate_outbox_row_def)
  have first: "\<exists>cm L''. complete_first E n ?i tok td ?x w t' ?row (purged t' L') = Inr (cm, L'')"
    using rv f(6) assms(4,6) dg(1) ins one g(7) f(4,5)
    by (simp add: complete_first_def raise_tx_def completed_row_def delete_leased_def is_fixed_bytes_def FIXED_HASH_BYTES_def
        del: purged_tables)
  have "require_governed L' = Inr ()" "bind_int t' = Inr ()"
    using g(1) bounds by (simp_all add: L' leased_def require_governed_def SQLITE_SCHEMA_VERSION_GOVERNED_def)
  then have "\<exists>cm L''. complete_tx E n ?i tok td ?x w t' L' = Inr (cm, L'')"
    using first find by (simp add: complete_tx_def Let_def purged_def [symmetric] del: purged_tables)
  then show ?thesis
    using validate_result_weaken [OF assms(4)] td(1) lx(1,2) assms(5,7) g(7)
    by (auto simp: complete_def is_fixed_bytes_def FIXED_HASH_BYTES_def)
qed

subsection \<open>A concrete ledger\<close>

definition ex_governance :: GovernanceBinding where
  "ex_governance =
     \<lparr>gb_policy =
        \<lparr>gp_network_id = u ''mainnet'', gp_approver_xonly_public_key = replicate 32 2, gp_recipient_scope = replicate 32 3,
         gp_authority_epoch = 1, gp_authority_not_before = 1, gp_authority_not_after = 2000000000,
         gp_recipient_purpose = RECIPIENT_PURPOSE_V1, gp_recipient_boundary = RECIPIENT_BOUNDARY_V1,
         gp_external_disclosure = EXTERNAL_DISCLOSURE_DENY_V1, gp_observable_decisions = decision_allow_token,
         gp_allowed_observable_kinds = {FILE_SHA256, API_IMPORT, BYTE_PATTERN}, gp_policy_sha256 = replicate 32 7\<rparr>,
      gb_retention =
        \<lparr>rp_network_id = u ''mainnet'', rp_approver_xonly_public_key = replicate 32 2, rp_recipient_scope = replicate 32 3,
         rp_retention_purpose = RETENTION_PURPOSE_V1, rp_payload_form = PAYLOAD_FORM_V1,
         rp_durable_observable_kinds = {FILE_SHA256, API_IMPORT, BYTE_PATTERN}, rp_max_pending_records = 10,
         rp_max_retention_seconds = 86400, rp_policy_sha256 = replicate 32 8\<rparr>,
      gb_promotion_policy_sha256 = replicate 32 9\<rparr>"

definition ex_cs :: consumption_service where
  "ex_cs =
     \<lparr>cs_policy = \<lparr>ap_network_id = u ''mainnet'', ap_approver_xonly_public_key = replicate 32 2,
                   ap_recipient_scope = replicate 32 3, ap_ledger_path = [u ''ledger'']\<rparr>,
      cs_governance = Some ex_governance, cs_outbox = True\<rparr>"

definition ex_digest :: bytes where
  "ex_digest = sha256 (statement_preimage (statement_wire ex_hint_statement))"

definition ex_ledger :: ledger where
  "ex_ledger =
     enqueued ex_approval (bundle_wire ex_review_bundle) (statement_wire ex_hint_statement) ex_digest
       (oc_report_nonce ex_context) 1700000000 1700086400
       (consumed (Some (authority_of ex_governance)) ex_approval 1700000000 new_ledger)"

lemma ex_service_ok: "service_ok ex_cs"
  by (simp add: service_ok_def ex_cs_def ex_governance_def)

lemma ex_service_verify:
  "service_verify ex_env B0 ex_cs ex_approval_wire (bundle_wire ex_review_bundle) (oc_report_nonce ex_context) 1700000000 =
     Inr ex_approval"
proof -
  have "service_context ex_cs (oc_report_nonce ex_context) 1700000000 = ex_context"
    by (simp add: service_context_def ex_cs_def ex_context_def)
  then show ?thesis using ex_approval_spec service_verify_iff [of ex_env] by (simp add: ex_env_def)
qed

lemma ex_validate_governance: "validate_governance ex_env ex_approval (bundle_wire ex_review_bundle) 1700000000 ex_governance = Inr ()"
proof -
  have "parse_canonical ex_env (bundle_wire ex_review_bundle) = Inr ex_review_bundle"
    using ex_review_bundle_canonical by (intro parse_canonical_dec) (simp_all add: ex_env_def)
  moreover have "k \<in> {FILE_SHA256, API_IMPORT, BYTE_PATTERN}" for k by (cases k) auto
  ultimately show ?thesis
    by (simp add: validate_governance_def ex_governance_def ex_approval_def ex_terms_def raise_oerr_def)
qed

lemma ex_outbox_statement:
  "validate_outbox_statement ex_env (statement_wire ex_hint_statement) (u ''mainnet'') (va_observable_commitment ex_approval)
     (oc_report_nonce ex_context) = Inr ex_digest"
proof -
  have n: "vs_network_id ex_hint_statement = u ''mainnet''" by (simp add: ex_hint_statement_def ex_statement_def)
  have "parse_statement ex_env (statement_wire ex_hint_statement) (plit ''mainnet'') = Inr ex_hint_statement"
    using parse_statement_dec [OF ex_hint_statement_valid, of ex_env] n by (simp add: ex_env_def)
  moreover have "statement_digest (Some (statement_wire ex_hint_statement)) ex_hint_statement = Inr ex_digest"
    using ex_hint_statement_valid by (simp add: statement_digest_iff ex_digest_def)
  moreover have "1 \<le> length (statement_wire ex_hint_statement)" "length (statement_wire ex_hint_statement) \<le> 489"
    using statement_length [OF ex_hint_statement_valid] doc_nonempty [of "statement_items ex_hint_statement"]
    by (simp_all add: statement_wire_def Suc_leI)
  moreover have "length (va_observable_commitment ex_approval) = 32" "length (oc_report_nonce ex_context) = 32"
    using ex_approval_spec by (simp_all add: approval_spec_def approval_ok_def approval_wf_def context_ok_def)
  ultimately show ?thesis
    by (simp add: validate_outbox_statement_def FIXED_HASH_BYTES_def MAX_CANONICAL_V2_STATEMENT_BYTES_def)
       (simp add: ex_hint_statement_def)
qed

lemma ex_recompute:
  "recompute_commitment ex_env (bundle_wire ex_review_bundle) (u ''mainnet'') (oc_report_nonce ex_context) =
     Inr (va_observable_commitment ex_approval)"
proof -
  have "expected_commitment ex_env (bundle_wire ex_review_bundle) ex_context = Inr (va_observable_commitment ex_approval)"
    using ex_approval_spec by (simp add: approval_spec_def)
  moreover have "oc_network_id ex_context = u ''mainnet''" by (simp add: ex_context_def)
  ultimately show ?thesis
    by (auto simp: expected_commitment_iff recompute_commitment_def catch_eq_Inr_raise)
qed

lemma ex_consume_tx:
  "consume_tx ex_env True ex_approval 1700000000 (Some ex_governance) (bundle_wire ex_review_bundle)
     (statement_wire ex_hint_statement) (oc_report_nonce ex_context) new_ledger = Inr ex_ledger"
proof -
  let ?A = "new_ledger\<lparr>lg_authority := Some (authority_of ex_governance)\<rparr>"
  have a: "apply_authority_snapshot ex_governance new_ledger = Inr ?A"
    by (simp add: apply_authority_snapshot_def new_ledger_def SQLITE_SCHEMA_VERSION_GOVERNED_def
        validate_authority_snapshot_def raise_tx_def write_authority_def Let_def authority_of_def ex_governance_def
        authority_row_wf_def FIXED_HASH_BYTES_def check_def bind_int_def)
  have l: "length (va_approval_id ex_approval) = 32" "length (va_observable_commitment ex_approval) = 32"
      "length (oc_report_nonce ex_context) = 32" "va_network_id ex_approval = u ''mainnet''"
    using ex_approval_spec
    by (simp_all add: approval_spec_def approval_ok_def approval_wf_def context_ok_def domain_digest_def)
       (simp add: ex_approval_def ex_terms_def)
  have c: "consume_ok ex_approval 1700000000 new_ledger"
    using l(1,2) by (simp add: consume_ok_def new_ledger_def consumption_fits_def consumption_of_def)
       (simp add: ex_approval_def ex_terms_def)
  have b: "1 \<le> length (bundle_wire ex_review_bundle)" "length (bundle_wire ex_review_bundle) \<le> MAX_CANONICAL_BYTES"
  proof -
    have "parse_canonical ex_env (bundle_wire ex_review_bundle) = Inr ex_review_bundle"
      using ex_review_bundle_canonical by (intro parse_canonical_dec) (simp_all add: ex_env_def)
    then show "1 \<le> length (bundle_wire ex_review_bundle)" "length (bundle_wire ex_review_bundle) \<le> MAX_CANONICAL_BYTES"
      by (auto simp: parse_canonical_def Suc_leI split: if_splits)
  qed
  have "enqueue_ok ex_env ex_approval (bundle_wire ex_review_bundle) (statement_wire ex_hint_statement)
      (oc_report_nonce ex_context) 1700000000 (gb_retention ex_governance) ex_digest
      (consumed (Some (authority_of ex_governance)) ex_approval 1700000000 new_ledger)"
    using ex_outbox_statement ex_recompute l b
    by (simp add: enqueue_ok_def consumed_def new_ledger_def consumption_of_def) (simp add: ex_governance_def)
  moreover have "1700000000 + rp_max_retention_seconds (gb_retention ex_governance) = 1700086400"
    by (simp add: ex_governance_def)
  ultimately have "enqueue_outbox ex_env ex_approval (bundle_wire ex_review_bundle) (statement_wire ex_hint_statement)
      (oc_report_nonce ex_context) 1700000000 (gb_retention ex_governance)
      (consumed (Some (authority_of ex_governance)) ex_approval 1700000000 new_ledger) = Inr ex_ledger"
    unfolding enqueue_outbox_iff ex_ledger_def by metis
  then show ?thesis unfolding consume_tx_governed using a c by auto
qed

subsection \<open>The guarantees\<close>

lemma complete_result:
  assumes "complete E st n i tok ctok x w t L = (Inr c, L')" and "ledger_inv E L" and "is_timestamp t" and "t < 2 ^ 63"
  shows "\<exists>s. fst (outbox_result E DbOk i t L') = Inr (Some s) \<and> sr_result_wire s = w"
proof -
  obtain r where r: "rr_result_wire r = w" "rr_approval_id r = i" "result_row_ok E r" "r \<in> set (lg_results L')"
    "t < rr_retention_deadline r" "outbox_inv E L'" "lg_version L' = 5"
    using complete_settled [OF assms(1,2)] by metis
  let ?P = "purge_results t L'"
  have "r \<in> set (lg_results ?P)" using r(4,5) by (simp add: purge_results_def)
  moreover have "distinct (map rr_approval_id (lg_results ?P))"
    using purge_inv(1) [OF r(6)] by (simp add: outbox_inv_def)
  ultimately have f: "find_result i ?P = Some r" using find_result_unique [of ?P r] r(2) by simp
  have "result_tx E i t L' = Inr (Some (build_stored_result r), ?P)"
    using f r(2,3,7) assms(3,4)
    by (simp add: result_tx_def Let_def result_row_ok_def require_governed_def SQLITE_SCHEMA_VERSION_GOVERNED_def
        is_timestamp_def)
  moreover have "is_fixed_bytes i" using r(2,3) by (simp add: result_row_ok_def validate_stored_result_row_def)
  ultimately show ?thesis using assms(3) r(1) by (simp add: outbox_result_def build_stored_result_def)
qed

lemma claim_complete_progress:
  assumes "reachable E L" and "lg_authority L = Some a" and "validate_network_id (ar_network_id a) = Inr ()"
    and "q \<in> set (lg_outbox L)" and "eligible t q" and "is_timestamp t" and "1 \<le> seconds" and "seconds \<le> 300"
    and "length tok = 32" and "length ctok = 32" and "1 \<le> json_depth E" and "is_analyzer_text analyzer" and "1 \<le> k" and "k \<le> 16"
  shows "\<exists>c L1 w. claim E DbOk (ar_network_id a) t seconds tok L = (Inr (Some c), L1) \<and>
    build_analysis_result_wire analyzer (cl_approval_id c) (cl_input_identity c) (cl_statement_digest c)
      (cl_observable_commitment c) k = Inr w \<and> t < cl_lease_expires_at c \<and>
    (\<forall>t' \<in> {t..<cl_lease_expires_at c}. \<exists>cm L2 s.
       complete E DbOk (ar_network_id a) (cl_approval_id c) tok ctok (cl_input_identity c) w t' L1 = (Inr cm, L2) \<and>
       fst (outbox_result E DbOk (cl_approval_id c) t' L2) = Inr (Some s) \<and> sr_result_wire s = w)"
proof -
  let ?n = "ar_network_id a"
  have inv: "ledger_inv E L" using assms(1) by (rule reachable_inv)
  obtain c L1 where cl: "claim E DbOk ?n t seconds tok L = (Inr (Some c), L1)"
    using claim_progress [OF inv reachable_version [OF assms(1)] assms(2-9)] by blast
  have inv1: "ledger_inv E L1" using lstep_inv [OF lstep.claim [OF cl] inv] by blast
  obtain row where row: "row \<in> set (lg_outbox L)" "eligible t row"
    "cl_lease_expires_at c = min (t + seconds) (ox_retention_deadline row)"
    "build_outbox_claim row tok (cl_lease_expires_at c) ?n = Inr c"
    using claim_SomeE [OF cl] by metis
  obtain a' :: authority_row where "lg_authority L = Some a'" "outbox_row_ok E (ar_network_id a') row"
    using inv row(1) unfolding ledger_inv_def outbox_inv_def by blast
  then have ok: "outbox_row_ok E ?n row" using assms(2) by simp
  have lt: "t < cl_lease_expires_at c" using row(2,3) assms(7) by (auto simp: eligible_def)
  note f = build_claim_fields [OF row(4)]
  have v: "revalidate_outbox_row E row ?n = Inr ()" using ok by (simp add: outbox_row_ok_def)
  have lx: "length (cl_input_identity c) = 32"
  proof -
    have "1 \<le> cl_lease_expires_at c" "cl_lease_expires_at c \<le> ox_retention_deadline row"
      using lt assms(6) row(3) by (auto simp: is_timestamp_def)
    then show ?thesis using input_identity_total [OF ok assms(3,9)] f(6) by force
  qed
  obtain w where w: "build_analysis_result_wire analyzer (cl_approval_id c) (cl_input_identity c) (cl_statement_digest c)
      (cl_observable_commitment c) k = Inr w"
    using build_result_total [OF assms(12-14)] revalidate_fields(1-3) [OF v] f(1,4,5) lx by metis
  have "\<exists>cm L2 s. complete E DbOk ?n (cl_approval_id c) tok ctok (cl_input_identity c) w t' L1 = (Inr cm, L2) \<and>
       fst (outbox_result E DbOk (cl_approval_id c) t' L2) = Inr (Some s) \<and> sr_result_wire s = w"
    if t': "t' \<in> {t..<cl_lease_expires_at c}" for t'
  proof -
    have b: "is_timestamp t'" "t' < cl_lease_expires_at c" "t' < 2 ^ 63"
      using t' assms(6) row(3) ok by (auto simp: is_timestamp_def outbox_row_ok_def UINT64_MAX_def)
    obtain cm L2 where "complete E DbOk ?n (cl_approval_id c) tok ctok (cl_input_identity c) w t' L1 = (Inr cm, L2)"
      using complete_progress [OF inv cl assms(11) built_result_valid [OF w assms(11)] b(1,2) assms(10)] by blast
    then show ?thesis using complete_result [OF _ inv1 b(1,3)] by metis
  qed
  with cl w lt show ?thesis by blast
qed

text \<open>C23. The invariant of every reachable ledger: no approval and no approver nonce is consumed twice, no statement, approval
  or commitment is paired twice and each pairing has its consumption, each pending record has its pairing and still passes
  the full revalidation for the network of the authority, its lease ends by its deadline, no approval is both pending and
  completed, and each stored result still has a valid wire and the digest of its record.
\<close>

theorem reachable_ledger_invariant:
  assumes "reachable E L"
  shows "distinct (map cr_approval_id (lg_consumptions L)) \<and> distinct (map cr_key (lg_consumptions L)) \<and>
    distinct (map pg_statement_digest (lg_pairings L)) \<and> distinct (map pg_approval_id (lg_pairings L)) \<and>
    distinct (map pg_observable_commitment (lg_pairings L)) \<and>
    pg_approval_id ` set (lg_pairings L) \<subseteq> cr_approval_id ` set (lg_consumptions L) \<and>
    (\<forall>c \<in> set (lg_consumptions L). cr_not_before c \<le> cr_consumed_at c \<and> cr_consumed_at c \<le> cr_expires_at c) \<and>
    (\<forall>r \<in> set (lg_outbox L). \<exists>a p. lg_authority L = Some a \<and> p \<in> set (lg_pairings L) \<and>
       pg_approval_id p = ox_approval_id r \<and> pg_statement_digest p = ox_statement_digest r \<and>
       revalidate_outbox_row E r (ar_network_id a) = Inr () \<and>
       (\<forall>tok e. ox_lease r = Some (tok, e) \<longrightarrow> e \<le> ox_retention_deadline r)) \<and>
    ox_approval_id ` set (lg_outbox L) \<inter> rr_approval_id ` set (lg_results L) = {} \<and>
    (\<forall>r \<in> set (lg_results L). revalidate_result E r (rr_approval_id r) = Inr ())"
proof -
  have inv: "consumptions_inv L" "pairings_inv L" "outbox_inv E L"
    using reachable_inv [OF assms] by (simp_all add: ledger_inv_def)
  have "\<exists>a p. lg_authority L = Some a \<and> p \<in> set (lg_pairings L) \<and>
       pg_approval_id p = ox_approval_id r \<and> pg_statement_digest p = ox_statement_digest r \<and>
       revalidate_outbox_row E r (ar_network_id a) = Inr () \<and>
       (\<forall>tok e. ox_lease r = Some (tok, e) \<longrightarrow> e \<le> ox_retention_deadline r)" if m: "r \<in> set (lg_outbox L)" for r
  proof -
    obtain a :: authority_row where a: "lg_authority L = Some a" "outbox_row_ok E (ar_network_id a) r"
      using inv(3) m by (auto simp: outbox_inv_def)
    moreover obtain p :: pairing_row where "p \<in> set (lg_pairings L)" "pg_approval_id p = ox_approval_id r"
        "pg_statement_digest p = ox_statement_digest r"
      using inv(3) m unfolding outbox_inv_def by blast
    ultimately show ?thesis by (auto simp: outbox_row_ok_def intro!: exI [of _ a] exI [of _ p])
  qed
  moreover have "pg_approval_id ` set (lg_pairings L) \<subseteq> cr_approval_id ` set (lg_consumptions L)"
  proof
    fix i assume "i \<in> pg_approval_id ` set (lg_pairings L)"
    then obtain c :: consumption_row where "c \<in> set (lg_consumptions L)" "cr_approval_id c = i"
      using inv(2) by (auto simp: pairings_inv_def)
    then show "i \<in> cr_approval_id ` set (lg_consumptions L)" by blast
  qed
  ultimately show ?thesis
    using inv by (simp add: consumptions_inv_def pairings_inv_def outbox_inv_def result_row_ok_def)
qed

text \<open>C9. An approval is used at most once. When a consumption has succeeded, then after any later calls on the ledger every
  further consumption of an approval with the same id, or with the same approver key and nonce, is refused and leaves the
  ledger as it was, whichever service, bundle, statement and time it comes with.
\<close>

theorem approval_single_use:
  assumes "reachable E L" and "service_ok S" and "service_verify E B S aw bw nonce t = Inr v"
    and "consume_expected E B st st2 S aw bw nonce t i c sw L = (Inr r, L1)"
    and "(lstep E)\<^sup>*\<^sup>* L1 L2" and "service_verify E B' S' aw' bw' nonce' t' = Inr v'"
    and "va_approval_id v' = va_approval_id v \<or>
      (va_approver_xonly_public_key v', va_approval_nonce v') = (va_approver_xonly_public_key v, va_approval_nonce v)"
  shows "(\<exists>e. consume_expected E B' st' st2' S' aw' bw' nonce' t' i' c' sw' L2 = (Inl e, L2)) \<and>
    (\<exists>e. service_consume E B' st' st2' S' aw' bw' nonce' t' L2 = (Inl e, L2))"
proof -
  have cv: "consume_verified E st st2 S v bw sw nonce t L = (Inr r, L1)"
    using assms(4) by (cases rule: consume_expected_cases) (use assms(3) in auto)
  note l1 = consume_verified_consumed [OF cv reachable_inv [OF assms(1)] assms(2) service_verify_network [OF assms(3)]]
  have "consumption_of v t \<in> set (lg_consumptions L2)"
    using lsteps_inv [OF assms(5) l1(2)] extends_row l1(1) by blast
  then have used: "va_approval_id v' \<in> cr_approval_id ` set (lg_consumptions L2) \<or>
      (va_approver_xonly_public_key v', va_approval_nonce v') \<in> cr_key ` set (lg_consumptions L2)"
    using assms(7) by (force simp: consumption_of_def cr_key_def image_iff)
  have refused: "\<exists>e. consume_verified E st' st2' S' v' bw' x nonce' t' L2 = (Inl e, L2)" for x
    using consume_verified_replayed [OF _ used, of E st' st2' S' bw' x nonce' t'] by (metis surj_pair)
  then have "\<exists>e. service_consume E B' st' st2' S' aw' bw' nonce' t' L2 = (Inl e, L2)"
    using assms(6) by (simp add: service_consume_def)
  moreover have "\<exists>e. consume_expected E B' st' st2' S' aw' bw' nonce' t' i' c' sw' L2 = (Inl e, L2)"
    using assms(6) refused [of sw'] by (simp add: consume_expected_def)
  ultimately show ?thesis by blast
qed

lemma apply_authority_again:
  assumes "apply_authority_snapshot g L = Inr L1" and "lg_authority M = lg_authority L1" and "lg_version M = 5"
  shows "apply_authority_snapshot g M = Inr M"
proof -
  have w: "validate_authority_snapshot (Some (authority_of g)) g = Inr ()" if "authority_row_wf (authority_of g)"
    using that by (simp add: validate_authority_snapshot_def) (simp add: authority_of_def)
  have "\<exists>a. lg_authority L1 = Some a \<and> validate_authority_snapshot (Some a) g = Inr () \<and>
    \<not> ar_authority_epoch a < gp_authority_epoch (gb_policy g)"
  proof (cases "\<exists>a. lg_authority L = Some a \<and> \<not> ar_authority_epoch a < gp_authority_epoch (gb_policy g)")
    case True
    then show ?thesis using assms(1) by (auto simp: apply_authority_snapshot_def split: if_splits)
  next
    case False
    then have "write_authority g L = Inr L1"
      using assms(1) by (auto simp: apply_authority_snapshot_def split: if_splits option.splits)
    then have "lg_authority L1 = Some (authority_of g)" "authority_row_wf (authority_of g)"
      by (auto simp: write_authority_def Let_def)
    then show ?thesis using w by (simp add: authority_of_def)
  qed
  then show ?thesis using assms(2,3)
    by (auto simp: apply_authority_snapshot_def SQLITE_SCHEMA_VERSION_GOVERNED_def)
qed

lemma consume_core_again:
  assumes "consumption_fits c" and "c \<in> set (lg_consumptions L)" and "lg_high_water L = Some t" and "cr_consumed_at c = t"
  shows "\<exists>L2. advance_time t L = Inr L2 \<and> insert_consumption c L2 = Inl Integrity"
proof -
  have b: "bind_int (cr_not_before c) = Inr ()" "bind_int (cr_expires_at c) = Inr ()" "bind_int t = Inr ()"
    using assms(1,4) by (auto simp: consumption_fits_def)
  have d: "cr_approval_id c \<in> cr_approval_id ` set (lg_consumptions L)" using assms(2) by blast
  have "advance_time t L = Inr (L\<lparr>lg_high_water := Some t\<rparr>)" using assms(3) b(3) by (simp add: advance_time_def del: bind_int_Inr)
  moreover have "insert_consumption c (L\<lparr>lg_high_water := Some t\<rparr>) = Inl Integrity"
    using b d assms(1,4) by (simp add: insert_consumption_def consumption_fits_def check_def del: bind_int_Inr)
  ultimately show ?thesis by blast
qed

lemma consume_tx_again:
  assumes "consume_tx E ob v t g bw sw nonce L = Inr L1"
  shows "consume_tx E ob v t g bw sw nonce L1 = Inl Integrity" "consumption_of v t \<in> set (lg_consumptions L1)"
    "g \<noteq> None \<Longrightarrow> ob \<Longrightarrow> \<exists>d. validate_outbox_statement E sw (va_network_id v) (va_observable_commitment v) nonce = Inr d"
proof -
  have "consume_ok v t L \<and> lg_high_water L1 = Some t \<and> consumption_of v t \<in> set (lg_consumptions L1) \<and>
    (case g of None \<Rightarrow> True | Some g' \<Rightarrow> apply_authority_snapshot g' L1 = Inr L1 \<and>
       (ob \<longrightarrow> (\<exists>d. validate_outbox_statement E sw (va_network_id v) (va_observable_commitment v) nonce = Inr d)))"
  proof (cases g)
    case None
    then show ?thesis using assms by (simp add: consume_tx_legacy) (simp add: consumed_def)
  next
    case (Some g')
    then obtain L0 :: ledger where a: "apply_authority_snapshot g' L = Inr L0" and c: "consume_ok v t L"
      and l: "if ob then enqueue_outbox E v bw sw nonce t (gb_retention g') (consumed (lg_authority L0) v t L) = Inr L1
        else L1 = consumed (lg_authority L0) v t L"
      using assms by (auto simp: consume_tx_governed)
    have t: "lg_high_water L1 = Some t" "consumption_of v t \<in> set (lg_consumptions L1)" "lg_authority L1 = lg_authority L0"
      "lg_version L1 = 5"
      using l apply_authority_tables(2) [OF a] by (auto simp: enqueue_outbox_iff enqueued_def consumed_def split: if_splits)
    moreover have "\<exists>d. validate_outbox_statement E sw (va_network_id v) (va_observable_commitment v) nonce = Inr d" if ob
      using l that by (auto simp: enqueue_outbox_iff enqueue_ok_def)
    ultimately show ?thesis using Some c apply_authority_again [OF a] by simp
  qed
  then have k: "consume_ok v t L" "lg_high_water L1 = Some t" "consumption_of v t \<in> set (lg_consumptions L1)"
    and g: "\<And>g'. g = Some g' \<Longrightarrow> apply_authority_snapshot g' L1 = Inr L1"
    and d: "g \<noteq> None \<Longrightarrow> ob \<Longrightarrow> \<exists>d. validate_outbox_statement E sw (va_network_id v) (va_observable_commitment v) nonce = Inr d"
    by (auto split: option.splits)
  have "consumption_fits (consumption_of v t)" using k(1) by (simp add: consume_ok_def)
  then obtain L2 where "advance_time t L1 = Inr L2" "insert_consumption (consumption_of v t) L2 = Inl Integrity"
    using consume_core_again [OF _ k(3,2)] by (auto simp: consumption_of_def)
  then show "consume_tx E ob v t g bw sw nonce L1 = Inl Integrity"
    using g by (cases g) (simp_all add: consume_tx_def)
  show "consumption_of v t \<in> set (lg_consumptions L1)"
    "g \<noteq> None \<Longrightarrow> ob \<Longrightarrow> \<exists>d. validate_outbox_statement E sw (va_network_id v) (va_observable_commitment v) nonce = Inr d"
    using k d by blast+
qed

text \<open>A replay is reported as one: the same call again, on the ledger that the first one left behind, is refused with
  \<open>ObservableApprovalReplayError\<close>, with or without governance and outbox.
\<close>

lemma replay_reported:
  assumes "consume_expected E B st st2 S aw bw nonce t i c sw L = (Inr r, L1)"
  shows "consume_expected E B DbOk DbOk S aw bw nonce t i c sw L1 = (Inl ObservableApprovalReplayError, L1)"
proof -
  have l: "length i = 32" "length c = 32" using assms by (auto simp: consume_expected_def FIXED_HASH_BYTES_def split: if_splits)
  from assms obtain v where v: "service_verify E B S aw bw nonce t = Inr v" "va_approval_id v = i"
      "va_observable_commitment v = c" "consume_verified E st st2 S v bw sw nonce t L = (Inr r, L1)"
    by (cases rule: consume_expected_cases) auto
  from v(4) have "consume_verified E DbOk DbOk S v bw sw nonce t L1 = (Inl ObservableApprovalReplayError, L1)"
  proof (cases rule: consume_verified_cases)
    case (ok bw' sw' nonce')
    note again = consume_tx_again [OF ok(5)]
    have probe: "replay_probe E DbOk (cs_governance S \<noteq> None \<and> cs_outbox S) v x nonce' L1 = ObservableApprovalReplayError"
      if x: "x = None \<or> x = Some sw'" for x
    proof -
      have "\<exists>y \<in> set (lg_consumptions L1). cr_approval_id y = va_approval_id v"
        using again(2) by (intro bexI [of _ "consumption_of v t"]) (simp_all add: consumption_of_def)
      then show ?thesis using x again(3) by (auto simp: replay_probe_def catch_def split: option.splits sum.splits)
    qed
    show ?thesis
    proof (cases "cs_governance S")
      case None
      then have "consume_tx E (cs_outbox S) v t None [] [] [] L1 = Inl Integrity"
        using again(1) by (simp add: consume_tx_def)
      moreover have "replay_probe E DbOk False v None [] L1 = ObservableApprovalReplayError"
        using again(2) by (force simp: replay_probe_def consumption_of_def)
      ultimately show ?thesis using None ok(2-4) by (simp add: consume_verified_def ledger_consume_core_def)
    next
      case (Some g)
      then have k: "validate_governance E v bw t g = Inr ()" "bw' = bw" "nonce' = nonce"
          "if cs_outbox S then sw = Some sw' else sw = None"
        using ok(7) by auto
      then have "consume_tx E (cs_outbox S) v t (Some g) bw (case sw of None \<Rightarrow> [] | Some w \<Rightarrow> w) nonce L1 = Inl Integrity"
        using again(1) Some by (cases "cs_outbox S") (simp_all add: consume_tx_def)
      moreover have "replay_probe E DbOk (cs_outbox S) v sw nonce L1 = ObservableApprovalReplayError"
        using probe [of sw] k Some by (cases "cs_outbox S") simp_all
      moreover have "cs_outbox S \<noteq> (sw = None)" using k(4) by (cases "cs_outbox S") simp_all
      ultimately show ?thesis using Some k(1) ok(2-4)
        by (simp add: consume_verified_def consume_governed_def ledger_consume_core_def)
    qed
  qed simp
  then show ?thesis using v l by (simp add: consume_expected_def FIXED_HASH_BYTES_def)
qed

lemma ex_consume_expected:
  "consume_expected ex_env B0 DbOk DbOk ex_cs ex_approval_wire (bundle_wire ex_review_bundle) (oc_report_nonce ex_context)
     1700000000 (va_approval_id ex_approval) (va_observable_commitment ex_approval) (Some (statement_wire ex_hint_statement))
     new_ledger =
   (Inr \<lparr>ac_approval_id = va_approval_id ex_approval, ac_observable_commitment = va_observable_commitment ex_approval,
         ac_consumed_at = 1700000000\<rparr>, ex_ledger)"
proof -
  have l: "length (va_approval_id ex_approval) = 32" "length (va_observable_commitment ex_approval) = 32"
    using ex_approval_spec by (simp_all add: approval_spec_def approval_ok_def approval_wf_def domain_digest_def)
  have "va_not_before ex_approval \<le> 1700000000" "1700000000 \<le> va_expires_at ex_approval"
    by (simp_all add: ex_approval_def ex_terms_def)
  then have "consume_verified ex_env DbOk DbOk ex_cs ex_approval (bundle_wire ex_review_bundle)
      (Some (statement_wire ex_hint_statement)) (oc_report_nonce ex_context) 1700000000 new_ledger =
    (Inr \<lparr>ac_approval_id = va_approval_id ex_approval, ac_observable_commitment = va_observable_commitment ex_approval,
         ac_consumed_at = 1700000000\<rparr>, ex_ledger)"
    using ex_validate_governance ex_consume_tx
    by (simp add: consume_verified_def ex_cs_def consume_governed_def ledger_consume_core_def is_timestamp_def UINT64_MAX_def)
  then show ?thesis using ex_service_verify l by (simp add: consume_expected_def FIXED_HASH_BYTES_def)
qed

lemma ex_reachable: "reachable ex_env ex_ledger" "reachable ex_env new_ledger"
proof -
  have "lstep ex_env new_ledger ex_ledger" by (rule lstep.expected [OF ex_service_ok ex_consume_expected])
  then show "reachable ex_env ex_ledger" "reachable ex_env new_ledger" by (simp_all add: reachable_def r_into_rtranclp)
qed

theorem reachable_ledger_invariant_witness:
  "pg_approval_id ` set (lg_pairings ex_ledger) \<subseteq> cr_approval_id ` set (lg_consumptions ex_ledger) \<and>
    ox_approval_id ` set (lg_outbox ex_ledger) \<inter> rr_approval_id ` set (lg_results ex_ledger) = {} \<and>
    length (lg_outbox ex_ledger) = 1"
  using reachable_ledger_invariant [OF ex_reachable(1)]
  by (simp add: ex_ledger_def enqueued_def consumed_def new_ledger_def)

theorem approval_single_use_witness:
  "\<exists>e. consume_expected ex_env B0 DbOk DbOk ex_cs ex_approval_wire (bundle_wire ex_review_bundle) (oc_report_nonce ex_context)
     1700000000 (va_approval_id ex_approval) (va_observable_commitment ex_approval) (Some (statement_wire ex_hint_statement))
     ex_ledger = (Inl e, ex_ledger)"
  using approval_single_use [OF ex_reachable(2) ex_service_ok ex_service_verify ex_consume_expected rtranclp.rtrancl_refl
      ex_service_verify disjI1 [OF refl]] by blast

text \<open>C24. A lease is exclusive. When a claim has handed out a record, then after any later calls on the ledger no claim before
  the end of that lease hands out the same approval again, whatever token and network it comes with.
\<close>

theorem lease_exclusive:
  assumes "reachable E L" and "claim E st n t seconds tok L = (Inr (Some c), L1)" and "(lstep E)\<^sup>*\<^sup>* L1 L2"
    and "t' < cl_lease_expires_at c"
  shows "\<nexists>c' L3. claim E st' n' t' seconds' tok' L2 = (Inr (Some c'), L3) \<and> cl_approval_id c' = cl_approval_id c"
proof -
  have inv: "ledger_inv E L" using assms(1) by (rule reachable_inv)
  have "ledger_inv E L1" using lstep_inv [OF lstep.claim [OF assms(2)] inv] by blast
  then have "held (cl_approval_id c) (cl_lease_expires_at c) L2"
    using lsteps_persist [OF assms(3)] claimed_held [OF assms(2) inv] by blast
  then show ?thesis using held_not_claimed assms(4) by blast
qed

text \<open>C25. A record is completed at most once. When a completion has succeeded, then after any later calls on the ledger a
  further successful completion of the approval is a retry with the same wire and input identity and returns the same
  completion, a stored result read back has that wire, and the approval is never claimed again.
\<close>

theorem completion_once:
  assumes "reachable E L" and "complete E st n i tok ctok x w t L = (Inr c, L1)" and "(lstep E)\<^sup>*\<^sup>* L1 L2"
  shows "(\<nexists>c' L3. complete E st' n' i tok' ctok' x' w' t' L2 = (Inr c', L3) \<and> (c' \<noteq> c \<or> w' \<noteq> w \<or> x' \<noteq> x)) \<and>
    (\<nexists>s L3. outbox_result E st' i t' L2 = (Inr (Some s), L3) \<and> sr_result_wire s \<noteq> w) \<and>
    (\<nexists>c' L3. claim E st' n' t' seconds' tok' L2 = (Inr (Some c'), L3) \<and> cl_approval_id c' = i)"
proof -
  have inv: "ledger_inv E L" using assms(1) by (rule reachable_inv)
  obtain r where r: "settled i r L1" "c = completion_of r" "rr_result_wire r = w" "rr_input_identity r = x"
    using complete_settled [OF assms(2) inv] by metis
  have "ledger_inv E L1" using lstep_inv [OF lstep.complete [OF assms(2)] inv] by blast
  then have p: "settled i r L2" "ledger_inv E L2" using lsteps_persist [OF assms(3)] r(1) by blast+
  have "c' = c \<and> w' = w \<and> x' = x" if q: "complete E st' n' i tok' ctok' x' w' t' L2 = (Inr c', L3)" for c' L3
  proof -
    obtain r' where r': "settled i r' L3" "c' = completion_of r'" "rr_result_wire r' = w'" "rr_input_identity r' = x'"
      "rr_approval_id r' = i" "r' \<in> set (lg_results L3)"
      using complete_settled [OF q p(2)] by metis
    have "settled i r L3" using lsteps_persist [OF r_into_rtranclp, OF lstep.complete, OF q p(2)] p(1) by blast
    then have "r' = r" using r'(5,6) by (simp add: settled_def)
    then show ?thesis using r r' by simp
  qed
  moreover have "sr_result_wire s = w" if q: "outbox_result E st' i t' L2 = (Inr (Some s), L3)" for s L3
    using q
  proof (cases rule: outbox_result_cases)
    case (ok y)
    then obtain row where row: "find_result i (purge_results t' L2) = Some row" "s = build_stored_result row" by auto
    then have "row = r" using find_result_Some [OF row(1)] p(1) by (auto simp: settled_def purge_results_def)
    then show ?thesis using row(2) r(3) by (simp add: build_stored_result_def)
  qed simp
  moreover have "cl_approval_id c' \<noteq> i" if q: "claim E st' n' t' seconds' tok' L2 = (Inr (Some c'), L3)" for c' L3
    using claim_SomeE [OF q] p(1) by (metis image_eqI settled_def)
  ultimately show ?thesis by blast
qed

lemma ex_eligible:
  "\<exists>q. q \<in> set (lg_outbox ex_ledger) \<and> eligible 1700000001 q"
  "lg_authority ex_ledger = Some (authority_of ex_governance)" "ar_network_id (authority_of ex_governance) = u ''mainnet''"
  by (simp_all add: ex_ledger_def enqueued_def consumed_def new_ledger_def enqueued_row_def eligible_def lease_free_def
      authority_of_def ex_governance_def)

lemma ex_progress_args:
  "is_timestamp 1700000001" "(1 :: int) \<le> 60" "(60 :: int) \<le> 300" "length (replicate 32 (5 :: 8 word)) = 32"
  "length (replicate 32 (6 :: 8 word)) = 32" "1 \<le> json_depth ex_env" "is_analyzer_text (u ''local_v1'')"
  by (simp_all add: is_timestamp_def UINT64_MAX_def ex_env_def) (simp add: u_def is_analyzer_char_def)

lemma ex_network: "validate_network_id (ar_network_id (authority_of ex_governance)) = Inr ()"
  by (simp add: ex_eligible(3) mainnet_valid)

lemma ex_outbox_run:
  obtains c L1 w cm L2 where
    "claim ex_env DbOk (u ''mainnet'') 1700000001 60 (replicate 32 5) ex_ledger = (Inr (Some c), L1)"
    "1700000001 < cl_lease_expires_at c" "reachable ex_env L1"
    "complete ex_env DbOk (u ''mainnet'') (cl_approval_id c) (replicate 32 5) (replicate 32 6) (cl_input_identity c) w
       1700000001 L1 = (Inr cm, L2)"
proof -
  obtain q where q: "q \<in> set (lg_outbox ex_ledger)" "eligible 1700000001 q" using ex_eligible(1) by blast
  obtain c L1 w cm L2 where
    c: "claim ex_env DbOk (u ''mainnet'') 1700000001 60 (replicate 32 5) ex_ledger = (Inr (Some c), L1)"
      "1700000001 < cl_lease_expires_at c"
      "complete ex_env DbOk (u ''mainnet'') (cl_approval_id c) (replicate 32 5) (replicate 32 6) (cl_input_identity c) w
         1700000001 L1 = (Inr cm, L2)"
    using claim_complete_progress [OF ex_reachable(1) ex_eligible(2) ex_network q ex_progress_args, of 1]
    unfolding ex_eligible(3) by fastforce
  moreover have "reachable ex_env L1"
    using ex_reachable(1) lstep.claim [OF c(1)] unfolding reachable_def by (rule rtranclp.rtrancl_into_rtrancl)
  ultimately show ?thesis using that by blast
qed

theorem lease_exclusive_witness:
  "\<exists>c L1. claim ex_env DbOk (u ''mainnet'') 1700000001 60 (replicate 32 5) ex_ledger = (Inr (Some c), L1) \<and>
    (\<nexists>c' L3. claim ex_env DbOk (u ''mainnet'') 1700000001 60 (replicate 32 6) L1 = (Inr (Some c'), L3) \<and>
       cl_approval_id c' = cl_approval_id c)"
  by (rule ex_outbox_run) (blast dest: lease_exclusive [OF ex_reachable(1) _ rtranclp.rtrancl_refl])

theorem completion_once_witness:
  "\<exists>(c :: ObservableApprovalOutboxClaim) L1 w cm L2. complete ex_env DbOk (u ''mainnet'') (cl_approval_id c) (replicate 32 5) (replicate 32 6)
      (cl_input_identity c) w 1700000001 L1 = (Inr cm, L2) \<and>
    (\<nexists>s L3. outbox_result ex_env DbOk (cl_approval_id c) 1700000002 L2 = (Inr (Some s), L3) \<and> sr_result_wire s \<noteq> w)"
proof (rule ex_outbox_run)
  fix c :: ObservableApprovalOutboxClaim and L1 w cm L2
  assume "reachable ex_env L1" and
    "complete ex_env DbOk (u ''mainnet'') (cl_approval_id c) (replicate 32 5) (replicate 32 6) (cl_input_identity c) w
       1700000001 L1 = (Inr cm, L2)"
  from this(2) completion_once [OF this rtranclp.rtrancl_refl] show ?thesis by blast
qed

end
