(* ===== verification/Ledger_Schema.thy ===== *)
theory Ledger_Schema
  imports Ledger_Properties
begin

text \<open>
  Opening the ledger file of \<open>jaeger/observable_approval_consumption.py\<close>: the check of its path, the versions of its
  schema, creation, upgrade and validation of the declared tables. A database is the rows (the record \<open>ledger\<close>) together
  with the declared layout of each table, as the pragmas \<open>table_info\<close>, \<open>table_list\<close>, \<open>index_list\<close> and
  \<open>foreign_key_list\<close> report it. The rows of a version 3 outbox have no statement columns; only their number is used.
\<close>

subsection \<open>Layouts\<close>

record table_layout =
  tl_kind :: string
  tl_strict :: bool
  tl_columns :: "(string \<times> string \<times> nat \<times> nat) list"
  tl_indexes :: "(bool \<times> bool \<times> string list) list"
  tl_foreign_keys :: "(string \<times> string \<times> string) list"

record ledger_db =
  db_layout :: "string \<rightharpoonup> table_layout"
  db_rows :: ledger

text \<open>A column of a \<open>CREATE TABLE ... STRICT\<close> statement: name, type, the clauses \<open>NOT NULL\<close>, \<open>PRIMARY KEY\<close> and \<open>UNIQUE\<close>,
  and whether it references \<open>approval_consumptions(approval_id)\<close>.\<close>

record column_ddl =
  cd_name :: string
  cd_type :: string
  cd_not_null :: bool
  cd_primary_key :: bool
  cd_unique :: bool
  cd_references :: bool

definition column :: "string \<Rightarrow> string \<Rightarrow> column_ddl" where
  "column name type =
     \<lparr>cd_name = name, cd_type = type, cd_not_null = True, cd_primary_key = False, cd_unique = False, cd_references = False\<rparr>"

definition nullable :: "string \<Rightarrow> string \<Rightarrow> column_ddl" where
  "nullable name type = (column name type)\<lparr>cd_not_null := False\<rparr>"

definition primary_key :: "string \<Rightarrow> string \<Rightarrow> column_ddl" where
  "primary_key name type = (nullable name type)\<lparr>cd_primary_key := True\<rparr>"

text \<open>What SQLite makes of a strict table: a primary key that is not the rowid is implicitly not null and has a unique
  index, and so has each uniqueness constraint.\<close>

definition column_shape :: "column_ddl \<Rightarrow> string \<times> string \<times> nat \<times> nat" where
  "column_shape c =
     (cd_name c, cd_type c,
      if cd_not_null c \<or> (cd_primary_key c \<and> cd_type c \<noteq> ''INTEGER'') then 1 else 0,
      if cd_primary_key c then 1 else 0)"

definition column_indexes :: "column_ddl \<Rightarrow> (bool \<times> bool \<times> string list) list" where
  "column_indexes c =
     (if cd_unique c \<or> (cd_primary_key c \<and> cd_type c \<noteq> ''INTEGER'') then [(True, False, [cd_name c])] else [])"

definition create_table :: "column_ddl list \<Rightarrow> string list list \<Rightarrow> table_layout" where
  "create_table columns uniques =
     \<lparr>tl_kind = ''table'', tl_strict = True, tl_columns = map column_shape columns,
      tl_indexes = concat (map column_indexes columns) @ map (\<lambda>u. (True, False, u)) uniques,
      tl_foreign_keys = map (\<lambda>c. (''approval_consumptions'', cd_name c, ''approval_id'')) (filter cd_references columns)\<rparr>"

definition consumptions_table :: table_layout where
  "consumptions_table =
     create_table
       [primary_key ''approval_id'' ''BLOB'', column ''approver_xonly_public_key'' ''BLOB'', column ''approval_nonce'' ''BLOB'',
        column ''observable_commitment'' ''BLOB'', column ''recipient_scope'' ''BLOB'', column ''network_id'' ''TEXT'',
        column ''not_before'' ''INTEGER'', column ''expires_at'' ''INTEGER'', column ''consumed_at'' ''INTEGER'']
       [[''approver_xonly_public_key'', ''approval_nonce'']]"

definition state_table :: table_layout where
  "state_table = create_table [primary_key ''singleton'' ''INTEGER'', column ''high_water_seconds'' ''INTEGER''] []"

definition authority_table :: table_layout where
  "authority_table =
     create_table
       [primary_key ''singleton'' ''INTEGER'', column ''authority_epoch'' ''INTEGER'', column ''governance_policy_sha256'' ''BLOB'',
        column ''retention_policy_sha256'' ''BLOB'', column ''promotion_policy_sha256'' ''BLOB'', column ''network_id'' ''TEXT'',
        column ''approver_xonly_public_key'' ''BLOB'', column ''recipient_scope'' ''BLOB'',
        column ''authority_not_before'' ''INTEGER'', column ''authority_not_after'' ''INTEGER''] []"

definition outbox_table :: table_layout where
  "outbox_table =
     create_table
       [primary_key ''approval_id'' ''BLOB'', column ''observable_commitment'' ''BLOB'', column ''bundle_wire'' ''BLOB'',
        column ''statement_wire'' ''BLOB'', column ''statement_digest'' ''BLOB'', column ''report_nonce'' ''BLOB'',
        column ''enqueued_at'' ''INTEGER'', column ''retention_deadline'' ''INTEGER'', nullable ''lease_token'' ''BLOB'',
        nullable ''lease_expires_at'' ''INTEGER''] []"

definition results_table :: table_layout where
  "results_table =
     create_table
       [(primary_key ''approval_id'' ''BLOB'')\<lparr>cd_references := True\<rparr>, column ''result_wire'' ''BLOB'',
        column ''result_digest'' ''BLOB'', column ''input_identity'' ''BLOB'', column ''completion_token_digest'' ''BLOB'',
        column ''completed_at'' ''INTEGER'', column ''retention_deadline'' ''INTEGER''] []"

definition pairings_table :: table_layout where
  "pairings_table =
     create_table
       [primary_key ''statement_digest'' ''BLOB'', (column ''approval_id'' ''BLOB'')\<lparr>cd_unique := True, cd_references := True\<rparr>,
        (column ''observable_commitment'' ''BLOB'')\<lparr>cd_unique := True\<rparr>, column ''network_id'' ''TEXT'',
        column ''consumed_at'' ''INTEGER''] []"

subsection \<open>Validation\<close>

definition table_shape :: "ledger_db \<Rightarrow> string \<Rightarrow> (string \<times> string \<times> nat \<times> nat) list" where
  "table_shape db table = (case db_layout db table of None \<Rightarrow> [] | Some t \<Rightarrow> tl_columns t)"

definition is_strict_table :: "ledger_db \<Rightarrow> string \<Rightarrow> nat \<Rightarrow> bool" where
  "is_strict_table db table columns \<longleftrightarrow>
     (case db_layout db table of
        None \<Rightarrow> False
      | Some t \<Rightarrow> tl_kind t = ''table'' \<and> length (tl_columns t) = columns \<and> tl_strict t)"

definition unique_index_columns :: "ledger_db \<Rightarrow> string \<Rightarrow> string list set" where
  "unique_index_columns db table =
     (case db_layout db table of
        None \<Rightarrow> {}
      | Some t \<Rightarrow> set (map (\<lambda>(_, _, columns). columns) (filter (\<lambda>(unique, partial, _). unique \<and> \<not> partial) (tl_indexes t))))"

definition foreign_key_targets :: "ledger_db \<Rightarrow> string \<Rightarrow> (string \<times> string \<times> string) set" where
  "foreign_key_targets db table = (case db_layout db table of None \<Rightarrow> {} | Some t \<Rightarrow> set (tl_foreign_keys t))"

definition expected_consumptions :: "(string \<times> string \<times> nat \<times> nat) list" where
  "expected_consumptions =
     [(''approval_id'', ''BLOB'', 1, 1), (''approver_xonly_public_key'', ''BLOB'', 1, 0), (''approval_nonce'', ''BLOB'', 1, 0),
      (''observable_commitment'', ''BLOB'', 1, 0), (''recipient_scope'', ''BLOB'', 1, 0), (''network_id'', ''TEXT'', 1, 0),
      (''not_before'', ''INTEGER'', 1, 0), (''expires_at'', ''INTEGER'', 1, 0), (''consumed_at'', ''INTEGER'', 1, 0)]"

definition expected_state :: "(string \<times> string \<times> nat \<times> nat) list" where
  "expected_state = [(''singleton'', ''INTEGER'', 0, 1), (''high_water_seconds'', ''INTEGER'', 1, 0)]"

definition expected_authority :: "(string \<times> string \<times> nat \<times> nat) list" where
  "expected_authority =
     [(''singleton'', ''INTEGER'', 0, 1), (''authority_epoch'', ''INTEGER'', 1, 0), (''governance_policy_sha256'', ''BLOB'', 1, 0),
      (''retention_policy_sha256'', ''BLOB'', 1, 0), (''promotion_policy_sha256'', ''BLOB'', 1, 0), (''network_id'', ''TEXT'', 1, 0),
      (''approver_xonly_public_key'', ''BLOB'', 1, 0), (''recipient_scope'', ''BLOB'', 1, 0),
      (''authority_not_before'', ''INTEGER'', 1, 0), (''authority_not_after'', ''INTEGER'', 1, 0)]"

definition expected_outbox_v3 :: "(string \<times> string \<times> nat \<times> nat) list" where
  "expected_outbox_v3 =
     [(''approval_id'', ''BLOB'', 1, 1), (''observable_commitment'', ''BLOB'', 1, 0), (''bundle_wire'', ''BLOB'', 1, 0),
      (''enqueued_at'', ''INTEGER'', 1, 0), (''retention_deadline'', ''INTEGER'', 1, 0), (''lease_token'', ''BLOB'', 0, 0),
      (''lease_expires_at'', ''INTEGER'', 0, 0)]"

definition expected_outbox_v4 :: "(string \<times> string \<times> nat \<times> nat) list" where
  "expected_outbox_v4 =
     [(''approval_id'', ''BLOB'', 1, 1), (''observable_commitment'', ''BLOB'', 1, 0), (''bundle_wire'', ''BLOB'', 1, 0),
      (''statement_wire'', ''BLOB'', 1, 0), (''statement_digest'', ''BLOB'', 1, 0), (''report_nonce'', ''BLOB'', 1, 0),
      (''enqueued_at'', ''INTEGER'', 1, 0), (''retention_deadline'', ''INTEGER'', 1, 0), (''lease_token'', ''BLOB'', 0, 0),
      (''lease_expires_at'', ''INTEGER'', 0, 0)]"

definition expected_results :: "(string \<times> string \<times> nat \<times> nat) list" where
  "expected_results =
     [(''approval_id'', ''BLOB'', 1, 1), (''result_wire'', ''BLOB'', 1, 0), (''result_digest'', ''BLOB'', 1, 0),
      (''input_identity'', ''BLOB'', 1, 0), (''completion_token_digest'', ''BLOB'', 1, 0), (''completed_at'', ''INTEGER'', 1, 0),
      (''retention_deadline'', ''INTEGER'', 1, 0)]"

definition expected_pairings :: "(string \<times> string \<times> nat \<times> nat) list" where
  "expected_pairings =
     [(''statement_digest'', ''BLOB'', 1, 1), (''approval_id'', ''BLOB'', 1, 0), (''observable_commitment'', ''BLOB'', 1, 0),
      (''network_id'', ''TEXT'', 1, 0), (''consumed_at'', ''INTEGER'', 1, 0)]"

definition SQLITE_SCHEMA_VERSION_GOVERNED_V2 :: int where
  "SQLITE_SCHEMA_VERSION_GOVERNED_V2 = 2"
definition SQLITE_SCHEMA_VERSION_GOVERNED_V3 :: int where
  "SQLITE_SCHEMA_VERSION_GOVERNED_V3 = 3"
definition SQLITE_SCHEMA_VERSION_GOVERNED_V4 :: int where
  "SQLITE_SCHEMA_VERSION_GOVERNED_V4 = 4"

text \<open>The tables every version has, and those of the governed versions.\<close>

definition legacy_layout_ok :: "ledger_db \<Rightarrow> bool" where
  "legacy_layout_ok db \<longleftrightarrow>
     table_shape db ''approval_consumptions'' = expected_consumptions \<and> table_shape db ''ledger_state'' = expected_state \<and>
     is_strict_table db ''approval_consumptions'' 9 \<and> is_strict_table db ''ledger_state'' 2 \<and>
     unique_index_columns db ''approval_consumptions'' =
       {[''approval_id''], [''approver_xonly_public_key'', ''approval_nonce'']}"

definition governed_layout_ok :: "int \<Rightarrow> ledger_db \<Rightarrow> bool" where
  "governed_layout_ok version db \<longleftrightarrow>
     table_shape db ''authority_state'' = expected_authority \<and> is_strict_table db ''authority_state'' 10 \<and>
     table_shape db ''approval_outbox'' =
       (if version = SQLITE_SCHEMA_VERSION_GOVERNED_V3 then expected_outbox_v3 else expected_outbox_v4) \<and>
     is_strict_table db ''approval_outbox'' (if version = SQLITE_SCHEMA_VERSION_GOVERNED_V3 then 7 else 10) \<and>
     unique_index_columns db ''approval_outbox'' = {[''approval_id'']}"

definition results_layout_ok :: "ledger_db \<Rightarrow> bool" where
  "results_layout_ok db \<longleftrightarrow>
     table_shape db ''observable_analysis_results'' = expected_results \<and> is_strict_table db ''observable_analysis_results'' 7 \<and>
     unique_index_columns db ''observable_analysis_results'' = {[''approval_id'']} \<and>
     foreign_key_targets db ''observable_analysis_results'' = {(''approval_consumptions'', ''approval_id'', ''approval_id'')}"

definition pairings_layout_ok :: "ledger_db \<Rightarrow> bool" where
  "pairings_layout_ok db \<longleftrightarrow>
     table_shape db ''threat_hint_v2_pairings'' = expected_pairings \<and> is_strict_table db ''threat_hint_v2_pairings'' 5 \<and>
     unique_index_columns db ''threat_hint_v2_pairings'' =
       {[''statement_digest''], [''approval_id''], [''observable_commitment'']} \<and>
     foreign_key_targets db ''threat_hint_v2_pairings'' = {(''approval_consumptions'', ''approval_id'', ''approval_id'')}"

text \<open>\<open>_validate_schema\<close>. The authority table has at most one row by its key, which the record of rows has built in.\<close>

definition validate_schema :: "bool \<Rightarrow> int \<Rightarrow> ledger_db \<Rightarrow> pyexc + unit" where
  "validate_schema governed governed_version db =
     (if governed \<and> governed_version \<notin> {SQLITE_SCHEMA_VERSION_GOVERNED_V3, SQLITE_SCHEMA_VERSION_GOVERNED_V4,
           SQLITE_SCHEMA_VERSION_GOVERNED}
      then Inl ObservableApprovalConsumptionError
      else if lg_version (db_rows db) \<noteq> (if governed then governed_version else SQLITE_SCHEMA_VERSION_LEGACY) \<or>
              \<not> legacy_layout_ok db
      then Inl ObservableApprovalConsumptionError
      else if governed \<and> \<not> governed_layout_ok governed_version db then Inl ObservableApprovalConsumptionError
      else if governed \<and> governed_version \<in> {SQLITE_SCHEMA_VERSION_GOVERNED_V4, SQLITE_SCHEMA_VERSION_GOVERNED} \<and>
              \<not> results_layout_ok db
      then Inl ObservableApprovalConsumptionError
      else if governed \<and> governed_version = SQLITE_SCHEMA_VERSION_GOVERNED \<and> \<not> pairings_layout_ok db
      then Inl ObservableApprovalConsumptionError
      else Inr ())"

subsection \<open>Creation and upgrade\<close>

definition create_if_missing :: "string \<Rightarrow> table_layout \<Rightarrow> ledger_db \<Rightarrow> ledger_db" where
  "create_if_missing table t db =
     (if db_layout db table = None then db\<lparr>db_layout := (db_layout db)(table \<mapsto> t)\<rparr> else db)"

definition create_legacy_schema :: "ledger_db \<Rightarrow> ledger_db" where
  "create_legacy_schema db =
     (let db' = create_if_missing ''ledger_state'' state_table (create_if_missing ''approval_consumptions'' consumptions_table db)
      in if lg_high_water (db_rows db') = None then db'\<lparr>db_rows := (db_rows db')\<lparr>lg_high_water := Some 0\<rparr>\<rparr> else db')"

definition set_version :: "int \<Rightarrow> ledger_db \<Rightarrow> ledger_db" where
  "set_version v db = db\<lparr>db_rows := (db_rows db)\<lparr>lg_version := v\<rparr>\<rparr>"

text \<open>Tables that a version must not have yet.\<close>

definition premature_table :: "bool \<Rightarrow> int \<Rightarrow> ledger_db \<Rightarrow> bool" where
  "premature_table governed version db \<longleftrightarrow>
     (governed \<and> version \<in> {0, SQLITE_SCHEMA_VERSION_LEGACY} \<and> table_shape db ''authority_state'' \<noteq> []) \<or>
     (governed \<and> version \<notin> {SQLITE_SCHEMA_VERSION_GOVERNED_V3, SQLITE_SCHEMA_VERSION_GOVERNED_V4, SQLITE_SCHEMA_VERSION_GOVERNED} \<and>
      table_shape db ''approval_outbox'' \<noteq> []) \<or>
     (governed \<and> version \<notin> {SQLITE_SCHEMA_VERSION_GOVERNED_V4, SQLITE_SCHEMA_VERSION_GOVERNED} \<and>
      table_shape db ''observable_analysis_results'' \<noteq> []) \<or>
     (version \<noteq> SQLITE_SCHEMA_VERSION_GOVERNED \<and> table_shape db ''threat_hint_v2_pairings'' \<noteq> [])"

text \<open>The two upgrades that look at pending records: an outbox with rows is never dropped or converted. \<open>DROP TABLE\<close> removes
  the table together with its rows.\<close>

definition drop_outbox :: "ledger_db \<Rightarrow> ledger_db" where
  "drop_outbox db =
     db\<lparr>db_layout := (db_layout db)(''approval_outbox'' := None), db_rows := (db_rows db)\<lparr>lg_outbox := []\<rparr>\<rparr>"

definition upgrade_v3 :: "ledger_db \<Rightarrow> pyexc + ledger_db" where
  "upgrade_v3 db =
     rbind (validate_schema True SQLITE_SCHEMA_VERSION_GOVERNED_V3 db) (\<lambda>_.
     if lg_outbox (db_rows db) \<noteq> [] then Inl ObservableApprovalConsumptionError
     else Inr (drop_outbox db))"

definition upgrade_v4 :: "ledger_db \<Rightarrow> pyexc + ledger_db" where
  "upgrade_v4 db =
     rbind (validate_schema True SQLITE_SCHEMA_VERSION_GOVERNED_V4 db) (\<lambda>_.
     if lg_outbox (db_rows db) \<noteq> [] \<or> lg_results (db_rows db) \<noteq> [] then Inl ObservableApprovalConsumptionError
     else Inr db)"

definition create_governed_schema :: "ledger_db \<Rightarrow> ledger_db" where
  "create_governed_schema db =
     set_version SQLITE_SCHEMA_VERSION_GOVERNED
       (create_if_missing ''threat_hint_v2_pairings'' pairings_table
         (create_if_missing ''observable_analysis_results'' results_table
           (create_if_missing ''approval_outbox'' outbox_table
             (create_if_missing ''authority_state'' authority_table db))))"

text \<open>The ends of \<open>_initialize_schema\<close> with and without governance.\<close>

definition finish_governed :: "int \<Rightarrow> ledger_db \<Rightarrow> pyexc + ledger_db" where
  "finish_governed version db =
     (if version = SQLITE_SCHEMA_VERSION_GOVERNED
      then rbind (validate_schema True SQLITE_SCHEMA_VERSION_GOVERNED db) (\<lambda>_. Inr db)
      else rbind (if version = SQLITE_SCHEMA_VERSION_GOVERNED_V3 then upgrade_v3 db
                  else if version = SQLITE_SCHEMA_VERSION_GOVERNED_V4 then upgrade_v4 db
                  else Inr db) (\<lambda>db'.
           rbind (validate_schema True SQLITE_SCHEMA_VERSION_GOVERNED (create_governed_schema db')) (\<lambda>_.
           Inr (create_governed_schema db'))))"

definition finish_legacy :: "ledger_db \<Rightarrow> pyexc + ledger_db" where
  "finish_legacy db =
     (let db' = set_version SQLITE_SCHEMA_VERSION_LEGACY db
      in rbind (validate_schema False SQLITE_SCHEMA_VERSION_GOVERNED db') (\<lambda>_. Inr db'))"

definition known_versions :: "bool \<Rightarrow> int set" where
  "known_versions governed =
     (if governed then {0, SQLITE_SCHEMA_VERSION_LEGACY, SQLITE_SCHEMA_VERSION_GOVERNED_V2,
        SQLITE_SCHEMA_VERSION_GOVERNED_V3, SQLITE_SCHEMA_VERSION_GOVERNED_V4, SQLITE_SCHEMA_VERSION_GOVERNED}
      else {0, SQLITE_SCHEMA_VERSION_LEGACY})"

definition initialize_schema :: "bool \<Rightarrow> ledger_db \<Rightarrow> pyexc + ledger_db" where
  "initialize_schema governed db =
     (let version = lg_version (db_rows db)
      in if version \<notin> known_versions governed then Inl ObservableApprovalConsumptionError
         else rbind (if version = SQLITE_SCHEMA_VERSION_LEGACY then validate_schema False SQLITE_SCHEMA_VERSION_GOVERNED db
                     else Inr ()) (\<lambda>_.
              if premature_table governed version db then Inl ObservableApprovalConsumptionError
              else let db' = (if version = 0 then create_legacy_schema db else db)
                   in if governed then finish_governed version db' else finish_legacy db'))"

subsection \<open>The path of the ledger\<close>

datatype lstat_answer = Lstat stat_result | LstatMissing | LstatError

text \<open>What the operating system answers for the ledger path: the status of the resolved parent, whether the parent and
  the name give the path itself, the status of the path, and whether creating the file succeeds.\<close>

record ledger_path_view =
  pv_parent :: "stat_result option"
  pv_same :: bool
  pv_current :: lstat_answer
  pv_created :: bool

definition owner_only_mode :: "nat \<Rightarrow> bool" where
  "owner_only_mode mode \<longleftrightarrow> mode AND 127 = 0 \<and> mode AND 384 = 384"

definition prepare_ledger_path :: "nat \<Rightarrow> pystr list \<Rightarrow> ledger_path_view \<Rightarrow> pyexc + pystr list" where
  "prepare_ledger_path uid path p =
     (if path = [] \<or> last path = u ''..'' then Inl ObservableApprovalConsumptionError
      else case pv_parent p of
             None \<Rightarrow> Inl ObservableApprovalConsumptionError
           | Some parent \<Rightarrow>
               (if \<not> pv_same p \<or> \<not> S_ISDIR (st_mode parent) \<or> st_uid parent \<noteq> uid \<or> group_world (st_mode parent)
                then Inl ObservableApprovalConsumptionError
                else case pv_current p of
                       LstatMissing \<Rightarrow> (if pv_created p then Inr path else Inl ObservableApprovalConsumptionError)
                     | LstatError \<Rightarrow> Inl ObservableApprovalConsumptionError
                     | Lstat current \<Rightarrow>
                         (if \<not> S_ISREG (st_mode current) \<or> st_uid current \<noteq> uid \<or> \<not> owner_only_mode (st_mode current)
                          then Inl ObservableApprovalConsumptionError else Inr path)))"

text \<open>\<open>_ObservableApprovalLedger.__init__\<close>; an error rolls the database back.\<close>

definition open_ledger ::
  "nat \<Rightarrow> db_status \<Rightarrow> pystr list \<Rightarrow> ledger_path_view \<Rightarrow> bool \<Rightarrow> bool \<Rightarrow> ledger_db \<Rightarrow> pyexc + ledger_db" where
  "open_ledger uid st path p governed durable_outbox db =
     (if durable_outbox \<and> \<not> governed then Inl ObservableApprovalConsumptionError
      else rbind (prepare_ledger_path uid path p) (\<lambda>_.
           if st \<noteq> DbOk then Inl (status_error ObservableApprovalConsumptionError st)
           else initialize_schema governed db))"

subsection \<open>What opening does\<close>

lemmas schema_versions =
  SQLITE_SCHEMA_VERSION_LEGACY_def SQLITE_SCHEMA_VERSION_GOVERNED_V2_def SQLITE_SCHEMA_VERSION_GOVERNED_V3_def
  SQLITE_SCHEMA_VERSION_GOVERNED_V4_def SQLITE_SCHEMA_VERSION_GOVERNED_def

text \<open>The rows that opening must keep.\<close>

definition rows_kept :: "ledger \<Rightarrow> ledger \<Rightarrow> bool" where
  "rows_kept L L' \<longleftrightarrow>
     lg_consumptions L' = lg_consumptions L \<and> lg_authority L' = lg_authority L \<and> lg_outbox L' = lg_outbox L \<and>
     lg_results L' = lg_results L \<and> lg_pairings L' = lg_pairings L \<and>
     (\<forall>h. lg_high_water L = Some h \<longrightarrow> lg_high_water L' = Some h)"

lemma rows_kept_refl [simp]: "rows_kept L L"
  by (simp add: rows_kept_def)

lemma rows_kept_trans: "rows_kept L L' \<Longrightarrow> rows_kept L' L'' \<Longrightarrow> rows_kept L L''"
  by (auto simp: rows_kept_def)

text \<open>What holds of every SQLite file: a table has columns, and only a table has rows.\<close>

definition rows_in_tables :: "ledger_db \<Rightarrow> bool" where
  "rows_in_tables db \<longleftrightarrow>
     (\<forall>n t. db_layout db n = Some t \<longrightarrow> tl_columns t \<noteq> []) \<and>
     (db_layout db ''approval_consumptions'' = None \<longrightarrow> lg_consumptions (db_rows db) = []) \<and>
     (db_layout db ''ledger_state'' = None \<longrightarrow> lg_high_water (db_rows db) = None) \<and>
     (db_layout db ''authority_state'' = None \<longrightarrow> lg_authority (db_rows db) = None) \<and>
     (db_layout db ''approval_outbox'' = None \<longrightarrow> lg_outbox (db_rows db) = []) \<and>
     (db_layout db ''observable_analysis_results'' = None \<longrightarrow> lg_results (db_rows db) = []) \<and>
     (db_layout db ''threat_hint_v2_pairings'' = None \<longrightarrow> lg_pairings (db_rows db) = [])"

lemma no_shape_no_table: "rows_in_tables db \<Longrightarrow> table_shape db n = [] \<longleftrightarrow> db_layout db n = None"
  by (auto simp: rows_in_tables_def table_shape_def split: option.splits)

lemma create_if_missing_tables:
  "rows_in_tables db \<Longrightarrow> tl_columns t \<noteq> [] \<Longrightarrow> rows_in_tables (create_if_missing n t db)"
  by (simp add: rows_in_tables_def create_if_missing_def)

lemma table_columns [simp]:
  "tl_columns consumptions_table \<noteq> []" "tl_columns state_table \<noteq> []" "tl_columns authority_table \<noteq> []"
  "tl_columns outbox_table \<noteq> []" "tl_columns results_table \<noteq> []" "tl_columns pairings_table \<noteq> []"
  by (simp_all add: consumptions_table_def state_table_def authority_table_def outbox_table_def results_table_def
      pairings_table_def create_table_def)

lemma set_version_tables: "rows_in_tables (set_version v db) = rows_in_tables db"
  by (simp add: rows_in_tables_def set_version_def)

lemma create_legacy_tables:
  assumes "rows_in_tables db"
  shows "rows_in_tables (create_legacy_schema db)"
proof -
  define d where "d = create_if_missing ''ledger_state'' state_table (create_if_missing ''approval_consumptions'' consumptions_table db)"
  have "rows_in_tables d" using assms by (simp add: d_def create_if_missing_tables)
  moreover have "db_layout d ''ledger_state'' \<noteq> None" by (simp add: d_def create_if_missing_def)
  ultimately show ?thesis by (auto simp: create_legacy_schema_def Let_def rows_in_tables_def simp flip: d_def)
qed

lemma create_governed_tables: "rows_in_tables db \<Longrightarrow> rows_in_tables (create_governed_schema db)"
  by (simp add: create_governed_schema_def set_version_tables create_if_missing_tables)

lemma drop_outbox_tables: "rows_in_tables db \<Longrightarrow> rows_in_tables (drop_outbox db)"
  by (simp add: rows_in_tables_def drop_outbox_def)

lemma create_if_missing_rows [simp]: "db_rows (create_if_missing n t db) = db_rows db"
  by (simp add: create_if_missing_def)

lemma create_legacy_rows: "rows_kept (db_rows db) (db_rows (create_legacy_schema db))"
  by (simp add: create_legacy_schema_def Let_def rows_kept_def)

lemma set_version_rows: "rows_kept (db_rows db) (db_rows (set_version v db))"
  by (simp add: set_version_def rows_kept_def)

lemma create_governed_rows: "rows_kept (db_rows db) (db_rows (create_governed_schema db))"
  unfolding create_governed_schema_def by (rule rows_kept_trans [OF _ set_version_rows]) simp

lemma upgrade_rows:
  "upgrade_v3 db = Inr db' \<Longrightarrow> db_rows db' = db_rows db" "upgrade_v4 db = Inr db' \<Longrightarrow> db' = db"
  by (auto simp: upgrade_v3_def upgrade_v4_def drop_outbox_def split: if_splits)

text \<open>What the upgrades refuse: they succeed only when nothing is pending.\<close>

lemma upgrade_guards:
  "upgrade_v3 db = Inr db' \<Longrightarrow> lg_outbox (db_rows db) = []"
  "upgrade_v4 db = Inr db' \<Longrightarrow> lg_outbox (db_rows db) = [] \<and> lg_results (db_rows db) = []"
  by (auto simp: upgrade_v3_def upgrade_v4_def split: if_splits)

lemma upgrade_tables:
  "upgrade_v3 db = Inr db' \<Longrightarrow> rows_in_tables db \<Longrightarrow> rows_in_tables db'"
  by (auto simp: upgrade_v3_def intro: drop_outbox_tables split: if_splits)

lemma table_shape_layout:
  "db_layout db' n = db_layout db n \<Longrightarrow> table_shape db' n = table_shape db n"
  by (simp add: table_shape_def)

text \<open>The layout of pairings is untouched by the legacy schema.\<close>

lemma legacy_pairings [simp]:
  "table_shape (set_version v db) n = table_shape db n"
  "table_shape (create_legacy_schema db) ''threat_hint_v2_pairings'' = table_shape db ''threat_hint_v2_pairings''"
  by (simp_all add: table_shape_def set_version_def create_legacy_schema_def create_if_missing_def Let_def)

lemma set_version_version [simp]: "lg_version (db_rows (set_version v db)) = v"
  by (simp add: set_version_def)

lemma set_version_same: "lg_version (db_rows db) = v \<Longrightarrow> set_version v db = db"
  by (simp add: set_version_def)

lemma initialize_schemaD:
  assumes "initialize_schema governed db = Inr db'"
  obtains db1 where "\<not> premature_table governed (lg_version (db_rows db)) db" "rows_kept (db_rows db) (db_rows db1)"
    "table_shape db1 ''threat_hint_v2_pairings'' = table_shape db ''threat_hint_v2_pairings''"
    "(if governed then finish_governed (lg_version (db_rows db)) db1 else finish_legacy db1) = Inr db'"
    "lg_version (db_rows db) \<in> known_versions governed" "rows_in_tables db \<Longrightarrow> rows_in_tables db1"
proof -
  let ?d = "if lg_version (db_rows db) = 0 then create_legacy_schema db else db"
  have "\<not> premature_table governed (lg_version (db_rows db)) db" "lg_version (db_rows db) \<in> known_versions governed"
    "(if governed then finish_governed (lg_version (db_rows db)) ?d else finish_legacy ?d) = Inr db'"
    using assms unfolding initialize_schema_def Let_def by (simp_all split: if_split_asm)
  moreover have "rows_kept (db_rows db) (db_rows ?d)" using create_legacy_rows by simp
  moreover have "table_shape ?d ''threat_hint_v2_pairings'' = table_shape db ''threat_hint_v2_pairings''" by simp
  moreover have "rows_in_tables ?d" if "rows_in_tables db" using that create_legacy_tables by simp
  ultimately show ?thesis using that by blast
qed

lemma initialize_legacy:
  assumes "initialize_schema False db = Inr db'"
  shows "validate_schema False SQLITE_SCHEMA_VERSION_GOVERNED db' = Inr () \<and> rows_kept (db_rows db) (db_rows db') \<and>
    table_shape db' ''threat_hint_v2_pairings'' = [] \<and> lg_version (db_rows db') = 1 \<and>
    (rows_in_tables db \<longrightarrow> rows_in_tables db')"
proof -
  obtain db1 where d: "\<not> premature_table False (lg_version (db_rows db)) db" "rows_kept (db_rows db) (db_rows db1)"
    "table_shape db1 ''threat_hint_v2_pairings'' = table_shape db ''threat_hint_v2_pairings''" "finish_legacy db1 = Inr db'"
    "lg_version (db_rows db) \<in> known_versions False" "rows_in_tables db \<longrightarrow> rows_in_tables db1"
    using initialize_schemaD [OF assms] by (metis (full_types))
  then have "validate_schema False SQLITE_SCHEMA_VERSION_GOVERNED (set_version 1 db1) = Inr () \<and> set_version 1 db1 = db'"
    by (auto simp: finish_legacy_def Let_def schema_versions)
  then have r: "db' = set_version 1 db1" "validate_schema False SQLITE_SCHEMA_VERSION_GOVERNED (set_version 1 db1) = Inr ()"
    by blast+
  have "table_shape db ''threat_hint_v2_pairings'' = []"
    using d(1,5) by (auto simp: premature_table_def known_versions_def schema_versions)
  then show ?thesis using d(3,6) r(2) rows_kept_trans [OF d(2) set_version_rows] by (simp add: r(1) set_version_tables)
qed

lemma initialize_governed:
  assumes "initialize_schema True db = Inr db'"
  shows "validate_schema True SQLITE_SCHEMA_VERSION_GOVERNED db' = Inr () \<and> rows_kept (db_rows db) (db_rows db') \<and>
    (rows_in_tables db \<longrightarrow> rows_in_tables db') \<and>
    (lg_version (db_rows db) = 3 \<longrightarrow> lg_outbox (db_rows db) = []) \<and>
    (lg_version (db_rows db) = 4 \<longrightarrow> lg_outbox (db_rows db) = [] \<and> lg_results (db_rows db) = [])"
proof -
  let ?v = "lg_version (db_rows db)"
  obtain db1 where d: "rows_kept (db_rows db) (db_rows db1)" "finish_governed ?v db1 = Inr db'"
    "rows_in_tables db \<longrightarrow> rows_in_tables db1"
    using initialize_schemaD [OF assms] by (metis (full_types))
  show ?thesis
  proof (cases "?v = SQLITE_SCHEMA_VERSION_GOVERNED")
    case True
    with d(2) have "validate_schema True SQLITE_SCHEMA_VERSION_GOVERNED db1 = Inr () \<and> db1 = db'"
      by (auto simp: finish_governed_def)
    with d(1,3) True show ?thesis by (auto simp: schema_versions)
  next
    case False
    define X where "X = (if ?v = SQLITE_SCHEMA_VERSION_GOVERNED_V3 then upgrade_v3 db1
        else if ?v = SQLITE_SCHEMA_VERSION_GOVERNED_V4 then upgrade_v4 db1 else Inr db1)"
    have "rbind X (\<lambda>db'. rbind (validate_schema True SQLITE_SCHEMA_VERSION_GOVERNED (create_governed_schema db')) (\<lambda>_.
        Inr (create_governed_schema db'))) = Inr db'"
      using d(2) unfolding finish_governed_def if_not_P [OF False] X_def .
    then obtain db2 where u: "X = Inr db2"
      and e: "validate_schema True SQLITE_SCHEMA_VERSION_GOVERNED (create_governed_schema db2) = Inr ()"
        "create_governed_schema db2 = db'"
      by auto
    have x: "db_rows db2 = db_rows db1" "rows_in_tables db1 \<longrightarrow> rows_in_tables db2"
      "?v = 3 \<longrightarrow> lg_outbox (db_rows db1) = []" "?v = 4 \<longrightarrow> lg_outbox (db_rows db1) = [] \<and> lg_results (db_rows db1) = []"
      using u upgrade_rows [of db1 db2] upgrade_guards [of db1 db2] upgrade_tables [of db1 db2] unfolding X_def
      by (simp_all add: schema_versions split: if_split_asm)
    have "rows_kept (db_rows db) (db_rows db')"
      using rows_kept_trans [OF d(1)] create_governed_rows [of db2] e(2) x(1) by simp
    moreover have "rows_in_tables db \<longrightarrow> rows_in_tables db'" using d(3) x(2) create_governed_tables [of db2] e(2) by simp
    ultimately show ?thesis using e x(3,4) d(1) by (simp add: rows_kept_def)
  qed
qed

text \<open>A file of an older version has no pairings, and nothing pending or completed when it is upgraded.\<close>

lemma upgraded_nothing_pending:
  assumes "initialize_schema True db = Inr db'" and "rows_in_tables db" and "lg_version (db_rows db) \<noteq> 5"
  shows "lg_outbox (db_rows db') = [] \<and> lg_results (db_rows db') = [] \<and> lg_pairings (db_rows db') = []"
proof -
  let ?v = "lg_version (db_rows db)"
  have p: "\<not> premature_table True ?v db" using initialize_schemaD [OF assms(1)] by (metis (full_types))
  note g = initialize_governed [OF assms(1)]
  have none: "lg_pairings (db_rows db) = []" "?v \<noteq> 4 \<Longrightarrow> lg_results (db_rows db) = []"
    "?v \<noteq> 3 \<Longrightarrow> ?v \<noteq> 4 \<Longrightarrow> lg_outbox (db_rows db) = []"
    using p assms(2,3) no_shape_no_table [OF assms(2)]
    by (auto simp: premature_table_def schema_versions rows_in_tables_def)
  then have "lg_outbox (db_rows db) = [] \<and> lg_results (db_rows db) = [] \<and> lg_pairings (db_rows db) = []"
    using g by metis
  then show ?thesis using g by (simp add: rows_kept_def)
qed

text \<open>A new file: no tables, and version 0.\<close>

definition empty_db :: ledger_db where
  "empty_db =
     \<lparr>db_layout = Map.empty,
      db_rows = \<lparr>lg_version = 0, lg_consumptions = [], lg_high_water = None, lg_authority = None, lg_outbox = [],
                 lg_results = [], lg_pairings = []\<rparr>\<rparr>"

lemmas layout_defs =
  create_table_def column_shape_def column_indexes_def primary_key_def nullable_def column_def consumptions_table_def
  state_table_def authority_table_def outbox_table_def results_table_def pairings_table_def

lemmas layout_tests =
  table_shape_def is_strict_table_def unique_index_columns_def foreign_key_targets_def expected_consumptions_def
  expected_state_def expected_authority_def expected_outbox_v4_def expected_results_def expected_pairings_def

text \<open>The tables that a governed file is created with.\<close>

definition governed_tables :: "string \<rightharpoonup> table_layout" where
  "governed_tables =
     [''approval_consumptions'' \<mapsto> consumptions_table, ''ledger_state'' \<mapsto> state_table, ''authority_state'' \<mapsto> authority_table,
      ''approval_outbox'' \<mapsto> outbox_table, ''observable_analysis_results'' \<mapsto> results_table,
      ''threat_hint_v2_pairings'' \<mapsto> pairings_table]"

lemma governed_tables_valid:
  assumes "lg_version L = 5"
  shows "validate_schema True SQLITE_SCHEMA_VERSION_GOVERNED \<lparr>db_layout = governed_tables, db_rows = L\<rparr> = Inr ()"
proof -
  let ?d = "\<lparr>db_layout = governed_tables, db_rows = L\<rparr>"
  have "legacy_layout_ok ?d" by (simp add: legacy_layout_ok_def governed_tables_def layout_tests layout_defs)
  moreover have "governed_layout_ok 5 ?d"
    by (simp add: governed_layout_ok_def governed_tables_def layout_tests layout_defs schema_versions)
  moreover have "results_layout_ok ?d" by (simp add: results_layout_ok_def governed_tables_def layout_tests layout_defs)
  moreover have "pairings_layout_ok ?d"
    by (auto simp: pairings_layout_ok_def governed_tables_def layout_tests layout_defs)
  ultimately show ?thesis using assms by (simp add: validate_schema_def schema_versions)
qed

lemma fresh_ledger: "initialize_schema True empty_db = Inr \<lparr>db_layout = governed_tables, db_rows = new_ledger\<rparr>"
proof -
  have "create_governed_schema (create_legacy_schema empty_db) = \<lparr>db_layout = governed_tables, db_rows = new_ledger\<rparr>"
    by (simp add: create_governed_schema_def create_legacy_schema_def create_if_missing_def set_version_def empty_db_def
        governed_tables_def new_ledger_def schema_versions Let_def)
  moreover have "\<not> premature_table True 0 empty_db" by (simp add: premature_table_def table_shape_def empty_db_def)
  moreover have "lg_version (db_rows empty_db) = 0" by (simp add: empty_db_def)
  ultimately show ?thesis using governed_tables_valid [of new_ledger]
    by (simp add: initialize_schema_def finish_governed_def known_versions_def Let_def schema_versions) (simp add: new_ledger_def)
qed

text \<open>C37. Opening the ledger is safe: when the schema step succeeds, the file passes the full layout validation, every
  consumption, pairing, pending record, result and the authority row of the old file is still there unchanged and the high
  water mark is kept, although the upgrade of version 3 drops the outbox table with its rows; and opening the resulting
  file again changes nothing. An upgrade to the governed version happens only when nothing is pending, completed or paired,
  so that the upgraded ledger satisfies the ledger invariant iff its consumptions do. A new file opened with governance
  is exactly the empty ledger from which the reachable ledgers start.\<close>

theorem ledger_open_safe:
  assumes "initialize_schema governed db = Inr db'"
  shows "validate_schema governed SQLITE_SCHEMA_VERSION_GOVERNED db' = Inr () \<and> rows_kept (db_rows db) (db_rows db') \<and>
    initialize_schema governed db' = Inr db' \<and>
    (rows_in_tables db \<longrightarrow> rows_in_tables db' \<and>
       (governed \<and> lg_version (db_rows db) \<noteq> 5 \<longrightarrow>
          lg_outbox (db_rows db') = [] \<and> lg_results (db_rows db') = [] \<and> lg_pairings (db_rows db') = [] \<and>
          (ledger_inv E (db_rows db') \<longleftrightarrow> consumptions_inv (db_rows db')))) \<and>
    (\<exists>d. initialize_schema True empty_db = Inr d \<and> db_rows d = new_ledger)"
proof -
  have f: "\<exists>d. initialize_schema True empty_db = Inr d \<and> db_rows d = new_ledger" by (simp add: fresh_ledger)
  show ?thesis
  proof (cases governed)
    case True
    then have k: "validate_schema True SQLITE_SCHEMA_VERSION_GOVERNED db' = Inr ()" "rows_kept (db_rows db) (db_rows db')"
        "rows_in_tables db \<longrightarrow> rows_in_tables db'"
      using initialize_governed [of db db'] assms by simp_all
    then have "lg_version (db_rows db') = 5" by (auto simp: validate_schema_def schema_versions split: if_splits)
    then have "initialize_schema True db' = Inr db'"
      using k(1) by (simp add: initialize_schema_def finish_governed_def known_versions_def Let_def premature_table_def schema_versions)
    moreover have "ledger_inv E L \<longleftrightarrow> consumptions_inv L" if "lg_outbox L = []" "lg_results L = []" "lg_pairings L = []" for L
      using that by (simp add: ledger_inv_def pairings_inv_def outbox_inv_def)
    ultimately show ?thesis using True k f upgraded_nothing_pending [of db db'] assms by simp
  next
    case False
    then have k: "validate_schema False SQLITE_SCHEMA_VERSION_GOVERNED db' = Inr ()" "rows_kept (db_rows db) (db_rows db')"
        "table_shape db' ''threat_hint_v2_pairings'' = []" "lg_version (db_rows db') = 1" "rows_in_tables db \<longrightarrow> rows_in_tables db'"
      using initialize_legacy [of db db'] assms by simp_all
    then have "initialize_schema False db' = Inr db'"
      by (simp add: initialize_schema_def finish_legacy_def known_versions_def Let_def premature_table_def schema_versions
          set_version_same)
    then show ?thesis using False k f by simp
  qed
qed

subsection \<open>A file of version 3\<close>

definition ex_outbox_v3 :: table_layout where
  "ex_outbox_v3 =
     create_table
       [primary_key ''approval_id'' ''BLOB'', column ''observable_commitment'' ''BLOB'', column ''bundle_wire'' ''BLOB'',
        column ''enqueued_at'' ''INTEGER'', column ''retention_deadline'' ''INTEGER'', nullable ''lease_token'' ''BLOB'',
        nullable ''lease_expires_at'' ''INTEGER''] []"

definition ex_consumption :: consumption_row where
  "ex_consumption =
     \<lparr>cr_approval_id = replicate 32 1, cr_approver_xonly_public_key = replicate 32 2, cr_approval_nonce = replicate 32 3,
      cr_observable_commitment = replicate 32 4, cr_recipient_scope = replicate 32 5, cr_network_id = u ''mainnet'',
      cr_not_before = 1, cr_expires_at = 9, cr_consumed_at = 5\<rparr>"

definition ex_db_v3 :: "outbox_row list \<Rightarrow> ledger_db" where
  "ex_db_v3 pending =
     \<lparr>db_layout =
        [''approval_consumptions'' \<mapsto> consumptions_table, ''ledger_state'' \<mapsto> state_table,
         ''authority_state'' \<mapsto> authority_table, ''approval_outbox'' \<mapsto> ex_outbox_v3],
      db_rows = \<lparr>lg_version = 3, lg_consumptions = [ex_consumption], lg_high_water = Some 5, lg_authority = None,
                 lg_outbox = pending, lg_results = [], lg_pairings = []\<rparr>\<rparr>"

definition ex_db_v5 :: ledger_db where
  "ex_db_v5 = \<lparr>db_layout = governed_tables, db_rows = (db_rows (ex_db_v3 []))\<lparr>lg_version := 5\<rparr>\<rparr>"

lemma ex_v3_valid: "validate_schema True SQLITE_SCHEMA_VERSION_GOVERNED_V3 (ex_db_v3 pending) = Inr ()"
proof -
  have "legacy_layout_ok (ex_db_v3 pending)" by (simp add: legacy_layout_ok_def ex_db_v3_def layout_tests layout_defs)
  moreover have "governed_layout_ok 3 (ex_db_v3 pending)"
    by (simp add: governed_layout_ok_def ex_db_v3_def ex_outbox_v3_def layout_tests expected_outbox_v3_def layout_defs
        schema_versions)
  ultimately show ?thesis by (simp add: validate_schema_def ex_db_v3_def schema_versions)
qed

lemma ex_v3_rows [simp]: "lg_version (db_rows (ex_db_v3 pending)) = 3" "lg_outbox (db_rows (ex_db_v3 pending)) = pending"
  by (simp_all add: ex_db_v3_def)

lemma ex_v3_initialize:
  "initialize_schema True (ex_db_v3 pending) = (if pending = [] then Inr ex_db_v5 else Inl ObservableApprovalConsumptionError)"
proof -
  have v: "validate_schema True 3 (ex_db_v3 pending) = Inr ()"
    using ex_v3_valid by (simp add: SQLITE_SCHEMA_VERSION_GOVERNED_V3_def)
  have "\<not> premature_table True 3 (ex_db_v3 pending)"
    by (simp add: premature_table_def table_shape_def ex_db_v3_def schema_versions)
  then have i: "initialize_schema True (ex_db_v3 pending) =
      rbind (if pending = [] then Inr (drop_outbox (ex_db_v3 pending)) else Inl ObservableApprovalConsumptionError) (\<lambda>db'.
      rbind (validate_schema True 5 (create_governed_schema db')) (\<lambda>_. Inr (create_governed_schema db')))"
    using v by (simp add: initialize_schema_def finish_governed_def upgrade_v3_def known_versions_def Let_def schema_versions)
  have "create_governed_schema (drop_outbox (ex_db_v3 [])) = ex_db_v5"
    by (simp add: create_governed_schema_def drop_outbox_def create_if_missing_def set_version_def ex_db_v3_def ex_db_v5_def
        schema_versions) (rule ext, simp add: governed_tables_def)
  moreover have "validate_schema True 5 ex_db_v5 = Inr ()"
    using governed_tables_valid unfolding ex_db_v5_def SQLITE_SCHEMA_VERSION_GOVERNED_def by simp
  ultimately show ?thesis using i by simp
qed

text \<open>Without pending records the file is upgraded, keeps its consumption and satisfies the invariant; with a pending record
  the upgrade is refused.\<close>

theorem ledger_open_safe_witness:
  "initialize_schema True (ex_db_v3 []) = Inr ex_db_v5 \<and> lg_consumptions (db_rows ex_db_v5) = [ex_consumption] \<and>
   initialize_schema True ex_db_v5 = Inr ex_db_v5 \<and> ledger_inv ex_env (db_rows ex_db_v5) \<and>
   (\<forall>r. initialize_schema True (ex_db_v3 [r]) = Inl ObservableApprovalConsumptionError)"
proof -
  have i: "initialize_schema True (ex_db_v3 []) = Inr ex_db_v5" by (simp add: ex_v3_initialize)
  have t: "rows_in_tables (ex_db_v3 [])"
    by (auto simp: rows_in_tables_def ex_db_v3_def ex_outbox_v3_def create_table_def split: if_splits)
  have "lg_version (db_rows (ex_db_v3 [])) \<noteq> 5" "lg_consumptions (db_rows (ex_db_v3 [])) = [ex_consumption]"
    by (simp_all add: ex_db_v3_def)
  moreover have "consumptions_inv (db_rows ex_db_v5)"
    by (simp add: consumptions_inv_def ex_db_v5_def ex_db_v3_def ex_consumption_def)
  ultimately show ?thesis
    using ledger_open_safe [OF i, of ex_env] t i by (simp add: rows_kept_def ex_v3_initialize)
qed

end
