(* ===== verification/Hint_V1.thy ===== *)
theory Hint_V1
  imports Guardian_Analysis Ledger_Schema Py_Frame
begin

text \<open>
  Version 1 threat hints (\<open>jaeger/threat_hint_ingress.py\<close>): the canonical hint, acknowledgements, the replay ledger with
  its outbox, and the processing of one frame. The proof verifier is an argument; so is what SQLite answers when a
  connection is opened (\<open>db_status\<close>).
\<close>

subsection \<open>Hints\<close>

definition MAX_THREAT_HINT_WIRE_BYTES :: nat where
  "MAX_THREAT_HINT_WIRE_BYTES = 2048"
definition MAX_HINT_AGE_SECONDS :: int where
  "MAX_HINT_AGE_SECONDS = 300"
definition MAX_FUTURE_SKEW_SECONDS :: int where
  "MAX_FUTURE_SKEW_SECONDS = 30"
definition MAX_SQLITE_INT :: int where
  "MAX_SQLITE_INT = 2 ^ 63 - 1"
definition indicator_types :: "pystr list" where
  "indicator_types = map u [''file_hash'', ''behavior'', ''network'', ''api_call'']"
definition proof_systems :: "pystr list" where
  "proof_systems = map u [''groth16_kip16_v1'', ''development_stub_v1'']"

record CanonicalThreatHint =
  ch_schema_version :: int
  ch_threat_hash :: pystr
  ch_confidence_bps :: int
  ch_indicator_type :: pystr
  ch_proof_system :: pystr
  ch_proof :: pystr
  ch_report_nonce :: pystr
  ch_observed_at :: int

definition hint_fields :: "string list" where
  "hint_fields =
     [''schema_version'', ''threat_hash'', ''confidence_bps'', ''indicator_type'', ''proof_system'', ''proof'',
      ''report_nonce'', ''observed_at'']"

definition is_v1_timestamp :: "int \<Rightarrow> bool" where
  "is_v1_timestamp t \<longleftrightarrow> 0 < t \<and> t \<le> MAX_SQLITE_INT"

text \<open>\<open>(?:[0-9a-f]{2}){1,1024}\<close>\<close>

definition is_hex_proof :: "pystr \<Rightarrow> bool" where
  "is_hex_proof s \<longleftrightarrow> is_lower_hex (length s) s \<and> even (length s) \<and> 2 \<le> length s \<and> length s \<le> 2048"

text \<open>\<open>value in {...}\<close> for a set of texts: unhashable values raise.\<close>

definition member_of :: "pystr list \<Rightarrow> pyval \<Rightarrow> pyexc + unit" where
  "member_of texts v =
     (if \<not> py_hashable v then Inl TypeError
      else raise_if (v \<notin> PStr ` set texts) ThreatHintIngressError)"

text \<open>\<open>_validate\<close> on the fields of a decoded object, with the validated hint.\<close>

definition validate_hint :: "(pystr \<times> pyval) list \<Rightarrow> pyexc + CanonicalThreatHint" where
  "validate_hint d =
     rbind (raise_if (dict_at d ''schema_version'' \<noteq> PInt 1) ThreatHintIngressError) (\<lambda>_.
     rbind (raise_if (\<not> is_hex_val 64 (dict_at d ''threat_hash'')) ThreatHintIngressError) (\<lambda>_.
     rbind (raise_if (\<not> int_in 1 10000 (dict_at d ''confidence_bps'')) ThreatHintIngressError) (\<lambda>_.
     rbind (member_of indicator_types (dict_at d ''indicator_type'')) (\<lambda>_.
     rbind (member_of proof_systems (dict_at d ''proof_system'')) (\<lambda>_.
     rbind (raise_if (\<not> (is_str (dict_at d ''proof'') \<and> is_hex_proof (the_str (dict_at d ''proof'')))) ThreatHintIngressError) (\<lambda>_.
     rbind (raise_if (\<not> is_hex_val 64 (dict_at d ''report_nonce'')) ThreatHintIngressError) (\<lambda>_.
     rbind (raise_if (\<not> int_in 1 MAX_SQLITE_INT (dict_at d ''observed_at'')) ThreatHintIngressError) (\<lambda>_.
     Inr \<lparr>ch_schema_version = the_int (dict_at d ''schema_version''), ch_threat_hash = the_str (dict_at d ''threat_hash''),
          ch_confidence_bps = the_int (dict_at d ''confidence_bps''),
          ch_indicator_type = the_str (dict_at d ''indicator_type''), ch_proof_system = the_str (dict_at d ''proof_system''),
          ch_proof = the_str (dict_at d ''proof''), ch_report_nonce = the_str (dict_at d ''report_nonce''),
          ch_observed_at = the_int (dict_at d ''observed_at'')\<rparr>))))))))"

definition hint_items :: "CanonicalThreatHint \<Rightarrow> (pystr \<times> pyval) list" where
  "hint_items h =
     [(u ''schema_version'', PInt (ch_schema_version h)), (u ''threat_hash'', PStr (ch_threat_hash h)),
      (u ''confidence_bps'', PInt (ch_confidence_bps h)), (u ''indicator_type'', PStr (ch_indicator_type h)),
      (u ''proof_system'', PStr (ch_proof_system h)), (u ''proof'', PStr (ch_proof h)),
      (u ''report_nonce'', PStr (ch_report_nonce h)), (u ''observed_at'', PInt (ch_observed_at h))]"

definition hint_to_wire :: "CanonicalThreatHint \<Rightarrow> bytes" where
  "hint_to_wire h = ascii_json (PDict (hint_items h))"

definition hint_from_wire :: "py_env \<Rightarrow> bytes \<Rightarrow> pyexc + CanonicalThreatHint" where
  "hint_from_wire E wire =
     (if \<not> (0 < length wire \<and> length wire \<le> MAX_THREAT_HINT_WIRE_BYTES) then Inl ThreatHintIngressError
      else rbind (catch (loads_ascii E ThreatHintIngressError wire)
                    (\<lambda>e. e \<in> {UnicodeDecodeError, JSONDecodeError, ThreatHintIngressError})
                    (\<lambda>_. Inl ThreatHintIngressError)) (\<lambda>decoded.
           case decoded of
             PDict d \<Rightarrow>
               (if \<not> keys_are hint_fields d then Inl ThreatHintIngressError
                else rbind (validate_hint d) (\<lambda>h.
                     if hint_to_wire h \<noteq> wire then Inl ThreatHintIngressError else Inr h))
           | _ \<Rightarrow> Inl ThreatHintIngressError))"

subsection \<open>Acknowledgements\<close>

definition THREAT_HINT_PROTOCOL_VERSION :: int where
  "THREAT_HINT_PROTOCOL_VERSION = 1"
definition V1_MAX_INGRESS_ACK_BYTES :: nat where
  "V1_MAX_INGRESS_ACK_BYTES = 384"

datatype ThreatHintStatus = HintAccepted | HintDuplicate | HintRejected | HintBusy

fun hint_status_text :: "ThreatHintStatus \<Rightarrow> pystr" where
  "hint_status_text HintAccepted = u ''accepted''"
| "hint_status_text HintDuplicate = u ''duplicate''"
| "hint_status_text HintRejected = u ''rejected''"
| "hint_status_text HintBusy = u ''busy''"

record ThreatHintIngressAck =
  ia_status :: ThreatHintStatus
  ia_payload_digest :: pystr

definition v1_ack :: "ThreatHintStatus \<Rightarrow> pystr \<Rightarrow> ThreatHintIngressAck" where
  "v1_ack status digest = \<lparr>ia_status = status, ia_payload_digest = digest\<rparr>"

definition v1_ack_items :: "ThreatHintIngressAck \<Rightarrow> (pystr \<times> pyval) list" where
  "v1_ack_items a =
     [(u ''payload_digest'', PStr (ia_payload_digest a)), (u ''protocol_version'', PInt THREAT_HINT_PROTOCOL_VERSION),
      (u ''status'', PStr (hint_status_text (ia_status a)))]"

definition v1_ack_to_wire :: "ThreatHintIngressAck \<Rightarrow> pyexc + bytes" where
  "v1_ack_to_wire a =
     (if (if ia_status a = HintBusy then ia_payload_digest a \<noteq> [] else \<not> is_lower_hex 64 (ia_payload_digest a))
      then Inl ThreatHintIngressError
      else let wire = ascii_json (PDict (v1_ack_items a))
           in if V1_MAX_INGRESS_ACK_BYTES < length wire then Inl ThreatHintIngressError else Inr wire)"

definition parse_hint_status :: "pyval \<Rightarrow> pyexc + ThreatHintStatus" where
  "parse_hint_status v =
     (if \<not> py_hashable v then Inl TypeError
      else case filter (\<lambda>s. v = PStr (hint_status_text s)) [HintAccepted, HintDuplicate, HintRejected, HintBusy] of
             [] \<Rightarrow> Inl ThreatHintIngressError
           | s # _ \<Rightarrow> Inr s)"

definition v1_ack_from_wire :: "py_env \<Rightarrow> bytes \<Rightarrow> pyexc + ThreatHintIngressAck" where
  "v1_ack_from_wire E wire =
     (if \<not> (0 < length wire \<and> length wire \<le> V1_MAX_INGRESS_ACK_BYTES) then Inl ThreatHintIngressError
      else rbind (catch (loads_ascii E ThreatHintIngressError wire) (\<lambda>e. e \<in> {UnicodeDecodeError, JSONDecodeError})
                    (\<lambda>_. Inl ThreatHintIngressError)) (\<lambda>payload.
        case payload of
          PDict d \<Rightarrow>
            (if \<not> keys_are [''payload_digest'', ''protocol_version'', ''status''] d then Inl ThreatHintIngressError
             else if \<not> py_eq_one (dict_at d ''protocol_version'') then Inl ThreatHintIngressError
             else rbind (parse_hint_status (dict_at d ''status'')) (\<lambda>status.
                  if \<not> is_str (dict_at d ''payload_digest'') then Inl ThreatHintIngressError
                  else let a = v1_ack status (the_str (dict_at d ''payload_digest''))
                       in rbind (v1_ack_to_wire a) (\<lambda>w. if w \<noteq> wire then Inl ThreatHintIngressError else Inr a)))
        | _ \<Rightarrow> Inl ThreatHintIngressError))"

text \<open>The client: what \<open>submit_to_threat_hint_ingress\<close> makes of the bytes the server answers.\<close>

definition submit_hint :: "py_env \<Rightarrow> bytes \<Rightarrow> bytes \<Rightarrow> pyexc + ThreatHintIngressAck" where
  "submit_hint E wire answer =
     (if \<not> (0 < length wire \<and> length wire \<le> MAX_THREAT_HINT_WIRE_BYTES) then Inl ThreatHintIngressError
      else case read_frame V1_MAX_INGRESS_ACK_BYTES answer of
             Incomplete \<Rightarrow> Inl OtherError
           | BadSize \<Rightarrow> Inl ThreatHintIngressError
           | Frame ack_wire \<Rightarrow>
               rbind (v1_ack_from_wire E ack_wire) (\<lambda>a.
               if ia_status a \<noteq> HintBusy \<and> ia_payload_digest a \<noteq> sha256_hex wire then Inl ThreatHintIngressError
               else Inr a))"

subsection \<open>The replay ledger\<close>

record admission_row =
  ad_report_nonce :: pystr
  ad_threat_hash :: pystr
  ad_payload_digest :: pystr
  ad_observed_at :: int
  ad_expires_at :: int
  ad_admitted_at :: int
  ad_wire :: bytes

record VerifiedThreatHintJob =
  jb_payload_digest :: pystr
  jb_canonical_wire :: bytes
  jb_network_id :: pystr
  jb_admitted_at :: int

record job_row = VerifiedThreatHintJob +
  jb_delivered_at :: "int option"

text \<open>The rows of the three tables; \<open>None\<close> is an empty \<open>ledger_state\<close>.\<close>

record replay_ledger =
  rl_admissions :: "admission_row list"
  rl_outbox :: "job_row list"
  rl_high_water :: "int option"

text \<open>A database file as \<open>__init__\<close> finds it: the version, and the tables it has.\<close>

record replay_db =
  rd_version :: int
  rd_admissions :: "admission_row list option"
  rd_outbox :: "job_row list option"
  rd_state :: "int option option"

definition some_or :: "'a \<Rightarrow> 'a option \<Rightarrow> 'a" where
  "some_or d x = (case x of None \<Rightarrow> d | Some y \<Rightarrow> y)"

definition open_replay_ledger :: "replay_db \<Rightarrow> pyexc + replay_ledger" where
  "open_replay_ledger db =
     (if rd_version db \<noteq> 0 \<and> rd_version db \<noteq> 1 then Inl ThreatHintIngressError
      else Inr \<lparr>rl_admissions = some_or [] (rd_admissions db), rl_outbox = some_or [] (rd_outbox db),
                rl_high_water = Some (some_or 0 (some_or None (rd_state db)))\<rparr>)"

definition is_fresh_hint :: "CanonicalThreatHint \<Rightarrow> int \<Rightarrow> bool" where
  "is_fresh_hint h now_seconds \<longleftrightarrow>
     is_v1_timestamp now_seconds \<and> ch_observed_at h \<le> now_seconds + MAX_FUTURE_SKEW_SECONDS \<and>
     now_seconds \<le> ch_observed_at h + MAX_HINT_AGE_SECONDS"

definition replay_advance_time :: "int \<Rightarrow> replay_ledger \<Rightarrow> txerr + replay_ledger" where
  "replay_advance_time now_seconds L =
     (case rl_high_water L of
        None \<Rightarrow> Inl (Raise ThreatHintIngressError)
      | Some high \<Rightarrow> (if now_seconds < high then Inl (Raise ThreatHintReplayError)
                      else Inr (L\<lparr>rl_high_water := Some now_seconds\<rparr>)))"

definition expired_digests :: "int \<Rightarrow> replay_ledger \<Rightarrow> pystr set" where
  "expired_digests now_seconds L = ad_payload_digest ` {a \<in> set (rl_admissions L). ad_expires_at a < now_seconds}"

definition purge_delivered :: "int \<Rightarrow> replay_ledger \<Rightarrow> replay_ledger" where
  "purge_delivered now_seconds L =
     L\<lparr>rl_outbox := filter (\<lambda>j. \<not> (jb_delivered_at j \<noteq> None \<and> jb_payload_digest j \<in> expired_digests now_seconds L)) (rl_outbox L)\<rparr>"

definition purge_expired :: "int \<Rightarrow> replay_ledger \<Rightarrow> replay_ledger" where
  "purge_expired now_seconds L =
     L\<lparr>rl_admissions :=
         filter (\<lambda>a. \<not> (ad_expires_at a < now_seconds \<and> ad_payload_digest a \<notin> jb_payload_digest ` set (rl_outbox L)))
           (rl_admissions L)\<rparr>"

text \<open>The three unique columns of the admissions.\<close>

definition conflicts :: "admission_row \<Rightarrow> admission_row \<Rightarrow> bool" where
  "conflicts a b \<longleftrightarrow>
     ad_report_nonce a = ad_report_nonce b \<or> ad_threat_hash a = ad_threat_hash b \<or>
     ad_payload_digest a = ad_payload_digest b"

definition insert_admission :: "admission_row \<Rightarrow> replay_ledger \<Rightarrow> txerr + replay_ledger" where
  "insert_admission a L =
     rbind (bind_int (ad_observed_at a)) (\<lambda>_.
     rbind (bind_int (ad_expires_at a)) (\<lambda>_.
     rbind (bind_int (ad_admitted_at a)) (\<lambda>_.
     rbind (check (\<not> list_ex (conflicts a) (rl_admissions L))) (\<lambda>_.
     Inr (L\<lparr>rl_admissions := rl_admissions L @ [a]\<rparr>)))))"

definition insert_job :: "job_row \<Rightarrow> replay_ledger \<Rightarrow> txerr + replay_ledger" where
  "insert_job j L =
     rbind (check (jb_payload_digest j \<notin> jb_payload_digest ` set (rl_outbox L) \<and>
                   jb_payload_digest j \<in> ad_payload_digest ` set (rl_admissions L))) (\<lambda>_.
     Inr (L\<lparr>rl_outbox := rl_outbox L @ [j]\<rparr>))"

definition admission_of :: "CanonicalThreatHint \<Rightarrow> bytes \<Rightarrow> int \<Rightarrow> admission_row" where
  "admission_of h wire now_seconds =
     \<lparr>ad_report_nonce = ch_report_nonce h, ad_threat_hash = ch_threat_hash h, ad_payload_digest = sha256_hex wire,
      ad_observed_at = ch_observed_at h, ad_expires_at = ch_observed_at h + MAX_HINT_AGE_SECONDS,
      ad_admitted_at = now_seconds, ad_wire = wire\<rparr>"

definition job_of :: "bytes \<Rightarrow> pystr \<Rightarrow> int \<Rightarrow> job_row" where
  "job_of wire network now_seconds =
     \<lparr>jb_payload_digest = sha256_hex wire, jb_canonical_wire = wire, jb_network_id = network,
      jb_admitted_at = now_seconds, jb_delivered_at = None\<rparr>"

definition admit_tx :: "CanonicalThreatHint \<Rightarrow> bytes \<Rightarrow> pystr \<Rightarrow> int \<Rightarrow> replay_ledger \<Rightarrow> txerr + replay_ledger" where
  "admit_tx h wire network now_seconds L =
     rbind (replay_advance_time now_seconds L) (\<lambda>L1.
     rbind (insert_admission (admission_of h wire now_seconds) (purge_expired now_seconds (purge_delivered now_seconds L1))) (\<lambda>L2.
     insert_job (job_of wire network now_seconds) L2))"

text \<open>The lookup after a constraint failed. The code opens a second connection for it; it is modelled on the state that the
  failed transaction saw, and decides only between \<open>duplicate\<close> and \<open>rejected\<close>.\<close>

definition probe_admission :: "admission_row \<Rightarrow> replay_ledger \<Rightarrow> ThreatHintStatus" where
  "probe_admission a L =
     (case List.find (conflicts a) (rl_admissions L) of
        None \<Rightarrow> HintRejected
      | Some row \<Rightarrow>
          (if ad_payload_digest row = ad_payload_digest a \<and> ad_wire row = ad_wire a then HintDuplicate else HintRejected))"

text \<open>How a call on the ledger ends: a Python exception, an error of SQLite, or a status.\<close>

datatype ledger_failure = LedgerRaises pyexc | LedgerDb db_status

definition admit ::
  "db_status \<Rightarrow> db_status \<Rightarrow> CanonicalThreatHint \<Rightarrow> bytes \<Rightarrow> pystr \<Rightarrow> int \<Rightarrow> replay_ledger \<Rightarrow>
     (ledger_failure + ThreatHintStatus) \<times> replay_ledger" where
  "admit st st2 h wire network now_seconds L =
     (if \<not> is_v1_timestamp now_seconds \<or> hint_to_wire h \<noteq> wire \<or> \<not> is_fresh_hint h now_seconds
      then (Inl (LedgerRaises ThreatHintIngressError), L)
      else if st \<noteq> DbOk then (Inl (LedgerDb st), L)
      else case admit_tx h wire network now_seconds L of
             Inl (Raise e) \<Rightarrow> (Inl (LedgerRaises e), L)
           | Inl Overflow \<Rightarrow> (Inl (LedgerRaises OverflowError), L)
           | Inl Integrity \<Rightarrow>
               (if st2 \<noteq> DbOk then (Inl (LedgerDb st2), L)
                else (Inr (probe_admission (admission_of h wire now_seconds) L), L))
           | Inr L' \<Rightarrow> (Inr HintAccepted, L'))"

definition pending_jobs :: "int \<Rightarrow> replay_ledger \<Rightarrow> pyexc + job_row list" where
  "pending_jobs limit L =
     (if \<not> (1 \<le> limit \<and> limit \<le> 256) then Inl ThreatHintIngressError
      else Inr (take (nat limit)
             (sort_key jb_admitted_at (sort_key jb_payload_digest (filter (\<lambda>j. jb_delivered_at j = None) (rl_outbox L))))))"

definition deliver_row :: "pystr \<Rightarrow> int \<Rightarrow> job_row \<Rightarrow> job_row" where
  "deliver_row digest t j =
     (if jb_payload_digest j = digest then j\<lparr>jb_delivered_at := Some (some_or t (jb_delivered_at j))\<rparr> else j)"

definition mark_delivered :: "db_status \<Rightarrow> pystr \<Rightarrow> int \<Rightarrow> replay_ledger \<Rightarrow> (ledger_failure + unit) \<times> replay_ledger" where
  "mark_delivered st digest delivered_at L =
     (if \<not> is_lower_hex 64 digest \<or> \<not> is_v1_timestamp delivered_at then (Inl (LedgerRaises ThreatHintIngressError), L)
      else if st \<noteq> DbOk then (Inl (LedgerDb st), L)
      else if length (filter (\<lambda>j. jb_payload_digest j = digest) (rl_outbox L)) \<noteq> 1
      then (Inl (LedgerRaises ThreatHintReplayError), L)
      else (Inr (), L\<lparr>rl_outbox := map (deliver_row digest delivered_at) (rl_outbox L)\<rparr>))"

subsection \<open>Processing a frame\<close>

type_synonym proof_verifier = "CanonicalThreatHint \<Rightarrow> bytes \<Rightarrow> pystr \<Rightarrow> pyexc + bool"

definition proof_context :: "pystr \<Rightarrow> pyexc + pystr" where
  "proof_context network = (if valid_hint_network (PStr network) then Inr network else Inl ThreatHintIngressError)"

definition unavailable_verifier :: proof_verifier where
  "unavailable_verifier h wire network = Inl ThreatProofVerifierUnavailable"

text \<open>The handlers of \<open>process\<close>; an exception they do not name escapes.\<close>

definition hint_failure :: "pystr \<Rightarrow> pyexc \<Rightarrow> pyexc + ThreatHintIngressAck" where
  "hint_failure digest e =
     (if e = ThreatProofVerifierUnavailable then Inr (v1_ack HintBusy [])
      else if e \<in> {ThreatHintReplayError, ThreatHintIngressError, SqliteError, OSError} then Inr (v1_ack HintRejected digest)
      else Inl e)"

fun ledger_failure_ack :: "pystr \<Rightarrow> ledger_failure \<Rightarrow> pyexc + ThreatHintIngressAck" where
  "ledger_failure_ack digest (LedgerRaises e) = hint_failure digest e"
| "ledger_failure_ack digest (LedgerDb DbError) = Inr (v1_ack HintRejected digest)"
| "ledger_failure_ack digest (LedgerDb _) = Inr (v1_ack HintBusy [])"

definition hint_process ::
  "py_env \<Rightarrow> proof_verifier \<Rightarrow> db_status \<Rightarrow> db_status \<Rightarrow> pystr \<Rightarrow> bytes \<Rightarrow> int \<Rightarrow> replay_ledger \<Rightarrow>
     (pyexc + ThreatHintIngressAck) \<times> replay_ledger" where
  "hint_process E V st st2 network wire now_seconds L =
     (let digest = sha256_hex wire
      in case hint_from_wire E wire of
           Inl e \<Rightarrow> (hint_failure digest e, L)
         | Inr h \<Rightarrow>
             (if \<not> is_fresh_hint h now_seconds then (Inr (v1_ack HintRejected digest), L)
              else if ch_proof_system h \<noteq> u ''groth16_kip16_v1'' then (Inr (v1_ack HintRejected digest), L)
              else case V h wire network of
                     Inl e \<Rightarrow> (hint_failure digest e, L)
                   | Inr verified \<Rightarrow>
                       (if \<not> verified then (Inr (v1_ack HintRejected digest), L)
                        else case admit st st2 h wire network now_seconds L of
                               (Inl f, L') \<Rightarrow> (ledger_failure_ack digest f, L')
                             | (Inr status, L') \<Rightarrow> (Inr (v1_ack status digest), L'))))"

subsection \<open>Canonical hints\<close>

definition valid_hint :: "CanonicalThreatHint \<Rightarrow> bool" where
  "valid_hint h \<longleftrightarrow>
     ch_schema_version h = 1 \<and> is_lower_hex 64 (ch_threat_hash h) \<and> 1 \<le> ch_confidence_bps h \<and> ch_confidence_bps h \<le> 10000 \<and>
     ch_indicator_type h \<in> set indicator_types \<and> ch_proof_system h \<in> set proof_systems \<and> is_hex_proof (ch_proof h) \<and>
     is_lower_hex 64 (ch_report_nonce h) \<and> 1 \<le> ch_observed_at h \<and> ch_observed_at h \<le> MAX_SQLITE_INT"

lemma int_in_iff_ex: "int_in lo hi v \<longleftrightarrow> (\<exists>n. v = PInt n \<and> lo \<le> n \<and> n \<le> hi)"
  by (cases v) auto

lemma is_hex_val_ex: "is_hex_val n v \<longleftrightarrow> (\<exists>s. v = PStr s \<and> is_lower_hex n s)"
  by (cases v) auto

lemma is_str_ex: "is_str v \<longleftrightarrow> (\<exists>s. v = PStr s)"
  by (cases v) auto

lemma member_of_iff: "member_of ts v = Inr () \<longleftrightarrow> (\<exists>s \<in> set ts. v = PStr s)"
  by (auto simp: member_of_def raise_if_def)

lemma validate_hint_valid: "validate_hint d = Inr h \<Longrightarrow> valid_hint h"
  by (auto simp: validate_hint_def valid_hint_def member_of_iff int_in_iff_ex is_hex_val_ex is_str_ex rbind_eq_Inr
      simp del: int_in.simps is_hex_val.simps)

lemma validate_hint_items: "valid_hint h \<Longrightarrow> validate_hint (hint_items h) = Inr h"
  by (simp add: validate_hint_def hint_items_def valid_hint_def member_of_def)

lemma printable_texts: "s \<in> set indicator_types \<union> set proof_systems \<Longrightarrow> printable s"
  by (auto simp: indicator_types_def proof_systems_def u_def printable_def)

lemma hint_doc: "valid_hint h \<Longrightarrow> doc (hint_items h)"
  by (auto simp: hint_items_def doc_Cons valid_hint_def is_hex_proof_def MAX_SQLITE_INT_def u_def
      intro: printable_lower_hex printable_texts)

lemma hint_keys: "keys_are hint_fields (hint_items h)"
  by (simp add: keys_are_def hint_fields_def hint_items_def dict_keys_def)

lemma doc_loads_ascii: "doc kvs \<Longrightarrow> 1 \<le> json_depth E \<Longrightarrow> loads_ascii E dup (ascii_json (PDict kvs)) = Inr (PDict kvs)"
  using doc_loads [of kvs E dup] doc_printable [of kvs]
  by (auto simp: loads_ascii_def ascii_json_def ascii_bytes_def printable_def list_all_iff unat_of_nat)

lemma hint_from_wire_enc:
  "hint_from_wire E w = Inr h \<Longrightarrow> valid_hint h \<and> w = hint_to_wire h \<and> length w \<le> 2048"
  by (auto simp: hint_from_wire_def rbind_eq_Inr MAX_THREAT_HINT_WIRE_BYTES_def dest: validate_hint_valid
      split: if_splits pyval.splits)

lemma hint_from_wire_dec:
  assumes "valid_hint h" and "length (hint_to_wire h) \<le> 2048" and "1 \<le> json_depth E"
  shows "hint_from_wire E (hint_to_wire h) = Inr h"
proof -
  have "loads_ascii E ThreatHintIngressError (hint_to_wire h) = Inr (PDict (hint_items h))"
    unfolding hint_to_wire_def by (intro doc_loads_ascii hint_doc assms)
  moreover have "hint_to_wire h \<noteq> []" by (simp add: hint_to_wire_def doc_nonempty)
  ultimately show ?thesis using assms(2) validate_hint_items [OF assms(1)] hint_keys [of h]
    by (simp add: hint_from_wire_def catch_def MAX_THREAT_HINT_WIRE_BYTES_def)
qed

interpretation hv1: canonical_codec hint_to_wire "hint_from_wire E"
  "\<lambda>h. valid_hint h \<and> length (hint_to_wire h) \<le> 2048 \<and> 1 \<le> json_depth E" for E
  by unfold_locales (auto dest: hint_from_wire_enc simp: hint_from_wire_dec)

subsection \<open>Runs\<close>

text \<open>The state of a run: the ledger, the hints acknowledged as accepted with their times, and the digests whose delivery was
  recorded. Every call may come with another verifier, another time and another answer of SQLite.\<close>

definition hint_digest :: "CanonicalThreatHint \<Rightarrow> pystr" where
  "hint_digest h = sha256_hex (hint_to_wire h)"

inductive v1_step ::
  "py_env \<Rightarrow> pystr \<Rightarrow> replay_ledger \<times> (CanonicalThreatHint \<times> int) list \<times> pystr set \<Rightarrow>
     replay_ledger \<times> (CanonicalThreatHint \<times> int) list \<times> pystr set \<Rightarrow> bool" for E N where
  accepted: "hint_process E V st st2 N w t L = (Inr (v1_ack HintAccepted d), L') \<Longrightarrow> hint_from_wire E w = Inr h \<Longrightarrow>
    v1_step E N (L, acc, dl) (L', acc @ [(h, t)], dl)"
| refused: "hint_process E V st st2 N w t L = (r, L') \<Longrightarrow> (\<nexists>d. r = Inr (v1_ack HintAccepted d)) \<Longrightarrow>
    v1_step E N (L, acc, dl) (L', acc, dl)"
| delivered: "mark_delivered st d t L = (Inr (), L') \<Longrightarrow> v1_step E N (L, acc, dl) (L', acc, insert d dl)"
| undelivered: "mark_delivered st d t L = (Inl e, L') \<Longrightarrow> v1_step E N (L, acc, dl) (L', acc, dl)"

inductive_cases v1_stepE: "v1_step E N st st'"

definition new_replay_ledger :: replay_ledger where
  "new_replay_ledger = \<lparr>rl_admissions = [], rl_outbox = [], rl_high_water = Some 0\<rparr>"

definition v1_reachable ::
  "py_env \<Rightarrow> pystr \<Rightarrow> replay_ledger \<times> (CanonicalThreatHint \<times> int) list \<times> pystr set \<Rightarrow> bool" where
  "v1_reachable E N = (v1_step E N)\<^sup>*\<^sup>* (new_replay_ledger, [], {})"

lemma open_empty: "open_replay_ledger \<lparr>rd_version = 0, rd_admissions = None, rd_outbox = None, rd_state = None\<rparr> = Inr new_replay_ledger"
  by (simp add: open_replay_ledger_def new_replay_ledger_def some_or_def)

text \<open>What the transaction of \<open>admit\<close> does when it commits.\<close>

definition admitted_ledger :: "CanonicalThreatHint \<Rightarrow> pystr \<Rightarrow> int \<Rightarrow> replay_ledger \<Rightarrow> replay_ledger" where
  "admitted_ledger h N t L =
     (let K = purge_expired t (purge_delivered t L)
      in \<lparr>rl_admissions = rl_admissions K @ [admission_of h (hint_to_wire h) t],
          rl_outbox = rl_outbox K @ [job_of (hint_to_wire h) N t], rl_high_water = Some t\<rparr>)"

definition admissible_at :: "CanonicalThreatHint \<Rightarrow> int \<Rightarrow> replay_ledger \<Rightarrow> bool" where
  "admissible_at h t L \<longleftrightarrow>
     (\<exists>high. rl_high_water L = Some high \<and> high \<le> t) \<and>
     ch_observed_at h + MAX_HINT_AGE_SECONDS < 2 ^ 63 \<and>
     list_all (\<lambda>a. \<not> conflicts (admission_of h (hint_to_wire h) t) a)
       (rl_admissions (purge_expired t (purge_delivered t L))) \<and>
     hint_digest h \<notin> jb_payload_digest ` set (rl_outbox (purge_delivered t L))"

lemma purge_frame [simp]:
  "purge_expired t (purge_delivered t (L\<lparr>rl_high_water := x\<rparr>)) = (purge_expired t (purge_delivered t L))\<lparr>rl_high_water := x\<rparr>"
  "rl_outbox (purge_expired t L) = rl_outbox L" "rl_high_water (purge_expired t L) = rl_high_water L"
  "rl_admissions (purge_delivered t L) = rl_admissions L" "rl_high_water (purge_delivered t L) = rl_high_water L"
  by (simp_all add: purge_expired_def purge_delivered_def expired_digests_def)

lemma admit_tx_iff:
  assumes "valid_hint h" and "is_v1_timestamp t"
  shows "admit_tx h (hint_to_wire h) N t L = Inr L' \<longleftrightarrow> admissible_at h t L \<and> L' = admitted_ledger h N t L"
proof -
  have "- (2 ^ 63) \<le> ch_observed_at h \<and> ch_observed_at h < 2 ^ 63" "- (2 ^ 63) \<le> t \<and> t < 2 ^ 63"
    "- (2 ^ 63) \<le> ch_observed_at h + MAX_HINT_AGE_SECONDS"
    using assms by (auto simp: valid_hint_def is_v1_timestamp_def MAX_SQLITE_INT_def MAX_HINT_AGE_SECONDS_def)
  then show ?thesis
    by (cases "rl_high_water L")
       (auto simp: admit_tx_def replay_advance_time_def insert_admission_def insert_job_def bind_int_def check_def
        raise_if_def admissible_at_def admitted_ledger_def Let_def admission_of_def job_of_def hint_digest_def
        list_all_iff list_ex_iff rbind_def)
qed

lemma failure_refused [simp]:
  "hint_failure x e \<noteq> Inr (v1_ack HintAccepted d)" "ledger_failure_ack x f \<noteq> Inr (v1_ack HintAccepted d)"
proof -
  show h: "hint_failure x e \<noteq> Inr (v1_ack HintAccepted d)" for e by (auto simp: hint_failure_def v1_ack_def)
  show "ledger_failure_ack x f \<noteq> Inr (v1_ack HintAccepted d)"
    by (cases "(x, f)" rule: ledger_failure_ack.cases) (auto simp: h, auto simp: v1_ack_def)
qed

lemma v1_ack_eq [simp]: "v1_ack s d = v1_ack s' d' \<longleftrightarrow> s = s' \<and> d = d'"
  by (auto simp: v1_ack_def)

lemma admit_accepted:
  assumes "valid_hint h" and "is_fresh_hint h t" and "w = hint_to_wire h"
  shows "admit st st2 h w N t L = (Inr HintAccepted, L') \<longleftrightarrow>
    st = DbOk \<and> admissible_at h t L \<and> L' = admitted_ledger h N t L"
proof -
  have ts: "is_v1_timestamp t" using assms(2) by (simp add: is_fresh_hint_def)
  have "probe_admission a K \<noteq> HintAccepted" for a K by (simp add: probe_admission_def split: option.splits)
  then show ?thesis using ts assms(2) admit_tx_iff [OF assms(1) ts, of N L L']
    by (cases "admit_tx h (hint_to_wire h) N t L"; cases "projl (admit_tx h (hint_to_wire h) N t L)")
       (auto simp: admit_def assms(3))
qed

lemma hint_process_accepted:
  "hint_process E V st st2 N w t L = (Inr (v1_ack HintAccepted d), L') \<longleftrightarrow>
    (\<exists>h. hint_from_wire E w = Inr h \<and> is_fresh_hint h t \<and> ch_proof_system h = u ''groth16_kip16_v1'' \<and>
      V h w N = Inr True \<and> st = DbOk \<and> admissible_at h t L \<and> L' = admitted_ledger h N t L \<and> d = hint_digest h)"
proof (cases "hint_from_wire E w")
  case (Inl e)
  then show ?thesis by (simp add: hint_process_def Let_def)
next
  case (Inr h)
  then have v: "valid_hint h" "w = hint_to_wire h" using hint_from_wire_enc by blast+
  obtain r K where a: "admit st st2 h w N t L = (r, K)" by fastforce
  show ?thesis
  proof (cases "is_fresh_hint h t \<and> ch_proof_system h = u ''groth16_kip16_v1'' \<and> V h w N = Inr True")
    case True
    then have "hint_process E V st st2 N w t L =
        (case r of Inl f \<Rightarrow> (ledger_failure_ack (sha256_hex w) f, K) | Inr status \<Rightarrow> (Inr (v1_ack status (sha256_hex w)), K))"
      by (simp add: hint_process_def Let_def Inr a split: sum.splits)
    then show ?thesis
      using True admit_accepted [OF v(1) _ v(2), of t st st2 N L K] admit_accepted [OF v(1) _ v(2), of t st st2 N L L'] a Inr
      by (cases r) (auto simp: hint_digest_def v(2))
  next
    case False
    then show ?thesis by (auto simp: hint_process_def Let_def Inr split: sum.splits)
  qed
qed

lemma admit_refused:
  assumes "admit st st2 h w N t L = (r, L')" and "r \<noteq> Inr HintAccepted"
  shows "L' = L"
  using assms
  by (cases "admit_tx h w N t L"; cases "projl (admit_tx h w N t L)") (auto simp: admit_def split: if_splits)

lemma hint_process_refused:
  assumes "hint_process E V st st2 N w t L = (r, L')" and "\<nexists>d. r = Inr (v1_ack HintAccepted d)"
  shows "L' = L"
proof -
  obtain a K where a: "admit st st2 (projr (hint_from_wire E w)) w N t L = (a, K)" by fastforce
  have "K = L" if "a \<noteq> Inr HintAccepted" using admit_refused [OF a that] .
  with assms a show ?thesis
    by (cases "hint_from_wire E w"; cases a) (auto simp: hint_process_def Let_def split: if_splits sum.splits)
qed

subsection \<open>The invariant of a run\<close>

text \<open>Two hints that the unique columns cannot both hold.\<close>

definition clash :: "CanonicalThreatHint \<Rightarrow> CanonicalThreatHint \<Rightarrow> bool" where
  "clash h h' \<longleftrightarrow> ch_report_nonce h = ch_report_nonce h' \<or> ch_threat_hash h = ch_threat_hash h' \<or> hint_digest h = hint_digest h'"

definition row_of :: "CanonicalThreatHint \<times> int \<Rightarrow> admission_row" where
  "row_of e = admission_of (fst e) (hint_to_wire (fst e)) (snd e)"

lemma conflicts_row_of [simp]: "conflicts (row_of e) (row_of e') \<longleftrightarrow> clash (fst e) (fst e')"
  by (simp add: conflicts_def row_of_def admission_of_def clash_def hint_digest_def)

lemma row_of_fields [simp]:
  "ad_payload_digest (row_of e) = hint_digest (fst e)" "ad_expires_at (row_of e) = ch_observed_at (fst e) + 300"
  "ad_wire (row_of e) = hint_to_wire (fst e)"
  by (simp_all add: row_of_def admission_of_def hint_digest_def MAX_HINT_AGE_SECONDS_def)

definition entry_ok :: "replay_ledger \<Rightarrow> pystr set \<Rightarrow> pystr \<Rightarrow> CanonicalThreatHint \<times> int \<Rightarrow> bool" where
  "entry_ok L dl N e \<longleftrightarrow>
     valid_hint (fst e) \<and> length (hint_to_wire (fst e)) \<le> 2048 \<and> is_fresh_hint (fst e) (snd e) \<and>
     ch_proof_system (fst e) = u ''groth16_kip16_v1'' \<and>
     (\<exists>high. rl_high_water L = Some high \<and> snd e \<le> high \<and>
        (row_of e \<in> set (rl_admissions L) \<or> ch_observed_at (fst e) + 300 < high \<and> hint_digest (fst e) \<in> dl)) \<and>
     (hint_digest (fst e) \<notin> dl \<longrightarrow> job_of (hint_to_wire (fst e)) N (snd e) \<in> set (rl_outbox L))"

definition job_ok :: "replay_ledger \<Rightarrow> (CanonicalThreatHint \<times> int) list \<Rightarrow> pystr set \<Rightarrow> pystr \<Rightarrow> job_row \<Rightarrow> bool" where
  "job_ok L acc dl N j \<longleftrightarrow>
     (\<exists>e \<in> set acc. row_of e \<in> set (rl_admissions L) \<and> jb_payload_digest j = hint_digest (fst e) \<and>
        jb_canonical_wire j = hint_to_wire (fst e) \<and> jb_network_id j = N \<and> jb_admitted_at j = snd e) \<and>
     (jb_delivered_at j \<noteq> None \<longrightarrow> jb_payload_digest j \<in> dl)"

definition follows :: "pystr set \<Rightarrow> CanonicalThreatHint \<times> int \<Rightarrow> CanonicalThreatHint \<times> int \<Rightarrow> bool" where
  "follows dl e e' \<longleftrightarrow> snd e \<le> snd e' \<and>
     (clash (fst e) (fst e') \<longrightarrow> ch_observed_at (fst e) + 300 < snd e' \<and> hint_digest (fst e) \<in> dl)"

definition v1_inv :: "pystr \<Rightarrow> replay_ledger \<times> (CanonicalThreatHint \<times> int) list \<times> pystr set \<Rightarrow> bool" where
  "v1_inv N st \<longleftrightarrow> (case st of (L, acc, dl) \<Rightarrow>
     (\<exists>high. rl_high_water L = Some high) \<and>
     (\<forall>e \<in> set acc. entry_ok L dl N e) \<and> set (rl_admissions L) \<subseteq> row_of ` set acc \<and>
     sorted_wrt (\<lambda>a b. \<not> conflicts b a) (rl_admissions L) \<and>
     distinct (map jb_payload_digest (rl_outbox L)) \<and> (\<forall>j \<in> set (rl_outbox L). job_ok L acc dl N j) \<and>
     sorted_wrt (follows dl) acc)"

lemma job_of_fields [simp]:
  "jb_payload_digest (job_of (hint_to_wire h) N t) = hint_digest h" "jb_delivered_at (job_of w N t) = None"
  "jb_canonical_wire (job_of w N t) = w" "jb_network_id (job_of w N t) = N" "jb_admitted_at (job_of w N t) = t"
  by (simp_all add: job_of_def hint_digest_def)

lemma v1_inv_new: "v1_inv N (new_replay_ledger, [], {})"
  by (simp add: v1_inv_def new_replay_ledger_def)

text \<open>A row that the purge of an admission removes is expired and its delivery was recorded.\<close>

lemma purged_row:
  assumes "entry_ok L dl N e" and "row_of e \<in> set (rl_admissions L)"
    and "row_of e \<notin> set (rl_admissions (purge_expired t (purge_delivered t L)))"
  shows "ch_observed_at (fst e) + 300 < t \<and> hint_digest (fst e) \<in> dl"
proof -
  have x: "ch_observed_at (fst e) + 300 < t" and n: "hint_digest (fst e) \<notin> jb_payload_digest ` set (rl_outbox (purge_delivered t L))"
    using assms(2,3) by (auto simp: purge_expired_def)
  have "hint_digest (fst e) \<in> dl"
  proof (rule ccontr)
    assume "hint_digest (fst e) \<notin> dl"
    then have "job_of (hint_to_wire (fst e)) N (snd e) \<in> set (rl_outbox L)" using assms(1) by (simp add: entry_ok_def)
    then have "job_of (hint_to_wire (fst e)) N (snd e) \<in> set (rl_outbox (purge_delivered t L))"
      by (simp add: purge_delivered_def)
    then show False using n by (metis image_eqI job_of_fields(1))
  qed
  with x show ?thesis by blast
qed

lemma entry_kept:
  assumes "entry_ok L dl N e" and "rl_high_water L = Some high" and "high \<le> t"
  shows "entry_ok (admitted_ledger h N t L) dl N e"
proof -
  let ?K = "purge_expired t (purge_delivered t L)"
  have r: "row_of e \<in> set (rl_admissions ?K) \<or> ch_observed_at (fst e) + 300 < t \<and> hint_digest (fst e) \<in> dl"
    using purged_row [OF assms(1)] assms by (fastforce simp: entry_ok_def)
  have "job_of (hint_to_wire (fst e)) N (snd e) \<in> set (rl_outbox (purge_delivered t L))"
    if "hint_digest (fst e) \<notin> dl"
    using assms(1) that by (simp add: entry_ok_def purge_delivered_def)
  with r assms show ?thesis by (auto simp: entry_ok_def admitted_ledger_def Let_def)
qed

lemma accepted_inv:
  assumes "v1_inv N (L, acc, dl)" and "valid_hint h" and "length (hint_to_wire h) \<le> 2048" and "is_fresh_hint h t"
    and "ch_proof_system h = u ''groth16_kip16_v1''" and "admissible_at h t L"
  shows "v1_inv N (admitted_ledger h N t L, acc @ [(h, t)], dl)"
proof -
  let ?K = "purge_expired t (purge_delivered t L)" and ?L = "admitted_ledger h N t L"
  obtain high where high: "rl_high_water L = Some high" "high \<le> t" using assms(6) by (auto simp: admissible_at_def)
  have ent: "entry_ok L dl N e" if "e \<in> set acc" for e using assms(1) that by (simp add: v1_inv_def)
  have L: "rl_admissions ?L = rl_admissions ?K @ [row_of (h, t)]"
      "rl_outbox ?L = rl_outbox (purge_delivered t L) @ [job_of (hint_to_wire h) N t]" "rl_high_water ?L = Some t"
    by (simp_all add: admitted_ledger_def Let_def row_of_def)
  have "entry_ok ?L dl N (h, t)" using assms(2-5) by (simp add: entry_ok_def L)
  then have a: "\<forall>e \<in> set (acc @ [(h, t)]). entry_ok ?L dl N e" using entry_kept [OF ent high] by auto
  have b: "set (rl_admissions ?L) \<subseteq> row_of ` set (acc @ [(h, t)])"
    using assms(1) by (auto simp: L v1_inv_def purge_expired_def)
  have b': "sorted_wrt (\<lambda>a b. \<not> conflicts b a) (rl_admissions ?L)"
  proof -
    have "sorted_wrt (\<lambda>a b. \<not> conflicts b a) (rl_admissions ?K)"
      using assms(1) by (simp add: v1_inv_def purge_expired_def sorted_wrt_filter)
    moreover have "\<forall>a \<in> set (rl_admissions ?K). \<not> conflicts (row_of (h, t)) a"
      using assms(6) by (simp add: admissible_at_def list_all_iff row_of_def)
    ultimately show ?thesis by (simp add: L sorted_wrt_append)
  qed
  have c: "distinct (map jb_payload_digest (rl_outbox ?L))"
    using assms(1,6) by (auto simp: L v1_inv_def admissible_at_def purge_delivered_def distinct_map_filter)
  have d: "job_ok ?L (acc @ [(h, t)]) dl N j" if j: "j \<in> set (rl_outbox (purge_delivered t L))" for j
  proof -
    have "job_ok L acc dl N j" using assms(1) j by (auto simp: v1_inv_def purge_delivered_def)
    then obtain e where e: "e \<in> set acc" "row_of e \<in> set (rl_admissions L)" "jb_payload_digest j = hint_digest (fst e)"
        "jb_canonical_wire j = hint_to_wire (fst e)" "jb_network_id j = N" "jb_admitted_at j = snd e"
        "jb_delivered_at j \<noteq> None \<longrightarrow> jb_payload_digest j \<in> dl"
      by (auto simp: job_ok_def)
    have "row_of e \<in> set (rl_admissions ?K)" using e(2,3) j by (simp add: purge_expired_def) (metis image_eqI)
    with e show ?thesis by (auto simp: job_ok_def L)
  qed
  have d': "job_ok ?L (acc @ [(h, t)]) dl N (job_of (hint_to_wire h) N t)" by (simp add: job_ok_def L)
  have f: "follows dl e (h, t)" if "e \<in> set acc" for e
  proof -
    have k: "entry_ok L dl N e" by (rule ent [OF that])
    have "row_of e \<notin> set (rl_admissions ?K)" if "clash (fst e) h"
      using assms(6) that conflicts_row_of [of "(h, t)" e]
      by (auto simp: admissible_at_def list_all_iff row_of_def [of "(h, t)"] clash_def)
    then show ?thesis using purged_row [OF k, of t] k high by (fastforce simp: follows_def entry_ok_def)
  qed
  have "sorted_wrt (follows dl) (acc @ [(h, t)])" using assms(1) f by (auto simp: v1_inv_def sorted_wrt_append)
  then show ?thesis unfolding v1_inv_def using a b b' c d d' L(2,3) by (auto simp: L(2))
qed

lemma deliver_row_fields [simp]:
  "jb_payload_digest (deliver_row d t j) = jb_payload_digest j" "jb_canonical_wire (deliver_row d t j) = jb_canonical_wire j"
  "jb_network_id (deliver_row d t j) = jb_network_id j" "jb_admitted_at (deliver_row d t j) = jb_admitted_at j"
  by (simp_all add: deliver_row_def)

lemma delivered_inv:
  assumes "v1_inv N (L, acc, dl)"
  shows "v1_inv N (L\<lparr>rl_outbox := map (deliver_row d t) (rl_outbox L)\<rparr>, acc, insert d dl)"
proof -
  let ?L = "L\<lparr>rl_outbox := map (deliver_row d t) (rl_outbox L)\<rparr>"
  have "entry_ok ?L (insert d dl) N e" if "entry_ok L dl N e" for e
  proof -
    have "job_of (hint_to_wire (fst e)) N (snd e) \<in> set (rl_outbox ?L)" if "hint_digest (fst e) \<notin> insert d dl"
    proof -
      have "job_of (hint_to_wire (fst e)) N (snd e) \<in> set (rl_outbox L)"
        using \<open>entry_ok L dl N e\<close> that by (simp add: entry_ok_def)
      moreover have "deliver_row d t (job_of (hint_to_wire (fst e)) N (snd e)) = job_of (hint_to_wire (fst e)) N (snd e)"
        using that by (simp add: deliver_row_def)
      ultimately show ?thesis by (metis image_eqI image_set replay_ledger.select_convs(2) replay_ledger.surjective replay_ledger.update_convs(2))
    qed
    then show ?thesis using that by (auto simp: entry_ok_def)
  qed
  moreover have "job_ok ?L acc (insert d dl) N (deliver_row d t j)" if "job_ok L acc dl N j" for j
    using that by (auto simp: job_ok_def) (auto simp: deliver_row_def split: if_splits)
  moreover have "sorted_wrt (follows (insert d dl)) acc"
    using assms by (auto simp: v1_inv_def follows_def intro: sorted_wrt_mono_rel [of _ "follows dl"])
  moreover have "jb_payload_digest \<circ> deliver_row d t = jb_payload_digest" by (simp add: fun_eq_iff)
  ultimately show ?thesis using assms unfolding v1_inv_def by auto
qed

lemma v1_step_inv: "v1_step E N st st' \<Longrightarrow> v1_inv N st \<Longrightarrow> v1_inv N st'"
proof (induction rule: v1_step.induct)
  case (accepted V st st2 w t L d L' h acc dl)
  then show ?case using hint_from_wire_enc [of E w h] by (auto simp: hint_process_accepted intro: accepted_inv)
next
  case (refused V st st2 w t L r L' acc dl)
  then show ?case using hint_process_refused by metis
next
  case (delivered st d t L L' acc dl)
  then show ?case using delivered_inv by (auto simp: mark_delivered_def split: if_splits)
next
  case (undelivered st d t L e L' acc dl)
  then show ?case by (auto simp: mark_delivered_def split: if_splits)
qed

lemma v1_reachable_inv: "v1_reachable E N st \<Longrightarrow> v1_inv N st"
  unfolding v1_reachable_def by (induction rule: rtranclp_induct) (auto intro: v1_inv_new v1_step_inv)

lemma follows_distinct:
  assumes "sorted_wrt (follows dl) acc" and "\<forall>e \<in> set acc. is_fresh_hint (fst e) (snd e)"
  shows "distinct (map fst acc)"
  using assms
proof (induction acc)
  case (Cons e acc)
  have "fst e \<noteq> fst e'" if "e' \<in> set acc" for e'
  proof
    assume "fst e = fst e'"
    moreover from this Cons.prems(1) that have "ch_observed_at (fst e') + 300 < snd e'"
      by (auto simp: follows_def clash_def)
    ultimately show False using Cons.prems(2) that by (auto simp: is_fresh_hint_def MAX_HINT_AGE_SECONDS_def)
  qed
  then show ?case using Cons by force
qed simp

lemma hint_to_wire_inj: "valid_hint h \<Longrightarrow> valid_hint h' \<Longrightarrow> hint_to_wire h = hint_to_wire h' \<Longrightarrow> h = h'"
  using doc_inj [OF hint_doc hint_doc, of h h'] by (auto simp: hint_to_wire_def hint_items_def intro: CanonicalThreatHint.equality)

text \<open>On a reachable ledger it does not matter which conflicting row the lookup of a refused hint finds: a row with the very
  wire is the only conflicting one.\<close>

lemma conflicts_sym: "conflicts a b \<longleftrightarrow> conflicts b a"
  by (auto simp: conflicts_def)

lemma sorted_wrt_two: "sorted_wrt R xs \<Longrightarrow> a \<in> set xs \<Longrightarrow> b \<in> set xs \<Longrightarrow> \<not> R a b \<Longrightarrow> \<not> R b a \<Longrightarrow> b = a"
  by (induction xs) auto

lemma probe_unique:
  assumes "v1_inv N (L, acc, dl)" and "valid_hint h"
    and "a \<in> set (rl_admissions L)" and "ad_wire a = hint_to_wire h"
    and "b \<in> set (rl_admissions L)" and "conflicts (row_of (h, t)) b"
  shows "b = a"
proof -
  obtain e where e: "e \<in> set acc" "a = row_of e" using assms(1,3) unfolding v1_inv_def by blast
  have "valid_hint (fst e)" using assms(1) e(1) by (simp add: v1_inv_def entry_ok_def)
  then have "fst e = h" using hint_to_wire_inj [of "fst e" h] assms(2,4) by (simp add: e(2))
  then have "conflicts a b" using assms(6) by (simp add: e(2) conflicts_def row_of_def admission_of_def)
  have "sorted_wrt (\<lambda>a b. \<not> conflicts b a) (rl_admissions L)" using assms(1) by (simp add: v1_inv_def)
  moreover have "conflicts b a" using \<open>conflicts a b\<close> by (simp add: conflicts_sym [of b])
  ultimately show ?thesis
    using assms(3,5) \<open>conflicts a b\<close> sorted_wrt_two [of "\<lambda>a b. \<not> conflicts b a" "rl_admissions L" a b] by simp
qed

lemma probe_duplicate:
  assumes "v1_inv N (L, acc, dl)" and "valid_hint h"
  shows "probe_admission (row_of (h, t)) L = HintDuplicate \<longleftrightarrow> (\<exists>a \<in> set (rl_admissions L). ad_wire a = hint_to_wire h)"
proof
  assume "probe_admission (row_of (h, t)) L = HintDuplicate"
  then show "\<exists>a \<in> set (rl_admissions L). ad_wire a = hint_to_wire h"
    by (auto simp: probe_admission_def find_Some_iff split: option.splits if_splits)
next
  assume "\<exists>a \<in> set (rl_admissions L). ad_wire a = hint_to_wire h"
  then obtain a where a: "a \<in> set (rl_admissions L)" "ad_wire a = hint_to_wire h" by blast
  obtain e where e: "e \<in> set acc" "a = row_of e" using assms(1) a(1) unfolding v1_inv_def by blast
  have "valid_hint (fst e)" using assms(1) e(1) by (simp add: v1_inv_def entry_ok_def)
  then have h: "fst e = h" using hint_to_wire_inj [of "fst e" h] assms(2) a(2) by (simp add: e(2))
  have c: "conflicts (row_of (h, t)) a" using h by (simp add: e(2) clash_def)
  obtain b where b: "List.find (conflicts (row_of (h, t))) (rl_admissions L) = Some b"
    using c a(1) by (cases "List.find (conflicts (row_of (h, t))) (rl_admissions L)") (auto simp: find_None_iff)
  then have "b = a" using probe_unique [OF assms a] by (auto simp: find_Some_iff)
  then show "probe_admission (row_of (h, t)) L = HintDuplicate" using b h by (simp add: probe_admission_def e(2))
qed

subsection \<open>A run\<close>

definition ex_hint :: CanonicalThreatHint where
  "ex_hint =
     \<lparr>ch_schema_version = 1, ch_threat_hash = replicate 64 97, ch_confidence_bps = 9000, ch_indicator_type = u ''file_hash'',
      ch_proof_system = u ''groth16_kip16_v1'', ch_proof = replicate 8 97, ch_report_nonce = replicate 64 98,
      ch_observed_at = 1700000000\<rparr>"

lemma ex_hint_valid: "valid_hint ex_hint" "length (hint_to_wire ex_hint) \<le> 2048"
proof -
  show v: "valid_hint ex_hint" by code_simp
  have "(\<Sum>(k, v) \<leftarrow> hint_items ex_hint. length (json_quote True k) + field_size v + 2) \<le> 2000" by code_simp
  then show "length (hint_to_wire ex_hint) \<le> 2048" using doc_length [OF hint_doc [OF v]] by (simp add: hint_to_wire_def)
qed

lemma ex_hint_wire: "hint_from_wire ex_env (hint_to_wire ex_hint) = Inr ex_hint"
  by (rule hint_from_wire_dec) (simp_all add: ex_hint_valid ex_env_def)

lemma ex_hint_process:
  "hint_process ex_env (\<lambda>_ _ _. Inr True) DbOk DbOk (u ''mainnet'') (hint_to_wire ex_hint) 1700000010 new_replay_ledger =
     (Inr (v1_ack HintAccepted (hint_digest ex_hint)), admitted_ledger ex_hint (u ''mainnet'') 1700000010 new_replay_ledger)"
  unfolding hint_process_accepted
  by (rule exI [of _ ex_hint])
     (simp add: ex_hint_wire, simp add: ex_hint_def is_fresh_hint_def is_v1_timestamp_def MAX_SQLITE_INT_def
       MAX_FUTURE_SKEW_SECONDS_def MAX_HINT_AGE_SECONDS_def admissible_at_def new_replay_ledger_def purge_expired_def
       purge_delivered_def)

definition ex_replay_ledger :: replay_ledger where
  "ex_replay_ledger = admitted_ledger ex_hint (u ''mainnet'') 1700000010 new_replay_ledger"

lemma ex_v1_reachable: "v1_reachable ex_env (u ''mainnet'') (ex_replay_ledger, [(ex_hint, 1700000010)], {})"
  using v1_step.accepted [OF ex_hint_process ex_hint_wire, of "[]" "{}"]
  by (simp add: v1_reachable_def ex_replay_ledger_def r_into_rtranclp)

lemma ex_replay_outbox: "rl_outbox ex_replay_ledger = [job_of (hint_to_wire ex_hint) (u ''mainnet'') 1700000010]"
  "rl_admissions ex_replay_ledger = [row_of (ex_hint, 1700000010)]" "rl_high_water ex_replay_ledger = Some 1700000010"
  by (simp_all add: ex_replay_ledger_def admitted_ledger_def new_replay_ledger_def purge_delivered_def purge_expired_def row_of_def)

text \<open>After delivery and expiry a later observation may reuse nonce and hash.\<close>

definition ex_hint_later :: CanonicalThreatHint where
  "ex_hint_later = ex_hint\<lparr>ch_observed_at := 1700000400\<rparr>"

lemma ex_later_valid: "valid_hint ex_hint_later" "length (hint_to_wire ex_hint_later) \<le> 2048"
proof -
  show v: "valid_hint ex_hint_later" by code_simp
  have "(\<Sum>(k, v) \<leftarrow> hint_items ex_hint_later. length (json_quote True k) + field_size v + 2) \<le> 2000" by code_simp
  then show "length (hint_to_wire ex_hint_later) \<le> 2048" using doc_length [OF hint_doc [OF v]] by (simp add: hint_to_wire_def)
qed

lemma ex_later_wire: "hint_from_wire ex_env (hint_to_wire ex_hint_later) = Inr ex_hint_later"
  by (rule hint_from_wire_dec) (simp_all add: ex_later_valid ex_env_def)

definition ex_delivered_ledger :: replay_ledger where
  "ex_delivered_ledger = ex_replay_ledger\<lparr>rl_outbox :=
     [(job_of (hint_to_wire ex_hint) (u ''mainnet'') 1700000010)\<lparr>jb_delivered_at := Some 1700000020\<rparr>]\<rparr>"

lemma ex_delivered: "mark_delivered DbOk (hint_digest ex_hint) 1700000020 ex_replay_ledger = (Inr (), ex_delivered_ledger)"
  by (simp add: mark_delivered_def ex_delivered_ledger_def ex_replay_outbox hint_digest_def job_of_def deliver_row_def some_or_def
      is_v1_timestamp_def MAX_SQLITE_INT_def)

lemma ex_later_process:
  "hint_process ex_env (\<lambda>_ _ _. Inr True) DbOk DbOk (u ''mainnet'') (hint_to_wire ex_hint_later) 1700000405 ex_delivered_ledger =
     (Inr (v1_ack HintAccepted (hint_digest ex_hint_later)),
      admitted_ledger ex_hint_later (u ''mainnet'') 1700000405 ex_delivered_ledger)"
proof -
  have "set (rl_admissions ex_delivered_ledger) = {row_of (ex_hint, 1700000010)}"
    by (simp add: ex_delivered_ledger_def ex_replay_outbox)
  moreover have "ad_expires_at (row_of (ex_hint, 1700000010)) < 1700000405"
    "ad_payload_digest (row_of (ex_hint, 1700000010)) = hint_digest ex_hint"
    by (simp_all add: row_of_def admission_of_def hint_digest_def ex_hint_def MAX_HINT_AGE_SECONDS_def)
  ultimately have "expired_digests 1700000405 ex_delivered_ledger = {hint_digest ex_hint}"
    by (auto simp: expired_digests_def)
  then have purged: "rl_outbox (purge_delivered 1700000405 ex_delivered_ledger) = []"
    by (simp add: purge_delivered_def) (simp add: ex_delivered_ledger_def job_of_def hint_digest_def)
  have "rl_admissions (purge_expired 1700000405 (purge_delivered 1700000405 ex_delivered_ledger)) = []"
    using purged by (simp add: purge_expired_def)
      (simp add: ex_delivered_ledger_def ex_replay_outbox row_of_def admission_of_def ex_hint_def MAX_HINT_AGE_SECONDS_def)
  moreover have "rl_high_water ex_delivered_ledger = Some 1700000010" by (simp add: ex_delivered_ledger_def ex_replay_outbox)
  ultimately have "admissible_at ex_hint_later 1700000405 ex_delivered_ledger"
    using purged by (simp add: admissible_at_def ex_hint_later_def MAX_HINT_AGE_SECONDS_def)
  then show ?thesis unfolding hint_process_accepted
    by (intro exI [of _ ex_hint_later])
       (simp add: ex_later_wire, simp add: ex_hint_later_def ex_hint_def is_fresh_hint_def is_v1_timestamp_def
         MAX_SQLITE_INT_def MAX_FUTURE_SKEW_SECONDS_def MAX_HINT_AGE_SECONDS_def)
qed

lemma ex_later_reachable:
  "v1_reachable ex_env (u ''mainnet'')
     (admitted_ledger ex_hint_later (u ''mainnet'') 1700000405 ex_delivered_ledger,
      [(ex_hint, 1700000010), (ex_hint_later, 1700000405)], {hint_digest ex_hint})"
proof -
  have "v1_step ex_env (u ''mainnet'') (ex_replay_ledger, [(ex_hint, 1700000010)], {})
      (ex_delivered_ledger, [(ex_hint, 1700000010)], {hint_digest ex_hint})"
    by (rule v1_step.delivered [OF ex_delivered])
  moreover have "v1_step ex_env (u ''mainnet'') (ex_delivered_ledger, [(ex_hint, 1700000010)], {hint_digest ex_hint})
      (admitted_ledger ex_hint_later (u ''mainnet'') 1700000405 ex_delivered_ledger,
       [(ex_hint, 1700000010), (ex_hint_later, 1700000405)], {hint_digest ex_hint})"
    using v1_step.accepted [OF ex_later_process ex_later_wire, of "[(ex_hint, 1700000010)]" "{hint_digest ex_hint}"] by simp
  ultimately show ?thesis using ex_v1_reachable unfolding v1_reachable_def by (meson rtranclp.rtrancl_into_rtrancl)
qed

subsection \<open>Properties\<close>

text \<open>C5. Replay protection of version 1 hints. In every run of the ingress and the delivery, with any verifiers, clocks and
  database failures, no hint is acknowledged as accepted twice; and when two accepted hints share the report nonce, the
  threat hash or the payload digest, the later one was accepted only after the earlier one had expired (more than 300
  seconds after its observation) and its delivery had been recorded.\<close>

theorem v1_replay_safe:
  assumes "v1_reachable E N (L, acc, dl)"
  shows "distinct (map fst acc) \<and>
    sorted_wrt (\<lambda>(h, t) (h', t').
      ch_report_nonce h = ch_report_nonce h' \<or> ch_threat_hash h = ch_threat_hash h' \<or>
      sha256_hex (hint_to_wire h) = sha256_hex (hint_to_wire h') \<longrightarrow>
      ch_observed_at h + 300 < t' \<and> sha256_hex (hint_to_wire h) \<in> dl) acc"
proof -
  have inv: "v1_inv N (L, acc, dl)" using assms by (rule v1_reachable_inv)
  then have s: "sorted_wrt (follows dl) acc" and f: "\<forall>e \<in> set acc. is_fresh_hint (fst e) (snd e)"
    by (auto simp: v1_inv_def entry_ok_def)
  have "sorted_wrt (\<lambda>(h, t) (h', t').
      ch_report_nonce h = ch_report_nonce h' \<or> ch_threat_hash h = ch_threat_hash h' \<or>
      sha256_hex (hint_to_wire h) = sha256_hex (hint_to_wire h') \<longrightarrow>
      ch_observed_at h + 300 < t' \<and> sha256_hex (hint_to_wire h) \<in> dl) acc"
    using s by (rule sorted_wrt_mono_rel [rotated]) (auto simp: follows_def clash_def hint_digest_def)
  with follows_distinct [OF s f] show ?thesis by blast
qed

theorem v1_replay_safe_witness:
  "ch_report_nonce ex_hint = ch_report_nonce ex_hint_later \<and> ex_hint \<noteq> ex_hint_later \<and>
   ch_observed_at ex_hint + 300 < 1700000405"
  using v1_replay_safe [OF ex_later_reachable] by (simp add: ex_hint_later_def)

text \<open>C20. No accepted hint is lost. In every run, each hint that was acknowledged as accepted is a pending job of the outbox,
  with its exact bytes, network and time, until its delivery is recorded; and every job of the outbox, delivered or not,
  stems from an accepted hint.\<close>

theorem v1_accepted_pending:
  assumes "v1_reachable E N (L, acc, dl)"
  shows "(\<forall>(h, t) \<in> set acc. sha256_hex (hint_to_wire h) \<notin> dl \<longrightarrow>
      \<lparr>jb_payload_digest = sha256_hex (hint_to_wire h), jb_canonical_wire = hint_to_wire h, jb_network_id = N,
       jb_admitted_at = t, jb_delivered_at = None\<rparr> \<in> set (rl_outbox L)) \<and>
    (\<forall>j \<in> set (rl_outbox L). \<exists>(h, t) \<in> set acc. jb_canonical_wire j = hint_to_wire h \<and> jb_admitted_at j = t \<and>
       jb_payload_digest j = sha256_hex (hint_to_wire h) \<and> (jb_delivered_at j \<noteq> None \<longrightarrow> jb_payload_digest j \<in> dl))"
proof -
  have inv: "v1_inv N (L, acc, dl)" using assms by (rule v1_reachable_inv)
  have "job_of (hint_to_wire h) N t \<in> set (rl_outbox L)" if "(h, t) \<in> set acc" "hint_digest h \<notin> dl" for h t
    using inv that by (fastforce simp: v1_inv_def entry_ok_def)
  moreover have "job_ok L acc dl N j" if "j \<in> set (rl_outbox L)" for j using inv that by (simp add: v1_inv_def)
  ultimately show ?thesis by (fastforce simp: job_of_def hint_digest_def job_ok_def)
qed

theorem v1_accepted_pending_witness:
  "\<lparr>jb_payload_digest = sha256_hex (hint_to_wire ex_hint), jb_canonical_wire = hint_to_wire ex_hint,
    jb_network_id = u ''mainnet'', jb_admitted_at = 1700000010, jb_delivered_at = None\<rparr> \<in> set (rl_outbox ex_replay_ledger)"
  using v1_accepted_pending [OF ex_v1_reachable] by simp

text \<open>C21. When the version 1 ingress accepts. On every reachable ledger, a frame is answered with "accepted" iff it is the
  canonical wire of a valid hint with a Groth16 proof, the time is within 30 seconds before and 300 seconds after the
  observation and not before the last admission, time and expiry fit SQLite's 64-bit integers, the verifier returned true,
  the database answered, and every stored row with the same nonce, hash or digest has expired and is no longer needed by
  the outbox.\<close>

theorem v1_accepts_iff:
  assumes "v1_reachable E N (L, acc, dl)"
  shows "(\<exists>d L'. hint_process E V st st2 N w t L = (Inr (v1_ack HintAccepted d), L')) \<longleftrightarrow>
    (\<exists>h. hint_from_wire E w = Inr h \<and> ch_proof_system h = u ''groth16_kip16_v1'' \<and> 0 < t \<and> t < 2 ^ 63 \<and>
      ch_observed_at h - 30 \<le> t \<and> t \<le> ch_observed_at h + 300 \<and> ch_observed_at h + 300 < 2 ^ 63 \<and>
      V h w N = Inr True \<and> st = DbOk \<and> the (rl_high_water L) \<le> t \<and>
      (\<forall>a \<in> set (rl_admissions L).
         ad_report_nonce a = ch_report_nonce h \<or> ad_threat_hash a = ch_threat_hash h \<or> ad_payload_digest a = sha256_hex w \<longrightarrow>
         ad_expires_at a < t \<and>
         (\<forall>j \<in> set (rl_outbox L). jb_payload_digest j = ad_payload_digest a \<longrightarrow> jb_delivered_at j \<noteq> None)))"
proof -
  have inv: "v1_inv N (L, acc, dl)" using assms by (rule v1_reachable_inv)
  then obtain high where high: "rl_high_water L = Some high" by (auto simp: v1_inv_def)
  have gone: "a \<notin> set (rl_admissions (purge_expired t (purge_delivered t L))) \<longleftrightarrow>
      ad_expires_at a < t \<and> (\<forall>j \<in> set (rl_outbox L). jb_payload_digest j = ad_payload_digest a \<longrightarrow> jb_delivered_at j \<noteq> None)"
    if "a \<in> set (rl_admissions L)" for a
    using that by (auto simp: purge_expired_def purge_delivered_def expired_digests_def image_iff)
  have sub: "set (rl_admissions (purge_expired t (purge_delivered t L))) \<subseteq> set (rl_admissions L)"
    by (auto simp: purge_expired_def)
  have fk: "\<exists>a \<in> set (rl_admissions (purge_expired t (purge_delivered t L))). ad_payload_digest a = d"
    if d: "d \<in> jb_payload_digest ` set (rl_outbox (purge_delivered t L))" for d
  proof -
    obtain j where j: "j \<in> set (rl_outbox (purge_delivered t L))" "jb_payload_digest j = d" using d by blast
    then have "job_ok L acc dl N j" using inv by (auto simp: v1_inv_def purge_delivered_def)
    then obtain e where "row_of e \<in> set (rl_admissions L)" "d = hint_digest (fst e)" using j(2) by (auto simp: job_ok_def)
    then show ?thesis using d by (auto simp: purge_expired_def intro!: bexI [of _ "row_of e"])
  qed
  have "admissible_at h t L \<longleftrightarrow> high \<le> t \<and> ch_observed_at h + 300 < 2 ^ 63 \<and>
      (\<forall>a \<in> set (rl_admissions L).
         ad_report_nonce a = ch_report_nonce h \<or> ad_threat_hash a = ch_threat_hash h \<or> ad_payload_digest a = hint_digest h \<longrightarrow>
         a \<notin> set (rl_admissions (purge_expired t (purge_delivered t L))))" for h
    using fk [of "hint_digest h"] sub
    by (fastforce simp: admissible_at_def high MAX_HINT_AGE_SECONDS_def list_all_iff conflicts_def admission_of_def hint_digest_def)
  then show ?thesis
    unfolding hint_process_accepted using gone high
    by (fastforce simp: is_fresh_hint_def is_v1_timestamp_def MAX_SQLITE_INT_def MAX_FUTURE_SKEW_SECONDS_def
        MAX_HINT_AGE_SECONDS_def hint_digest_def dest: hint_from_wire_enc)
qed

theorem v1_accepts_iff_witness:
  "\<nexists>d L'. hint_process ex_env (\<lambda>_ _ _. Inr True) DbOk DbOk (u ''mainnet'') (hint_to_wire ex_hint) 1700000020 ex_replay_ledger =
     (Inr (v1_ack HintAccepted d), L')"
  unfolding v1_accepts_iff [OF ex_v1_reachable] by (simp add: ex_hint_wire ex_replay_outbox) (simp add: ex_hint_def row_of_def admission_of_def)

end
