(* ===== verification/Threat_Hint_Transport.thy ===== *)
theory Threat_Hint_Transport
  imports Observable_Approval
begin

text \<open>
  Model of \<open>jaeger/threat_hint_v2_transport.py\<close>: the framing of a version 2 threat hint, which carries a
  proof envelope, an observable bundle and an approval behind a header of magic, version, report
  nonce and three lengths. The envelope of a payload is registered with the bytes it was parsed from,
  which are the envelope bytes of the payload.
\<close>

definition TRANSPORT_MAGIC :: bytes where
  "TRANSPORT_MAGIC = ascii_bytes (u ''PHT2'')"
definition TRANSPORT_VERSION :: nat where
  "TRANSPORT_VERSION = 1"
definition REPORT_NONCE_BYTES :: nat where
  "REPORT_NONCE_BYTES = 32"
definition LENGTH_FIELD_BYTES :: nat where
  "LENGTH_FIELD_BYTES = 4"
definition HEADER_BYTES :: nat where
  "HEADER_BYTES = length TRANSPORT_MAGIC + 1 + REPORT_NONCE_BYTES + 3 * LENGTH_FIELD_BYTES"
definition NONCE_OFFSET :: nat where
  "NONCE_OFFSET = length TRANSPORT_MAGIC + 1"
definition ENVELOPE_LEN_OFFSET :: nat where
  "ENVELOPE_LEN_OFFSET = NONCE_OFFSET + REPORT_NONCE_BYTES"
definition BUNDLE_LEN_OFFSET :: nat where
  "BUNDLE_LEN_OFFSET = ENVELOPE_LEN_OFFSET + LENGTH_FIELD_BYTES"
definition APPROVAL_LEN_OFFSET :: nat where
  "APPROVAL_LEN_OFFSET = BUNDLE_LEN_OFFSET + LENGTH_FIELD_BYTES"
definition MAX_TRANSPORT_ENVELOPE_BYTES :: nat where
  "MAX_TRANSPORT_ENVELOPE_BYTES = MAX_CANONICAL_V2_PROOF_ENVELOPE_BYTES"
definition MAX_TRANSPORT_BUNDLE_BYTES :: nat where
  "MAX_TRANSPORT_BUNDLE_BYTES = MAX_CANONICAL_BYTES"
definition MAX_TRANSPORT_APPROVAL_BYTES :: nat where
  "MAX_TRANSPORT_APPROVAL_BYTES = MAX_CANONICAL_APPROVAL_BYTES"
definition MAX_TRANSPORT_PAYLOAD_BYTES :: nat where
  "MAX_TRANSPORT_PAYLOAD_BYTES =
     HEADER_BYTES + MAX_TRANSPORT_ENVELOPE_BYTES + MAX_TRANSPORT_BUNDLE_BYTES + MAX_TRANSPORT_APPROVAL_BYTES"
definition APPROVAL_SHAPE_SCHEMA_VERSION :: int where
  "APPROVAL_SHAPE_SCHEMA_VERSION = 1"
definition APPROVAL_SHAPE_PURPOSE :: pystr where
  "APPROVAL_SHAPE_PURPOSE = u ''guardian_analysis_v1''"

record ThreatHintV2TransportPayload =
  tp_report_nonce :: bytes
  tp_envelope_wire :: bytes
  tp_bundle_wire :: bytes
  tp_approval_wire :: bytes
  tp_parsed_envelope :: ThreatHintV2ProofEnvelope
  tp_parsed_bundle :: ObservableBundle

definition read_be_len :: "bytes \<Rightarrow> nat \<Rightarrow> nat" where
  "read_be_len wire off = be_value (take LENGTH_FIELD_BYTES (drop off wire))"

text \<open>The tests on the fields of a decoded approval.\<close>

definition approval_shape_fields :: "(pystr \<times> pyval) list \<Rightarrow> pyexc + unit" where
  "approval_shape_fields d =
     rbind (raise_if (dict_at d ''schema_version'' \<noteq> PInt APPROVAL_SHAPE_SCHEMA_VERSION \<or>
                      dict_at d ''purpose'' \<noteq> PStr APPROVAL_SHAPE_PURPOSE) ThreatHintV2TransportError) (\<lambda>_.
     rbind (raise_if (\<not> is_str (dict_at d ''network_id'')) ThreatHintV2TransportError) (\<lambda>_.
     rbind (raise_if (\<not> is_int (dict_at d ''not_before'') \<or> UINT64_MAX < the_int (dict_at d ''not_before''))
              ThreatHintV2TransportError) (\<lambda>_.
     rbind (raise_if (\<not> is_int (dict_at d ''expires_at'') \<or> UINT64_MAX < the_int (dict_at d ''expires_at''))
              ThreatHintV2TransportError) (\<lambda>_.
     let lifetime = the_int (dict_at d ''expires_at'') - the_int (dict_at d ''not_before'')
     in rbind (raise_if (the_int (dict_at d ''not_before'') \<le> 0 \<or> lifetime \<le> 0 \<or>
                         MAX_APPROVAL_LIFETIME_SECONDS < lifetime) ThreatHintV2TransportError) (\<lambda>_.
        rbind (catch (raise_oerr (validate_network_id (the_str (dict_at d ''network_id'')))) is_value_error
                 (\<lambda>_. Inl ThreatHintV2TransportError)) (\<lambda>_.
        raise_if (list_ex (\<lambda>(field, hex_len). \<not> is_hex_val hex_len (dict_at d field))
                    [(''observable_commitment'', 64), (''approver_xonly_public_key'', 64),
                     (''recipient_scope'', 64), (''approval_nonce'', 64), (''signature'', 128)])
          ThreatHintV2TransportError))))))"

text \<open>\<open>json.dumps(...).encode("utf-8")\<close> is outside the \<open>try\<close> block: \<open>UnicodeEncodeError\<close> escapes.\<close>

fun approval_shape_object :: "bytes \<Rightarrow> pyval \<Rightarrow> pyexc + unit" where
  "approval_shape_object wire (PDict d) =
     (if \<not> keys_are approval_fields d then Inl ThreatHintV2TransportError
      else rbind (canonical_json_bytes (PDict (select_fields d approval_fields))) (\<lambda>canonical.
           if canonical \<noteq> wire then Inl ThreatHintV2TransportError else approval_shape_fields d))"
| "approval_shape_object wire _ = Inl ThreatHintV2TransportError"

definition validate_approval_shape :: "py_env \<Rightarrow> bytes \<Rightarrow> pyexc + unit" where
  "validate_approval_shape E wire =
     (if \<not> (0 < length wire \<and> length wire \<le> MAX_TRANSPORT_APPROVAL_BYTES) then Inl ThreatHintV2TransportError
      else rbind (catch (loads_utf8 E ThreatHintV2TransportError wire) is_value_error
                    (\<lambda>_. Inl ThreatHintV2TransportError)) (approval_shape_object wire))"

definition transport_validate_state :: "py_env \<Rightarrow> ThreatHintV2TransportPayload \<Rightarrow> pyexc + unit" where
  "transport_validate_state E p =
     rbind (raise_if (list_ex (\<lambda>(wire, cap). \<not> (1 \<le> length wire \<and> length wire \<le> cap))
                        [(tp_envelope_wire p, MAX_TRANSPORT_ENVELOPE_BYTES),
                         (tp_bundle_wire p, MAX_TRANSPORT_BUNDLE_BYTES),
                         (tp_approval_wire p, MAX_TRANSPORT_APPROVAL_BYTES)]) ThreatHintV2TransportError) (\<lambda>_.
     rbind (raise_if (length (tp_report_nonce p) \<noteq> REPORT_NONCE_BYTES) ThreatHintV2TransportError) (\<lambda>_.
     rbind (envelope_canonical_bytes (Some (tp_envelope_wire p)) (tp_parsed_envelope p)) (\<lambda>envelope.
     rbind (raise_if (envelope \<noteq> tp_envelope_wire p) ThreatHintV2TransportError) (\<lambda>_.
     rbind (raise_oerr (canonical_bytes (tp_parsed_bundle p))) (\<lambda>bundle.
     rbind (raise_if (bundle \<noteq> tp_bundle_wire p) ThreatHintV2TransportError) (\<lambda>_.
     rbind (raise_if (vs_report_nonce (pe_parsed_statement (tp_parsed_envelope p)) \<noteq>
                      hex_of_bytes (tp_report_nonce p)) ThreatHintV2TransportError) (\<lambda>_.
     validate_approval_shape E (tp_approval_wire p))))))))"

definition transport_frame :: "ThreatHintV2TransportPayload \<Rightarrow> bytes" where
  "transport_frame p =
     TRANSPORT_MAGIC @ [of_nat TRANSPORT_VERSION] @ tp_report_nonce p @
     be_bytes LENGTH_FIELD_BYTES (length (tp_envelope_wire p)) @
     be_bytes LENGTH_FIELD_BYTES (length (tp_bundle_wire p)) @
     be_bytes LENGTH_FIELD_BYTES (length (tp_approval_wire p)) @
     tp_envelope_wire p @ tp_bundle_wire p @ tp_approval_wire p"

definition transport_canonical_bytes ::
  "py_env \<Rightarrow> bytes option \<Rightarrow> ThreatHintV2TransportPayload \<Rightarrow> pyexc + bytes" where
  "transport_canonical_bytes E at_parse p =
     (case at_parse of
        None \<Rightarrow> Inl ThreatHintV2TransportError
      | Some parsed \<Rightarrow>
          rbind (transport_validate_state E p) (\<lambda>_.
          let canonical = transport_frame p
          in if length canonical = 0 \<or> MAX_TRANSPORT_PAYLOAD_BYTES < length canonical \<or> canonical \<noteq> parsed
             then Inl ThreatHintV2TransportError else Inr canonical))"

text \<open>The nested wires of a frame whose header passes every test.\<close>

definition split_frame :: "bytes \<Rightarrow> pyexc + bytes \<times> bytes \<times> bytes \<times> bytes" where
  "split_frame wire =
     (if length wire = 0 \<or> MAX_TRANSPORT_PAYLOAD_BYTES < length wire \<or> length wire < HEADER_BYTES + 3
      then Inl ThreatHintV2TransportError
      else if take (length TRANSPORT_MAGIC) wire \<noteq> TRANSPORT_MAGIC \<or>
              unat (wire ! (NONCE_OFFSET - 1)) \<noteq> TRANSPORT_VERSION
      then Inl ThreatHintV2TransportError
      else let report_nonce = take REPORT_NONCE_BYTES (drop NONCE_OFFSET wire);
               envelope_len = read_be_len wire ENVELOPE_LEN_OFFSET;
               bundle_len = read_be_len wire BUNDLE_LEN_OFFSET;
               approval_len = read_be_len wire APPROVAL_LEN_OFFSET
           in if \<not> (1 \<le> envelope_len \<and> envelope_len \<le> MAX_TRANSPORT_ENVELOPE_BYTES) \<or>
                 \<not> (1 \<le> bundle_len \<and> bundle_len \<le> MAX_TRANSPORT_BUNDLE_BYTES) \<or>
                 \<not> (1 \<le> approval_len \<and> approval_len \<le> MAX_TRANSPORT_APPROVAL_BYTES)
              then Inl ThreatHintV2TransportError
              else if HEADER_BYTES + envelope_len + bundle_len + approval_len \<noteq> length wire
              then Inl ThreatHintV2TransportError
              else let bundle_start = HEADER_BYTES + envelope_len;
                       approval_start = bundle_start + bundle_len
                   in Inr (report_nonce, take (bundle_start - HEADER_BYTES) (drop HEADER_BYTES wire),
                           take (approval_start - bundle_start) (drop bundle_start wire),
                           drop approval_start wire))"

definition parse_transport ::
  "py_env \<Rightarrow> bytes \<Rightarrow> pyval \<Rightarrow> pyexc + ThreatHintV2TransportPayload" where
  "parse_transport E wire trusted_network_id =
     (if \<not> is_str trusted_network_id then Inl ThreatHintV2TransportError
      else rbind (split_frame wire) (\<lambda>(report_nonce, envelope_w, bundle_w, approval_w).
           rbind (catch (parse_envelope E envelope_w trusted_network_id) (\<lambda>e. e = ThreatHintV2ProofEnvelopeError)
                    (\<lambda>_. Inl ThreatHintV2TransportError)) (\<lambda>envelope.
           if vs_report_nonce (pe_parsed_statement envelope) \<noteq> hex_of_bytes report_nonce
           then Inl ThreatHintV2TransportError
           else rbind (catch (raise_oerr (parse_canonical E bundle_w)) is_value_error
                         (\<lambda>_. Inl ThreatHintV2TransportError)) (\<lambda>bundle.
                rbind (validate_approval_shape E approval_w) (\<lambda>_.
                let payload = \<lparr>tp_report_nonce = report_nonce, tp_envelope_wire = envelope_w,
                               tp_bundle_wire = bundle_w, tp_approval_wire = approval_w,
                               tp_parsed_envelope = envelope, tp_parsed_bundle = bundle\<rparr>
                in rbind (transport_canonical_bytes E (Some wire) payload) (\<lambda>canonical.
                   if canonical \<noteq> wire then Inl ThreatHintV2TransportError else Inr payload))))))"

subsection \<open>Approval shapes\<close>

lemma approval_shape_fields_iff:
  "approval_shape_fields d = Inr () \<longleftrightarrow>
     (\<exists>v signature. approval_wf v \<and> length signature = 64 \<and>
        select_fields d approval_fields = approval_items v signature)"
proof
  assume a: "approval_shape_fields d = Inr ()"
  have hx: "\<exists>b. v = PStr (hex_of_bytes b) \<and> length b = n" if "is_hex_val (n * 2) v" for v n
    using that decode_fixed_hex_iff [of v n] by (auto simp: decode_fixed_hex_def)
  obtain oc ap rs an sg where hex: "dict_at d ''observable_commitment'' = PStr (hex_of_bytes oc)" "length oc = 32"
      "dict_at d ''approver_xonly_public_key'' = PStr (hex_of_bytes ap)" "length ap = 32"
      "dict_at d ''recipient_scope'' = PStr (hex_of_bytes rs)" "length rs = 32"
      "dict_at d ''approval_nonce'' = PStr (hex_of_bytes an)" "length an = 32"
      "dict_at d ''signature'' = PStr (hex_of_bytes sg)" "length sg = 64"
    using a hx [of 32 "dict_at d ''observable_commitment''"] hx [of 32 "dict_at d ''approver_xonly_public_key''"]
      hx [of 32 "dict_at d ''recipient_scope''"] hx [of 32 "dict_at d ''approval_nonce''"]
      hx [of 64 "dict_at d ''signature''"]
    by (auto simp: approval_shape_fields_def Let_def)
  obtain net nb ea where f: "dict_at d ''schema_version'' = PInt 1" "dict_at d ''purpose'' = PStr APPROVAL_PURPOSE"
      "dict_at d ''network_id'' = PStr net" "dict_at d ''not_before'' = PInt nb" "dict_at d ''expires_at'' = PInt ea"
      "validate_network_id net = Inr ()" "0 < nb" "nb < ea" "ea \<le> nb + 3600" "ea < 2 ^ 64"
    using a by (auto simp: approval_shape_fields_def Let_def is_str_iff is_int_iff catch_eq_Inr_raise
      APPROVAL_SHAPE_SCHEMA_VERSION_def APPROVAL_SHAPE_PURPOSE_def APPROVAL_PURPOSE_def
      MAX_APPROVAL_LIFETIME_SECONDS_def UINT64_MAX_def)
  define v where "v = \<lparr>va_approval_id = [], va_observable_commitment = oc, va_approver_xonly_public_key = ap,
    va_recipient_scope = rs, va_approval_nonce = an, va_network_id = net, va_not_before = nb, va_expires_at = ea\<rparr>"
  have "approval_wf v" using f hex by (simp add: approval_wf_def v_def)
  moreover have "select_fields d approval_fields = approval_items v sg"
    using f hex by (intro select_fields_decoded) (simp_all add: v_def)
  ultimately show "\<exists>v signature. approval_wf v \<and> length signature = 64 \<and>
      select_fields d approval_fields = approval_items v signature"
    using hex(10) by blast
next
  assume "\<exists>v signature. approval_wf v \<and> length signature = 64 \<and>
      select_fields d approval_fields = approval_items v signature"
  then obtain v sg where v: "approval_wf v" "length sg = 64" "select_fields d approval_fields = approval_items v sg"
    by blast
  have hex: "is_lower_hex 64 (hex_of_bytes b)" if "length b = 32" for b :: bytes
    using is_lower_hex_of_bytes [of b] that by simp
  have hex64: "is_lower_hex 128 (hex_of_bytes sg)" using is_lower_hex_of_bytes [of sg] v(2) by simp
  show "approval_shape_fields d = Inr ()"
    using v(1,3) hex hex64
    by (simp add: approval_shape_fields_def select_fields_def approval_fields_def signing_fields_def
        approval_items_def signing_items_def approval_wf_def Let_def raise_oerr_def
        APPROVAL_SHAPE_SCHEMA_VERSION_def APPROVAL_SHAPE_PURPOSE_def APPROVAL_PURPOSE_def
        MAX_APPROVAL_LIFETIME_SECONDS_def UINT64_MAX_def)
qed

lemma approval_shape_object_iff:
  "approval_shape_object w v = Inr () \<longleftrightarrow>
     (\<exists>d. v = PDict d \<and> keys_are approval_fields d \<and>
        compact_json (PDict (select_fields d approval_fields)) = Some w \<and> approval_shape_fields d = Inr ())"
  by (cases v) (auto simp: canonical_json_bytes_Inr split: if_splits)

definition approval_shape :: "bytes \<Rightarrow> bool" where
  "approval_shape w \<longleftrightarrow> (\<exists>v signature. approval_wf v \<and> length signature = 64 \<and> w = approval_text v signature)"

lemma approval_shape_sound:
  assumes "validate_approval_shape E w = Inr ()"
  shows "approval_shape w"
proof -
  obtain d where d: "compact_json (PDict (select_fields d approval_fields)) = Some w"
    "approval_shape_fields d = Inr ()"
    using assms by (auto simp: validate_approval_shape_def approval_shape_object_iff split: if_splits)
  then obtain v sg where "approval_wf v" "length sg = 64" "select_fields d approval_fields = approval_items v sg"
    by (auto simp: approval_shape_fields_iff)
  then show ?thesis using d(1) approval_compact(1) [of v sg] unfolding approval_shape_def by auto
qed

lemma approval_shape_length: "approval_shape w \<Longrightarrow> 1 \<le> length w \<and> length w \<le> 1024"
  using approval_length by (force simp: approval_shape_def Suc_le_eq)

lemma approval_shape_complete:
  assumes "approval_shape w" and "1 \<le> json_depth E"
  shows "validate_approval_shape E w = Inr ()"
proof -
  obtain v sg where v: "approval_wf v" "length sg = 64" "w = approval_text v sg"
    using assms(1) by (auto simp: approval_shape_def)
  have "approval_shape_fields (approval_items v sg) = Inr ()"
    unfolding approval_shape_fields_iff using v(1,2) select_approval_items(1) by blast
  then show ?thesis
    using approval_loads [OF v(1) assms(2)] approval_compact(1) [OF v(1)] approval_shape_length [OF assms(1)]
    by (simp add: validate_approval_shape_def v(3) select_approval_items canonical_json_bytes_def
        MAX_TRANSPORT_APPROVAL_BYTES_def MAX_CANONICAL_APPROVAL_BYTES_def)
qed

subsection \<open>Framing\<close>

lemmas transport_consts =
  TRANSPORT_VERSION_def REPORT_NONCE_BYTES_def LENGTH_FIELD_BYTES_def HEADER_BYTES_def NONCE_OFFSET_def
  ENVELOPE_LEN_OFFSET_def BUNDLE_LEN_OFFSET_def APPROVAL_LEN_OFFSET_def MAX_TRANSPORT_ENVELOPE_BYTES_def
  MAX_TRANSPORT_BUNDLE_BYTES_def MAX_TRANSPORT_APPROVAL_BYTES_def MAX_TRANSPORT_PAYLOAD_BYTES_def
  MAX_CANONICAL_V2_PROOF_ENVELOPE_BYTES_def MAX_CANONICAL_BYTES_def MAX_CANONICAL_APPROVAL_BYTES_def

lemma length_magic [simp]: "length TRANSPORT_MAGIC = 4"
  by (simp add: TRANSPORT_MAGIC_def)

definition frame_sizes :: "bytes \<Rightarrow> bytes \<Rightarrow> bytes \<Rightarrow> bytes \<Rightarrow> bool" where
  "frame_sizes nonce e b a \<longleftrightarrow> length nonce = 32 \<and> 1 \<le> length e \<and> length e \<le> 4096 \<and>
     1 \<le> length b \<and> length b \<le> 4096 \<and> 1 \<le> length a \<and> length a \<le> 1024"

lemma read_be_len_at:
  "length h = off \<Longrightarrow> n < 2 ^ 32 \<Longrightarrow> read_be_len (h @ be_bytes 4 n @ r) off = n"
  by (simp add: read_be_len_def LENGTH_FIELD_BYTES_def be_value_be_bytes)

lemma split_frame_frame:
  assumes "frame_sizes (tp_report_nonce p) (tp_envelope_wire p) (tp_bundle_wire p) (tp_approval_wire p)"
  shows "split_frame (transport_frame p) =
    Inr (tp_report_nonce p, tp_envelope_wire p, tp_bundle_wire p, tp_approval_wire p)"
proof -
  let ?n = "tp_report_nonce p" and ?e = "tp_envelope_wire p" and ?b = "tp_bundle_wire p" and ?a = "tp_approval_wire p"
  let ?h = "TRANSPORT_MAGIC @ [1 :: byte] @ ?n"
  let ?le = "be_bytes 4 (length ?e)" and ?lb = "be_bytes 4 (length ?b)" and ?la = "be_bytes 4 (length ?a)"
  let ?w = "transport_frame p"
  have w: "?w = ?h @ ?le @ ?lb @ ?la @ ?e @ ?b @ ?a"
    by (simp add: transport_frame_def transport_consts)
  have z: "length ?n = 32" "1 \<le> length ?e" "length ?e \<le> 4096" "1 \<le> length ?b" "length ?b \<le> 4096"
    "1 \<le> length ?a" "length ?a \<le> 1024"
    using assms by (simp_all add: frame_sizes_def)
  have lens: "read_be_len ?w 37 = length ?e" "read_be_len ?w 41 = length ?b" "read_be_len ?w 45 = length ?a"
    using read_be_len_at [of ?h 37 "length ?e" "?lb @ ?la @ ?e @ ?b @ ?a"]
      read_be_len_at [of "?h @ ?le" 41 "length ?b" "?la @ ?e @ ?b @ ?a"]
      read_be_len_at [of "?h @ ?le @ ?lb" 45 "length ?a" "?e @ ?b @ ?a"] z
    by (simp_all add: w)
  have nth: "?w ! 4 = 1" by (simp add: w nth_append)
  have slices: "take 4 ?w = TRANSPORT_MAGIC" "take 32 (drop 5 ?w) = ?n" using z(1) by (simp_all add: w)
  define H where "H = ?h @ ?le @ ?lb @ ?la"
  have "length H = 49" "?w = H @ ?e @ ?b @ ?a" using z(1) by (simp_all add: w H_def)
  then have parts: "take (length ?e) (drop 49 ?w) = ?e" "take (length ?b) (drop (49 + length ?e) ?w) = ?b"
    "drop (49 + length ?e + length ?b) ?w = ?a" by simp_all
  have len: "length ?w = 49 + length ?e + length ?b + length ?a" using z(1) by (simp add: w)
  show ?thesis using z lens nth slices parts len by (simp add: split_frame_def transport_consts Let_def)
qed

text \<open>A payload that \<open>_validate_state\<close> accepts.\<close>

definition valid_payload :: "ThreatHintV2TransportPayload \<Rightarrow> bool" where
  "valid_payload p \<longleftrightarrow>
     length (tp_report_nonce p) = 32 \<and>
     valid_envelope (tp_parsed_envelope p) \<and> tp_envelope_wire p = envelope_wire (tp_parsed_envelope p) \<and>
     canonical_bundle (tp_parsed_bundle p) \<and> tp_bundle_wire p = bundle_wire (tp_parsed_bundle p) \<and>
     vs_report_nonce (pe_parsed_statement (tp_parsed_envelope p)) = hex_of_bytes (tp_report_nonce p) \<and>
     approval_shape (tp_approval_wire p)"

lemma bundle_wire_length: "canonical_bundle b \<Longrightarrow> 1 \<le> length (bundle_wire b) \<and> length (bundle_wire b) \<le> 4096"
  using bundle_text_length [of b] by (simp add: bundle_wire_def ascii_json_def bundle_payload_def Suc_le_eq)

lemma valid_payload_sizes:
  assumes "valid_payload p"
  shows "frame_sizes (tp_report_nonce p) (tp_envelope_wire p) (tp_bundle_wire p) (tp_approval_wire p)"
  using assms envelope_length [of "tp_parsed_envelope p"] doc_nonempty bundle_wire_length [of "tp_parsed_bundle p"]
    approval_shape_length [of "tp_approval_wire p"]
  by (simp add: frame_sizes_def valid_payload_def envelope_wire_def Suc_le_eq)

lemma transport_validate_state_sound:
  assumes "transport_validate_state E p = Inr ()"
  shows "valid_payload p"
proof -
  have "length (tp_report_nonce p) = 32"
    "envelope_canonical_bytes (Some (tp_envelope_wire p)) (tp_parsed_envelope p) = Inr (tp_envelope_wire p)"
    "canonical_bytes (tp_parsed_bundle p) = Inr (tp_bundle_wire p)"
    "validate_approval_shape E (tp_approval_wire p) = Inr ()"
    "vs_report_nonce (pe_parsed_statement (tp_parsed_envelope p)) = hex_of_bytes (tp_report_nonce p)"
    using assms by (simp_all add: transport_validate_state_def REPORT_NONCE_BYTES_def)
  then show ?thesis unfolding valid_payload_def envelope_canonical_bytes_iff canonical_bytes_iff
    using approval_shape_sound by blast
qed

lemma transport_validate_state_complete:
  assumes "valid_payload p" and "1 \<le> json_depth E"
  shows "transport_validate_state E p = Inr ()"
proof -
  have "envelope_canonical_bytes (Some (tp_envelope_wire p)) (tp_parsed_envelope p) = Inr (tp_envelope_wire p)"
    "canonical_bytes (tp_parsed_bundle p) = Inr (tp_bundle_wire p)"
    "validate_approval_shape E (tp_approval_wire p) = Inr ()"
    "vs_report_nonce (pe_parsed_statement (tp_parsed_envelope p)) = hex_of_bytes (tp_report_nonce p)"
    using assms approval_shape_complete
    by (simp_all add: valid_payload_def envelope_canonical_bytes_iff canonical_bytes_iff)
  then show ?thesis using valid_payload_sizes [OF assms(1)]
    by (simp add: transport_validate_state_def raise_oerr_def frame_sizes_def transport_consts)
qed

lemma transport_canonical_bytes_sound:
  "transport_canonical_bytes E reg p = Inr w \<Longrightarrow> valid_payload p \<and> w = transport_frame p \<and> reg = Some w"
  by (auto simp: transport_canonical_bytes_def Let_def dest: transport_validate_state_sound
      split: option.splits if_splits)

lemma transport_canonical_bytes_complete:
  assumes "valid_payload p" and "1 \<le> json_depth E"
  shows "transport_canonical_bytes E (Some (transport_frame p)) p = Inr (transport_frame p)"
  using valid_payload_sizes [OF assms(1)] transport_validate_state_complete [OF assms]
  by (simp add: transport_canonical_bytes_def transport_frame_def frame_sizes_def transport_consts)

lemma parse_transport_enc:
  assumes "parse_transport E w tn = Inr p"
  shows "valid_payload p \<and> w = transport_frame p \<and>
    tn = PStr (vs_network_id (pe_parsed_statement (tp_parsed_envelope p)))"
  using assms
  by (auto simp: parse_transport_def catch_eq_Inr_raise Let_def split: if_splits prod.splits
      dest: parse_envelope_enc dest!: transport_canonical_bytes_sound)

lemma parse_transport_dec:
  assumes "valid_payload p" and "3 \<le> json_depth E"
  shows "parse_transport E (transport_frame p) (PStr (vs_network_id (pe_parsed_statement (tp_parsed_envelope p)))) = Inr p"
proof -
  have d: "1 \<le> json_depth E" using assms(2) by simp
  have "parse_envelope E (tp_envelope_wire p) (PStr (vs_network_id (pe_parsed_statement (tp_parsed_envelope p)))) =
      Inr (tp_parsed_envelope p)"
    using parse_envelope_dec [OF _ d] assms(1) by (simp add: valid_payload_def)
  moreover have "parse_canonical E (tp_bundle_wire p) = Inr (tp_parsed_bundle p)"
    using parse_canonical_dec [OF _ assms(2)] assms(1) by (simp add: valid_payload_def)
  moreover have "validate_approval_shape E (tp_approval_wire p) = Inr ()"
    using approval_shape_complete [OF _ d] assms(1) by (simp add: valid_payload_def)
  moreover have "transport_canonical_bytes E (Some (transport_frame p)) p = Inr (transport_frame p)"
    using transport_canonical_bytes_complete [OF assms(1) d] .
  moreover have "vs_report_nonce (pe_parsed_statement (tp_parsed_envelope p)) = hex_of_bytes (tp_report_nonce p)"
    using assms(1) by (simp add: valid_payload_def)
  moreover have eta: "\<lparr>tp_report_nonce = tp_report_nonce p, tp_envelope_wire = tp_envelope_wire p,
      tp_bundle_wire = tp_bundle_wire p, tp_approval_wire = tp_approval_wire p,
      tp_parsed_envelope = tp_parsed_envelope p, tp_parsed_bundle = tp_parsed_bundle p\<rparr> = p" by simp
  ultimately show ?thesis using split_frame_frame [OF valid_payload_sizes [OF assms(1)]]
    by (simp add: parse_transport_def raise_oerr_def Let_def eta)
qed

interpretation tc: canonical_codec transport_frame "\<lambda>w. parse_transport E w (PStr n)"
  "\<lambda>p. valid_payload p \<and> vs_network_id (pe_parsed_statement (tp_parsed_envelope p)) = n \<and> 3 \<le> json_depth E" for E n
  by unfold_locales (auto simp: parse_transport_dec dest: parse_transport_enc)

lemma frame_parts:
  assumes "parse_envelope E ew tn = Inr e" and "parse_canonical E bw = Inr b"
    and "verify_observable_approval E B aw bw ctx = Inr v" and "1 \<le> json_depth E"
  defines "p \<equiv> \<lparr>tp_report_nonce = bytes_fromhex (vs_report_nonce (pe_parsed_statement e)), tp_envelope_wire = ew,
      tp_bundle_wire = bw, tp_approval_wire = aw, tp_parsed_envelope = e, tp_parsed_bundle = b\<rparr>"
  shows "valid_payload p"
proof -
  have e: "valid_envelope e" "ew = envelope_wire e" using parse_envelope_enc [OF assms(1)] by simp_all
  have hex: "is_lower_hex 64 (vs_report_nonce (pe_parsed_statement e))"
    using e(1) by (simp add: valid_envelope_def valid_statement_def)
  have "hex_of_bytes (bytes_fromhex (vs_report_nonce (pe_parsed_statement e))) = vs_report_nonce (pe_parsed_statement e)"
    "length (bytes_fromhex (vs_report_nonce (pe_parsed_statement e))) = 32"
    using hex hex_of_bytes_fromhex by (auto simp: is_lower_hex_def length_bytes_fromhex)
  moreover have "approval_shape aw"
    using assms(3,4) unfolding approval_verify_iff [OF assms(4)] approval_spec_def approval_ok_def approval_shape_def by blast
  ultimately show ?thesis using e parse_canonical_enc [OF assms(2)] by (simp add: p_def valid_payload_def)
qed

subsection \<open>Properties\<close>

text \<open>C14. The transport parser accepts a byte string exactly when it is the canonical frame of the payload
  it returns and the statement names the trusted network. An accepted frame has at most 9265
  bytes, its envelope and bundle are accepted by their own parsers, its header nonce is that of the
  statement, and its approval has the shape of an approval. Conversely an accepted envelope and bundle with
  a verified approval of the bundle travel in an accepted frame that gives the three wires back.\<close>

theorem transport_roundtrip:
  assumes "3 \<le> json_depth E"
  shows "(parse_transport E w tn = Inr p \<longleftrightarrow>
      transport_canonical_bytes E (Some w) p = Inr w \<and>
      tn = PStr (vs_network_id (pe_parsed_statement (tp_parsed_envelope p)))) \<and>
    (parse_transport E w tn = Inr p \<longrightarrow>
      length w \<le> 9265 \<and> parse_envelope E (tp_envelope_wire p) tn = Inr (tp_parsed_envelope p) \<and>
      parse_canonical E (tp_bundle_wire p) = Inr (tp_parsed_bundle p) \<and>
      vs_report_nonce (pe_parsed_statement (tp_parsed_envelope p)) = hex_of_bytes (tp_report_nonce p) \<and>
      (\<exists>v signature. approval_wf v \<and> length signature = 64 \<and> tp_approval_wire p = approval_text v signature)) \<and>
    (parse_envelope E ew tn = Inr e \<and> parse_canonical E bw = Inr b \<and>
      verify_observable_approval E B aw bw ctx = Inr v \<longrightarrow>
      (\<exists>w p. parse_transport E w tn = Inr p \<and> tp_envelope_wire p = ew \<and> tp_bundle_wire p = bw \<and>
        tp_approval_wire p = aw))"
proof (intro conjI impI)
  have d: "1 \<le> json_depth E" using assms by simp
  show "parse_transport E w tn = Inr p \<longleftrightarrow> transport_canonical_bytes E (Some w) p = Inr w \<and>
      tn = PStr (vs_network_id (pe_parsed_statement (tp_parsed_envelope p)))"
    using parse_transport_enc [of E w tn p] parse_transport_dec [OF _ assms, of p]
      transport_canonical_bytes_sound [of E "Some w" p w] transport_canonical_bytes_complete [OF _ d, of p]
    by auto
  show "\<exists>w p. parse_transport E w tn = Inr p \<and> tp_envelope_wire p = ew \<and> tp_bundle_wire p = bw \<and>
        tp_approval_wire p = aw"
    if "parse_envelope E ew tn = Inr e \<and> parse_canonical E bw = Inr b \<and>
      verify_observable_approval E B aw bw ctx = Inr v"
  proof -
    let ?p = "\<lparr>tp_report_nonce = bytes_fromhex (vs_report_nonce (pe_parsed_statement e)), tp_envelope_wire = ew,
      tp_bundle_wire = bw, tp_approval_wire = aw, tp_parsed_envelope = e, tp_parsed_bundle = b\<rparr>"
    have "valid_payload ?p" using that frame_parts [OF _ _ _ d] by blast
    from parse_transport_dec [OF this assms] have "parse_transport E (transport_frame ?p) tn = Inr ?p"
      using that parse_envelope_enc [of E ew tn e] by simp
    then show ?thesis by (intro exI [of _ "transport_frame ?p"] exI [of _ ?p]) simp
  qed
next
  assume "parse_transport E w tn = Inr p"
  note a = parse_transport_enc [OF this]
  then have v: "valid_payload p" by blast
  show "length w \<le> 9265"
    using a valid_payload_sizes [OF v] by (simp add: transport_frame_def frame_sizes_def transport_consts)
  show "parse_envelope E (tp_envelope_wire p) tn = Inr (tp_parsed_envelope p)"
    using a parse_envelope_dec [of "tp_parsed_envelope p" E] assms by (simp add: valid_payload_def)
  show "parse_canonical E (tp_bundle_wire p) = Inr (tp_parsed_bundle p)"
    using v parse_canonical_dec [OF _ assms] by (simp add: valid_payload_def)
  show "vs_report_nonce (pe_parsed_statement (tp_parsed_envelope p)) = hex_of_bytes (tp_report_nonce p)"
    using v by (simp add: valid_payload_def)
  show "\<exists>v signature. approval_wf v \<and> length signature = 64 \<and> tp_approval_wire p = approval_text v signature"
    using v by (simp add: valid_payload_def approval_shape_def)
qed

theorem transport_roundtrip_witness:
  "\<exists>w p. parse_transport ex_env w (plit ''mainnet'') = Inr p \<and> tp_approval_wire p = ex_approval_wire"
proof -
  have d: "3 \<le> json_depth ex_env" by (simp add: ex_env_def)
  let ?e = "envelope_of ex_statement (replicate 64 97)"
  have n: "vs_network_id (pe_parsed_statement ?e) = u ''mainnet''"
    by (simp add: envelope_of_def ex_statement_def)
  have e: "parse_envelope ex_env (envelope_wire ?e) (plit ''mainnet'') = Inr ?e"
    using parse_envelope_dec [of ?e ex_env] ex_statement_valid ex_proof_valid n d
    by (simp add: valid_envelope_of)
  have b: "parse_canonical ex_env (bundle_wire ex_review_bundle) = Inr ex_review_bundle"
    using ex_review_bundle_canonical d by (intro parse_canonical_dec)
  have v: "verify_observable_approval ex_env B0 ex_approval_wire (bundle_wire ex_review_bundle) ex_context = Inr ex_approval"
    using ex_approval_spec d by (simp add: approval_verify_iff)
  have "\<exists>w p. parse_transport ex_env w (plit ''mainnet'') = Inr p \<and> tp_envelope_wire p = envelope_wire ?e \<and>
      tp_bundle_wire p = bundle_wire ex_review_bundle \<and> tp_approval_wire p = ex_approval_wire"
    using transport_roundtrip [OF d] e b v by blast
  then show ?thesis by blast
qed

end
