(* ===== verification/Hint_Acceptance.thy ===== *)
theory Hint_Acceptance
  imports Ledger_Schema
begin

text \<open>
  Models of \<open>jaeger/threat_hint_v2_acceptance.py\<close> and \<open>jaeger/threat_hint_v2_promotion.py\<close>, with the constructors of the
  consumption service they build on. A call takes the world (files, verifier process), the answers of SQLite and the
  ledger, and returns its outcome with the new ledger.
\<close>

subsection \<open>Error translation\<close>

definition map_error :: "('e \<Rightarrow> 'f) \<Rightarrow> 'e + 'a \<Rightarrow> 'f + 'a" where
  "map_error f m = (case m of Inl e \<Rightarrow> Inl (f e) | Inr x \<Rightarrow> Inr x)"

text \<open>\<open>ObservableApprovalConsumptionError\<close> and its subclasses.\<close>

definition is_consumption_error :: "pyexc \<Rightarrow> bool" where
  "is_consumption_error e \<longleftrightarrow>
     e \<in> {ObservableApprovalConsumptionError, ObservableApprovalReplayError, ObservableApprovalBusyError,
          ObservableApprovalGovernanceCandidateError, ObservableApprovalGovernanceUnavailableError,
          ObservableApprovalOutboxError}"

definition is_acceptance_error :: "pyexc \<Rightarrow> bool" where
  "is_acceptance_error e \<longleftrightarrow>
     e \<in> {ThreatHintV2AcceptanceError, ThreatHintV2AcceptanceUnavailableError, ThreatHintV2AcceptanceReplayError,
          ThreatHintV2AcceptanceBusyError}"

definition is_promotion_error :: "pyexc \<Rightarrow> bool" where
  "is_promotion_error e \<longleftrightarrow>
     e \<in> {ThreatHintV2PromotionError, ThreatHintV2PromotionUnavailableError, ThreatHintV2PromotionReplayError,
          ThreatHintV2PromotionBusyError}"

subsection \<open>Building the consumption service\<close>

definition service_from_expected_identity ::
  "(pystr \<Rightarrow> pyval option) \<Rightarrow> preflight_world \<Rightarrow> (pystr list \<Rightarrow> ledger_path_view) \<Rightarrow> db_status \<Rightarrow> pystr list \<Rightarrow>
     pystr \<Rightarrow> bytes \<Rightarrow> bytes \<Rightarrow> ledger_db \<Rightarrow> pyexc + consumption_service \<times> ledger_db" where
  "service_from_expected_identity toml W pv st policy_path network approver scope db =
     rbind (load_observable_approval_policy toml (pw_uid W) policy_path (pw_fs W policy_path)) (\<lambda>policy.
     if network \<noteq> ap_network_id policy then Inl ObservableApprovalConsumptionError
     else if approver \<noteq> ap_approver_xonly_public_key policy then Inl ObservableApprovalConsumptionError
     else if scope \<noteq> ap_recipient_scope policy then Inl ObservableApprovalConsumptionError
     else rbind (open_ledger (pw_uid W) st (ap_ledger_path policy) (pv (ap_ledger_path policy)) False False db) (\<lambda>db'.
          Inr (\<lparr>cs_policy = policy, cs_governance = None, cs_outbox = False\<rparr>, db')))"

definition service_from_governed_expected_identity ::
  "(pystr \<Rightarrow> pyval option) \<Rightarrow> preflight_world \<Rightarrow> (pystr list \<Rightarrow> ledger_path_view) \<Rightarrow> db_status \<Rightarrow> pystr list \<Rightarrow>
     pystr list \<Rightarrow> pystr list \<Rightarrow> pystr \<Rightarrow> bytes \<Rightarrow> bytes \<Rightarrow> ObservableKind set \<Rightarrow> bytes \<Rightarrow> bool \<Rightarrow> ledger_db \<Rightarrow>
     pyexc + consumption_service \<times> ledger_db" where
  "service_from_governed_expected_identity toml W pv st policy_path governance_path retention_path network approver scope
      kinds promotion_sha256 durable_outbox db =
     rbind (validate_expected_identity ObservableApprovalConsumptionError network approver scope) (\<lambda>_.
     if length promotion_sha256 \<noteq> FIXED_HASH_BYTES then Inl ObservableApprovalConsumptionError
     else rbind (load_observable_approval_policy toml (pw_uid W) policy_path (pw_fs W policy_path)) (\<lambda>policy.
          rbind (require_expected_policy_identity policy network approver scope) (\<lambda>_.
          if kinds = {} then Inl ObservableApprovalConsumptionError
          else rbind (catch (rbind (load_threat_hint_v2_governance_policy toml (pw_uid W) governance_path
                                      (pw_fs W governance_path) network approver scope) (\<lambda>governance.
                             rbind (load_outbox_retention_policy toml (pw_uid W) retention_path
                                      (pw_fs W retention_path) network approver scope) (\<lambda>retention.
                             Inr (governance, retention))))
                        (\<lambda>e. e = ThreatHintV2GovernancePolicyError \<or> e = OutboxRetentionPolicyError)
                        (\<lambda>_. Inl ObservableApprovalConsumptionError)) (\<lambda>(governance, retention).
               if gp_allowed_observable_kinds governance \<noteq> kinds \<or> rp_durable_observable_kinds retention \<noteq> kinds
               then Inl ObservableApprovalConsumptionError
               else rbind (open_ledger (pw_uid W) st (ap_ledger_path policy) (pv (ap_ledger_path policy)) True
                             durable_outbox db) (\<lambda>db'.
                    Inr (\<lparr>cs_policy = policy,
                          cs_governance = Some \<lparr>gb_policy = governance, gb_retention = retention,
                                                gb_promotion_policy_sha256 = promotion_sha256\<rparr>,
                          cs_outbox = durable_outbox\<rparr>, db'))))))"

subsection \<open>Acceptance\<close>

record ThreatHintV2AcceptanceReceipt =
  tr_statement_digest :: bytes
  tr_approval_id :: bytes
  tr_observable_commitment :: bytes
  tr_consumed_at :: int
  tr_raw_manifest_sha256_hex :: pystr
  tr_envelope_sha256_hex :: pystr
  tr_verifier_executable_sha256_hex :: pystr

record ThreatHintV2AcceptanceService =
  as_governed :: bool
  as_durable_outbox :: bool
  as_verified_preflight :: ThreatHintV2VerifiedPreflightService
  as_consumption :: consumption_service

definition construction_error :: "pyexc \<Rightarrow> pyexc" where
  "construction_error e =
     (if e = ObservableApprovalBusyError then ThreatHintV2AcceptanceBusyError
      else if is_consumption_error e then ThreatHintV2AcceptanceUnavailableError else e)"

definition trusted_preflight ::
  "(pystr \<Rightarrow> pyval option) \<Rightarrow> preflight_world \<Rightarrow> pystr list \<Rightarrow> pystr list \<Rightarrow> pyexc + ThreatHintV2VerifiedPreflightService" where
  "trusted_preflight toml W config_path preflight_policy_path =
     catch (verified_preflight_service toml W config_path preflight_policy_path)
       (\<lambda>e. verified_error e \<or> e = ThreatHintV2PreflightError) (\<lambda>_. Inl ThreatHintV2AcceptanceUnavailableError)"

definition acceptance_service ::
  "(pystr \<Rightarrow> pyval option) \<Rightarrow> preflight_world \<Rightarrow> (pystr list \<Rightarrow> ledger_path_view) \<Rightarrow> db_status \<Rightarrow> pystr list \<Rightarrow>
     pystr list \<Rightarrow> pystr list \<Rightarrow> ledger_db \<Rightarrow> pyexc + ThreatHintV2AcceptanceService \<times> ledger_db" where
  "acceptance_service toml W pv st config_path preflight_policy_path consumption_policy_path db =
     rbind (trusted_preflight toml W config_path preflight_policy_path) (\<lambda>vp.
     rbind (map_error construction_error
              (service_from_expected_identity toml W pv st consumption_policy_path (pp_network_id (vp_policy vp))
                 (pp_approver_xonly_public_key (vp_policy vp)) (pp_recipient_scope (vp_policy vp)) db)) (\<lambda>(S, db').
     Inr (\<lparr>as_governed = False, as_durable_outbox = False, as_verified_preflight = vp, as_consumption = S\<rparr>, db')))"

definition governed_acceptance_service ::
  "(pystr \<Rightarrow> pyval option) \<Rightarrow> preflight_world \<Rightarrow> (pystr list \<Rightarrow> ledger_path_view) \<Rightarrow> db_status \<Rightarrow> pystr list \<Rightarrow>
     pystr list \<Rightarrow> pystr list \<Rightarrow> pystr list \<Rightarrow> pystr list \<Rightarrow> ObservableKind set \<Rightarrow> bytes \<Rightarrow> bool \<Rightarrow> ledger_db \<Rightarrow>
     pyexc + ThreatHintV2AcceptanceService \<times> ledger_db" where
  "governed_acceptance_service toml W pv st config_path preflight_policy_path consumption_policy_path
      governance_policy_path retention_policy_path kinds promotion_sha256 durable_outbox db =
     rbind (trusted_preflight toml W config_path preflight_policy_path) (\<lambda>vp.
     rbind (map_error construction_error
              (service_from_governed_expected_identity toml W pv st consumption_policy_path governance_policy_path
                 retention_policy_path (pp_network_id (vp_policy vp)) (pp_approver_xonly_public_key (vp_policy vp))
                 (pp_recipient_scope (vp_policy vp)) kinds promotion_sha256 durable_outbox db)) (\<lambda>(S, db').
     Inr (\<lparr>as_governed = True, as_durable_outbox = durable_outbox, as_verified_preflight = vp, as_consumption = S\<rparr>, db')))"

text \<open>The handlers of \<open>accept\<close>, in their order.\<close>

definition precheck_handler :: "pyexc \<Rightarrow> pyexc" where
  "precheck_handler e =
     (if e = ObservableApprovalGovernanceUnavailableError then ThreatHintV2AcceptanceUnavailableError
      else if e = ObservableApprovalBusyError then ThreatHintV2AcceptanceBusyError
      else if is_consumption_error e then ThreatHintV2AcceptanceError else e)"

definition preflight_handler :: "pyexc \<Rightarrow> pyexc" where
  "preflight_handler e =
     (if e = ThreatHintV2VerifiedPreflightBusyError then ThreatHintV2AcceptanceBusyError
      else if e = ThreatHintV2VerifiedPreflightUnavailableError then ThreatHintV2AcceptanceUnavailableError
      else if e = ThreatHintV2VerifiedPreflightError then ThreatHintV2AcceptanceError else e)"

definition consume_handler :: "pyexc \<Rightarrow> pyexc" where
  "consume_handler e =
     (if e = ObservableApprovalReplayError then ThreatHintV2AcceptanceReplayError
      else if e = ObservableApprovalBusyError then ThreatHintV2AcceptanceBusyError
      else if e = ObservableApprovalGovernanceCandidateError then ThreatHintV2AcceptanceError
      else if e = ObservableApprovalGovernanceUnavailableError then ThreatHintV2AcceptanceUnavailableError
      else if is_consumption_error e then ThreatHintV2AcceptanceUnavailableError else e)"

definition acceptance_receipt :: "ThreatHintV2VerifiedPreflightReceipt \<Rightarrow> int \<Rightarrow> ThreatHintV2AcceptanceReceipt" where
  "acceptance_receipt r consumed_at =
     \<lparr>tr_statement_digest = vr_statement_digest r, tr_approval_id = vr_approval_id r,
      tr_observable_commitment = vr_observable_commitment r, tr_consumed_at = consumed_at,
      tr_raw_manifest_sha256_hex = vr_raw_manifest_sha256_hex r, tr_envelope_sha256_hex = vr_envelope_sha256_hex r,
      tr_verifier_executable_sha256_hex = vr_verifier_executable_sha256_hex r\<rparr>"

definition verified_statement_wire :: "py_env \<Rightarrow> bytes \<Rightarrow> pystr \<Rightarrow> bytes \<Rightarrow> pyexc + bytes" where
  "verified_statement_wire E env_bytes network expected_digest =
     rbind (catch (rbind (parse_envelope E env_bytes (PStr network)) (\<lambda>env.
                   let registered = utf8_encode (pe_statement env)
                   in rbind (statement_canonical_bytes registered (pe_parsed_statement env)) (\<lambda>statement_bytes.
                      rbind (statement_digest registered (pe_parsed_statement env)) (\<lambda>digest.
                      Inr (statement_bytes, digest)))))
              is_value_error (\<lambda>_. Inl ThreatHintV2AcceptanceUnavailableError)) (\<lambda>(statement_bytes, digest).
     if digest \<noteq> expected_digest then Inl ThreatHintV2AcceptanceUnavailableError else Inr statement_bytes)"

text \<open>Everything before the consumption; nothing here writes. The first status is of the precheck, the next two of the
  consumption and of its replay probe.\<close>

definition accept_checks ::
  "py_env \<Rightarrow> bip340 \<Rightarrow> preflight_world \<Rightarrow> db_status \<Rightarrow> ThreatHintV2AcceptanceService \<Rightarrow> bytes \<Rightarrow> bytes \<Rightarrow> bytes \<Rightarrow> bytes \<Rightarrow>
     int \<Rightarrow> ledger \<Rightarrow> pyexc + ThreatHintV2VerifiedPreflightReceipt \<times> bytes option" where
  "accept_checks E B W st A env_bytes bundle_bytes approval_bytes report_nonce current_time L =
     rbind (if as_governed A
            then map_error precheck_handler
                   (precheck_governance E B st (as_consumption A) approval_bytes bundle_bytes report_nonce current_time L)
            else Inr ()) (\<lambda>_.
     rbind (map_error preflight_handler
              (verified_preflight E B W (as_verified_preflight A) env_bytes bundle_bytes approval_bytes report_nonce
                 current_time)) (\<lambda>verified.
     rbind (if as_durable_outbox A
            then rbind (verified_statement_wire E env_bytes (pp_network_id (vp_policy (as_verified_preflight A)))
                          (vr_statement_digest verified)) (\<lambda>w. Inr (Some w))
            else Inr None) (\<lambda>statement_bytes.
     Inr (verified, statement_bytes))))"

definition accept ::
  "py_env \<Rightarrow> bip340 \<Rightarrow> preflight_world \<Rightarrow> db_status \<Rightarrow> db_status \<Rightarrow> db_status \<Rightarrow> ThreatHintV2AcceptanceService \<Rightarrow> bytes \<Rightarrow>
     bytes \<Rightarrow> bytes \<Rightarrow> bytes \<Rightarrow> int \<Rightarrow> ledger \<Rightarrow> (pyexc + ThreatHintV2AcceptanceReceipt) \<times> ledger" where
  "accept E B W st st2 st3 A env_bytes bundle_bytes approval_bytes report_nonce current_time L =
     (case accept_checks E B W st A env_bytes bundle_bytes approval_bytes report_nonce current_time L of
        Inl e \<Rightarrow> (Inl e, L)
      | Inr (verified, statement_bytes) \<Rightarrow>
          (case consume_expected E B st2 st3 (as_consumption A) approval_bytes bundle_bytes report_nonce current_time
                  (vr_approval_id verified) (vr_observable_commitment verified) statement_bytes L of
             (Inl e, L') \<Rightarrow> (Inl (consume_handler e), L')
           | (Inr r, L') \<Rightarrow> (Inr (acceptance_receipt verified (ac_consumed_at r)), L')))"

subsection \<open>Promotion\<close>

record ThreatHintV2PromotionPolicy =
  mp_scope_platform :: ScopePlatform
  mp_scope_format :: ScopeFormat
  mp_allowed_observable_kinds :: "ObservableKind set"
  mp_max_observables :: int
  mp_policy_sha256 :: bytes

record ThreatHintV2PromotionResult =
  mr_statement_digest :: bytes
  mr_approval_id :: bytes
  mr_observable_commitment :: bytes
  mr_consumed_at :: int
  mr_scope_platform :: pystr
  mr_scope_format :: pystr
  mr_observables :: "(pystr \<times> pystr) list"

record ThreatHintV2PromotionService =
  ms_policy :: ThreatHintV2PromotionPolicy
  ms_acceptance :: ThreatHintV2AcceptanceService

definition promotion_policy_fields :: "string list" where
  "promotion_policy_fields =
     [''schema_version'', ''scope_platform'', ''scope_format'', ''allowed_observable_kinds'', ''max_observables'']"

definition parse_scope_platform :: "pyval \<Rightarrow> pyexc + ScopePlatform" where
  "parse_scope_platform v =
     (if \<not> is_str v then Inl ThreatHintV2PromotionError
      else case platform_of (the_str v) of None \<Rightarrow> Inl ThreatHintV2PromotionError | Some p \<Rightarrow> Inr p)"

definition parse_scope_format :: "pyval \<Rightarrow> pyexc + ScopeFormat" where
  "parse_scope_format v =
     (if \<not> is_str v then Inl ThreatHintV2PromotionError
      else case format_of (the_str v) of None \<Rightarrow> Inl ThreatHintV2PromotionError | Some f \<Rightarrow> Inr f)"

fun parse_allowed_loop :: "pyval list \<Rightarrow> ObservableKind list \<Rightarrow> pyexc + ObservableKind list" where
  "parse_allowed_loop [] kinds = Inr kinds"
| "parse_allowed_loop (item # items) kinds =
     (if \<not> is_str item then Inl ThreatHintV2PromotionError
      else case kind_of (the_str item) of
             None \<Rightarrow> Inl ThreatHintV2PromotionError
           | Some kind \<Rightarrow>
               (if kind \<in> set kinds then Inl ThreatHintV2PromotionError else parse_allowed_loop items (kinds @ [kind])))"

definition parse_allowed_kinds :: "pyval \<Rightarrow> pyexc + ObservableKind set" where
  "parse_allowed_kinds v =
     (case v of
        PList items \<Rightarrow>
          (if items = [] then Inl ThreatHintV2PromotionError
           else rbind (parse_allowed_loop items []) (\<lambda>kinds. Inr (set kinds)))
      | _ \<Rightarrow> Inl ThreatHintV2PromotionError)"

definition parse_max_observables :: "pyval \<Rightarrow> pyexc + int" where
  "parse_max_observables v = (if int_in 1 (int MAX_OBSERVABLES) v then Inr (the_int v) else Inl ThreatHintV2PromotionError)"

definition load_promotion_policy ::
  "(pystr \<Rightarrow> pyval option) \<Rightarrow> nat \<Rightarrow> pystr list \<Rightarrow> file_view \<Rightarrow> pyexc + ThreatHintV2PromotionPolicy" where
  "load_promotion_policy toml uid path f =
     (let e = ThreatHintV2PromotionError
      in rbind (read_policy_file e uid path f) (\<lambda>contents.
         rbind (parse_policy_document e toml promotion_policy_fields contents) (\<lambda>d.
         rbind (parse_scope_platform (dict_at d ''scope_platform'')) (\<lambda>platform.
         rbind (parse_scope_format (dict_at d ''scope_format'')) (\<lambda>format.
         rbind (parse_allowed_kinds (dict_at d ''allowed_observable_kinds'')) (\<lambda>kinds.
         rbind (parse_max_observables (dict_at d ''max_observables'')) (\<lambda>maximum.
         Inr \<lparr>mp_scope_platform = platform, mp_scope_format = format, mp_allowed_observable_kinds = kinds,
              mp_max_observables = maximum, mp_policy_sha256 = sha256 contents\<rparr>)))))))"

definition promotion_construction_error :: "pyexc \<Rightarrow> pyexc" where
  "promotion_construction_error e =
     (if e = ThreatHintV2AcceptanceBusyError then ThreatHintV2PromotionBusyError
      else if is_acceptance_error e then ThreatHintV2PromotionUnavailableError else e)"

definition trusted_promotion_policy ::
  "(pystr \<Rightarrow> pyval option) \<Rightarrow> preflight_world \<Rightarrow> pystr list \<Rightarrow> pyexc + ThreatHintV2PromotionPolicy" where
  "trusted_promotion_policy toml W path =
     catch (load_promotion_policy toml (pw_uid W) path (pw_fs W path)) is_promotion_error
       (\<lambda>_. Inl ThreatHintV2PromotionUnavailableError)"

definition promotion_service ::
  "(pystr \<Rightarrow> pyval option) \<Rightarrow> preflight_world \<Rightarrow> (pystr list \<Rightarrow> ledger_path_view) \<Rightarrow> db_status \<Rightarrow> pystr list \<Rightarrow>
     pystr list \<Rightarrow> pystr list \<Rightarrow> pystr list \<Rightarrow> ledger_db \<Rightarrow> pyexc + ThreatHintV2PromotionService \<times> ledger_db" where
  "promotion_service toml W pv st config_path preflight_policy_path consumption_policy_path promotion_policy_path db =
     rbind (trusted_promotion_policy toml W promotion_policy_path) (\<lambda>policy.
     rbind (map_error promotion_construction_error
              (acceptance_service toml W pv st config_path preflight_policy_path consumption_policy_path db)) (\<lambda>(A, db').
     Inr (\<lparr>ms_policy = policy, ms_acceptance = A\<rparr>, db')))"

definition governed_promotion_service ::
  "(pystr \<Rightarrow> pyval option) \<Rightarrow> preflight_world \<Rightarrow> (pystr list \<Rightarrow> ledger_path_view) \<Rightarrow> db_status \<Rightarrow> pystr list \<Rightarrow>
     pystr list \<Rightarrow> pystr list \<Rightarrow> pystr list \<Rightarrow> pystr list \<Rightarrow> pystr list \<Rightarrow> ledger_db \<Rightarrow>
     pyexc + ThreatHintV2PromotionService \<times> ledger_db" where
  "governed_promotion_service toml W pv st config_path preflight_policy_path consumption_policy_path promotion_policy_path
      governance_policy_path retention_policy_path db =
     rbind (trusted_promotion_policy toml W promotion_policy_path) (\<lambda>policy.
     rbind (map_error promotion_construction_error
              (governed_acceptance_service toml W pv st config_path preflight_policy_path consumption_policy_path
                 governance_policy_path retention_policy_path (mp_allowed_observable_kinds policy) (mp_policy_sha256 policy)
                 True db)) (\<lambda>(A, db').
     Inr (\<lparr>ms_policy = policy, ms_acceptance = A\<rparr>, db')))"

text \<open>Steps 1 to 4 of \<open>_promote\<close>.\<close>

definition promotion_checks ::
  "py_env \<Rightarrow> ThreatHintV2PromotionPolicy \<Rightarrow> bytes \<Rightarrow> bytes \<Rightarrow> int \<Rightarrow> pyexc + ObservableBundle" where
  "promotion_checks E policy bundle_bytes report_nonce current_time =
     (if length report_nonce \<noteq> FIXED_HASH_BYTES \<or> current_time < 1 \<or> U64_MAX < current_time
      then Inl ThreatHintV2PromotionError
      else rbind (raise_oerr (parse_canonical E bundle_bytes)) (\<lambda>bundle.
           rbind (raise_if (obu_disclosure_policy bundle \<noteq> REVIEW_REQUIRED_V1) ThreatHintV2PromotionError) (\<lambda>_.
           rbind (raise_if (os_platform (obu_scope bundle) \<noteq> mp_scope_platform policy \<or>
                            os_format (obu_scope bundle) \<noteq> mp_scope_format policy) ThreatHintV2PromotionError) (\<lambda>_.
           rbind (raise_if (\<exists>ob \<in> set (obu_observables bundle). ob_kind ob \<notin> mp_allowed_observable_kinds policy)
                    ThreatHintV2PromotionError) (\<lambda>_.
           rbind (raise_if (mp_max_observables policy < int (length (obu_observables bundle)))
                    ThreatHintV2PromotionError) (\<lambda>_.
           Inr bundle))))))"

definition accept_handler :: "pyexc \<Rightarrow> pyexc" where
  "accept_handler e =
     (if e = ThreatHintV2AcceptanceBusyError then ThreatHintV2PromotionBusyError
      else if e = ThreatHintV2AcceptanceReplayError then ThreatHintV2PromotionReplayError
      else if e = ThreatHintV2AcceptanceUnavailableError then ThreatHintV2PromotionUnavailableError
      else if e = ThreatHintV2AcceptanceError then ThreatHintV2PromotionError else e)"

definition promotion_result :: "ThreatHintV2AcceptanceReceipt \<Rightarrow> ObservableBundle \<Rightarrow> ThreatHintV2PromotionResult" where
  "promotion_result r bundle =
     \<lparr>mr_statement_digest = tr_statement_digest r, mr_approval_id = tr_approval_id r,
      mr_observable_commitment = tr_observable_commitment r, mr_consumed_at = tr_consumed_at r,
      mr_scope_platform = platform_value (os_platform (obu_scope bundle)),
      mr_scope_format = format_value (os_format (obu_scope bundle)),
      mr_observables = map (\<lambda>ob. (kind_value (ob_kind ob), ob_value ob)) (obu_observables bundle)\<rparr>"

text \<open>\<open>promote\<close>: what is not a promotion error and is caught becomes one.\<close>

definition promote_handler :: "pyexc \<Rightarrow> pyexc" where
  "promote_handler e =
     (if is_promotion_error e then e else if redactable e then ThreatHintV2PromotionError else e)"

definition promote_inner ::
  "py_env \<Rightarrow> bip340 \<Rightarrow> preflight_world \<Rightarrow> db_status \<Rightarrow> db_status \<Rightarrow> db_status \<Rightarrow> ThreatHintV2PromotionService \<Rightarrow> bytes \<Rightarrow>
     bytes \<Rightarrow> bytes \<Rightarrow> bytes \<Rightarrow> int \<Rightarrow> ledger \<Rightarrow> (pyexc + ThreatHintV2PromotionResult) \<times> ledger" where
  "promote_inner E B W st st2 st3 M env_bytes bundle_bytes approval_bytes report_nonce current_time L =
     (case promotion_checks E (ms_policy M) bundle_bytes report_nonce current_time of
        Inl e \<Rightarrow> (Inl e, L)
      | Inr bundle \<Rightarrow>
          (case accept E B W st st2 st3 (ms_acceptance M) env_bytes bundle_bytes approval_bytes report_nonce
                  current_time L of
             (Inl e, L') \<Rightarrow> (Inl (accept_handler e), L')
           | (Inr r, L') \<Rightarrow> (Inr (promotion_result r bundle), L')))"

definition promote ::
  "py_env \<Rightarrow> bip340 \<Rightarrow> preflight_world \<Rightarrow> db_status \<Rightarrow> db_status \<Rightarrow> db_status \<Rightarrow> ThreatHintV2PromotionService \<Rightarrow> bytes \<Rightarrow>
     bytes \<Rightarrow> bytes \<Rightarrow> bytes \<Rightarrow> int \<Rightarrow> ledger \<Rightarrow> (pyexc + ThreatHintV2PromotionResult) \<times> ledger" where
  "promote E B W st st2 st3 M env_bytes bundle_bytes approval_bytes report_nonce current_time L =
     (case promote_inner E B W st st2 st3 M env_bytes bundle_bytes approval_bytes report_nonce current_time L of
        (Inl e, L') \<Rightarrow> (Inl (promote_handler e), L')
      | (Inr r, L') \<Rightarrow> (Inr r, L'))"

subsection \<open>Which errors leave the services\<close>

text \<open>The exceptions of the parsers that a handler for \<open>ValueError\<close> lets through.\<close>

definition escaping :: "pyexc \<Rightarrow> bool" where
  "escaping e \<longleftrightarrow> redactable e \<and> \<not> is_value_error e"

definition consumption_outcome :: "pyexc \<Rightarrow> bool" where
  "consumption_outcome e \<longleftrightarrow> is_consumption_error e \<or> escaping e"

lemma consumption_outcome_simps [simp]:
  "consumption_outcome ObservableApprovalConsumptionError" "consumption_outcome ObservableApprovalReplayError"
  "consumption_outcome ObservableApprovalBusyError" "consumption_outcome ObservableApprovalGovernanceCandidateError"
  "consumption_outcome ObservableApprovalGovernanceUnavailableError" "consumption_outcome ObservableApprovalOutboxError"
  by (simp_all add: consumption_outcome_def is_consumption_error_def)

lemma status_error_outcome: "consumption_outcome x \<Longrightarrow> consumption_outcome (status_error x st)"
  by (cases st) simp_all

lemma raises_value_catch:
  "raises redactable m \<Longrightarrow> consumption_outcome x \<Longrightarrow> raises consumption_outcome (catch m is_value_error (\<lambda>_. Inl x))"
  by (auto simp: raises_def catch_def consumption_outcome_def escaping_def split: sum.splits)

lemma service_verify_raises: "raises consumption_outcome (service_verify E B S aw bw nonce t)"
proof -
  let ?ctx = "service_context S nonce t"
  have "raises (\<lambda>e. e = ObservableApprovalError \<or> consumption_outcome e) (verify_observable_approval E B aw bw ?ctx)"
    using verify_observable_approval_raises [of E B aw bw ?ctx]
    by (auto simp: raises_def verify_observable_approval_def catch_def consumption_outcome_def escaping_def
        split: sum.splits if_splits)
  then show ?thesis unfolding service_verify_def
    by (intro raises_intros) (simp, rule raises_catch, simp_all)
qed

lemma validate_governance_raises: "raises consumption_outcome (validate_governance E v bw t g)"
  unfolding validate_governance_def
  by (intro raises_intros raises_value_catch) (simp_all add: raises_intros)

lemma validate_outbox_statement_raises: "raises consumption_outcome (validate_outbox_statement E sw n c k)"
  unfolding validate_outbox_statement_def
  by (intro raises_intros raises_value_catch) simp_all

lemma recompute_commitment_raises: "raises consumption_outcome (recompute_commitment E bw n k)"
  unfolding recompute_commitment_def by (intro raises_value_catch raises_intros) simp

text \<open>Errors of a transaction.\<close>

definition tx_outcome :: "txerr \<Rightarrow> bool" where
  "tx_outcome x = (case x of Raise e \<Rightarrow> consumption_outcome e | _ \<Rightarrow> True)"

lemma tx_outcome_simps [simp]:
  "tx_outcome (Raise e) = consumption_outcome e" "tx_outcome Integrity" "tx_outcome Overflow"
  by (simp_all add: tx_outcome_def)

lemma tx_raises:
  "raises consumption_outcome m \<Longrightarrow> raises tx_outcome (raise_tx m)"
  "raises tx_outcome (check c)" "raises tx_outcome (bind_int n)"
  by (auto simp: raises_def raise_tx_def check_def bind_int_def split: sum.splits)

lemma authority_raises:
  "raises consumption_outcome (validate_authority_snapshot row g)"
  "raises tx_outcome (apply_authority_snapshot g L)"
proof -
  show v: "raises consumption_outcome (validate_authority_snapshot row g)" for row
    unfolding validate_authority_snapshot_def Let_def by (intro raises_intros; simp)
  have "raises tx_outcome (write_authority g L)"
    unfolding write_authority_def Let_def by (intro raises_intros tx_raises)
  then show "raises tx_outcome (apply_authority_snapshot g L)"
    unfolding apply_authority_snapshot_def by (intro raises_intros tx_raises v; simp)
qed

lemma enqueue_outbox_raises: "raises tx_outcome (enqueue_outbox E v bw sw nonce t retention L)"
  unfolding enqueue_outbox_def insert_outbox_def insert_pairing_def Let_def
  by (intro raises_intros tx_raises validate_outbox_statement_raises recompute_commitment_raises; simp)

lemma consume_tx_raises: "raises tx_outcome (consume_tx E ob v t g bw sw nonce L)"
  unfolding consume_tx_def advance_time_def insert_consumption_def
  by (intro raises_intros tx_raises authority_raises enqueue_outbox_raises; simp)

lemma replay_probe_outcome: "consumption_outcome (replay_probe E st pairing v sw nonce L)"
proof -
  have "raises consumption_outcome (catch (rbind (validate_outbox_statement E w n c k) (\<lambda>d. Inr (Some d)))
      (\<lambda>e. e = ObservableApprovalOutboxError) (\<lambda>_. Inr None))" for w n c k
    using validate_outbox_statement_raises [of E w n c k]
    by (auto simp: raises_def catch_def rbind_def split: sum.splits)
  then show ?thesis
    unfolding replay_probe_def
    by (auto simp: raises_def status_error_outcome split: sum.splits option.splits if_splits)
qed

lemma consume_core_outcome:
  "raises consumption_outcome (fst (ledger_consume_core E st st2 ob v t g bw sw nonce L))"
  using consume_tx_raises [of E ob v t g bw "case sw of None \<Rightarrow> [] | Some w \<Rightarrow> w" nonce L]
  by (auto simp: ledger_consume_core_def raises_def status_error_outcome replay_probe_outcome
      split: sum.splits txerr.splits)

lemma consume_expected_outcome:
  "raises consumption_outcome (fst (consume_expected E B st st2 S aw bw nonce t i c sw L))"
proof -
  have "raises consumption_outcome (fst (consume_verified E st st2 S v bw sw nonce t L))" for v
    using validate_governance_raises [of E v bw t] consume_core_outcome
    by (auto simp: consume_verified_def consume_governed_def raises_def split: sum.splits option.splits)
  then show ?thesis using service_verify_raises [of E B S aw bw nonce t]
    by (auto simp: consume_expected_def raises_def split: sum.splits)
qed

lemma precheck_outcome: "raises consumption_outcome (precheck_governance E B st S aw bw nonce t L)"
  unfolding precheck_governance_def assert_authority_snapshot_def
  by (intro raises_intros service_verify_raises validate_governance_raises authority_raises; simp add: status_error_outcome)

text \<open>What \<open>accept\<close> raises, and that it then has not written.\<close>

definition acceptance_outcome :: "pyexc \<Rightarrow> bool" where
  "acceptance_outcome e \<longleftrightarrow> is_acceptance_error e \<or> escaping e"

lemma raises_map_error: "raises P m \<Longrightarrow> (\<And>e. P e \<Longrightarrow> Q (f e)) \<Longrightarrow> raises Q (map_error f m)"
  by (auto simp: raises_def map_error_def split: sum.splits)

lemma handlers_outcome:
  "consumption_outcome e \<Longrightarrow> acceptance_outcome (precheck_handler e)"
  "consumption_outcome e \<Longrightarrow> acceptance_outcome (consume_handler e)"
  "verified_error e \<Longrightarrow> acceptance_outcome (preflight_handler e)"
  by (auto simp: acceptance_outcome_def is_acceptance_error_def consumption_outcome_def precheck_handler_def
      consume_handler_def preflight_handler_def verified_error_def is_consumption_error_def)

lemma verified_statement_wire_outcome: "raises acceptance_outcome (verified_statement_wire E w n d)"
proof -
  have "raises redactable (rbind (parse_envelope E w (PStr n)) (\<lambda>env.
      let registered = utf8_encode (pe_statement env)
      in rbind (statement_canonical_bytes registered (pe_parsed_statement env)) (\<lambda>statement_bytes.
         rbind (statement_digest registered (pe_parsed_statement env)) (\<lambda>digest.
         Inr (statement_bytes, digest)))))"
    unfolding Let_def by (intro raises_intros)
  then have "raises acceptance_outcome (catch (rbind (parse_envelope E w (PStr n)) (\<lambda>env.
      let registered = utf8_encode (pe_statement env)
      in rbind (statement_canonical_bytes registered (pe_parsed_statement env)) (\<lambda>statement_bytes.
         rbind (statement_digest registered (pe_parsed_statement env)) (\<lambda>digest.
         Inr (statement_bytes, digest))))) is_value_error (\<lambda>_. Inl ThreatHintV2AcceptanceUnavailableError))"
    by (auto simp: raises_def catch_def acceptance_outcome_def escaping_def is_acceptance_error_def split: sum.splits)
  then show ?thesis unfolding verified_statement_wire_def
    by (intro raises_intros) (auto simp: acceptance_outcome_def is_acceptance_error_def)
qed

lemma accept_checks_outcome: "raises acceptance_outcome (accept_checks E B W st A we bw aw nonce t L)"
  unfolding accept_checks_def
  by (intro raises_intros raises_map_error [OF precheck_outcome] raises_map_error [OF verified_preflight_error]
      verified_statement_wire_outcome handlers_outcome)

lemma consume_expected_fails:
  assumes "consume_expected E B st st2 S aw bw nonce t i c sw L = (Inl e, L')"
  shows "L' = L"
  using assms
proof (cases rule: consume_expected_cases)
  case (ok v)
  from ok(4) show ?thesis by (cases rule: consume_verified_cases) simp_all
qed simp

lemma accept_fails:
  assumes "accept E B W st st2 st3 A we bw aw nonce t L = (Inl e, L')"
  shows "L' = L \<and> acceptance_outcome e"
proof (cases "accept_checks E B W st A we bw aw nonce t L")
  case (Inl x)
  then show ?thesis using assms raisesD [OF accept_checks_outcome Inl] by (simp add: accept_def)
next
  case (Inr y)
  obtain r sw where y: "y = (r, sw)" by (cases y)
  obtain z L1 where z: "consume_expected E B st2 st3 (as_consumption A) aw bw nonce t (vr_approval_id r)
      (vr_observable_commitment r) sw L = (z, L1)" by (cases "consume_expected E B st2 st3 (as_consumption A) aw bw nonce t
      (vr_approval_id r) (vr_observable_commitment r) sw L")
  with assms Inr y obtain x where x: "z = Inl x" "e = consume_handler x" "L' = L1"
    by (cases z) (auto simp: accept_def)
  have "consumption_outcome x"
    using consume_expected_outcome [of E B st2 st3 "as_consumption A" aw bw nonce t "vr_approval_id r"
        "vr_observable_commitment r" sw L] z x(1) by (simp add: raises_def)
  then show ?thesis using x z consume_expected_fails handlers_outcome(2) by blast
qed

lemma promote_fails:
  assumes "promote E B W st st2 st3 M we bw aw nonce t L = (Inl e, L')"
  shows "L' = L \<and> is_promotion_error e"
proof -
  obtain x where x: "promote_inner E B W st st2 st3 M we bw aw nonce t L = (Inl x, L')" "e = promote_handler x"
    using assms by (auto simp: promote_def split: prod.splits sum.splits)
  have "L' = L \<and> (is_promotion_error x \<or> redactable x)"
  proof (cases "promotion_checks E (ms_policy M) bw nonce t")
    case (Inl y)
    have "raises redactable (promotion_checks E (ms_policy M) bw nonce t)"
      unfolding promotion_checks_def by (intro raises_intros; simp)
    then show ?thesis using x(1) Inl by (auto simp: promote_inner_def raises_def)
  next
    case (Inr b)
    then obtain y where y: "accept E B W st st2 st3 (ms_acceptance M) we bw aw nonce t L = (Inl y, L')" "x = accept_handler y"
      using x(1) by (auto simp: promote_inner_def split: prod.splits sum.splits)
    have "L' = L" "acceptance_outcome y" using accept_fails [OF y(1)] by simp_all
    then show ?thesis
      by (auto simp: y(2) accept_handler_def acceptance_outcome_def escaping_def is_acceptance_error_def is_promotion_error_def)
  qed
  then show ?thesis by (auto simp: x(2) promote_handler_def) (simp add: is_promotion_error_def)
qed

subsection \<open>What an acceptance takes\<close>

text \<open>A promotion service with governance and durable outbox whose policies agree on their identity.\<close>

definition governed_promotion :: "ThreatHintV2PromotionService \<Rightarrow> GovernanceBinding \<Rightarrow> bool" where
  "governed_promotion M g \<longleftrightarrow>
     as_governed (ms_acceptance M) \<and> as_durable_outbox (ms_acceptance M) \<and>
     cs_governance (as_consumption (ms_acceptance M)) = Some g \<and> cs_outbox (as_consumption (ms_acceptance M)) \<and>
     (let p = vp_policy (as_verified_preflight (ms_acceptance M)); q = cs_policy (as_consumption (ms_acceptance M))
      in ap_network_id q = pp_network_id p \<and> ap_approver_xonly_public_key q = pp_approver_xonly_public_key p \<and>
         ap_recipient_scope q = pp_recipient_scope p) \<and>
     service_ok (as_consumption (ms_acceptance M)) \<and>
     gp_allowed_observable_kinds (gb_policy g) = mp_allowed_observable_kinds (ms_policy M) \<and>
     gb_promotion_policy_sha256 g = mp_policy_sha256 (ms_policy M)"

lemma load_governance_network:
  "load_threat_hint_v2_governance_policy toml uid path f n k s = Inr g \<Longrightarrow> gp_network_id g = n"
  by (auto simp: load_threat_hint_v2_governance_policy_def Let_def)

lemma map_error_Inr [simp]: "map_error f m = Inr x \<longleftrightarrow> m = Inr x"
  by (simp add: map_error_def split: sum.splits)

lemma service_from_governed:
  assumes "service_from_governed_expected_identity toml W pv st p1 p2 p3 n k s kinds sha ob db = Inr (S, db')"
  shows "\<exists>g. cs_governance S = Some g \<and> cs_outbox S = ob \<and> ap_network_id (cs_policy S) = n \<and>
    ap_approver_xonly_public_key (cs_policy S) = k \<and> ap_recipient_scope (cs_policy S) = s \<and> service_ok S \<and>
    gp_allowed_observable_kinds (gb_policy g) = kinds \<and> gb_promotion_policy_sha256 g = sha \<and>
    initialize_schema True db = Inr db'"
proof -
  obtain policy governance where "S = \<lparr>cs_policy = policy,
      cs_governance = Some \<lparr>gb_policy = fst governance, gb_retention = snd governance, gb_promotion_policy_sha256 = sha\<rparr>,
      cs_outbox = ob\<rparr>"
    and "require_expected_policy_identity policy n k s = Inr ()"
    and "load_threat_hint_v2_governance_policy toml (pw_uid W) p2 (pw_fs W p2) n k s = Inr (fst governance)"
    and "gp_allowed_observable_kinds (fst governance) = kinds"
    and "open_ledger (pw_uid W) st (ap_ledger_path policy) (pv (ap_ledger_path policy)) True ob db = Inr db'"
    using assms
    by (clarsimp simp: service_from_governed_expected_identity_def catch_eq_Inr_raise split: if_split_asm prod.splits)
  then show ?thesis
    by (auto simp: require_expected_policy_identity_def service_ok_def open_ledger_def dest: load_governance_network
        split: if_splits)
qed

text \<open>The constructor of governed promotion services builds such a service, on a file that is valid for it.\<close>

lemma governed_promotion_service_ok:
  assumes "governed_promotion_service toml W pv st p1 p2 p3 p4 p5 p6 db = Inr (M, db')"
  shows "(\<exists>g. governed_promotion M g) \<and> initialize_schema True db = Inr db'"
proof -
  obtain policy A where a: "governed_acceptance_service toml W pv st p1 p2 p3 p5 p6 (mp_allowed_observable_kinds policy)
      (mp_policy_sha256 policy) True db = Inr (A, db')" "M = \<lparr>ms_policy = policy, ms_acceptance = A\<rparr>"
    using assms by (auto simp: governed_promotion_service_def)
  then obtain vp S where "service_from_governed_expected_identity toml W pv st p3 p5 p6 (pp_network_id (vp_policy vp))
      (pp_approver_xonly_public_key (vp_policy vp)) (pp_recipient_scope (vp_policy vp)) (mp_allowed_observable_kinds policy)
      (mp_policy_sha256 policy) True db = Inr (S, db')"
    "A = \<lparr>as_governed = True, as_durable_outbox = True, as_verified_preflight = vp, as_consumption = S\<rparr>"
    by (auto simp: governed_acceptance_service_def)
  then show ?thesis using service_from_governed a(2) by (fastforce simp: governed_promotion_def)
qed

lemma statement_wire_iff:
  assumes "bound_pair e m" and "we = envelope_wire e" and "rm_network_id m = n" and "1 \<le> json_depth E"
  shows "verified_statement_wire E we n (sha256 (statement_preimage (statement_wire (pe_parsed_statement e)))) =
    Inr (statement_wire (pe_parsed_statement e))"
proof -
  have v: "valid_envelope e" "vs_network_id (pe_parsed_statement e) = n"
    using assms(1,3) by (simp_all add: bound_pair_def)
  then have s: "valid_statement (pe_parsed_statement e)" "utf8_encode (pe_statement e) = Some (statement_wire (pe_parsed_statement e))"
    by (simp_all add: valid_envelope_def statement_text_utf8)
  have "parse_envelope E we (PStr n) = Inr e" using parse_envelope_dec [OF v(1) assms(4)] assms(2) v(2) by simp
  moreover have "statement_canonical_bytes (Some (statement_wire (pe_parsed_statement e))) (pe_parsed_statement e) =
      Inr (statement_wire (pe_parsed_statement e))" using s(1) by (simp add: statement_canonical_bytes_iff)
  moreover have "statement_digest (Some (statement_wire (pe_parsed_statement e))) (pe_parsed_statement e) =
      Inr (sha256 (statement_preimage (statement_wire (pe_parsed_statement e))))" using s(1) by (simp add: statement_digest_iff)
  ultimately show ?thesis using s(2) by (simp add: verified_statement_wire_def Let_def)
qed

text \<open>Verification in the consumption service and in the preflight is the same.\<close>

lemma governed_context:
  assumes "governed_promotion M g"
  shows "service_context (as_consumption (ms_acceptance M)) nonce t =
    policy_context (vp_policy (as_verified_preflight (ms_acceptance M))) nonce t"
  using assms by (simp add: governed_promotion_def service_context_def policy_context_def Let_def)

lemma approval_spec_bounds:
  assumes "approval_spec E B aw bw ctx v"
  shows "length (va_approval_id v) = 32" "length (va_observable_commitment v) = 32" "is_timestamp (oc_current_time ctx)"
    "va_not_before v \<le> oc_current_time ctx" "oc_current_time ctx \<le> va_expires_at v"
  using assms by (auto simp: approval_spec_def approval_ok_def approval_wf_def context_ok_def domain_digest_def
      is_timestamp_def UINT64_MAX_def)

lemma governed_consume_iff:
  assumes "cs_governance S = Some g" and "cs_outbox S" and "service_verify E B S aw bw nonce t = Inr v"
    and "validate_governance E v bw t g = Inr ()" and "is_timestamp t" "va_not_before v \<le> t" "t \<le> va_expires_at v"
    and "length (va_approval_id v) = 32" "length (va_observable_commitment v) = 32"
  shows "consume_expected E B st st2 S aw bw nonce t (va_approval_id v) (va_observable_commitment v) (Some sw) L = (Inr c, L') \<longleftrightarrow>
    st = DbOk \<and> consume_tx E True v t (Some g) bw sw nonce L = Inr L' \<and>
    c = \<lparr>ac_approval_id = va_approval_id v, ac_observable_commitment = va_observable_commitment v, ac_consumed_at = t\<rparr>"
proof -
  have "consume_expected E B st st2 S aw bw nonce t (va_approval_id v) (va_observable_commitment v) (Some sw) L =
      ledger_consume_core E st st2 True v t (Some g) bw (Some sw) nonce L"
    using assms by (simp add: consume_expected_def FIXED_HASH_BYTES_def consume_verified_def consume_governed_def)
  then show ?thesis using assms(5-7) by (auto simp: ledger_consume_core_def split: sum.splits txerr.splits)
qed

lemma accept_iff:
  assumes "governed_promotion M g" and "1 \<le> json_depth E"
  defines "A \<equiv> ms_acceptance M"
  defines "V \<equiv> as_verified_preflight (ms_acceptance M)"
  shows "accept E B W st st2 st3 A we bw aw nonce t L = (Inr r, L') \<longleftrightarrow>
    (\<exists>wm e m v. verified_spec E B W V we bw aw nonce t wm e m v \<and>
       validate_governance E v bw t g = Inr () \<and> assert_authority_snapshot st g L = Inr () \<and> st2 = DbOk \<and>
       consume_tx E True v t (Some g) bw (statement_wire (pe_parsed_statement e)) nonce L = Inr L' \<and>
       r = acceptance_receipt (verified_receipt_of V e wm v) t)" (is "?l \<longleftrightarrow> ?r")
proof -
  let ?S = "as_consumption A"
  have c: "as_governed A" "as_durable_outbox A" "cs_governance ?S = Some g" "cs_outbox ?S"
    "service_context ?S nonce t = policy_context (vp_policy V) nonce t"
    using assms(1) governed_context [OF assms(1)] by (simp_all add: governed_promotion_def A_def V_def)
  have sv: "service_verify E B ?S aw bw nonce t = Inr v \<longleftrightarrow> approval_spec E B aw bw (policy_context (vp_policy V) nonce t) v" for v
    using service_verify_iff [OF assms(2)] c(5) by simp
  have pc: "oc_current_time (policy_context (vp_policy V) nonce t) = t" by (simp add: policy_context_def)
  have key: "accept E B W st st2 st3 A we bw aw nonce t L = (Inr r, L') \<longleftrightarrow>
      validate_governance E v bw t g = Inr () \<and> assert_authority_snapshot st g L = Inr () \<and> st2 = DbOk \<and>
       consume_tx E True v t (Some g) bw (statement_wire (pe_parsed_statement e)) nonce L = Inr L' \<and>
       r = acceptance_receipt (verified_receipt_of V e wm v) t"
    if s: "verified_spec E B W V we bw aw nonce t wm e m v" for wm e m v
  proof -
    have p: "preflight_spec E B (vp_policy V) we wm bw aw nonce t e m v" using s by (simp add: verified_spec_def)
    then have a: "approval_spec E B aw bw (policy_context (vp_policy V) nonce t) v" by (simp add: preflight_spec_def)
    then have v: "service_verify E B ?S aw bw nonce t = Inr v" using sv by simp
    have w: "verified_statement_wire E we (pp_network_id (vp_policy V))
        (sha256 (statement_preimage (statement_wire (pe_parsed_statement e)))) = Inr (statement_wire (pe_parsed_statement e))"
      using p by (intro statement_wire_iff [where m = m] assms(2)) (simp_all add: preflight_spec_def)
    note vp = verified_preflight_dec [OF s assms(2)]
    have f: "vr_statement_digest (verified_receipt_of V e wm v) = sha256 (statement_preimage (statement_wire (pe_parsed_statement e)))"
      "vr_approval_id (verified_receipt_of V e wm v) = va_approval_id v"
      "vr_observable_commitment (verified_receipt_of V e wm v) = va_observable_commitment v"
      by (simp_all add: verified_receipt_of_def build_receipt_def receipt_of_def)
    have pre: "precheck_governance E B st ?S aw bw nonce t L = Inr () \<longleftrightarrow>
        validate_governance E v bw t g = Inr () \<and> assert_authority_snapshot st g L = Inr ()"
      using v c(3) by (simp add: precheck_governance_def)
    have ch: "accept_checks E B W st A we bw aw nonce t L = Inr x \<longleftrightarrow>
        precheck_governance E B st ?S aw bw nonce t L = Inr () \<and>
        x = (verified_receipt_of V e wm v, Some (statement_wire (pe_parsed_statement e)))" for x
      unfolding accept_checks_def using c(1,2) vp w f(1) by (auto simp: V_def A_def map_error_def split: sum.splits)
    show ?thesis
    proof (cases "precheck_governance E B st ?S aw bw nonce t L = Inr ()")
      case False
      then obtain x where "accept_checks E B W st A we bw aw nonce t L = Inl x"
        using ch by (cases "accept_checks E B W st A we bw aw nonce t L") auto
      then show ?thesis using False pre by (auto simp: accept_def)
    next
      case True
      then have g: "validate_governance E v bw t g = Inr ()" "assert_authority_snapshot st g L = Inr ()" using pre by simp_all
      have "accept_checks E B W st A we bw aw nonce t L =
          Inr (verified_receipt_of V e wm v, Some (statement_wire (pe_parsed_statement e)))" using True ch by simp
      then have "accept E B W st st2 st3 A we bw aw nonce t L = (Inr r, L') \<longleftrightarrow>
          (\<exists>c. consume_expected E B st2 st3 ?S aw bw nonce t (va_approval_id v) (va_observable_commitment v)
             (Some (statement_wire (pe_parsed_statement e))) L = (Inr c, L') \<and>
             r = acceptance_receipt (verified_receipt_of V e wm v) (ac_consumed_at c))"
        using f by (auto simp: accept_def split: prod.splits sum.splits)
      then show ?thesis
        using governed_consume_iff [OF c(3,4) v g(1), of st2 st3] approval_spec_bounds [OF a, unfolded pc] g
        by auto
    qed
  qed
  show ?thesis
  proof
    assume l: ?l
    then obtain x where "accept_checks E B W st A we bw aw nonce t L = Inr x"
      by (auto simp: accept_def split: sum.splits)
    then obtain rc where "verified_preflight E B W V we bw aw nonce t = Inr rc"
      by (auto simp: accept_checks_def V_def A_def)
    then obtain wm e m v where s: "verified_spec E B W V we bw aw nonce t wm e m v"
      using verified_preflight_enc [OF _ assms(2)] by blast
    with l key [OF s] show ?r by blast
  next
    assume ?r
    then show ?l using key by blast
  qed
qed

lemma promote_Inr:
  "promote E B W st st2 st3 M we bw aw nonce t L = (Inr r, L') \<longleftrightarrow>
     (\<exists>b a. promotion_checks E (ms_policy M) bw nonce t = Inr b \<and>
        accept E B W st st2 st3 (ms_acceptance M) we bw aw nonce t L = (Inr a, L') \<and> r = promotion_result a b)"
  by (auto simp: promote_def promote_inner_def split: sum.splits prod.splits)

lemma promotion_checks_iff:
  "promotion_checks E policy bw nonce t = Inr b \<longleftrightarrow>
     length nonce = 32 \<and> 1 \<le> t \<and> t \<le> U64_MAX \<and> parse_canonical E bw = Inr b \<and>
     obu_disclosure_policy b = REVIEW_REQUIRED_V1 \<and> os_platform (obu_scope b) = mp_scope_platform policy \<and>
     os_format (obu_scope b) = mp_scope_format policy \<and>
     ob_kind ` set (obu_observables b) \<subseteq> mp_allowed_observable_kinds policy \<and>
     int (length (obu_observables b)) \<le> mp_max_observables policy"
  by (auto simp: promotion_checks_def FIXED_HASH_BYTES_def)

lemma promote_consumed:
  assumes "governed_promotion M g" and "1 \<le> json_depth E"
    and "domain_digest APPROVAL_ID_DOMAIN aw \<in> cr_approval_id ` set (lg_consumptions L)"
  shows "\<exists>e. promote E B W st st2 st3 M we bw aw nonce t L = (Inl e, L) \<and> is_promotion_error e"
proof -
  obtain x L' where p: "promote E B W st st2 st3 M we bw aw nonce t L = (x, L')"
    by (cases "promote E B W st st2 st3 M we bw aw nonce t L")
  show ?thesis
  proof (cases x)
    case (Inl e)
    then show ?thesis using p promote_fails by blast
  next
    case (Inr r)
    then obtain a where "accept E B W st st2 st3 (ms_acceptance M) we bw aw nonce t L = (Inr a, L')"
      using p by (auto simp: promote_Inr)
    then obtain wm e m v where s: "verified_spec E B W (as_verified_preflight (ms_acceptance M)) we bw aw nonce t wm e m v"
      and tx: "consume_tx E True v t (Some g) bw (statement_wire (pe_parsed_statement e)) nonce L = Inr L'"
      by (auto simp: accept_iff [OF assms(1,2)])
    have "va_approval_id v = domain_digest APPROVAL_ID_DOMAIN aw"
      using s by (simp add: verified_spec_def preflight_spec_def approval_spec_def)
    with consume_tx_rows(3) [OF tx] assms(3) have False by (simp add: consume_ok_def)
    then show ?thesis ..
  qed
qed

subsection \<open>A concrete promotion\<close>

definition ex_promotion :: ThreatHintV2PromotionService where
  "ex_promotion =
     \<lparr>ms_policy = \<lparr>mp_scope_platform = os_platform (obu_scope ex_review_bundle),
                   mp_scope_format = os_format (obu_scope ex_review_bundle),
                   mp_allowed_observable_kinds = {FILE_SHA256, API_IMPORT, BYTE_PATTERN}, mp_max_observables = 16,
                   mp_policy_sha256 = replicate 32 9\<rparr>,
      ms_acceptance = \<lparr>as_governed = True, as_durable_outbox = True, as_verified_preflight = ex_service,
                       as_consumption = ex_cs\<rparr>\<rparr>"

lemma ex_governed_promotion: "governed_promotion ex_promotion ex_governance"
  using ex_service_ok
  by (simp add: governed_promotion_def ex_promotion_def)
     (simp add: ex_cs_def ex_service_def ex_preflight_policy_def ex_governance_def)

lemma ex_promotion_checks:
  "promotion_checks ex_env (ms_policy ex_promotion) (bundle_wire ex_review_bundle) (oc_report_nonce ex_context) 1700000000 =
     Inr ex_review_bundle"
proof -
  have "parse_canonical ex_env (bundle_wire ex_review_bundle) = Inr ex_review_bundle"
    using ex_review_bundle_canonical by (intro parse_canonical_dec) (simp_all add: ex_env_def)
  moreover have "k \<in> {FILE_SHA256, API_IMPORT, BYTE_PATTERN}" for k by (cases k) auto
  moreover have "length (obu_observables ex_review_bundle) \<le> 16"
    using ex_review_bundle_canonical by (auto simp: canonical_bundle_def MAX_OBSERVABLES_def)
  ultimately show ?thesis
    unfolding promotion_checks_iff by (auto simp: ex_promotion_def ex_context_def U64_MAX_def ex_review_bundle_def)
qed

subsection \<open>Properties\<close>

text \<open>C18. A governed promotion service promotes a hint exactly when the bundle satisfies the promotion policy (review
  required, pinned platform and format, allowed kinds, bounded count), the verified preflight holds for these bytes (bound
  manifest and envelope, approval, commitment, verifier result 0), the governance window and the authority snapshot allow
  it, and the one transaction that pins the authority, advances the time, consumes the approval and enqueues the bundle
  with the very statement of the envelope succeeds on the ledger. The result names exactly these objects, and the new ledger
  is the one of that transaction.\<close>

theorem promotion_accepts_iff:
  assumes "governed_promotion M g" and "1 \<le> json_depth E"
  shows "promote E B W st st2 st3 M we bw aw nonce t L = (Inr r, L') \<longleftrightarrow>
    (\<exists>wm e m v b. parse_canonical E bw = Inr b \<and> obu_disclosure_policy b = REVIEW_REQUIRED_V1 \<and>
       os_platform (obu_scope b) = mp_scope_platform (ms_policy M) \<and> os_format (obu_scope b) = mp_scope_format (ms_policy M) \<and>
       ob_kind ` set (obu_observables b) \<subseteq> mp_allowed_observable_kinds (ms_policy M) \<and>
       int (length (obu_observables b)) \<le> mp_max_observables (ms_policy M) \<and>
       verified_spec E B W (as_verified_preflight (ms_acceptance M)) we bw aw nonce t wm e m v \<and>
       validate_governance E v bw t g = Inr () \<and> assert_authority_snapshot st g L = Inr () \<and> st2 = DbOk \<and>
       consume_tx E True v t (Some g) bw (statement_wire (pe_parsed_statement e)) nonce L = Inr L' \<and>
       r = promotion_result
             (acceptance_receipt (verified_receipt_of (as_verified_preflight (ms_acceptance M)) e wm v) t) b)"
proof -
  have "length nonce = 32 \<and> 1 \<le> t \<and> t \<le> U64_MAX"
    if "verified_spec E B W (as_verified_preflight (ms_acceptance M)) we bw aw nonce t wm e m v" for wm e m v
    using that by (auto simp: verified_spec_def preflight_spec_def approval_spec_def context_ok_def policy_context_def U64_MAX_def)
  then show ?thesis
    unfolding promote_Inr promotion_checks_iff accept_iff [OF assms] by blast
qed

theorem promotion_accepts_iff_witness:
  "(\<exists>r. promote ex_env B0 ex_world DbOk DbOk DbOk ex_promotion (envelope_wire ex_hint_envelope)
      (bundle_wire ex_review_bundle) ex_approval_wire (oc_report_nonce ex_context) 1700000000 new_ledger = (Inr r, ex_ledger)) \<longleftrightarrow>
     is_anchor (sha256_hex (manifest_wire ex_manifest))" (is "(\<exists>r. ?p = (Inr r, _)) \<longleftrightarrow> ?a")
proof
  have d: "1 \<le> json_depth ex_env" by (simp add: ex_env_def)
  note iff = promotion_accepts_iff [OF ex_governed_promotion d]
  have x: "as_verified_preflight (ms_acceptance ex_promotion) = ex_service" by (simp add: ex_promotion_def)
  { assume "\<exists>r. ?p = (Inr r, ex_ledger)"
    then obtain wm e m v where "verified_spec ex_env B0 ex_world ex_service (envelope_wire ex_hint_envelope)
        (bundle_wire ex_review_bundle) ex_approval_wire (oc_report_nonce ex_context) 1700000000 wm e m v"
      unfolding iff x by blast
    then show ?a by (auto simp: verified_spec_def preflight_spec_def ex_manifest_read)
  next
    assume ?a
    then have s: "verified_spec ex_env B0 ex_world ex_service (envelope_wire ex_hint_envelope) (bundle_wire ex_review_bundle)
        ex_approval_wire (oc_report_nonce ex_context) 1700000000 (manifest_wire ex_manifest)
        ex_hint_envelope ex_manifest ex_approval"
      using ex_hint_spec by (simp add: verified_spec_def ex_manifest_read ex_proof_verified)
         (simp add: ex_service_def ex_world_def ex_context_def)
    have a: "assert_authority_snapshot DbOk ex_governance new_ledger = Inr ()"
      by (simp add: assert_authority_snapshot_def new_ledger_def SQLITE_SCHEMA_VERSION_GOVERNED_def validate_authority_snapshot_def)
    have w: "statement_wire (pe_parsed_statement ex_hint_envelope) = statement_wire ex_hint_statement"
      by (simp add: ex_hint_envelope_def envelope_of_def)
    note b = ex_promotion_checks [unfolded promotion_checks_iff]
    show "\<exists>r. ?p = (Inr r, ex_ledger)" unfolding iff x
      using s a b ex_validate_governance ex_consume_tx [folded w] by blast }
qed

text \<open>C38. Promotion fails closed. Whatever the inputs, the files, the verifier and SQLite answer, a call that does not
  succeed leaves every table of the ledger as it was and raises one of the four promotion errors.\<close>

theorem promotion_fails_closed:
  assumes "promote E B W st st2 st3 M we bw aw nonce t L = (Inl e, L')"
  shows "L' = L \<and> e \<in> {ThreatHintV2PromotionError, ThreatHintV2PromotionUnavailableError,
      ThreatHintV2PromotionReplayError, ThreatHintV2PromotionBusyError}"
  using promote_fails [OF assms] by (simp add: is_promotion_error_def)

theorem promotion_fails_closed_witness:
  "\<exists>e. promote ex_env B0 ex_world DbOk DbOk DbOk ex_promotion [] [] [] [] 0 ex_ledger = (Inl e, ex_ledger) \<and>
     e \<in> {ThreatHintV2PromotionError, ThreatHintV2PromotionUnavailableError,
       ThreatHintV2PromotionReplayError, ThreatHintV2PromotionBusyError}"
proof -
  have "promote ex_env B0 ex_world DbOk DbOk DbOk ex_promotion [] [] [] [] 0 ex_ledger =
      (Inl ThreatHintV2PromotionError, ex_ledger)"
    by (simp add: promote_def promote_inner_def promotion_checks_def FIXED_HASH_BYTES_def promote_handler_def
        is_promotion_error_def)
  from this promotion_fails_closed [OF this] show ?thesis by blast
qed

end
