(* ===== verification/Hint_Ingress.thy ===== *)
theory Hint_Ingress
  imports Threat_Hint_Transport Hint_Acceptance Py_Frame
begin

text \<open>
  The local ingress for version 2 threat hints (\<open>jaeger/threat_hint_v2_ingress.py\<close>): acknowledgements and their wire
  format, the four gates of \<open>process\<close> (transport, session, clock, promotion), and the single-frame server with its
  connection permits, executor and owned socket.

  The session resolver, the clock, the peer credentials and the answers of the operating system are arguments. A thread of
  the executor runs \<open>process\<close> as one step on the ledger; the server's own state changes only between two awaits of its
  event loop, so the steps of \<open>hint_step\<close> are the program's own units of interleaving. A deadline that passes is a step
  that drops the connection.
\<close>

subsection \<open>Acknowledgements\<close>

definition THREAT_HINT_V2_PROTOCOL_VERSION :: int where
  "THREAT_HINT_V2_PROTOCOL_VERSION = 2"
definition MAX_V2_INGRESS_ACK_BYTES :: nat where
  "MAX_V2_INGRESS_ACK_BYTES = 384"
definition ZERO_DIGEST :: pystr where
  "ZERO_DIGEST = replicate 64 48"

record ThreatHintV2IngressAck =
  ha_status :: pyval
  ha_payload_digest :: pyval

definition v2_ack_items :: "ThreatHintV2IngressAck \<Rightarrow> (pystr \<times> pyval) list" where
  "v2_ack_items a =
     [(u ''payload_digest'', ha_payload_digest a),
      (u ''protocol_version'', PInt THREAT_HINT_V2_PROTOCOL_VERSION),
      (u ''status'', ha_status a)]"

text \<open>\<open>self.status not in {...}\<close> hashes the status.\<close>

definition v2_ack_to_wire :: "ThreatHintV2IngressAck \<Rightarrow> pyexc + bytes" where
  "v2_ack_to_wire a =
     (if \<not> py_hashable (ha_status a) then Inl TypeError
      else if ha_status a \<notin> {plit ''accepted'', plit ''rejected'', plit ''busy''} then Inl ThreatHintV2IngressError
      else if (if ha_status a = plit ''busy'' then py_truthy (ha_payload_digest a)
               else \<not> is_hex_val 64 (ha_payload_digest a)) then Inl ThreatHintV2IngressError
      else let wire = ascii_json (PDict (v2_ack_items a))
           in if MAX_V2_INGRESS_ACK_BYTES < length wire then Inl ThreatHintV2IngressError else Inr wire)"

text \<open>\<open>value == 2\<close>\<close>

fun py_eq_two :: "pyval \<Rightarrow> bool" where
  "py_eq_two (PInt n) = (n = 2)"
| "py_eq_two (PFloat r) = (r = u ''2.0'')"
| "py_eq_two _ = False"

definition v2_ack_from_wire :: "py_env \<Rightarrow> bytes \<Rightarrow> pyexc + ThreatHintV2IngressAck" where
  "v2_ack_from_wire E wire =
     (if \<not> (0 < length wire \<and> length wire \<le> MAX_V2_INGRESS_ACK_BYTES) then Inl ThreatHintV2IngressError
      else rbind (catch (loads_ascii E ThreatHintV2IngressError wire) (\<lambda>e. e \<in> {UnicodeDecodeError, JSONDecodeError})
                    (\<lambda>_. Inl ThreatHintV2IngressError)) (\<lambda>payload.
        case payload of
          PDict d \<Rightarrow>
            (if \<not> keys_are [''payload_digest'', ''protocol_version'', ''status''] d then Inl ThreatHintV2IngressError
             else if \<not> py_eq_two (dict_at d ''protocol_version'') then Inl ThreatHintV2IngressError
             else let a = \<lparr>ha_status = dict_at d ''status'', ha_payload_digest = dict_at d ''payload_digest''\<rparr>
                  in rbind (v2_ack_to_wire a) (\<lambda>w. if w \<noteq> wire then Inl ThreatHintV2IngressError else Inr a))
        | _ \<Rightarrow> Inl ThreatHintV2IngressError))"

definition v2_ack :: "string \<Rightarrow> pystr \<Rightarrow> ThreatHintV2IngressAck" where
  "v2_ack status digest = \<lparr>ha_status = plit status, ha_payload_digest = PStr digest\<rparr>"

subsection \<open>Processing a frame\<close>

text \<open>What a resolver may hand back: nothing, a nonce, or an object that is not bytes.\<close>

datatype session_answer = NoSession | SessionNonce bytes | NotBytes

record ThreatHintV2Ingress =
  hi_promotion :: ThreatHintV2PromotionService
  hi_resolve :: "bytes \<Rightarrow> pyexc + session_answer"
  hi_network_id :: pystr

definition new_hint_ingress ::
  "ThreatHintV2PromotionService \<Rightarrow> (bytes \<Rightarrow> pyexc + session_answer) \<Rightarrow> pyval \<Rightarrow> pyexc + ThreatHintV2Ingress" where
  "new_hint_ingress M resolve trusted_network_id =
     (case trusted_network_id of
        PStr n \<Rightarrow>
          rbind (catch (raise_oerr (validate_network_id n)) is_value_error (\<lambda>_. Inl ThreatHintV2IngressError)) (\<lambda>_.
          Inr \<lparr>hi_promotion = M, hi_resolve = resolve, hi_network_id = n\<rparr>)
      | _ \<Rightarrow> Inl ThreatHintV2IngressError)"

text \<open>The handlers around \<open>promote\<close>.\<close>

definition promotion_failure :: "pystr \<Rightarrow> pyexc \<Rightarrow> ThreatHintV2IngressAck" where
  "promotion_failure digest e =
     (if e = ThreatHintV2PromotionBusyError then v2_ack ''busy'' []
      else if e = ThreatHintV2PromotionReplayError then v2_ack ''rejected'' digest
      else if e = ThreatHintV2PromotionUnavailableError then v2_ack ''busy'' []
      else if e = ThreatHintV2PromotionError then v2_ack ''rejected'' digest
      else v2_ack ''busy'' [])"

text \<open>Gates 2 and 3: the nonce and the time that go into the promotion, or the acknowledgement.\<close>

definition trusted_context ::
  "ThreatHintV2Ingress \<Rightarrow> pyexc + pyval \<Rightarrow> pystr \<Rightarrow> bytes \<Rightarrow> ThreatHintV2IngressAck + bytes \<times> int" where
  "trusted_context I clock digest report_nonce =
     (case hi_resolve I report_nonce of
        Inl _ \<Rightarrow> Inl (v2_ack ''busy'' [])
      | Inr NoSession \<Rightarrow> Inl (v2_ack ''rejected'' digest)
      | Inr NotBytes \<Rightarrow> Inl (v2_ack ''rejected'' digest)
      | Inr (SessionNonce nonce) \<Rightarrow>
          (if length nonce \<noteq> REPORT_NONCE_BYTES \<or> nonce \<noteq> report_nonce then Inl (v2_ack ''rejected'' digest)
           else case clock of
                  Inl _ \<Rightarrow> Inl (v2_ack ''busy'' [])
                | Inr now \<Rightarrow> (if int_in 1 UINT64_MAX now then Inr (nonce, the_int now) else Inl (v2_ack ''busy'' []))))"

text \<open>Only the transport's own error is caught at the first gate.\<close>

definition v2_process ::
  "py_env \<Rightarrow> bip340 \<Rightarrow> preflight_world \<Rightarrow> db_status \<Rightarrow> db_status \<Rightarrow> db_status \<Rightarrow> ThreatHintV2Ingress \<Rightarrow> pyexc + pyval \<Rightarrow>
     bytes \<Rightarrow> ledger \<Rightarrow> (pyexc + ThreatHintV2IngressAck) \<times> ledger" where
  "v2_process E B W st st2 st3 I clock wire L =
     (if \<not> (0 < length wire \<and> length wire \<le> MAX_TRANSPORT_PAYLOAD_BYTES) then (Inr (v2_ack ''rejected'' ZERO_DIGEST), L)
      else let digest = sha256_hex wire
           in case parse_transport E wire (PStr (hi_network_id I)) of
                Inl e \<Rightarrow> if e = ThreatHintV2TransportError then (Inr (v2_ack ''rejected'' digest), L) else (Inl e, L)
              | Inr payload \<Rightarrow>
                  (case trusted_context I clock digest (tp_report_nonce payload) of
                     Inl a \<Rightarrow> (Inr a, L)
                   | Inr (nonce, now) \<Rightarrow>
                       (case promote E B W st st2 st3 (hi_promotion I) (tp_envelope_wire payload) (tp_bundle_wire payload)
                               (tp_approval_wire payload) nonce now L of
                          (Inl e, L') \<Rightarrow> (Inr (promotion_failure digest e), L')
                        | (Inr _, L') \<Rightarrow> (Inr (v2_ack ''accepted'' digest), L'))))"

subsection \<open>Peers and socket paths\<close>

text \<open>\<open>None\<close> is a mechanism the platform does not have, \<open>Some None\<close> one that raises \<open>OSError\<close>.\<close>

record peer_view =
  pw_posix :: bool
  pw_euid :: nat
  pw_getpeereid :: "nat option option"
  pw_so_peercred :: "nat option option"

definition has_same_euid_peer :: "peer_view \<Rightarrow> bool" where
  "has_same_euid_peer v =
     (if \<not> pw_posix v then True
      else case pw_getpeereid v of
             Some answer \<Rightarrow> answer = Some (pw_euid v)
           | None \<Rightarrow> (case pw_so_peercred v of
                        Some answer \<Rightarrow> answer = Some (pw_euid v)
                      | None \<Rightarrow> True))"

definition S_ISSOCK :: "nat \<Rightarrow> bool" where
  "S_ISSOCK mode \<longleftrightarrow> mode AND 0xF000 = 0xC000"

text \<open>What the operating system answers for a socket path: the resolved parent, its status, whether the candidate exists
  or is a link, and the length of its encoded name.\<close>

record socket_path_view =
  sp_absolute :: bool
  sp_resolved :: "(pystr list \<times> stat_result) option"
  sp_exists :: bool
  sp_symlink :: bool
  sp_encoded :: nat

definition validate_socket_path :: "nat \<Rightarrow> pystr list \<Rightarrow> socket_path_view \<Rightarrow> pyexc + pystr list" where
  "validate_socket_path uid path p =
     (if \<not> sp_absolute p \<or> path = [] \<or> last path = u ''..'' then Inl ThreatHintV2IngressError
      else case sp_resolved p of
             None \<Rightarrow> Inl OtherError
           | Some (resolved_parent, parent) \<Rightarrow>
               (if \<not> S_ISDIR (st_mode parent) \<or> st_uid parent \<noteq> uid \<or> group_world (st_mode parent)
                then Inl ThreatHintV2IngressError
                else if sp_exists p \<or> sp_symlink p then Inl ThreatHintV2IngressError
                else if 100 \<le> sp_encoded p then Inl ThreatHintV2IngressError
                else Inr (resolved_parent @ [last path])))"

text \<open>The file at the path after \<open>_unlink_owned_socket\<close>.\<close>

definition unlink_owned_socket :: "(nat \<times> nat) option \<Rightarrow> stat_result option \<Rightarrow> stat_result option" where
  "unlink_owned_socket expected_identity node =
     (case (expected_identity, node) of
        (Some identity, Some current) \<Rightarrow>
          (if S_ISSOCK (st_mode current) \<and> (st_dev current, st_ino current) = identity then None else node)
      | _ \<Rightarrow> node)"

subsection \<open>The server\<close>

text \<open>A connection is admitted, and then its frame is with a thread of the executor. \<open>hs_orphans\<close> are the frames whose
  connections were cancelled by \<open>close\<close> while their threads go on.\<close>

datatype hint_connection = Admitted | Submitted bytes

record hint_server =
  hs_max_connections :: nat
  hs_active :: nat
  hs_connections :: "(nat \<times> hint_connection) list"
  hs_listening :: bool
  hs_executor :: bool
  hs_orphans :: "bytes list"
  hs_socket_identity :: "(nat \<times> nat) option"
  hs_node :: "stat_result option"

text \<open>The tests of the constructor; the deadline is a float of the caller.\<close>

definition new_hint_server ::
  "nat \<Rightarrow> pystr list \<Rightarrow> socket_path_view \<Rightarrow> nat \<Rightarrow> bool \<Rightarrow> pyexc + hint_server" where
  "new_hint_server uid path p max_connections timeout_in_range =
     (if max_connections < 1 \<or> \<not> timeout_in_range then Inl ThreatHintV2IngressError
      else rbind (validate_socket_path uid path p) (\<lambda>_.
           Inr \<lparr>hs_max_connections = max_connections, hs_active = 0, hs_connections = [], hs_listening = False,
                hs_executor = False, hs_orphans = [], hs_socket_identity = None, hs_node = None\<rparr>))"

definition start_failed :: "pyexc \<Rightarrow> hint_server \<Rightarrow> (pyexc + unit) \<times> hint_server" where
  "start_failed e S =
     (Inl e, S\<lparr>hs_node := unlink_owned_socket (hs_socket_identity S) (hs_node S), hs_socket_identity := None,
               hs_executor := False\<rparr>)"

text \<open>\<open>bound\<close> is the file that \<open>bind\<close> creates, \<open>seen\<close> the answer of \<open>lstat\<close>; \<open>None\<close> is an \<open>OSError\<close>.\<close>

definition start_server ::
  "stat_result option \<Rightarrow> bool \<Rightarrow> stat_result option \<Rightarrow> bool \<Rightarrow> hint_server \<Rightarrow> (pyexc + unit) \<times> hint_server" where
  "start_server bound chmod_ok seen listened S =
     (if hs_listening S \<or> hs_executor S then (Inl ThreatHintV2IngressError, S)
      else let S1 = S\<lparr>hs_executor := True\<rparr>
           in case bound of
                None \<Rightarrow> start_failed OtherError S1
              | Some node \<Rightarrow>
                  (let S2 = S1\<lparr>hs_node := Some node\<rparr>
                   in if \<not> chmod_ok then start_failed OtherError S2
                      else case seen of
                             None \<Rightarrow> start_failed OtherError S2
                           | Some path_stat \<Rightarrow>
                               (if \<not> S_ISSOCK (st_mode path_stat) then start_failed ThreatHintV2IngressError S2
                                else let S3 = S2\<lparr>hs_socket_identity := Some (st_dev path_stat, st_ino path_stat)\<rparr>
                                     in if \<not> listened then start_failed OtherError S3
                                        else (Inr (), S3\<lparr>hs_listening := True\<rparr>))))"

text \<open>\<open>close\<close> up to each of its awaits: the listener, the workers and the executor, the owned socket.\<close>

definition close_listener :: "hint_server \<Rightarrow> hint_server" where
  "close_listener S = S\<lparr>hs_listening := False\<rparr>"

definition submitted_frames :: "(nat \<times> hint_connection) list \<Rightarrow> bytes list" where
  "submitted_frames cs = concat (map (\<lambda>(i, c). case c of Submitted wire \<Rightarrow> [wire] | Admitted \<Rightarrow> []) cs)"

text \<open>Cancelling a worker gives its permit back, in the \<open>finally\<close> of the worker. A worker task that is cancelled before it
  runs at all does not reach that block; this is left out.\<close>

definition close_workers :: "hint_server \<Rightarrow> hint_server" where
  "close_workers S =
     S\<lparr>hs_orphans := submitted_frames (hs_connections S) @ hs_orphans S, hs_active := hs_active S - length (hs_connections S),
       hs_connections := [], hs_executor := False\<rparr>"

definition close_socket :: "hint_server \<Rightarrow> hint_server" where
  "close_socket S =
     S\<lparr>hs_node := unlink_owned_socket (hs_socket_identity S) (hs_node S), hs_socket_identity := None\<rparr>"

definition v2_reply :: "ThreatHintV2IngressAck \<Rightarrow> pyexc + bytes" where
  "v2_reply a = rbind (v2_ack_to_wire a) (\<lambda>w. Inr (write_frame w))"

text \<open>One round of \<open>_accept_loop\<close>, with \<open>_serve_busy_connection\<close>; the reply is empty if nothing is sent.\<close>

definition accept_connection :: "peer_view \<Rightarrow> nat \<Rightarrow> hint_server \<Rightarrow> (pyexc + bytes) \<times> hint_server" where
  "accept_connection peer i S =
     (if \<not> has_same_euid_peer peer then (Inr [], S)
      else if hs_active S < hs_max_connections S
      then (Inr [], S\<lparr>hs_active := hs_active S + 1, hs_connections := (i, Admitted) # hs_connections S\<rparr>)
      else (v2_reply (v2_ack ''busy'' []), S))"

definition release_permit :: "nat \<Rightarrow> hint_server \<Rightarrow> hint_server" where
  "release_permit i S = S\<lparr>hs_active := hs_active S - 1, hs_connections := AList.delete i (hs_connections S)\<rparr>"

text \<open>\<open>_serve_connection\<close> up to the executor: a connection that cannot be opened or ends early is dropped, a frame of
  another size is answered, and a frame is handed over while there is an executor.\<close>

definition serve_frame :: "nat \<Rightarrow> bytes option \<Rightarrow> hint_server \<Rightarrow> (pyexc + bytes) \<times> hint_server" where
  "serve_frame i input S =
     (case input of
        None \<Rightarrow> (Inr [], release_permit i S)
      | Some bs \<Rightarrow>
          (case read_frame MAX_TRANSPORT_PAYLOAD_BYTES bs of
             Incomplete \<Rightarrow> (Inr [], release_permit i S)
           | BadSize \<Rightarrow> (v2_reply (v2_ack ''rejected'' ZERO_DIGEST), release_permit i S)
           | Frame wire \<Rightarrow>
               (if \<not> hs_executor S then (Inr [], release_permit i S)
                else (Inr [], S\<lparr>hs_connections := AList.update i (Submitted wire) (hs_connections S)\<rparr>))))"

text \<open>The thread has finished: the permit is given back whether \<open>process\<close> raised or not.\<close>

definition serve_result :: "nat \<Rightarrow> pyexc + ThreatHintV2IngressAck \<Rightarrow> hint_server \<Rightarrow> (pyexc + bytes) \<times> hint_server" where
  "serve_result i result S = (rbind result v2_reply, release_permit i S)"

subsection \<open>What an acknowledgement says\<close>

definition wf_v2_ack :: "ThreatHintV2IngressAck \<Rightarrow> bool" where
  "wf_v2_ack a \<longleftrightarrow>
     (\<exists>d. is_lower_hex 64 d \<and> (a = v2_ack ''accepted'' d \<or> a = v2_ack ''rejected'' d)) \<or> a = v2_ack ''busy'' []"

lemma v2_ack_doc: "wf_v2_ack a \<Longrightarrow> doc (v2_ack_items a)"
  using printable_lower_hex
  by (auto simp: wf_v2_ack_def v2_ack_items_def v2_ack_def doc_Cons THREAT_HINT_V2_PROTOCOL_VERSION_def)
     (auto simp: u_def)

lemma v2_ack_to_wire_wf:
  assumes "wf_v2_ack a"
  shows "v2_ack_to_wire a = Inr (ascii_json (PDict (v2_ack_items a)))" "length (ascii_json (PDict (v2_ack_items a))) \<le> 384"
proof -
  have "(\<Sum>(k, v) \<leftarrow> v2_ack_items a. length (json_quote True k) + field_size v + 2) \<le> 382"
  proof -
    have q: "length (json_quote True d) \<le> 130" if "is_lower_hex 64 d" for d
      using printable_quote_length [OF printable_lower_hex [OF that], of True] that by (simp add: is_lower_hex_def)
    have "field_size (ha_payload_digest a) \<le> 130 \<and> field_size (ha_status a) \<le> 10"
      using assms q by (auto simp: wf_v2_ack_def v2_ack_def) (simp_all add: u_def json_quote_def escape_char_def)
    moreover have "length (json_quote True (u ''payload_digest'')) = 16" "length (json_quote True (u ''protocol_version'')) = 18"
      "length (json_quote True (u ''status'')) = 8"
      by (simp_all add: u_def json_quote_def escape_char_def)
    ultimately show ?thesis by (simp add: v2_ack_items_def)
  qed
  then show l: "length (ascii_json (PDict (v2_ack_items a))) \<le> 384"
    using doc_length [OF v2_ack_doc [OF assms]] by simp
  show "v2_ack_to_wire a = Inr (ascii_json (PDict (v2_ack_items a)))"
    using assms l by (auto simp: wf_v2_ack_def v2_ack_to_wire_def v2_ack_def MAX_V2_INGRESS_ACK_BYTES_def Let_def u_def)
qed

lemma v2_ack_from_wire_wf:
  assumes "wf_v2_ack a" and "1 \<le> json_depth E"
  shows "v2_ack_from_wire E (ascii_json (PDict (v2_ack_items a))) = Inr a"
proof -
  note d = v2_ack_doc [OF assms(1)]
  have "is_ascii (json_dumps False True (PDict (v2_ack_items a)))"
    using json_dumps_ascii(1) [OF doc_plain [OF d]] .
  then have "list_all (\<lambda>b. unat b < 128) (ascii_json (PDict (v2_ack_items a)))"
    by (auto simp: ascii_json_def ascii_bytes_def is_ascii_def list_all_iff unat_of_nat_byte simp del: json_dumps.simps)
  then have "loads_ascii E ThreatHintV2IngressError (ascii_json (PDict (v2_ack_items a))) = Inr (PDict (v2_ack_items a))"
    using doc_loads [OF d assms(2)] by (simp add: loads_ascii_def)
  moreover have "keys_are [''payload_digest'', ''protocol_version'', ''status''] (v2_ack_items a)"
    "dict_at (v2_ack_items a) ''protocol_version'' = PInt 2" "dict_at (v2_ack_items a) ''status'' = ha_status a"
    "dict_at (v2_ack_items a) ''payload_digest'' = ha_payload_digest a"
    by (simp_all add: keys_are_def dict_keys_def v2_ack_items_def THREAT_HINT_V2_PROTOCOL_VERSION_def)
  ultimately show ?thesis
    using v2_ack_to_wire_wf [OF assms(1)] doc_nonempty [of "v2_ack_items a"]
    by (cases a) (simp add: v2_ack_from_wire_def MAX_V2_INGRESS_ACK_BYTES_def)
qed

lemma v2_ack_from_wire_sound:
  "v2_ack_from_wire E w = Inr a \<Longrightarrow> v2_ack_to_wire a = Inr w \<and> w \<noteq> [] \<and> length w \<le> 384"
  by (auto simp: v2_ack_from_wire_def MAX_V2_INGRESS_ACK_BYTES_def Let_def split: if_splits pyval.splits)

text \<open>An unbound acknowledgement may carry any false value instead of the empty text.\<close>

lemma v2_ack_busy_null:
  "v2_ack_to_wire \<lparr>ha_status = plit ''busy'', ha_payload_digest = PNone\<rparr> =
     Inr (ascii_bytes (u ''{\"payload_digest\":null,\"protocol_version\":2,\"status\":\"busy\"}''))"
  by code_simp

subsection \<open>What processing does\<close>

definition is_accepted :: "pyexc + ThreatHintV2IngressAck \<Rightarrow> bool" where
  "is_accepted r \<longleftrightarrow> (\<exists>a. r = Inr a \<and> ha_status a = plit ''accepted'')"

lemma v2_ack_status [simp]:
  "ha_status (v2_ack s d) = plit s" "ha_payload_digest (v2_ack s d) = PStr d"
  by (simp_all add: v2_ack_def)

lemma wf_v2_ack_simps [simp]:
  "wf_v2_ack (v2_ack ''busy'' [])" "is_lower_hex 64 d \<Longrightarrow> wf_v2_ack (v2_ack ''rejected'' d)"
  "is_lower_hex 64 d \<Longrightarrow> wf_v2_ack (v2_ack ''accepted'' d)" "wf_v2_ack (v2_ack ''rejected'' ZERO_DIGEST)"
proof -
  have "is_lower_hex 64 ZERO_DIGEST" by (simp add: ZERO_DIGEST_def is_lower_hex_def list_all_iff is_hex_char_def)
  then show "wf_v2_ack (v2_ack ''busy'' [])" "is_lower_hex 64 d \<Longrightarrow> wf_v2_ack (v2_ack ''rejected'' d)"
    "is_lower_hex 64 d \<Longrightarrow> wf_v2_ack (v2_ack ''accepted'' d)" "wf_v2_ack (v2_ack ''rejected'' ZERO_DIGEST)"
    by (auto simp: wf_v2_ack_def)
qed

lemma status_literals [simp]:
  "u ''rejected'' \<noteq> u ''accepted''" "u ''busy'' \<noteq> u ''accepted''"
  by (simp_all add: u_def)

lemma promotion_failure_ack:
  "is_lower_hex 64 d \<Longrightarrow> wf_v2_ack (promotion_failure d e)" "ha_status (promotion_failure d e) \<noteq> plit ''accepted''"
  by (simp_all add: promotion_failure_def)

lemma trusted_context_ack:
  "trusted_context I clock d n = Inl a \<Longrightarrow> is_lower_hex 64 d \<Longrightarrow> wf_v2_ack a"
  "trusted_context I clock d n = Inl a \<Longrightarrow> ha_status a \<noteq> plit ''accepted''"
  by (auto simp: trusted_context_def split: sum.splits session_answer.splits if_splits)

lemma trusted_context_iff:
  "trusted_context I clock d n = Inr (nonce, t) \<longleftrightarrow>
     hi_resolve I n = Inr (SessionNonce n) \<and> length n = 32 \<and> nonce = n \<and> clock = Inr (PInt t) \<and> 1 \<le> t \<and> t \<le> UINT64_MAX"
  by (auto simp: trusted_context_def REPORT_NONCE_BYTES_def is_int_iff elim!: int_in.elims split: sum.splits session_answer.splits if_splits)

lemma v2_process_cases [consumes 1, case_names raised refused accepted]:
  assumes "v2_process E B W st st2 st3 I clock wire L = (r, L')"
  obtains e where "r = Inl e" "L' = L" "e \<noteq> ThreatHintV2TransportError"
      "parse_transport E wire (PStr (hi_network_id I)) = Inl e"
  | a where "r = Inr a" "L' = L" "wf_v2_ack a" "ha_status a \<noteq> plit ''accepted''"
  | p t x where "r = Inr (v2_ack ''accepted'' (sha256_hex wire))" "0 < length wire" "length wire \<le> MAX_TRANSPORT_PAYLOAD_BYTES"
      "parse_transport E wire (PStr (hi_network_id I)) = Inr p"
      "hi_resolve I (tp_report_nonce p) = Inr (SessionNonce (tp_report_nonce p))" "length (tp_report_nonce p) = 32"
      "clock = Inr (PInt t)" "1 \<le> t" "t \<le> UINT64_MAX"
      "promote E B W st st2 st3 (hi_promotion I) (tp_envelope_wire p) (tp_bundle_wire p) (tp_approval_wire p)
         (tp_report_nonce p) t L = (Inr x, L')"
proof -
  have h: "is_lower_hex 64 (sha256_hex wire)" by simp
  show thesis
  proof (cases "0 < length wire \<and> length wire \<le> MAX_TRANSPORT_PAYLOAD_BYTES")
    case False
    then show thesis using assms by (intro that(2)) (auto simp: v2_process_def)
  next
    case size: True
    show thesis
    proof (cases "parse_transport E wire (PStr (hi_network_id I))")
      case (Inl e)
      then show thesis using assms size h that(1,2) by (auto simp: v2_process_def split: if_splits)
    next
      case p: (Inr p)
      show thesis
      proof (cases "trusted_context I clock (sha256_hex wire) (tp_report_nonce p)")
        case (Inl a)
        then show thesis using assms size p h trusted_context_ack [OF Inl] that(2) by (auto simp: v2_process_def)
      next
        case c: (Inr nt)
        obtain n t where nt: "nt = (n, t)" by (cases nt)
        obtain y L1 where y: "promote E B W st st2 st3 (hi_promotion I) (tp_envelope_wire p) (tp_bundle_wire p)
            (tp_approval_wire p) n t L = (y, L1)"
          by (cases "promote E B W st st2 st3 (hi_promotion I) (tp_envelope_wire p) (tp_bundle_wire p)
            (tp_approval_wire p) n t L")
        show thesis
        proof (cases y)
          case (Inl e)
          then have "r = Inr (promotion_failure (sha256_hex wire) e)" "L' = L1"
            using assms size p c nt y by (simp_all add: v2_process_def)
          moreover have "L1 = L" using promote_fails y Inl by blast
          ultimately show thesis using promotion_failure_ack h that(2) by blast
        next
          case (Inr x)
          then have "r = Inr (v2_ack ''accepted'' (sha256_hex wire))" "L' = L1"
            using assms size p c nt y by (simp_all add: v2_process_def)
          then show thesis using that(3) size p c y Inr by (auto simp: trusted_context_iff nt)
        qed
      qed
    qed
  qed
qed

text \<open>A promotion is one call on the ledger.\<close>

lemma promote_lstep:
  assumes "governed_promotion M g" and "promote E B W st st2 st3 M we bw aw nonce t L = (r, L')"
  shows "(lstep E)\<^sup>*\<^sup>* L L'"
proof (cases r)
  case (Inl e)
  then show ?thesis using promote_fails assms(2) by blast
next
  case (Inr x)
  then obtain a where "accept E B W st st2 st3 (ms_acceptance M) we bw aw nonce t L = (Inr a, L')"
    using assms(2) by (auto simp: promote_Inr)
  then obtain sw and v :: ThreatHintV2VerifiedPreflightReceipt and c :: ObservableApprovalConsumptionReceipt
    where "consume_expected E B st2 st3 (as_consumption (ms_acceptance M)) aw bw nonce t (vr_approval_id v)
      (vr_observable_commitment v) sw L = (Inr c, L')"
    by (auto simp: accept_def split: sum.splits prod.splits)
  then show ?thesis using assms(1) by (auto simp: governed_promotion_def intro: lstep.expected)
qed

lemma v2_process_lstep:
  assumes "governed_promotion (hi_promotion I) g" and "v2_process E B W st st2 st3 I clock wire L = (r, L')"
  shows "(lstep E)\<^sup>*\<^sup>* L L'"
  using assms(2) by (cases rule: v2_process_cases) (auto intro: promote_lstep [OF assms(1)])

text \<open>The approval a frame carries, and the identities of the approvals that are consumed.\<close>

definition frame_approval :: "py_env \<Rightarrow> ThreatHintV2Ingress \<Rightarrow> bytes \<Rightarrow> bytes" where
  "frame_approval E I wire =
     (case parse_transport E wire (PStr (hi_network_id I)) of
        Inr p \<Rightarrow> domain_digest APPROVAL_ID_DOMAIN (tp_approval_wire p) | Inl _ \<Rightarrow> [])"

definition consumed_ids :: "ledger \<Rightarrow> bytes set" where
  "consumed_ids L = cr_approval_id ` set (lg_consumptions L)"

lemma consumed_ids_mono: "extends L L' \<Longrightarrow> consumed_ids L \<subseteq> consumed_ids L'"
  by (auto simp: extends_def consumed_ids_def)

lemma consume_tx_consumed:
  "consume_tx E True v t (Some g) bw sw nonce L = Inr L' \<Longrightarrow> va_approval_id v \<in> consumed_ids L'"
  by (auto simp: consume_tx_governed enqueue_outbox_iff enqueued_def consumed_def consumption_of_def consumed_ids_def)

lemma promote_consumes:
  assumes "governed_promotion M g" and "1 \<le> json_depth E"
    and "promote E B W st st2 st3 M we bw aw nonce t L = (Inr r, L')"
  shows "domain_digest APPROVAL_ID_DOMAIN aw \<in> consumed_ids L' - consumed_ids L"
proof
  obtain a where "accept E B W st st2 st3 (ms_acceptance M) we bw aw nonce t L = (Inr a, L')"
    using assms(3) by (auto simp: promote_Inr)
  then obtain wm e m v where s: "verified_spec E B W (as_verified_preflight (ms_acceptance M)) we bw aw nonce t wm e m v"
    and tx: "consume_tx E True v t (Some g) bw (statement_wire (pe_parsed_statement e)) nonce L = Inr L'"
    by (auto simp: accept_iff [OF assms(1,2)])
  have "va_approval_id v = domain_digest APPROVAL_ID_DOMAIN aw"
    using s by (simp add: verified_spec_def preflight_spec_def approval_spec_def)
  then show "domain_digest APPROVAL_ID_DOMAIN aw \<in> consumed_ids L'"
    using consume_tx_consumed [OF tx] by simp
  show "domain_digest APPROVAL_ID_DOMAIN aw \<notin> consumed_ids L"
  proof
    assume "domain_digest APPROVAL_ID_DOMAIN aw \<in> consumed_ids L"
    then obtain e where "promote E B W st st2 st3 M we bw aw nonce t L = (Inl e, L)"
      using promote_consumed [OF assms(1,2)] unfolding consumed_ids_def by blast
    with assms(3) show False by simp
  qed
qed

subsection \<open>The server as a state machine\<close>

text \<open>The third component lists the approvals of the frames that were accepted, newest first. Other processes may use the
  ledger and change what is at the path at any time.\<close>

definition note_accepted :: "py_env \<Rightarrow> ThreatHintV2Ingress \<Rightarrow> bytes \<Rightarrow> pyexc + ThreatHintV2IngressAck \<Rightarrow> bytes list \<Rightarrow> bytes list" where
  "note_accepted E I wire r hs = (if is_accepted r then frame_approval E I wire # hs else hs)"

inductive hint_step ::
  "py_env \<Rightarrow> bip340 \<Rightarrow> ThreatHintV2Ingress \<Rightarrow> hint_server \<times> ledger \<times> bytes list \<Rightarrow>
     hint_server \<times> ledger \<times> bytes list \<Rightarrow> bool" for E B I where
  start: "start_server bound chmod_ok seen listened S = (r, S') \<Longrightarrow> hint_step E B I (S, L, hs) (S', L, hs)"
| accept: "hs_listening S \<Longrightarrow> i \<notin> fst ` set (hs_connections S) \<Longrightarrow> accept_connection peer i S = (reply, S') \<Longrightarrow>
     hint_step E B I (S, L, hs) (S', L, hs)"
| serve: "(i, Admitted) \<in> set (hs_connections S) \<Longrightarrow> serve_frame i input S = (reply, S') \<Longrightarrow>
     hint_step E B I (S, L, hs) (S', L, hs)"
| work: "(i, Submitted wire) \<in> set (hs_connections S) \<Longrightarrow> v2_process E B W st st2 st3 I clock wire L = (r, L') \<Longrightarrow>
     serve_result i r S = (reply, S') \<Longrightarrow> hint_step E B I (S, L, hs) (S', L', note_accepted E I wire r hs)"
| orphan_runs: "hs_orphans S = ws @ wire # ws' \<Longrightarrow> v2_process E B W st st2 st3 I clock wire L = (r, L') \<Longrightarrow>
     hint_step E B I (S, L, hs) (S\<lparr>hs_orphans := ws @ ws'\<rparr>, L', note_accepted E I wire r hs)"
| orphan_dropped: "hs_orphans S = ws @ wire # ws' \<Longrightarrow> hint_step E B I (S, L, hs) (S\<lparr>hs_orphans := ws @ ws'\<rparr>, L, hs)"
| close_1: "hint_step E B I (S, L, hs) (close_listener S, L, hs)"
| close_2: "\<not> hs_listening S \<Longrightarrow> hint_step E B I (S, L, hs) (close_workers S, L, hs)"
| close_3: "\<not> hs_executor S \<Longrightarrow> hs_orphans S = [] \<Longrightarrow> hint_step E B I (S, L, hs) (close_socket S, L, hs)"
| other_ledger: "lstep E L L' \<Longrightarrow> hint_step E B I (S, L, hs) (S, L', hs)"
| other_path: "hint_step E B I (S, L, hs) (S\<lparr>hs_node := node\<rparr>, L, hs)"

inductive_cases hint_stepE: "hint_step E B I st st'"

definition idle_server :: "nat \<Rightarrow> hint_server" where
  "idle_server n =
     \<lparr>hs_max_connections = n, hs_active = 0, hs_connections = [], hs_listening = False, hs_executor = False,
      hs_orphans = [], hs_socket_identity = None, hs_node = None\<rparr>"

lemma new_hint_server_idle: "new_hint_server uid path p n ok = Inr S \<Longrightarrow> S = idle_server n \<and> 1 \<le> n"
  by (auto simp: new_hint_server_def idle_server_def split: if_splits)

definition hint_reachable :: "py_env \<Rightarrow> bip340 \<Rightarrow> ThreatHintV2Ingress \<Rightarrow> hint_server \<times> ledger \<times> bytes list \<Rightarrow> bool" where
  "hint_reachable E B I st \<longleftrightarrow>
     (\<exists>n L. 1 \<le> n \<and> reachable E L \<and> (hint_step E B I)\<^sup>*\<^sup>* (idle_server n, L, []) st)"

definition permits_inv :: "hint_server \<Rightarrow> bool" where
  "permits_inv S \<longleftrightarrow>
     hs_active S = length (hs_connections S) \<and> hs_active S \<le> hs_max_connections S \<and>
     distinct (map fst (hs_connections S)) \<and> (hs_listening S \<longrightarrow> hs_executor S)"

definition hint_inv :: "py_env \<Rightarrow> hint_server \<times> ledger \<times> bytes list \<Rightarrow> bool" where
  "hint_inv E st =
     (case st of (S, L, hs) \<Rightarrow> permits_inv S \<and> ledger_inv E L \<and> distinct hs \<and> set hs \<subseteq> consumed_ids L)"

lemma permits_release:
  assumes "permits_inv S" and "(i, c) \<in> set (hs_connections S)"
  shows "permits_inv (release_permit i S)"
proof -
  have "i \<in> fst ` set (hs_connections S)" using assms(2) by force
  then show ?thesis
    using assms(1) length_delete [of "hs_connections S" i] distinct_delete [of "hs_connections S" i]
    by (auto simp: permits_inv_def release_permit_def)
qed

lemma serve_frame_permits:
  assumes "permits_inv S" and "(i, Admitted) \<in> set (hs_connections S)" and "serve_frame i input S = (reply, S')"
  shows "permits_inv S'"
proof -
  have "i \<in> fst ` set (hs_connections S)" using assms(2) by force
  then have "permits_inv (S\<lparr>hs_connections := AList.update i (Submitted w) (hs_connections S)\<rparr>)" for w
    using assms(1) by (simp add: permits_inv_def length_update distinct_update)
  then show ?thesis using assms(3) permits_release [OF assms(1,2)]
    by (auto simp: serve_frame_def split: option.splits frame.splits if_splits)
qed

lemma start_server_permits: "permits_inv S \<Longrightarrow> start_server b c s l S = (r, S') \<Longrightarrow> permits_inv S'"
  by (auto simp: start_server_def start_failed_def permits_inv_def Let_def split: option.splits if_splits)

lemma hint_inv_process:
  assumes "governed_promotion (hi_promotion I) g" and "1 \<le> json_depth E"
    and "ledger_inv E L" and "distinct hs" and "set hs \<subseteq> consumed_ids L"
    and "v2_process E B W st st2 st3 I clock wire L = (r, L')"
  shows "ledger_inv E L'" "distinct (note_accepted E I wire r hs)" "set (note_accepted E I wire r hs) \<subseteq> consumed_ids L'"
proof -
  have x: "ledger_inv E L'" "extends L L'" using lsteps_inv [OF v2_process_lstep [OF assms(1,6)] assms(3)] by simp_all
  show "ledger_inv E L'" by (rule x(1))
  have sub: "set hs \<subseteq> consumed_ids L'" using assms(5) consumed_ids_mono [OF x(2)] by blast
  have "frame_approval E I wire \<in> consumed_ids L' - consumed_ids L" if "is_accepted r"
    using assms(6)
  proof (cases rule: v2_process_cases)
    case (accepted p t y)
    then show ?thesis using promote_consumes [OF assms(1,2) accepted(10)] by (simp add: frame_approval_def)
  qed (use that in \<open>simp_all add: is_accepted_def\<close>)
  then show "distinct (note_accepted E I wire r hs)" "set (note_accepted E I wire r hs) \<subseteq> consumed_ids L'"
    using assms(4,5) sub by (auto simp: note_accepted_def)
qed

lemma hint_inv_step:
  assumes "governed_promotion (hi_promotion I) g" and "1 \<le> json_depth E"
    and "hint_step E B I st st'" and "hint_inv E st"
  shows "hint_inv E st'"
  using assms(3)
proof (cases rule: hint_step.cases)
  case (start bound chmod_ok seen listened S r S' L hs)
  then show ?thesis using assms(4) start_server_permits by (auto simp: hint_inv_def)
next
  case (accept S i peer reply S' L hs)
  then show ?thesis using assms(4) by (auto simp: hint_inv_def permits_inv_def accept_connection_def split: if_splits)
next
  case (serve i S input reply S' L hs)
  then show ?thesis using assms(4) serve_frame_permits by (auto simp: hint_inv_def)
next
  case (work i wire S W st1 st2 st3 clock L r L' reply S' hs)
  then show ?thesis
    using assms(4) hint_inv_process [OF assms(1,2) _ _ _ work(4), of hs] permits_release [OF _ work(3)]
    by (auto simp: hint_inv_def serve_result_def)
next
  case (orphan_runs S ws wire ws' W st1 st2 st3 clock L r L' hs)
  then show ?thesis
    using assms(4) hint_inv_process [OF assms(1,2) _ _ _ orphan_runs(4), of hs] by (auto simp: hint_inv_def permits_inv_def)
next
  case (other_ledger L L' S hs)
  then show ?thesis using assms(4) lstep_inv [OF other_ledger(3)] consumed_ids_mono by (fastforce simp: hint_inv_def)
qed (use assms(4) in \<open>auto simp: hint_inv_def permits_inv_def close_listener_def close_workers_def close_socket_def\<close>)

lemma hint_inv_reachable:
  assumes "governed_promotion (hi_promotion I) g" and "1 \<le> json_depth E" and "hint_reachable E B I st"
  shows "hint_inv E st"
proof -
  obtain n L where L: "1 \<le> n" "reachable E L" "(hint_step E B I)\<^sup>*\<^sup>* (idle_server n, L, []) st"
    using assms(3) by (auto simp: hint_reachable_def)
  have "ledger_inv E L" using L(2) lsteps_inv new_ledger_inv unfolding reachable_def by blast
  then have "hint_inv E (idle_server n, L, [])" by (simp add: hint_inv_def permits_inv_def idle_server_def)
  with L(3) show ?thesis by (induction rule: rtranclp_induct) (auto intro: hint_inv_step [OF assms(1,2)])
qed

text \<open>The server removes from the path only the socket it bound itself, and leaves nothing when that is still there.\<close>

lemma close_socket_owned:
  assumes "start_server bound chmod_ok seen listened S = (Inr (), S')"
  obtains mine where "seen = Some mine" "hs_listening S'" "hs_executor S'"
    "\<And>node. hs_node (close_socket (S'\<lparr>hs_node := Some node\<rparr>)) =
       (if S_ISSOCK (st_mode node) \<and> (st_dev node, st_ino node) = (st_dev mine, st_ino mine) then None else Some node)"
  using assms
  by (auto simp: start_server_def start_failed_def close_socket_def unlink_owned_socket_def Let_def split: option.splits if_splits)

text \<open>When the mode of the new socket cannot be set, the socket stays at the path although \<open>start\<close> failed: its identity
  is not known yet.\<close>

lemma start_chmod_leaves_socket:
  assumes "\<not> hs_listening S" and "\<not> hs_executor S" and "hs_socket_identity S = None"
  shows "start_server (Some node) False seen listened S = (Inl OtherError, S\<lparr>hs_node := Some node\<rparr>)"
  using assms by (cases S) (simp add: start_server_def start_failed_def unlink_owned_socket_def)

subsection \<open>A concrete server\<close>

definition ex_ingress :: ThreatHintV2Ingress where
  "ex_ingress = \<lparr>hi_promotion = ex_promotion, hi_resolve = (\<lambda>n. Inr (SessionNonce n)), hi_network_id = u ''mainnet''\<rparr>"

definition ex_socket :: stat_result where
  "ex_socket = \<lparr>st_mode = 0xC180, st_uid = 1000, st_dev = 1, st_ino = 2, st_size = 0\<rparr>"

definition ex_server :: hint_server where
  "ex_server =
     \<lparr>hs_max_connections = 1, hs_active = 1, hs_connections = [(7, Admitted)], hs_listening = True, hs_executor = True,
      hs_orphans = [], hs_socket_identity = Some (1, 2), hs_node = Some ex_socket\<rparr>"

lemma ex_server_reachable: "hint_reachable E B I (ex_server, new_ledger, [])"
proof -
  let ?S = "snd (start_server (Some ex_socket) True (Some ex_socket) True (idle_server 1))"
  have 1: "hint_step E B I (idle_server 1, new_ledger, []) (?S, new_ledger, [])"
    by (rule hint_step.start) (rule prod.collapse [symmetric])
  have "\<exists>r. accept_connection \<lparr>pw_posix = True, pw_euid = 5, pw_getpeereid = None, pw_so_peercred = Some (Some 5)\<rparr> 7 ?S =
      (r, ex_server)" and "hs_listening ?S" and "hs_connections ?S = []"
    by (simp_all add: start_server_def idle_server_def ex_socket_def S_ISSOCK_def accept_connection_def
        has_same_euid_peer_def ex_server_def)
  then have "hint_step E B I (?S, new_ledger, []) (ex_server, new_ledger, [])"
    by (auto intro: hint_step.accept)
  then show ?thesis using 1 unfolding hint_reachable_def reachable_def
    by (intro exI [of _ 1] exI [of _ new_ledger]) (auto intro: rtranclp.rtrancl_into_rtrancl)
qed

subsection \<open>Properties\<close>

text \<open>C8. The ingress answers \<open>accepted\<close> exactly when the frame is a canonical transport payload of the trusted network, the
  resolver gives back the payload's own nonce as an active session, the clock gives a time in range, and the promotion of
  the payload's three wires with that nonce and time succeeds. The acknowledgement carries the digest of exactly these
  bytes, and the ledger after it is the one of that promotion.\<close>

theorem ingress_accepts_iff:
  "v2_process E B W st st2 st3 I clock wire L = (Inr (v2_ack ''accepted'' d), L') \<longleftrightarrow>
     d = sha256_hex wire \<and>
     (\<exists>p t x. parse_transport E wire (PStr (hi_network_id I)) = Inr p \<and>
        hi_resolve I (tp_report_nonce p) = Inr (SessionNonce (tp_report_nonce p)) \<and>
        clock = Inr (PInt t) \<and> 1 \<le> t \<and> t \<le> UINT64_MAX \<and>
        promote E B W st st2 st3 (hi_promotion I) (tp_envelope_wire p) (tp_bundle_wire p) (tp_approval_wire p)
          (tp_report_nonce p) t L = (Inr x, L'))"
    (is "?l \<longleftrightarrow> ?r")
proof
  assume ?l
  then show ?r by (cases rule: v2_process_cases) (auto simp: v2_ack_def)
next
  assume ?r
  then obtain p t x where p: "parse_transport E wire (PStr (hi_network_id I)) = Inr p" and d: "d = sha256_hex wire"
    and c: "hi_resolve I (tp_report_nonce p) = Inr (SessionNonce (tp_report_nonce p))"
      "clock = Inr (PInt t)" "1 \<le> t" "t \<le> UINT64_MAX"
    and x: "promote E B W st st2 st3 (hi_promotion I) (tp_envelope_wire p) (tp_bundle_wire p) (tp_approval_wire p)
      (tp_report_nonce p) t L = (Inr x, L')" by blast
  have v: "valid_payload p" "0 < length wire" "length wire \<le> MAX_TRANSPORT_PAYLOAD_BYTES"
    using parse_transport_enc [OF p] p by (auto simp: parse_transport_def split_frame_def split: if_splits)
  then have "trusted_context I clock d (tp_report_nonce p) = Inr (tp_report_nonce p, t)"
    using c by (simp add: trusted_context_iff valid_payload_def)
  then show ?l using p x v by (simp add: v2_process_def d)
qed

text \<open>C39. The ingress fails closed and answers canonically. Whatever happens, a call that is not accepted leaves the ledger
  as it was; the only exceptions that leave it are those of the transport parser that are not its own error class; and
  every acknowledgement it returns can be encoded within 384 bytes and is read back by the client's parser, which accepts
  only the bytes the encoder gives.\<close>

theorem ingress_fails_closed:
  assumes "v2_process E B W st st2 st3 I clock wire L = (r, L')" and "1 \<le> json_depth E"
  shows "(\<not> is_accepted r \<longrightarrow> L' = L) \<and>
    (\<forall>e. r = Inl e \<longrightarrow> e \<noteq> ThreatHintV2TransportError \<and> parse_transport E wire (PStr (hi_network_id I)) = Inl e) \<and>
    (\<forall>a. r = Inr a \<longrightarrow> (\<exists>w. v2_ack_to_wire a = Inr w \<and> length w \<le> 384 \<and> v2_ack_from_wire E w = Inr a)) \<and>
    (\<forall>w a. v2_ack_from_wire E w = Inr a \<longrightarrow> v2_ack_to_wire a = Inr w)"
proof -
  have w: "\<exists>w. v2_ack_to_wire a = Inr w \<and> length w \<le> 384 \<and> v2_ack_from_wire E w = Inr a" if "wf_v2_ack a" for a
    using v2_ack_to_wire_wf [OF that] v2_ack_from_wire_wf [OF that assms(2)] by blast
  from assms(1) show ?thesis
  proof (cases rule: v2_process_cases)
    case (raised e)
    then show ?thesis using v2_ack_from_wire_sound by blast
  next
    case (refused a)
    then show ?thesis using w v2_ack_from_wire_sound by blast
  next
    case (accepted p t x)
    then have "wf_v2_ack (v2_ack ''accepted'' (sha256_hex wire))" by simp
    with accepted(1) w show ?thesis using v2_ack_from_wire_sound by (auto simp: is_accepted_def)
  qed
qed

theorem ingress_fails_closed_witness:
  "v2_process ex_env B0 ex_world DbOk DbOk DbOk ex_ingress (Inr PNone) [] ex_ledger =
     (Inr (v2_ack ''rejected'' ZERO_DIGEST), ex_ledger) \<and>
   (\<exists>w. v2_ack_to_wire (v2_ack ''rejected'' ZERO_DIGEST) = Inr w \<and> length w \<le> 384)"
proof -
  have p: "v2_process ex_env B0 ex_world DbOk DbOk DbOk ex_ingress (Inr PNone) [] ex_ledger =
     (Inr (v2_ack ''rejected'' ZERO_DIGEST), ex_ledger)" by (simp add: v2_process_def)
  have "1 \<le> json_depth ex_env" by (simp add: ex_env_def)
  from ingress_fails_closed [OF p this] p show ?thesis by blast
qed

text \<open>C10. The server accepts an approval at most once. In every state reached from a fresh server on a reachable ledger, by
  any interleaving of connections, executor threads, restarts and shutdowns with other users of the ledger, the approvals
  of the accepted frames are pairwise different and all consumed in the ledger, and no frame that carries one of them is
  accepted again. The permits in use are the open connections and never more than the configured maximum.\<close>

theorem hint_single_acceptance:
  assumes "governed_promotion (hi_promotion I) g" and "1 \<le> json_depth E" and "hint_reachable E B I (S, L, hs)"
  shows "distinct hs \<and> set hs \<subseteq> cr_approval_id ` set (lg_consumptions L) \<and>
    (frame_approval E I wire \<in> set hs \<longrightarrow> \<not> is_accepted (fst (v2_process E B W st st2 st3 I clock wire L))) \<and>
    hs_active S = length (hs_connections S) \<and> hs_active S \<le> hs_max_connections S"
proof -
  have inv: "permits_inv S" "ledger_inv E L" "distinct hs" "set hs \<subseteq> consumed_ids L"
    using hint_inv_reachable [OF assms] by (simp_all add: hint_inv_def)
  obtain r L' where r: "v2_process E B W st st2 st3 I clock wire L = (r, L')"
    by (cases "v2_process E B W st st2 st3 I clock wire L")
  have "frame_approval E I wire \<notin> set hs" if "is_accepted r"
    using hint_inv_process(2) [OF assms(1,2) inv(2-4) r] that by (simp add: note_accepted_def)
  then show ?thesis using inv r by (auto simp: permits_inv_def consumed_ids_def)
qed

theorem hint_single_acceptance_witness:
  "hs_active ex_server = 1 \<and> hs_connections ex_server = [(7, Admitted)] \<and>
   (hs_active ex_server = length (hs_connections ex_server) \<and> hs_active ex_server \<le> hs_max_connections ex_server)"
proof -
  have "governed_promotion (hi_promotion ex_ingress) ex_governance" "1 \<le> json_depth ex_env"
    using ex_governed_promotion by (simp_all add: ex_ingress_def ex_env_def)
  from hint_single_acceptance [OF this ex_server_reachable [of ex_env B0 ex_ingress]]
  show ?thesis by (simp add: ex_server_def)
qed

end
