(* ===== verification/Hint_V1_Service.thy ===== *)
theory Hint_V1_Service
  imports Hint_V1 Hint_Ingress
begin

text \<open>
  The service around version 1 hints: the pinned Groth16 verifier, the socket server and the path checks of
  \<open>jaeger/threat_hint_ingress.py\<close>, the drain of the outbox into the analyzer (\<open>jaeger/threat_hint_adapter.py\<close>), and the
  configuration of the operated service (\<open>jaeger/threat_hint_service.py\<close>).

  What the operating system answers for a path is a \<open>file_view\<close>, and for the verifier process its exit code (\<open>None\<close> when
  it cannot be started, times out or fails); an analyzer is a function, where \<open>Inr None\<close> is an object that is no analysis
  result. A timeout is a number of the caller, and its range test a flag.
\<close>

subsection \<open>The verifier\<close>

definition owner_read :: "nat \<Rightarrow> bool" where
  "owner_read mode \<longleftrightarrow> mode AND 256 \<noteq> 0"

text \<open>The status of a parent directory is read outside of the \<open>try\<close> block.\<close>

fun trusted_parents :: "nat \<Rightarrow> stat_result option list \<Rightarrow> pyexc + unit" where
  "trusted_parents uid [] = Inr ()"
| "trusted_parents uid (st # sts) =
     rbind (os_ok OSError st) (\<lambda>parent_stat.
     if \<not> S_ISDIR (st_mode parent_stat) \<or> group_world_write (st_mode parent_stat) \<or>
        \<not> (st_uid parent_stat = 0 \<or> st_uid parent_stat = uid) then Inl ThreatHintIngressError
     else trusted_parents uid sts)"

definition validate_verifier_binary :: "nat \<Rightarrow> file_view \<Rightarrow> pyexc + pystr" where
  "validate_verifier_binary uid f =
     (let e = ThreatHintIngressError
      in rbind (os_ok e (fv_before f)) (\<lambda>current.
         rbind (raise_if (\<not> fv_resolved_same f \<or> \<not> S_ISREG (st_mode current) \<or>
                          \<not> (st_uid current = 0 \<or> st_uid current = uid) \<or> group_world_write (st_mode current) \<or>
                          special_bits (st_mode current) \<or> \<not> owner_exec (st_mode current)) e) (\<lambda>_.
         rbind (trusted_parents uid (fv_ancestors f)) (\<lambda>_.
         rbind (raise_if (\<not> (0 < st_size current \<and> st_size current \<le> MAX_VERIFIER_EXECUTABLE_BYTES)) e) (\<lambda>_.
         rbind (os_ok e (fv_opened f)) (\<lambda>opened.
         rbind (raise_if (st_dev opened \<noteq> st_dev current \<or> st_ino opened \<noteq> st_ino current \<or>
                          st_size opened \<noteq> st_size current \<or> \<not> S_ISREG (st_mode opened)) e) (\<lambda>_.
         rbind (os_ok e (fv_content f)) (\<lambda>content.
         let hashed = read_loop (64 * 1024) (st_size current + 1) (fv_sizes f) content
         in if length hashed \<noteq> st_size current then Inl e else Inr (sha256_hex hashed)))))))))"

definition validate_owner_input_file :: "nat \<Rightarrow> file_view \<Rightarrow> pyexc + unit" where
  "validate_owner_input_file uid f =
     (let e = ThreatHintIngressError
      in rbind (os_parent e f) (\<lambda>parent_stat.
         rbind (os_ok e (fv_before f)) (\<lambda>current.
         raise_if (\<not> fv_resolved_same f \<or> \<not> S_ISDIR (st_mode parent_stat) \<or> st_uid parent_stat \<noteq> uid \<or>
                   group_world (st_mode parent_stat) \<or> \<not> S_ISREG (st_mode current) \<or> st_uid current \<noteq> uid \<or>
                   group_world (st_mode current) \<or> special_bits (st_mode current) \<or> \<not> owner_read (st_mode current)) e)))"

record Kip16Groth16Verifier =
  kv_binary_sha256 :: pystr
  kv_manifest_sha256 :: pystr

definition kip16_verifier ::
  "nat \<Rightarrow> file_view \<Rightarrow> file_view \<Rightarrow> pystr \<Rightarrow> pystr \<Rightarrow> bool \<Rightarrow> pyexc + Kip16Groth16Verifier" where
  "kip16_verifier uid binary manifest expected_manifest expected_executable timeout_in_range =
     (if \<not> is_lower_hex 64 expected_manifest \<or> \<not> is_lower_hex 64 expected_executable \<or> \<not> timeout_in_range
      then Inl ThreatHintIngressError
      else rbind (validate_verifier_binary uid binary) (\<lambda>observed.
           if observed \<noteq> expected_executable then Inl ThreatHintIngressError
           else rbind (validate_owner_input_file uid manifest) (\<lambda>_.
                Inr \<lparr>kv_binary_sha256 = expected_executable, kv_manifest_sha256 = expected_manifest\<rparr>)))"

text \<open>\<open>run\<close> is the exit code of the verifier for the manifest anchor, the network and the bytes on its standard input.\<close>

definition kip16_verify ::
  "nat \<Rightarrow> file_view \<Rightarrow> file_view \<Rightarrow> (pystr \<Rightarrow> pystr \<Rightarrow> bytes \<Rightarrow> int option) \<Rightarrow> Kip16Groth16Verifier \<Rightarrow> proof_verifier" where
  "kip16_verify uid binary manifest run K h wire network =
     (if hint_to_wire h \<noteq> wire \<or> ch_proof_system h \<noteq> u ''groth16_kip16_v1'' then Inr False
      else rbind (catch (rbind (validate_verifier_binary uid binary) (\<lambda>observed.
                         if observed \<noteq> kv_binary_sha256 K then Inl ThreatHintIngressError
                         else rbind (validate_owner_input_file uid manifest) (\<lambda>_.
                              os_ok OSError (run (kv_manifest_sha256 K) network wire))))
                    (\<lambda>e. e \<in> {OSError, ThreatHintIngressError}) (\<lambda>_. Inl ThreatProofVerifierUnavailable)) (\<lambda>returncode.
           if returncode = 0 then Inr True
           else if returncode = 1 then Inr False
           else Inl ThreatProofVerifierUnavailable))"

subsection \<open>Paths\<close>

definition S_ISLNK :: "nat \<Rightarrow> bool" where
  "S_ISLNK mode \<longleftrightarrow> mode AND 0xF000 = 0xA000"

text \<open>The ledger path: whether it is absolute, the status of the resolved parent, the answer for the candidate, and its status after it was created
  (\<open>None\<close> when \<open>open\<close> fails).\<close>

record v1_ledger_view =
  lv_absolute :: bool
  lv_parent :: "stat_result option"
  lv_current :: lstat_answer
  lv_created :: "stat_result option"

definition prepare_v1_ledger_path :: "nat \<Rightarrow> pystr list \<Rightarrow> v1_ledger_view \<Rightarrow> pyexc + unit" where
  "prepare_v1_ledger_path uid path v =
     (if \<not> lv_absolute v \<or> path = [] \<or> last path = u ''..'' then Inl ThreatHintIngressError
      else rbind (os_ok OSError (lv_parent v)) (\<lambda>parent_stat.
           if \<not> S_ISDIR (st_mode parent_stat) \<or> st_uid parent_stat \<noteq> uid \<or> group_world (st_mode parent_stat)
           then Inl ThreatHintIngressError
           else rbind (case lv_current v of
                         Lstat current \<Rightarrow> Inr current
                       | LstatMissing \<Rightarrow> os_ok ThreatHintIngressError (lv_created v)
                       | LstatError \<Rightarrow> Inl OSError) (\<lambda>current.
                raise_if (S_ISLNK (st_mode current) \<or> \<not> S_ISREG (st_mode current) \<or> st_uid current \<noteq> uid \<or>
                          st_mode current AND 4095 \<noteq> 384) ThreatHintIngressError)))"

definition open_v1_ledger :: "nat \<Rightarrow> pystr list \<Rightarrow> v1_ledger_view \<Rightarrow> replay_db \<Rightarrow> pyexc + replay_ledger" where
  "open_v1_ledger uid path v db = rbind (prepare_v1_ledger_path uid path v) (\<lambda>_. open_replay_ledger db)"

definition v1_socket_path :: "nat \<Rightarrow> pystr list \<Rightarrow> socket_path_view \<Rightarrow> pyexc + pystr list" where
  "v1_socket_path uid path p =
     (if \<not> sp_absolute p \<or> path = [] \<or> last path = u ''..'' then Inl ThreatHintIngressError
      else case sp_resolved p of
             None \<Rightarrow> Inl OSError
           | Some (resolved_parent, parent) \<Rightarrow>
               (if \<not> S_ISDIR (st_mode parent) \<or> st_uid parent \<noteq> uid \<or> group_world (st_mode parent)
                then Inl ThreatHintIngressError
                else if sp_exists p \<or> sp_symlink p then Inl ThreatHintIngressError
                else if 100 \<le> sp_encoded p then Inl ThreatHintIngressError
                else Inr (resolved_parent @ [last path])))"

subsection \<open>The server\<close>

text \<open>A connection that holds a permit is reading its frame, or its frame is with a worker.\<close>

datatype v1_connection = V1Reading | V1Working bytes

record v1_server =
  sv_max_connections :: nat
  sv_active :: nat
  sv_connections :: "(nat \<times> v1_connection) list"
  sv_running :: bool
  sv_socket_identity :: "(nat \<times> nat) option"
  sv_node :: "stat_result option"

definition new_v1_server :: "nat \<Rightarrow> pystr list \<Rightarrow> socket_path_view \<Rightarrow> int \<Rightarrow> bool \<Rightarrow> pyexc + v1_server" where
  "new_v1_server uid path p max_connections timeout_in_range =
     (if max_connections < 1 \<or> \<not> timeout_in_range then Inl ThreatHintIngressError
      else rbind (v1_socket_path uid path p) (\<lambda>_.
           Inr \<lparr>sv_max_connections = nat max_connections, sv_active = 0, sv_connections = [], sv_running = False,
                sv_socket_identity = None, sv_node = None\<rparr>))"

text \<open>\<open>close\<close>: the workers are cancelled, which gives their permits back, and the owned socket is removed. A connection that
  still reads keeps its permit until its read ends.\<close>

definition is_reading :: "nat \<times> v1_connection \<Rightarrow> bool" where
  "is_reading c \<longleftrightarrow> snd c = V1Reading"

definition close_v1 :: "v1_server \<Rightarrow> v1_server" where
  "close_v1 S =
     S\<lparr>sv_running := False, sv_active := sv_active S - length (filter (\<lambda>c. \<not> is_reading c) (sv_connections S)),
       sv_connections := filter is_reading (sv_connections S),
       sv_node := unlink_owned_socket (sv_socket_identity S) (sv_node S), sv_socket_identity := None\<rparr>"

text \<open>\<open>bound\<close> is the file that \<open>start_unix_server\<close> creates and \<open>seen\<close> the answer of \<open>lstat\<close>; \<open>None\<close> is an \<open>OSError\<close>.\<close>

definition start_v1 :: "stat_result option \<Rightarrow> stat_result option \<Rightarrow> bool \<Rightarrow> v1_server \<Rightarrow> (pyexc + unit) \<times> v1_server" where
  "start_v1 bound seen chmod_ok S =
     (if sv_running S then (Inl ThreatHintIngressError, S)
      else case bound of
             None \<Rightarrow> (Inl OSError, close_v1 S)
           | Some node \<Rightarrow>
               (let S1 = S\<lparr>sv_running := True, sv_node := Some node\<rparr>
                in case seen of
                     None \<Rightarrow> (Inl OSError, close_v1 S1)
                   | Some path_stat \<Rightarrow>
                       (if \<not> S_ISSOCK (st_mode path_stat) then (Inl ThreatHintIngressError, close_v1 S1)
                        else let S2 = S1\<lparr>sv_socket_identity := Some (st_dev path_stat, st_ino path_stat)\<rparr>
                             in if \<not> chmod_ok then (Inl OSError, close_v1 S2) else (Inr (), S2))))"

definition v1_reply :: "ThreatHintIngressAck \<Rightarrow> pyexc + bytes" where
  "v1_reply a = rbind (v1_ack_to_wire a) (\<lambda>w. Inr (write_frame w))"

text \<open>\<open>_handle_connection\<close>: the permit, the frame, and the worker of \<open>_process_with_permit\<close>. The reply is empty when nothing
  is sent; \<open>None\<close> is a read that ends early or times out.\<close>

definition open_v1 :: "nat \<Rightarrow> v1_server \<Rightarrow> (pyexc + bytes) \<times> v1_server" where
  "open_v1 i S =
     (if sv_active S < sv_max_connections S
      then (Inr [], S\<lparr>sv_active := sv_active S + 1, sv_connections := (i, V1Reading) # sv_connections S\<rparr>)
      else (v1_reply (v1_ack HintBusy []), S))"

definition release_v1 :: "nat \<Rightarrow> v1_server \<Rightarrow> v1_server" where
  "release_v1 i S = S\<lparr>sv_active := sv_active S - 1, sv_connections := AList.delete i (sv_connections S)\<rparr>"

definition receive_v1 :: "nat \<Rightarrow> bytes \<Rightarrow> v1_server \<Rightarrow> (pyexc + bytes) \<times> v1_server" where
  "receive_v1 i input S =
     (case read_frame MAX_THREAT_HINT_WIRE_BYTES input of
        Incomplete \<Rightarrow> (Inr [], release_v1 i S)
      | BadSize \<Rightarrow> (v1_reply (v1_ack HintRejected ZERO_DIGEST), release_v1 i S)
      | Frame wire \<Rightarrow> (Inr [], S\<lparr>sv_connections := AList.update i (V1Working wire) (sv_connections S)\<rparr>))"

definition work_v1 ::
  "py_env \<Rightarrow> proof_verifier \<Rightarrow> db_status \<Rightarrow> db_status \<Rightarrow> pystr \<Rightarrow> nat \<Rightarrow> int \<Rightarrow> v1_server \<Rightarrow> replay_ledger \<Rightarrow>
     (pyexc + bytes) \<times> v1_server \<times> replay_ledger" where
  "work_v1 E V st st2 network i now_seconds S L =
     (case map_of (sv_connections S) i of
        Some (V1Working wire) \<Rightarrow>
          (let (r, L') = hint_process E V st st2 network wire now_seconds L
           in (rbind r v1_reply, release_v1 i S, L'))
      | _ \<Rightarrow> (Inr [], S, L))"

subsection \<open>The adapter\<close>

definition MAX_ANALYZER_BATCH_LIMIT :: int where
  "MAX_ANALYZER_BATCH_LIMIT = 32"

record ThreatHintAnalyzerAdapter =
  ta_expected_network_id :: pystr
  ta_batch_limit :: int

definition analyzer_adapter :: "pystr \<Rightarrow> pyval \<Rightarrow> pyexc + ThreatHintAnalyzerAdapter" where
  "analyzer_adapter network batch_limit =
     rbind (catch (proof_context network) (\<lambda>e. e = ThreatHintIngressError) (\<lambda>_. Inl ThreatHintAdapterError)) (\<lambda>_.
     if \<not> int_in 1 MAX_ANALYZER_BATCH_LIMIT batch_limit then Inl ThreatHintAdapterError
     else Inr \<lparr>ta_expected_network_id = network, ta_batch_limit = the_int batch_limit\<rparr>)"

definition verified_hint_of :: "job_row \<Rightarrow> CanonicalThreatHint \<Rightarrow> VerifiedThreatHint" where
  "verified_hint_of job h =
     \<lparr>vh_payload_digest = PStr (jb_payload_digest job), vh_schema_version = PInt (ch_schema_version h),
      vh_threat_hash = PStr (ch_threat_hash h), vh_confidence_bps = PInt (ch_confidence_bps h),
      vh_indicator_type = PStr (ch_indicator_type h), vh_proof_system = PStr (ch_proof_system h),
      vh_reporter_zk_proof = Some (bytes_fromhex (ch_proof h)), vh_report_nonce = PStr (ch_report_nonce h),
      vh_observed_at = PInt (ch_observed_at h), vh_network_id = PStr (jb_network_id job),
      vh_admitted_at = PInt (jb_admitted_at job)\<rparr>"

definition adapt_job :: "py_env \<Rightarrow> ThreatHintAnalyzerAdapter \<Rightarrow> job_row \<Rightarrow> pyexc + VerifiedThreatHint" where
  "adapt_job E A job =
     (let e = ThreatHintAdapterError
      in rbind (raise_if (jb_network_id job \<noteq> ta_expected_network_id A) e) (\<lambda>_.
         rbind (raise_if (\<not> 0 < jb_admitted_at job) e) (\<lambda>_.
         rbind (raise_if (jb_canonical_wire job = []) e) (\<lambda>_.
         rbind (raise_if (\<not> is_lower_hex 64 (jb_payload_digest job)) e) (\<lambda>_.
         rbind (raise_if (sha256_hex (jb_canonical_wire job) \<noteq> jb_payload_digest job) e) (\<lambda>_.
         rbind (catch (hint_from_wire E (jb_canonical_wire job)) (\<lambda>x. x = ThreatHintIngressError) (\<lambda>_. Inl e)) (\<lambda>h.
         rbind (raise_if (ch_proof_system h \<noteq> u ''groth16_kip16_v1'') e) (\<lambda>_.
         rbind (raise_if (\<not> (ch_observed_at h - MAX_FUTURE_SKEW_SECONDS \<le> jb_admitted_at job \<and>
                             jb_admitted_at job \<le> ch_observed_at h + MAX_HINT_AGE_SECONDS)) e) (\<lambda>_.
         catch (verified_threat_hint_init (verified_hint_of job h)) is_value_error (\<lambda>_. Inl e))))))))))"

fun is_zero_number :: "pynum \<Rightarrow> bool" where
  "is_zero_number (NumInt n) = (n = 0)"
| "is_zero_number (NumFloat (Fin q)) = (q = 0)"
| "is_zero_number _ = False"

definition validate_v1_analysis :: "VerifiedThreatHint \<Rightarrow> AnalysisResult option \<Rightarrow> pyexc + AnalysisResult" where
  "validate_v1_analysis hint answer =
     (case answer of
        None \<Rightarrow> Inl ThreatHintAdapterError
      | Some analysis \<Rightarrow>
          (if ar_threat_hash analysis \<noteq> vh_threat_hash hint \<or> \<not> is_zero_number (ar_confidence analysis) \<or>
              ar_yara_rule analysis \<noteq> NoRule \<or> ar_should_submit analysis \<noteq> PBool False \<or> ar_analysis_notes analysis = []
           then Inl ThreatHintAdapterError else Inr analysis))"

datatype FailureCategory = FailAdapt | FailAnalysis | FailClock | FailDelivery

record DeliveredThreatHintAnalysis =
  da_hint :: VerifiedThreatHint
  da_analysis :: AnalysisResult
  da_delivered_at :: int
  da_batch_index :: nat

record ThreatHintDrainFailure =
  df_batch_index :: nat
  df_category :: FailureCategory
  df_payload_digest :: "pyval option"

record ThreatHintDrainReport =
  dr_delivered :: "DeliveredThreatHintAnalysis list"
  dr_failures :: "ThreatHintDrainFailure list"

text \<open>One round of the loop: the outcome for one job, and the ledger after it.\<close>

definition drain_job ::
  "py_env \<Rightarrow> ThreatHintAnalyzerAdapter \<Rightarrow> (VerifiedThreatHint \<Rightarrow> pyexc + AnalysisResult option) \<Rightarrow> pyexc + pyval \<Rightarrow>
     db_status \<Rightarrow> nat \<Rightarrow> job_row \<Rightarrow> replay_ledger \<Rightarrow>
     (ThreatHintDrainFailure + DeliveredThreatHintAnalysis) \<times> replay_ledger" where
  "drain_job E A analyze clock st batch_index job L =
     (let failure = \<lambda>category digest.
            Inl \<lparr>df_batch_index = batch_index, df_category = category, df_payload_digest = digest\<rparr>
      in case adapt_job E A job of
           Inl _ \<Rightarrow> (failure FailAdapt None, L)
         | Inr hint \<Rightarrow>
             (let digest = Some (vh_payload_digest hint)
              in case rbind (analyze hint) (validate_v1_analysis hint) of
                   Inl _ \<Rightarrow> (failure FailAnalysis digest, L)
                 | Inr analysis \<Rightarrow>
                     (case clock of
                        Inr (PInt delivered_at) \<Rightarrow>
                          (if \<not> 0 < delivered_at \<or> delivered_at < the_int (vh_admitted_at hint)
                           then (failure FailClock digest, L)
                           else case mark_delivered st (the_str (vh_payload_digest hint)) delivered_at L of
                                  (Inl _, L') \<Rightarrow> (failure FailDelivery digest, L')
                                | (Inr _, L') \<Rightarrow>
                                    (Inr \<lparr>da_hint = hint, da_analysis = analysis, da_delivered_at = delivered_at,
                                          da_batch_index = batch_index\<rparr>, L'))
                      | _ \<Rightarrow> (failure FailClock digest, L))))"

fun drain_loop ::
  "py_env \<Rightarrow> ThreatHintAnalyzerAdapter \<Rightarrow> (VerifiedThreatHint \<Rightarrow> pyexc + AnalysisResult option) \<Rightarrow> (nat \<Rightarrow> pyexc + pyval) \<Rightarrow>
     (nat \<Rightarrow> db_status) \<Rightarrow> nat \<Rightarrow> job_row list \<Rightarrow> ThreatHintDrainReport \<Rightarrow> replay_ledger \<Rightarrow>
     ThreatHintDrainReport \<times> replay_ledger" where
  "drain_loop E A analyze clock st batch_index [] R L = (R, L)"
| "drain_loop E A analyze clock st batch_index (job # jobs) R L =
     (case drain_job E A analyze (clock batch_index) (st batch_index) batch_index job L of
        (Inl f, L') \<Rightarrow> drain_loop E A analyze clock st (Suc batch_index) jobs (R\<lparr>dr_failures := dr_failures R @ [f]\<rparr>) L'
      | (Inr d, L') \<Rightarrow> drain_loop E A analyze clock st (Suc batch_index) jobs (R\<lparr>dr_delivered := dr_delivered R @ [d]\<rparr>) L')"

text \<open>The reading of the batch may fail (\<open>st0\<close>), and so may each delivery (\<open>st\<close>). One drain is modelled without admissions in
  between; those only append jobs, which the batch does not contain.\<close>

definition drain_once ::
  "py_env \<Rightarrow> ThreatHintAnalyzerAdapter \<Rightarrow> (VerifiedThreatHint \<Rightarrow> pyexc + AnalysisResult option) \<Rightarrow> (nat \<Rightarrow> pyexc + pyval) \<Rightarrow>
     db_status \<Rightarrow> (nat \<Rightarrow> db_status) \<Rightarrow> replay_ledger \<Rightarrow> (pyexc + ThreatHintDrainReport) \<times> replay_ledger" where
  "drain_once E A analyze clock st0 st L =
     (case rbind (pending_jobs (ta_batch_limit A) L) (\<lambda>jobs. if st0 \<noteq> DbOk then Inl SqliteError else Inr jobs) of
        Inl e \<Rightarrow> (Inl e, L)
      | Inr jobs \<Rightarrow>
          (if ta_batch_limit A < int (length jobs) then (Inl ThreatHintAdapterError, L)
           else let (R, L') = drain_loop E A analyze clock st 0 jobs \<lparr>dr_delivered = [], dr_failures = []\<rparr> L
                in if MAX_ANALYZER_BATCH_LIMIT < int (length (dr_delivered R) + length (dr_failures R))
                   then (Inl ThreatHintAdapterError, L') else (Inr R, L')))"

subsection \<open>The service\<close>

definition MAX_CONFIG_BYTES :: nat where
  "MAX_CONFIG_BYTES = 8192"
definition MAX_SERVICE_CONNECTIONS :: int where
  "MAX_SERVICE_CONNECTIONS = 1024"

definition service_root_fields :: "string list" where
  "service_root_fields =
     [''schema_version'', ''network_id'', ''socket_path'', ''ledger_path'', ''max_connections'', ''io_timeout_seconds'',
      ''verifier'']"

definition kip16_fields :: "string list" where
  "kip16_fields =
     [''mode'', ''binary_path'', ''manifest_path'', ''expected_manifest_sha256'', ''expected_executable_sha256'',
      ''timeout_seconds'']"

record kip16_config =
  kc_binary_path :: "pystr list"
  kc_manifest_path :: "pystr list"
  kc_manifest_sha256 :: pystr
  kc_executable_sha256 :: pystr
  kc_timeout_seconds :: pyval

text \<open>The verifier mode is \<open>unavailable\<close> when there is no verifier configuration.\<close>

record ThreatHintServiceConfig =
  sc_network_id :: pystr
  sc_socket_path :: "pystr list"
  sc_ledger_path :: "pystr list"
  sc_max_connections :: int
  sc_io_timeout_seconds :: pyval
  sc_verifier :: "kip16_config option"

definition service_string :: "pyval \<Rightarrow> pyexc + pystr" where
  "service_string v = (if is_str v \<and> the_str v \<noteq> [] then Inr (the_str v) else Inl ThreatHintIngressError)"

definition service_sha256 :: "pyval \<Rightarrow> pyexc + pystr" where
  "service_sha256 v = (if is_hex_val 64 v then Inr (the_str v) else Inl ThreatHintIngressError)"

definition service_path :: "pyval \<Rightarrow> pyexc + pystr list" where
  "service_path v =
     rbind (service_string v) (\<lambda>s.
     if hd s \<noteq> 47 \<or> \<not> plain_path (path_parts s) then Inl ThreatHintIngressError else Inr (path_parts s))"

definition service_number :: "pyval \<Rightarrow> pyexc + pyval" where
  "service_number v =
     (case v of PInt _ \<Rightarrow> Inr v | PFloat _ \<Rightarrow> Inr v | _ \<Rightarrow> Inl ThreatHintIngressError)"

definition is_safe_config_file :: "nat \<Rightarrow> stat_result \<Rightarrow> bool" where
  "is_safe_config_file uid st \<longleftrightarrow>
     S_ISREG (st_mode st) \<and> st_uid st = uid \<and> \<not> group_world (st_mode st) \<and> \<not> special_bits (st_mode st) \<and>
     0 < st_size st \<and> st_size st \<le> MAX_CONFIG_BYTES"

definition is_same_config_file :: "nat \<Rightarrow> stat_result \<Rightarrow> stat_result \<Rightarrow> bool" where
  "is_same_config_file uid before current \<longleftrightarrow>
     st_dev before = st_dev current \<and> st_ino before = st_ino current \<and> st_size before = st_size current \<and>
     is_safe_config_file uid current"

definition read_config_descriptor :: "nat list \<Rightarrow> bytes \<Rightarrow> bytes" where
  "read_config_descriptor sizes content = read_loop (MAX_CONFIG_BYTES + 1) (MAX_CONFIG_BYTES + 1) sizes content"

definition read_owner_config :: "nat \<Rightarrow> pystr list \<Rightarrow> file_view \<Rightarrow> pyexc + bytes" where
  "read_owner_config uid path f =
     (let e = ThreatHintIngressError
      in if path = [] \<or> last path = u ''..'' then Inl e
         else rbind (os_parent e f) (\<lambda>parent_stat.
              rbind (os_ok e (fv_before f)) (\<lambda>before.
              rbind (raise_if (\<not> fv_resolved_same f \<or> \<not> S_ISDIR (st_mode parent_stat) \<or> st_uid parent_stat \<noteq> uid \<or>
                               group_world (st_mode parent_stat) \<or> \<not> is_safe_config_file uid before) e) (\<lambda>_.
              rbind (os_ok e (fv_opened f)) (\<lambda>opened.
              rbind (raise_if (\<not> is_same_config_file uid before opened) e) (\<lambda>_.
              rbind (os_ok e (fv_content f)) (\<lambda>content.
              rbind (os_ok e (fv_after f)) (\<lambda>after_stat.
              let contents = read_config_descriptor (fv_sizes f) content
              in if length contents \<noteq> st_size before \<or> \<not> is_same_config_file uid before after_stat then Inl e
                 else Inr contents))))))))"

definition verifier_config :: "pyval \<Rightarrow> pyexc + kip16_config option" where
  "verifier_config v =
     (let e = ThreatHintIngressError
      in case v of
           PDict d \<Rightarrow>
             (if u ''mode'' \<notin> set (dict_keys d) then Inl e
              else if dict_at d ''mode'' = plit ''unavailable''
              then (if keys_are [''mode''] d then Inr None else Inl e)
              else if dict_at d ''mode'' = plit ''kip16_groth16''
              then (if \<not> keys_are kip16_fields d then Inl e
                    else rbind (service_number (dict_at d ''timeout_seconds'')) (\<lambda>timeout.
                         rbind (service_path (dict_at d ''binary_path'')) (\<lambda>binary_path.
                         rbind (service_path (dict_at d ''manifest_path'')) (\<lambda>manifest_path.
                         rbind (service_string (dict_at d ''expected_manifest_sha256'')) (\<lambda>manifest_sha256.
                         rbind (service_sha256 (dict_at d ''expected_executable_sha256'')) (\<lambda>executable_sha256.
                         Inr (Some \<lparr>kc_binary_path = binary_path, kc_manifest_path = manifest_path,
                                    kc_manifest_sha256 = manifest_sha256, kc_executable_sha256 = executable_sha256,
                                    kc_timeout_seconds = timeout\<rparr>)))))))
              else Inl e)
         | _ \<Rightarrow> Inl e)"

definition load_service_config ::
  "(pystr \<Rightarrow> pyval option) \<Rightarrow> nat \<Rightarrow> pystr list \<Rightarrow> file_view \<Rightarrow> pyexc + ThreatHintServiceConfig" where
  "load_service_config toml uid path f =
     (let e = ThreatHintIngressError
      in rbind (read_owner_config uid path f) (\<lambda>contents.
         rbind (parse_policy_document e toml service_root_fields contents) (\<lambda>d.
         rbind (verifier_config (dict_at d ''verifier'')) (\<lambda>verifier.
         if \<not> int_in 1 MAX_SERVICE_CONNECTIONS (dict_at d ''max_connections'') then Inl e
         else rbind (service_string (dict_at d ''network_id'')) (\<lambda>network_id.
              rbind (service_path (dict_at d ''socket_path'')) (\<lambda>socket_path.
              rbind (service_path (dict_at d ''ledger_path'')) (\<lambda>ledger_path.
              rbind (service_number (dict_at d ''io_timeout_seconds'')) (\<lambda>io_timeout.
              Inr \<lparr>sc_network_id = network_id, sc_socket_path = socket_path, sc_ledger_path = ledger_path,
                   sc_max_connections = the_int (dict_at d ''max_connections''), sc_io_timeout_seconds = io_timeout,
                   sc_verifier = verifier\<rparr>))))))))"

text \<open>The service that is built: the server, the ledger, the network and the anchors of the verifier, \<open>None\<close> for the
  verifier that is never available.\<close>

definition build_service ::
  "nat \<Rightarrow> (pystr list \<Rightarrow> file_view) \<Rightarrow> (pystr list \<Rightarrow> v1_ledger_view) \<Rightarrow> (pystr list \<Rightarrow> socket_path_view) \<Rightarrow>
     (pyval \<Rightarrow> bool) \<Rightarrow> replay_db \<Rightarrow> ThreatHintServiceConfig \<Rightarrow>
     pyexc + v1_server \<times> replay_ledger \<times> pystr \<times> Kip16Groth16Verifier option" where
  "build_service uid fs ledger_view socket_view timeout_in_range db C =
     rbind (proof_context (sc_network_id C)) (\<lambda>network.
     rbind (case sc_verifier C of
              None \<Rightarrow> Inr None
            | Some k \<Rightarrow>
                rbind (kip16_verifier uid (fs (kc_binary_path k)) (fs (kc_manifest_path k)) (kc_manifest_sha256 k)
                         (kc_executable_sha256 k) (timeout_in_range (kc_timeout_seconds k))) (\<lambda>K. Inr (Some K))) (\<lambda>verifier.
     rbind (open_v1_ledger uid (sc_ledger_path C) (ledger_view (sc_ledger_path C)) db) (\<lambda>L.
     rbind (new_v1_server uid (sc_socket_path C) (socket_view (sc_socket_path C)) (sc_max_connections C)
              (timeout_in_range (sc_io_timeout_seconds C))) (\<lambda>S.
     Inr (S, L, network, verifier)))))"

text \<open>The exit status of \<open>main\<close> when the service cannot be built; other exceptions escape.\<close>

definition service_failure :: "pyexc \<Rightarrow> pyexc + int" where
  "service_failure e = (if e \<in> {OSError, ThreatHintIngressError} then Inr 1 else Inl e)"

subsection \<open>The pinned verifier\<close>

text \<open>The verifier returns true only for the canonical wire of a Groth16 hint, when the executable read at that moment has
  the pinned digest and exits with 0 on that wire.\<close>

lemma kip16_verify_true:
  "kip16_verify uid binary manifest run K h wire network = Inr True \<longleftrightarrow>
     wire = hint_to_wire h \<and> ch_proof_system h = u ''groth16_kip16_v1'' \<and>
     validate_verifier_binary uid binary = Inr (kv_binary_sha256 K) \<and> validate_owner_input_file uid manifest = Inr () \<and>
     run (kv_manifest_sha256 K) network wire = Some 0"
  by (auto simp: kip16_verify_def catch_eq_Inr_raise intro: exI [of _ 0] split: if_splits)

lemma verifier_binary_bytes:
  assumes "validate_verifier_binary uid f = Inr digest"
  shows "\<exists>content. fv_content f = Some content \<and> digest = sha256_hex content \<and>
    (\<exists>st. fv_before f = Some st \<and> length content = st_size st)"
proof -
  obtain st content where st: "fv_before f = Some st" "fv_content f = Some content"
    and h: "length (read_loop (64 * 1024) (st_size st + 1) (fv_sizes f) content) = st_size st"
      "digest = sha256_hex (read_loop (64 * 1024) (st_size st + 1) (fv_sizes f) content)"
    using assms by (auto simp: validate_verifier_binary_def Let_def split: if_splits)
  have "read_loop (64 * 1024) (st_size st + 1) (fv_sizes f) content = take (st_size st + 1) content"
    by (rule read_loop_eq) simp
  with h have "length content = st_size st" "digest = sha256_hex content" by auto
  with st show ?thesis by blast
qed

subsection \<open>Permits\<close>

definition v1_server_inv :: "v1_server \<Rightarrow> bool" where
  "v1_server_inv S \<longleftrightarrow>
     distinct (map fst (sv_connections S)) \<and> sv_active S = length (sv_connections S) \<and> sv_active S \<le> sv_max_connections S"

lemma release_v1_inv:
  "v1_server_inv S \<Longrightarrow> i \<in> fst ` set (sv_connections S) \<Longrightarrow> v1_server_inv (release_v1 i S)"
  by (auto simp: v1_server_inv_def release_v1_def length_delete distinct_delete)

lemma v1_server_inv_ops:
  assumes "v1_server_inv S"
  shows "i \<notin> fst ` set (sv_connections S) \<Longrightarrow> v1_server_inv (snd (open_v1 i S))"
    and "i \<in> fst ` set (sv_connections S) \<Longrightarrow> v1_server_inv (snd (receive_v1 i input S))"
    and "v1_server_inv (fst (snd (work_v1 E V st st2 network i t S L)))" and "v1_server_inv (close_v1 S)"
proof -
  show "i \<notin> fst ` set (sv_connections S) \<Longrightarrow> v1_server_inv (snd (open_v1 i S))"
    using assms by (auto simp: open_v1_def v1_server_inv_def)
  have "v1_server_inv (S\<lparr>sv_connections := AList.update i c (sv_connections S)\<rparr>)" if "i \<in> fst ` set (sv_connections S)" for c
    using assms that by (auto simp: v1_server_inv_def length_update distinct_update)
  then show "i \<in> fst ` set (sv_connections S) \<Longrightarrow> v1_server_inv (snd (receive_v1 i input S))"
    using release_v1_inv [OF assms] by (simp add: receive_v1_def split: frame.splits)
  have "i \<in> fst ` set (sv_connections S)" if "map_of (sv_connections S) i = Some c" for c
    using that by (force dest: map_of_SomeD)
  then show "v1_server_inv (fst (snd (work_v1 E V st st2 network i t S L)))"
    using assms release_v1_inv [OF assms]
    by (auto simp: work_v1_def split: option.splits v1_connection.splits prod.splits)
  show "v1_server_inv (close_v1 S)"
    using assms sum_length_filter_compl [of is_reading "sv_connections S"]
    by (auto simp: close_v1_def v1_server_inv_def distinct_map_filter)
qed

subsection \<open>Draining the outbox\<close>

text \<open>The jobs \<open>pending_jobs\<close> chooses from, in its order.\<close>

definition pending_order :: "replay_ledger \<Rightarrow> job_row list" where
  "pending_order L =
     sort_key jb_admitted_at (sort_key jb_payload_digest (filter (\<lambda>j. jb_delivered_at j = None) (rl_outbox L)))"

abbreviation node_analyzer :: "VerifiedThreatHint \<Rightarrow> pyexc + AnalysisResult option" where
  "node_analyzer \<equiv> \<lambda>h. Inr (Some (process_verified_threat_hint h))"

lemma node_analysis_ok: "\<exists>a. validate_v1_analysis h (Some (process_verified_threat_hint h)) = Inr a"
  by (simp add: validate_v1_analysis_def process_verified_threat_hint_def failed_analysis_def u_def)

lemma hint_indicator: "valid_hint h \<Longrightarrow> PStr (ch_indicator_type h) \<in> verified_indicator_types"
  by (auto simp: valid_hint_def indicator_types_def verified_indicator_types_def)

lemma adapt_job_ok:
  assumes "entry_ok L dl N e" and "jb_payload_digest j = hint_digest (fst e)" and "jb_canonical_wire j = hint_to_wire (fst e)"
    and "jb_network_id j = N" and "jb_admitted_at j = snd e" and "1 \<le> json_depth E" and "valid_hint_network (PStr N)"
    and "ta_expected_network_id A = N"
  shows "adapt_job E A j = Inr (verified_hint_of j (fst e))"
proof -
  let ?h = "fst e"
  have v: "valid_hint ?h" "length (hint_to_wire ?h) \<le> 2048" "is_fresh_hint ?h (snd e)" "ch_proof_system ?h = u ''groth16_kip16_v1''"
    using assms(1) by (auto simp: entry_ok_def)
  have w: "hint_from_wire E (hint_to_wire ?h) = Inr ?h" by (rule hint_from_wire_dec [OF v(1,2) assms(6)])
  have ne: "hint_to_wire ?h \<noteq> []" by (simp add: hint_to_wire_def doc_nonempty)
  have t: "0 < snd e" "ch_observed_at ?h - 30 \<le> snd e" "snd e \<le> ch_observed_at ?h + 300"
    using v(3) by (auto simp: is_fresh_hint_def is_v1_timestamp_def MAX_FUTURE_SKEW_SECONDS_def MAX_HINT_AGE_SECONDS_def)
  have hx: "is_lower_hex 64 (hint_digest ?h)" by (simp add: hint_digest_def sha256_hex_lower)
  have pl: "0 < length (ch_proof ?h) div 2" "length (ch_proof ?h) div 2 \<le> 1024"
    using v(1) by (auto simp: valid_hint_def is_hex_proof_def)
  have "verified_threat_hint_init (verified_hint_of j ?h) = Inr (verified_hint_of j ?h)"
    using v(1,4) t(1) hx hint_indicator [OF v(1)] assms(2,4,5,7) pl
    by (simp add: verified_threat_hint_init_def verified_hint_of_def valid_hint_def is_hex_proof_def length_bytes_fromhex)
  then show ?thesis using w ne t hx v(4) assms
    by (simp add: adapt_job_def Let_def hint_digest_def MAX_FUTURE_SKEW_SECONDS_def MAX_HINT_AGE_SECONDS_def catch_def)
qed

lemma drain_job_ok:
  assumes "v1_reachable E N (L, acc, dl)" and "1 \<le> json_depth E" and "valid_hint_network (PStr N)"
    and "ta_expected_network_id A = N" and "j \<in> set (rl_outbox L)" and "the (rl_high_water L) \<le> now" and "now < 2 ^ 63"
  shows "\<exists>d L'. drain_job E A node_analyzer (Inr (PInt now)) DbOk i j L = (Inr d, L') \<and>
    vh_payload_digest (da_hint d) = PStr (jb_payload_digest j) \<and>
    L' = L\<lparr>rl_outbox := map (deliver_row (jb_payload_digest j) now) (rl_outbox L)\<rparr> \<and>
    v1_reachable E N (L', acc, insert (jb_payload_digest j) dl)"
proof -
  have inv: "v1_inv N (L, acc, dl)" using assms(1) by (rule v1_reachable_inv)
  obtain e where e: "e \<in> set acc" "jb_payload_digest j = hint_digest (fst e)" "jb_canonical_wire j = hint_to_wire (fst e)"
      "jb_network_id j = N" "jb_admitted_at j = snd e"
    using inv assms(5) by (auto simp: v1_inv_def job_ok_def)
  have k: "entry_ok L dl N e" using inv e(1) by (simp add: v1_inv_def)
  have ad: "adapt_job E A j = Inr (verified_hint_of j (fst e))"
    by (rule adapt_job_ok [OF k e(2-5) assms(2-4)])
  have le: "snd e \<le> now" "0 < now"
    using k assms(6) by (auto simp: entry_ok_def is_fresh_hint_def is_v1_timestamp_def)
  obtain a where a: "validate_v1_analysis (verified_hint_of j (fst e))
      (Some (process_verified_threat_hint (verified_hint_of j (fst e)))) = Inr a" using node_analysis_ok by blast
  let ?L = "L\<lparr>rl_outbox := map (deliver_row (jb_payload_digest j) now) (rl_outbox L)\<rparr>"
  have "distinct (map jb_payload_digest (rl_outbox L))" using inv by (simp add: v1_inv_def)
  then have "length (filter (\<lambda>y. jb_payload_digest y = jb_payload_digest j) (rl_outbox L)) = 1"
    using filter_one [of jb_payload_digest "rl_outbox L" j "\<lambda>_. True"] assms(5) by simp
  then have m: "mark_delivered DbOk (jb_payload_digest j) now L = (Inr (), ?L)"
    using le(2) assms(7) e(2) by (simp add: mark_delivered_def is_v1_timestamp_def MAX_SQLITE_INT_def hint_digest_def)
  have "v1_reachable E N (?L, acc, insert (jb_payload_digest j) dl)"
    using assms(1) v1_step.delivered [OF m] unfolding v1_reachable_def by (rule rtranclp.rtrancl_into_rtrancl)
  moreover have "drain_job E A node_analyzer (Inr (PInt now)) DbOk i j L =
      (Inr \<lparr>da_hint = verified_hint_of j (fst e), da_analysis = a, da_delivered_at = now, da_batch_index = i\<rparr>, ?L)"
    using ad a m le e(5) by (simp add: drain_job_def Let_def verified_hint_of_def)
  ultimately show ?thesis by (simp add: verified_hint_of_def)
qed

lemma drain_loop_ok:
  assumes "1 \<le> json_depth E" and "valid_hint_network (PStr N)" and "ta_expected_network_id A = N" and "now < 2 ^ 63"
  shows "v1_reachable E N (L, acc, dl) \<Longrightarrow> the (rl_high_water L) \<le> now \<Longrightarrow> set jobs \<subseteq> set (rl_outbox L) \<Longrightarrow>
    distinct (map jb_payload_digest jobs) \<Longrightarrow>
    \<exists>R' L'. drain_loop E A node_analyzer (\<lambda>_. Inr (PInt now)) (\<lambda>_. DbOk) i jobs R L = (R', L') \<and>
      dr_failures R' = dr_failures R \<and>
      map (\<lambda>d. vh_payload_digest (da_hint d)) (dr_delivered R') =
        map (\<lambda>d. vh_payload_digest (da_hint d)) (dr_delivered R) @ map (\<lambda>j. PStr (jb_payload_digest j)) jobs \<and>
      filter (\<lambda>j. jb_delivered_at j = None) (rl_outbox L') =
        filter (\<lambda>j. jb_payload_digest j \<notin> jb_payload_digest ` set jobs) (filter (\<lambda>j. jb_delivered_at j = None) (rl_outbox L)) \<and>
      v1_reachable E N (L', acc, dl \<union> jb_payload_digest ` set jobs)"
proof (induction jobs arbitrary: i R L dl)
  case (Cons j jobs)
  obtain d L1 where d: "drain_job E A node_analyzer (Inr (PInt now)) DbOk i j L = (Inr d, L1)"
      "vh_payload_digest (da_hint d) = PStr (jb_payload_digest j)"
      "L1 = L\<lparr>rl_outbox := map (deliver_row (jb_payload_digest j) now) (rl_outbox L)\<rparr>"
      "v1_reachable E N (L1, acc, insert (jb_payload_digest j) dl)"
    using drain_job_ok [OF Cons.prems(1) assms(1-3) _ Cons.prems(2) assms(4), of j i] Cons.prems(3) by auto
  have "set jobs \<subseteq> set (rl_outbox L1)"
  proof
    fix x assume x: "x \<in> set jobs"
    then have "jb_payload_digest x \<noteq> jb_payload_digest j" using Cons.prems(4) by (metis distinct.simps(2) image_eqI list.simps(9) set_map)
    then have "deliver_row (jb_payload_digest j) now x = x" by (simp add: deliver_row_def)
    then show "x \<in> set (rl_outbox L1)" using x Cons.prems(3) unfolding d(3) by (force simp: image_iff)
  qed
  moreover have "the (rl_high_water L1) \<le> now" using Cons.prems(2) by (simp add: d(3))
  ultimately obtain R' L' where r:
    "drain_loop E A node_analyzer (\<lambda>_. Inr (PInt now)) (\<lambda>_. DbOk) (Suc i) jobs (R\<lparr>dr_delivered := dr_delivered R @ [d]\<rparr>) L1 = (R', L')"
    "dr_failures R' = dr_failures R"
    "map (\<lambda>d. vh_payload_digest (da_hint d)) (dr_delivered R') =
       map (\<lambda>d. vh_payload_digest (da_hint d)) (dr_delivered R @ [d]) @ map (\<lambda>j. PStr (jb_payload_digest j)) jobs"
    "filter (\<lambda>j. jb_delivered_at j = None) (rl_outbox L') =
       filter (\<lambda>j. jb_payload_digest j \<notin> jb_payload_digest ` set jobs) (filter (\<lambda>j. jb_delivered_at j = None) (rl_outbox L1))"
    "v1_reachable E N (L', acc, insert (jb_payload_digest j) dl \<union> jb_payload_digest ` set jobs)"
    using Cons.IH [OF d(4), of "Suc i" "R\<lparr>dr_delivered := dr_delivered R @ [d]\<rparr>"] Cons.prems(4) by auto
  have f: "filter (\<lambda>x. jb_delivered_at x = None) (map (deliver_row g now) xs) =
      filter (\<lambda>x. jb_payload_digest x \<noteq> g) (filter (\<lambda>x. jb_delivered_at x = None) xs)" for g xs
    by (induction xs) (auto simp: deliver_row_def)
  show ?case using d(1,2) r f [of "jb_payload_digest j" "rl_outbox L"] by (simp add: d(3) conj_commute) (metis (no_types, lifting))
qed simp

lemma filter_notin_take:
  assumes "distinct (map f xs)"
  shows "filter (\<lambda>x. f x \<notin> f ` set (take n xs)) xs = drop n xs"
proof -
  have "filter (\<lambda>x. f x \<notin> f ` set (take n xs)) (take n xs) = []" by (auto simp: filter_empty_conv)
  moreover have "filter (\<lambda>x. f x \<notin> f ` set (take n xs)) (drop n xs) = drop n xs"
  proof (rule filter_True, rule ballI)
    fix x assume x: "x \<in> set (drop n xs)"
    have "distinct (map f (take n xs) @ map f (drop n xs))" using assms by (simp flip: map_append)
    then show "f x \<notin> f ` set (take n xs)" using x by auto
  qed
  ultimately show ?thesis by (metis append_Nil append_take_drop_id filter_append)
qed

lemma pending_order_filter:
  "filter P (pending_order L) =
     sort_key jb_admitted_at (sort_key jb_payload_digest (filter P (filter (\<lambda>j. jb_delivered_at j = None) (rl_outbox L))))"
  by (simp only: pending_order_def filter_sort)

text \<open>C19. The drain delivers. On every reachable ledger, with the node's own analyzer for version 1 hints, a clock that is not
  behind the last admission and a database that answers, one drain has no failure, reports exactly the oldest pending jobs
  up to its batch limit, in order, leaves exactly the remaining ones pending, and records the deliveries; no accepted hint
  can get stuck on its way to the analyzer.\<close>

theorem drain_delivers:
  assumes "v1_reachable E N (L, acc, dl)" and "1 \<le> json_depth E" and "valid_hint_network (PStr N)"
    and "1 \<le> limit" and "limit \<le> 32" and "the (rl_high_water L) \<le> now" and "now < 2 ^ 63"
  shows "\<exists>R L'. drain_once E \<lparr>ta_expected_network_id = N, ta_batch_limit = limit\<rparr> node_analyzer (\<lambda>_. Inr (PInt now)) DbOk (\<lambda>_. DbOk) L =
      (Inr R, L') \<and> dr_failures R = [] \<and>
    map (\<lambda>d. vh_payload_digest (da_hint d)) (dr_delivered R) =
      map (\<lambda>j. PStr (jb_payload_digest j)) (take (nat limit) (pending_order L)) \<and>
    pending_order L' = drop (nat limit) (pending_order L) \<and>
    v1_reachable E N (L', acc, dl \<union> jb_payload_digest ` set (take (nat limit) (pending_order L)))"
proof -
  let ?A = "\<lparr>ta_expected_network_id = N, ta_batch_limit = limit\<rparr>" and ?jobs = "take (nat limit) (pending_order L)"
  have inv: "v1_inv N (L, acc, dl)" using assms(1) by (rule v1_reachable_inv)
  have p: "pending_jobs limit L = Inr ?jobs" using assms(4,5) by (simp add: pending_jobs_def pending_order_def)
  have "distinct (map jb_payload_digest (filter (\<lambda>j. jb_delivered_at j = None) (rl_outbox L)))"
    using inv by (simp add: v1_inv_def distinct_map_filter)
  then have "inj_on jb_payload_digest (set (pending_order L))" "distinct (pending_order L)"
    by (auto simp: pending_order_def distinct_map)
  then have dist: "distinct (map jb_payload_digest (pending_order L))" by (simp add: distinct_map)
  then have dj: "distinct (map jb_payload_digest ?jobs)" by (simp add: take_map [symmetric])
  have sub: "set ?jobs \<subseteq> set (rl_outbox L)" by (auto simp: pending_order_def dest!: in_set_takeD)
  obtain R L' where r: "drain_loop E ?A node_analyzer (\<lambda>_. Inr (PInt now)) (\<lambda>_. DbOk) 0 ?jobs \<lparr>dr_delivered = [], dr_failures = []\<rparr> L = (R, L')"
      "dr_failures R = []"
      "map (\<lambda>d. vh_payload_digest (da_hint d)) (dr_delivered R) = map (\<lambda>j. PStr (jb_payload_digest j)) ?jobs"
      "filter (\<lambda>j. jb_delivered_at j = None) (rl_outbox L') =
         filter (\<lambda>j. jb_payload_digest j \<notin> jb_payload_digest ` set ?jobs) (filter (\<lambda>j. jb_delivered_at j = None) (rl_outbox L))"
      "v1_reachable E N (L', acc, dl \<union> jb_payload_digest ` set ?jobs)"
    using drain_loop_ok [OF assms(2,3) _ assms(7) assms(1,6) sub dj, of ?A 0 "\<lparr>dr_delivered = [], dr_failures = []\<rparr>"] by auto
  have len: "length (dr_delivered R) = length ?jobs" using r(3) by (metis length_map)
  have lim: "\<not> limit < int (length ?jobs)" "\<not> 32 < int (length ?jobs)" using assms(4,5) by auto
  have "drain_once E ?A node_analyzer (\<lambda>_. Inr (PInt now)) DbOk (\<lambda>_. DbOk) L = (Inr R, L')"
    using p r(1,2) len lim by (simp add: drain_once_def MAX_ANALYZER_BATCH_LIMIT_def)
  moreover have "pending_order L' = drop (nat limit) (pending_order L)"
    using pending_order_filter [of "\<lambda>j. jb_payload_digest j \<notin> jb_payload_digest ` set ?jobs" L]
    unfolding filter_notin_take [OF dist] pending_order_def [of L'] r(4) by simp
  ultimately show ?thesis using r(2,3,5) by blast
qed

theorem drain_delivers_witness:
  "\<exists>R L'. drain_once ex_env \<lparr>ta_expected_network_id = u ''mainnet'', ta_batch_limit = 16\<rparr> node_analyzer
      (\<lambda>_. Inr (PInt 1700000060)) DbOk (\<lambda>_. DbOk) ex_replay_ledger = (Inr R, L') \<and>
    length (dr_delivered R) = 1 \<and> pending_order L' = []"
proof -
  have "valid_hint_network (PStr (u ''mainnet''))" "1 \<le> json_depth ex_env" "the (rl_high_water ex_replay_ledger) \<le> 1700000060"
    by (simp_all add: u_def is_lower_alnum_def ex_env_def ex_replay_outbox)
  moreover have "pending_order ex_replay_ledger = [job_of (hint_to_wire ex_hint) (u ''mainnet'') 1700000010]"
    by (simp add: pending_order_def ex_replay_outbox)
  ultimately obtain R L' where r: "drain_once ex_env \<lparr>ta_expected_network_id = u ''mainnet'', ta_batch_limit = 16\<rparr> node_analyzer
        (\<lambda>_. Inr (PInt 1700000060)) DbOk (\<lambda>_. DbOk) ex_replay_ledger = (Inr R, L')"
      "map (\<lambda>d. vh_payload_digest (da_hint d)) (dr_delivered R) = [PStr (hint_digest ex_hint)]" "pending_order L' = []"
    using drain_delivers [OF ex_v1_reachable, of 16 1700000060] by auto
  have "length (dr_delivered R) = 1" using arg_cong [OF r(2), of length] by simp
  with r show ?thesis by blast
qed

end
