(* ===== verification/Endpoint_Observation.thy ===== *)
theory Endpoint_Observation
  imports Threat_Hint_V2
begin

text \<open>
  The local endpoint observation statement (\<open>jaeger/endpoint_observation.py\<close>): a closed list of signals with the one
  domain each belongs to, and canonical statements that are parsed against a trusted network. As in the other statement
  modules, the bytes an object was parsed from are the argument \<open>at_parse\<close> of the operations that read them.
\<close>

definition MAX_CANONICAL_ENDPOINT_OBSERVATION_BYTES :: nat where
  "MAX_CANONICAL_ENDPOINT_OBSERVATION_BYTES = 512"
definition OBSERVATION_SCHEMA_VERSION :: int where
  "OBSERVATION_SCHEMA_VERSION = 1"
definition OBSERVATION_DIGEST_DOMAIN :: bytes where
  "OBSERVATION_DIGEST_DOMAIN = ascii_bytes (u ''prometheus-endpoint-observation-v1'') @ [0]"
definition ALLOWED_WINDOW_SECONDS :: "int set" where
  "ALLOWED_WINDOW_SECONDS = {60, 300, 900, 3600}"

datatype EndpointObservationDomain =
  PROCESS | FILE | NETWORK | PERSISTENCE | CREDENTIAL_ACCESS | MODEL_TOOL | RESOURCE_UTILIZATION

datatype EndpointObservationSignal =
    UNEXPECTED_CHILD_PROCESS
  | RAPID_PROCESS_SPAWN
  | PROTECTED_FILE_CHANGE
  | EXECUTABLE_FILE_CHANGE
  | UNEXPECTED_EGRESS
  | CONNECTION_FANOUT
  | STARTUP_ENTRY_CHANGE
  | SCHEDULED_TASK_CHANGE
  | CREDENTIAL_STORE_ACCESS
  | BULK_SECRET_READ_ATTEMPT
  | PROMPT_INJECTION_INDICATOR
  | TOOL_POLICY_VIOLATION
  | MODEL_RUNTIME_CHANGE
  | SUSTAINED_COMPUTE_SATURATION
  | ACCELERATOR_UTILIZATION_SPIKE

text \<open>The members of the two enumerations with their values, in the order of the classes.\<close>

definition domain_values :: "(EndpointObservationDomain \<times> string) list" where
  "domain_values =
     [(PROCESS, ''process''), (FILE, ''file''), (NETWORK, ''network''), (PERSISTENCE, ''persistence''),
      (CREDENTIAL_ACCESS, ''credential_access''), (MODEL_TOOL, ''model_tool''),
      (RESOURCE_UTILIZATION, ''resource_utilization'')]"

definition signal_values :: "(EndpointObservationSignal \<times> string) list" where
  "signal_values =
     [(UNEXPECTED_CHILD_PROCESS, ''unexpected_child_process''), (RAPID_PROCESS_SPAWN, ''rapid_process_spawn''),
      (PROTECTED_FILE_CHANGE, ''protected_file_change''), (EXECUTABLE_FILE_CHANGE, ''executable_file_change''),
      (UNEXPECTED_EGRESS, ''unexpected_egress''), (CONNECTION_FANOUT, ''connection_fanout''),
      (STARTUP_ENTRY_CHANGE, ''startup_entry_change''), (SCHEDULED_TASK_CHANGE, ''scheduled_task_change''),
      (CREDENTIAL_STORE_ACCESS, ''credential_store_access''),
      (BULK_SECRET_READ_ATTEMPT, ''bulk_secret_read_attempt''),
      (PROMPT_INJECTION_INDICATOR, ''prompt_injection_indicator''), (TOOL_POLICY_VIOLATION, ''tool_policy_violation''),
      (MODEL_RUNTIME_CHANGE, ''model_runtime_change''),
      (SUSTAINED_COMPUTE_SATURATION, ''sustained_compute_saturation''),
      (ACCELERATOR_UTILIZATION_SPIKE, ''accelerator_utilization_spike'')]"

definition enum_value :: "('a \<times> string) list \<Rightarrow> 'a \<Rightarrow> pystr" where
  "enum_value members x = (case map_of members x of Some v \<Rightarrow> u v | None \<Rightarrow> [])"

text \<open>\<open>Enum(value)\<close>, which raises \<open>ValueError\<close> or \<open>TypeError\<close>; both are caught.\<close>

definition enum_lookup :: "('a \<times> string) list \<Rightarrow> pyval \<Rightarrow> pyexc + 'a" where
  "enum_lookup members v =
     (case find (\<lambda>(x, s). v = plit s) members of Some (x, s) \<Rightarrow> Inr x | None \<Rightarrow> Inl EndpointObservationError)"

fun signal_domain :: "EndpointObservationSignal \<Rightarrow> EndpointObservationDomain" where
  "signal_domain UNEXPECTED_CHILD_PROCESS = PROCESS"
| "signal_domain RAPID_PROCESS_SPAWN = PROCESS"
| "signal_domain PROTECTED_FILE_CHANGE = FILE"
| "signal_domain EXECUTABLE_FILE_CHANGE = FILE"
| "signal_domain UNEXPECTED_EGRESS = NETWORK"
| "signal_domain CONNECTION_FANOUT = NETWORK"
| "signal_domain STARTUP_ENTRY_CHANGE = PERSISTENCE"
| "signal_domain SCHEDULED_TASK_CHANGE = PERSISTENCE"
| "signal_domain CREDENTIAL_STORE_ACCESS = CREDENTIAL_ACCESS"
| "signal_domain BULK_SECRET_READ_ATTEMPT = CREDENTIAL_ACCESS"
| "signal_domain PROMPT_INJECTION_INDICATOR = MODEL_TOOL"
| "signal_domain TOOL_POLICY_VIOLATION = MODEL_TOOL"
| "signal_domain MODEL_RUNTIME_CHANGE = MODEL_TOOL"
| "signal_domain SUSTAINED_COMPUTE_SATURATION = RESOURCE_UTILIZATION"
| "signal_domain ACCELERATOR_UTILIZATION_SPIKE = RESOURCE_UTILIZATION"

record EndpointObservationStatementV1 =
  eo_schema_version :: int
  eo_domain :: EndpointObservationDomain
  eo_signal :: EndpointObservationSignal
  eo_event_count :: int
  eo_window_seconds :: int
  eo_report_nonce :: pystr
  eo_observed_at :: int
  eo_network_id :: pystr

definition observation_exact_int :: "pyval \<Rightarrow> pyexc + int" where
  "observation_exact_int v = (if int_in 0 U64_MAX v then Inr (the_int v) else Inl EndpointObservationError)"

definition observation_network_id :: "pyval \<Rightarrow> pyexc + pystr" where
  "observation_network_id v =
     (if is_str v \<and> is_network_text (the_str v) then Inr (the_str v) else Inl EndpointObservationError)"

definition observation_fields :: "string list" where
  "observation_fields =
     [''schema_version'', ''domain'', ''signal'', ''event_count'', ''window_seconds'', ''report_nonce'', ''observed_at'',
      ''network_id'']"

fun parse_observation_object :: "pyval \<Rightarrow> pyexc + EndpointObservationStatementV1" where
  "parse_observation_object (PDict d) =
     (if dict_keys d \<noteq> map u observation_fields then Inl EndpointObservationError
      else rbind (observation_exact_int (dict_at d ''schema_version'')) (\<lambda>schema_version.
           rbind (observation_exact_int (dict_at d ''event_count'')) (\<lambda>event_count.
           rbind (observation_exact_int (dict_at d ''window_seconds'')) (\<lambda>window_seconds.
           rbind (observation_exact_int (dict_at d ''observed_at'')) (\<lambda>observed_at.
           rbind (raise_if (schema_version \<noteq> OBSERVATION_SCHEMA_VERSION \<or> \<not> (1 \<le> event_count \<and> event_count \<le> 255) \<or>
                            window_seconds \<notin> ALLOWED_WINDOW_SECONDS \<or> observed_at = 0 \<or> observed_at mod 60 \<noteq> 0)
                    EndpointObservationError) (\<lambda>_.
           rbind (enum_lookup domain_values (dict_at d ''domain'')) (\<lambda>domain.
           rbind (enum_lookup signal_values (dict_at d ''signal'')) (\<lambda>signal.
           rbind (raise_if (signal_domain signal \<noteq> domain) EndpointObservationError) (\<lambda>_.
           rbind (fixed_lower_hex EndpointObservationError (dict_at d ''report_nonce'')) (\<lambda>report_nonce.
           rbind (observation_network_id (dict_at d ''network_id'')) (\<lambda>network_id.
           Inr \<lparr>eo_schema_version = schema_version, eo_domain = domain, eo_signal = signal, eo_event_count = event_count,
                eo_window_seconds = window_seconds, eo_report_nonce = report_nonce, eo_observed_at = observed_at,
                eo_network_id = network_id\<rparr>)))))))))))"
| "parse_observation_object _ = Inl EndpointObservationError"

definition observation_validate_state :: "EndpointObservationStatementV1 \<Rightarrow> pyexc + unit" where
  "observation_validate_state s =
     rbind (raise_if (eo_schema_version s \<noteq> OBSERVATION_SCHEMA_VERSION \<or> signal_domain (eo_signal s) \<noteq> eo_domain s \<or>
                      \<not> (1 \<le> eo_event_count s \<and> eo_event_count s \<le> 255) \<or>
                      eo_window_seconds s \<notin> ALLOWED_WINDOW_SECONDS \<or>
                      \<not> (1 \<le> eo_observed_at s \<and> eo_observed_at s \<le> U64_MAX) \<or> eo_observed_at s mod 60 \<noteq> 0)
              EndpointObservationError) (\<lambda>_.
     rbind (fixed_lower_hex EndpointObservationError (PStr (eo_report_nonce s))) (\<lambda>_.
     rbind (observation_network_id (PStr (eo_network_id s))) (\<lambda>_. Inr ())))"

definition observation_items :: "EndpointObservationStatementV1 \<Rightarrow> (pystr \<times> pyval) list" where
  "observation_items s =
     [(u ''schema_version'', PInt (eo_schema_version s)),
      (u ''domain'', PStr (enum_value domain_values (eo_domain s))),
      (u ''signal'', PStr (enum_value signal_values (eo_signal s))),
      (u ''event_count'', PInt (eo_event_count s)),
      (u ''window_seconds'', PInt (eo_window_seconds s)),
      (u ''report_nonce'', PStr (eo_report_nonce s)),
      (u ''observed_at'', PInt (eo_observed_at s)),
      (u ''network_id'', PStr (eo_network_id s))]"

definition observation_canonical_bytes :: "bytes option \<Rightarrow> EndpointObservationStatementV1 \<Rightarrow> pyexc + bytes" where
  "observation_canonical_bytes at_parse s =
     (case at_parse of
        None \<Rightarrow> Inl EndpointObservationError
      | Some parsed \<Rightarrow>
          rbind (observation_validate_state s) (\<lambda>_.
          case compact_json (PDict (observation_items s)) of
            None \<Rightarrow> Inl UnicodeEncodeError
          | Some canonical \<Rightarrow>
              (if length canonical = 0 \<or> MAX_CANONICAL_ENDPOINT_OBSERVATION_BYTES < length canonical \<or>
                  canonical \<noteq> parsed
               then Inl EndpointObservationError else Inr canonical)))"

definition parse_observation :: "py_env \<Rightarrow> bytes \<Rightarrow> pyval \<Rightarrow> pyexc + EndpointObservationStatementV1" where
  "parse_observation E wire trusted_network_id =
     (if length wire = 0 \<or> MAX_CANONICAL_ENDPOINT_OBSERVATION_BYTES < length wire then Inl EndpointObservationError
      else rbind (observation_network_id trusted_network_id) (\<lambda>_.
           rbind (catch (loads_utf8 E EndpointObservationError wire) is_value_error
                    (\<lambda>_. Inl EndpointObservationError)) (\<lambda>decoded.
           rbind (parse_observation_object decoded) (\<lambda>statement.
           if PStr (eo_network_id statement) \<noteq> trusted_network_id then Inl EndpointObservationError
           else rbind (observation_canonical_bytes (Some wire) statement) (\<lambda>canonical.
             if canonical \<noteq> wire then Inl EndpointObservationError else Inr statement)))))"

definition observation_digest :: "bytes option \<Rightarrow> EndpointObservationStatementV1 \<Rightarrow> pyexc + bytes" where
  "observation_digest at_parse s =
     rbind (observation_canonical_bytes at_parse s) (\<lambda>canonical.
     Inr (sha256 (OBSERVATION_DIGEST_DOMAIN @ be_bytes 4 (length canonical) @ canonical)))"

subsection \<open>Canonical statements\<close>

definition valid_observation :: "EndpointObservationStatementV1 \<Rightarrow> bool" where
  "valid_observation s \<longleftrightarrow>
     eo_schema_version s = 1 \<and> eo_domain s = signal_domain (eo_signal s) \<and> 1 \<le> eo_event_count s \<and>
     eo_event_count s \<le> 255 \<and> eo_window_seconds s \<in> {60, 300, 900, 3600} \<and> 1 \<le> eo_observed_at s \<and>
     eo_observed_at s < 2 ^ 64 \<and> eo_observed_at s mod 60 = 0 \<and> is_lower_hex 64 (eo_report_nonce s) \<and>
     is_network_text (eo_network_id s)"

lemma observation_validate_state_iff: "observation_validate_state s = Inr () \<longleftrightarrow> valid_observation s"
  by (auto simp: observation_validate_state_def valid_observation_def OBSERVATION_SCHEMA_VERSION_def U64_MAX_def
      ALLOWED_WINDOW_SECONDS_def fixed_lower_hex_def observation_network_id_def)

definition observation_wire :: "EndpointObservationStatementV1 \<Rightarrow> bytes" where
  "observation_wire s = ascii_json (PDict (observation_items s))"

lemma domain_enum:
  "list_all unescaped (enum_value domain_values d) \<and> length (enum_value domain_values d) \<le> 20"
  "enum_lookup domain_values (PStr (enum_value domain_values d)) = Inr d"
  by (cases d; simp add: enum_value_def domain_values_def)
     (cases d; simp add: enum_value_def enum_lookup_def domain_values_def)

lemma signal_value_unescaped:
  "list_all unescaped (enum_value signal_values g) \<and> length (enum_value signal_values g) \<le> 29"
  by (cases g; simp add: enum_value_def signal_values_def)

lemma signal_lookup: "enum_lookup signal_values (PStr (enum_value signal_values g)) = Inr g"
  by (cases g; simp add: enum_value_def enum_lookup_def signal_values_def)

lemmas enum_values = domain_enum(1) signal_value_unescaped domain_enum(2) signal_lookup

lemma observation_doc:
  assumes "valid_observation s"
  shows "doc (observation_items s)"
proof -
  have "0 \<le> eo_window_seconds s \<and> eo_window_seconds s < 2 ^ 64"
    using assms by (auto simp: valid_observation_def)
  then show ?thesis
    using assms enum_values(1) [of "eo_domain s"] enum_values(2) [of "eo_signal s"]
    by (auto simp: observation_items_def doc_Cons valid_observation_def
        intro!: printable_unescaped dest!: hex_unescaped is_network_text_printable)
qed

lemma observation_length:
  assumes "valid_observation s"
  shows "length (observation_wire s) \<le> 450"
  using doc_length [OF observation_doc [OF assms]] assms enum_values(1) [of "eo_domain s"] enum_values(2) [of "eo_signal s"]
  by (auto simp: observation_wire_def observation_items_def valid_observation_def length_quote_unescaped
      dest!: hex_unescaped is_network_text_printable)

lemma observation_canonical_bytes_iff:
  "observation_canonical_bytes reg s = Inr w \<longleftrightarrow> valid_observation s \<and> w = observation_wire s \<and> reg = Some w"
proof (cases "valid_observation s")
  case True
  have "compact_json (PDict (observation_items s)) = Some (observation_wire s)"
    using doc_compact [OF observation_doc [OF True]] by (simp add: observation_wire_def)
  moreover have "observation_wire s \<noteq> []" by (simp add: observation_wire_def doc_nonempty)
  moreover have "observation_validate_state s = Inr ()" using True by (simp add: observation_validate_state_iff)
  ultimately show ?thesis using True observation_length [OF True]
    by (auto simp: observation_canonical_bytes_def MAX_CANONICAL_ENDPOINT_OBSERVATION_BYTES_def split: option.splits)
next
  case False
  then have "observation_validate_state s \<noteq> Inr ()" by (simp add: observation_validate_state_iff)
  with False show ?thesis by (auto simp: observation_canonical_bytes_def split: option.splits)
qed

lemma parse_observation_items:
  assumes "valid_observation s"
  shows "parse_observation_object (PDict (observation_items s)) = Inr s"
proof -
  have "0 \<le> eo_window_seconds s \<and> eo_window_seconds s \<le> U64_MAX"
    using assms by (auto simp: valid_observation_def U64_MAX_def)
  then show ?thesis
    using assms enum_values(3) [of "eo_domain s"] enum_values(4) [of "eo_signal s"]
    by (simp add: observation_items_def observation_fields_def observation_exact_int_def fixed_lower_hex_def
        observation_network_id_def valid_observation_def OBSERVATION_SCHEMA_VERSION_def ALLOWED_WINDOW_SECONDS_def
        U64_MAX_def)
qed

lemma parse_observation_enc:
  "parse_observation E w tn = Inr s \<Longrightarrow> valid_observation s \<and> w = observation_wire s \<and> tn = PStr (eo_network_id s)"
  by (auto simp: parse_observation_def observation_canonical_bytes_iff split: if_splits)

lemma parse_observation_dec:
  assumes "valid_observation s" and "1 \<le> json_depth E"
  shows "parse_observation E (observation_wire s) (PStr (eo_network_id s)) = Inr s"
proof -
  have "loads_utf8 E EndpointObservationError (observation_wire s) = Inr (PDict (observation_items s))"
    unfolding observation_wire_def by (intro doc_loads observation_doc assms)
  moreover have "observation_canonical_bytes (Some (observation_wire s)) s = Inr (observation_wire s)"
    using assms by (simp add: observation_canonical_bytes_iff)
  moreover have "observation_network_id (PStr (eo_network_id s)) = Inr (eo_network_id s)"
    using assms(1) by (simp add: observation_network_id_def valid_observation_def)
  moreover have "observation_wire s \<noteq> []" by (simp add: observation_wire_def doc_nonempty)
  ultimately show ?thesis using observation_length [OF assms(1)] parse_observation_items [OF assms(1)]
    by (simp add: parse_observation_def MAX_CANONICAL_ENDPOINT_OBSERVATION_BYTES_def)
qed

interpretation eo: canonical_codec observation_wire "\<lambda>w. parse_observation E w (PStr n)"
  "\<lambda>s. valid_observation s \<and> eo_network_id s = n \<and> 1 \<le> json_depth E" for E n
  by unfold_locales (auto dest: parse_observation_enc simp: parse_observation_dec)

text \<open>C40. What the parser of endpoint observations accepts: for a trusted network it returns a statement iff the bytes are the
  canonical encoding of that statement, the statement is of that network, its signal belongs to its domain, its count is
  between 1 and 255, its window is one of the four fixed ones, and its time is a positive whole minute below 2^64. The
  digest of an accepted statement is the framed SHA-256 of the very bytes that were parsed.\<close>

theorem observation_accepted_iff:
  assumes "1 \<le> json_depth E"
  shows "parse_observation E w (PStr n) = Inr s \<longleftrightarrow>
    w = ascii_json (PDict (observation_items s)) \<and> eo_network_id s = n \<and> is_network_text n \<and> eo_schema_version s = 1 \<and>
    eo_domain s = signal_domain (eo_signal s) \<and> eo_event_count s \<in> {1..255} \<and> eo_window_seconds s \<in> {60, 300, 900, 3600} \<and>
    1 \<le> eo_observed_at s \<and> eo_observed_at s < 2 ^ 64 \<and> eo_observed_at s mod 60 = 0 \<and>
    is_lower_hex 64 (eo_report_nonce s) \<and>
    observation_digest (Some w) s = Inr (sha256 (OBSERVATION_DIGEST_DOMAIN @ be_bytes 4 (length w) @ w))"
proof -
  have "parse_observation E w (PStr n) = Inr s \<longleftrightarrow> valid_observation s \<and> w = observation_wire s \<and> eo_network_id s = n"
    using parse_observation_enc [of E w "PStr n" s] parse_observation_dec [OF _ assms, of s] by auto
  moreover have "observation_digest (Some w) s = Inr (sha256 (OBSERVATION_DIGEST_DOMAIN @ be_bytes 4 (length w) @ w))"
    if "valid_observation s" "w = observation_wire s"
    using that observation_canonical_bytes_iff [of "Some w" s w] by (simp add: observation_digest_def)
  ultimately show ?thesis
    by (auto simp: valid_observation_def observation_wire_def)
qed

definition ex_observation :: EndpointObservationStatementV1 where
  "ex_observation =
     \<lparr>eo_schema_version = 1, eo_domain = RESOURCE_UTILIZATION, eo_signal = ACCELERATOR_UTILIZATION_SPIKE, eo_event_count = 3,
      eo_window_seconds = 300, eo_report_nonce = replicate 64 97, eo_observed_at = 1700000040, eo_network_id = u ''mainnet''\<rparr>"

theorem observation_accepted_iff_witness:
  "parse_observation ex_env (ascii_json (PDict (observation_items ex_observation))) (PStr (u ''mainnet'')) = Inr ex_observation"
proof -
  have v: "valid_observation ex_observation" by code_simp
  then have "observation_digest (Some (observation_wire ex_observation)) ex_observation =
      Inr (sha256 (OBSERVATION_DIGEST_DOMAIN @ be_bytes 4 (length (observation_wire ex_observation)) @ observation_wire ex_observation))"
    using observation_canonical_bytes_iff [of "Some (observation_wire ex_observation)" ex_observation "observation_wire ex_observation"]
    by (simp add: observation_digest_def)
  with v show ?thesis
    by (subst observation_accepted_iff)
       (auto simp: ex_env_def valid_observation_def observation_wire_def, simp_all add: ex_observation_def)
qed

end
