(* ===== verification/Analysis_Worker.thy ===== *)
theory Analysis_Worker
  imports Ledger_Properties
begin

text \<open>
  The owner-local analysis of pending records (\<open>jaeger/observable_analysis_worker.py\<close>) and the semantic draft it can
  derive from a bundle (\<open>jaeger/observable_semantic_draft.py\<close>).

  The lease tokens and completion tokens are drawn at random and are arguments here; the YARA-X compiler is the argument
  \<open>compiles_clean\<close> of the source validation. An analyzer is a function from its input to what \<open>asyncio.wait_for\<close> gives:
  a timeout, an exception or a result.
\<close>

subsection \<open>Semantic drafts\<close>

definition RULE_NAME :: pystr where
  "RULE_NAME = u ''prometheus_observable_semantic_draft_v1''"

record ObservableSemanticDraft =
  sd_file_sha256_count :: int
  sd_api_import_count :: int
  sd_byte_pattern_count :: int
  sd_candidate_rule_sha256 :: bytes
  sd_rule_compile_ok :: bool

definition check_file_sha256 :: "pystr \<Rightarrow> pyexc + unit" where
  "check_file_sha256 value =
     raise_if (length value \<noteq> 64 \<or> list_ex (\<lambda>c. \<not> is_hex_char c) value) ObservableSemanticDraftError"

definition check_api_import :: "pystr \<Rightarrow> pyexc + unit" where
  "check_api_import value =
     (if \<not> (1 \<le> length value \<and> length value \<le> MAX_API_IMPORT_LEN) then Inl ObservableSemanticDraftError
      else if \<not> is_api_start (hd value) then Inl ObservableSemanticDraftError
      else raise_if (list_ex (\<lambda>c. \<not> is_api_char c) value) ObservableSemanticDraftError)"

text \<open>The token loop; it returns the number of fixed tokens.\<close>

fun check_tokens :: "pystr list \<Rightarrow> nat \<Rightarrow> pyexc + nat" where
  "check_tokens [] fixed = Inr fixed"
| "check_tokens (token # tokens) fixed =
     (if token = u ''??'' then check_tokens tokens fixed
      else if length token \<noteq> 2 \<or> list_ex (\<lambda>c. \<not> is_hex_char c) token then Inl ObservableSemanticDraftError
      else check_tokens tokens (Suc fixed))"

definition check_byte_pattern :: "pystr \<Rightarrow> pyexc + unit" where
  "check_byte_pattern value =
     (if \<not> is_ascii value then Inl ObservableSemanticDraftError
      else let tokens = split_space value
           in if \<not> (MIN_BYTE_PATTERN_TOKENS \<le> length tokens \<and> length tokens \<le> MAX_BYTE_PATTERN_TOKENS)
              then Inl ObservableSemanticDraftError
              else rbind (check_tokens tokens 0) (\<lambda>fixed.
                   raise_if (fixed < MIN_BYTE_PATTERN_TOKENS) ObservableSemanticDraftError))"

definition checked_observable :: "Observable \<Rightarrow> pyexc + ObservableKind \<times> pystr" where
  "checked_observable ob =
     rbind (case ob_kind ob of
              FILE_SHA256 \<Rightarrow> check_file_sha256 (ob_value ob)
            | API_IMPORT \<Rightarrow> check_api_import (ob_value ob)
            | BYTE_PATTERN \<Rightarrow> check_byte_pattern (ob_value ob)) (\<lambda>_.
     Inr (ob_kind ob, ob_value ob))"

text \<open>The loop over the observables: the number of file digests and the patterns in order.\<close>

fun collect_patterns ::
  "Observable list \<Rightarrow> int \<Rightarrow> (ObservableKind \<times> pystr) list \<Rightarrow> pyexc + int \<times> (ObservableKind \<times> pystr) list" where
  "collect_patterns [] files patterns = Inr (files, patterns)"
| "collect_patterns (ob # obs) files patterns =
     rbind (checked_observable ob) (\<lambda>(kind, value).
     if kind = FILE_SHA256 then collect_patterns obs (files + 1) patterns
     else collect_patterns obs files (patterns @ [(kind, value)]))"

definition pattern_line :: "nat \<Rightarrow> ObservableKind \<times> pystr \<Rightarrow> pystr" where
  "pattern_line index pattern =
     (case pattern of (kind, value) \<Rightarrow>
        u ''        $p'' @ int_str (int index) @
        (if kind = API_IMPORT then u '' = '' @ [34] @ value @ [34] else u '' = { '' @ value @ u '' }''))"

definition candidate_lines :: "(ObservableKind \<times> pystr) list \<Rightarrow> pystr list" where
  "candidate_lines patterns =
     [u ''rule '' @ RULE_NAME @ u '' {''] @
     (if patterns \<noteq> []
      then [u ''    strings:''] @ map (\<lambda>(index, p). pattern_line index p) (List.enumerate 0 patterns) @
           [u ''    condition:'', u ''        any of them'']
      else [u ''    condition:'', u ''        filesize == 0 and filesize > 0'']) @
     [u ''}'']"

text \<open>\<open>"\n".join(lines)\<close>\<close>

fun join_lines :: "pystr list \<Rightarrow> pystr" where
  "join_lines [] = []"
| "join_lines [l] = l"
| "join_lines (l # ls) = l @ 10 # join_lines ls"

definition render_candidate_source :: "(ObservableKind \<times> pystr) list \<Rightarrow> pystr" where
  "render_candidate_source patterns = join_lines (candidate_lines patterns)"

definition derive_semantic_draft :: "(pystr \<Rightarrow> bool) \<Rightarrow> ObservableBundle \<Rightarrow> pyexc + ObservableSemanticDraft" where
  "derive_semantic_draft compiles_clean bundle =
     rbind (catch (raise_oerr (canonical_bytes bundle)) (\<lambda>e. e = AttributeError \<or> is_value_error e)
              (\<lambda>_. Inl ObservableSemanticDraftError)) (\<lambda>_.
     if obu_observables bundle = [] then Inl ObservableSemanticDraftError
     else rbind (collect_patterns (obu_observables bundle) 0 []) (\<lambda>(files, patterns).
          let imports = int (length (filter (\<lambda>(kind, _). kind = API_IMPORT) patterns));
              source = render_candidate_source patterns
          in if \<not> is_ascii source then Inl UnicodeEncodeError
             else if MAX_YARA_SOURCE_BYTES < length source then Inl ObservableSemanticDraftError
             else Inr \<lparr>sd_file_sha256_count = files, sd_api_import_count = imports,
                       sd_byte_pattern_count = int (length patterns) - imports,
                       sd_candidate_rule_sha256 = sha256 (ascii_bytes source),
                       sd_rule_compile_ok = validate_candidate_rule_source compiles_clean (PStr source)\<rparr>))"

subsection \<open>Analyzers\<close>

definition MAX_WORKER_CONCURRENCY :: int where
  "MAX_WORKER_CONCURRENCY = 8"
definition MAX_WORKER_BATCH :: nat where
  "MAX_WORKER_BATCH = 64"
definition DETERMINISTIC_ANALYZER_ID :: pystr where
  "DETERMINISTIC_ANALYZER_ID = u ''deterministic_test_v1''"
definition SEMANTIC_DRAFT_ANALYZER_ID :: pystr where
  "SEMANTIC_DRAFT_ANALYZER_ID = u ''deterministic_semantic_draft_v2''"
definition SEMANTIC_DRAFT_BINDING_DOMAIN :: bytes where
  "SEMANTIC_DRAFT_BINDING_DOMAIN = ascii_bytes (u ''prometheus-observable-semantic-draft-binding-v1'') @ [0]"

record ObservableAnalysisInput =
  ai_approval_id :: bytes
  ai_observable_commitment :: bytes
  ai_statement_digest :: bytes
  ai_report_nonce :: bytes
  ai_statement_wire :: bytes
  ai_bundle_wire :: bytes
  ai_input_identity :: bytes

definition input_post_init :: "ObservableAnalysisInput \<Rightarrow> pyexc + ObservableAnalysisInput" where
  "input_post_init i =
     (if list_ex (\<lambda>v. length v \<noteq> FIXED_HASH_BYTES)
           [ai_approval_id i, ai_observable_commitment i, ai_statement_digest i, ai_report_nonce i, ai_input_identity i] \<or>
         \<not> (1 \<le> length (ai_statement_wire i) \<and> length (ai_statement_wire i) \<le> MAX_CANONICAL_V2_STATEMENT_BYTES) \<or>
         \<not> (1 \<le> length (ai_bundle_wire i) \<and> length (ai_bundle_wire i) \<le> MAX_CANONICAL_BYTES)
      then Inl ObservableAnalysisWorkerError else Inr i)"

definition input_from_claim :: "ObservableApprovalOutboxClaim \<Rightarrow> pyexc + ObservableAnalysisInput" where
  "input_from_claim c =
     input_post_init
       \<lparr>ai_approval_id = cl_approval_id c, ai_observable_commitment = cl_observable_commitment c,
        ai_statement_digest = cl_statement_digest c, ai_report_nonce = cl_report_nonce c,
        ai_statement_wire = cl_statement_wire c, ai_bundle_wire = cl_bundle_wire c,
        ai_input_identity = cl_input_identity c\<rparr>"

text \<open>\<open>_statement_digest\<close> hashes the bytes that \<open>statement_preimage\<close> describes.\<close>

definition worker_statement_digest :: "bytes \<Rightarrow> bytes" where
  "worker_statement_digest wire = sha256 (STATEMENT_DIGEST_DOMAIN @ be_bytes 4 (length wire) @ wire)"

definition checked_bundle :: "py_env \<Rightarrow> ObservableAnalysisInput \<Rightarrow> pyexc + ObservableBundle" where
  "checked_bundle E i =
     rbind (catch (raise_oerr (parse_canonical E (ai_bundle_wire i))) is_value_error
              (\<lambda>_. Inl ObservableAnalysisWorkerError)) (\<lambda>bundle.
     if worker_statement_digest (ai_statement_wire i) \<noteq> ai_statement_digest i then Inl ObservableAnalysisWorkerError
     else Inr bundle)"

definition analyze_deterministic :: "py_env \<Rightarrow> ObservableAnalysisInput \<Rightarrow> pyexc + bytes" where
  "analyze_deterministic E i =
     rbind (checked_bundle E i) (\<lambda>bundle.
     catch (build_analysis_result_wire DETERMINISTIC_ANALYZER_ID (ai_approval_id i) (ai_input_identity i)
              (ai_statement_digest i) (ai_observable_commitment i) (int (length (obu_observables bundle))))
       (\<lambda>e. e = ObservableApprovalOutboxError) (\<lambda>_. Inl ObservableAnalysisWorkerError))"

definition semantic_draft_binding :: "bytes \<Rightarrow> bytes \<Rightarrow> pyexc + bytes" where
  "semantic_draft_binding report_nonce candidate_rule_sha256 =
     (if length report_nonce \<noteq> FIXED_HASH_BYTES \<or> length candidate_rule_sha256 \<noteq> FIXED_HASH_BYTES
      then Inl ObservableAnalysisWorkerError
      else Inr (sha256 (SEMANTIC_DRAFT_BINDING_DOMAIN @ report_nonce @ candidate_rule_sha256)))"

definition analyze_semantic_draft :: "py_env \<Rightarrow> (pystr \<Rightarrow> bool) \<Rightarrow> ObservableAnalysisInput \<Rightarrow> pyexc + bytes" where
  "analyze_semantic_draft E compiles_clean i =
     rbind (checked_bundle E i) (\<lambda>bundle.
     catch (rbind (derive_semantic_draft compiles_clean bundle) (\<lambda>draft.
            rbind (semantic_draft_binding (ai_report_nonce i) (sd_candidate_rule_sha256 draft)) (\<lambda>binding.
            build_semantic_draft_result_wire SEMANTIC_DRAFT_ANALYZER_ID (ai_approval_id i) (ai_input_identity i)
              (ai_statement_digest i) (ai_observable_commitment i) (sd_file_sha256_count draft)
              (sd_api_import_count draft) (sd_byte_pattern_count draft) binding (sd_rule_compile_ok draft))))
       (\<lambda>e. e \<in> {ObservableSemanticDraftError, ObservableApprovalOutboxError})
       (\<lambda>_. Inl ObservableAnalysisWorkerError))"

subsection \<open>The worker\<close>

text \<open>The timeout is a float of the caller; the tests on it are a flag.\<close>

record ObservableAnalysisWorker =
  aw_network_id :: pystr
  aw_lease_seconds :: int
  aw_max_concurrency :: int

definition new_worker :: "pystr \<Rightarrow> int \<Rightarrow> bool \<Rightarrow> int \<Rightarrow> pyexc + ObservableAnalysisWorker" where
  "new_worker network lease_seconds timeout_in_range max_concurrency =
     (if \<not> (1 \<le> lease_seconds \<and> lease_seconds \<le> MAX_OUTBOX_LEASE_SECONDS) \<or> \<not> timeout_in_range \<or>
         \<not> (1 \<le> max_concurrency \<and> max_concurrency \<le> MAX_WORKER_CONCURRENCY)
      then Inl ObservableAnalysisWorkerError
      else Inr \<lparr>aw_network_id = network, aw_lease_seconds = lease_seconds, aw_max_concurrency = max_concurrency\<rparr>)"

datatype analysis = AnalysisTimeout | AnalysisRaised pyexc | AnalysisReturned bytes

definition awaited :: "pyexc + bytes \<Rightarrow> analysis" where
  "awaited r = (case r of Inl e \<Rightarrow> AnalysisRaised e | Inr w \<Rightarrow> AnalysisReturned w)"

text \<open>What \<open>process_next\<close> does with a claim, up to the completion; \<open>None\<close> is an \<open>os.urandom\<close> that fails.\<close>

definition analyze_claim ::
  "(ObservableAnalysisInput \<Rightarrow> analysis) \<Rightarrow> bytes option \<Rightarrow> ObservableApprovalOutboxClaim \<Rightarrow> pyexc + bytes \<times> bytes" where
  "analyze_claim analyzer urandom c =
     rbind (input_from_claim c) (\<lambda>i.
     case urandom of
       None \<Rightarrow> Inl ObservableAnalysisWorkerError
     | Some completion_token \<Rightarrow>
         (case analyzer i of
            AnalysisTimeout \<Rightarrow> Inl ObservableAnalysisWorkerTimeoutError
          | AnalysisRaised _ \<Rightarrow> Inl ObservableAnalysisWorkerError
          | AnalysisReturned wire \<Rightarrow>
              (if \<not> (1 \<le> length wire \<and> length wire \<le> MAX_CANONICAL_ANALYSIS_RESULT_BYTES)
               then Inl ObservableAnalysisWorkerError else Inr (completion_token, wire))))"

definition process_next ::
  "py_env \<Rightarrow> db_status \<Rightarrow> db_status \<Rightarrow> ObservableAnalysisWorker \<Rightarrow> (ObservableAnalysisInput \<Rightarrow> analysis) \<Rightarrow> bytes \<Rightarrow>
     bytes option \<Rightarrow> int \<Rightarrow> ledger \<Rightarrow> (pyexc + ObservableAnalysisCompletion option) \<times> ledger" where
  "process_next E st st2 A analyzer lease_token urandom current_time L =
     (if \<not> (1 \<le> current_time \<and> current_time \<le> UINT64_MAX) then (Inl ObservableAnalysisWorkerError, L)
      else case claim E st (aw_network_id A) current_time (aw_lease_seconds A) lease_token L of
             (Inl e, L1) \<Rightarrow> (Inl e, L1)
           | (Inr None, L1) \<Rightarrow> (Inr None, L1)
           | (Inr (Some c), L1) \<Rightarrow>
               (case analyze_claim analyzer urandom c of
                  Inl e \<Rightarrow> (Inl e, L1)
                | Inr (completion_token, wire) \<Rightarrow>
                    (case complete E st2 (aw_network_id A) (cl_approval_id c) (cl_lease_token c) completion_token
                            (cl_input_identity c) wire current_time L1 of
                       (Inl e, L2) \<Rightarrow> (Inl e, L2)
                     | (Inr cm, L2) \<Rightarrow> (Inr (Some cm), L2))))"

text \<open>The loop of \<open>process_pending\<close>, with the number of records it may still process. The tokens of the n-th round are
  the n-th of each stream.\<close>

fun pending_loop ::
  "py_env \<Rightarrow> ObservableAnalysisWorker \<Rightarrow> (ObservableAnalysisInput \<Rightarrow> analysis) \<Rightarrow> (nat \<Rightarrow> bytes) \<Rightarrow> (nat \<Rightarrow> bytes option) \<Rightarrow>
     (nat \<Rightarrow> db_status) \<Rightarrow> int \<Rightarrow> nat \<Rightarrow> nat \<Rightarrow> ledger \<Rightarrow> (pyexc + nat) \<times> ledger" where
  "pending_loop E A analyzer tokens urandom st t 0 completed L = (Inr completed, L)"
| "pending_loop E A analyzer tokens urandom st t (Suc n) completed L =
     (case process_next E (st (2 * completed)) (st (2 * completed + 1)) A analyzer (tokens completed) (urandom completed)
             t L of
        (Inl e, L') \<Rightarrow> (Inl e, L')
      | (Inr None, L') \<Rightarrow> (Inr completed, L')
      | (Inr (Some _), L') \<Rightarrow> pending_loop E A analyzer tokens urandom st t n (Suc completed) L')"

definition process_pending ::
  "py_env \<Rightarrow> ObservableAnalysisWorker \<Rightarrow> (ObservableAnalysisInput \<Rightarrow> analysis) \<Rightarrow> (nat \<Rightarrow> bytes) \<Rightarrow> (nat \<Rightarrow> bytes option) \<Rightarrow>
     (nat \<Rightarrow> db_status) \<Rightarrow> int \<Rightarrow> nat \<Rightarrow> ledger \<Rightarrow> (pyexc + nat) \<times> ledger" where
  "process_pending E A analyzer tokens urandom st current_time max_records L =
     (if \<not> (1 \<le> max_records \<and> max_records \<le> MAX_WORKER_BATCH) then (Inl ObservableAnalysisWorkerError, L)
      else pending_loop E A analyzer tokens urandom st current_time max_records 0 L)"

subsection \<open>The deterministic analyzer answers every valid record\<close>

abbreviation deterministic :: "py_env \<Rightarrow> ObservableAnalysisInput \<Rightarrow> analysis" where
  "deterministic E \<equiv> \<lambda>i. awaited (analyze_deterministic E i)"

lemma revalidated_content:
  assumes "revalidate_outbox_row E r n = Inr ()"
  obtains b where "parse_canonical E (ox_bundle_wire r) = Inr b" "1 \<le> length (obu_observables b)" "length (obu_observables b) \<le> 16"
    "worker_statement_digest (ox_statement_wire r) = ox_statement_digest r" "length (ox_report_nonce r) = 32"
proof -
  obtain b where b: "parse_canonical E (ox_bundle_wire r) = Inr b"
    using assms by (auto simp: revalidate_outbox_row_def recompute_commitment_def catch_eq_Inr_raise rbind_eq_Inr)
  have "canonical_bundle b" using parse_canonical_enc [OF b] by blast
  then have "1 \<le> length (obu_observables b)" "length (obu_observables b) \<le> 16"
    by (auto simp: canonical_bundle_def)
  moreover have "validate_outbox_row r = Inr ()"
    and "validate_outbox_statement E (ox_statement_wire r) n (ox_observable_commitment r) (ox_report_nonce r) =
      Inr (ox_statement_digest r)"
    using assms by (auto simp: revalidate_outbox_row_def)
  then have "length (ox_report_nonce r) = 32" "worker_statement_digest (ox_statement_wire r) = ox_statement_digest r"
    by (auto simp: validate_outbox_row_def FIXED_HASH_BYTES_def validate_outbox_statement_def catch_eq_Inr_raise
        statement_digest_def worker_statement_digest_def statement_preimage_def statement_canonical_bytes_iff
        dest!: parse_statement_enc split: if_splits)
  ultimately show ?thesis using that b by blast
qed

lemma claim_analyzed:
  assumes "outbox_row_ok E n row" and "build_outbox_claim row tok expires n = Inr c" and "length (cl_input_identity c) = 32"
    and "1 \<le> json_depth E"
  shows "\<exists>w. analyze_claim (deterministic E) (Some ctok) c = Inr (ctok, w) \<and>
    validate_analysis_result_wire E w (cl_approval_id c) (cl_input_identity c) (Some (cl_statement_digest c))
      (Some (cl_observable_commitment c)) = Inr ()"
proof -
  have v: "revalidate_outbox_row E row n = Inr ()" using assms(1) by (simp add: outbox_row_ok_def)
  obtain b where b: "parse_canonical E (ox_bundle_wire row) = Inr b" "1 \<le> length (obu_observables b)"
      "length (obu_observables b) \<le> 16" "worker_statement_digest (ox_statement_wire row) = ox_statement_digest row"
      "length (ox_report_nonce row) = 32"
    using revalidated_content [OF v] by blast
  note f = revalidate_fields [OF v]
  have c: "cl_approval_id c = ox_approval_id row" "cl_observable_commitment c = ox_observable_commitment row"
    "cl_statement_digest c = ox_statement_digest row" "cl_report_nonce c = ox_report_nonce row"
    "cl_statement_wire c = ox_statement_wire row" "cl_bundle_wire c = ox_bundle_wire row"
    using assms(2) by (auto simp: build_outbox_claim_def)
  have a: "is_analyzer_text DETERMINISTIC_ANALYZER_ID"
    by (simp add: DETERMINISTIC_ANALYZER_ID_def u_def is_analyzer_char_def)
  obtain w where w: "build_analysis_result_wire DETERMINISTIC_ANALYZER_ID (cl_approval_id c) (cl_input_identity c)
      (cl_statement_digest c) (cl_observable_commitment c) (int (length (obu_observables b))) = Inr w"
    using build_result_total [OF a] b(2,3) f(1-3) assms(3) unfolding c by (metis of_nat_1 of_nat_le_iff of_nat_numeral)
  note r = built_result_valid [OF w assms(4)]
  have "1 \<le> length w" "length w \<le> MAX_CANONICAL_ANALYSIS_RESULT_BYTES"
    using r by (auto simp: validate_analysis_result_wire_def split: if_splits)
  then have "analyze_claim (deterministic E) (Some ctok) c = Inr (ctok, w)"
    using w b f assms(3)
    by (simp add: analyze_claim_def input_from_claim_def input_post_init_def FIXED_HASH_BYTES_def analyze_deterministic_def
        checked_bundle_def raise_oerr_def catch_def awaited_def c)
  with r show ?thesis by blast
qed

subsection \<open>Draining the outbox\<close>

definition pending :: "int \<Rightarrow> ledger \<Rightarrow> outbox_row list" where
  "pending t L = filter (eligible t) (lg_outbox L)"

definition answered :: "int \<Rightarrow> ledger \<Rightarrow> bytes set" where
  "answered t L = rr_approval_id ` {r \<in> set (lg_results L). t < rr_retention_deadline r}"

lemma pending_purged [simp]: "pending t (purged t L) = pending t L" "answered t (purged t L) = answered t L"
  by (auto simp: pending_def answered_def eligible_def intro: filter_cong)

lemma complete_first_outbox:
  assumes "complete_first E n i tok td x w t row L = Inr (c, L')" and "outbox_inv E L"
    and "row \<in> set (lg_outbox L)" and "ox_approval_id row = i"
  shows "lg_outbox L' = filter (\<lambda>r. ox_approval_id r \<noteq> i) (lg_outbox L)"
proof -
  obtain K digest where "insert_result (completed_row i w digest x td t (ox_retention_deadline row)) L = Inr K"
    and del: "delete_leased i tok t K = Inr L'"
    using complete_first_Inr [OF assms(1)] by blast
  then have "lg_outbox K = lg_outbox L" by (auto simp: insert_result_iff)
  with del have o: "lg_outbox L' = filter (\<lambda>r. \<not> leased_by i tok t r) (lg_outbox L)"
    by (auto simp: delete_leased_def split: if_splits)
  have "leased_by i tok t r \<longleftrightarrow> ox_approval_id r = i" if "r \<in> set (lg_outbox L)" for r
    using complete_first_inv(2) [OF assms] that by (auto simp: o leased_by_def)
  then show ?thesis unfolding o by (intro filter_cong) auto
qed

lemma set_lease_other: "filter (\<lambda>r. ox_approval_id r \<noteq> i) (map (set_lease i t e k) rs) = filter (\<lambda>r. ox_approval_id r \<noteq> i) rs"
  by (induction rs) (simp_all add: set_lease_def)

lemma claim_complete_effect:
  assumes "ledger_inv E L" and "claim E st n t seconds tok L = (Inr (Some c), L1)"
    and "complete E st2 n (cl_approval_id c) tok ctok x w t L1 = (Inr cm, L2)" and "t < cl_lease_expires_at c"
  shows "length (pending t L) = Suc (length (pending t L2))"
    "answered t L2 = insert (cl_approval_id c) (answered t L)"
    "ox_approval_id ` set (pending t L) = insert (cl_approval_id c) (ox_approval_id ` set (pending t L2))"
    "lg_authority L2 = lg_authority L"
proof -
  obtain row where row: "row \<in> set (lg_outbox L)" "eligible t row" "cl_approval_id c = ox_approval_id row"
    and L1: "L1 = leased (ox_approval_id row) t (cl_lease_expires_at c) tok (purged t L)"
    using claim_SomeE [OF assms(2)] by metis
  let ?i = "ox_approval_id row"
  have inv1: "outbox_inv E L1" using lstep_inv [OF lstep.claim [OF assms(2)] assms(1)] by (simp add: ledger_inv_def)
  have ob1: "lg_outbox (purged t L1) =
      map (set_lease ?i t (cl_lease_expires_at c) tok) (filter (\<lambda>r. t < ox_retention_deadline r) (lg_outbox L))"
    by (simp add: L1 leased_def filter_map comp_def)
  have mem: "?i \<in> ox_approval_id ` set (lg_outbox (purged t L1))"
  proof -
    have "row \<in> set (filter (\<lambda>r. t < ox_retention_deadline r) (lg_outbox L))" using row by (simp add: eligible_def)
    then show ?thesis unfolding ob1 by (simp add: image_image)
  qed
  obtain td where tx: "complete_tx E n ?i tok td x w t L1 = Inr (cm, L2)"
    using assms(3) unfolding row(3) by (cases rule: complete_cases) auto
  obtain r0 where r0: "r0 \<in> set (lg_outbox (purged t L1))" "ox_approval_id r0 = ?i"
      "complete_first E n ?i tok td x w t r0 (purged t L1) = Inr (cm, L2)"
    using tx mem by (cases rule: complete_tx_cases) auto
  note eff = complete_first_inv [OF r0(3) purged_inv [OF inv1] r0(1,2)]
  have ob2: "pending t L2 = filter (\<lambda>r. ox_approval_id r \<noteq> ?i) (pending t L)"
  proof -
    have "lg_outbox L2 = filter (\<lambda>r. ox_approval_id r \<noteq> ?i) (filter (\<lambda>r. t < ox_retention_deadline r) (lg_outbox L))"
      unfolding complete_first_outbox [OF r0(3) purged_inv [OF inv1] r0(1,2)] ob1 by (rule set_lease_other)
    then show ?thesis by (auto simp: pending_def eligible_def intro: filter_cong)
  qed
  have rp: "row \<in> set (pending t L)" using row by (simp add: pending_def)
  have d: "distinct (map ox_approval_id (pending t L))"
    using assms(1) by (simp add: pending_def ledger_inv_def outbox_inv_def distinct_map_filter)
  show "ox_approval_id ` set (pending t L) = insert (cl_approval_id c) (ox_approval_id ` set (pending t L2))"
    using rp by (auto simp: ob2 row(3))
  have "length (filter (\<lambda>r. ox_approval_id r = ?i) (pending t L)) = 1"
    using filter_one [OF d rp, of "\<lambda>_. True"] by simp
  then show "length (pending t L) = Suc (length (pending t L2))"
    using sum_length_filter_compl [of "\<lambda>r. ox_approval_id r = ?i" "pending t L"] by (simp add: ob2)
  obtain res where res: "lg_results L2 = lg_results (purged t L1) @ [res]" "rr_approval_id res = ?i"
      "rr_retention_deadline res = ox_retention_deadline r0"
    using eff(4) by blast
  have lt: "t < rr_retention_deadline res" using r0(1) res(3) by simp
  have "answered t L2 = insert (rr_approval_id res) (answered t (purged t L1))"
    using lt unfolding answered_def res(1) by auto
  moreover have "answered t (purged t L1) = answered t L" by (simp add: L1 leased_def answered_def)
  ultimately show "answered t L2 = insert (cl_approval_id c) (answered t L)" by (simp add: res(2) row(3))
  show "lg_authority L2 = lg_authority L" using eff(8) by (simp add: L1 leased_def)
qed

text \<open>The circumstances of a run: a reachable ledger of the worker's network, fresh tokens, a database that answers.\<close>

definition worker_ready :: "py_env \<Rightarrow> ObservableAnalysisWorker \<Rightarrow> int \<Rightarrow> ledger \<Rightarrow> bool" where
  "worker_ready E A t L \<longleftrightarrow>
     reachable E L \<and> 1 \<le> json_depth E \<and> 1 \<le> t \<and> t < 2 ^ 63 \<and> 1 \<le> aw_lease_seconds A \<and> aw_lease_seconds A \<le> 300 \<and>
     (\<exists>a. lg_authority L = Some a \<and> ar_network_id a = aw_network_id A \<and> validate_network_id (ar_network_id a) = Inr ())"

lemma worker_ready_facts:
  assumes "worker_ready E A t L"
  shows "ledger_inv E L" "lg_version L = 5" "is_timestamp t" "1 \<le> t" "t \<le> UINT64_MAX" "t + aw_lease_seconds A \<le> UINT64_MAX"
  using assms by (auto simp: worker_ready_def is_timestamp_def UINT64_MAX_def dest: reachable_inv reachable_version)

lemma process_next_some:
  assumes "worker_ready E A t L" and "pending t L \<noteq> []" and "length tok = 32" and "length ctok = 32"
  shows "\<exists>cm L2. process_next E DbOk DbOk A (deterministic E) tok (Some ctok) t L = (Inr (Some cm), L2) \<and>
    worker_ready E A t L2 \<and> length (pending t L) = Suc (length (pending t L2)) \<and>
    answered t L2 = insert (cm_approval_id cm) (answered t L) \<and>
    ox_approval_id ` set (pending t L) = insert (cm_approval_id cm) (ox_approval_id ` set (pending t L2))"
proof -
  let ?n = "aw_network_id A"
  note f = worker_ready_facts [OF assms(1)]
  obtain a :: authority_row where a: "lg_authority L = Some a" "ar_network_id a = ?n" "validate_network_id ?n = Inr ()"
    using assms(1) by (auto simp: worker_ready_def)
  have w: "reachable E L" "1 \<le> json_depth E" "1 \<le> aw_lease_seconds A" "aw_lease_seconds A \<le> 300"
    using assms(1) by (simp_all add: worker_ready_def)
  obtain q where q: "q \<in> set (lg_outbox L)" "eligible t q"
    using assms(2) by (auto simp: pending_def filter_empty_conv)
  obtain c L1 where cl: "claim E DbOk ?n t (aw_lease_seconds A) tok L = (Inr (Some c), L1)"
    using claim_progress [OF f(1,2) a(1) _ q f(3) w(3,4) assms(3)] a by auto
  obtain row where row: "row \<in> set (lg_outbox L)" "eligible t row" "cl_lease_token c = tok"
    "cl_lease_expires_at c = min (t + aw_lease_seconds A) (ox_retention_deadline row)"
    "build_outbox_claim row tok (cl_lease_expires_at c) ?n = Inr c"
    using claim_SomeE [OF cl] by metis
  have lt: "t < cl_lease_expires_at c" using row(2,4) w(3) by (auto simp: eligible_def)
  have ok: "outbox_row_ok E ?n row" using f(1) row(1) a(1,2) by (auto simp: ledger_inv_def outbox_inv_def)
  have "1 \<le> cl_lease_expires_at c" "cl_lease_expires_at c \<le> ox_retention_deadline row" using lt f(4) row(4) by auto
  from input_identity_total [OF ok a(3) assms(3) this] have lx: "length (cl_input_identity c) = 32"
    using build_claim_fields(6) [OF row(5)] by auto
  obtain wire where wire: "analyze_claim (deterministic E) (Some ctok) c = Inr (ctok, wire)"
      "validate_analysis_result_wire E wire (cl_approval_id c) (cl_input_identity c) (Some (cl_statement_digest c))
         (Some (cl_observable_commitment c)) = Inr ()"
    using claim_analyzed [OF ok row(5) lx w(2)] by blast
  obtain cm L2 where cm: "complete E DbOk ?n (cl_approval_id c) tok ctok (cl_input_identity c) wire t L1 = (Inr cm, L2)"
    using complete_progress [OF f(1) cl w(2) wire(2) f(3) lt assms(4)] by blast
  note eff = claim_complete_effect [OF f(1) cl cm lt]
  have "reachable E L2"
    using w(1) lstep.claim [OF cl] lstep.complete [OF cm] unfolding reachable_def
    by (meson rtranclp.rtrancl_into_rtrancl)
  then have ready: "worker_ready E A t L2" using assms(1) eff(4) by (simp add: worker_ready_def)
  have "ledger_inv E L1" using lstep_inv [OF lstep.claim [OF cl] f(1)] by blast
  then have id: "cm_approval_id cm = cl_approval_id c"
    using complete_settled [OF cm] by (metis completion_of_def ObservableAnalysisCompletion.select_convs(1))
  have "process_next E DbOk DbOk A (deterministic E) tok (Some ctok) t L = (Inr (Some cm), L2)"
    using cl wire(1) cm f(4,5) row(3) by (simp add: process_next_def)
  with ready eff(1-3) id show ?thesis by auto
qed

lemma process_next_none:
  assumes "worker_ready E A t L" and "pending t L = []"
    and "length tok = 32"
  shows "process_next E DbOk st A analyzer tok urandom t L = (Inr None, purged t L)"
proof -
  note f = worker_ready_facts [OF assms(1)]
  have "claim_tx E (aw_network_id A) t (t + aw_lease_seconds A) tok L = Inr (None, purged t L)"
    using assms(1,2) f(2) pending_purged(1) [of t L] unfolding claim_tx_None
    by (simp add: pending_def worker_ready_def)
  then show ?thesis using f(3-) assms(1,3)
    by (simp add: process_next_def claim_def MAX_OUTBOX_LEASE_SECONDS_def worker_ready_def is_fixed_bytes_def)
qed

lemma pending_loop_drains:
  assumes "worker_ready E A t L" and "length (pending t L) \<le> n"
    and "\<And>k. length (tokens k) = 32" and "\<And>k. length (ctokens k) = 32"
  shows "\<exists>L'. pending_loop E A (deterministic E) tokens (\<lambda>k. Some (ctokens k)) (\<lambda>_. DbOk) t n completed L =
      (Inr (completed + length (pending t L)), L') \<and> worker_ready E A t L' \<and> pending t L' = [] \<and>
    answered t L' = answered t L \<union> ox_approval_id ` set (pending t L)"
  using assms(1,2)
proof (induction n arbitrary: L completed)
  case (Suc n)
  show ?case
  proof (cases "pending t L = []")
    case True
    have "process_next E DbOk DbOk A (deterministic E) (tokens completed) (Some (ctokens completed)) t L = (Inr None, purged t L)"
      by (rule process_next_none [OF Suc.prems(1) True assms(3)])
    moreover have "worker_ready E A t (purged t L)"
    proof -
      have "claim E DbOk (aw_network_id A) t (aw_lease_seconds A) (tokens completed) L = (Inr None, purged t L)"
        using process_next_none [OF Suc.prems(1) True assms(3), of DbOk "\<lambda>_. AnalysisTimeout" completed None]
          worker_ready_facts [OF Suc.prems(1)]
        by (auto simp: process_next_def analyze_claim_def split: prod.splits sum.splits option.splits)
      then have "lstep E L (purged t L)" by (rule lstep.claim)
      then show ?thesis using Suc.prems(1) by (auto simp: worker_ready_def reachable_def)
    qed
    ultimately show ?thesis using True by simp
  next
    case False
    obtain cm L2 where s: "process_next E DbOk DbOk A (deterministic E) (tokens completed) (Some (ctokens completed)) t L =
        (Inr (Some cm), L2)" and r: "worker_ready E A t L2" "length (pending t L) = Suc (length (pending t L2))"
        "answered t L2 = insert (cm_approval_id cm) (answered t L)"
        "ox_approval_id ` set (pending t L) = insert (cm_approval_id cm) (ox_approval_id ` set (pending t L2))"
      using process_next_some [OF Suc.prems(1) False assms(3,4)] by metis
    have "length (pending t L2) \<le> n" using r(2) Suc.prems(2) by simp
    from Suc.IH [OF r(1) this, of "Suc completed"] s r(2-4) show ?thesis by auto
  qed
qed simp

text \<open>C12. The worker drains the outbox. On every reachable ledger whose authority is of the worker's network, with fresh
  tokens, a database that answers and the deterministic analyzer, a call of process_pending whose bound is at least the
  number of eligible records returns exactly that number, leaves no eligible record at that time, and stores a result for
  every approval that was eligible; no analysis, completion or validation error can stop it.\<close>

theorem worker_drains:
  assumes "worker_ready E A t L" and "length (pending t L) \<le> max_records" and "1 \<le> max_records" and "max_records \<le> 64"
    and "\<forall>k. length (tokens k) = 32 \<and> length (ctokens k) = 32"
  shows "\<exists>L'. process_pending E A (deterministic E) tokens (\<lambda>k. Some (ctokens k)) (\<lambda>_. DbOk) t max_records L =
      (Inr (length (pending t L)), L') \<and> reachable E L' \<and> pending t L' = [] \<and>
    ox_approval_id ` set (pending t L) \<subseteq> rr_approval_id ` set (lg_results L')"
proof -
  obtain L' where L': "pending_loop E A (deterministic E) tokens (\<lambda>k. Some (ctokens k)) (\<lambda>_. DbOk) t max_records 0 L =
      (Inr (length (pending t L)), L')" "worker_ready E A t L'" "pending t L' = []"
      "answered t L' = answered t L \<union> ox_approval_id ` set (pending t L)"
    using pending_loop_drains [OF assms(1,2), of tokens ctokens 0] assms(5) by auto
  have "answered t L' \<subseteq> rr_approval_id ` set (lg_results L')" by (auto simp: answered_def)
  with L' assms(3,4) show ?thesis
    by (auto simp: process_pending_def MAX_WORKER_BATCH_def worker_ready_def)
qed

definition ex_worker :: ObservableAnalysisWorker where
  "ex_worker = \<lparr>aw_network_id = u ''mainnet'', aw_lease_seconds = 60, aw_max_concurrency = 1\<rparr>"

theorem worker_drains_witness:
  "\<exists>L'. process_pending ex_env ex_worker (deterministic ex_env) (\<lambda>_. replicate 32 5) (\<lambda>_. Some (replicate 32 6)) (\<lambda>_. DbOk)
      1700000001 64 ex_ledger = (Inr 1, L') \<and> pending 1700000001 L' = []"
proof -
  have "worker_ready ex_env ex_worker 1700000001 ex_ledger"
    using ex_reachable(1) ex_progress_args(6) ex_eligible(2,3) ex_network by (simp add: worker_ready_def ex_worker_def)
  moreover have "length (pending 1700000001 ex_ledger) = 1"
    by (simp add: pending_def ex_ledger_def enqueued_def consumed_def new_ledger_def enqueued_row_def eligible_def
        lease_free_def authority_of_def ex_governance_def)
  ultimately show ?thesis
    using worker_drains [of ex_env ex_worker 1700000001 ex_ledger 64 "\<lambda>_. replicate 32 5" "\<lambda>_. replicate 32 6"] by auto
qed

end
