(* ===== verification/Confidence_Calibration.thy ===== *)
theory Confidence_Calibration
  imports Owner_File Py_Frame Py_Document Complex_Main
begin

text \<open>
  The offline evaluation of confidence evidence (\<open>jaeger/confidence_calibration.py\<close>): canonical JSON lines, the corpus,
  the predictions bound to it, the pinned gate policy, the metrics and the report, and the two entry points that verify a
  fixture set and evaluate a candidate set. All arithmetic of the module is on integers (basis points and parts per million),
  and so it is here; the rationals appear only in the specification of the gate.
\<close>

subsection \<open>Constants\<close>

definition CALIBRATION_SCHEMA_VERSION :: int where
  "CALIBRATION_SCHEMA_VERSION = 1"
definition EVALUATOR_VERSION :: pystr where
  "EVALUATOR_VERSION = u ''guardian-confidence-eval-v1''"
definition EVIDENCE_KIND :: pystr where
  "EVIDENCE_KIND = u ''synthetic_offline''"
definition AUTHORITY :: pystr where
  "AUTHORITY = u ''none''"
definition NON_AUTHORITY_DISCLAIMER :: pystr where
  "NON_AUTHORITY_DISCLAIMER = u ''Synthetic offline evaluation only; not live-model quality, production calibration, or authorization.''"
definition EVALUATION_INPUT_DOMAIN :: bytes where
  "EVALUATION_INPUT_DOMAIN = ascii_bytes (u ''prometheus-guardian-confidence-evaluation-v1'') @ [0]"
definition SUBMISSION_THRESHOLD_BPS :: int where
  "SUBMISSION_THRESHOLD_BPS = 8500"
definition CALIBRATION_BIN_WIDTH_BPS :: int where
  "CALIBRATION_BIN_WIDTH_BPS = 1000"
definition CALIBRATION_BIN_COUNT :: nat where
  "CALIBRATION_BIN_COUNT = 10"
definition MIN_CASES :: int where
  "MIN_CASES = 20"
definition MAX_CASES :: int where
  "MAX_CASES = 256"
definition MIN_CLASS_CASES :: int where
  "MIN_CLASS_CASES = 8"
definition MIN_PRECISION_BPS :: int where
  "MIN_PRECISION_BPS = 9000"
definition MIN_RECALL_BPS :: int where
  "MIN_RECALL_BPS = 8000"
definition MAX_BRIER_PPM :: int where
  "MAX_BRIER_PPM = 150000"
definition MAX_ECE_BPS :: int where
  "MAX_ECE_BPS = 1000"
definition MAX_CORPUS_BYTES :: nat where
  "MAX_CORPUS_BYTES = 1048576"
definition MAX_PREDICTIONS_BYTES :: nat where
  "MAX_PREDICTIONS_BYTES = 131072"
definition MAX_POLICY_BYTES :: nat where
  "MAX_POLICY_BYTES = 4096"
definition MAX_MANIFEST_BYTES :: nat where
  "MAX_MANIFEST_BYTES = 4096"
definition MAX_REPORT_BYTES :: nat where
  "MAX_REPORT_BYTES = 131072"
definition MAX_LINE_BYTES :: nat where
  "MAX_LINE_BYTES = 16384"
definition EVALUATION_MODE :: pystr where
  "EVALUATION_MODE = u ''synthetic_ci''"
definition LOCAL_MODEL_EVALUATION_MODE :: pystr where
  "LOCAL_MODEL_EVALUATION_MODE = u ''local_model_candidate''"
definition PINNED_LOCAL_MODEL_PROMPT_SHA256 :: pystr where
  "PINNED_LOCAL_MODEL_PROMPT_SHA256 = u ''b195c55e0825c73706aac06bd77b346d443aa64416955316574b30aaf526facc''"
definition LOCAL_MODEL_NON_AUTHORITY_DISCLAIMER :: pystr where
  "LOCAL_MODEL_NON_AUTHORITY_DISCLAIMER = u ''Local model candidate evaluation only; development metrics are not production calibration, quality certification, or authorization.''"

subsection \<open>Data\<close>

record BenchmarkCase =
  bc_case_id :: pystr
  bc_category :: pystr
  bc_threat_description :: pystr
  bc_yara_rule :: pystr
  bc_expected_acceptable :: bool

record BenchmarkCorpus =
  co_corpus_id :: pystr
  co_cases :: "BenchmarkCase list"
  co_sha256 :: pystr

record ConfidencePrediction =
  cp_case_id :: pystr
  cp_confidence_bps :: int

record PredictionSet =
  ps_evaluation_mode :: pystr
  ps_corpus_sha256 :: pystr
  ps_subject_id :: pystr
  ps_subject_sha256 :: pystr
  ps_prompt_sha256 :: pystr
  ps_predictions :: "ConfidencePrediction list"
  ps_sha256 :: pystr

record GatePolicy =
  gt_threshold_bps :: int
  gt_calibration_bin_width_bps :: int
  gt_minimum_cases :: int
  gt_minimum_class_cases :: int
  gt_minimum_precision_bps :: int
  gt_minimum_recall_bps :: int
  gt_maximum_brier_score_ppm :: int
  gt_maximum_expected_calibration_error_bps :: int
  gt_sha256 :: pystr

record IntegrityManifest =
  im_corpus_sha256 :: pystr
  im_predictions_sha256 :: pystr
  im_policy_sha256 :: pystr
  im_expected_report_sha256 :: pystr

subsection \<open>Field checks\<close>

abbreviation invalid :: "pyexc + 'a" where
  "invalid \<equiv> Inl ConfidenceEvaluationError"

definition calibration_exact_int :: "pyval \<Rightarrow> pyexc + int" where
  "calibration_exact_int v = (case v of PInt n \<Rightarrow> (if n < 0 then invalid else Inr n) | _ \<Rightarrow> invalid)"

definition is_lower_alnum :: "nat \<Rightarrow> bool" where
  "is_lower_alnum c \<longleftrightarrow> (48 \<le> c \<and> c \<le> 57) \<or> (97 \<le> c \<and> c \<le> 122)"

text \<open>\<open>[a-z0-9][a-z0-9._-]*\<close>\<close>

fun matches_identifier :: "pystr \<Rightarrow> bool" where
  "matches_identifier [] = False"
| "matches_identifier (c # s) =
     (is_lower_alnum c \<and> list_all (\<lambda>c. is_lower_alnum c \<or> c = 46 \<or> c = 95 \<or> c = 45) s)"

definition check_identifier :: "pyval \<Rightarrow> nat \<Rightarrow> pyexc + pystr" where
  "check_identifier v maximum_length =
     (case v of
        PStr s \<Rightarrow> (if length s < 3 \<or> maximum_length < length s \<or> \<not> matches_identifier s then invalid else Inr s)
      | _ \<Rightarrow> invalid)"

definition is_alnum :: "nat \<Rightarrow> bool" where
  "is_alnum c \<longleftrightarrow> is_lower_alnum c \<or> (65 \<le> c \<and> c \<le> 90)"

text \<open>\<open>[A-Za-z0-9][A-Za-z0-9._/-]*\<close>\<close>

fun matches_subject :: "pystr \<Rightarrow> bool" where
  "matches_subject [] = False"
| "matches_subject (c # s) =
     (is_alnum c \<and> list_all (\<lambda>c. is_alnum c \<or> c = 46 \<or> c = 95 \<or> c = 47 \<or> c = 45) s)"

definition subject_identifier :: "pyval \<Rightarrow> nat \<Rightarrow> pyexc + pystr" where
  "subject_identifier v maximum_length =
     (case v of
        PStr s \<Rightarrow>
          (if \<not> (1 \<le> length s \<and> length s \<le> maximum_length) \<or> \<not> matches_subject s then invalid
           else if list_ex (\<lambda>c. c \<in> {[], u ''.'', u ''..''}) (split_slash s) then invalid
           else Inr s)
      | _ \<Rightarrow> invalid)"

definition bounded_ascii_text :: "pyval \<Rightarrow> nat \<Rightarrow> pyexc + pystr" where
  "bounded_ascii_text v maximum_length =
     (case v of
        PStr s \<Rightarrow>
          (if s = [] \<or> maximum_length < length s \<or>
              list_ex (\<lambda>c. c \<notin> {10, 13, 9} \<and> \<not> (32 \<le> c \<and> c \<le> 126)) s then invalid else Inr s)
      | _ \<Rightarrow> invalid)"

definition lower_hex_32 :: "pyval \<Rightarrow> pyexc + pystr" where
  "lower_hex_32 v = (case v of PStr s \<Rightarrow> (if is_lower_hex 64 s then Inr s else invalid) | _ \<Rightarrow> invalid)"

definition nonzero_lower_hex_32 :: "pyval \<Rightarrow> pyexc + pystr" where
  "nonzero_lower_hex_32 v = rbind (lower_hex_32 v) (\<lambda>s. if s = replicate 64 48 then invalid else Inr s)"

subsection \<open>Canonical JSON\<close>

text \<open>\<open>bytes.splitlines(keepends=True)\<close>\<close>

fun splitlines_keep :: "bytes \<Rightarrow> bytes list" where
  "splitlines_keep [] = []"
| "splitlines_keep (b # bs) =
     (if b = 10 then [b] # splitlines_keep bs
      else if b = 13 then
        (case bs of
           [] \<Rightarrow> [[b]]
         | c # r \<Rightarrow> (if c = 10 then [b, c] # splitlines_keep r else [b] # splitlines_keep bs))
      else (case splitlines_keep bs of [] \<Rightarrow> [[b]] | l # ls \<Rightarrow> (b # l) # ls))"

text \<open>One object with its newline; \<open>parse_constant\<close> refuses \<open>NaN\<close> and the infinities.\<close>

definition parse_canonical_object :: "py_env \<Rightarrow> bytes \<Rightarrow> pyexc + (pystr \<times> pyval) list" where
  "parse_canonical_object E raw =
     rbind (catch (loads_ascii (E\<lparr>json_constants := False\<rparr>) ConfidenceEvaluationError (butlast raw)) is_value_error
              (\<lambda>_. invalid)) (\<lambda>value.
     case value of
       PDict d \<Rightarrow> (if ascii_json (PDict d) @ [10] \<noteq> raw then invalid else Inr d)
     | _ \<Rightarrow> invalid)"

definition parse_canonical_json :: "py_env \<Rightarrow> bytes \<Rightarrow> nat \<Rightarrow> pyexc + (pystr \<times> pyval) list" where
  "parse_canonical_json E raw maximum_bytes =
     (if raw = [] \<or> maximum_bytes < length raw \<or> last raw \<noteq> 10 then invalid else parse_canonical_object E raw)"

definition parse_canonical_line :: "py_env \<Rightarrow> bytes \<Rightarrow> pyexc + (pystr \<times> pyval) list" where
  "parse_canonical_line E line =
     (if line = [] \<or> last line \<noteq> 10 \<or> MAX_LINE_BYTES < length line then invalid else parse_canonical_object E line)"

definition parse_canonical_jsonl :: "py_env \<Rightarrow> bytes \<Rightarrow> nat \<Rightarrow> pyexc + (pystr \<times> pyval) list list" where
  "parse_canonical_jsonl E raw maximum_bytes =
     (if raw = [] \<or> maximum_bytes < length raw \<or> last raw \<noteq> 10 then invalid
      else let raw_lines = splitlines_keep raw
           in if length raw_lines < 2 then invalid else rmap (parse_canonical_line E) raw_lines)"

subsection \<open>Parsing\<close>

definition has_keys :: "string list \<Rightarrow> (pystr \<times> pyval) list \<Rightarrow> bool" where
  "has_keys ks d \<longleftrightarrow> map fst d = map u ks"

definition parse_case :: "(pystr \<times> pyval) list \<Rightarrow> pyexc + BenchmarkCase" where
  "parse_case d =
     (if \<not> has_keys [''case_id'', ''category'', ''threat_description'', ''yara_rule'', ''expected_acceptable''] d then invalid
      else case dict_at d ''expected_acceptable'' of
             PBool b \<Rightarrow>
               rbind (check_identifier (dict_at d ''case_id'') 64) (\<lambda>case_id.
               rbind (check_identifier (dict_at d ''category'') 64) (\<lambda>category.
               rbind (bounded_ascii_text (dict_at d ''threat_description'') 2048) (\<lambda>description.
               rbind (bounded_ascii_text (dict_at d ''yara_rule'') 4096) (\<lambda>rule.
               Inr \<lparr>bc_case_id = case_id, bc_category = category, bc_threat_description = description,
                    bc_yara_rule = rule, bc_expected_acceptable = b\<rparr>))))
           | _ \<Rightarrow> invalid)"

definition parse_prediction :: "(pystr \<times> pyval) list \<Rightarrow> pyexc + ConfidencePrediction" where
  "parse_prediction d =
     (if \<not> has_keys [''case_id'', ''confidence_bps''] d then invalid
      else rbind (calibration_exact_int (dict_at d ''confidence_bps'')) (\<lambda>confidence_bps.
           if 10000 < confidence_bps then invalid
           else rbind (check_identifier (dict_at d ''case_id'') 64) (\<lambda>case_id.
                Inr \<lparr>cp_case_id = case_id, cp_confidence_bps = confidence_bps\<rparr>)))"

definition positives :: "BenchmarkCase list \<Rightarrow> int" where
  "positives cs = int (length (filter bc_expected_acceptable cs))"

definition parse_corpus :: "py_env \<Rightarrow> bytes \<Rightarrow> pyexc + BenchmarkCorpus" where
  "parse_corpus E raw =
     rbind (parse_canonical_jsonl E raw MAX_CORPUS_BYTES) (\<lambda>lines.
     let header = hd lines
     in if \<not> has_keys [''schema_version'', ''evidence_kind'', ''authority'', ''disclaimer'', ''corpus_id''] header then invalid
        else rbind (calibration_exact_int (dict_at header ''schema_version'')) (\<lambda>version.
             if version \<noteq> CALIBRATION_SCHEMA_VERSION then invalid
             else if dict_at header ''evidence_kind'' \<noteq> PStr EVIDENCE_KIND \<or>
                     dict_at header ''authority'' \<noteq> PStr AUTHORITY \<or>
                     dict_at header ''disclaimer'' \<noteq> PStr NON_AUTHORITY_DISCLAIMER then invalid
             else rbind (check_identifier (dict_at header ''corpus_id'') 64) (\<lambda>corpus_id.
                  rbind (rmap parse_case (tl lines)) (\<lambda>cases.
                  let case_ids = map bc_case_id cases;
                      negative_count = int (length cases) - positives cases
                  in if \<not> (MIN_CASES \<le> int (length cases) \<and> int (length cases) \<le> MAX_CASES) then invalid
                     else if \<not> distinct case_ids \<or> case_ids \<noteq> sort case_ids then invalid
                     else if positives cases < MIN_CLASS_CASES \<or> negative_count < MIN_CLASS_CASES then invalid
                     else Inr \<lparr>co_corpus_id = corpus_id, co_cases = cases, co_sha256 = sha256_hex raw\<rparr>))))"

definition parse_predictions :: "py_env \<Rightarrow> bytes \<Rightarrow> BenchmarkCorpus \<Rightarrow> pyexc + PredictionSet" where
  "parse_predictions E raw corpus =
     rbind (parse_canonical_jsonl E raw MAX_PREDICTIONS_BYTES) (\<lambda>lines.
     let header = hd lines
     in if \<not> has_keys [''schema_version'', ''evaluation_mode'', ''corpus_sha256'', ''subject_id'', ''subject_sha256'',
                      ''prompt_sha256''] header then invalid
        else rbind (calibration_exact_int (dict_at header ''schema_version'')) (\<lambda>version.
             if version \<noteq> CALIBRATION_SCHEMA_VERSION then invalid
             else if dict_at header ''evaluation_mode'' \<notin> {PStr EVALUATION_MODE, PStr LOCAL_MODEL_EVALUATION_MODE} then invalid
             else rbind (lower_hex_32 (dict_at header ''corpus_sha256'')) (\<lambda>corpus_sha256.
                  if corpus_sha256 \<noteq> co_sha256 corpus then invalid
                  else rbind (subject_identifier (dict_at header ''subject_id'') 128) (\<lambda>subject_id.
                       rbind (nonzero_lower_hex_32 (dict_at header ''subject_sha256'')) (\<lambda>subject_sha256.
                       rbind (nonzero_lower_hex_32 (dict_at header ''prompt_sha256'')) (\<lambda>prompt_sha256.
                       rbind (rmap parse_prediction (tl lines)) (\<lambda>predictions.
                       if map cp_case_id predictions \<noteq> map bc_case_id (co_cases corpus) then invalid
                       else Inr \<lparr>ps_evaluation_mode = the_str (dict_at header ''evaluation_mode''),
                                 ps_corpus_sha256 = corpus_sha256, ps_subject_id = subject_id,
                                 ps_subject_sha256 = subject_sha256, ps_prompt_sha256 = prompt_sha256,
                                 ps_predictions = predictions, ps_sha256 = sha256_hex raw\<rparr>)))))))"

definition policy_constants :: "(string \<times> int) list" where
  "policy_constants =
     [(''schema_version'', CALIBRATION_SCHEMA_VERSION), (''threshold_bps'', SUBMISSION_THRESHOLD_BPS),
      (''calibration_bin_width_bps'', CALIBRATION_BIN_WIDTH_BPS), (''minimum_cases'', MIN_CASES),
      (''minimum_class_cases'', MIN_CLASS_CASES), (''minimum_precision_bps'', MIN_PRECISION_BPS),
      (''minimum_recall_bps'', MIN_RECALL_BPS), (''maximum_brier_score_ppm'', MAX_BRIER_PPM),
      (''maximum_expected_calibration_error_bps'', MAX_ECE_BPS)]"

text \<open>Every test of the policy raises the same error, so their order does not matter.\<close>

definition parse_policy :: "py_env \<Rightarrow> bytes \<Rightarrow> pyexc + GatePolicy" where
  "parse_policy E raw =
     rbind (parse_canonical_json E raw MAX_POLICY_BYTES) (\<lambda>d.
     if \<not> has_keys [''schema_version'', ''policy_id'', ''threshold_bps'', ''calibration_bin_width_bps'', ''minimum_cases'',
                   ''minimum_class_cases'', ''minimum_precision_bps'', ''minimum_recall_bps'',
                   ''maximum_brier_score_ppm'', ''maximum_expected_calibration_error_bps'', ''authority'', ''disclaimer''] d
     then invalid
     else if list_ex (\<lambda>(k, n). calibration_exact_int (dict_at d k) \<noteq> Inr n) policy_constants \<or>
             dict_at d ''policy_id'' \<noteq> plit ''guardian-confidence-development-gate-v1'' \<or>
             dict_at d ''authority'' \<noteq> PStr AUTHORITY \<or> dict_at d ''disclaimer'' \<noteq> PStr NON_AUTHORITY_DISCLAIMER
     then invalid
     else Inr \<lparr>gt_threshold_bps = SUBMISSION_THRESHOLD_BPS, gt_calibration_bin_width_bps = CALIBRATION_BIN_WIDTH_BPS,
               gt_minimum_cases = MIN_CASES, gt_minimum_class_cases = MIN_CLASS_CASES,
               gt_minimum_precision_bps = MIN_PRECISION_BPS, gt_minimum_recall_bps = MIN_RECALL_BPS,
               gt_maximum_brier_score_ppm = MAX_BRIER_PPM, gt_maximum_expected_calibration_error_bps = MAX_ECE_BPS,
               gt_sha256 = sha256_hex raw\<rparr>)"

definition parse_integrity_manifest :: "py_env \<Rightarrow> bytes \<Rightarrow> pyexc + IntegrityManifest" where
  "parse_integrity_manifest E raw =
     rbind (parse_canonical_json E raw MAX_MANIFEST_BYTES) (\<lambda>d.
     if \<not> has_keys [''schema_version'', ''evaluator_version'', ''corpus_sha256'', ''predictions_sha256'', ''policy_sha256'',
                   ''expected_report_sha256''] d then invalid
     else rbind (calibration_exact_int (dict_at d ''schema_version'')) (\<lambda>version.
          if version \<noteq> CALIBRATION_SCHEMA_VERSION \<or> dict_at d ''evaluator_version'' \<noteq> PStr EVALUATOR_VERSION then invalid
          else rbind (nonzero_lower_hex_32 (dict_at d ''corpus_sha256'')) (\<lambda>c.
               rbind (nonzero_lower_hex_32 (dict_at d ''predictions_sha256'')) (\<lambda>p.
               rbind (nonzero_lower_hex_32 (dict_at d ''policy_sha256'')) (\<lambda>g.
               rbind (nonzero_lower_hex_32 (dict_at d ''expected_report_sha256'')) (\<lambda>r.
               Inr \<lparr>im_corpus_sha256 = c, im_predictions_sha256 = p, im_policy_sha256 = g,
                    im_expected_report_sha256 = r\<rparr>))))))"

subsection \<open>Metrics\<close>

text \<open>\<open>(2 * numerator + denominator) // (2 * denominator)\<close>\<close>

definition round_ratio :: "int \<Rightarrow> int \<Rightarrow> pyexc + int" where
  "round_ratio numerator denominator =
     (if denominator \<le> 0 \<or> numerator < 0 then invalid
      else Inr ((2 * numerator + denominator) div (2 * denominator)))"

definition ratio_bps :: "int \<Rightarrow> int \<Rightarrow> pyexc + int option" where
  "ratio_bps numerator denominator =
     (if denominator = 0 then Inr None
      else rbind (round_ratio (numerator * 10000) denominator) (\<lambda>r. Inr (Some r)))"

record calibration_bin =
  cb_count :: int
  cb_positive_count :: int
  cb_confidence_sum_bps :: int

record tally =
  ty_true_positive :: int
  ty_false_positive :: int
  ty_true_negative :: int
  ty_false_negative :: int
  ty_squared_error_sum :: int
  ty_bins :: "calibration_bin list"

definition empty_bin :: calibration_bin where
  "empty_bin = \<lparr>cb_count = 0, cb_positive_count = 0, cb_confidence_sum_bps = 0\<rparr>"

definition empty_tally :: tally where
  "empty_tally =
     \<lparr>ty_true_positive = 0, ty_false_positive = 0, ty_true_negative = 0, ty_false_negative = 0,
      ty_squared_error_sum = 0, ty_bins = replicate CALIBRATION_BIN_COUNT empty_bin\<rparr>"

definition count_outcome :: "bool \<Rightarrow> bool \<Rightarrow> tally \<Rightarrow> tally" where
  "count_outcome expected predicted T =
     (if expected \<and> predicted then T\<lparr>ty_true_positive := ty_true_positive T + 1\<rparr>
      else if expected then T\<lparr>ty_false_negative := ty_false_negative T + 1\<rparr>
      else if predicted then T\<lparr>ty_false_positive := ty_false_positive T + 1\<rparr>
      else T\<lparr>ty_true_negative := ty_true_negative T + 1\<rparr>)"

definition bin_index :: "int \<Rightarrow> nat" where
  "bin_index confidence = nat (min (confidence div CALIBRATION_BIN_WIDTH_BPS) (int CALIBRATION_BIN_COUNT - 1))"

definition fill_bin :: "bool \<Rightarrow> int \<Rightarrow> calibration_bin \<Rightarrow> calibration_bin" where
  "fill_bin expected confidence b =
     \<lparr>cb_count = cb_count b + 1, cb_positive_count = cb_positive_count b + of_bool expected,
      cb_confidence_sum_bps = cb_confidence_sum_bps b + confidence\<rparr>"

definition target_bps :: "bool \<Rightarrow> int" where
  "target_bps expected = (if expected then 10000 else 0)"

fun tally_loop ::
  "int \<Rightarrow> (BenchmarkCase \<times> ConfidencePrediction) list \<Rightarrow> tally \<Rightarrow> pyexc + tally" where
  "tally_loop threshold [] T = Inr T"
| "tally_loop threshold ((c, p) # cps) T =
     (if bc_case_id c \<noteq> cp_case_id p then invalid
      else let expected = bc_expected_acceptable c;
               confidence = cp_confidence_bps p;
               T1 = count_outcome expected (threshold \<le> confidence) T;
               T2 = T1\<lparr>ty_squared_error_sum := ty_squared_error_sum T1 + (confidence - target_bps expected) ^ 2\<rparr>;
               i = bin_index confidence
           in tally_loop threshold cps
                (T2\<lparr>ty_bins := (ty_bins T2)[i := fill_bin expected confidence (ty_bins T2 ! i)]\<rparr>))"

record rendered_bin =
  rb_index :: nat
  rb_lower_bps :: int
  rb_upper_bps :: int
  rb_count :: int
  rb_positive_count :: int
  rb_mean_confidence_bps :: "int option"
  rb_observed_positive_bps :: "int option"
  rb_absolute_gap_bps :: "int option"
  rb_absolute_gap_sum_bps :: int

definition bin_gap :: "calibration_bin \<Rightarrow> int" where
  "bin_gap b = \<bar>cb_confidence_sum_bps b - cb_positive_count b * 10000\<bar>"

definition render_bin :: "nat \<Rightarrow> calibration_bin \<Rightarrow> pyexc + rendered_bin" where
  "render_bin index b =
     (let lower_bps = int index * CALIBRATION_BIN_WIDTH_BPS;
          upper_bps = (if index = CALIBRATION_BIN_COUNT - 1 then 10000 else lower_bps + CALIBRATION_BIN_WIDTH_BPS - 1)
      in rbind (if cb_count b = 0 then Inr (None, None, None)
                else rbind (round_ratio (cb_confidence_sum_bps b) (cb_count b)) (\<lambda>mean.
                     rbind (ratio_bps (cb_positive_count b) (cb_count b)) (\<lambda>observed.
                     rbind (round_ratio (bin_gap b) (cb_count b)) (\<lambda>gap.
                     Inr (Some mean, observed, Some gap))))) (\<lambda>(mean, observed, gap).
         Inr \<lparr>rb_index = index, rb_lower_bps = lower_bps, rb_upper_bps = upper_bps, rb_count = cb_count b,
              rb_positive_count = cb_positive_count b, rb_mean_confidence_bps = mean,
              rb_observed_positive_bps = observed, rb_absolute_gap_bps = gap, rb_absolute_gap_sum_bps = bin_gap b\<rparr>))"

text \<open>The aggregate skips the empty bins.\<close>

definition build_calibration_bins :: "calibration_bin list \<Rightarrow> int \<Rightarrow> pyexc + rendered_bin list \<times> int" where
  "build_calibration_bins bins sample_count =
     rbind (rmap (\<lambda>(index, b). render_bin index b) (List.enumerate 0 bins)) (\<lambda>output.
     rbind (round_ratio (\<Sum>b \<leftarrow> filter (\<lambda>b. cb_count b \<noteq> 0) bins. bin_gap b) sample_count) (\<lambda>ece.
     Inr (output, ece)))"

subsection \<open>The report\<close>

fun validate_pairs :: "(BenchmarkCase \<times> ConfidencePrediction) list \<Rightarrow> pyexc + unit" where
  "validate_pairs [] = Inr ()"
| "validate_pairs ((c, p) # cps) =
     rbind (check_identifier (PStr (bc_case_id c)) 64) (\<lambda>_.
     rbind (check_identifier (PStr (bc_category c)) 64) (\<lambda>_.
     rbind (bounded_ascii_text (PStr (bc_threat_description c)) 2048) (\<lambda>_.
     rbind (bounded_ascii_text (PStr (bc_yara_rule c)) 4096) (\<lambda>_.
     if \<not> (0 \<le> cp_confidence_bps p \<and> cp_confidence_bps p \<le> 10000) \<or> cp_case_id p \<noteq> bc_case_id c then invalid
     else validate_pairs cps))))"

definition policy_pinned :: "GatePolicy \<Rightarrow> bool" where
  "policy_pinned g \<longleftrightarrow>
     gt_threshold_bps g = SUBMISSION_THRESHOLD_BPS \<and> gt_calibration_bin_width_bps g = CALIBRATION_BIN_WIDTH_BPS \<and>
     gt_minimum_cases g = MIN_CASES \<and> gt_minimum_class_cases g = MIN_CLASS_CASES \<and>
     gt_minimum_precision_bps g = MIN_PRECISION_BPS \<and> gt_minimum_recall_bps g = MIN_RECALL_BPS \<and>
     gt_maximum_brier_score_ppm g = MAX_BRIER_PPM \<and> gt_maximum_expected_calibration_error_bps g = MAX_ECE_BPS"

definition validate_evaluation_inputs :: "BenchmarkCorpus \<Rightarrow> PredictionSet \<Rightarrow> GatePolicy \<Rightarrow> pyexc + unit" where
  "validate_evaluation_inputs corpus ps policy =
     (if lower_hex_32 (PStr (co_sha256 corpus)) \<noteq> Inr (ps_corpus_sha256 ps) \<or>
         lower_hex_32 (PStr (ps_sha256 ps)) \<noteq> Inr (ps_sha256 ps) \<or>
         nonzero_lower_hex_32 (PStr (ps_subject_sha256 ps)) \<noteq> Inr (ps_subject_sha256 ps) \<or>
         nonzero_lower_hex_32 (PStr (ps_prompt_sha256 ps)) \<noteq> Inr (ps_prompt_sha256 ps) \<or>
         ps_evaluation_mode ps \<notin> {EVALUATION_MODE, LOCAL_MODEL_EVALUATION_MODE} \<or>
         subject_identifier (PStr (ps_subject_id ps)) 128 \<noteq> Inr (ps_subject_id ps) \<or>
         \<not> policy_pinned policy \<or> lower_hex_32 (PStr (gt_sha256 policy)) \<noteq> Inr (gt_sha256 policy)
      then invalid
      else rbind (validate_pairs (zip (co_cases corpus) (ps_predictions ps))) (\<lambda>_.
           let pairs = zip (co_cases corpus) (ps_predictions ps);
               case_ids = map (\<lambda>(c, p). bc_case_id c) pairs;
               prediction_ids = map (\<lambda>(c, p). cp_case_id p) pairs
           in if case_ids \<noteq> sort case_ids \<or> \<not> distinct case_ids \<or> prediction_ids \<noteq> case_ids \<or>
                 positives (co_cases corpus) < MIN_CLASS_CASES \<or>
                 int (length (co_cases corpus)) - positives (co_cases corpus) < MIN_CLASS_CASES
              then invalid else Inr ()))"

definition checks :: "GatePolicy \<Rightarrow> int \<Rightarrow> tally \<Rightarrow> int \<Rightarrow> (string \<times> bool) list" where
  "checks g n T gap_sum =
     (let precision_denominator = ty_true_positive T + ty_false_positive T;
          recall_denominator = ty_true_positive T + ty_false_negative T
      in [(''minimum_sample_count'', gt_minimum_cases g \<le> n),
          (''minimum_class_count'',
             gt_minimum_class_cases g \<le> ty_true_positive T + ty_false_negative T \<and>
             gt_minimum_class_cases g \<le> ty_true_negative T + ty_false_positive T),
          (''minimum_precision'',
             0 < precision_denominator \<and>
             gt_minimum_precision_bps g * precision_denominator \<le> ty_true_positive T * 10000),
          (''minimum_recall'',
             0 < recall_denominator \<and> gt_minimum_recall_bps g * recall_denominator \<le> ty_true_positive T * 10000),
          (''maximum_brier_score'', ty_squared_error_sum T \<le> gt_maximum_brier_score_ppm g * n * 100),
          (''maximum_expected_calibration_error'',
             gap_sum \<le> gt_maximum_expected_calibration_error_bps g * n)])"

definition optional_int :: "int option \<Rightarrow> pyval" where
  "optional_int v = (case v of None \<Rightarrow> PNone | Some n \<Rightarrow> PInt n)"

definition items :: "(string \<times> pyval) list \<Rightarrow> pyval" where
  "items kvs = PDict (map (\<lambda>(k, v). (u k, v)) kvs)"

definition bin_items :: "rendered_bin \<Rightarrow> pyval" where
  "bin_items b = items
     [(''index'', PInt (int (rb_index b))), (''lower_bps'', PInt (rb_lower_bps b)), (''upper_bps'', PInt (rb_upper_bps b)),
      (''count'', PInt (rb_count b)), (''positive_count'', PInt (rb_positive_count b)),
      (''mean_confidence_bps'', optional_int (rb_mean_confidence_bps b)),
      (''observed_positive_bps'', optional_int (rb_observed_positive_bps b)),
      (''absolute_gap_bps'', optional_int (rb_absolute_gap_bps b)),
      (''absolute_gap_sum_bps'', PInt (rb_absolute_gap_sum_bps b))]"

definition metrics_items :: "tally \<Rightarrow> int \<Rightarrow> int \<Rightarrow> int option \<Rightarrow> int option \<Rightarrow> int \<Rightarrow> int \<Rightarrow> pyval" where
  "metrics_items T n gap_sum precision_bps recall_bps brier_ppm ece_bps = items
     [(''precision'', items [(''numerator'', PInt (ty_true_positive T)),
         (''denominator'', PInt (ty_true_positive T + ty_false_positive T)), (''bps'', optional_int precision_bps)]),
      (''recall'', items [(''numerator'', PInt (ty_true_positive T)),
         (''denominator'', PInt (ty_true_positive T + ty_false_negative T)), (''bps'', optional_int recall_bps)]),
      (''brier_score'', items [(''sum_squared_error_bps2'', PInt (ty_squared_error_sum T)), (''sample_count'', PInt n),
         (''ppm'', PInt brier_ppm)]),
      (''expected_calibration_error'', items [(''absolute_gap_sum_bps'', PInt gap_sum), (''sample_count'', PInt n),
         (''bps'', PInt ece_bps)])]"

definition evidence_class :: "pystr \<Rightarrow> pyexc + pystr \<times> pystr" where
  "evidence_class mode =
     (if mode = EVALUATION_MODE then Inr (u ''synthetic_ci_only'', NON_AUTHORITY_DISCLAIMER)
      else if mode = LOCAL_MODEL_EVALUATION_MODE
      then Inr (u ''local_model_candidate_only'', LOCAL_MODEL_NON_AUTHORITY_DISCLAIMER)
      else invalid)"

definition input_digest :: "BenchmarkCorpus \<Rightarrow> PredictionSet \<Rightarrow> GatePolicy \<Rightarrow> pystr" where
  "input_digest corpus ps policy =
     sha256_hex (EVALUATION_INPUT_DOMAIN @ bytes_fromhex (co_sha256 corpus) @ bytes_fromhex (ps_sha256 ps) @
                 bytes_fromhex (gt_sha256 policy))"

definition evaluate_confidence :: "BenchmarkCorpus \<Rightarrow> PredictionSet \<Rightarrow> GatePolicy \<Rightarrow> pyexc + (string \<times> pyval) list" where
  "evaluate_confidence corpus ps policy =
     (if ps_corpus_sha256 ps \<noteq> co_sha256 corpus then invalid
      else if length (co_cases corpus) \<noteq> length (ps_predictions ps) then invalid
      else rbind (validate_evaluation_inputs corpus ps policy) (\<lambda>_.
           rbind (evidence_class (ps_evaluation_mode ps)) (\<lambda>(evidence, disclaimer).
           rbind (tally_loop (gt_threshold_bps policy) (zip (co_cases corpus) (ps_predictions ps)) empty_tally) (\<lambda>T.
           let sample_count = int (length (co_cases corpus))
           in rbind (ratio_bps (ty_true_positive T) (ty_true_positive T + ty_false_positive T)) (\<lambda>precision_bps.
              rbind (ratio_bps (ty_true_positive T) (ty_true_positive T + ty_false_negative T)) (\<lambda>recall_bps.
              rbind (round_ratio (ty_squared_error_sum T) (sample_count * 100)) (\<lambda>brier_ppm.
              rbind (build_calibration_bins (ty_bins T) sample_count) (\<lambda>(calibration_bins, ece_bps).
              let gap_sum = (\<Sum>b \<leftarrow> calibration_bins. rb_absolute_gap_sum_bps b);
                  results = checks policy sample_count T gap_sum
              in Inr
                [(''schema_version'', PInt CALIBRATION_SCHEMA_VERSION), (''evaluator_version'', PStr EVALUATOR_VERSION),
                 (''evidence_class'', PStr evidence), (''production_authorized'', PBool False),
                 (''disclaimer'', PStr disclaimer), (''corpus_id'', PStr (co_corpus_id corpus)),
                 (''corpus_sha256'', PStr (co_sha256 corpus)), (''predictions_sha256'', PStr (ps_sha256 ps)),
                 (''policy_sha256'', PStr (gt_sha256 policy)),
                 (''evaluation_input_digest'', PStr (input_digest corpus ps policy)),
                 (''evaluation_mode'', PStr (ps_evaluation_mode ps)), (''subject_id'', PStr (ps_subject_id ps)),
                 (''subject_sha256'', PStr (ps_subject_sha256 ps)), (''prompt_sha256'', PStr (ps_prompt_sha256 ps)),
                 (''sample_count'', PInt sample_count), (''threshold_bps'', PInt (gt_threshold_bps policy)),
                 (''confusion_matrix'', items
                    [(''true_positive'', PInt (ty_true_positive T)), (''false_positive'', PInt (ty_false_positive T)),
                     (''true_negative'', PInt (ty_true_negative T)), (''false_negative'', PInt (ty_false_negative T))]),
                 (''metrics'', metrics_items T sample_count gap_sum precision_bps recall_bps brier_ppm ece_bps),
                 (''calibration_bins'', PList (map bin_items calibration_bins)),
                 (''policy'', items
                    [(''minimum_cases'', PInt (gt_minimum_cases policy)),
                     (''minimum_class_cases'', PInt (gt_minimum_class_cases policy)),
                     (''minimum_precision_bps'', PInt (gt_minimum_precision_bps policy)),
                     (''minimum_recall_bps'', PInt (gt_minimum_recall_bps policy)),
                     (''maximum_brier_score_ppm'', PInt (gt_maximum_brier_score_ppm policy)),
                     (''maximum_expected_calibration_error_bps'',
                        PInt (gt_maximum_expected_calibration_error_bps policy))]),
                 (''checks'', items (map (\<lambda>(k, b). (k, PBool b)) results)),
                 (''gate_pass'', PBool (list_all snd results))])))))))) "

definition canonical_report_bytes :: "(string \<times> pyval) list \<Rightarrow> bytes" where
  "canonical_report_bytes report = ascii_json (items report) @ [10]"

definition evaluate_candidate_set :: "py_env \<Rightarrow> bytes \<Rightarrow> bytes \<Rightarrow> bytes \<Rightarrow> pyexc + bytes" where
  "evaluate_candidate_set E corpus_bytes predictions_bytes policy_bytes =
     rbind (parse_corpus E corpus_bytes) (\<lambda>corpus.
     rbind (parse_predictions E predictions_bytes corpus) (\<lambda>predictions.
     if ps_evaluation_mode predictions \<noteq> LOCAL_MODEL_EVALUATION_MODE \<or>
        ps_prompt_sha256 predictions \<noteq> PINNED_LOCAL_MODEL_PROMPT_SHA256 then invalid
     else rbind (parse_policy E policy_bytes) (\<lambda>policy.
          rbind (evaluate_confidence corpus predictions policy) (\<lambda>report. Inr (canonical_report_bytes report)))))"

text \<open>The second comparison decodes the bytes that the first one found equal.\<close>

definition verify_fixture_set :: "py_env \<Rightarrow> bytes \<Rightarrow> bytes \<Rightarrow> bytes \<Rightarrow> bytes \<Rightarrow> bytes \<Rightarrow> pyexc + bytes" where
  "verify_fixture_set E corpus_bytes predictions_bytes policy_bytes expected_report_bytes manifest_bytes =
     rbind (parse_corpus E corpus_bytes) (\<lambda>corpus.
     rbind (parse_predictions E predictions_bytes corpus) (\<lambda>predictions.
     rbind (parse_policy E policy_bytes) (\<lambda>policy.
     rbind (parse_integrity_manifest E manifest_bytes) (\<lambda>manifest.
     if im_corpus_sha256 manifest \<noteq> co_sha256 corpus \<or> im_predictions_sha256 manifest \<noteq> ps_sha256 predictions \<or>
        im_policy_sha256 manifest \<noteq> gt_sha256 policy \<or>
        im_expected_report_sha256 manifest \<noteq> sha256_hex expected_report_bytes then invalid
     else rbind (parse_canonical_json E expected_report_bytes MAX_REPORT_BYTES) (\<lambda>expected_report.
          rbind (evaluate_confidence corpus predictions policy) (\<lambda>report.
          let reproduced = canonical_report_bytes report
          in if reproduced \<noteq> expected_report_bytes then invalid
             else rbind (loads_ascii E JSONDecodeError reproduced) (\<lambda>value.
                  if PDict expected_report \<noteq> value then invalid else Inr reproduced)))))))"

text \<open>\<open>_read_bounded\<close>: \<open>None\<close> is a path that is no regular file or an \<open>OSError\<close>.\<close>

definition read_bounded :: "(nat \<times> bytes) option \<Rightarrow> nat \<Rightarrow> pyexc + bytes" where
  "read_bounded file maximum_bytes =
     (case file of
        None \<Rightarrow> invalid
      | Some (file_size, raw) \<Rightarrow> (if maximum_bytes < file_size \<or> maximum_bytes < length raw then invalid else Inr raw))"

text \<open>The exit status of \<open>_main\<close> with its output; an exception that is not caught is a value of the left.\<close>

definition gate_status :: "py_env \<Rightarrow> bytes \<Rightarrow> pyexc + int \<times> bytes" where
  "gate_status E report =
     rbind (loads_ascii E JSONDecodeError report) (\<lambda>value.
     case value of
       PDict d \<Rightarrow> Inr (if dict_at d ''gate_pass'' = PBool True then 0 else 1, report)
     | _ \<Rightarrow> Inl TypeError)"

definition calibration_main ::
  "py_env \<Rightarrow> bool \<Rightarrow> (nat \<times> bytes) option \<Rightarrow> (nat \<times> bytes) option \<Rightarrow> (nat \<times> bytes) option \<Rightarrow>
     (nat \<times> bytes) option option \<Rightarrow> (nat \<times> bytes) option option \<Rightarrow> pyexc + int \<times> bytes" where
  "calibration_main E candidate corpus predictions policy expected_report manifest =
     (case rbind (read_bounded corpus MAX_CORPUS_BYTES) (\<lambda>corpus_bytes.
           rbind (read_bounded predictions MAX_PREDICTIONS_BYTES) (\<lambda>predictions_bytes.
           rbind (read_bounded policy MAX_POLICY_BYTES) (\<lambda>policy_bytes.
           if candidate then
             (if expected_report \<noteq> None \<or> manifest \<noteq> None then invalid
              else evaluate_candidate_set E corpus_bytes predictions_bytes policy_bytes)
           else case (expected_report, manifest) of
                  (Some report_file, Some manifest_file) \<Rightarrow>
                    rbind (read_bounded report_file MAX_REPORT_BYTES) (\<lambda>report_bytes.
                    rbind (read_bounded manifest_file MAX_MANIFEST_BYTES) (\<lambda>manifest_bytes.
                    verify_fixture_set E corpus_bytes predictions_bytes policy_bytes report_bytes manifest_bytes))
                | _ \<Rightarrow> invalid))) of
        Inl e \<Rightarrow> if e = ConfidenceEvaluationError then Inr (2, []) else Inl e
      | Inr report \<Rightarrow> gate_status E report)"

subsection \<open>Rounding\<close>

text \<open>The rounded ratio is a nearest integer, halves up.\<close>

lemma round_ratio_nearest:
  assumes "round_ratio n d = Inr r"
  shows "2 * n - d < 2 * (r * d)" "2 * (r * d) \<le> 2 * n + d" "0 \<le> r"
proof -
  have d: "0 < d" "0 \<le> n" and r: "r = (2 * n + d) div (2 * d)"
    using assms by (auto simp: round_ratio_def split: if_splits)
  have "(2 * n + d) mod (2 * d) < 2 * d" "0 \<le> (2 * n + d) mod (2 * d)" using d by simp_all
  moreover have "2 * d * r + (2 * n + d) mod (2 * d) = 2 * n + d" unfolding r by simp
  ultimately show "2 * n - d < 2 * (r * d)" "2 * (r * d) \<le> 2 * n + d" by (simp_all add: algebra_simps)
  show "0 \<le> r" using d by (simp add: r pos_imp_zdiv_nonneg_iff)
qed

lemma round_ratio_ok: "0 \<le> n \<Longrightarrow> 0 < d \<Longrightarrow> \<exists>r. round_ratio n d = Inr r"
  by (simp add: round_ratio_def)

lemma ratio_bps_ok: "0 \<le> n \<Longrightarrow> 0 \<le> d \<Longrightarrow> \<exists>r. ratio_bps n d = Inr r"
  using round_ratio_ok [of "n * 10000" d] by (auto simp: ratio_bps_def)

subsection \<open>The loop computes the confusion matrix, the squared error and the bins\<close>

abbreviation outcome :: "BenchmarkCase \<times> ConfidencePrediction \<Rightarrow> bool" where
  "outcome cp \<equiv> bc_expected_acceptable (fst cp)"

abbreviation confidence :: "BenchmarkCase \<times> ConfidencePrediction \<Rightarrow> int" where
  "confidence cp \<equiv> cp_confidence_bps (snd cp)"

definition number :: "('a \<Rightarrow> bool) \<Rightarrow> 'a list \<Rightarrow> int" where
  "number P xs = int (length (filter P xs))"

lemma number_snoc [simp]: "number P (xs @ [x]) = number P xs + of_bool (P x)" "number P [] = 0"
  and number_nonneg [simp]: "0 \<le> number P xs"
  by (simp_all add: number_def)

definition bin_of :: "(BenchmarkCase \<times> ConfidencePrediction) list \<Rightarrow> calibration_bin" where
  "bin_of cps =
     \<lparr>cb_count = int (length cps), cb_positive_count = number outcome cps,
      cb_confidence_sum_bps = (\<Sum>cp \<leftarrow> cps. confidence cp)\<rparr>"

definition in_bin :: "nat \<Rightarrow> (BenchmarkCase \<times> ConfidencePrediction) list \<Rightarrow> (BenchmarkCase \<times> ConfidencePrediction) list" where
  "in_bin i cps = filter (\<lambda>cp. bin_index (confidence cp) = i) cps"

definition tally_of :: "int \<Rightarrow> (BenchmarkCase \<times> ConfidencePrediction) list \<Rightarrow> tally" where
  "tally_of threshold cps =
     \<lparr>ty_true_positive = number (\<lambda>cp. outcome cp \<and> threshold \<le> confidence cp) cps,
      ty_false_positive = number (\<lambda>cp. \<not> outcome cp \<and> threshold \<le> confidence cp) cps,
      ty_true_negative = number (\<lambda>cp. \<not> outcome cp \<and> \<not> threshold \<le> confidence cp) cps,
      ty_false_negative = number (\<lambda>cp. outcome cp \<and> \<not> threshold \<le> confidence cp) cps,
      ty_squared_error_sum = (\<Sum>cp \<leftarrow> cps. (confidence cp - target_bps (outcome cp)) ^ 2),
      ty_bins = map (\<lambda>i. bin_of (in_bin i cps)) [0..<CALIBRATION_BIN_COUNT]\<rparr>"

definition pair_ok :: "BenchmarkCase \<times> ConfidencePrediction \<Rightarrow> bool" where
  "pair_ok cp \<longleftrightarrow> bc_case_id (fst cp) = cp_case_id (snd cp) \<and> 0 \<le> confidence cp \<and> confidence cp \<le> 10000"

lemma bin_index_bound: "0 \<le> c \<Longrightarrow> bin_index c < CALIBRATION_BIN_COUNT"
  by (simp add: bin_index_def CALIBRATION_BIN_COUNT_def CALIBRATION_BIN_WIDTH_BPS_def nat_less_iff)

lemma bin_of_snoc: "bin_of (cps @ [cp]) = fill_bin (outcome cp) (confidence cp) (bin_of cps)"
  by (simp add: bin_of_def fill_bin_def)

lemma tally_of_snoc_bins:
  assumes "0 \<le> confidence cp"
  shows "map (\<lambda>i. bin_of (in_bin i (cps @ [cp]))) [0..<CALIBRATION_BIN_COUNT] =
    (map (\<lambda>i. bin_of (in_bin i cps)) [0..<CALIBRATION_BIN_COUNT])
      [bin_index (confidence cp) := fill_bin (outcome cp) (confidence cp) (bin_of (in_bin (bin_index (confidence cp)) cps))]"
  using bin_index_bound [OF assms]
  by (intro nth_equalityI) (auto simp: nth_list_update in_bin_def bin_of_snoc)

lemma tally_loop_spec:
  assumes "list_all pair_ok cps"
  shows "tally_loop threshold cps (tally_of threshold done) = Inr (tally_of threshold (done @ cps))"
  using assms
proof (induction cps arbitrary: "done")
  case (Cons cp cps)
  obtain c p where cp: "cp = (c, p)" by (cases cp)
  have ok: "bc_case_id c = cp_case_id p" "0 \<le> cp_confidence_bps p" using Cons.prems by (simp_all add: cp pair_ok_def)
  let ?i = "bin_index (cp_confidence_bps p)"
  have nth: "map (\<lambda>i. bin_of (in_bin i done)) [0..<CALIBRATION_BIN_COUNT] ! ?i = bin_of (in_bin ?i done)"
    using bin_index_bound [OF ok(2)] by simp
  have "tally_loop threshold (cp # cps) (tally_of threshold done) =
      tally_loop threshold cps (tally_of threshold (done @ [cp]))"
    using tally_of_snoc_bins [of cp "done"] ok nth
    by (simp add: cp Let_def count_outcome_def tally_of_def)
  then show ?case using Cons by (simp add: cp)
qed simp

lemma tally_of_empty: "tally_of threshold [] = empty_tally"
  by (simp add: tally_of_def empty_tally_def in_bin_def bin_of_def empty_bin_def map_replicate_const)

lemma tally_of_sums:
  fixes threshold cps
  shows "ty_true_positive (tally_of threshold cps) + ty_false_negative (tally_of threshold cps) = number outcome cps"
    "ty_true_negative (tally_of threshold cps) + ty_false_positive (tally_of threshold cps) =
       number (\<lambda>cp. \<not> outcome cp) cps"
    "number outcome cps + number (\<lambda>cp. \<not> outcome cp) cps = int (length cps)"
    "0 \<le> ty_true_positive (tally_of threshold cps)" "0 \<le> ty_false_positive (tally_of threshold cps)"
    "0 \<le> ty_true_negative (tally_of threshold cps)" "0 \<le> ty_false_negative (tally_of threshold cps)"
    "0 \<le> ty_squared_error_sum (tally_of threshold cps)"
  unfolding tally_of_def number_def
  by (induction cps) (auto simp: sum_list_nonneg)

end
