(* ===== verification/Calibration_Gate.thy ===== *)
theory Calibration_Gate
  imports Confidence_Calibration
begin

text \<open>
  What the calibration gate of \<open>jaeger/confidence_calibration.py\<close> decides, stated over the real numbers, and that
  its integer arithmetic decides exactly that.
\<close>

subsection \<open>What the gate means\<close>

text \<open>The metrics over the real numbers: predicted probabilities against labels. A bin of the calibration error holds the
  predictions of one tenth of the unit interval, the last one with its upper end.\<close>

definition probability :: "BenchmarkCase \<times> ConfidencePrediction \<Rightarrow> real" where
  "probability cp = of_int (confidence cp) / 10000"

definition brier_score :: "(BenchmarkCase \<times> ConfidencePrediction) list \<Rightarrow> real" where
  "brier_score cps = (\<Sum>cp \<leftarrow> cps. (probability cp - of_bool (outcome cp)) ^ 2) / real (length cps)"

definition tenth :: "nat \<Rightarrow> (BenchmarkCase \<times> ConfidencePrediction) list \<Rightarrow> (BenchmarkCase \<times> ConfidencePrediction) list" where
  "tenth i cps = filter (\<lambda>cp. real i / 10 \<le> probability cp \<and> (probability cp < real (i + 1) / 10 \<or> i = 9)) cps"

definition calibration_error :: "(BenchmarkCase \<times> ConfidencePrediction) list \<Rightarrow> real" where
  "calibration_error cps =
     (\<Sum>i \<leftarrow> [0..<10]. real (length (tenth i cps)) / real (length cps) *
        \<bar>(\<Sum>cp \<leftarrow> tenth i cps. probability cp) / real (length (tenth i cps)) -
         of_int (number outcome (tenth i cps)) / real (length (tenth i cps))\<bar>)"

definition gate_spec :: "(BenchmarkCase \<times> ConfidencePrediction) list \<Rightarrow> bool" where
  "gate_spec cps \<longleftrightarrow>
     (let hits = number (\<lambda>cp. outcome cp \<and> 85 / 100 \<le> probability cp) cps;
          predicted = number (\<lambda>cp. 85 / 100 \<le> probability cp) cps
      in 20 \<le> length cps \<and> 8 \<le> number outcome cps \<and> 8 \<le> number (\<lambda>cp. \<not> outcome cp) cps \<and>
         0 < predicted \<and> 90 / 100 \<le> real_of_int hits / of_int predicted \<and>
         80 / 100 \<le> real_of_int hits / of_int (number outcome cps) \<and>
         brier_score cps \<le> 15 / 100 \<and> calibration_error cps \<le> 10 / 100)"

lemma threshold_probability: "85 / 100 \<le> probability cp \<longleftrightarrow> SUBMISSION_THRESHOLD_BPS \<le> confidence cp"
  by (simp add: probability_def SUBMISSION_THRESHOLD_BPS_def field_simps)

lemma brier_squares:
  "(\<Sum>cp \<leftarrow> cps. (probability cp - of_bool (outcome cp)) ^ 2) =
     of_int (\<Sum>cp \<leftarrow> cps. (confidence cp - target_bps (outcome cp)) ^ 2) / 100000000"
  by (induction cps) (auto simp: probability_def target_bps_def power2_eq_square field_simps)

lemma brier_iff:
  assumes "cps \<noteq> []"
  shows "brier_score cps \<le> 15 / 100 \<longleftrightarrow>
    (\<Sum>cp \<leftarrow> cps. (confidence cp - target_bps (outcome cp)) ^ 2) \<le> MAX_BRIER_PPM * int (length cps) * 100"
proof -
  let ?S = "\<Sum>cp \<leftarrow> cps. (confidence cp - target_bps (outcome cp)) ^ 2"
  have "0 < real (length cps)" using assms by simp
  then have "brier_score cps \<le> 15 / 100 \<longleftrightarrow> real_of_int ?S \<le> real_of_int (15000000 * int (length cps))"
    unfolding brier_score_def brier_squares by (simp add: field_simps)
  then show ?thesis unfolding of_int_le_iff by (simp add: MAX_BRIER_PPM_def)
qed

lemma bin_index_iff:
  assumes "0 \<le> c" and "c \<le> 10000" and "i < 10"
  shows "bin_index c = i \<longleftrightarrow> int i * 1000 \<le> c \<and> (c < (int i + 1) * 1000 \<or> i = 9)"
proof -
  define q where "q = c div 1000"
  have q: "q * 1000 \<le> c" "c < (q + 1) * 1000" "0 \<le> q"
    using assms(1) by (simp_all add: q_def pos_imp_zdiv_nonneg_iff)
  have le_q: "k \<le> q \<longleftrightarrow> k * 1000 \<le> c" for k
  proof
    assume "k * 1000 \<le> c"
    then have "k * 1000 < (q + 1) * 1000" using q(2) by simp
    then show "k \<le> q" by simp
  qed (use q(1) in simp)
  have "bin_index c = i \<longleftrightarrow> min q 9 = int i"
    using q(3) by (auto simp: bin_index_def q_def CALIBRATION_BIN_WIDTH_BPS_def CALIBRATION_BIN_COUNT_def)
  also have "\<dots> \<longleftrightarrow> int i \<le> q \<and> (q < int i + 1 \<or> i = 9)" using assms(3) by linarith
  also have "\<dots> \<longleftrightarrow> int i * 1000 \<le> c \<and> (c < (int i + 1) * 1000 \<or> i = 9)"
    using le_q [of "int i"] le_q [of "int i + 1"] by auto
  finally show ?thesis .
qed

lemma tenth_iff:
  assumes "0 \<le> confidence cp" and "confidence cp \<le> 10000" and "i < 10"
  shows "bin_index (confidence cp) = i \<longleftrightarrow>
    real i / 10 \<le> probability cp \<and> (probability cp < real (i + 1) / 10 \<or> i = 9)"
proof -
  have "real i / 10 \<le> probability cp \<longleftrightarrow> real_of_int (int i * 1000) \<le> real_of_int (confidence cp)"
    and "probability cp < real (i + 1) / 10 \<longleftrightarrow> real_of_int (confidence cp) < real_of_int ((int i + 1) * 1000)"
    by (simp_all add: probability_def field_simps)
  then show ?thesis unfolding of_int_le_iff of_int_less_iff using bin_index_iff [OF assms] by simp
qed

lemma in_bin_tenth:
  assumes "list_all pair_ok cps" and "i < 10"
  shows "in_bin i cps = tenth i cps"
  unfolding in_bin_def tenth_def
proof (rule filter_cong [OF refl])
  fix cp assume "cp \<in> set cps"
  then have "0 \<le> confidence cp" "confidence cp \<le> 10000"
    using assms(1) by (auto simp: pair_ok_def list_all_iff)
  then show "bin_index (confidence cp) = i \<longleftrightarrow>
      real i / 10 \<le> probability cp \<and> (probability cp < real (i + 1) / 10 \<or> i = 9)"
    using assms(2) by (rule tenth_iff)
qed

lemma sum_probability: "(\<Sum>cp \<leftarrow> cps. probability cp) = of_int (\<Sum>cp \<leftarrow> cps. confidence cp) / 10000"
  by (induction cps) (simp_all add: probability_def field_simps)

lemma bin_term:
  "real (length ds) / n * \<bar>(\<Sum>cp \<leftarrow> ds. probability cp) / real (length ds) - of_int (number outcome ds) / real (length ds)\<bar> =
     of_int (bin_gap (bin_of ds)) / (10000 * n)"
proof (cases "ds = []")
  case False
  then have "real (length ds) * \<bar>(\<Sum>cp \<leftarrow> ds. probability cp) / real (length ds) - of_int (number outcome ds) / real (length ds)\<bar> =
      \<bar>(\<Sum>cp \<leftarrow> ds. probability cp) - of_int (number outcome ds)\<bar>"
    by (simp flip: diff_divide_distrib)
  also have "\<dots> = of_int (bin_gap (bin_of ds)) / 10000"
  proof -
    have "\<bar>x / 10000 - y\<bar> = \<bar>x - y * 10000\<bar> / 10000" for x y :: real by (simp add: abs_if field_simps)
    then show ?thesis unfolding sum_probability by (simp only: bin_gap_def bin_of_def) simp
  qed
  finally have "real (length ds) * \<bar>(\<Sum>cp \<leftarrow> ds. probability cp) / real (length ds) - of_int (number outcome ds) / real (length ds)\<bar> =
      of_int (bin_gap (bin_of ds)) / 10000" .
  then show ?thesis unfolding times_divide_eq_left by (simp only: divide_divide_eq_left)
qed (simp add: bin_gap_def bin_of_def)

lemma sum_list_scaled: "(\<Sum>x \<leftarrow> xs. real_of_int (f x) / c) = of_int (\<Sum>x \<leftarrow> xs. f x) / c"
  by (induction xs) (simp_all add: add_divide_distrib)

lemma calibration_error_eq:
  assumes "list_all pair_ok cps"
  shows "calibration_error cps = of_int (\<Sum>b \<leftarrow> ty_bins (tally_of t cps). bin_gap b) / (10000 * real (length cps))"
proof -
  have "calibration_error cps = (\<Sum>i \<leftarrow> [0..<10]. of_int (bin_gap (bin_of (in_bin i cps))) / (10000 * real (length cps)))"
    unfolding calibration_error_def bin_term
    by (intro arg_cong [where f = sum_list] map_cong) (simp_all add: in_bin_tenth [OF assms])
  also have "\<dots> = of_int (\<Sum>i \<leftarrow> [0..<10]. bin_gap (bin_of (in_bin i cps))) / (10000 * real (length cps))"
    by (rule sum_list_scaled)
  finally show ?thesis by (simp add: tally_of_def CALIBRATION_BIN_COUNT_def comp_def)
qed

lemma round_gate_ece:
  assumes "list_all pair_ok cps" and "cps \<noteq> []"
  shows "calibration_error cps \<le> 10 / 100 \<longleftrightarrow>
    (\<Sum>b \<leftarrow> ty_bins (tally_of t cps). bin_gap b) \<le> MAX_ECE_BPS * int (length cps)"
proof -
  let ?S = "\<Sum>b \<leftarrow> ty_bins (tally_of t cps). bin_gap b"
  have "0 < real (length cps)" using assms(2) by simp
  then have "calibration_error cps \<le> 10 / 100 \<longleftrightarrow> real_of_int ?S \<le> real_of_int (1000 * int (length cps))"
    unfolding calibration_error_eq [OF assms(1), of t] by (simp add: field_simps)
  then show ?thesis unfolding of_int_le_iff by (simp add: MAX_ECE_BPS_def)
qed

lemma ratio_iff:
  assumes "0 < (d :: int)"
  shows "real_of_int k / 100 \<le> of_int a / of_int d \<longleftrightarrow> k * 100 * d \<le> a * 10000"
proof -
  have "real_of_int k / 100 \<le> of_int a / of_int d \<longleftrightarrow> real_of_int (k * d) \<le> real_of_int (100 * a)"
    using assms by (simp add: field_simps)
  then show ?thesis unfolding of_int_le_iff by (auto simp: mult.commute)
qed

subsection \<open>The evaluation\<close>

lemma validate_pairs_ok: "validate_pairs cps = Inr () \<Longrightarrow> list_all pair_ok cps"
  by (induction cps rule: validate_pairs.induct) (auto simp: pair_ok_def rbind_eq_Inr split: if_splits)

lemma number_zip_fst:
  "length cs = length ps \<Longrightarrow> number (\<lambda>cp. P (fst cp)) (zip cs ps) = number P cs"
  by (induction cs ps rule: list_induct2) (simp_all add: number_def)

lemma bin_of_fields [simp]:
  "cb_count (bin_of cps) = int (length cps)" "cb_positive_count (bin_of cps) = number outcome cps"
  "cb_confidence_sum_bps (bin_of cps) = (\<Sum>cp \<leftarrow> cps. confidence cp)"
  by (simp_all add: bin_of_def)

lemma bin_gap_nonneg: "0 \<le> bin_gap b"
  by (simp add: bin_gap_def)

lemma render_bin_ok:
  assumes "list_all pair_ok cps"
  shows "\<exists>r. render_bin i (bin_of cps) = Inr r \<and> rb_absolute_gap_sum_bps r = bin_gap (bin_of cps)"
proof (cases "cps = []")
  case True
  then show ?thesis by (simp add: render_bin_def Let_def)
next
  case False
  then have n: "0 < int (length cps)" by simp
  have "0 \<le> (\<Sum>cp \<leftarrow> cps. confidence cp)"
    using assms by (intro sum_list_nonneg) (auto simp: pair_ok_def list_all_iff)
  then obtain m where "round_ratio (\<Sum>cp \<leftarrow> cps. confidence cp) (int (length cps)) = Inr m"
    using round_ratio_ok n by blast
  moreover obtain p where "ratio_bps (number outcome cps) (int (length cps)) = Inr p"
    using ratio_bps_ok [of "number outcome cps" "int (length cps)"] by auto
  moreover obtain g where "round_ratio (bin_gap (bin_of cps)) (int (length cps)) = Inr g"
    using round_ratio_ok [OF bin_gap_nonneg n] by blast
  ultimately show ?thesis using False by (simp add: render_bin_def Let_def)
qed

lemma build_bins_ok:
  assumes "list_all pair_ok cps" and "cps \<noteq> []"
  shows "\<exists>rbs ece. build_calibration_bins (ty_bins (tally_of t cps)) (int (length cps)) = Inr (rbs, ece) \<and>
    (\<Sum>b \<leftarrow> rbs. rb_absolute_gap_sum_bps b) = (\<Sum>b \<leftarrow> ty_bins (tally_of t cps). bin_gap b)"
proof -
  let ?bins = "ty_bins (tally_of t cps)"
  have "\<exists>rb. render_bin i b = Inr rb \<and> rb_absolute_gap_sum_bps rb = bin_gap b" if "(i, b) \<in> set (List.enumerate 0 ?bins)" for i b
  proof -
    have "b = bin_of (in_bin i cps)" using that by (auto simp: tally_of_def in_set_enumerate_eq)
    moreover have "list_all pair_ok (in_bin i cps)" using assms(1) by (simp add: in_bin_def list_all_iff)
    ultimately show ?thesis using render_bin_ok by simp
  qed
  then obtain f where f: "\<And>i b. (i, b) \<in> set (List.enumerate 0 ?bins) \<Longrightarrow>
      render_bin i b = Inr (f i b) \<and> rb_absolute_gap_sum_bps (f i b) = bin_gap b" by metis
  have "rmap (\<lambda>(i, b). render_bin i b) (List.enumerate 0 ?bins) = Inr (map (\<lambda>(i, b). f i b) (List.enumerate 0 ?bins))"
    using f by (intro rmap_total) auto
  moreover have "(\<Sum>b \<leftarrow> map (\<lambda>(i, b). f i b) (List.enumerate 0 ?bins). rb_absolute_gap_sum_bps b) = (\<Sum>b \<leftarrow> ?bins. bin_gap b)"
  proof -
    have "map (\<lambda>b. rb_absolute_gap_sum_bps b) (map (\<lambda>(i, b). f i b) (List.enumerate 0 ?bins)) =
        map (\<lambda>(i, b). bin_gap b) (List.enumerate 0 ?bins)"
      using f by auto
    also have "\<dots> = map bin_gap (map snd (List.enumerate 0 ?bins))"
      by (simp only: map_map comp_def case_prod_unfold)
    finally show ?thesis by simp
  qed
  moreover obtain ece where "round_ratio (\<Sum>b \<leftarrow> filter (\<lambda>b. cb_count b \<noteq> 0) ?bins. bin_gap b) (int (length cps)) = Inr ece"
  proof -
    have "0 \<le> (\<Sum>b \<leftarrow> filter (\<lambda>b. cb_count b \<noteq> 0) ?bins. bin_gap b)" by (intro sum_list_nonneg) (auto simp: bin_gap_nonneg)
    then show ?thesis using that round_ratio_ok assms(2) by (metis length_greater_0_conv of_nat_0_less_iff)
  qed
  ultimately show ?thesis by (simp add: build_calibration_bins_def)
qed

lemma checks_spec:
  assumes "list_all pair_ok cps" and "cps \<noteq> []" and "policy_pinned g"
  shows "list_all snd (checks g (int (length cps)) (tally_of (gt_threshold_bps g) cps)
      (\<Sum>b \<leftarrow> ty_bins (tally_of (gt_threshold_bps g) cps). bin_gap b)) \<longleftrightarrow> gate_spec cps"
proof -
  let ?t = "SUBMISSION_THRESHOLD_BPS"
  let ?T = "tally_of ?t cps"
  let ?hits = "number (\<lambda>cp. outcome cp \<and> ?t \<le> confidence cp) cps"
  let ?pred = "number (\<lambda>cp. ?t \<le> confidence cp) cps"
  have pred: "ty_true_positive ?T + ty_false_positive ?T = ?pred"
    unfolding tally_of_def number_def by (induction cps) auto
  have hits: "ty_true_positive ?T = ?hits" by (simp add: tally_of_def)
  have brier: "ty_squared_error_sum ?T = (\<Sum>cp \<leftarrow> cps. (confidence cp - target_bps (outcome cp)) ^ 2)"
    by (simp add: tally_of_def)
  have pin: "gt_threshold_bps g = ?t" "gt_minimum_cases g = 20" "gt_minimum_class_cases g = 8"
    "gt_minimum_precision_bps g = 90 * 100" "gt_minimum_recall_bps g = 80 * 100"
    "gt_maximum_brier_score_ppm g = MAX_BRIER_PPM" "gt_maximum_expected_calibration_error_bps g = MAX_ECE_BPS"
    using assms(3) by (simp_all add: policy_pinned_def MIN_CASES_def MIN_CLASS_CASES_def MIN_PRECISION_BPS_def MIN_RECALL_BPS_def)
  have prec: "(0 < ?pred \<and> 90 * 100 * ?pred \<le> ?hits * 10000) \<longleftrightarrow> (0 < ?pred \<and> 90 / 100 \<le> real_of_int ?hits / of_int ?pred)"
    using ratio_iff [of ?pred 90 ?hits] by auto
  have rec: "(8 \<le> number outcome cps \<and> 80 * 100 * number outcome cps \<le> ?hits * 10000) \<longleftrightarrow>
      (8 \<le> number outcome cps \<and> 80 / 100 \<le> real_of_int ?hits / of_int (number outcome cps))"
    using ratio_iff [of "number outcome cps" 80 ?hits] by auto
  have "list_all snd (checks g (int (length cps)) ?T (\<Sum>b \<leftarrow> ty_bins ?T. bin_gap b)) \<longleftrightarrow>
      20 \<le> length cps \<and> (8 \<le> number outcome cps \<and> 8 \<le> number (\<lambda>cp. \<not> outcome cp) cps) \<and>
      (0 < ?pred \<and> 90 * 100 * ?pred \<le> ?hits * 10000) \<and>
      (0 < number outcome cps \<and> 80 * 100 * number outcome cps \<le> ?hits * 10000) \<and>
      brier_score cps \<le> 15 / 100 \<and> calibration_error cps \<le> 10 / 100"
    unfolding checks_def Let_def pred tally_of_sums(1,2) brier pin brier_iff [OF assms(2)]
      round_gate_ece [OF assms(1,2), of ?t]
    by (simp add: hits)
  also have "\<dots> \<longleftrightarrow> gate_spec cps"
    unfolding gate_spec_def Let_def threshold_probability using prec rec by auto
  finally show ?thesis unfolding pin .
qed

lemma validated_inputs:
  assumes "validate_evaluation_inputs corpus ps policy = Inr ()"
  shows "policy_pinned policy" "list_all pair_ok (zip (co_cases corpus) (ps_predictions ps))"
    "co_cases corpus \<noteq> []" "ps_evaluation_mode ps \<in> {EVALUATION_MODE, LOCAL_MODEL_EVALUATION_MODE}"
  using assms
  by (auto simp: validate_evaluation_inputs_def rbind_eq_Inr Let_def positives_def MIN_CLASS_CASES_def
      intro: validate_pairs_ok split: if_splits)

text \<open>C11. The gate decides exactly the published criteria. For inputs that pass the validation the evaluation returns a
  report, the report never authorises production, and its verdict is true iff, over the real numbers and without any
  rounding, there are at least 20 cases with at least 8 of each class, precision at the threshold 0.85 is at least 0.9,
  recall at least 0.8, the Brier score at most 0.15 and the expected calibration error over tenths of the unit interval
  at most 0.1.\<close>

theorem gate_pass_iff:
  assumes "validate_evaluation_inputs corpus ps policy = Inr ()"
    and "ps_corpus_sha256 ps = co_sha256 corpus" and "length (co_cases corpus) = length (ps_predictions ps)"
  shows "\<exists>report. evaluate_confidence corpus ps policy = Inr report \<and>
    map_of report ''gate_pass'' = Some (PBool (gate_spec (zip (co_cases corpus) (ps_predictions ps)))) \<and>
    map_of report ''production_authorized'' = Some (PBool False)"
proof -
  let ?cps = "zip (co_cases corpus) (ps_predictions ps)"
  let ?T = "tally_of (gt_threshold_bps policy) ?cps"
  note v = validated_inputs [OF assms(1)]
  have ne: "?cps \<noteq> []" and len: "length (co_cases corpus) = length ?cps" using v(3) assms(3) by auto
  obtain ev where ev: "evidence_class (ps_evaluation_mode ps) = Inr ev" 
    using v(4) unfolding evidence_class_def by (cases "ps_evaluation_mode ps = EVALUATION_MODE") auto
  have loop: "tally_loop (gt_threshold_bps policy) ?cps empty_tally = Inr ?T"
    using tally_loop_spec [OF v(2), of "gt_threshold_bps policy" "[]"] by (simp add: tally_of_empty)
  note sums = tally_of_sums(4-8) [of "gt_threshold_bps policy" ?cps]
  obtain pb where pb: "ratio_bps (ty_true_positive ?T) (ty_true_positive ?T + ty_false_positive ?T) = Inr pb"
    using ratio_bps_ok sums(1,2) by (metis add_nonneg_nonneg)
  obtain rb where rb: "ratio_bps (ty_true_positive ?T) (ty_true_positive ?T + ty_false_negative ?T) = Inr rb"
    using ratio_bps_ok sums(1,4) by (metis add_nonneg_nonneg)
  obtain br where br: "round_ratio (ty_squared_error_sum ?T) (int (length ?cps) * 100) = Inr br"
    using round_ratio_ok [OF sums(5)] ne by (meson length_greater_0_conv mult_pos_pos of_nat_0_less_iff zero_less_numeral)
  obtain bins ece where bins: "build_calibration_bins (ty_bins ?T) (int (length ?cps)) = Inr (bins, ece)"
    "(\<Sum>b \<leftarrow> bins. rb_absolute_gap_sum_bps b) = (\<Sum>b \<leftarrow> ty_bins ?T. bin_gap b)"
    using build_bins_ok [OF v(2) ne] by blast
  show ?thesis
    unfolding evaluate_confidence_def len using assms(1,2) ev loop pb rb br bins assms(3) checks_spec [OF v(2) ne v(1)]
    by (simp add: Let_def split: prod.splits)
qed

subsection \<open>An evaluation\<close>

definition ex_case :: "nat \<Rightarrow> BenchmarkCase" where
  "ex_case i =
     \<lparr>bc_case_id = u ''case-'' @ [97 + i], bc_category = u ''demo'', bc_threat_description = u ''threat'',
      bc_yara_rule = u ''rule'', bc_expected_acceptable = (i < 10)\<rparr>"

definition ex_corpus :: BenchmarkCorpus where
  "ex_corpus = \<lparr>co_corpus_id = u ''demo'', co_cases = map ex_case [0..<20], co_sha256 = replicate 64 97\<rparr>"

definition ex_predictions :: PredictionSet where
  "ex_predictions =
     \<lparr>ps_evaluation_mode = EVALUATION_MODE, ps_corpus_sha256 = replicate 64 97, ps_subject_id = u ''demo'',
      ps_subject_sha256 = replicate 64 97, ps_prompt_sha256 = replicate 64 97,
      ps_predictions = map (\<lambda>i. \<lparr>cp_case_id = bc_case_id (ex_case i), cp_confidence_bps = (if i < 10 then 10000 else 0)\<rparr>) [0..<20],
      ps_sha256 = replicate 64 97\<rparr>"

definition ex_gate :: GatePolicy where
  "ex_gate =
     \<lparr>gt_threshold_bps = SUBMISSION_THRESHOLD_BPS, gt_calibration_bin_width_bps = CALIBRATION_BIN_WIDTH_BPS,
      gt_minimum_cases = MIN_CASES, gt_minimum_class_cases = MIN_CLASS_CASES, gt_minimum_precision_bps = MIN_PRECISION_BPS,
      gt_minimum_recall_bps = MIN_RECALL_BPS, gt_maximum_brier_score_ppm = MAX_BRIER_PPM,
      gt_maximum_expected_calibration_error_bps = MAX_ECE_BPS, gt_sha256 = replicate 64 97\<rparr>"

lemma ex_validate: "validate_evaluation_inputs ex_corpus ex_predictions ex_gate = Inr ()"
  by code_simp

theorem gate_pass_iff_witness:
  "\<exists>report. evaluate_confidence ex_corpus ex_predictions ex_gate = Inr report \<and>
     map_of report ''gate_pass'' = Some (PBool (gate_spec (zip (co_cases ex_corpus) (ps_predictions ex_predictions))))"
  using gate_pass_iff [OF ex_validate] by (auto simp: ex_corpus_def ex_predictions_def)

end
