(* ===== verification/Semantic_Quality.thy ===== *)
theory Semantic_Quality
  imports Calibration_Gate
begin

text \<open>
  The offline evaluation of the pinned synthetic rule (\<open>jaeger/yara_semantic_quality.py\<close>): recipes of segments and the
  payloads derived from them, the canonical corpus, policy and manifest, the confusion matrix of the scanner's answers and
  the report. The engine YARA-X is a parameter: its version, what it finds in a source, what it builds, and whether
  a build matches a payload. Regular expressions, lines and JSON are those of the calibration module.
\<close>

subsection \<open>Constants\<close>

definition QUALITY_SCHEMA_VERSION :: int where
  "QUALITY_SCHEMA_VERSION = 1"
definition QUALITY_EVALUATOR_VERSION :: pystr where
  "QUALITY_EVALUATOR_VERSION = u ''guardian-yara-semantic-quality-eval-v1''"
definition QUALITY_EVIDENCE_KIND :: pystr where
  "QUALITY_EVIDENCE_KIND = u ''synthetic_offline''"
definition QUALITY_AUTHORITY :: pystr where
  "QUALITY_AUTHORITY = u ''none''"
definition QUALITY_DISCLAIMER :: pystr where
  "QUALITY_DISCLAIMER = u ''Synthetic offline evaluation only; not production detection quality, adversarial robustness, certification, or authorization.''"
definition PINNED_YARA_X_VERSION :: pystr where
  "PINNED_YARA_X_VERSION = u ''1.4.0''"
definition RECIPE_DOMAIN :: bytes where
  "RECIPE_DOMAIN = ascii_bytes (u ''prometheus-guardian-yara-semantic-quality-recipe-v1'') @ [0]"
definition QUALITY_MIN_CASES :: int where
  "QUALITY_MIN_CASES = 20"
definition QUALITY_MAX_CASES :: int where
  "QUALITY_MAX_CASES = 64"
definition QUALITY_MIN_CLASS_CASES :: int where
  "QUALITY_MIN_CLASS_CASES = 8"
definition QUALITY_MIN_PRECISION_BPS :: int where
  "QUALITY_MIN_PRECISION_BPS = 10000"
definition QUALITY_MIN_RECALL_BPS :: int where
  "QUALITY_MIN_RECALL_BPS = 10000"
definition MIN_SPECIFICITY_BPS :: int where
  "MIN_SPECIFICITY_BPS = 10000"
definition QUALITY_MAX_CORPUS_BYTES :: nat where
  "QUALITY_MAX_CORPUS_BYTES = 262144"
definition QUALITY_MAX_POLICY_BYTES :: nat where
  "QUALITY_MAX_POLICY_BYTES = 4096"
definition QUALITY_MAX_MANIFEST_BYTES :: nat where
  "QUALITY_MAX_MANIFEST_BYTES = 4096"
definition QUALITY_MAX_REPORT_BYTES :: nat where
  "QUALITY_MAX_REPORT_BYTES = 65536"
definition MAX_IMPLEMENTATION_BYTES :: nat where
  "MAX_IMPLEMENTATION_BYTES = 262144"
definition QUALITY_MAX_LINE_BYTES :: nat where
  "QUALITY_MAX_LINE_BYTES = 16384"
definition MAX_SEGMENTS_PER_CASE :: nat where
  "MAX_SEGMENTS_PER_CASE = 8"
definition MAX_PAYLOAD_BYTES :: nat where
  "MAX_PAYLOAD_BYTES = 4096"
definition MAX_RULE_BYTES :: nat where
  "MAX_RULE_BYTES = 8192"
definition CORPUS_ID :: pystr where
  "CORPUS_ID = u ''yara-semantic-quality-corpus-v1''"
definition POLICY_ID :: pystr where
  "POLICY_ID = u ''guardian-yara-semantic-quality-gate-v1''"

definition CANDIDATE_RULE_SOURCE :: pystr where
  "CANDIDATE_RULE_SOURCE =
     u ''rule prometheus_gh177_synthetic_probe {'' @ [10] @
     u ''    strings:'' @ [10] @
     u ''        $p0 = '' @ [34] @ u ''PROM-SYNTH-177-ALPHA'' @ [34, 10] @
     u ''        $p1 = { 50 52 4F 4D 2D 31 37 37 2D 42 45 54 41 00 1F }'' @ [10] @
     u ''    condition:'' @ [10] @
     u ''        any of them'' @ [10] @
     u ''}''"

definition CANDIDATE_RULE_SHA256 :: pystr where
  "CANDIDATE_RULE_SHA256 = sha256_hex (ascii_bytes CANDIDATE_RULE_SOURCE)"

definition FORBIDDEN_PAYLOAD_MAGICS :: "bytes list" where
  "FORBIDDEN_PAYLOAD_MAGICS =
     [ascii_bytes (u ''MZ''), 127 # ascii_bytes (u ''ELF''), [254, 237, 250, 206], [254, 237, 250, 207],
      [206, 250, 237, 254], [207, 250, 237, 254], [202, 254, 186, 190]]"

subsection \<open>Data\<close>

text \<open>The value of a segment is an integer or a text, depending on its kind.\<close>

record Segment =
  sg_kind :: pystr
  sg_value :: pyval
  sg_count :: int

record QualityCase =
  qc_case_id :: pystr
  qc_expected_match :: bool
  qc_segments :: "Segment list"
  qc_payload :: bytes

record QualityCorpus =
  qs_corpus_id :: pystr
  qs_cases :: "QualityCase list"
  qs_sha256 :: pystr

record QualityPolicy =
  qp_minimum_cases :: int
  qp_minimum_class_cases :: int
  qp_minimum_precision_bps :: int
  qp_minimum_recall_bps :: int
  qp_minimum_specificity_bps :: int
  qp_rule_sha256 :: pystr
  qp_sha256 :: pystr

record QualityIntegrityManifest =
  qm_corpus_sha256 :: pystr
  qm_policy_sha256 :: pystr
  qm_implementation_sha256 :: pystr
  qm_expected_report_sha256 :: pystr

text \<open>The engine: the installed version (\<open>None\<close> when the package is missing), whether a source has errors or warnings, the
  rules built from it and the answer of a scan (\<open>None\<close> for any exception).\<close>

record 'r yara_x =
  yx_version :: "pystr option"
  yx_errors :: "pystr \<Rightarrow> bool"
  yx_warnings :: "pystr \<Rightarrow> bool"
  yx_build :: "pystr \<Rightarrow> 'r option"
  yx_scan :: "'r \<Rightarrow> bytes \<Rightarrow> bool option"

subsection \<open>Field checks\<close>

abbreviation rejected :: "pyexc + 'a" where
  "rejected \<equiv> Inl YaraSemanticQualityError"

definition quality_exact_int :: "pyval \<Rightarrow> pyexc + int" where
  "quality_exact_int v = (case v of PInt n \<Rightarrow> (if n < 0 then rejected else Inr n) | _ \<Rightarrow> rejected)"

definition bounded_count :: "pyval \<Rightarrow> pyexc + int" where
  "bounded_count v =
     rbind (quality_exact_int v) (\<lambda>count.
     if \<not> (1 \<le> count \<and> count \<le> int MAX_PAYLOAD_BYTES) then rejected else Inr count)"

definition quality_identifier :: "pyval \<Rightarrow> nat \<Rightarrow> pyexc + pystr" where
  "quality_identifier v maximum_length =
     (case v of
        PStr s \<Rightarrow> (if length s < 3 \<or> maximum_length < length s \<or> \<not> matches_identifier s then rejected else Inr s)
      | _ \<Rightarrow> rejected)"

definition quality_lower_hex_32 :: "pyval \<Rightarrow> pyexc + pystr" where
  "quality_lower_hex_32 v = (case v of PStr s \<Rightarrow> (if is_lower_hex 64 s then Inr s else rejected) | _ \<Rightarrow> rejected)"

definition quality_nonzero_lower_hex_32 :: "pyval \<Rightarrow> pyexc + pystr" where
  "quality_nonzero_lower_hex_32 v =
     rbind (quality_lower_hex_32 v) (\<lambda>s. if s = replicate 64 48 then rejected else Inr s)"

definition quality_round_ratio :: "int \<Rightarrow> int \<Rightarrow> pyexc + int" where
  "quality_round_ratio numerator denominator =
     (if denominator \<le> 0 \<or> numerator < 0 then rejected
      else Inr ((2 * numerator + denominator) div (2 * denominator)))"

definition quality_ratio_bps :: "int \<Rightarrow> int \<Rightarrow> pyexc + int option" where
  "quality_ratio_bps numerator denominator =
     (if denominator = 0 then Inr None
      else rbind (quality_round_ratio (numerator * 10000) denominator) (\<lambda>r. Inr (Some r)))"

subsection \<open>Canonical JSON\<close>

definition quality_canonical_object :: "py_env \<Rightarrow> bytes \<Rightarrow> pyexc + (pystr \<times> pyval) list" where
  "quality_canonical_object E raw =
     rbind (catch (loads_ascii (E\<lparr>json_constants := False\<rparr>) YaraSemanticQualityError (butlast raw)) is_value_error
              (\<lambda>_. rejected)) (\<lambda>value.
     case value of
       PDict d \<Rightarrow> (if ascii_json (PDict d) @ [10] \<noteq> raw then rejected else Inr d)
     | _ \<Rightarrow> rejected)"

definition quality_canonical_json :: "py_env \<Rightarrow> bytes \<Rightarrow> nat \<Rightarrow> pyexc + (pystr \<times> pyval) list" where
  "quality_canonical_json E raw maximum_bytes =
     (if raw = [] \<or> maximum_bytes < length raw \<or> last raw \<noteq> 10 then rejected else quality_canonical_object E raw)"

definition quality_canonical_line :: "py_env \<Rightarrow> bytes \<Rightarrow> pyexc + (pystr \<times> pyval) list" where
  "quality_canonical_line E line =
     (if line = [] \<or> last line \<noteq> 10 \<or> QUALITY_MAX_LINE_BYTES < length line then rejected
      else quality_canonical_object E line)"

definition quality_canonical_jsonl :: "py_env \<Rightarrow> bytes \<Rightarrow> nat \<Rightarrow> pyexc + (pystr \<times> pyval) list list" where
  "quality_canonical_jsonl E raw maximum_bytes =
     (if raw = [] \<or> maximum_bytes < length raw \<or> last raw \<noteq> 10 then rejected
      else let raw_lines = splitlines_keep raw
           in if length raw_lines < 2 then rejected else rmap (quality_canonical_line E) raw_lines)"

subsection \<open>Segments and payloads\<close>

definition printable_text :: "pystr \<Rightarrow> bool" where
  "printable_text s \<longleftrightarrow> list_all (\<lambda>c. 32 \<le> c \<and> c \<le> 126) s"

definition parse_segment :: "pyval \<Rightarrow> pyexc + Segment" where
  "parse_segment v =
     (case v of
        PDict d \<Rightarrow>
          (let kind = dict_at d ''kind'' in
           if kind = plit ''fill'' then
             (if \<not> has_keys [''kind'', ''value'', ''count''] d then rejected
              else rbind (quality_exact_int (dict_at d ''value'')) (\<lambda>byte_value.
                   if 255 < byte_value then rejected
                   else rbind (bounded_count (dict_at d ''count'')) (\<lambda>count.
                        Inr \<lparr>sg_kind = u ''fill'', sg_value = PInt byte_value, sg_count = count\<rparr>)))
           else if kind = plit ''ascii'' then
             (if \<not> has_keys [''kind'', ''text''] d then rejected
              else case dict_at d ''text'' of
                     PStr text \<Rightarrow>
                       (if \<not> (1 \<le> length text \<and> length text \<le> 512) \<or> \<not> printable_text text then rejected
                        else Inr \<lparr>sg_kind = u ''ascii'', sg_value = PStr text, sg_count = int (length text)\<rparr>)
                   | _ \<Rightarrow> rejected)
           else if kind = plit ''hex'' then
             (if \<not> has_keys [''kind'', ''value''] d then rejected
              else case dict_at d ''value'' of
                     PStr hex_text \<Rightarrow>
                       (if \<not> (2 \<le> length hex_text \<and> length hex_text \<le> 1024) \<or> length hex_text mod 2 \<noteq> 0 \<or>
                           \<not> list_all is_hex_char hex_text then rejected
                        else Inr \<lparr>sg_kind = u ''hex'', sg_value = PStr hex_text, sg_count = int (length hex_text div 2)\<rparr>)
                   | _ \<Rightarrow> rejected)
           else if kind = plit ''digest_walk'' then
             (if \<not> has_keys [''kind'', ''seed'', ''count''] d then rejected
              else rbind (quality_exact_int (dict_at d ''seed'')) (\<lambda>seed.
                   if 4294967295 < seed then rejected
                   else rbind (bounded_count (dict_at d ''count'')) (\<lambda>count.
                        Inr \<lparr>sg_kind = u ''digest_walk'', sg_value = PInt seed, sg_count = count\<rparr>)))
           else rejected)
      | _ \<Rightarrow> rejected)"

text \<open>\<open>int.to_bytes(k, "little")\<close>\<close>

definition le_bytes :: "nat \<Rightarrow> nat \<Rightarrow> bytes" where
  "le_bytes k n = rev (be_bytes k n)"

definition walk_block :: "nat \<Rightarrow> nat \<Rightarrow> bytes" where
  "walk_block seed block = sha256 (RECIPE_DOMAIN @ le_bytes 8 seed @ le_bytes 4 block)"

function walk_loop :: "nat \<Rightarrow> nat \<Rightarrow> nat \<Rightarrow> bytes \<Rightarrow> bytes" where
  "walk_loop seed n block produced =
     (if length produced < n then walk_loop seed n (block + 1) (produced @ walk_block seed block)
      else take n produced)"
  by pat_completeness auto

lemma length_walk_block [simp]: "length (walk_block seed block) = 32"
  by (simp add: walk_block_def)

termination walk_loop
  by (relation "measure (\<lambda>(seed, n, block, produced). n - length produced)") auto

declare walk_loop.simps [simp del]

text \<open>The seed and the number of a block fit their widths in every segment that passed the checks: at most 128 blocks.\<close>

definition digest_walk :: "int \<Rightarrow> int \<Rightarrow> bytes" where
  "digest_walk seed n = walk_loop (nat seed) (nat n) 0 []"

text \<open>Both callers derive payloads only from segments that passed the checks, so the value has the type of the kind. On
  any other object the code raises an error of Python's own.\<close>

definition segment_bytes :: "Segment \<Rightarrow> pyexc + bytes" where
  "segment_bytes s =
     (if sg_kind s = u ''fill'' then
        (case sg_value s of PInt v \<Rightarrow> Inr (replicate (nat (sg_count s)) (of_int v)) | _ \<Rightarrow> Inl OtherError)
      else if sg_kind s = u ''ascii'' then
        (case sg_value s of PStr t \<Rightarrow> Inr (ascii_bytes t) | _ \<Rightarrow> Inl OtherError)
      else if sg_kind s = u ''hex'' then
        (case sg_value s of PStr t \<Rightarrow> Inr (bytes_fromhex t) | _ \<Rightarrow> Inl OtherError)
      else if sg_kind s = u ''digest_walk'' then
        (case sg_value s of PInt seed \<Rightarrow> Inr (digest_walk seed (sg_count s)) | _ \<Rightarrow> Inl OtherError)
      else rejected)"

definition has_magic :: "bytes \<Rightarrow> bool" where
  "has_magic payload \<longleftrightarrow> list_ex (\<lambda>magic. has_prefix magic payload) FORBIDDEN_PAYLOAD_MAGICS"

definition derive_payload :: "Segment list \<Rightarrow> pyexc + bytes" where
  "derive_payload segments =
     rbind (rmap segment_bytes segments) (\<lambda>parts.
     let payload = concat parts
     in if payload = [] \<or> MAX_PAYLOAD_BYTES < length payload then rejected
        else if has_magic payload then rejected
        else Inr payload)"

definition revalidate_segment :: "Segment \<Rightarrow> pyexc + unit" where
  "revalidate_segment s =
     (if sg_kind s = u ''fill'' then
        (case sg_value s of
           PInt v \<Rightarrow> (if \<not> (0 \<le> v \<and> v \<le> 255) \<or> bounded_count (PInt (sg_count s)) \<noteq> Inr (sg_count s) then rejected else Inr ())
         | _ \<Rightarrow> rejected)
      else if sg_kind s = u ''ascii'' then
        (case sg_value s of
           PStr t \<Rightarrow>
             (if \<not> (1 \<le> length t \<and> length t \<le> 512) \<or> \<not> printable_text t \<or> sg_count s \<noteq> int (length t) then rejected else Inr ())
         | _ \<Rightarrow> rejected)
      else if sg_kind s = u ''hex'' then
        (case sg_value s of
           PStr t \<Rightarrow>
             (if \<not> (2 \<le> length t \<and> length t \<le> 1024) \<or> length t mod 2 \<noteq> 0 \<or> \<not> list_all is_hex_char t \<or>
                 sg_count s \<noteq> int (length t div 2) then rejected else Inr ())
         | _ \<Rightarrow> rejected)
      else if sg_kind s = u ''digest_walk'' then
        (case sg_value s of
           PInt v \<Rightarrow>
             (if \<not> (0 \<le> v \<and> v \<le> 4294967295) \<or> bounded_count (PInt (sg_count s)) \<noteq> Inr (sg_count s) then rejected
              else Inr ())
         | _ \<Rightarrow> rejected)
      else rejected)"

definition canonical_segment :: "Segment \<Rightarrow> pyexc + pyval" where
  "canonical_segment s =
     rbind (revalidate_segment s) (\<lambda>_.
     if sg_kind s = u ''fill'' then
       Inr (items [(''kind'', plit ''fill''), (''value'', sg_value s), (''count'', PInt (sg_count s))])
     else if sg_kind s = u ''ascii'' then Inr (items [(''kind'', plit ''ascii''), (''text'', sg_value s)])
     else if sg_kind s = u ''hex'' then Inr (items [(''kind'', plit ''hex''), (''value'', sg_value s)])
     else if sg_kind s = u ''digest_walk'' then
       Inr (items [(''kind'', plit ''digest_walk''), (''seed'', sg_value s), (''count'', PInt (sg_count s))])
     else rejected)"

subsection \<open>Corpus, policy and manifest\<close>

definition quality_parse_case :: "(pystr \<times> pyval) list \<Rightarrow> pyexc + QualityCase" where
  "quality_parse_case d =
     (if \<not> has_keys [''case_id'', ''expected_match'', ''segments''] d then rejected
      else case (dict_at d ''expected_match'', dict_at d ''segments'') of
             (PBool expected_match, PList raw_segments) \<Rightarrow>
               (if \<not> (1 \<le> length raw_segments \<and> length raw_segments \<le> MAX_SEGMENTS_PER_CASE) then rejected
                else rbind (rmap parse_segment raw_segments) (\<lambda>segments.
                     rbind (derive_payload segments) (\<lambda>payload.
                     rbind (quality_identifier (dict_at d ''case_id'') 64) (\<lambda>case_id.
                     Inr \<lparr>qc_case_id = case_id, qc_expected_match = expected_match, qc_segments = segments,
                          qc_payload = payload\<rparr>))))
           | _ \<Rightarrow> rejected)"

definition quality_positives :: "QualityCase list \<Rightarrow> int" where
  "quality_positives cs = number qc_expected_match cs"

definition quality_header_ok :: "(pystr \<times> pyval) list \<Rightarrow> bool" where
  "quality_header_ok header \<longleftrightarrow>
     has_keys [''schema_version'', ''evidence_kind'', ''authority'', ''disclaimer'', ''corpus_id''] header \<and>
     quality_exact_int (dict_at header ''schema_version'') = Inr QUALITY_SCHEMA_VERSION \<and>
     dict_at header ''evidence_kind'' = PStr QUALITY_EVIDENCE_KIND \<and> dict_at header ''authority'' = PStr QUALITY_AUTHORITY \<and>
     dict_at header ''disclaimer'' = PStr QUALITY_DISCLAIMER \<and> dict_at header ''corpus_id'' = PStr CORPUS_ID"

definition quality_parse_corpus :: "py_env \<Rightarrow> bytes \<Rightarrow> pyexc + QualityCorpus" where
  "quality_parse_corpus E raw =
     rbind (quality_canonical_jsonl E raw QUALITY_MAX_CORPUS_BYTES) (\<lambda>lines.
     if \<not> quality_header_ok (hd lines) then rejected
     else rbind (rmap quality_parse_case (tl lines)) (\<lambda>cases.
          let case_ids = map qc_case_id cases;
              positive_count = quality_positives cases;
              negative_count = int (length cases) - positive_count
          in if \<not> (QUALITY_MIN_CASES \<le> int (length cases) \<and> int (length cases) \<le> QUALITY_MAX_CASES) then rejected
             else if \<not> distinct case_ids \<or> case_ids \<noteq> sort case_ids then rejected
             else if positive_count < QUALITY_MIN_CLASS_CASES \<or> negative_count < QUALITY_MIN_CLASS_CASES then rejected
             else Inr \<lparr>qs_corpus_id = CORPUS_ID, qs_cases = cases, qs_sha256 = sha256_hex raw\<rparr>))"

definition quality_policy_constants :: "(string \<times> int) list" where
  "quality_policy_constants =
     [(''schema_version'', QUALITY_SCHEMA_VERSION), (''minimum_cases'', QUALITY_MIN_CASES),
      (''minimum_class_cases'', QUALITY_MIN_CLASS_CASES), (''minimum_precision_bps'', QUALITY_MIN_PRECISION_BPS),
      (''minimum_recall_bps'', QUALITY_MIN_RECALL_BPS), (''minimum_specificity_bps'', MIN_SPECIFICITY_BPS)]"

text \<open>Every test raises the same error, so their order does not matter.\<close>

definition quality_parse_policy :: "py_env \<Rightarrow> bytes \<Rightarrow> pyexc + QualityPolicy" where
  "quality_parse_policy E raw =
     rbind (quality_canonical_json E raw QUALITY_MAX_POLICY_BYTES) (\<lambda>d.
     if \<not> has_keys [''schema_version'', ''policy_id'', ''rule_sha256'', ''minimum_cases'', ''minimum_class_cases'',
                   ''minimum_precision_bps'', ''minimum_recall_bps'', ''minimum_specificity_bps'', ''authority'',
                   ''disclaimer''] d then rejected
     else if list_ex (\<lambda>(k, n). quality_exact_int (dict_at d k) \<noteq> Inr n) quality_policy_constants \<or>
             dict_at d ''policy_id'' \<noteq> PStr POLICY_ID \<or>
             quality_nonzero_lower_hex_32 (dict_at d ''rule_sha256'') \<noteq> Inr CANDIDATE_RULE_SHA256 \<or>
             dict_at d ''authority'' \<noteq> PStr QUALITY_AUTHORITY \<or> dict_at d ''disclaimer'' \<noteq> PStr QUALITY_DISCLAIMER
     then rejected
     else Inr \<lparr>qp_minimum_cases = QUALITY_MIN_CASES, qp_minimum_class_cases = QUALITY_MIN_CLASS_CASES,
               qp_minimum_precision_bps = QUALITY_MIN_PRECISION_BPS, qp_minimum_recall_bps = QUALITY_MIN_RECALL_BPS,
               qp_minimum_specificity_bps = MIN_SPECIFICITY_BPS, qp_rule_sha256 = CANDIDATE_RULE_SHA256,
               qp_sha256 = sha256_hex raw\<rparr>)"

definition quality_parse_manifest :: "py_env \<Rightarrow> bytes \<Rightarrow> pyexc + QualityIntegrityManifest" where
  "quality_parse_manifest E raw =
     rbind (quality_canonical_json E raw QUALITY_MAX_MANIFEST_BYTES) (\<lambda>d.
     if \<not> has_keys [''schema_version'', ''evaluator_version'', ''corpus_sha256'', ''policy_sha256'',
                   ''implementation_sha256'', ''expected_report_sha256''] d then rejected
     else rbind (quality_exact_int (dict_at d ''schema_version'')) (\<lambda>version.
          if version \<noteq> QUALITY_SCHEMA_VERSION \<or> dict_at d ''evaluator_version'' \<noteq> PStr QUALITY_EVALUATOR_VERSION then rejected
          else rbind (quality_nonzero_lower_hex_32 (dict_at d ''corpus_sha256'')) (\<lambda>c.
               rbind (quality_nonzero_lower_hex_32 (dict_at d ''policy_sha256'')) (\<lambda>p.
               rbind (quality_nonzero_lower_hex_32 (dict_at d ''implementation_sha256'')) (\<lambda>i.
               rbind (quality_nonzero_lower_hex_32 (dict_at d ''expected_report_sha256'')) (\<lambda>r.
               Inr \<lparr>qm_corpus_sha256 = c, qm_policy_sha256 = p, qm_implementation_sha256 = i,
                    qm_expected_report_sha256 = r\<rparr>))))))"

definition corpus_header :: pyval where
  "corpus_header = items
     [(''schema_version'', PInt QUALITY_SCHEMA_VERSION), (''evidence_kind'', PStr QUALITY_EVIDENCE_KIND),
      (''authority'', PStr QUALITY_AUTHORITY), (''disclaimer'', PStr QUALITY_DISCLAIMER), (''corpus_id'', PStr CORPUS_ID)]"

definition canonical_case :: "QualityCase \<Rightarrow> pyexc + pyval" where
  "canonical_case c =
     rbind (rmap canonical_segment (qc_segments c)) (\<lambda>segments.
     Inr (items [(''case_id'', PStr (qc_case_id c)), (''expected_match'', PBool (qc_expected_match c)),
                 (''segments'', PList segments)]))"

definition canonical_corpus_bytes :: "QualityCorpus \<Rightarrow> pyexc + bytes" where
  "canonical_corpus_bytes corpus =
     rbind (rmap canonical_case (qs_cases corpus)) (\<lambda>values.
     Inr (concat (map (\<lambda>v. ascii_json v @ [10]) (corpus_header # values))))"

definition canonical_policy_bytes :: "QualityPolicy \<Rightarrow> bytes" where
  "canonical_policy_bytes p =
     ascii_json (items
       [(''schema_version'', PInt QUALITY_SCHEMA_VERSION), (''policy_id'', PStr POLICY_ID),
        (''rule_sha256'', PStr (qp_rule_sha256 p)), (''minimum_cases'', PInt (qp_minimum_cases p)),
        (''minimum_class_cases'', PInt (qp_minimum_class_cases p)),
        (''minimum_precision_bps'', PInt (qp_minimum_precision_bps p)),
        (''minimum_recall_bps'', PInt (qp_minimum_recall_bps p)),
        (''minimum_specificity_bps'', PInt (qp_minimum_specificity_bps p)), (''authority'', PStr QUALITY_AUTHORITY),
        (''disclaimer'', PStr QUALITY_DISCLAIMER)]) @ [10]"

subsection \<open>The engine\<close>

text \<open>\<open>str.splitlines()\<close> and \<open>str.strip()\<close>\<close>

definition is_line_end :: "nat \<Rightarrow> bool" where
  "is_line_end c \<longleftrightarrow> c \<in> {10, 11, 12, 13, 28, 29, 30, 133, 8232, 8233}"

fun str_splitlines :: "pystr \<Rightarrow> pystr list" where
  "str_splitlines [] = []"
| "str_splitlines (c # s) =
     (if c = 13 then
        (case s of [] \<Rightarrow> [[]] | d # r \<Rightarrow> (if d = 10 then [] # str_splitlines r else [] # str_splitlines s))
      else if is_line_end c then [] # str_splitlines s
      else (case str_splitlines s of [] \<Rightarrow> [[c]] | l # ls \<Rightarrow> (c # l) # ls))"

definition is_space :: "nat \<Rightarrow> bool" where
  "is_space c \<longleftrightarrow>
     (9 \<le> c \<and> c \<le> 13) \<or> (28 \<le> c \<and> c \<le> 32) \<or> c \<in> {133, 160, 5760, 8232, 8233, 8239, 8287, 12288} \<or> (8192 \<le> c \<and> c \<le> 8202)"

definition str_strip :: "pystr \<Rightarrow> pystr" where
  "str_strip s = rev (dropWhile is_space (rev (dropWhile is_space s)))"

fun rule_declarations :: "pystr list \<Rightarrow> int \<Rightarrow> pyexc + int" where
  "rule_declarations [] n = Inr n"
| "rule_declarations (line # ls) n =
     (let stripped = str_strip line
      in if has_prefix (u ''import'') stripped \<or> has_prefix (u ''include'') stripped then rejected
         else rule_declarations ls (if has_prefix (u ''rule '') stripped then n + 1 else n))"

definition compile_pinned_rule :: "'r yara_x \<Rightarrow> pyexc + 'r" where
  "compile_pinned_rule Y =
     (let source = CANDIDATE_RULE_SOURCE
      in if source = [] \<or> \<not> is_ascii source \<or> 0 \<in> set source \<or> MAX_RULE_BYTES < length (ascii_bytes source) then rejected
         else rbind (rule_declarations (str_splitlines source) 0) (\<lambda>declarations.
              if declarations \<noteq> 1 then rejected
              else if yx_errors Y source \<or> yx_warnings Y source then rejected
              else case yx_build Y source of None \<Rightarrow> rejected | Some rules \<Rightarrow> Inr rules))"

definition scan_in_memory :: "'r yara_x \<Rightarrow> 'r \<Rightarrow> bytes \<Rightarrow> pyexc + bool" where
  "scan_in_memory Y rules payload =
     (if payload = [] then rejected
      else case yx_scan Y rules payload of None \<Rightarrow> rejected | Some matched \<Rightarrow> Inr matched)"

text \<open>The bytes of the module itself; \<open>None\<close> is an \<open>OSError\<close>.\<close>

definition implementation_sha256 :: "bytes option \<Rightarrow> pyexc + pystr" where
  "implementation_sha256 module_bytes =
     (case module_bytes of
        None \<Rightarrow> rejected
      | Some raw \<Rightarrow> (if raw = [] \<or> MAX_IMPLEMENTATION_BYTES < length raw then rejected else Inr (sha256_hex raw)))"

definition pinned_yara_x_version :: "'r yara_x \<Rightarrow> pyexc + pystr" where
  "pinned_yara_x_version Y =
     (case yx_version Y of
        None \<Rightarrow> rejected
      | Some version \<Rightarrow> (if version \<noteq> PINNED_YARA_X_VERSION then rejected else Inr version))"

subsection \<open>Evaluation\<close>

definition validate_case :: "QualityCase \<Rightarrow> pyexc + unit" where
  "validate_case c =
     (if \<not> (1 \<le> length (qc_segments c) \<and> length (qc_segments c) \<le> MAX_SEGMENTS_PER_CASE) then rejected
      else rbind (quality_identifier (PStr (qc_case_id c)) 64) (\<lambda>_.
           rbind (rmap revalidate_segment (qc_segments c)) (\<lambda>_.
           rbind (derive_payload (qc_segments c)) (\<lambda>derived_payload.
           if qc_payload c = [] \<or> MAX_PAYLOAD_BYTES < length (qc_payload c) \<or> qc_payload c \<noteq> derived_payload \<or>
              has_magic (qc_payload c) then rejected else Inr ()))))"

definition quality_policy_pinned :: "QualityPolicy \<Rightarrow> bool" where
  "quality_policy_pinned p \<longleftrightarrow>
     qp_minimum_cases p = QUALITY_MIN_CASES \<and> qp_minimum_class_cases p = QUALITY_MIN_CLASS_CASES \<and>
     qp_minimum_precision_bps p = QUALITY_MIN_PRECISION_BPS \<and> qp_minimum_recall_bps p = QUALITY_MIN_RECALL_BPS \<and>
     qp_minimum_specificity_bps p = MIN_SPECIFICITY_BPS \<and> qp_rule_sha256 p = CANDIDATE_RULE_SHA256"

definition quality_validate :: "QualityCorpus \<Rightarrow> QualityPolicy \<Rightarrow> pyexc + unit" where
  "quality_validate corpus policy =
     (if quality_lower_hex_32 (PStr (qs_sha256 corpus)) \<noteq> Inr (qs_sha256 corpus) \<or> qs_corpus_id corpus \<noteq> CORPUS_ID \<or>
         \<not> (QUALITY_MIN_CASES \<le> int (length (qs_cases corpus)) \<and> int (length (qs_cases corpus)) \<le> QUALITY_MAX_CASES) \<or>
         \<not> quality_policy_pinned policy \<or> quality_lower_hex_32 (PStr (qp_sha256 policy)) \<noteq> Inr (qp_sha256 policy) \<or>
         sha256_hex (canonical_policy_bytes policy) \<noteq> qp_sha256 policy then rejected
      else rbind (rmap validate_case (qs_cases corpus)) (\<lambda>_.
           let case_ids = map qc_case_id (qs_cases corpus)
           in if case_ids \<noteq> sort case_ids \<or> \<not> distinct case_ids \<or>
                 quality_positives (qs_cases corpus) < QUALITY_MIN_CLASS_CASES \<or>
                 number (\<lambda>c. \<not> qc_expected_match c) (qs_cases corpus) < QUALITY_MIN_CLASS_CASES then rejected
              else rbind (canonical_corpus_bytes corpus) (\<lambda>canonical.
                   if sha256_hex canonical \<noteq> qs_sha256 corpus then rejected else Inr ())))"

record confusion =
  cf_true_positive :: int
  cf_false_positive :: int
  cf_true_negative :: int
  cf_false_negative :: int

definition count_scan :: "bool \<Rightarrow> bool \<Rightarrow> confusion \<Rightarrow> confusion" where
  "count_scan expected matched T =
     (if expected \<and> matched then T\<lparr>cf_true_positive := cf_true_positive T + 1\<rparr>
      else if expected then T\<lparr>cf_false_negative := cf_false_negative T + 1\<rparr>
      else if matched then T\<lparr>cf_false_positive := cf_false_positive T + 1\<rparr>
      else T\<lparr>cf_true_negative := cf_true_negative T + 1\<rparr>)"

fun quality_scan_loop :: "'r yara_x \<Rightarrow> 'r \<Rightarrow> QualityCase list \<Rightarrow> confusion \<Rightarrow> pyexc + confusion" where
  "quality_scan_loop Y rules [] T = Inr T"
| "quality_scan_loop Y rules (c # cs) T =
     rbind (scan_in_memory Y rules (qc_payload c)) (\<lambda>matched.
     quality_scan_loop Y rules cs (count_scan (qc_expected_match c) matched T))"

definition quality_checks :: "QualityPolicy \<Rightarrow> int \<Rightarrow> confusion \<Rightarrow> (string \<times> bool) list" where
  "quality_checks p sample_count T =
     (let precision_denominator = cf_true_positive T + cf_false_positive T;
          recall_denominator = cf_true_positive T + cf_false_negative T;
          specificity_denominator = cf_true_negative T + cf_false_positive T
      in [(''minimum_sample_count'', qp_minimum_cases p \<le> sample_count),
          (''minimum_class_count'',
             qp_minimum_class_cases p \<le> recall_denominator \<and> qp_minimum_class_cases p \<le> specificity_denominator),
          (''minimum_precision'',
             0 < precision_denominator \<and> qp_minimum_precision_bps p * precision_denominator \<le> cf_true_positive T * 10000),
          (''minimum_recall'',
             0 < recall_denominator \<and> qp_minimum_recall_bps p * recall_denominator \<le> cf_true_positive T * 10000),
          (''minimum_specificity'',
             0 < specificity_denominator \<and>
             qp_minimum_specificity_bps p * specificity_denominator \<le> cf_true_negative T * 10000)])"

definition metric_items :: "int \<Rightarrow> int \<Rightarrow> int option \<Rightarrow> pyval" where
  "metric_items numerator denominator bps = items
     [(''numerator'', PInt numerator), (''denominator'', PInt denominator), (''bps'', optional_int bps)]"

definition evaluate_quality ::
  "'r yara_x \<Rightarrow> bytes option \<Rightarrow> QualityCorpus \<Rightarrow> QualityPolicy \<Rightarrow> pyexc + (string \<times> pyval) list" where
  "evaluate_quality Y module_bytes corpus policy =
     rbind (quality_validate corpus policy) (\<lambda>_.
     rbind (implementation_sha256 module_bytes) (\<lambda>implementation.
     rbind (pinned_yara_x_version Y) (\<lambda>version.
     rbind (compile_pinned_rule Y) (\<lambda>rules.
     rbind (quality_scan_loop Y rules (qs_cases corpus)
              \<lparr>cf_true_positive = 0, cf_false_positive = 0, cf_true_negative = 0, cf_false_negative = 0\<rparr>) (\<lambda>T.
     let sample_count = int (length (qs_cases corpus));
         precision_denominator = cf_true_positive T + cf_false_positive T;
         recall_denominator = cf_true_positive T + cf_false_negative T;
         specificity_denominator = cf_true_negative T + cf_false_positive T
     in rbind (quality_ratio_bps (cf_true_positive T) precision_denominator) (\<lambda>precision_bps.
        rbind (quality_ratio_bps (cf_true_positive T) recall_denominator) (\<lambda>recall_bps.
        rbind (quality_ratio_bps (cf_true_negative T) specificity_denominator) (\<lambda>specificity_bps.
        let results = quality_checks policy sample_count T
        in Inr
          [(''schema_version'', PInt QUALITY_SCHEMA_VERSION), (''evaluator_version'', PStr QUALITY_EVALUATOR_VERSION),
           (''evidence_kind'', PStr QUALITY_EVIDENCE_KIND), (''authority'', PStr QUALITY_AUTHORITY),
           (''production_authorized'', PBool False), (''disclaimer'', PStr QUALITY_DISCLAIMER),
           (''corpus_id'', PStr (qs_corpus_id corpus)), (''corpus_sha256'', PStr (qs_sha256 corpus)),
           (''policy_sha256'', PStr (qp_sha256 policy)), (''implementation_sha256'', PStr implementation),
           (''yara_x_version'', PStr version), (''rule_sha256'', PStr (qp_rule_sha256 policy)),
           (''sample_count'', PInt sample_count),
           (''confusion_matrix'', items
              [(''true_positive'', PInt (cf_true_positive T)), (''false_positive'', PInt (cf_false_positive T)),
               (''true_negative'', PInt (cf_true_negative T)), (''false_negative'', PInt (cf_false_negative T))]),
           (''metrics'', items
              [(''precision'', metric_items (cf_true_positive T) precision_denominator precision_bps),
               (''recall'', metric_items (cf_true_positive T) recall_denominator recall_bps),
               (''specificity'', metric_items (cf_true_negative T) specificity_denominator specificity_bps)]),
           (''policy'', items
              [(''minimum_cases'', PInt (qp_minimum_cases policy)),
               (''minimum_class_cases'', PInt (qp_minimum_class_cases policy)),
               (''minimum_precision_bps'', PInt (qp_minimum_precision_bps policy)),
               (''minimum_recall_bps'', PInt (qp_minimum_recall_bps policy)),
               (''minimum_specificity_bps'', PInt (qp_minimum_specificity_bps policy))]),
           (''checks'', items (map (\<lambda>(k, b). (k, PBool b)) results)),
           (''gate_pass'', PBool (list_all snd results))]))))))))"

definition quality_report_bytes :: "(string \<times> pyval) list \<Rightarrow> bytes" where
  "quality_report_bytes report = ascii_json (items report) @ [10]"

definition quality_verify_fixture_set ::
  "py_env \<Rightarrow> 'r yara_x \<Rightarrow> bytes option \<Rightarrow> bytes \<Rightarrow> bytes \<Rightarrow> bytes \<Rightarrow> bytes \<Rightarrow> pyexc + bytes" where
  "quality_verify_fixture_set E Y module_bytes corpus_bytes policy_bytes expected_report_bytes manifest_bytes =
     rbind (quality_parse_corpus E corpus_bytes) (\<lambda>corpus.
     rbind (quality_parse_policy E policy_bytes) (\<lambda>policy.
     rbind (quality_parse_manifest E manifest_bytes) (\<lambda>manifest.
     rbind (implementation_sha256 module_bytes) (\<lambda>implementation.
     if qm_corpus_sha256 manifest \<noteq> qs_sha256 corpus \<or> qm_policy_sha256 manifest \<noteq> qp_sha256 policy \<or>
        qm_implementation_sha256 manifest \<noteq> implementation \<or>
        qm_expected_report_sha256 manifest \<noteq> sha256_hex expected_report_bytes then rejected
     else rbind (quality_canonical_json E expected_report_bytes QUALITY_MAX_REPORT_BYTES) (\<lambda>expected_report.
          rbind (evaluate_quality Y module_bytes corpus policy) (\<lambda>report.
          let reproduced = quality_report_bytes report
          in if reproduced \<noteq> expected_report_bytes then rejected
             else rbind (loads_ascii E JSONDecodeError reproduced) (\<lambda>value.
                  if PDict expected_report \<noteq> value then rejected else Inr reproduced)))))))"

text \<open>\<open>_read_bounded\<close>: \<open>None\<close> is a path that is no regular file or an \<open>OSError\<close>.\<close>

definition quality_read_bounded :: "(nat \<times> bytes) option \<Rightarrow> nat \<Rightarrow> pyexc + bytes" where
  "quality_read_bounded file maximum_bytes =
     (case file of
        None \<Rightarrow> rejected
      | Some (file_size, raw) \<Rightarrow> (if maximum_bytes < file_size \<or> maximum_bytes < length raw then rejected else Inr raw))"

definition quality_main ::
  "py_env \<Rightarrow> 'r yara_x \<Rightarrow> bytes option \<Rightarrow> (nat \<times> bytes) option \<Rightarrow> (nat \<times> bytes) option \<Rightarrow> (nat \<times> bytes) option \<Rightarrow>
     (nat \<times> bytes) option \<Rightarrow> pyexc + int \<times> bytes" where
  "quality_main E Y module_bytes corpus policy expected_report manifest =
     (case rbind (quality_read_bounded corpus QUALITY_MAX_CORPUS_BYTES) (\<lambda>corpus_bytes.
           rbind (quality_read_bounded policy QUALITY_MAX_POLICY_BYTES) (\<lambda>policy_bytes.
           rbind (quality_read_bounded expected_report QUALITY_MAX_REPORT_BYTES) (\<lambda>report_bytes.
           rbind (quality_read_bounded manifest QUALITY_MAX_MANIFEST_BYTES) (\<lambda>manifest_bytes.
           quality_verify_fixture_set E Y module_bytes corpus_bytes policy_bytes report_bytes manifest_bytes)))) of
        Inl e \<Rightarrow> if e = YaraSemanticQualityError then Inr (2, []) else Inl e
      | Inr report \<Rightarrow> gate_status E report)"

subsection \<open>Parsed objects are canonical and pass the evaluation's own checks\<close>

lemma splitlines_concat: "concat (splitlines_keep bs) = bs"
proof (induction bs rule: splitlines_keep.induct)
  case (2 b bs)
  note keep = splitlines_keep.simps(2) [of b bs]
  show ?case
  proof (cases "b = 13")
    case True
    then show ?thesis using 2(2,3) unfolding keep by (cases bs) simp_all
  next
    case False
    then show ?thesis using 2(1,4) unfolding keep by (cases "splitlines_keep bs") auto
  qed
qed simp

lemma has_keys_dict:
  assumes "has_keys ks d" and "distinct ks"
  shows "PDict d = items (map (\<lambda>k. (k, dict_at d k)) ks)"
proof -
  have "map fst d = map u ks" using assms(1) by (simp add: has_keys_def)
  moreover have "distinct (map u ks)" using assms(2) by (simp add: distinct_map inj_on_def)
  ultimately have "d = map (\<lambda>k. (u k, dict_at d k)) ks"
  proof (induction ks arbitrary: d)
    case (Cons k ks)
    then obtain v d' where d: "d = (u k, v) # d'" "map fst d' = map u ks" by (cases d) auto
    have "dict_at d k' = dict_at d' k'" if "k' \<in> set ks" for k'
    proof -
      have "u k' \<noteq> u k" using that Cons.prems(2) by auto
      then show ?thesis by (simp add: d(1) dict_at_def)
    qed
    then have "map (\<lambda>k. (u k, dict_at d k)) ks = map (\<lambda>k. (u k, dict_at d' k)) ks" by simp
    moreover have "d' = map (\<lambda>k. (u k, dict_at d' k)) ks" using Cons.IH [OF d(2)] Cons.prems(2) by simp
    moreover have "dict_at d k = v" by (simp add: d(1) dict_at_def)
    ultimately have "(u k, v) # d' = map (\<lambda>k. (u k, dict_at d k)) (k # ks)" by (simp only: list.map)
    then show ?case by (rule trans [OF d(1)])
  qed simp
  then show ?thesis by (simp add: items_def comp_def)
qed

lemma quality_exact_int_Inr [simp]: "quality_exact_int v = Inr n \<longleftrightarrow> v = PInt n \<and> 0 \<le> n"
  by (cases v) (auto simp: quality_exact_int_def)

lemma bounded_count_Inr [simp]: "bounded_count v = Inr n \<longleftrightarrow> v = PInt n \<and> 1 \<le> n \<and> n \<le> int MAX_PAYLOAD_BYTES"
  by (auto simp: bounded_count_def rbind_eq_Inr)

lemma quality_lower_hex_Inr [simp]: "quality_lower_hex_32 v = Inr s \<longleftrightarrow> v = PStr s \<and> is_lower_hex 64 s"
  by (cases v) (auto simp: quality_lower_hex_32_def)

lemma quality_identifier_Inr:
  "quality_identifier v n = Inr s \<longleftrightarrow> v = PStr s \<and> 3 \<le> length s \<and> length s \<le> n \<and> matches_identifier s"
  by (cases v) (auto simp: quality_identifier_def)

lemma parse_segment_canonical:
  assumes "parse_segment v = Inr s"
  shows "canonical_segment s = Inr v" and "revalidate_segment s = Inr ()"
proof -
  obtain d where v: "v = PDict d" using assms by (cases v) (simp_all add: parse_segment_def)
  have kinds: "u ''fill'' \<noteq> u ''ascii''" "u ''fill'' \<noteq> u ''hex''" "u ''fill'' \<noteq> u ''digest_walk''" "u ''ascii'' \<noteq> u ''hex''"
    "u ''ascii'' \<noteq> u ''digest_walk''" "u ''hex'' \<noteq> u ''digest_walk''" by simp_all
  have d: "PDict d = items (map (\<lambda>k. (k, dict_at d k)) ks)" if "has_keys ks d" "distinct ks" for ks
    using has_keys_dict that by blast
  show "revalidate_segment s = Inr ()"
    using assms unfolding v parse_segment_def
    by (auto simp: Let_def rbind_eq_Inr revalidate_segment_def split: if_splits pyval.splits)
  then show "canonical_segment s = Inr v"
    using assms unfolding v parse_segment_def
    by (auto simp: Let_def rbind_eq_Inr canonical_segment_def d split: if_splits pyval.splits)
qed

lemma canonical_object_Inr:
  "quality_canonical_object E raw = Inr d \<Longrightarrow> ascii_json (PDict d) @ [10] = raw"
  by (auto simp: quality_canonical_object_def rbind_eq_Inr split: pyval.splits if_splits)

lemma rmap_inverse:
  assumes "rmap f xs = Inr ys" and "\<And>x y. f x = Inr y \<Longrightarrow> g y = Inr (h x)"
  shows "rmap g ys = Inr (map h xs)"
  using assms by (induction xs arbitrary: ys) (auto simp: rbind_eq_Inr)

lemma parse_case_canonical:
  assumes "quality_parse_case d = Inr c"
  shows "canonical_case c = Inr (PDict d)" and "validate_case c = Inr ()"
proof -
  obtain b vs segments payload case_id where keys: "has_keys [''case_id'', ''expected_match'', ''segments''] d"
    and d: "dict_at d ''expected_match'' = PBool b" "dict_at d ''segments'' = PList vs" "dict_at d ''case_id'' = PStr case_id"
    and len: "1 \<le> length vs" "length vs \<le> MAX_SEGMENTS_PER_CASE" and segs: "rmap parse_segment vs = Inr segments"
    and pay: "derive_payload segments = Inr payload" and idn: "quality_identifier (PStr case_id) 64 = Inr case_id"
    and c: "c = \<lparr>qc_case_id = case_id, qc_expected_match = b, qc_segments = segments, qc_payload = payload\<rparr>"
    using assms unfolding quality_parse_case_def
    by (auto simp: rbind_eq_Inr quality_identifier_Inr split: if_splits pyval.splits)
  have "rmap canonical_segment segments = Inr vs"
    using rmap_inverse [OF segs, of canonical_segment id] parse_segment_canonical(1) by simp
  then show "canonical_case c = Inr (PDict d)"
    by (simp add: canonical_case_def c has_keys_dict [OF keys] d)
  have "rmap revalidate_segment segments = Inr (map (\<lambda>_. ()) vs)"
    by (rule rmap_inverse [OF segs]) (rule parse_segment_canonical(2))
  moreover have "length segments = length vs"
    using segs by (simp add: rmap_eq_Inr_iff list_all2_lengthD)
  moreover have "payload \<noteq> []" "length payload \<le> MAX_PAYLOAD_BYTES" "\<not> has_magic payload"
    using pay by (auto simp: derive_payload_def rbind_eq_Inr Let_def split: if_splits)
  ultimately show "validate_case c = Inr ()"
    using len by (simp add: validate_case_def c pay idn)
qed

lemma corpus_header_canonical:
  assumes "quality_header_ok header"
  shows "PDict header = corpus_header"
proof -
  have "PDict header = items (map (\<lambda>k. (k, dict_at header k))
      [''schema_version'', ''evidence_kind'', ''authority'', ''disclaimer'', ''corpus_id''])"
    using assms by (intro has_keys_dict) (simp_all add: quality_header_ok_def)
  then show ?thesis using assms by (simp add: quality_header_ok_def corpus_header_def)
qed

lemma canonical_jsonl_Inr:
  assumes "quality_canonical_jsonl E raw m = Inr lines"
  shows "concat (map (\<lambda>d. ascii_json (PDict d) @ [10]) lines) = raw" and "2 \<le> length lines"
proof -
  have r: "rmap (quality_canonical_line E) (splitlines_keep raw) = Inr lines" and l: "2 \<le> length (splitlines_keep raw)"
    using assms by (auto simp: quality_canonical_jsonl_def Let_def split: if_splits)
  have all2: "list_all2 (\<lambda>x y. quality_canonical_line E x = Inr y) (splitlines_keep raw) lines"
    using r by (simp add: rmap_eq_Inr_iff)
  then have "list_all2 (\<lambda>x y. x = ascii_json (PDict y) @ [10]) (splitlines_keep raw) lines"
    by (rule list_all2_mono) (auto simp: quality_canonical_line_def dest: canonical_object_Inr split: if_splits)
  then have "splitlines_keep raw = map (\<lambda>d. ascii_json (PDict d) @ [10]) lines"
    by (simp add: list_all2_conv_all_nth list_eq_iff_nth_eq)
  then show "concat (map (\<lambda>d. ascii_json (PDict d) @ [10]) lines) = raw" using splitlines_concat [of raw] by simp
  show "2 \<le> length lines" using l all2 by (simp add: list_all2_lengthD)
qed

lemma number_partition: "number P xs + number (\<lambda>x. \<not> P x) xs = int (length xs)"
  unfolding number_def by (induction xs) auto

lemma parsed_corpus:
  assumes "quality_parse_corpus E raw = Inr corpus"
  shows "canonical_corpus_bytes corpus = Inr raw" and "qs_sha256 corpus = sha256_hex raw"
    and "rmap validate_case (qs_cases corpus) = Inr (map (\<lambda>_. ()) (qs_cases corpus))" and "qs_corpus_id corpus = CORPUS_ID"
    and "QUALITY_MIN_CASES \<le> int (length (qs_cases corpus))" and "int (length (qs_cases corpus)) \<le> QUALITY_MAX_CASES"
    and "distinct (map qc_case_id (qs_cases corpus))" and "sort (map qc_case_id (qs_cases corpus)) = map qc_case_id (qs_cases corpus)"
    and "QUALITY_MIN_CLASS_CASES \<le> quality_positives (qs_cases corpus)"
    and "QUALITY_MIN_CLASS_CASES \<le> number (\<lambda>c. \<not> qc_expected_match c) (qs_cases corpus)"
proof -
  obtain lines cases where lines: "quality_canonical_jsonl E raw QUALITY_MAX_CORPUS_BYTES = Inr lines"
    and hdr: "quality_header_ok (hd lines)" and cs: "rmap quality_parse_case (tl lines) = Inr cases"
    and n: "QUALITY_MIN_CASES \<le> int (length cases)" "int (length cases) \<le> QUALITY_MAX_CASES"
    and ids: "distinct (map qc_case_id cases)" "sort (map qc_case_id cases) = map qc_case_id cases"
    and cls: "QUALITY_MIN_CLASS_CASES \<le> quality_positives cases"
      "QUALITY_MIN_CLASS_CASES \<le> int (length cases) - quality_positives cases"
    and corpus: "corpus = \<lparr>qs_corpus_id = CORPUS_ID, qs_cases = cases, qs_sha256 = sha256_hex raw\<rparr>"
    using assms by (auto simp: quality_parse_corpus_def rbind_eq_Inr Let_def not_less split: if_splits)
  have "lines \<noteq> []" using canonical_jsonl_Inr(2) [OF lines] by auto
  then have split: "map PDict lines = corpus_header # map PDict (tl lines)"
    using corpus_header_canonical [OF hdr] by (cases lines) simp_all
  have "rmap canonical_case cases = Inr (map PDict (tl lines))"
    by (rule rmap_inverse [OF cs]) (rule parse_case_canonical(1))
  moreover have "concat (map (\<lambda>v. ascii_json v @ [10]) (map PDict lines)) = raw"
    using canonical_jsonl_Inr(1) [OF lines] by (simp add: comp_def)
  ultimately show "canonical_corpus_bytes corpus = Inr raw"
    by (simp add: canonical_corpus_bytes_def corpus split)
  have "rmap validate_case cases = Inr (map (\<lambda>_. ()) (tl lines))"
    by (rule rmap_inverse [OF cs]) (rule parse_case_canonical(2))
  moreover have "length (tl lines) = length cases"
    using cs by (simp only: rmap_eq_Inr_iff list_all2_lengthD)
  ultimately show "rmap validate_case (qs_cases corpus) = Inr (map (\<lambda>_. ()) (qs_cases corpus))"
    by (simp add: corpus map_replicate_const)
  show "QUALITY_MIN_CLASS_CASES \<le> number (\<lambda>c. \<not> qc_expected_match c) (qs_cases corpus)"
    using cls(2) number_partition [of qc_expected_match cases] by (simp add: corpus quality_positives_def)
qed (use assms in \<open>auto simp: quality_parse_corpus_def rbind_eq_Inr Let_def not_less split: if_splits\<close>)

lemma parsed_policy:
  assumes "quality_parse_policy E raw = Inr policy"
  shows "quality_policy_pinned policy" and "qp_sha256 policy = sha256_hex raw" and "canonical_policy_bytes policy = raw"
proof -
  let ?ks = "[''schema_version'', ''policy_id'', ''rule_sha256'', ''minimum_cases'', ''minimum_class_cases'',
    ''minimum_precision_bps'', ''minimum_recall_bps'', ''minimum_specificity_bps'', ''authority'', ''disclaimer'']"
  obtain d where d: "quality_canonical_json E raw QUALITY_MAX_POLICY_BYTES = Inr d" and keys: "has_keys ?ks d"
    and ints: "list_all (\<lambda>(k, n). quality_exact_int (dict_at d k) = Inr n) quality_policy_constants"
    and texts: "dict_at d ''policy_id'' = PStr POLICY_ID" "dict_at d ''authority'' = PStr QUALITY_AUTHORITY"
      "dict_at d ''disclaimer'' = PStr QUALITY_DISCLAIMER"
    and rule: "quality_nonzero_lower_hex_32 (dict_at d ''rule_sha256'') = Inr CANDIDATE_RULE_SHA256"
    and policy: "policy = \<lparr>qp_minimum_cases = QUALITY_MIN_CASES, qp_minimum_class_cases = QUALITY_MIN_CLASS_CASES,
      qp_minimum_precision_bps = QUALITY_MIN_PRECISION_BPS, qp_minimum_recall_bps = QUALITY_MIN_RECALL_BPS,
      qp_minimum_specificity_bps = MIN_SPECIFICITY_BPS, qp_rule_sha256 = CANDIDATE_RULE_SHA256, qp_sha256 = sha256_hex raw\<rparr>"
    using assms unfolding quality_parse_policy_def
    by (auto simp: rbind_eq_Inr list_all_iff list_ex_iff split: if_splits)
  show "quality_policy_pinned policy" "qp_sha256 policy = sha256_hex raw" by (simp_all add: policy quality_policy_pinned_def)
  have r: "dict_at d ''rule_sha256'' = PStr CANDIDATE_RULE_SHA256"
    using rule by (auto simp: quality_nonzero_lower_hex_32_def rbind_eq_Inr split: if_splits)
  have raw: "ascii_json (PDict d) @ [10] = raw"
    using d canonical_object_Inr by (auto simp: quality_canonical_json_def split: if_splits)
  have "PDict d = items (map (\<lambda>k. (k, dict_at d k)) ?ks)" by (rule has_keys_dict [OF keys]) simp
  then have "canonical_policy_bytes policy = ascii_json (PDict d) @ [10]"
    using ints by (simp add: canonical_policy_bytes_def policy texts r quality_policy_constants_def)
  then show "canonical_policy_bytes policy = raw" using raw by simp
qed

text \<open>What the parsers return always passes the validation at the start of an evaluation.\<close>

lemma parsed_inputs_valid:
  assumes "quality_parse_corpus E raw = Inr corpus" and "quality_parse_policy E policy_raw = Inr policy"
  shows "quality_validate corpus policy = Inr ()"
  using parsed_corpus [OF assms(1)] parsed_policy [OF assms(2)] by (simp add: quality_validate_def Let_def)

subsection \<open>Payloads\<close>

lemma length_walk_loop: "length (walk_loop seed n block produced) = n"
  by (induction seed n block produced rule: walk_loop.induct) (subst walk_loop.simps, simp)

text \<open>A segment that passed the checks contributes exactly its count of bytes.\<close>

lemma segment_bytes_length:
  assumes "revalidate_segment s = Inr ()"
  shows "\<exists>bs. segment_bytes s = Inr bs \<and> int (length bs) = sg_count s"
  using assms
  by (auto simp: revalidate_segment_def segment_bytes_def digest_walk_def length_walk_loop length_bytes_fromhex ascii_bytes_def
      split: if_splits pyval.splits)

lemma parsed_payload:
  assumes "quality_parse_case d = Inr c"
  shows "int (length (qc_payload c)) = (\<Sum>s \<leftarrow> qc_segments c. sg_count s)"
    and "1 \<le> length (qc_payload c)" and "length (qc_payload c) \<le> MAX_PAYLOAD_BYTES" and "\<not> has_magic (qc_payload c)"
proof -
  note v = parse_case_canonical(2) [OF assms]
  have pay: "derive_payload (qc_segments c) = Inr (qc_payload c)" and re: "list_all (\<lambda>s. revalidate_segment s = Inr ()) (qc_segments c)"
    using v by (auto simp: validate_case_def rbind_eq_Inr rmap_eq_Inr_iff list_all2_conv_all_nth list_all_length split: if_splits)
  obtain parts where parts: "rmap segment_bytes (qc_segments c) = Inr parts" "qc_payload c = concat parts"
    using pay by (auto simp: derive_payload_def rbind_eq_Inr Let_def split: if_splits)
  have "int (length (concat ps)) = (\<Sum>s \<leftarrow> ss. sg_count s)"
    if "rmap segment_bytes ss = Inr ps" "list_all (\<lambda>s. revalidate_segment s = Inr ()) ss" for ss ps
    using that
  proof (induction ss arbitrary: ps)
    case (Cons s ss)
    then show ?case using segment_bytes_length [of s] by (auto simp: rbind_eq_Inr)
  qed simp
  then show "int (length (qc_payload c)) = (\<Sum>s \<leftarrow> qc_segments c. sg_count s)" using parts re by simp
  show "1 \<le> length (qc_payload c)" "length (qc_payload c) \<le> MAX_PAYLOAD_BYTES" "\<not> has_magic (qc_payload c)"
    using pay by (auto simp: derive_payload_def rbind_eq_Inr Let_def Suc_le_eq split: if_splits)
qed

subsection \<open>The verdict\<close>

lemma compile_pinned_rule_eq:
  "compile_pinned_rule Y =
     (if yx_errors Y CANDIDATE_RULE_SOURCE \<or> yx_warnings Y CANDIDATE_RULE_SOURCE then rejected
      else case yx_build Y CANDIDATE_RULE_SOURCE of None \<Rightarrow> rejected | Some rules \<Rightarrow> Inr rules)"
proof -
  have ok: "CANDIDATE_RULE_SOURCE \<noteq> []" "is_ascii CANDIDATE_RULE_SOURCE" "0 \<notin> set CANDIDATE_RULE_SOURCE"
    "length CANDIDATE_RULE_SOURCE \<le> MAX_RULE_BYTES"
    by (simp_all add: CANDIDATE_RULE_SOURCE_def u_def is_ascii_def MAX_RULE_BYTES_def)
  have "rule_declarations (str_splitlines CANDIDATE_RULE_SOURCE) 0 = Inr 1"
    by (simp add: CANDIDATE_RULE_SOURCE_def u_def is_line_end_def str_strip_def is_space_def)
  with ok show ?thesis by (simp add: compile_pinned_rule_def Let_def ascii_bytes_def)
qed

text \<open>The evaluation needs its own source file, the pinned engine and an answer of the engine to every payload.\<close>

definition quality_ready :: "'r yara_x \<Rightarrow> bytes option \<Rightarrow> QualityCase list \<Rightarrow> bool" where
  "quality_ready Y module_bytes cases \<longleftrightarrow>
     (\<exists>raw. module_bytes = Some raw \<and> raw \<noteq> [] \<and> length raw \<le> MAX_IMPLEMENTATION_BYTES) \<and>
     yx_version Y = Some PINNED_YARA_X_VERSION \<and>
     \<not> yx_errors Y CANDIDATE_RULE_SOURCE \<and> \<not> yx_warnings Y CANDIDATE_RULE_SOURCE \<and>
     (\<exists>rules. yx_build Y CANDIDATE_RULE_SOURCE = Some rules \<and>
        (\<forall>c \<in> set cases. yx_scan Y rules (qc_payload c) \<noteq> None))"

definition all_as_expected :: "'r yara_x \<Rightarrow> QualityCase list \<Rightarrow> bool" where
  "all_as_expected Y cases \<longleftrightarrow>
     (\<exists>rules. yx_build Y CANDIDATE_RULE_SOURCE = Some rules \<and>
        (\<forall>c \<in> set cases. yx_scan Y rules (qc_payload c) = Some (qc_expected_match c)))"

abbreviation hit :: "'r yara_x \<Rightarrow> 'r \<Rightarrow> QualityCase \<Rightarrow> bool" where
  "hit Y rules c \<equiv> yx_scan Y rules (qc_payload c) = Some True"

definition confusion_of :: "'r yara_x \<Rightarrow> 'r \<Rightarrow> QualityCase list \<Rightarrow> confusion" where
  "confusion_of Y rules cs =
     \<lparr>cf_true_positive = number (\<lambda>c. qc_expected_match c \<and> hit Y rules c) cs,
      cf_false_positive = number (\<lambda>c. \<not> qc_expected_match c \<and> hit Y rules c) cs,
      cf_true_negative = number (\<lambda>c. \<not> qc_expected_match c \<and> \<not> hit Y rules c) cs,
      cf_false_negative = number (\<lambda>c. qc_expected_match c \<and> \<not> hit Y rules c) cs\<rparr>"

lemma quality_scan_loop_spec:
  assumes "\<forall>c \<in> set cs. qc_payload c \<noteq> [] \<and> yx_scan Y rules (qc_payload c) \<noteq> None"
  shows "quality_scan_loop Y rules cs (confusion_of Y rules ds) = Inr (confusion_of Y rules (ds @ cs))"
  using assms
proof (induction cs arbitrary: ds)
  case (Cons c cs)
  then obtain m where m: "yx_scan Y rules (qc_payload c) = Some m" "qc_payload c \<noteq> []" by auto
  have "count_scan (qc_expected_match c) m (confusion_of Y rules ds) = confusion_of Y rules (ds @ [c])"
    using m by (simp add: count_scan_def confusion_of_def)
  then show ?case using Cons.IH [of "ds @ [c]"] Cons.prems m by (simp add: scan_in_memory_def)
qed simp

lemma quality_scan_loop_fails:
  assumes "\<exists>c \<in> set cs. yx_scan Y rules (qc_payload c) = None"
  shows "quality_scan_loop Y rules cs T = rejected"
  using assms
proof (induction cs arbitrary: T)
  case (Cons c cs)
  show ?case
  proof (cases "yx_scan Y rules (qc_payload c)")
    case (Some m)
    then show ?thesis using Cons by (auto simp: scan_in_memory_def)
  qed (simp add: scan_in_memory_def)
qed simp

lemma number_zero_iff: "number P xs = 0 \<longleftrightarrow> (\<forall>x \<in> set xs. \<not> P x)"
  by (auto simp: number_def filter_empty_conv)

lemma quality_checks_iff:
  assumes "quality_policy_pinned p" and "20 \<le> length cs"
    and "8 \<le> quality_positives cs" and "8 \<le> number (\<lambda>c. \<not> qc_expected_match c) cs"
  shows "list_all snd (quality_checks p (int (length cs)) (confusion_of Y rules cs)) \<longleftrightarrow>
    (\<forall>c \<in> set cs. qc_expected_match c \<longleftrightarrow> hit Y rules c)"
proof -
  let ?T = "confusion_of Y rules cs"
  have pos: "cf_true_positive ?T + cf_false_negative ?T = quality_positives cs"
    and neg: "cf_true_negative ?T + cf_false_positive ?T = number (\<lambda>c. \<not> qc_expected_match c) cs"
    unfolding confusion_of_def number_def quality_positives_def by (induction cs) auto
  have nonneg: "0 \<le> cf_false_positive ?T" "0 \<le> cf_false_negative ?T" by (simp_all add: confusion_of_def)
  have pin: "qp_minimum_cases p = 20" "qp_minimum_class_cases p = 8" "qp_minimum_precision_bps p = 10000"
    "qp_minimum_recall_bps p = 10000" "qp_minimum_specificity_bps p = 10000"
    using assms(1) by (simp_all add: quality_policy_pinned_def QUALITY_MIN_CASES_def QUALITY_MIN_CLASS_CASES_def
        QUALITY_MIN_PRECISION_BPS_def QUALITY_MIN_RECALL_BPS_def MIN_SPECIFICITY_BPS_def)
  have "list_all snd (quality_checks p (int (length cs)) ?T) \<longleftrightarrow> cf_false_positive ?T = 0 \<and> cf_false_negative ?T = 0"
    using assms(2-4) nonneg pos neg by (auto simp: quality_checks_def Let_def pin)
  also have "\<dots> \<longleftrightarrow> (\<forall>c \<in> set cs. qc_expected_match c \<longleftrightarrow> hit Y rules c)"
    by (auto simp: confusion_of_def number_zero_iff)
  finally show ?thesis .
qed

lemma quality_ratio_ok: "0 \<le> n \<Longrightarrow> 0 \<le> d \<Longrightarrow> \<exists>r. quality_ratio_bps n d = Inr r"
  by (simp add: quality_ratio_bps_def quality_round_ratio_def)

lemma validated_quality:
  assumes "quality_validate corpus policy = Inr ()"
  shows "quality_policy_pinned policy" "20 \<le> length (qs_cases corpus)" "8 \<le> quality_positives (qs_cases corpus)"
    "8 \<le> number (\<lambda>c. \<not> qc_expected_match c) (qs_cases corpus)" "\<forall>c \<in> set (qs_cases corpus). qc_payload c \<noteq> []"
proof -
  show "\<forall>c \<in> set (qs_cases corpus). qc_payload c \<noteq> []"
  proof
    fix c assume "c \<in> set (qs_cases corpus)"
    then have "validate_case c = Inr ()"
      using assms by (auto simp: quality_validate_def rbind_eq_Inr rmap_eq_Inr_iff list_all2_conv_all_nth in_set_conv_nth
          split: if_splits)
    then show "qc_payload c \<noteq> []" by (auto simp: validate_case_def rbind_eq_Inr split: if_splits)
  qed
qed (use assms in \<open>auto simp: quality_validate_def rbind_eq_Inr Let_def QUALITY_MIN_CASES_def QUALITY_MIN_CLASS_CASES_def
    split: if_splits\<close>)

text \<open>C13. The verdict of the semantic quality gate. For a corpus and a policy that pass the validation, the evaluation
  returns a report iff the module can be read, the engine is the pinned version, compiles the pinned rule without errors and
  warnings and answers every scan; otherwise it raises the redacted error. The report never authorises production, and its
  gate passes iff the rule matches exactly the payloads that the corpus expects it to match.\<close>

theorem quality_gate_iff:
  assumes "quality_validate corpus policy = Inr ()"
  shows "if quality_ready Y module_bytes (qs_cases corpus)
    then \<exists>report. evaluate_quality Y module_bytes corpus policy = Inr report \<and>
      map_of report ''gate_pass'' = Some (PBool (all_as_expected Y (qs_cases corpus))) \<and>
      map_of report ''production_authorized'' = Some (PBool False)
    else evaluate_quality Y module_bytes corpus policy = Inl YaraSemanticQualityError"
proof (cases "quality_ready Y module_bytes (qs_cases corpus)")
  case True
  let ?cs = "qs_cases corpus"
  note v = validated_quality [OF assms]
  obtain raw rules where raw: "module_bytes = Some raw" "raw \<noteq> []" "length raw \<le> MAX_IMPLEMENTATION_BYTES"
    and ver: "yx_version Y = Some PINNED_YARA_X_VERSION"
    and clean: "\<not> yx_errors Y CANDIDATE_RULE_SOURCE" "\<not> yx_warnings Y CANDIDATE_RULE_SOURCE"
    and rules: "yx_build Y CANDIDATE_RULE_SOURCE = Some rules" "\<forall>c \<in> set ?cs. yx_scan Y rules (qc_payload c) \<noteq> None"
    using True unfolding quality_ready_def by blast
  let ?T = "confusion_of Y rules ?cs"
  have loop: "quality_scan_loop Y rules ?cs \<lparr>cf_true_positive = 0, cf_false_positive = 0, cf_true_negative = 0, cf_false_negative = 0\<rparr> = Inr ?T"
    using quality_scan_loop_spec [of ?cs Y rules "[]"] v(5) rules(2) by (simp add: confusion_of_def)
  have nonneg: "0 \<le> cf_true_positive ?T" "0 \<le> cf_false_positive ?T" "0 \<le> cf_true_negative ?T" "0 \<le> cf_false_negative ?T"
    by (simp_all add: confusion_of_def)
  obtain a b c where abc: "quality_ratio_bps (cf_true_positive ?T) (cf_true_positive ?T + cf_false_positive ?T) = Inr a"
    "quality_ratio_bps (cf_true_positive ?T) (cf_true_positive ?T + cf_false_negative ?T) = Inr b"
    "quality_ratio_bps (cf_true_negative ?T) (cf_true_negative ?T + cf_false_positive ?T) = Inr c"
    using nonneg quality_ratio_ok by (metis add_nonneg_nonneg)
  have "(\<forall>c \<in> set ?cs. qc_expected_match c \<longleftrightarrow> hit Y rules c) \<longleftrightarrow> all_as_expected Y ?cs"
    using rules by (auto simp: all_as_expected_def)
  then show ?thesis
    using quality_checks_iff [OF v(1-4), of Y rules] True assms raw ver clean rules loop abc
    by (simp add: evaluate_quality_def compile_pinned_rule_eq implementation_sha256_def pinned_yara_x_version_def Let_def)
next
  case False
  then have "evaluate_quality Y module_bytes corpus policy = Inl YaraSemanticQualityError"
    using quality_scan_loop_fails [of "qs_cases corpus" Y]
    by (auto simp: evaluate_quality_def assms implementation_sha256_def pinned_yara_x_version_def compile_pinned_rule_eq
        quality_ready_def Let_def not_le split: option.splits)
  then show ?thesis using False by simp
qed

subsection \<open>An evaluation\<close>

definition ex_probe :: pystr where
  "ex_probe = u ''PROM-SYNTH-177-ALPHA''"

definition ex_quality_case :: "nat \<Rightarrow> QualityCase" where
  "ex_quality_case i =
     (let text = (if i < 10 then ex_probe else u ''benign'')
      in \<lparr>qc_case_id = u ''case-'' @ [97 + i], qc_expected_match = (i < 10),
          qc_segments = [\<lparr>sg_kind = u ''ascii'', sg_value = PStr text, sg_count = int (length text)\<rparr>],
          qc_payload = ascii_bytes text\<rparr>)"

definition ex_quality_cases :: "QualityCase list" where
  "ex_quality_cases = map ex_quality_case [0..<20]"

definition ex_quality_values :: "pyval list" where
  "ex_quality_values =
     map (\<lambda>c. items [(''case_id'', PStr (qc_case_id c)), (''expected_match'', PBool (qc_expected_match c)),
       (''segments'', PList (map (\<lambda>s. items [(''kind'', plit ''ascii''), (''text'', sg_value s)]) (qc_segments c)))])
       ex_quality_cases"

definition ex_quality_corpus :: QualityCorpus where
  "ex_quality_corpus =
     \<lparr>qs_corpus_id = CORPUS_ID, qs_cases = ex_quality_cases,
      qs_sha256 = sha256_hex (concat (map (\<lambda>v. ascii_json v @ [10]) (corpus_header # ex_quality_values)))\<rparr>"

definition ex_quality_policy :: "pystr \<Rightarrow> QualityPolicy" where
  "ex_quality_policy digest =
     \<lparr>qp_minimum_cases = QUALITY_MIN_CASES, qp_minimum_class_cases = QUALITY_MIN_CLASS_CASES,
      qp_minimum_precision_bps = QUALITY_MIN_PRECISION_BPS, qp_minimum_recall_bps = QUALITY_MIN_RECALL_BPS,
      qp_minimum_specificity_bps = MIN_SPECIFICITY_BPS, qp_rule_sha256 = CANDIDATE_RULE_SHA256, qp_sha256 = digest\<rparr>"

text \<open>An engine that finds the text pattern of the pinned rule.\<close>

definition ex_engine :: "unit yara_x" where
  "ex_engine =
     \<lparr>yx_version = Some PINNED_YARA_X_VERSION, yx_errors = (\<lambda>_. False), yx_warnings = (\<lambda>_. False),
      yx_build = (\<lambda>_. Some ()), yx_scan = (\<lambda>_ payload. Some (contains (ascii_bytes ex_probe) payload))\<rparr>"

lemma ex_cases_valid: "rmap validate_case ex_quality_cases = Inr (replicate 20 ())"
  by code_simp

lemma ex_cases_canonical: "rmap canonical_case ex_quality_cases = Inr ex_quality_values"
  by code_simp

lemma ex_cases_ids:
  "sort (map qc_case_id ex_quality_cases) = map qc_case_id ex_quality_cases" "distinct (map qc_case_id ex_quality_cases)"
  "quality_positives ex_quality_cases = 10" "number (\<lambda>c. \<not> qc_expected_match c) ex_quality_cases = 10"
  by code_simp+

lemma ex_cases_matched:
  "list_all (\<lambda>c. contains (ascii_bytes ex_probe) (qc_payload c) = qc_expected_match c) ex_quality_cases"
  by code_simp

lemma ex_quality_valid:
  "quality_validate ex_quality_corpus (ex_quality_policy (sha256_hex (canonical_policy_bytes (ex_quality_policy [])))) = Inr ()"
proof -
  let ?d = "sha256_hex (canonical_policy_bytes (ex_quality_policy []))"
  have "canonical_policy_bytes (ex_quality_policy ?d) = canonical_policy_bytes (ex_quality_policy [])"
    by (simp add: canonical_policy_bytes_def ex_quality_policy_def)
  moreover have "quality_policy_pinned (ex_quality_policy d)" "qp_sha256 (ex_quality_policy d) = d" for d
    by (simp_all add: quality_policy_pinned_def ex_quality_policy_def)
  moreover have "length ex_quality_cases = 20" by (simp add: ex_quality_cases_def)
  ultimately show ?thesis
    by (simp add: quality_validate_def ex_quality_corpus_def canonical_corpus_bytes_def ex_cases_valid ex_cases_canonical
        ex_cases_ids QUALITY_MIN_CASES_def QUALITY_MAX_CASES_def QUALITY_MIN_CLASS_CASES_def)
qed

theorem quality_gate_iff_witness:
  "\<exists>report. evaluate_quality ex_engine (Some [0]) ex_quality_corpus
       (ex_quality_policy (sha256_hex (canonical_policy_bytes (ex_quality_policy [])))) = Inr report \<and>
     map_of report ''gate_pass'' = Some (PBool True)"
proof -
  have "quality_ready ex_engine (Some [0]) (qs_cases ex_quality_corpus)"
    by (simp add: quality_ready_def ex_engine_def MAX_IMPLEMENTATION_BYTES_def)
  moreover have "all_as_expected ex_engine (qs_cases ex_quality_corpus)"
    using ex_cases_matched by (simp add: all_as_expected_def ex_engine_def ex_quality_corpus_def list_all_iff)
  ultimately show ?thesis using quality_gate_iff [OF ex_quality_valid, of ex_engine "Some [0]"] by auto
qed

end
