(* ===== verification/Spec2Isabelle.thy ===== *)
theory Spec2Isabelle
  imports Yara_Validation Ballot_Ingress Hint_V1_Service Endpoint_Observation Analysis_Worker Semantic_Quality
begin

text \<open>
  \<^bold>\<open>The Prometheus Guardian node.\<close>

  A Guardian node receives threat hints from local peers, analyses them, turns an analysis into a YARA rule, and
  votes with the other Guardians of its committee on whether a rule may be published. This development models
  the Python package of the node, \<open>src/modules/guardian-node/jaeger\<close>, and proves the properties its modules
  promise. File names below are relative to that directory.

  \<^bold>\<open>Parts and how they interact.\<close>

  \<^item> \<^emph>\<open>Analysis.\<close> \<open>yara_validation.py\<close> decides whether a candidate rule source is lexically one rule without
    directives; \<open>yara_generator.py\<close> builds and judges rules; \<open>analyzer.py\<close> turns a hint into an analysis;
    \<open>hybrid_router.py\<close> runs a small model and escalates to a large one.
  \<^item> \<^emph>\<open>Votes.\<close> \<open>ensemble.py\<close> tallies the votes of a committee on a candidate. \<open>signed_ballots.py\<close> carries votes
    as signed ballots of a session, verifies them, and keeps a replay ledger. \<open>ballot_ingress.py\<close> receives
    ballots from peers, for sessions derived from the current membership. \<open>guardian_membership_source.py\<close> parses
    the committee document of an epoch; \<open>guardian_membership_transition.py\<close> advances the committee by signed
    transitions and rotates the authority key, in a ledger.
  \<^item> \<^emph>\<open>Version 1 hints.\<close> \<open>threat_hint_ingress.py\<close> receives canonical hints, has their proof checked by a pinned
    verifier process, and records each once in a replay ledger with an outbox. \<open>threat_hint_adapter.py\<close> drains
    the outbox into the analyzer; \<open>threat_hint_service.py\<close> reads the configuration and joins the two.
  \<^item> \<^emph>\<open>Version 2 hints.\<close> \<open>threat_observable.py\<close> is the canonical bundle of what was observed,
    \<open>observable_approval.py\<close> verifies a reviewer's signed approval of a bundle, \<open>threat_hint_v2_statement.py\<close> and
    \<open>threat_hint_v2_proof_envelope.py\<close> are the statement and its proof, and \<open>threat_hint_v2_transport.py\<close> carries
    all of them in one frame. \<open>threat_hint_v2_ingress.py\<close> takes a frame through a pipeline: the preflight
    (\<open>threat_hint_v2_preflight.py\<close>) binds the envelope to the pinned manifest (\<open>relation_manifest_v2.py\<close>,
    \<open>threat_hint_v2_proof_binding.py\<close>); the verified preflight (\<open>threat_hint_v2_verified_preflight.py\<close>) runs the
    proof verifier; acceptance (\<open>threat_hint_v2_acceptance.py\<close>) consumes the approval; promotion
    (\<open>threat_hint_v2_promotion.py\<close>, \<open>threat_hint_v2_governance.py\<close>) applies the owner's policy.
  \<^item> \<^emph>\<open>The approval ledger.\<close> \<open>observable_approval_consumption.py\<close> records consumed approvals and, in the same
    transaction, a record of the outbox. \<open>observable_analysis_worker.py\<close> claims such records under a lease,
    analyses them (\<open>observable_semantic_draft.py\<close>) and completes them; \<open>outbox_retention_policy.py\<close> bounds
    the outbox.
  \<^item> \<^emph>\<open>Evidence.\<close> \<open>endpoint_observation.py\<close> is the statement of a local observation;
    \<open>confidence_calibration.py\<close> is the offline gate on the calibration of confidences, and
    \<open>yara_semantic_quality.py\<close> the offline gate on what a pinned synthetic rule matches.

  \<^bold>\<open>Theories.\<close>

  \<^item> \<open>Py_Prelude\<close>, \<open>Py_Json\<close>, \<open>Py_Float\<close>, \<open>Py_Sha256\<close>, \<open>Py_Frame\<close>: the Python the modules use. Texts are lists of
    code points, bytes are 8-bit words, dynamic values are the datatype \<open>pyval\<close>, dictionaries are association lists in
    insertion order, exceptions are the left side of a sum. \<open>Py_Json\<close> has UTF-8, \<open>json.dumps\<close> and \<open>json.loads\<close>;
    \<open>Py_Float\<close> has binary64 values; \<open>Py_Sha256\<close> is executable SHA-256; \<open>Py_Frame\<close> has length-prefixed frames and
    what the ingress modules share.
  \<^item> \<open>Py_Json_Facts\<close>, \<open>Py_Commitment\<close>, \<open>Py_Document\<close>: decoding what was encoded gives the value back, sizes of
    encodings, and the two interfaces the components interpret: the locale \<open>canonical_codec\<close> (a decoder that
    accepts only what the encoder writes) and the locale \<open>json_commitment\<close> (a digest that binds a value).
    \<open>Py_Raises\<close> and \<open>Hint_Raises\<close>: which exceptions a computation may raise, in particular the parsers and
    verifiers of version 2 hints. \<open>Owner_File\<close>: the checked read of an owner file, from what the operating system
    answers for the path.
  \<^item> \<open>Yara_Validation\<close>: \<open>scan\<close> is the top-level scanner with its modes; it is equal to a reference lexer
    that reads one lexeme at a time, and acceptance is characterised by the words and rule names of the source.
  \<^item> \<open>Guardian_Analysis\<close>: generator, analyzer and router. The analyzer fulfils the locale
    \<open>threat_analyzer\<close>, from which the routing lemmas follow. Submission happens exactly for a validated rule of
    at least the policy confidence; an escaped exception, an unsafe or a missing analysis never submits.
  \<^item> \<open>Ensemble\<close>: \<open>evaluate\<close> implements the committee rule (a complete ballot of valid votes, one per
    member, with a strict majority), independently of the order of votes, and fails closed.
  \<^item> \<open>Signed_Ballots\<close>: sessions, signing requests, the wire format, the verifier, the ledger, the
    collector. Verified ballots are signed by the member they name and bound to session, candidate and
    committee; over every history of the ledger a session accepts one ballot per Guardian; an approval by the
    collector rests on a majority of signed ballots.
  \<^item> \<open>Membership_Source\<close>, \<open>Membership_Transition\<close>: the committee document with its two views, and the
    authority as a state machine. In every reachable ledger the applied transitions are a chain from
    the bootstrap source, each signed by the authority key of its time; nothing is applied twice;
    and the current source can always be read.
  \<^item> \<open>Ballot_Ingress\<close>: acknowledgements, sessions, processing of frames, connection permits, client. In
    every reachable state a ballot is accepted at most once, retransmission is idempotent, and the
    number of open connections and running workers stays within the permits.
  \<^item> \<open>Threat_Observable\<close>, \<open>Observable_Approval\<close>: bundles, commitments and approvals. Parsing and printing
    are inverse, commitments bind network, nonce and bundle, and verification of an approval is
    characterised completely.
  \<^item> \<open>Threat_Hint_V2\<close>, \<open>Threat_Hint_Transport\<close>, \<open>Relation_Manifest\<close>: statements, envelopes, frames and
    manifests, each a canonical codec; the digest of an envelope binds its statement, and any accepted parts
    travel in an accepted frame.
  \<^item> \<open>Threat_Hint_Preflight\<close>, \<open>Hint_Policies\<close>: both preflights with their policy, and the governance, retention
    and consumption policies. A preflight returns only what manifest, bundle and verifier agree on.
  \<^item> \<open>Approval_Ledger\<close>, \<open>Approval_Outbox\<close>, \<open>Ledger_Schema\<close>: the transactions of the consumption ledger, its outbox
    and the opening of the file with its checks and upgrades. \<open>Ledger_Invariant\<close> is the ledger as a step
    relation with its invariant; \<open>Ledger_Properties\<close> shows that an approval is used at most once, that a lease is
    exclusive, and that a record is completed at most once and can be completed.
  \<^item> \<open>Hint_Acceptance\<close>, \<open>Hint_Ingress\<close>: the acceptance and promotion services, and the version 2 ingress with its
    server. What is promoted and what is answered with accepted is characterised; over every interleaving of
    connections, workers and ledger calls an approval is accepted at most once.
  \<^item> \<open>Analysis_Worker\<close>: semantic drafts, analyzers, and the worker, which drains the outbox of every reachable
    ledger.
  \<^item> \<open>Hint_V1\<close>, \<open>Hint_V1_Service\<close>: the version 1 hint, its ledger and processing, then verifier, server, adapter and
    service. In every run a hint is accepted once, no accepted hint is lost before its delivery, and a drain
    delivers what is pending.
  \<^item> \<open>Endpoint_Observation\<close>: the statement of an observation; its parser accepts exactly the canonical statements.
  \<^item> \<open>Confidence_Calibration\<close>, \<open>Calibration_Gate\<close>: the parsers, integer metrics and checks of the gate, and that
    it decides exactly the published criteria, which are stated over the real numbers. \<open>Semantic_Quality\<close>: the
    synthetic corpus and its evaluation. What the parsers return passes the evaluation's own checks, and the
    gate passes exactly when the rule matches the payloads it is expected to match and no others.

  \<^bold>\<open>State.\<close> An object of a class is a record; the tables of a SQLite ledger are the fields of a record
  and an operation is one transaction, which returns the new ledger or an exception with the ledger unchanged.
  Sequences of operations are inductive step relations (\<open>ingress_step\<close>, \<open>authority_step\<close>, \<open>server_step\<close> and the
  ledger steps), and invariants are proved by induction over reachable states.

  \<^bold>\<open>Parameters.\<close> BIP340 verification (the package coincurve) is the record \<open>bip340\<close>: whether a key parses, and
  the result of verification, where \<open>None\<close> is \<open>ValueError\<close>. No law is assumed of it. The language model, the clock,
  the libyara compiler, tomllib, the random tokens of leases, the exit code of a proof verifier and the contents
  of files are arguments. What the operating system answers for a path, a descriptor or a peer is a record
  (\<open>stat_result\<close>, \<open>file_view\<close> and the views of sockets and ledger paths); whether SQLite answers is an
  argument of each transaction. The record \<open>py_env\<close> has the textual form of floats, whether the JSON decoder accepts
  \<open>NaN\<close> and \<open>Infinity\<close>, and the nesting depth at which it raises \<open>RecursionError\<close>;
  theorems on acceptance ask for the depth of the documents concerned. Collision resistance
  is not assumed: a binding theorem exhibits the two preimages that would collide.

  \<^bold>\<open>Bounds and fuel.\<close> The JSON decoder runs with fuel \<open>2 * length s + 2\<close>, and \<open>scan_fuel\<close> shows it never runs
  out. The scanner loop has a proof of termination. Size limits of the modules are kept as constants, and the
  encodings of valid objects are proved to fit them.

  \<^bold>\<open>Not modelled.\<close> libyara and YARA-X are called and never read: compilation and scanning are arguments. The event
  loop, the killing of process groups and the waiting for signals have no result of their own; a deadline is a
  step that drops a connection. For the ballot and membership ledgers and the ballot socket, the checks of paths
  and the declared layout of the tables are left out; such checks are modelled for the consumption ledger and for
  the ingress of versions 1 and 2. \<open>model_evidence.py\<close> and \<open>model_provenance.py\<close> read and hash model files, and
  \<open>llm_server.py\<close> is an HTTP client. The scripts of the repository check documents and deployments and
  are not part of the node.
\<close>

end
